(* ===== verification/Prelude.thy ===== *)
theory Prelude
  imports Main "HOL-Library.Multiset" "HOL-Library.Word"
begin

text \<open>
  What every component of the development shares: the hint collections, the Go string
  operations the crawler and the issue rules use, Go's 64-bit integer arithmetic, and the
  lemmas about them.

  A Go string is a sequence of bytes, so it is an Isabelle \<open>string\<close> (one \<open>char\<close> per byte).
  \<open>strings.ToLower\<close> and \<open>strings.TrimSpace\<close> are modelled on the bytes below 128; bytes of
  multi-byte runes are left as they are, where Go also maps non-ASCII letters and trims
  the few non-ASCII space characters.
\<close>

named_theorems go_string \<open>evaluation and algebra of the Go string operations\<close>
named_theorems run_inv \<open>preservation of the invariants of the crawl run\<close>
named_theorems frame \<open>what an operation leaves unchanged\<close>

section \<open>Results\<close>

text \<open>A Go call that returns \<open>(value, error)\<close>: \<open>Inl\<close> carries the error text.\<close>

type_synonym 'a result = "string + 'a"

fun bind_result :: "'a result \<Rightarrow> ('a \<Rightarrow> 'b result) \<Rightarrow> 'b result" where
  "bind_result (Inl e) f = Inl e"
| "bind_result (Inr x) f = f x"

lemma bind_result_Inr [simp]:
  "bind_result r f = Inr y \<longleftrightarrow> (\<exists>x. r = Inr x \<and> f x = Inr y)"
  by (cases r) auto

lemma bind_result_Inl [simp]:
  "bind_result r f = Inl e \<longleftrightarrow> r = Inl e \<or> (\<exists>x. r = Inr x \<and> f x = Inl e)"
  by (cases r) auto

definition is_ok :: "'a result \<Rightarrow> bool" where
  "is_ok r = (case r of Inl _ \<Rightarrow> False | Inr _ \<Rightarrow> True)"

section \<open>Bytes and strings\<close>

abbreviation byte :: "char \<Rightarrow> nat" where
  "byte c \<equiv> of_char c"

definition lower_char :: "char \<Rightarrow> char" where
  "lower_char c = (if 65 \<le> byte c \<and> byte c \<le> 90 then char_of (byte c + 32 :: nat) else c)"

definition upper_char :: "char \<Rightarrow> char" where
  "upper_char c = (if 97 \<le> byte c \<and> byte c \<le> 122 then char_of (byte c - 32 :: nat) else c)"

definition to_lower :: "string \<Rightarrow> string" where
  "to_lower s = map lower_char s"

definition to_upper :: "string \<Rightarrow> string" where
  "to_upper s = map upper_char s"

definition is_space :: "char \<Rightarrow> bool" where
  "is_space c = (byte c = 32 \<or> (9 \<le> byte c \<and> byte c \<le> 13))"

definition is_control :: "char \<Rightarrow> bool" where
  "is_control c = (byte c < 32 \<or> byte c = 127)"

definition is_digit :: "char \<Rightarrow> bool" where
  "is_digit c = (48 \<le> byte c \<and> byte c \<le> 57)"

definition is_letter :: "char \<Rightarrow> bool" where
  "is_letter c = ((65 \<le> byte c \<and> byte c \<le> 90) \<or> (97 \<le> byte c \<and> byte c \<le> 122))"

definition trim_left :: "string \<Rightarrow> string" where
  "trim_left s = dropWhile is_space s"

definition trim_right :: "string \<Rightarrow> string" where
  "trim_right s = rev (dropWhile is_space (rev s))"

definition trim_space :: "string \<Rightarrow> string" where
  "trim_space s = trim_right (trim_left s)"

text \<open>\<open>strings.HasPrefix(s, p)\<close> and \<open>strings.HasSuffix(s, p)\<close>.\<close>

fun has_prefix :: "string \<Rightarrow> string \<Rightarrow> bool" where
  "has_prefix s [] = True"
| "has_prefix [] (p # ps) = False"
| "has_prefix (c # s) (p # ps) = (c = p \<and> has_prefix s ps)"

definition has_suffix :: "string \<Rightarrow> string \<Rightarrow> bool" where
  "has_suffix s p = has_prefix (rev s) (rev p)"

definition trim_prefix :: "string \<Rightarrow> string \<Rightarrow> string" where
  "trim_prefix s p = (if has_prefix s p then drop (length p) s else s)"

text \<open>\<open>strings.Index\<close>: \<open>None\<close> is the result \<open>-1\<close>.\<close>

fun str_index :: "string \<Rightarrow> string \<Rightarrow> nat option" where
  "str_index s p =
     (if has_prefix s p then Some 0
      else (case s of [] \<Rightarrow> None | c # s' \<Rightarrow> map_option Suc (str_index s' p)))"

declare str_index.simps [simp del]

definition str_contains :: "string \<Rightarrow> string \<Rightarrow> bool" where
  "str_contains s p = (str_index s p \<noteq> None)"

text \<open>\<open>strings.IndexByte\<close>, \<open>strings.LastIndexByte\<close> and \<open>strings.IndexAny\<close>.\<close>

fun find_index :: "('a \<Rightarrow> bool) \<Rightarrow> 'a list \<Rightarrow> nat option" where
  "find_index P [] = None"
| "find_index P (x # xs) = (if P x then Some 0 else map_option Suc (find_index P xs))"

definition index_byte :: "string \<Rightarrow> char \<Rightarrow> nat option" where
  "index_byte s c = find_index (\<lambda>x. x = c) s"

definition last_index_byte :: "string \<Rightarrow> char \<Rightarrow> nat option" where
  "last_index_byte s c = map_option (\<lambda>i. length s - Suc i) (index_byte (rev s) c)"

text \<open>\<open>strings.Cut(s, sep)\<close> for a one-byte separator.\<close>

definition cut :: "string \<Rightarrow> char \<Rightarrow> string \<times> string \<times> bool" where
  "cut s c = (case index_byte s c of None \<Rightarrow> (s, [], False)
              | Some i \<Rightarrow> (take i s, drop (Suc i) s, True))"

text \<open>\<open>strings.Split(s, sep)\<close> for a one-byte separator, and \<open>strings.Join\<close>.\<close>

fun split_on :: "char \<Rightarrow> string \<Rightarrow> string list" where
  "split_on sep [] = [[]]"
| "split_on sep (c # s) =
     (if c = sep then [] # split_on sep s
      else (case split_on sep s of [] \<Rightarrow> [[c]] | p # ps \<Rightarrow> (c # p) # ps))"

fun join :: "string \<Rightarrow> string list \<Rightarrow> string" where
  "join sep [] = []"
| "join sep [s] = s"
| "join sep (s # t # ss) = s @ sep @ join sep (t # ss)"

text \<open>\<open>strings.Fields\<close>: the maximal runs of non-space bytes.\<close>

fun str_fields_acc :: "string \<Rightarrow> string \<Rightarrow> string list" where
  "str_fields_acc [] w = (if w = [] then [] else [rev w])"
| "str_fields_acc (c # s) w =
     (if is_space c then (if w = [] then str_fields_acc s [] else rev w # str_fields_acc s [])
      else str_fields_acc s (c # w))"

definition str_fields :: "string \<Rightarrow> string list" where
  "str_fields s = str_fields_acc s []"

text \<open>Byte-wise string order, the \<open><\<close> on Go strings.\<close>

fun str_less :: "string \<Rightarrow> string \<Rightarrow> bool" where
  "str_less s [] = False"
| "str_less [] (d # t) = True"
| "str_less (c # s) (d # t) = (byte c < byte d \<or> (c = d \<and> str_less s t))"

text \<open>Decimal rendering (\<open>%d\<close>).\<close>

fun digits_acc :: "nat \<Rightarrow> string \<Rightarrow> string" where
  "digits_acc n acc =
     (let acc' = char_of (48 + n mod 10 :: nat) # acc
      in if n < 10 then acc' else digits_acc (n div 10) acc')"

declare digits_acc.simps [simp del]

definition itoa :: "int \<Rightarrow> string" where
  "itoa i = (if i < 0 then CHR 0x2D # digits_acc (nat (- i)) [] else digits_acc (nat i) [])"

text \<open>\<open>%q\<close> of a string without characters that need escaping, used in error texts.\<close>

definition quoted :: "string \<Rightarrow> string" where
  "quoted s = [CHR 0x22] @ s @ [CHR 0x22]"

section \<open>Lemmas on strings\<close>

lemma has_prefix_iff: "has_prefix s p \<longleftrightarrow> (\<exists>r. s = p @ r)"
  by (induction s p rule: has_prefix.induct) auto

lemma has_prefix_append [simp]: "has_prefix (p @ r) p"
  by (auto simp: has_prefix_iff)

lemma has_suffix_iff: "has_suffix s p \<longleftrightarrow> (\<exists>r. s = r @ p)"
proof -
  have "has_suffix s p \<longleftrightarrow> (\<exists>r. rev s = rev p @ r)"
    by (simp add: has_suffix_def has_prefix_iff)
  also have "\<dots> \<longleftrightarrow> (\<exists>r. s = r @ p)"
    by (metis rev_append rev_rev_ident)
  finally show ?thesis .
qed

lemma has_suffix_append [simp]: "has_suffix (r @ p) p"
  by (auto simp: has_suffix_iff)

lemma str_index_NoneD: "str_index s p = None \<Longrightarrow> s \<noteq> g @ p @ r"
proof (induction s arbitrary: g)
  case Nil
  then show ?case by (auto simp: str_index.simps split: if_splits)
next
  case (Cons c s)
  then have np: "\<not> has_prefix (c # s) p" and n: "str_index s p = None"
    by (auto simp: str_index.simps [of "c # s"] split: if_splits)
  show ?case
  proof (cases g)
    case Nil
    with np show ?thesis by (auto simp: has_prefix_iff)
  next
    case (Cons d g')
    with Cons.IH [OF n, of g'] show ?thesis by auto
  qed
qed

lemma str_index_SomeD:
  "str_index s p = Some i \<Longrightarrow> s = take i s @ p @ drop (i + length p) s \<and> i + length p \<le> length s"
proof (induction s arbitrary: i)
  case Nil
  then show ?case by (cases p) (auto simp: str_index.simps has_prefix_iff split: if_splits)
next
  case (Cons c s)
  show ?case
  proof (cases "has_prefix (c # s) p")
    case True
    then obtain r where r: "c # s = p @ r" by (auto simp: has_prefix_iff)
    from True Cons.prems have "i = 0" by (simp add: str_index.simps)
    with r show ?thesis by simp
  next
    case False
    with Cons.prems obtain j where "str_index s p = Some j" "i = Suc j"
      by (auto simp: str_index.simps [of "c # s"])
    with Cons.IH [of j] show ?thesis by auto
  qed
qed

text \<open>\<open>strings.Index\<close> finds the first occurrence: no occurrence starts earlier.\<close>

lemma str_index_least:
  "str_index (g @ p @ r) p = Some i \<Longrightarrow> i \<le> length g"
proof (induction g arbitrary: i)
  case Nil
  have "has_prefix (p @ r) p" by simp
  then have "str_index (p @ r) p = Some 0"
    by (subst str_index.simps) simp
  with Nil show ?case by simp
next
  case (Cons c g)
  show ?case
  proof (cases "has_prefix ((c # g) @ p @ r) p")
    case True
    then have "str_index ((c # g) @ p @ r) p = Some 0"
      by (subst str_index.simps) simp
    with Cons.prems show ?thesis by simp
  next
    case False
    then have "str_index ((c # g) @ p @ r) p = map_option Suc (str_index (g @ p @ r) p)"
      by (subst str_index.simps) simp
    with Cons.prems obtain j where "str_index (g @ p @ r) p = Some j" "i = Suc j"
      by (cases "str_index (g @ p @ r) p") auto
    with Cons.IH [of j] show ?thesis by simp
  qed
qed

lemma str_contains_iff: "str_contains s p \<longleftrightarrow> (\<exists>g r. s = g @ p @ r)"
  unfolding str_contains_def
  by (metis not_None_eq str_index_NoneD str_index_SomeD)

lemma lower_char_idem [simp]: "lower_char (lower_char c) = lower_char c"
  by (auto simp: lower_char_def)

lemma to_lower_idem [simp]: "to_lower (to_lower s) = to_lower s"
  by (simp add: to_lower_def)

lemma length_to_lower [simp]: "length (to_lower s) = length s"
  by (simp add: to_lower_def)

lemma to_lower_Nil [simp]: "to_lower s = [] \<longleftrightarrow> s = []" "to_lower [] = []"
  by (simp_all add: to_lower_def)

lemma trim_space_Nil [simp]: "trim_space [] = []"
  by (simp add: trim_space_def trim_left_def trim_right_def)

lemma trim_right_hd: "trim_right (c # s) \<noteq> [] \<Longrightarrow> hd (trim_right (c # s)) = c"
  by (induction s rule: rev_induct) (auto simp: trim_right_def)

lemma trim_left_id: "s = [] \<or> \<not> is_space (hd s) \<Longrightarrow> trim_left s = s"
  by (cases s) (auto simp: trim_left_def)

lemma trim_space_idem [simp]: "trim_space (trim_space s) = trim_space s"
proof -
  let ?l = "trim_left s" and ?t = "trim_right (trim_left s)"
  have r: "trim_right (trim_right t) = trim_right t" for t
    by (simp add: trim_right_def dropWhile_idem)
  have "?t = [] \<or> \<not> is_space (hd ?t)"
  proof (cases ?l)
    case Nil
    then show ?thesis by (simp add: trim_right_def)
  next
    case (Cons c l)
    then have "\<not> is_space c"
      unfolding trim_left_def by (metis dropWhile_eq_Cons_conv)
    with Cons trim_right_hd [of c l] show ?thesis by auto
  qed
  then have "trim_left ?t = ?t" by (rule trim_left_id)
  then show ?thesis by (simp add: trim_space_def r)
qed

lemma split_on_not_Nil [simp]: "split_on sep s \<noteq> []"
  by (cases s) (auto split: list.splits)

lemma split_on_join: "join [sep] (split_on sep s) = s"
proof (induction s)
  case Nil
  then show ?case by simp
next
  case (Cons c s)
  obtain p ps where "split_on sep s = p # ps"
    by (cases "split_on sep s") auto
  with Cons show ?case by (cases ps) auto
qed

lemma split_on_no_sep: "\<forall>p \<in> set (split_on sep s). sep \<notin> set p"
  by (induction s) (auto split: list.splits)

lemma split_on_single: "sep \<notin> set s \<Longrightarrow> split_on sep s = [s]"
  by (induction s) auto

lemma char_eq_byte: "c = d \<longleftrightarrow> byte c = byte d"
  by simp

lemma str_less_irrefl [simp]: "\<not> str_less s s"
  by (induction s) auto

lemma str_less_trans: "str_less s t \<Longrightarrow> str_less t u \<Longrightarrow> str_less s u"
proof (induction s t arbitrary: u rule: str_less.induct)
  case (3 c s d t)
  then show ?case by (cases u) auto
qed (auto elim: str_less.elims)

lemma str_less_linear: "s = t \<or> str_less s t \<or> str_less t s"
proof (induction s t rule: str_less.induct)
  case (1 s)
  then show ?case by (cases s) auto
next
  case (3 c s d t)
  then show ?case using char_eq_byte [of c d] by auto
qed simp

section \<open>64-bit integers\<close>

text \<open>A signed 64-bit value is an \<open>int\<close>; \<open>wrap64\<close> is what the machine keeps of a result.\<close>

definition wrap64 :: "int \<Rightarrow> int" where
  "wrap64 x = signed_take_bit 63 x"

definition max_int64 :: int where "max_int64 = 9223372036854775807"
definition min_int64 :: int where "min_int64 = - 9223372036854775808"

definition in_int64 :: "int \<Rightarrow> bool" where
  "in_int64 x = (min_int64 \<le> x \<and> x \<le> max_int64)"

lemma in_int64_wrap64 [simp]: "in_int64 (wrap64 x)"
  using signed_take_bit_int_greater_eq_minus_exp [of 63 x] signed_take_bit_int_less_exp [of 63 x]
  by (simp add: in_int64_def wrap64_def min_int64_def max_int64_def)

lemma wrap64_id: "in_int64 x \<Longrightarrow> wrap64 x = x"
  by (simp add: in_int64_def wrap64_def min_int64_def max_int64_def signed_take_bit_int_eq_self)

end
