(* ===== verification/GoUrl.thy ===== *)
theory GoUrl
  imports Prelude
begin

text \<open>
  The part of Go's \<open>net/url\<close> the crawler calls: the \<open>URL\<close> struct, \<open>Parse\<close>, \<open>String\<close>,
  \<open>EscapedPath\<close>, \<open>RequestURI\<close>, \<open>Hostname\<close>, \<open>PathUnescape\<close> and \<open>ResolveReference\<close>.
  Error values are collapsed to a short text. \<open>RawFragment\<close> is not kept, since every
  caller clears or ignores the fragment.
\<close>

section \<open>The struct\<close>

record url =
  Scheme :: string
  Opaque :: string
  User :: "(string \<times> string option) option"
  Host :: string
  Path :: string
  RawPath :: string
  OmitHost :: bool
  ForceQuery :: bool
  RawQuery :: string
  Fragment :: string

definition empty_url :: url where
  "empty_url = \<lparr>Scheme = [], Opaque = [], User = None, Host = [], Path = [], RawPath = [],
     OmitHost = False, ForceQuery = False, RawQuery = [], Fragment = []\<rparr>"

datatype encoding = EncodePath | EncodePathSegment | EncodeHost | EncodeZone
  | EncodeUserPassword | EncodeQueryComponent | EncodeFragment

section \<open>Percent-encoding\<close>

definition is_hex :: "char \<Rightarrow> bool" where
  "is_hex c = (is_digit c \<or> (97 \<le> byte c \<and> byte c \<le> 102) \<or> (65 \<le> byte c \<and> byte c \<le> 70))"

definition unhex :: "char \<Rightarrow> nat" where
  "unhex c = (if is_digit c then byte c - 48
              else if 97 \<le> byte c \<and> byte c \<le> 102 then byte c - 97 + 10
              else if 65 \<le> byte c \<and> byte c \<le> 70 then byte c - 65 + 10 else 0)"

definition hex_digit :: "nat \<Rightarrow> char" where
  "hex_digit n = (if n < 10 then char_of (48 + n) else char_of (55 + n))"

definition should_escape :: "char \<Rightarrow> encoding \<Rightarrow> bool" where
  "should_escape c mode =
     (if is_letter c \<or> is_digit c then False
      else if (mode = EncodeHost \<or> mode = EncodeZone)
              \<and> c \<in> set ''!$&()*+,;=:[]<>'' \<union> {CHR 0x27, CHR 0x22} then False
      else if c \<in> set ''-_.~'' then False
      else if c \<in> set ''$&+,/:;=?@'' then
        (case mode of
           EncodePath \<Rightarrow> c = CHR ''?''
         | EncodePathSegment \<Rightarrow> c \<in> set ''/;,?''
         | EncodeUserPassword \<Rightarrow> c \<in> set ''@/?:''
         | EncodeQueryComponent \<Rightarrow> True
         | EncodeFragment \<Rightarrow> False
         | _ \<Rightarrow> True)
      else if mode = EncodeFragment \<and> c \<in> set ''!()*'' then False
      else True)"

fun unescape :: "encoding \<Rightarrow> string \<Rightarrow> string result" where
  "unescape mode [] = Inr []"
| "unescape mode (c # s) =
     (if c = CHR ''%'' then
        (case s of
           a # b # s' \<Rightarrow>
             (let v = unhex a * 16 + unhex b in
              if \<not> is_hex a \<or> \<not> is_hex b then Inl ''invalid URL escape''
              else if mode = EncodeHost \<and> unhex a < 8 \<and> [a, b] \<noteq> ''25''
                then Inl ''invalid URL escape''
              else if mode = EncodeZone \<and> [a, b] \<noteq> ''25'' \<and> v \<noteq> 32
                      \<and> should_escape (char_of v) EncodeHost then Inl ''invalid URL escape''
              else bind_result (unescape mode s') (\<lambda>t. Inr (char_of v # t)))
         | _ \<Rightarrow> Inl ''invalid URL escape'')
      else if (mode = EncodeHost \<or> mode = EncodeZone) \<and> byte c < 128 \<and> should_escape c mode
        then Inl ''invalid character in host name''
      else bind_result (unescape mode s)
             (\<lambda>t. Inr ((if c = CHR ''+'' \<and> mode = EncodeQueryComponent then CHR '' '' else c) # t)))"

definition escape_char :: "encoding \<Rightarrow> char \<Rightarrow> string" where
  "escape_char mode c =
     (if \<not> should_escape c mode then [c]
      else if c = CHR '' '' \<and> mode = EncodeQueryComponent then ''+''
      else [CHR ''%'', hex_digit (byte c div 16), hex_digit (byte c mod 16)])"

definition escape :: "encoding \<Rightarrow> string \<Rightarrow> string" where
  "escape mode s = concat (map (escape_char mode) s)"

definition path_unescape :: "string \<Rightarrow> string result" where
  "path_unescape s = unescape EncodePathSegment s"

section \<open>Parse\<close>

fun get_scheme_at :: "string \<Rightarrow> string \<Rightarrow> bool \<Rightarrow> string \<Rightarrow> (string \<times> string) result" where
  "get_scheme_at raw acc first [] = Inr ([], raw)"
| "get_scheme_at raw acc first (c # s) =
     (if is_letter c then get_scheme_at raw (c # acc) False s
      else if is_digit c \<or> c \<in> set ''+-.'' then
        (if first then Inr ([], raw) else get_scheme_at raw (c # acc) False s)
      else if c = CHR '':'' then
        (if first then Inl ''missing protocol scheme'' else Inr (rev acc, s))
      else Inr ([], raw))"

definition get_scheme :: "string \<Rightarrow> (string \<times> string) result" where
  "get_scheme raw = get_scheme_at raw [] True raw"

definition valid_optional_port :: "string \<Rightarrow> bool" where
  "valid_optional_port port =
     (case port of [] \<Rightarrow> True | c # ds \<Rightarrow> c = CHR '':'' \<and> list_all is_digit ds)"

definition parse_host :: "string \<Rightarrow> string result" where
  "parse_host host =
     (if has_prefix host ''['' then
        (case last_index_byte host (CHR '']'') of
           None \<Rightarrow> Inl ''missing ] in host''
         | Some i \<Rightarrow>
             if \<not> valid_optional_port (drop (Suc i) host) then Inl ''invalid port after host''
             else (case str_index (take i host) ''%25'' of
                     None \<Rightarrow> unescape EncodeHost host
                   | Some z \<Rightarrow>
                       bind_result (unescape EncodeHost (take z host)) (\<lambda>h1.
                       bind_result (unescape EncodeZone (drop z (take i host))) (\<lambda>h2.
                       bind_result (unescape EncodeHost (drop i host)) (\<lambda>h3.
                         Inr (h1 @ h2 @ h3))))))
      else (case last_index_byte host (CHR '':'') of
              Some i \<Rightarrow> if \<not> valid_optional_port (drop i host) then Inl ''invalid port after host''
                        else unescape EncodeHost host
            | None \<Rightarrow> unescape EncodeHost host))"

definition valid_userinfo :: "string \<Rightarrow> bool" where
  "valid_userinfo s =
     list_all (\<lambda>c. is_letter c \<or> is_digit c \<or> c \<in> set ''-._:~!$&()*+,;=%@'' \<or> c = CHR 0x27) s"

definition parse_authority ::
    "string \<Rightarrow> ((string \<times> string option) option \<times> string) result" where
  "parse_authority authority =
     (case last_index_byte authority (CHR ''@'') of
        None \<Rightarrow> bind_result (parse_host authority) (\<lambda>h. Inr (None, h))
      | Some i \<Rightarrow>
          bind_result (parse_host (drop (Suc i) authority)) (\<lambda>h.
          let userinfo = take i authority in
          if \<not> valid_userinfo userinfo then Inl ''net/url: invalid userinfo''
          else if CHR '':'' \<notin> set userinfo then
            bind_result (unescape EncodeUserPassword userinfo) (\<lambda>u. Inr (Some (u, None), h))
          else
            (let (name, pass, _) = cut userinfo (CHR '':'') in
             bind_result (unescape EncodeUserPassword name) (\<lambda>u.
             bind_result (unescape EncodeUserPassword pass) (\<lambda>p. Inr (Some (u, Some p), h))))))"

definition set_path :: "url \<Rightarrow> string \<Rightarrow> url result" where
  "set_path u p =
     bind_result (unescape EncodePath p) (\<lambda>path.
       Inr (u\<lparr>Path := path, RawPath := (if p = escape EncodePath path then [] else p)\<rparr>))"

definition split_query :: "string \<Rightarrow> bool \<times> string \<times> string" where
  \<comment> \<open>\<open>(ForceQuery, rest, RawQuery)\<close>\<close>
  "split_query rest =
     (if has_suffix rest ''?'' \<and> count_list rest (CHR ''?'') = 1
      then (True, butlast rest, [])
      else (let (r, q, _) = cut rest (CHR ''?'') in (False, r, q)))"

definition parse_rest :: "url \<Rightarrow> string \<Rightarrow> url result" where
  "parse_rest u rest =
     (if \<not> has_prefix rest ''/'' \<and> Scheme u \<noteq> [] then Inr (u\<lparr>Opaque := rest\<rparr>)
      else if \<not> has_prefix rest ''/'' \<and> CHR '':'' \<in> set (fst (cut rest (CHR ''/'')))
        then Inl ''first path segment in URL cannot contain colon''
      else if (Scheme u \<noteq> [] \<or> \<not> has_prefix rest ''///'') \<and> has_prefix rest ''//'' then
        (let a = drop 2 rest;
             (authority, p) = (case index_byte a (CHR ''/'') of
                                 None \<Rightarrow> (a, []) | Some i \<Rightarrow> (take i a, drop i a))
         in bind_result (parse_authority authority) (\<lambda>(ui, h).
              set_path (u\<lparr>User := ui, Host := h\<rparr>) p))
      else if Scheme u \<noteq> [] \<and> has_prefix rest ''/'' then set_path (u\<lparr>OmitHost := True\<rparr>) rest
      else set_path u rest)"

definition parse_no_fragment :: "string \<Rightarrow> url result" where
  "parse_no_fragment raw =
     (if list_ex is_control raw then Inl ''net/url: invalid control character in URL''
      else if raw = ''*'' then Inr (empty_url\<lparr>Path := ''*''\<rparr>)
      else bind_result (get_scheme raw) (\<lambda>(scheme, rest0).
        let (force, rest, query) = split_query rest0 in
        parse_rest (empty_url\<lparr>Scheme := to_lower scheme, ForceQuery := force, RawQuery := query\<rparr>)
          rest))"

definition url_parse :: "string \<Rightarrow> url result" where
  "url_parse raw =
     (let (u, frag, _) = cut raw (CHR ''#'') in
      bind_result (parse_no_fragment u) (\<lambda>v.
        if frag = [] then Inr v
        else bind_result (unescape EncodeFragment frag) (\<lambda>f. Inr (v\<lparr>Fragment := f\<rparr>))))"

section \<open>Accessors and rendering\<close>

definition valid_encoded_path :: "string \<Rightarrow> bool" where
  "valid_encoded_path s =
     list_all (\<lambda>c. c \<in> set ''!$&()*+,;=:@[]%'' \<or> c = CHR 0x27 \<or> \<not> should_escape c EncodePath) s"

definition escaped_path :: "url \<Rightarrow> string" where
  "escaped_path u =
     (if RawPath u \<noteq> [] \<and> valid_encoded_path (RawPath u)
         \<and> unescape EncodePath (RawPath u) = Inr (Path u) then RawPath u
      else if Path u = ''*'' then ''*''
      else escape EncodePath (Path u))"

definition user_string :: "string \<times> string option \<Rightarrow> string" where
  "user_string ui =
     (if fst ui = [] \<and> snd ui = None then []
      else escape EncodeUserPassword (fst ui)
        @ (case snd ui of None \<Rightarrow> [] | Some p \<Rightarrow> '':'' @ escape EncodeUserPassword p))"

definition authority_string :: "url \<Rightarrow> string" where
  "authority_string u =
     (if Scheme u \<noteq> [] \<or> Host u \<noteq> [] \<or> User u \<noteq> None then
        (if OmitHost u \<and> Host u = [] \<and> User u = None then []
         else (if Host u \<noteq> [] \<or> Path u \<noteq> [] \<or> User u \<noteq> None then ''//'' else [])
           @ (case User u of None \<Rightarrow> [] | Some ui \<Rightarrow> user_string ui @ ''@'')
           @ escape EncodeHost (Host u))
      else [])"

definition url_string :: "url \<Rightarrow> string" where
  "url_string u =
     (let scheme = (if Scheme u \<noteq> [] then Scheme u @ '':'' else []);
          path = escaped_path u;
          body = (if Opaque u \<noteq> [] then Opaque u
                  else (let pre = authority_string u
                            @ (if path \<noteq> [] \<and> hd path \<noteq> CHR ''/'' \<and> Host u \<noteq> [] then ''/'' else [])
                        in pre
                           @ (if scheme = [] \<and> pre = [] \<and> CHR '':'' \<in> set (fst (cut path (CHR ''/'')))
                              then ''./'' else [])
                           @ path))
      in scheme @ body
         @ (if ForceQuery u \<or> RawQuery u \<noteq> [] then ''?'' @ RawQuery u else [])
         @ (if Fragment u \<noteq> [] then ''#'' @ escape EncodeFragment (Fragment u) else []))"

definition request_uri :: "url \<Rightarrow> string" where
  "request_uri u =
     (let r = (if Opaque u = [] then (if escaped_path u = [] then ''/'' else escaped_path u)
               else if has_prefix (Opaque u) ''//'' then Scheme u @ '':'' @ Opaque u
               else Opaque u)
      in r @ (if ForceQuery u \<or> RawQuery u \<noteq> [] then ''?'' @ RawQuery u else []))"

definition hostname_of :: "string \<Rightarrow> string" where
  "hostname_of host =
     (let h = (case last_index_byte host (CHR '':'') of
                 Some i \<Rightarrow> if valid_optional_port (drop i host) then take i host else host
               | None \<Rightarrow> host)
      in if has_prefix h ''['' \<and> has_suffix h '']'' then butlast (tl h) else h)"

definition hostname :: "url \<Rightarrow> string" where
  "hostname u = hostname_of (Host u)"

definition is_abs :: "url \<Rightarrow> bool" where
  "is_abs u = (Scheme u \<noteq> [])"

section \<open>References\<close>

fun resolve_elems :: "string list \<Rightarrow> string \<Rightarrow> bool \<Rightarrow> string" where
  \<comment> \<open>\<open>dst\<close> is the built path without its leading slash\<close>
  "resolve_elems [] dst first = CHR ''/'' # dst"
| "resolve_elems (e # es) dst first =
     (let last_elem = (es = []) in
      if e = ''.'' then
        (if last_elem then CHR ''/'' # dst @ ''/'' else resolve_elems es dst False)
      else if e = ''..'' then
        (let (dst', first') = (case last_index_byte dst (CHR ''/'') of
                                 None \<Rightarrow> ([], True) | Some i \<Rightarrow> (take i dst, first))
         in if last_elem then CHR ''/'' # dst' @ ''/'' else resolve_elems es dst' first')
      else resolve_elems es (if first then dst @ e else dst @ ''/'' @ e) False)"

definition resolve_path :: "string \<Rightarrow> string \<Rightarrow> string" where
  "resolve_path base ref =
     (let full = (if ref = [] then base
                  else if hd ref \<noteq> CHR ''/'' then
                    (case last_index_byte base (CHR ''/'') of
                       None \<Rightarrow> ref | Some i \<Rightarrow> take (Suc i) base @ ref)
                  else ref);
          r = resolve_elems (split_on (CHR ''/'') full) [] True
      in if full = [] then []
         else if has_prefix (tl r) ''/'' then tl r else r)"

definition set_path_ignoring_error :: "url \<Rightarrow> string \<Rightarrow> url" where
  \<comment> \<open>\<open>u.setPath(p)\<close> with its error dropped, as \<open>ResolveReference\<close> does\<close>
  "set_path_ignoring_error u p = (case set_path u p of Inl _ \<Rightarrow> u | Inr v \<Rightarrow> v)"

definition resolve_reference :: "url \<Rightarrow> url \<Rightarrow> url" where
  "resolve_reference base ref =
     (let u = (if Scheme ref = [] then ref\<lparr>Scheme := Scheme base\<rparr> else ref) in
      if Scheme ref \<noteq> [] \<or> Host ref \<noteq> [] \<or> User ref \<noteq> None then
        set_path_ignoring_error u (resolve_path (escaped_path ref) [])
      else if Opaque ref \<noteq> [] then u\<lparr>User := None, Host := [], Path := []\<rparr>
      else
        (let u1 = (if Path ref = [] \<and> \<not> ForceQuery ref \<and> RawQuery ref = [] then
                     (let v = u\<lparr>RawQuery := RawQuery base\<rparr>
                      in if Fragment ref = [] then v\<lparr>Fragment := Fragment base\<rparr> else v)
                   else u)
         in if Path ref = [] \<and> Opaque base \<noteq> [] then
              u1\<lparr>Opaque := Opaque base, User := None, Host := [], Path := []\<rparr>
            else set_path_ignoring_error (u1\<lparr>Host := Host base, User := User base\<rparr>)
                   (resolve_path (escaped_path base) (escaped_path ref))))"

section \<open>Lemmas\<close>

lemma unhex_hex_digit: "n < 16 \<Longrightarrow> unhex (hex_digit n) = n \<and> is_hex (hex_digit n)"
  by (auto simp: unhex_def hex_digit_def is_hex_def is_digit_def)

end
