(* ===== verification/Normalize.thy ===== *)
theory Normalize
  imports GoUrl
begin

text \<open>
  \<open>internal/crawler/normalize.go\<close>: the canonical form of a crawl URL and the host scope of
  a crawl.
\<close>

definition normalize_url :: "string \<Rightarrow> url option \<Rightarrow> url result" where
  "normalize_url candidateURL baseURL =
     (let trimmed = trim_space candidateURL in
      if trimmed = [] then Inl ''url is empty''
      else (case url_parse trimmed of
              Inl e \<Rightarrow> Inl (''parse url: '' @ e)
            | Inr parsed \<Rightarrow>
                (let resolved = (case baseURL of None \<Rightarrow> parsed
                                 | Some b \<Rightarrow> resolve_reference b parsed);
                     scheme = to_lower (Scheme resolved)
                 in if Scheme resolved = [] then Inl ''url scheme is empty''
                    else if scheme \<noteq> ''http'' \<and> scheme \<noteq> ''https''
                      then Inl (''unsupported url scheme: '' @ scheme)
                    else if Host resolved = [] then Inl ''url host is empty''
                    else Inr (resolved\<lparr>Scheme := scheme, Host := to_lower (Host resolved),
                           Fragment := [],
                           Path := (if Path resolved = [] then ''/'' else Path resolved)\<rparr>))))"

text \<open>What the runner and the matchers use: the rendered canonical URL.\<close>

definition normalized_string :: "string \<Rightarrow> string option" where
  "normalized_string s = (case normalize_url s None of Inl _ \<Rightarrow> None | Inr u \<Rightarrow> Some (url_string u))"

definition normalize_host_for_scope :: "string \<Rightarrow> string" where
  "normalize_host_for_scope host =
     (let normalized = to_lower (trim_space host) in
      if normalized = [] then [] else trim_prefix (hostname_of normalized) ''www.'')"

definition is_internal_url :: "url option \<Rightarrow> url option \<Rightarrow> bool" where
  "is_internal_url rootURL candidateURL =
     (case (rootURL, candidateURL) of
        (Some r, Some c) \<Rightarrow>
          normalize_host_for_scope (hostname r) = normalize_host_for_scope (hostname c)
      | _ \<Rightarrow> False)"

definition is_allowed_host :: "string \<Rightarrow> string \<Rightarrow> bool" where
  "is_allowed_host allowedHost candidateHost =
     (if allowedHost = [] \<or> candidateHost = [] then False
      else normalize_host_for_scope allowedHost = normalize_host_for_scope candidateHost)"

section \<open>What normalisation guarantees\<close>

definition normal_url :: "url \<Rightarrow> bool" where
  "normal_url u = (Scheme u \<in> {''http'', ''https''} \<and> Host u \<noteq> []
     \<and> to_lower (Host u) = Host u \<and> Fragment u = [] \<and> Path u \<noteq> [])"

lemma normalize_url_normal: "normalize_url s b = Inr u \<Longrightarrow> normal_url u"
  by (auto simp: normalize_url_def normal_url_def Let_def split: if_splits sum.splits option.splits)

text \<open>A relative URL is resolved against the base, so scheme and host come from there.\<close>

lemma normalize_url_SomeD:
  assumes "normalize_url s None = Inr u"
  obtains v where "url_parse (trim_space s) = Inr v"
    and "Scheme u = to_lower (Scheme v)" and "Host u = to_lower (Host v)"
    and "RawQuery u = RawQuery v" and "User u = User v"
    and "Path u = (if Path v = [] then ''/'' else Path v)"
  using assms
  by (auto simp: normalize_url_def Let_def split: if_splits sum.splits)

lemma normalize_url_error_iff:
  "(\<exists>e. normalize_url s None = Inl e) \<longleftrightarrow>
     trim_space s = []
     \<or> (\<exists>e. url_parse (trim_space s) = Inl e)
     \<or> (\<exists>v. url_parse (trim_space s) = Inr v
          \<and> (to_lower (Scheme v) \<notin> {''http'', ''https''} \<or> Host v = []))"
  by (auto simp: normalize_url_def Let_def split: sum.splits)

lemma normalize_url_trim: "normalize_url (trim_space s) b = normalize_url s b"
  by (simp add: normalize_url_def)

lemma is_allowed_host_sym: "is_allowed_host a b = is_allowed_host b a"
  by (auto simp: is_allowed_host_def)

lemma is_allowed_host_trans:
  "is_allowed_host a b \<Longrightarrow> is_allowed_host b c \<Longrightarrow> is_allowed_host a c"
  by (auto simp: is_allowed_host_def split: if_splits)

lemma is_internal_url_sym: "is_internal_url a b = is_internal_url b a"
  by (auto simp: is_internal_url_def split: option.splits)

end
