(* ===== verification/Exclude.thy ===== *)
theory Exclude
  imports Normalize
begin

text \<open>
  \<open>internal/crawler/exclude.go\<close>: validation and compilation of the excluded-URL patterns and
  the wildcard matcher. A Go \<open>*ExcludedURLMatcher\<close> is a list of compiled rules; the nil
  matcher and an empty rule list both exclude nothing, so nil is the empty list.
\<close>

section \<open>Validation\<close>

definition max_excluded_url_patterns :: nat where
  "max_excluded_url_patterns = 100"

definition max_excluded_url_pattern_length :: nat where
  "max_excluded_url_pattern_length = 2048"

text \<open>\<open>utf8.RuneCountInString\<close> on valid UTF-8: the bytes that do not continue a rune.\<close>

definition rune_count :: "string \<Rightarrow> nat" where
  "rune_count s = length (filter (\<lambda>c. \<not> (128 \<le> byte c \<and> byte c < 192)) s)"

definition validate_excluded_path_pattern :: "string \<Rightarrow> string option" where
  "validate_excluded_path_pattern pattern =
     (if has_prefix pattern ''//'' then
        Some (''excluded pattern '' @ quoted pattern
              @ '' must be a full http(s) URL or a root-relative path starting with /'')
      else if str_contains pattern ''?'' then
        Some (''excluded pattern '' @ quoted pattern
              @ '' must not contain a query: path-only rules match the pathname independent of query'')
      else (case url_parse pattern of
              Inl _ \<Rightarrow> Some (''excluded pattern '' @ quoted pattern
                @ '' must be a full http(s) URL or a root-relative path starting with /'')
            | Inr u \<Rightarrow>
                if is_abs u \<or> Host u \<noteq> [] \<or> Opaque u \<noteq> [] then
                  Some (''excluded pattern '' @ quoted pattern
                    @ '' must be a full http(s) URL or a root-relative path starting with /'')
                else None))"

definition validate_excluded_full_url_pattern :: "string \<Rightarrow> string option" where
  "validate_excluded_full_url_pattern pattern =
     (case url_parse pattern of
        Inl e \<Rightarrow> Some (''excluded pattern '' @ quoted pattern @ '' is not a valid URL: '' @ e)
      | Inr u \<Rightarrow>
          if to_lower (Scheme u) \<noteq> ''http'' \<and> to_lower (Scheme u) \<noteq> ''https'' then
            Some (''excluded pattern '' @ quoted pattern
              @ '' must use http or https, or be a root-relative path starting with /'')
          else if Host u = [] then
            Some (''excluded pattern '' @ quoted pattern @ '' must contain a host'')
          else None)"

text \<open>The checks one trimmed, non-empty pattern goes through, in the order of the loop body.\<close>

definition check_excluded_pattern :: "string \<Rightarrow> string option" where
  "check_excluded_pattern trimmed =
     (if rune_count trimmed > max_excluded_url_pattern_length then
        Some (''excluded pattern '' @ quoted trimmed @ '' is longer than ''
              @ itoa (int max_excluded_url_pattern_length) @ '' characters'')
      else if list_ex (\<lambda>c. is_space c \<or> is_control c) trimmed then
        Some (''excluded pattern '' @ quoted trimmed
              @ '' must not contain whitespace or control characters'')
      else if str_contains trimmed ''#'' then
        Some (''excluded pattern '' @ quoted trimmed
              @ '' must not contain a fragment: fragments are stripped before matching'')
      else if has_prefix trimmed ''/'' then validate_excluded_path_pattern trimmed
      else validate_excluded_full_url_pattern trimmed)"

text \<open>The loop: \<open>acc\<close> is the normalised list so far, whose elements are the \<open>seen\<close> keys.\<close>

fun normalize_patterns_loop :: "string list \<Rightarrow> string list \<Rightarrow> (string list) result" where
  "normalize_patterns_loop [] acc = Inr acc"
| "normalize_patterns_loop (pattern # patterns) acc =
     (let trimmed = trim_space pattern in
      if trimmed = [] then normalize_patterns_loop patterns acc
      else (case check_excluded_pattern trimmed of
              Some e \<Rightarrow> Inl e
            | None \<Rightarrow> if trimmed \<in> set acc then normalize_patterns_loop patterns acc
                      else normalize_patterns_loop patterns (acc @ [trimmed])))"

definition normalize_excluded_url_patterns :: "string list \<Rightarrow> (string list) result" where
  "normalize_excluded_url_patterns patterns =
     bind_result (normalize_patterns_loop patterns []) (\<lambda>normalized.
       if length normalized > max_excluded_url_patterns then
         Inl (''excluded patterns: got '' @ itoa (int (length normalized)) @ '', maximum is ''
              @ itoa (int max_excluded_url_patterns))
       else Inr normalized)"

section \<open>Compilation\<close>

record excluded_rule =
  full_url :: bool
  parts :: "string list"
  bare_parts :: "string list"

definition canonical_excluded_full_url_pattern :: "string \<Rightarrow> string" where
  "canonical_excluded_full_url_pattern pattern =
     (case str_index pattern ''://'' of
        None \<Rightarrow> pattern
      | Some schemeEnd \<Rightarrow>
          (let rest = drop (schemeEnd + 3) pattern;
               (authority, tail) =
                 (case find_index (\<lambda>c. c = CHR ''/'' \<or> c = CHR ''?'') rest of
                    None \<Rightarrow> (rest, []) | Some i \<Rightarrow> (take i rest, drop i rest));
               auth = (case last_index_byte authority (CHR ''@'') of
                         Some at \<Rightarrow> take (Suc at) authority @ to_lower (drop (Suc at) authority)
                       | None \<Rightarrow> to_lower authority)
           in to_lower (take schemeEnd pattern) @ ''://'' @ auth
              @ (if tail = [] \<or> has_prefix tail ''?'' then ''/'' else []) @ tail))"

definition canonicalize_excluded_pattern_body :: "bool \<Rightarrow> string \<Rightarrow> string" where
  "canonicalize_excluded_pattern_body fullURL body =
     (if \<not> fullURL then body else canonical_excluded_full_url_pattern body)"

definition unescape_excluded_pattern_segments :: "string list \<Rightarrow> string list" where
  "unescape_excluded_pattern_segments segments =
     map (\<lambda>s. case path_unescape s of Inl _ \<Rightarrow> s | Inr d \<Rightarrow> d) segments"

definition compile_excluded_pattern_body :: "bool \<Rightarrow> string \<Rightarrow> string list" where
  "compile_excluded_pattern_body fullURL body =
     (if \<not> fullURL then unescape_excluded_pattern_segments (split_on (CHR ''*'') body)
      else
        (let (pathBody, queryBody) =
               (case str_index body ''?'' of None \<Rightarrow> (body, [])
                | Some i \<Rightarrow> (take i body, drop i body));
             segments = unescape_excluded_pattern_segments (split_on (CHR ''*'') pathBody)
         in if queryBody = [] then segments
            else butlast segments @ split_on (CHR ''*'') (last segments @ queryBody)))"

definition compile_excluded_rule :: "string \<Rightarrow> excluded_rule" where
  "compile_excluded_rule pattern =
     (let fullURL = (\<not> has_prefix pattern ''/'') in
      \<lparr>full_url = fullURL,
       parts = compile_excluded_pattern_body fullURL
                 (canonicalize_excluded_pattern_body fullURL pattern),
       bare_parts = (if has_suffix pattern ''/*''
                     then compile_excluded_pattern_body fullURL
                            (canonicalize_excluded_pattern_body fullURL
                               (take (length pattern - 2) pattern))
                     else [])\<rparr>)"

definition compile_excluded_url_patterns :: "string list \<Rightarrow> (excluded_rule list) result" where
  "compile_excluded_url_patterns patterns =
     bind_result (normalize_excluded_url_patterns patterns)
       (\<lambda>normalized. Inr (map compile_excluded_rule normalized))"

section \<open>Matching\<close>

fun match_middle :: "string list \<Rightarrow> string \<Rightarrow> bool" where
  \<comment> \<open>the loop over the middle parts, then the suffix test on the last one\<close>
  "match_middle [] rest = False"
| "match_middle [lastPart] rest = has_suffix rest lastPart"
| "match_middle (part # q # ps) rest =
     (case str_index rest part of
        None \<Rightarrow> False
      | Some i \<Rightarrow> match_middle (q # ps) (drop (i + length part) rest))"

definition match_excluded_wildcard :: "string list \<Rightarrow> string \<Rightarrow> bool" where
  "match_excluded_wildcard ps s =
     (case ps of
        [] \<Rightarrow> False
      | [p] \<Rightarrow> s = p
      | p # q # qs \<Rightarrow> if \<not> has_prefix s p then False
                      else match_middle (q # qs) (drop (length p) s))"

definition decoded_excluded_target_url :: "url \<Rightarrow> string" where
  "decoded_excluded_target_url u =
     Scheme u @ ''://'' @ (case User u of None \<Rightarrow> [] | Some ui \<Rightarrow> user_string ui @ ''@'')
     @ Host u @ Path u @ (if RawQuery u \<noteq> [] then ''?'' @ RawQuery u else [])"

definition rule_matches :: "excluded_rule \<Rightarrow> url \<Rightarrow> bool" where
  "rule_matches rule u =
     (let compared = (if full_url rule then decoded_excluded_target_url u else Path u) in
      match_excluded_wildcard (parts rule) compared
      \<or> match_excluded_wildcard (bare_parts rule) compared)"

definition excludes :: "excluded_rule list \<Rightarrow> string \<Rightarrow> bool" where
  "excludes matcher targetURL =
     (if matcher = [] then False
      else (case normalize_url targetURL None of
              Inl _ \<Rightarrow> False
            | Inr u \<Rightarrow> list_ex (\<lambda>rule. rule_matches rule u) matcher))"

section \<open>The wildcard matcher against its specification\<close>

text \<open>
  What a pattern means: its parts in order, with arbitrary text in place of each \<open>*\<close>.
\<close>

fun interleave :: "string list \<Rightarrow> string list \<Rightarrow> string" where
  "interleave (p # ps) (g # gs) = p @ g @ interleave ps gs"
| "interleave [p] [] = p"
| "interleave _ _ = []"

definition glob_language :: "string list \<Rightarrow> string set" where
  "glob_language ps = {interleave ps gaps | gaps. Suc (length gaps) = length ps}"

lemma glob_language_Nil [simp]: "glob_language [] = {}"
  by (simp add: glob_language_def)

lemma glob_language_single [simp]: "glob_language [p] = {p}"
  by (simp add: glob_language_def)

lemma glob_language_Cons:
  "s \<in> glob_language (p # q # ps) \<longleftrightarrow> (\<exists>g r. s = p @ g @ r \<and> r \<in> glob_language (q # ps))"
proof
  assume "s \<in> glob_language (p # q # ps)"
  then obtain gaps where l: "length gaps = Suc (length ps)" and s: "s = interleave (p # q # ps) gaps"
    by (auto simp: glob_language_def)
  then obtain g gs where "gaps = g # gs" "length gs = length ps"
    by (cases gaps) auto
  with s show "\<exists>g r. s = p @ g @ r \<and> r \<in> glob_language (q # ps)"
    by (auto simp: glob_language_def)
next
  assume "\<exists>g r. s = p @ g @ r \<and> r \<in> glob_language (q # ps)"
  then obtain g gs where "s = p @ g @ interleave (q # ps) gs" "length gs = length ps"
    by (auto simp: glob_language_def)
  then have "s = interleave (p # q # ps) (g # gs)" "Suc (length (g # gs)) = length (p # q # ps)"
    by auto
  then show "s \<in> glob_language (p # q # ps)"
    unfolding glob_language_def by blast
qed

text \<open>
  Greedy search is complete: taking the first occurrence of a part leaves the longest
  remainder, and a remainder that can be matched can be matched with more text before it.
\<close>

lemma match_middle_iff:
  "ps \<noteq> [] \<Longrightarrow> match_middle ps rest \<longleftrightarrow> (\<exists>g r. rest = g @ r \<and> r \<in> glob_language ps)"
proof (induction ps rest rule: match_middle.induct)
  case (1 rest)
  then show ?case by simp
next
  case (2 lastPart rest)
  then show ?case by (simp add: has_suffix_iff)
next
  case (3 part q ps rest)
  show ?case
  proof (cases "str_index rest part")
    case None
    then have "rest \<noteq> g @ part @ r" for g r
      by (rule str_index_NoneD)
    with None show ?thesis
      by (auto simp: glob_language_Cons)
  next
    case (Some i)
    let ?rest' = "drop (i + length part) rest"
    have split: "rest = take i rest @ part @ ?rest'"
      using str_index_SomeD [OF Some] by blast
    have IH: "match_middle (q # ps) ?rest' \<longleftrightarrow> (\<exists>g r. ?rest' = g @ r \<and> r \<in> glob_language (q # ps))"
      using "3.IH" [OF Some] by simp
    show ?thesis
    proof
      assume "match_middle (part # q # ps) rest"
      with Some IH obtain g r where "?rest' = g @ r" "r \<in> glob_language (q # ps)"
        by auto
      then have "part @ g @ r \<in> glob_language (part # q # ps)"
        by (auto simp: glob_language_Cons)
      moreover have "rest = take i rest @ (part @ g @ r)"
        using split \<open>?rest' = g @ r\<close> by simp
      ultimately show "\<exists>g r. rest = g @ r \<and> r \<in> glob_language (part # q # ps)" by blast
    next
      assume "\<exists>g r. rest = g @ r \<and> r \<in> glob_language (part # q # ps)"
      then obtain g h r where rest: "rest = g @ part @ h @ r" and r: "r \<in> glob_language (q # ps)"
        by (auto simp: glob_language_Cons)
      with Some have "i \<le> length g" by (auto dest: str_index_least)
      then have "?rest' = drop (i + length part) (g @ part) @ h @ r"
        using rest by simp
      then have "\<exists>g r. ?rest' = g @ r \<and> r \<in> glob_language (q # ps)"
        using r by (metis append.assoc)
      with Some IH show "match_middle (part # q # ps) rest" by simp
    qed
  qed
qed

text \<open>
  C37: the hand-written matcher of \<open>matchExcludedWildcard\<close> accepts exactly the strings of the
  pattern's language: the parts in order, with any text (separators included) in place of
  each \<open>*\<close>. In particular the greedy leftmost search never misses a match, and a pattern
  without \<open>*\<close> matches only itself.
\<close>

theorem match_excluded_wildcard_glob:
  "match_excluded_wildcard ps s \<longleftrightarrow> s \<in> glob_language ps"
proof -
  consider "ps = []" | p where "ps = [p]" | p q qs where "ps = p # q # qs"
    by (metis list.exhaust)
  then show ?thesis
  proof cases
    case 3
    have "match_excluded_wildcard ps s \<longleftrightarrow>
        (\<exists>t. s = p @ t \<and> match_middle (q # qs) t)"
      using 3 by (auto simp: match_excluded_wildcard_def has_prefix_iff)
    also have "\<dots> \<longleftrightarrow> s \<in> glob_language ps"
      using 3 by (auto simp: glob_language_Cons match_middle_iff)
    finally show ?thesis .
  qed (auto simp: match_excluded_wildcard_def)
qed

section \<open>The normalised pattern list\<close>

definition good_pattern :: "string \<Rightarrow> bool" where
  "good_pattern p = (p \<noteq> [] \<and> trim_space p = p \<and> check_excluded_pattern p = None)"

lemma normalize_patterns_loop_good:
  "normalize_patterns_loop ps acc = Inr out \<Longrightarrow> distinct acc \<Longrightarrow> \<forall>p\<in>set acc. good_pattern p \<Longrightarrow>
     distinct out \<and> (\<forall>p\<in>set out. good_pattern p)
     \<and> set out = set acc \<union> {trim_space p | p. p \<in> set ps \<and> trim_space p \<noteq> []}"
proof (induction ps acc rule: normalize_patterns_loop.induct)
  case (1 acc)
  then show ?case by simp
next
  case (2 pattern patterns acc)
  let ?t = "trim_space pattern"
  consider "?t = []" | "?t \<noteq> []" "?t \<in> set acc" "check_excluded_pattern ?t = None"
    | "?t \<noteq> []" "?t \<notin> set acc" "check_excluded_pattern ?t = None"
    using "2.prems"(1) by (auto simp: Let_def split: if_splits option.splits)
  then show ?case
  proof cases
    case 1
    with "2.IH"(1) [OF refl 1] "2.prems" show ?thesis by auto
  next
    case 2
    with "2.IH"(2) [OF refl 2(1) 2(3) 2(2)] "2.prems" show ?thesis by auto
  next
    case 3
    then have "good_pattern ?t" by (simp add: good_pattern_def)
    with 3 "2.IH"(3) [OF refl 3(1) 3(3) 3(2)] "2.prems" show ?thesis by auto
  qed
qed

lemma normalize_patterns_loop_id:
  "distinct (acc @ ps) \<Longrightarrow> \<forall>p\<in>set ps. good_pattern p \<Longrightarrow>
     normalize_patterns_loop ps acc = Inr (acc @ ps)"
proof (induction ps arbitrary: acc)
  case (Cons p ps)
  then have "good_pattern p" "p \<notin> set acc" by auto
  with Cons.prems Cons.IH [of "acc @ [p]"] show ?case
    by (auto simp: good_pattern_def Let_def)
qed simp

text \<open>
  What \<open>NormalizeExcludedURLPatterns\<close> returns, when it returns: at most 100 distinct,
  trimmed, individually valid patterns, and no pattern is lost or invented (the result holds
  exactly the trimmed non-blank inputs).
\<close>

theorem normalize_excluded_url_patterns_sound:
  assumes "normalize_excluded_url_patterns patterns = Inr out"
  shows "distinct out \<and> length out \<le> 100 \<and> (\<forall>p\<in>set out. good_pattern p)
    \<and> set out = {trim_space p | p. p \<in> set patterns \<and> trim_space p \<noteq> []}"
proof -
  from assms have loop: "normalize_patterns_loop patterns [] = Inr out" and "length out \<le> 100"
    by (auto simp: normalize_excluded_url_patterns_def max_excluded_url_patterns_def
        split: if_splits)
  with normalize_patterns_loop_good [OF loop] show ?thesis by auto
qed

theorem normalize_excluded_url_patterns_sound_witness:
  "normalize_excluded_url_patterns ['' /blog/* '', ''/blog/*''] = Inr [''/blog/*'']
   \<and> distinct [''/blog/*''] \<and> good_pattern ''/blog/*''"
proof -
  have h: "normalize_excluded_url_patterns ['' /blog/* '', ''/blog/*''] = Inr [''/blog/*'']"
    by code_simp
  from normalize_excluded_url_patterns_sound [OF h] h show ?thesis by simp
qed

lemma normalize_excluded_url_patterns_idem:
  assumes "normalize_excluded_url_patterns patterns = Inr out"
  shows "normalize_excluded_url_patterns out = Inr out"
proof -
  from assms have loop: "normalize_patterns_loop patterns [] = Inr out" and l: "length out \<le> 100"
    by (auto simp: normalize_excluded_url_patterns_def max_excluded_url_patterns_def
        split: if_splits)
  from normalize_patterns_loop_good [OF loop]
  have "normalize_patterns_loop out [] = Inr ([] @ out)"
    by (intro normalize_patterns_loop_id) auto
  with l show ?thesis
    by (simp add: normalize_excluded_url_patterns_def max_excluded_url_patterns_def)
qed

section \<open>What a compiled matcher excludes\<close>

lemma excludes_iff:
  "excludes matcher s \<longleftrightarrow>
     (\<exists>u. normalize_url s None = Inr u \<and> (\<exists>rule\<in>set matcher. rule_matches rule u))"
  by (auto simp: excludes_def list_ex_iff split: sum.splits)

lemma excludes_Nil [simp]: "\<not> excludes [] s"
  by (simp add: excludes_def)

lemma excludes_append: "excludes (m @ m') s \<longleftrightarrow> excludes m s \<or> excludes m' s"
  by (auto simp: excludes_iff)

text \<open>A path text without escapes compiles to itself.\<close>

lemma unescape_no_percent:
  "CHR ''%'' \<notin> set s \<Longrightarrow> mode \<in> {EncodePath, EncodePathSegment, EncodeFragment, EncodeUserPassword}
     \<Longrightarrow> unescape mode s = Inr s"
  by (induction mode s rule: unescape.induct) auto

lemma compile_path_body:
  "CHR ''%'' \<notin> set s \<Longrightarrow> CHR ''*'' \<notin> set s \<Longrightarrow> compile_excluded_pattern_body False s = [s]"
  by (simp add: compile_excluded_pattern_body_def unescape_excluded_pattern_segments_def
      split_on_single path_unescape_def unescape_no_percent)

lemma split_on_snoc:
  "sep \<notin> set s \<Longrightarrow> split_on sep (s @ [sep]) = [s, []]"
  by (induction s) auto

lemma compile_path_star:
  assumes "CHR ''%'' \<notin> set s" and "CHR ''*'' \<notin> set s"
  shows "compile_excluded_pattern_body False (s @ ''/*'') = [s @ ''/'', []]"
proof -
  have "split_on (CHR ''*'') ((s @ ''/'') @ ''*'') = [s @ ''/'', []]"
    using assms by (intro split_on_snoc) auto
  then have "split_on (CHR ''*'') (s @ ''/*'') = [s @ ''/'', []]" by simp
  moreover have "path_unescape (s @ ''/'') = Inr (s @ ''/'')"
    using assms by (simp add: path_unescape_def unescape_no_percent)
  ultimately show ?thesis
    using assms by (simp add: compile_excluded_pattern_body_def
        unescape_excluded_pattern_segments_def path_unescape_def)
qed

text \<open>
  A path rule \<open>/dir/*\<close> (no other wildcard, no escape) excludes exactly the URLs whose
  decoded path is the bare directory \<open>/dir\<close> or lies below \<open>/dir/\<close>, whatever their host
  and query; a URL that does not normalise is never excluded.
\<close>

theorem directory_rule_excludes:
  assumes "has_prefix dir ''/''" and "CHR ''%'' \<notin> set dir" and "CHR ''*'' \<notin> set dir"
  shows "excludes [compile_excluded_rule (dir @ ''/*'')] target \<longleftrightarrow>
    (\<exists>u. normalize_url target None = Inr u \<and> (Path u = dir \<or> (\<exists>t. Path u = dir @ ''/'' @ t)))"
proof -
  have "has_prefix (dir @ ''/*'') ''/''"
    using assms(1) by (auto simp: has_prefix_iff)
  moreover have "has_suffix (dir @ ''/*'') ''/*''" by simp
  ultimately have "compile_excluded_rule (dir @ ''/*'') =
      \<lparr>full_url = False, parts = [dir @ ''/'', []], bare_parts = [dir]\<rparr>"
    using compile_path_star [OF assms(2,3)] compile_path_body [OF assms(2,3)]
    by (simp add: compile_excluded_rule_def canonicalize_excluded_pattern_body_def)
  then show ?thesis
    by (auto simp: excludes_iff rule_matches_def match_excluded_wildcard_glob glob_language_Cons)
qed

theorem directory_rule_excludes_witness:
  "excludes [compile_excluded_rule (''/blog'' @ ''/*'')] ''https://example.com/blog/a'' \<longleftrightarrow>
    (\<exists>u. normalize_url ''https://example.com/blog/a'' None = Inr u
       \<and> (Path u = ''/blog'' \<or> (\<exists>t. Path u = ''/blog'' @ ''/'' @ t)))"
  by (rule directory_rule_excludes) simp_all

text \<open>
  An escaped star in the last path segment of a full-URL pattern with a query becomes a
  wildcard, against the comment of \<open>unescapeExcludedPatternSegments\<close>: the query is appended
  to the decoded segment and the result is split on \<open>*\<close> once more. The pattern
  \<open>https://example.com/a%2Ab?x=1\<close> so excludes \<open>https://example.com/aZZb?x=1\<close>; without the
  query the same path text excludes only the literal star.
\<close>

theorem escaped_star_becomes_wildcard:
  "excludes [compile_excluded_rule ''https://example.com/a%2Ab?x=1''] ''https://example.com/aZZb?x=1''
   \<and> \<not> excludes [compile_excluded_rule ''https://example.com/a%2Ab''] ''https://example.com/aZZb''
   \<and> excludes [compile_excluded_rule ''https://example.com/a%2Ab''] ''https://example.com/a*b''"
  by code_simp

end
