(* ===== verification/CrawlTypes.thy ===== *)
theory CrawlTypes
  imports Exclude
begin

text \<open>
  The records of \<open>internal/crawler/types.go\<close> and the page facts of \<open>parser.go\<close> that the
  crawl loop, the renderer decision and the soft-404 check read. Durations are 64-bit
  nanosecond counts, kept as \<open>int\<close>; a nil pointer is \<open>None\<close>.
\<close>

record crawler_config =
  AllowedHost :: string
  MaxDepth :: int
  MaxPages :: int
  FetchTimeout :: int
  RequestDelay :: int
  RequestJitter :: int
  UserAgent :: string
  ForceFullCrawl :: bool
  HonourRobotsTxt :: bool
  SkipSitemapSeed :: bool
  RenderJavaScript :: bool
  ExcludedURLs :: "excluded_rule list"

definition root_excluded :: "crawler_config \<Rightarrow> string \<Rightarrow> bool" where
  "root_excluded config rootURL = excludes (ExcludedURLs config) rootURL"

record crawl_job =
  job_URL :: string
  job_Depth :: int
  job_ETag :: string
  job_LastModified :: string

record fetch_result =
  FinalURL :: string
  StatusCode :: int
  ContentType :: string
  RetryAfter :: string
  ETag :: string
  LastModified :: string
  NotModified :: bool
  Body :: string
  ResponseTime :: int
  ResponseSize :: int
  FetchError :: "string option"

definition empty_fetch_result :: fetch_result where
  "empty_fetch_result = \<lparr>FinalURL = [], StatusCode = 0, ContentType = [], RetryAfter = [],
     ETag = [], LastModified = [], NotModified = False, Body = [], ResponseTime = 0,
     ResponseSize = 0, FetchError = None\<rparr>"

definition fetch_failed :: "string \<Rightarrow> fetch_result" where
  "fetch_failed e = empty_fetch_result\<lparr>FetchError := Some e\<rparr>"

record parsed_link =
  TargetURL :: string
  AnchorText :: string
  IsInternal :: bool
  NoFollow :: bool

record parsed_page =
  page_URL :: string
  Title :: string
  MetaDescription :: string
  H1 :: string
  VisibleText :: string
  PageTextLength :: int
  Links :: "parsed_link list"

record crawl_result =
  Job :: crawl_job
  Fetch :: fetch_result
  ParsedPage :: "parsed_page option"
  JavascriptRendered :: bool
  WouldHaveRendered :: bool
  ResultNotModified :: bool
  SoftNotFound :: bool
  ProcessErr :: "string option"

definition new_crawl_result :: "crawl_job \<Rightarrow> fetch_result \<Rightarrow> crawl_result" where
  "new_crawl_result job f = \<lparr>Job = job, Fetch = f, ParsedPage = None, JavascriptRendered = False,
     WouldHaveRendered = False, ResultNotModified = False, SoftNotFound = False,
     ProcessErr = None\<rparr>"

text \<open>A status the crawl treats as a broken page; 0 stands for "no response".\<close>

definition is_non_2xx :: "int \<Rightarrow> bool" where
  "is_non_2xx status = (status \<noteq> 0 \<and> (status < 200 \<or> status > 299))"

text \<open>\<open>crawlPageURL\<close> of \<open>store.go\<close>: the final URL when there is one, else the job's.\<close>

definition crawl_page_url :: "crawl_result \<Rightarrow> string" where
  "crawl_page_url result =
     (if FinalURL (Fetch result) \<noteq> [] then FinalURL (Fetch result) else job_URL (Job result))"

end
