(* ===== verification/CrawlConfig.thy ===== *)
theory CrawlConfig
  imports CrawlTypes
begin

text \<open>
  \<open>internal/crawler/config.go\<close>: defaults and validation of one persisted crawl configuration.
  The JSON text is decoded by \<open>encoding/json\<close>, a parameter \<open>unmarshal\<close> here; what it
  decodes to is the record of optional fields.
\<close>

definition default_worker_count :: int where "default_worker_count = 4"
definition default_max_depth :: int where "default_max_depth = 2"
definition default_fetch_timeout_seconds :: int where "default_fetch_timeout_seconds = 10"
definition default_user_agent :: string where "default_user_agent = ''revserp-bot/0.1''"

record crawl_config_snapshot =
  snap_MaxDepth :: int
  snap_MaxPages :: "int option"
  snap_FetchTimeoutSeconds :: int
  snap_RequestDelayMs :: "int option"
  snap_RequestJitterMs :: "int option"
  snap_ForceFullCrawl :: bool
  snap_HonourRobotsTxt :: bool
  snap_SkipSitemapSeed :: bool
  snap_RenderJavaScript :: bool
  snap_ExcludedURLPatterns :: "string list"

record crawl_config_snapshot_input =
  in_MaxDepth :: "int option"
  in_MaxPages :: "int option"
  in_FetchTimeoutSeconds :: "int option"
  in_RequestDelayMs :: "int option"
  in_RequestJitterMs :: "int option"
  in_ForceFullCrawl :: "bool option"
  in_HonourRobotsTxt :: "bool option"
  in_SkipSitemapSeed :: "bool option"
  in_RenderJavaScript :: "bool option"
  in_ExcludedURLPatterns :: "(string list) option"

definition default_snapshot :: crawl_config_snapshot where
  "default_snapshot = \<lparr>snap_MaxDepth = default_max_depth, snap_MaxPages = None,
     snap_FetchTimeoutSeconds = default_fetch_timeout_seconds, snap_RequestDelayMs = None,
     snap_RequestJitterMs = None, snap_ForceFullCrawl = False, snap_HonourRobotsTxt = False,
     snap_SkipSitemapSeed = False, snap_RenderJavaScript = False, snap_ExcludedURLPatterns = []\<rparr>"

text \<open>A value when given, the default otherwise; \<open>require\<close> is one validated optional field.\<close>

definition or_default :: "'a option \<Rightarrow> 'a \<Rightarrow> 'a" where
  "or_default x d = (case x of None \<Rightarrow> d | Some v \<Rightarrow> v)"

definition require :: "('a \<Rightarrow> bool) \<Rightarrow> string \<Rightarrow> 'a option \<Rightarrow> unit result" where
  "require ok message x = (case x of None \<Rightarrow> Inr () | Some v \<Rightarrow> if ok v then Inr () else Inl message)"

definition snapshot_of_input :: "crawl_config_snapshot_input \<Rightarrow> crawl_config_snapshot result" where
  "snapshot_of_input input =
     bind_result (require (\<lambda>v. v \<ge> 0) ''max_depth must be greater than or equal to zero''
       (in_MaxDepth input)) (\<lambda>_.
     bind_result (require (\<lambda>v. v > 0) ''max_pages must be greater than zero when provided''
       (in_MaxPages input)) (\<lambda>_.
     bind_result (require (\<lambda>v. v > 0) ''fetch_timeout_seconds must be greater than zero''
       (in_FetchTimeoutSeconds input)) (\<lambda>_.
     bind_result (require (\<lambda>v. v > 0) ''request_delay_ms must be greater than zero when provided''
       (in_RequestDelayMs input)) (\<lambda>_.
     bind_result (require (\<lambda>v. v > 0) ''request_jitter_ms must be greater than zero when provided''
       (in_RequestJitterMs input)) (\<lambda>_.
     bind_result (case in_ExcludedURLPatterns input of None \<Rightarrow> Inr []
                  | Some ps \<Rightarrow> normalize_excluded_url_patterns ps) (\<lambda>patterns.
     Inr \<lparr>snap_MaxDepth = or_default (in_MaxDepth input) default_max_depth,
       snap_MaxPages = in_MaxPages input,
       snap_FetchTimeoutSeconds =
         or_default (in_FetchTimeoutSeconds input) default_fetch_timeout_seconds,
       snap_RequestDelayMs = in_RequestDelayMs input,
       snap_RequestJitterMs = in_RequestJitterMs input,
       snap_ForceFullCrawl = or_default (in_ForceFullCrawl input) False,
       snap_HonourRobotsTxt = or_default (in_HonourRobotsTxt input) False,
       snap_SkipSitemapSeed = or_default (in_SkipSitemapSeed input) False,
       snap_RenderJavaScript = or_default (in_RenderJavaScript input) False,
       snap_ExcludedURLPatterns = patterns\<rparr>))))))"

definition normalize_config_snapshot ::
    "(string \<Rightarrow> crawl_config_snapshot_input result) \<Rightarrow> string \<Rightarrow> crawl_config_snapshot result" where
  "normalize_config_snapshot unmarshal raw =
     (if trim_space raw = [] then Inr default_snapshot
      else bind_result (unmarshal raw) snapshot_of_input)"

text \<open>
  What decoding the marshalled snapshot gives: the struct tags drop nil pointers, false
  flags and the empty pattern list (\<open>omitempty\<close>), and keep the rest.
\<close>

definition omit_false :: "bool \<Rightarrow> bool option" where
  "omit_false b = (if b then Some True else None)"

definition remarshalled :: "crawl_config_snapshot \<Rightarrow> crawl_config_snapshot_input" where
  "remarshalled s = \<lparr>in_MaxDepth = Some (snap_MaxDepth s), in_MaxPages = snap_MaxPages s,
     in_FetchTimeoutSeconds = Some (snap_FetchTimeoutSeconds s),
     in_RequestDelayMs = snap_RequestDelayMs s, in_RequestJitterMs = snap_RequestJitterMs s,
     in_ForceFullCrawl = omit_false (snap_ForceFullCrawl s),
     in_HonourRobotsTxt = omit_false (snap_HonourRobotsTxt s),
     in_SkipSitemapSeed = omit_false (snap_SkipSitemapSeed s),
     in_RenderJavaScript = omit_false (snap_RenderJavaScript s),
     in_ExcludedURLPatterns = (if snap_ExcludedURLPatterns s = [] then None
                               else Some (snap_ExcludedURLPatterns s))\<rparr>"

definition millisecond :: int where "millisecond = 1000000"
definition second :: int where "second = 1000000000"

definition duration_of :: "int option \<Rightarrow> int \<Rightarrow> int" where
  "duration_of n unit = (case n of None \<Rightarrow> 0 | Some v \<Rightarrow> wrap64 (v * unit))"

definition config_from_base_url_and_snapshot ::
    "(string \<Rightarrow> crawl_config_snapshot_input result) \<Rightarrow> string \<Rightarrow> string \<Rightarrow> crawler_config result" where
  "config_from_base_url_and_snapshot unmarshal baseURL raw =
     bind_result (url_parse baseURL) (\<lambda>u.
     if Host u = [] then Inl ''missing host''
     else bind_result (normalize_config_snapshot unmarshal raw) (\<lambda>s.
     bind_result (compile_excluded_url_patterns (snap_ExcludedURLPatterns s)) (\<lambda>excluded.
     Inr \<lparr>AllowedHost = normalize_host_for_scope (hostname u),
       MaxDepth = snap_MaxDepth s,
       MaxPages = or_default (snap_MaxPages s) 0,
       FetchTimeout = wrap64 (snap_FetchTimeoutSeconds s * second),
       RequestDelay = duration_of (snap_RequestDelayMs s) millisecond,
       RequestJitter = duration_of (snap_RequestJitterMs s) millisecond,
       UserAgent = default_user_agent,
       ForceFullCrawl = snap_ForceFullCrawl s,
       HonourRobotsTxt = snap_HonourRobotsTxt s,
       SkipSitemapSeed = snap_SkipSitemapSeed s,
       RenderJavaScript = snap_RenderJavaScript s,
       ExcludedURLs = excluded\<rparr>)))"

section \<open>Validated snapshots\<close>

definition valid_snapshot :: "crawl_config_snapshot \<Rightarrow> bool" where
  "valid_snapshot s = (snap_MaxDepth s \<ge> 0 \<and> snap_FetchTimeoutSeconds s > 0
     \<and> (\<forall>v\<in>set_option (snap_MaxPages s). v > 0)
     \<and> (\<forall>v\<in>set_option (snap_RequestDelayMs s). v > 0)
     \<and> (\<forall>v\<in>set_option (snap_RequestJitterMs s). v > 0)
     \<and> normalize_excluded_url_patterns (snap_ExcludedURLPatterns s)
         = Inr (snap_ExcludedURLPatterns s))"

lemma require_Inr [simp]: "require ok m x = Inr u \<longleftrightarrow> (\<forall>v\<in>set_option x. ok v)"
  by (cases x) (auto simp: require_def)

lemma normalize_patterns_Nil [simp]: "normalize_excluded_url_patterns [] = Inr []"
  by (simp add: normalize_excluded_url_patterns_def)

lemma snapshot_of_input_valid:
  assumes "snapshot_of_input i = Inr s"
  shows "valid_snapshot s"
proof -
  from assms obtain patterns where
    p: "(case in_ExcludedURLPatterns i of None \<Rightarrow> Inr []
         | Some ps \<Rightarrow> normalize_excluded_url_patterns ps) = Inr patterns"
    and r: "\<forall>v\<in>set_option (in_MaxDepth i). v \<ge> 0" "\<forall>v\<in>set_option (in_MaxPages i). v > 0"
      "\<forall>v\<in>set_option (in_FetchTimeoutSeconds i). v > 0"
      "\<forall>v\<in>set_option (in_RequestDelayMs i). v > 0" "\<forall>v\<in>set_option (in_RequestJitterMs i). v > 0"
    and s: "snap_MaxDepth s = or_default (in_MaxDepth i) default_max_depth"
      "snap_MaxPages s = in_MaxPages i"
      "snap_FetchTimeoutSeconds s = or_default (in_FetchTimeoutSeconds i) default_fetch_timeout_seconds"
      "snap_RequestDelayMs s = in_RequestDelayMs i" "snap_RequestJitterMs s = in_RequestJitterMs i"
      "snap_ExcludedURLPatterns s = patterns"
    unfolding snapshot_of_input_def bind_result_Inr require_Inr by fastforce
  have "normalize_excluded_url_patterns patterns = Inr patterns"
    using p by (cases "in_ExcludedURLPatterns i") (auto intro: normalize_excluded_url_patterns_idem)
  moreover have "or_default (in_MaxDepth i) default_max_depth \<ge> 0"
    "or_default (in_FetchTimeoutSeconds i) default_fetch_timeout_seconds > 0"
    using r by (auto simp: or_default_def default_max_depth_def default_fetch_timeout_seconds_def
        split: option.split)
  ultimately show ?thesis using r s by (simp add: valid_snapshot_def)
qed

lemma default_snapshot_valid: "valid_snapshot default_snapshot"
  by (simp add: valid_snapshot_def default_snapshot_def default_max_depth_def
      default_fetch_timeout_seconds_def)

lemma or_default_omit_false [simp]: "or_default (omit_false b) False = b"
  by (simp add: or_default_def omit_false_def)

lemma or_default_Some [simp]: "or_default (Some v) d = v"
  by (simp add: or_default_def)

lemma bind_require:
  "\<forall>v\<in>set_option x. ok v \<Longrightarrow> bind_result (require ok m x) f = f ()"
  by (cases x) (auto simp: require_def)

lemma remarshalled_roundtrip:
  assumes "valid_snapshot s"
  shows "snapshot_of_input (remarshalled s) = Inr s"
proof -
  have "(case in_ExcludedURLPatterns (remarshalled s) of None \<Rightarrow> Inr []
         | Some ps \<Rightarrow> normalize_excluded_url_patterns ps) = Inr (snap_ExcludedURLPatterns s)"
    using assms by (auto simp: remarshalled_def valid_snapshot_def)
  with assms show ?thesis
    by (simp add: snapshot_of_input_def bind_require valid_snapshot_def)
      (simp add: remarshalled_def bind_require)
qed

text \<open>
  C40: every configuration that \<open>NormalizeConfigSnapshot\<close> accepts is valid (depth not
  negative, the optional bounds positive, the pattern list normalised), and normalising the
  persisted form of the result again gives the same snapshot back, for any JSON decoder
  that reads the persisted form as the struct tags say.
\<close>

theorem normalize_config_snapshot_stable:
  assumes "normalize_config_snapshot unmarshal raw = Inr s"
    and "trim_space stored \<noteq> []" and "unmarshal stored = Inr (remarshalled s)"
  shows "valid_snapshot s \<and> normalize_config_snapshot unmarshal stored = Inr s"
proof -
  from assms(1) have "valid_snapshot s"
    by (auto simp: normalize_config_snapshot_def snapshot_of_input_valid default_snapshot_valid
        split: if_splits)
  with assms(2,3) show ?thesis
    by (simp add: normalize_config_snapshot_def remarshalled_roundtrip)
qed

definition sample_input :: crawl_config_snapshot_input where
  "sample_input = \<lparr>in_MaxDepth = Some 3, in_MaxPages = Some 50, in_FetchTimeoutSeconds = None,
     in_RequestDelayMs = Some 200, in_RequestJitterMs = None, in_ForceFullCrawl = Some False,
     in_HonourRobotsTxt = Some True, in_SkipSitemapSeed = None, in_RenderJavaScript = None,
     in_ExcludedURLPatterns = Some ['' /blog/* '']\<rparr>"

theorem normalize_config_snapshot_stable_witness:
  "\<exists>s. valid_snapshot s \<and> snap_ExcludedURLPatterns s = [''/blog/*'']"
proof -
  define s where "s = (case snapshot_of_input sample_input of Inr s \<Rightarrow> s | Inl _ \<Rightarrow> default_snapshot)"
  define unmarshal where
    "unmarshal = (\<lambda>t. if t = ''raw'' then Inr sample_input else Inr (remarshalled s) ::
       crawl_config_snapshot_input result)"
  have s: "snapshot_of_input sample_input = Inr s"
    unfolding s_def by code_simp
  have "normalize_config_snapshot unmarshal ''raw'' = Inr s"
    using s by (simp add: normalize_config_snapshot_def unmarshal_def trim_space_def trim_left_def
        trim_right_def is_space_def)
  moreover have "trim_space ''db'' \<noteq> []" by code_simp
  moreover have "unmarshal ''db'' = Inr (remarshalled s)" by (simp add: unmarshal_def)
  ultimately have "valid_snapshot s" by (rule normalize_config_snapshot_stable [THEN conjunct1])
  moreover have "snap_ExcludedURLPatterns s = [''/blog/*'']"
    unfolding s_def by code_simp
  ultimately show ?thesis by blast
qed

text \<open>
  A crawl configuration built from a base URL and a snapshot satisfies what the runner
  relies on: depth and page cap not negative, the scope host in canonical form of the base
  URL's host, and the exclusion matcher the compiled form of the snapshot's (already
  normalised) patterns, so compiling cannot fail at this point.
\<close>

theorem config_from_base_url_sound:
  assumes "config_from_base_url_and_snapshot unmarshal baseURL raw = Inr c"
  shows "MaxDepth c \<ge> 0 \<and> MaxPages c \<ge> 0
    \<and> (\<exists>u. url_parse baseURL = Inr u \<and> AllowedHost c = normalize_host_for_scope (hostname u))
    \<and> (\<exists>s. normalize_config_snapshot unmarshal raw = Inr s
         \<and> ExcludedURLs c = map compile_excluded_rule (snap_ExcludedURLPatterns s))"
proof -
  from assms obtain u s ex where u: "url_parse baseURL = Inr u"
    and s: "normalize_config_snapshot unmarshal raw = Inr s"
    and ex: "compile_excluded_url_patterns (snap_ExcludedURLPatterns s) = Inr ex"
    and c: "MaxDepth c = snap_MaxDepth s" "MaxPages c = or_default (snap_MaxPages s) 0"
      "AllowedHost c = normalize_host_for_scope (hostname u)" "ExcludedURLs c = ex"
    by (auto simp: config_from_base_url_and_snapshot_def split: if_splits)
  from s have v: "valid_snapshot s"
    by (auto simp: normalize_config_snapshot_def snapshot_of_input_valid default_snapshot_valid
        split: if_splits)
  with ex have "ex = map compile_excluded_rule (snap_ExcludedURLPatterns s)"
    by (auto simp: compile_excluded_url_patterns_def valid_snapshot_def)
  moreover have "snap_MaxDepth s \<ge> 0" "or_default (snap_MaxPages s) 0 \<ge> 0"
    using v by (auto simp: valid_snapshot_def or_default_def split: option.splits)
  ultimately show ?thesis using u s c by auto
qed

theorem config_from_base_url_sound_witness:
  "\<exists>c. config_from_base_url_and_snapshot (\<lambda>_. Inr sample_input) ''https://www.Example.com/x'' ''{}'' = Inr c
     \<and> AllowedHost c = ''example.com'' \<and> MaxDepth c \<ge> 0"
proof -
  let ?r = "config_from_base_url_and_snapshot (\<lambda>_. Inr sample_input) ''https://www.Example.com/x'' ''{}''"
  have "case ?r of Inl _ \<Rightarrow> False | Inr c \<Rightarrow> AllowedHost c = ''example.com''"
    by code_simp
  then obtain c where c: "?r = Inr c" "AllowedHost c = ''example.com''"
    by (cases ?r) auto
  from config_from_base_url_sound [OF c(1)] c show ?thesis by blast
qed

end
