(* ===== verification/Fetcher.thy ===== *)
theory Fetcher
  imports CrawlTypes
begin

text \<open>
  \<open>internal/crawler/fetcher.go\<close>: the HTTP fetch with retries, the shared per-host cooldown and
  the exclusion guard. The remote servers, the clock, the context and the random source are
  the environment, one record of functions indexed by the attempt.
\<close>

section \<open>State and environment\<close>

record http_request =
  req_URL :: string
  req_UserAgent :: string
  req_IfNoneMatch :: "string option"
  req_IfModifiedSince :: "string option"

record http_response =
  resp_URL :: string
  resp_Status :: int
  resp_ContentType :: string
  resp_RetryAfter :: string
  resp_ETag :: string
  resp_LastModified :: string
  resp_Body :: string
  resp_Elapsed :: int

record fetcher =
  fetch_UserAgent :: string
  maxRetries :: int
  retryBase :: int
  retryMax :: int
  maxBodyBytes :: int
  fetch_excludedURLs :: "excluded_rule list"
  hostCooldownUntil :: "string \<rightharpoonup> int"

record fetch_env =
  http_do :: "nat \<Rightarrow> http_request \<Rightarrow> http_response result"
    \<comment> \<open>the server's answer to attempt \<open>n\<close>; \<open>Inl\<close> for a transport error\<close>
  clock :: "nat \<Rightarrow> int"
  survives_cooldown :: "nat \<Rightarrow> bool"
    \<comment> \<open>the context is not cancelled while attempt \<open>n\<close> waits for the cooldown\<close>
  survives_backoff :: "nat \<Rightarrow> bool"
  random :: "nat \<Rightarrow> nat"
  http_date :: "string \<Rightarrow> int option"
    \<comment> \<open>\<open>http.ParseTime\<close>, in the clock's unit\<close>

definition default_max_body_bytes :: int where
  "default_max_body_bytes = 10485760"

definition new_fetcher :: "string \<Rightarrow> int \<Rightarrow> int \<Rightarrow> int \<Rightarrow> fetcher" where
  "new_fetcher userAgent retries base mx =
     \<lparr>fetch_UserAgent = userAgent,
      maxRetries = (if retries < 0 then 0 else retries),
      retryBase = (if base \<le> 0 then 1000000000 else base),
      retryMax = (if mx \<le> 0 then 15000000000 else mx),
      maxBodyBytes = default_max_body_bytes,
      fetch_excludedURLs = [],
      hostCooldownUntil = Map.empty\<rparr>"

definition with_max_body_bytes :: "fetcher \<Rightarrow> int \<Rightarrow> fetcher" where
  "with_max_body_bytes f n = f\<lparr>maxBodyBytes := (if n \<le> 0 then default_max_body_bytes else n)\<rparr>"

definition with_excluded_urls :: "fetcher \<Rightarrow> excluded_rule list \<Rightarrow> fetcher" where
  "with_excluded_urls f m = f\<lparr>fetch_excludedURLs := m\<rparr>"

section \<open>Cooldown and backoff\<close>

definition cooldown_remaining :: "fetcher \<Rightarrow> int \<Rightarrow> string \<Rightarrow> int" where
  "cooldown_remaining f now host =
     (case hostCooldownUntil f host of
        None \<Rightarrow> 0
      | Some until \<Rightarrow> if until - now \<le> 0 then 0 else until - now)"

definition set_cooldown :: "fetcher \<Rightarrow> int \<Rightarrow> string \<Rightarrow> int \<Rightarrow> fetcher" where
  "set_cooldown f now host d =
     (if d \<le> 0 then f
      else (let newUntil = now + d in
        case hostCooldownUntil f host of
          None \<Rightarrow> f\<lparr>hostCooldownUntil := (hostCooldownUntil f)(host \<mapsto> newUntil)\<rparr>
        | Some existing \<Rightarrow>
            if newUntil > existing
            then f\<lparr>hostCooldownUntil := (hostCooldownUntil f)(host \<mapsto> newUntil)\<rparr> else f))"

text \<open>\<open>strconv.ParseInt(s, 10, 64)\<close>: an optional sign, digits, and the 64-bit range.\<close>

definition decimal_value :: "string \<Rightarrow> int" where
  "decimal_value ds = foldl (\<lambda>n c. 10 * n + (of_char c - 48)) 0 ds"

definition parse_int64 :: "string \<Rightarrow> int option" where
  "parse_int64 s =
     (let (neg, ds) = (case s of [] \<Rightarrow> (False, [])
                       | c # t \<Rightarrow> if c = CHR ''-'' then (True, t)
                                  else if c = CHR ''+'' then (False, t) else (False, s));
          v = (if neg then - decimal_value ds else decimal_value ds)
      in if ds = [] \<or> \<not> list_all is_digit ds \<or> \<not> in_int64 v then None else Some v)"

definition backoff_ceiling :: "fetcher \<Rightarrow> nat \<Rightarrow> int" where
  "backoff_ceiling f attempt =
     (let c = wrap64 (retryBase f * wrap64 (2 ^ (min attempt 62)))
      in if c \<le> 0 \<or> c > retryMax f then retryMax f else c)"

definition backoff_duration :: "fetch_env \<Rightarrow> fetcher \<Rightarrow> int \<Rightarrow> fetch_result \<Rightarrow> nat \<Rightarrow> int" where
  "backoff_duration env f now result attempt =
     (case (if RetryAfter result = [] then None else parse_int64 (RetryAfter result)) of
        Some secs \<Rightarrow> min (wrap64 (secs * 1000000000)) (retryMax f)
      | None \<Rightarrow>
          (case (if RetryAfter result = [] then None else http_date env (RetryAfter result)) of
             Some t \<Rightarrow> min (max 0 (t - now)) (retryMax f)
           | None \<Rightarrow> int (random env attempt) mod (backoff_ceiling f attempt + 1)))"

section \<open>One request\<close>

definition validator_request :: "fetcher \<Rightarrow> string \<Rightarrow> string \<Rightarrow> string \<Rightarrow> http_request" where
  "validator_request f targetURL etag lastModified =
     \<lparr>req_URL = targetURL, req_UserAgent = fetch_UserAgent f,
      req_IfNoneMatch = (if etag \<noteq> [] then Some etag else None),
      req_IfModifiedSince = (if etag = [] \<and> lastModified \<noteq> [] then Some lastModified else None)\<rparr>"

definition do_fetch ::
    "fetch_env \<Rightarrow> fetcher \<Rightarrow> nat \<Rightarrow> string \<Rightarrow> string \<Rightarrow> string \<Rightarrow> fetch_result" where
  "do_fetch env f attempt targetURL etag lastModified =
     (case http_do env attempt (validator_request f targetURL etag lastModified) of
        Inl e \<Rightarrow> fetch_failed (''fetch url: '' @ e)
      | Inr r \<Rightarrow>
          (let cap = (if maxBodyBytes f \<le> 0 then default_max_body_bytes else maxBodyBytes f) in
           if resp_Status r = 304 then
             empty_fetch_result\<lparr>FinalURL := resp_URL r, StatusCode := resp_Status r,
               ETag := resp_ETag r, LastModified := resp_LastModified r, NotModified := True,
               ResponseTime := resp_Elapsed r\<rparr>
           else if int (length (resp_Body r)) > cap then
             fetch_failed (''response body for '' @ quoted targetURL @ '' exceeds '' @ itoa cap
                           @ '' byte limit'')
           else \<lparr>FinalURL = resp_URL r, StatusCode = resp_Status r,
                 ContentType = resp_ContentType r, RetryAfter = resp_RetryAfter r,
                 ETag = resp_ETag r, LastModified = resp_LastModified r, NotModified = False,
                 Body = resp_Body r, ResponseTime = resp_Elapsed r,
                 ResponseSize = int (length (resp_Body r)), FetchError = None\<rparr>))"

section \<open>The retry loop\<close>

text \<open>
  \<open>retry_loop\<close> is the \<open>for attempt := 0; ; attempt++\<close> loop and \<open>retry_step\<close> its body; they also
  return the number of requests sent and the fetcher, whose cooldown table they write.
\<close>

definition throttled :: "int \<Rightarrow> bool" where
  "throttled status = (status = 429 \<or> status = 503)"

definition retry_step ::
    "fetch_env \<Rightarrow> fetcher \<Rightarrow> string \<Rightarrow> string \<Rightarrow> string \<Rightarrow> string \<Rightarrow> nat
       \<Rightarrow> (fetch_result \<times> nat \<times> fetcher) + fetcher" where
  \<comment> \<open>one round of the loop: \<open>Inl\<close> returns, \<open>Inr\<close> goes on with the next attempt\<close>
  "retry_step env f host targetURL etag lastModified attempt =
     (if cooldown_remaining f (clock env attempt) host > 0 \<and> \<not> survives_cooldown env attempt
      then Inl (fetch_failed ''context canceled'', attempt, f)
      else
        (let result = do_fetch env f attempt targetURL etag lastModified in
         if FetchError result = None \<and> excludes (fetch_excludedURLs f) (FinalURL result) then
           Inl (empty_fetch_result\<lparr>FinalURL := FinalURL result, StatusCode := StatusCode result,
                  FetchError := Some (''fetch blocked: redirect target '' @ quoted (FinalURL result)
                                      @ '' is excluded by excluded_url_patterns'')\<rparr>,
                Suc attempt, f)
         else if FetchError result \<noteq> None then Inl (result, Suc attempt, f)
         else if \<not> throttled (StatusCode result) then Inl (result, Suc attempt, f)
         else if int attempt \<ge> maxRetries f then Inl (result, Suc attempt, f)
         else
           (let now = clock env attempt;
                wait = backoff_duration env f now result attempt;
                f' = set_cooldown f now host wait
            in if wait > 0 \<and> \<not> survives_backoff env attempt
               then Inl (fetch_failed ''context canceled'', Suc attempt, f')
               else Inr f')))"

lemma set_cooldown_frame [frame, simp]:
  "maxRetries (set_cooldown f now host d) = maxRetries f"
  "retryMax (set_cooldown f now host d) = retryMax f"
  "retryBase (set_cooldown f now host d) = retryBase f"
  "fetch_excludedURLs (set_cooldown f now host d) = fetch_excludedURLs f"
  "maxBodyBytes (set_cooldown f now host d) = maxBodyBytes f"
  "fetch_UserAgent (set_cooldown f now host d) = fetch_UserAgent f"
  by (auto simp: set_cooldown_def Let_def split: option.splits)

lemma retry_step_Inr:
  "retry_step env f host u e l a = Inr f' \<Longrightarrow>
     int a < maxRetries f \<and> (\<exists>w. f' = set_cooldown f (clock env a) host w)"
  by (auto simp: retry_step_def Let_def split: if_splits)

lemma retry_step_Inl:
  "retry_step env f host u e l a = Inl (r, n, f') \<Longrightarrow>
     (f' = f \<or> (\<exists>w. f' = set_cooldown f (clock env a) host w \<and> int a < maxRetries f)) \<and>
     (n = a \<and> FetchError r \<noteq> None \<or> n = Suc a) \<and>
     (FetchError r = None \<longrightarrow> r = do_fetch env f a u e l
        \<and> \<not> excludes (fetch_excludedURLs f) (FinalURL r)
        \<and> (throttled (StatusCode r) \<longrightarrow> maxRetries f \<le> int a)) \<and>
     (NotModified r \<longrightarrow> r = do_fetch env f a u e l)"
  by (simp add: retry_step_def Let_def split: if_splits)
    (auto simp: fetch_failed_def empty_fetch_result_def)

function retry_loop ::
    "fetch_env \<Rightarrow> fetcher \<Rightarrow> string \<Rightarrow> string \<Rightarrow> string \<Rightarrow> string \<Rightarrow> nat
       \<Rightarrow> fetch_result \<times> nat \<times> fetcher" where
  "retry_loop env f host targetURL etag lastModified attempt =
     (case retry_step env f host targetURL etag lastModified attempt of
        Inl out \<Rightarrow> out
      | Inr f' \<Rightarrow> retry_loop env f' host targetURL etag lastModified (Suc attempt))"
  by pat_completeness auto
termination
  by (relation "measure (\<lambda>(env, f, host, t, e, l, attempt). nat (maxRetries f - int attempt))")
    (auto dest!: retry_step_Inr)

declare retry_loop.simps [simp del]

definition fetch_conditional ::
    "fetch_env \<Rightarrow> fetcher \<Rightarrow> string \<Rightarrow> string \<Rightarrow> string \<Rightarrow> fetch_result \<times> nat \<times> fetcher" where
  "fetch_conditional env f targetURL etag lastModified =
     (if excludes (fetch_excludedURLs f) targetURL then
        (fetch_failed (''fetch blocked: url '' @ quoted targetURL
                       @ '' is excluded by excluded_url_patterns''), 0, f)
      else (case url_parse targetURL of
              Inl _ \<Rightarrow> (do_fetch env f 0 targetURL etag lastModified, 1, f)
            | Inr u \<Rightarrow>
                if Host u = [] then (do_fetch env f 0 targetURL etag lastModified, 1, f)
                else retry_loop env f (hostname u) targetURL etag lastModified 0))"

definition fetch :: "fetch_env \<Rightarrow> fetcher \<Rightarrow> string \<Rightarrow> fetch_result \<times> nat \<times> fetcher" where
  "fetch env f targetURL = fetch_conditional env f targetURL [] []"

section \<open>Redirects\<close>

text \<open>
  \<open>checkRedirect\<close>: \<open>validate\<close> is \<open>ValidatePublicHost\<close> (DNS resolution plus the address
  check), \<open>hops\<close> the requests already made.
\<close>

definition check_redirect ::
    "(string \<Rightarrow> string option) \<Rightarrow> fetcher \<Rightarrow> url \<Rightarrow> nat \<Rightarrow> string option" where
  "check_redirect validate f u hops =
     (if hops \<ge> 10 then Some ''stopped after 10 redirects''
      else (case validate (hostname u) of
              Some e \<Rightarrow> Some (''redirect blocked: '' @ e)
            | None \<Rightarrow>
                if excludes (fetch_excludedURLs f) (url_string u)
                then Some (''redirect blocked: url '' @ quoted (url_string u)
                           @ '' is excluded by excluded_url_patterns'')
                else None))"

section \<open>Lemmas on one request\<close>

lemma fetch_failed_simps [simp]:
  "FetchError (fetch_failed e) = Some e" "FinalURL (fetch_failed e) = []"
  "Body (fetch_failed e) = []" "StatusCode (fetch_failed e) = 0"
  "NotModified (fetch_failed e) = False"
  by (simp_all add: fetch_failed_def empty_fetch_result_def)

lemma do_fetch_not_modified:
  "NotModified (do_fetch env f a u e l) \<longleftrightarrow>
     FetchError (do_fetch env f a u e l) = None \<and> StatusCode (do_fetch env f a u e l) = 304"
  by (auto simp: do_fetch_def Let_def empty_fetch_result_def split: sum.splits)

lemma do_fetch_body_bound:
  "0 < maxBodyBytes f \<Longrightarrow> int (length (Body (do_fetch env f a u e l))) \<le> maxBodyBytes f"
  by (auto simp: do_fetch_def Let_def empty_fetch_result_def split: sum.splits)

section \<open>Bounds of the backoff\<close>

lemma backoff_ceiling_bounds:
  "0 < retryMax f \<Longrightarrow> 0 < backoff_ceiling f n \<and> backoff_ceiling f n \<le> retryMax f"
  by (auto simp: backoff_ceiling_def Let_def)

text \<open>
  The wait before a retry never exceeds \<open>retryMax\<close>, whatever the server puts in
  \<open>Retry-After\<close> and however the 64-bit products of the exponential ceiling and of the
  delta-seconds wrap around; without a usable \<open>Retry-After\<close> it is also never negative.
\<close>

theorem backoff_duration_bounded:
  assumes "0 < retryMax f"
  shows "backoff_duration env f now result attempt \<le> retryMax f
    \<and> (parse_int64 (RetryAfter result) = None \<longrightarrow> 0 \<le> backoff_duration env f now result attempt)"
proof -
  let ?c = "backoff_ceiling f attempt"
  have c: "0 < ?c" "?c \<le> retryMax f" using backoff_ceiling_bounds [OF assms] by auto
  have "0 \<le> int (random env attempt) mod (?c + 1)" using c by simp
  moreover have "int (random env attempt) mod (?c + 1) < ?c + 1"
    using c by (intro pos_mod_bound) simp
  ultimately show ?thesis
    using c assms by (auto simp: backoff_duration_def split: option.splits)
qed

theorem backoff_duration_bounded_witness:
  "\<forall>env now. backoff_duration env (new_fetcher ''bot'' 3 0 0) now
     (empty_fetch_result\<lparr>RetryAfter := ''120''\<rparr>) 0 \<le> 15000000000"
proof -
  have "0 < retryMax (new_fetcher ''bot'' 3 0 0)" by (simp add: new_fetcher_def)
  from backoff_duration_bounded [OF this]
  show ?thesis by (simp add: new_fetcher_def)
qed

text \<open>
  A \<open>Retry-After\<close> of more than 9223372036 seconds overflows the 64-bit nanosecond
  product: the wait comes out negative, so no cooldown is recorded and the retry is
  immediate, where the code means to cap the delay at \<open>retryMax\<close>.
\<close>

theorem retry_after_overflow:
  "backoff_duration env f now (empty_fetch_result\<lparr>RetryAfter := ''9223372037''\<rparr>) attempt
     = min (- 9223372036709551616) (retryMax f)
   \<and> set_cooldown f now host (min (- 9223372036709551616) (retryMax f)) = f"
proof -
  have "parse_int64 ''9223372037'' = Some 9223372037" by code_simp
  moreover have "wrap64 (9223372037 * 1000000000) = - 9223372036709551616" by code_simp
  ultimately show ?thesis
    by (simp add: backoff_duration_def set_cooldown_def)
qed

section \<open>The cooldown table\<close>

text \<open>
  A cooldown is never shortened: whatever host a worker records a wait for, every host's
  deadline afterwards is at least what it was, and the recorded host's remaining cooldown at
  that moment is at least the wait.
\<close>

theorem set_cooldown_monotone:
  "(hostCooldownUntil f h = Some t \<longrightarrow>
     (\<exists>t'. hostCooldownUntil (set_cooldown f now host d) h = Some t' \<and> t \<le> t'))
   \<and> d \<le> cooldown_remaining (set_cooldown f now host d) now host"
  by (auto simp: set_cooldown_def cooldown_remaining_def Let_def split: option.splits)

theorem set_cooldown_monotone_witness:
  "\<exists>t'. hostCooldownUntil (set_cooldown
      ((new_fetcher ''bot'' 3 0 0)\<lparr>hostCooldownUntil := [''a'' \<mapsto> 50]\<rparr>) 10 ''a'' 5) ''a'' = Some t' \<and> 50 \<le> t'"
proof -
  have "hostCooldownUntil ((new_fetcher ''bot'' 3 0 0)\<lparr>hostCooldownUntil := [''a'' \<mapsto> 50]\<rparr>) ''a'' = Some 50"
    by simp
  then show ?thesis
    by (rule set_cooldown_monotone [THEN conjunct1, THEN mp])
qed

section \<open>The retry loop\<close>

lemma set_cooldown_le:
  "hostCooldownUntil f h = Some t \<Longrightarrow>
     \<exists>t'. hostCooldownUntil (set_cooldown f now host d) h = Some t' \<and> t \<le> t'"
  by (auto simp: set_cooldown_def Let_def split: option.splits)

text \<open>
  What every run of the loop guarantees, by induction over its rounds: the request count, the
  exclusion of the final URL, when a throttled answer is final, and the frame.
\<close>

lemma retry_loop_spec:
  "retry_loop env f host u e l a = (r, n, f') \<Longrightarrow>
     (int a \<le> max 0 (maxRetries f) \<longrightarrow> int n \<le> max 0 (maxRetries f) + 1)
     \<and> fetch_excludedURLs f' = fetch_excludedURLs f
     \<and> (FetchError r = None \<longrightarrow> \<not> excludes (fetch_excludedURLs f) (FinalURL r)
          \<and> (throttled (StatusCode r) \<longrightarrow> maxRetries f < int n))
     \<and> (NotModified r \<longrightarrow> FetchError r = None \<and> StatusCode r = 304)
     \<and> (\<forall>h t. hostCooldownUntil f h = Some t
          \<longrightarrow> (\<exists>t'. hostCooldownUntil f' h = Some t' \<and> t \<le> t'))"
proof (induction env f host u e l a arbitrary: r n f' rule: retry_loop.induct)
  case (1 env f host u e l a)
  show ?case
  proof (cases "retry_step env f host u e l a")
    case (Inl out)
    with "1.prems" have "retry_step env f host u e l a = Inl (r, n, f')"
      by (simp add: retry_loop.simps [of env f host u e l a])
    from retry_step_Inl [OF this] show ?thesis
      using do_fetch_not_modified [of env f a u e l] set_cooldown_le
      by (auto simp: not_less)
  next
    case (Inr f1)
    with "1.prems" have run: "retry_loop env f1 host u e l (Suc a) = (r, n, f')"
      by (simp add: retry_loop.simps [of env f host u e l a])
    from retry_step_Inr [OF Inr] obtain w where w: "int a < maxRetries f"
      "f1 = set_cooldown f (clock env a) host w"
      by blast
    have "\<exists>t'. hostCooldownUntil f' h = Some t' \<and> t \<le> t'" if "hostCooldownUntil f h = Some t" for h t
    proof -
      from set_cooldown_le [OF that] w(2) obtain t1 where
        "hostCooldownUntil f1 h = Some t1" "t \<le> t1" by blast
      with "1.IH" [OF Inr run] show ?thesis by (meson order.trans)
    qed
    with "1.IH" [OF Inr run] w show ?thesis by auto
  qed
qed

text \<open>
  A fetch always ends: it sends at most \<open>maxRetries + 1\<close> requests, none at all when the
  target is excluded (it then reports an error), and it never shortens a host's cooldown.
\<close>

theorem fetch_conditional_requests:
  assumes "fetch_conditional env f u e l = (r, n, f')" and "0 \<le> maxRetries f"
  shows "int n \<le> maxRetries f + 1
    \<and> (excludes (fetch_excludedURLs f) u \<longrightarrow> n = 0 \<and> FetchError r \<noteq> None)
    \<and> (\<forall>h t. hostCooldownUntil f h = Some t
          \<longrightarrow> (\<exists>t'. hostCooldownUntil f' h = Some t' \<and> t \<le> t'))"
  using assms
  by (auto simp: fetch_conditional_def split: if_splits sum.splits
      dest!: retry_loop_spec)

definition sample_env :: "int list \<Rightarrow> fetch_env" where
  \<comment> \<open>a server that answers attempt \<open>n\<close> with the \<open>n\<close>-th status of the list, then 200\<close>
  "sample_env statuses =
     \<lparr>http_do = (\<lambda>n req. Inr \<lparr>resp_URL = req_URL req,
        resp_Status = (if n < length statuses then statuses ! n else 200),
        resp_ContentType = ''text/html'', resp_RetryAfter = [], resp_ETag = [],
        resp_LastModified = [], resp_Body = ''ok'', resp_Elapsed = 1\<rparr>),
      clock = (\<lambda>n. int n), survives_cooldown = (\<lambda>_. True), survives_backoff = (\<lambda>_. True),
      random = (\<lambda>n. n), http_date = (\<lambda>_. None)\<rparr>"

theorem fetch_conditional_requests_witness:
  "\<exists>r n f'. fetch_conditional (sample_env [503, 429]) (new_fetcher ''bot'' 3 0 0)
     ''https://example.com/'' [] [] = (r, n, f') \<and> int n \<le> 4"
proof -
  obtain r n f' where h: "fetch_conditional (sample_env [503, 429]) (new_fetcher ''bot'' 3 0 0)
     ''https://example.com/'' [] [] = (r, n, f')"
    by (metis prod_cases3)
  have "0 \<le> maxRetries (new_fetcher ''bot'' 3 0 0)" by (simp add: new_fetcher_def)
  from fetch_conditional_requests [OF h this] h show ?thesis by (auto simp: new_fetcher_def)
qed

text \<open>
  What a successful fetch of a URL with a host may hand to the crawl: never content whose
  final URL is excluded (a redirect into an excluded area is turned into an error), and a
  429 or 503 only after more requests than \<open>maxRetries\<close>, that is with the retries used up.
\<close>

theorem fetch_conditional_result:
  assumes "fetch_conditional env f u e l = (r, n, f')" and "FetchError r = None"
    and "url_parse u = Inr v" and "Host v \<noteq> []"
  shows "\<not> excludes (fetch_excludedURLs f) (FinalURL r)
    \<and> (throttled (StatusCode r) \<longrightarrow> maxRetries f < int n)"
  using assms
  by (auto simp: fetch_conditional_def split: if_splits dest!: retry_loop_spec)

theorem fetch_conditional_result_witness:
  "\<exists>r n f'. fetch_conditional (sample_env []) (new_fetcher ''bot'' 3 0 0)
     ''https://example.com/'' [] [] = (r, n, f')
     \<and> \<not> excludes (fetch_excludedURLs (new_fetcher ''bot'' 3 0 0)) (FinalURL r)"
proof -
  let ?f = "fetch_conditional (sample_env []) (new_fetcher ''bot'' 3 0 0) ''https://example.com/'' [] []"
  obtain r n f' where h: "?f = (r, n, f')" by (metis prod_cases3)
  have p: "url_parse ''https://example.com/'' =
      Inr (empty_url\<lparr>Scheme := ''https'', Host := ''example.com'', Path := ''/''\<rparr>)"
    by code_simp
  have "FetchError (fst ?f) = None"
    by (simp add: fetch_conditional_def p retry_loop.simps retry_step_def do_fetch_def sample_env_def new_fetcher_def
        empty_url_def cooldown_remaining_def throttled_def default_max_body_bytes_def)
  with h have "FetchError r = None" by simp
  from fetch_conditional_result [OF h this p] h show ?thesis by (auto simp: empty_url_def)
qed

section \<open>The page source as an interface\<close>

text \<open>
  What the crawl relies on in its page source: content of an excluded URL is never
  delivered, a fetch leaves the exclusions as they are, and a not-modified answer is a
  success with status 304.
\<close>

locale page_source =
  fixes deliver :: "'s \<Rightarrow> string \<Rightarrow> string \<Rightarrow> string \<Rightarrow> fetch_result \<times> 's"
    and excl :: "'s \<Rightarrow> string \<Rightarrow> bool"
  assumes excluded_target: "excl s u \<Longrightarrow> FetchError (fst (deliver s u e l)) \<noteq> None"
    and excl_frame: "excl (snd (deliver s u e l)) = excl s"
    and not_modified: "NotModified (fst (deliver s u e l)) \<Longrightarrow>
        FetchError (fst (deliver s u e l)) = None \<and> StatusCode (fst (deliver s u e l)) = 304"
begin

fun deliver_all :: "'s \<Rightarrow> crawl_job list \<Rightarrow> fetch_result list \<times> 's" where
  "deliver_all s [] = ([], s)"
| "deliver_all s (j # js) =
     (let (r, s') = deliver s (job_URL j) (job_ETag j) (job_LastModified j);
          (rs, s'') = deliver_all s' js
      in (r # rs, s''))"

lemma length_deliver_all: "length (fst (deliver_all s js)) = length js"
  by (induction s js rule: deliver_all.induct) (auto simp: Let_def split: prod.splits)

lemma excl_deliver_all: "excl (snd (deliver_all s js)) = excl s"
proof (induction s js rule: deliver_all.induct)
  case (2 s j js)
  then show ?case
    using excl_frame [of s "job_URL j" "job_ETag j" "job_LastModified j"]
    by (auto simp: Let_def split: prod.splits)
qed simp

text \<open>Over any sequence of jobs, the excluded ones come back as errors.\<close>

lemma excluded_jobs_fail:
  "i < length js \<Longrightarrow> excl s (job_URL (js ! i)) \<Longrightarrow>
     FetchError (fst (deliver_all s js) ! i) \<noteq> None"
proof (induction s js arbitrary: i rule: deliver_all.induct)
  case (2 s j js)
  obtain r s' where r: "deliver s (job_URL j) (job_ETag j) (job_LastModified j) = (r, s')"
    by (cases "deliver s (job_URL j) (job_ETag j) (job_LastModified j)")
  have ex: "excl s' = excl s"
    using excl_frame [of s "job_URL j" "job_ETag j" "job_LastModified j"] r by simp
  show ?case
  proof (cases i)
    case 0
    then show ?thesis
      using "2.prems" excluded_target [of s "job_URL j" "job_ETag j" "job_LastModified j"] r
      by (auto simp: Let_def split: prod.splits)
  next
    case (Suc k)
    then show ?thesis
      using "2.prems" "2.IH" [OF r [symmetric] refl, of k] ex r
      by (auto simp: Let_def split: prod.splits)
  qed
qed simp

end

text \<open>The fetcher as a page source, with the number of requests dropped.\<close>

definition fetch_page ::
    "fetch_env \<Rightarrow> fetcher \<Rightarrow> string \<Rightarrow> string \<Rightarrow> string \<Rightarrow> fetch_result \<times> fetcher" where
  "fetch_page env f u e l = (case fetch_conditional env f u e l of (r, _, f') \<Rightarrow> (r, f'))"

lemma fetch_conditional_frame:
  "fetch_conditional env f u e l = (r, n, f') \<Longrightarrow>
     fetch_excludedURLs f' = fetch_excludedURLs f
     \<and> (NotModified r \<longrightarrow> FetchError r = None \<and> StatusCode r = 304)"
  using do_fetch_not_modified
  by (auto simp: fetch_conditional_def split: sum.splits if_splits dest!: retry_loop_spec)

interpretation fetcher: page_source "fetch_page env" "\<lambda>f. excludes (fetch_excludedURLs f)" for env
proof
  fix s :: fetcher and u e l :: string
  obtain r n f' where c: "fetch_conditional env s u e l = (r, n, f')"
    by (metis prod_cases3)
  then have p: "fetch_page env s u e l = (r, f')" by (simp add: fetch_page_def)
  show "excludes (fetch_excludedURLs s) u \<Longrightarrow> FetchError (fst (fetch_page env s u e l)) \<noteq> None"
    by (simp add: fetch_page_def fetch_conditional_def)
  show "(\<lambda>x. excludes (fetch_excludedURLs (snd (fetch_page env s u e l))) x)
      = (\<lambda>x. excludes (fetch_excludedURLs s) x)"
    using fetch_conditional_frame [OF c] p by simp
  show "NotModified (fst (fetch_page env s u e l)) \<Longrightarrow>
      FetchError (fst (fetch_page env s u e l)) = None \<and> StatusCode (fst (fetch_page env s u e l)) = 304"
    using fetch_conditional_frame [OF c] p by simp
qed

end
