(* ===== verification/PageProcessing.thy ===== *)
theory PageProcessing
  imports Fetcher
begin

text \<open>
  What happens to one fetched page: the JavaScript-render decision (\<open>render_detector.go\<close>),
  the soft-404 check (\<open>soft404.go\<close>) and \<open>ProcessJob\<close> (\<open>worker.go\<close>). The HTML parser and the
  headless renderer are third-party code, so they are parameters; so is SHA-256.
\<close>

section \<open>The render decision\<close>

definition minimum_visible_text_length :: nat where "minimum_visible_text_length = 200"
definition minimum_link_count :: nat where "minimum_link_count = 3"
definition minimum_page_text_length :: int where "minimum_page_text_length = 400"
definition minimum_inline_script_length :: nat where "minimum_inline_script_length = 1000"
definition minimum_body_size :: nat where "minimum_body_size = 10000"

definition attr :: "string \<Rightarrow> string \<Rightarrow> string" where
  "attr name value = name @ ''='' @ quoted value"

definition java_script_shell_markers :: "string list" where
  "java_script_shell_markers =
     [attr ''id'' ''__next'', attr ''id'' ''root'', attr ''id'' ''app'', attr ''id'' ''__nuxt'',
      attr ''id'' ''svelte'', ''data-reactroot'', ''window.__nuxt__'', ''__next_data__'',
      ''ng-app'', ''ng-version'', ''data-sveltekit'', ''astro-island'']"

definition java_script_framework_markers :: "string list" where
  "java_script_framework_markers =
     [''/_next/static/'', ''/_nuxt/'', ''/assets/index-'', attr ''type'' ''module'', ''/build/'',
      ''data-reactroot'', ''ng-version'', ''data-sveltekit'']"

definition java_script_required_messages :: "string list" where
  "java_script_required_messages =
     [''enable javascript'', ''enablejs'', ''requires javascript'', ''javascript is disabled'',
      ''you need to enable javascript'', ''please enable javascript'']"

definition contains_any_substring :: "string \<Rightarrow> string list \<Rightarrow> bool" where
  "contains_any_substring bodyText markers = list_ex (str_contains bodyText) markers"

text \<open>
  The expression \<open>(?is)<script[^>]*>(.*?)</script>\<close>: from an opening tag, the content up to
  the first closing tag; \<open>low\<close> is the lower-cased body, which has the same length.
\<close>

definition next_script :: "string \<Rightarrow> (string \<times> string) option" where
  "next_script low =
     (case str_index low ''<script'' of
        None \<Rightarrow> None
      | Some i \<Rightarrow>
          (case index_byte (drop (i + 7) low) (CHR ''>'') of
             None \<Rightarrow> None
           | Some j \<Rightarrow>
               (let after = drop (i + 7 + Suc j) low in
                case str_index after ''</script>'' of
                  None \<Rightarrow> None
                | Some k \<Rightarrow> Some (take k after, drop (k + 9) after))))"

lemma next_script_shorter: "next_script s = Some (c, r) \<Longrightarrow> length r < length s"
  by (auto simp: next_script_def Let_def split: option.splits dest!: str_index_SomeD)

function inline_script_length :: "string \<Rightarrow> nat" where
  "inline_script_length low =
     (case next_script low of
        None \<Rightarrow> 0
      | Some (content, rest) \<Rightarrow> length (trim_space content) + inline_script_length rest)"
  by pat_completeness auto
termination
  by (relation "measure length") (auto dest: next_script_shorter)

declare inline_script_length.simps [simp del]

definition count_inline_script_content_length :: "string \<Rightarrow> nat" where
  "count_inline_script_content_length body = inline_script_length (to_lower body)"

record render_decision =
  NeedsRender :: bool
  Reasons :: "string list"

definition no_render :: render_decision where
  "no_render = \<lparr>NeedsRender = False, Reasons = []\<rparr>"

definition needs_js_render :: "fetch_result \<Rightarrow> parsed_page option \<Rightarrow> render_decision" where
  "needs_js_render f page =
     (let bodyText = to_lower (Body f);
          pageTextLength = (case page of None \<Rightarrow> 0 | Some p \<Rightarrow> PageTextLength p);
          visibleTextLength = (case page of None \<Rightarrow> 0 | Some p \<Rightarrow> length (VisibleText p));
          sparse = (visibleTextLength < minimum_visible_text_length)
      in if \<not> str_contains (to_lower (ContentType f)) ''text/html'' then no_render
         else if contains_any_substring bodyText java_script_required_messages
                 \<or> str_contains (to_lower (FinalURL f)) ''enablejs'' then
           \<lparr>NeedsRender = True, Reasons = [''html says javascript is required'']\<rparr>
         else if \<not> contains_any_substring bodyText java_script_shell_markers
                 \<or> pageTextLength \<ge> minimum_page_text_length then no_render
         else
           \<lparr>NeedsRender = True,
            Reasons = [''html contains javascript app shell markers'']
              @ (if contains_any_substring bodyText java_script_framework_markers
                 then [''html contains javascript framework markers''] else [])
              @ (if sparse then [''visible text is sparse''] else [])
              @ (if count_inline_script_content_length (Body f) \<ge> minimum_inline_script_length
                 then [''html contains substantial inline script data''] else [])
              @ (if length (Body f) > minimum_body_size \<and> sparse
                 then [''html body is large but extracted content is sparse''] else [])\<rparr>)"

definition page_extraction_quality_score :: "parsed_page \<Rightarrow> nat" where
  "page_extraction_quality_score p =
     (if trim_space (Title p) \<noteq> [] then 2 else 0)
     + (if trim_space (MetaDescription p) \<noteq> [] then 1 else 0)
     + (if trim_space (H1 p) \<noteq> [] then 2 else 0)
     + (if length (VisibleText p) \<ge> minimum_visible_text_length then 3
        else if length (trim_space (VisibleText p)) > 0 then 1 else 0)
     + (if length (Links p) > minimum_link_count then 2
        else if length (Links p) > 0 then 1 else 0)"

definition should_prefer_rendered_page :: "parsed_page \<Rightarrow> parsed_page \<Rightarrow> bool" where
  "should_prefer_rendered_page rawPage rendered =
     (page_extraction_quality_score rendered > page_extraction_quality_score rawPage)"

section \<open>Soft 404\<close>

definition soft_not_found_max_word_count :: nat where "soft_not_found_max_word_count = 120"

definition is_word_char :: "char \<Rightarrow> bool" where
  "is_word_char c = (is_letter c \<or> is_digit c \<or> c = CHR ''_'')"

text \<open>\<open>\b404\b\<close>: the digits with no word character on either side; \<open>prev\<close> is the byte before.\<close>

fun has_word_404 :: "char option \<Rightarrow> string \<Rightarrow> bool" where
  "has_word_404 prev [] = False"
| "has_word_404 prev (c # s) =
     ((has_prefix (c # s) ''404''
       \<and> (case prev of None \<Rightarrow> True | Some d \<Rightarrow> \<not> is_word_char d)
       \<and> (case drop 3 (c # s) of [] \<Rightarrow> True | d # _ \<Rightarrow> \<not> is_word_char d))
      \<or> has_word_404 (Some c) s)"

definition not_found_phrases :: "string list" where
  "not_found_phrases =
     [''page not found'', ''not found'', ''no longer exists'', ''no longer available'',
      ''doesnt exist'', ''doesn'' @ [CHR 0x27] @ ''t exist'', ''doesnot exist'',
      ''does nt exist'', ''does n'' @ [CHR 0x27] @ ''t exist'', ''does not exist'',
      ''never existed'', ''page you are looking for'',
      ''page you'' @ [CHR 0x27] @ ''re looking for'', ''page being looking for'']"

definition soft_not_found_phrase :: "string \<Rightarrow> bool" where
  "soft_not_found_phrase s =
     (has_word_404 None s \<or> contains_any_substring (to_lower s) not_found_phrases)"

definition title_or_h1_says_not_found :: "parsed_page option \<Rightarrow> bool" where
  "title_or_h1_says_not_found page =
     (case page of None \<Rightarrow> False
      | Some p \<Rightarrow> soft_not_found_phrase (Title p) \<or> soft_not_found_phrase (H1 p))"

definition normalize_soft_not_found_text :: "string \<Rightarrow> string" where
  "normalize_soft_not_found_text value = join '' '' (str_fields (to_lower value))"

text \<open>\<open>sha256\<close> is the hex digest function.\<close>

definition hash_visible_text :: "(string \<Rightarrow> string) \<Rightarrow> string \<Rightarrow> string" where
  "hash_visible_text sha256 value =
     (let normalized = normalize_soft_not_found_text value in
      if normalized = [] then [] else sha256 normalized)"

record soft_not_found_fingerprint =
  ProbeURL :: string
  fp_Title :: string
  fp_H1 :: string
  ContentHash :: string

definition count_words :: "string \<Rightarrow> nat" where
  "count_words value = length (str_fields value)"

definition fingerprint_matches ::
    "(string \<Rightarrow> string) \<Rightarrow> soft_not_found_fingerprint option \<Rightarrow> parsed_page option \<Rightarrow> bool" where
  "fingerprint_matches sha256 fingerprint page =
     (case (fingerprint, page) of
        (Some fp, Some p) \<Rightarrow>
          if ContentHash fp \<noteq> [] \<and> ContentHash fp = hash_visible_text sha256 (VisibleText p) then True
          else if fp_Title fp = [] \<or> fp_H1 fp = [] then False
          else fp_Title fp = normalize_soft_not_found_text (Title p)
               \<and> fp_H1 fp = normalize_soft_not_found_text (H1 p)
      | _ \<Rightarrow> False)"

definition looks_like_soft_not_found :: "parsed_page option \<Rightarrow> bool" where
  "looks_like_soft_not_found page =
     (case page of
        None \<Rightarrow> False
      | Some p \<Rightarrow> if count_words (VisibleText p) > soft_not_found_max_word_count then False
                  else title_or_h1_says_not_found page)"

text \<open>
  \<open>buildSoftNotFoundProbeURL\<close>: \<open>token\<close> is the hex text of the 8 random bytes, \<open>None\<close> when the
  random source fails.
\<close>

definition build_soft_not_found_probe_url :: "string option \<Rightarrow> string \<Rightarrow> string result" where
  "build_soft_not_found_probe_url token rootURL =
     bind_result (url_parse (trim_space rootURL)) (\<lambda>u.
       case token of
         None \<Rightarrow> Inl ''rand''
       | Some t \<Rightarrow> Inr (url_string (u\<lparr>Path := ''/revserp-not-found-probe-'' @ t, RawQuery := [],
                                     Fragment := []\<rparr>)))"

definition detect_soft_not_found ::
    "(string \<Rightarrow> string) \<Rightarrow> (string \<Rightarrow> string \<Rightarrow> string \<Rightarrow> parsed_page result)
       \<Rightarrow> (string \<Rightarrow> fetch_result) \<Rightarrow> string option \<Rightarrow> string \<Rightarrow> soft_not_found_fingerprint option" where
  "detect_soft_not_found sha256 parse_html get token rootURL =
     (case build_soft_not_found_probe_url token rootURL of
        Inl _ \<Rightarrow> None
      | Inr probeURL \<Rightarrow>
          (let result = get probeURL in
           if FetchError result \<noteq> None then None
           else if StatusCode result < 200 \<or> StatusCode result > 299 then None
           else if \<not> str_contains (to_lower (ContentType result)) ''text/html'' then None
           else (case parse_html (FinalURL result) (ContentType result) (Body result) of
                   Inl _ \<Rightarrow> None
                 | Inr probe \<Rightarrow>
                     if \<not> title_or_h1_says_not_found (Some probe) then None
                     else Some \<lparr>ProbeURL = probeURL,
                                fp_Title = normalize_soft_not_found_text (Title probe),
                                fp_H1 = normalize_soft_not_found_text (H1 probe),
                                ContentHash = hash_visible_text sha256 (VisibleText probe)\<rparr>)))"

section \<open>Processing one job\<close>

definition process_job ::
    "(string \<Rightarrow> string \<Rightarrow> string \<Rightarrow> parsed_page result) \<Rightarrow> (string \<Rightarrow> fetch_result result) option
       \<Rightarrow> crawl_job \<Rightarrow> fetch_result \<Rightarrow> crawl_result" where
  \<comment> \<open>\<open>f\<close> is what \<open>FetchConditional\<close> returned for the job; a missing renderer is \<open>None\<close>\<close>
  "process_job parse_html renderer job f =
     (let r = new_crawl_result job f in
      case FetchError f of
        Some e \<Rightarrow> r\<lparr>ProcessErr := Some (''fetch job '' @ quoted (job_URL job) @ '': '' @ e)\<rparr>
      | None \<Rightarrow>
          if NotModified f then r\<lparr>ResultNotModified := True\<rparr>
          else if is_non_2xx (StatusCode f) then r
          else if \<not> str_contains (to_lower (ContentType f)) ''text/html'' then r
          else (case parse_html (FinalURL f) (ContentType f) (Body f) of
                  Inl e \<Rightarrow> r\<lparr>ProcessErr := Some (''parse job '' @ quoted (job_URL job) @ '': '' @ e)\<rparr>
                | Inr page \<Rightarrow>
                    (let decision = needs_js_render f (Some page);
                         r' = r\<lparr>WouldHaveRendered := NeedsRender decision\<rparr>;
                         plain = r'\<lparr>ParsedPage := Some page\<rparr>
                     in if \<not> NeedsRender decision then plain
                        else (case renderer of
                                None \<Rightarrow> plain
                              | Some render \<Rightarrow>
                                  (case render (job_URL job) of
                                     Inl _ \<Rightarrow> plain
                                   | Inr rf \<Rightarrow>
                                       (case parse_html (FinalURL rf) (ContentType rf) (Body rf) of
                                          Inl _ \<Rightarrow> plain
                                        | Inr rendered \<Rightarrow>
                                            if should_prefer_rendered_page page rendered
                                            then r'\<lparr>Fetch := rf, ParsedPage := Some rendered,
                                                    JavascriptRendered := True\<rparr>
                                            else plain))))))"

section \<open>Properties\<close>

lemma process_job_Job [simp]: "Job (process_job ph rd job f) = job"
  by (auto simp: process_job_def new_crawl_result_def Let_def split: option.splits sum.splits)

text \<open>
  What \<open>ProcessJob\<close> promises the crawl loop. The result carries the job it was given; a
  fetch error, a 304, a non-2xx answer and a non-HTML body are never parsed; the 304 mark is
  exactly the fetcher's; a result counts as rendered only when rendering was wanted, a
  renderer was configured, and its page scored strictly better than the plain one.
\<close>

theorem process_job_contract:
  "Job (process_job ph rd job f) = job
   \<and> (FetchError f \<noteq> None \<or> NotModified f \<or> is_non_2xx (StatusCode f)
        \<or> \<not> str_contains (to_lower (ContentType f)) ''text/html''
        \<longrightarrow> ParsedPage (process_job ph rd job f) = None \<and> Fetch (process_job ph rd job f) = f)
   \<and> (ResultNotModified (process_job ph rd job f) \<longleftrightarrow> FetchError f = None \<and> NotModified f)
   \<and> (JavascriptRendered (process_job ph rd job f) \<longrightarrow> WouldHaveRendered (process_job ph rd job f)
        \<and> (\<exists>render rf page rendered. rd = Some render \<and> render (job_URL job) = Inr rf
             \<and> ph (FinalURL f) (ContentType f) (Body f) = Inr page
             \<and> ParsedPage (process_job ph rd job f) = Some rendered
             \<and> page_extraction_quality_score page < page_extraction_quality_score rendered))"
  by (auto simp: process_job_def new_crawl_result_def should_prefer_rendered_page_def Let_def
      split: option.splits sum.splits if_splits)

definition blank_page :: parsed_page where
  "blank_page = \<lparr>page_URL = [], Title = [], MetaDescription = [], H1 = [], VisibleText = [],
     PageTextLength = 0, Links = []\<rparr>"

theorem process_job_contract_witness:
  "ParsedPage (process_job (\<lambda>_ _ _. Inr blank_page) None
     \<lparr>job_URL = ''https://example.com/x'', job_Depth = 1, job_ETag = [], job_LastModified = []\<rparr>
     (empty_fetch_result\<lparr>StatusCode := 404\<rparr>)) = None"
proof -
  let ?f = "empty_fetch_result\<lparr>StatusCode := 404\<rparr>"
  have "is_non_2xx (StatusCode ?f)" by (simp add: is_non_2xx_def)
  then show ?thesis using process_job_contract [of "\<lambda>_ _ _. Inr blank_page" None _ ?f] by blast
qed

text \<open>
  Sparse text alone never triggers a render: a page is rendered only if its HTML says
  that JavaScript is required (in the body, or by an \<open>enablejs\<close> final URL), or it carries an
  app-shell marker and its whole body text is shorter than 400 bytes. The reasons are given
  exactly when a render is wanted.
\<close>

theorem needs_js_render_iff:
  "(NeedsRender (needs_js_render f page) \<longleftrightarrow>
      str_contains (to_lower (ContentType f)) ''text/html''
      \<and> (contains_any_substring (to_lower (Body f)) java_script_required_messages
         \<or> str_contains (to_lower (FinalURL f)) ''enablejs''
         \<or> (contains_any_substring (to_lower (Body f)) java_script_shell_markers
            \<and> (case page of None \<Rightarrow> 0 | Some p \<Rightarrow> PageTextLength p) < 400)))
   \<and> (NeedsRender (needs_js_render f page) \<longleftrightarrow> Reasons (needs_js_render f page) \<noteq> [])"
  by (cases page)
    (auto simp: needs_js_render_def no_render_def Let_def minimum_page_text_length_def)

lemma detect_soft_not_found_SomeD:
  assumes "detect_soft_not_found sha ph get token root = Some fp"
  obtains probe where "title_or_h1_says_not_found (Some probe)"
    and "fp_Title fp = normalize_soft_not_found_text (Title probe)"
    and "fp_H1 fp = normalize_soft_not_found_text (H1 probe)"
    and "ContentHash fp = hash_visible_text sha (VisibleText probe)"
    and "200 \<le> StatusCode (get (ProbeURL fp))" and "StatusCode (get (ProbeURL fp)) \<le> 299"
  using assms
  by (auto simp: detect_soft_not_found_def Let_def split: sum.splits if_splits)

text \<open>
  The soft-404 fingerprint is sound for a collision-free hash. If the probe was answered
  with a page and a crawled page matches the fingerprint, then the origin answered the
  impossible URL with a 2xx not-found page, and the crawled page has the same visible words
  as that page or the same (non-empty) title and heading up to case and spacing. An origin
  that answers its probe with an error never has a page flagged by the fingerprint.
\<close>

theorem fingerprint_matches_sound:
  assumes "inj sha" and "\<forall>t. sha t \<noteq> []"
    and "fingerprint_matches sha (detect_soft_not_found sha ph get token root) (Some p)"
  shows "\<exists>probe url. title_or_h1_says_not_found (Some probe)
    \<and> 200 \<le> StatusCode (get url) \<and> StatusCode (get url) \<le> 299
    \<and> ((str_fields (to_lower (VisibleText p)) \<noteq> []
         \<and> normalize_soft_not_found_text (VisibleText p)
             = normalize_soft_not_found_text (VisibleText probe))
       \<or> (normalize_soft_not_found_text (Title p) = normalize_soft_not_found_text (Title probe)
          \<and> normalize_soft_not_found_text (H1 p) = normalize_soft_not_found_text (H1 probe)))"
proof -
  obtain fp where fp: "detect_soft_not_found sha ph get token root = Some fp"
    using assms(3) by (auto simp: fingerprint_matches_def split: option.splits)
  then obtain probe where probe: "title_or_h1_says_not_found (Some probe)"
    "fp_Title fp = normalize_soft_not_found_text (Title probe)"
    "fp_H1 fp = normalize_soft_not_found_text (H1 probe)"
    "ContentHash fp = hash_visible_text sha (VisibleText probe)"
    and st: "200 \<le> StatusCode (get (ProbeURL fp))" "StatusCode (get (ProbeURL fp)) \<le> 299"
    by (rule detect_soft_not_found_SomeD)
  have m: "fingerprint_matches sha (Some fp) (Some p)" using assms(3) fp by simp
  show ?thesis
  proof (cases "ContentHash fp \<noteq> [] \<and> ContentHash fp = hash_visible_text sha (VisibleText p)")
    case True
    then have "normalize_soft_not_found_text (VisibleText p) \<noteq> []"
      "normalize_soft_not_found_text (VisibleText p) = normalize_soft_not_found_text (VisibleText probe)"
      using probe(4) assms(1,2)
      by (auto simp: hash_visible_text_def Let_def inj_eq split: if_splits)
    moreover from this(1) have "str_fields (to_lower (VisibleText p)) \<noteq> []"
      by (auto simp: normalize_soft_not_found_text_def)
    ultimately show ?thesis using probe(1) st by blast
  next
    case False
    with m probe have "normalize_soft_not_found_text (Title p) = normalize_soft_not_found_text (Title probe)"
      "normalize_soft_not_found_text (H1 p) = normalize_soft_not_found_text (H1 probe)"
      by (auto simp: fingerprint_matches_def split: if_splits)
    with probe(1) st show ?thesis by blast
  qed
qed

definition sample_not_found_page :: parsed_page where
  "sample_not_found_page = blank_page\<lparr>Title := ''Not Found'', H1 := ''Oops'', VisibleText := ''gone''\<rparr>"

theorem fingerprint_matches_sound_witness:
  "\<exists>probe url. title_or_h1_says_not_found (Some probe)
     \<and> 200 \<le> StatusCode ((\<lambda>_. empty_fetch_result\<lparr>StatusCode := 200, ContentType := ''text/html''\<rparr>) url)"
proof -
  let ?get = "\<lambda>_::string. empty_fetch_result\<lparr>StatusCode := 200, ContentType := ''text/html''\<rparr>"
  have 1: "inj (Cons CHR ''h'')" and 2: "\<forall>t. CHR ''h'' # t \<noteq> []" by simp_all
  have 3: "fingerprint_matches (Cons CHR ''h'')
      (detect_soft_not_found (Cons CHR ''h'') (\<lambda>_ _ _. Inr sample_not_found_page) ?get (Some ''00'')
        ''https://example.com/'') (Some sample_not_found_page)"
    by code_simp
  from fingerprint_matches_sound [OF 1 2 3] show ?thesis by blast
qed

end
