(* ===== verification/Pool.thy ===== *)
theory Pool
  imports PageProcessing
begin

text \<open>
  \<open>internal/crawler/pool.go\<close>: the worker pool as a machine. The channel \<open>jobs\<close> is its buffer
  and its closed flag, the unbuffered channel \<open>results\<close> is a hand-over of a worker in state
  \<open>Delivering\<close>, and each goroutine is one entry of \<open>pool_workers\<close> that stands at the point of
  its loop it has reached. \<open>ctx.Done()\<close> is \<open>pool_cancelled\<close>. The locale \<open>job_pool\<close> is the
  contract the crawl loop relies on.
\<close>

datatype worker = Idle | Fetching crawl_job | Delivering crawl_result | Sleeping | Stopped

record pool =
  pool_jobs :: "crawl_job list"
  pool_capacity :: nat
  pool_closed :: bool
  pool_workers :: "worker list"
  pool_cancelled :: bool

definition start_worker_pool :: "nat \<Rightarrow> pool" where
  "start_worker_pool workerCount =
     \<lparr>pool_jobs = [], pool_capacity = workerCount, pool_closed = False,
      pool_workers = replicate workerCount Idle, pool_cancelled = False\<rparr>"

definition set_worker :: "nat \<Rightarrow> worker \<Rightarrow> pool \<Rightarrow> pool" where
  "set_worker i w p = p\<lparr>pool_workers := (pool_workers p)[i := w]\<rparr>"

definition worker_at :: "nat \<Rightarrow> pool \<Rightarrow> worker" where
  "worker_at i p = (if i < length (pool_workers p) then pool_workers p ! i else Stopped)"

text \<open>
  The pause after a delivered result; \<open>draw\<close> is \<open>rand.Int63n(2*jitter+1)\<close>.
\<close>

definition effective_delay :: "int \<Rightarrow> int \<Rightarrow> int \<Rightarrow> int" where
  "effective_delay requestDelay requestJitter draw =
     (if requestJitter > 0
      then (let effective = requestDelay + (draw - requestJitter) in
            if effective < 0 then 0 else effective)
      else requestDelay)"

text \<open>What one worker can do on its own.\<close>

datatype pool_event =
    Take nat                  \<comment> \<open>receive a job from \<open>jobs\<close>\<close>
  | Process nat fetch_result  \<comment> \<open>\<open>ProcessJob\<close>, with what the fetch returned\<close>
  | Wake nat                  \<comment> \<open>the pause ended\<close>
  | Quit nat                  \<comment> \<open>return: the context is done, or \<open>jobs\<close> is closed and empty\<close>

fun pool_step ::
    "(string \<Rightarrow> string \<Rightarrow> string \<Rightarrow> parsed_page result) \<Rightarrow> (string \<Rightarrow> fetch_result result) option
       \<Rightarrow> pool_event \<Rightarrow> pool \<Rightarrow> pool option" where
  "pool_step parse_html renderer (Take i) p =
     (case (worker_at i p, pool_jobs p) of
        (Idle, job # js) \<Rightarrow> Some (set_worker i (Fetching job) (p\<lparr>pool_jobs := js\<rparr>))
      | _ \<Rightarrow> None)"
| "pool_step parse_html renderer (Process i f) p =
     (case worker_at i p of
        Fetching job \<Rightarrow> Some (set_worker i (Delivering (process_job parse_html renderer job f)) p)
      | _ \<Rightarrow> None)"
| "pool_step parse_html renderer (Wake i) p =
     (if worker_at i p = Sleeping then Some (set_worker i Idle p) else None)"
| "pool_step parse_html renderer (Quit i) p =
     (case worker_at i p of
        Idle \<Rightarrow> if pool_cancelled p \<or> (pool_closed p \<and> pool_jobs p = [])
                then Some (set_worker i Stopped p) else None
      | Delivering _ \<Rightarrow> if pool_cancelled p then Some (set_worker i Stopped p) else None
      | Sleeping \<Rightarrow> if pool_cancelled p then Some (set_worker i Stopped p) else None
      | _ \<Rightarrow> None)"

text \<open>The operations of the two channels as the crawl loop sees them.\<close>

definition submit_job :: "crawl_job \<Rightarrow> pool \<Rightarrow> pool option" where
  "submit_job job p =
     (if \<not> pool_closed p \<and> length (pool_jobs p) < pool_capacity p
      then Some (p\<lparr>pool_jobs := pool_jobs p @ [job]\<rparr>) else None)"

definition hand_over :: "nat \<times> int \<Rightarrow> pool \<Rightarrow> (crawl_result \<times> pool) option" where
  \<comment> \<open>worker \<open>i\<close> sends its result and then pauses for \<open>effective\<close> when that is positive\<close>
  "hand_over d p =
     (case worker_at (fst d) p of
        Delivering r \<Rightarrow> Some (r, set_worker (fst d) (if snd d > 0 then Sleeping else Idle) p)
      | _ \<Rightarrow> None)"

definition results_closed :: "pool \<Rightarrow> bool" where
  "results_closed p = list_all (\<lambda>w. w = Stopped) (pool_workers p)"

definition close_jobs :: "pool \<Rightarrow> pool" where
  "close_jobs p = p\<lparr>pool_closed := True\<rparr>"

definition cancel_pool :: "pool \<Rightarrow> pool" where
  "cancel_pool p = p\<lparr>pool_cancelled := True\<rparr>"

section \<open>Outstanding work\<close>

fun holding :: "worker \<Rightarrow> crawl_job multiset" where
  "holding (Fetching job) = {#job#}"
| "holding (Delivering r) = {#Job r#}"
| "holding _ = {#}"

definition held :: "worker list \<Rightarrow> crawl_job multiset" where
  "held ws = sum_list (map holding ws)"

definition outstanding :: "pool \<Rightarrow> crawl_job multiset" where
  "outstanding p = mset (pool_jobs p) + held (pool_workers p)"

lemma held_update:
  "i < length ws \<Longrightarrow> held (ws[i := w]) + holding (ws ! i) = held ws + holding w"
  by (induction ws arbitrary: i) (auto simp: held_def ac_simps split: nat.splits)

lemma outstanding_start [simp]: "outstanding (start_worker_pool n) = {#}"
  by (induction n) (auto simp: outstanding_def start_worker_pool_def held_def)

lemma outstanding_set_worker:
  "worker_at i p \<noteq> Stopped \<Longrightarrow>
     outstanding (set_worker i w p) + holding (worker_at i p) = outstanding p + holding w"
  using held_update [of i "pool_workers p" w]
  by (auto simp: outstanding_def set_worker_def worker_at_def ac_simps split: if_splits)

lemma set_worker_frame [frame]:
  "pool_jobs (set_worker i w p) = pool_jobs p" "pool_closed (set_worker i w p) = pool_closed p"
  "pool_capacity (set_worker i w p) = pool_capacity p"
  "pool_cancelled (set_worker i w p) = pool_cancelled p"
  "length (pool_workers (set_worker i w p)) = length (pool_workers p)"
  by (simp_all add: set_worker_def)

lemma worker_at_jobs [simp]: "worker_at i (p\<lparr>pool_jobs := js\<rparr>) = worker_at i p"
  by (simp add: worker_at_def)

lemma pool_step_outstanding:
  assumes "pool_step ph rd e p = Some q"
  shows "outstanding q \<subseteq># outstanding p" "\<not> pool_cancelled p \<Longrightarrow> outstanding q = outstanding p"
proof -
  have "outstanding q \<subseteq># outstanding p \<and> (\<not> pool_cancelled p \<longrightarrow> outstanding q = outstanding p)"
  proof (cases e)
    case (Take i)
    with assms obtain job js where w: "worker_at i p = Idle" and j: "pool_jobs p = job # js"
      and q: "q = set_worker i (Fetching job) (p\<lparr>pool_jobs := js\<rparr>)"
      by (auto split: worker.splits list.splits)
    from outstanding_set_worker [of i "p\<lparr>pool_jobs := js\<rparr>" "Fetching job"] w q
    have "outstanding q = outstanding (p\<lparr>pool_jobs := js\<rparr>) + {#job#}" by simp
    with j show ?thesis by (simp add: outstanding_def)
  next
    case (Process i f)
    with assms obtain job where w: "worker_at i p = Fetching job"
      and q: "q = set_worker i (Delivering (process_job ph rd job f)) p"
      by (auto split: worker.splits)
    from outstanding_set_worker [of i p "Delivering (process_job ph rd job f)"] w q
    show ?thesis by simp
  next
    case (Wake i)
    with assms have w: "worker_at i p = Sleeping" and q: "q = set_worker i Idle p"
      by (auto split: if_splits)
    from outstanding_set_worker [of i p Idle] w q show ?thesis by simp
  next
    case (Quit i)
    with assms have w: "worker_at i p \<noteq> Stopped" and q: "q = set_worker i Stopped p"
      and h: "\<not> pool_cancelled p \<longrightarrow> holding (worker_at i p) = {#}"
      by (auto split: worker.splits if_splits)
    from outstanding_set_worker [OF w, of Stopped] q
    have "outstanding q + holding (worker_at i p) = outstanding p" by simp
    with h show ?thesis by (metis mset_subset_eq_add_left add.right_neutral)
  qed
  then show "outstanding q \<subseteq># outstanding p"
    "\<not> pool_cancelled p \<Longrightarrow> outstanding q = outstanding p" by auto
qed

lemma submit_job_outstanding:
  "submit_job job p = Some q \<Longrightarrow> outstanding q = add_mset job (outstanding p)"
  by (auto simp: submit_job_def outstanding_def split: if_splits)

lemma hand_over_outstanding:
  assumes "hand_over d p = Some (r, q)"
  shows "outstanding p = add_mset (Job r) (outstanding q)"
proof -
  from assms have w: "worker_at (fst d) p = Delivering r"
    and q: "q = set_worker (fst d) (if snd d > 0 then Sleeping else Idle) p"
    by (auto simp: hand_over_def split: worker.splits)
  from outstanding_set_worker [of "fst d" p "if snd d > 0 then Sleeping else Idle"] w q
  show ?thesis by (auto split: if_splits)
qed

lemma pool_ops_frame [frame]:
  "submit_job job p = Some q \<Longrightarrow> pool_cancelled q = pool_cancelled p"
  "submit_job job p = Some q \<Longrightarrow> pool_closed q = pool_closed p"
  "submit_job job p = Some q \<Longrightarrow> pool_capacity q = pool_capacity p"
  "submit_job job p = Some q \<Longrightarrow> pool_workers q = pool_workers p"
  "hand_over d p = Some (r, q) \<Longrightarrow> pool_cancelled q = pool_cancelled p"
  "hand_over d p = Some (r, q) \<Longrightarrow> pool_closed q = pool_closed p"
  "hand_over d p = Some (r, q) \<Longrightarrow> pool_capacity q = pool_capacity p"
  "hand_over d p = Some (r, q) \<Longrightarrow> pool_jobs q = pool_jobs p"
  "hand_over d p = Some (r, q) \<Longrightarrow> length (pool_workers q) = length (pool_workers p)"
  by (auto simp: submit_job_def hand_over_def set_worker_def split: if_splits worker.splits)

lemma pool_step_frame [frame]:
  assumes "pool_step ph rd e p = Some q"
  shows "pool_cancelled q = pool_cancelled p" "pool_closed q = pool_closed p"
    "pool_capacity q = pool_capacity p" "length (pool_workers q) = length (pool_workers p)"
    "length (pool_jobs q) \<le> length (pool_jobs p)"
  using assms by (cases e; auto simp: frame split: worker.splits list.splits if_splits)+

section \<open>The contract the crawl loop relies on\<close>

text \<open>
  Submitting adds the job, a worker's own steps lose nothing unless the pool was stopped, and
  collecting a result removes exactly its job. \<open>drive\<close> is a client's run over the pool.
\<close>

locale job_pool =
  fixes outst :: "'s \<Rightarrow> 'j multiset"
    and submit :: "'j \<Rightarrow> 's \<Rightarrow> 's option"
    and work :: "'e \<Rightarrow> 's \<Rightarrow> 's option"
    and collect :: "'d \<Rightarrow> 's \<Rightarrow> ('r \<times> 's) option"
    and job_of :: "'r \<Rightarrow> 'j"
    and halted :: "'s \<Rightarrow> bool"
  assumes submit_adds: "submit j s = Some s' \<Longrightarrow> outst s' = add_mset j (outst s)"
    and work_subset: "work e s = Some s' \<Longrightarrow> outst s' \<subseteq># outst s"
    and work_keeps: "work e s = Some s' \<Longrightarrow> \<not> halted s \<Longrightarrow> outst s' = outst s"
    and collect_removes: "collect d s = Some (r, s') \<Longrightarrow> outst s = add_mset (job_of r) (outst s')"
    and halted_frame: "submit j s = Some s' \<Longrightarrow> halted s' = halted s"
      "work e s = Some s' \<Longrightarrow> halted s' = halted s"
      "collect d s = Some (r, s') \<Longrightarrow> halted s' = halted s"
begin

fun drive :: "('j + 'e + 'd) list \<Rightarrow> 's \<Rightarrow> ('j list \<times> 'r list \<times> 's) option" where
  "drive [] s = Some ([], [], s)"
| "drive (Inl j # acts) s =
     (case submit j s of
        None \<Rightarrow> None
      | Some s' \<Rightarrow> map_option (\<lambda>(js, rs, t). (j # js, rs, t)) (drive acts s'))"
| "drive (Inr (Inl e) # acts) s = (case work e s of None \<Rightarrow> None | Some s' \<Rightarrow> drive acts s')"
| "drive (Inr (Inr d) # acts) s =
     (case collect d s of
        None \<Rightarrow> None
      | Some (r, s') \<Rightarrow> map_option (\<lambda>(js, rs, t). (js, r # rs, t)) (drive acts s'))"

lemma drive_bound:
  "drive acts s = Some (js, rs, t) \<Longrightarrow> mset (map job_of rs) + outst t \<subseteq># mset js + outst s"
proof (induction acts s arbitrary: js rs rule: drive.induct)
  case (2 j acts s)
  then obtain s' js' where s: "submit j s = Some s'" "drive acts s' = Some (js', rs, t)" "js = j # js'"
    by (auto split: option.splits)
  with 2 show ?case using submit_adds [OF s(1)] by fastforce
next
  case (3 e acts s)
  then obtain s' where s: "work e s = Some s'" "drive acts s' = Some (js, rs, t)"
    by (auto split: option.splits)
  with 3 have "mset (map job_of rs) + outst t \<subseteq># mset js + outst s'" by simp
  also have "\<dots> \<subseteq># mset js + outst s" using work_subset [OF s(1)] by simp
  finally show ?case .
next
  case (4 d acts s)
  then obtain r s' rs' where s: "collect d s = Some (r, s')" "drive acts s' = Some (js, rs', t)"
    "rs = r # rs'"
    by (auto split: option.splits prod.splits)
  with 4 show ?case using collect_removes [OF s(1)] by simp
qed auto

lemma drive_halted: "drive acts s = Some (js, rs, t) \<Longrightarrow> halted t = halted s"
  by (induction acts s arbitrary: js rs rule: drive.induct)
     (auto simp: halted_frame split: option.splits prod.splits)

lemma drive_conserves:
  "drive acts s = Some (js, rs, t) \<Longrightarrow> \<not> halted s \<Longrightarrow>
     mset js + outst s = mset (map job_of rs) + outst t"
proof (induction acts s arbitrary: js rs rule: drive.induct)
  case (2 j acts s)
  then show ?case by (auto simp: submit_adds halted_frame split: option.splits)
next
  case (3 e acts s)
  then show ?case by (auto simp: work_keeps halted_frame split: option.splits)
next
  case (4 d acts s)
  then show ?case by (auto simp: collect_removes halted_frame split: option.splits prod.splits)
qed auto

end

interpretation crawl_pool: job_pool outstanding submit_job "pool_step ph rd" hand_over Job pool_cancelled
  for ph rd
proof
  fix j and s s' :: pool and e r d
  show "submit_job j s = Some s' \<Longrightarrow> outstanding s' = add_mset j (outstanding s)"
    by (rule submit_job_outstanding)
  show "pool_step ph rd e s = Some s' \<Longrightarrow> outstanding s' \<subseteq># outstanding s"
    by (rule pool_step_outstanding)
  show "pool_step ph rd e s = Some s' \<Longrightarrow> \<not> pool_cancelled s \<Longrightarrow> outstanding s' = outstanding s"
    by (rule pool_step_outstanding)
  show "hand_over d s = Some (r, s') \<Longrightarrow> outstanding s = add_mset (Job r) (outstanding s')"
    by (rule hand_over_outstanding)
qed (auto simp: frame)

section \<open>Progress\<close>

fun worker_weight :: "worker \<Rightarrow> nat" where
  "worker_weight Stopped = 0"
| "worker_weight Idle = 1"
| "worker_weight Sleeping = 2"
| "worker_weight (Delivering r) = 3"
| "worker_weight (Fetching job) = 4"

definition pool_weight :: "pool \<Rightarrow> nat" where
  "pool_weight p = 4 * length (pool_jobs p) + sum_list (map worker_weight (pool_workers p))"

lemma sum_weight_update:
  "i < length ws \<Longrightarrow>
     sum_list (map worker_weight (ws[i := w])) + worker_weight (ws ! i)
       = sum_list (map worker_weight ws) + worker_weight w"
  by (induction ws arbitrary: i) (auto simp: ac_simps split: nat.splits)

lemma pool_weight_set_worker:
  "worker_at i p \<noteq> Stopped \<Longrightarrow>
     pool_weight (set_worker i w p) + worker_weight (worker_at i p) = pool_weight p + worker_weight w"
  using sum_weight_update [of i "pool_workers p" w]
  by (auto simp: pool_weight_def set_worker_def worker_at_def split: if_splits)

lemma pool_weight_jobs:
  "pool_weight (p\<lparr>pool_jobs := js\<rparr>) + 4 * length (pool_jobs p) = pool_weight p + 4 * length js"
  by (simp add: pool_weight_def)

lemma pool_step_weight:
  assumes "pool_step ph rd e p = Some q"
  shows "pool_weight q < pool_weight p"
proof (cases e)
  case (Take i)
  with assms obtain job js where w: "worker_at i p = Idle" and j: "pool_jobs p = job # js"
    and q: "q = set_worker i (Fetching job) (p\<lparr>pool_jobs := js\<rparr>)"
    by (auto split: worker.splits list.splits)
  from pool_weight_set_worker [of i "p\<lparr>pool_jobs := js\<rparr>" "Fetching job"] w q
    pool_weight_jobs [of js p] j show ?thesis by simp
next
  case (Process i f)
  with assms obtain job where w: "worker_at i p = Fetching job"
    and q: "q = set_worker i (Delivering (process_job ph rd job f)) p"
    by (auto split: worker.splits)
  from pool_weight_set_worker [of i p "Delivering (process_job ph rd job f)"] w q
  show ?thesis by simp
next
  case (Wake i)
  with assms have w: "worker_at i p = Sleeping" and q: "q = set_worker i Idle p"
    by (auto split: if_splits)
  from pool_weight_set_worker [of i p Idle] w q show ?thesis by simp
next
  case (Quit i)
  with assms have w: "worker_at i p \<noteq> Stopped" and q: "q = set_worker i Stopped p"
    by (auto split: worker.splits if_splits)
  from pool_weight_set_worker [OF w, of Stopped] q w show ?thesis
    by (cases "worker_at i p") auto
qed

lemma hand_over_weight: "hand_over d p = Some (r, q) \<Longrightarrow> pool_weight q < pool_weight p"
  using pool_weight_set_worker [of "fst d" p "if snd d > 0 then Sleeping else Idle"]
  by (auto simp: hand_over_def split: worker.splits if_splits)

lemma submit_job_weight: "submit_job j p = Some q \<Longrightarrow> pool_weight q = pool_weight p + 4"
  by (auto simp: submit_job_def pool_weight_def split: if_splits)

lemma held_nonempty: "held ws \<noteq> {#} \<Longrightarrow> \<exists>i<length ws. holding (ws ! i) \<noteq> {#}"
proof (induction ws)
  case (Cons w ws)
  then show ?case
    by (cases "holding w = {#}") (force simp: held_def)+
qed (simp add: held_def)

text \<open>Workers stop only once the run is cancelled or the job channel is closed.\<close>

definition workers_ok :: "pool \<Rightarrow> bool" where
  "workers_ok p = (pool_workers p \<noteq> [] \<and> (\<not> pool_cancelled p \<and> \<not> pool_closed p \<longrightarrow> Stopped \<notin> set (pool_workers p)))"

lemma workers_ok_set_worker:
  "workers_ok p \<Longrightarrow> w \<noteq> Stopped \<Longrightarrow> workers_ok (set_worker i w p)"
  by (auto simp: workers_ok_def set_worker_def dest!: subsetD [OF set_update_subset_insert])

lemma pool_step_workers_ok: "pool_step ph rd e p = Some q \<Longrightarrow> workers_ok p \<Longrightarrow> workers_ok q"
proof (cases e)
  case (Quit i)
  moreover assume "pool_step ph rd e p = Some q" "workers_ok p"
  ultimately show ?thesis
    by (auto simp: workers_ok_def set_worker_def split: worker.splits if_splits)
qed (auto split: worker.splits list.splits if_splits simp: workers_ok_def set_worker_def
       dest!: subsetD [OF set_update_subset_insert])

lemma pool_progress:
  assumes "workers_ok p" "\<not> pool_cancelled p" "\<not> pool_closed p" "outstanding p \<noteq> {#}"
  shows "(\<exists>e q. pool_step ph rd e p = Some q) \<or> (\<exists>d r q. hand_over d p = Some (r, q))"
proof (cases "held (pool_workers p) = {#}")
  case False
  then obtain i where i: "i < length (pool_workers p)" "holding (pool_workers p ! i) \<noteq> {#}"
    using held_nonempty by blast
  then consider (f) job where "worker_at i p = Fetching job"
    | (d) r where "worker_at i p = Delivering r"
    by (cases "pool_workers p ! i") (auto simp: worker_at_def)
  then show ?thesis
  proof cases
    case f
    then have "pool_step ph rd (Process i empty_fetch_result) p \<noteq> None" by simp
    then show ?thesis by blast
  next
    case d
    then have "hand_over (i, 0) p \<noteq> None" by (simp add: hand_over_def)
    then show ?thesis by fast
  qed
next
  case True
  then have "pool_jobs p \<noteq> []" using assms(4) by (auto simp: outstanding_def)
  then obtain job js where j: "pool_jobs p = job # js" by (cases "pool_jobs p") auto
  obtain w ws where ws: "pool_workers p = w # ws" using assms(1) by (cases "pool_workers p") (auto simp: workers_ok_def)
  with assms True have "w = Idle \<or> w = Sleeping"
    by (cases w) (auto simp: workers_ok_def held_def)
  then have "pool_step ph rd (Take 0) p \<noteq> None \<or> pool_step ph rd (Wake 0) p \<noteq> None"
    using ws j by (auto simp: worker_at_def)
  then show ?thesis by blast
qed

text \<open>
  The worker pool neither loses, invents nor repeats work: over any sequence of submitted
  jobs, worker steps and collected results of a pool whose context is not cancelled, the
  submitted jobs are exactly the jobs of the collected results plus those still queued or in
  a worker's hands.
\<close>

theorem pool_conserves_jobs:
  assumes "crawl_pool.drive ph rd acts (start_worker_pool n) = Some (submitted, results, p)"
  shows "mset submitted = mset (map Job results) + outstanding p \<and> length (pool_workers p) = n"
proof -
  note outstanding_start [of n]
  with crawl_pool.drive_conserves [OF assms] have "mset submitted = mset (map Job results) + outstanding p"
    by (simp add: start_worker_pool_def)
  moreover have "length (pool_workers t) = length (pool_workers s)"
    if "crawl_pool.drive ph rd acts s = Some (js, rs, t)" for s t js rs
    using that
    by (induction acts s arbitrary: js rs rule: crawl_pool.drive.induct [where ph = ph and rd = rd])
       (auto simp: frame split: option.splits prod.splits)
  from this [OF assms] have "length (pool_workers p) = n" by (simp add: start_worker_pool_def)
  ultimately show ?thesis by simp
qed

theorem pool_conserves_jobs_witness:
  "let job = \<lparr>job_URL = ''https://a.com/'', job_Depth = 0, job_ETag = [], job_LastModified = []\<rparr>;
       other = job\<lparr>job_URL := ''https://a.com/b''\<rparr>
   in \<exists>results p. crawl_pool.drive (\<lambda>_ _ _. Inl []) None
          [Inl job, Inl other, Inr (Inl (Take 0)), Inr (Inl (Process 0 (fetch_failed ''reset''))),
           Inr (Inr (0, 0))] (start_worker_pool 2) = Some ([job, other], results, p)
        \<and> {#job, other#} = mset (map Job results) + outstanding p \<and> length results = 1"
proof -
  define job where "job = \<lparr>job_URL = ''https://a.com/'', job_Depth = 0, job_ETag = [], job_LastModified = []\<rparr>"
  define other where "other = job\<lparr>job_URL := ''https://a.com/b''\<rparr>"
  obtain r p where h: "crawl_pool.drive (\<lambda>_ _ _. Inl []) None
          [Inl job, Inl other, Inr (Inl (Take 0)), Inr (Inl (Process 0 (fetch_failed ''reset''))),
           Inr (Inr (0, 0))] (start_worker_pool 2) = Some ([job, other], [r], p)"
    by (simp add: start_worker_pool_def submit_job_def worker_at_def set_worker_def hand_over_def numeral_2_eq_2)
  from pool_conserves_jobs [OF h] have "{#job, other#} = mset (map Job [r]) + outstanding p" by simp
  with h show ?thesis unfolding Let_def job_def [symmetric] other_def [symmetric]
    by (intro exI [of _ "[r]"] exI [of _ p]) auto
qed

end
