(* ===== verification/Robots.thy ===== *)
theory Robots
  imports Fetcher
begin

text \<open>
  \<open>internal/crawler/robots.go\<close>: parsing of robots.txt, the translation of its path patterns
  to regular expressions, and the longest-match decision. The regular expressions the
  translation builds use literals, \<open>.*\<close> and the end anchor only, so they are lists of such
  items with Go's \<open>MatchString\<close> semantics (a match may end anywhere, \<open>.\<close> is any character
  but a newline).
\<close>

section \<open>Patterns\<close>

datatype re_item = Lit char | AnyStar | EndAnchor

text \<open>
  One pattern character. The translation escapes every regexp metacharacter but \<open>$\<close>, which
  reaches the expression as an anchor.
\<close>

definition pattern_item :: "char \<Rightarrow> re_item" where
  "pattern_item c = (if c = CHR ''*'' then AnyStar
                     else if c = CHR ''$'' then EndAnchor else Lit c)"

definition robots_pattern_to_regexp :: "string \<Rightarrow> re_item list" where
  "robots_pattern_to_regexp pattern =
     (let anchored = has_suffix pattern ''$'';
          body = (if anchored then butlast pattern else pattern)
      in map pattern_item body @ (if anchored then [EndAnchor] else []))"

fun re_match :: "re_item list \<Rightarrow> string \<Rightarrow> bool" where
  "re_match [] s = True"
| "re_match (Lit c # is) [] = False"
| "re_match (Lit c # is) (d # s) = (c = d \<and> re_match is s)"
| "re_match (EndAnchor # is) s = (s = [] \<and> re_match is s)"
| "re_match (AnyStar # is) [] = re_match is []"
| "re_match (AnyStar # is) (d # s) =
     (re_match is (d # s) \<or> (d \<noteq> CHR 0x0A \<and> re_match (AnyStar # is) s))"

record robots_rule =
  raw :: string
  re :: "re_item list"
  rule_length :: nat

definition new_robots_rule :: "string \<Rightarrow> robots_rule option" where
  "new_robots_rule pattern =
     (let len = (if has_suffix pattern ''$'' then length pattern - 1 else length pattern) in
      if len = 0 then None
      else Some \<lparr>raw = pattern, re = robots_pattern_to_regexp pattern, rule_length = len\<rparr>)"

definition robots_rule_matches :: "robots_rule \<Rightarrow> string \<Rightarrow> bool" where
  "robots_rule_matches rule urlPath = re_match (re rule) urlPath"

section \<open>The decision\<close>

record robots_rules =
  disallow :: "robots_rule list"
  allow :: "robots_rule list"
  CrawlDelay :: int

definition empty_robots_rules :: robots_rules where
  "empty_robots_rules = \<lparr>disallow = [], allow = [], CrawlDelay = 0\<rparr>"

fun check_group :: "string \<Rightarrow> bool \<Rightarrow> robots_rule list \<Rightarrow> int \<times> bool \<Rightarrow> int \<times> bool" where
  "check_group urlPath allows [] (bestLength, bestAllows) = (bestLength, bestAllows)"
| "check_group urlPath allows (rule # rules) (bestLength, bestAllows) =
     check_group urlPath allows rules
       (if int (rule_length rule) > bestLength \<and> robots_rule_matches rule urlPath
        then (int (rule_length rule), allows) else (bestLength, bestAllows))"

definition robots_allow :: "robots_rules option \<Rightarrow> string \<Rightarrow> bool" where
  "robots_allow rules urlPath =
     (case rules of
        None \<Rightarrow> True
      | Some r \<Rightarrow> snd (check_group urlPath False (disallow r)
                        (check_group urlPath True (allow r) (-1, True))))"

section \<open>Parsing\<close>

record robots_parse_state =
  rules_so_far :: robots_rules
  inStarGroup :: bool
  groupFinished :: bool

definition robots_field :: "string \<Rightarrow> (string \<times> string) option" where
  \<comment> \<open>comment stripped, trimmed, split at the colon; \<open>None\<close> where the loop continues\<close>
  "robots_field line =
     (let text = trim_space (fst (cut line (CHR ''#''))) in
      if text = [] then None
      else (case index_byte text (CHR '':'') of
              None \<Rightarrow> None
            | Some i \<Rightarrow> Some (to_lower (trim_space (take i text)), trim_space (drop (Suc i) text))))"

text \<open>\<open>parse_duration\<close> stands for \<open>time.ParseDuration\<close>, which the delay value goes through.\<close>

definition parse_robots_line ::
    "(string \<Rightarrow> int option) \<Rightarrow> string \<Rightarrow> robots_parse_state \<Rightarrow> robots_parse_state" where
  "parse_robots_line parse_duration line st =
     (case robots_field line of
        None \<Rightarrow> st
      | Some (field, value) \<Rightarrow>
          if field = ''user-agent'' then
            (if groupFinished st \<or> \<not> inStarGroup st
             then st\<lparr>inStarGroup := (value = ''*''), groupFinished := False\<rparr> else st)
          else if field \<in> {''disallow'', ''allow'', ''crawl-delay''} then
            (if \<not> inStarGroup st then st
             else
               (let st' = st\<lparr>groupFinished := True\<rparr>; r = rules_so_far st in
                if field = ''disallow'' then
                  (case new_robots_rule value of
                     None \<Rightarrow> st'
                   | Some rule \<Rightarrow> st'\<lparr>rules_so_far := r\<lparr>disallow := disallow r @ [rule]\<rparr>\<rparr>)
                else if field = ''allow'' then
                  (case new_robots_rule value of
                     None \<Rightarrow> st'
                   | Some rule \<Rightarrow> st'\<lparr>rules_so_far := r\<lparr>allow := allow r @ [rule]\<rparr>\<rparr>)
                else
                  (case parse_duration (value @ ''s'') of
                     None \<Rightarrow> st'
                   | Some d \<Rightarrow> st'\<lparr>rules_so_far := r\<lparr>CrawlDelay := d\<rparr>\<rparr>)))
          else st)"

definition parse_robots_txt :: "(string \<Rightarrow> int option) \<Rightarrow> string \<Rightarrow> robots_rules" where
  "parse_robots_txt parse_duration body =
     rules_so_far (fold (parse_robots_line parse_duration) (split_on (CHR 0x0A) body)
       \<lparr>rules_so_far = empty_robots_rules, inStarGroup = False, groupFinished = False\<rparr>)"

text \<open>
  \<open>FetchRobotsRules\<close>: \<open>result\<close> is what fetching \<open>/robots.txt\<close> gave; a missing fetcher and
  every failure give the nil rules, which allow everything.
\<close>

definition robots_url :: "url \<Rightarrow> string" where
  "robots_url root = Scheme root @ ''://'' @ Host root @ ''/robots.txt''"

definition fetch_robots_rules ::
    "(string \<Rightarrow> int option) \<Rightarrow> (string \<Rightarrow> fetch_result) option \<Rightarrow> url \<Rightarrow> robots_rules option" where
  "fetch_robots_rules parse_duration fetcher root =
     (case fetcher of
        None \<Rightarrow> None
      | Some get \<Rightarrow>
          (let result = get (robots_url root) in
           if FetchError result \<noteq> None \<or> StatusCode result < 200 \<or> StatusCode result \<ge> 300
              \<or> Body result = [] then None
           else Some (parse_robots_txt parse_duration (Body result))))"

section \<open>The meaning of a pattern\<close>

lemma re_match_lits: "re_match (map Lit p @ is) s \<longleftrightarrow> (\<exists>t. s = p @ t \<and> re_match is t)"
proof (induction p arbitrary: s)
  case (Cons c p)
  then show ?case by (cases s) auto
qed simp

lemma re_match_star:
  "CHR 0x0A \<notin> set s \<Longrightarrow> re_match (AnyStar # is) s \<longleftrightarrow> (\<exists>g t. s = g @ t \<and> re_match is t)"
proof (induction s)
  case (Cons d s)
  show ?case
  proof
    assume "re_match (AnyStar # is) (d # s)"
    then consider "re_match is (d # s)" | "re_match (AnyStar # is) s"
      using Cons.prems by auto
    then show "\<exists>g t. d # s = g @ t \<and> re_match is t"
    proof cases
      case 1
      then show ?thesis by (metis append_Nil)
    next
      case 2
      with Cons obtain g t where "s = g @ t" "re_match is t" by auto
      then have "d # s = (d # g) @ t" by simp
      with \<open>re_match is t\<close> show ?thesis by blast
    qed
  next
    assume "\<exists>g t. d # s = g @ t \<and> re_match is t"
    then obtain g t where gt: "d # s = g @ t" "re_match is t" by blast
    show "re_match (AnyStar # is) (d # s)"
    proof (cases g)
      case Nil
      with gt show ?thesis by auto
    next
      case (Cons x g')
      with gt have "re_match (AnyStar # is) s"
        using Cons.IH Cons.prems by auto
      with Cons.prems show ?thesis by auto
    qed
  qed
qed auto

text \<open>The items of a pattern body without \<open>$\<close>, as literals between stars.\<close>

fun star_items :: "string list \<Rightarrow> re_item list" where
  "star_items [] = []"
| "star_items [p] = map Lit p"
| "star_items (p # q # ps) = map Lit p @ AnyStar # star_items (q # ps)"

lemma star_items_Cons: "ps \<noteq> [] \<Longrightarrow> star_items ((c # p) # ps) = Lit c # star_items (p # ps)"
  by (cases ps) auto

lemma pattern_items_split:
  "CHR ''$'' \<notin> set body \<Longrightarrow> map pattern_item body = star_items (split_on (CHR ''*'') body)"
proof (induction body)
  case (Cons c body)
  obtain p ps where sp: "split_on (CHR ''*'') body = p # ps"
    by (cases "split_on (CHR ''*'') body") auto
  with Cons show ?case
    by (cases ps) (auto simp: pattern_item_def)
qed simp

lemma re_match_star_items:
  "ps \<noteq> [] \<Longrightarrow> CHR 0x0A \<notin> set s \<Longrightarrow>
     re_match (star_items ps @ tail) s \<longleftrightarrow> (\<exists>x t. s = x @ t \<and> x \<in> glob_language ps \<and> re_match tail t)"
proof (induction ps arbitrary: s rule: star_items.induct)
  case (2 p)
  then show ?case by (auto simp: re_match_lits)
next
  case (3 p q ps)
  have star: "re_match (AnyStar # star_items (q # ps) @ tail) t \<longleftrightarrow>
      (\<exists>g x r. t = g @ x @ r \<and> x \<in> glob_language (q # ps) \<and> re_match tail r)"
    if "CHR 0x0A \<notin> set t" for t
  proof -
    have "re_match (AnyStar # star_items (q # ps) @ tail) t \<longleftrightarrow>
        (\<exists>g r. t = g @ r \<and> re_match (star_items (q # ps) @ tail) r)"
      using that by (rule re_match_star)
    also have "\<dots> \<longleftrightarrow> (\<exists>g r. t = g @ r \<and>
        (\<exists>x y. r = x @ y \<and> x \<in> glob_language (q # ps) \<and> re_match tail y))"
      using "3.IH" that by (intro ex_cong1 conj_cong) auto
    finally show ?thesis by blast
  qed
  have "re_match (star_items (p # q # ps) @ tail) s \<longleftrightarrow>
      (\<exists>t. s = p @ t \<and> re_match (AnyStar # star_items (q # ps) @ tail) t)"
    by (simp add: re_match_lits)
  also have "\<dots> \<longleftrightarrow> (\<exists>t. s = p @ t \<and>
      (\<exists>g x r. t = g @ x @ r \<and> x \<in> glob_language (q # ps) \<and> re_match tail r))"
    using "3.prems" star by (intro ex_cong1 conj_cong) auto
  also have "\<dots> \<longleftrightarrow> (\<exists>x t. s = x @ t \<and> x \<in> glob_language (p # q # ps) \<and> re_match tail t)"
    unfolding glob_language_Cons by (metis append.assoc)
  finally show ?case .
qed simp

text \<open>
  The regular expression built from a robots.txt pattern means what the file format
  says: with \<open>*\<close> standing for any text, the pattern has to match a prefix of the path, and
  with a trailing \<open>$\<close> the whole path. This holds for pattern bodies without a further \<open>$\<close>
  and paths without a newline.
\<close>

theorem robots_pattern_meaning:
  assumes "CHR ''$'' \<notin> set body" and "CHR 0x0A \<notin> set path"
  shows "(re_match (robots_pattern_to_regexp body) path
          \<longleftrightarrow> (\<exists>x t. path = x @ t \<and> x \<in> glob_language (split_on (CHR ''*'') body)))
    \<and> (re_match (robots_pattern_to_regexp (body @ ''$'')) path
          \<longleftrightarrow> path \<in> glob_language (split_on (CHR ''*'') body))"
proof -
  have "\<not> has_suffix body ''$''"
    using assms(1) by (auto simp: has_suffix_iff)
  then have 1: "robots_pattern_to_regexp body = star_items (split_on (CHR ''*'') body) @ []"
    using assms(1) by (simp add: robots_pattern_to_regexp_def pattern_items_split)
  have 2: "robots_pattern_to_regexp (body @ ''$'') = star_items (split_on (CHR ''*'') body) @ [EndAnchor]"
    using assms(1) by (simp add: robots_pattern_to_regexp_def pattern_items_split)
  show ?thesis
    unfolding 1 2 using re_match_star_items [OF split_on_not_Nil assms(2), of "CHR ''*''" body "[]"]
      re_match_star_items [OF split_on_not_Nil assms(2), of "CHR ''*''" body "[EndAnchor]"]
    by auto
qed

theorem robots_pattern_meaning_witness:
  "re_match (robots_pattern_to_regexp (''/a*b'' @ ''$'')) ''/axb''
     \<longleftrightarrow> ''/axb'' \<in> glob_language (split_on (CHR ''*'') ''/a*b'')"
proof -
  have "CHR ''$'' \<notin> set ''/a*b''" "CHR 0x0A \<notin> set ''/axb''" by simp_all
  from robots_pattern_meaning [OF this] show ?thesis by blast
qed

lemma re_match_end_anchor_stuck:
  "re_match (xs @ EndAnchor # Lit c # ys) s \<Longrightarrow> False"
proof (induction xs s rule: re_match.induct)
  case (1 s)
  then show ?case by (cases s) auto
qed auto

text \<open>
  A \<open>$\<close> inside a pattern is not matched literally, against the comment of
  \<open>robotsPatternToRegexp\<close>: it is left unescaped and acts as an end anchor, so a pattern with
  a \<open>$\<close> followed by another literal character matches no path at all (and the rule is
  silently ignored).
\<close>

theorem inner_dollar_never_matches:
  assumes "c \<noteq> CHR ''*''" and "c \<noteq> CHR ''$''"
  shows "\<not> re_match (robots_pattern_to_regexp (pre @ ''$'' @ [c] @ post)) path"
proof -
  let ?p = "pre @ ''$'' @ [c] @ post"
  obtain tail where "robots_pattern_to_regexp ?p = map pattern_item pre @ EndAnchor # Lit c # tail"
  proof (cases "has_suffix ?p ''$''")
    case True
    then have "post \<noteq> []" using assms(2) by (auto simp: has_suffix_iff)
    with True assms show ?thesis
      by (intro that [of "map pattern_item (butlast post) @ [EndAnchor]"])
        (simp add: robots_pattern_to_regexp_def butlast_append pattern_item_def)
  next
    case False
    with assms show ?thesis
      by (intro that [of "map pattern_item post"])
        (simp add: robots_pattern_to_regexp_def pattern_item_def)
  qed
  then show ?thesis using re_match_end_anchor_stuck by metis
qed

theorem inner_dollar_never_matches_witness:
  "\<not> re_match (robots_pattern_to_regexp (''/a'' @ ''$'' @ [CHR ''b''] @ ''c'')) ''/a$bc''"
  by (rule inner_dollar_never_matches) simp_all

section \<open>The decision is the longest match\<close>

lemma check_group_spec:
  "check_group p a rules (b, ok) = (b', ok') \<Longrightarrow>
     b \<le> b' \<and> (b' = b \<longrightarrow> ok' = ok) \<and> (b < b' \<longrightarrow> ok' = a)
     \<and> (b < b' \<longrightarrow> (\<exists>r\<in>set rules. robots_rule_matches r p \<and> int (rule_length r) = b'))
     \<and> (\<forall>r\<in>set rules. robots_rule_matches r p \<longrightarrow> int (rule_length r) \<le> b')"
proof (induction rules arbitrary: b ok)
  case (Cons r rules)
  let ?s = "if int (rule_length r) > b \<and> robots_rule_matches r p
            then (int (rule_length r), a) else (b, ok)"
  obtain b1 ok1 where s: "?s = (b1, ok1)" by (cases ?s) auto
  with Cons.prems have "check_group p a rules (b1, ok1) = (b', ok')" by simp
  from Cons.IH [OF this] s show ?case
    by (auto split: if_splits)
qed simp

text \<open>
  C38: \<open>Allow\<close> is the longest-match rule of the robots.txt specification with ties going to
  Allow: a path may be fetched exactly when every matching Disallow pattern is covered by a
  matching Allow pattern that is at least as long. Missing rules allow everything.
\<close>

theorem robots_allow_longest_match:
  "robots_allow None path
   \<and> (robots_allow (Some r) path \<longleftrightarrow>
        (\<forall>d\<in>set (disallow r). robots_rule_matches d path \<longrightarrow>
           (\<exists>a\<in>set (allow r). robots_rule_matches a path \<and> rule_length d \<le> rule_length a)))"
proof -
  obtain b1 ok1 where 1: "check_group path True (allow r) (-1, True) = (b1, ok1)"
    by (cases "check_group path True (allow r) (-1, True)") auto
  obtain b2 ok2 where 2: "check_group path False (disallow r) (b1, ok1) = (b2, ok2)"
    by (cases "check_group path False (disallow r) (b1, ok1)") auto
  have allow: "robots_allow (Some r) path = ok2"
    by (simp add: robots_allow_def 1 2)
  note s1 = check_group_spec [OF 1] and s2 = check_group_spec [OF 2]
  have ok1: "ok1" using s1 by (cases "b1 = -1") auto
  have "ok2 \<longleftrightarrow> b2 = b1" using s2 ok1 by auto
  also have "\<dots> \<longleftrightarrow> (\<forall>d\<in>set (disallow r). robots_rule_matches d path \<longrightarrow> int (rule_length d) \<le> b1)"
    using s2 by force
  also have "\<dots> \<longleftrightarrow> (\<forall>d\<in>set (disallow r). robots_rule_matches d path \<longrightarrow>
      (\<exists>a\<in>set (allow r). robots_rule_matches a path \<and> rule_length d \<le> rule_length a))"
  proof -
    have covered: "int (rule_length d) \<le> b1 \<longleftrightarrow>
        (\<exists>a\<in>set (allow r). robots_rule_matches a path \<and> rule_length d \<le> rule_length a)" for d
    proof
      assume "int (rule_length d) \<le> b1"
      with s1 show "\<exists>a\<in>set (allow r). robots_rule_matches a path \<and> rule_length d \<le> rule_length a"
        by force
    next
      assume "\<exists>a\<in>set (allow r). robots_rule_matches a path \<and> rule_length d \<le> rule_length a"
      with s1 show "int (rule_length d) \<le> b1" by force
    qed
    show ?thesis by (simp only: covered)
  qed
  finally show ?thesis using allow by (simp add: robots_allow_def)
qed

theorem robots_allow_longest_match_witness:
  "robots_allow (Some \<lparr>disallow = [the (new_robots_rule ''/private'')],
      allow = [the (new_robots_rule ''/private/public'')], CrawlDelay = 0\<rparr>) ''/private/public/x''
   \<and> \<not> robots_allow (Some \<lparr>disallow = [the (new_robots_rule ''/private'')],
      allow = [the (new_robots_rule ''/private/public'')], CrawlDelay = 0\<rparr>) ''/private/x''"
proof -
  let ?r = "\<lparr>disallow = [the (new_robots_rule ''/private'')],
      allow = [the (new_robots_rule ''/private/public'')], CrawlDelay = 0\<rparr>"
  let ?d = "the (new_robots_rule ''/private'')" and ?a = "the (new_robots_rule ''/private/public'')"
  have "robots_rule_matches ?a ''/private/public/x''" "\<not> robots_rule_matches ?a ''/private/x''"
    "robots_rule_matches ?d ''/private/x''" "rule_length ?d \<le> rule_length ?a"
    by code_simp+
  then show ?thesis
    using robots_allow_longest_match [of "''/private/public/x''" ?r]
      robots_allow_longest_match [of "''/private/x''" ?r] by simp
qed

section \<open>What the parser keeps\<close>

definition star_group_line :: "string \<Rightarrow> bool" where
  "star_group_line line = (robots_field line = Some (''user-agent'', ''*''))"

definition wf_rule :: "robots_rule \<Rightarrow> bool" where
  "wf_rule r = (new_robots_rule (raw r) = Some r)"

lemma new_robots_rule_wf: "new_robots_rule p = Some r \<Longrightarrow> wf_rule r \<and> 0 < rule_length r"
  by (auto simp: new_robots_rule_def wf_rule_def Let_def split: if_splits)

definition parsed_inv :: "robots_parse_state \<Rightarrow> bool" where
  "parsed_inv st = (\<forall>r\<in>set (disallow (rules_so_far st)) \<union> set (allow (rules_so_far st)).
     wf_rule r \<and> 0 < rule_length r)"

lemma parse_robots_line_inv [run_inv]: "parsed_inv st \<Longrightarrow> parsed_inv (parse_robots_line pd l st)"
  by (auto simp: parse_robots_line_def parsed_inv_def Let_def new_robots_rule_wf
      split: option.splits prod.splits)

lemma parse_robots_line_outside:
  "\<not> inStarGroup st \<Longrightarrow> \<not> star_group_line l \<Longrightarrow>
     rules_so_far (parse_robots_line pd l st) = rules_so_far st
     \<and> \<not> inStarGroup (parse_robots_line pd l st)"
  by (auto simp: parse_robots_line_def star_group_line_def split: option.splits prod.splits)

text \<open>
  Parsing keeps only usable rules of the \<open>*\<close> group: every stored rule is the compiled
  form of a non-empty pattern, and a file without a \<open>User-agent: *\<close> line yields no rule, so
  it allows every path.
\<close>

theorem parse_robots_txt_rules:
  "(\<forall>r\<in>set (disallow (parse_robots_txt pd body)) \<union> set (allow (parse_robots_txt pd body)).
      wf_rule r \<and> 0 < rule_length r)
   \<and> (list_all (\<lambda>l. \<not> star_group_line l) (split_on (CHR 0x0A) body)
        \<longrightarrow> robots_allow (Some (parse_robots_txt pd body)) path)"
proof -
  let ?st = "\<lparr>rules_so_far = empty_robots_rules, inStarGroup = False, groupFinished = False\<rparr>"
  have "parsed_inv st \<Longrightarrow> parsed_inv (fold (parse_robots_line pd) ls st)" for ls st
    by (induction ls arbitrary: st) (auto intro: run_inv)
  moreover have "parsed_inv ?st" by (simp add: parsed_inv_def empty_robots_rules_def)
  ultimately have 1: "parsed_inv (fold (parse_robots_line pd) (split_on (CHR 0x0A) body) ?st)"
    by blast
  have "\<not> inStarGroup st \<Longrightarrow> list_all (\<lambda>l. \<not> star_group_line l) ls \<Longrightarrow>
      rules_so_far (fold (parse_robots_line pd) ls st) = rules_so_far st" for ls st
  proof (induction ls arbitrary: st)
    case (Cons l ls)
    with parse_robots_line_outside [of st l pd] show ?case by simp
  qed simp
  then have "list_all (\<lambda>l. \<not> star_group_line l) (split_on (CHR 0x0A) body) \<Longrightarrow>
      parse_robots_txt pd body = empty_robots_rules"
    by (simp add: parse_robots_txt_def)
  then show ?thesis
    using 1 by (auto simp: parse_robots_txt_def parsed_inv_def empty_robots_rules_def
        robots_allow_def)
qed

theorem parse_robots_txt_rules_witness:
  "robots_allow (Some (parse_robots_txt (\<lambda>_. None) ''User-agent: X'')) ''/a''"
proof -
  have "list_all (\<lambda>l. \<not> star_group_line l) (split_on (CHR 0x0A) ''User-agent: X'')"
    by code_simp
  then show ?thesis
    using parse_robots_txt_rules [of "\<lambda>_. None" "''User-agent: X''" "''/a''"] by blast
qed

end
