(* ===== verification/Sitemap.thy ===== *)
theory Sitemap
  imports CrawlTypes
begin

text \<open>
  \<open>internal/crawler/sitemap.go\<close>: sitemap discovery. Fetching is a function from URLs to
  results; gzip and XML decoding are third-party to this model and enter as the parameters
  \<open>gunzip\<close> and \<open>parse_xml\<close>.
\<close>

definition max_sitemap_documents :: nat where "max_sitemap_documents = 100"
definition max_sitemap_urls :: nat where "max_sitemap_urls = 50000"

record sitemap_document =
  Sitemaps :: "string list"
  URLs :: "string list"

section \<open>Candidates\<close>

definition sitemaps_from_robots :: "(string \<Rightarrow> fetch_result) \<Rightarrow> url \<Rightarrow> string list" where
  "sitemaps_from_robots get root =
     (let result = get (Scheme root @ ''://'' @ Host root @ ''/robots.txt'') in
      if FetchError result \<noteq> None \<or> StatusCode result < 200 \<or> StatusCode result \<ge> 300 then []
      else concat (map (\<lambda>line.
             let trimmed = trim_space line;
                 value = trim_space (drop 8 trimmed)
             in if length trimmed < 8 \<or> to_lower (take 8 trimmed) \<noteq> ''sitemap:'' then []
                else if value \<noteq> [] then [value] else [])
           (split_on (CHR 0x0A) (Body result))))"

definition add_candidate :: "string \<Rightarrow> string list \<Rightarrow> string list" where
  "add_candidate candidate candidates =
     (let c = trim_space candidate in
      if c = [] \<or> c \<in> set candidates then candidates else candidates @ [c])"

definition candidate_sitemap_urls :: "(string \<Rightarrow> fetch_result) \<Rightarrow> url \<Rightarrow> string list" where
  "candidate_sitemap_urls get root =
     add_candidate (Scheme root @ ''://'' @ Host root @ ''/sitemap.xml'')
       (fold add_candidate (sitemaps_from_robots get root) [])"

section \<open>One document\<close>

definition fetch_sitemap_document ::
    "(string \<Rightarrow> string option) \<Rightarrow> (string \<Rightarrow> sitemap_document option) \<Rightarrow> (string \<Rightarrow> fetch_result)
       \<Rightarrow> string \<Rightarrow> sitemap_document option" where
  "fetch_sitemap_document gunzip parse_xml get sitemapURL =
     (let result = get sitemapURL; body = Body result in
      if FetchError result \<noteq> None \<or> StatusCode result < 200 \<or> StatusCode result \<ge> 300 \<or> body = []
      then None
      else if length body \<ge> 2 \<and> body ! 0 = CHR 0x1F \<and> body ! 1 = CHR 0x8B then
        (case gunzip body of None \<Rightarrow> None | Some decompressed \<Rightarrow> parse_xml decompressed)
      else parse_xml body)"

section \<open>Discovery\<close>

text \<open>
  The URL loop of one document: the discovered list (whose elements are the \<open>seenURLs\<close>
  keys) and whether the cap was reached, which ends the whole discovery.
\<close>

fun collect_urls :: "string \<Rightarrow> int \<Rightarrow> string list \<Rightarrow> string list \<Rightarrow> string list \<times> bool" where
  "collect_urls allowedHost limit [] discovered = (discovered, False)"
| "collect_urls allowedHost limit (loc # locs) discovered =
     (case normalize_url (trim_space loc) None of
        Inl _ \<Rightarrow> collect_urls allowedHost limit locs discovered
      | Inr u \<Rightarrow>
          if allowedHost \<noteq> [] \<and> \<not> is_allowed_host allowedHost (hostname u)
          then collect_urls allowedHost limit locs discovered
          else if url_string u \<in> set discovered
          then collect_urls allowedHost limit locs discovered
          else (let discovered' = discovered @ [url_string u] in
                if length discovered' \<ge> max_sitemap_urls
                   \<or> (limit > 0 \<and> int (length discovered') \<ge> limit)
                then (discovered', True)
                else collect_urls allowedHost limit locs discovered'))"

definition child_sitemaps :: "sitemap_document \<Rightarrow> string list" where
  "child_sitemaps doc = filter (\<lambda>c. c \<noteq> []) (map trim_space (Sitemaps doc))"

text \<open>
  The document loop. \<open>visited\<close> is \<open>visitedDocs\<close>; it stops at 100 documents, so a cycle of
  sitemap indexes ends. A queued document that was visited is dropped, which shortens the
  queue.
\<close>

function discover_loop ::
    "(string \<Rightarrow> sitemap_document option) \<Rightarrow> string \<Rightarrow> int \<Rightarrow> string list \<Rightarrow> string list \<Rightarrow> string list
       \<Rightarrow> string list \<times> string list" where
  "discover_loop document allowedHost limit [] visited discovered = (discovered, visited)"
| "discover_loop document allowedHost limit (sitemapURL # pending) visited discovered =
     (if \<not> length visited < max_sitemap_documents then (discovered, visited)
      else if sitemapURL \<in> set visited
      then discover_loop document allowedHost limit pending visited discovered
      else (case document sitemapURL of
              None \<Rightarrow> discover_loop document allowedHost limit pending (sitemapURL # visited) discovered
            | Some doc \<Rightarrow>
                (let (discovered', full) = collect_urls allowedHost limit (URLs doc) discovered in
                 if full then (discovered', sitemapURL # visited)
                 else discover_loop document allowedHost limit (pending @ child_sitemaps doc)
                        (sitemapURL # visited) discovered')))"
  by pat_completeness auto
termination
  by (relation "measures [\<lambda>(d, h, l, p, v, s). max_sitemap_documents - length v,
                          \<lambda>(d, h, l, p, v, s). length p]") auto

definition discover_sitemap_urls ::
    "(string \<Rightarrow> string option) \<Rightarrow> (string \<Rightarrow> sitemap_document option)
       \<Rightarrow> (string \<Rightarrow> fetch_result) option \<Rightarrow> url option \<Rightarrow> string \<Rightarrow> int \<Rightarrow> string list" where
  "discover_sitemap_urls gunzip parse_xml fetcher rootURL allowedHost limit =
     (case (fetcher, rootURL) of
        (Some get, Some root) \<Rightarrow>
          fst (discover_loop (fetch_sitemap_document gunzip parse_xml get) allowedHost limit
                 (candidate_sitemap_urls get root) [] [])
      | _ \<Rightarrow> [])"

section \<open>Properties\<close>

definition in_scope :: "string \<Rightarrow> string \<Rightarrow> bool" where
  "in_scope allowedHost s =
     (\<exists>loc u. normalize_url loc None = Inr u \<and> s = url_string u
        \<and> (allowedHost = [] \<or> is_allowed_host allowedHost (hostname u)))"

definition seed_list_ok :: "string \<Rightarrow> int \<Rightarrow> string list \<Rightarrow> bool" where
  "seed_list_ok h limit ds = (distinct ds \<and> length ds \<le> max_sitemap_urls
     \<and> (limit > 0 \<longrightarrow> int (length ds) \<le> limit) \<and> (\<forall>s\<in>set ds. in_scope h s))"

definition below_caps :: "int \<Rightarrow> string list \<Rightarrow> bool" where
  "below_caps limit ds = (length ds < max_sitemap_urls \<and> (limit > 0 \<longrightarrow> int (length ds) < limit))"

lemma collect_urls_ok:
  "collect_urls h limit locs ds = (ds', full) \<Longrightarrow> seed_list_ok h limit ds \<Longrightarrow> below_caps limit ds \<Longrightarrow>
     seed_list_ok h limit ds' \<and> (\<not> full \<longrightarrow> below_caps limit ds')"
proof (induction h limit locs ds rule: collect_urls.induct)
  case (2 h limit loc locs ds)
  show ?case
  proof (cases "normalize_url (trim_space loc) None")
    case (Inl e)
    with 2 show ?thesis by simp
  next
    case (Inr u)
    let ?s = "url_string u" and ?skip = "(h \<noteq> [] \<and> \<not> is_allowed_host h (hostname u)) \<or> url_string u \<in> set ds"
    show ?thesis
    proof (cases ?skip)
      case True
      with Inr 2 show ?thesis by (auto split: if_splits)
    next
      case False
      then have "in_scope h ?s"
        using Inr by (auto simp: in_scope_def)
      with "2.prems" False have ok: "seed_list_ok h limit (ds @ [?s])"
        by (auto simp: seed_list_ok_def below_caps_def)
      show ?thesis
      proof (cases "below_caps limit (ds @ [?s])")
        case True
        with Inr False ok "2.prems" "2.IH"(4) [OF Inr] show ?thesis
          by (auto simp: below_caps_def Let_def)
      next
        case nb: False
        with Inr False "2.prems" have "ds' = ds @ [?s]" "full"
          by (auto simp: below_caps_def Let_def not_less split: if_splits)
        with ok show ?thesis by simp
      qed
    qed
  qed
qed simp

definition docs_ok :: "string list \<Rightarrow> bool" where
  "docs_ok visited = (distinct visited \<and> length visited \<le> max_sitemap_documents)"

lemma discover_loop_ok:
  "discover_loop document h limit pending visited ds = (ds', visited') \<Longrightarrow>
     seed_list_ok h limit ds \<Longrightarrow> below_caps limit ds \<Longrightarrow> docs_ok visited \<Longrightarrow>
     seed_list_ok h limit ds' \<and> docs_ok visited'"
proof (induction document h limit pending visited ds rule: discover_loop.induct)
  case (2 document h limit u pending visited ds)
  show ?case
  proof (cases "length visited < max_sitemap_documents \<and> u \<notin> set visited")
    case False
    with 2 show ?thesis by (auto split: if_splits)
  next
    case True
    then have v: "docs_ok (u # visited)"
      using "2.prems" by (auto simp: docs_ok_def)
    show ?thesis
    proof (cases "document u")
      case None
      with 2 True v show ?thesis by auto
    next
      case (Some doc)
      obtain ds1 full where c: "collect_urls h limit (URLs doc) ds = (ds1, full)"
        by (cases "collect_urls h limit (URLs doc) ds")
      from collect_urls_ok [OF c "2.prems"(2,3)]
      have ok: "seed_list_ok h limit ds1" "\<not> full \<longrightarrow> below_caps limit ds1" by auto
      show ?thesis
      proof (cases full)
        case True
        with \<open>length visited < _ \<and> _\<close> Some c "2.prems" ok v show ?thesis by auto
      next
        case nf: False
        with True Some c "2.prems"(1)
        have run: "discover_loop document h limit (pending @ child_sitemaps doc) (u # visited) ds1
            = (ds', visited')"
          by simp
        show ?thesis
          using "2.IH"(3) [OF _ _ Some c [symmetric] refl] True nf run ok v by auto
      qed
    qed
  qed
qed simp

lemma discover_loop_start:
  "seed_list_ok h limit (fst (discover_loop doc h limit p [] []))
     \<and> docs_ok (snd (discover_loop doc h limit p [] []))"
proof -
  have "seed_list_ok h limit []" "below_caps limit []" "docs_ok []"
    by (auto simp: seed_list_ok_def below_caps_def docs_ok_def max_sitemap_urls_def)
  from discover_loop_ok [OF _ this, of doc p] show ?thesis by (metis prod.collapse)
qed

lemma discover_seed_list_ok: "seed_list_ok h limit (discover_sitemap_urls gz px get root h limit)"
  using discover_loop_start by (auto simp: discover_sitemap_urls_def seed_list_ok_def split: option.splits)

text \<open>
  Sitemap discovery ends and returns a usable seed list whatever the servers answer: at
  most 100 documents are read, and the URLs are pairwise different, in canonical form, within
  the allowed host, at most 50000, and at most \<open>limit\<close> when a limit is set.
\<close>

theorem discover_sitemap_urls_ok:
  "distinct (discover_sitemap_urls gz px get root h limit)
   \<and> length (discover_sitemap_urls gz px get root h limit) \<le> 50000
   \<and> (\<forall>s\<in>set (discover_sitemap_urls gz px get root h limit). in_scope h s)
   \<and> (limit > 0 \<longrightarrow> int (length (discover_sitemap_urls gz px get root h limit)) \<le> limit)
   \<and> length (snd (discover_loop document h limit pending [] [])) \<le> 100"
  using discover_seed_list_ok [of h limit gz px get root] discover_loop_start [of h limit document pending]
  by (auto simp: seed_list_ok_def docs_ok_def max_sitemap_urls_def max_sitemap_documents_def)

theorem discover_sitemap_urls_ok_witness:
  "int (length (discover_sitemap_urls (\<lambda>_. None) (\<lambda>_. None) None None ''example.com'' 5)) \<le> 5"
  using discover_sitemap_urls_ok [of "\<lambda>_. None" "\<lambda>_. None" None None "''example.com''" 5] by simp

end
