(* ===== verification/Baseline.thy ===== *)
theory Baseline
  imports CrawlTypes
begin

text \<open>
  \<open>internal/crawler/incremental.go\<close>: the baseline of an incremental crawl. The SQL rows are
  given as lists (the queries are generated code, and their failures are error results); the
  in-memory maps are partial functions.
\<close>

record baseline_page =
  storedURL :: string
  base_etag :: string
  base_lastModified :: string

record validator_row =
  row_Url :: string
  row_Etag :: "string option"
  row_LastModified :: "string option"

record baseline =
  base_CrawlID :: string
  pages :: "string \<rightharpoonup> baseline_page"
  page_count :: nat
  internalTargetsBySource :: "string \<Rightarrow> string list"

text \<open>\<open>Len\<close>; a nil baseline has no pages. \<open>page_count\<close> is the size of the map \<open>pages\<close>.\<close>

definition baseline_len :: "baseline option \<Rightarrow> nat" where
  "baseline_len b = (case b of None \<Rightarrow> 0 | Some x \<Rightarrow> page_count x)"

definition baseline_lookup :: "baseline option \<Rightarrow> string \<Rightarrow> baseline_page option" where
  "baseline_lookup b jobURL =
     (case b of
        None \<Rightarrow> None
      | Some x \<Rightarrow> if page_count x = 0 then None
                  else (case normalize_url jobURL None of
                          Inl _ \<Rightarrow> None
                        | Inr u \<Rightarrow> pages x (url_string u)))"

definition internal_targets :: "baseline option \<Rightarrow> string \<Rightarrow> string list" where
  "internal_targets b jobURL =
     (case (b, baseline_lookup b jobURL) of
        (Some x, Some page) \<Rightarrow> internalTargetsBySource x (storedURL page)
      | _ \<Rightarrow> [])"

section \<open>Loading\<close>

definition text_or_empty :: "string option \<Rightarrow> string" where
  "text_or_empty t = (case t of None \<Rightarrow> [] | Some s \<Rightarrow> s)"

fun add_validator_rows ::
    "validator_row list \<Rightarrow> (string \<rightharpoonup> baseline_page) \<times> nat \<Rightarrow> (string \<rightharpoonup> baseline_page) \<times> nat" where
  "add_validator_rows [] acc = acc"
| "add_validator_rows (row # rows) (m, n) =
     (case normalize_url (row_Url row) None of
        Inl _ \<Rightarrow> add_validator_rows rows (m, n)
      | Inr u \<Rightarrow>
          add_validator_rows rows
            (m(url_string u \<mapsto> \<lparr>storedURL = row_Url row, base_etag = text_or_empty (row_Etag row),
                               base_lastModified = text_or_empty (row_LastModified row)\<rparr>),
             if m (url_string u) = None then Suc n else n))"

fun group_targets :: "(string \<times> string) list \<Rightarrow> (string \<Rightarrow> string list) \<Rightarrow> string \<Rightarrow> string list" where
  "group_targets [] g = g"
| "group_targets ((source, target) # pairs) g = group_targets pairs (g(source := g source @ [target]))"

text \<open>
  \<open>LoadBaseline\<close>: \<open>crawl_id\<close> answers the baseline query (\<open>Inr None\<close> for no rows), \<open>rows\<close> and
  \<open>links\<close> the two list queries.
\<close>

definition load_baseline ::
    "(string option) result \<Rightarrow> (string \<Rightarrow> (validator_row list) result)
       \<Rightarrow> (string \<Rightarrow> ((string \<times> string) list) result) \<Rightarrow> (baseline option) result" where
  "load_baseline crawl_id rows links =
     (case crawl_id of
        Inl e \<Rightarrow> Inl (''get incremental baseline crawl: '' @ e)
      | Inr None \<Rightarrow> Inr None
      | Inr (Some i) \<Rightarrow>
          (case rows i of
             Inl e \<Rightarrow> Inl (''list page validators for crawl: '' @ e)
           | Inr rs \<Rightarrow>
               (let (m, n) = add_validator_rows rs (Map.empty, 0) in
                if n = 0 then Inr None
                else (case links i of
                        Inl e \<Rightarrow> Inl (''list internal link pairs for crawl: '' @ e)
                      | Inr ls \<Rightarrow> Inr (Some \<lparr>base_CrawlID = i, pages = m, page_count = n,
                          internalTargetsBySource = group_targets ls (\<lambda>_. [])\<rparr>)))))"

section \<open>Properties\<close>

lemma normalized_string_eq:
  "normalized_string s = Some k \<longleftrightarrow> (\<exists>u. normalize_url s None = Inr u \<and> url_string u = k)"
  by (auto simp: normalized_string_def split: sum.splits)

text \<open>Every entry of the map is a row whose URL normalises to the key.\<close>

definition rows_inv :: "(string \<rightharpoonup> baseline_page) \<times> nat \<Rightarrow> bool" where
  "rows_inv mn = (\<forall>k p. fst mn k = Some p \<longrightarrow> normalized_string (storedURL p) = Some k)"

lemma add_validator_rows_inv:
  "rows_inv mn \<Longrightarrow> rows_inv (add_validator_rows rows mn)"
proof (induction rows mn rule: add_validator_rows.induct)
  case (2 row rows m n)
  show ?case
  proof (cases "normalize_url (row_Url row) None")
    case (Inl e)
    with 2 show ?thesis by simp
  next
    case (Inr u)
    then have "normalized_string (row_Url row) = Some (url_string u)"
      by (simp add: normalized_string_eq)
    with "2.prems" have "rows_inv
        (m(url_string u \<mapsto> \<lparr>storedURL = row_Url row, base_etag = text_or_empty (row_Etag row),
             base_lastModified = text_or_empty (row_LastModified row)\<rparr>),
         if m (url_string u) = None then Suc n else n)"
      by (auto simp: rows_inv_def)
    from "2.IH"(2) [OF Inr this] Inr show ?thesis by simp
  qed
qed simp

lemma add_validator_rows_count:
  "finite (dom m) \<Longrightarrow> n = card (dom m) \<Longrightarrow> add_validator_rows rows (m, n) = (m', n') \<Longrightarrow>
     finite (dom m') \<and> n' = card (dom m')"
proof (induction rows arbitrary: m n)
  case (Cons row rows)
  show ?case
  proof (cases "normalize_url (row_Url row) None")
    case (Inl e)
    with Cons show ?thesis by simp
  next
    case (Inr u)
    let ?p = "\<lparr>storedURL = row_Url row, base_etag = text_or_empty (row_Etag row),
             base_lastModified = text_or_empty (row_LastModified row)\<rparr>"
    let ?m = "m(url_string u \<mapsto> ?p)"
    have cnt: "(if m (url_string u) = None then Suc n else n) = card (dom ?m)"
      using Cons.prems(1,2) by (auto simp: card_insert_if domIff)
    have fin: "finite (dom ?m)" using Cons.prems(1) by simp
    have "add_validator_rows rows (?m, if m (url_string u) = None then Suc n else n) = (m', n')"
      using Cons.prems(3) Inr by simp
    from Cons.IH [OF fin cnt this] show ?thesis .
  qed
qed simp

lemma group_targets_eq:
  "group_targets ps g s = g s @ map snd (filter (\<lambda>p. fst p = s) ps)"
  by (induction ps g arbitrary: s rule: group_targets.induct) auto

text \<open>
  A loaded baseline never lends a page's validators or links to another page: an entry
  found for a job URL was stored under a URL with the same canonical form, its links are the
  stored link targets of exactly that page in stored order, and \<open>Len\<close> counts the entries.
\<close>

theorem load_baseline_lookup:
  assumes "load_baseline cid rows links = Inr (Some b)"
    and "baseline_lookup (Some b) job = Some p"
  shows "normalized_string job \<noteq> None \<and> normalized_string (storedURL p) = normalized_string job
    \<and> (\<exists>i ls. links i = Inr ls
         \<and> internal_targets (Some b) job = map snd (filter (\<lambda>l. fst l = storedURL p) ls))
    \<and> baseline_len (Some b) = card (dom (pages b)) \<and> 0 < baseline_len (Some b)"
proof -
  from assms(1) obtain i rs ls m n where l: "links i = Inr ls"
    and mn: "add_validator_rows rs (Map.empty, 0) = (m, n)" and "n \<noteq> 0"
    and b: "b = \<lparr>base_CrawlID = i, pages = m, page_count = n,
                internalTargetsBySource = group_targets ls (\<lambda>_. [])\<rparr>"
    by (auto simp: load_baseline_def split: sum.splits option.splits prod.splits if_splits)
  have "rows_inv (Map.empty, 0)" by (simp add: rows_inv_def)
  from add_validator_rows_inv [OF this, of rs] have inv: "rows_inv (m, n)" by (simp add: mn)
  have cnt: "n = card (dom m)"
    using add_validator_rows_count [OF _ _ mn] by simp
  from assms(2) b obtain u where u: "normalize_url job None = Inr u" "m (url_string u) = Some p"
    by (auto simp: baseline_lookup_def split: if_splits sum.splits)
  with inv have "normalized_string (storedURL p) = Some (url_string u)"
    by (auto simp: rows_inv_def)
  moreover have "normalized_string job = Some (url_string u)"
    using u by (simp add: normalized_string_eq)
  moreover have "internal_targets (Some b) job = map snd (filter (\<lambda>l. fst l = storedURL p) ls)"
    using assms(2) b by (simp add: internal_targets_def group_targets_eq)
  ultimately show ?thesis using l b cnt \<open>n \<noteq> 0\<close> by (auto simp: baseline_len_def)
qed

definition sample_rows :: "validator_row list" where
  "sample_rows = [\<lparr>row_Url = ''https://Example.com'', row_Etag = Some ''v1'', row_LastModified = None\<rparr>]"

theorem load_baseline_lookup_witness:
  "\<exists>b p. load_baseline (Inr (Some ''c'')) (\<lambda>_. Inr sample_rows)
       (\<lambda>_. Inr [(''https://Example.com'', ''https://example.com/a'')]) = Inr (Some b)
     \<and> baseline_lookup (Some b) ''https://example.com/'' = Some p
     \<and> normalized_string (storedURL p) = normalized_string ''https://example.com/''"
proof -
  let ?r = "load_baseline (Inr (Some ''c'')) (\<lambda>_. Inr sample_rows)
       (\<lambda>_. Inr [(''https://Example.com'', ''https://example.com/a'')])"
  have "case ?r of Inr (Some b) \<Rightarrow> baseline_lookup (Some b) ''https://example.com/'' \<noteq> None | _ \<Rightarrow> False"
    by code_simp
  then obtain b p where b: "?r = Inr (Some b)" and p: "baseline_lookup (Some b) ''https://example.com/'' = Some p"
    by (auto split: sum.splits option.splits)
  from load_baseline_lookup [OF b p] b p show ?thesis by blast
qed

end
