(* ===== verification/Frontier.thy ===== *)
theory Frontier
  imports Pool Robots Sitemap Baseline
begin

text \<open>
  The state of one crawl run (the locals of \<open>run\<close> in \<open>internal/crawler/runner.go\<close>) and its
  frontier: \<open>enqueueInternalTarget\<close> and the sitemap seeding loop. Both satisfy the contract of
  the locale \<open>frontier\<close>. Go's \<open>int\<close> counters count pages of one crawl, so they are \<open>int\<close>.
\<close>

section \<open>The runner\<close>

record runner =
  config :: crawler_config
  workerCount :: int
  run_store :: bool               \<comment> \<open>a store is attached\<close>
  run_baseline :: "baseline option"
  deferFinalStatus :: bool

definition new_runner :: "crawler_config \<Rightarrow> int \<Rightarrow> runner" where
  "new_runner cfg workers = \<lparr>config = cfg, workerCount = workers, run_store = False,
     run_baseline = None, deferFinalStatus = False\<rparr>"

definition with_store :: "runner \<Rightarrow> runner" where
  "with_store rn = rn\<lparr>run_store := True\<rparr>"

definition with_deferred_final_status :: "runner \<Rightarrow> runner" where
  "with_deferred_final_status rn = rn\<lparr>deferFinalStatus := True\<rparr>"

definition with_baseline :: "baseline option \<Rightarrow> bool \<Rightarrow> runner \<Rightarrow> runner" where
  \<comment> \<open>the flag says that a baseline store was passed\<close>
  "with_baseline b baselineStore rn =
     (if b = None \<or> baseline_len b = 0 \<or> \<not> baselineStore then rn else rn\<lparr>run_baseline := b\<rparr>)"

section \<open>The state of a run\<close>

record crawl_run_summary =
  URLsDiscovered :: int
  URLsCrawled :: int
  SummaryMaxDepth :: int
  HasLlmsTxt :: "bool option"

text \<open>The calls of the store, in order, each with the error it returned.\<close>

datatype store_call =
    MarkCrawlRunning
  | PersistResults "crawl_result list"
  | PersistReusedResults "crawl_result list"
  | UpdateCrawlProgress int int
  | MarkCrawlFailed int int int string
  | MarkCrawlCompleted int int int "bool option"

datatype run_return = Returned crawl_run_summary "string option"

text \<open>What stays fixed during the loop.\<close>

record run_ctx =
  the_runner :: runner
  shouldPersist :: bool
  rootString :: string
  robotsRules :: "robots_rules option"
  hasLlmsTxt :: "bool option"
  softNotFoundFingerprint :: "soft_not_found_fingerprint option"
  sha256 :: "string \<Rightarrow> string"

abbreviation ctx_config :: "run_ctx \<Rightarrow> crawler_config" where
  "ctx_config ctx \<equiv> config (the_runner ctx)"

record run_state =
  seenURLs :: "string set"
  processedPageURLs :: "string set"
  scheduledPages :: int
  activeJobs :: int
  urlsCrawled :: int
  urlsRendered :: int
  urlsWouldHaveRendered :: int
  urlsReused :: int
  urlsSkippedNon2xx :: int
  urlsSoftNotFound :: int
  urlsExcluded :: int
  robotsSkipped :: int
  maxDepthReached :: int
  pendingQueue :: "crawl_job list"
  crawlResults :: "crawl_result list"
  pendingFetched :: "crawl_result list"
  pendingReused :: "crawl_result list"
  calls :: "(store_call \<times> string option) list"
  runCancelled :: bool
  returned :: "run_return option"

definition new_job :: "string \<Rightarrow> int \<Rightarrow> crawl_job" where
  "new_job u depth = \<lparr>job_URL = u, job_Depth = depth, job_ETag = [], job_LastModified = []\<rparr>"

text \<open>A queued job carries no validators yet.\<close>

definition plain_job :: "crawl_job \<Rightarrow> bool" where
  "plain_job j = (job_ETag j = [] \<and> job_LastModified j = [])"

lemma new_job_simps [simp]:
  "job_URL (new_job u d) = u" "job_Depth (new_job u d) = d" "plain_job (new_job u d)"
  by (simp_all add: new_job_def plain_job_def)

text \<open>The locals before the loop: the root and its \<open>/llms.txt\<close> are seen.\<close>

definition initial_run_state :: "url \<Rightarrow> run_state" where
  "initial_run_state root =
     \<lparr>seenURLs = {url_string root, Scheme root @ ''://'' @ Host root @ ''/llms.txt''},
      processedPageURLs = {}, scheduledPages = 1, activeJobs = 0, urlsCrawled = 0,
      urlsRendered = 0, urlsWouldHaveRendered = 0, urlsReused = 0, urlsSkippedNon2xx = 0,
      urlsSoftNotFound = 0, urlsExcluded = 0, robotsSkipped = 0, maxDepthReached = 0,
      pendingQueue = [new_job (url_string root) 0], crawlResults = [], pendingFetched = [],
      pendingReused = [], calls = [], runCancelled = False, returned = None\<rparr>"

section \<open>Adding to the frontier\<close>

definition cap_reached :: "crawler_config \<Rightarrow> run_state \<Rightarrow> bool" where
  "cap_reached cfg st = (MaxPages cfg > 0 \<and> scheduledPages st \<ge> MaxPages cfg)"

definition schedule_page :: "string \<Rightarrow> int \<Rightarrow> run_state \<Rightarrow> run_state" where
  "schedule_page u depth st =
     st\<lparr>seenURLs := insert u (seenURLs st), scheduledPages := scheduledPages st + 1,
        pendingQueue := pendingQueue st @ [new_job u depth]\<rparr>"

definition enqueue_internal_target :: "crawler_config \<Rightarrow> string \<Rightarrow> int \<Rightarrow> run_state \<Rightarrow> run_state" where
  "enqueue_internal_target cfg target childDepth st =
     (if cap_reached cfg st then st
      else case normalize_url target None of
        Inl _ \<Rightarrow> st
      | Inr u \<Rightarrow>
          if AllowedHost cfg \<noteq> [] \<and> \<not> is_allowed_host (AllowedHost cfg) (hostname u) then st
          else if excludes (ExcludedURLs cfg) (url_string u)
          then st\<lparr>urlsExcluded := urlsExcluded st + 1\<rparr>
          else if url_string u \<in> seenURLs st then st
          else schedule_page (url_string u) childDepth st)"

definition enqueue_targets :: "crawler_config \<Rightarrow> int \<Rightarrow> string list \<Rightarrow> run_state \<Rightarrow> run_state" where
  "enqueue_targets cfg childDepth targets st =
     fold (\<lambda>t. enqueue_internal_target cfg t childDepth) targets st"

text \<open>The seeding loop; reaching the page cap breaks out of it.\<close>

fun seed_sitemap_urls :: "crawler_config \<Rightarrow> string list \<Rightarrow> run_state \<Rightarrow> run_state" where
  "seed_sitemap_urls cfg [] st = st"
| "seed_sitemap_urls cfg (u # us) st =
     (if cap_reached cfg st then st
      else if u \<in> seenURLs st then seed_sitemap_urls cfg us st
      else if excludes (ExcludedURLs cfg) u
      then seed_sitemap_urls cfg us (st\<lparr>urlsExcluded := urlsExcluded st + 1\<rparr>)
      else seed_sitemap_urls cfg us (schedule_page u 0 st))"

text \<open>One round of the seeding loop, for the contract below.\<close>

definition seed_one :: "crawler_config \<Rightarrow> string \<Rightarrow> run_state \<Rightarrow> run_state" where
  "seed_one cfg u st =
     (if cap_reached cfg st \<or> u \<in> seenURLs st then st
      else if excludes (ExcludedURLs cfg) u then st\<lparr>urlsExcluded := urlsExcluded st + 1\<rparr>
      else schedule_page u 0 st)"

section \<open>The contract of a frontier\<close>

text \<open>
  \<open>add\<close> either changes nothing about the frontier or appends one admissible, unseen URL below
  the cap; in both cases the rest of the state keeps.
\<close>

locale frontier =
  fixes seen :: "'s \<Rightarrow> string set"
    and queue :: "'s \<Rightarrow> crawl_job list"
    and count :: "'s \<Rightarrow> int"
    and rest :: "'s \<Rightarrow> 'r"
    and add :: "'a \<Rightarrow> 's \<Rightarrow> 's"
    and valid :: "'a \<Rightarrow> bool"
    and admissible :: "string \<Rightarrow> bool"
    and depth_of :: "'a \<Rightarrow> int"
    and limit :: int
  assumes add_cases: "valid a \<Longrightarrow>
      (seen (add a s) = seen s \<and> queue (add a s) = queue s \<and> count (add a s) = count s)
      \<or> (\<exists>u. u \<notin> seen s \<and> admissible u \<and> (limit > 0 \<longrightarrow> count s < limit)
            \<and> seen (add a s) = insert u (seen s)
            \<and> queue (add a s) = queue s @ [new_job u (depth_of a)]
            \<and> count (add a s) = count s + 1)"
    and add_rest: "rest (add a s) = rest s"
begin

definition add_all :: "'a list \<Rightarrow> 's \<Rightarrow> 's" where
  "add_all as s = fold add as s"

text \<open>
  Everything a sequence of additions does: it appends jobs for new, pairwise different,
  admissible URLs at the given depths, and never passes the cap.
\<close>

lemma add_all_spec:
  "\<forall>a\<in>set as. valid a \<and> P (depth_of a) \<Longrightarrow>
     \<exists>new. queue (add_all as s) = queue s @ new
       \<and> seen (add_all as s) = seen s \<union> job_URL ` set new
       \<and> count (add_all as s) = count s + int (length new)
       \<and> distinct (map job_URL new) \<and> job_URL ` set new \<inter> seen s = {}
       \<and> (\<forall>j\<in>set new. admissible (job_URL j) \<and> P (job_Depth j) \<and> plain_job j)
       \<and> (limit > 0 \<longrightarrow> new \<noteq> [] \<longrightarrow> count s + int (length new) \<le> limit)"
proof (induction "as" arbitrary: s)
  case (Cons a as)
  from Cons.IH [of "add a s"] Cons.prems obtain new where
    n: "queue (add_all as (add a s)) = queue (add a s) @ new"
      "seen (add_all as (add a s)) = seen (add a s) \<union> job_URL ` set new"
      "count (add_all as (add a s)) = count (add a s) + int (length new)"
      "distinct (map job_URL new)" "job_URL ` set new \<inter> seen (add a s) = {}"
      "\<forall>j\<in>set new. admissible (job_URL j) \<and> P (job_Depth j) \<and> plain_job j"
      "limit > 0 \<longrightarrow> new \<noteq> [] \<longrightarrow> count (add a s) + int (length new) \<le> limit"
    by auto
  have step: "add_all (a # as) s = add_all as (add a s)" by (simp add: add_all_def)
  from Cons.prems have v: "valid a" "P (depth_of a)" by auto
  from add_cases [OF v(1), of s] show ?case
  proof (elim disjE exE)
    assume "seen (add a s) = seen s \<and> queue (add a s) = queue s \<and> count (add a s) = count s"
    with n step show ?thesis by (intro exI [of _ new]) auto
  next
    fix u
    assume u: "u \<notin> seen s \<and> admissible u \<and> (limit > 0 \<longrightarrow> count s < limit)
            \<and> seen (add a s) = insert u (seen s)
            \<and> queue (add a s) = queue s @ [new_job u (depth_of a)]
            \<and> count (add a s) = count s + 1"
    with n step v show ?thesis
      by (intro exI [of _ "new_job u (depth_of a) # new"]) auto
  qed
qed (auto simp: add_all_def)

lemma add_all_rest: "rest (add_all as s) = rest s"
  by (induction "as" arbitrary: s) (auto simp: add_all_def add_rest)

end

text \<open>A URL the run may crawl besides the root: in scope and not excluded.\<close>

definition admissible_url :: "crawler_config \<Rightarrow> string \<Rightarrow> bool" where
  "admissible_url cfg u = (in_scope (AllowedHost cfg) u \<and> \<not> excludes (ExcludedURLs cfg) u)"

text \<open>The part of the state that adding to the frontier leaves alone.\<close>

definition run_rest :: "run_state \<Rightarrow> run_state" where
  "run_rest st = st\<lparr>seenURLs := {}, scheduledPages := 0, pendingQueue := [], urlsExcluded := 0\<rparr>"

lemma enqueue_internal_target_cases:
  "(seenURLs (enqueue_internal_target cfg t d s) = seenURLs s
      \<and> pendingQueue (enqueue_internal_target cfg t d s) = pendingQueue s
      \<and> scheduledPages (enqueue_internal_target cfg t d s) = scheduledPages s)
   \<or> (\<exists>u. u \<notin> seenURLs s \<and> admissible_url cfg u \<and> (MaxPages cfg > 0 \<longrightarrow> scheduledPages s < MaxPages cfg)
        \<and> enqueue_internal_target cfg t d s = schedule_page u d s)"
proof (cases "normalize_url t None")
  case (Inl e)
  then show ?thesis by (simp add: enqueue_internal_target_def)
next
  case (Inr u)
  show ?thesis
  proof (cases "\<not> cap_reached cfg s \<and> (AllowedHost cfg = [] \<or> is_allowed_host (AllowedHost cfg) (hostname u))
      \<and> \<not> excludes (ExcludedURLs cfg) (url_string u) \<and> url_string u \<notin> seenURLs s")
    case False
    with Inr show ?thesis by (auto simp: enqueue_internal_target_def)
  next
    case True
    with Inr have "enqueue_internal_target cfg t d s = schedule_page (url_string u) d s"
      by (auto simp: enqueue_internal_target_def)
    moreover have "in_scope (AllowedHost cfg) (url_string u)"
      using True Inr by (auto simp: in_scope_def)
    ultimately show ?thesis
      using True by (auto simp: admissible_url_def cap_reached_def)
  qed
qed

interpretation link_frontier: frontier seenURLs pendingQueue scheduledPages run_rest
    "\<lambda>(t, d). enqueue_internal_target cfg t d" "\<lambda>_. True" "admissible_url cfg" snd "MaxPages cfg" for cfg
proof
  fix a :: "string \<times> int" and s :: run_state
  obtain t d where a: "a = (t, d)" by (cases a)
  note enqueue_internal_target_cases [of cfg t d s]
  then show "(seenURLs ((case a of (t, d) \<Rightarrow> enqueue_internal_target cfg t d) s) = seenURLs s \<and>
        pendingQueue ((case a of (t, d) \<Rightarrow> enqueue_internal_target cfg t d) s) = pendingQueue s \<and>
        scheduledPages ((case a of (t, d) \<Rightarrow> enqueue_internal_target cfg t d) s) = scheduledPages s) \<or>
       (\<exists>u. u \<notin> seenURLs s \<and> admissible_url cfg u \<and> (0 < MaxPages cfg \<longrightarrow> scheduledPages s < MaxPages cfg)
          \<and> seenURLs ((case a of (t, d) \<Rightarrow> enqueue_internal_target cfg t d) s) = insert u (seenURLs s)
          \<and> pendingQueue ((case a of (t, d) \<Rightarrow> enqueue_internal_target cfg t d) s)
              = pendingQueue s @ [new_job u (snd a)]
          \<and> scheduledPages ((case a of (t, d) \<Rightarrow> enqueue_internal_target cfg t d) s)
              = scheduledPages s + 1)"
    by (auto simp: a schedule_page_def)
  show "run_rest ((case a of (t, d) \<Rightarrow> enqueue_internal_target cfg t d) s) = run_rest s"
    by (auto simp: a enqueue_internal_target_def schedule_page_def run_rest_def split: sum.splits)
qed

interpretation sitemap_frontier: frontier seenURLs pendingQueue scheduledPages run_rest
    "seed_one cfg" "in_scope (AllowedHost cfg)" "admissible_url cfg" "\<lambda>_. 0" "MaxPages cfg" for cfg
  by unfold_locales
    (auto simp: seed_one_def schedule_page_def cap_reached_def admissible_url_def run_rest_def)

lemma enqueue_targets_add_all:
  "enqueue_targets cfg d ts st = link_frontier.add_all cfg (map (\<lambda>t. (t, d)) ts) st"
  unfolding enqueue_targets_def link_frontier.add_all_def
  by (induction ts arbitrary: st) auto

lemma seed_one_stop: "cap_reached cfg st \<Longrightarrow> fold (seed_one cfg) us st = st"
  by (induction us) (auto simp: seed_one_def)

lemma seed_sitemap_urls_add_all:
  "seed_sitemap_urls cfg us st = sitemap_frontier.add_all cfg us st"
  unfolding sitemap_frontier.add_all_def
proof (induction cfg us st rule: seed_sitemap_urls.induct)
  case (2 cfg u us st)
  have "fold (seed_one cfg) (u # us) st = fold (seed_one cfg) us (seed_one cfg u st)" by simp
  also have "\<dots> = seed_sitemap_urls cfg (u # us) st"
    using 2 by (auto simp: seed_one_def [of cfg u st] seed_one_stop)
  finally show ?case by simp
qed simp

text \<open>
  Expanding the frontier with a page's link targets only ever appends jobs, and each new
  job is for a URL that is in the allowed host, matches no exclusion, was never seen before
  and differs from the other new ones; the new jobs have the child depth, the page count goes
  up by exactly their number and does not pass a positive page cap, and nothing else of the
  run changes except the count of excluded URLs.
\<close>

theorem enqueue_targets_appends_new:
  "\<exists>new. pendingQueue (enqueue_targets cfg d ts st) = pendingQueue st @ new
     \<and> seenURLs (enqueue_targets cfg d ts st) = seenURLs st \<union> job_URL ` set new
     \<and> scheduledPages (enqueue_targets cfg d ts st) = scheduledPages st + int (length new)
     \<and> distinct (map job_URL new) \<and> job_URL ` set new \<inter> seenURLs st = {}
     \<and> (\<forall>j\<in>set new. admissible_url cfg (job_URL j) \<and> job_Depth j = d)
     \<and> (MaxPages cfg > 0 \<longrightarrow> new \<noteq> [] \<longrightarrow> scheduledPages st + int (length new) \<le> MaxPages cfg)
     \<and> run_rest (enqueue_targets cfg d ts st) = run_rest st"
  using link_frontier.add_all_spec [of "map (\<lambda>t. (t, d)) ts" "\<lambda>x. x = d" cfg st]
  by (auto simp: enqueue_targets_add_all link_frontier.add_all_rest)

definition sample_config :: crawler_config where
  "sample_config = \<lparr>AllowedHost = ''a.com'', MaxDepth = 2, MaxPages = 3, FetchTimeout = 0,
     RequestDelay = 0, RequestJitter = 0, UserAgent = [], ForceFullCrawl = False,
     HonourRobotsTxt = False, SkipSitemapSeed = True, RenderJavaScript = False, ExcludedURLs = []\<rparr>"

theorem enqueue_targets_appends_new_witness:
  "\<exists>root new. normalize_url ''https://a.com/'' None = Inr root
     \<and> pendingQueue (enqueue_targets sample_config 1 [''https://a.com/b'', ''https://z.org/'', ''https://a.com/b'']
          (initial_run_state root)) = pendingQueue (initial_run_state root) @ new
     \<and> map job_URL new = [''https://a.com/b''] \<and> 1 + int (length new) \<le> 3"
proof -
  let ?ts = "[''https://a.com/b'', ''https://z.org/'', ''https://a.com/b'']"
  have "(case normalize_url ''https://a.com/'' None of Inl _ \<Rightarrow> False
      | Inr root \<Rightarrow> map job_URL (pendingQueue (enqueue_targets sample_config 1 ?ts (initial_run_state root)))
          = [''https://a.com/'', ''https://a.com/b''])"
    by code_simp
  then obtain root where r: "normalize_url ''https://a.com/'' None = Inr root"
    and q: "map job_URL (pendingQueue (enqueue_targets sample_config 1 ?ts (initial_run_state root)))
          = [''https://a.com/'', ''https://a.com/b'']"
    by (auto split: sum.splits)
  from enqueue_targets_appends_new [of sample_config 1 ?ts "initial_run_state root"] obtain new where
    n: "pendingQueue (enqueue_targets sample_config 1 ?ts (initial_run_state root))
          = pendingQueue (initial_run_state root) @ new"
      "MaxPages sample_config > 0 \<longrightarrow> new \<noteq> [] \<longrightarrow>
         scheduledPages (initial_run_state root) + int (length new) \<le> MaxPages sample_config"
    by blast
  from q n(1) have "map job_URL new = [''https://a.com/b'']"
    by (simp add: initial_run_state_def new_job_def)
  with n r show ?thesis
    by (auto simp: sample_config_def initial_run_state_def)
qed

end
