(* ===== verification/Runner.thy ===== *)
theory Runner
  imports Frontier
begin

text \<open>
  The loop of \<open>run\<close> in \<open>internal/crawler/runner.go\<close> as operations on the run state: choosing
  the next job, handling one result, the three ways the loop ends, and the start of the run.
  Each operation takes what the store answered as an argument. \<open>time\<close> and log lines are left
  out; whether the two seconds between progress writes have passed is an input.
\<close>

text \<open>The answers the store would give to the calls one handler may make.\<close>

record store_answers =
  progress_due :: bool
  progress_answer :: "bool result"      \<comment> \<open>is the crawl row still running\<close>
  flush_error :: "string option"
  mark_failed_error :: "string option"

section \<open>The next job\<close>

definition robots_allowed :: "robots_rules option \<Rightarrow> string \<Rightarrow> bool" where
  "robots_allowed rules target =
     (case rules of
        None \<Rightarrow> True
      | Some r \<Rightarrow>
          (case url_parse target of
             Inl _ \<Rightarrow> True
           | Inr u \<Rightarrow> request_uri u = [] \<or> robots_allow (Some r) (request_uri u)))"

definition may_dispatch :: "run_ctx \<Rightarrow> string \<Rightarrow> bool" where
  "may_dispatch ctx u =
     (robots_allowed (robotsRules ctx) u \<and> \<not> excludes (ExcludedURLs (ctx_config ctx)) u)"

text \<open>The head of the queue is dropped while robots.txt or an exclusion forbids it.\<close>

fun settle_queue :: "run_ctx \<Rightarrow> crawl_job list \<Rightarrow> run_state \<Rightarrow> run_state" where
  "settle_queue ctx [] st = st\<lparr>pendingQueue := []\<rparr>"
| "settle_queue ctx (job # js) st =
     (if \<not> robots_allowed (robotsRules ctx) (job_URL job)
      then settle_queue ctx js (st\<lparr>robotsSkipped := robotsSkipped st + 1\<rparr>)
      else if excludes (ExcludedURLs (ctx_config ctx)) (job_URL job)
      then settle_queue ctx js (st\<lparr>urlsExcluded := urlsExcluded st + 1\<rparr>)
      else st\<lparr>pendingQueue := job # js\<rparr>)"

definition settle :: "run_ctx \<Rightarrow> run_state \<Rightarrow> run_state" where
  "settle ctx st = settle_queue ctx (pendingQueue st) st"

definition attach_validators :: "run_ctx \<Rightarrow> crawl_job \<Rightarrow> crawl_job" where
  "attach_validators ctx job =
     (case baseline_lookup (run_baseline (the_runner ctx)) (job_URL job) of
        None \<Rightarrow> job
      | Some page \<Rightarrow> job\<lparr>job_ETag := base_etag page, job_LastModified := base_lastModified page\<rparr>)"

definition loop_done :: "run_state \<Rightarrow> bool" where
  "loop_done st = (pendingQueue st = [] \<and> activeJobs st \<le> 0)"

text \<open>The send on \<open>jobs\<close>: the job sent and the state after it.\<close>

definition dispatch :: "run_ctx \<Rightarrow> run_state \<Rightarrow> (crawl_job \<times> run_state) option" where
  "dispatch ctx st =
     (case pendingQueue (settle ctx st) of
        [] \<Rightarrow> None
      | job # js \<Rightarrow> Some (attach_validators ctx job,
          (settle ctx st)\<lparr>pendingQueue := js, activeJobs := activeJobs st + 1\<rparr>))"

section \<open>Store calls\<close>

definition log_call :: "store_call \<Rightarrow> string option \<Rightarrow> run_state \<Rightarrow> run_state" where
  "log_call c err st = st\<lparr>calls := calls st @ [(c, err)]\<rparr>"

definition summary_of :: "run_state \<Rightarrow> bool option \<Rightarrow> crawl_run_summary" where
  "summary_of st llms = \<lparr>URLsDiscovered = scheduledPages st, URLsCrawled = urlsCrawled st,
     SummaryMaxDepth = maxDepthReached st, HasLlmsTxt = llms\<rparr>"

definition return_run :: "bool option \<Rightarrow> string option \<Rightarrow> run_state \<Rightarrow> run_state" where
  "return_run llms err st = st\<lparr>returned := Some (Returned (summary_of st llms) err)\<rparr>"

text \<open>
  Every failing exit: the crawl is marked failed with the reason (when persisting), and the
  error returned says so when even that failed.
\<close>

definition fail_run :: "run_ctx \<Rightarrow> string \<Rightarrow> string \<Rightarrow> string option \<Rightarrow> run_state \<Rightarrow> run_state" where
  "fail_run ctx prefix reason markErr st =
     (if shouldPersist ctx
      then return_run None
             (Some (prefix @ reason
                @ (case markErr of None \<Rightarrow> []
                   | Some e \<Rightarrow> '' (also failed to mark crawl failed: '' @ e @ '')'')))
             (log_call (MarkCrawlFailed (scheduledPages st) (urlsCrawled st) (maxDepthReached st) reason)
                markErr st)
      else return_run None (Some (prefix @ reason)) st)"

definition cancel_run :: "run_state \<Rightarrow> run_state" where
  "cancel_run st = st\<lparr>runCancelled := True\<rparr>"

definition maybe_write_progress :: "run_ctx \<Rightarrow> store_answers \<Rightarrow> run_state \<Rightarrow> run_state" where
  "maybe_write_progress ctx ans st =
     (if \<not> shouldPersist ctx \<or> \<not> progress_due ans then st
      else (case progress_answer ans of
              Inl e \<Rightarrow> log_call (UpdateCrawlProgress (urlsCrawled st) (scheduledPages st)) (Some e) st
            | Inr stillRunning \<Rightarrow>
                (let st' = log_call (UpdateCrawlProgress (urlsCrawled st) (scheduledPages st)) None st
                 in if stillRunning then st' else cancel_run st')))"

definition persist_batch_size :: nat where "persist_batch_size = 50"

definition flush_fetched :: "string option \<Rightarrow> run_state \<Rightarrow> run_state \<times> string option" where
  "flush_fetched err st =
     (if pendingFetched st = [] then (st, None)
      else ((log_call (PersistResults (pendingFetched st)) err st)\<lparr>pendingFetched := []\<rparr>, err))"

definition flush_reused :: "string option \<Rightarrow> run_state \<Rightarrow> run_state \<times> string option" where
  "flush_reused err st =
     (if pendingReused st = [] then (st, None)
      else ((log_call (PersistReusedResults (pendingReused st)) err st)\<lparr>pendingReused := []\<rparr>, err))"

section \<open>One result\<close>

definition light_result :: "run_ctx \<Rightarrow> crawl_result \<Rightarrow> crawl_result" where
  "light_result ctx r =
     (if shouldPersist ctx then r\<lparr>Fetch := (Fetch r)\<lparr>Body := []\<rparr>, ParsedPage := None\<rparr> else r)"

definition note_result :: "run_ctx \<Rightarrow> crawl_result \<Rightarrow> run_state \<Rightarrow> run_state" where
  "note_result ctx r st =
     st\<lparr>activeJobs := activeJobs st - 1, crawlResults := crawlResults st @ [light_result ctx r]\<rparr>"

definition mark_processed :: "string \<Rightarrow> run_state \<Rightarrow> run_state" where
  "mark_processed u st = st\<lparr>processedPageURLs := insert u (processedPageURLs st),
                            seenURLs := insert u (seenURLs st)\<rparr>"

text \<open>The canonical URL of a result's page and whether it was processed before.\<close>

definition is_duplicate :: "crawl_result \<Rightarrow> run_state \<Rightarrow> bool" where
  "is_duplicate r st =
     (case normalize_url (crawl_page_url r) None of
        Inl _ \<Rightarrow> False | Inr u \<Rightarrow> url_string u \<in> processedPageURLs st)"

definition note_processed :: "crawl_result \<Rightarrow> run_state \<Rightarrow> run_state" where
  "note_processed r st =
     (case normalize_url (crawl_page_url r) None of
        Inl _ \<Rightarrow> st | Inr u \<Rightarrow> mark_processed (url_string u) st)"

definition buffer_reused :: "crawl_result \<Rightarrow> string option \<Rightarrow> run_state \<Rightarrow> run_state \<times> string option" where
  "buffer_reused r err st =
     (let st' = st\<lparr>pendingReused := pendingReused st @ [r]\<rparr> in
      if length (pendingReused st') \<ge> persist_batch_size then flush_reused err st' else (st', None))"

definition buffer_fetched :: "crawl_result \<Rightarrow> string option \<Rightarrow> run_state \<Rightarrow> run_state \<times> string option" where
  "buffer_fetched r err st =
     (let st' = st\<lparr>pendingFetched := pendingFetched st @ [r\<lparr>Fetch := (Fetch r)\<lparr>Body := []\<rparr>\<rparr>]\<rparr> in
      if length (pendingFetched st') \<ge> persist_batch_size then flush_fetched err st' else (st', None))"

text \<open>Only a persisting run keeps pages for the store.\<close>

definition save_reused ::
    "run_ctx \<Rightarrow> crawl_result \<Rightarrow> string option \<Rightarrow> run_state \<Rightarrow> run_state \<times> string option" where
  "save_reused ctx r err st = (if shouldPersist ctx then buffer_reused r err st else (st, None))"

definition save_fetched ::
    "run_ctx \<Rightarrow> crawl_result \<Rightarrow> string option \<Rightarrow> run_state \<Rightarrow> run_state \<times> string option" where
  "save_fetched ctx r err st = (if shouldPersist ctx then buffer_fetched r err st else (st, None))"

definition count_reused :: "crawl_result \<Rightarrow> run_state \<Rightarrow> run_state" where
  "count_reused r st =
     st\<lparr>urlsCrawled := urlsCrawled st + 1, urlsReused := urlsReused st + 1,
        maxDepthReached := max (maxDepthReached st) (job_Depth (Job r))\<rparr>"

definition expand_reused :: "run_ctx \<Rightarrow> crawl_result \<Rightarrow> run_state \<Rightarrow> run_state" where
  "expand_reused ctx r st =
     (if job_Depth (Job r) < MaxDepth (ctx_config ctx)
      then enqueue_targets (ctx_config ctx) (job_Depth (Job r) + 1)
             (internal_targets (run_baseline (the_runner ctx)) (job_URL (Job r))) st
      else st)"

text \<open>A 304 with a baseline: the page is carried over from the baseline crawl.\<close>

definition handle_not_modified :: "run_ctx \<Rightarrow> store_answers \<Rightarrow> crawl_result \<Rightarrow> run_state \<Rightarrow> run_state" where
  "handle_not_modified ctx ans r st =
     (if is_duplicate r st then maybe_write_progress ctx ans st
      else (let st1 = count_reused r (note_processed r st);
                (st2, err) = save_reused ctx r (flush_error ans) st1
            in case err of
                 Some e \<Rightarrow> fail_run ctx ''persist reused crawl results: '' e (mark_failed_error ans)
                             (cancel_run st2)
               | None \<Rightarrow> maybe_write_progress ctx ans (expand_reused ctx r st2)))"

definition is_soft_not_found :: "run_ctx \<Rightarrow> crawl_result \<Rightarrow> bool" where
  "is_soft_not_found ctx r =
     (fingerprint_matches (sha256 ctx) (softNotFoundFingerprint ctx) (ParsedPage r)
      \<or> looks_like_soft_not_found (ParsedPage r))"

text \<open>The soft-404 mark and the counters of a fetched page.\<close>

definition classify_page :: "run_ctx \<Rightarrow> crawl_result \<Rightarrow> crawl_result" where
  "classify_page ctx r =
     (if is_non_2xx (StatusCode (Fetch r)) then r
      else if is_soft_not_found ctx r then r\<lparr>SoftNotFound := True\<rparr> else r)"

definition count_page :: "run_ctx \<Rightarrow> crawl_result \<Rightarrow> run_state \<Rightarrow> run_state" where
  "count_page ctx r st =
     (let non2xx = is_non_2xx (StatusCode (Fetch r)) in
      st\<lparr>urlsSkippedNon2xx := urlsSkippedNon2xx st + (if non2xx then 1 else 0),
         urlsSoftNotFound := urlsSoftNotFound st
           + (if \<not> non2xx \<and> is_soft_not_found ctx r then 1 else 0),
         urlsCrawled := urlsCrawled st + 1,
         urlsRendered := urlsRendered st + (if JavascriptRendered r then 1 else 0),
         urlsWouldHaveRendered := urlsWouldHaveRendered st + (if WouldHaveRendered r then 1 else 0),
         maxDepthReached := max (maxDepthReached st) (job_Depth (Job r))\<rparr>)"

definition expand_page :: "run_ctx \<Rightarrow> crawl_result \<Rightarrow> run_state \<Rightarrow> run_state" where
  \<comment> \<open>for a page that is not a duplicate\<close>
  "expand_page ctx r st =
     (case ParsedPage r of
        None \<Rightarrow> st
      | Some page \<Rightarrow>
          if \<not> SoftNotFound r \<and> ProcessErr r = None \<and> job_Depth (Job r) < MaxDepth (ctx_config ctx)
          then enqueue_targets (ctx_config ctx) (job_Depth (Job r) + 1)
                 (map TargetURL (filter IsInternal (Links page))) st
          else st)"

definition handle_page :: "run_ctx \<Rightarrow> store_answers \<Rightarrow> crawl_result \<Rightarrow> run_state \<Rightarrow> run_state" where
  "handle_page ctx ans r0 st =
     (let r = classify_page ctx r0;
          st1 = maybe_write_progress ctx ans (count_page ctx r0 st)
      in if is_duplicate r st1 then st1
         else (let st2 = note_processed r st1;
                   (st3, err) = save_fetched ctx r (flush_error ans) st2
               in case err of
                    Some e \<Rightarrow> fail_run ctx ''persist crawl results: '' e (mark_failed_error ans)
                                (cancel_run st3)
                  | None \<Rightarrow> expand_page ctx r st3))"

definition receive :: "run_ctx \<Rightarrow> store_answers \<Rightarrow> crawl_result \<Rightarrow> run_state \<Rightarrow> run_state" where
  "receive ctx ans r st =
     (let st' = note_result ctx r st in
      if ResultNotModified r \<and> run_baseline (the_runner ctx) = None
      then maybe_write_progress ctx ans (st'\<lparr>urlsSkippedNon2xx := urlsSkippedNon2xx st' + 1\<rparr>)
      else if ResultNotModified r then handle_not_modified ctx ans r st'
      else handle_page ctx ans r st')"

section \<open>The ends of the loop\<close>

definition pool_closed_exit :: "run_ctx \<Rightarrow> string option \<Rightarrow> run_state \<Rightarrow> run_state" where
  "pool_closed_exit ctx markErr st = fail_run ctx [] ''worker pool closed unexpectedly'' markErr st"

definition cancelled_exit :: "run_ctx \<Rightarrow> string \<Rightarrow> string option \<Rightarrow> run_state \<Rightarrow> run_state" where
  \<comment> \<open>\<open>reason\<close> is \<open>runContext.Err()\<close>\<close>
  "cancelled_exit ctx reason markErr st = fail_run ctx ''crawl canceled: '' reason markErr st"

record finish_answers =
  fetched_error :: "string option"
  reused_error :: "string option"
  finish_mark_error :: "string option"
  complete_error :: "string option"

definition complete_run :: "run_ctx \<Rightarrow> string option \<Rightarrow> run_state \<Rightarrow> run_state" where
  "complete_run ctx err st =
     (if shouldPersist ctx \<and> \<not> deferFinalStatus (the_runner ctx)
      then return_run (hasLlmsTxt ctx) (map_option (\<lambda>e. ''mark crawl completed: '' @ e) err)
             (log_call (MarkCrawlCompleted (scheduledPages st) (urlsCrawled st) (maxDepthReached st)
                (hasLlmsTxt ctx)) err st)
      else return_run (hasLlmsTxt ctx) None st)"

definition finish_run :: "run_ctx \<Rightarrow> finish_answers \<Rightarrow> run_state \<Rightarrow> run_state" where
  "finish_run ctx ans st =
     (if shouldPersist ctx
      then (let (st1, e1) = flush_fetched (fetched_error ans) st in
            case e1 of
              Some e \<Rightarrow> fail_run ctx ''persist crawl results: '' e (finish_mark_error ans) (cancel_run st1)
            | None \<Rightarrow>
                (let (st2, e2) = flush_reused (reused_error ans) st1 in
                 case e2 of
                   Some e \<Rightarrow> fail_run ctx ''persist reused crawl results: '' e (finish_mark_error ans)
                               (cancel_run st2)
                 | None \<Rightarrow> complete_run ctx (complete_error ans) st2))
      else complete_run ctx (complete_error ans) st)"

section \<open>The start of a run\<close>

text \<open>
  The requests made before the loop, each answered at its own time; a nil fetcher is
  \<open>has_fetcher = False\<close> (the soft-404 probe, which has no nil check, needs a fetcher).
\<close>

record start_env =
  has_fetcher :: bool
  get_robots :: "string \<Rightarrow> fetch_result"
  get_sitemap :: "string \<Rightarrow> fetch_result"
  get_llms :: "string \<Rightarrow> fetch_result"
  get_probe :: "string \<Rightarrow> fetch_result"
  gunzip_fn :: "string \<Rightarrow> string option"
  parse_xml_fn :: "string \<Rightarrow> sitemap_document option"
  parse_html_fn :: "string \<Rightarrow> string \<Rightarrow> string \<Rightarrow> parsed_page result"
  parse_duration_fn :: "string \<Rightarrow> int option"
  sha256_fn :: "string \<Rightarrow> string"
  probe_token :: "string option"
  mark_running_error :: "string option"
  root_mark_error :: "string option"

definition llms_url :: "url \<Rightarrow> string" where
  "llms_url root = Scheme root @ ''://'' @ Host root @ ''/llms.txt''"

definition probe_llms :: "crawler_config \<Rightarrow> start_env \<Rightarrow> url \<Rightarrow> bool option" where
  "probe_llms cfg env root =
     (if has_fetcher env \<and> \<not> excludes (ExcludedURLs cfg) (llms_url root)
      then (let r = get_llms env (llms_url root) in
            Some (FetchError r = None \<and> StatusCode r = 200 \<and> trim_space (Body r) \<noteq> []))
      else None)"

definition make_ctx :: "runner \<Rightarrow> bool \<Rightarrow> start_env \<Rightarrow> url \<Rightarrow> run_ctx" where
  "make_ctx rn persist env root =
     \<lparr>the_runner = rn, shouldPersist = persist, rootString = url_string root,
      robotsRules = (if HonourRobotsTxt (config rn)
        then fetch_robots_rules (parse_duration_fn env)
               (if has_fetcher env then Some (get_robots env) else None) root
        else None),
      hasLlmsTxt = probe_llms (config rn) env root,
      softNotFoundFingerprint = detect_soft_not_found (sha256_fn env) (parse_html_fn env)
        (get_probe env) (probe_token env) (url_string root),
      sha256 = sha256_fn env\<rparr>"

definition seeded_state :: "runner \<Rightarrow> start_env \<Rightarrow> url \<Rightarrow> run_state \<Rightarrow> run_state" where
  "seeded_state rn env root st =
     (if SkipSitemapSeed (config rn) then st
      else seed_sitemap_urls (config rn)
             (discover_sitemap_urls (gunzip_fn env) (parse_xml_fn env)
                (if has_fetcher env then Some (get_sitemap env) else None) (Some root)
                (AllowedHost (config rn)) (MaxPages (config rn))) st)"

text \<open>
  Either the run ends before the loop (the calls made so far and the error), or the loop
  starts in a context and a state.
\<close>

datatype run_start =
    NotStarted "(store_call \<times> string option) list" string
  | Started run_ctx run_state

definition start_run :: "runner \<Rightarrow> bool \<Rightarrow> start_env \<Rightarrow> string \<Rightarrow> run_start" where
  "start_run rn persist env rootURL =
     (if workerCount rn \<le> 0 then NotStarted [] ''worker count must be greater than zero''
      else if MaxPages (config rn) < 0
      then NotStarted [] ''max pages must be greater than or equal to zero''
      else (case normalize_url rootURL None of
              Inl e \<Rightarrow> NotStarted [] (''normalize root url: '' @ e)
            | Inr root \<Rightarrow>
                (let running = (if persist then [(MarkCrawlRunning, mark_running_error env)] else []);
                     st = (initial_run_state root)\<lparr>calls := running\<rparr>;
                     msg = ''crawl root '' @ quoted (url_string root)
                             @ '' is excluded by excluded_url_patterns''
                 in case (if persist then mark_running_error env else None) of
                      Some e \<Rightarrow> NotStarted running (''mark crawl running: '' @ e)
                    | None \<Rightarrow>
                        if root_excluded (config rn) (url_string root) then
                          (if persist
                           then NotStarted (running @ [(MarkCrawlFailed 1 0 0 msg, root_mark_error env)])
                                  (msg @ (case root_mark_error env of None \<Rightarrow> []
                                          | Some e \<Rightarrow> '' (also failed to mark crawl failed: '' @ e @ '')''))
                           else NotStarted running msg)
                        else Started (make_ctx rn persist env root) (seeded_state rn env root st))))"

definition run_and_persist_with_summary :: "runner \<Rightarrow> start_env \<Rightarrow> string \<Rightarrow> run_start" where
  "run_and_persist_with_summary rn env rootURL =
     (if \<not> run_store rn then NotStarted [] ''runner store is not configured''
      else start_run rn True env rootURL)"

end
