(* ===== verification/RunnerFacts.thy ===== *)
theory RunnerFacts
  imports Runner
begin

text \<open>
  What one operation of the run loop does to the parts of the run state: the frontier
  (\<open>frontier_grows\<close>), the counters, the pages handed to the store (\<open>stored_pages\<close>) and the
  store calls. The invariants of the whole crawl rest on these facts.
\<close>

section \<open>Frames\<close>

lemma enqueue_targets_rest: "run_rest (enqueue_targets cfg d ts st) = run_rest st"
  by (simp add: enqueue_targets_add_all link_frontier.add_all_rest)

lemma run_rest_fields:
  assumes "run_rest a = run_rest b"
  shows "activeJobs a = activeJobs b" "processedPageURLs a = processedPageURLs b"
    "urlsCrawled a = urlsCrawled b" "urlsReused a = urlsReused b"
    "maxDepthReached a = maxDepthReached b" "crawlResults a = crawlResults b"
    "pendingFetched a = pendingFetched b" "pendingReused a = pendingReused b"
    "calls a = calls b" "runCancelled a = runCancelled b" "returned a = returned b"
  using arg_cong [OF assms, of activeJobs] arg_cong [OF assms, of processedPageURLs]
    arg_cong [OF assms, of urlsCrawled] arg_cong [OF assms, of urlsReused]
    arg_cong [OF assms, of maxDepthReached] arg_cong [OF assms, of crawlResults]
    arg_cong [OF assms, of pendingFetched] arg_cong [OF assms, of pendingReused]
    arg_cong [OF assms, of calls] arg_cong [OF assms, of runCancelled]
    arg_cong [OF assms, of returned]
  by (simp_all add: run_rest_def)

lemmas enqueue_targets_frame [frame, simp] = run_rest_fields [OF enqueue_targets_rest]

text \<open>Settling only shortens the queue and counts what it drops.\<close>

definition without_queue :: "run_state \<Rightarrow> run_state" where
  "without_queue st = st\<lparr>pendingQueue := [], urlsExcluded := 0, robotsSkipped := 0\<rparr>"

lemma settle_queue_without: "without_queue (settle_queue ctx q st) = without_queue st"
  by (induction ctx q st rule: settle_queue.induct) (auto simp: without_queue_def)

lemma without_queue_fields:
  assumes "without_queue a = without_queue b"
  shows "run_rest (a\<lparr>robotsSkipped := 0\<rparr>) = run_rest (b\<lparr>robotsSkipped := 0\<rparr>)"
    "seenURLs a = seenURLs b" "scheduledPages a = scheduledPages b"
  using arg_cong [OF assms, of "\<lambda>s. run_rest (s\<lparr>robotsSkipped := 0\<rparr>)"]
    arg_cong [OF assms, of seenURLs] arg_cong [OF assms, of scheduledPages]
  by (simp_all add: without_queue_def run_rest_def)

lemma settle_frame [frame, simp]:
  "activeJobs (settle ctx st) = activeJobs st" "processedPageURLs (settle ctx st) = processedPageURLs st"
  "urlsCrawled (settle ctx st) = urlsCrawled st" "urlsReused (settle ctx st) = urlsReused st"
  "maxDepthReached (settle ctx st) = maxDepthReached st" "crawlResults (settle ctx st) = crawlResults st"
  "pendingFetched (settle ctx st) = pendingFetched st" "pendingReused (settle ctx st) = pendingReused st"
  "calls (settle ctx st) = calls st" "runCancelled (settle ctx st) = runCancelled st"
  "returned (settle ctx st) = returned st"
  "seenURLs (settle ctx st) = seenURLs st" "scheduledPages (settle ctx st) = scheduledPages st"
  using run_rest_fields [OF without_queue_fields(1) [OF settle_queue_without [of ctx "pendingQueue st" st]]]
    without_queue_fields(2,3) [OF settle_queue_without [of ctx "pendingQueue st" st]]
  by (simp_all add: settle_def)

lemma settle_queue_pending:
  "pendingQueue (settle_queue ctx q st) = dropWhile (\<lambda>j. \<not> may_dispatch ctx (job_URL j)) q"
  by (induction ctx q st rule: settle_queue.induct) (auto simp: may_dispatch_def)

lemma settle_pending:
  "pendingQueue (settle ctx st) = dropWhile (\<lambda>j. \<not> may_dispatch ctx (job_URL j)) (pendingQueue st)"
  by (simp add: settle_def settle_queue_pending)

lemma settle_head: "pendingQueue (settle ctx st) = j # js \<Longrightarrow> may_dispatch ctx (job_URL j)"
  by (metis settle_pending hd_dropWhile list.distinct(1) list.sel(1))

lemma settle_suffix: "\<exists>dropped. pendingQueue st = dropped @ pendingQueue (settle ctx st)"
  by (metis settle_pending takeWhile_dropWhile_id)

lemma maybe_write_progress_frame [frame, simp]:
  "activeJobs (maybe_write_progress ctx ans st) = activeJobs st"
  "processedPageURLs (maybe_write_progress ctx ans st) = processedPageURLs st"
  "urlsCrawled (maybe_write_progress ctx ans st) = urlsCrawled st"
  "urlsReused (maybe_write_progress ctx ans st) = urlsReused st"
  "maxDepthReached (maybe_write_progress ctx ans st) = maxDepthReached st"
  "crawlResults (maybe_write_progress ctx ans st) = crawlResults st"
  "pendingFetched (maybe_write_progress ctx ans st) = pendingFetched st"
  "pendingReused (maybe_write_progress ctx ans st) = pendingReused st"
  "returned (maybe_write_progress ctx ans st) = returned st"
  "seenURLs (maybe_write_progress ctx ans st) = seenURLs st"
  "scheduledPages (maybe_write_progress ctx ans st) = scheduledPages st"
  "pendingQueue (maybe_write_progress ctx ans st) = pendingQueue st"
  by (auto simp: maybe_write_progress_def log_call_def cancel_run_def Let_def split: sum.splits)

lemma fail_run_frame [frame, simp]:
  "activeJobs (fail_run ctx p e m st) = activeJobs st"
  "processedPageURLs (fail_run ctx p e m st) = processedPageURLs st"
  "urlsCrawled (fail_run ctx p e m st) = urlsCrawled st"
  "urlsReused (fail_run ctx p e m st) = urlsReused st"
  "maxDepthReached (fail_run ctx p e m st) = maxDepthReached st"
  "crawlResults (fail_run ctx p e m st) = crawlResults st"
  "pendingFetched (fail_run ctx p e m st) = pendingFetched st"
  "pendingReused (fail_run ctx p e m st) = pendingReused st"
  "seenURLs (fail_run ctx p e m st) = seenURLs st"
  "scheduledPages (fail_run ctx p e m st) = scheduledPages st"
  "pendingQueue (fail_run ctx p e m st) = pendingQueue st"
  "runCancelled (fail_run ctx p e m st) = runCancelled st"
  by (auto simp: fail_run_def return_run_def log_call_def)

section \<open>The frontier\<close>

text \<open>From \<open>st\<close> to \<open>st'\<close>, jobs for new admissible URLs at depth \<open>d\<close> were appended.\<close>

definition frontier_grows :: "crawler_config \<Rightarrow> int \<Rightarrow> run_state \<Rightarrow> run_state \<Rightarrow> bool" where
  "frontier_grows cfg d st st' =
     (\<exists>new. pendingQueue st' = pendingQueue st @ new
        \<and> seenURLs st \<union> job_URL ` set new \<subseteq> seenURLs st'
        \<and> scheduledPages st' = scheduledPages st + int (length new)
        \<and> distinct (map job_URL new) \<and> job_URL ` set new \<inter> seenURLs st = {}
        \<and> (\<forall>j\<in>set new. admissible_url cfg (job_URL j) \<and> job_Depth j = d \<and> d \<le> MaxDepth cfg)
        \<and> (\<forall>j\<in>set new. plain_job j)
        \<and> (MaxPages cfg > 0 \<longrightarrow> new \<noteq> [] \<longrightarrow> scheduledPages st' \<le> MaxPages cfg))"

lemma frontier_grows_same:
  "pendingQueue st' = pendingQueue st \<Longrightarrow> seenURLs st \<subseteq> seenURLs st' \<Longrightarrow>
     scheduledPages st' = scheduledPages st \<Longrightarrow> frontier_grows cfg d st st'"
  by (auto simp: frontier_grows_def)

lemma frontier_grows_left:
  "pendingQueue st1 = pendingQueue st \<Longrightarrow> seenURLs st \<subseteq> seenURLs st1 \<Longrightarrow>
     scheduledPages st1 = scheduledPages st \<Longrightarrow> frontier_grows cfg d st1 st' \<Longrightarrow>
     frontier_grows cfg d st st'"
  unfolding frontier_grows_def by (elim exE, rule_tac x = new in exI) auto

lemma frontier_grows_right:
  "frontier_grows cfg d st st1 \<Longrightarrow> pendingQueue st' = pendingQueue st1 \<Longrightarrow>
     seenURLs st1 \<subseteq> seenURLs st' \<Longrightarrow> scheduledPages st' = scheduledPages st1 \<Longrightarrow>
     frontier_grows cfg d st st'"
  unfolding frontier_grows_def by (elim exE, rule_tac x = new in exI) auto

lemma enqueue_targets_grows:
  "d \<le> MaxDepth cfg \<Longrightarrow> frontier_grows cfg d st (enqueue_targets cfg d ts st)"
  using link_frontier.add_all_spec [of "map (\<lambda>t. (t, d)) ts" "\<lambda>x. x = d" cfg st]
  by (auto simp: enqueue_targets_add_all frontier_grows_def)

lemma expand_grows:
  "frontier_grows (ctx_config ctx) (job_Depth (Job r) + 1) st (expand_page ctx r st)"
  "frontier_grows (ctx_config ctx) (job_Depth (Job r) + 1) st (expand_reused ctx r st)"
  by (auto simp: expand_page_def expand_reused_def frontier_grows_same enqueue_targets_grows
      split: option.splits)

lemma note_processed_frame [frame, simp]:
  "activeJobs (note_processed r st) = activeJobs st"
  "urlsCrawled (note_processed r st) = urlsCrawled st"
  "urlsReused (note_processed r st) = urlsReused st"
  "maxDepthReached (note_processed r st) = maxDepthReached st"
  "crawlResults (note_processed r st) = crawlResults st"
  "pendingFetched (note_processed r st) = pendingFetched st"
  "pendingReused (note_processed r st) = pendingReused st"
  "calls (note_processed r st) = calls st" "runCancelled (note_processed r st) = runCancelled st"
  "returned (note_processed r st) = returned st"
  "scheduledPages (note_processed r st) = scheduledPages st"
  "pendingQueue (note_processed r st) = pendingQueue st"
  by (auto simp: note_processed_def mark_processed_def split: sum.splits)

lemma note_processed_seen: "seenURLs st \<subseteq> seenURLs (note_processed r st)"
  by (auto simp: note_processed_def mark_processed_def split: sum.splits)

lemma flush_frame [frame, simp]:
  "activeJobs (fst (flush_fetched e st)) = activeJobs st"
  "processedPageURLs (fst (flush_fetched e st)) = processedPageURLs st"
  "urlsCrawled (fst (flush_fetched e st)) = urlsCrawled st"
  "urlsReused (fst (flush_fetched e st)) = urlsReused st"
  "maxDepthReached (fst (flush_fetched e st)) = maxDepthReached st"
  "crawlResults (fst (flush_fetched e st)) = crawlResults st"
  "runCancelled (fst (flush_fetched e st)) = runCancelled st"
  "returned (fst (flush_fetched e st)) = returned st"
  "seenURLs (fst (flush_fetched e st)) = seenURLs st"
  "scheduledPages (fst (flush_fetched e st)) = scheduledPages st"
  "pendingQueue (fst (flush_fetched e st)) = pendingQueue st"
  "activeJobs (fst (flush_reused e st)) = activeJobs st"
  "processedPageURLs (fst (flush_reused e st)) = processedPageURLs st"
  "urlsCrawled (fst (flush_reused e st)) = urlsCrawled st"
  "urlsReused (fst (flush_reused e st)) = urlsReused st"
  "maxDepthReached (fst (flush_reused e st)) = maxDepthReached st"
  "crawlResults (fst (flush_reused e st)) = crawlResults st"
  "runCancelled (fst (flush_reused e st)) = runCancelled st"
  "returned (fst (flush_reused e st)) = returned st"
  "seenURLs (fst (flush_reused e st)) = seenURLs st"
  "scheduledPages (fst (flush_reused e st)) = scheduledPages st"
  "pendingQueue (fst (flush_reused e st)) = pendingQueue st"
  by (simp_all add: flush_fetched_def flush_reused_def log_call_def)

lemma save_frame [frame, simp]:
  "activeJobs (fst (save_fetched ctx r e st)) = activeJobs st"
  "processedPageURLs (fst (save_fetched ctx r e st)) = processedPageURLs st"
  "urlsCrawled (fst (save_fetched ctx r e st)) = urlsCrawled st"
  "urlsReused (fst (save_fetched ctx r e st)) = urlsReused st"
  "maxDepthReached (fst (save_fetched ctx r e st)) = maxDepthReached st"
  "crawlResults (fst (save_fetched ctx r e st)) = crawlResults st"
  "runCancelled (fst (save_fetched ctx r e st)) = runCancelled st"
  "returned (fst (save_fetched ctx r e st)) = returned st"
  "seenURLs (fst (save_fetched ctx r e st)) = seenURLs st"
  "scheduledPages (fst (save_fetched ctx r e st)) = scheduledPages st"
  "pendingQueue (fst (save_fetched ctx r e st)) = pendingQueue st"
  "activeJobs (fst (save_reused ctx r e st)) = activeJobs st"
  "processedPageURLs (fst (save_reused ctx r e st)) = processedPageURLs st"
  "urlsCrawled (fst (save_reused ctx r e st)) = urlsCrawled st"
  "urlsReused (fst (save_reused ctx r e st)) = urlsReused st"
  "maxDepthReached (fst (save_reused ctx r e st)) = maxDepthReached st"
  "crawlResults (fst (save_reused ctx r e st)) = crawlResults st"
  "runCancelled (fst (save_reused ctx r e st)) = runCancelled st"
  "returned (fst (save_reused ctx r e st)) = returned st"
  "seenURLs (fst (save_reused ctx r e st)) = seenURLs st"
  "scheduledPages (fst (save_reused ctx r e st)) = scheduledPages st"
  "pendingQueue (fst (save_reused ctx r e st)) = pendingQueue st"
  by (simp_all add: save_fetched_def save_reused_def buffer_fetched_def buffer_reused_def Let_def)

lemma cancel_run_frame [frame, simp]:
  "activeJobs (cancel_run st) = activeJobs st" "processedPageURLs (cancel_run st) = processedPageURLs st"
  "urlsCrawled (cancel_run st) = urlsCrawled st" "urlsReused (cancel_run st) = urlsReused st"
  "maxDepthReached (cancel_run st) = maxDepthReached st" "crawlResults (cancel_run st) = crawlResults st"
  "pendingFetched (cancel_run st) = pendingFetched st" "pendingReused (cancel_run st) = pendingReused st"
  "calls (cancel_run st) = calls st" "returned (cancel_run st) = returned st"
  "seenURLs (cancel_run st) = seenURLs st" "scheduledPages (cancel_run st) = scheduledPages st"
  "pendingQueue (cancel_run st) = pendingQueue st" "runCancelled (cancel_run st)"
  by (simp_all add: cancel_run_def)

lemma count_reused_frame [frame, simp]:
  "activeJobs (count_reused r st) = activeJobs st"
  "processedPageURLs (count_reused r st) = processedPageURLs st"
  "urlsReused (count_reused r st) = urlsReused st + 1"
  "maxDepthReached (count_reused r st) = max (maxDepthReached st) (job_Depth (Job r))"
  "pendingFetched (count_reused r st) = pendingFetched st"
  "pendingReused (count_reused r st) = pendingReused st"
  "calls (count_reused r st) = calls st" "returned (count_reused r st) = returned st"
  "seenURLs (count_reused r st) = seenURLs st"
  "scheduledPages (count_reused r st) = scheduledPages st"
  "pendingQueue (count_reused r st) = pendingQueue st"
  by (simp_all add: count_reused_def)

lemma count_page_frame [frame, simp]:
  "activeJobs (count_page ctx r st) = activeJobs st"
  "processedPageURLs (count_page ctx r st) = processedPageURLs st"
  "urlsReused (count_page ctx r st) = urlsReused st"
  "maxDepthReached (count_page ctx r st) = max (maxDepthReached st) (job_Depth (Job r))"
  "pendingFetched (count_page ctx r st) = pendingFetched st"
  "pendingReused (count_page ctx r st) = pendingReused st"
  "calls (count_page ctx r st) = calls st" "returned (count_page ctx r st) = returned st"
  "seenURLs (count_page ctx r st) = seenURLs st"
  "scheduledPages (count_page ctx r st) = scheduledPages st"
  "pendingQueue (count_page ctx r st) = pendingQueue st"
  by (simp_all add: count_page_def Let_def)

lemma classify_page_Job [simp]: "Job (classify_page ctx r) = Job r" "Fetch (classify_page ctx r) = Fetch r"
  by (auto simp: classify_page_def)

text \<open>The three outcomes of a handled page and of a reused page.\<close>

lemma handle_page_cases:
  obtains (duplicate) "is_duplicate (classify_page ctx r) (maybe_write_progress ctx ans (count_page ctx r st))"
      "handle_page ctx ans r st = maybe_write_progress ctx ans (count_page ctx r st)"
  | (failed) e st3 where "\<not> is_duplicate (classify_page ctx r) (maybe_write_progress ctx ans (count_page ctx r st))"
      "save_fetched ctx (classify_page ctx r) (flush_error ans)
        (note_processed (classify_page ctx r) (maybe_write_progress ctx ans (count_page ctx r st))) = (st3, Some e)"
      "handle_page ctx ans r st
         = fail_run ctx ''persist crawl results: '' e (mark_failed_error ans) (cancel_run st3)"
  | (saved) st3 where "\<not> is_duplicate (classify_page ctx r) (maybe_write_progress ctx ans (count_page ctx r st))"
      "save_fetched ctx (classify_page ctx r) (flush_error ans)
        (note_processed (classify_page ctx r) (maybe_write_progress ctx ans (count_page ctx r st))) = (st3, None)"
      "handle_page ctx ans r st = expand_page ctx (classify_page ctx r) st3"
  by (cases "save_fetched ctx (classify_page ctx r) (flush_error ans)
        (note_processed (classify_page ctx r) (maybe_write_progress ctx ans (count_page ctx r st)))")
     (auto simp: handle_page_def Let_def split: option.splits)

lemma handle_not_modified_cases:
  obtains (duplicate) "is_duplicate r st" "handle_not_modified ctx ans r st = maybe_write_progress ctx ans st"
  | (failed) e st2 where "\<not> is_duplicate r st"
      "save_reused ctx r (flush_error ans) (count_reused r (note_processed r st)) = (st2, Some e)"
      "handle_not_modified ctx ans r st
         = fail_run ctx ''persist reused crawl results: '' e (mark_failed_error ans) (cancel_run st2)"
  | (saved) st2 where "\<not> is_duplicate r st"
      "save_reused ctx r (flush_error ans) (count_reused r (note_processed r st)) = (st2, None)"
      "handle_not_modified ctx ans r st = maybe_write_progress ctx ans (expand_reused ctx r st2)"
  by (cases "save_reused ctx r (flush_error ans) (count_reused r (note_processed r st))")
     (auto simp: handle_not_modified_def Let_def split: option.splits)

lemma save_frontier:
  assumes "save_fetched ctx r e (note_processed r' st) = (st', err)
     \<or> save_reused ctx r e (count_reused r (note_processed r' st)) = (st', err)"
  shows "pendingQueue st' = pendingQueue st" "seenURLs st \<subseteq> seenURLs st'"
    "scheduledPages st' = scheduledPages st"
proof -
  from assms have "st' = fst (save_fetched ctx r e (note_processed r' st))
      \<or> st' = fst (save_reused ctx r e (count_reused r (note_processed r' st)))"
    by (metis fst_conv)
  then show "pendingQueue st' = pendingQueue st" "seenURLs st \<subseteq> seenURLs st'"
    "scheduledPages st' = scheduledPages st"
    by (auto dest: subsetD [OF note_processed_seen])
qed

lemma handle_page_frontier:
  "frontier_grows (ctx_config ctx) (job_Depth (Job r) + 1) st (handle_page ctx ans r st)"
proof (cases rule: handle_page_cases [where ctx = ctx and ans = ans and r = r and st = st])
  case duplicate
  then show ?thesis by (simp add: frontier_grows_same)
next
  case (failed e st3)
  note f = save_frontier [OF disjI1 [OF failed(2)]]
  with failed(3) show ?thesis by (simp add: frontier_grows_same)
next
  case (saved st3)
  note f = save_frontier [OF disjI1 [OF saved(2)]]
  with expand_grows(1) [of ctx "classify_page ctx r" st3] saved(3) show ?thesis
    by (auto intro: frontier_grows_left)
qed

lemma handle_not_modified_frontier:
  "frontier_grows (ctx_config ctx) (job_Depth (Job r) + 1) st (handle_not_modified ctx ans r st)"
proof (cases rule: handle_not_modified_cases [where ctx = ctx and ans = ans and r = r and st = st])
  case duplicate
  then show ?thesis by (simp add: frontier_grows_same)
next
  case (failed e st2)
  note f = save_frontier [OF disjI2 [OF failed(2)]]
  with failed(3) show ?thesis by (simp add: frontier_grows_same)
next
  case (saved st2)
  note f = save_frontier [OF disjI2 [OF saved(2)]]
  have "frontier_grows (ctx_config ctx) (job_Depth (Job r) + 1) st (expand_reused ctx r st2)"
    by (rule frontier_grows_left [OF f expand_grows(2)])
  with saved(3) show ?thesis by (auto intro: frontier_grows_right)
qed

lemma note_result_frame [frame, simp]:
  "pendingQueue (note_result ctx r st) = pendingQueue st"
  "seenURLs (note_result ctx r st) = seenURLs st"
  "scheduledPages (note_result ctx r st) = scheduledPages st"
  "processedPageURLs (note_result ctx r st) = processedPageURLs st"
  "pendingFetched (note_result ctx r st) = pendingFetched st"
  "pendingReused (note_result ctx r st) = pendingReused st"
  "calls (note_result ctx r st) = calls st" "returned (note_result ctx r st) = returned st"
  "runCancelled (note_result ctx r st) = runCancelled st"
  "maxDepthReached (note_result ctx r st) = maxDepthReached st"
  "urlsReused (note_result ctx r st) = urlsReused st"
  "activeJobs (note_result ctx r st) = activeJobs st - 1"
  by (simp_all add: note_result_def)

lemma receive_frontier:
  "frontier_grows (ctx_config ctx) (job_Depth (Job r) + 1) st (receive ctx ans r st)"
  using frontier_grows_left [OF _ _ _ handle_page_frontier [of ctx r "note_result ctx r st" ans], of st]
    frontier_grows_left [OF _ _ _ handle_not_modified_frontier [of ctx r "note_result ctx r st" ans], of st]
  by (auto simp: receive_def Let_def intro: frontier_grows_same)

lemma receive_active: "activeJobs (receive ctx ans r st) = activeJobs st - 1"
proof -
  let ?st = "note_result ctx r st"
  have "activeJobs (handle_page ctx ans r ?st) = activeJobs ?st"
    by (cases rule: handle_page_cases [where ctx = ctx and ans = ans and r = r and st = ?st])
       (auto simp: expand_page_def split: option.splits dest!: arg_cong [of _ _ "\<lambda>x. activeJobs (fst x)"])
  moreover have "activeJobs (handle_not_modified ctx ans r ?st) = activeJobs ?st"
    by (cases rule: handle_not_modified_cases [where ctx = ctx and ans = ans and r = r and st = ?st])
       (auto simp: expand_reused_def dest!: arg_cong [of _ _ "\<lambda>x. activeJobs (fst x)"])
  ultimately show ?thesis by (simp add: receive_def Let_def)
qed

lemma receive_depth:
  "maxDepthReached (receive ctx ans r st) \<in> {maxDepthReached st, max (maxDepthReached st) (job_Depth (Job r))}"
proof -
  let ?st = "note_result ctx r st"
  have "maxDepthReached (handle_page ctx ans r ?st) = max (maxDepthReached ?st) (job_Depth (Job r))"
    by (cases rule: handle_page_cases [where ctx = ctx and ans = ans and r = r and st = ?st])
       (auto simp: expand_page_def split: option.splits dest!: arg_cong [of _ _ "\<lambda>x. maxDepthReached (fst x)"])
  moreover have "maxDepthReached (handle_not_modified ctx ans r ?st)
      \<in> {maxDepthReached ?st, max (maxDepthReached ?st) (job_Depth (Job r))}"
    by (cases rule: handle_not_modified_cases [where ctx = ctx and ans = ans and r = r and st = ?st])
       (auto simp: expand_reused_def dest!: arg_cong [of _ _ "\<lambda>x. maxDepthReached (fst x)"])
  ultimately show ?thesis by (auto simp: receive_def Let_def)
qed

section \<open>What is handed to the store\<close>

fun batch_of :: "store_call \<Rightarrow> crawl_result list" where
  "batch_of (PersistResults rs) = rs"
| "batch_of (PersistReusedResults rs) = rs"
| "batch_of _ = []"

text \<open>The pages written by the calls so far, and the pages written or buffered.\<close>

definition written_pages :: "run_state \<Rightarrow> crawl_result multiset" where
  "written_pages st = mset (concat (map (batch_of \<circ> fst) (calls st)))"

definition stored_pages :: "run_state \<Rightarrow> crawl_result multiset" where
  "stored_pages st = written_pages st + mset (pendingFetched st) + mset (pendingReused st)"

definition page_key :: "crawl_result \<Rightarrow> string option" where
  "page_key r = normalized_string (crawl_page_url r)"

lemma is_duplicate_key: "is_duplicate r st \<longleftrightarrow> (\<exists>k. page_key r = Some k \<and> k \<in> processedPageURLs st)"
  by (auto simp: is_duplicate_def page_key_def normalized_string_def split: sum.splits)

lemma note_processed_key:
  "processedPageURLs (note_processed r st) = set_option (page_key r) \<union> processedPageURLs st"
  by (auto simp: note_processed_def mark_processed_def page_key_def normalized_string_def split: sum.splits)

lemma page_key_body [simp]: "page_key (r\<lparr>Fetch := (Fetch r)\<lparr>Body := b\<rparr>\<rparr>) = page_key r"
  by (simp add: page_key_def crawl_page_url_def)

lemma page_key_classify [simp]: "page_key (classify_page ctx r) = page_key r"
  by (simp add: page_key_def crawl_page_url_def)

lemma stored_pages_cong:
  "calls a = calls b \<Longrightarrow> pendingFetched a = pendingFetched b \<Longrightarrow> pendingReused a = pendingReused b \<Longrightarrow>
     stored_pages a = stored_pages b"
  by (simp add: stored_pages_def written_pages_def)

lemma written_log_call:
  "written_pages (log_call c e st) = written_pages st + mset (batch_of c)"
  by (simp add: written_pages_def log_call_def)

lemma stored_progress [simp]: "stored_pages (maybe_write_progress ctx ans st) = stored_pages st"
  by (auto simp: maybe_write_progress_def stored_pages_def written_pages_def log_call_def
      cancel_run_def Let_def split: sum.splits)

lemma stored_fail_run [simp]: "stored_pages (fail_run ctx p e m st) = stored_pages st"
  by (auto simp: fail_run_def stored_pages_def written_pages_def log_call_def return_run_def)

lemma stored_simple [simp]:
  "stored_pages (note_result ctx r st) = stored_pages st"
  "stored_pages (note_processed r st) = stored_pages st"
  "stored_pages (count_page ctx r st) = stored_pages st"
  "stored_pages (count_reused r st) = stored_pages st"
  "stored_pages (cancel_run st) = stored_pages st"
  "stored_pages (settle ctx st) = stored_pages st"
  "stored_pages (expand_page ctx r st) = stored_pages st"
  "stored_pages (expand_reused ctx r st) = stored_pages st"
  by (rule stored_pages_cong; simp add: expand_page_def expand_reused_def split: option.splits)+

lemma stored_flush [simp]:
  "stored_pages (fst (flush_fetched e st)) = stored_pages st"
  "stored_pages (fst (flush_reused e st)) = stored_pages st"
  by (auto simp: flush_fetched_def flush_reused_def stored_pages_def written_pages_def log_call_def)

definition bodyless :: "crawl_result \<Rightarrow> crawl_result" where
  "bodyless r = r\<lparr>Fetch := (Fetch r)\<lparr>Body := []\<rparr>\<rparr>"

lemma stored_buffer [simp]:
  "stored_pages (fst (buffer_fetched r e st)) = add_mset (bodyless r) (stored_pages st)"
  "stored_pages (fst (buffer_reused r e st)) = add_mset r (stored_pages st)"
proof -
  have a: "stored_pages (st\<lparr>pendingFetched := pendingFetched st @ [x]\<rparr>) = add_mset x (stored_pages st)" for x
    by (simp add: stored_pages_def written_pages_def)
  have b: "stored_pages (st\<lparr>pendingReused := pendingReused st @ [x]\<rparr>) = add_mset x (stored_pages st)" for x
    by (simp add: stored_pages_def written_pages_def)
  from a b show "stored_pages (fst (buffer_fetched r e st)) = add_mset (bodyless r) (stored_pages st)"
    "stored_pages (fst (buffer_reused r e st)) = add_mset r (stored_pages st)"
    by (auto simp: buffer_fetched_def buffer_reused_def Let_def bodyless_def)
qed

text \<open>A 304 that no baseline backs is dropped.\<close>

definition unsolicited :: "run_ctx \<Rightarrow> crawl_result \<Rightarrow> bool" where
  "unsolicited ctx r = (ResultNotModified r \<and> run_baseline (the_runner ctx) = None)"

text \<open>
  One result is stored once or, when it is a duplicate or an unsolicited 304, not at all;
  the processed set records exactly the canonical URLs of what was stored.
\<close>

definition stores :: "run_ctx \<Rightarrow> crawl_result \<Rightarrow> run_state \<Rightarrow> run_state \<Rightarrow> bool" where
  "stores ctx r st st' =
     (if unsolicited ctx r \<or> is_duplicate r st
      then stored_pages st' = stored_pages st \<and> processedPageURLs st' = processedPageURLs st
      else (\<exists>r'. page_key r' = page_key r \<and> Job r' = Job r
              \<and> ResultNotModified r' = ResultNotModified r
              \<and> stored_pages st' = add_mset r' (stored_pages st)
              \<and> processedPageURLs st' = set_option (page_key r) \<union> processedPageURLs st))"

lemma saved_page:
  assumes "shouldPersist ctx" "save_fetched ctx (classify_page ctx r) e st = (st', err)"
  shows "stored_pages st' = add_mset (bodyless (classify_page ctx r)) (stored_pages st)"
    "processedPageURLs st' = processedPageURLs st"
proof -
  show "stored_pages st' = add_mset (bodyless (classify_page ctx r)) (stored_pages st)"
    using arg_cong [OF assms(2), of "\<lambda>x. stored_pages (fst x)"] assms(1) by (simp add: save_fetched_def)
  show "processedPageURLs st' = processedPageURLs st"
    using arg_cong [OF assms(2), of "\<lambda>x. processedPageURLs (fst x)"] by simp
qed

lemma saved_reused:
  assumes "shouldPersist ctx" "save_reused ctx r e st = (st', err)"
  shows "stored_pages st' = add_mset r (stored_pages st)" "processedPageURLs st' = processedPageURLs st"
proof -
  show "stored_pages st' = add_mset r (stored_pages st)"
    using arg_cong [OF assms(2), of "\<lambda>x. stored_pages (fst x)"] assms(1) by (simp add: save_reused_def)
  show "processedPageURLs st' = processedPageURLs st"
    using arg_cong [OF assms(2), of "\<lambda>x. processedPageURLs (fst x)"] by simp
qed

lemma expand_processed [simp]:
  "processedPageURLs (expand_page ctx r st) = processedPageURLs st"
  "processedPageURLs (expand_reused ctx r st) = processedPageURLs st"
  by (auto simp: expand_page_def expand_reused_def split: option.splits)

lemma bodyless_facts:
  "page_key (bodyless (classify_page ctx r)) = page_key r" "Job (bodyless (classify_page ctx r)) = Job r"
  "ResultNotModified (bodyless (classify_page ctx r)) = ResultNotModified r"
  by (auto simp: bodyless_def classify_page_def page_key_def crawl_page_url_def)

lemma handle_page_stores:
  assumes "shouldPersist ctx" "\<not> ResultNotModified r"
  shows "stores ctx r st (handle_page ctx ans r st)"
proof (cases rule: handle_page_cases [where ctx = ctx and ans = ans and r = r and st = st])
  case duplicate
  then show ?thesis using assms by (simp add: stores_def is_duplicate_key)
next
  case (failed e st3)
  then show ?thesis using assms saved_page [OF assms(1) failed(2)]
    by (auto simp: stores_def is_duplicate_key unsolicited_def note_processed_key bodyless_facts
        intro!: exI [of _ "bodyless (classify_page ctx r)"])
next
  case (saved st3)
  then show ?thesis using assms saved_page [OF assms(1) saved(2)]
    by (auto simp: stores_def is_duplicate_key unsolicited_def note_processed_key bodyless_facts
        intro!: exI [of _ "bodyless (classify_page ctx r)"])
qed

lemma handle_not_modified_stores:
  assumes "shouldPersist ctx" "run_baseline (the_runner ctx) \<noteq> None"
  shows "stores ctx r st (handle_not_modified ctx ans r st)"
proof (cases rule: handle_not_modified_cases [where ctx = ctx and ans = ans and r = r and st = st])
  case duplicate
  then show ?thesis using assms by (simp add: stores_def)
next
  case (failed e st2)
  then show ?thesis using assms saved_reused [OF assms(1) failed(2)]
    by (auto simp: stores_def unsolicited_def note_processed_key)
next
  case (saved st2)
  then show ?thesis using assms saved_reused [OF assms(1) saved(2)]
    by (auto simp: stores_def unsolicited_def note_processed_key)
qed

lemma is_duplicate_note_result [simp]: "is_duplicate x (note_result ctx r st) = is_duplicate x st"
  by (simp add: is_duplicate_key)

lemma stored_skipped [simp]: "stored_pages (st\<lparr>urlsSkippedNon2xx := n\<rparr>) = stored_pages st"
  by (simp add: stored_pages_def written_pages_def)

lemma receive_stores:
  assumes "shouldPersist ctx"
  shows "stores ctx r st (receive ctx ans r st)"
proof -
  have n: "stores ctx r (note_result ctx r st) st' \<Longrightarrow> stores ctx r st st'" for st'
    by (auto simp: stores_def split: if_splits)
  show ?thesis
    using n [OF handle_page_stores [OF assms]] n [OF handle_not_modified_stores [OF assms]]
    by (auto simp: receive_def Let_def stores_def unsolicited_def)
qed

section \<open>Batches and the final status\<close>

definition bounded_batches :: "run_state \<Rightarrow> bool" where
  "bounded_batches st = (length (pendingFetched st) < persist_batch_size
     \<and> length (pendingReused st) < persist_batch_size
     \<and> (\<forall>ce\<in>set (calls st). length (batch_of (fst ce)) \<le> persist_batch_size))"

lemma bounded_cong:
  "calls a = calls b \<Longrightarrow> pendingFetched a = pendingFetched b \<Longrightarrow> pendingReused a = pendingReused b \<Longrightarrow>
     bounded_batches b \<Longrightarrow> bounded_batches a"
  by (simp add: bounded_batches_def)

lemma bounded_progress: "bounded_batches st \<Longrightarrow> bounded_batches (maybe_write_progress ctx ans st)"
  by (auto simp: maybe_write_progress_def bounded_batches_def log_call_def cancel_run_def Let_def
      split: sum.splits)

lemma bounded_fail_run: "bounded_batches st \<Longrightarrow> bounded_batches (fail_run ctx p e m st)"
  by (auto simp: fail_run_def bounded_batches_def log_call_def return_run_def)

lemma bounded_save:
  "bounded_batches st \<Longrightarrow> save_fetched ctx r e st = (st', err) \<Longrightarrow> bounded_batches st'"
  "bounded_batches st \<Longrightarrow> save_reused ctx r e st = (st', err) \<Longrightarrow> bounded_batches st'"
  by (auto simp: save_fetched_def save_reused_def buffer_fetched_def buffer_reused_def
      flush_fetched_def flush_reused_def bounded_batches_def log_call_def Let_def split: if_splits)

lemma bounded_flush:
  "bounded_batches st \<Longrightarrow> bounded_batches (fst (flush_fetched e st))"
  "bounded_batches st \<Longrightarrow> bounded_batches (fst (flush_reused e st))"
  by (auto simp: flush_fetched_def flush_reused_def bounded_batches_def log_call_def)

lemma bounded_simple:
  assumes "bounded_batches st"
  shows "bounded_batches (note_result ctx r st)" "bounded_batches (note_processed r st)"
    "bounded_batches (count_page ctx r st)" "bounded_batches (count_reused r st)"
    "bounded_batches (cancel_run st)" "bounded_batches (settle ctx st)"
    "bounded_batches (expand_page ctx r st)" "bounded_batches (expand_reused ctx r st)"
    "bounded_batches (st\<lparr>urlsSkippedNon2xx := n\<rparr>)"
  by (rule bounded_cong [OF _ _ _ assms]; simp add: expand_page_def expand_reused_def split: option.splits)+

lemma receive_bounded: "bounded_batches st \<Longrightarrow> bounded_batches (receive ctx ans r st)"
proof -
  assume "bounded_batches st"
  then have b: "bounded_batches (note_result ctx r st)" (is "bounded_batches ?st") by (rule bounded_simple)
  have "bounded_batches (handle_page ctx ans r ?st)"
    by (cases rule: handle_page_cases [where ctx = ctx and ans = ans and r = r and st = ?st])
       (auto intro!: bounded_simple bounded_progress bounded_fail_run b elim!: bounded_save [rotated])
  moreover have "bounded_batches (handle_not_modified ctx ans r ?st)"
    by (cases rule: handle_not_modified_cases [where ctx = ctx and ans = ans and r = r and st = ?st])
       (auto intro!: bounded_simple bounded_progress bounded_fail_run b elim!: bounded_save [rotated])
  ultimately show ?thesis
    using b by (auto simp: receive_def Let_def intro: bounded_progress bounded_simple)
qed

fun is_terminal :: "store_call \<Rightarrow> bool" where
  "is_terminal (MarkCrawlFailed d c m e) = True"
| "is_terminal (MarkCrawlCompleted d c m l) = True"
| "is_terminal _ = False"

definition no_terminal :: "(store_call \<times> string option) list \<Rightarrow> bool" where
  "no_terminal cs = (\<forall>ce\<in>set cs. \<not> is_terminal (fst ce))"

definition batches_succeeded :: "(store_call \<times> string option) list \<Rightarrow> bool" where
  "batches_succeeded cs = (\<forall>ce\<in>set cs. batch_of (fst ce) \<noteq> [] \<longrightarrow> snd ce = None)"

definition open_run :: "run_state \<Rightarrow> bool" where
  "open_run st = (returned st = None \<and> no_terminal (calls st) \<and> batches_succeeded (calls st))"

text \<open>What the store saw when the run returned \<open>sm\<close> and \<open>err\<close>.\<close>

definition closed_ok :: "run_ctx \<Rightarrow> run_state \<Rightarrow> crawl_run_summary \<Rightarrow> bool" where
  "closed_ok ctx st sm =
     (batches_succeeded (calls st) \<and> pendingFetched st = [] \<and> pendingReused st = []
      \<and> (if deferFinalStatus (the_runner ctx) then no_terminal (calls st)
         else (\<exists>before. calls st = before @ [(MarkCrawlCompleted (URLsDiscovered sm) (URLsCrawled sm)
                  (SummaryMaxDepth sm) (HasLlmsTxt sm), None)] \<and> no_terminal before)))"

definition closed_failed :: "run_state \<Rightarrow> crawl_run_summary \<Rightarrow> bool" where
  "closed_failed st sm =
     (\<exists>before c m. calls st = before @ [(c, m)] \<and> no_terminal before
        \<and> ((\<exists>why. c = MarkCrawlFailed (URLsDiscovered sm) (URLsCrawled sm) (SummaryMaxDepth sm) why)
           \<or> (\<exists>llms. c = MarkCrawlCompleted (URLsDiscovered sm) (URLsCrawled sm) (SummaryMaxDepth sm) llms
                \<and> m \<noteq> None)))"

definition run_status :: "run_ctx \<Rightarrow> run_state \<Rightarrow> bool" where
  "run_status ctx st =
     (case returned st of
        None \<Rightarrow> no_terminal (calls st) \<and> batches_succeeded (calls st)
      | Some (Returned sm err) \<Rightarrow>
          shouldPersist ctx \<longrightarrow> (if err = None then closed_ok ctx st sm else closed_failed st sm))"

lemma open_run_status: "open_run st \<Longrightarrow> run_status ctx st"
  by (simp add: open_run_def run_status_def)

lemma run_status_open: "run_status ctx st \<Longrightarrow> returned st = None \<Longrightarrow> open_run st"
  by (simp add: open_run_def run_status_def)

lemma open_cong: "calls a = calls b \<Longrightarrow> returned a = returned b \<Longrightarrow> open_run b \<Longrightarrow> open_run a"
  by (simp add: open_run_def)

lemma open_progress: "open_run st \<Longrightarrow> open_run (maybe_write_progress ctx ans st)"
  by (auto simp: maybe_write_progress_def open_run_def log_call_def cancel_run_def no_terminal_def
      batches_succeeded_def Let_def split: sum.splits)

lemma open_simple:
  assumes "open_run st"
  shows "open_run (note_result ctx r st)" "open_run (note_processed r st)"
    "open_run (count_page ctx r st)" "open_run (count_reused r st)"
    "open_run (cancel_run st)" "open_run (settle ctx st)"
    "open_run (expand_page ctx r st)" "open_run (expand_reused ctx r st)"
    "open_run (st\<lparr>urlsSkippedNon2xx := n\<rparr>)"
  by (rule open_cong [OF _ _ assms]; simp add: expand_page_def expand_reused_def split: option.splits)+

text \<open>Saving without an error keeps the run open; a failed save leaves no terminal call.\<close>

definition halted_run :: "run_state \<Rightarrow> bool" where
  "halted_run st = (returned st = None \<and> no_terminal (calls st))"

lemma open_save:
  "open_run st \<Longrightarrow> save_fetched ctx r e st = (st', None) \<Longrightarrow> open_run st'"
  "open_run st \<Longrightarrow> save_reused ctx r e st = (st', None) \<Longrightarrow> open_run st'"
  by (auto simp: save_fetched_def save_reused_def buffer_fetched_def buffer_reused_def
      flush_fetched_def flush_reused_def open_run_def no_terminal_def batches_succeeded_def
      log_call_def Let_def split: if_splits)

lemma halted_save:
  "open_run st \<Longrightarrow> save_fetched ctx r e st = (st', err) \<Longrightarrow> halted_run st'"
  "open_run st \<Longrightarrow> save_reused ctx r e st = (st', err) \<Longrightarrow> halted_run st'"
  by (auto simp: save_fetched_def save_reused_def buffer_fetched_def buffer_reused_def
      flush_fetched_def flush_reused_def open_run_def halted_run_def no_terminal_def
      log_call_def Let_def split: if_splits)

lemma halted_fail_run: "halted_run st \<Longrightarrow> run_status ctx (fail_run ctx p e m st)"
  by (auto simp: fail_run_def run_status_def closed_failed_def halted_run_def return_run_def
      log_call_def summary_of_def)

lemma halted_cancel: "halted_run st \<Longrightarrow> halted_run (cancel_run st)"
  by (simp add: halted_run_def)

lemma open_halted: "open_run st \<Longrightarrow> halted_run st"
  by (simp add: open_run_def halted_run_def)

lemma handle_page_status:
  assumes "open_run st"
  shows "run_status ctx (handle_page ctx ans r st)"
proof -
  note o = open_simple(2) [OF open_progress [OF open_simple(3) [OF assms]]]
  show ?thesis
    by (cases rule: handle_page_cases [where ctx = ctx and ans = ans and r = r and st = st])
       (auto intro: open_run_status open_progress open_simple assms halted_fail_run halted_cancel
         halted_save(1) [OF o] open_save(1) [OF o])
qed

lemma handle_not_modified_status:
  assumes "open_run st"
  shows "run_status ctx (handle_not_modified ctx ans r st)"
proof -
  note o = open_simple(4) [OF open_simple(2) [OF assms]]
  show ?thesis
    by (cases rule: handle_not_modified_cases [where ctx = ctx and ans = ans and r = r and st = st])
       (auto intro: open_run_status open_progress open_simple assms halted_fail_run halted_cancel
         halted_save(2) [OF o] open_save(2) [OF o])
qed

lemma receive_status: "open_run st \<Longrightarrow> run_status ctx (receive ctx ans r st)"
  unfolding receive_def Let_def
  by (simp only: split: if_split)
     (intro conjI impI handle_page_status handle_not_modified_status open_run_status open_progress open_simple)

lemma open_flush:
  "open_run st \<Longrightarrow> flush_fetched e st = (st', None) \<Longrightarrow> open_run st'"
  "open_run st \<Longrightarrow> flush_reused e st = (st', None) \<Longrightarrow> open_run st'"
  "open_run st \<Longrightarrow> flush_fetched e st = (st', err) \<Longrightarrow> halted_run st'"
  "open_run st \<Longrightarrow> flush_reused e st = (st', err) \<Longrightarrow> halted_run st'"
  by (auto simp: flush_fetched_def flush_reused_def open_run_def halted_run_def no_terminal_def
      batches_succeeded_def log_call_def split: if_splits)

lemma flush_empties:
  "flush_fetched e st = (st', err) \<Longrightarrow> pendingFetched st' = [] \<and> pendingReused st' = pendingReused st"
  "flush_reused e st = (st', err) \<Longrightarrow> pendingReused st' = [] \<and> pendingFetched st' = pendingFetched st"
  by (auto simp: flush_fetched_def flush_reused_def log_call_def split: if_splits)

lemma complete_run_status:
  "open_run st \<Longrightarrow> pendingFetched st = [] \<Longrightarrow> pendingReused st = [] \<Longrightarrow>
     run_status ctx (complete_run ctx e st)"
  by (auto simp: complete_run_def run_status_def closed_ok_def closed_failed_def open_run_def
      return_run_def log_call_def summary_of_def batches_succeeded_def)

text \<open>The three outcomes of the end of the loop when persisting.\<close>

lemma finish_run_cases:
  assumes "shouldPersist ctx"
  obtains (fetched_failed) st1 e where "flush_fetched (fetched_error ans) st = (st1, Some e)"
      "finish_run ctx ans st
         = fail_run ctx ''persist crawl results: '' e (finish_mark_error ans) (cancel_run st1)"
  | (reused_failed) st1 st2 e where "flush_fetched (fetched_error ans) st = (st1, None)"
      "flush_reused (reused_error ans) st1 = (st2, Some e)"
      "finish_run ctx ans st
         = fail_run ctx ''persist reused crawl results: '' e (finish_mark_error ans) (cancel_run st2)"
  | (completed) st1 st2 where "flush_fetched (fetched_error ans) st = (st1, None)"
      "flush_reused (reused_error ans) st1 = (st2, None)"
      "finish_run ctx ans st = complete_run ctx (complete_error ans) st2"
proof -
  obtain st1 e1 where 1: "flush_fetched (fetched_error ans) st = (st1, e1)" by fastforce
  obtain st2 e2 where 2: "flush_reused (reused_error ans) st1 = (st2, e2)" by fastforce
  show ?thesis
    using 1 2 assms that by (cases e1; cases e2) (simp_all add: finish_run_def)
qed

lemma finish_run_status:
  assumes "open_run st"
  shows "run_status ctx (finish_run ctx ans st)"
proof (cases "shouldPersist ctx")
  case True
  then show ?thesis
  proof (cases rule: finish_run_cases [where ctx = ctx and ans = ans and st = st])
    case (fetched_failed st1 e)
    then show ?thesis by (auto intro: halted_fail_run halted_cancel open_flush(3) [OF assms])
  next
    case (reused_failed st1 st2 e)
    note o1 = open_flush(1) [OF assms reused_failed(1)]
    from reused_failed show ?thesis by (auto intro: halted_fail_run halted_cancel open_flush(4) [OF o1])
  next
    case (completed st1 st2)
    note o1 = open_flush(1) [OF assms completed(1)]
    note o2 = open_flush(2) [OF o1 completed(2)]
    from completed(3) flush_empties(1) [OF completed(1)] flush_empties(2) [OF completed(2)]
    show ?thesis by (auto intro: complete_run_status [OF o2])
  qed
next
  case False
  then show ?thesis by (simp add: finish_run_def complete_run_def run_status_def return_run_def)
qed

lemma finish_run_stored [simp]: "stored_pages (finish_run ctx ans st) = stored_pages st"
proof -
  have c: "stored_pages (complete_run ctx e st) = stored_pages st" for e st
    by (simp add: complete_run_def return_run_def stored_pages_def written_pages_def log_call_def)
  show ?thesis
    by (auto simp: finish_run_def c Let_def split: prod.splits option.splits
        dest!: arg_cong [of _ _ "\<lambda>x. stored_pages (fst x)"])
qed

lemma complete_run_frame [frame, simp]:
  "activeJobs (complete_run ctx e st) = activeJobs st"
  "processedPageURLs (complete_run ctx e st) = processedPageURLs st"
  "maxDepthReached (complete_run ctx e st) = maxDepthReached st"
  "seenURLs (complete_run ctx e st) = seenURLs st"
  "scheduledPages (complete_run ctx e st) = scheduledPages st"
  "pendingQueue (complete_run ctx e st) = pendingQueue st"
  "returned (complete_run ctx e st) = None \<longleftrightarrow> False"
  by (simp_all add: complete_run_def return_run_def log_call_def)

lemma finish_run_frame [frame, simp]:
  "activeJobs (finish_run ctx ans st) = activeJobs st"
  "processedPageURLs (finish_run ctx ans st) = processedPageURLs st"
  "maxDepthReached (finish_run ctx ans st) = maxDepthReached st"
  "seenURLs (finish_run ctx ans st) = seenURLs st"
  "scheduledPages (finish_run ctx ans st) = scheduledPages st"
  "pendingQueue (finish_run ctx ans st) = pendingQueue st"
  by (auto simp: finish_run_def Let_def split: prod.splits option.splits
      dest!: arg_cong [of _ _ "\<lambda>x. (activeJobs (fst x), processedPageURLs (fst x), maxDepthReached (fst x),
        seenURLs (fst x), scheduledPages (fst x), pendingQueue (fst x))"])

lemma fail_run_returned: "returned (fail_run ctx p e m st) \<noteq> None"
  by (simp add: fail_run_def return_run_def log_call_def)

lemma finish_run_returned: "returned (finish_run ctx ans st) \<noteq> None"
  unfolding finish_run_def Let_def
  by (simp add: fail_run_returned complete_run_frame(7) split: prod.splits option.splits
      del: not_None_eq)

lemma complete_run_bounded: "bounded_batches st \<Longrightarrow> bounded_batches (complete_run ctx e st)"
  by (simp add: complete_run_def return_run_def bounded_batches_def log_call_def)

lemma finish_run_bounded: "bounded_batches st \<Longrightarrow> bounded_batches (finish_run ctx ans st)"
proof -
  assume b: "bounded_batches st"
  have "bounded_batches st1 \<and> bounded_batches st2"
    if "flush_fetched (fetched_error ans) st = (st1, e1)" "flush_reused (reused_error ans) st1 = (st2, e2)"
    for st1 st2 e1 e2
    using bounded_flush(1) [OF b, of "fetched_error ans"] bounded_flush(2) [of st1 "reused_error ans"] that
    by simp
  then show ?thesis using b
    by (auto simp: finish_run_def Let_def split: prod.splits option.splits
        intro!: bounded_fail_run bounded_simple complete_run_bounded)
qed

end
