(* ===== verification/Store.thy ===== *)
theory Store
  imports CrawlTypes
begin

text \<open>
  \<open>internal/crawler/store.go\<close>: how a batch of results reaches the database. One crawl's
  tables are a list of page rows keyed by URL (the unique index \<open>(crawl_id, url)\<close> of the
  schema, with the insert's \<open>ON CONFLICT DO NOTHING\<close>) and a list of link rows. The row built
  from a result is the parameter \<open>row_of\<close>; the errors the database may answer are the
  environment.
\<close>

record 'row crawl_tables =
  page_rows :: "(string \<times> 'row) list"
  link_rows :: "(string \<times> parsed_link) list"

record db_faults =
  begin_error :: "string option"
  create_error :: "crawl_result \<Rightarrow> string option"
  links_error :: "crawl_result \<Rightarrow> string option"
  commit_error :: "string option"

definition no_faults :: db_faults where
  "no_faults = \<lparr>begin_error = None, create_error = (\<lambda>_. None), links_error = (\<lambda>_. None),
     commit_error = None\<rparr>"

text \<open>\<open>dedupeParsedLinks\<close>: the first link of each target and anchor text.\<close>

definition link_key :: "parsed_link \<Rightarrow> string" where
  "link_key l = TargetURL l @ [CHR 0x0A] @ AnchorText l"

fun dedupe_links_loop :: "parsed_link list \<Rightarrow> string list \<Rightarrow> parsed_link list" where
  "dedupe_links_loop [] seen = []"
| "dedupe_links_loop (l # ls) seen =
     (if link_key l \<in> set seen then dedupe_links_loop ls seen
      else l # dedupe_links_loop ls (link_key l # seen))"

definition dedupe_parsed_links :: "parsed_page option \<Rightarrow> parsed_link list" where
  "dedupe_parsed_links page = (case page of None \<Rightarrow> [] | Some p \<Rightarrow> dedupe_links_loop (Links p) [])"

text \<open>
  \<open>fetchErrorMessage\<close>; \<open>cap\<close> is \<open>capErrorMessage\<close>, the truncation to 500 bytes.
\<close>

definition fetch_error_message :: "(string \<Rightarrow> string) \<Rightarrow> crawl_result \<Rightarrow> string" where
  "fetch_error_message cap result =
     (case FetchError (Fetch result) of
        Some e \<Rightarrow> cap e
      | None \<Rightarrow>
          if StatusCode (Fetch result) = 0 \<and> ParsedPage result = None \<and> \<not> ResultNotModified result
          then (case ProcessErr result of Some e \<Rightarrow> cap e | None \<Rightarrow> ''page could not be fetched'')
          else [])"

definition is_result_internal :: "string \<Rightarrow> crawl_result \<Rightarrow> bool" where
  "is_result_internal rootURL result =
     (case (normalize_url rootURL None, normalize_url (FinalURL (Fetch result)) None) of
        (Inr r, Inr u) \<Rightarrow> is_internal_url (Some r) (Some u)
      | _ \<Rightarrow> False)"

section \<open>The transaction\<close>

definition insert_page :: "(crawl_result \<Rightarrow> 'row) \<Rightarrow> crawl_result \<Rightarrow> 'row crawl_tables \<Rightarrow> 'row crawl_tables" where
  \<comment> \<open>the page insert, and the links when the insert created a row\<close>
  "insert_page row_of result db =
     (if crawl_page_url result \<in> fst ` set (page_rows db) then db
      else db\<lparr>page_rows := page_rows db @ [(crawl_page_url result, row_of result)],
              link_rows := link_rows db
                @ (if ProcessErr result = None
                   then map (Pair (FinalURL (Fetch result))) (dedupe_parsed_links (ParsedPage result))
                   else [])\<rparr>)"

fun persist_loop ::
    "db_faults \<Rightarrow> (crawl_result \<Rightarrow> 'row) \<Rightarrow> crawl_result list \<Rightarrow> 'row crawl_tables
       \<Rightarrow> ('row crawl_tables) result" where
  "persist_loop faults row_of [] db = Inr db"
| "persist_loop faults row_of (r # rs) db =
     (case create_error faults r of
        Some e \<Rightarrow> Inl (''create crawl page '' @ quoted (crawl_page_url r) @ '': '' @ e)
      | None \<Rightarrow>
          if crawl_page_url r \<in> fst ` set (page_rows db) then persist_loop faults row_of rs db
          else if ProcessErr r = None \<and> dedupe_parsed_links (ParsedPage r) \<noteq> []
                  \<and> links_error faults r \<noteq> None
          then Inl (''create crawl links for '' @ quoted (crawl_page_url r) @ '': ''
                    @ the (links_error faults r))
          else persist_loop faults row_of rs (insert_page row_of r db))"

definition persist_results ::
    "db_faults \<Rightarrow> (crawl_result \<Rightarrow> 'row) \<Rightarrow> crawl_result list \<Rightarrow> 'row crawl_tables
       \<Rightarrow> 'row crawl_tables \<times> string option" where
  \<comment> \<open>the tables after the call and its error; an error rolls the transaction back\<close>
  "persist_results faults row_of results db =
     (if results = [] then (db, None)
      else (case begin_error faults of
              Some e \<Rightarrow> (db, Some (''begin crawl result transaction: '' @ e))
            | None \<Rightarrow>
                (case persist_loop faults row_of results db of
                   Inl e \<Rightarrow> (db, Some e)
                 | Inr db' \<Rightarrow>
                     (case commit_error faults of
                        Some e \<Rightarrow> (db, Some (''commit crawl result transaction: '' @ e))
                      | None \<Rightarrow> (db', None)))))"

section \<open>Properties\<close>

lemma dedupe_links_loop_spec:
  "distinct (map link_key (dedupe_links_loop ls seen))
   \<and> link_key ` set (dedupe_links_loop ls seen) = link_key ` set ls - set seen"
  by (induction ls seen rule: dedupe_links_loop.induct) auto

lemma persist_loop_Inr:
  "persist_loop faults row_of rs db = Inr db' \<Longrightarrow> db' = fold (insert_page row_of) rs db"
  by (induction rs arbitrary: db) (auto simp: insert_page_def split: option.splits if_splits)

lemma persist_results_None:
  "persist_results faults row_of rs db = (db', None) \<Longrightarrow> db' = fold (insert_page row_of) rs db"
  by (auto simp: persist_results_def persist_loop_Inr split: if_splits option.splits sum.splits)

lemma persist_results_no_faults:
  "persist_results no_faults row_of rs db = (fold (insert_page row_of) rs db, None)"
proof -
  have "persist_loop no_faults row_of rs db = Inr (fold (insert_page row_of) rs db)" for db
    by (induction rs arbitrary: db) (auto simp: no_faults_def insert_page_def)
  then show ?thesis
    by (cases rs) (auto simp: persist_results_def no_faults_def)
qed

definition unique_pages :: "'row crawl_tables \<Rightarrow> bool" where
  "unique_pages db = distinct (map fst (page_rows db))"

lemma insert_page_unique: "unique_pages db \<Longrightarrow> unique_pages (insert_page row_of r db)"
  by (auto simp: unique_pages_def insert_page_def image_def)

lemma fold_insert_page_unique: "unique_pages db \<Longrightarrow> unique_pages (fold (insert_page row_of) rs db)"
  by (induction rs arbitrary: db) (auto simp: insert_page_unique)

lemma fold_insert_page_urls:
  "fst ` set (page_rows (fold (insert_page row_of) rs db))
     = fst ` set (page_rows db) \<union> crawl_page_url ` set rs"
proof (induction rs arbitrary: db)
  case (Cons r rs)
  have "fst ` set (page_rows (insert_page row_of r db))
      = insert (crawl_page_url r) (fst ` set (page_rows db))"
    by (auto simp: insert_page_def)
  with Cons show ?case by auto
qed simp

text \<open>
  C39: \<open>PersistResults\<close> is all or nothing and never duplicates a page. If it reports an error
  the tables are untouched; otherwise every result's URL has a row, earlier rows are kept
  unchanged at the front, and if the URLs were unique they still are, even when the batch
  repeats a URL or replays one that is already stored.
\<close>

theorem persist_results_atomic:
  assumes "persist_results faults row_of rs db = (db', err)"
  shows "(err \<noteq> None \<longrightarrow> db' = db)
    \<and> (err = None \<longrightarrow> fst ` set (page_rows db') = fst ` set (page_rows db) \<union> crawl_page_url ` set rs
         \<and> (\<exists>new. page_rows db' = page_rows db @ new))
    \<and> (unique_pages db \<longrightarrow> unique_pages db')"
proof (cases err)
  case None
  with assms have db': "db' = fold (insert_page row_of) rs db"
    by (simp add: persist_results_None)
  have "\<exists>new. page_rows (fold (insert_page row_of) rs db) = page_rows db @ new"
  proof (induction rs arbitrary: db)
    case (Cons r rs)
    have "\<exists>new. page_rows (insert_page row_of r db) = page_rows db @ new"
      by (auto simp: insert_page_def)
    then show ?case using Cons [of "insert_page row_of r db"] by fastforce
  qed simp
  with None db' show ?thesis
    by (simp add: fold_insert_page_urls fold_insert_page_unique)
next
  case (Some e)
  with assms have "db' = db"
    by (auto simp: persist_results_def split: if_splits option.splits sum.splits)
  with Some show ?thesis by simp
qed

definition sample_result :: "string \<Rightarrow> crawl_result" where
  "sample_result u = new_crawl_result
     \<lparr>job_URL = u, job_Depth = 0, job_ETag = [], job_LastModified = []\<rparr>
     (empty_fetch_result\<lparr>FinalURL := u, StatusCode := 200\<rparr>)"

theorem persist_results_atomic_witness:
  "\<exists>db'. persist_results no_faults Job [sample_result ''https://a.com/'', sample_result ''https://a.com/'']
      \<lparr>page_rows = [], link_rows = []\<rparr> = (db', None)
    \<and> fst ` set (page_rows db') = {''https://a.com/''}"
proof -
  obtain db' where h: "persist_results no_faults Job
      [sample_result ''https://a.com/'', sample_result ''https://a.com/'']
      \<lparr>page_rows = [], link_rows = []\<rparr> = (db', None)"
    using persist_results_no_faults by blast
  from persist_results_atomic [OF h] h show ?thesis
    by (auto simp: sample_result_def new_crawl_result_def crawl_page_url_def)
qed

text \<open>
  Batching is invisible in the database: writing two batches one after the other leaves
  the same page and link rows as writing them in one transaction, so the batch size of 50
  only changes how many transactions are used.
\<close>

theorem persist_results_batching:
  "fst (persist_results no_faults row_of (xs @ ys) db)
     = fst (persist_results no_faults row_of ys (fst (persist_results no_faults row_of xs db)))"
  by (simp add: persist_results_no_faults)

end
