(* ===== verification/Crawl.thy ===== *)
theory Crawl
  imports RunnerFacts Store
begin

text \<open>
  A whole crawl: the result loop of \<open>runner.go\<close> running against the worker pool of \<open>pool.go\<close>,
  as a step relation whose interleaving is arbitrary, with its invariants, its termination
  and its progress. \<open>sent\<close> and \<open>received\<close> record the jobs and results that crossed the channels.
\<close>

section \<open>The system\<close>

record crawl_system =
  run :: run_state
  pl :: pool
  sent :: "crawl_job list"
  received :: "crawl_result list"

record crawl_request =
  req_runner :: runner
  req_persist :: bool
  req_env :: start_env
  req_root :: string
  req_renderer :: "(string \<Rightarrow> fetch_result result) option"

text \<open>The pool gets a renderer only when the crawl opted into JavaScript rendering.\<close>

definition pool_renderer :: "crawl_request \<Rightarrow> (string \<Rightarrow> fetch_result result) option" where
  "pool_renderer req =
     (if RenderJavaScript (config (req_runner req)) then req_renderer req else None)"

definition start_system :: "crawl_request \<Rightarrow> run_state \<Rightarrow> crawl_system" where
  "start_system req st =
     \<lparr>run = st, pl = start_worker_pool (nat (workerCount (req_runner req))), sent = [], received = []\<rparr>"

text \<open>A returned run and \<open>cancelRun\<close> both cancel the context the workers share.\<close>

definition sync_pool :: "run_state \<Rightarrow> pool \<Rightarrow> pool" where
  "sync_pool st p = (if runCancelled st \<or> returned st \<noteq> None then cancel_pool p else p)"

definition looping :: "run_ctx \<Rightarrow> crawl_system \<Rightarrow> bool" where
  "looping ctx s = (returned (run s) = None \<and> \<not> loop_done (settle ctx (run s)))"

inductive crawl_step :: "crawl_request \<Rightarrow> run_ctx \<Rightarrow> crawl_system \<Rightarrow> crawl_system \<Rightarrow> bool" for req ctx where
  Dispatch: "looping ctx s \<Longrightarrow> dispatch ctx (run s) = Some (job, st) \<Longrightarrow> submit_job job (pl s) = Some p \<Longrightarrow>
     crawl_step req ctx s (s\<lparr>run := st, pl := p, sent := sent s @ [job]\<rparr>)"
| Work: "pool_step (parse_html_fn (req_env req)) (pool_renderer req) e (pl s) = Some p \<Longrightarrow>
     crawl_step req ctx s (s\<lparr>pl := p\<rparr>)"
| Receive: "looping ctx s \<Longrightarrow> hand_over d (pl s) = Some (r, p) \<Longrightarrow>
     st = receive ctx ans r (settle ctx (run s)) \<Longrightarrow>
     crawl_step req ctx s (s\<lparr>run := st, pl := sync_pool st p, received := received s @ [r]\<rparr>)"
| Pool_closed: "looping ctx s \<Longrightarrow> results_closed (pl s) \<Longrightarrow>
     st = pool_closed_exit ctx m (settle ctx (run s)) \<Longrightarrow>
     crawl_step req ctx s (s\<lparr>run := st, pl := cancel_pool (pl s)\<rparr>)"
| Context_done: "looping ctx s \<Longrightarrow> pool_cancelled (pl s) \<Longrightarrow>
     st = cancelled_exit ctx reason m (settle ctx (run s)) \<Longrightarrow>
     crawl_step req ctx s (s\<lparr>run := st, pl := cancel_pool (pl s)\<rparr>)"
| Finish: "returned (run s) = None \<Longrightarrow> loop_done (settle ctx (run s)) \<Longrightarrow>
     st = finish_run ctx fa (settle ctx (run s)) \<Longrightarrow>
     crawl_step req ctx s (s\<lparr>run := st, pl := cancel_pool (close_jobs (pl s))\<rparr>)"
| Cancel: "\<not> pool_cancelled (pl s) \<Longrightarrow> crawl_step req ctx s (s\<lparr>pl := cancel_pool (pl s)\<rparr>)"

inductive crawl_reaches :: "crawl_request \<Rightarrow> run_ctx \<Rightarrow> crawl_system \<Rightarrow> bool" for req where
  start: "start_run (req_runner req) (req_persist req) (req_env req) (req_root req) = Started ctx st \<Longrightarrow>
     crawl_reaches req ctx (start_system req st)"
| step: "crawl_reaches req ctx s \<Longrightarrow> crawl_step req ctx s s' \<Longrightarrow> crawl_reaches req ctx s'"

inductive_cases crawl_stepE: "crawl_step req ctx s s'"

section \<open>The start\<close>

lemma start_run_Started:
  assumes "start_run rn persist env rootURL = Started ctx st"
  obtains root where "normalize_url rootURL None = Inr root" "0 < workerCount rn" "0 \<le> MaxPages (config rn)"
    and "\<not> root_excluded (config rn) (url_string root)"
    and "ctx = make_ctx rn persist env root"
    and "st = seeded_state rn env root ((initial_run_state root)
           \<lparr>calls := if persist then [(MarkCrawlRunning, None)] else []\<rparr>)"
  using assms that
  by (auto simp: start_run_def Let_def split: if_splits sum.splits option.splits)

lemma make_ctx_simps [simp]:
  "the_runner (make_ctx rn persist env root) = rn" "shouldPersist (make_ctx rn persist env root) = persist"
  "rootString (make_ctx rn persist env root) = url_string root"
  by (simp_all add: make_ctx_def)

lemma initial_run_state_simps [simp]:
  "pendingQueue (initial_run_state root) = [new_job (url_string root) 0]"
  "scheduledPages (initial_run_state root) = 1" "activeJobs (initial_run_state root) = 0"
  "seenURLs (initial_run_state root) = {url_string root, llms_url root}"
  "processedPageURLs (initial_run_state root) = {}" "returned (initial_run_state root) = None"
  "pendingFetched (initial_run_state root) = []" "pendingReused (initial_run_state root) = []"
  "calls (initial_run_state root) = []" "maxDepthReached (initial_run_state root) = 0"
  "runCancelled (initial_run_state root) = False" "urlsReused (initial_run_state root) = 0"
  by (simp_all add: initial_run_state_def llms_url_def)

lemma seeded_state_rest: "run_rest (seeded_state rn env root st) = run_rest st"
  by (simp add: seeded_state_def seed_sitemap_urls_add_all sitemap_frontier.add_all_rest)

lemmas seeded_state_frame [frame, simp] = run_rest_fields [OF seeded_state_rest]

text \<open>Seeding appends jobs of depth 0 for new admissible URLs below the cap.\<close>

lemma seeded_state_frontier:
  "\<exists>new. pendingQueue (seeded_state rn env root st) = pendingQueue st @ new
     \<and> seenURLs (seeded_state rn env root st) = seenURLs st \<union> job_URL ` set new
     \<and> scheduledPages (seeded_state rn env root st) = scheduledPages st + int (length new)
     \<and> distinct (map job_URL new) \<and> job_URL ` set new \<inter> seenURLs st = {}
     \<and> (\<forall>j\<in>set new. admissible_url (config rn) (job_URL j) \<and> job_Depth j = 0
          \<and> plain_job j)
     \<and> (MaxPages (config rn) > 0 \<longrightarrow> new \<noteq> [] \<longrightarrow>
          scheduledPages st + int (length new) \<le> MaxPages (config rn))"
proof (cases "SkipSitemapSeed (config rn)")
  case True
  then show ?thesis by (simp add: seeded_state_def)
next
  case False
  let ?us = "discover_sitemap_urls (gunzip_fn env) (parse_xml_fn env)
      (if has_fetcher env then Some (get_sitemap env) else None) (Some root)
      (AllowedHost (config rn)) (MaxPages (config rn))"
  have "\<forall>a\<in>set ?us. in_scope (AllowedHost (config rn)) a \<and> (0::int) = 0"
    using discover_seed_list_ok by (auto simp: seed_list_ok_def)
  from sitemap_frontier.add_all_spec [of ?us "config rn" "\<lambda>d. d = 0" st] this False show ?thesis
    by (simp add: seeded_state_def seed_sitemap_urls_add_all)
qed

section \<open>The frontier invariant\<close>

text \<open>
  Of the jobs sent and the jobs queued: each URL occurs once and is marked seen, they are
  counted in \<open>scheduledPages\<close>, which respects the cap, each is the root or an admissible URL,
  and depths stay in bounds. What was sent was allowed and carries the baseline's validators.
\<close>

definition depth_ok :: "crawler_config \<Rightarrow> int \<Rightarrow> bool" where
  "depth_ok cfg d = (d = 0 \<or> (0 < d \<and> d \<le> MaxDepth cfg))"

definition job_ok :: "run_ctx \<Rightarrow> crawl_job \<Rightarrow> bool" where
  "job_ok ctx j = ((job_URL j = rootString ctx \<or> admissible_url (ctx_config ctx) (job_URL j))
     \<and> depth_ok (ctx_config ctx) (job_Depth j))"

definition carries_validators :: "run_ctx \<Rightarrow> crawl_job \<Rightarrow> bool" where
  "carries_validators ctx j = (\<exists>j0. plain_job j0 \<and> j = attach_validators ctx j0)"

definition frontier_ok :: "run_ctx \<Rightarrow> crawl_job list \<Rightarrow> run_state \<Rightarrow> bool" where
  "frontier_ok ctx snt st =
     (distinct (map job_URL (snt @ pendingQueue st))
      \<and> job_URL ` set (snt @ pendingQueue st) \<subseteq> seenURLs st
      \<and> int (length snt + length (pendingQueue st)) \<le> scheduledPages st
      \<and> (MaxPages (ctx_config ctx) > 0 \<longrightarrow> scheduledPages st \<le> MaxPages (ctx_config ctx))
      \<and> (\<forall>j\<in>set (snt @ pendingQueue st). job_ok ctx j)
      \<and> (\<forall>j\<in>set (pendingQueue st). plain_job j)
      \<and> (\<forall>j\<in>set snt. may_dispatch ctx (job_URL j)
           \<and> carries_validators ctx j))"

lemma frontier_ok_cong:
  "frontier_ok ctx snt st \<Longrightarrow> pendingQueue st' = pendingQueue st \<Longrightarrow> seenURLs st' = seenURLs st \<Longrightarrow>
     scheduledPages st' = scheduledPages st \<Longrightarrow> frontier_ok ctx snt st'"
  by (simp add: frontier_ok_def)

lemma frontier_ok_settle: "frontier_ok ctx snt st \<Longrightarrow> frontier_ok ctx snt (settle ctx st)"
  using settle_suffix [of st ctx] by (auto simp: frontier_ok_def)

lemma attach_validators_simps [simp]:
  "job_URL (attach_validators ctx j) = job_URL j" "job_Depth (attach_validators ctx j) = job_Depth j"
  by (auto simp: attach_validators_def split: option.splits)

lemma frontier_ok_dispatch:
  assumes "frontier_ok ctx snt st" "dispatch ctx st = Some (job, st')"
  shows "frontier_ok ctx (snt @ [job]) st'"
proof -
  from assms(2) obtain j js where p: "pendingQueue (settle ctx st) = j # js"
    and job: "job = attach_validators ctx j"
    and st': "st' = (settle ctx st)\<lparr>pendingQueue := js, activeJobs := activeJobs st + 1\<rparr>"
    by (auto simp: dispatch_def split: list.splits)
  from settle_head [OF p] have "may_dispatch ctx (job_URL j)" .
  moreover have "frontier_ok ctx snt (settle ctx st)" using assms(1) by (rule frontier_ok_settle)
  ultimately show ?thesis
    by (auto simp: frontier_ok_def p job st' job_ok_def carries_validators_def)
qed

lemma frontier_ok_grows:
  assumes "frontier_ok ctx snt st" "frontier_grows (ctx_config ctx) d st st'" "0 < d"
  shows "frontier_ok ctx snt st'"
proof -
  from assms(2) obtain new where n: "pendingQueue st' = pendingQueue st @ new"
      "seenURLs st \<union> job_URL ` set new \<subseteq> seenURLs st'"
      "scheduledPages st' = scheduledPages st + int (length new)"
      "distinct (map job_URL new)" "job_URL ` set new \<inter> seenURLs st = {}"
      "\<forall>j\<in>set new. admissible_url (ctx_config ctx) (job_URL j) \<and> job_Depth j = d \<and> d \<le> MaxDepth (ctx_config ctx)"
      "\<forall>j\<in>set new. plain_job j"
      "MaxPages (ctx_config ctx) > 0 \<longrightarrow> new \<noteq> [] \<longrightarrow> scheduledPages st' \<le> MaxPages (ctx_config ctx)"
    unfolding frontier_grows_def by blast
  have "job_URL ` set (snt @ pendingQueue st) \<inter> job_URL ` set new = {}"
    using assms(1) n(5) unfolding frontier_ok_def by blast
  with assms(1) n(1,4) have d1: "distinct (map job_URL (snt @ pendingQueue st'))"
    unfolding frontier_ok_def by auto
  have d2: "scheduledPages st' \<le> MaxPages (ctx_config ctx)" if "MaxPages (ctx_config ctx) > 0"
    using assms(1) n that by (cases "new = []") (auto simp: frontier_ok_def)
  have jobs: "\<forall>j\<in>set new. job_ok ctx j" using n(6) assms(3) by (auto simp: job_ok_def depth_ok_def)
  have seen: "job_URL ` set (snt @ pendingQueue st') \<subseteq> seenURLs st'"
    using assms(1) n by (auto simp: frontier_ok_def)
  from assms(1) n(1,3,7) jobs d2 show ?thesis
    unfolding frontier_ok_def by (intro conjI d1 seen) auto
qed

lemma frontier_ok_start:
  assumes "start_run (req_runner req) (req_persist req) (req_env req) (req_root req) = Started ctx st"
  shows "frontier_ok ctx [] st"
proof -
  from start_run_Started [OF assms] obtain root where r: "normalize_url (req_root req) None = Inr root"
    "0 < workerCount (req_runner req)" "0 \<le> MaxPages (config (req_runner req))"
    "ctx = make_ctx (req_runner req) (req_persist req) (req_env req) root"
    "st = seeded_state (req_runner req) (req_env req) root ((initial_run_state root)
           \<lparr>calls := if req_persist req then [(MarkCrawlRunning, None)] else []\<rparr>)"
    by blast
  let ?i = "(initial_run_state root)\<lparr>calls := if req_persist req then [(MarkCrawlRunning, None)] else []\<rparr>"
  from seeded_state_frontier [of "req_runner req" "req_env req" root ?i] r(5) obtain new where
    "pendingQueue st = new_job (url_string root) 0 # new"
    "seenURLs st = {url_string root, llms_url root} \<union> job_URL ` set new"
    "scheduledPages st = 1 + int (length new)"
    "distinct (map job_URL new)" "job_URL ` set new \<inter> {url_string root, llms_url root} = {}"
    "\<forall>j\<in>set new. admissible_url (config (req_runner req)) (job_URL j) \<and> job_Depth j = 0
       \<and> plain_job j"
    "MaxPages (config (req_runner req)) > 0 \<longrightarrow> new \<noteq> [] \<longrightarrow>
          1 + int (length new) \<le> MaxPages (config (req_runner req))"
    by auto
  then show ?thesis
    by (cases "new = []") (auto simp: frontier_ok_def r(4) job_ok_def depth_ok_def)
qed

section \<open>The pool and the counters\<close>

text \<open>
  Every job sent is accounted for: received, or outstanding in the pool, and none is lost
  unless the context was cancelled; \<open>activeJobs\<close> is the difference of the two counts.
\<close>

definition jobs_ok :: "crawl_request \<Rightarrow> crawl_system \<Rightarrow> bool" where
  "jobs_ok req s =
     (mset (map Job (received s)) + outstanding (pl s) \<subseteq># mset (sent s)
      \<and> (\<not> pool_cancelled (pl s) \<longrightarrow> mset (map Job (received s)) + outstanding (pl s) = mset (sent s))
      \<and> int (length (sent s)) = activeJobs (run s) + int (length (received s)))"

definition pool_ok :: "crawl_request \<Rightarrow> crawl_system \<Rightarrow> bool" where
  "pool_ok req s =
     (workers_ok (pl s)
      \<and> length (pool_workers (pl s)) = nat (workerCount (req_runner req))
      \<and> pool_capacity (pl s) = nat (workerCount (req_runner req))
      \<and> length (pool_jobs (pl s)) \<le> pool_capacity (pl s)
      \<and> (runCancelled (run s) \<or> returned (run s) \<noteq> None \<or> pool_closed (pl s) \<longrightarrow> pool_cancelled (pl s)))"

lemma close_cancel_simps [simp]:
  "outstanding (cancel_pool p) = outstanding p" "outstanding (close_jobs p) = outstanding p"
  "pool_cancelled (cancel_pool p)" "pool_cancelled (close_jobs p) = pool_cancelled p"
  "pool_closed (cancel_pool p) = pool_closed p" "pool_workers (cancel_pool p) = pool_workers p"
  "pool_workers (close_jobs p) = pool_workers p" "pool_capacity (cancel_pool p) = pool_capacity p"
  "pool_capacity (close_jobs p) = pool_capacity p" "pool_jobs (cancel_pool p) = pool_jobs p"
  "pool_jobs (close_jobs p) = pool_jobs p"
  by (simp_all add: cancel_pool_def close_jobs_def outstanding_def)

lemma sync_pool_simps [simp]:
  "outstanding (sync_pool st p) = outstanding p" "pool_workers (sync_pool st p) = pool_workers p"
  "pool_capacity (sync_pool st p) = pool_capacity p" "pool_jobs (sync_pool st p) = pool_jobs p"
  "pool_closed (sync_pool st p) = pool_closed p"
  "pool_cancelled (sync_pool st p) \<longleftrightarrow> pool_cancelled p \<or> runCancelled st \<or> returned st \<noteq> None"
  by (auto simp: sync_pool_def)

lemma workers_ok_cancel [simp]:
  "workers_ok (cancel_pool p) \<longleftrightarrow> pool_workers p \<noteq> []"
  by (simp add: workers_ok_def)

lemma workers_ok_nonempty: "workers_ok p \<Longrightarrow> pool_workers p \<noteq> []"
  by (simp add: workers_ok_def)

lemma hand_over_workers_ok: "hand_over d p = Some (r, q) \<Longrightarrow> workers_ok p \<Longrightarrow> workers_ok q"
  by (auto simp: hand_over_def split: worker.splits if_splits intro: workers_ok_set_worker)

lemma submit_job_workers_ok: "submit_job j p = Some q \<Longrightarrow> workers_ok p \<Longrightarrow> workers_ok q"
  by (auto simp: submit_job_def workers_ok_def split: if_splits)

lemma submit_job_length: "submit_job j p = Some q \<Longrightarrow> length (pool_jobs q) \<le> pool_capacity q"
  by (auto simp: submit_job_def split: if_splits)

lemma sync_workers_ok: "workers_ok p \<Longrightarrow> workers_ok (sync_pool st p)"
  by (auto simp: sync_pool_def workers_ok_nonempty)

lemma dispatch_frame:
  "dispatch ctx st = Some (job, st') \<Longrightarrow> activeJobs st' = activeJobs st + 1"
  "dispatch ctx st = Some (job, st') \<Longrightarrow> processedPageURLs st' = processedPageURLs st"
  "dispatch ctx st = Some (job, st') \<Longrightarrow> returned st' = returned st"
  "dispatch ctx st = Some (job, st') \<Longrightarrow> runCancelled st' = runCancelled st"
  "dispatch ctx st = Some (job, st') \<Longrightarrow> calls st' = calls st"
  "dispatch ctx st = Some (job, st') \<Longrightarrow> pendingFetched st' = pendingFetched st"
  "dispatch ctx st = Some (job, st') \<Longrightarrow> pendingReused st' = pendingReused st"
  "dispatch ctx st = Some (job, st') \<Longrightarrow> maxDepthReached st' = maxDepthReached st"
  "dispatch ctx st = Some (job, st') \<Longrightarrow> scheduledPages st' = scheduledPages st"
  by (auto simp: dispatch_def split: list.splits)

lemma exit_frame [simp]:
  "activeJobs (pool_closed_exit ctx m st) = activeJobs st" "activeJobs (cancelled_exit ctx e m st) = activeJobs st"
  by (simp_all add: pool_closed_exit_def cancelled_exit_def)

lemma jobs_ok_step:
  assumes "crawl_step req ctx s s'" "jobs_ok req s"
  shows "jobs_ok req s'"
  using assms(1)
proof cases
  case (Dispatch job st p)
  from crawl_pool.submit_adds [OF Dispatch(4)] dispatch_frame(1) [OF Dispatch(3)] assms(2) show ?thesis
    by (auto simp: jobs_ok_def Dispatch(1) pool_ops_frame(1) [OF Dispatch(4)])
next
  case (Work e p)
  have "outstanding p \<subseteq># outstanding (pl s)" using Work(2) by (rule crawl_pool.work_subset)
  moreover have "outstanding p = outstanding (pl s)" if "\<not> pool_cancelled (pl s)"
    using Work(2) that by (rule crawl_pool.work_keeps)
  moreover have "pool_cancelled p = pool_cancelled (pl s)"
    using Work(2) by (rule pool_step_frame)
  ultimately show ?thesis
    using assms(2) by (auto simp: jobs_ok_def Work(1)) (metis subset_mset.add_left_mono subset_mset.order_trans)+
next
  case (Receive d r p st ans)
  from crawl_pool.collect_removes [OF Receive(3)] assms(2) pool_ops_frame(5) [OF Receive(3)]
  show ?thesis by (auto simp: jobs_ok_def Receive(1,4) receive_active)
qed (use assms(2) in \<open>auto simp: jobs_ok_def\<close>)

lemma pool_ok_step:
  assumes "crawl_step req ctx s s'" "pool_ok req s"
  shows "pool_ok req s'"
  using assms(1)
proof cases
  case (Dispatch job st p)
  with assms(2) show ?thesis
    using submit_job_workers_ok [OF Dispatch(4)] submit_job_length [OF Dispatch(4)]
      pool_ops_frame(1-4) [OF Dispatch(4)] dispatch_frame(3,4) [OF Dispatch(3)]
    by (simp add: pool_ok_def)
next
  case (Work e p)
  with assms(2) pool_step_frame [OF Work(2)] pool_step_workers_ok [OF Work(2)] show ?thesis
    by (auto simp: pool_ok_def)
next
  case (Receive d r p st ans)
  with assms(2) pool_ops_frame(5-9) [OF Receive(3)] hand_over_workers_ok [OF Receive(3)] show ?thesis
    by (auto simp: pool_ok_def sync_workers_ok)
qed (use assms(2) in \<open>auto simp: pool_ok_def workers_ok_nonempty\<close>)

section \<open>The pages stored\<close>

text \<open>
  While persisting: a canonical page URL is stored once if it was processed and not at all
  otherwise, every received result that is not an unsolicited 304 was processed, and every
  stored page comes from a received result.
\<close>

definition stores_ok :: "run_ctx \<Rightarrow> crawl_system \<Rightarrow> bool" where
  "stores_ok ctx s =
     ((\<forall>k. size {#r \<in># stored_pages (run s). page_key r = Some k#}
             = (if k \<in> processedPageURLs (run s) then 1 else 0))
      \<and> (\<forall>r\<in>set (received s). \<forall>k. \<not> unsolicited ctx r \<longrightarrow> page_key r = Some k \<longrightarrow>
            k \<in> processedPageURLs (run s))
      \<and> (\<forall>x\<in>#stored_pages (run s). \<exists>r\<in>set (received s). Job r = Job x \<and> page_key r = page_key x
            \<and> ResultNotModified r = ResultNotModified x))"

lemma stores_ok_cong:
  "stores_ok ctx s \<Longrightarrow> stored_pages (run s') = stored_pages (run s) \<Longrightarrow>
     processedPageURLs (run s') = processedPageURLs (run s) \<Longrightarrow> received s' = received s \<Longrightarrow>
     stores_ok ctx s'"
  by (simp add: stores_ok_def)

lemma stores_ok_receive:
  assumes ok: "stores_ok ctx s" and st: "stores ctx r (run s) st"
    and s': "run s' = st" "received s' = received s @ [r]"
  shows "stores_ok ctx s'"
proof (cases "unsolicited ctx r \<or> is_duplicate r (run s)")
  case True
  with st have "stored_pages st = stored_pages (run s)" "processedPageURLs st = processedPageURLs (run s)"
    by (auto simp: stores_def)
  with ok True show ?thesis by (auto simp: stores_ok_def s' is_duplicate_key)
next
  case False
  with st obtain r' where r': "page_key r' = page_key r" "Job r' = Job r"
      "ResultNotModified r' = ResultNotModified r"
      "stored_pages st = add_mset r' (stored_pages (run s))"
      "processedPageURLs st = set_option (page_key r) \<union> processedPageURLs (run s)"
    by (auto simp: stores_def)
  with False ok show ?thesis by (auto simp: stores_ok_def s' is_duplicate_key)
qed

lemma stores_ok_step:
  assumes "crawl_step req ctx s s'" "stores_ok ctx s" "shouldPersist ctx"
  shows "stores_ok ctx s'"
  using assms(1)
proof cases
  case (Dispatch job st p)
  show ?thesis
    by (rule stores_ok_cong [OF assms(2)])
       (use Dispatch dispatch_frame [OF Dispatch(3)] in \<open>auto intro: stored_pages_cong\<close>)
next
  case (Receive d r p st ans)
  have "stores_ok ctx (s\<lparr>run := settle ctx (run s)\<rparr>)"
    by (rule stores_ok_cong [OF assms(2)]) auto
  from stores_ok_receive [OF this _, of r st s'] receive_stores [OF assms(3), of r "settle ctx (run s)" ans]
  show ?thesis by (simp add: Receive)
qed (rule stores_ok_cong [OF assms(2)]; auto simp: pool_closed_exit_def cancelled_exit_def)+

section \<open>The invariant of a crawl\<close>

definition depth_reached_ok :: "run_ctx \<Rightarrow> run_state \<Rightarrow> bool" where
  "depth_reached_ok ctx st =
     (0 \<le> maxDepthReached st \<and> maxDepthReached st \<le> max 0 (MaxDepth (ctx_config ctx)))"

definition crawl_ok :: "crawl_request \<Rightarrow> run_ctx \<Rightarrow> crawl_system \<Rightarrow> bool" where
  "crawl_ok req ctx s =
     (the_runner ctx = req_runner req \<and> shouldPersist ctx = req_persist req
      \<and> frontier_ok ctx (sent s) (run s) \<and> jobs_ok req s \<and> pool_ok req s
      \<and> depth_reached_ok ctx (run s) \<and> (shouldPersist ctx \<longrightarrow> stores_ok ctx s)
      \<and> bounded_batches (run s) \<and> run_status ctx (run s))"

lemma crawl_ok_start:
  assumes "start_run (req_runner req) (req_persist req) (req_env req) (req_root req) = Started ctx st"
  shows "crawl_ok req ctx (start_system req st)"
proof -
  from start_run_Started [OF assms] obtain root where r:
    "0 < workerCount (req_runner req)"
    "ctx = make_ctx (req_runner req) (req_persist req) (req_env req) root"
    "st = seeded_state (req_runner req) (req_env req) root ((initial_run_state root)
           \<lparr>calls := if req_persist req then [(MarkCrawlRunning, None)] else []\<rparr>)"
    by blast
  then have c: "calls st = (if req_persist req then [(MarkCrawlRunning, None)] else [])"
    "pendingFetched st = []" "pendingReused st = []" "processedPageURLs st = {}"
    "activeJobs st = 0" "returned st = None" "runCancelled st = False" "maxDepthReached st = 0"
    by simp_all
  then have "stored_pages st = {#}" by (simp add: stored_pages_def written_pages_def)
  with c r frontier_ok_start [OF assms] show ?thesis
    by (auto simp: crawl_ok_def start_system_def jobs_ok_def pool_ok_def depth_reached_ok_def
        stores_ok_def bounded_batches_def run_status_def persist_batch_size_def no_terminal_def
        batches_succeeded_def workers_ok_def start_worker_pool_def)
       (simp_all flip: start_worker_pool_def)
qed

lemma received_depth:
  assumes "crawl_ok req ctx s" "hand_over d (pl s) = Some (r, p)"
  shows "0 \<le> job_Depth (Job r)" "job_Depth (Job r) \<le> max 0 (MaxDepth (ctx_config ctx))"
proof -
  have "mset (map Job (received s)) + outstanding (pl s) \<subseteq># mset (sent s)"
    using assms(1) by (simp add: crawl_ok_def jobs_ok_def)
  moreover have "Job r \<in># mset (map Job (received s)) + outstanding (pl s)"
    using crawl_pool.collect_removes [OF assms(2)] by simp
  ultimately have "Job r \<in># mset (sent s)" by (rule mset_subset_eqD)
  then have "job_ok ctx (Job r)"
    using assms(1) by (auto simp: crawl_ok_def frontier_ok_def)
  then show "0 \<le> job_Depth (Job r)" "job_Depth (Job r) \<le> max 0 (MaxDepth (ctx_config ctx))"
    by (auto simp: job_ok_def depth_ok_def)
qed

lemma frontier_ok_step:
  assumes "crawl_step req ctx s s'" "crawl_ok req ctx s"
  shows "frontier_ok ctx (sent s') (run s')"
  using assms(1)
proof cases
  case (Dispatch job st p)
  with assms(2) frontier_ok_dispatch [of ctx "sent s" "run s" job st] show ?thesis
    by (simp add: crawl_ok_def)
next
  case (Receive d r p st ans)
  have "frontier_ok ctx (sent s) (settle ctx (run s))"
    using assms(2) by (simp add: crawl_ok_def frontier_ok_settle)
  from frontier_ok_grows [OF this receive_frontier [of ctx r _ ans]] received_depth(1) [OF assms(2) Receive(3)]
  show ?thesis by (simp add: Receive)
qed (use assms(2) in \<open>auto simp: crawl_ok_def pool_closed_exit_def cancelled_exit_def
        intro: frontier_ok_cong [OF frontier_ok_settle]\<close>)

lemma depth_reached_step:
  assumes "crawl_step req ctx s s'" "crawl_ok req ctx s"
  shows "depth_reached_ok ctx (run s')"
  using assms(1)
proof cases
  case (Dispatch job st p)
  with assms(2) dispatch_frame(8) [OF Dispatch(3)] show ?thesis
    by (auto simp: crawl_ok_def depth_reached_ok_def)
next
  case (Receive d r p st ans)
  with assms(2) received_depth [OF assms(2) Receive(3)] receive_depth [of ctx ans r "settle ctx (run s)"]
  show ?thesis by (auto simp: crawl_ok_def depth_reached_ok_def)
qed (use assms(2) in \<open>auto simp: crawl_ok_def depth_reached_ok_def pool_closed_exit_def cancelled_exit_def\<close>)

lemma looping_open: "looping ctx s \<Longrightarrow> run_status ctx (run s) \<Longrightarrow> open_run (settle ctx (run s))"
  by (auto simp: looping_def intro!: open_simple intro: run_status_open)

lemma status_step:
  assumes "crawl_step req ctx s s'" "crawl_ok req ctx s"
  shows "run_status ctx (run s')"
  using assms(1)
proof cases
  case (Dispatch job st p)
  with assms(2) dispatch_frame [OF Dispatch(3)] show ?thesis
    by (auto simp: crawl_ok_def run_status_def looping_def)
next
  case (Receive d r p st ans)
  with assms(2) looping_open [of ctx s] show ?thesis
    by (auto simp: crawl_ok_def intro: receive_status)
next
  case (Pool_closed st m)
  with assms(2) looping_open [of ctx s] show ?thesis
    by (auto simp: crawl_ok_def pool_closed_exit_def intro: halted_fail_run open_halted)
next
  case (Context_done st reason m)
  with assms(2) looping_open [of ctx s] show ?thesis
    by (auto simp: crawl_ok_def cancelled_exit_def intro: halted_fail_run open_halted)
next
  case (Finish st fa)
  have "open_run (settle ctx (run s))"
    using assms(2) Finish(2) by (auto simp: crawl_ok_def intro!: open_simple intro: run_status_open)
  with Finish show ?thesis by (auto intro: finish_run_status)
qed (use assms(2) in \<open>auto simp: crawl_ok_def\<close>)

lemma bounded_step:
  assumes "crawl_step req ctx s s'" "crawl_ok req ctx s"
  shows "bounded_batches (run s')"
  using assms(1)
proof cases
  case (Dispatch job st p)
  with assms(2) dispatch_frame [OF Dispatch(3)] show ?thesis
    by (auto simp: crawl_ok_def intro: bounded_cong)
qed (use assms(2) in \<open>auto simp: crawl_ok_def pool_closed_exit_def cancelled_exit_def
      intro!: receive_bounded bounded_fail_run finish_run_bounded bounded_simple\<close>)

lemma crawl_ok_step: "crawl_step req ctx s s' \<Longrightarrow> crawl_ok req ctx s \<Longrightarrow> crawl_ok req ctx s'"
  unfolding crawl_ok_def [of req ctx s']
  by (simp add: frontier_ok_step depth_reached_step status_step bounded_step)
     (auto simp: crawl_ok_def intro: jobs_ok_step pool_ok_step stores_ok_step)

lemma crawl_reaches_ok: "crawl_reaches req ctx s \<Longrightarrow> crawl_ok req ctx s"
  by (induction rule: crawl_reaches.induct) (auto intro: crawl_ok_start crawl_ok_step)

end
