(* ===== verification/CrawlProperties.thy ===== *)
theory CrawlProperties
  imports Crawl
begin

text \<open>
  The crawl as an executable interpreter (\<open>perform\<close> is the step relation, one action at a
  time), its termination and progress, and the properties of every reachable state.
\<close>

section \<open>Executable steps\<close>

datatype action =
    Send
  | Worker pool_event
  | Result "nat \<times> int" store_answers
  | Closed "string option"
  | Done string "string option"
  | End finish_answers
  | Stop

fun perform :: "crawl_request \<Rightarrow> run_ctx \<Rightarrow> action \<Rightarrow> crawl_system \<Rightarrow> crawl_system option" where
  "perform req ctx Send s =
     (if looping ctx s
      then (case dispatch ctx (run s) of
              None \<Rightarrow> None
            | Some (job, st) \<Rightarrow>
                (case submit_job job (pl s) of
                   None \<Rightarrow> None
                 | Some p \<Rightarrow> Some (s\<lparr>run := st, pl := p, sent := sent s @ [job]\<rparr>)))
      else None)"
| "perform req ctx (Worker e) s =
     (case pool_step (parse_html_fn (req_env req)) (pool_renderer req) e (pl s) of
        None \<Rightarrow> None | Some p \<Rightarrow> Some (s\<lparr>pl := p\<rparr>))"
| "perform req ctx (Result d ans) s =
     (if looping ctx s
      then (case hand_over d (pl s) of
              None \<Rightarrow> None
            | Some (r, p) \<Rightarrow>
                (let st = receive ctx ans r (settle ctx (run s))
                 in Some (s\<lparr>run := st, pl := sync_pool st p, received := received s @ [r]\<rparr>)))
      else None)"
| "perform req ctx (Closed m) s =
     (if looping ctx s \<and> results_closed (pl s)
      then Some (s\<lparr>run := pool_closed_exit ctx m (settle ctx (run s)), pl := cancel_pool (pl s)\<rparr>)
      else None)"
| "perform req ctx (Done reason m) s =
     (if looping ctx s \<and> pool_cancelled (pl s)
      then Some (s\<lparr>run := cancelled_exit ctx reason m (settle ctx (run s)), pl := cancel_pool (pl s)\<rparr>)
      else None)"
| "perform req ctx (End fa) s =
     (if returned (run s) = None \<and> loop_done (settle ctx (run s))
      then Some (s\<lparr>run := finish_run ctx fa (settle ctx (run s)), pl := cancel_pool (close_jobs (pl s))\<rparr>)
      else None)"
| "perform req ctx Stop s =
     (if pool_cancelled (pl s) then None else Some (s\<lparr>pl := cancel_pool (pl s)\<rparr>))"

fun perform_all :: "crawl_request \<Rightarrow> run_ctx \<Rightarrow> action list \<Rightarrow> crawl_system \<Rightarrow> crawl_system option" where
  "perform_all req ctx [] s = Some s"
| "perform_all req ctx (a # as) s =
     (case perform req ctx a s of None \<Rightarrow> None | Some s' \<Rightarrow> perform_all req ctx as s')"

lemma perform_sound: "perform req ctx a s = Some s' \<Longrightarrow> crawl_step req ctx s s'"
  by (cases a) (auto simp: Let_def split: if_splits option.splits prod.splits intro: crawl_step.intros)

lemma perform_complete: "crawl_step req ctx s s' \<Longrightarrow> \<exists>a. perform req ctx a s = Some s'"
proof (induction rule: crawl_step.induct)
  case (Dispatch s job st p)
  then show ?case by (intro exI [of _ Send]) simp
next
  case (Work e s p)
  then show ?case by (intro exI [of _ "Worker e"]) simp
next
  case (Receive s d r p st ans)
  then show ?case by (intro exI [of _ "Result d ans"]) (simp add: Let_def)
next
  case (Pool_closed s st m)
  then show ?case by (intro exI [of _ "Closed m"]) simp
next
  case (Context_done s st reason m)
  then show ?case by (intro exI [of _ "Done reason m"]) simp
next
  case (Finish s st fa)
  then show ?case by (intro exI [of _ "End fa"]) simp
next
  case (Cancel s)
  then show ?case by (intro exI [of _ Stop]) simp
qed

lemma perform_all_reaches:
  "perform_all req ctx as s = Some s' \<Longrightarrow> crawl_reaches req ctx s \<Longrightarrow> crawl_reaches req ctx s'"
  by (induction "as" arbitrary: s)
     (auto split: option.splits intro: crawl_reaches.step [OF _ perform_sound])

section \<open>A concrete crawl\<close>

text \<open>
  One worker, a root page that links to one internal page and one foreign page; both pages
  are fetched and stored, and the run completes.
\<close>

definition sample_page :: "string \<Rightarrow> parsed_page" where
  "sample_page u = blank_page\<lparr>page_URL := u, VisibleText := ''welcome'',
     Links := [\<lparr>TargetURL = ''https://a.com/b'', AnchorText = ''b'', IsInternal = True, NoFollow = False\<rparr>,
               \<lparr>TargetURL = ''https://z.org/'', AnchorText = ''z'', IsInternal = True, NoFollow = False\<rparr>]\<rparr>"

definition sample_env :: start_env where
  "sample_env = \<lparr>has_fetcher = False, get_robots = (\<lambda>_. fetch_failed ''down''),
     get_sitemap = (\<lambda>_. fetch_failed ''down''), get_llms = (\<lambda>_. fetch_failed ''down''),
     get_probe = (\<lambda>_. fetch_failed ''down''), gunzip_fn = (\<lambda>_. None), parse_xml_fn = (\<lambda>_. None),
     parse_html_fn = (\<lambda>u _ _. Inr (sample_page u)), parse_duration_fn = (\<lambda>_. None),
     sha256_fn = (\<lambda>_. ''h''), probe_token = None, mark_running_error = None, root_mark_error = None\<rparr>"

definition sample_request :: crawl_request where
  "sample_request = \<lparr>req_runner = with_store (new_runner sample_config 1), req_persist = True,
     req_env = sample_env, req_root = ''https://a.com/'', req_renderer = None\<rparr>"

definition page_at :: "string \<Rightarrow> fetch_result" where
  "page_at u = empty_fetch_result\<lparr>FinalURL := u, StatusCode := 200, ContentType := ''text/html''\<rparr>"

definition quiet :: store_answers where
  "quiet = \<lparr>progress_due = False, progress_answer = Inr True, flush_error = None, mark_failed_error = None\<rparr>"

definition all_well :: finish_answers where
  "all_well = \<lparr>fetched_error = None, reused_error = None, finish_mark_error = None, complete_error = None\<rparr>"

definition visit :: "string \<Rightarrow> action list" where
  "visit u = [Send, Worker (Take 0), Worker (Process 0 (page_at u)), Result (0, 0) quiet]"

definition sample_actions :: "action list" where
  "sample_actions = visit ''https://a.com/'' @ visit ''https://a.com/b'' @ [End all_well]"

definition sample_final :: "(run_ctx \<times> crawl_system) option" where
  "sample_final =
     (case start_run (req_runner sample_request) True sample_env ''https://a.com/'' of
        NotStarted _ _ \<Rightarrow> None
      | Started ctx st \<Rightarrow>
          map_option (Pair ctx) (perform_all sample_request ctx sample_actions (start_system sample_request st)))"

lemma sample_final_run:
  "(case sample_final of
      None \<Rightarrow> False
    | Some (ctx, s) \<Rightarrow>
        map job_URL (sent s) = [''https://a.com/'', ''https://a.com/b'']
        \<and> map crawl_page_url (received s) = [''https://a.com/'', ''https://a.com/b'']
        \<and> returned (run s) = Some (Returned \<lparr>URLsDiscovered = 2, URLsCrawled = 2, SummaryMaxDepth = 1,
             HasLlmsTxt = None\<rparr> None)
        \<and> map (length \<circ> batch_of \<circ> fst) (calls (run s)) = [0, 2, 0]
        \<and> length (sent s) = 2 \<and> length (received s) = 2
        \<and> list_all (\<lambda>r. \<not> ResultNotModified r) (received s))"
  by code_simp

lemma sample_reaches:
  obtains ctx s where "crawl_reaches sample_request ctx s"
    and "map job_URL (sent s) = [''https://a.com/'', ''https://a.com/b'']"
    and "map crawl_page_url (received s) = [''https://a.com/'', ''https://a.com/b'']"
    and "returned (run s) = Some (Returned \<lparr>URLsDiscovered = 2, URLsCrawled = 2, SummaryMaxDepth = 1,
             HasLlmsTxt = None\<rparr> None)"
    and "map (length \<circ> batch_of \<circ> fst) (calls (run s)) = [0, 2, 0]"
    and "length (sent s) = 2" and "length (received s) = 2"
    and "list_all (\<lambda>r. \<not> ResultNotModified r) (received s)"
proof -
  obtain ctx s where f: "sample_final = Some (ctx, s)"
    using sample_final_run by (cases sample_final) auto
  then obtain st where st: "start_run (req_runner sample_request) True sample_env ''https://a.com/'' = Started ctx st"
    and p: "perform_all sample_request ctx sample_actions (start_system sample_request st) = Some s"
    by (auto simp: sample_final_def split: run_start.splits)
  have "crawl_reaches sample_request ctx (start_system sample_request st)"
    by (rule crawl_reaches.start) (use st in \<open>simp add: sample_request_def\<close>)
  with p have r: "crawl_reaches sample_request ctx s" by (rule perform_all_reaches)
  note facts = sample_final_run [unfolded f option.case prod.case]
  with r show ?thesis by (intro that [of ctx s]) simp_all
qed

lemma sample_persists: "crawl_reaches sample_request ctx s \<Longrightarrow> shouldPersist ctx"
  using crawl_reaches_ok [of sample_request ctx s] by (simp add: crawl_ok_def sample_request_def)

section \<open>Termination and progress\<close>

definition crawl_weight :: "run_ctx \<Rightarrow> crawl_system \<Rightarrow> nat" where
  "crawl_weight ctx s =
     6 * nat (MaxPages (ctx_config ctx) - scheduledPages (run s)) + 5 * length (pendingQueue (run s))
     + pool_weight (pl s) + (if returned (run s) = None then 1 else 0)
     + (if pool_cancelled (pl s) then 0 else 1)"

lemma settle_length: "length (pendingQueue (settle ctx st)) \<le> length (pendingQueue st)"
  by (simp add: settle_pending length_dropWhile_le)

lemma dispatch_length:
  "dispatch ctx st = Some (job, st') \<Longrightarrow> length (pendingQueue st') < length (pendingQueue st)"
  using settle_length [of ctx st] by (auto simp: dispatch_def split: list.splits)

lemma pool_weight_cancel [simp]:
  "pool_weight (cancel_pool p) = pool_weight p" "pool_weight (close_jobs p) = pool_weight p"
  "pool_weight (sync_pool st p) = pool_weight p"
  by (simp_all add: pool_weight_def)

text \<open>Growing the frontier pays for each queued job with a page of the cap.\<close>

lemma grows_weight:
  assumes "frontier_grows cfg d st st'" "MaxPages cfg > 0" "scheduledPages st \<le> MaxPages cfg"
  shows "6 * nat (MaxPages cfg - scheduledPages st') + 5 * length (pendingQueue st')
       \<le> 6 * nat (MaxPages cfg - scheduledPages st) + 5 * length (pendingQueue st)"
proof -
  from assms(1) obtain new where n: "pendingQueue st' = pendingQueue st @ new"
      "scheduledPages st' = scheduledPages st + int (length new)"
      "MaxPages cfg > 0 \<longrightarrow> new \<noteq> [] \<longrightarrow> scheduledPages st' \<le> MaxPages cfg"
    unfolding frontier_grows_def by blast
  with assms(2,3) have "int (length new) \<le> MaxPages cfg - scheduledPages st"
    by (cases "new = []") auto
  then have "nat (MaxPages cfg - scheduledPages st') + length new = nat (MaxPages cfg - scheduledPages st)"
    using n(2) by simp
  with n(1) show ?thesis by simp
qed

lemma exit_returned [simp]:
  "returned (pool_closed_exit ctx m st) = None \<longleftrightarrow> False"
  "returned (cancelled_exit ctx reason m st) = None \<longleftrightarrow> False"
  "returned (finish_run ctx fa st) = None \<longleftrightarrow> False"
  using fail_run_returned finish_run_returned by (auto simp: pool_closed_exit_def cancelled_exit_def)

lemma exit_frontier [simp]:
  "pendingQueue (pool_closed_exit ctx m st) = pendingQueue st"
  "pendingQueue (cancelled_exit ctx reason m st) = pendingQueue st"
  "scheduledPages (pool_closed_exit ctx m st) = scheduledPages st"
  "scheduledPages (cancelled_exit ctx reason m st) = scheduledPages st"
  by (simp_all add: pool_closed_exit_def cancelled_exit_def)

lemma crawl_step_weight:
  assumes "crawl_step req ctx s s'" "crawl_ok req ctx s" "MaxPages (ctx_config ctx) > 0"
  shows "crawl_weight ctx s' < crawl_weight ctx s"
  using assms(1)
proof cases
  case (Dispatch job st p)
  with dispatch_length [OF Dispatch(3)] dispatch_frame(3,9) [OF Dispatch(3)]
    submit_job_weight [OF Dispatch(4)] pool_ops_frame(1) [OF Dispatch(4)]
  show ?thesis by (simp add: crawl_weight_def)
next
  case (Work e p)
  with pool_step_weight [OF Work(2)] pool_step_frame(1) [OF Work(2)] show ?thesis
    by (simp add: crawl_weight_def)
next
  case (Receive d r p st ans)
  have "scheduledPages (settle ctx (run s)) \<le> MaxPages (ctx_config ctx)"
    using assms(2,3) by (auto simp: crawl_ok_def frontier_ok_def)
  from grows_weight [OF receive_frontier assms(3) this, of ans r] settle_length [of ctx "run s"]
    hand_over_weight [OF Receive(3)] pool_ops_frame(5) [OF Receive(3)] Receive(2)
  show ?thesis by (auto simp: crawl_weight_def Receive(1,4) looping_def)
next
  case (Pool_closed st m)
  with settle_length [of ctx "run s"] show ?thesis by (simp add: crawl_weight_def looping_def)
next
  case (Context_done st reason m)
  with settle_length [of ctx "run s"] show ?thesis by (simp add: crawl_weight_def looping_def)
next
  case (Finish st fa)
  with settle_length [of ctx "run s"] show ?thesis by (simp add: crawl_weight_def)
qed (simp add: crawl_weight_def)

lemma relpowp_weight:
  assumes "(crawl_step req ctx ^^ n) s s'" "crawl_ok req ctx s" "MaxPages (ctx_config ctx) > 0"
  shows "n + crawl_weight ctx s' \<le> crawl_weight ctx s \<and> crawl_ok req ctx s'"
  using assms(1)
proof (induction n arbitrary: s')
  case (Suc n)
  then obtain t where "(crawl_step req ctx ^^ n) s t" "crawl_step req ctx t s'" by auto
  with Suc.IH [of t] crawl_step_weight [of req ctx t s'] assms(3) crawl_ok_step [of req ctx t s']
  show ?case by fastforce
qed (use assms(2) in simp)

text \<open>What the loop and the workers do while nobody cancels the context.\<close>

fun live_action :: "action \<Rightarrow> bool" where
  "live_action (Closed m) = False"
| "live_action (Done reason m) = False"
| "live_action Stop = False"
| "live_action _ = True"

lemma quiet_progress [simp]: "maybe_write_progress ctx quiet st = st"
  by (simp add: maybe_write_progress_def quiet_def)

lemma quiet_save:
  "save_fetched ctx r (flush_error quiet) st = (st', err) \<Longrightarrow> err = None \<and> returned st' = returned st \<and> runCancelled st' = runCancelled st"
  "save_reused ctx r (flush_error quiet) st = (st', err) \<Longrightarrow> err = None \<and> returned st' = returned st \<and> runCancelled st' = runCancelled st"
  by (auto simp: save_fetched_def save_reused_def buffer_fetched_def buffer_reused_def flush_fetched_def flush_reused_def
      quiet_def log_call_def Let_def split: if_splits)

lemma count_cancelled [simp]:
  "runCancelled (count_page ctx r st) = runCancelled st" "runCancelled (count_reused r st) = runCancelled st"
  by (simp_all add: count_page_def count_reused_def Let_def)

lemma quiet_receive:
  "returned (receive ctx quiet r st) = returned st \<and> runCancelled (receive ctx quiet r st) = runCancelled st"
proof -
  let ?st = "note_result ctx r st"
  have "returned (handle_page ctx quiet r ?st) = returned st \<and> runCancelled (handle_page ctx quiet r ?st) = runCancelled st"
    by (cases rule: handle_page_cases [where ctx = ctx and ans = quiet and r = r and st = ?st])
       (auto dest!: quiet_save simp: expand_page_def split: option.splits)
  moreover have "returned (handle_not_modified ctx quiet r ?st) = returned st
      \<and> runCancelled (handle_not_modified ctx quiet r ?st) = runCancelled st"
    by (cases rule: handle_not_modified_cases [where ctx = ctx and ans = quiet and r = r and st = ?st])
       (auto dest!: quiet_save simp: expand_reused_def)
  ultimately show ?thesis by (simp add: receive_def Let_def)
qed

lemma finish_all_well: "\<exists>sm. returned (finish_run ctx all_well st) = Some (Returned sm None)"
  by (simp add: finish_run_def flush_fetched_def flush_reused_def complete_run_def return_run_def all_well_def Let_def)

text \<open>A live loop that is not done can go on: the pool moves, delivers a result or takes a job.\<close>

lemma live_step:
  assumes ok: "crawl_ok req ctx s" and l: "looping ctx s" and nc: "\<not> pool_cancelled (pl s)"
  shows "\<exists>a t. live_action a \<and> perform req ctx a s = Some t \<and> returned (run t) = None \<and> \<not> pool_cancelled (pl t)"
proof -
  have r: "returned (run s) = None" using l by (simp add: looping_def)
  have p: "pool_ok req s" "jobs_ok req s" using ok by (simp_all add: crawl_ok_def)
  with nc have w: "workers_ok (pl s)" "\<not> pool_closed (pl s)" and c: "\<not> runCancelled (run s)" by (auto simp: pool_ok_def)
  show ?thesis
  proof (cases "outstanding (pl s) = {#}")
    case False
    from pool_progress [OF w(1) nc w(2) this, of "parse_html_fn (req_env req)" "pool_renderer req"]
    consider (work) e q where "pool_step (parse_html_fn (req_env req)) (pool_renderer req) e (pl s) = Some q"
      | (result) d x q where "hand_over d (pl s) = Some (x, q)" by blast
    then show ?thesis
    proof cases
      case (work e q)
      then show ?thesis using r nc pool_step_frame(1) [OF work] by (intro exI [of _ "Worker e"]) simp
    next
      case (result d x q)
      then show ?thesis using l r c nc pool_ops_frame(5) [OF result] quiet_receive [of ctx x "settle ctx (run s)"]
        by (intro exI [of _ "Result d quiet"]) (simp add: Let_def)
    qed
  next
    case True
    with p(2) nc have "length (received s) = length (sent s)"
      unfolding jobs_ok_def by (metis add.right_neutral length_map size_mset)
    with p(2) have "activeJobs (run s) = 0" by (simp add: jobs_ok_def)
    with l obtain j js where q: "pendingQueue (settle ctx (run s)) = j # js"
      by (auto simp: looping_def loop_done_def neq_Nil_conv)
    obtain job st where d: "dispatch ctx (run s) = Some (job, st)"
      by (simp add: dispatch_def q)
    have "pool_jobs (pl s) = []" using True by (simp add: outstanding_def)
    moreover have "0 < pool_capacity (pl s)"
      using p(1) workers_ok_nonempty [OF w(1)] unfolding pool_ok_def by (metis length_greater_0_conv)
    ultimately have "submit_job job (pl s) = Some (pl s\<lparr>pool_jobs := [job]\<rparr>)"
      using w(2) by (simp add: submit_job_def)
    then show ?thesis using l d r nc dispatch_frame(3) [OF d] by (intro exI [of _ Send]) simp
  qed
qed

lemma live_end:
  assumes "returned (run s) = None" "loop_done (settle ctx (run s))"
  shows "\<exists>t sm. perform req ctx (End all_well) s = Some t \<and> returned (run t) = Some (Returned sm None)"
  using finish_all_well [of ctx "settle ctx (run s)"] assms by simp

lemma live_completes:
  assumes "crawl_ok req ctx s" "returned (run s) = None" "\<not> pool_cancelled (pl s)" "MaxPages (ctx_config ctx) > 0"
  shows "\<exists>as t sm. list_all live_action as \<and> perform_all req ctx as s = Some t \<and> returned (run t) = Some (Returned sm None)"
  using assms(1-3)
proof (induction "crawl_weight ctx s" arbitrary: s rule: less_induct)
  case less
  show ?case
  proof (cases "loop_done (settle ctx (run s))")
    case True
    then obtain t sm where "perform req ctx (End all_well) s = Some t" "returned (run t) = Some (Returned sm None)"
      using live_end less.prems(2) by blast
    then show ?thesis by (intro exI [of _ "[End all_well]"]) simp
  next
    case False
    then have "looping ctx s" using less.prems(2) by (simp add: looping_def)
    then obtain a t where a: "live_action a" "perform req ctx a s = Some t" "returned (run t) = None" "\<not> pool_cancelled (pl t)"
      using live_step less.prems(1,3) by blast
    have step: "crawl_step req ctx s t" by (rule perform_sound [OF a(2)])
    obtain as u sm where "list_all live_action as" "perform_all req ctx as t = Some u" "returned (run u) = Some (Returned sm None)"
      using less.hyps [OF crawl_step_weight [OF step less.prems(1) assms(4)] crawl_ok_step [OF step less.prems(1)] a(3,4)] by blast
    then show ?thesis using a by (intro exI [of _ "a # as"]) simp
  qed
qed

section \<open>Properties of every reachable state\<close>

text \<open>
  C1: a crawl stays in scope. In every reachable state, each job handed to a worker is for the
  crawl's root or a URL in canonical form on the allowed host that matches no exclusion; it is
  not excluded and not disallowed by robots.txt; and its depth is 0 or at most \<open>MaxDepth\<close>.
\<close>

theorem crawl_in_scope:
  assumes "crawl_reaches req ctx s" and "job \<in> set (sent s)"
  shows "(job_URL job = rootString ctx \<or> in_scope (AllowedHost (ctx_config ctx)) (job_URL job))
    \<and> \<not> excludes (ExcludedURLs (ctx_config ctx)) (job_URL job)
    \<and> robots_allowed (robotsRules ctx) (job_URL job)
    \<and> (job_Depth job = 0 \<or> (0 < job_Depth job \<and> job_Depth job \<le> MaxDepth (ctx_config ctx)))"
  using crawl_reaches_ok [OF assms(1)] assms(2)
  by (auto simp: crawl_ok_def frontier_ok_def job_ok_def may_dispatch_def depth_ok_def admissible_url_def)

theorem crawl_in_scope_witness:
  "\<exists>ctx s job. crawl_reaches sample_request ctx s \<and> job \<in> set (sent s)
     \<and> job_URL job = ''https://a.com/b'' \<and> robots_allowed (robotsRules ctx) (job_URL job)"
proof -
  obtain ctx s where r: "crawl_reaches sample_request ctx s"
    and "map job_URL (sent s) = [''https://a.com/'', ''https://a.com/b'']"
    by (rule sample_reaches)
  then have "''https://a.com/b'' \<in> set (map job_URL (sent s))" by simp
  then obtain job where j: "job \<in> set (sent s)" "job_URL job = ''https://a.com/b''" by auto
  from crawl_in_scope [OF r j(1)] j r show ?thesis by blast
qed

text \<open>
  C3: a crawl stays within its limits. In every reachable state no URL has been handed out
  twice; with a positive \<open>MaxPages\<close> at most that many jobs were ever handed out; there are
  exactly \<open>workerCount\<close> workers, the job channel never holds more jobs than that, and
  the reported depth never exceeds \<open>MaxDepth\<close>.
\<close>

theorem crawl_within_limits:
  assumes "crawl_reaches req ctx s"
  shows "distinct (map job_URL (sent s))
    \<and> (MaxPages (ctx_config ctx) > 0 \<longrightarrow> int (length (sent s)) \<le> MaxPages (ctx_config ctx))
    \<and> int (length (pool_workers (pl s))) = workerCount (req_runner req)
    \<and> int (length (pool_jobs (pl s))) \<le> workerCount (req_runner req)
    \<and> maxDepthReached (run s) \<le> max 0 (MaxDepth (ctx_config ctx))"
proof -
  note ok = crawl_reaches_ok [OF assms]
  then have p: "pool_ok req s" by (simp add: crawl_ok_def)
  with workers_ok_nonempty [of "pl s"] have "0 < nat (workerCount (req_runner req))"
    unfolding pool_ok_def by (metis length_greater_0_conv)
  with p have "int (length (pool_workers (pl s))) = workerCount (req_runner req)"
    "int (length (pool_jobs (pl s))) \<le> workerCount (req_runner req)"
    by (auto simp: pool_ok_def)
  with ok show ?thesis by (auto simp: crawl_ok_def frontier_ok_def depth_reached_ok_def)
qed

theorem crawl_within_limits_witness:
  "\<exists>ctx s. crawl_reaches sample_request ctx s \<and> length (sent s) = 2 \<and> distinct (map job_URL (sent s))"
proof -
  obtain ctx s where r: "crawl_reaches sample_request ctx s" and "length (sent s) = 2"
    by (rule sample_reaches)
  with crawl_within_limits [OF r] r show ?thesis by blast
qed

text \<open>
  C6: every job is accounted for. In every reachable state the jobs handed to the pool that are
  not yet received number exactly \<open>activeJobs\<close>; no result is invented or delivered twice; and
  as long as the context is not cancelled none is lost.
\<close>

theorem crawl_accounts_for_jobs:
  assumes "crawl_reaches req ctx s"
  shows "int (length (sent s)) = activeJobs (run s) + int (length (received s))
    \<and> mset (map Job (received s)) + outstanding (pl s) \<subseteq># mset (sent s)
    \<and> (\<not> pool_cancelled (pl s) \<longrightarrow> mset (map Job (received s)) + outstanding (pl s) = mset (sent s))"
  using crawl_reaches_ok [OF assms] by (simp add: crawl_ok_def jobs_ok_def)

theorem crawl_accounts_for_jobs_witness:
  "\<exists>ctx s. crawl_reaches sample_request ctx s \<and> activeJobs (run s) = 0 \<and> length (received s) = 2"
proof -
  obtain ctx s where r: "crawl_reaches sample_request ctx s" and "length (sent s) = 2" "length (received s) = 2"
    by (rule sample_reaches)
  with crawl_accounts_for_jobs [OF r] r show ?thesis by force
qed

text \<open>
  C5: no page is stored twice. In every reachable state of a persisting crawl, at most one of
  the results written or buffered for the store has a given canonical page URL, even when
  several job URLs redirect to it; every batch holds at most 50 results; and whatever is stored
  stems from a result some worker delivered.
\<close>

theorem crawl_stores_pages_once:
  assumes "crawl_reaches req ctx s" and "req_persist req"
  shows "size {#r \<in># stored_pages (run s). page_key r = Some k#} \<le> 1
    \<and> (\<forall>ce\<in>set (calls (run s)). length (batch_of (fst ce)) \<le> 50)
    \<and> (\<forall>x\<in>#stored_pages (run s). \<exists>r\<in>set (received s). Job r = Job x \<and> page_key r = page_key x)"
  using crawl_reaches_ok [OF assms(1)] assms(2)
  by (fastforce simp: crawl_ok_def stores_ok_def bounded_batches_def persist_batch_size_def)

theorem crawl_stores_pages_once_witness:
  "\<exists>ctx s. crawl_reaches sample_request ctx s
     \<and> size {#r \<in># stored_pages (run s). page_key r = Some ''https://a.com/b''#} \<le> 1"
proof -
  obtain ctx s where r: "crawl_reaches sample_request ctx s" by (rule sample_reaches)
  have "req_persist sample_request" by (simp add: sample_request_def)
  from crawl_stores_pages_once [OF r this] r show ?thesis by blast
qed

section \<open>The end of a crawl\<close>

lemma not_success [simp]:
  "returned (fail_run ctx p e m st) = Some (Returned sm None) \<longleftrightarrow> False"
  "returned (pool_closed_exit ctx m st) = Some (Returned sm None) \<longleftrightarrow> False"
  "returned (cancelled_exit ctx e m st) = Some (Returned sm None) \<longleftrightarrow> False"
  by (simp_all add: pool_closed_exit_def cancelled_exit_def fail_run_def return_run_def log_call_def)

lemma expand_returned [simp]:
  "returned (expand_page ctx r st) = returned st" "returned (expand_reused ctx r st) = returned st"
  by (auto simp: expand_page_def expand_reused_def split: option.splits)

lemma save_returned:
  "save_fetched ctx r e st = (st', err) \<Longrightarrow> returned st' = returned st"
  "save_reused ctx r e st = (st', err) \<Longrightarrow> returned st' = returned st"
  using save_frame(8) [of ctx r e st] save_frame(19) [of ctx r e st] by auto

lemma receive_no_success:
  assumes "returned st = None"
  shows "returned (receive ctx ans r st) \<noteq> Some (Returned sm None)"
proof -
  let ?st = "note_result ctx r st"
  have n: "returned ?st = None" using assms by simp
  have "returned (handle_page ctx ans r ?st) \<noteq> Some (Returned sm None)"
    by (cases rule: handle_page_cases [where ctx = ctx and ans = ans and r = r and st = ?st])
       (use n in \<open>auto dest!: save_returned\<close>)
  moreover have "returned (handle_not_modified ctx ans r ?st) \<noteq> Some (Returned sm None)"
    by (cases rule: handle_not_modified_cases [where ctx = ctx and ans = ans and r = r and st = ?st])
       (use n in \<open>auto dest!: save_returned\<close>)
  ultimately show ?thesis using n by (auto simp: receive_def Let_def)
qed

lemma crawl_success_drained:
  "crawl_reaches req ctx s \<Longrightarrow> returned (run s) = Some (Returned sm None) \<Longrightarrow>
     pendingQueue (run s) = [] \<and> activeJobs (run s) \<le> 0"
proof (induction rule: crawl_reaches.induct)
  case (start ctx st)
  then obtain root where "returned st = None"
    by (auto elim!: start_run_Started)
  with start show ?case by (simp add: start_system_def)
next
  case (step ctx s s')
  from step.hyps(2) show ?case
  proof cases
    case (Dispatch job st p)
    with step.prems dispatch_frame(3) [OF Dispatch(3)] show ?thesis by (simp add: looping_def)
  next
    case (Receive d r p st ans)
    with step.prems receive_no_success [of "settle ctx (run s)" ctx ans r sm] show ?thesis
      by (simp add: looping_def)
  next
    case (Pool_closed st m)
    with step.prems show ?thesis by simp
  next
    case (Context_done st reason m)
    with step.prems show ?thesis by simp
  next
    case (Finish st fa)
    then show ?thesis by (simp add: loop_done_def)
  qed (use step in auto)
qed

text \<open>
  C2: a crawl that persists its pages and returns without an error has lost nothing. Every job
  handed out was answered; every store batch succeeded and no result is left in a buffer; and
  each received result with a canonical page URL (other than a 304 that no baseline backs) has
  exactly one page with that URL among the pages written.
\<close>

theorem completed_crawl_stored_everything:
  assumes "crawl_reaches req ctx s" and "req_persist req"
    and "returned (run s) = Some (Returned sm None)"
  shows "mset (map Job (received s)) = mset (sent s)
    \<and> batches_succeeded (calls (run s))
    \<and> pendingFetched (run s) = [] \<and> pendingReused (run s) = []
    \<and> (\<forall>r \<in> set (received s). \<forall>k. \<not> unsolicited ctx r \<longrightarrow> page_key r = Some k \<longrightarrow>
         size {#x \<in># written_pages (run s). page_key x = Some k#} = 1)"
proof -
  note ok = crawl_reaches_ok [OF assms(1)]
  with assms(2,3) have c: "closed_ok ctx (run s) sm" by (simp add: crawl_ok_def run_status_def)
  have j: "jobs_ok req s" using ok by (simp add: crawl_ok_def)
  have "length (sent s) \<le> length (received s)"
    using crawl_success_drained [OF assms(1,3)] j by (simp add: jobs_ok_def)
  moreover have sub: "mset (map Job (received s)) \<subseteq># mset (sent s)"
    using j unfolding jobs_ok_def by (metis mset_subset_eq_add_left subset_mset.order_trans)
  ultimately have eq: "mset (map Job (received s)) = mset (sent s)"
    using mset_subset_size [of "mset (map Job (received s))" "mset (sent s)"]
    by (auto simp: subset_mset.le_less)
  have "stores_ok ctx s" using ok assms(2) by (simp add: crawl_ok_def)
  then have "\<forall>r \<in> set (received s). \<forall>k. \<not> unsolicited ctx r \<longrightarrow> page_key r = Some k \<longrightarrow>
      size {#x \<in># stored_pages (run s). page_key x = Some k#} = 1"
    by (auto simp: stores_ok_def)
  with c eq show ?thesis by (simp add: closed_ok_def stored_pages_def)
qed

theorem completed_crawl_stored_everything_witness:
  "\<exists>ctx s. crawl_reaches sample_request ctx s
     \<and> size {#x \<in># written_pages (run s). page_key x = Some ''https://a.com/b''#} = 1"
proof -
  obtain ctx s where r: "crawl_reaches sample_request ctx s"
    and u: "map crawl_page_url (received s) = [''https://a.com/'', ''https://a.com/b'']"
    and d: "returned (run s) = Some (Returned \<lparr>URLsDiscovered = 2, URLsCrawled = 2, SummaryMaxDepth = 1,
             HasLlmsTxt = None\<rparr> None)"
    and sf: "list_all (\<lambda>r. \<not> ResultNotModified r) (received s)"
    by (rule sample_reaches)
  then have "''https://a.com/b'' \<in> set (map crawl_page_url (received s))" by simp
  then obtain x where x: "x \<in> set (received s)" "crawl_page_url x = ''https://a.com/b''" by auto
  have "normalized_string ''https://a.com/b'' = Some ''https://a.com/b''" by code_simp
  with x have k: "page_key x = Some ''https://a.com/b''" by (simp add: page_key_def)
  have "\<not> unsolicited ctx x" using sf x(1) by (auto simp: unsolicited_def list_all_iff)
  with completed_crawl_stored_everything [OF r _ d] x(1) k r show ?thesis
    by (auto simp: sample_request_def)
qed

text \<open>A reachable state belongs to a run that started.\<close>

lemma reaches_start:
  "crawl_reaches req ctx s \<Longrightarrow> \<exists>st. start_run (req_runner req) (req_persist req) (req_env req) (req_root req) = Started ctx st"
  by (induction rule: crawl_reaches.induct) auto

text \<open>The exits before the loop: the marks that were sent.\<close>

definition root_is_excluded :: "crawl_request \<Rightarrow> bool" where
  "root_is_excluded req =
     (case normalize_url (req_root req) None of
        Inl e \<Rightarrow> False
      | Inr root \<Rightarrow> root_excluded (config (req_runner req)) (url_string root))"

lemma start_run_marks:
  assumes "start_run (req_runner req) True (req_env req) (req_root req) = NotStarted cs e"
  shows "if 0 < workerCount (req_runner req) \<and> 0 \<le> MaxPages (config (req_runner req))
        \<and> mark_running_error (req_env req) = None \<and> root_is_excluded req
      then \<exists>why. cs = [(MarkCrawlRunning, None), (MarkCrawlFailed 1 0 0 why, root_mark_error (req_env req))]
      else no_terminal cs"
  using assms by (auto simp: start_run_def root_is_excluded_def no_terminal_def Let_def split: if_splits sum.splits option.splits)

text \<open>
  C4: the final status of a persisting crawl is written at most once and last, on every exit of
  \<open>run\<close>. Before the loop, a run that ends for its configuration, its root URL or the running mark
  writes no final status, and one whose root is excluded marks the crawl failed with 1 discovered
  and 0 crawled pages. In the loop no final mark is sent until the run returns. If it returns an
  error, the last call is the only such mark and carries the returned summary; otherwise it is the
  completed mark with that summary, or none if the status was deferred to the caller.
\<close>

theorem crawl_final_status_once:
  assumes "req_persist req"
  shows "case start_run (req_runner req) True (req_env req) (req_root req) of
      NotStarted cs e \<Rightarrow>
        (if 0 < workerCount (req_runner req) \<and> 0 \<le> MaxPages (config (req_runner req))
            \<and> mark_running_error (req_env req) = None \<and> root_is_excluded req
         then \<exists>why. cs = [(MarkCrawlRunning, None), (MarkCrawlFailed 1 0 0 why, root_mark_error (req_env req))]
         else no_terminal cs)
    | Started ctx st \<Rightarrow>
        (\<forall>s. crawl_reaches req ctx s \<longrightarrow>
          (case returned (run s) of
             None \<Rightarrow> no_terminal (calls (run s))
           | Some (Returned sm (Some e)) \<Rightarrow> closed_failed (run s) sm
           | Some (Returned sm None) \<Rightarrow>
               (if deferFinalStatus (req_runner req) then no_terminal (calls (run s))
                else (\<exists>before. no_terminal before
                  \<and> calls (run s) = before @ [(MarkCrawlCompleted (URLsDiscovered sm) (URLsCrawled sm)
                        (SummaryMaxDepth sm) (HasLlmsTxt sm), None)]))))"
proof (cases "start_run (req_runner req) True (req_env req) (req_root req)")
  case (NotStarted cs e)
  then show ?thesis using start_run_marks [OF NotStarted] by simp
next
  case (Started ctx st)
  have "case returned (run s) of
      None \<Rightarrow> no_terminal (calls (run s))
    | Some (Returned sm (Some e)) \<Rightarrow> closed_failed (run s) sm
    | Some (Returned sm None) \<Rightarrow>
        (if deferFinalStatus (req_runner req) then no_terminal (calls (run s))
         else (\<exists>before. no_terminal before
           \<and> calls (run s) = before @ [(MarkCrawlCompleted (URLsDiscovered sm) (URLsCrawled sm)
                 (SummaryMaxDepth sm) (HasLlmsTxt sm), None)]))" if "crawl_reaches req ctx s" for s
    using crawl_reaches_ok [OF that] assms
    by (auto simp: crawl_ok_def run_status_def closed_ok_def split: option.splits run_return.splits if_splits)
  then show ?thesis unfolding Started run_start.case by blast
qed

theorem crawl_final_status_once_witness:
  "\<exists>ctx s before. crawl_reaches sample_request ctx s \<and> no_terminal before
     \<and> calls (run s) = before @ [(MarkCrawlCompleted 2 2 1 None, None)]"
proof -
  obtain ctx s where r: "crawl_reaches sample_request ctx s"
    and d: "returned (run s) = Some (Returned \<lparr>URLsDiscovered = 2, URLsCrawled = 2, SummaryMaxDepth = 1,
             HasLlmsTxt = None\<rparr> None)"
    by (rule sample_reaches)
  obtain st where st: "start_run (req_runner sample_request) True (req_env sample_request) (req_root sample_request) = Started ctx st"
    using reaches_start [OF r] by (auto simp: sample_request_def)
  have p: "req_persist sample_request" "\<not> deferFinalStatus (req_runner sample_request)"
    by (simp_all add: sample_request_def with_store_def new_runner_def)
  from crawl_final_status_once [OF p(1)] have "\<exists>before. no_terminal before
      \<and> calls (run s) = before @ [(MarkCrawlCompleted 2 2 1 None, None)]"
    unfolding st run_start.case using r d p(2) by fastforce
  with r show ?thesis by blast
qed

text \<open>
  C7: a crawl with a page cap ends. From the start of the loop no execution has more than
  \<open>6 * MaxPages + workerCount + 1\<close> steps, whatever the pages, the servers and the store answer
  and however the workers interleave.
\<close>

theorem crawl_terminates:
  assumes "start_run (req_runner req) (req_persist req) (req_env req) (req_root req) = Started ctx st"
    and "MaxPages (config (req_runner req)) > 0"
    and "(crawl_step req ctx ^^ n) (start_system req st) s"
  shows "int n \<le> 6 * MaxPages (config (req_runner req)) + workerCount (req_runner req) + 1"
proof -
  note ok = crawl_ok_start [OF assms(1)]
  then have c: "ctx_config ctx = config (req_runner req)" by (simp add: crawl_ok_def)
  have f: "int (length (pendingQueue st)) \<le> scheduledPages st"
    "scheduledPages st \<le> MaxPages (config (req_runner req))"
    using frontier_ok_start [OF assms(1)] assms(2) by (simp_all add: frontier_ok_def c)
  have w: "0 < workerCount (req_runner req)" using assms(1) by (rule start_run_Started)
  have 1: "1 \<le> scheduledPages st"
  proof -
    from start_run_Started [OF assms(1)] obtain root rs where
      "st = seeded_state (req_runner req) (req_env req) root rs" "scheduledPages rs = 1"
      by (metis initial_run_state_simps(2) run_state.select_convs(3) run_state.surjective
          run_state.update_convs(18))
    with seeded_state_frontier [of "req_runner req" "req_env req" root rs] show ?thesis by auto
  qed
  have p: "pool_weight (start_worker_pool k) = k" for k
    by (simp add: pool_weight_def start_worker_pool_def sum_list_replicate)
  have "crawl_weight ctx (start_system req st)
      = 6 * nat (MaxPages (config (req_runner req)) - scheduledPages st) + 5 * length (pendingQueue st)
        + nat (workerCount (req_runner req)) + (if returned st = None then 1 else 0) + 1"
    by (simp add: crawl_weight_def start_system_def p c) (simp add: start_worker_pool_def)
  moreover have "n \<le> crawl_weight ctx (start_system req st)"
    using relpowp_weight [OF assms(3) ok] assms(2) by (simp add: c)
  moreover define A where "A = nat (MaxPages (config (req_runner req)) - scheduledPages st)"
  moreover define W where "W = nat (workerCount (req_runner req))"
  ultimately have "n \<le> 6 * A + 5 * length (pendingQueue st) + W + 2" by (simp split: if_splits)
  moreover have "int A = MaxPages (config (req_runner req)) - scheduledPages st"
    "int W = workerCount (req_runner req)"
    using f w by (simp_all add: A_def W_def)
  ultimately show ?thesis using f 1 by linarith
qed

theorem crawl_terminates_witness:
  "\<exists>ctx st. start_run (req_runner sample_request) True sample_env ''https://a.com/'' = Started ctx st
     \<and> (\<forall>n s. (crawl_step sample_request ctx ^^ n) (start_system sample_request st) s \<longrightarrow> int n \<le> 20)"
proof -
  obtain ctx st where st: "start_run (req_runner sample_request) True sample_env ''https://a.com/'' = Started ctx st"
    using sample_final_run by (cases "start_run (req_runner sample_request) True sample_env ''https://a.com/''")
      (auto simp: sample_final_def)
  have "int n \<le> 20" if "(crawl_step sample_request ctx ^^ n) (start_system sample_request st) s" for n s
    using crawl_terminates [of sample_request ctx st n s] st that
    by (simp add: sample_request_def with_store_def new_runner_def sample_config_def)
  with st show ?thesis by blast
qed

text \<open>
  C8: a crawl never hangs. As long as the context is not cancelled and the run has not returned,
  the loop or a worker can take a step of its own (send a job, work, deliver a result, end the
  loop), the pool is never found closed, and with a page cap the run can still complete without
  an error by such steps alone. Once the context is cancelled the run can return at once.
\<close>

theorem crawl_makes_progress:
  assumes "crawl_reaches req ctx s" and "returned (run s) = None"
  shows "(\<not> pool_cancelled (pl s) \<longrightarrow>
      (\<exists>a t. live_action a \<and> perform req ctx a s = Some t) \<and> \<not> results_closed (pl s)
      \<and> (MaxPages (config (req_runner req)) > 0 \<longrightarrow>
           (\<exists>as t sm. list_all live_action as \<and> perform_all req ctx as s = Some t \<and> returned (run t) = Some (Returned sm None))))
    \<and> (pool_cancelled (pl s) \<longrightarrow> (\<exists>a t. perform req ctx a s = Some t \<and> returned (run t) \<noteq> None))"
proof (intro conjI impI)
  note ok = crawl_reaches_ok [OF assms(1)]
  have config: "ctx_config ctx = config (req_runner req)" and p: "pool_ok req s" using ok by (simp_all add: crawl_ok_def)
  show "\<exists>a t. perform req ctx a s = Some t \<and> returned (run t) \<noteq> None" if "pool_cancelled (pl s)"
  proof (cases "loop_done (settle ctx (run s))")
    case True
    then show ?thesis using live_end assms(2) by (metis option.distinct(1))
  next
    case False
    then have "looping ctx s" using assms(2) by (simp add: looping_def)
    then show ?thesis using that by (intro exI [of _ "Done [] None"]) (simp del: not_None_eq)
  qed
  assume nc: "\<not> pool_cancelled (pl s)"
  show "\<exists>a t. live_action a \<and> perform req ctx a s = Some t"
  proof (cases "loop_done (settle ctx (run s))")
    case True
    then show ?thesis using assms(2) by (intro exI [of _ "End all_well"]) simp
  next
    case False
    then have "looping ctx s" using assms(2) by (simp add: looping_def)
    then show ?thesis using live_step [OF ok _ nc] by blast
  qed
  have "pool_workers (pl s) \<noteq> []" "Stopped \<notin> set (pool_workers (pl s))"
    using p nc by (auto simp: pool_ok_def workers_ok_def)
  then show "\<not> results_closed (pl s)" by (cases "pool_workers (pl s)") (auto simp: results_closed_def)
  assume "MaxPages (config (req_runner req)) > 0"
  then show "\<exists>as t sm. list_all live_action as \<and> perform_all req ctx as s = Some t \<and> returned (run t) = Some (Returned sm None)"
    using live_completes [OF ok assms(2) nc] config by simp
qed

theorem crawl_makes_progress_witness:
  "\<exists>ctx st as t sm. start_run (req_runner sample_request) True sample_env ''https://a.com/'' = Started ctx st
     \<and> list_all live_action as \<and> perform_all sample_request ctx as (start_system sample_request st) = Some t
     \<and> returned (run t) = Some (Returned sm None)"
proof -
  obtain ctx st where st: "start_run (req_runner sample_request) True sample_env ''https://a.com/'' = Started ctx st"
    using sample_final_run by (cases "start_run (req_runner sample_request) True sample_env ''https://a.com/''")
      (auto simp: sample_final_def)
  then have r: "crawl_reaches sample_request ctx (start_system sample_request st)"
    by (intro crawl_reaches.start) (simp add: sample_request_def)
  obtain root where "returned st = None" using st by (auto elim!: start_run_Started)
  then have n: "returned (run (start_system sample_request st)) = None" by (simp add: start_system_def)
  have "\<not> pool_cancelled (pl (start_system sample_request st))" by (simp add: start_system_def start_worker_pool_def)
  moreover have "MaxPages (config (req_runner sample_request)) > 0"
    by (simp add: sample_request_def with_store_def new_runner_def sample_config_def)
  ultimately show ?thesis using crawl_makes_progress [OF r n] st by blast
qed

end
