(* ===== verification/PoolRefinement.thy ===== *)
theory PoolRefinement
  imports Pool
begin

text \<open>
  The worker pool against its abstract specification: a bag of jobs. Whatever the goroutines do
  between them, a client that submits jobs and receives results sees a bag in which a job is put
  and from which a job that is there is taken.
\<close>

text \<open>The bag, and what one action of a run of the pool is for it.\<close>

datatype bag_op = Put crawl_job | Get crawl_job

fun bag_run :: "bag_op list \<Rightarrow> crawl_job multiset \<Rightarrow> crawl_job multiset option" where
  "bag_run [] b = Some b"
| "bag_run (Put j # ops) b = bag_run ops (add_mset j b)"
| "bag_run (Get j # ops) b = (if j \<in># b then bag_run ops (b - {#j#}) else None)"

datatype pool_action =
    Submit crawl_job          \<comment> \<open>the crawl loop sends on \<open>jobs\<close>\<close>
  | Work pool_event           \<comment> \<open>a goroutine moves\<close>
  | Receive "nat \<times> int"       \<comment> \<open>the crawl loop receives a result\<close>

text \<open>The state after a sequence of actions, and the operations its client saw.\<close>

fun pool_run ::
    "(string \<Rightarrow> string \<Rightarrow> string \<Rightarrow> parsed_page result) \<Rightarrow> (string \<Rightarrow> fetch_result result) option
       \<Rightarrow> pool_action list \<Rightarrow> pool \<Rightarrow> (bag_op list \<times> pool) option" where
  "pool_run ph rd [] p = Some ([], p)"
| "pool_run ph rd (Submit j # acts) p =
     (case submit_job j p of None \<Rightarrow> None
      | Some q \<Rightarrow> map_option (\<lambda>(ops, r). (Put j # ops, r)) (pool_run ph rd acts q))"
| "pool_run ph rd (Work e # acts) p =
     (case pool_step ph rd e p of None \<Rightarrow> None | Some q \<Rightarrow> pool_run ph rd acts q)"
| "pool_run ph rd (Receive d # acts) p =
     (case hand_over d p of None \<Rightarrow> None
      | Some (res, q) \<Rightarrow> map_option (\<lambda>(ops, r). (Get (Job res) # ops, r)) (pool_run ph rd acts q))"

lemma pool_run_simulates:
  "pool_run ph rd acts p = Some (ops, q) \<Longrightarrow> \<not> pool_cancelled p \<Longrightarrow> bag_run ops (outstanding p) = Some (outstanding q)"
proof (induction acts p arbitrary: ops rule: pool_run.induct)
  case (2 ph rd j acts p)
  then show ?case
    by (auto simp: crawl_pool.submit_adds crawl_pool.halted_frame(1) split: option.splits)
next
  case (3 ph rd e acts p)
  then show ?case by (auto simp: pool_step_outstanding(2) frame split: option.splits)
next
  case (4 ph rd d acts p)
  then show ?case
    by (auto simp: hand_over_outstanding frame split: option.splits prod.splits)
qed auto

text \<open>
  C31: refinement: every run of a pool that is not stopped, from its start and under any
  interleaving of the goroutines, is a run of a bag of jobs that ends in the jobs still held.
\<close>

theorem pool_refines_bag:
  assumes "pool_run ph rd acts (start_worker_pool n) = Some (ops, q)"
  shows "bag_run ops {#} = Some (outstanding q)"
  using pool_run_simulates [OF assms] by (simp add: start_worker_pool_def [of n] outstanding_start [unfolded start_worker_pool_def])

theorem pool_refines_bag_witness:
  "\<exists>ops q. pool_run (\<lambda>_ _ _. Inl []) None [Submit \<lparr>job_URL = ''a'', job_Depth = 0, job_ETag = [], job_LastModified = []\<rparr>,
       Work (Take 0), Work (Process 0 (fetch_failed ''reset'')), Receive (0, 0)] (start_worker_pool 1) = Some (ops, q)
     \<and> bag_run ops {#} = Some (outstanding q) \<and> length ops = 2"
proof -
  let ?j = "\<lparr>job_URL = ''a'', job_Depth = 0, job_ETag = [], job_LastModified = []\<rparr>"
  obtain q ops where q: "pool_run (\<lambda>_ _ _. Inl []) None
      [Submit ?j, Work (Take 0), Work (Process 0 (fetch_failed ''reset'')), Receive (0, 0)] (start_worker_pool 1) = Some (ops, q)"
    "length ops = 2"
    by (simp add: start_worker_pool_def submit_job_def worker_at_def set_worker_def hand_over_def)
  with pool_refines_bag [OF q(1)] show ?thesis by blast
qed

end
