(* ===== verification/Float64.thy ===== *)
theory Float64
  imports Complex_Main Prelude
begin

text \<open>
  Go's \<open>float64\<close> as far as the scoring code uses it: a finite value is the rational number it
  denotes, and every operation is the exact operation followed by \<open>fl64\<close>, rounding to the
  nearest of 53 significant bits with ties to even and the exponent bounded below by the
  subnormal range. Overflow to infinity and NaN are not represented. \<open>math.Round\<close> rounds half
  away from zero. The laws the scores rest on are the locale \<open>rounding\<close>.
\<close>

type_synonym float64 = rat

section \<open>Rounding\<close>

function ilog2 :: "int \<Rightarrow> nat" where
  "ilog2 n = (if n \<le> 1 then 0 else Suc (ilog2 (n div 2)))"
  by pat_completeness auto
termination by (relation "measure nat") auto

declare ilog2.simps [simp del]

lemma ilog2_bounds: "1 \<le> n \<Longrightarrow> 2 ^ ilog2 n \<le> n \<and> n < 2 ^ Suc (ilog2 n)"
proof (induction n rule: ilog2.induct)
  case (1 n)
  show ?case
  proof (cases "n \<le> 1")
    case True
    with 1 have "n = 1" by simp
    then show ?thesis by (simp add: ilog2.simps)
  next
    case False
    with 1 have "2 ^ ilog2 (n div 2) \<le> n div 2" "n div 2 < 2 ^ Suc (ilog2 (n div 2))" by auto
    moreover have "2 * (n div 2) \<le> n" "n < 2 * (n div 2) + 2" by presburger+
    moreover have "ilog2 n = Suc (ilog2 (n div 2))" using False by (subst ilog2.simps) simp
    ultimately show ?thesis by simp
  qed
qed

text \<open>The binary exponent: \<open>2 powi exponent x \<le> x < 2 powi (exponent x + 1)\<close> for positive \<open>x\<close>.\<close>

definition exponent :: "rat \<Rightarrow> int" where
  "exponent x =
     (let (p, q) = quotient_of x; e = int (ilog2 p) - int (ilog2 q)
      in if 2 powi e \<le> x then e else e - 1)"

definition round_half_even :: "rat \<Rightarrow> int" where
  "round_half_even r =
     (let f = \<lfloor>r\<rfloor>; d = r - of_int f
      in if d < 1 / 2 then f else if d > 1 / 2 then f + 1 else if even f then f else f + 1)"

definition unit_in_last_place :: "rat \<Rightarrow> rat" where
  "unit_in_last_place x = 2 powi (max (exponent x) (-1022) - 52)"

definition fl64_pos :: "rat \<Rightarrow> rat" where
  "fl64_pos x = of_int (round_half_even (x / unit_in_last_place x)) * unit_in_last_place x"

definition fl64 :: "rat \<Rightarrow> float64" where
  "fl64 x = (if x = 0 then 0 else if x > 0 then fl64_pos x else - fl64_pos (- x))"

definition fadd :: "float64 \<Rightarrow> float64 \<Rightarrow> float64" where "fadd x y = fl64 (x + y)"
definition fsub :: "float64 \<Rightarrow> float64 \<Rightarrow> float64" where "fsub x y = fl64 (x - y)"
definition fmul :: "float64 \<Rightarrow> float64 \<Rightarrow> float64" where "fmul x y = fl64 (x * y)"
definition fdiv :: "float64 \<Rightarrow> float64 \<Rightarrow> float64" where "fdiv x y = fl64 (x / y)"

text \<open>\<open>math.Round\<close>; its result is an integer.\<close>

definition go_round :: "float64 \<Rightarrow> int" where
  "go_round x = (if x \<ge> 0 then \<lfloor>x + 1 / 2\<rfloor> else - \<lfloor>- x + 1 / 2\<rfloor>)"

lemma go_round_mono: "x \<le> y \<Longrightarrow> go_round x \<le> go_round y"
proof -
  assume xy: "x \<le> y"
  consider "0 \<le> x" | "x < 0" "0 \<le> y" | "y < 0" using xy by linarith
  then show ?thesis
  proof cases
    case 2
    then show ?thesis by (simp add: go_round_def) linarith
  qed (use xy in \<open>auto simp: go_round_def intro: floor_mono\<close>)
qed

lemma go_round_of_int [simp]: "go_round (of_int n) = n"
proof -
  have half: "\<lfloor>(of_int k :: rat) + 1 / 2\<rfloor> = k" for k by linarith
  show ?thesis
    using half [of n] half [of "- n"] by (simp add: go_round_def)
qed

section \<open>Rounding is monotone and exact on small integers\<close>

lemma exponent_bounds:
  assumes "0 < x"
  shows "2 powi exponent x \<le> x" "x < 2 powi (exponent x + 1)"
proof -
  obtain p q where pq: "quotient_of x = (p, q)" by fastforce
  have q: "0 < q" using pq by (rule quotient_of_denom_pos)
  have x: "x = of_int p / of_int q" using pq by (rule quotient_of_div)
  have p: "0 < p" using assms x q by (simp add: zero_less_divide_iff)
  let ?a = "ilog2 p" and ?b = "ilog2 q"
  have bp: "2 ^ ?a \<le> p" "p < 2 ^ Suc ?a" using ilog2_bounds [of p] p by auto
  have bq: "2 ^ ?b \<le> q" "q < 2 ^ Suc ?b" using ilog2_bounds [of q] q by auto
  have rp: "(2::rat) ^ ?a \<le> of_int p" "(of_int p :: rat) < 2 ^ Suc ?a"
    using bp by (metis of_int_le_iff of_int_numeral of_int_power, metis of_int_less_iff of_int_numeral of_int_power)
  have rq: "(2::rat) ^ ?b \<le> of_int q" "(of_int q :: rat) < 2 ^ Suc ?b"
    using bq by (metis of_int_le_iff of_int_numeral of_int_power, metis of_int_less_iff of_int_numeral of_int_power)
  have pw: "(2::rat) powi (int m - int n) = 2 ^ m / 2 ^ n" for m n
    by (simp add: power_int_diff)
  have up: "x < 2 powi (int ?a - int ?b + 1)"
  proof -
    have "x < 2 ^ Suc ?a / of_int q" unfolding x using q rp(2) by (simp add: divide_strict_right_mono)
    also have "\<dots> \<le> 2 ^ Suc ?a / 2 ^ ?b" using rq(1) q by (simp add: frac_le)
    also have "\<dots> = 2 powi (int ?a - int ?b + 1)" using pw [of "Suc ?a" ?b] by (simp add: algebra_simps)
    finally show ?thesis .
  qed
  have lo: "2 powi (int ?a - int ?b - 1) \<le> x"
  proof -
    have "(2::rat) powi (int ?a - int ?b - 1) = 2 ^ ?a / 2 ^ Suc ?b"
      using pw [of ?a "Suc ?b"] by (simp add: algebra_simps)
    also have "\<dots> \<le> 2 ^ ?a / of_int q" using rq(2) q by (simp add: frac_le less_imp_le)
    also have "\<dots> \<le> x" unfolding x using q rp(1) by (simp add: divide_right_mono)
    finally show ?thesis .
  qed
  show "2 powi exponent x \<le> x" "x < 2 powi (exponent x + 1)"
    using up lo by (auto simp: exponent_def pq Let_def not_le)
qed

lemma exponent_mono: "0 < x \<Longrightarrow> x \<le> y \<Longrightarrow> exponent x \<le> exponent y"
proof (rule ccontr)
  assume x: "0 < x" and xy: "x \<le> y" and "\<not> exponent x \<le> exponent y"
  then have "(2::rat) powi (exponent y + 1) \<le> 2 powi exponent x"
    by (intro power_int_increasing) auto
  also have "\<dots> \<le> x" using exponent_bounds(1) [OF x] .
  also have "\<dots> \<le> y" by (rule xy)
  also have "\<dots> < 2 powi (exponent y + 1)" using exponent_bounds(2) [of y] x xy by linarith
  finally show False by simp
qed

lemma round_half_even_of_int [simp]: "round_half_even (of_int n) = n"
  by (simp add: round_half_even_def)

lemma round_half_even_mono: "x \<le> y \<Longrightarrow> round_half_even x \<le> round_half_even y"
proof -
  assume xy: "x \<le> y"
  then have f: "\<lfloor>x\<rfloor> \<le> \<lfloor>y\<rfloor>" by (rule floor_mono)
  show ?thesis
  proof (cases "\<lfloor>x\<rfloor> = \<lfloor>y\<rfloor>")
    case True
    with xy show ?thesis by (auto simp: round_half_even_def Let_def)
  next
    case False
    with f have "\<lfloor>x\<rfloor> + 1 \<le> \<lfloor>y\<rfloor>" by linarith
    moreover have "round_half_even x \<le> \<lfloor>x\<rfloor> + 1" by (simp add: round_half_even_def Let_def)
    moreover have "\<lfloor>y\<rfloor> \<le> round_half_even y" by (simp add: round_half_even_def Let_def)
    ultimately show ?thesis by linarith
  qed
qed

lemma ulp_pos [simp]: "0 < unit_in_last_place x"
  by (simp add: unit_in_last_place_def)

lemma powi_quotient: "(2::rat) powi a / 2 powi b = 2 powi (a - b)"
  by (simp add: power_int_diff)

lemma powi_is_int: "0 \<le> n \<Longrightarrow> (2::rat) powi n = of_int (2 ^ nat n)"
  by (simp add: power_int_nonneg_exp)

lemma fl64_pos_mono:
  assumes "0 < x" "x \<le> y"
  shows "fl64_pos x \<le> fl64_pos y"
proof -
  define E where "E z = max (exponent z) (-1022)" for z
  have E: "E x \<le> E y" using exponent_mono [OF assms] by (auto simp: E_def)
  have u: "unit_in_last_place z = 2 powi (E z - 52)" for z by (simp add: unit_in_last_place_def E_def)
  show ?thesis
  proof (cases "E x = E y")
    case True
    then have "unit_in_last_place x = unit_in_last_place y" by (simp add: u)
    then show ?thesis
      using round_half_even_mono [of "x / unit_in_last_place y" "y / unit_in_last_place y"] assms(2)
      by (simp add: fl64_pos_def mult_right_mono divide_right_mono less_imp_le)
  next
    case False
    with E have lt: "E x + 1 \<le> E y" by simp
    then have ey: "E y = exponent y" by (auto simp: E_def)
    have top: "2 powi (E x + 1) = of_int (2 ^ 53) * unit_in_last_place x"
      by (simp add: u power_int_diff power_int_add)
    have "x < 2 powi (exponent x + 1)" using exponent_bounds(2) [OF assms(1)] .
    also have "\<dots> \<le> 2 powi (E x + 1)" by (intro power_int_increasing) (auto simp: E_def)
    finally have "x / unit_in_last_place x \<le> of_int (2 ^ 53)"
      unfolding top by (simp add: divide_le_eq less_imp_le)
    from round_half_even_mono [OF this] have "round_half_even (x / unit_in_last_place x) \<le> 2 ^ 53"
      by (simp only: round_half_even_of_int)
    then have "fl64_pos x \<le> of_int (2 ^ 53) * unit_in_last_place x"
      unfolding fl64_pos_def by (intro mult_right_mono) (simp_all add: less_imp_le)
    also have "\<dots> = 2 powi (E x + 1)" by (simp only: top)
    also have "\<dots> \<le> 2 powi E y" using lt by (intro power_int_increasing) auto
    also have "\<dots> = of_int (2 ^ 52) * unit_in_last_place y" by (simp add: u power_int_diff)
    also have "\<dots> \<le> fl64_pos y"
    proof -
      have "2 powi exponent y \<le> y" using exponent_bounds(1) [of y] assms by simp
      then have "of_int (2 ^ 52) \<le> y / unit_in_last_place y"
        by (simp add: u ey le_divide_eq power_int_diff)
      from round_half_even_mono [OF this] have "2 ^ 52 \<le> round_half_even (y / unit_in_last_place y)"
        by (simp only: round_half_even_of_int)
      then show ?thesis
        unfolding fl64_pos_def by (intro mult_right_mono) (simp_all add: less_imp_le)
    qed
    finally show ?thesis .
  qed
qed

lemma fl64_pos_nonneg: "0 < x \<Longrightarrow> 0 \<le> fl64_pos x"
  using round_half_even_mono [of 0 "x / unit_in_last_place x"] round_half_even_of_int [of 0]
  by (simp add: fl64_pos_def less_imp_le)

lemma fl64_mono: "x \<le> y \<Longrightarrow> fl64 x \<le> fl64 y"
proof -
  assume xy: "x \<le> y"
  consider "0 < x" | "x \<le> 0" "0 \<le> y" | "y < 0" using xy by linarith
  then show ?thesis
  proof cases
    case 1
    with xy fl64_pos_mono [of x y] show ?thesis by (simp add: fl64_def)
  next
    case 2
    then show ?thesis using fl64_pos_nonneg [of y] fl64_pos_nonneg [of "- x"]
      by (auto simp: fl64_def)
  next
    case 3
    with xy fl64_pos_mono [of "- y" "- x"] show ?thesis by (simp add: fl64_def)
  qed
qed

lemma fl64_int_pos:
  assumes "0 < n" "n \<le> 2 ^ 53"
  shows "fl64_pos (of_int n) = of_int n"
proof (cases "n = 2 ^ 53")
  case False
  let ?x = "of_int n :: rat"
  have x: "0 < ?x" using assms by simp
  have "exponent ?x < 53"
  proof (rule ccontr)
    assume "\<not> exponent ?x < 53"
    then have "(2::rat) powi 53 \<le> 2 powi exponent ?x" by (intro power_int_increasing) auto
    with exponent_bounds(1) [OF x] have "of_int (2 ^ 53) \<le> ?x" by simp
    then have "2 ^ 53 \<le> n" by (simp only: of_int_le_iff)
    with assms False show False by simp
  qed
  then have "0 \<le> 52 - max (exponent ?x) (-1022)" by simp
  then have "?x / unit_in_last_place ?x = of_int (n * 2 ^ nat (52 - max (exponent ?x) (-1022)))"
    using powi_quotient [of 0 "max (exponent ?x) (-1022) - 52"]
    by (simp add: unit_in_last_place_def power_int_nonneg_exp divide_inverse)
  then have "fl64_pos ?x = ?x / unit_in_last_place ?x * unit_in_last_place ?x"
    by (simp only: fl64_pos_def round_half_even_of_int)
  then show ?thesis by (simp add: less_imp_neq [OF ulp_pos, symmetric])
next
  case True
  let ?x = "(2::rat) ^ 53"
  have "exponent ?x \<le> 53"
  proof (rule ccontr)
    assume "\<not> exponent ?x \<le> 53"
    then have "(2::rat) powi 54 \<le> 2 powi exponent ?x" by (intro power_int_increasing) auto
    with exponent_bounds(1) [of ?x] have "(2::rat) ^ 54 \<le> 2 ^ 53" by simp
    then show False by simp
  qed
  moreover have "53 \<le> exponent ?x"
  proof (rule ccontr)
    assume "\<not> 53 \<le> exponent ?x"
    then have "(2::rat) powi (exponent ?x + 1) \<le> 2 powi 53" by (intro power_int_increasing) auto
    with exponent_bounds(2) [of ?x] show False by simp
  qed
  ultimately have e: "exponent ?x = 53" by simp
  have u: "unit_in_last_place ?x = 2" unfolding unit_in_last_place_def e by simp
  have "?x / 2 = of_int (2 ^ 52)" by simp
  then have "fl64_pos ?x = of_int (2 ^ 52) * 2"
    unfolding fl64_pos_def u by (simp only: round_half_even_of_int)
  moreover have "of_int n = ?x" using True by simp
  ultimately show ?thesis by simp
qed

lemma fl64_of_int: "\<bar>n\<bar> \<le> 2 ^ 53 \<Longrightarrow> fl64 (of_int n) = of_int n"
  using fl64_int_pos [of n] fl64_int_pos [of "- n"] by (auto simp: fl64_def)

text \<open>A rounded value is representable, so rounding it again changes nothing.\<close>

lemma fl64_pos_grid:
  assumes "0 < y" "y = of_int k * 2 powi e" "exponent y - 52 \<le> e" "- 1074 \<le> e"
  shows "fl64_pos y = y"
proof -
  let ?d = "max (exponent y) (-1022) - 52"
  have d: "0 \<le> e - ?d" using assms(3,4) by simp
  have "y / unit_in_last_place y = of_int k * 2 powi (e - ?d)"
    by (simp add: assms(2) unit_in_last_place_def power_int_diff)
  also have "\<dots> = of_int (k * 2 ^ nat (e - ?d))" by (simp add: powi_is_int [OF d])
  finally have "fl64_pos y = y / unit_in_last_place y * unit_in_last_place y"
    by (simp only: fl64_pos_def round_half_even_of_int)
  then show ?thesis by (simp add: less_imp_neq [OF ulp_pos, symmetric])
qed

lemma fl64_pos_idem:
  assumes "0 < x" "0 < fl64_pos x"
  shows "fl64_pos (fl64_pos x) = fl64_pos x"
proof -
  define E where "E = max (exponent x) (-1022)"
  define k where "k = round_half_even (x / unit_in_last_place x)"
  have u: "unit_in_last_place x = 2 powi (E - 52)" by (simp add: unit_in_last_place_def E_def)
  have y: "fl64_pos x = of_int k * 2 powi (E - 52)" by (simp add: fl64_pos_def k_def u)
  have top: "2 powi (E + 1) = of_int (2 ^ 53) * (2 powi (E - 52) :: rat)"
    by (simp add: power_int_diff power_int_add)
  have "x < 2 powi (exponent x + 1)" using exponent_bounds(2) [OF assms(1)] .
  also have "\<dots> \<le> 2 powi (E + 1)" by (intro power_int_increasing) (auto simp: E_def)
  finally have "x / unit_in_last_place x \<le> of_int (2 ^ 53)"
    unfolding top u by (simp add: divide_le_eq less_imp_le)
  from round_half_even_mono [OF this] have k: "k \<le> 2 ^ 53"
    unfolding k_def by (simp only: round_half_even_of_int)
  show ?thesis
  proof (cases "k = 2 ^ 53")
    case True
    then have y': "fl64_pos x = of_int 1 * 2 powi (E + 1)" by (simp only: y top of_int_1 mult_1_left)
    have "exponent (fl64_pos x) \<le> E + 1"
    proof (rule ccontr)
      assume "\<not> exponent (fl64_pos x) \<le> E + 1"
      then have "(2::rat) powi (E + 1) < 2 powi exponent (fl64_pos x)"
        by (intro power_int_strict_increasing) auto
      with exponent_bounds(1) [OF assms(2)] y' show False by simp
    qed
    then show ?thesis by (intro fl64_pos_grid [OF assms(2) y']) (auto simp: E_def)
  next
    case False
    with k have "k < 2 ^ 53" by simp
    then have "rat_of_int k < of_int (2 ^ 53)" by (simp only: of_int_less_iff)
    then have "fl64_pos x < 2 powi (E + 1)" unfolding y top by (intro mult_strict_right_mono) simp_all
    then have "exponent (fl64_pos x) \<le> E"
      using exponent_bounds(1) [OF assms(2)] power_int_increasing [of "E + 1" "exponent (fl64_pos x)" "2::rat"]
      by fastforce
    then show ?thesis by (intro fl64_pos_grid [OF assms(2) y]) (auto simp: E_def)
  qed
qed

lemma fl64_idem [simp]: "fl64 (fl64 x) = fl64 x"
proof -
  have p: "fl64 (fl64_pos x) = fl64_pos x" if "0 < x" for x
    using fl64_pos_nonneg [OF that] fl64_pos_idem [OF that] by (auto simp: fl64_def)
  have m: "fl64 (- z) = - fl64 z" for z by (auto simp: fl64_def)
  consider "x = 0" | "0 < x" | "x < 0" by linarith
  then show ?thesis
  proof cases
    case 3
    then have "fl64 x = - fl64_pos (- x)" by (simp add: fl64_def)
    with 3 p [of "- x"] show ?thesis by (simp add: m)
  qed (use p in \<open>auto simp: fl64_def\<close>)
qed

section \<open>The laws as an interface\<close>

locale rounding =
  fixes fl :: "rat \<Rightarrow> rat"
  assumes fl_mono: "x \<le> y \<Longrightarrow> fl x \<le> fl y"
    and fl_of_int: "\<bar>n\<bar> \<le> 2 ^ 53 \<Longrightarrow> fl (of_int n) = of_int n"
begin

lemma fl_0 [simp]: "fl 0 = 0"
  using fl_of_int [of 0] by simp

lemma fl_1 [simp]: "fl 1 = 1"
  using fl_of_int [of 1] by simp

lemma fl_nonneg: "0 \<le> x \<Longrightarrow> 0 \<le> fl x"
  using fl_mono [of 0 x] by simp

lemma fl_le_int: "x \<le> of_int n \<Longrightarrow> \<bar>n\<bar> \<le> 2 ^ 53 \<Longrightarrow> fl x \<le> of_int n"
  using fl_mono [of x "of_int n"] by (simp add: fl_of_int)

lemma fl_ge_int: "of_int n \<le> x \<Longrightarrow> \<bar>n\<bar> \<le> 2 ^ 53 \<Longrightarrow> of_int n \<le> fl x"
  using fl_mono [of "of_int n" x] by (simp add: fl_of_int)

text \<open>A rounded weighted sum, accumulated from the left as the code does.\<close>

definition weighted_sum :: "(rat \<times> rat) list \<Rightarrow> rat \<Rightarrow> rat" where
  "weighted_sum xs acc = foldl (\<lambda>a (x, w). fl (a + fl (x * w))) acc xs"

lemma weighted_sum_mono:
  "list_all2 (\<lambda>(x, w) (y, v). x \<le> y \<and> w = v \<and> 0 \<le> w) xs ys \<Longrightarrow> a \<le> b \<Longrightarrow>
     weighted_sum xs a \<le> weighted_sum ys b"
proof (induction xs ys arbitrary: a b rule: list_all2_induct)
  case (Cons p xs q ys)
  obtain x w y v where pq: "p = (x, w)" "q = (y, v)" by fastforce
  with Cons have "x \<le> y" "w = v" "0 \<le> w" by auto
  then have "fl (a + fl (x * w)) \<le> fl (b + fl (y * v))"
    using Cons.prems by (intro fl_mono add_mono) (auto intro: mult_right_mono)
  from Cons.IH [OF this] show ?case by (simp add: weighted_sum_def pq)
qed (simp add: weighted_sum_def)

end

interpretation float64: rounding fl64
  by unfold_locales (auto intro: fl64_mono fl64_of_int)

end
