(* ===== verification/IssueShared.thy ===== *)
theory IssueShared
  imports Float64
begin

text \<open>
  The types and helpers every issue pillar shares (\<open>internal/issues/shared\<close>): page facts,
  derived issues, signals, severities, the grouping of issue rows, and the scoring
  configuration. A Go map that the code iterates is an association list with distinct keys in
  some iteration order; a set of URLs is a duplicate-free list. UUIDs are strings, and the
  stored JSON columns are their text.
\<close>

section \<open>Sorting by a comparison\<close>

text \<open>\<open>sort.Slice\<close> with a \<open>less\<close> function.\<close>

fun insort_by :: "('a \<Rightarrow> 'a \<Rightarrow> bool) \<Rightarrow> 'a \<Rightarrow> 'a list \<Rightarrow> 'a list" where
  "insort_by before x [] = [x]"
| "insort_by before x (y # ys) = (if before y x then y # insort_by before x ys else x # y # ys)"

definition sort_by :: "('a \<Rightarrow> 'a \<Rightarrow> bool) \<Rightarrow> 'a list \<Rightarrow> 'a list" where
  "sort_by before xs = foldr (insort_by before) xs []"

lemma mset_insort_by [simp]: "mset (insort_by before x xs) = add_mset x (mset xs)"
  by (induction xs) auto

lemma mset_sort_by [simp]: "mset (sort_by before xs) = mset xs"
  unfolding sort_by_def by (induction xs) auto

lemma set_sort_by [simp]: "set (sort_by before xs) = set xs"
  using mset_sort_by by (metis set_mset_mset)

lemma length_sort_by [simp]: "length (sort_by before xs) = length xs"
  using mset_sort_by by (metis size_mset)

text \<open>A comparison that never contradicts a descending key sorts by that key.\<close>

definition descends :: "('a \<Rightarrow> 'a \<Rightarrow> bool) \<Rightarrow> ('a \<Rightarrow> 'k::linorder) \<Rightarrow> bool" where
  "descends before f = (\<forall>x y. (before x y \<longrightarrow> f y \<le> f x) \<and> (f y < f x \<longrightarrow> before x y))"

lemma insort_by_descending:
  assumes "descends before f"
  shows "sorted_wrt (\<ge>) (map f xs) \<Longrightarrow> sorted_wrt (\<ge>) (map f (insort_by before x xs))"
proof (induction xs)
  case (Cons y ys)
  show ?case
  proof (cases "before y x")
    case True
    with assms have "f x \<le> f y" by (auto simp: descends_def)
    moreover have "set (map f (insort_by before x ys)) = insert (f x) (f ` set ys)"
      by (metis mset_insort_by set_map set_mset_add_mset_insert set_mset_mset image_insert)
    ultimately show ?thesis using Cons True by auto
  next
    case False
    with assms have "f y \<le> f x" by (auto simp: descends_def not_less[symmetric])
    with Cons.prems False show ?thesis by fastforce
  qed
qed simp

lemma sort_by_descending: "descends before f \<Longrightarrow> sorted_wrt (\<ge>) (map f (sort_by before xs))"
  unfolding sort_by_def by (induction xs) (auto intro: insort_by_descending)

lemma sorted_desc_unique:
  fixes xs ys :: "'k::linorder list"
  assumes "sorted_wrt (\<ge>) xs" "sorted_wrt (\<ge>) ys" "mset xs = mset ys"
  shows "xs = ys"
proof -
  have "sorted (rev xs)" "sorted (rev ys)" using assms(1,2) by (simp_all add: sorted_wrt_rev)
  with assms(3) have "rev xs = rev ys" by (metis mset_rev properties_for_sort)
  then show ?thesis by simp
qed

lemma sort_by_keys_unique:
  assumes "descends before f" "mset (map f xs) = mset (map f ys)"
  shows "map f (sort_by before xs) = map f (sort_by before ys)"
  by (rule sorted_desc_unique [OF sort_by_descending [OF assms(1)] sort_by_descending [OF assms(1)]])
     (use assms(2) in \<open>simp add: mset_map\<close>)

section \<open>Page facts, links, issues\<close>

record site_facts =
  site_HasLlmsTxt :: "bool option"

record page_fact =
  pf_ID :: string
  pf_URL :: string
  pf_ContentType :: string
  pf_Depth :: int
  pf_Title :: string
  pf_MetaDescription :: string
  pf_Author :: string
  pf_H1 :: string
  pf_H1Count :: int
  pf_H2Count :: int
  pf_WordCount :: int
  pf_VisibleText :: string
  pf_CanonicalURL :: string
  pf_Viewport :: string
  pf_Lang :: string
  pf_Robots :: string
  pf_StatusCode :: int
  pf_SizeBytes :: int
  pf_ImageCount :: int
  pf_ImagesWithoutAltCount :: int
  pf_ImagesWithoutDimensions :: int
  pf_ExternalLinks :: int
  pf_ResponseTimeMs :: int
  pf_OGTags :: string
  pf_JSONLD :: string
  pf_HeadingOutline :: string
  pf_ContentSHA256 :: string
  pf_ContentExtractionStatus :: string
  pf_Soft404 :: bool
  pf_FetchError :: string

definition is_healthy :: "page_fact \<Rightarrow> bool" where
  "is_healthy p = (pf_StatusCode p < 400 \<and> \<not> pf_Soft404 p \<and> pf_FetchError p = [])"

definition content_extraction_failed :: "page_fact \<Rightarrow> bool" where
  "content_extraction_failed p = (pf_ContentExtractionStatus p = ''failed'')"

record link_fact =
  lf_SourceURL :: string
  lf_TargetURL :: string
  lf_TargetStatus :: int

record derived_issue =
  iss_CrawlPageID :: string
  iss_URL :: string
  iss_Pillar :: string
  iss_Bucket :: string
  iss_IssueType :: string
  iss_Severity :: string
  iss_Message :: string
  iss_Details :: string

record crawl_page_signal =
  cps_URL :: string
  cps_StatusCode :: int
  cps_ContentType :: string
  cps_Soft404 :: bool
  cps_FetchError :: string

record crawl_issue_signal =
  sig_URL :: string
  sig_Pillar :: string
  sig_Bucket :: string
  sig_Severity :: string
  sig_IssueType :: string
  sig_Message :: string
  sig_Details :: string

section \<open>Pages that count\<close>

definition is_scoreable_content_type :: "string \<Rightarrow> bool" where
  "is_scoreable_content_type contentType =
     (let ct = to_lower (trim_space contentType) in ct = [] \<or> str_contains ct ''text/html'')"

definition is_scoreable_page :: "crawl_page_signal \<Rightarrow> bool" where
  "is_scoreable_page p =
     (if cps_StatusCode p \<ge> 400 \<or> cps_Soft404 p \<or> cps_FetchError p \<noteq> [] then False
      else is_scoreable_content_type (cps_ContentType p))"

definition count_scoreable_pages :: "crawl_page_signal list \<Rightarrow> int" where
  "count_scoreable_pages ps = int (length (filter is_scoreable_page ps))"

section \<open>Severities\<close>

definition severity_rank :: "string \<Rightarrow> int" where
  "severity_rank severity =
     (let s = to_lower (trim_space severity) in
      if s = ''high'' then 3 else if s = ''medium'' then 2 else if s = ''low'' then 1 else 0)"

definition max_severity :: "string \<Rightarrow> string \<Rightarrow> string" where
  "max_severity current candidate =
     (if severity_rank candidate > severity_rank current then candidate else current)"

section \<open>Display names\<close>

definition humanize_part :: "string \<Rightarrow> string" where
  "humanize_part part =
     (let low = to_lower part in
      if low = ''seo'' then ''SEO'' else if low = ''aeo'' then ''AEO''
      else if low = ''og'' then ''OG'' else if low = ''psi'' then ''PSI''
      else if low = ''llms'' then ''LLMs''
      else if low \<in> {''h1'', ''h2'', ''h3''} then to_upper part
      else (case part of [] \<Rightarrow> [] | c # cs \<Rightarrow> upper_char c # cs))"

definition humanize_identifier :: "string \<Rightarrow> string" where
  "humanize_identifier value = join '' '' (map humanize_part (split_on (CHR ''_'') (trim_space value)))"

text \<open>\<open>SortedBucketIDs\<close>: descending weight, then label.\<close>

definition bucket_before :: "string \<times> float64 \<Rightarrow> string \<times> float64 \<Rightarrow> bool" where
  "bucket_before l r =
     (if snd l = snd r then str_less (humanize_identifier (fst l)) (humanize_identifier (fst r))
      else snd l > snd r)"

definition sorted_bucket_ids :: "(string \<times> float64) list \<Rightarrow> string list" where
  "sorted_bucket_ids weights = map fst (sort_by bucket_before weights)"

section \<open>Issue scope\<close>

definition sitewide_issue_types :: "string list" where
  "sitewide_issue_types =
     [''weak_open_graph_coverage'', ''missing_website_schema'', ''missing_org_identity_schema'',
      ''missing_about_page'', ''missing_contact_page'', ''missing_policy_page'',
      ''missing_llms_txt'', ''homepage_missing_org_contact_trust_signals'']"

definition is_sitewide_issue :: "string \<Rightarrow> bool" where
  "is_sitewide_issue t = (trim_space t \<in> set sitewide_issue_types)"

definition is_google_psi_origin_issue :: "string \<Rightarrow> bool" where
  "is_google_psi_origin_issue t = has_prefix (to_lower (trim_space t)) ''google_psi_''"

definition is_page_addressable_issue :: "string \<Rightarrow> bool" where
  "is_page_addressable_issue t = (\<not> is_sitewide_issue t \<and> \<not> is_google_psi_origin_issue t)"

section \<open>Scoring configuration and penalties\<close>

record pillar_scoring_config =
  pc_Label :: string
  pc_Weight :: float64
  pc_MinimumIssueCoverage :: float64
  pc_BucketWeights :: "(string \<times> float64) list"
  pc_IssuePenaltyByType :: "(string \<times> float64) list"

record scoring_config =
  sc_Version :: string
  sc_MinimumOverallScore :: int
  sc_CoverageScale :: float64
  sc_SoftSumDecay :: float64
  sc_SeverityMultipliers :: "(string \<times> float64) list"
  sc_OverallWeights :: "(string \<times> float64) list"
  sc_Pillars :: "(string \<times> pillar_scoring_config) list"

text \<open>A decimal literal is the nearest float.\<close>

definition lit :: "int \<Rightarrow> int \<Rightarrow> float64" where
  "lit n d = fl64 (of_int n / of_int d)"

definition minimum_overall_score :: int where "minimum_overall_score = 1"
definition default_coverage_scale :: float64 where "default_coverage_scale = 8"
definition default_soft_sum_decay :: float64 where "default_soft_sum_decay = lit 1 2"
definition default_issue_penalty :: float64 where "default_issue_penalty = 6"

definition default_scoring_math_config :: scoring_config where
  "default_scoring_math_config =
     \<lparr>sc_Version = ''v9-soft-sum'', sc_MinimumOverallScore = minimum_overall_score,
      sc_CoverageScale = default_coverage_scale, sc_SoftSumDecay = default_soft_sum_decay,
      sc_SeverityMultipliers = [(''high'', 1), (''medium'', lit 6 10), (''low'', lit 3 10)],
      sc_OverallWeights = [(''seo'', lit 65 100), (''aeo'', lit 20 100), (''pagespeed'', lit 15 100)],
      sc_Pillars = []\<rparr>"

definition issue_base_penalty :: "string \<Rightarrow> (string \<times> float64) list \<Rightarrow> float64" where
  "issue_base_penalty issueType penalties =
     (case map_of penalties issueType of None \<Rightarrow> default_issue_penalty | Some p \<Rightarrow> p)"

definition severity_multiplier :: "string \<Rightarrow> float64" where
  "severity_multiplier severity =
     (let s = to_lower (trim_space severity) in
      if s = ''high'' then 1 else if s = ''medium'' then lit 6 10
      else if s = ''low'' then lit 3 10 else lit 6 10)"

definition severity_multiplier_with_config :: "string \<Rightarrow> scoring_config \<Rightarrow> float64" where
  "severity_multiplier_with_config severity cfg =
     (let s = to_lower (trim_space severity) in
      case map_of (sc_SeverityMultipliers cfg) s of
        Some m \<Rightarrow> m
      | None \<Rightarrow> severity_multiplier s)"

section \<open>Grouping issue rows\<close>

record issue_group =
  AffectedURLs :: "string list"
  grp_Severity :: string
  RowCount :: int
  grp_Message :: string
  grp_Details :: string

definition empty_issue_group :: issue_group where
  "empty_issue_group = \<lparr>AffectedURLs = [], grp_Severity = [], RowCount = 0, grp_Message = [],
     grp_Details = []\<rparr>"

definition add_issue_row :: "crawl_issue_signal \<Rightarrow> issue_group \<Rightarrow> issue_group" where
  "add_issue_row s g =
     (let severity = max_severity (grp_Severity g) (sig_Severity s);
          raised = severity_rank severity > severity_rank (grp_Severity g);
          message = (if raised then sig_Message s else grp_Message g);
          details = (if raised then sig_Details s else grp_Details g)
      in \<lparr>AffectedURLs = List.insert (sig_URL s) (AffectedURLs g), grp_Severity = severity,
          RowCount = RowCount g + 1,
          grp_Message = (if trim_space message = [] then sig_Message s else message),
          grp_Details = (if trim_space details = [] then sig_Details s else details)\<rparr>)"

text \<open>The entry of a key, created empty when missing.\<close>

fun update_group :: "string \<Rightarrow> (issue_group \<Rightarrow> issue_group) \<Rightarrow> (string \<times> issue_group) list
    \<Rightarrow> (string \<times> issue_group) list" where
  "update_group k f [] = [(k, f empty_issue_group)]"
| "update_group k f ((k', g) # gs) = (if k = k' then (k', f g) # gs else (k', g) # update_group k f gs)"

definition counts_for :: "string \<Rightarrow> crawl_issue_signal \<Rightarrow> bool" where
  "counts_for pillarID s =
     (\<not> (trim_space (sig_URL s) = [] \<or> sig_Pillar s \<noteq> pillarID \<or> trim_space (sig_Bucket s) = []))"

definition build_issue_groups_by_bucket ::
    "string \<Rightarrow> crawl_issue_signal list \<Rightarrow> string \<Rightarrow> (string \<times> issue_group) list" where
  "build_issue_groups_by_bucket pillarID signals =
     fold (\<lambda>s groups. if counts_for pillarID s
                      then groups(sig_Bucket s := update_group (sig_IssueType s) (add_issue_row s)
                                    (groups (sig_Bucket s)))
                      else groups) signals (\<lambda>_. [])"

section \<open>Facts about groups\<close>

lemma map_of_update_group:
  "map_of (update_group k f gs) k' =
     (if k' = k then Some (f (case map_of gs k of None \<Rightarrow> empty_issue_group | Some g \<Rightarrow> g))
      else map_of gs k')"
  by (induction k f gs rule: update_group.induct) auto

lemma distinct_update_group:
  "distinct (map fst gs) \<Longrightarrow> distinct (map fst (update_group k f gs))"
proof (induction k f gs rule: update_group.induct)
  case (2 k f k' g gs)
  have "fst ` set (update_group k f gs) \<subseteq> insert k (fst ` set gs)"
    by (induction k f gs rule: update_group.induct) auto
  with 2 show ?case by auto
qed simp

text \<open>The rows of one group, in order.\<close>

definition rows_of :: "string \<Rightarrow> string \<Rightarrow> string \<Rightarrow> crawl_issue_signal list \<Rightarrow> crawl_issue_signal list" where
  "rows_of pillarID bucket issueType signals =
     filter (\<lambda>s. counts_for pillarID s \<and> sig_Bucket s = bucket \<and> sig_IssueType s = issueType) signals"

lemma build_issue_groups_snoc:
  "build_issue_groups_by_bucket p (ss @ [s]) =
     (if counts_for p s
      then (build_issue_groups_by_bucket p ss)(sig_Bucket s :=
             update_group (sig_IssueType s) (add_issue_row s) (build_issue_groups_by_bucket p ss (sig_Bucket s)))
      else build_issue_groups_by_bucket p ss)"
  by (simp add: build_issue_groups_by_bucket_def)

lemma build_issue_groups_spec:
  "map_of (build_issue_groups_by_bucket p ss b) t =
     (if rows_of p b t ss = [] then None else Some (fold add_issue_row (rows_of p b t ss) empty_issue_group))
   \<and> distinct (map fst (build_issue_groups_by_bucket p ss b))"
proof (induction ss rule: rev_induct)
  case Nil
  show ?case by (simp add: build_issue_groups_by_bucket_def rows_of_def)
next
  case (snoc s ss)
  have r: "rows_of p b t (ss @ [s]) = rows_of p b t ss
      @ (if counts_for p s \<and> sig_Bucket s = b \<and> sig_IssueType s = t then [s] else [])"
    by (simp add: rows_of_def)
  from snoc show ?case
    by (auto simp: build_issue_groups_snoc r map_of_update_group distinct_update_group)
qed

lemma fold_add_issue_row:
  "set (AffectedURLs (fold add_issue_row ss g)) = set (AffectedURLs g) \<union> sig_URL ` set ss"
  "RowCount (fold add_issue_row ss g) = RowCount g + int (length ss)"
  "distinct (AffectedURLs g) \<Longrightarrow> distinct (AffectedURLs (fold add_issue_row ss g))"
  by (induction ss arbitrary: g) (auto simp: add_issue_row_def Let_def)

lemma fold_severity_rank:
  "severity_rank (grp_Severity (fold add_issue_row ss g))
     = fold max (map (severity_rank \<circ> sig_Severity) ss) (severity_rank (grp_Severity g))"
  by (induction ss arbitrary: g) (auto simp: add_issue_row_def max_severity_def Let_def max_def)

end
