(* ===== verification/Json.thy ===== *)
theory Json
  imports Prelude
begin

text \<open>
  The part of Go's \<open>encoding/json\<close> the issue rules use: \<open>Unmarshal\<close> of a document into \<open>any\<close>, into
  \<open>map[string]string\<close> and into a slice of structs. The lexer reads the text byte by byte and the
  parser keeps an explicit stack, so both are structural recursions without fuel. A string
  keeps its bytes above 127 as they are (Go replaces invalid UTF-8, which a text column cannot
  hold). An object keeps its members in order; \<open>obj_get\<close> takes the last one of a key.
\<close>

section \<open>Values\<close>

datatype json = JNull | JBool bool | JNum string | JStr string | JArr "json list" | JObj "(string \<times> json) list"

definition obj_get :: "(string \<times> json) list \<Rightarrow> string \<Rightarrow> json option" where
  "obj_get ms k = map_of (rev ms) k"

text \<open>The entries of the Go map: one per key, the last member winning.\<close>

fun obj_entries :: "(string \<times> json) list \<Rightarrow> (string \<times> json) list" where
  "obj_entries [] = []"
| "obj_entries ((k, v) # ms) = (if k \<in> fst ` set ms then obj_entries ms else (k, v) # obj_entries ms)"

definition obj_values :: "(string \<times> json) list \<Rightarrow> json list" where
  "obj_values ms = map snd (obj_entries ms)"

section \<open>Strings\<close>

definition utf8 :: "nat \<Rightarrow> string" where
  "utf8 r =
     (if r < 128 then [char_of r]
      else if r < 2048 then [char_of (192 + r div 64), char_of (128 + r mod 64)]
      else if r < 65536
        then [char_of (224 + r div 4096), char_of (128 + r div 64 mod 64), char_of (128 + r mod 64)]
      else [char_of (240 + r div 262144), char_of (128 + r div 4096 mod 64),
            char_of (128 + r div 64 mod 64), char_of (128 + r mod 64)])"

definition hex_value :: "char \<Rightarrow> nat option" where
  "hex_value c =
     (if is_digit c then Some (byte c - 48)
      else if 97 \<le> byte c \<and> byte c \<le> 102 then Some (byte c - 87)
      else if 65 \<le> byte c \<and> byte c \<le> 70 then Some (byte c - 55) else None)"

definition hex4 :: "char \<Rightarrow> char \<Rightarrow> char \<Rightarrow> char \<Rightarrow> nat option" where
  "hex4 a b c d =
     (case (hex_value a, hex_value b, hex_value c, hex_value d) of
        (Some w, Some x, Some y, Some z) \<Rightarrow> Some (((w * 16 + x) * 16 + y) * 16 + z)
      | _ \<Rightarrow> None)"

definition simple_escape :: "char \<Rightarrow> char option" where
  "simple_escape e =
     (if e = CHR 0x22 \<or> e = CHR 0x5C \<or> e = CHR ''/'' then Some e
      else if e = CHR ''b'' then Some (CHR 0x08) else if e = CHR ''f'' then Some (CHR 0x0C)
      else if e = CHR ''n'' then Some (CHR 0x0A) else if e = CHR ''r'' then Some (CHR 0x0D)
      else if e = CHR ''t'' then Some (CHR 0x09) else None)"

text \<open>A low surrogate escape right after a high one.\<close>

fun low_surrogate :: "string \<Rightarrow> nat option" where
  "low_surrogate (x # y # a # b # c # d # _) =
     (if x = CHR 0x5C \<and> y = CHR ''u''
      then (case hex4 a b c d of
              Some r \<Rightarrow> if 56320 \<le> r \<and> r < 57344 then Some r else None
            | None \<Rightarrow> None)
      else None)"
| "low_surrogate _ = None"

text \<open>What an escape stands for and how many characters after the backslash it takes.\<close>

definition decode_unicode :: "nat \<Rightarrow> string \<Rightarrow> string \<times> nat" where
  "decode_unicode n r =
     (if n < 55296 \<or> 57344 \<le> n then (utf8 n, 5)
      else (case (if n < 56320 then low_surrogate r else None) of
              Some m \<Rightarrow> (utf8 (65536 + (n - 55296) * 1024 + (m - 56320)), 11)
            | None \<Rightarrow> (utf8 65533, 5)))"

definition decode_escape :: "string \<Rightarrow> (string \<times> nat) option" where
  "decode_escape s =
     (case s of
        [] \<Rightarrow> None
      | e # s' \<Rightarrow>
          if e = CHR ''u'' then
            (case s' of
               a # b # c # d # r \<Rightarrow> map_option (\<lambda>n. decode_unicode n r) (hex4 a b c d)
             | _ \<Rightarrow> None)
          else map_option (\<lambda>x. ([x], 1)) (simple_escape e))"

text \<open>The characters of a string literal, without its quotes.\<close>

fun unquote :: "string \<Rightarrow> string option" where
  "unquote [] = Some []"
| "unquote (c # s) =
     (if c \<noteq> CHR 0x5C then (if byte c < 32 then None else map_option (\<lambda>t. c # t) (unquote s))
      else (case decode_escape s of
              None \<Rightarrow> None
            | Some (bs, k) \<Rightarrow> map_option (\<lambda>t. bs @ t) (unquote (drop k s))))"

section \<open>Numbers\<close>

text \<open>Optional minus, integer part without leading zeros, fraction, exponent.\<close>

definition digits_ok :: "string \<Rightarrow> bool" where
  "digits_ok s = (s \<noteq> [] \<and> list_all is_digit s)"

definition valid_exponent :: "string \<Rightarrow> bool" where
  "valid_exponent s =
     (case s of [] \<Rightarrow> True
      | e # r \<Rightarrow> (e = CHR ''e'' \<or> e = CHR ''E'') \<and>
          digits_ok (case r of [] \<Rightarrow> [] | c # r' \<Rightarrow> if c = CHR ''+'' \<or> c = CHR ''-'' then r' else r))"

definition number_parts :: "string \<Rightarrow> string \<times> string \<times> string" where
  \<comment> \<open>integer part, fraction with its dot, exponent with its letter\<close>
  "number_parts s =
     (let i = takeWhile is_digit s; r = dropWhile is_digit s in
      case r of
        c # r' \<Rightarrow> if c = CHR ''.'' then (i, c # takeWhile is_digit r', dropWhile is_digit r') else (i, [], r)
      | [] \<Rightarrow> (i, [], []))"

definition unsigned_number :: "string \<Rightarrow> string" where
  "unsigned_number s = (case s of c # r \<Rightarrow> if c = CHR ''-'' then r else s | [] \<Rightarrow> [])"

definition valid_number :: "string \<Rightarrow> bool" where
  "valid_number s =
     (let (i, f, e) = number_parts (unsigned_number s)
      in i \<noteq> [] \<and> (i = ''0'' \<or> hd i \<noteq> CHR ''0'') \<and> f \<noteq> ''.'' \<and> valid_exponent e)"

definition digits_value :: "string \<Rightarrow> int" where
  "digits_value s = foldl (\<lambda>n c. n * 10 + (int (byte c) - 48)) 0 s"

definition exponent_value :: "string \<Rightarrow> int" where
  "exponent_value e =
     (case e of
        _ # c # r \<Rightarrow> if c = CHR ''-'' then - digits_value r else if c = CHR ''+'' then digits_value r
                    else digits_value (c # r)
      | _ \<Rightarrow> 0)"

text \<open>\<open>ParseFloat\<close> fails on a literal that rounds to infinity.\<close>

definition number_in_range :: "string \<Rightarrow> bool" where
  "number_in_range s =
     (let (i, f, e) = number_parts (unsigned_number s);
          m = digits_value (i @ tl f);
          x = exponent_value e - int (length (tl f));
          bound = 2 ^ 1024 - 2 ^ 970
      in if m = 0 then True
         else if x \<ge> 0 then m * 10 ^ nat x < bound else m < bound * 10 ^ nat (- x))"

section \<open>Tokens\<close>

datatype token = TOpenArr | TCloseArr | TOpenObj | TCloseObj | TComma | TColon | TStr string | TVal json

definition word_token :: "string \<Rightarrow> token option" where
  "word_token w =
     (if w = ''null'' then Some (TVal JNull)
      else if w = ''true'' then Some (TVal (JBool True))
      else if w = ''false'' then Some (TVal (JBool False))
      else if valid_number w then Some (TVal (JNum w)) else None)"

definition punctuation :: "char \<Rightarrow> token option" where
  "punctuation c =
     (if c = CHR ''['' then Some TOpenArr else if c = CHR '']'' then Some TCloseArr
      else if c = CHR 0x7B then Some TOpenObj else if c = CHR 0x7D then Some TCloseObj
      else if c = CHR '','' then Some TComma else if c = CHR '':'' then Some TColon else None)"

definition json_space :: "char \<Rightarrow> bool" where
  "json_space c = (c = CHR '' '' \<or> byte c = 9 \<or> byte c = 10 \<or> byte c = 13)"

text \<open>The lexer is between tokens, in a word, or in a string (after a backslash or not).\<close>

datatype lex_state = Between | InWord string | InString string bool

definition end_word :: "lex_state \<Rightarrow> token list option" where
  "end_word st =
     (case st of Between \<Rightarrow> Some []
      | InWord w \<Rightarrow> map_option (\<lambda>t. [t]) (word_token (rev w))
      | InString _ _ \<Rightarrow> None)"

definition prepend :: "token list option \<Rightarrow> token list option \<Rightarrow> token list option" where
  "prepend a b = (case (a, b) of (Some xs, Some ys) \<Rightarrow> Some (xs @ ys) | _ \<Rightarrow> None)"

fun lex :: "lex_state \<Rightarrow> string \<Rightarrow> token list option" where
  "lex st [] = end_word st"
| "lex (InString acc escaped) (c # s) =
     (if escaped then lex (InString (c # acc) False) s
      else if c = CHR 0x5C then lex (InString (c # acc) True) s
      else if c = CHR 0x22 then prepend (map_option (\<lambda>t. [TStr t]) (unquote (rev acc))) (lex Between s)
      else lex (InString (c # acc) False) s)"
| "lex st (c # s) =
     (if json_space c then prepend (end_word st) (lex Between s)
      else if c = CHR 0x22 then prepend (end_word st) (lex (InString [] False) s)
      else (case punctuation c of
              Some t \<Rightarrow> prepend (prepend (end_word st) (Some [t])) (lex Between s)
            | None \<Rightarrow> lex (InWord (c # (case st of InWord w \<Rightarrow> w | _ \<Rightarrow> []))) s))"

section \<open>Parsing\<close>

datatype frame = InArr "json list" | InObj "(string \<times> json) list" string

datatype expecting = Value | ValueOrEnd | KeyOrEnd "(string \<times> json) list" | Key "(string \<times> json) list"
  | Colon "(string \<times> json) list" string | CommaOrEnd | Finished json

type_synonym parse_state = "frame list \<times> expecting"

text \<open>A finished value goes into the innermost open array or object, whose elements are kept reversed.\<close>

fun put :: "json \<Rightarrow> frame list \<Rightarrow> parse_state" where
  "put v [] = ([], Finished v)"
| "put v (InArr vs # st) = (InArr (v # vs) # st, CommaOrEnd)"
| "put v (InObj ms k # st) = (InObj ((k, v) # ms) [] # st, CommaOrEnd)"

definition max_nesting_depth :: nat where "max_nesting_depth = 10000"

definition start_value :: "token \<Rightarrow> frame list \<Rightarrow> parse_state option" where
  "start_value t st =
     (case t of
        TVal v \<Rightarrow> Some (put v st)
      | TStr s \<Rightarrow> Some (put (JStr s) st)
      | TOpenArr \<Rightarrow> if length st < max_nesting_depth then Some (InArr [] # st, ValueOrEnd) else None
      | TOpenObj \<Rightarrow> if length st < max_nesting_depth then Some (st, KeyOrEnd []) else None
      | _ \<Rightarrow> None)"

fun parse_token :: "token \<Rightarrow> parse_state \<Rightarrow> parse_state option" where
  "parse_token t (st, Value) = start_value t st"
| "parse_token t (InArr [] # st, ValueOrEnd) =
     (if t = TCloseArr then Some (put (JArr []) st) else start_value t (InArr [] # st))"
| "parse_token t (st, KeyOrEnd ms) =
     (case t of TStr k \<Rightarrow> Some (st, Colon ms k) | TCloseObj \<Rightarrow> Some (put (JObj (rev ms)) st) | _ \<Rightarrow> None)"
| "parse_token t (st, Key ms) = (case t of TStr k \<Rightarrow> Some (st, Colon ms k) | _ \<Rightarrow> None)"
| "parse_token t (st, Colon ms k) = (if t = TColon then Some (InObj ms k # st, Value) else None)"
| "parse_token t (InArr vs # st, CommaOrEnd) =
     (case t of TComma \<Rightarrow> Some (InArr vs # st, Value) | TCloseArr \<Rightarrow> Some (put (JArr (rev vs)) st) | _ \<Rightarrow> None)"
| "parse_token t (InObj ms k # st, CommaOrEnd) =
     (case t of TComma \<Rightarrow> Some (st, Key ms) | TCloseObj \<Rightarrow> Some (put (JObj (rev ms)) st) | _ \<Rightarrow> None)"
| "parse_token t _ = None"

fun parse_tokens :: "token list \<Rightarrow> parse_state \<Rightarrow> parse_state option" where
  "parse_tokens [] s = Some s"
| "parse_tokens (t # ts) s = (case parse_token t s of None \<Rightarrow> None | Some s' \<Rightarrow> parse_tokens ts s')"

definition parse_json :: "string \<Rightarrow> json option" where
  "parse_json text =
     (case lex Between text of
        None \<Rightarrow> None
      | Some ts \<Rightarrow> (case parse_tokens ts ([], Value) of Some ([], Finished v) \<Rightarrow> Some v | _ \<Rightarrow> None))"

section \<open>Unmarshal\<close>

fun numbers_in_range :: "json \<Rightarrow> bool" where
  "numbers_in_range (JNum s) = number_in_range s"
| "numbers_in_range (JArr vs) = list_all numbers_in_range vs"
| "numbers_in_range (JObj ms) = list_all (\<lambda>(k, v). numbers_in_range v) ms"
| "numbers_in_range v = True"

definition unmarshal_any :: "string \<Rightarrow> json option" where
  "unmarshal_any text =
     (case parse_json text of Some v \<Rightarrow> if numbers_in_range v then Some v else None | None \<Rightarrow> None)"

text \<open>Into \<open>map[string]string\<close>: \<open>null\<close> is the nil map, a \<open>null\<close> member the empty string.\<close>

definition unmarshal_string_map :: "string \<Rightarrow> (string \<Rightarrow> string) option" where
  "unmarshal_string_map text =
     (case parse_json text of
        Some JNull \<Rightarrow> Some (\<lambda>_. [])
      | Some (JObj ms) \<Rightarrow>
          if list_all (\<lambda>(k, v). case v of JStr _ \<Rightarrow> True | JNull \<Rightarrow> True | _ \<Rightarrow> False) ms
          then Some (\<lambda>k. case obj_get ms k of Some (JStr s) \<Rightarrow> s | _ \<Rightarrow> []) else None
      | _ \<Rightarrow> None)"

section \<open>A parsed value is no larger than its text\<close>

fun json_weight :: "json \<Rightarrow> nat" where
  "json_weight (JStr s) = length s + 1"
| "json_weight (JArr vs) = 1 + sum_list (map json_weight vs)"
| "json_weight (JObj ms) = 1 + sum_list (map (\<lambda>(k, v). json_weight v) ms)"
| "json_weight v = 1"

abbreviation members_weight :: "(string \<times> json) list \<Rightarrow> nat" where
  "members_weight ms \<equiv> sum_list (map (\<lambda>(k, v). json_weight v) ms)"

fun token_weight :: "token \<Rightarrow> nat" where
  "token_weight (TStr s) = length s + 1"
| "token_weight (TVal v) = json_weight v"
| "token_weight TOpenArr = 1"
| "token_weight TOpenObj = 1"
| "token_weight t = 0"

lemma length_utf8: "length (utf8 r) \<le> 4" "r < 65536 \<Longrightarrow> length (utf8 r) \<le> 3"
  by (auto simp: utf8_def)

lemma low_surrogate_SomeD: "low_surrogate s = Some n \<Longrightarrow> 6 \<le> length s"
  by (induction s rule: low_surrogate.induct) auto

lemma hex_value_bound: "hex_value c = Some n \<Longrightarrow> n < 16"
  by (auto simp: hex_value_def is_digit_def split: if_splits)

lemma hex4_bound: "hex4 a b c d = Some n \<Longrightarrow> n < 65536"
  using hex_value_bound [of a] hex_value_bound [of b] hex_value_bound [of c] hex_value_bound [of d]
  by (auto simp: hex4_def split: option.splits)

lemma decode_escape_length: "decode_escape s = Some (bs, k) \<Longrightarrow> length bs \<le> k \<and> k \<le> length s"
proof -
  assume d: "decode_escape s = Some (bs, k)"
  then obtain e s' where s: "s = e # s'" by (cases s) (auto simp: decode_escape_def)
  show ?thesis
  proof (cases "e = CHR ''u''")
    case False
    with d s show ?thesis by (auto simp: decode_escape_def)
  next
    case True
    with d s obtain a b c x r n where s': "s' = a # b # c # x # r" "hex4 a b c x = Some n" "decode_unicode n r = (bs, k)"
      by (auto simp: decode_escape_def split: list.splits)
    with s low_surrogate_SomeD [of r] length_utf8(2) [OF hex4_bound [OF s'(2)]] length_utf8(2) [of 65533]
    show ?thesis
      by (auto simp: decode_unicode_def intro: order_trans [OF length_utf8(1)] split: if_splits option.splits)
  qed
qed

lemma unquote_length: "unquote s = Some t \<Longrightarrow> length t \<le> length s"
proof (induction s arbitrary: t rule: unquote.induct)
  case (2 c s)
  show ?case
  proof (cases "c = CHR 0x5C")
    case False
    with 2 show ?thesis by (auto split: if_splits)
  next
    case True
    with "2.prems" obtain bs k u where d: "decode_escape s = Some (bs, k)" "unquote (drop k s) = Some u" "t = bs @ u"
      by (auto split: option.splits)
    have "length u \<le> length (drop k s)" using "2.IH"(2) [of "(bs, k)" bs k] True d by simp
    moreover have "length bs \<le> k" "k \<le> length s" using decode_escape_length [OF d(1)] by auto
    ultimately show ?thesis unfolding d(3) by simp
  qed
qed simp

definition pending :: "lex_state \<Rightarrow> nat" where
  "pending st = (case st of Between \<Rightarrow> 0 | InWord w \<Rightarrow> length w | InString acc _ \<Rightarrow> length acc + 1)"

lemma word_token_weight: "word_token w = Some t \<Longrightarrow> token_weight t \<le> length w"
  by (cases w) (auto simp: word_token_def valid_number_def number_parts_def unsigned_number_def split: if_splits)

lemma end_word_weight: "end_word st = Some ts \<Longrightarrow> sum_list (map token_weight ts) \<le> pending st"
  using word_token_weight by (fastforce simp: end_word_def pending_def split: lex_state.splits)

lemma punctuation_weight: "punctuation c = Some t \<Longrightarrow> token_weight t \<le> 1"
  by (auto simp: punctuation_def split: if_splits)

lemma prepend_SomeD:
  "prepend a b = Some ts \<Longrightarrow> \<exists>xs ys. a = Some xs \<and> b = Some ys \<and> ts = xs @ ys"
  by (auto simp: prepend_def split: option.splits)

lemma lex_weight: "lex st s = Some ts \<Longrightarrow> sum_list (map token_weight ts) \<le> length s + pending st"
proof (induction st s arbitrary: ts rule: lex.induct)
  case (1 st)
  then show ?case using end_word_weight by simp
next
  case (2 acc escaped c s)
  show ?case
  proof (cases "\<not> escaped \<and> c = CHR 0x22")
    case True
    with "2.prems" obtain u ys where u: "unquote (rev acc) = Some u" "lex Between s = Some ys" "ts = TStr u # ys"
      by (auto dest!: prepend_SomeD)
    with "2.IH"(3) [of ys] True unquote_length [OF u(1)] show ?thesis by (simp add: pending_def)
  next
    case False
    with 2 show ?thesis by (fastforce simp: pending_def split: if_splits)
  qed
next
  case "3_1"
  then show ?case
    by (fastforce simp: pending_def end_word_def split: if_splits option.splits dest!: prepend_SomeD dest: punctuation_weight)
next
  case "3_2"
  then show ?case
    using end_word_weight [of "InWord w" for w]
    by (fastforce simp: pending_def split: if_splits option.splits dest!: prepend_SomeD dest: punctuation_weight)
qed

fun frame_weight :: "frame \<Rightarrow> nat" where
  "frame_weight (InArr vs) = 1 + sum_list (map json_weight vs)"
| "frame_weight (InObj ms k) = 1 + members_weight ms"

fun expecting_weight :: "expecting \<Rightarrow> nat" where
  "expecting_weight (KeyOrEnd ms) = 1 + members_weight ms"
| "expecting_weight (Key ms) = 1 + members_weight ms"
| "expecting_weight (Colon ms k) = 1 + members_weight ms"
| "expecting_weight (Finished v) = json_weight v"
| "expecting_weight e = 0"

definition state_weight :: "parse_state \<Rightarrow> nat" where
  "state_weight s = sum_list (map frame_weight (fst s)) + expecting_weight (snd s)"

lemma state_weight_put: "state_weight (put v st) = sum_list (map frame_weight st) + json_weight v"
  by (cases "(v, st)" rule: put.cases) (auto simp: state_weight_def)

lemma start_value_weight:
  "start_value t st = Some s \<Longrightarrow> state_weight s \<le> sum_list (map frame_weight st) + token_weight t"
  by (auto simp: start_value_def state_weight_put split: token.splits if_splits) (auto simp: state_weight_def)

lemma sum_list_rev_nat [simp]: "sum_list (map f (rev xs)) = sum_list (map f xs :: nat list)"
  by (simp add: rev_map [symmetric])

lemma parse_token_weight: "parse_token t s = Some s' \<Longrightarrow> state_weight s' \<le> state_weight s + token_weight t"
  by (cases "(t, s)" rule: parse_token.cases)
     (auto simp: state_weight_put split: token.splits if_splits dest!: start_value_weight, auto simp: state_weight_def)

lemma parse_tokens_weight:
  "parse_tokens ts s = Some s' \<Longrightarrow> state_weight s' \<le> state_weight s + sum_list (map token_weight ts)"
proof (induction ts s rule: parse_tokens.induct)
  case (2 t ts s)
  then obtain s1 where "parse_token t s = Some s1" "parse_tokens ts s1 = Some s'" by (auto split: option.splits)
  with 2 parse_token_weight [of t s s1] show ?case by fastforce
qed simp

lemma parse_json_weight: "parse_json text = Some v \<Longrightarrow> json_weight v \<le> length text"
proof -
  assume "parse_json text = Some v"
  then obtain ts where "lex Between text = Some ts" "parse_tokens ts ([], Value) = Some ([], Finished v)"
    by (auto simp: parse_json_def split: option.splits list.splits prod.splits expecting.splits)
  then show ?thesis
    using lex_weight [of Between "text" ts] parse_tokens_weight [of ts "([], Value)" "([], Finished v)"]
    by (simp add: state_weight_def pending_def)
qed

end
