(* ===== verification/SeoText.thy ===== *)
theory SeoText
  imports GoUrl IssueShared Json
begin

text \<open>
  The text, heading and link helpers of the SEO rules (\<open>seo/derive_helpers.go\<close> and the title
  comparison of \<open>seo/duplicates.go\<close>). A token is trimmed to letters and digits bytewise: a byte
  of a multi-byte rune counts as a letter.
\<close>

section \<open>Issues and text\<close>

definition seo_issue :: "page_fact \<Rightarrow> string \<Rightarrow> string \<Rightarrow> string \<Rightarrow> string \<Rightarrow> string \<Rightarrow> derived_issue" where
  "seo_issue p bucket issueType severity message details =
     \<lparr>iss_CrawlPageID = pf_ID p, iss_URL = pf_URL p, iss_Pillar = ''seo'', iss_Bucket = bucket,
      iss_IssueType = issueType, iss_Severity = severity, iss_Message = message, iss_Details = details\<rparr>"

text \<open>\<open>%q\<close>: the escapes of \<open>strconv.Quote\<close> for bytes below 128; other bytes are kept.\<close>

definition quote_char :: "char \<Rightarrow> string" where
  "quote_char c =
     (if c = CHR 0x22 then [CHR 0x5C, CHR 0x22]
      else if c = CHR 0x5C then [CHR 0x5C, CHR 0x5C]
      else if byte c = 7 then [CHR 0x5C, CHR ''a'']
      else if byte c = 8 then [CHR 0x5C, CHR ''b'']
      else if byte c = 9 then [CHR 0x5C, CHR ''t'']
      else if byte c = 10 then [CHR 0x5C, CHR ''n'']
      else if byte c = 11 then [CHR 0x5C, CHR ''v'']
      else if byte c = 12 then [CHR 0x5C, CHR ''f'']
      else if byte c = 13 then [CHR 0x5C, CHR ''r'']
      else if byte c < 32 \<or> byte c = 127
        then [CHR 0x5C, CHR ''x'', (''0123456789abcdef'' ! (byte c div 16)), (''0123456789abcdef'' ! (byte c mod 16))]
      else [c])"

definition go_quote :: "string \<Rightarrow> string" where
  "go_quote s = [CHR 0x22] @ concat (map quote_char s) @ [CHR 0x22]"

definition normalize_duplicate_content_field :: "string \<Rightarrow> string" where
  "normalize_duplicate_content_field value = join '' '' (str_fields (to_lower (trim_space value)))"

definition title_comparison_stop_words :: "string list" where
  "title_comparison_stop_words =
     [''a'', ''an'', ''and'', ''are'', ''as'', ''at'', ''be'', ''by'', ''for'', ''from'', ''in'', ''is'',
      ''it'', ''of'', ''on'', ''or'', ''our'', ''that'', ''the'', ''their'', ''this'', ''to'', ''we'',
      ''with'', ''you'', ''your'']"

definition token_char :: "char \<Rightarrow> bool" where
  "token_char c = (is_letter c \<or> is_digit c \<or> 128 \<le> byte c)"

definition normalize_title_comparison_token :: "string \<Rightarrow> string" where
  "normalize_title_comparison_token value =
     to_lower (rev (dropWhile (\<lambda>c. \<not> token_char c) (rev (dropWhile (\<lambda>c. \<not> token_char c) value))))"

definition title_tokens :: "string \<Rightarrow> string list" where
  "title_tokens value =
     filter (\<lambda>t. t \<noteq> [] \<and> t \<notin> set title_comparison_stop_words)
       (map normalize_title_comparison_token (str_fields (to_lower (trim_space value))))"

definition normalize_title_comparison_field :: "string \<Rightarrow> string" where
  "normalize_title_comparison_field value = join '' '' (title_tokens value)"

text \<open>The set of trigrams, as a duplicate-free list.\<close>

definition character_trigrams :: "string \<Rightarrow> string list" where
  "character_trigrams value =
     (if value = [] then []
      else if length value < 3 then [value]
      else remdups (map (\<lambda>i. take 3 (drop i value)) [0..<length value - 2]))"

definition shared_trigrams :: "string \<Rightarrow> string \<Rightarrow> nat" where
  "shared_trigrams l r = length (filter (\<lambda>t. t \<in> set (character_trigrams r)) (character_trigrams l))"

definition calculate_field_similarity :: "string \<Rightarrow> string \<Rightarrow> float64" where
  "calculate_field_similarity leftValue rightValue =
     (let l = normalize_title_comparison_field leftValue; r = normalize_title_comparison_field rightValue in
      if l = [] \<or> r = [] then 0
      else if l = r then 1
      else if shared_trigrams l r = 0 then 0
      else fdiv (fl64 (of_nat (2 * shared_trigrams l r)))
             (fl64 (of_nat (length (character_trigrams l) + length (character_trigrams r)))))"

definition title_h1_mismatch_similarity_threshold :: float64 where
  "title_h1_mismatch_similarity_threshold = lit 32 100"

definition title_and_h1_mismatch :: "string \<Rightarrow> string \<Rightarrow> bool" where
  "title_and_h1_mismatch title h1 =
     (let t = normalize_duplicate_content_field title; h = normalize_duplicate_content_field h1 in
      if t = [] \<or> h = [] then False
      else if t = h \<or> str_contains t h \<or> str_contains h t then False
      else calculate_field_similarity t h < title_h1_mismatch_similarity_threshold)"

section \<open>Headings and images\<close>

text \<open>
  \<open>json.Unmarshal\<close> into a slice of structs: field names match up to case, a \<open>null\<close> leaves the
  field as it is, and a value of the wrong kind anywhere is an error.
\<close>

definition int_literal :: "string \<Rightarrow> int option" where
  "int_literal s =
     (let d = unsigned_number s; v = (if d = s then digits_value d else - digits_value d) in
      if digits_ok d \<and> in_int64 v then Some v else None)"

definition set_heading_field :: "string \<times> json \<Rightarrow> (int \<times> string) option \<Rightarrow> (int \<times> string) option" where
  "set_heading_field kv acc =
     (case acc of
        None \<Rightarrow> None
      | Some (l, t) \<Rightarrow>
          (if to_lower (fst kv) = ''level'' then
             (case snd kv of JNum n \<Rightarrow> map_option (\<lambda>i. (i, t)) (int_literal n) | JNull \<Rightarrow> Some (l, t) | _ \<Rightarrow> None)
           else if to_lower (fst kv) = ''text'' then
             (case snd kv of JStr s \<Rightarrow> Some (l, s) | JNull \<Rightarrow> Some (l, t) | _ \<Rightarrow> None)
           else Some (l, t)))"

definition decode_heading :: "json \<Rightarrow> (int \<times> string) option" where
  "decode_heading v =
     (case v of
        JNull \<Rightarrow> Some (0, [])
      | JObj ms \<Rightarrow> fold set_heading_field ms (Some (0, []))
      | _ \<Rightarrow> None)"

fun all_some :: "'a option list \<Rightarrow> 'a list option" where
  "all_some [] = Some []"
| "all_some (None # xs) = None"
| "all_some (Some x # xs) = map_option (\<lambda>ys. x # ys) (all_some xs)"

definition decode_outline :: "string \<Rightarrow> (int \<times> string) list option" where
  "decode_outline outline =
     (case parse_json outline of
        Some JNull \<Rightarrow> Some []
      | Some (JArr vs) \<Rightarrow> all_some (map decode_heading vs)
      | _ \<Rightarrow> None)"

fun skipped_transitions :: "(int \<times> string) list \<Rightarrow> string list" where
  "skipped_transitions ((pl, pt) # (cl, ct) # hs) =
     (if pl \<le> 0 \<or> cl \<le> 0 \<or> cl \<le> pl + 1 then []
      else [''H'' @ itoa pl @ '' '' @ go_quote pt @ '' jumps to H'' @ itoa cl @ '' '' @ go_quote ct @ ''.''])
     @ skipped_transitions ((cl, ct) # hs)"
| "skipped_transitions hs = []"

definition build_skipped_heading_level_details :: "string \<Rightarrow> string" where
  "build_skipped_heading_level_details outline =
     (case decode_outline outline of None \<Rightarrow> [] | Some hs \<Rightarrow> join '' '' (skipped_transitions hs))"

definition too_many_images_minimum_image_count :: int where "too_many_images_minimum_image_count = 10"
definition too_many_images_words_per_image_threshold :: int where "too_many_images_words_per_image_threshold = 50"

definition is_too_many_images_on_page :: "page_fact \<Rightarrow> bool" where
  "is_too_many_images_on_page p =
     (if pf_ImageCount p < too_many_images_minimum_image_count then False
      else if pf_WordCount p \<le> 0 then True
      else pf_WordCount p div pf_ImageCount p < too_many_images_words_per_image_threshold)"

section \<open>Canonical URLs\<close>

definition canonical_matches_page_url :: "string \<Rightarrow> string \<Rightarrow> bool" where
  "canonical_matches_page_url pageURL canonicalURL = (trim_space pageURL = trim_space canonicalURL)"

definition canonical_url_is_malformed :: "string \<Rightarrow> bool" where
  "canonical_url_is_malformed canonicalURL =
     (case url_parse (trim_space canonicalURL) of
        Inl _ \<Rightarrow> True
      | Inr u \<Rightarrow> if \<not> is_abs u then True else Scheme u \<noteq> ''http'' \<and> Scheme u \<noteq> ''https'')"

definition page_is_non_indexable :: "page_fact \<Rightarrow> bool" where
  "page_is_non_indexable p =
     (if str_contains (to_lower (trim_space (pf_Robots p))) ''noindex'' then True
      else pf_StatusCode p \<ge> 400)"

text \<open>The last page with a URL wins.\<close>

definition page_facts_by_url :: "page_fact list \<Rightarrow> string \<Rightarrow> page_fact option" where
  "page_facts_by_url ps = fold (\<lambda>p m. m(trim_space (pf_URL p) := Some p)) ps (\<lambda>_. None)"

section \<open>Links\<close>

text \<open>Trimmed source and target of the links between two different pages.\<close>

definition internal_links :: "link_fact list \<Rightarrow> (string \<times> string \<times> int) list" where
  "internal_links ls =
     filter (\<lambda>(s, t, _). \<not> (s = [] \<or> t = [] \<or> s = t))
       (map (\<lambda>l. (trim_space (lf_SourceURL l), trim_space (lf_TargetURL l), lf_TargetStatus l)) ls)"

definition inbound_count :: "link_fact list \<Rightarrow> string \<Rightarrow> int" where
  "inbound_count ls url = int (length (remdups [s. (s, t, _) \<leftarrow> internal_links ls, t = url]))"

definition outbound_count :: "link_fact list \<Rightarrow> string \<Rightarrow> int" where
  "outbound_count ls url = int (length (remdups [t. (s, t, _) \<leftarrow> internal_links ls, s = url]))"

definition sorted_set :: "string list \<Rightarrow> string list" where
  "sorted_set us = sort_by str_less (remdups us)"

definition broken_targets :: "link_fact list \<Rightarrow> string \<Rightarrow> string list" where
  "broken_targets ls url = sorted_set [t. (s, t, status) \<leftarrow> internal_links ls, s = url \<and> status \<ge> 400]"

definition redirecting_targets :: "link_fact list \<Rightarrow> string \<Rightarrow> string list" where
  "redirecting_targets ls url =
     sorted_set [t. (s, t, status) \<leftarrow> internal_links ls, s = url \<and> status \<ge> 300 \<and> status < 400]"

definition limit_urls_for_issue_details :: "string list \<Rightarrow> string list" where
  "limit_urls_for_issue_details urls =
     (if length urls \<le> 3 then urls
      else take 3 urls @ [''and '' @ itoa (int (length urls) - 3) @ '' more''])"

section \<open>Pagination\<close>

text \<open>\<open>url.Values\<close> of a raw query: unparsable pieces are dropped, as \<open>URL.Query\<close> does.\<close>

definition query_pair :: "string \<Rightarrow> (string \<times> string) option" where
  "query_pair piece =
     (if CHR '';'' \<in> set piece \<or> piece = [] then None
      else (let (k, v, _) = cut piece (CHR ''='') in
            case (unescape EncodeQueryComponent k, unescape EncodeQueryComponent v) of
              (Inr k', Inr v') \<Rightarrow> Some (k', v')
            | _ \<Rightarrow> None))"

definition query_values :: "string \<Rightarrow> (string \<times> string) list" where
  "query_values q = List.map_filter query_pair (split_on (CHR ''&'') q)"

definition query_get :: "string \<Rightarrow> string \<Rightarrow> string" where
  "query_get q k = (case map_of (query_values q) k of None \<Rightarrow> [] | Some v \<Rightarrow> v)"

definition page_url_looks_paginated :: "string \<Rightarrow> bool" where
  "page_url_looks_paginated pageURL =
     (case url_parse (trim_space pageURL) of
        Inl _ \<Rightarrow> False
      | Inr u \<Rightarrow>
          if str_contains (to_lower (Path u)) ''/page/'' then True
          else (let v = trim_space (query_get (RawQuery u) ''page'') in v \<noteq> [] \<and> v \<noteq> ''1''))"

end
