(* ===== verification/SeoDerive.thy ===== *)
theory SeoDerive
  imports SeoText
begin

text \<open>
  The SEO issue rules (\<open>seo/derive.go\<close>, \<open>seo/derive_broken.go\<close>, the duplicate rules of
  \<open>seo/derive_helpers.go\<close> and \<open>seo/duplicates.go\<close>), one definition per group of rules in the
  order of the loop body. The hex SHA-256 digest is the argument \<open>sha256\<close>. The context is never
  cancelled, as in \<open>DeriveIssues\<close>, which passes \<open>context.Background()\<close>.
\<close>

section \<open>Broken pages\<close>

definition broken_page_issue :: "page_fact \<Rightarrow> derived_issue list" where
  "broken_page_issue p =
     (if pf_FetchError p \<noteq> [] then
        [seo_issue p ''technical_seo'' ''fetch_failed'' ''high'' ''Page could not be fetched''
           (''The crawler could not retrieve this page: '' @ pf_FetchError p @ ''.'')]
      else if pf_Soft404 p then
        [seo_issue p ''technical_seo'' ''soft_404'' ''high''
           ''Page returns a not-found message with a success status''
           (''Page answered HTTP '' @ itoa (pf_StatusCode p) @ '' but serves the site'' @ [CHR 0x27] @ ''s ''
            @ [CHR 0x22] @ ''not found'' @ [CHR 0x22]
            @ '' content. Search engines treat this as a soft 404 and may drop the URL without reporting an error. Return a real 404 or 410 status for URLs that do not exist.'')]
      else if pf_StatusCode p \<ge> 500 then
        [seo_issue p ''technical_seo'' ''server_error_status'' ''high'' ''Page returned a server error''
           (''Page returned HTTP '' @ itoa (pf_StatusCode p) @ ''.'')]
      else if pf_StatusCode p \<ge> 400 then
        [seo_issue p ''technical_seo'' ''client_error_status'' ''high'' ''Page returned a client error''
           (''Page returned HTTP '' @ itoa (pf_StatusCode p) @ ''.'')]
      else [])"

definition derive_broken_page_issues :: "page_fact list \<Rightarrow> derived_issue list" where
  "derive_broken_page_issues ps = concat (map broken_page_issue ps)"

section \<open>Rules of one page\<close>

text \<open>\<open>rule c issue\<close> is the issue when its condition holds.\<close>

abbreviation rule :: "bool \<Rightarrow> derived_issue \<Rightarrow> derived_issue list" where
  "rule c i \<equiv> (if c then [i] else [])"

definition title_rules :: "page_fact \<Rightarrow> derived_issue list" where
  "title_rules p =
     (let n = int (length (trim_space (pf_Title p)));
          details = ''Title is '' @ itoa n @ '' characters (recommended: 30-60).''
      in if n = 0 then
           [seo_issue p ''serp_metadata'' ''missing_title'' ''high'' ''Page is missing a title''
              ''Add a descriptive <title> tag.'']
         else rule (n > 60) (seo_issue p ''serp_metadata'' ''title_too_long'' ''medium'' ''Page title is too long'' details)
            @ rule (n < 30) (seo_issue p ''serp_metadata'' ''title_too_short'' ''medium'' ''Page title is too short'' details))"

definition meta_rules :: "page_fact \<Rightarrow> derived_issue list" where
  "meta_rules p =
     (let n = int (length (trim_space (pf_MetaDescription p)));
          details = ''Meta description is '' @ itoa n @ '' characters (recommended: 120-160).''
      in if n = 0 then
           [seo_issue p ''serp_metadata'' ''missing_meta_description'' ''medium''
              ''Page is missing a meta description'' ''Add a meta description summarizing the page content.'']
         else rule (n > 160) (seo_issue p ''serp_metadata'' ''meta_description_too_long'' ''medium''
                ''Meta description is too long'' details)
            @ rule (n < 120) (seo_issue p ''serp_metadata'' ''meta_description_too_short'' ''medium''
                ''Meta description is too short'' details))"

definition heading_rules :: "page_fact \<Rightarrow> derived_issue list" where
  "heading_rules p =
     (let skipped = build_skipped_heading_level_details (pf_HeadingOutline p) in
      rule (trim_space (pf_H1 p) = [])
        (seo_issue p ''content_structure'' ''missing_h1'' ''high'' ''Page is missing an H1''
           ''Add one primary H1 heading to the page.'')
      @ rule (pf_H1Count p > 1)
        (seo_issue p ''content_structure'' ''multiple_h1'' ''medium'' ''Page has multiple H1 headings''
           ''Keep one primary H1 heading per page.'')
      @ rule (title_and_h1_mismatch (pf_Title p) (pf_H1 p))
        (seo_issue p ''content_structure'' ''title_h1_mismatch'' ''medium'' ''Page title and H1 do not align''
           (''Title '' @ go_quote (trim_space (pf_Title p)) @ '' does not closely match H1 ''
            @ go_quote (trim_space (pf_H1 p)) @ ''.''))
      @ rule (\<not> content_extraction_failed p \<and> pf_WordCount p \<ge> 300 \<and> pf_H2Count p = 0)
        (seo_issue p ''content_structure'' ''missing_h2_on_long_page'' ''medium'' ''Long page is missing H2 headings''
           (''Page has '' @ itoa (pf_WordCount p) @ '' words but no H2 subheadings.''))
      @ rule (skipped \<noteq> [])
        (seo_issue p ''content_structure'' ''skipped_heading_levels'' ''medium'' ''Page skips heading levels'' skipped))"

definition content_rules :: "page_fact \<Rightarrow> derived_issue list" where
  "content_rules p =
     (let visibleTextWordCount = int (length (str_fields (pf_VisibleText p))) in
      rule (\<not> content_extraction_failed p \<and> pf_WordCount p > 0 \<and> pf_WordCount p < 150)
        (seo_issue p ''content_quality'' ''thin_content'' ''medium'' ''Page content is thin''
           ''Add more useful page content for users and search engines.'')
      @ rule (\<not> content_extraction_failed p \<and> visibleTextWordCount < 25)
        (if visibleTextWordCount = 0
         then seo_issue p ''content_quality'' ''near_empty_visible_content'' ''high'' ''Page has empty visible content''
                ''Page has no meaningful visible text content.''
         else seo_issue p ''content_quality'' ''near_empty_visible_content'' ''medium''
                ''Page has near-empty visible content''
                (''Page only has '' @ itoa visibleTextWordCount @ '' visible word(s).'')))"

definition canonical_rules :: "(string \<Rightarrow> page_fact option) \<Rightarrow> page_fact \<Rightarrow> derived_issue list" where
  "canonical_rules byURL p =
     (if trim_space (pf_CanonicalURL p) = [] then
        [seo_issue p ''indexability'' ''missing_canonical'' ''medium'' ''Page is missing a canonical URL''
           ''Add a canonical link element for the preferred page URL.'']
      else if canonical_url_is_malformed (pf_CanonicalURL p) then
        [seo_issue p ''indexability'' ''malformed_canonical'' ''high'' ''Canonical URL is malformed''
           (''Canonical value '' @ go_quote (pf_CanonicalURL p) @ '' is not a valid absolute HTTP URL.'')]
      else
        rule (\<not> canonical_matches_page_url (pf_URL p) (pf_CanonicalURL p))
          (seo_issue p ''indexability'' ''canonical_differs'' ''medium'' ''Canonical URL differs from page URL''
             (''Canonical points to '' @ pf_CanonicalURL p @ ''.''))
        @ (case byURL (trim_space (pf_CanonicalURL p)) of
             None \<Rightarrow> []
           | Some t \<Rightarrow> rule (page_is_non_indexable t)
               (seo_issue p ''indexability'' ''canonical_points_to_non_indexable_page'' ''high''
                  ''Canonical points to a non-indexable page''
                  (''Canonical target '' @ pf_URL t @ '' is non-indexable.''))))"

definition technical_rules :: "page_fact \<Rightarrow> derived_issue list" where
  "technical_rules p =
     (let robotsValue = to_lower (pf_Robots p) in
      rule (trim_space (pf_Viewport p) = [])
        (seo_issue p ''technical_seo'' ''missing_viewport'' ''high'' ''Page is missing a viewport meta tag''
           ''Add a viewport meta tag for mobile optimization.'')
      @ rule (trim_space (pf_Lang p) = [])
        (seo_issue p ''technical_seo'' ''missing_lang'' ''medium'' ''Page is missing a language attribute''
           ''Add a lang attribute to the HTML element.'')
      @ rule (str_contains robotsValue ''noindex'')
        (seo_issue p ''indexability'' ''noindex_page'' ''high'' ''Page is marked noindex''
           ''Remove the noindex directive if the page should appear in search results.'')
      @ rule (str_contains robotsValue ''nofollow'')
        (seo_issue p ''indexability'' ''nofollow_page'' ''medium'' ''Page is marked nofollow''
           ''Remove the nofollow directive if search engines should follow links on this page.''))"

definition media_rules :: "page_fact \<Rightarrow> derived_issue list" where
  "media_rules p =
     rule (pf_ImageCount p > 0 \<and> pf_ImagesWithoutAltCount p > 0)
       (seo_issue p ''media_optimization'' ''images_missing_alt'' ''low'' ''Page has images missing alt text''
          ''Add descriptive alt text to meaningful images.'')
     @ rule (pf_ImageCount p > 0 \<and> pf_ImagesWithoutDimensions p > 0)
       (seo_issue p ''media_optimization'' ''images_missing_dimensions'' ''low'' ''Page has images missing dimensions''
          ''Set explicit image width and height attributes where possible.'')
     @ rule (\<not> content_extraction_failed p \<and> is_too_many_images_on_page p)
       (seo_issue p ''media_optimization'' ''too_many_images_on_page'' ''low''
          ''Page may have too many images for its content length''
          (''Page has '' @ itoa (pf_ImageCount p) @ '' images and '' @ itoa (pf_WordCount p)
           @ '' words, which is fewer than '' @ itoa too_many_images_words_per_image_threshold @ '' words per image.''))"

definition linking_rules :: "link_fact list \<Rightarrow> page_fact \<Rightarrow> derived_issue list" where
  "linking_rules ls p =
     (let outCount = outbound_count ls (pf_URL p); inCount = inbound_count ls (pf_URL p);
          broken = broken_targets ls (pf_URL p); redirecting = redirecting_targets ls (pf_URL p)
      in (if outCount = 0 then
            [seo_issue p ''internal_linking'' ''no_internal_links_out'' ''medium'' ''Page has no internal links out''
               ''Add internal links from this page to other pages on the site.'']
          else rule (outCount \<le> 2)
            (seo_issue p ''internal_linking'' ''low_internal_links_out'' ''low'' ''Page has few internal links out''
               (''Page only links to '' @ itoa outCount @ '' internal page(s).'')))
       @ (if pf_Depth p > 0 \<and> inCount = 0 then
            [seo_issue p ''internal_linking'' ''orphan_like_page'' ''high'' ''Page appears orphan-like''
               ''Page has no discovered internal links pointing to it.'']
          else rule (pf_Depth p > 0 \<and> inCount \<le> 2)
            (seo_issue p ''internal_linking'' ''low_internal_links_in'' ''medium'' ''Page has few internal links in''
               (''Page is linked from '' @ itoa inCount @ '' internal page(s).'')))
       @ rule (pf_Depth p \<ge> 4)
           (seo_issue p ''internal_linking'' ''very_deep_page'' ''medium'' ''Page is very deep in the crawl''
              (''Page was discovered at crawl depth '' @ itoa (pf_Depth p) @ ''.''))
       @ rule (broken \<noteq> [])
           (seo_issue p ''internal_linking'' ''internal_links_to_broken_pages'' ''high''
              ''Page links to broken internal targets''
              (''Page links to '' @ itoa (int (length broken)) @ '' broken internal target(s): ''
               @ join '', '' (limit_urls_for_issue_details broken) @ ''.''))
       @ rule (redirecting \<noteq> [])
           (seo_issue p ''internal_linking'' ''internal_links_to_redirects'' ''medium''
              ''Page links to redirecting internal targets''
              (''Page links to '' @ itoa (int (length redirecting)) @ '' redirecting internal target(s): ''
               @ join '', '' (limit_urls_for_issue_details redirecting) @ ''.'')))"

definition page_rules :: "page_fact list \<Rightarrow> link_fact list \<Rightarrow> page_fact \<Rightarrow> derived_issue list" where
  "page_rules ps ls p =
     title_rules p @ meta_rules p @ heading_rules p @ content_rules p
     @ canonical_rules (page_facts_by_url ps) p @ technical_rules p @ media_rules p @ linking_rules ls p"

section \<open>Duplicates\<close>

type_synonym duplicate_page = "string \<times> string"

record duplicate_group =
  dg_IssueType :: string
  dg_Members :: "duplicate_page list"

text \<open>Indexes of the pages with one key, in page order; the empty key is no key.\<close>

definition group_keys :: "(page_fact \<Rightarrow> string) \<Rightarrow> page_fact list \<Rightarrow> string list" where
  "group_keys key ps = sorted_set (filter (\<lambda>k. k \<noteq> []) (map key ps))"

definition page_indexes :: "(page_fact \<Rightarrow> string) \<Rightarrow> page_fact list \<Rightarrow> string \<Rightarrow> nat list" where
  "page_indexes key ps k = filter (\<lambda>i. key (ps ! i) = k) [0..<length ps]"

definition duplicate_pages :: "page_fact list \<Rightarrow> nat list \<Rightarrow> duplicate_page list" where
  "duplicate_pages ps idx = map (\<lambda>i. (pf_ID (ps ! i), pf_URL (ps ! i))) idx"

definition collect_other_duplicate_urls :: "page_fact list \<Rightarrow> nat list \<Rightarrow> nat \<Rightarrow> string list" where
  "collect_other_duplicate_urls ps idx cur =
     sort_by str_less (map (\<lambda>i. pf_URL (ps ! i)) (filter (\<lambda>i. i \<noteq> cur) idx))"

definition duplicate_group_looks_like_pure_pagination :: "page_fact list \<Rightarrow> nat list \<Rightarrow> bool" where
  "duplicate_group_looks_like_pure_pagination ps idx = list_all (\<lambda>i. page_url_looks_paginated (pf_URL (ps ! i))) idx"

record field_rule =
  fr_Value :: "page_fact \<Rightarrow> string"
  fr_IssueType :: string
  fr_Severity :: string
  fr_Message :: string
  fr_Subject :: string

definition field_key :: "field_rule \<Rightarrow> page_fact \<Rightarrow> string" where
  "field_key r p = normalize_duplicate_content_field (fr_Value r p)"

definition reported_field_groups :: "field_rule \<Rightarrow> page_fact list \<Rightarrow> nat list list" where
  "reported_field_groups r ps =
     filter (\<lambda>idx. \<not> (length idx < 2 \<or> duplicate_group_looks_like_pure_pagination ps idx))
       (map (page_indexes (field_key r) ps) (group_keys (field_key r) ps))"

definition field_issue :: "field_rule \<Rightarrow> page_fact list \<Rightarrow> nat list \<Rightarrow> nat \<Rightarrow> derived_issue" where
  "field_issue r ps idx i =
     (let urls = collect_other_duplicate_urls ps idx i in
      seo_issue (ps ! i) ''serp_metadata'' (fr_IssueType r) (fr_Severity r) (fr_Message r)
        (fr_Subject r @ '' matches '' @ itoa (int (length urls)) @ '' other page(s): ''
         @ join '', '' (limit_urls_for_issue_details urls) @ ''.''))"

definition derive_duplicate_field_issues ::
    "field_rule \<Rightarrow> page_fact list \<Rightarrow> derived_issue list \<times> duplicate_group list" where
  "derive_duplicate_field_issues r ps =
     (let groups = reported_field_groups r ps in
      (concat (map (\<lambda>idx. map (field_issue r ps idx) idx) groups),
       map (\<lambda>idx. \<lparr>dg_IssueType = fr_IssueType r, dg_Members = duplicate_pages ps idx\<rparr>) groups))"

definition title_field_rule :: field_rule where
  "title_field_rule = \<lparr>fr_Value = pf_Title, fr_IssueType = ''duplicate_title'', fr_Severity = ''high'',
     fr_Message = ''Page shares a duplicate title'', fr_Subject = ''Title''\<rparr>"

definition meta_field_rule :: field_rule where
  "meta_field_rule = \<lparr>fr_Value = pf_MetaDescription, fr_IssueType = ''duplicate_meta_description'',
     fr_Severity = ''medium'', fr_Message = ''Page shares a duplicate meta description'',
     fr_Subject = ''Meta description''\<rparr>"

definition normalize_duplicate_content :: "page_fact \<Rightarrow> string" where
  "normalize_duplicate_content p =
     (if content_extraction_failed p then []
      else join [CHR 0x0A] (filter (\<lambda>f. f \<noteq> [])
        (map normalize_duplicate_content_field [pf_Title p, pf_MetaDescription p, pf_H1 p, pf_VisibleText p])))"

definition enrich_page_fact :: "(string \<Rightarrow> string) \<Rightarrow> page_fact \<Rightarrow> page_fact" where
  "enrich_page_fact sha256 p =
     (let content = normalize_duplicate_content p in
      p\<lparr>pf_ContentSHA256 := (if content = [] then [] else sha256 content)\<rparr>)"

definition exact_groups :: "page_fact list \<Rightarrow> nat list list" where
  "exact_groups ps =
     filter (\<lambda>idx. \<not> length idx < 2)
       (map (page_indexes pf_ContentSHA256 ps) (group_keys pf_ContentSHA256 ps))"

definition exact_issue :: "page_fact list \<Rightarrow> nat list \<Rightarrow> nat \<Rightarrow> derived_issue" where
  "exact_issue ps idx i =
     (let urls = collect_other_duplicate_urls ps idx i in
      seo_issue (ps ! i) ''content_quality'' ''exact_duplicate_content'' ''high'' ''Page has exact duplicate content''
        (''Normalized page content exactly matches '' @ itoa (int (length urls)) @ '' other page(s): ''
         @ join '', '' urls @ ''.''))"

definition derive_duplicate_content_issues :: "page_fact list \<Rightarrow> derived_issue list \<times> duplicate_group list" where
  "derive_duplicate_content_issues ps =
     (let groups = exact_groups ps in
      (concat (map (\<lambda>idx. map (exact_issue ps idx) idx) groups),
       map (\<lambda>idx. \<lparr>dg_IssueType = ''exact_duplicate_content'', dg_Members = duplicate_pages ps idx\<rparr>) groups))"

section \<open>All SEO issues\<close>

definition derive_seo_issues ::
    "(string \<Rightarrow> string) \<Rightarrow> page_fact list \<Rightarrow> link_fact list \<Rightarrow> derived_issue list \<times> duplicate_group list" where
  "derive_seo_issues sha256 ps ls =
     (let enriched = map (enrich_page_fact sha256) ps;
          (titleIssues, titleGroups) = derive_duplicate_field_issues title_field_rule enriched;
          (metaIssues, metaGroups) = derive_duplicate_field_issues meta_field_rule enriched;
          (contentIssues, contentGroups) = derive_duplicate_content_issues enriched
      in (concat (map (page_rules ps ls) ps) @ titleIssues @ metaIssues @ contentIssues,
          titleGroups @ metaGroups @ contentGroups))"

end
