(* ===== verification/Aeo.thy ===== *)
theory Aeo
  imports SeoDerive
begin

text \<open>
  The AEO issue rules (\<open>issues/aeo\<close>): JSON-LD and Open Graph inspection, author signals, page
  classification by URL, and the rules per page and per site. A value may hold JSON in a
  string, which the code parses again; such a value is smaller than the string, so every
  traversal terminates. Go sets are lists. The context is never cancelled.
\<close>

section \<open>JSON in a string\<close>

definition parse_embedded_json :: "string \<Rightarrow> json option" where
  "parse_embedded_json raw =
     (case trim_space raw of
        [] \<Rightarrow> None
      | c # cs \<Rightarrow> if c \<noteq> CHR 0x7B \<and> c \<noteq> CHR ''['' then None else unmarshal_any (c # cs))"

lemma length_trim_space: "length (trim_space s) \<le> length s"
  unfolding trim_space_def trim_right_def trim_left_def
  by (metis length_dropWhile_le length_rev order_trans)

lemma embedded_smaller: "parse_embedded_json raw = Some v \<Longrightarrow> json_weight v < json_weight (JStr raw)"
proof -
  assume "parse_embedded_json raw = Some v"
  then have "unmarshal_any (trim_space raw) = Some v"
    by (auto simp: parse_embedded_json_def split: list.splits if_splits)
  then have "json_weight v \<le> length (trim_space raw)"
    by (auto simp: unmarshal_any_def intro: parse_json_weight split: option.splits if_splits)
  with length_trim_space [of raw] show ?thesis by simp
qed

lemma element_smaller: "v \<in> set vs \<Longrightarrow> json_weight v < json_weight (JArr vs)"
  using member_le_sum_list [of "json_weight v" "map json_weight vs"] by simp

lemma obj_entries_subset: "set (obj_entries ms) \<subseteq> set ms"
  by (induction ms rule: obj_entries.induct) auto

lemma field_smaller: "v \<in> set (obj_values ms) \<Longrightarrow> json_weight v < json_weight (JObj ms)"
proof -
  assume "v \<in> set (obj_values ms)"
  then obtain k where "(k, v) \<in> set ms" using obj_entries_subset by (fastforce simp: obj_values_def)
  then show ?thesis
    using member_le_sum_list [of "json_weight v" "map (\<lambda>(k, v). json_weight v) ms"] by force
qed

lemma get_smaller: "obj_get ms k = Some v \<Longrightarrow> json_weight v < json_weight (JObj ms)"
proof -
  assume "obj_get ms k = Some v"
  then have "(k, v) \<in> set ms" by (auto simp: obj_get_def dest: map_of_SomeD)
  then show ?thesis
    using member_le_sum_list [of "json_weight v" "map (\<lambda>(k, v). json_weight v) ms"] by force
qed

lemmas smaller = embedded_smaller element_smaller field_smaller get_smaller

section \<open>Schema types\<close>

definition is_article_like_schema_type_name :: "string \<Rightarrow> bool" where
  "is_article_like_schema_type_name t =
     (trim_space t \<in> set [''Article'', ''BlogPosting'', ''NewsArticle'', ''TechArticle''])"

definition has_article_like_schema_type :: "json option \<Rightarrow> bool" where
  "has_article_like_schema_type v =
     (case v of
        Some (JStr t) \<Rightarrow> is_article_like_schema_type_name t
      | Some (JArr es) \<Rightarrow> list_ex (\<lambda>e. case e of JStr t \<Rightarrow> is_article_like_schema_type_name t | _ \<Rightarrow> False) es
      | _ \<Rightarrow> False)"

definition graph_entries :: "(string \<times> json) list \<Rightarrow> json list" where
  "graph_entries ms = (case obj_get ms ''@graph'' of Some (JArr es) \<Rightarrow> es | _ \<Rightarrow> [])"

lemma graph_smaller: "v \<in> set (graph_entries ms) \<Longrightarrow> json_weight v < json_weight (JObj ms)"
proof -
  assume v: "v \<in> set (graph_entries ms)"
  then obtain es where "obj_get ms ''@graph'' = Some (JArr es)" "v \<in> set es"
    unfolding graph_entries_def by (cases "obj_get ms ''@graph''") (auto split: json.splits)
  then show ?thesis using element_smaller get_smaller less_trans by blast
qed

function has_article_like_json_ld_type_value :: "json \<Rightarrow> bool" where
  "has_article_like_json_ld_type_value (JStr s) =
     (case parse_embedded_json s of Some v \<Rightarrow> has_article_like_json_ld_type_value v | None \<Rightarrow> False)"
| "has_article_like_json_ld_type_value (JObj ms) =
     (list_ex has_article_like_json_ld_type_value (graph_entries ms)
      \<or> has_article_like_schema_type (obj_get ms ''@type''))"
| "has_article_like_json_ld_type_value (JArr vs) = list_ex has_article_like_json_ld_type_value vs"
| "has_article_like_json_ld_type_value JNull = False"
| "has_article_like_json_ld_type_value (JBool b) = False"
| "has_article_like_json_ld_type_value (JNum n) = False"
  by pat_completeness auto
termination by (relation "measure json_weight") (auto simp del: json_weight.simps intro: smaller graph_smaller)

definition has_article_like_json_ld_type :: "string \<Rightarrow> bool" where
  "has_article_like_json_ld_type jsonLD =
     (case unmarshal_any jsonLD of Some v \<Rightarrow> has_article_like_json_ld_type_value v | None \<Rightarrow> False)"

definition schema_type_names_of :: "(string \<times> json) list \<Rightarrow> string list" where
  "schema_type_names_of ms =
     (case obj_get ms ''@type'' of
        Some (JStr t) \<Rightarrow> [trim_space t]
      | Some (JArr es) \<Rightarrow> concat (map (\<lambda>e. case e of JStr t \<Rightarrow> [trim_space t] | _ \<Rightarrow> []) es)
      | _ \<Rightarrow> [])"

function collect_schema_type_names_into :: "json \<Rightarrow> string list" where
  "collect_schema_type_names_into (JStr s) =
     (case parse_embedded_json s of Some v \<Rightarrow> collect_schema_type_names_into v | None \<Rightarrow> [])"
| "collect_schema_type_names_into (JObj ms) =
     schema_type_names_of ms @ concat (map collect_schema_type_names_into (obj_values ms))"
| "collect_schema_type_names_into (JArr vs) = concat (map collect_schema_type_names_into vs)"
| "collect_schema_type_names_into JNull = []"
| "collect_schema_type_names_into (JBool b) = []"
| "collect_schema_type_names_into (JNum n) = []"
  by pat_completeness auto
termination by (relation "measure json_weight") (auto simp del: json_weight.simps intro: smaller)

definition collect_schema_type_names :: "string \<Rightarrow> string list" where
  "collect_schema_type_names jsonLD =
     (case unmarshal_any jsonLD of Some v \<Rightarrow> collect_schema_type_names_into v | None \<Rightarrow> [])"

definition generic_schema_types :: "string list" where
  "generic_schema_types = [''Thing'', ''WebPage'', ''CollectionPage'', ''ItemPage'']"

definition has_only_generic_structured_data :: "string \<Rightarrow> bool" where
  "has_only_generic_structured_data jsonLD =
     (let names = collect_schema_type_names jsonLD in
      names \<noteq> [] \<and> list_all (\<lambda>n. n \<in> set generic_schema_types) names)"

definition has_schema_type :: "string \<Rightarrow> string \<Rightarrow> bool" where
  "has_schema_type jsonLD targetType = (targetType \<in> set (collect_schema_type_names jsonLD))"

definition has_any_schema_type :: "string \<Rightarrow> string list \<Rightarrow> bool" where
  "has_any_schema_type jsonLD targetTypes =
     list_ex (\<lambda>t. t \<in> set (collect_schema_type_names jsonLD)) targetTypes"

section \<open>Schema fields\<close>

fun value_has_content :: "json \<Rightarrow> bool" where
  "value_has_content (JStr s) = (trim_space s \<noteq> [])"
| "value_has_content (JObj ms) =
     ((case obj_get ms ''name'' of Some (JStr n) \<Rightarrow> trim_space n \<noteq> [] | _ \<Rightarrow> False)
      \<or> (case obj_get ms ''url'' of Some (JStr u) \<Rightarrow> trim_space u \<noteq> [] | _ \<Rightarrow> False)
      \<or> length (obj_entries ms) > 0)"
| "value_has_content (JArr vs) = list_ex value_has_content vs"
| "value_has_content v = False"

definition has_any_non_empty_field :: "(string \<times> json) list \<Rightarrow> string \<Rightarrow> bool" where
  "has_any_non_empty_field ms k = (case obj_get ms k of Some v \<Rightarrow> value_has_content v | None \<Rightarrow> False)"

function has_schema_core_fields_value :: "json \<Rightarrow> bool" where
  "has_schema_core_fields_value (JStr s) =
     (case parse_embedded_json s of Some v \<Rightarrow> has_schema_core_fields_value v | None \<Rightarrow> False)"
| "has_schema_core_fields_value (JObj ms) =
     ((has_any_non_empty_field ms ''name''
        \<and> (has_any_non_empty_field ms ''url'' \<or> has_any_non_empty_field ms ''description''))
      \<or> list_ex has_schema_core_fields_value (obj_values ms))"
| "has_schema_core_fields_value (JArr vs) = list_ex has_schema_core_fields_value vs"
| "has_schema_core_fields_value JNull = False"
| "has_schema_core_fields_value (JBool b) = False"
| "has_schema_core_fields_value (JNum n) = False"
  by pat_completeness auto
termination by (relation "measure json_weight") (auto simp del: json_weight.simps intro: smaller)

definition has_schema_core_fields :: "string \<Rightarrow> bool" where
  "has_schema_core_fields jsonLD =
     (case unmarshal_any jsonLD of Some v \<Rightarrow> has_schema_core_fields_value v | None \<Rightarrow> False)"

function has_article_publisher_identity_value :: "json \<Rightarrow> bool" where
  "has_article_publisher_identity_value (JStr s) =
     (case parse_embedded_json s of Some v \<Rightarrow> has_article_publisher_identity_value v | None \<Rightarrow> False)"
| "has_article_publisher_identity_value (JObj ms) =
     ((has_article_like_schema_type (obj_get ms ''@type'')
        \<and> (has_any_non_empty_field ms ''author'' \<or> has_any_non_empty_field ms ''publisher''
           \<or> has_any_non_empty_field ms ''mainEntityOfPage''))
      \<or> list_ex has_article_publisher_identity_value (obj_values ms))"
| "has_article_publisher_identity_value (JArr vs) = list_ex has_article_publisher_identity_value vs"
| "has_article_publisher_identity_value JNull = False"
| "has_article_publisher_identity_value (JBool b) = False"
| "has_article_publisher_identity_value (JNum n) = False"
  by pat_completeness auto
termination by (relation "measure json_weight") (auto simp del: json_weight.simps intro: smaller)

definition has_article_publisher_identity :: "string \<Rightarrow> bool" where
  "has_article_publisher_identity jsonLD =
     (case unmarshal_any jsonLD of Some v \<Rightarrow> has_article_publisher_identity_value v | None \<Rightarrow> False)"

definition has_meaningful_og_tags :: "string \<Rightarrow> bool" where
  "has_meaningful_og_tags ogTags =
     (let t = trim_space ogTags in \<not> (t = [] \<or> t = ''null'' \<or> t = [CHR 0x7B, CHR 0x7D]))"

definition has_meaningful_json_ld :: "string \<Rightarrow> bool" where
  "has_meaningful_json_ld jsonLD =
     (let t = trim_space jsonLD in \<not> (t = [] \<or> t = ''null'' \<or> t = ''[]''))"

section \<open>Authors\<close>

definition normalized_name :: "string \<Rightarrow> string list" where
  \<comment> \<open>what \<open>addNormalizedName\<close> adds\<close>
  "normalized_name value = (let n = to_lower (trim_space value) in if n = [] then [] else [n])"

definition og_authors :: "page_fact \<Rightarrow> string list" where
  "og_authors p =
     (case unmarshal_string_map (pf_OGTags p) of
        None \<Rightarrow> [] | Some m \<Rightarrow> [m ''og:author'', m ''article:author''])"

definition has_author_signal :: "page_fact \<Rightarrow> bool" where
  "has_author_signal p =
     (if trim_space (pf_Author p) \<noteq> [] then True else list_ex (\<lambda>a. trim_space a \<noteq> []) (og_authors p))"

definition has_plain_author_signal :: "page_fact \<Rightarrow> bool" where
  "has_plain_author_signal p =
     (if trim_space (pf_Author p) \<noteq> [] then True else list_ex (\<lambda>a. trim_space a \<noteq> []) (og_authors p))"

definition generic_author_signals :: "string list" where
  "generic_author_signals = [''admin'', ''team'', ''staff'', ''editor'']"

definition has_weak_author_signal :: "page_fact \<Rightarrow> bool" where
  "has_weak_author_signal p =
     list_ex (\<lambda>a. let n = to_lower (trim_space (trim_space a)) in n \<noteq> [] \<and> n \<in> set generic_author_signals)
       (pf_Author p # og_authors p)"

definition collect_plain_author_names :: "page_fact \<Rightarrow> string list" where
  "collect_plain_author_names p = concat (map normalized_name (pf_Author p # og_authors p))"

function collect_schema_names_from_identity_value :: "json \<Rightarrow> string list" where
  "collect_schema_names_from_identity_value (JStr s) =
     (case parse_embedded_json s of
        Some v \<Rightarrow> collect_schema_names_from_identity_value v
      | None \<Rightarrow> normalized_name s)"
| "collect_schema_names_from_identity_value (JObj ms) =
     (case obj_get ms ''name'' of Some (JStr n) \<Rightarrow> normalized_name n | _ \<Rightarrow> [])
     @ concat (map collect_schema_names_from_identity_value (obj_values ms))"
| "collect_schema_names_from_identity_value (JArr vs) = concat (map collect_schema_names_from_identity_value vs)"
| "collect_schema_names_from_identity_value JNull = []"
| "collect_schema_names_from_identity_value (JBool b) = []"
| "collect_schema_names_from_identity_value (JNum n) = []"
  by pat_completeness auto
termination by (relation "measure json_weight") (auto simp del: json_weight.simps intro: smaller)

definition identity_field_names :: "(string \<times> json) list \<Rightarrow> string \<Rightarrow> string list" where
  "identity_field_names ms k =
     (case obj_get ms k of Some v \<Rightarrow> collect_schema_names_from_identity_value v | None \<Rightarrow> [])"

function collect_schema_identity_names_into :: "json \<Rightarrow> string list" where
  "collect_schema_identity_names_into (JStr s) =
     (case parse_embedded_json s of Some v \<Rightarrow> collect_schema_identity_names_into v | None \<Rightarrow> [])"
| "collect_schema_identity_names_into (JObj ms) =
     identity_field_names ms ''author'' @ identity_field_names ms ''publisher''
     @ concat (map collect_schema_identity_names_into (obj_values ms))"
| "collect_schema_identity_names_into (JArr vs) = concat (map collect_schema_identity_names_into vs)"
| "collect_schema_identity_names_into JNull = []"
| "collect_schema_identity_names_into (JBool b) = []"
| "collect_schema_identity_names_into (JNum n) = []"
  by pat_completeness auto
termination by (relation "measure json_weight") (auto simp del: json_weight.simps intro: smaller)

definition collect_schema_identity_names :: "string \<Rightarrow> string list" where
  "collect_schema_identity_names jsonLD =
     (case unmarshal_any jsonLD of Some v \<Rightarrow> collect_schema_identity_names_into v | None \<Rightarrow> [])"

definition author_signal_matches_schema :: "page_fact \<Rightarrow> bool" where
  "author_signal_matches_schema p =
     (let authors = collect_plain_author_names p; identities = collect_schema_identity_names (pf_JSONLD p) in
      if authors = [] then False
      else if identities = [] then False
      else list_ex (\<lambda>a. a \<in> set identities) authors)"

end
