(* ===== verification/AeoDerive.thy ===== *)
theory AeoDerive
  imports Aeo
begin

text \<open>
  The AEO rules per page and per site (\<open>aeo/derive.go\<close>, \<open>aeo/page_helpers.go\<close>). The site
  variables of the loop are the record \<open>aeo_site\<close>, updated page by page.
\<close>

section \<open>Pages\<close>

text \<open>\<open>strings.Trim(s, "/")\<close> and \<open>strings.SplitN(s, "/", 2)\<close>.\<close>

definition trim_slashes :: "string \<Rightarrow> string" where
  "trim_slashes s = rev (dropWhile (\<lambda>c. c = CHR ''/'') (rev (dropWhile (\<lambda>c. c = CHR ''/'') s)))"

definition count_url_path_segments :: "string \<Rightarrow> int" where
  "count_url_path_segments pageURL =
     (let (_, rest, found) = cut (trim_prefix (trim_prefix pageURL ''https://'') ''http://'') (CHR ''/'') in
      if \<not> found then 0
      else (let path = trim_slashes rest in
            if path = [] then 0 else int (length (split_on (CHR ''/'') path))))"

definition page_looks_like_homepage :: "string \<Rightarrow> bool" where
  "page_looks_like_homepage pageURL = (count_url_path_segments (trim_space (to_lower pageURL)) = 0)"

definition prefer_site_page :: "page_fact \<Rightarrow> page_fact \<Rightarrow> page_fact" where
  "prefer_site_page p selected =
     (if page_looks_like_homepage (pf_URL p) \<and> \<not> page_looks_like_homepage (pf_URL selected) then p
      else if pf_Depth p < pf_Depth selected then p else selected)"

definition select_site_issue_page_fact :: "page_fact list \<Rightarrow> page_fact option" where
  "select_site_issue_page_fact ps =
     (case ps of [] \<Rightarrow> None | p # rest \<Rightarrow> Some (fold prefer_site_page rest p))"

definition select_homepage_page_fact :: "page_fact list \<Rightarrow> page_fact option" where
  "select_homepage_page_fact ps = List.find (\<lambda>p. page_looks_like_homepage (pf_URL p)) ps"

definition looks_like_about_page :: "string \<Rightarrow> bool" where
  "looks_like_about_page u = (str_contains u ''/about'' \<or> str_contains u ''/company'' \<or> str_contains u ''/team'')"

definition looks_like_contact_page :: "string \<Rightarrow> bool" where
  "looks_like_contact_page u = (str_contains u ''/contact'' \<or> str_contains u ''/support'')"

definition looks_like_policy_page :: "string \<Rightarrow> bool" where
  "looks_like_policy_page u = list_ex (str_contains u) [''/privacy'', ''/terms'', ''/policy'', ''/policies'']"

definition has_article_like_url_path :: "string \<Rightarrow> bool" where
  "has_article_like_url_path u =
     list_ex (str_contains u) [''/blog/'', ''/article/'', ''/articles/'', ''/guides/'', ''/news/'']"

definition author_signal_minimum_word_count :: int where "author_signal_minimum_word_count = 300"
definition strong_citation_word_count_threshold :: int where "strong_citation_word_count_threshold = 600"
definition long_article_no_citation_word_count_threshold :: int where "long_article_no_citation_word_count_threshold = 800"
definition long_article_weak_citation_word_count_threshold :: int where "long_article_weak_citation_word_count_threshold = 1200"
definition external_citation_minimum_count :: int where "external_citation_minimum_count = 1"
definition weak_external_citation_maximum_count :: int where "weak_external_citation_maximum_count = 1"
definition weak_open_graph_coverage_threshold :: float64 where "weak_open_graph_coverage_threshold = lit 1 2"
definition faq_like_question_heading_threshold :: int where "faq_like_question_heading_threshold = 2"
definition faq_like_question_mark_threshold :: int where "faq_like_question_mark_threshold = 3"

definition is_article_like_page :: "page_fact \<Rightarrow> bool" where
  "is_article_like_page p =
     (if has_article_like_json_ld_type (pf_JSONLD p) then True
      else if pf_WordCount p < author_signal_minimum_word_count then False
      else has_article_like_url_path (pf_URL p))"

definition has_insecure_http_url :: "string \<Rightarrow> bool" where
  "has_insecure_http_url pageURL = has_prefix (to_lower (trim_space pageURL)) ''http://''"

definition set_heading_text :: "string \<times> json \<Rightarrow> string option \<Rightarrow> string option" where
  "set_heading_text kv acc =
     (case acc of
        None \<Rightarrow> None
      | Some t \<Rightarrow>
          (if to_lower (fst kv) = ''text'' then
             (case snd kv of JStr s \<Rightarrow> Some s | JNull \<Rightarrow> Some t | _ \<Rightarrow> None)
           else Some t))"

definition decode_heading_text :: "json \<Rightarrow> string option" where
  "decode_heading_text v =
     (case v of
        JNull \<Rightarrow> Some []
      | JObj ms \<Rightarrow> fold set_heading_text ms (Some [])
      | _ \<Rightarrow> None)"

definition count_question_like_headings :: "string \<Rightarrow> int" where
  "count_question_like_headings outline =
     (case parse_json outline of
        Some (JArr vs) \<Rightarrow>
          (case all_some (map decode_heading_text vs) of
             None \<Rightarrow> 0
           | Some ts \<Rightarrow> int (length (filter (\<lambda>t. str_contains t ''?'') ts)))
      | _ \<Rightarrow> 0)"

definition is_faq_like_page :: "page_fact \<Rightarrow> bool" where
  "is_faq_like_page p =
     (if str_contains (to_lower (pf_URL p)) ''/faq'' then True
      else if count_question_like_headings (pf_HeadingOutline p) \<ge> faq_like_question_heading_threshold then True
      else int (count_list (pf_VisibleText p) (CHR ''?'')) \<ge> faq_like_question_mark_threshold)"

section \<open>Rules of one page\<close>

definition aeo_issue :: "page_fact \<Rightarrow> string \<Rightarrow> string \<Rightarrow> string \<Rightarrow> string \<Rightarrow> string \<Rightarrow> derived_issue" where
  "aeo_issue p bucket issueType severity message details =
     \<lparr>iss_CrawlPageID = pf_ID p, iss_URL = pf_URL p, iss_Pillar = ''aeo'', iss_Bucket = bucket,
      iss_IssueType = issueType, iss_Severity = severity, iss_Message = message, iss_Details = details\<rparr>"

definition structured_data_rules :: "page_fact \<Rightarrow> derived_issue list" where
  "structured_data_rules p =
     rule (\<not> has_meaningful_og_tags (pf_OGTags p))
       (aeo_issue p ''trust'' ''missing_og_tags'' ''low'' ''Page is missing Open Graph tags''
          ''Add core Open Graph tags for richer sharing previews.'')
     @ (if \<not> has_meaningful_json_ld (pf_JSONLD p) then
          [aeo_issue p ''answerability'' ''missing_structured_data'' ''high'' ''Page is missing structured data''
             ''Add JSON-LD structured data to the page.'']
        else
          rule (has_only_generic_structured_data (pf_JSONLD p))
            (aeo_issue p ''answerability'' ''generic_structured_data_only'' ''medium''
               ''Page only exposes generic structured data''
               ''Structured data only uses generic schema types like WebPage or Thing.'')
          @ rule (\<not> has_schema_core_fields (pf_JSONLD p))
            (aeo_issue p ''trust'' ''schema_missing_core_fields'' ''high''
               ''Structured data is missing core identity fields''
               ''Schema markup should expose core fields like name, url, and description.''))
     @ rule (has_insecure_http_url (pf_URL p))
         (aeo_issue p ''trust'' ''missing_https'' ''medium'' ''Page is not served over HTTPS''
            ''Serve the page over HTTPS to strengthen user and platform trust signals.'')"

definition author_rules :: "page_fact \<Rightarrow> derived_issue list" where
  "author_rules p =
     (let article = is_article_like_page p; hasJSONLD = has_meaningful_json_ld (pf_JSONLD p) in
      (if article \<and> \<not> has_author_signal p then
         [aeo_issue p ''expertise'' ''missing_author_signal'' ''medium'' ''Page is missing an author signal''
            ''Article-like page does not expose author attribution via metadata or structured data.'']
       else rule (article \<and> has_weak_author_signal p)
         (aeo_issue p ''expertise'' ''weak_author_signal'' ''low'' ''Page has a weak author signal''
            ''Author attribution looks generic or low-confidence.''))
      @ rule (article \<and> hasJSONLD \<and> \<not> has_article_like_json_ld_type (pf_JSONLD p))
          (aeo_issue p ''answerability'' ''article_missing_article_schema'' ''medium''
             ''Article-like page is missing article schema''
             ''Add Article or BlogPosting structured data to the page.'')
      @ rule (article \<and> hasJSONLD \<and> \<not> has_article_publisher_identity (pf_JSONLD p))
          (aeo_issue p ''expertise'' ''article_missing_publisher_identity'' ''high''
             ''Article-like page is missing publisher identity in schema''
             ''Article schema should expose author, publisher, or mainEntityOfPage fields.'')
      @ rule (article \<and> has_plain_author_signal p \<and> hasJSONLD \<and> \<not> author_signal_matches_schema p)
          (aeo_issue p ''expertise'' ''author_signal_not_supported_by_schema'' ''high''
             ''Visible author signal is not supported by schema''
             ''Author attribution exists in page metadata, but structured data does not support it with matching author or publisher identity.''))"

definition citation_rules :: "page_fact \<Rightarrow> derived_issue list" where
  "citation_rules p =
     (let article = is_article_like_page p; words = itoa (pf_WordCount p); links = itoa (pf_ExternalLinks p) in
      if article \<and> pf_WordCount p \<ge> long_article_no_citation_word_count_threshold \<and> pf_ExternalLinks p = 0 then
        [aeo_issue p ''authoritativeness'' ''long_article_has_no_citations'' ''high'' ''Long article has no citations''
           (''Article-like page has '' @ words @ '' words and no external citation links.'')]
      else if article \<and> pf_WordCount p \<ge> long_article_weak_citation_word_count_threshold
              \<and> pf_ExternalLinks p \<le> weak_external_citation_maximum_count then
        [aeo_issue p ''authoritativeness'' ''long_article_has_weak_citations'' ''high''
           ''Long article has weak citation support''
           (''Article-like page has '' @ words @ '' words and only '' @ links @ '' external citation link(s).'')]
      else if article \<and> pf_ExternalLinks p < external_citation_minimum_count then
        [aeo_issue p ''authoritativeness'' ''missing_external_citations'' ''medium''
           ''Page is missing external citations''
           ''Article-like page does not link to any external sources or references.'']
      else rule (article \<and> pf_WordCount p \<ge> strong_citation_word_count_threshold
                 \<and> pf_ExternalLinks p \<le> weak_external_citation_maximum_count)
        (aeo_issue p ''authoritativeness'' ''weak_external_citations'' ''low''
           ''Page has weak external citation support''
           (''Article-like page has '' @ links @ '' external citation link(s) across '' @ words @ '' words.'')))"

definition faq_rules :: "page_fact \<Rightarrow> derived_issue list" where
  "faq_rules p =
     rule (is_faq_like_page p \<and> \<not> has_schema_type (pf_JSONLD p) ''FAQPage'')
       (aeo_issue p ''answerability'' ''faq_like_page_missing_faq_schema'' ''high''
          ''FAQ-like page is missing FAQ schema''
          ''Page looks like an FAQ but does not expose FAQPage structured data.'')"

definition aeo_page_rules :: "page_fact \<Rightarrow> derived_issue list" where
  "aeo_page_rules p = structured_data_rules p @ author_rules p @ citation_rules p @ faq_rules p"

section \<open>The site\<close>

record aeo_site =
  ogCoveredPageCount :: int
  hasAboutPage :: bool
  hasContactPage :: bool
  hasPolicyPage :: bool
  hasWebsiteSchema :: bool
  hasOrganizationSchema :: bool
  homepageHasPublisherIdentity :: bool

definition empty_aeo_site :: aeo_site where
  "empty_aeo_site = \<lparr>ogCoveredPageCount = 0, hasAboutPage = False, hasContactPage = False,
     hasPolicyPage = False, hasWebsiteSchema = False, hasOrganizationSchema = False,
     homepageHasPublisherIdentity = False\<rparr>"

definition organization_schema_types :: "string list" where
  "organization_schema_types = [''Organization'', ''LocalBusiness'', ''Person'', ''Corporation'']"

definition note_page :: "page_fact option \<Rightarrow> page_fact \<Rightarrow> aeo_site \<Rightarrow> aeo_site" where
  "note_page homepage p site =
     (let hasJSONLD = has_meaningful_json_ld (pf_JSONLD p);
          lowerURL = to_lower (trim_space (pf_URL p));
          isHomepage = (case homepage of None \<Rightarrow> False | Some h \<Rightarrow> trim_space (pf_URL p) = trim_space (pf_URL h))
      in \<lparr>ogCoveredPageCount = ogCoveredPageCount site + (if has_meaningful_og_tags (pf_OGTags p) then 1 else 0),
          hasAboutPage = (hasAboutPage site \<or> looks_like_about_page lowerURL),
          hasContactPage = (hasContactPage site \<or> looks_like_contact_page lowerURL),
          hasPolicyPage = (hasPolicyPage site \<or> looks_like_policy_page lowerURL),
          hasWebsiteSchema = (hasWebsiteSchema site \<or> (hasJSONLD \<and> has_schema_type (pf_JSONLD p) ''WebSite'')),
          hasOrganizationSchema = (hasOrganizationSchema site \<or>
             (hasJSONLD \<and> has_any_schema_type (pf_JSONLD p) organization_schema_types)),
          homepageHasPublisherIdentity = (homepageHasPublisherIdentity site \<or>
             (isHomepage \<and> hasJSONLD \<and> has_article_publisher_identity (pf_JSONLD p)))\<rparr>)"

definition site_rules :: "page_fact list \<Rightarrow> site_facts \<Rightarrow> aeo_site \<Rightarrow> page_fact \<Rightarrow> derived_issue list" where
  "site_rules ps siteFacts site p =
     rule (ps \<noteq> [] \<and> fdiv (fl64 (of_int (ogCoveredPageCount site))) (fl64 (of_int (int (length ps))))
             < weak_open_graph_coverage_threshold)
       (aeo_issue p ''trust'' ''weak_open_graph_coverage'' ''high'' ''Open Graph coverage is weak across the crawl''
          (''Only '' @ itoa (ogCoveredPageCount site) @ '' of '' @ itoa (int (length ps))
           @ '' crawled pages expose Open Graph tags.''))
     @ rule (\<not> hasWebsiteSchema site)
       (aeo_issue p ''trust'' ''missing_website_schema'' ''high'' ''Site is missing WebSite schema''
          ''Add WebSite structured data to the site.'')
     @ rule (\<not> hasOrganizationSchema site)
       (aeo_issue p ''authoritativeness'' ''missing_org_identity_schema'' ''high''
          ''Site is missing organization or person identity schema''
          ''Add Organization, LocalBusiness, Person, or similar entity schema.'')
     @ rule (\<not> hasAboutPage site)
       (aeo_issue p ''experience'' ''missing_about_page'' ''medium'' ''Site is missing an about page''
          ''Add an About page that explains who is behind the site.'')
     @ rule (\<not> hasContactPage site)
       (aeo_issue p ''experience'' ''missing_contact_page'' ''medium'' ''Site is missing a contact page''
          ''Add a Contact page so visitors and systems can find a contact destination.'')
     @ rule (\<not> hasPolicyPage site)
       (aeo_issue p ''experience'' ''missing_policy_page'' ''low'' ''Site is missing policy pages''
          ''Add privacy, terms, or similar policy pages to strengthen trust signals.'')
     @ rule (site_HasLlmsTxt siteFacts = Some False)
       (aeo_issue p ''trust'' ''missing_llms_txt'' ''high'' ''Site is missing an /llms.txt file''
          ''The /llms.txt convention (llmstxt.org) helps AI answer engines discover and cite site content. Add an /llms.txt file at the site root listing key pages in Markdown.'')"

definition homepage_rules :: "aeo_site \<Rightarrow> page_fact \<Rightarrow> derived_issue list" where
  "homepage_rules site h =
     rule (\<not> hasOrganizationSchema site \<and> \<not> hasAboutPage site \<and> \<not> hasContactPage site
           \<and> \<not> homepageHasPublisherIdentity site)
       (aeo_issue h ''trust'' ''homepage_missing_org_contact_trust_signals'' ''high''
          ''Homepage is missing core trust identity signals''
          ''Homepage is missing organization schema, visible about/contact coverage, and publisher identity signals.'')"

definition derive_aeo_issues :: "page_fact list \<Rightarrow> site_facts \<Rightarrow> derived_issue list" where
  "derive_aeo_issues ps siteFacts =
     (let homepage = select_homepage_page_fact ps;
          site = fold (note_page homepage) ps empty_aeo_site
      in concat (map aeo_page_rules ps)
         @ (case select_site_issue_page_fact ps of None \<Rightarrow> [] | Some p \<Rightarrow> site_rules ps siteFacts site p)
         @ (case homepage of None \<Rightarrow> [] | Some h \<Rightarrow> homepage_rules site h))"

end
