(* ===== verification/Scoring.thy ===== *)
theory Scoring
  imports IssueShared
begin

text \<open>
  Crawl scores: \<open>shared/scoring_helpers.go\<close>, \<open>score.go\<close>, \<open>scoring_config.go\<close> and the
  weight tables of the three pillars. All arithmetic is \<open>Float64\<close> arithmetic in the order the
  code performs it (no fused multiply-add). Two things Go leaves to the platform are
  parameters: \<open>math.Exp\<close>, and the result of converting an out-of-range float to \<open>int32\<close>.
\<close>

record go_env =
  math_exp :: "float64 \<Rightarrow> float64"
  int32_overflow :: "int \<Rightarrow> int"

section \<open>Helpers\<close>

definition to_int32 :: "go_env \<Rightarrow> int \<Rightarrow> int" where
  "to_int32 env n = (if - (2 ^ 31) \<le> n \<and> n < 2 ^ 31 then n else int32_overflow env n)"

definition clamp_score :: "go_env \<Rightarrow> float64 \<Rightarrow> int \<Rightarrow> int" where
  "clamp_score env score minimum =
     (let roundedScore = to_int32 env (go_round score) in
      if roundedScore < minimum then minimum
      else if roundedScore > 100 then 100 else roundedScore)"

definition round_float64 :: "float64 \<Rightarrow> nat \<Rightarrow> float64" where
  "round_float64 value decimalPlaces =
     (let multiplier = ((\<lambda>m. fmul m 10) ^^ decimalPlaces) 1
      in fdiv (of_int (go_round (fmul value multiplier))) multiplier)"

definition issue_coverage_with_config :: "go_env \<Rightarrow> int \<Rightarrow> int \<Rightarrow> scoring_config \<Rightarrow> float64" where
  "issue_coverage_with_config env affected scored cfg =
     (if affected \<le> 0 \<or> scored \<le> 0 then 0
      else (let scale = (if sc_CoverageScale cfg \<le> 0 then default_coverage_scale else sc_CoverageScale cfg);
                ratio = fdiv (fl64 (of_int affected)) (fl64 (of_int scored))
            in fsub 1 (math_exp env (fmul (- ratio) scale))))"

definition effective_decay :: "scoring_config \<Rightarrow> float64" where
  "effective_decay cfg =
     (if sc_SoftSumDecay cfg \<le> 0 \<or> sc_SoftSumDecay cfg \<ge> 1 then default_soft_sum_decay
      else sc_SoftSumDecay cfg)"

fun soft_sum_loop :: "float64 \<Rightarrow> float64 list \<Rightarrow> float64 \<Rightarrow> float64 \<Rightarrow> float64" where
  "soft_sum_loop decay [] bucketPenalty weight = bucketPenalty"
| "soft_sum_loop decay (p # ps) bucketPenalty weight =
     soft_sum_loop decay ps (fadd bucketPenalty (fmul p weight)) (fmul weight decay)"

text \<open>\<open>SoftSumPenalties\<close> reads only the penalties of its issues.\<close>

definition soft_sum_penalties :: "float64 list \<Rightarrow> scoring_config \<Rightarrow> float64" where
  "soft_sum_penalties penalties cfg = soft_sum_loop (effective_decay cfg) penalties 0 1"

section \<open>Buckets\<close>

record issue_type_score_breakdown =
  itb_ID :: string
  itb_Label :: string
  itb_Severity :: string
  itb_BasePenalty :: float64
  itb_SeverityMultiplier :: float64
  itb_Coverage :: float64
  itb_FinalPenalty :: float64
  itb_IssueRowCount :: int
  itb_AffectedURLCount :: int
  itb_Message :: string
  itb_DetailsPreview :: string

record bucket_score_breakdown =
  bsb_ID :: string
  bsb_Label :: string
  bsb_Score :: int
  bsb_Weight :: float64
  bsb_WeightedContribution :: float64
  bsb_TotalPenalty :: float64
  bsb_IssueTypeCount :: int
  bsb_IssueRowCount :: int
  bsb_AffectedURLCount :: int
  bsb_Issues :: "issue_type_score_breakdown list"

record pillar_score_breakdown =
  psb_ID :: string
  psb_Label :: string
  psb_Score :: int
  psb_Weight :: float64
  psb_WeightedContribution :: float64
  psb_TotalPenalty :: float64
  psb_BucketCount :: int
  psb_IssueTypeCount :: int
  psb_IssueRowCount :: int
  psb_AffectedURLCount :: int
  psb_Buckets :: "bucket_score_breakdown list"

definition issue_breakdown ::
    "scoring_config \<Rightarrow> (string \<times> float64) list \<Rightarrow> int \<Rightarrow> (int \<Rightarrow> int \<Rightarrow> float64) \<Rightarrow> string \<times> issue_group
       \<Rightarrow> issue_type_score_breakdown" where
  "issue_breakdown cfg penalties scored coverageOf tg =
     (let (issueType, g) = tg;
          coverage = coverageOf (int (length (AffectedURLs g))) scored;
          basePenalty = issue_base_penalty issueType penalties;
          severityWeight = severity_multiplier_with_config (grp_Severity g) cfg;
          finalPenalty = fmul (fmul basePenalty severityWeight) coverage
      in \<lparr>itb_ID = issueType, itb_Label = humanize_identifier issueType, itb_Severity = grp_Severity g,
          itb_BasePenalty = round_float64 basePenalty 2,
          itb_SeverityMultiplier = round_float64 severityWeight 2,
          itb_Coverage = round_float64 coverage 4, itb_FinalPenalty = round_float64 finalPenalty 2,
          itb_IssueRowCount = RowCount g, itb_AffectedURLCount = int (length (AffectedURLs g)),
          itb_Message = grp_Message g, itb_DetailsPreview = grp_Details g\<rparr>)"

definition issue_before :: "issue_type_score_breakdown \<Rightarrow> issue_type_score_breakdown \<Rightarrow> bool" where
  "issue_before l r =
     (if itb_FinalPenalty l = itb_FinalPenalty r then str_less (itb_Label l) (itb_Label r)
      else itb_FinalPenalty l > itb_FinalPenalty r)"

definition affected_urls :: "(string \<times> issue_group) list \<Rightarrow> string list" where
  "affected_urls groups = remdups (concat (map (AffectedURLs \<circ> snd) groups))"

definition build_bucket_breakdown_with_options ::
    "go_env \<Rightarrow> string \<Rightarrow> float64 \<Rightarrow> (string \<times> float64) list \<Rightarrow> scoring_config \<Rightarrow> int
       \<Rightarrow> (string \<times> issue_group) list \<Rightarrow> (int \<Rightarrow> int \<Rightarrow> float64) \<Rightarrow> bucket_score_breakdown" where
  "build_bucket_breakdown_with_options env bucketID bucketWeight penalties cfg scored groups coverageOf =
     (let sortedIssues = sort_by issue_before (map (issue_breakdown cfg penalties scored coverageOf) groups);
          bucketPenalty = soft_sum_penalties (map itb_FinalPenalty sortedIssues) cfg;
          bucketScore = clamp_score env (fsub 100 bucketPenalty) 0
      in \<lparr>bsb_ID = bucketID, bsb_Label = humanize_identifier bucketID, bsb_Score = bucketScore,
          bsb_Weight = round_float64 bucketWeight 4,
          bsb_WeightedContribution = round_float64 (fmul (of_int bucketScore) bucketWeight) 2,
          bsb_TotalPenalty = round_float64 bucketPenalty 2,
          bsb_IssueTypeCount = int (length sortedIssues),
          bsb_IssueRowCount = sum_list (map (RowCount \<circ> snd) groups),
          bsb_AffectedURLCount = int (length (affected_urls groups)),
          bsb_Issues = sortedIssues\<rparr>)"

section \<open>Pillars\<close>

text \<open>\<open>GooglePSIScoreInput\<close>: the input may be nil, and so may its score.\<close>

type_synonym psi_input = "int option option"

definition resolve_psi_bucket_score :: "string \<Rightarrow> psi_input \<Rightarrow> float64 option" where
  "resolve_psi_bucket_score bucketID psi =
     (if bucketID \<noteq> ''psi_cwv'' then None
      else (case psi of Some (Some n) \<Rightarrow> Some (fl64 (of_int n)) | _ \<Rightarrow> None))"

text \<open>The second loop: the PSI override and the weighted contribution, which uses the rounded weight.\<close>

definition apply_psi :: "go_env \<Rightarrow> psi_input \<Rightarrow> bucket_score_breakdown \<Rightarrow> bucket_score_breakdown" where
  "apply_psi env psi b =
     (let b' = (case resolve_psi_bucket_score (bsb_ID b) psi of
                  None \<Rightarrow> b
                | Some s \<Rightarrow> (let score = clamp_score env s 0 in
                    b\<lparr>bsb_Score := score,
                      bsb_TotalPenalty := round_float64 (of_int (100 - score)) 2\<rparr>))
      in b'\<lparr>bsb_WeightedContribution := round_float64 (fmul (of_int (bsb_Score b')) (bsb_Weight b')) 2\<rparr>)"

definition pillar_buckets ::
    "go_env \<Rightarrow> string \<Rightarrow> pillar_scoring_config \<Rightarrow> scoring_config \<Rightarrow> int \<Rightarrow> crawl_issue_signal list
       \<Rightarrow> (int \<Rightarrow> int \<Rightarrow> float64) \<Rightarrow> psi_input \<Rightarrow> bucket_score_breakdown list" where
  "pillar_buckets env pillarID pc cfg scored signals coverageOf psi =
     map (\<lambda>b. apply_psi env psi
            (build_bucket_breakdown_with_options env b (the (map_of (pc_BucketWeights pc) b))
               (pc_IssuePenaltyByType pc) cfg scored
               (build_issue_groups_by_bucket pillarID signals b) coverageOf))
       (sorted_bucket_ids (pc_BucketWeights pc))"

definition weighted_bucket_sum :: "bucket_score_breakdown list \<Rightarrow> float64" where
  "weighted_bucket_sum buckets =
     float64.weighted_sum (map (\<lambda>b. (of_int (bsb_Score b), bsb_Weight b)) buckets) 0"

definition build_pillar_breakdown_with_options ::
    "go_env \<Rightarrow> string \<Rightarrow> pillar_scoring_config \<Rightarrow> scoring_config \<Rightarrow> int \<Rightarrow> crawl_issue_signal list
       \<Rightarrow> (int \<Rightarrow> int \<Rightarrow> float64) \<Rightarrow> psi_input \<Rightarrow> pillar_score_breakdown" where
  "build_pillar_breakdown_with_options env pillarID pc cfg scored signals coverageOf psi =
     (let buckets = pillar_buckets env pillarID pc cfg scored signals coverageOf psi;
          pillarScore = clamp_score env (weighted_bucket_sum buckets) 0
      in \<lparr>psb_ID = pillarID, psb_Label = pc_Label pc, psb_Score = pillarScore,
          psb_Weight = round_float64 (pc_Weight pc) 4,
          psb_WeightedContribution = round_float64 (fmul (of_int pillarScore) (pc_Weight pc)) 2,
          psb_TotalPenalty = round_float64 (fsub 100 (of_int pillarScore)) 2,
          psb_BucketCount = int (length buckets),
          psb_IssueTypeCount = sum_list (map bsb_IssueTypeCount buckets),
          psb_IssueRowCount = sum_list (map bsb_IssueRowCount buckets),
          psb_AffectedURLCount = int (length (affected_urls (concat
             (map (build_issue_groups_by_bucket pillarID signals) (sorted_bucket_ids (pc_BucketWeights pc)))))),
          psb_Buckets = buckets\<rparr>)"

section \<open>The crawl\<close>

record score_breakdown_snapshot =
  sbs_CrawlID :: string
  sbs_ScoringVersion :: string
  sbs_CoverageScale :: float64
  sbs_TotalScoredPages :: int
  sbs_OverallScore :: int
  sbs_Pillars :: "pillar_score_breakdown list"

record crawl_scores =
  SEOScore :: int
  AEOScore :: int
  PageSpeedScore :: int
  OverallScore :: int

fun take_pillar_score :: "pillar_score_breakdown \<Rightarrow> crawl_scores \<Rightarrow> crawl_scores" where
  "take_pillar_score p s =
     (if psb_ID p = ''seo'' then s\<lparr>SEOScore := psb_Score p\<rparr>
      else if psb_ID p = ''aeo'' then s\<lparr>AEOScore := psb_Score p\<rparr>
      else if psb_ID p = ''pagespeed'' then s\<lparr>PageSpeedScore := psb_Score p\<rparr> else s)"

definition crawl_scores_of :: "score_breakdown_snapshot \<Rightarrow> crawl_scores" where
  "crawl_scores_of snapshot =
     fold take_pillar_score (sbs_Pillars snapshot)
       \<lparr>SEOScore = 0, AEOScore = 0, PageSpeedScore = 0, OverallScore = sbs_OverallScore snapshot\<rparr>"

definition weight_or_zero :: "(string \<times> float64) list \<Rightarrow> string \<Rightarrow> float64" where
  "weight_or_zero m k = (case map_of m k of None \<Rightarrow> 0 | Some w \<Rightarrow> w)"

definition calculate_overall_score :: "go_env \<Rightarrow> int \<Rightarrow> int \<Rightarrow> int \<Rightarrow> scoring_config \<Rightarrow> int" where
  "calculate_overall_score env seoScore aeoScore pageSpeedScore cfg =
     (let minimum = (if sc_MinimumOverallScore cfg \<le> 0 then minimum_overall_score
                     else sc_MinimumOverallScore cfg);
          ws = weight_or_zero (sc_OverallWeights cfg) ''seo'';
          wa = weight_or_zero (sc_OverallWeights cfg) ''aeo'';
          wp = weight_or_zero (sc_OverallWeights cfg) ''pagespeed'';
          weightSum = fadd (fadd ws wa) wp;
          norm = (\<lambda>w. if weightSum > 0 then fdiv w weightSum else w);
          overall = fadd (fadd (fmul (norm ws) (of_int seoScore)) (fmul (norm wa) (of_int aeoScore)))
                      (fmul (norm wp) (of_int pageSpeedScore))
      in clamp_score env overall minimum)"

definition empty_pillar_config :: pillar_scoring_config where
  "empty_pillar_config = \<lparr>pc_Label = [], pc_Weight = 0, pc_MinimumIssueCoverage = 0,
     pc_BucketWeights = [], pc_IssuePenaltyByType = []\<rparr>"

definition pillar_config_of :: "scoring_config \<Rightarrow> string \<Rightarrow> pillar_scoring_config" where
  "pillar_config_of cfg pillarID =
     (case map_of (sc_Pillars cfg) pillarID of None \<Rightarrow> empty_pillar_config | Some pc \<Rightarrow> pc)"

definition configured_coverage :: "go_env \<Rightarrow> scoring_config \<Rightarrow> pillar_scoring_config \<Rightarrow> int \<Rightarrow> int \<Rightarrow> float64" where
  "configured_coverage env cfg pc affected scored =
     (let coverage = issue_coverage_with_config env affected scored cfg in
      if coverage > 0 \<and> pc_MinimumIssueCoverage pc > 0 then max coverage (pc_MinimumIssueCoverage pc)
      else coverage)"

definition build_configured_pillar_breakdown ::
    "go_env \<Rightarrow> string \<Rightarrow> scoring_config \<Rightarrow> int \<Rightarrow> crawl_issue_signal list \<Rightarrow> psi_input
       \<Rightarrow> pillar_score_breakdown" where
  "build_configured_pillar_breakdown env pillarID cfg scored signals psi =
     build_pillar_breakdown_with_options env pillarID (pillar_config_of cfg pillarID) cfg scored signals
       (configured_coverage env cfg (pillar_config_of cfg pillarID)) psi"

text \<open>With no scoreable page every score of the snapshot is zero.\<close>

definition zero_bucket :: "bucket_score_breakdown \<Rightarrow> bucket_score_breakdown" where
  "zero_bucket b = b\<lparr>bsb_Score := 0, bsb_WeightedContribution := 0, bsb_TotalPenalty := 0\<rparr>"

definition zero_pillar :: "pillar_score_breakdown \<Rightarrow> pillar_score_breakdown" where
  "zero_pillar p = p\<lparr>psb_Score := 0, psb_WeightedContribution := 0, psb_TotalPenalty := 0,
     psb_Buckets := map zero_bucket (psb_Buckets p)\<rparr>"

definition build_score_breakdown_with_config ::
    "go_env \<Rightarrow> string \<Rightarrow> crawl_page_signal list \<Rightarrow> crawl_issue_signal list \<Rightarrow> scoring_config \<Rightarrow> psi_input
       \<Rightarrow> score_breakdown_snapshot" where
  "build_score_breakdown_with_config env crawlID pages signals cfg psi =
     (let scored = count_scoreable_pages pages;
          pillars = [build_configured_pillar_breakdown env ''aeo'' cfg scored signals None,
                     build_configured_pillar_breakdown env ''seo'' cfg scored signals None,
                     build_configured_pillar_breakdown env ''pagespeed'' cfg scored signals psi];
          snapshot = \<lparr>sbs_CrawlID = crawlID, sbs_ScoringVersion = ''v9-soft-sum'',
                      sbs_CoverageScale = sc_CoverageScale cfg, sbs_TotalScoredPages = scored,
                      sbs_OverallScore = 0, sbs_Pillars = pillars\<rparr>;
          scores = crawl_scores_of snapshot
      in if scored = 0 then snapshot\<lparr>sbs_Pillars := map zero_pillar pillars\<rparr>
         else snapshot\<lparr>sbs_OverallScore := calculate_overall_score env (SEOScore scores)
                (AEOScore scores) (PageSpeedScore scores) cfg\<rparr>)"

end
