(* ===== verification/ScoreConfig.thy ===== *)
theory ScoreConfig
  imports Scoring
begin

text \<open>
  The scoring configuration (\<open>issues/scoring_config.go\<close>): the tables of the three pillars
  (\<open>seo/consts.go\<close>, \<open>aeo/consts.go\<close>, \<open>page_speed/consts.go\<close>), the defaults built from them, the
  merge of missing penalties into a stored configuration and the validation every stored
  configuration passes. JSON decoding is the library's; \<open>parse_scoring_config\<close> takes the decoder
  as a parameter.
\<close>

section \<open>Pillar tables\<close>

definition seo_bucket_weights :: "(string \<times> float64) list" where
  "seo_bucket_weights =
     [(''serp_metadata'', lit 20 100), (''content_structure'', lit 16 100),
      (''content_quality'', lit 20 100), (''indexability'', lit 20 100),
      (''technical_seo'', lit 8 100), (''media_optimization'', lit 6 100),
      (''internal_linking'', lit 10 100)]"

definition seo_issue_penalty_by_type :: "(string \<times> float64) list" where
  "seo_issue_penalty_by_type =
     [(''missing_title'', 12), (''title_too_long'', 5), (''title_too_short'', 5),
      (''duplicate_title'', 10), (''missing_meta_description'', 10),
      (''meta_description_too_long'', 4), (''meta_description_too_short'', 4),
      (''duplicate_meta_description'', 8), (''missing_h1'', 10), (''multiple_h1'', 7),
      (''title_h1_mismatch'', 6), (''missing_h2_on_long_page'', 6),
      (''skipped_heading_levels'', 6), (''thin_content'', 12),
      (''near_empty_visible_content'', 12), (''exact_duplicate_content'', 12),
      (''missing_canonical'', 8), (''canonical_differs'', 5), (''malformed_canonical'', 10),
      (''canonical_points_to_non_indexable_page'', 12), (''noindex_page'', 14),
      (''nofollow_page'', 6), (''missing_viewport'', 8), (''missing_lang'', 4),
      (''client_error_status'', 12), (''server_error_status'', 14), (''soft_404'', 12),
      (''fetch_failed'', 10), (''images_missing_alt'', 5), (''images_missing_dimensions'', 4),
      (''too_many_images_on_page'', 4), (''orphan_like_page'', 10),
      (''low_internal_links_in'', 8), (''very_deep_page'', 6), (''low_internal_links_out'', 5),
      (''no_internal_links_out'', 8), (''internal_links_to_broken_pages'', 12),
      (''internal_links_to_redirects'', 6)]"

definition aeo_bucket_weights :: "(string \<times> float64) list" where
  "aeo_bucket_weights =
     [(''experience'', lit 15 100), (''expertise'', lit 20 100),
      (''authoritativeness'', lit 20 100), (''trust'', lit 20 100),
      (''answerability'', lit 25 100)]"

definition aeo_issue_penalty_by_type :: "(string \<times> float64) list" where
  "aeo_issue_penalty_by_type =
     [(''missing_llms_txt'', 12), (''missing_author_signal'', 12), (''weak_author_signal'', 6),
      (''article_missing_publisher_identity'', 12),
      (''author_signal_not_supported_by_schema'', 10), (''missing_external_citations'', 8),
      (''weak_external_citations'', 5), (''long_article_has_no_citations'', 14),
      (''long_article_has_weak_citations'', 10), (''missing_org_identity_schema'', 14),
      (''missing_https'', 12), (''missing_og_tags'', 4), (''weak_open_graph_coverage'', 7),
      (''missing_website_schema'', 12), (''homepage_missing_org_contact_trust_signals'', 14),
      (''schema_missing_core_fields'', 10), (''missing_structured_data'', 14),
      (''generic_structured_data_only'', 8), (''article_missing_article_schema'', 10),
      (''faq_like_page_missing_faq_schema'', 10), (''missing_about_page'', 7),
      (''missing_contact_page'', 7), (''missing_policy_page'', 5)]"

definition pagespeed_bucket_weights :: "(string \<times> float64) list" where
  "pagespeed_bucket_weights =
     [(''server_responsiveness'', lit 40 100), (''page_weight'', lit 30 100), (''psi_cwv'', lit 30 100)]"

definition pagespeed_issue_penalty_by_type :: "(string \<times> float64) list" where
  "pagespeed_issue_penalty_by_type =
     [(''slow_response_time'', 12), (''moderate_page_size'', 5), (''large_page_size'', 10),
      (''google_psi_mobile_performance'', 18), (''google_psi_fcp'', 12), (''google_psi_lcp'', 14),
      (''google_psi_cls'', 12), (''google_psi_fid'', 10), (''google_psi_speed_index'', 10),
      (''google_psi_tti'', 10)]"

section \<open>Defaults\<close>

definition default_scoring_config :: scoring_config where
  "default_scoring_config = default_scoring_math_config\<lparr>sc_Pillars :=
     [(''seo'', \<lparr>pc_Label = ''SEO'', pc_Weight = lit 65 100, pc_MinimumIssueCoverage = 0,
        pc_BucketWeights = seo_bucket_weights, pc_IssuePenaltyByType = seo_issue_penalty_by_type\<rparr>),
      (''aeo'', \<lparr>pc_Label = ''AEO'', pc_Weight = lit 20 100, pc_MinimumIssueCoverage = lit 75 100,
        pc_BucketWeights = aeo_bucket_weights, pc_IssuePenaltyByType = aeo_issue_penalty_by_type\<rparr>),
      (''pagespeed'', \<lparr>pc_Label = ''PageSpeed'', pc_Weight = lit 15 100, pc_MinimumIssueCoverage = 0,
        pc_BucketWeights = pagespeed_bucket_weights,
        pc_IssuePenaltyByType = pagespeed_issue_penalty_by_type\<rparr>)]\<rparr>"

text \<open>\<open>BuildScoreBreakdown\<close> and \<open>CalculateScores\<close> use the defaults.\<close>

definition build_score_breakdown ::
    "go_env \<Rightarrow> string \<Rightarrow> crawl_page_signal list \<Rightarrow> crawl_issue_signal list \<Rightarrow> psi_input
       \<Rightarrow> score_breakdown_snapshot" where
  "build_score_breakdown env crawlID pages signals psi =
     build_score_breakdown_with_config env crawlID pages signals default_scoring_config psi"

definition calculate_scores ::
    "go_env \<Rightarrow> crawl_page_signal list \<Rightarrow> crawl_issue_signal list \<Rightarrow> crawl_scores" where
  "calculate_scores env pages signals = crawl_scores_of (build_score_breakdown env [] pages signals None)"

section \<open>Merging and validating a stored configuration\<close>

definition add_missing :: "(string \<times> float64) list \<Rightarrow> (string \<times> float64) list \<Rightarrow> (string \<times> float64) list" where
  "add_missing defaults m = m @ filter (\<lambda>(k, _). map_of m k = None) defaults"

text \<open>A pillar the defaults do not know is left alone.\<close>

definition merge_pillar :: "string \<Rightarrow> pillar_scoring_config \<Rightarrow> pillar_scoring_config" where
  "merge_pillar pillarID pc =
     (case map_of (sc_Pillars default_scoring_config) pillarID of
        None \<Rightarrow> pc
      | Some d \<Rightarrow> pc\<lparr>pc_IssuePenaltyByType :=
          add_missing (pc_IssuePenaltyByType d) (pc_IssuePenaltyByType pc)\<rparr>)"

definition merge_missing_issue_penalties :: "scoring_config \<Rightarrow> scoring_config" where
  "merge_missing_issue_penalties cfg =
     cfg\<lparr>sc_Pillars := map (\<lambda>(pillarID, pc). (pillarID, merge_pillar pillarID pc)) (sc_Pillars cfg)\<rparr>"

text \<open>A map whose keys are blank or whose values are negative is rejected at the first such entry.\<close>

definition bad_entry :: "string \<times> float64 \<Rightarrow> bool" where
  "bad_entry kv = (trim_space (fst kv) = [] \<or> snd kv < 0)"

definition check_entries :: "(string \<Rightarrow> string) \<Rightarrow> (string \<times> float64) list \<Rightarrow> unit result" where
  "check_entries message m =
     (case filter bad_entry m of [] \<Rightarrow> Inr () | kv # _ \<Rightarrow> Inl (message (fst kv)))"

definition validate_pillar :: "scoring_config \<Rightarrow> string \<Rightarrow> unit result" where
  "validate_pillar cfg pillarID =
     (case map_of (sc_Pillars cfg) pillarID of
        None \<Rightarrow> Inl (''missing pillar config for '' @ pillarID)
      | Some pc \<Rightarrow>
          if trim_space (pc_Label pc) = [] then Inl (''missing label for pillar '' @ pillarID)
          else if pc_Weight pc < 0 then Inl (''invalid weight for pillar '' @ pillarID)
          else if pc_MinimumIssueCoverage pc < 0 \<or> pc_MinimumIssueCoverage pc > 1
            then Inl (''invalid minimum issue coverage for pillar '' @ pillarID)
          else if pc_BucketWeights pc = [] then Inl (''bucket_weights is required for pillar '' @ pillarID)
          else bind_result
            (check_entries (\<lambda>b. ''invalid bucket weight for '' @ pillarID @ ''/'' @ b) (pc_BucketWeights pc))
            (\<lambda>_. if pc_IssuePenaltyByType pc = []
                 then Inl (''issue_penalty_by_type is required for pillar '' @ pillarID)
                 else check_entries (\<lambda>t. ''invalid issue penalty for '' @ pillarID @ ''/'' @ t)
                        (pc_IssuePenaltyByType pc)))"

fun validate_pillars :: "scoring_config \<Rightarrow> string list \<Rightarrow> unit result" where
  "validate_pillars cfg [] = Inr ()"
| "validate_pillars cfg (p # ps) = bind_result (validate_pillar cfg p) (\<lambda>_. validate_pillars cfg ps)"

definition validate_scoring_config :: "scoring_config \<Rightarrow> unit result" where
  "validate_scoring_config cfg =
     (if sc_CoverageScale cfg \<le> 0 then Inl ''coverage_scale must be greater than zero''
      else if sc_SoftSumDecay cfg \<le> 0 \<or> sc_SoftSumDecay cfg \<ge> 1
        then Inl ''soft_sum_decay must be greater than zero and less than one''
      else if sc_SeverityMultipliers cfg = [] then Inl ''severity_multipliers is required''
      else bind_result
        (check_entries (\<lambda>s. ''invalid severity multiplier for '' @ quoted s) (sc_SeverityMultipliers cfg))
        (\<lambda>_. if sc_OverallWeights cfg = [] then Inl ''overall_weights is required''
             else bind_result
               (check_entries (\<lambda>p. ''invalid overall weight for '' @ quoted p) (sc_OverallWeights cfg))
               (\<lambda>_. validate_pillars cfg [''seo'', ''aeo'', ''pagespeed''])))"

definition parse_scoring_config ::
    "(scoring_config \<Rightarrow> string \<Rightarrow> scoring_config result) \<Rightarrow> string \<Rightarrow> scoring_config result" where
  \<comment> \<open>the decoder merges the JSON object into the given configuration\<close>
  "parse_scoring_config unmarshal rawConfig =
     (if trim_space rawConfig = [] then Inr default_scoring_config
      else bind_result (unmarshal default_scoring_config rawConfig) (\<lambda>config.
        let merged = merge_missing_issue_penalties config in
        bind_result (validate_scoring_config merged) (\<lambda>_. Inr merged)))"

section \<open>What validation guarantees\<close>

lemma check_entries_ok [simp]:
  "check_entries msg m = Inr u \<longleftrightarrow> (\<forall>(k, v) \<in> set m. trim_space k \<noteq> [] \<and> 0 \<le> v)"
proof -
  have "check_entries msg m = Inr u \<longleftrightarrow> filter bad_entry m = []"
    by (auto simp: check_entries_def split: list.splits)
  then show ?thesis by (auto simp: filter_empty_conv bad_entry_def not_less split_beta)
qed

lemma validate_scoring_config_ok:
  assumes "validate_scoring_config cfg = Inr ()"
  shows "0 < sc_CoverageScale cfg" "0 < sc_SoftSumDecay cfg" "sc_SoftSumDecay cfg < 1"
    "\<forall>(k, v) \<in> set (sc_SeverityMultipliers cfg). 0 \<le> v"
    "\<forall>(k, v) \<in> set (sc_OverallWeights cfg). 0 \<le> v"
    "\<forall>p \<in> {''seo'', ''aeo'', ''pagespeed''}. \<exists>pc. map_of (sc_Pillars cfg) p = Some pc \<and>
       0 \<le> pc_MinimumIssueCoverage pc \<and> pc_MinimumIssueCoverage pc \<le> 1 \<and>
       (\<forall>(k, v) \<in> set (pc_BucketWeights pc). 0 \<le> v) \<and>
       (\<forall>(k, v) \<in> set (pc_IssuePenaltyByType pc). 0 \<le> v)"
  using assms
  by (auto simp: validate_scoring_config_def validate_pillar_def split: if_splits option.splits)

end
