(* ===== verification/IssueDerive.thy ===== *)
theory IssueDerive
  imports AeoDerive ScoreConfig
begin

text \<open>
  The derivation around the pillars: loading facts from database rows (\<open>issues/facts.go\<close>), the
  PageSpeed rules (\<open>page_speed/derive.go\<close>), the split into broken and scoreable pages and the
  recommended fixes (\<open>issues/derive.go\<close>). A nullable column is an option.
\<close>

section \<open>Facts\<close>

record internal_link_row =
  ilr_SourceUrl :: string
  ilr_TargetUrl :: string
  ilr_TargetStatus :: "int option"
  ilr_TargetUrlKey :: "string option"

record status_row =
  sr_UrlKey :: "string option"
  sr_StatusCode :: "int option"

definition text_value :: "string option \<Rightarrow> string" where
  "text_value v = (case v of None \<Rightarrow> [] | Some s \<Rightarrow> s)"

definition int32_value :: "int option \<Rightarrow> int" where
  "int32_value v = (case v of None \<Rightarrow> 0 | Some n \<Rightarrow> n)"

text \<open>The smallest stored status of a URL key.\<close>

definition add_destination_status :: "status_row \<Rightarrow> (string \<Rightarrow> int option) \<Rightarrow> (string \<Rightarrow> int option)" where
  "add_destination_status row statuses =
     (case (sr_StatusCode row, sr_UrlKey row) of
        (Some code, Some key) \<Rightarrow>
          (case statuses key of
             None \<Rightarrow> statuses(key := Some code)
           | Some current \<Rightarrow> if code < current then statuses(key := Some code) else statuses)
      | _ \<Rightarrow> statuses)"

definition link_destination_statuses :: "status_row list \<Rightarrow> string \<Rightarrow> int option" where
  "link_destination_statuses rows = fold add_destination_status rows (\<lambda>_. None)"

definition resolve_link_target_status :: "int option \<Rightarrow> string option \<Rightarrow> (string \<Rightarrow> int option) \<Rightarrow> int" where
  "resolve_link_target_status stored targetKey statuses =
     (case stored of
        Some n \<Rightarrow> n
      | None \<Rightarrow> (case targetKey of None \<Rightarrow> 0 | Some k \<Rightarrow> int32_value (statuses k)))"

definition build_link_facts :: "internal_link_row list \<Rightarrow> (string \<Rightarrow> int option) \<Rightarrow> link_fact list" where
  "build_link_facts rows statuses =
     map (\<lambda>r. \<lparr>lf_SourceURL = ilr_SourceUrl r, lf_TargetURL = ilr_TargetUrl r,
        lf_TargetStatus = resolve_link_target_status (ilr_TargetStatus r) (ilr_TargetUrlKey r) statuses\<rparr>) rows"

section \<open>PageSpeed rules\<close>

definition pagespeed_issue :: "page_fact \<Rightarrow> string \<Rightarrow> string \<Rightarrow> string \<Rightarrow> string \<Rightarrow> string \<Rightarrow> derived_issue" where
  "pagespeed_issue p bucket issueType severity message details =
     \<lparr>iss_CrawlPageID = pf_ID p, iss_URL = pf_URL p, iss_Pillar = ''pagespeed'', iss_Bucket = bucket,
      iss_IssueType = issueType, iss_Severity = severity, iss_Message = message, iss_Details = details\<rparr>"

definition bytes_to_megabytes :: "int \<Rightarrow> float64" where
  "bytes_to_megabytes sizeBytes = fdiv (fdiv (fl64 (of_int sizeBytes)) 1024) 1024"

text \<open>\<open>%.1f\<close> of a non-negative value: the exact decimal, rounded half to even.\<close>

definition format_1f :: "float64 \<Rightarrow> string" where
  "format_1f x = (let t = round_half_even (x * 10) in itoa (t div 10) @ ''.'' @ itoa (t mod 10))"

definition slow_response_time_milliseconds_threshold :: int where
  "slow_response_time_milliseconds_threshold = 1000"
definition moderate_page_size_bytes_threshold :: int where
  "moderate_page_size_bytes_threshold = 1 * 1024 * 1024"
definition large_page_size_bytes_threshold :: int where
  "large_page_size_bytes_threshold = 3 * 1024 * 1024"

definition pagespeed_rules :: "page_fact \<Rightarrow> derived_issue list" where
  "pagespeed_rules p =
     rule (pf_ResponseTimeMs p > slow_response_time_milliseconds_threshold)
       (pagespeed_issue p ''server_responsiveness'' ''slow_response_time'' ''medium'' ''Page response time is slow''
          (''Page response time is '' @ itoa (pf_ResponseTimeMs p) @ ''ms.''))
     @ (if pf_SizeBytes p > large_page_size_bytes_threshold then
          [pagespeed_issue p ''page_weight'' ''large_page_size'' ''high'' ''Page size is large''
             (''Page size is '' @ format_1f (bytes_to_megabytes (pf_SizeBytes p)) @ ''MB (recommended: under 3MB).'')]
        else rule (pf_SizeBytes p > moderate_page_size_bytes_threshold)
          (pagespeed_issue p ''page_weight'' ''moderate_page_size'' ''medium'' ''Page size is moderately large''
             (''Page size is '' @ format_1f (bytes_to_megabytes (pf_SizeBytes p)) @ ''MB (recommended: under 1MB).'')))"

definition derive_pagespeed_issues :: "page_fact list \<Rightarrow> derived_issue list" where
  "derive_pagespeed_issues ps = concat (map pagespeed_rules ps)"

section \<open>All issues of a crawl\<close>

definition scoreable_page_facts :: "page_fact list \<Rightarrow> page_fact list" where
  "scoreable_page_facts ps = filter (\<lambda>p. is_scoreable_content_type (pf_ContentType p) \<and> is_healthy p) ps"

definition broken_page_facts :: "page_fact list \<Rightarrow> page_fact list" where
  "broken_page_facts ps = filter (\<lambda>p. is_scoreable_content_type (pf_ContentType p) \<and> \<not> is_healthy p) ps"

definition derive_issues ::
    "(string \<Rightarrow> string) \<Rightarrow> page_fact list \<Rightarrow> link_fact list \<Rightarrow> site_facts
       \<Rightarrow> derived_issue list \<times> duplicate_group list" where
  "derive_issues sha256 ps ls site =
     (let scoreable = scoreable_page_facts ps;
          (seoIssues, groups) = derive_seo_issues sha256 scoreable ls
      in (derive_broken_page_issues (broken_page_facts ps) @ seoIssues @ derive_aeo_issues scoreable site
            @ derive_pagespeed_issues scoreable, groups))"

section \<open>Recommended fixes\<close>

definition recommended_fixes :: "(string \<times> string) list" where
  "recommended_fixes =
     [(''missing_title'',
       ''Add a descriptive <title> tag that reflects the page intent and primary query.''),
      (''title_too_long'',
       ''Shorten the title to roughly 30-60 characters, keep the main intent first, and remove filler or repeated brand text.''),
      (''title_too_short'',
       ''Expand the title so it clearly describes the page intent while staying concise and useful in search results.''),
      (''duplicate_title'',
       ''Give this page a unique title that distinguishes it from similar pages and matches its specific intent.''),
      (''missing_meta_description'',
       ''Add a meta description that summarizes the page clearly and matches the search intent.''),
      (''meta_description_too_long'',
       ''Shorten the meta description so the key summary fits cleanly within a typical search snippet.''),
      (''meta_description_too_short'',
       ''Expand the meta description so it gives a fuller summary of the page while staying concise.''),
      (''duplicate_meta_description'',
       ''Write a unique meta description for this page so it does not reuse copy from similar pages.''),
      (''missing_h1'',
       ''Add one primary H1 heading that matches the page topic and aligns with the title.''),
      (''multiple_h1'',
       ''Keep a single primary H1 on the page and demote secondary headings to lower levels.''),
      (''title_h1_mismatch'',
       ''Align the title and H1 so both communicate the same page intent without unnecessary wording differences.''),
      (''missing_h2_on_long_page'',
       ''Break the page into clearer sections with descriptive H2 subheadings.''),
      (''skipped_heading_levels'',
       ''Restructure the heading outline so heading levels progress in order without skipping levels.''),
      (''thin_content'',
       ''Add more useful original content that better answers the page intent and supports the target query.''),
      (''near_empty_visible_content'',
       ''Add substantial visible page content so the page offers more than placeholder or utility copy.''),
      (''exact_duplicate_content'',
       ''Consolidate duplicate pages into a canonical source, merge overlapping copy, and redirect or canonicalize true duplicates.''),
      (''missing_canonical'',
       ''Add a canonical link element pointing to the preferred absolute page URL.''),
      (''malformed_canonical'',
       ''Replace the canonical value with a valid absolute HTTP or HTTPS URL.''),
      (''canonical_differs'',
       ''Confirm the canonical target is intentional; otherwise point the canonical to this page'' @ [CHR 0x27] @ ''s preferred URL.''),
      (''canonical_points_to_non_indexable_page'',
       ''Point the canonical to an indexable preferred page or make the canonical target indexable if it should remain the source page.''),
      (''noindex_page'',
       ''Remove the noindex directive if this page should be eligible to appear in search results.''),
      (''nofollow_page'',
       ''Remove the nofollow directive if search engines should follow the page'' @ [CHR 0x27] @ ''s internal links.''),
      (''client_error_status'',
       ''Fix the underlying HTTP error so the page responds successfully and can be crawled and indexed.''),
      (''server_error_status'',
       ''Fix the underlying HTTP error so the page responds successfully and can be crawled and indexed.''),
      (''soft_404'',
       ''Return a real 404 or 410 status for URLs that do not exist, instead of a 200 with not-found content. A success status tells search engines the page is real, so the URL stays in the index as thin duplicate content and the broken link that led here goes unreported.''),
      (''fetch_failed'',
       ''Confirm the URL is reachable: check DNS, TLS, server errors, and any rate limiting or bot protection that blocks crawlers. If the page no longer exists, remove the internal links pointing to it.''),
      (''missing_viewport'',
       ''Add a viewport meta tag so the page renders correctly on mobile devices.''),
      (''missing_lang'',
       ''Add a lang attribute to the root HTML element to declare the page language.''),
      (''images_missing_alt'',
       ''Add descriptive alt text to meaningful images and keep decorative images empty with alt='' @ [CHR 0x22] @ [CHR 0x22] @ ''.''),
      (''images_missing_dimensions'',
       ''Set explicit image width and height attributes where possible to reduce layout shifts.''),
      (''too_many_images_on_page'',
       ''Reduce unnecessary images or add more supporting content so the page has a stronger content-to-image balance.''),
      (''no_internal_links_out'',
       ''Add relevant internal links from this page to other important pages on the site.''),
      (''low_internal_links_out'',
       ''Add relevant internal links from this page to other important pages on the site.''),
      (''orphan_like_page'',
       ''Add more internal links pointing to this page from relevant navigational or contextual sources.''),
      (''low_internal_links_in'',
       ''Add more internal links pointing to this page from relevant navigational or contextual sources.''),
      (''very_deep_page'',
       ''Improve crawl depth by linking to this page from stronger parent, hub, or navigation pages.''),
      (''internal_links_to_broken_pages'',
       ''Update or remove internal links that point to broken targets.''),
      (''internal_links_to_redirects'',
       ''Update internal links so they point directly to the final destination URL instead of a redirect.''),
      (''missing_og_tags'',
       ''Add core Open Graph tags so the page has stronger sharing and entity-preview signals.''),
      (''weak_open_graph_coverage'',
       ''Roll out core Open Graph tags across a larger share of important pages on the site.''),
      (''missing_structured_data'',
       ''Add page-appropriate JSON-LD structured data using a schema type that matches the page purpose.''),
      (''generic_structured_data_only'',
       ''Replace generic schema with more specific structured data that better describes the page'' @ [CHR 0x27] @ ''s real content type.''),
      (''schema_missing_core_fields'',
       ''Expand the structured data to include core identity fields like name, url, and description where appropriate.''),
      (''missing_https'',
       ''Serve this page over HTTPS and update internal references to use the secure version.''),
      (''missing_author_signal'',
       ''Add a clear author attribution signal in visible content, metadata, or structured data.''),
      (''weak_author_signal'',
       ''Strengthen the author attribution so it identifies a specific credible person or source.''),
      (''article_missing_article_schema'',
       ''Add Article or BlogPosting structured data to this article-like page.''),
      (''article_missing_publisher_identity'',
       ''Expose author, publisher, or mainEntityOfPage details in the article schema.''),
      (''author_signal_not_supported_by_schema'',
       ''Align visible author attribution with matching author or publisher identity in structured data.''),
      (''long_article_has_no_citations'',
       ''Add credible external sources or citations that support important claims on the page.''),
      (''missing_external_citations'',
       ''Add credible external sources or citations that support important claims on the page.''),
      (''long_article_has_weak_citations'',
       ''Strengthen citation support with more relevant and authoritative external references.''),
      (''weak_external_citations'',
       ''Strengthen citation support with more relevant and authoritative external references.''),
      (''faq_like_page_missing_faq_schema'',
       ''Add FAQPage structured data that reflects the page'' @ [CHR 0x27] @ ''s question-and-answer content.''),
      (''missing_website_schema'',
       ''Add WebSite structured data for the site-level entity.''),
      (''missing_org_identity_schema'',
       ''Add Organization, LocalBusiness, Person, or another appropriate identity schema for the site or business.''),
      (''missing_about_page'',
       ''Add an About page that explains who is behind the site and why the content is trustworthy.''),
      (''missing_contact_page'',
       ''Add a Contact page with a clear contact destination for users and systems.''),
      (''missing_policy_page'',
       ''Add core policy pages such as privacy and terms to strengthen trust signals.''),
      (''homepage_missing_org_contact_trust_signals'',
       ''Strengthen homepage trust signals with organization identity, clear about/contact coverage, and supporting schema markup.''),
      (''missing_llms_txt'',
       ''Add an /llms.txt file at the site root (see llmstxt.org) that lists key pages in Markdown to help AI answer engines discover and cite your content.''),
      (''slow_response_time'',
       ''Reduce server response time by improving backend performance, caching, and origin latency.''),
      (''large_page_size'',
       ''Reduce page weight by compressing assets, removing unnecessary payloads, and loading fewer heavy resources.''),
      (''moderate_page_size'',
       ''Trim page weight where possible so the page loads with less asset overhead.'')]"

definition recommended_fix :: "string \<Rightarrow> string \<Rightarrow> string \<Rightarrow> string \<Rightarrow> string" where
  "recommended_fix bucket issueType message details =
     (case map_of recommended_fixes (trim_space issueType) of
        Some known \<Rightarrow> known
      | None \<Rightarrow>
          (let m = trim_space message; d = trim_space details;
               prefix = ''Review '' @ humanize_identifier issueType @ '' in '' @ humanize_identifier bucket
           in if m \<noteq> [] \<and> d \<noteq> []
                then prefix @ '' and update the page so it satisfies this issue: '' @ m @ '' '' @ d
              else if m \<noteq> [] then prefix @ '' and update the page so it satisfies this issue: '' @ m
              else prefix @ '' and update the page so it meets the expected requirement.''))"

end
