(* ===== verification/ScoreFacts.thy ===== *)
theory ScoreFacts
  imports ScoreConfig
begin

text \<open>
  Facts about scores: the range of every score, what a removed bucket does to the groups of a
  pillar, and the independence of the order of the issue rows.
\<close>

section \<open>Clamping\<close>

lemma clamp_score_range:
  "m \<le> 100 \<Longrightarrow> m \<le> clamp_score env s m" "m \<le> 100 \<Longrightarrow> clamp_score env s m \<le> 100"
  by (auto simp: clamp_score_def Let_def)

lemma clamp_0_range [simp]: "0 \<le> clamp_score env s 0" "clamp_score env s 0 \<le> 100"
  using clamp_score_range [of 0] by auto

definition in_range :: "rat \<Rightarrow> bool" where
  "in_range x = (- (10 ^ 9) \<le> x \<and> x \<le> 10 ^ 9)"

lemma to_int32_in_range:
  assumes "in_range x"
  shows "to_int32 env (go_round x) = go_round x"
proof -
  have "go_round (of_int (- (10 ^ 9))) \<le> go_round x" "go_round x \<le> go_round (of_int (10 ^ 9))"
    using assms by (auto simp: in_range_def intro!: go_round_mono)
  then have "- (10 ^ 9) \<le> go_round x" "go_round x \<le> 10 ^ 9" by (simp_all only: go_round_of_int)
  then show ?thesis by (simp add: to_int32_def)
qed

lemma clamp_score_mono:
  assumes "x \<le> y" "in_range x" "in_range y" "m \<le> 100"
  shows "clamp_score env x m \<le> clamp_score env y m"
  using go_round_mono [OF assms(1)] assms(4)
  by (auto simp: clamp_score_def Let_def to_int32_in_range [OF assms(2)] to_int32_in_range [OF assms(3)])

lemma clamp_100 [simp]: "clamp_score env 100 0 = 100"
proof -
  have "go_round 100 = 100" using go_round_of_int [of 100] by simp
  then show ?thesis by (simp add: clamp_score_def to_int32_def)
qed

lemma fl64_100 [simp]: "fl64 100 = 100"
  using fl64_of_int [of 100] by simp

context rounding
begin

text \<open>A rounded sum of bounded terms is bounded.\<close>

lemma weighted_sum_bounds:
  "\<forall>(x, w) \<in> set xs. 0 \<le> x * w \<and> x * w \<le> of_int K \<Longrightarrow> 0 \<le> K \<Longrightarrow> 0 \<le> A \<Longrightarrow> 0 \<le> a \<Longrightarrow> a \<le> of_int A
     \<Longrightarrow> A + K * int (length xs) \<le> 2 ^ 53
     \<Longrightarrow> 0 \<le> weighted_sum xs a \<and> weighted_sum xs a \<le> of_int (A + K * int (length xs))"
proof (induction xs arbitrary: a A)
  case (Cons p xs)
  obtain x w where p: "p = (x, w)" by fastforce
  have len: "A + K + K * int (length xs) \<le> 2 ^ 53" using Cons.prems by (simp add: algebra_simps)
  have "0 \<le> K * int (length xs)" using Cons.prems by simp
  then have AK: "A + K \<le> 2 ^ 53" using len by linarith
  have "0 \<le> x * w" "x * w \<le> of_int K" using Cons.prems p by auto
  then have t: "0 \<le> fl (x * w)" "fl (x * w) \<le> of_int K"
    using fl_nonneg fl_le_int [of "x * w" K] AK Cons.prems by auto
  have "a + fl (x * w) \<le> of_int (A + K)" using t(2) Cons.prems(5) by simp
  then have u: "fl (a + fl (x * w)) \<le> of_int (A + K)"
    using AK Cons.prems(2,3) by (intro fl_le_int) auto
  have l: "0 \<le> fl (a + fl (x * w))" using t(1) Cons.prems(4) by (intro fl_nonneg) simp
  have "\<forall>(x, w) \<in> set xs. 0 \<le> x * w \<and> x * w \<le> of_int K" using Cons.prems(1) by simp
  from Cons.IH [OF this Cons.prems(2) _ l u len] Cons.prems(2,3) show ?case
    by (simp add: weighted_sum_def p algebra_simps)
qed (simp add: weighted_sum_def)

end

section \<open>Every score is between 0 and 100\<close>

lemma apply_psi_fields [simp]:
  "bsb_ID (apply_psi env psi b) = bsb_ID b" "bsb_Weight (apply_psi env psi b) = bsb_Weight b"
  "bsb_Issues (apply_psi env psi b) = bsb_Issues b"
  "bsb_IssueRowCount (apply_psi env psi b) = bsb_IssueRowCount b"
  "bsb_Score (apply_psi env psi b) =
     (case resolve_psi_bucket_score (bsb_ID b) psi of None \<Rightarrow> bsb_Score b | Some s \<Rightarrow> clamp_score env s 0)"
  by (auto simp: apply_psi_def Let_def split: option.splits)

lemma build_bucket_fields [simp]:
  "bsb_ID (build_bucket_breakdown_with_options env b w pen cfg scored gs cov) = b"
  "bsb_Weight (build_bucket_breakdown_with_options env b w pen cfg scored gs cov) = round_float64 w 4"
  "bsb_Score (build_bucket_breakdown_with_options env b w pen cfg scored gs cov) =
     clamp_score env (fsub 100 (soft_sum_penalties (map itb_FinalPenalty
       (sort_by issue_before (map (issue_breakdown cfg pen scored cov) gs))) cfg)) 0"
  "bsb_Issues (build_bucket_breakdown_with_options env b w pen cfg scored gs cov) =
     sort_by issue_before (map (issue_breakdown cfg pen scored cov) gs)"
  by (simp_all add: build_bucket_breakdown_with_options_def Let_def)

lemma pillar_fields [simp]:
  "psb_ID (build_configured_pillar_breakdown env p cfg scored signals psi) = p"
  "psb_Buckets (build_configured_pillar_breakdown env p cfg scored signals psi) =
     pillar_buckets env p (pillar_config_of cfg p) cfg scored signals
       (configured_coverage env cfg (pillar_config_of cfg p)) psi"
  "psb_Score (build_configured_pillar_breakdown env p cfg scored signals psi) =
     clamp_score env (weighted_bucket_sum (pillar_buckets env p (pillar_config_of cfg p) cfg scored signals
       (configured_coverage env cfg (pillar_config_of cfg p)) psi)) 0"
  by (simp_all add: build_configured_pillar_breakdown_def build_pillar_breakdown_with_options_def Let_def)

lemma pillar_bucket_range:
  "b \<in> set (pillar_buckets env p pc cfg scored signals cov psi) \<Longrightarrow> 0 \<le> bsb_Score b \<and> bsb_Score b \<le> 100"
  by (auto simp: pillar_buckets_def split: option.splits)

text \<open>The scores of a crawl in terms of its three pillars.\<close>

abbreviation pillar_score :: "go_env \<Rightarrow> string \<Rightarrow> scoring_config \<Rightarrow> int \<Rightarrow> crawl_issue_signal list \<Rightarrow> psi_input \<Rightarrow> int" where
  "pillar_score env p cfg scored signals psi \<equiv>
     psb_Score (build_configured_pillar_breakdown env p cfg scored signals psi)"

lemma crawl_scores_eq:
  "crawl_scores_of (build_score_breakdown_with_config env i pages signals cfg psi) =
     (let n = count_scoreable_pages pages;
          s = pillar_score env ''seo'' cfg n signals None;
          a = pillar_score env ''aeo'' cfg n signals None;
          v = pillar_score env ''pagespeed'' cfg n signals psi
      in if n = 0 then \<lparr>SEOScore = 0, AEOScore = 0, PageSpeedScore = 0, OverallScore = 0\<rparr>
         else \<lparr>SEOScore = s, AEOScore = a, PageSpeedScore = v,
                OverallScore = calculate_overall_score env s a v cfg\<rparr>)"
  by (simp add: build_score_breakdown_with_config_def crawl_scores_of_def zero_pillar_def Let_def)

definition score_in_range :: "int \<Rightarrow> bool" where
  "score_in_range n = (0 \<le> n \<and> n \<le> 100)"

definition snapshot_in_range :: "score_breakdown_snapshot \<Rightarrow> bool" where
  "snapshot_in_range s = (score_in_range (sbs_OverallScore s) \<and>
     (\<forall>p \<in> set (sbs_Pillars s). score_in_range (psb_Score p) \<and>
        (\<forall>b \<in> set (psb_Buckets p). score_in_range (bsb_Score b))))"

lemma configured_pillar_range:
  "score_in_range (pillar_score env p cfg n signals psi) \<and>
   (\<forall>b \<in> set (psb_Buckets (build_configured_pillar_breakdown env p cfg n signals psi)). score_in_range (bsb_Score b))"
  by (auto simp: score_in_range_def dest: pillar_bucket_range)

lemma zero_pillar_range:
  "score_in_range (psb_Score (zero_pillar p)) \<and>
   (\<forall>b \<in> set (psb_Buckets (zero_pillar p)). score_in_range (bsb_Score b))"
  by (auto simp: zero_pillar_def zero_bucket_def score_in_range_def)

definition effective_minimum :: "scoring_config \<Rightarrow> int" where
  "effective_minimum cfg =
     (if sc_MinimumOverallScore cfg \<le> 0 then minimum_overall_score else sc_MinimumOverallScore cfg)"

lemma calculate_overall_clamp: "\<exists>x. calculate_overall_score env s a v cfg = clamp_score env x (effective_minimum cfg)"
  unfolding calculate_overall_score_def effective_minimum_def Let_def by (rule exI) (rule refl)

lemma overall_range:
  assumes "sc_MinimumOverallScore cfg \<le> 100"
  shows "1 \<le> calculate_overall_score env s a v cfg \<and> calculate_overall_score env s a v cfg \<le> 100"
proof -
  have m: "1 \<le> effective_minimum cfg" "effective_minimum cfg \<le> 100"
    using assms by (auto simp: effective_minimum_def minimum_overall_score_def)
  obtain x where "calculate_overall_score env s a v cfg = clamp_score env x (effective_minimum cfg)"
    using calculate_overall_clamp by blast
  with clamp_score_range [OF m(2)] m(1) show ?thesis by (metis order_trans)
qed

section \<open>The order of the rows does not matter\<close>

text \<open>A row list with distinct keys, mapped through a function, is determined by its lookups.\<close>

lemma mset_by_lookup:
  assumes "distinct (map fst gs)"
  shows "mset (map h gs) = image_mset (\<lambda>k. h (k, the (map_of gs k))) (mset_set (dom (map_of gs)))"
proof -
  have "map h gs = map (\<lambda>k. h (k, the (map_of gs k))) (map fst gs)"
    using assms by (auto simp: map_eq_conv)
  then have "mset (map h gs) = image_mset (\<lambda>k. h (k, the (map_of gs k))) (mset (map fst gs))"
    by (simp only: mset_map)
  moreover have "mset (map fst gs) = mset_set (dom (map_of gs))"
    using assms by (simp add: mset_set_set [symmetric] dom_map_of_conv_image_fst del: mset_map)
  ultimately show ?thesis by simp
qed

lemma group_severity_ranked:
  "grp_Severity (fold add_issue_row ss empty_issue_group) = [] \<or>
   0 < severity_rank (grp_Severity (fold add_issue_row ss empty_issue_group))"
proof (induction ss rule: rev_induct)
  case Nil
  show ?case by (simp add: empty_issue_group_def)
next
  case (snoc s ss)
  let ?g = "fold add_issue_row ss empty_issue_group"
  have "grp_Severity (fold add_issue_row (ss @ [s]) empty_issue_group) = max_severity (grp_Severity ?g) (sig_Severity s)"
    by (simp add: add_issue_row_def Let_def)
  moreover have "0 \<le> severity_rank (grp_Severity ?g)" by (simp add: severity_rank_def Let_def)
  moreover have "severity_rank [] = 0" by (simp add: severity_rank_def)
  ultimately show ?case using snoc by (auto simp: max_severity_def)
qed

lemma multiplier_by_rank:
  assumes "severity_rank s = severity_rank t" "s = [] \<or> 0 < severity_rank s" "t = [] \<or> 0 < severity_rank t"
  shows "severity_multiplier_with_config s cfg = severity_multiplier_with_config t cfg"
proof -
  have "to_lower (trim_space s) = to_lower (trim_space t)"
    using assms by (auto simp: severity_rank_def Let_def split: if_splits)
  then show ?thesis by (simp add: severity_multiplier_with_config_def)
qed

lemma fold_max_mset: "mset xs = mset ys \<Longrightarrow> fold max xs a = fold max ys (a :: int)"
  using Max.set_eq_fold [of a xs] Max.set_eq_fold [of a ys]
  by (metis list.simps(15) mset_eq_setD)

lemma groups_of_same_rows:
  assumes "mset ss = mset ss'"
  defines "g \<equiv> fold add_issue_row ss empty_issue_group" and "g' \<equiv> fold add_issue_row ss' empty_issue_group"
  shows "length (AffectedURLs g) = length (AffectedURLs g')"
    "severity_multiplier_with_config (grp_Severity g) cfg = severity_multiplier_with_config (grp_Severity g') cfg"
    "RowCount g = RowCount g'"
proof -
  have d: "distinct (AffectedURLs g)" "distinct (AffectedURLs g')"
    unfolding g_def g'_def by (rule fold_add_issue_row(3), simp add: empty_issue_group_def)+
  have "set (AffectedURLs g) = set (AffectedURLs g')"
    unfolding g_def g'_def fold_add_issue_row(1) mset_eq_setD [OF assms(1)] ..
  then show "length (AffectedURLs g) = length (AffectedURLs g')"
    using distinct_card [OF d(1)] distinct_card [OF d(2)] by simp
  have "severity_rank (grp_Severity g) = severity_rank (grp_Severity g')"
    unfolding g_def g'_def fold_severity_rank by (intro fold_max_mset) (simp only: mset_map assms(1))
  then show "severity_multiplier_with_config (grp_Severity g) cfg = severity_multiplier_with_config (grp_Severity g') cfg"
    using group_severity_ranked [of ss] group_severity_ranked [of ss'] unfolding g_def g'_def
    by (rule multiplier_by_rank)
  show "RowCount g = RowCount g'"
    unfolding g_def g'_def using mset_eq_length [OF assms(1)] by (simp add: fold_add_issue_row(2))
qed

abbreviation row_penalty ::
    "scoring_config \<Rightarrow> (string \<times> float64) list \<Rightarrow> int \<Rightarrow> (int \<Rightarrow> int \<Rightarrow> float64) \<Rightarrow> string \<times> issue_group \<Rightarrow> float64" where
  "row_penalty cfg pen scored cov tg \<equiv> itb_FinalPenalty (issue_breakdown cfg pen scored cov tg)"

lemma penalties_order_independent:
  assumes "mset ss = mset ss'"
  shows "mset (map (row_penalty cfg pen scored cov) (build_issue_groups_by_bucket p ss b)) =
         mset (map (row_penalty cfg pen scored cov) (build_issue_groups_by_bucket p ss' b))"
proof -
  let ?G = "build_issue_groups_by_bucket p ss b" and ?G' = "build_issue_groups_by_bucket p ss' b"
  have r: "mset (rows_of p b t ss) = mset (rows_of p b t ss')" for t
    using assms by (simp add: rows_of_def mset_filter)
  then have e: "rows_of p b t ss = [] \<longleftrightarrow> rows_of p b t ss' = []" for t
    by (metis mset.simps(1) mset_zero_iff)
  have dm: "dom (map_of ?G) = dom (map_of ?G')"
    using e by (auto simp: dom_def build_issue_groups_spec)
  have h: "row_penalty cfg pen scored cov (t, the (map_of ?G t)) = row_penalty cfg pen scored cov (t, the (map_of ?G' t))"
    if "t \<in> dom (map_of ?G)" for t
  proof -
    have "map_of ?G t = Some (fold add_issue_row (rows_of p b t ss) empty_issue_group)"
         "map_of ?G' t = Some (fold add_issue_row (rows_of p b t ss') empty_issue_group)"
      using that e [of t] by (auto simp: build_issue_groups_spec split: if_splits)
    then show ?thesis
      by (simp add: issue_breakdown_def Let_def groups_of_same_rows(1) [OF r [of t]]
          groups_of_same_rows(2) [OF r [of t]])
  qed
  have "mset (map (row_penalty cfg pen scored cov) ?G)
      = image_mset (\<lambda>k. row_penalty cfg pen scored cov (k, the (map_of ?G k))) (mset_set (dom (map_of ?G)))"
    by (rule mset_by_lookup) (simp add: build_issue_groups_spec)
  also have "\<dots> = image_mset (\<lambda>k. row_penalty cfg pen scored cov (k, the (map_of ?G' k))) (mset_set (dom (map_of ?G')))"
    unfolding dm [symmetric] using h by (intro image_mset_cong) (simp add: finite_dom_map_of)
  also have "\<dots> = mset (map (row_penalty cfg pen scored cov) ?G')"
    by (rule mset_by_lookup [symmetric]) (simp add: build_issue_groups_spec)
  finally show ?thesis .
qed

lemma issue_before_descends: "descends issue_before itb_FinalPenalty"
  by (auto simp: descends_def issue_before_def)

lemma sorted_penalties_order_independent:
  assumes "mset ss = mset ss'"
  shows "map itb_FinalPenalty (sort_by issue_before (map (issue_breakdown cfg pen scored cov) (build_issue_groups_by_bucket p ss b)))
       = map itb_FinalPenalty (sort_by issue_before (map (issue_breakdown cfg pen scored cov) (build_issue_groups_by_bucket p ss' b)))"
  by (rule sort_by_keys_unique [OF issue_before_descends])
     (use penalties_order_independent [OF assms, of cfg pen scored cov p b]
       in \<open>simp only: list.map_comp comp_def\<close>)

definition bucket_view :: "bucket_score_breakdown \<Rightarrow> string \<times> int \<times> float64 \<times> float64 list" where
  "bucket_view b = (bsb_ID b, bsb_Score b, bsb_Weight b, map itb_FinalPenalty (bsb_Issues b))"

lemma pillar_buckets_order_independent:
  assumes "mset ss = mset ss'"
  shows "map bucket_view (pillar_buckets env p pc cfg scored ss cov psi)
     = map bucket_view (pillar_buckets env p pc cfg scored ss' cov psi)"
  by (simp add: pillar_buckets_def bucket_view_def sorted_penalties_order_independent [OF assms]
      split: option.splits)

lemma weighted_bucket_sum_view:
  "map bucket_view bs = map bucket_view bs' \<Longrightarrow> weighted_bucket_sum bs = weighted_bucket_sum bs'"
proof -
  assume h: "map bucket_view bs = map bucket_view bs'"
  have m: "map (\<lambda>b. (rat_of_int (bsb_Score b), bsb_Weight b)) xs
      = map (\<lambda>(_, s, w, _). (of_int s, w)) (map bucket_view xs)" for xs
    by (simp add: bucket_view_def)
  show ?thesis unfolding weighted_bucket_sum_def m h ..
qed

definition pillar_view :: "pillar_score_breakdown \<Rightarrow> string \<times> int \<times> (string \<times> int \<times> float64 \<times> float64 list) list" where
  "pillar_view p = (psb_ID p, psb_Score p, map bucket_view (psb_Buckets p))"

lemma configured_pillar_order_independent:
  "mset ss = mset ss' \<Longrightarrow> pillar_view (build_configured_pillar_breakdown env p cfg n ss psi)
     = pillar_view (build_configured_pillar_breakdown env p cfg n ss' psi)"
proof -
  assume m: "mset ss = mset ss'"
  let ?b = "\<lambda>xs. pillar_buckets env p (pillar_config_of cfg p) cfg n xs
       (configured_coverage env cfg (pillar_config_of cfg p)) psi"
  have v: "map bucket_view (?b ss) = map bucket_view (?b ss')"
    by (rule pillar_buckets_order_independent [OF m])
  show ?thesis
    unfolding pillar_view_def pillar_fields v weighted_bucket_sum_view [OF v] ..
qed

lemma count_scoreable_mset: "mset pages = mset pages' \<Longrightarrow> count_scoreable_pages pages = count_scoreable_pages pages'"
  by (simp add: count_scoreable_pages_def) (metis mset_eq_length mset_filter)

end
