(* ===== verification/Potential.thy ===== *)
theory Potential
  imports ScoreFacts
begin

text \<open>
  What a crawl would score with some buckets fixed (\<open>issues/potential.go\<close>): the scorer is run
  again without the issue rows of those buckets. The lemmas show that removing more buckets
  never lowers a score.
\<close>

section \<open>Definitions\<close>

record score_set =
  Overall :: int
  SEO :: int
  AEO :: int
  PageSpeed :: int

record bucket_potential =
  bp_Bucket :: string
  bp_Pillar :: string
  bp_Scores :: score_set
  bp_Delta :: score_set

record potential_scenario =
  ps_Buckets :: "string list"
  ps_Scores :: score_set
  ps_Delta :: score_set

record potential_result =
  Current :: score_set
  Opportunities :: "bucket_potential list"
  Best :: potential_scenario
  Top3 :: potential_scenario
  Recommended :: potential_scenario

definition compute_scores ::
    "go_env \<Rightarrow> crawl_page_signal list \<Rightarrow> crawl_issue_signal list \<Rightarrow> scoring_config \<Rightarrow> psi_input \<Rightarrow> score_set" where
  "compute_scores env pages crawlIssues cfg psi =
     (let s = crawl_scores_of (build_score_breakdown_with_config env ''potential'' pages crawlIssues cfg psi)
      in \<lparr>Overall = OverallScore s, SEO = SEOScore s, AEO = AEOScore s, PageSpeed = PageSpeedScore s\<rparr>)"

definition subtract_scores :: "score_set \<Rightarrow> score_set \<Rightarrow> score_set" where
  "subtract_scores fixed base =
     \<lparr>Overall = Overall fixed - Overall base, SEO = SEO fixed - SEO base,
      AEO = AEO fixed - AEO base, PageSpeed = PageSpeed fixed - PageSpeed base\<rparr>"

definition simulated_fixed_psi :: "string \<Rightarrow> psi_input \<Rightarrow> psi_input" where
  "simulated_fixed_psi bucketID psi = (if bucketID \<noteq> ''psi_cwv'' then psi else Some (Some 100))"

definition without_bucket :: "crawl_issue_signal list \<Rightarrow> string \<Rightarrow> crawl_issue_signal list" where
  "without_bucket crawlIssues bucketID = filter (\<lambda>s. sig_Bucket s \<noteq> bucketID) crawlIssues"

definition without_buckets :: "crawl_issue_signal list \<Rightarrow> string list \<Rightarrow> crawl_issue_signal list" where
  "without_buckets crawlIssues bucketIDs = filter (\<lambda>s. sig_Bucket s \<notin> set bucketIDs) crawlIssues"

text \<open>\<open>bucketRefs\<close>: a pair is a bucket and its pillar.\<close>

definition bucket_ref_before :: "string \<times> string \<Rightarrow> string \<times> string \<Rightarrow> bool" where
  "bucket_ref_before l r =
     (if fst l \<noteq> fst r then str_less (fst l) (fst r) else str_less (snd l) (snd r))"

definition bucket_refs :: "scoring_config \<Rightarrow> (string \<times> string) list" where
  "bucket_refs cfg = sort_by bucket_ref_before
     (concat (map (\<lambda>(pillarID, pc). map (\<lambda>b. (b, pillarID)) (sorted_bucket_ids (pc_BucketWeights pc)))
       (sc_Pillars cfg)))"

definition unique_sorted_copy :: "string list \<Rightarrow> string list" where
  "unique_sorted_copy values = remdups_adj (sort_by str_less values)"

fun combined_psi :: "string list \<Rightarrow> psi_input \<Rightarrow> psi_input" where
  "combined_psi [] psi = psi"
| "combined_psi (b # bs) psi =
     (if b = ''psi_cwv'' then simulated_fixed_psi b psi else combined_psi bs psi)"

definition combined_potential ::
    "go_env \<Rightarrow> string list \<Rightarrow> crawl_page_signal list \<Rightarrow> crawl_issue_signal list \<Rightarrow> scoring_config \<Rightarrow> psi_input
       \<Rightarrow> score_set \<Rightarrow> potential_scenario" where
  "combined_potential env bucketIDs pages crawlIssues cfg psi base =
     (let ids = unique_sorted_copy bucketIDs;
          scores = compute_scores env pages (without_buckets crawlIssues ids) cfg (combined_psi ids psi)
      in \<lparr>ps_Buckets = ids, ps_Scores = scores, ps_Delta = subtract_scores scores base\<rparr>)"

definition opportunity ::
    "go_env \<Rightarrow> crawl_page_signal list \<Rightarrow> crawl_issue_signal list \<Rightarrow> scoring_config \<Rightarrow> psi_input \<Rightarrow> score_set
       \<Rightarrow> string \<times> string \<Rightarrow> bucket_potential" where
  "opportunity env pages crawlIssues cfg psi base ref =
     (let scores = compute_scores env pages (without_bucket crawlIssues (fst ref)) cfg
                     (simulated_fixed_psi (fst ref) psi)
      in \<lparr>bp_Bucket = fst ref, bp_Pillar = snd ref, bp_Scores = scores,
          bp_Delta = subtract_scores scores base\<rparr>)"

definition opportunity_before :: "bucket_potential \<Rightarrow> bucket_potential \<Rightarrow> bool" where
  "opportunity_before l r =
     (if Overall (bp_Delta l) \<noteq> Overall (bp_Delta r) then Overall (bp_Delta l) > Overall (bp_Delta r)
      else if bp_Pillar l \<noteq> bp_Pillar r then str_less (bp_Pillar l) (bp_Pillar r)
      else str_less (bp_Bucket l) (bp_Bucket r))"

definition recommended_potential_delta :: int where "recommended_potential_delta = 1"

definition compute_potential ::
    "go_env \<Rightarrow> crawl_page_signal list \<Rightarrow> crawl_issue_signal list \<Rightarrow> scoring_config \<Rightarrow> psi_input \<Rightarrow> potential_result" where
  "compute_potential env pages crawlIssues cfg psi =
     (let base = compute_scores env pages crawlIssues cfg psi;
          opps = sort_by opportunity_before
                   (map (opportunity env pages crawlIssues cfg psi base) (bucket_refs cfg));
          combined = (\<lambda>ids. combined_potential env ids pages crawlIssues cfg psi base);
          recommended = map bp_Bucket
            (filter (\<lambda>b. Overall (bp_Delta b) \<ge> recommended_potential_delta) opps)
      in \<lparr>Current = base, Opportunities = opps,
          Best = combined (map bp_Bucket (take 1 opps)),
          Top3 = combined (map bp_Bucket (take 3 opps)),
          Recommended = combined recommended\<rparr>)"

section \<open>Removing the rows of some buckets\<close>

lemma groups_without:
  "build_issue_groups_by_bucket p (filter (\<lambda>s. sig_Bucket s \<notin> B) ss) b =
     (if b \<in> B then [] else build_issue_groups_by_bucket p ss b)"
proof (induction ss rule: rev_induct)
  case Nil
  show ?case by (simp add: build_issue_groups_by_bucket_def)
next
  case (snoc s ss)
  then show ?case by (cases "b = sig_Bucket s") (auto simp: build_issue_groups_snoc)
qed

lemma no_issues_score [simp]:
  "sort_by before [] = []" "clamp_score env (fsub 100 (soft_sum_penalties [] cfg)) 0 = 100"
  by (simp_all add: soft_sum_penalties_def sort_by_def fsub_def)

definition fixed_psi :: "string set \<Rightarrow> psi_input \<Rightarrow> psi_input" where
  "fixed_psi B psi = (if ''psi_cwv'' \<in> B then Some (Some 100) else psi)"

definition bucket_after :: "go_env \<Rightarrow> string \<Rightarrow> pillar_scoring_config \<Rightarrow> scoring_config \<Rightarrow> int
    \<Rightarrow> crawl_issue_signal list \<Rightarrow> (int \<Rightarrow> int \<Rightarrow> float64) \<Rightarrow> psi_input \<Rightarrow> string \<Rightarrow> bucket_score_breakdown" where
  "bucket_after env p pc cfg n ss cov psi b = apply_psi env psi
     (build_bucket_breakdown_with_options env b (the (map_of (pc_BucketWeights pc) b))
       (pc_IssuePenaltyByType pc) cfg n (build_issue_groups_by_bucket p ss b) cov)"

lemma pillar_buckets_after:
  "pillar_buckets env p pc cfg n ss cov psi =
     map (bucket_after env p pc cfg n ss cov psi) (sorted_bucket_ids (pc_BucketWeights pc))"
  by (simp add: pillar_buckets_def bucket_after_def)

lemma bucket_after_weight [simp]:
  "bsb_Weight (bucket_after env p pc cfg n ss cov psi b) = round_float64 (the (map_of (pc_BucketWeights pc) b)) 4"
  by (simp add: bucket_after_def)

lemma bucket_after_range [simp]:
  "0 \<le> bsb_Score (bucket_after env p pc cfg n ss cov psi b)"
  "bsb_Score (bucket_after env p pc cfg n ss cov psi b) \<le> 100"
  by (auto simp: bucket_after_def split: option.splits)

abbreviation removed :: "string set \<Rightarrow> crawl_issue_signal list \<Rightarrow> crawl_issue_signal list" where
  "removed B ss \<equiv> filter (\<lambda>s. sig_Bucket s \<notin> B) ss"

lemma bucket_score_mono:
  assumes "B \<subseteq> C" "psi = None \<and> psi' = None \<or> psi = fixed_psi B q \<and> psi' = fixed_psi C q"
  shows "bsb_Score (bucket_after env p pc cfg n (removed B ss) cov psi b)
       \<le> bsb_Score (bucket_after env p pc cfg n (removed C ss) cov psi' b)"
proof (cases "b \<in> C")
  case True
  have "resolve_psi_bucket_score b psi' = None \<or> resolve_psi_bucket_score b psi' = Some 100"
    using assms True by (auto simp: resolve_psi_bucket_score_def fixed_psi_def)
  then have "bsb_Score (bucket_after env p pc cfg n (removed C ss) cov psi' b) = 100"
    using True by (auto simp: bucket_after_def groups_without)
  then show ?thesis by simp
next
  case False
  with assms have "b \<notin> B" "resolve_psi_bucket_score b psi' = resolve_psi_bucket_score b psi"
    by (auto simp: resolve_psi_bucket_score_def fixed_psi_def)
  then show ?thesis using False by (simp add: bucket_after_def groups_without)
qed

section \<open>Configurations whose scores stay in the machine range\<close>

text \<open>
  A validated configuration with a minimum of at most 100, overall weights that are floats, and
  at most a thousand buckets of weight at most a thousand in every pillar.
\<close>

definition sane_pillar :: "pillar_scoring_config \<Rightarrow> bool" where
  "sane_pillar pc = (length (pc_BucketWeights pc) \<le> 1000 \<and>
     (\<forall>(b, w) \<in> set (pc_BucketWeights pc). 0 \<le> w \<and> w \<le> 1000))"

definition sane_config :: "scoring_config \<Rightarrow> bool" where
  "sane_config cfg = (is_ok (validate_scoring_config cfg) \<and> sc_MinimumOverallScore cfg \<le> 100 \<and>
     (\<forall>(p, w) \<in> set (sc_OverallWeights cfg). fl64 w = w) \<and>
     (\<forall>(p, pc) \<in> set (sc_Pillars cfg). sane_pillar pc))"

lemma fmul_10: "0 \<le> n \<Longrightarrow> n \<le> 2 ^ 40 \<Longrightarrow> fmul (of_int n) 10 = of_int (n * 10)"
  using fl64_of_int [of "n * 10"] by (simp add: fmul_def)

lemma ten_power_4: "((\<lambda>m. fmul m 10) ^^ 4) 1 = of_int 10000"
proof -
  have "fmul 1 10 = of_int 10" using fmul_10 [of 1] by simp
  moreover have "fmul (of_int 10) 10 = of_int 100" using fmul_10 [of 10] by simp
  moreover have "fmul (of_int 100) 10 = of_int 1000" using fmul_10 [of 100] by simp
  moreover have "fmul (of_int 1000) 10 = of_int 10000" using fmul_10 [of 1000] by simp
  ultimately show ?thesis by (simp add: eval_nat_numeral)
qed

lemma round_weight_range:
  assumes "0 \<le> w" "w \<le> 1000"
  shows "0 \<le> round_float64 w 4 \<and> round_float64 w 4 \<le> 1000"
proof -
  let ?m = "fmul w (of_int 10000)"
  have "0 \<le> ?m" using assms by (simp add: fmul_def float64.fl_nonneg)
  moreover have "?m \<le> of_int (10 ^ 7)"
    using assms unfolding fmul_def by (intro float64.fl_le_int) simp_all
  ultimately have "go_round (of_int 0) \<le> go_round ?m" "go_round ?m \<le> go_round (of_int (10 ^ 7))"
    by (auto intro!: go_round_mono)
  then have r: "0 \<le> go_round ?m" "go_round ?m \<le> 10 ^ 7" by (simp_all only: go_round_of_int)
  have "(rat_of_int (go_round ?m)) \<le> of_int (10 ^ 7)" using r(2) by (simp only: of_int_le_iff)
  then have "of_int (go_round ?m) / of_int 10000 \<le> rat_of_int 1000" by simp
  then have "fl64 (of_int (go_round ?m) / of_int 10000) \<le> of_int 1000" by (rule float64.fl_le_int) simp
  moreover have "0 \<le> fl64 (of_int (go_round ?m) / of_int 10000)"
    using r(1) by (intro float64.fl_nonneg) simp
  ultimately show ?thesis unfolding round_float64_def ten_power_4 Let_def fdiv_def by simp
qed

lemma sorted_bucket_ids_set: "set (sorted_bucket_ids ws) = fst ` set ws"
  by (simp add: sorted_bucket_ids_def)

lemma length_sorted_bucket_ids [simp]: "length (sorted_bucket_ids ws) = length ws"
  by (simp add: sorted_bucket_ids_def)

lemma sane_weight:
  assumes "sane_pillar pc" "b \<in> set (sorted_bucket_ids (pc_BucketWeights pc))"
  shows "0 \<le> round_float64 (the (map_of (pc_BucketWeights pc) b)) 4 \<and>
    round_float64 (the (map_of (pc_BucketWeights pc) b)) 4 \<le> 1000"
proof -
  from assms(2) obtain w where "map_of (pc_BucketWeights pc) b = Some w"
    by (auto simp: sorted_bucket_ids_set) (metis map_of_eq_None_iff image_eqI not_Some_eq fst_conv)
  with assms(1) show ?thesis
    using map_of_SomeD [of "pc_BucketWeights pc" b w] round_weight_range [of w]
    by (auto simp: sane_pillar_def)
qed

section \<open>Removing more buckets never lowers a score\<close>

abbreviation weighted_score :: "bucket_score_breakdown \<Rightarrow> rat \<times> rat" where
  "weighted_score b \<equiv> (of_int (bsb_Score b), bsb_Weight b)"

lemma pillar_sum_range:
  assumes "sane_pillar pc"
  shows "in_range (weighted_bucket_sum (pillar_buckets env p pc cfg n ss cov psi))"
proof -
  let ?xs = "map weighted_score (pillar_buckets env p pc cfg n ss cov psi)"
  have len: "length ?xs \<le> 1000" using assms by (simp add: pillar_buckets_after sane_pillar_def)
  have "0 \<le> x * w \<and> x * w \<le> of_int 100000" if xw: "(x, w) \<in> set ?xs" for x w
  proof -
    have x: "0 \<le> x" "x \<le> 100" and w: "0 \<le> w" "w \<le> 1000"
      using xw sane_weight [OF assms] by (auto simp: pillar_buckets_after)
    have "x * w \<le> 100 * 1000" using x w by (intro mult_mono) auto
    with x w show ?thesis by simp
  qed
  then have "0 \<le> float64.weighted_sum ?xs 0 \<and> float64.weighted_sum ?xs 0 \<le> of_int (0 + 100000 * int (length ?xs))"
    using len by (intro float64.weighted_sum_bounds) auto
  moreover have "0 + 100000 * int (length ?xs) \<le> 10 ^ 8" using len by simp
  then have "rat_of_int (0 + 100000 * int (length ?xs)) \<le> of_int (10 ^ 8)"
    by (simp only: of_int_le_iff)
  ultimately show ?thesis unfolding in_range_def weighted_bucket_sum_def by simp
qed

lemma pillar_score_mono:
  assumes "sane_pillar (pillar_config_of cfg p)" "B \<subseteq> C"
    "psi = None \<and> psi' = None \<or> psi = fixed_psi B q \<and> psi' = fixed_psi C q"
  shows "pillar_score env p cfg n (removed B ss) psi \<le> pillar_score env p cfg n (removed C ss) psi'"
proof -
  let ?pc = "pillar_config_of cfg p"
  let ?bs = "\<lambda>D q. pillar_buckets env p ?pc cfg n (removed D ss) (configured_coverage env cfg ?pc) q"
  have "list_all2 (\<lambda>(x, w) (y, v). x \<le> y \<and> w = v \<and> 0 \<le> w) (map weighted_score (?bs B psi)) (map weighted_score (?bs C psi'))"
    using sane_weight [OF assms(1)] bucket_score_mono [OF assms(2,3)]
    by (simp add: pillar_buckets_after list_all2_conv_all_nth)
  then have "weighted_bucket_sum (?bs B psi) \<le> weighted_bucket_sum (?bs C psi')"
    unfolding weighted_bucket_sum_def by (intro float64.weighted_sum_mono) auto
  then show ?thesis
    unfolding pillar_fields by (intro clamp_score_mono pillar_sum_range assms(1)) simp_all
qed

text \<open>The overall score, with normalised weights.\<close>

lemma overall_weight:
  assumes "sane_config cfg"
  shows "0 \<le> weight_or_zero (sc_OverallWeights cfg) p" "fl64 (weight_or_zero (sc_OverallWeights cfg) p) = weight_or_zero (sc_OverallWeights cfg) p"
  using assms validate_scoring_config_ok(5) [of cfg]
  by (auto simp: weight_or_zero_def sane_config_def is_ok_def split: option.splits sum.splits dest!: map_of_SomeD)

definition overall_sum :: "scoring_config \<Rightarrow> int \<Rightarrow> int \<Rightarrow> int \<Rightarrow> float64" where
  "overall_sum cfg s a v =
     (let ws = weight_or_zero (sc_OverallWeights cfg) ''seo'';
          wa = weight_or_zero (sc_OverallWeights cfg) ''aeo'';
          wp = weight_or_zero (sc_OverallWeights cfg) ''pagespeed'';
          weightSum = fadd (fadd ws wa) wp;
          norm = (\<lambda>w. if weightSum > 0 then fdiv w weightSum else w)
      in fadd (fadd (fmul (norm ws) (of_int s)) (fmul (norm wa) (of_int a))) (fmul (norm wp) (of_int v)))"

lemma calculate_overall_eq:
  "calculate_overall_score env s a v cfg = clamp_score env (overall_sum cfg s a v) (effective_minimum cfg)"
  by (simp add: calculate_overall_score_def overall_sum_def effective_minimum_def Let_def)

lemma fadd_mono: "x \<le> x' \<Longrightarrow> y \<le> y' \<Longrightarrow> fadd x y \<le> fadd x' y'"
  by (simp add: fadd_def add_mono fl64_mono)

lemma fmul_mono: "0 \<le> w \<Longrightarrow> x \<le> y \<Longrightarrow> fmul w x \<le> fmul w y"
  by (simp add: fmul_def mult_left_mono fl64_mono)

lemma weight_below_sum:
  assumes "0 \<le> x" "0 \<le> y" "0 \<le> z" "w \<in> {x, y, z}" "fl64 w = w"
  shows "w \<le> fadd (fadd x y) z"
proof -
  have "0 \<le> fadd x y" using assms by (simp add: fadd_def float64.fl_nonneg)
  moreover have "w \<le> fadd x y" if "w = x \<or> w = y"
    using that assms fl64_mono [of w "x + y"] by (auto simp: fadd_def)
  ultimately have "w \<le> fadd x y + z" using assms by auto
  then show ?thesis using fl64_mono [of w "fadd x y + z"] assms(5) by (simp add: fadd_def)
qed

lemma normalised_weight:
  assumes "0 \<le> w" "w \<le> W"
  shows "0 \<le> (if W > 0 then fdiv w W else w) \<and> (if W > 0 then fdiv w W else w) \<le> 1"
proof (cases "W > 0")
  case True
  with assms have "0 \<le> w / W" "w / W \<le> of_int 1" by auto
  with True show ?thesis
    using float64.fl_nonneg [of "w / W"] float64.fl_le_int [of "w / W" 1] by (simp add: fdiv_def)
qed (use assms in simp)

lemma fmul_score_range:
  assumes "0 \<le> w" "w \<le> 1" "0 \<le> n" "n \<le> 100"
  shows "0 \<le> fmul w (of_int n) \<and> fmul w (of_int n) \<le> of_int 100"
proof -
  have "w * of_int n \<le> 1 * 100" using assms by (intro mult_mono) auto
  then have "w * of_int n \<le> of_int 100" by simp
  then show ?thesis
    using assms float64.fl_nonneg [of "w * of_int n"] float64.fl_le_int [of "w * of_int n" 100]
    by (simp add: fmul_def)
qed

lemma fadd_range:
  "0 \<le> x \<Longrightarrow> x \<le> of_int m \<Longrightarrow> 0 \<le> y \<Longrightarrow> y \<le> of_int k \<Longrightarrow> 0 \<le> m + k \<Longrightarrow> m + k \<le> 1000 \<Longrightarrow>
     0 \<le> fadd x y \<and> fadd x y \<le> of_int (m + k)"
  using float64.fl_nonneg [of "x + y"] float64.fl_le_int [of "x + y" "m + k"] by (simp add: fadd_def)

lemma overall_sum_facts:
  assumes "sane_config cfg" "{s, a, v} \<subseteq> {0..100}"
  shows "in_range (overall_sum cfg s a v)" "overall_sum cfg s a v \<le> of_int 300"
    and "s \<le> s' \<Longrightarrow> a \<le> a' \<Longrightarrow> v \<le> v' \<Longrightarrow> overall_sum cfg s a v \<le> overall_sum cfg s' a' v'"
proof -
  let ?w = "weight_or_zero (sc_OverallWeights cfg)"
  let ?W = "fadd (fadd (?w ''seo'') (?w ''aeo'')) (?w ''pagespeed'')"
  define norm where "norm p = (if ?W > 0 then fdiv (?w p) ?W else ?w p)" for p
  have o: "overall_sum cfg s a v = fadd (fadd (fmul (norm ''seo'') (of_int s)) (fmul (norm ''aeo'') (of_int a)))
      (fmul (norm ''pagespeed'') (of_int v))" for s a v
    by (simp add: overall_sum_def norm_def Let_def)
  have le: "?w p \<le> ?W" if "p \<in> {''seo'', ''aeo'', ''pagespeed''}" for p
    using that overall_weight [OF assms(1)] by (intro weight_below_sum) auto
  have n: "0 \<le> norm p" "norm p \<le> 1" if "p \<in> {''seo'', ''aeo'', ''pagespeed''}" for p
    using normalised_weight [OF overall_weight(1) [OF assms(1)] le [OF that]] by (simp_all add: norm_def)
  have t: "0 \<le> fmul (norm p) (of_int x) \<and> fmul (norm p) (of_int x) \<le> of_int 100"
    if "p \<in> {''seo'', ''aeo'', ''pagespeed''}" "x \<in> {s, a, v}" for p x
    using that n assms(2) by (intro fmul_score_range) auto
  have "0 \<le> fadd (fmul (norm ''seo'') (of_int s)) (fmul (norm ''aeo'') (of_int a)) \<and>
      fadd (fmul (norm ''seo'') (of_int s)) (fmul (norm ''aeo'') (of_int a)) \<le> of_int (100 + 100)"
    using t by (intro fadd_range) auto
  then have "0 \<le> overall_sum cfg s a v \<and> overall_sum cfg s a v \<le> of_int (200 + 100)"
    unfolding o using t by (intro fadd_range) auto
  then show "in_range (overall_sum cfg s a v)" "overall_sum cfg s a v \<le> of_int 300"
    by (simp_all add: in_range_def)
  show "overall_sum cfg s a v \<le> overall_sum cfg s' a' v'" if "s \<le> s'" "a \<le> a'" "v \<le> v'"
    unfolding o using that n by (intro fadd_mono fmul_mono) auto
qed

definition scores_le :: "score_set \<Rightarrow> score_set \<Rightarrow> bool" where
  "scores_le s t = (Overall s \<le> Overall t \<and> SEO s \<le> SEO t \<and> AEO s \<le> AEO t \<and> PageSpeed s \<le> PageSpeed t)"

lemma sane_pillar_config: "sane_config cfg \<Longrightarrow> sane_pillar (pillar_config_of cfg p)"
  by (auto simp: pillar_config_of_def sane_config_def sane_pillar_def empty_pillar_config_def
      split: option.splits dest!: map_of_SomeD)

lemma pillar_score_range: "pillar_score env p cfg n ss psi \<in> {0..100}"
  by simp

lemma compute_scores_mono:
  assumes "sane_config cfg" "B \<subseteq> C"
  shows "scores_le (compute_scores env pages (removed B ss) cfg (fixed_psi B psi))
    (compute_scores env pages (removed C ss) cfg (fixed_psi C psi))"
proof -
  let ?n = "count_scoreable_pages pages"
  let ?s = "\<lambda>p D q. pillar_score env p cfg ?n (removed D ss) q"
  have m: "?s ''seo'' B None \<le> ?s ''seo'' C None" "?s ''aeo'' B None \<le> ?s ''aeo'' C None"
    "?s ''pagespeed'' B (fixed_psi B psi) \<le> ?s ''pagespeed'' C (fixed_psi C psi)"
    using assms by (auto intro!: pillar_score_mono sane_pillar_config simp del: pillar_fields)
  have min: "effective_minimum cfg \<le> 100"
    using assms(1) by (auto simp: effective_minimum_def sane_config_def minimum_overall_score_def)
  have "calculate_overall_score env (?s ''seo'' B None) (?s ''aeo'' B None) (?s ''pagespeed'' B (fixed_psi B psi)) cfg
      \<le> calculate_overall_score env (?s ''seo'' C None) (?s ''aeo'' C None) (?s ''pagespeed'' C (fixed_psi C psi)) cfg"
    unfolding calculate_overall_eq using pillar_score_range m
    by (intro clamp_score_mono overall_sum_facts assms(1) min) (auto simp del: pillar_fields)
  with m show ?thesis
    by (simp add: compute_scores_def scores_le_def crawl_scores_eq Let_def del: pillar_fields)
qed

end
