(* ===== verification/PageHealth.thy ===== *)
theory PageHealth
  imports Potential
begin

text \<open>
  Per-page health scores (\<open>issues/page_health.go\<close>). A page identifier is a database UUID that may
  be null; its bytes are a string. Penalties of one page are kept per pillar, bucket and issue
  type, the largest one winning.
\<close>

section \<open>Definitions\<close>

record uuid =
  uuid_Bytes :: string
  uuid_Valid :: bool

record page_health_page =
  php_CrawlPageID :: uuid
  php_StatusCode :: int
  php_ContentType :: string
  php_Soft404 :: bool
  php_FetchError :: string

record page_health_issue =
  phi_CrawlPageID :: uuid
  phi_Pillar :: string
  phi_Bucket :: string
  phi_IssueType :: string
  phi_Severity :: string

record health_bucket =
  hb_ID :: string
  hb_Score :: int

record health_pillar =
  hp_ID :: string
  hp_Score :: int
  hp_Buckets :: "health_bucket list"

record page_health_score =
  ph_CrawlPageID :: uuid
  ph_HealthScore :: int
  ph_Pillars :: "health_pillar list"

definition page_health_pillar_order :: "string list" where
  "page_health_pillar_order = [''seo'', ''aeo'', ''pagespeed'']"

definition page_health_excluded_bucket_id :: string where
  "page_health_excluded_bucket_id = ''psi_cwv''"

definition uuid_key :: "uuid \<Rightarrow> string" where "uuid_key u = uuid_Bytes u"

definition issue_penalty_for_page_health :: "page_health_issue \<Rightarrow> scoring_config \<Rightarrow> float64" where
  "issue_penalty_for_page_health iss cfg =
     fmul (issue_base_penalty (phi_IssueType iss)
             (case map_of (sc_Pillars cfg) (phi_Pillar iss) of None \<Rightarrow> [] | Some pc \<Rightarrow> pc_IssuePenaltyByType pc))
          (severity_multiplier_with_config (phi_Severity iss) cfg)"

text \<open>The group key is pillar, NUL, bucket; a group maps an issue type to its largest penalty.\<close>

definition group_key :: "string \<Rightarrow> string \<Rightarrow> string" where
  "group_key pillar bucket = pillar @ [CHR 0x00] @ bucket"

fun raise_penalty :: "string \<Rightarrow> float64 \<Rightarrow> (string \<times> float64) list \<Rightarrow> (string \<times> float64) list" where
  "raise_penalty k penalty [] = [(k, penalty)]"
| "raise_penalty k penalty ((k', p) # ps) =
     (if k = k' then (k', if penalty > p then penalty else p) # ps
      else (k', p) # raise_penalty k penalty ps)"

type_synonym page_groups = "string \<Rightarrow> (string \<times> float64) list"

definition counts_for_page :: "page_health_issue \<Rightarrow> bool" where
  "counts_for_page iss = (uuid_Valid (phi_CrawlPageID iss) \<and> is_page_addressable_issue (phi_IssueType iss))"

definition add_page_issue ::
    "scoring_config \<Rightarrow> page_health_issue \<Rightarrow> (string \<Rightarrow> page_groups) \<Rightarrow> string \<Rightarrow> page_groups" where
  "add_page_issue cfg iss deduped =
     (if \<not> counts_for_page iss then deduped
      else (let page = uuid_key (phi_CrawlPageID iss);
                gk = group_key (phi_Pillar iss) (phi_Bucket iss);
                groups = deduped page
            in deduped(page := groups(gk := raise_penalty (trim_space (phi_IssueType iss))
                 (issue_penalty_for_page_health iss cfg) (groups gk)))))"

definition dedupe_penalties :: "scoring_config \<Rightarrow> page_health_issue list \<Rightarrow> string \<Rightarrow> page_groups" where
  "dedupe_penalties cfg issues = fold (add_page_issue cfg) issues (\<lambda>_ _. [])"

definition desc_before :: "float64 \<Rightarrow> float64 \<Rightarrow> bool" where "desc_before x y = (x > y)"

definition page_health_bucket_score ::
    "go_env \<Rightarrow> page_groups \<Rightarrow> string \<Rightarrow> string \<Rightarrow> scoring_config \<Rightarrow> int" where
  "page_health_bucket_score env groups pillarID bucketID cfg =
     (let penaltyByType = groups (group_key pillarID bucketID) in
      if penaltyByType = [] then 100
      else clamp_score env
             (fsub 100 (soft_sum_penalties (sort_by desc_before (map snd penaltyByType)) cfg)) 0)"

text \<open>The bucket that belongs to the origin, not to a page, is left out.\<close>

definition health_bucket_ids :: "string \<Rightarrow> pillar_scoring_config \<Rightarrow> string list" where
  "health_bucket_ids pillarID pc =
     filter (\<lambda>b. \<not> (pillarID = ''pagespeed'' \<and> b = page_health_excluded_bucket_id))
       (sorted_bucket_ids (pc_BucketWeights pc))"

definition build_health_pillar ::
    "go_env \<Rightarrow> page_groups \<Rightarrow> scoring_config \<Rightarrow> string \<Rightarrow> pillar_scoring_config \<Rightarrow> health_pillar" where
  "build_health_pillar env groups cfg pillarID pc =
     (let ids = health_bucket_ids pillarID pc;
          score = (\<lambda>b. page_health_bucket_score env groups pillarID b cfg);
          weight = (\<lambda>b. the (map_of (pc_BucketWeights pc) b));
          scoreSum = float64.weighted_sum (map (\<lambda>b. (of_int (score b), weight b)) ids) 0;
          weightSum = foldl (\<lambda>a b. fadd a (weight b)) 0 ids
      in \<lparr>hp_ID = pillarID,
          hp_Score = (if weightSum > 0 then clamp_score env (fdiv scoreSum weightSum) 0 else 100),
          hp_Buckets = map (\<lambda>b. \<lparr>hb_ID = b, hb_Score = score b\<rparr>) ids\<rparr>)"

text \<open>Pillars the configuration does not have are skipped; a missing pillar score is 0.\<close>

definition configured_pillars :: "scoring_config \<Rightarrow> (string \<Rightarrow> pillar_scoring_config \<Rightarrow> 'a) \<Rightarrow> 'a list" where
  "configured_pillars cfg f =
     concat (map (\<lambda>p. case map_of (sc_Pillars cfg) p of None \<Rightarrow> [] | Some pc \<Rightarrow> [f p pc])
       page_health_pillar_order)"

definition pillar_score_by_id :: "health_pillar list \<Rightarrow> string \<Rightarrow> int" where
  "pillar_score_by_id ps i =
     (case map_of (map (\<lambda>p. (hp_ID p, hp_Score p)) ps) i of None \<Rightarrow> 0 | Some s \<Rightarrow> s)"

definition build_page_health_pillars ::
    "go_env \<Rightarrow> page_groups \<Rightarrow> scoring_config \<Rightarrow> health_pillar list \<times> int" where
  "build_page_health_pillars env groups cfg =
     (let pillars = configured_pillars cfg (build_health_pillar env groups cfg)
      in (pillars, calculate_overall_score env (pillar_score_by_id pillars ''seo'')
            (pillar_score_by_id pillars ''aeo'') (pillar_score_by_id pillars ''pagespeed'') cfg))"

definition zero_health_pillar :: "string \<Rightarrow> pillar_scoring_config \<Rightarrow> health_pillar" where
  "zero_health_pillar pillarID pc =
     \<lparr>hp_ID = pillarID, hp_Score = 0,
      hp_Buckets = map (\<lambda>b. \<lparr>hb_ID = b, hb_Score = 0\<rparr>) (health_bucket_ids pillarID pc)\<rparr>"

definition zero_page_health_pillars :: "scoring_config \<Rightarrow> health_pillar list" where
  "zero_page_health_pillars cfg = configured_pillars cfg zero_health_pillar"

text \<open>The score of one page, if it has one. The score is stored as an \<open>int16\<close>.\<close>

definition page_health_of ::
    "go_env \<Rightarrow> (string \<Rightarrow> page_groups) \<Rightarrow> scoring_config \<Rightarrow> page_health_page \<Rightarrow> page_health_score option" where
  "page_health_of env deduped cfg page =
     (if php_StatusCode page \<ge> 400 \<or> php_Soft404 page
      then Some \<lparr>ph_CrawlPageID = php_CrawlPageID page, ph_HealthScore = 0,
                 ph_Pillars = zero_page_health_pillars cfg\<rparr>
      else if trim_space (php_FetchError page) \<noteq> [] then None
      else if \<not> is_scoreable_content_type (php_ContentType page) then None
      else (let (pillars, healthScore) = build_page_health_pillars env (deduped (uuid_key (php_CrawlPageID page))) cfg
            in Some \<lparr>ph_CrawlPageID = php_CrawlPageID page, ph_HealthScore = signed_take_bit 15 healthScore,
                     ph_Pillars = pillars\<rparr>))"

definition calculate_page_health_scores ::
    "go_env \<Rightarrow> page_health_page list \<Rightarrow> page_health_issue list \<Rightarrow> scoring_config \<Rightarrow> page_health_score list" where
  "calculate_page_health_scores env pages issues cfg =
     List.map_filter (page_health_of env (dedupe_penalties cfg issues) cfg) pages"

section \<open>Ranges and shape\<close>

lemma health_bucket_range [simp]:
  "0 \<le> page_health_bucket_score env groups p b cfg" "page_health_bucket_score env groups p b cfg \<le> 100"
  by (auto simp: page_health_bucket_score_def Let_def)

definition health_in_range :: "page_health_score \<Rightarrow> bool" where
  "health_in_range r = (score_in_range (ph_HealthScore r) \<and>
     (\<forall>p \<in> set (ph_Pillars r). score_in_range (hp_Score p) \<and>
        (\<forall>b \<in> set (hp_Buckets p). score_in_range (hb_Score b))))"

lemma set_configured_pillars:
  "set (configured_pillars cfg f) =
     {f p pc | p pc. p \<in> set page_health_pillar_order \<and> map_of (sc_Pillars cfg) p = Some pc}"
proof (intro set_eqI iffI)
  fix x
  assume "x \<in> set (configured_pillars cfg f)"
  then show "x \<in> {f p pc | p pc. p \<in> set page_health_pillar_order \<and> map_of (sc_Pillars cfg) p = Some pc}"
    by (auto simp: configured_pillars_def split: option.splits) metis
qed (auto simp: configured_pillars_def intro!: bexI)

lemma zero_health_range:
  "p \<in> set (zero_page_health_pillars cfg) \<Longrightarrow> score_in_range (hp_Score p) \<and>
     (\<forall>b \<in> set (hp_Buckets p). score_in_range (hb_Score b))"
  by (auto simp: zero_page_health_pillars_def set_configured_pillars zero_health_pillar_def score_in_range_def)

lemma health_pillar_range:
  "p \<in> set (configured_pillars cfg (build_health_pillar env groups cfg)) \<Longrightarrow> score_in_range (hp_Score p) \<and>
     (\<forall>b \<in> set (hp_Buckets p). score_in_range (hb_Score b))"
  by (auto simp: set_configured_pillars build_health_pillar_def Let_def score_in_range_def)

lemma page_health_of_range:
  assumes "sc_MinimumOverallScore cfg \<le> 100" "page_health_of env d cfg page = Some r"
  shows "health_in_range r"
proof (cases "php_StatusCode page \<ge> 400 \<or> php_Soft404 page")
  case True
  with assms(2) have "ph_HealthScore r = 0" "ph_Pillars r = zero_page_health_pillars cfg"
    by (auto simp: page_health_of_def split: if_splits)
  then show ?thesis
    using zero_health_range unfolding health_in_range_def by (simp add: score_in_range_def)
next
  case False
  then obtain ps h where b: "build_page_health_pillars env (d (uuid_key (php_CrawlPageID page))) cfg = (ps, h)"
    and r: "ph_HealthScore r = signed_take_bit 15 h" "ph_Pillars r = ps"
    using assms(2) by (auto simp: page_health_of_def split: if_splits prod.splits)
  from b have "1 \<le> h" "h \<le> 100"
    using overall_range [OF assms(1)] by (auto simp: build_page_health_pillars_def Let_def)
  moreover have "\<forall>p \<in> set ps. score_in_range (hp_Score p) \<and> (\<forall>b \<in> set (hp_Buckets p). score_in_range (hb_Score b))"
    using b health_pillar_range by (auto simp: build_page_health_pillars_def Let_def)
  ultimately show ?thesis
    using r by (auto simp: health_in_range_def score_in_range_def signed_take_bit_int_eq_self)
qed

definition page_has_health :: "page_health_page \<Rightarrow> bool" where
  "page_has_health page = (php_StatusCode page \<ge> 400 \<or> php_Soft404 page \<or>
     trim_space (php_FetchError page) = [] \<and> is_scoreable_content_type (php_ContentType page))"

lemma page_health_of_cases:
  "page_has_health page \<Longrightarrow> \<exists>r. page_health_of env d cfg page = Some r \<and> ph_CrawlPageID r = php_CrawlPageID page"
  "\<not> page_has_health page \<Longrightarrow> page_health_of env d cfg page = None"
  by (auto simp: page_health_of_def page_has_health_def Let_def split: prod.splits)

lemma page_health_ids:
  "map ph_CrawlPageID (calculate_page_health_scores env pages issues cfg)
     = map php_CrawlPageID (filter page_has_health pages)"
proof (induction pages)
  case (Cons page pages)
  then show ?case
    using page_health_of_cases [of page env "dedupe_penalties cfg issues" cfg]
    by (cases "page_has_health page") (auto simp: calculate_page_health_scores_def map_filter_simps)
qed (simp add: calculate_page_health_scores_def map_filter_simps)

section \<open>Order of the issue rows\<close>

text \<open>The penalties that count for one page, group and issue type.\<close>

definition counted_penalties :: "scoring_config \<Rightarrow> page_health_issue list \<Rightarrow> string \<Rightarrow> string \<Rightarrow> string \<Rightarrow> float64 set" where
  "counted_penalties cfg issues page gk t =
     (\<lambda>i. issue_penalty_for_page_health i cfg) `
       {i \<in> set issues. counts_for_page i \<and> uuid_key (phi_CrawlPageID i) = page \<and>
          group_key (phi_Pillar i) (phi_Bucket i) = gk \<and> trim_space (phi_IssueType i) = t}"

lemma map_of_raise_penalty:
  "map_of (raise_penalty k penalty ps) k' =
     (if k' = k then Some (case map_of ps k of None \<Rightarrow> penalty | Some p \<Rightarrow> max p penalty) else map_of ps k')"
  by (induction k penalty ps rule: raise_penalty.induct) (auto simp: max_def)

lemma distinct_raise_penalty:
  "distinct (map fst ps) \<Longrightarrow> distinct (map fst (raise_penalty k penalty ps))"
proof (induction k penalty ps rule: raise_penalty.induct)
  case (2 k penalty k' p ps)
  have "fst ` set (raise_penalty k penalty ps) \<subseteq> insert k (fst ` set ps)"
    by (induction k penalty ps rule: raise_penalty.induct) auto
  with 2 show ?case by auto
qed simp

lemma counted_penalties_snoc:
  "counted_penalties cfg (issues @ [i]) page gk t =
     (if counts_for_page i \<and> uuid_key (phi_CrawlPageID i) = page \<and>
         group_key (phi_Pillar i) (phi_Bucket i) = gk \<and> trim_space (phi_IssueType i) = t
      then insert (issue_penalty_for_page_health i cfg) (counted_penalties cfg issues page gk t)
      else counted_penalties cfg issues page gk t)"
  by (auto simp: counted_penalties_def)

lemma finite_counted_penalties [simp]: "finite (counted_penalties cfg issues page gk t)"
  by (simp add: counted_penalties_def)

lemma dedupe_snoc: "dedupe_penalties cfg (issues @ [i]) = add_page_issue cfg i (dedupe_penalties cfg issues)"
  by (simp add: dedupe_penalties_def)

lemma dedupe_penalties_spec:
  "map_of (dedupe_penalties cfg issues page gk) t =
     (if counted_penalties cfg issues page gk t = {} then None
      else Some (Max (counted_penalties cfg issues page gk t)))
   \<and> distinct (map fst (dedupe_penalties cfg issues page gk))"
proof (induction issues rule: rev_induct)
  case Nil
  show ?case by (simp add: dedupe_penalties_def counted_penalties_def)
next
  case (snoc i issues)
  show ?case
  proof (cases "counts_for_page i \<and> uuid_key (phi_CrawlPageID i) = page \<and> group_key (phi_Pillar i) (phi_Bucket i) = gk")
    case True
    then have "dedupe_penalties cfg (issues @ [i]) page gk =
        raise_penalty (trim_space (phi_IssueType i)) (issue_penalty_for_page_health i cfg) (dedupe_penalties cfg issues page gk)"
      by (auto simp: dedupe_snoc add_page_issue_def Let_def)
    with snoc True show ?thesis
      by (auto simp: map_of_raise_penalty distinct_raise_penalty counted_penalties_snoc max.commute)
  next
    case False
    then have "dedupe_penalties cfg (issues @ [i]) page gk = dedupe_penalties cfg issues page gk"
      by (auto simp: dedupe_snoc add_page_issue_def Let_def)
    with snoc False show ?thesis by (auto simp: counted_penalties_snoc)
  qed
qed

section \<open>Larger penalties\<close>

text \<open>A descending list that is at least as long and at least as large, position by position.\<close>

definition dominated :: "float64 list \<Rightarrow> float64 list \<Rightarrow> bool" where
  "dominated xs ys = (length xs \<le> length ys \<and> (\<forall>i < length xs. xs ! i \<le> ys ! i))"

lemma dominated_simps [simp]:
  "dominated [] ys"
  "\<not> dominated (x # xs) []"
  "dominated (x # xs) (y # ys) \<longleftrightarrow> x \<le> y \<and> dominated xs ys"
  by (auto simp: dominated_def less_Suc_eq_0_disj nth_Cons split: nat.splits)

lemma filter_count_nth:
  fixes ys :: "float64 list"
  shows "sorted_wrt (\<ge>) ys \<Longrightarrow> i < length (filter (\<lambda>y. c \<le> y) ys) \<Longrightarrow> i < length ys \<and> c \<le> ys ! i"
proof (induction ys arbitrary: i)
  case (Cons y ys)
  show ?case
  proof (cases "c \<le> y")
    case True
    with Cons show ?thesis by (cases i) auto
  next
    case False
    with Cons.prems have "filter (\<lambda>z. c \<le> z) (y # ys) = []" by (auto simp: filter_empty_conv)
    with Cons.prems show ?thesis by (metis length_greater_0_conv not_less_zero list.size(3))
  qed
qed simp

lemma nth_filter_count:
  fixes xs :: "float64 list"
  shows "sorted_wrt (\<ge>) xs \<Longrightarrow> i < length xs \<Longrightarrow> i < length (filter (\<lambda>x. xs ! i \<le> x) xs)"
proof -
  assume s: "sorted_wrt (\<ge>) xs" and i: "i < length xs"
  have "filter (\<lambda>x. xs ! i \<le> x) (take (Suc i) xs) = take (Suc i) xs"
  proof (rule filter_True, rule ballI)
    fix x
    assume "x \<in> set (take (Suc i) xs)"
    then obtain j where "j \<le> i" "x = xs ! j" using i by (auto simp: in_set_conv_nth less_Suc_eq_le)
    then show "xs ! i \<le> x" using s i by (cases "j = i") (auto simp: sorted_wrt_iff_nth_less)
  qed
  then have "length (filter (\<lambda>x. xs ! i \<le> x) (take (Suc i) xs @ drop (Suc i) xs)) \<ge> Suc i"
    unfolding filter_append length_append using i by simp
  then show ?thesis by simp
qed

lemma dominatedI:
  assumes "sorted_wrt (\<ge>) xs" "sorted_wrt (\<ge>) ys"
    "\<And>c. length (filter (\<lambda>x. c \<le> x) xs) \<le> length (filter (\<lambda>y. c \<le> y) ys)"
  shows "dominated xs ys"
proof -
  have i: "i < length ys \<and> xs ! i \<le> ys ! i" if "i < length xs" for i
    using filter_count_nth [OF assms(2)] nth_filter_count [OF assms(1) that] assms(3) [of "xs ! i"]
    by (meson less_le_trans)
  have "length xs \<le> length ys"
    using i [of "length xs - 1"] by (cases xs) auto
  with i show ?thesis by (auto simp: dominated_def)
qed


text \<open>More or larger penalties add up to more.\<close>

lemma soft_sum_step:
  assumes "0 \<le> p" "0 \<le> w" "fl64 b = b"
  shows "b \<le> fadd b (fmul p w)" "fl64 (fadd b (fmul p w)) = fadd b (fmul p w)"
proof -
  have "0 \<le> fmul p w" using assms by (simp add: fmul_def float64.fl_nonneg)
  then show "b \<le> fadd b (fmul p w)"
    using fl64_mono [of b "b + fmul p w"] assms(3) by (simp add: fadd_def)
qed (simp add: fadd_def)

lemma soft_sum_loop_grows:
  "0 \<le> d \<Longrightarrow> \<forall>y \<in> set ys. 0 \<le> y \<Longrightarrow> 0 \<le> w \<Longrightarrow> fl64 b = b \<Longrightarrow> b \<le> soft_sum_loop d ys b w"
proof (induction ys arbitrary: b w)
  case (Cons y ys)
  have "fadd b (fmul y w) \<le> soft_sum_loop d ys (fadd b (fmul y w)) (fmul w d)"
    using Cons.prems soft_sum_step(2) [of y w b]
    by (intro Cons.IH) (auto simp: fmul_def float64.fl_nonneg)
  with soft_sum_step(1) [of y w b] Cons.prems show ?case by simp
qed simp

lemma soft_sum_loop_mono:
  "dominated xs ys \<Longrightarrow> 0 \<le> d \<Longrightarrow> \<forall>y \<in> set ys. 0 \<le> y \<Longrightarrow> 0 \<le> w \<Longrightarrow> a \<le> b \<Longrightarrow> fl64 b = b \<Longrightarrow>
     soft_sum_loop d xs a w \<le> soft_sum_loop d ys b w"
proof (induction xs arbitrary: ys a b w)
  case Nil
  then show ?case using soft_sum_loop_grows [of d ys w b] by simp
next
  case (Cons x xs)
  then obtain y ys' where ys: "ys = y # ys'" "x \<le> y" "dominated xs ys'"
    by (cases ys) auto
  have "fadd a (fmul x w) \<le> fadd b (fmul y w)"
    using Cons.prems ys by (intro fadd_mono) (auto simp: fmul_def mult_right_mono intro: fl64_mono)
  moreover have "0 \<le> fmul w d" using Cons.prems by (simp add: fmul_def float64.fl_nonneg)
  ultimately have "soft_sum_loop d xs (fadd a (fmul x w)) (fmul w d)
      \<le> soft_sum_loop d ys' (fadd b (fmul y w)) (fmul w d)"
    using Cons.prems ys by (intro Cons.IH) (auto simp: fadd_def)
  then show ?case using ys by simp
qed

lemma soft_sum_loop_bound:
  "\<forall>p \<in> set ps. 0 \<le> p \<and> p \<le> of_int P \<Longrightarrow> 0 \<le> P \<Longrightarrow> 0 \<le> w \<Longrightarrow> w \<le> 1 \<Longrightarrow> 0 \<le> d \<Longrightarrow> d \<le> 1 \<Longrightarrow> 0 \<le> b
     \<Longrightarrow> b \<le> of_int B \<Longrightarrow> 0 \<le> B \<Longrightarrow> B + P * int (length ps) \<le> 2 ^ 53
     \<Longrightarrow> soft_sum_loop d ps b w \<le> of_int (B + P * int (length ps))"
proof (induction ps arbitrary: b w B)
  case (Cons p ps)
  have len: "B + P + P * int (length ps) \<le> 2 ^ 53" using Cons.prems by (simp add: algebra_simps)
  moreover have "0 \<le> P * int (length ps)" using Cons.prems by simp
  ultimately have BP: "B + P \<le> 2 ^ 53" by linarith
  have "p * w \<le> of_int P * 1" using Cons.prems by (intro mult_mono) auto
  then have m: "0 \<le> fmul p w" "fmul p w \<le> of_int P"
    using Cons.prems BP float64.fl_nonneg [of "p * w"] float64.fl_le_int [of "p * w" P]
    by (simp_all add: fmul_def)
  have "b + fmul p w \<le> of_int (B + P)" using m(2) Cons.prems(8) by simp
  then have "fadd b (fmul p w) \<le> of_int (B + P)"
    unfolding fadd_def using BP Cons.prems by (intro float64.fl_le_int) auto
  moreover have "0 \<le> fadd b (fmul p w)" using m(1) Cons.prems by (simp add: fadd_def float64.fl_nonneg)
  moreover have "w * d \<le> 1 * 1" using Cons.prems by (intro mult_mono) auto
  then have "0 \<le> fmul w d" "fmul w d \<le> 1"
    using Cons.prems float64.fl_nonneg [of "w * d"] float64.fl_le_int [of "w * d" 1] by (simp_all add: fmul_def)
  ultimately have "soft_sum_loop d ps (fadd b (fmul p w)) (fmul w d) \<le> of_int ((B + P) + P * int (length ps))"
    using Cons.prems len by (intro Cons.IH) auto
  then show ?case by (simp add: algebra_simps)
qed simp

section \<open>More issue rows never raise a health score\<close>

text \<open>
  A sane configuration whose penalties and multipliers are at most 100 and 10 and whose bucket
  weights are zero or between \<open>1/1024\<close> and 1, so that no sum leaves the range of \<open>int32\<close>.
\<close>

definition health_weight :: "float64 \<Rightarrow> bool" where
  "health_weight w = (w = 0 \<or> 1 / 1024 \<le> w \<and> w \<le> 1)"

definition sane_health_pillar :: "pillar_scoring_config \<Rightarrow> bool" where
  "sane_health_pillar pc = (list_all (\<lambda>(b, w). health_weight w) (pc_BucketWeights pc) \<and>
     list_all (\<lambda>(t, v). 0 \<le> v \<and> v \<le> 100) (pc_IssuePenaltyByType pc))"

definition sane_health_config :: "scoring_config \<Rightarrow> bool" where
  "sane_health_config cfg = (sane_config cfg \<and>
     list_all (\<lambda>(s, m). 0 \<le> m \<and> m \<le> 10) (sc_SeverityMultipliers cfg) \<and>
     list_all (\<lambda>(p, pc). sane_health_pillar pc) (sc_Pillars cfg))"

lemma effective_decay_range: "0 \<le> effective_decay cfg \<and> effective_decay cfg \<le> 1"
proof -
  have "0 \<le> default_soft_sum_decay \<and> default_soft_sum_decay \<le> 1" by code_simp
  then show ?thesis by (auto simp: effective_decay_def)
qed

lemma multiplier_range:
  assumes "sane_health_config cfg"
  shows "0 \<le> severity_multiplier_with_config s cfg \<and> severity_multiplier_with_config s cfg \<le> 10"
proof -
  have "0 \<le> lit 6 10 \<and> lit 6 10 \<le> 10" "0 \<le> lit 3 10 \<and> lit 3 10 \<le> 10" by code_simp+
  then have "0 \<le> severity_multiplier t \<and> severity_multiplier t \<le> 10" for t
    by (auto simp: severity_multiplier_def Let_def)
  then show ?thesis
    using assms by (auto simp: severity_multiplier_with_config_def sane_health_config_def list_all_iff Let_def
        split: option.splits dest!: map_of_SomeD)
qed

lemma base_penalty_range:
  "list_all (\<lambda>(t, v). 0 \<le> v \<and> v \<le> 100) ps \<Longrightarrow> 0 \<le> issue_base_penalty t ps \<and> issue_base_penalty t ps \<le> 100"
  by (auto simp: issue_base_penalty_def default_issue_penalty_def list_all_iff split: option.splits dest!: map_of_SomeD)

lemma health_penalty_range:
  assumes "sane_health_config cfg"
  shows "0 \<le> issue_penalty_for_page_health i cfg \<and> issue_penalty_for_page_health i cfg \<le> of_int 1000"
proof -
  let ?ps = "case map_of (sc_Pillars cfg) (phi_Pillar i) of None \<Rightarrow> [] | Some pc \<Rightarrow> pc_IssuePenaltyByType pc"
  let ?b = "issue_base_penalty (phi_IssueType i) ?ps" and ?m = "severity_multiplier_with_config (phi_Severity i) cfg"
  have "list_all (\<lambda>(t, v). 0 \<le> v \<and> v \<le> 100) ?ps"
  proof (cases "map_of (sc_Pillars cfg) (phi_Pillar i)")
    case (Some pc)
    with assms show ?thesis
      using map_of_SomeD [OF Some] by (auto simp: sane_health_config_def sane_health_pillar_def list_all_iff)
  qed simp
  then have b: "0 \<le> ?b \<and> ?b \<le> 100" by (rule base_penalty_range)
  have m: "0 \<le> ?m \<and> ?m \<le> 10" by (rule multiplier_range [OF assms])
  have "?b * ?m \<le> 100 * 10" using b m by (intro mult_mono) auto
  moreover have "0 \<le> ?b * ?m" using b m by simp
  ultimately have "?b * ?m \<le> of_int 1000" "0 \<le> ?b * ?m" by simp_all
  then show ?thesis
    using float64.fl_nonneg [of "?b * ?m"] float64.fl_le_int [of "?b * ?m" 1000]
    unfolding issue_penalty_for_page_health_def fmul_def by simp
qed

abbreviation penalties_of :: "scoring_config \<Rightarrow> page_health_issue list \<Rightarrow> string \<Rightarrow> string \<Rightarrow> float64 list" where
  "penalties_of cfg issues page gk \<equiv> map snd (dedupe_penalties cfg issues page gk)"

lemma dedupe_entries:
  "(t, v) \<in> set (dedupe_penalties cfg issues page gk) \<longleftrightarrow>
     counted_penalties cfg issues page gk t \<noteq> {} \<and> v = Max (counted_penalties cfg issues page gk t)"
proof -
  have d: "distinct (map fst (dedupe_penalties cfg issues page gk))"
    using dedupe_penalties_spec by blast
  have "(t, v) \<in> set (dedupe_penalties cfg issues page gk) \<longleftrightarrow> map_of (dedupe_penalties cfg issues page gk) t = Some v"
    using map_of_eq_Some_iff [OF d] by simp
  then show ?thesis using dedupe_penalties_spec [of cfg issues page gk t] by auto
qed

lemma penalties_of_range:
  assumes "sane_health_config cfg" "v \<in> set (penalties_of cfg issues page gk)"
  shows "0 \<le> v \<and> v \<le> of_int 1000"
proof -
  obtain t where "counted_penalties cfg issues page gk t \<noteq> {}" "v = Max (counted_penalties cfg issues page gk t)"
    using assms(2) by (auto simp: dedupe_entries)
  then have "v \<in> counted_penalties cfg issues page gk t" using Max_in by auto
  then show ?thesis using health_penalty_range [OF assms(1)] by (auto simp: counted_penalties_def)
qed

lemma penalties_of_length: "length (penalties_of cfg issues page gk) \<le> length issues"
proof -
  let ?d = "dedupe_penalties cfg issues page gk"
  have "fst ` set ?d \<subseteq> set (map (\<lambda>i. trim_space (phi_IssueType i)) issues)"
    by (auto simp: dedupe_entries counted_penalties_def)
  then have "card (set (map fst ?d)) \<le> card (set (map (\<lambda>i. trim_space (phi_IssueType i)) issues))"
    by (intro card_mono) auto
  also have "\<dots> \<le> length issues" by (metis card_length length_map)
  finally have "card (set (map fst ?d)) \<le> length issues" .
  moreover have "distinct (map fst ?d)" using dedupe_penalties_spec by blast
  ultimately show ?thesis using distinct_card [of "map fst ?d"] by simp
qed

lemma filter_penalties_count:
  assumes "set issues \<subseteq> set issues'"
  shows "length (filter (\<lambda>v. c \<le> v) (penalties_of cfg issues page gk))
       \<le> length (filter (\<lambda>v. c \<le> v) (penalties_of cfg issues' page gk))"
proof -
  let ?F = "\<lambda>is. filter (\<lambda>(t, v). c \<le> v) (dedupe_penalties cfg is page gk)"
  have len: "length (filter (\<lambda>v. c \<le> v) (penalties_of cfg is page gk)) = card (fst ` set (?F is))" for "is"
  proof -
    have "distinct (map fst (dedupe_penalties cfg is page gk))" using dedupe_penalties_spec by blast
    then have "distinct (map fst (?F is))" by (rule distinct_map_filter)
    from distinct_card [OF this] show ?thesis by (simp add: filter_map comp_def case_prod_unfold)
  qed
  have sub: "counted_penalties cfg issues page gk t \<subseteq> counted_penalties cfg issues' page gk t" for t
    using assms by (auto simp: counted_penalties_def)
  have "fst ` set (?F issues) \<subseteq> fst ` set (?F issues')"
  proof
    fix t
    assume "t \<in> fst ` set (?F issues)"
    then have t: "counted_penalties cfg issues page gk t \<noteq> {}" "c \<le> Max (counted_penalties cfg issues page gk t)"
      by (auto simp: dedupe_entries)
    have "Max (counted_penalties cfg issues page gk t) \<le> Max (counted_penalties cfg issues' page gk t)"
      by (rule Max_mono [OF sub t(1)]) simp
    with t(2) have "c \<le> Max (counted_penalties cfg issues' page gk t)" by (rule order_trans)
    with t(1) sub [of t] have "(t, Max (counted_penalties cfg issues' page gk t)) \<in> set (?F issues')"
      by (auto simp: dedupe_entries)
    then show "t \<in> fst ` set (?F issues')" by (metis fst_conv image_eqI)
  qed
  then show ?thesis unfolding len by (intro card_mono) auto
qed

lemma soft_sum_dedupe_range:
  assumes "sane_health_config cfg" "length issues \<le> 100000"
  shows "0 \<le> soft_sum_penalties (sort_by desc_before (penalties_of cfg issues page gk)) cfg"
    and "soft_sum_penalties (sort_by desc_before (penalties_of cfg issues page gk)) cfg \<le> of_int (10 ^ 8)"
proof -
  let ?ps = "sort_by desc_before (penalties_of cfg issues page gk)"
  have r: "\<forall>p \<in> set ?ps. 0 \<le> p \<and> p \<le> of_int 1000" using penalties_of_range [OF assms(1)] by auto
  have n: "int (length ?ps) \<le> 100000" using penalties_of_length [of cfg issues page gk] assms(2) by simp
  have d: "0 \<le> effective_decay cfg" "effective_decay cfg \<le> 1" using effective_decay_range by auto
  show "0 \<le> soft_sum_penalties ?ps cfg"
    using soft_sum_loop_grows [OF d(1), of ?ps 1 0] r by (simp add: soft_sum_penalties_def)
  have "soft_sum_penalties ?ps cfg \<le> of_int (0 + 1000 * int (length ?ps))"
    unfolding soft_sum_penalties_def using r d n by (intro soft_sum_loop_bound) auto
  also have "\<dots> \<le> of_int (10 ^ 8)" using n by (simp only: of_int_le_iff) simp
  finally show "soft_sum_penalties ?ps cfg \<le> of_int (10 ^ 8)" .
qed

lemma desc_before_descends: "descends desc_before (\<lambda>x. x)"
  by (auto simp: descends_def desc_before_def)

lemma health_bucket_antitone:
  assumes "sane_health_config cfg" "set issues \<subseteq> set issues'" "length issues \<le> 100000" "length issues' \<le> 100000"
  shows "page_health_bucket_score env (dedupe_penalties cfg issues' page) p b cfg
       \<le> page_health_bucket_score env (dedupe_penalties cfg issues page) p b cfg"
proof (cases "dedupe_penalties cfg issues page (group_key p b) = []")
  case True
  then show ?thesis by (simp add: page_health_bucket_score_def Let_def)
next
  case False
  let ?gk = "group_key p b"
  let ?xs = "sort_by desc_before (penalties_of cfg issues page ?gk)"
  let ?ys = "sort_by desc_before (penalties_of cfg issues' page ?gk)"
  have count: "length (filter (\<lambda>v. c \<le> v) (sort_by desc_before zs)) = length (filter (\<lambda>v. c \<le> v) zs)" for c zs
    by (metis mset_filter mset_sort_by size_mset)
  have dom: "dominated ?xs ?ys"
    using sort_by_descending [OF desc_before_descends] filter_penalties_count [OF assms(2)]
    by (intro dominatedI) (simp_all add: count)
  then have ne: "dedupe_penalties cfg issues' page ?gk \<noteq> []"
    using False by (auto simp: dominated_def)
  have "soft_sum_penalties ?xs cfg \<le> soft_sum_penalties ?ys cfg"
    unfolding soft_sum_penalties_def using dom effective_decay_range penalties_of_range [OF assms(1)]
    by (intro soft_sum_loop_mono) auto
  then have le: "fsub 100 (soft_sum_penalties ?ys cfg) \<le> fsub 100 (soft_sum_penalties ?xs cfg)"
    by (simp add: fsub_def fl64_mono)
  have r: "in_range (fsub 100 (soft_sum_penalties zs cfg))"
    if "0 \<le> soft_sum_penalties zs cfg" "soft_sum_penalties zs cfg \<le> of_int (10 ^ 8)" for zs
    using that float64.fl_le_int [of "100 - soft_sum_penalties zs cfg" 100]
      float64.fl_ge_int [of "- (10 ^ 8)" "100 - soft_sum_penalties zs cfg"]
    by (simp add: in_range_def fsub_def)
  show ?thesis
    unfolding page_health_bucket_score_def Let_def using False ne
    by (simp only: map_is_Nil_conv if_False)
       (intro clamp_score_mono le r soft_sum_dedupe_range assms, simp)
qed

lemma weight_sum_range:
  assumes "\<forall>b \<in> set ids. health_weight (weight b)" "0 \<le> a" "fl64 a = a"
  shows "a \<le> foldl (\<lambda>a b. fadd a (weight b)) a ids"
    "\<lbrakk>b \<in> set ids; weight b \<noteq> 0\<rbrakk> \<Longrightarrow> 1 / 1024 \<le> foldl (\<lambda>a b. fadd a (weight b)) a ids"
proof -
  have grow: "a \<le> foldl (\<lambda>a b. fadd a (weight b)) a ids" if "\<forall>b \<in> set ids. health_weight (weight b)" "fl64 a = a" for a ids
    using that
  proof (induction ids arbitrary: a)
    case (Cons i ids)
    then have "0 \<le> weight i" by (auto simp: health_weight_def)
    then have "a \<le> fadd a (weight i)" using Cons.prems fl64_mono [of a "a + weight i"] by (simp add: fadd_def)
    moreover have "fadd a (weight i) \<le> foldl (\<lambda>a b. fadd a (weight b)) (fadd a (weight i)) ids"
      using Cons.prems by (intro Cons.IH) (auto simp: fadd_def)
    ultimately show ?case by simp
  qed simp
  show "a \<le> foldl (\<lambda>a b. fadd a (weight b)) a ids" using grow assms by blast
  assume b: "b \<in> set ids" "weight b \<noteq> 0"
  have m: "fl64 (1 / 1024) = 1 / 1024" by code_simp
  show "1 / 1024 \<le> foldl (\<lambda>a b. fadd a (weight b)) a ids"
    using assms b
  proof (induction ids arbitrary: a)
    case (Cons i ids)
    show ?case
    proof (cases "b = i")
      case True
      then have "1 / 1024 \<le> weight i" using Cons.prems by (auto simp: health_weight_def)
      then have "1 / 1024 \<le> fadd a (weight i)"
        using Cons.prems fl64_mono [of "1 / 1024" "a + weight i"] m by (simp add: fadd_def)
      also have "\<dots> \<le> foldl (\<lambda>a b. fadd a (weight b)) (fadd a (weight i)) ids"
        using Cons.prems by (intro grow) (auto simp: fadd_def)
      finally show ?thesis by simp
    next
      case False
      have "0 \<le> weight i" using Cons.prems by (auto simp: health_weight_def)
      then have "1 / 1024 \<le> foldl (\<lambda>a b. fadd a (weight b)) (fadd a (weight i)) ids"
        using Cons.prems False by (intro Cons.IH) (auto simp: fadd_def float64.fl_nonneg)
      then show ?thesis by simp
    qed
  qed simp
qed

lemma health_ids:
  assumes "sane_health_pillar pc" "length (pc_BucketWeights pc) \<le> 1000"
  shows "\<forall>b \<in> set (health_bucket_ids p pc). health_weight (the (map_of (pc_BucketWeights pc) b))"
    "length (health_bucket_ids p pc) \<le> 1000"
proof -
  show "\<forall>b \<in> set (health_bucket_ids p pc). health_weight (the (map_of (pc_BucketWeights pc) b))"
  proof
    fix b
    assume "b \<in> set (health_bucket_ids p pc)"
    then have "b \<in> fst ` set (pc_BucketWeights pc)"
      by (auto simp: health_bucket_ids_def sorted_bucket_ids_set)
    then obtain w where "map_of (pc_BucketWeights pc) b = Some w"
      by (metis map_of_eq_None_iff not_Some_eq)
    with assms(1) show "health_weight (the (map_of (pc_BucketWeights pc) b))"
      using map_of_SomeD [of "pc_BucketWeights pc" b w] by (auto simp: sane_health_pillar_def list_all_iff)
  qed
  have "length (health_bucket_ids p pc) \<le> length (sorted_bucket_ids (pc_BucketWeights pc))"
    unfolding health_bucket_ids_def by (rule length_filter_le)
  with assms(2) show "length (health_bucket_ids p pc) \<le> 1000" by simp
qed

lemma health_pillar_antitone:
  assumes "sane_health_config cfg" "map_of (sc_Pillars cfg) p = Some pc" "set issues \<subseteq> set issues'"
    "length issues \<le> 100000" "length issues' \<le> 100000"
  shows "hp_Score (build_health_pillar env (dedupe_penalties cfg issues' page) cfg p pc)
       \<le> hp_Score (build_health_pillar env (dedupe_penalties cfg issues page) cfg p pc)"
proof -
  let ?w = "\<lambda>b. the (map_of (pc_BucketWeights pc) b)"
  let ?ids = "health_bucket_ids p pc"
  let ?W = "foldl (\<lambda>a b. fadd a (?w b)) 0 ?ids"
  define xs where "xs is = map (\<lambda>b. (rat_of_int (page_health_bucket_score env (dedupe_penalties cfg is page) p b cfg), ?w b)) ?ids" for "is"
  have pc: "sane_health_pillar pc" "length (pc_BucketWeights pc) \<le> 1000"
    using assms(1) map_of_SomeD [OF assms(2)]
    by (auto simp: sane_health_config_def sane_config_def sane_pillar_def list_all_iff)
  have w: "\<forall>b \<in> set ?ids. health_weight (?w b)" and len: "length ?ids \<le> 1000" using health_ids [OF pc] by auto
  have w01: "0 \<le> ?w b \<and> ?w b \<le> 1" if "b \<in> set ?ids" for b
    using w that by (auto simp: health_weight_def)
  have mono: "float64.weighted_sum (xs issues') 0 \<le> float64.weighted_sum (xs issues) 0"
    unfolding xs_def using health_bucket_antitone [OF assms(1,3-5)] w01
    by (intro float64.weighted_sum_mono) (auto simp: list_all2_conv_all_nth)
  have bound: "0 \<le> float64.weighted_sum (xs is) 0 \<and> float64.weighted_sum (xs is) 0 \<le> of_int (10 ^ 5)" for "is"
  proof -
    have "0 \<le> x * w \<and> x * w \<le> of_int 100" if "(x, w) \<in> set (xs is)" for x w
    proof -
      have x: "0 \<le> x" "x \<le> 100" "0 \<le> w" "w \<le> 1" using that w01 by (auto simp: xs_def)
      then have "x * w \<le> 100 * 1" by (intro mult_mono) auto
      with x show ?thesis by simp
    qed
    then have "0 \<le> float64.weighted_sum (xs is) 0 \<and> float64.weighted_sum (xs is) 0 \<le> of_int (0 + 100 * int (length (xs is)))"
      using len by (intro float64.weighted_sum_bounds) (auto simp: xs_def)
    moreover have "0 + 100 * int (length (xs is)) \<le> 10 ^ 5" using len by (simp add: xs_def)
    then have "rat_of_int (0 + 100 * int (length (xs is))) \<le> of_int (10 ^ 5)" by (simp only: of_int_le_iff)
    ultimately show ?thesis by linarith
  qed
  have s: "hp_Score (build_health_pillar env (dedupe_penalties cfg is page) cfg p pc)
      = (if ?W > 0 then clamp_score env (fdiv (float64.weighted_sum (xs is) 0) ?W) 0 else 100)" for "is"
    by (simp add: build_health_pillar_def xs_def Let_def)
  show ?thesis
  proof (cases "?W > 0")
    case True
    have "\<exists>b \<in> set ?ids. ?w b \<noteq> 0"
    proof (rule ccontr)
      assume "\<not> (\<exists>b \<in> set ?ids. ?w b \<noteq> 0)"
      then have "?W = foldl (\<lambda>a b. fadd a 0) 0 ?ids" by (intro foldl_cong) auto
      moreover have "foldl (\<lambda>a b. fadd a 0) (0::rat) bs = 0" for bs :: "string list"
        by (induction bs) (simp_all add: fadd_def)
      ultimately show False using True by simp
    qed
    then have W: "1 / 1024 \<le> ?W" using weight_sum_range(2) [OF w, of 0] by auto
    have r: "in_range (fdiv (float64.weighted_sum (xs is) 0) ?W)" for "is"
    proof -
      have "float64.weighted_sum (xs is) 0 / ?W \<le> of_int (10 ^ 5) / (1 / 1024)"
        using bound [of "is"] W by (intro frac_le) auto
      then have "float64.weighted_sum (xs is) 0 / ?W \<le> of_int (1024 * 10 ^ 5)" by simp
      then have "fdiv (float64.weighted_sum (xs is) 0) ?W \<le> of_int (1024 * 10 ^ 5)"
        unfolding fdiv_def by (rule float64.fl_le_int) simp
      moreover have "0 \<le> fdiv (float64.weighted_sum (xs is) 0) ?W"
        unfolding fdiv_def using bound [of "is"] True by (intro float64.fl_nonneg) simp
      ultimately show ?thesis by (simp add: in_range_def)
    qed
    have "fdiv (float64.weighted_sum (xs issues') 0) ?W \<le> fdiv (float64.weighted_sum (xs issues) 0) ?W"
      unfolding fdiv_def using mono True by (intro fl64_mono divide_right_mono) auto
    then show ?thesis unfolding s using True r by (simp add: clamp_score_mono)
  qed (simp add: s)
qed

end
