(* ===== verification/DefaultConfig.thy ===== *)
theory DefaultConfig
  imports PageHealth
begin

text \<open>
  The built-in scoring configuration is well formed: its tables have visible keys and bounded
  values, it passes validation, and it meets the bounds that the score and page health lemmas ask
  for.
\<close>

lemma lit_range: "0 \<le> n \<Longrightarrow> n \<le> d \<Longrightarrow> 0 < d \<Longrightarrow> 0 \<le> lit n d \<and> lit n d \<le> 1"
  using fl64_mono [of 0 "of_int n / of_int d"] fl64_mono [of "of_int n / of_int d" 1] fl64_of_int [of 0] fl64_of_int [of 1]
  by (simp add: lit_def divide_le_eq)

definition visible :: "string \<Rightarrow> bool" where
  "visible k = (case k of [] \<Rightarrow> False | c # _ \<Rightarrow> \<not> is_space c)"

lemma trim_space_visible: "visible k \<Longrightarrow> trim_space k \<noteq> []"
  by (auto simp: visible_def trim_space_def trim_left_def trim_right_def split: list.splits dest!: arg_cong [of _ _ rev])

definition good_table :: "float64 \<Rightarrow> (string \<times> float64) list \<Rightarrow> bool" where
  "good_table m t = (list_all visible (map fst t) \<and> list_all (\<lambda>v. 0 \<le> v \<and> v \<le> m) (map snd t))"

lemma good_table_entries: "good_table m t \<Longrightarrow> (k, v) \<in> set t \<Longrightarrow> trim_space k \<noteq> [] \<and> 0 \<le> v \<and> v \<le> m"
  using trim_space_visible [of k] by (force simp: good_table_def list_all_iff)

lemma good_table_check: "good_table m t \<Longrightarrow> check_entries msg t = Inr ()"
  using good_table_entries [of m t] by (fastforce simp del: split_paired_Ex)

lemmas default_tables_simps = default_scoring_config_def default_scoring_math_config_def seo_bucket_weights_def
  aeo_bucket_weights_def pagespeed_bucket_weights_def seo_issue_penalty_by_type_def aeo_issue_penalty_by_type_def
  pagespeed_issue_penalty_by_type_def

lemma penalties_good:
  "good_table 100 seo_issue_penalty_by_type" "good_table 100 aeo_issue_penalty_by_type"
  "good_table 100 pagespeed_issue_penalty_by_type"
  unfolding good_table_def default_tables_simps list.map fst_conv snd_conv by (intro conjI; code_simp)+

lemma weights_good:
  "good_table 1 seo_bucket_weights" "good_table 1 aeo_bucket_weights" "good_table 1 pagespeed_bucket_weights"
  "good_table 1 (sc_SeverityMultipliers default_scoring_math_config)"
  "good_table 1 (sc_OverallWeights default_scoring_math_config)"
  unfolding good_table_def default_tables_simps scoring_config.simps list.map fst_conv snd_conv
  by (intro conjI, code_simp, simp add: lit_range)+

lemma default_fields:
  "sc_MinimumOverallScore default_scoring_config = 1"
  "sc_OverallWeights default_scoring_config = sc_OverallWeights default_scoring_math_config"
  "sc_SeverityMultipliers default_scoring_config = sc_SeverityMultipliers default_scoring_math_config"
  by (simp_all add: default_scoring_config_def default_scoring_math_config_def minimum_overall_score_def)

lemma default_config_valid: "validate_scoring_config default_scoring_config = Inr ()"
proof -
  note checks = penalties_good [THEN good_table_check] weights_good [THEN good_table_check]
  have labels: "trim_space ''SEO'' \<noteq> []" "trim_space ''AEO'' \<noteq> []" "trim_space ''PageSpeed'' \<noteq> []" by code_simp+
  have nonempty: "sc_SeverityMultipliers default_scoring_math_config \<noteq> []" "sc_OverallWeights default_scoring_math_config \<noteq> []"
    "seo_bucket_weights \<noteq> []" "aeo_bucket_weights \<noteq> []" "pagespeed_bucket_weights \<noteq> []"
    "seo_issue_penalty_by_type \<noteq> []" "aeo_issue_penalty_by_type \<noteq> []" "pagespeed_issue_penalty_by_type \<noteq> []"
    by (simp_all add: default_tables_simps)
  have math: "0 < sc_CoverageScale default_scoring_math_config" "0 < sc_SoftSumDecay default_scoring_math_config"
    "sc_SoftSumDecay default_scoring_math_config < 1" by code_simp+
  show ?thesis
    by (simp add: validate_scoring_config_def validate_pillar_def default_scoring_config_def checks labels nonempty math
        lit_range not_less not_le del: check_entries_ok)
qed

lemma default_config_sane: "sane_config default_scoring_config"
proof -
  have "fl64 w = w" if "(p, w) \<in> set (sc_OverallWeights default_scoring_math_config)" for p w
    using that by (auto simp: default_scoring_math_config_def lit_def fl64_idem)
  moreover have "sane_pillar pc" if "(p, pc) \<in> set (sc_Pillars default_scoring_config)" for p pc
  proof -
    have "length seo_bucket_weights \<le> 1000" "length aeo_bucket_weights \<le> 1000" "length pagespeed_bucket_weights \<le> 1000"
      by (simp_all add: default_tables_simps)
    with that show ?thesis
      by (fastforce simp: sane_pillar_def default_scoring_config_def dest: weights_good [THEN good_table_entries])
  qed
  ultimately show ?thesis
    by (auto simp: sane_config_def is_ok_def default_config_valid default_fields)
qed

lemma health_weights:
  "list_all (\<lambda>(b, w). health_weight w) seo_bucket_weights" "list_all (\<lambda>(b, w). health_weight w) aeo_bucket_weights"
  "list_all (\<lambda>(b, w). health_weight w) pagespeed_bucket_weights"
proof -
  have "fl64 (1 / 1024) = 1 / 1024" by code_simp
  then have w: "health_weight (lit n d)" if "0 < d" "d \<le> 1024 * n" "n \<le> d" "0 \<le> n" for n d
  proof -
    have "of_int d \<le> (of_int (1024 * n) :: rat)" using that(2) by (rule of_int_le_iff [THEN iffD2])
    then have "1 / 1024 \<le> of_int n / (of_int d :: rat)" using that(1) by (simp add: divide_simps mult.commute)
    from fl64_mono [OF this] \<open>fl64 (1 / 1024) = 1 / 1024\<close> lit_range [OF that(4,3,1)] show ?thesis
      by (simp add: health_weight_def lit_def)
  qed
  show "list_all (\<lambda>(b, w). health_weight w) seo_bucket_weights" "list_all (\<lambda>(b, w). health_weight w) aeo_bucket_weights"
    "list_all (\<lambda>(b, w). health_weight w) pagespeed_bucket_weights"
    by (simp_all add: default_tables_simps w)
qed

lemma default_config_health: "sane_health_config default_scoring_config"
proof -
  have "list_all (\<lambda>(s, m). 0 \<le> m \<and> m \<le> 10) (sc_SeverityMultipliers default_scoring_math_config)"
    using good_table_entries [OF weights_good(4)] by (fastforce simp: list_all_iff)
  moreover have "list_all (\<lambda>(t, v). 0 \<le> v \<and> v \<le> 100) t" if "good_table 100 t" for t
    using good_table_entries [OF that] by (auto simp: list_all_iff)
  ultimately show ?thesis
    using health_weights penalties_good
    by (simp add: sane_health_config_def default_config_sane default_fields) (simp add: default_scoring_config_def sane_health_pillar_def)
qed

end
