(* ===== verification/ScoreProperties.thy ===== *)
theory ScoreProperties
  imports DefaultConfig
begin

text \<open>
  The properties of crawl scores, page health, potential and the scoring configuration, each
  with the input on which it is exercised.
\<close>

section \<open>A sample\<close>

definition sample_go_env :: go_env where
  "sample_go_env = \<lparr>math_exp = (\<lambda>x. if x = 0 then 1 else 0), int32_overflow = (\<lambda>_. - (2 ^ 31))\<rparr>"

definition html_signal :: "string \<Rightarrow> crawl_page_signal" where
  "html_signal u = \<lparr>cps_URL = u, cps_StatusCode = 200, cps_ContentType = ''text/html'', cps_Soft404 = False,
     cps_FetchError = []\<rparr>"

definition issue_signal :: "string \<Rightarrow> string \<Rightarrow> string \<Rightarrow> string \<Rightarrow> string \<Rightarrow> crawl_issue_signal" where
  "issue_signal u p b t s = \<lparr>sig_URL = u, sig_Pillar = p, sig_Bucket = b, sig_Severity = s,
     sig_IssueType = t, sig_Message = t, sig_Details = t\<rparr>"

definition missing_title_row :: crawl_issue_signal where
  "missing_title_row = issue_signal ''/a'' ''seo'' ''serp_metadata'' ''missing_title'' ''high''"

definition slow_row :: crawl_issue_signal where
  "slow_row = issue_signal ''/b'' ''pagespeed'' ''server_responsiveness'' ''slow_response_time'' ''medium''"

lemma validate_minimum: "validate_scoring_config (c\<lparr>sc_MinimumOverallScore := m\<rparr>) = validate_scoring_config c"
  by (simp add: validate_scoring_config_def validate_pillar_def)

lemma sample_page_counts: "count_scoreable_pages [html_signal ''/a''] \<noteq> 0"
  by code_simp

section \<open>Crawl scores\<close>

text \<open>
  C28: every score of a snapshot (overall, pillars, buckets) lies between 0 and 100 when the
  configured minimum does, whatever the weights and penalties are, and the overall score is 0
  exactly when the crawl has no scoreable page.
\<close>

theorem scores_in_range:
  assumes "sc_MinimumOverallScore cfg \<le> 100"
  shows "let s = build_score_breakdown_with_config env crawlID pages signals cfg psi
         in snapshot_in_range s \<and> (sbs_OverallScore s = 0 \<longleftrightarrow> count_scoreable_pages pages = 0)"
proof (cases "count_scoreable_pages pages = 0")
  case True
  then show ?thesis
    by (simp add: build_score_breakdown_with_config_def Let_def snapshot_in_range_def zero_pillar_range)
       (simp add: score_in_range_def)
next
  case False
  have o: "score_in_range (calculate_overall_score env x y z cfg)" "calculate_overall_score env x y z cfg \<noteq> 0" for x y z
    using overall_range [OF assms, of env x y z] by (auto simp: score_in_range_def)
  from False show ?thesis
    by (simp add: build_score_breakdown_with_config_def Let_def snapshot_in_range_def o configured_pillar_range
        del: pillar_fields)
qed

theorem scores_in_range_witness:
  "snapshot_in_range (build_score_breakdown_with_config sample_go_env ''c'' [html_signal ''/a'']
     [missing_title_row, slow_row] default_scoring_config (Some (Some 40)))"
proof -
  have "sc_MinimumOverallScore default_scoring_config \<le> 100" by (simp add: default_fields)
  from scores_in_range [OF this, of sample_go_env "''c''" "[html_signal ''/a'']" "[missing_title_row, slow_row]" "Some (Some 40)"]
  show ?thesis by (simp add: Let_def)
qed

text \<open>
  C33: the scores, and the scores, weights and sorted penalties of every bucket, depend only on
  which page and issue rows there are, not on the order in which the database returns them.
\<close>

theorem scores_ignore_row_order:
  assumes "mset pages = mset pages'" "mset signals = mset signals'"
  shows "crawl_scores_of (build_score_breakdown_with_config env i pages signals cfg psi)
       = crawl_scores_of (build_score_breakdown_with_config env i pages' signals' cfg psi)
     \<and> map pillar_view (map (\<lambda>(p, q). build_configured_pillar_breakdown env p cfg (count_scoreable_pages pages) signals q)
           [(''aeo'', None), (''seo'', None), (''pagespeed'', psi)])
       = map pillar_view (map (\<lambda>(p, q). build_configured_pillar_breakdown env p cfg (count_scoreable_pages pages') signals' q)
           [(''aeo'', None), (''seo'', None), (''pagespeed'', psi)])"
proof -
  have n: "count_scoreable_pages pages' = count_scoreable_pages pages"
    by (rule count_scoreable_mset [OF assms(1), symmetric])
  have v: "pillar_view (build_configured_pillar_breakdown env p cfg k signals q)
      = pillar_view (build_configured_pillar_breakdown env p cfg k signals' q)" for p k q
    by (rule configured_pillar_order_independent [OF assms(2)])
  then have s: "pillar_score env p cfg k signals q = pillar_score env p cfg k signals' q" for p k q
    by (simp only: pillar_view_def prod.inject)
  show ?thesis unfolding crawl_scores_eq n s by (simp add: v)
qed

theorem scores_ignore_row_order_witness:
  "crawl_scores_of (build_score_breakdown_with_config sample_go_env ''c'' [html_signal ''/a'', html_signal ''/b'']
     [missing_title_row, slow_row] default_scoring_config None)
   = crawl_scores_of (build_score_breakdown_with_config sample_go_env ''c'' [html_signal ''/b'', html_signal ''/a'']
     [slow_row, missing_title_row] default_scoring_config None)"
proof -
  have "mset [html_signal ''/a'', html_signal ''/b''] = mset [html_signal ''/b'', html_signal ''/a'']"
    "mset [missing_title_row, slow_row] = mset [slow_row, missing_title_row]" by simp_all
  from scores_ignore_row_order [OF this] show ?thesis by blast
qed

section \<open>Potential\<close>

lemma opportunity_scores:
  "bp_Scores (opportunity env pages ss cfg psi base ref) =
     compute_scores env pages (removed {fst ref} ss) cfg (fixed_psi {fst ref} psi)"
  by (simp add: opportunity_def without_bucket_def simulated_fixed_psi_def fixed_psi_def Let_def)

lemma combined_psi_fixed: "combined_psi ids psi = fixed_psi (set ids) psi"
  by (induction ids) (auto simp: fixed_psi_def simulated_fixed_psi_def)

lemma combined_scores:
  "ps_Scores (combined_potential env ids pages ss cfg psi base) =
     compute_scores env pages (removed (set ids) ss) cfg (fixed_psi (set ids) psi)"
  by (simp add: combined_potential_def without_buckets_def combined_psi_fixed unique_sorted_copy_def Let_def)

lemma combined_delta:
  "ps_Delta (combined_potential env ids pages ss cfg psi base) =
     subtract_scores (ps_Scores (combined_potential env ids pages ss cfg psi base)) base"
  by (simp add: combined_potential_def Let_def)

lemma opportunity_delta:
  "bp_Delta (opportunity env pages ss cfg psi base ref) =
     subtract_scores (bp_Scores (opportunity env pages ss cfg psi base ref)) base"
  by (simp add: opportunity_def Let_def)

definition no_loss :: "score_set \<Rightarrow> bool" where
  "no_loss d = (0 \<le> Overall d \<and> 0 \<le> SEO d \<and> 0 \<le> AEO d \<and> 0 \<le> PageSpeed d)"

lemma no_loss_subtract: "no_loss (subtract_scores s base) \<longleftrightarrow> scores_le base s"
  by (auto simp: no_loss_def subtract_scores_def scores_le_def)

lemma base_scores:
  "compute_scores env pages ss cfg psi = compute_scores env pages (removed {} ss) cfg (fixed_psi {} psi)"
  by (simp add: fixed_psi_def)

lemma opportunity_before_descends: "descends opportunity_before (\<lambda>o'. Overall (bp_Delta o'))"
  by (auto simp: descends_def opportunity_before_def)

lemma first_is_largest:
  assumes "sorted_wrt (\<ge>) (map f xs)" "x \<in> set xs"
  shows "\<exists>y. take 1 xs = [y] \<and> f x \<le> (f y :: int)"
  using assms by (cases xs) auto

text \<open>
  For a configuration of reasonable size, treating buckets as fixed never lowers a score:
  every opportunity and every combined scenario has non-negative gains, the best scenario gains
  at least as much overall as every single opportunity, and the three-bucket scenario at least
  as much as the best one.
\<close>

theorem potential_never_loses:
  assumes "sane_config cfg"
  shows "let r = compute_potential env pages signals cfg psi in
    (\<forall>b \<in> set (Opportunities r). no_loss (bp_Delta b) \<and> Overall (bp_Delta b) \<le> Overall (ps_Delta (Best r)))
    \<and> no_loss (ps_Delta (Best r)) \<and> no_loss (ps_Delta (Top3 r)) \<and> no_loss (ps_Delta (Recommended r))
    \<and> scores_le (ps_Scores (Best r)) (ps_Scores (Top3 r))"
proof -
  define r where "r = compute_potential env pages signals cfg psi"
  let ?base = "compute_scores env pages signals cfg psi"
  let ?opps = "sort_by opportunity_before (map (opportunity env pages signals cfg psi ?base) (bucket_refs cfg))"
  let ?comb = "\<lambda>ids. combined_potential env ids pages signals cfg psi ?base"
  have r: "Opportunities r = ?opps" "Best r = ?comb (map bp_Bucket (take 1 ?opps))"
    "Top3 r = ?comb (map bp_Bucket (take 3 ?opps))" "\<exists>ids. Recommended r = ?comb ids"
    by (simp_all add: r_def compute_potential_def Let_def) blast
  have le: "scores_le ?base (compute_scores env pages (removed B signals) cfg (fixed_psi B psi))" for B
    using compute_scores_mono [OF assms(1), of "{}" B] base_scores by simp
  have comb: "no_loss (ps_Delta (?comb ids))" for ids
    using le by (simp add: combined_delta no_loss_subtract combined_scores)
  have opp: "no_loss (bp_Delta b) \<and> Overall (bp_Delta b) \<le> Overall (ps_Delta (Best r))" if "b \<in> set ?opps" for b
  proof -
    obtain ref where b: "b = opportunity env pages signals cfg psi ?base ref" using \<open>b \<in> set ?opps\<close> by auto
    have n: "no_loss (bp_Delta b)"
      using le [of "{fst ref}"] by (simp add: b opportunity_delta no_loss_subtract opportunity_scores)
    obtain y where y: "take 1 ?opps = [y]" "Overall (bp_Delta b) \<le> Overall (bp_Delta y)"
      using first_is_largest [OF sort_by_descending [OF opportunity_before_descends] \<open>b \<in> set ?opps\<close>] by blast
    have "y \<in> set ?opps" using y(1) by (metis in_set_takeD list.set_intros(1))
    then obtain ref' where y': "y = opportunity env pages signals cfg psi ?base ref'" by auto
    have "bp_Bucket y = fst ref'" by (simp add: y' opportunity_def Let_def)
    then have "Best r = ?comb [fst ref']" unfolding r(2) y(1) by simp
    then have "ps_Delta (Best r) = bp_Delta y"
      by (simp add: combined_delta combined_scores) (simp add: y' opportunity_delta opportunity_scores)
    with n y(2) show ?thesis by simp
  qed
  have "set (map bp_Bucket (take 1 ?opps)) \<subseteq> set (map bp_Bucket (take 3 ?opps))"
    using set_take_subset_set_take [of 1 3 ?opps] by auto
  then have "scores_le (ps_Scores (Best r)) (ps_Scores (Top3 r))"
    unfolding r(2,3) combined_scores by (rule compute_scores_mono [OF assms(1)])
  with opp comb r show ?thesis unfolding r_def [symmetric] Let_def by auto
qed

theorem potential_never_loses_witness:
  "no_loss (ps_Delta (Best (compute_potential sample_go_env [html_signal ''/a''] [missing_title_row, slow_row]
     default_scoring_config None)))"
  using potential_never_loses [OF default_config_sane] unfolding Let_def by blast

section \<open>Page health\<close>

text \<open>
  Page health yields exactly one score, in the order of the pages, for every broken page and
  every fetched HTML page, and every score of the result lies between 0 and 100.
\<close>

theorem page_health_one_per_page:
  assumes "sc_MinimumOverallScore cfg \<le> 100"
  shows "map ph_CrawlPageID (calculate_page_health_scores env pages issues cfg)
       = map php_CrawlPageID (filter page_has_health pages)
     \<and> list_all health_in_range (calculate_page_health_scores env pages issues cfg)"
proof
  show "map ph_CrawlPageID (calculate_page_health_scores env pages issues cfg)
       = map php_CrawlPageID (filter page_has_health pages)" by (rule page_health_ids)
  show "list_all health_in_range (calculate_page_health_scores env pages issues cfg)"
    using page_health_of_range [OF assms]
    by (auto simp: calculate_page_health_scores_def list_all_iff map_filter_def)
qed

definition sample_page :: "string \<Rightarrow> int \<Rightarrow> page_health_page" where
  "sample_page i status = \<lparr>php_CrawlPageID = \<lparr>uuid_Bytes = i, uuid_Valid = True\<rparr>, php_StatusCode = status,
     php_ContentType = ''text/html'', php_Soft404 = False, php_FetchError = []\<rparr>"

definition sample_page_issue :: "string \<Rightarrow> string \<Rightarrow> page_health_issue" where
  "sample_page_issue i s = \<lparr>phi_CrawlPageID = \<lparr>uuid_Bytes = i, uuid_Valid = True\<rparr>, phi_Pillar = ''seo'',
     phi_Bucket = ''serp_metadata'', phi_IssueType = ''missing_title'', phi_Severity = s\<rparr>"

theorem page_health_one_per_page_witness:
  "map ph_CrawlPageID (calculate_page_health_scores sample_go_env [sample_page ''1'' 404, sample_page ''2'' 200]
     [sample_page_issue ''2'' ''high''] default_scoring_config)
   = map php_CrawlPageID [sample_page ''1'' 404, sample_page ''2'' 200]"
proof -
  have m: "sc_MinimumOverallScore default_scoring_config \<le> 100" by (simp add: default_fields)
  have "filter page_has_health [sample_page ''1'' 404, sample_page ''2'' 200] = [sample_page ''1'' 404, sample_page ''2'' 200]"
    by code_simp
  with page_health_one_per_page [OF m, of sample_go_env "[sample_page ''1'' 404, sample_page ''2'' 200]"
      "[sample_page_issue ''2'' ''high'']"]
  show ?thesis by metis
qed

lemma health_pillars_score:
  "map_of (map (\<lambda>p. (hp_ID p, hp_Score p)) (configured_pillars cfg (build_health_pillar env groups cfg))) p =
     (if p \<in> set page_health_pillar_order
      then map_option (\<lambda>pc. hp_Score (build_health_pillar env groups cfg p pc)) (map_of (sc_Pillars cfg) p)
      else None)"
proof -
  have i: "hp_ID (build_health_pillar env groups cfg q pc) = q" for q pc
    by (simp add: build_health_pillar_def Let_def)
  show ?thesis
    by (auto simp: configured_pillars_def page_health_pillar_order_def i map_add_def split: option.splits)
qed

text \<open>
  Reporting more issue rows for a crawl never raises the health score of a page: for a sane
  configuration and at most 100000 rows, a page scored with more rows scores at most as high.
\<close>

theorem page_health_antitone:
  assumes "sane_health_config cfg" "set issues \<subseteq> set issues'" "length issues \<le> 100000" "length issues' \<le> 100000"
    "page_health_of env (dedupe_penalties cfg issues) cfg page = Some r"
    "page_health_of env (dedupe_penalties cfg issues') cfg page = Some r'"
  shows "ph_HealthScore r' \<le> ph_HealthScore r"
proof (cases "php_StatusCode page \<ge> 400 \<or> php_Soft404 page")
  case True
  with assms(5,6) show ?thesis by (auto simp: page_health_of_def split: if_splits)
next
  case False
  let ?k = "uuid_key (php_CrawlPageID page)"
  define score where "score is p = pillar_score_by_id (configured_pillars cfg
      (build_health_pillar env (dedupe_penalties cfg is ?k) cfg)) p" for "is" p
  define overall where "overall is = calculate_overall_score env (score is ''seo'') (score is ''aeo'') (score is ''pagespeed'') cfg" for "is"
  have sane: "sane_config cfg" and min: "sc_MinimumOverallScore cfg \<le> 100"
    using assms(1) by (auto simp: sane_health_config_def sane_config_def)
  have range: "score is p \<in> {0..100}" for "is" p
    by (auto simp: score_def pillar_score_by_id_def health_pillars_score build_health_pillar_def Let_def split: option.splits)
  have mono: "score issues' p \<le> score issues p" for p
    using health_pillar_antitone [OF assms(1) _ assms(2-4)]
    by (auto simp: score_def pillar_score_by_id_def health_pillars_score split: option.splits)
  have eff: "effective_minimum cfg \<le> 100"
    using min by (auto simp: effective_minimum_def minimum_overall_score_def)
  have "overall issues' \<le> overall issues"
    unfolding overall_def calculate_overall_eq using range mono
    by (intro clamp_score_mono overall_sum_facts sane eff) auto
  moreover have "signed_take_bit 15 (overall is) = overall is" for "is"
    using overall_range [OF min, of env "score is ''seo''" "score is ''aeo''" "score is ''pagespeed''"]
    by (intro signed_take_bit_int_eq_self) (simp_all add: overall_def)
  ultimately show ?thesis
    using False assms(5,6)
    by (auto simp: page_health_of_def build_page_health_pillars_def overall_def score_def Let_def split: if_splits)
qed

theorem page_health_antitone_witness:
  "\<exists>r r'. page_health_of sample_go_env (dedupe_penalties default_scoring_config []) default_scoring_config (sample_page ''2'' 200) = Some r
     \<and> page_health_of sample_go_env (dedupe_penalties default_scoring_config [sample_page_issue ''2'' ''high''])
         default_scoring_config (sample_page ''2'' 200) = Some r'
     \<and> ph_HealthScore r' \<le> ph_HealthScore r"
proof -
  have h: "page_has_health (sample_page ''2'' 200)" by code_simp
  obtain r r' where
    r: "page_health_of sample_go_env (dedupe_penalties default_scoring_config []) default_scoring_config (sample_page ''2'' 200) = Some r"
    and r': "page_health_of sample_go_env (dedupe_penalties default_scoring_config [sample_page_issue ''2'' ''high''])
         default_scoring_config (sample_page ''2'' 200) = Some r'"
    using page_health_of_cases(1) [OF h] by metis
  have "ph_HealthScore r' \<le> ph_HealthScore r"
    by (rule page_health_antitone [OF default_config_health _ _ _ r r']) simp_all
  with r r' show ?thesis by blast
qed

section \<open>Configurations\<close>

lemma map_of_add_missing:
  "map_of (add_missing ds m) k = (case map_of m k of None \<Rightarrow> map_of ds k | Some v \<Rightarrow> Some v)"
proof -
  have "map_of (filter (\<lambda>(k, _). map_of m k = None) ds) k = (if map_of m k = None then map_of ds k else None)"
    by (induction ds) auto
  then show ?thesis by (simp add: add_missing_def map_add_def split: option.splits)
qed

lemma pillar_of_merged:
  "map_of (sc_Pillars (merge_missing_issue_penalties c)) p = map_option (merge_pillar p) (map_of (sc_Pillars c) p)"
proof -
  have "map_of (map (\<lambda>(p, pc). (p, merge_pillar p pc)) ps) p = map_option (merge_pillar p) (map_of ps p)" for ps
    by (induction ps) auto
  then show ?thesis by (simp add: merge_missing_issue_penalties_def)
qed

lemma merged_penalty:
  "map_of (sc_Pillars default_scoring_config) p = Some d \<Longrightarrow>
     map_of (pc_IssuePenaltyByType (merge_pillar p pc)) t =
       (case map_of (pc_IssuePenaltyByType pc) t of None \<Rightarrow> map_of (pc_IssuePenaltyByType d) t | Some v \<Rightarrow> Some v)"
  by (simp add: merge_pillar_def map_of_add_missing)

text \<open>A pillar that knows every issue type of the built-in table and has no negative number.\<close>

definition complete_pillar :: "scoring_config \<Rightarrow> string \<Rightarrow> bool" where
  "complete_pillar cfg p =
     (case (map_of (sc_Pillars cfg) p, map_of (sc_Pillars default_scoring_config) p) of
        (Some pc, Some d) \<Rightarrow>
          (\<forall>t. map_of (pc_IssuePenaltyByType d) t \<noteq> None \<longrightarrow> map_of (pc_IssuePenaltyByType pc) t \<noteq> None)
          \<and> (\<forall>(t, v) \<in> set (pc_IssuePenaltyByType pc). 0 \<le> v) \<and> (\<forall>(b, w) \<in> set (pc_BucketWeights pc). 0 \<le> w)
      | _ \<Rightarrow> False)"

lemma default_pillar: "p \<in> {''seo'', ''aeo'', ''pagespeed''} \<Longrightarrow> \<exists>d. map_of (sc_Pillars default_scoring_config) p = Some d"
  by (auto simp: default_scoring_config_def)

lemma complete_pillarI:
  assumes "validate_scoring_config cfg = Inr ()" "p \<in> {''seo'', ''aeo'', ''pagespeed''}"
    "cfg = default_scoring_config \<or> cfg = merge_missing_issue_penalties c"
  shows "complete_pillar cfg p"
proof -
  obtain pc where pc: "map_of (sc_Pillars cfg) p = Some pc"
    "\<forall>(k, v) \<in> set (pc_BucketWeights pc). 0 \<le> v" "\<forall>(k, v) \<in> set (pc_IssuePenaltyByType pc). 0 \<le> v"
    using validate_scoring_config_ok(6) [OF assms(1)] assms(2) by blast
  obtain d where d: "map_of (sc_Pillars default_scoring_config) p = Some d" using default_pillar [OF assms(2)] by blast
  have "map_of (pc_IssuePenaltyByType pc) t \<noteq> None" if "map_of (pc_IssuePenaltyByType d) t \<noteq> None" for t
    using assms(3)
  proof
    assume "cfg = default_scoring_config"
    with pc(1) d that show ?thesis by simp
  next
    assume "cfg = merge_missing_issue_penalties c"
    with pc(1) obtain pc' where "pc = merge_pillar p pc'" by (auto simp: pillar_of_merged)
    with that show ?thesis by (simp add: merged_penalty [OF d] split: option.splits)
  qed
  with pc d show ?thesis by (simp add: complete_pillar_def)
qed

lemma parse_scoring_config_ok:
  assumes "parse_scoring_config unmarshal raw = Inr cfg"
  shows "validate_scoring_config cfg = Inr ()"
    "trim_space raw = [] \<and> cfg = default_scoring_config \<or>
     (\<exists>c. unmarshal default_scoring_config raw = Inr c \<and> cfg = merge_missing_issue_penalties c)"
  using assms default_config_valid by (auto simp: parse_scoring_config_def Let_def split: if_splits)

text \<open>
  A configuration that parses is well formed: it passes validation and has the three pillars,
  each with a penalty for every issue type of the built-in table and without a negative weight
  or penalty; and a penalty set by the payload is kept.
\<close>

theorem parsed_config_well_formed:
  assumes "parse_scoring_config unmarshal raw = Inr cfg"
  shows "validate_scoring_config cfg = Inr () \<and> list_all (complete_pillar cfg) [''seo'', ''aeo'', ''pagespeed'']
    \<and> (trim_space raw = [] \<and> cfg = default_scoring_config \<or>
       (\<exists>c. unmarshal default_scoring_config raw = Inr c \<and>
          (\<forall>p pc t v. map_of (sc_Pillars c) p = Some pc \<longrightarrow> map_of (pc_IssuePenaltyByType pc) t = Some v
             \<longrightarrow> map_of (pc_IssuePenaltyByType (pillar_config_of cfg p)) t = Some v)))"
proof (intro conjI)
  show v: "validate_scoring_config cfg = Inr ()" by (rule parse_scoring_config_ok(1) [OF assms])
  have cases: "trim_space raw = [] \<and> cfg = default_scoring_config \<or>
     (\<exists>c. unmarshal default_scoring_config raw = Inr c \<and> cfg = merge_missing_issue_penalties c)"
    by (rule parse_scoring_config_ok(2) [OF assms])
  then show "list_all (complete_pillar cfg) [''seo'', ''aeo'', ''pagespeed'']"
    using complete_pillarI [OF v] by auto
  have kept: "map_of (pc_IssuePenaltyByType (pillar_config_of (merge_missing_issue_penalties c) p)) t = Some v"
    if "map_of (sc_Pillars c) p = Some pc" "map_of (pc_IssuePenaltyByType pc) t = Some v" for c p pc t v
    using that by (simp add: pillar_config_of_def pillar_of_merged merge_pillar_def map_of_add_missing split: option.splits)
  from cases show "trim_space raw = [] \<and> cfg = default_scoring_config \<or>
       (\<exists>c. unmarshal default_scoring_config raw = Inr c \<and>
          (\<forall>p pc t v. map_of (sc_Pillars c) p = Some pc \<longrightarrow> map_of (pc_IssuePenaltyByType pc) t = Some v
             \<longrightarrow> map_of (pc_IssuePenaltyByType (pillar_config_of cfg p)) t = Some v))"
    using kept by metis
qed

lemma add_missing_same: "add_missing m m = m"
  by (auto simp: add_missing_def filter_empty_conv map_of_eq_None_iff rev_image_eqI)

lemma merge_default: "merge_missing_issue_penalties default_scoring_config = default_scoring_config"
  by (simp add: merge_missing_issue_penalties_def default_scoring_config_def merge_pillar_def add_missing_same
      default_scoring_math_config_def)

definition sample_unmarshal :: "scoring_config \<Rightarrow> string \<Rightarrow> scoring_config result" where
  "sample_unmarshal c raw = (if raw = ''{}'' then Inr c else Inl ''invalid JSON'')"

theorem parsed_config_well_formed_witness:
  "\<exists>cfg. parse_scoring_config sample_unmarshal ''{}'' = Inr cfg \<and> validate_scoring_config cfg = Inr ()"
proof -
  have "trim_space ''{}'' \<noteq> []" by code_simp
  then have p: "parse_scoring_config sample_unmarshal ''{}'' = Inr default_scoring_config"
    by (simp add: parse_scoring_config_def sample_unmarshal_def merge_default default_config_valid)
  with parsed_config_well_formed [OF p] show ?thesis by blast
qed

text \<open>
  Validation does not look at the minimum overall score. With the built-in configuration and
  a minimum of 400 every crawl with a scoreable page gets the overall score 400, outside the
  0-100 range the clamp promises.
\<close>

theorem minimum_score_not_validated:
  assumes "count_scoreable_pages pages \<noteq> 0"
  defines "cfg \<equiv> default_scoring_config\<lparr>sc_MinimumOverallScore := 400\<rparr>"
  shows "validate_scoring_config cfg = Inr () \<and>
    OverallScore (crawl_scores_of (build_score_breakdown_with_config env i pages signals cfg psi)) = 400"
proof -
  have v: "validate_scoring_config cfg = Inr ()" by (simp add: cfg_def validate_minimum default_config_valid)
  have o: "overall_sum cfg s a p = overall_sum default_scoring_config s a p" for s a p
    by (simp add: overall_sum_def cfg_def)
  have m: "effective_minimum cfg = 400" by (simp add: cfg_def effective_minimum_def)
  have "calculate_overall_score env s a p cfg = 400" if "{s, a, p} \<subseteq> {0..100}" for s a p
  proof -
    have r: "in_range (overall_sum default_scoring_config s a p)" "overall_sum default_scoring_config s a p \<le> of_int 300"
      using overall_sum_facts [OF default_config_sane that] by auto
    from r(2) have "go_round (overall_sum default_scoring_config s a p) \<le> go_round (of_int 300)" by (rule go_round_mono)
    then show ?thesis
      unfolding calculate_overall_eq o m clamp_score_def Let_def to_int32_in_range [OF r(1)] by (simp only: go_round_of_int) simp
  qed
  with v assms(1) show ?thesis unfolding crawl_scores_eq Let_def by simp
qed

theorem minimum_score_not_validated_witness:
  "OverallScore (crawl_scores_of (build_score_breakdown_with_config sample_go_env ''c'' [html_signal ''/a''] []
     (default_scoring_config\<lparr>sc_MinimumOverallScore := 400\<rparr>) None)) = 400"
  using minimum_score_not_validated [OF sample_page_counts] by blast

end
