(* ===== verification/IssueProperties.thy ===== *)
theory IssueProperties
  imports IssueDerive ScoreProperties
begin

text \<open>
  What the derived issues of a crawl look like: which page they name, which table entries they
  refer to, and when the broken-page, duplicate and link rules fire.
\<close>

section \<open>Every issue is known to the tables\<close>

definition issue_signature :: "derived_issue \<Rightarrow> string \<times> string \<times> string \<times> string" where
  "issue_signature i = (iss_Pillar i, iss_Bucket i, iss_IssueType i, iss_Severity i)"

definition issue_names_page :: "page_fact \<Rightarrow> derived_issue \<Rightarrow> bool" where
  "issue_names_page p i = (iss_CrawlPageID i = pf_ID p \<and> iss_URL i = pf_URL p)"

definition known_signature :: "string \<times> string \<times> string \<times> string \<Rightarrow> bool" where
  "known_signature sg =
     (let (pillar, bucket, issueType, severity) = sg; pc = pillar_config_of default_scoring_config pillar
      in map_of (pc_BucketWeights pc) bucket \<noteq> None \<and> map_of (pc_IssuePenaltyByType pc) issueType \<noteq> None
         \<and> severity_rank severity > 0 \<and> map_of recommended_fixes issueType \<noteq> None)"

definition seo_signatures :: "(string \<times> string \<times> string) list" where
  "seo_signatures =
     [(''technical_seo'', ''fetch_failed'', ''high''), (''technical_seo'', ''soft_404'', ''high''),
      (''technical_seo'', ''server_error_status'', ''high''), (''technical_seo'', ''client_error_status'', ''high''),
      (''serp_metadata'', ''missing_title'', ''high''), (''serp_metadata'', ''title_too_long'', ''medium''),
      (''serp_metadata'', ''title_too_short'', ''medium''), (''serp_metadata'', ''missing_meta_description'', ''medium''),
      (''serp_metadata'', ''meta_description_too_long'', ''medium''),
      (''serp_metadata'', ''meta_description_too_short'', ''medium''),
      (''content_structure'', ''missing_h1'', ''high''), (''content_structure'', ''multiple_h1'', ''medium''),
      (''content_structure'', ''title_h1_mismatch'', ''medium''),
      (''content_structure'', ''missing_h2_on_long_page'', ''medium''),
      (''content_structure'', ''skipped_heading_levels'', ''medium''),
      (''content_quality'', ''thin_content'', ''medium''),
      (''content_quality'', ''near_empty_visible_content'', ''medium''),
      (''content_quality'', ''near_empty_visible_content'', ''high''),
      (''indexability'', ''missing_canonical'', ''medium''), (''indexability'', ''malformed_canonical'', ''high''),
      (''indexability'', ''canonical_differs'', ''medium''),
      (''indexability'', ''canonical_points_to_non_indexable_page'', ''high''),
      (''technical_seo'', ''missing_viewport'', ''high''), (''technical_seo'', ''missing_lang'', ''medium''),
      (''indexability'', ''noindex_page'', ''high''), (''indexability'', ''nofollow_page'', ''medium''),
      (''media_optimization'', ''images_missing_alt'', ''low''),
      (''media_optimization'', ''images_missing_dimensions'', ''low''),
      (''media_optimization'', ''too_many_images_on_page'', ''low''),
      (''internal_linking'', ''no_internal_links_out'', ''medium''),
      (''internal_linking'', ''low_internal_links_out'', ''low''),
      (''internal_linking'', ''orphan_like_page'', ''high''),
      (''internal_linking'', ''low_internal_links_in'', ''medium''),
      (''internal_linking'', ''very_deep_page'', ''medium''),
      (''internal_linking'', ''internal_links_to_broken_pages'', ''high''),
      (''internal_linking'', ''internal_links_to_redirects'', ''medium''),
      (''serp_metadata'', ''duplicate_title'', ''high''),
      (''serp_metadata'', ''duplicate_meta_description'', ''medium''),
      (''content_quality'', ''exact_duplicate_content'', ''high'')]"

definition aeo_signatures :: "(string \<times> string \<times> string) list" where
  "aeo_signatures =
     [(''trust'', ''missing_og_tags'', ''low''), (''answerability'', ''missing_structured_data'', ''high''),
      (''answerability'', ''generic_structured_data_only'', ''medium''),
      (''trust'', ''schema_missing_core_fields'', ''high''), (''trust'', ''missing_https'', ''medium''),
      (''expertise'', ''missing_author_signal'', ''medium''), (''expertise'', ''weak_author_signal'', ''low''),
      (''answerability'', ''article_missing_article_schema'', ''medium''),
      (''expertise'', ''article_missing_publisher_identity'', ''high''),
      (''expertise'', ''author_signal_not_supported_by_schema'', ''high''),
      (''authoritativeness'', ''long_article_has_no_citations'', ''high''),
      (''authoritativeness'', ''long_article_has_weak_citations'', ''high''),
      (''authoritativeness'', ''missing_external_citations'', ''medium''),
      (''authoritativeness'', ''weak_external_citations'', ''low''),
      (''answerability'', ''faq_like_page_missing_faq_schema'', ''high''),
      (''trust'', ''weak_open_graph_coverage'', ''high''), (''trust'', ''missing_website_schema'', ''high''),
      (''authoritativeness'', ''missing_org_identity_schema'', ''high''),
      (''experience'', ''missing_about_page'', ''medium''), (''experience'', ''missing_contact_page'', ''medium''),
      (''experience'', ''missing_policy_page'', ''low''), (''trust'', ''missing_llms_txt'', ''high''),
      (''trust'', ''homepage_missing_org_contact_trust_signals'', ''high'')]"

definition pagespeed_signatures :: "(string \<times> string \<times> string) list" where
  "pagespeed_signatures =
     [(''server_responsiveness'', ''slow_response_time'', ''medium''), (''page_weight'', ''large_page_size'', ''high''),
      (''page_weight'', ''moderate_page_size'', ''medium'')]"

definition all_signatures :: "(string \<times> string \<times> string \<times> string) list" where
  "all_signatures = map (Pair ''seo'') seo_signatures @ map (Pair ''aeo'') aeo_signatures
     @ map (Pair ''pagespeed'') pagespeed_signatures"

definition known_in :: "string list \<Rightarrow> string list \<Rightarrow> string list \<Rightarrow> string \<times> string \<times> string \<Rightarrow> bool" where
  "known_in buckets types fixed = (\<lambda>(b, t, s). List.member buckets b \<and> List.member types t
     \<and> List.member [''high'', ''medium'', ''low''] s \<and> List.member fixed t)"

lemma seo_signatures_known:
  "list_all (known_in (map fst seo_bucket_weights) (map fst seo_issue_penalty_by_type) (map fst recommended_fixes))
     seo_signatures"
  unfolding seo_bucket_weights_def seo_issue_penalty_by_type_def recommended_fixes_def list.map fst_conv
  by code_simp

lemma aeo_signatures_known:
  "list_all (known_in (map fst aeo_bucket_weights) (map fst aeo_issue_penalty_by_type) (map fst recommended_fixes))
     aeo_signatures"
  unfolding aeo_bucket_weights_def aeo_issue_penalty_by_type_def recommended_fixes_def list.map fst_conv
  by code_simp

lemma pagespeed_signatures_known:
  "list_all (known_in (map fst pagespeed_bucket_weights) (map fst pagespeed_issue_penalty_by_type)
     (map fst recommended_fixes)) pagespeed_signatures"
  unfolding pagespeed_bucket_weights_def pagespeed_issue_penalty_by_type_def recommended_fixes_def list.map fst_conv
  by code_simp

lemmas signatures_known = seo_signatures_known aeo_signatures_known pagespeed_signatures_known

lemma rank_positive: "s \<in> {''high'', ''medium'', ''low''} \<Longrightarrow> 0 < severity_rank s"
proof -
  have "severity_rank ''high'' = 3" "severity_rank ''medium'' = 2" "severity_rank ''low'' = 1" by code_simp+
  then show "s \<in> {''high'', ''medium'', ''low''} \<Longrightarrow> 0 < severity_rank s" by auto
qed

lemma default_tables:
  "pc_BucketWeights (pillar_config_of default_scoring_config ''seo'') = seo_bucket_weights"
  "pc_IssuePenaltyByType (pillar_config_of default_scoring_config ''seo'') = seo_issue_penalty_by_type"
  "pc_BucketWeights (pillar_config_of default_scoring_config ''aeo'') = aeo_bucket_weights"
  "pc_IssuePenaltyByType (pillar_config_of default_scoring_config ''aeo'') = aeo_issue_penalty_by_type"
  "pc_BucketWeights (pillar_config_of default_scoring_config ''pagespeed'') = pagespeed_bucket_weights"
  "pc_IssuePenaltyByType (pillar_config_of default_scoring_config ''pagespeed'') = pagespeed_issue_penalty_by_type"
  by (simp_all add: pillar_config_of_def default_scoring_config_def)

lemma known_in_signature:
  assumes "known_in (map fst (pc_BucketWeights (pillar_config_of default_scoring_config p)))
    (map fst (pc_IssuePenaltyByType (pillar_config_of default_scoring_config p))) (map fst recommended_fixes) x"
  shows "known_signature (p, x)"
proof -
  obtain b t s where x: "x = (b, t, s)" by (cases x)
  with assms have k: "b \<in> fst ` set (pc_BucketWeights (pillar_config_of default_scoring_config p))"
    "t \<in> fst ` set (pc_IssuePenaltyByType (pillar_config_of default_scoring_config p))"
    "s \<in> {''high'', ''medium'', ''low''}" "t \<in> fst ` set recommended_fixes"
    unfolding known_in_def by auto
  have known: "map_of m k \<noteq> None" if "k \<in> fst ` set m" for m :: "(string \<times> 'a) list" and k
    using that by (simp add: map_of_eq_None_iff)
  have "map_of recommended_fixes t \<noteq> None" using k(4) by (simp add: map_of_eq_None_iff)
  then show ?thesis
    unfolding known_signature_def x Let_def prod.case
    using known [OF k(1)] known [OF k(2)] rank_positive [OF k(3)] by blast
qed

lemma all_signatures_known: "list_all known_signature all_signatures"
proof -
  have m: "list_all known_signature (map (Pair p) xs)"
    if "list_all (known_in (map fst (pc_BucketWeights (pillar_config_of default_scoring_config p)))
      (map fst (pc_IssuePenaltyByType (pillar_config_of default_scoring_config p))) (map fst recommended_fixes)) xs"
    for p xs
    using that by (induction xs) (simp_all add: known_in_signature)
  show ?thesis
    unfolding all_signatures_def list_all_append
    by (intro conjI m) (simp_all only: default_tables signatures_known)
qed

text \<open>An issue of one of the given pages, with a signature of the list.\<close>

definition issue_from :: "page_fact set \<Rightarrow> derived_issue \<Rightarrow> bool" where
  "issue_from ps i = ((\<exists>p \<in> ps. issue_names_page p i) \<and> issue_signature i \<in> set all_signatures)"

lemma seo_issue_from:
  "p \<in> ps \<Longrightarrow> (b, t, s) \<in> set seo_signatures \<Longrightarrow> issue_from ps (seo_issue p b t s m d)"
  by (auto simp: issue_from_def issue_names_page_def issue_signature_def seo_issue_def all_signatures_def)

lemma aeo_issue_from:
  "p \<in> ps \<Longrightarrow> (b, t, s) \<in> set aeo_signatures \<Longrightarrow> issue_from ps (aeo_issue p b t s m d)"
  by (auto simp: issue_from_def issue_names_page_def issue_signature_def aeo_issue_def all_signatures_def)

lemma pagespeed_issue_from:
  "p \<in> ps \<Longrightarrow> (b, t, s) \<in> set pagespeed_signatures \<Longrightarrow> issue_from ps (pagespeed_issue p b t s m d)"
  by (auto simp: issue_from_def issue_names_page_def issue_signature_def pagespeed_issue_def all_signatures_def)

text \<open>
  A rule group is appends, conditionals and bindings over single issues: these rules walk it and
  leave only the signature lookups, which evaluate.
\<close>

lemma rule_walk:
  "list_all P []" "P x \<Longrightarrow> list_all P [x]" "list_all P xs \<Longrightarrow> list_all P ys \<Longrightarrow> list_all P (xs @ ys)"
  "list_all P xs \<Longrightarrow> list_all P ys \<Longrightarrow> list_all P (if c then xs else ys)"
  "P x \<Longrightarrow> P y \<Longrightarrow> P (if c then x else y)"
  "list_all P xs \<Longrightarrow> (\<And>v. list_all P (f v)) \<Longrightarrow> list_all P (case opt of None \<Rightarrow> xs | Some v \<Rightarrow> f v)"
  by (auto split: option.split)

lemmas issue_walk = rule_walk [where P = "issue_from ps" for ps]

lemma broken_rules_from: "p \<in> ps \<Longrightarrow> list_all (issue_from ps) (broken_page_issue p)"
  unfolding broken_page_issue_def Let_def by (intro issue_walk seo_issue_from) (assumption | code_simp)+

lemma title_rules_from: "p \<in> ps \<Longrightarrow> list_all (issue_from ps) (title_rules p)"
  unfolding title_rules_def Let_def by (intro issue_walk seo_issue_from) (assumption | code_simp)+

lemma meta_rules_from: "p \<in> ps \<Longrightarrow> list_all (issue_from ps) (meta_rules p)"
  unfolding meta_rules_def Let_def by (intro issue_walk seo_issue_from) (assumption | code_simp)+

lemma heading_rules_from: "p \<in> ps \<Longrightarrow> list_all (issue_from ps) (heading_rules p)"
  unfolding heading_rules_def Let_def by (intro issue_walk seo_issue_from) (assumption | code_simp)+

lemma content_rules_from: "p \<in> ps \<Longrightarrow> list_all (issue_from ps) (content_rules p)"
  unfolding content_rules_def Let_def by (intro issue_walk seo_issue_from) (assumption | code_simp)+

lemma canonical_rules_from: "p \<in> ps \<Longrightarrow> list_all (issue_from ps) (canonical_rules f p)"
  unfolding canonical_rules_def Let_def by (intro issue_walk seo_issue_from) (assumption | code_simp)+

lemma technical_rules_from: "p \<in> ps \<Longrightarrow> list_all (issue_from ps) (technical_rules p)"
  unfolding technical_rules_def Let_def by (intro issue_walk seo_issue_from) (assumption | code_simp)+

lemma media_rules_from: "p \<in> ps \<Longrightarrow> list_all (issue_from ps) (media_rules p)"
  unfolding media_rules_def Let_def by (intro issue_walk seo_issue_from) (assumption | code_simp)+

lemma linking_rules_from: "p \<in> ps \<Longrightarrow> list_all (issue_from ps) (linking_rules ls p)"
  unfolding linking_rules_def Let_def by (intro issue_walk seo_issue_from) (assumption | code_simp)+

lemmas seo_rules_from = title_rules_from meta_rules_from heading_rules_from content_rules_from canonical_rules_from technical_rules_from media_rules_from linking_rules_from

lemma structured_rules_from: "p \<in> ps \<Longrightarrow> list_all (issue_from ps) (structured_data_rules p)"
  unfolding structured_data_rules_def Let_def by (intro issue_walk aeo_issue_from) (assumption | code_simp)+

lemma author_rules_from: "p \<in> ps \<Longrightarrow> list_all (issue_from ps) (author_rules p)"
  unfolding author_rules_def Let_def by (intro issue_walk aeo_issue_from) (assumption | code_simp)+

lemma citation_rules_from: "p \<in> ps \<Longrightarrow> list_all (issue_from ps) (citation_rules p)"
  unfolding citation_rules_def Let_def by (intro issue_walk aeo_issue_from) (assumption | code_simp)+

lemma faq_rules_from: "p \<in> ps \<Longrightarrow> list_all (issue_from ps) (faq_rules p)"
  unfolding faq_rules_def Let_def by (intro issue_walk aeo_issue_from) (assumption | code_simp)+

lemma site_rules_from: "p \<in> ps \<Longrightarrow> list_all (issue_from ps) (site_rules qs siteFacts site p)"
  unfolding site_rules_def Let_def by (intro issue_walk aeo_issue_from) (assumption | code_simp)+

lemma homepage_rules_from: "p \<in> ps \<Longrightarrow> list_all (issue_from ps) (homepage_rules site p)"
  unfolding homepage_rules_def Let_def by (intro issue_walk aeo_issue_from) (assumption | code_simp)+

lemma pagespeed_rules_from: "p \<in> ps \<Longrightarrow> list_all (issue_from ps) (pagespeed_rules p)"
  unfolding pagespeed_rules_def by (intro issue_walk pagespeed_issue_from) (assumption | code_simp)+

lemma issue_from_mono: "issue_from ps i \<Longrightarrow> ps \<subseteq> qs \<Longrightarrow> issue_from qs i"
  by (auto simp: issue_from_def)

lemma issue_from_enriched:
  "p \<in> enrich_page_fact sha ` ps \<Longrightarrow> \<exists>q \<in> ps. pf_ID p = pf_ID q \<and> pf_URL p = pf_URL q"
  by (auto simp: enrich_page_fact_def Let_def)

lemma issue_from_ids:
  "issue_from ps i \<Longrightarrow> \<forall>p \<in> ps. \<exists>q \<in> qs. pf_ID p = pf_ID q \<and> pf_URL p = pf_URL q \<Longrightarrow> issue_from qs i"
  by (fastforce simp: issue_from_def issue_names_page_def)

section \<open>Groups of equal keys\<close>

lemma page_indexes_iff: "i \<in> set (page_indexes key ps k) \<longleftrightarrow> i < length ps \<and> key (ps ! i) = k"
  by (auto simp: page_indexes_def)

lemma group_keys_iff: "k \<in> set (group_keys key ps) \<longleftrightarrow> k \<noteq> [] \<and> (\<exists>i < length ps. key (ps ! i) = k)"
  by (auto simp: group_keys_def sorted_set_def in_set_conv_nth intro!: image_eqI)

lemma two_indexes:
  assumes "i \<in> set (page_indexes key ps k)"
  shows "2 \<le> length (page_indexes key ps k) \<longleftrightarrow> (\<exists>j < length ps. j \<noteq> i \<and> key (ps ! j) = k)"
proof -
  have d: "distinct (page_indexes key ps k)" by (simp add: page_indexes_def)
  have "2 \<le> length (page_indexes key ps k) \<longleftrightarrow> 1 < card (set (page_indexes key ps k))"
    using distinct_card [OF d] by auto
  also have "\<dots> \<longleftrightarrow> (\<exists>j \<in> set (page_indexes key ps k). j \<noteq> i)"
  proof
    assume c: "1 < card (set (page_indexes key ps k))"
    show "\<exists>j \<in> set (page_indexes key ps k). j \<noteq> i"
    proof (rule ccontr)
      assume "\<not> (\<exists>j \<in> set (page_indexes key ps k). j \<noteq> i)"
      then have "set (page_indexes key ps k) \<subseteq> {i}" by auto
      then have "card (set (page_indexes key ps k)) \<le> card {i}" by (intro card_mono) auto
      with c show False by simp
    qed
  next
    assume "\<exists>j \<in> set (page_indexes key ps k). j \<noteq> i"
    then obtain j where "j \<in> set (page_indexes key ps k)" "j \<noteq> i" by blast
    with assms have "{i, j} \<subseteq> set (page_indexes key ps k)" by auto
    then have "card {i, j} \<le> card (set (page_indexes key ps k))" by (intro card_mono) auto
    with \<open>j \<noteq> i\<close> show "1 < card (set (page_indexes key ps k))" by simp
  qed
  finally show ?thesis by (auto simp: page_indexes_iff)
qed

text \<open>A page lies in a reported group when another page has the same key and the group is kept.\<close>

lemma reported_index:
  assumes "i < length ps"
  shows "(\<exists>idx \<in> set (filter (\<lambda>idx. \<not> (length idx < 2 \<or> skip idx)) (map (page_indexes key ps) (group_keys key ps))). i \<in> set idx)
    \<longleftrightarrow> key (ps ! i) \<noteq> [] \<and> (\<exists>j < length ps. j \<noteq> i \<and> key (ps ! j) = key (ps ! i))
        \<and> \<not> skip (page_indexes key ps (key (ps ! i)))"
    (is "?L \<longleftrightarrow> ?R")
proof
  assume ?L
  then obtain k where k: "k \<in> set (group_keys key ps)" "\<not> length (page_indexes key ps k) < 2"
    "\<not> skip (page_indexes key ps k)" "i \<in> set (page_indexes key ps k)" by auto
  then have "key (ps ! i) = k" by (simp add: page_indexes_iff)
  with k two_indexes [OF k(4)] show ?R by (auto simp: group_keys_iff)
next
  assume R: ?R
  let ?k = "key (ps ! i)"
  have i: "i \<in> set (page_indexes key ps ?k)" using assms by (simp add: page_indexes_iff)
  have "?k \<in> set (group_keys key ps)" using R assms by (auto simp: group_keys_iff)
  with R i two_indexes [OF i] show ?L by fastforce
qed

lemma group_indexes_bounded:
  "idx \<in> set (map (page_indexes key ps) (group_keys key ps)) \<Longrightarrow> i \<in> set idx \<Longrightarrow> i < length ps"
  by (auto simp: page_indexes_iff)

lemma field_group_bounded: "idx \<in> set (reported_field_groups r ps) \<Longrightarrow> i \<in> set idx \<Longrightarrow> i < length ps"
  by (auto simp: reported_field_groups_def page_indexes_iff)

lemma exact_group_bounded: "idx \<in> set (exact_groups ps) \<Longrightarrow> i \<in> set idx \<Longrightarrow> i < length ps"
  by (auto simp: exact_groups_def page_indexes_iff)

section \<open>Origin of every issue\<close>

lemma list_all_groups:
  assumes "\<And>idx i. idx \<in> set groups \<Longrightarrow> i \<in> set idx \<Longrightarrow> P (f idx i)"
  shows "list_all P (concat (map (\<lambda>idx. map (f idx) idx) groups))"
  using assms by (auto simp: list_all_iff)

lemma field_issues_from:
  assumes "(''serp_metadata'', fr_IssueType r, fr_Severity r) \<in> set seo_signatures"
  shows "list_all (issue_from (set ps)) (fst (derive_duplicate_field_issues r ps))"
  unfolding derive_duplicate_field_issues_def Let_def fst_conv
proof (rule list_all_groups)
  fix idx i
  assume "idx \<in> set (reported_field_groups r ps)" "i \<in> set idx"
  then have "ps ! i \<in> set ps" by (intro nth_mem field_group_bounded)
  then show "issue_from (set ps) (field_issue r ps idx i)"
    unfolding field_issue_def Let_def using assms by (rule seo_issue_from)
qed

lemma exact_issues_from: "list_all (issue_from (set ps)) (fst (derive_duplicate_content_issues ps))"
  unfolding derive_duplicate_content_issues_def Let_def fst_conv
proof (rule list_all_groups)
  fix idx i
  assume "idx \<in> set (exact_groups ps)" "i \<in> set idx"
  then have "ps ! i \<in> set ps" by (intro nth_mem exact_group_bounded)
  moreover have "(''content_quality'', ''exact_duplicate_content'', ''high'') \<in> set seo_signatures"
    by (simp add: seo_signatures_def)
  ultimately show "issue_from (set ps) (exact_issue ps idx i)"
    unfolding exact_issue_def Let_def by (rule seo_issue_from)
qed

lemma page_rules_from: "p \<in> ps \<Longrightarrow> list_all (issue_from ps) (page_rules qs ls p)"
  unfolding page_rules_def list_all_append by (intro conjI seo_rules_from)

lemma enriched_issues:
  "list_all (issue_from (set (map (enrich_page_fact sha) ps))) xs \<Longrightarrow> list_all (issue_from (set ps)) xs"
  by (erule list.pred_mono_strong, erule issue_from_ids, rule ballI, rule issue_from_enriched) simp

lemma derive_seo_issues_fst:
  "fst (derive_seo_issues sha ps ls) =
     (let e = map (enrich_page_fact sha) ps in
      concat (map (page_rules ps ls) ps) @ fst (derive_duplicate_field_issues title_field_rule e)
      @ fst (derive_duplicate_field_issues meta_field_rule e) @ fst (derive_duplicate_content_issues e))"
  by (simp add: derive_seo_issues_def Let_def split_beta)

lemma field_rules_known:
  "(''serp_metadata'', fr_IssueType title_field_rule, fr_Severity title_field_rule) \<in> set seo_signatures"
  "(''serp_metadata'', fr_IssueType meta_field_rule, fr_Severity meta_field_rule) \<in> set seo_signatures"
  unfolding title_field_rule_def meta_field_rule_def field_rule.simps by code_simp+

lemma seo_issues_from: "list_all (issue_from (set ps)) (fst (derive_seo_issues sha ps ls))"
proof -
  have "list_all (issue_from (set ps)) (concat (map (page_rules ps ls) ps))"
    using page_rules_from [of _ "set ps"] by (auto simp: list_all_iff)
  moreover have "list_all (issue_from (set ps)) (fst (derive_duplicate_field_issues r (map (enrich_page_fact sha) ps)))"
    if "r = title_field_rule \<or> r = meta_field_rule" for r
    using that field_rules_known by (auto intro: enriched_issues field_issues_from)
  moreover have "list_all (issue_from (set ps)) (fst (derive_duplicate_content_issues (map (enrich_page_fact sha) ps)))"
    by (rule enriched_issues) (rule exact_issues_from)
  ultimately show ?thesis
    unfolding derive_seo_issues_fst Let_def list_all_append by blast
qed

lemma select_site_page_in: "select_site_issue_page_fact ps = Some p \<Longrightarrow> p \<in> set ps"
proof -
  have "fold prefer_site_page qs q \<in> insert q (set qs)" for q qs
  proof (induction qs arbitrary: q)
    case (Cons x qs)
    have "prefer_site_page x q \<in> {x, q}" by (simp add: prefer_site_page_def)
    then show ?case using Cons [of "prefer_site_page x q"] by auto
  qed simp
  then show "select_site_issue_page_fact ps = Some p \<Longrightarrow> p \<in> set ps"
    by (auto simp: select_site_issue_page_fact_def split: list.splits)
qed

lemma aeo_issues_from: "list_all (issue_from (set ps)) (derive_aeo_issues ps siteFacts)"
proof -
  have "list_all (issue_from (set ps)) (aeo_page_rules p)" if "p \<in> set ps" for p
    unfolding aeo_page_rules_def list_all_append
    using that by (intro conjI structured_rules_from author_rules_from citation_rules_from faq_rules_from)
  then have "list_all (issue_from (set ps)) (concat (map aeo_page_rules ps))" by (auto simp: list_all_iff)
  moreover have "list_all (issue_from (set ps)) (site_rules ps siteFacts s p)"
    if "select_site_issue_page_fact ps = Some p" for s p
    using select_site_page_in [OF that] by (rule site_rules_from)
  moreover have "list_all (issue_from (set ps)) (homepage_rules s p)"
    if "select_homepage_page_fact ps = Some p" for s p
  proof -
    have "p \<in> set ps" using that by (auto simp: select_homepage_page_fact_def find_Some_iff)
    then show ?thesis by (rule homepage_rules_from)
  qed
  ultimately show ?thesis
    by (simp add: derive_aeo_issues_def Let_def split: option.splits)
qed

lemma pagespeed_issues_from: "list_all (issue_from (set ps)) (derive_pagespeed_issues ps)"
  using pagespeed_rules_from [of _ "set ps"] by (auto simp: derive_pagespeed_issues_def list_all_iff)

lemma derive_issues_split:
  "fst (derive_issues sha ps ls site) = derive_broken_page_issues (broken_page_facts ps)
     @ (fst (derive_seo_issues sha (scoreable_page_facts ps) ls) @ derive_aeo_issues (scoreable_page_facts ps) site
     @ derive_pagespeed_issues (scoreable_page_facts ps))"
  by (simp add: derive_issues_def Let_def split_beta)

lemma healthy_issues_from:
  "list_all (issue_from (set qs)) (fst (derive_seo_issues sha qs ls) @ derive_aeo_issues qs site @ derive_pagespeed_issues qs)"
  unfolding list_all_append by (intro conjI seo_issues_from aeo_issues_from pagespeed_issues_from)

lemma broken_issues_from: "list_all (issue_from (set ps)) (derive_broken_page_issues ps)"
  using broken_rules_from [of _ "set ps"] by (auto simp: derive_broken_page_issues_def list_all_iff)

text \<open>
  C29: every derived issue names an HTML page of the crawl, a bucket and an issue type that the
  built-in tables of its pillar have a weight and a penalty for, a severity that ranks, and an
  issue type with a recommended fix: scoring never falls back to the default penalty.
\<close>

theorem derived_issues_are_known:
  "list_all (\<lambda>i. known_signature (issue_signature i)
       \<and> list_ex (\<lambda>p. issue_names_page p i \<and> is_scoreable_content_type (pf_ContentType p)) ps)
     (fst (derive_issues sha256 ps ls site))"
proof -
  let ?h = "set (filter (\<lambda>p. is_scoreable_content_type (pf_ContentType p)) ps)"
  have "list_all (issue_from ?h) (fst (derive_issues sha256 ps ls site))"
    unfolding derive_issues_split
    using broken_issues_from [of "broken_page_facts ps"]
      healthy_issues_from [of "scoreable_page_facts ps" sha256 ls site]
    by (subst list_all_append)
       (auto elim!: list.pred_mono_strong issue_from_mono simp: broken_page_facts_def scoreable_page_facts_def)
  then show ?thesis
    using all_signatures_known by (fastforce simp: list_all_iff list_ex_iff issue_from_def)
qed

section \<open>Broken pages\<close>

lemma broken_issue_names: "i \<in> set (broken_page_issue p) \<Longrightarrow> iss_CrawlPageID i = pf_ID p"
  by (auto simp: broken_page_issue_def seo_issue_def split: if_splits)

lemma broken_page_issue_single: "\<not> is_healthy p \<Longrightarrow> length (broken_page_issue p) = 1"
  by (auto simp: broken_page_issue_def is_healthy_def)

lemma filter_by_page:
  assumes names: "\<And>q i. q \<in> set ps \<Longrightarrow> i \<in> set (f q) \<Longrightarrow> iss_CrawlPageID i = pf_ID q"
    and "distinct (map pf_ID ps)" "p \<in> set ps"
  shows "filter (\<lambda>i. iss_CrawlPageID i = pf_ID p) (concat (map f ps)) = f p"
  using assms
proof (induction ps)
  case (Cons q qs)
  have q: "filter (\<lambda>i. iss_CrawlPageID i = pf_ID p) (f q) = (if pf_ID q = pf_ID p then f q else [])"
    using Cons.prems(1) [of q] by (auto simp: filter_id_conv filter_empty_conv)
  have other: "filter (\<lambda>i. iss_CrawlPageID i = pf_ID p) (concat (map f qs)) = []" if "pf_ID q = pf_ID p"
  proof -
    have "iss_CrawlPageID i \<noteq> pf_ID p" if "r \<in> set qs" "i \<in> set (f r)" for r i
      using Cons.prems(1) [of r i] Cons.prems(2) that \<open>pf_ID q = pf_ID p\<close> by force
    then show ?thesis by (auto simp: filter_empty_conv)
  qed
  show ?case
  proof (cases "p = q")
    case True
    then show ?thesis using q other by simp
  next
    case False
    with Cons.prems have "p \<in> set qs" "pf_ID q \<noteq> pf_ID p" by auto
    with q Cons show ?thesis by simp
  qed
qed simp

text \<open>
  C30: an HTML page that failed to fetch, is a soft 404 or answered 400 or above gets exactly one
  issue, the one of its kind of failure, and no content, link, AEO or PageSpeed issue.
\<close>

theorem broken_page_one_issue:
  assumes "distinct (map pf_ID ps)" "p \<in> set ps" "is_scoreable_content_type (pf_ContentType p)" "\<not> is_healthy p"
  shows "filter (\<lambda>i. iss_CrawlPageID i = pf_ID p) (fst (derive_issues sha256 ps ls site)) = broken_page_issue p
    \<and> length (broken_page_issue p) = 1"
proof -
  let ?h = "scoreable_page_facts ps"
  have same: "q = p" if "q \<in> set ps" "pf_ID q = pf_ID p" for q
    using assms(1,2) that by (metis distinct_map inj_onD)
  have "iss_CrawlPageID i \<noteq> pf_ID p"
    if "i \<in> set (fst (derive_seo_issues sha256 ?h ls) @ derive_aeo_issues ?h site @ derive_pagespeed_issues ?h)" for i
  proof
    assume i: "iss_CrawlPageID i = pf_ID p"
    have "issue_from (set ?h) i" using healthy_issues_from [of ?h sha256 ls site] that by (simp only: list_all_iff)
    then obtain q where "q \<in> set ?h" "iss_CrawlPageID i = pf_ID q" by (auto simp: issue_from_def issue_names_page_def)
    with same [of q] i assms(4) show False by (auto simp: scoreable_page_facts_def)
  qed
  then have rest: "filter (\<lambda>i. iss_CrawlPageID i = pf_ID p)
      (fst (derive_seo_issues sha256 ?h ls) @ derive_aeo_issues ?h site @ derive_pagespeed_issues ?h) = []"
    by (simp only: filter_empty_conv) blast
  have "filter (\<lambda>i. iss_CrawlPageID i = pf_ID p) (derive_broken_page_issues (broken_page_facts ps)) = broken_page_issue p"
    unfolding derive_broken_page_issues_def
  proof (rule filter_by_page)
    show "distinct (map pf_ID (broken_page_facts ps))"
      using assms(1) by (simp add: broken_page_facts_def distinct_map_filter)
    show "p \<in> set (broken_page_facts ps)" using assms by (simp add: broken_page_facts_def)
  qed (rule broken_issue_names)
  then show ?thesis
    unfolding derive_issues_split filter_append [of _ "derive_broken_page_issues _"] rest
    using broken_page_issue_single [OF assms(4)] by simp
qed

text \<open>An otherwise empty HTML page, for evaluating the rules.\<close>

definition sample_fact :: "string \<Rightarrow> string \<Rightarrow> int \<Rightarrow> string \<Rightarrow> page_fact" where
  "sample_fact i u code title =
     \<lparr>pf_ID = i, pf_URL = u, pf_ContentType = ''text/html'', pf_Depth = 1, pf_Title = title,
      pf_MetaDescription = [], pf_Author = [], pf_H1 = [], pf_H1Count = 0, pf_H2Count = 0, pf_WordCount = 0,
      pf_VisibleText = [], pf_CanonicalURL = [], pf_Viewport = [], pf_Lang = [], pf_Robots = [],
      pf_StatusCode = code, pf_SizeBytes = 0, pf_ImageCount = 0, pf_ImagesWithoutAltCount = 0,
      pf_ImagesWithoutDimensions = 0, pf_ExternalLinks = 0, pf_ResponseTimeMs = 0, pf_OGTags = [],
      pf_JSONLD = [], pf_HeadingOutline = [], pf_ContentSHA256 = [], pf_ContentExtractionStatus = [],
      pf_Soft404 = False, pf_FetchError = []\<rparr>"

theorem broken_page_one_issue_witness:
  "filter (\<lambda>i. iss_CrawlPageID i = ''1'') (fst (derive_issues (\<lambda>x. x)
       [sample_fact ''1'' ''https://x.org/gone'' 404 [], sample_fact ''2'' ''https://x.org/'' 200 []] []
       \<lparr>site_HasLlmsTxt = None\<rparr>))
   = broken_page_issue (sample_fact ''1'' ''https://x.org/gone'' 404 [])"
proof -
  let ?p = "sample_fact ''1'' ''https://x.org/gone'' 404 []"
  have "distinct (map pf_ID [?p, sample_fact ''2'' ''https://x.org/'' 200 []])"
    "?p \<in> set [?p, sample_fact ''2'' ''https://x.org/'' 200 []]" "\<not> is_healthy ?p" "pf_ID ?p = ''1''"
    by (simp_all add: sample_fact_def is_healthy_def)
  moreover have "is_scoreable_content_type (pf_ContentType ?p)" by code_simp
  ultimately show ?thesis
    using broken_page_one_issue [of "[?p, sample_fact ''2'' ''https://x.org/'' 200 []]" ?p "\<lambda>x. x" "[]"] by simp
qed

end
