(* ===== verification/DuplicateProperties.thy ===== *)
theory DuplicateProperties
  imports IssueProperties
begin

text \<open>
  When exactly the duplicate rules fire, against the reference notion "another page has the same
  normalized value", and what the link and author rules look at.
\<close>

section \<open>Counting issues per page\<close>

lemma page_indexes_distinct: "distinct (page_indexes key ps k)"
  by (simp add: page_indexes_def)

lemma group_keys_distinct: "distinct (group_keys key ps)"
  by (simp add: group_keys_def sorted_set_def mset_eq_imp_distinct_iff [OF mset_sort_by])

lemma count_index:
  assumes "k < length ps" "distinct (map pf_ID ps)" "distinct idx" "\<forall>i \<in> set idx. i < length ps"
  shows "length (filter (\<lambda>i. pf_ID (ps ! i) = pf_ID (ps ! k)) idx) = of_bool (k \<in> set idx)"
proof -
  have "pf_ID (ps ! i) = pf_ID (ps ! k) \<longleftrightarrow> i = k" if "i \<in> set idx" for i
    using assms that nth_eq_iff_index_eq [of "map pf_ID ps" i k] by auto
  then have "filter (\<lambda>i. pf_ID (ps ! i) = pf_ID (ps ! k)) idx = filter (\<lambda>i. i = k) idx"
    by (intro filter_cong) auto
  also have "length \<dots> = of_bool (k \<in> set idx)"
    using assms(3) by (induction idx) (auto simp: filter_empty_conv)
  finally show ?thesis .
qed

lemma sum_of_keys:
  "distinct ks \<Longrightarrow> (\<Sum>x \<leftarrow> ks. of_bool (P x \<and> x = k)) = (of_bool (k \<in> set ks \<and> P k) :: nat)"
  by (induction ks) auto

text \<open>
  The issues that a grouping by \<open>key\<close> raises on page \<open>k\<close>: one when another page shares the key
  and the group is kept, none otherwise.
\<close>

definition shares_key :: "(page_fact \<Rightarrow> string) \<Rightarrow> page_fact list \<Rightarrow> nat \<Rightarrow> bool" where
  "shares_key key ps k \<longleftrightarrow> key (ps ! k) \<noteq> [] \<and> (\<exists>j < length ps. j \<noteq> k \<and> key (ps ! j) = key (ps ! k))"

lemma grouped_issue_count:
  assumes k: "k < length ps" and ids: "distinct (map pf_ID ps)"
    and names: "\<And>idx i. iss_CrawlPageID (f idx i) = pf_ID (ps ! i)"
    and good: "\<And>idx. good idx \<longleftrightarrow> 2 \<le> length idx \<and> \<not> skip idx"
  shows "length (filter (\<lambda>i. iss_CrawlPageID i = pf_ID (ps ! k))
      (concat (map (\<lambda>idx. map (f idx) idx) (filter good (map (page_indexes key ps) (group_keys key ps))))))
    = of_bool (shares_key key ps k \<and> \<not> skip (page_indexes key ps (key (ps ! k))))"
proof -
  let ?on = "\<lambda>i. iss_CrawlPageID i = pf_ID (ps ! k)" and ?g = "page_indexes key ps" and ?k = "key (ps ! k)"
  have one: "length (filter ?on (map (f (?g x)) (?g x))) = of_bool (x = ?k)" for x
  proof -
    have "length (filter ?on (map (f (?g x)) (?g x)))
        = length (filter (\<lambda>i. pf_ID (ps ! i) = pf_ID (ps ! k)) (?g x))"
      by (simp add: filter_map comp_def names)
    also have "\<dots> = of_bool (k \<in> set (?g x))"
      by (rule count_index) (use k ids in \<open>auto simp: page_indexes_distinct page_indexes_iff\<close>)
    finally show ?thesis using k by (auto simp: page_indexes_iff)
  qed
  have "length (filter ?on (concat (map (\<lambda>idx. map (f idx) idx) (filter good (map ?g ks)))))
      = (\<Sum>x \<leftarrow> ks. of_bool (good (?g x) \<and> x = ?k))" for ks
    by (induction ks) (auto simp: one simp del: length_filter_map filter_map)
  then have "length (filter ?on (concat (map (\<lambda>idx. map (f idx) idx) (filter good (map ?g (group_keys key ps))))))
      = of_bool (?k \<in> set (group_keys key ps) \<and> good (?g ?k))"
    by (simp only: sum_of_keys [OF group_keys_distinct])
  also have "?k \<in> set (group_keys key ps) \<and> good (?g ?k)
      \<longleftrightarrow> shares_key key ps k \<and> \<not> skip (?g ?k)"
    using two_indexes [of k key ps ?k] k
    by (auto simp: good group_keys_iff shares_key_def page_indexes_iff)
  finally show ?thesis .
qed

section \<open>Duplicate titles and descriptions\<close>

text \<open>
  C32: for a title or meta description rule a page gets exactly one duplicate issue when its
  normalized value is not empty, another page has the same one, and not every page of that group
  looks like a pagination page; otherwise it gets none.
\<close>

theorem duplicate_field_issue_exact:
  assumes "k < length ps" "distinct (map pf_ID ps)"
  shows "length (filter (\<lambda>i. iss_CrawlPageID i = pf_ID (ps ! k)) (fst (derive_duplicate_field_issues r ps)))
    = of_bool (field_key r (ps ! k) \<noteq> []
        \<and> (\<exists>j < length ps. j \<noteq> k \<and> field_key r (ps ! j) = field_key r (ps ! k))
        \<and> (\<exists>j < length ps. field_key r (ps ! j) = field_key r (ps ! k) \<and> \<not> page_url_looks_paginated (pf_URL (ps ! j))))"
proof -
  let ?key = "field_key r"
  have "length (filter (\<lambda>i. iss_CrawlPageID i = pf_ID (ps ! k)) (fst (derive_duplicate_field_issues r ps)))
    = of_bool (shares_key ?key ps k
        \<and> \<not> duplicate_group_looks_like_pure_pagination ps (page_indexes ?key ps (?key (ps ! k))))"
    unfolding derive_duplicate_field_issues_def reported_field_groups_def Let_def fst_conv
    by (rule grouped_issue_count) (use assms in \<open>auto simp: field_issue_def seo_issue_def Let_def\<close>)
  also have "duplicate_group_looks_like_pure_pagination ps (page_indexes ?key ps (?key (ps ! k)))
      \<longleftrightarrow> \<not> (\<exists>j < length ps. ?key (ps ! j) = ?key (ps ! k) \<and> \<not> page_url_looks_paginated (pf_URL (ps ! j)))"
    by (auto simp: duplicate_group_looks_like_pure_pagination_def list_all_iff page_indexes_iff)
  finally show ?thesis by (simp add: shares_key_def conj_assoc)
qed

theorem duplicate_field_issue_exact_witness:
  "length (filter (\<lambda>i. iss_CrawlPageID i = ''1'') (fst (derive_duplicate_field_issues title_field_rule
     [sample_fact ''1'' ''https://x.org/a'' 200 ''Home'', sample_fact ''2'' ''https://x.org/b'' 200 '' home'']))) = 1"
proof -
  let ?p = "sample_fact ''1'' ''https://x.org/a'' 200 ''Home''" and ?q = "sample_fact ''2'' ''https://x.org/b'' 200 '' home''"
  have keys: "field_key title_field_rule ?p = ''home''" "field_key title_field_rule ?q = ''home''"
    "\<not> page_url_looks_paginated (pf_URL ?p)" by code_simp+
  have ids: "0 < length [?p, ?q]" "distinct (map pf_ID [?p, ?q])" "pf_ID ?p = ''1''" by (simp_all add: sample_fact_def)
  have "\<exists>j < 2. j \<noteq> 0 \<and> field_key title_field_rule ([?p, ?q] ! j) = ''home''"
    by (rule exI [of _ 1]) (simp add: keys)
  moreover have "\<exists>j < 2. field_key title_field_rule ([?p, ?q] ! j) = ''home'' \<and> \<not> page_url_looks_paginated (pf_URL ([?p, ?q] ! j))"
    by (rule exI [of _ 0]) (simp add: keys)
  ultimately show ?thesis
    using duplicate_field_issue_exact [OF ids(1,2), of title_field_rule] ids(3) by (simp add: keys numeral_2_eq_2)
qed

section \<open>Exact duplicates\<close>

text \<open>
  With a hash that is injective on the crawl's normalized contents and never empty, a page
  gets exactly one exact-duplicate issue when another page has the same non-empty normalized
  content, and none otherwise: hashing loses nothing against comparing the contents.
\<close>

theorem exact_duplicate_issue_exact:
  assumes "k < length ps" "distinct (map pf_ID ps)"
    and inj: "inj_on sha256 (normalize_duplicate_content ` set ps)" and nonempty: "\<forall>x. sha256 x \<noteq> []"
  shows "length (filter (\<lambda>i. iss_CrawlPageID i = pf_ID (ps ! k))
      (fst (derive_duplicate_content_issues (map (enrich_page_fact sha256) ps))))
    = of_bool (shares_key normalize_duplicate_content ps k)"
proof -
  let ?e = "map (enrich_page_fact sha256) ps"
  have hash: "pf_ContentSHA256 (enrich_page_fact sha256 p)
      = (if normalize_duplicate_content p = [] then [] else sha256 (normalize_duplicate_content p))" for p
    by (simp add: enrich_page_fact_def Let_def)
  have eq: "pf_ContentSHA256 (?e ! j) = pf_ContentSHA256 (?e ! k)
      \<longleftrightarrow> normalize_duplicate_content (ps ! j) = normalize_duplicate_content (ps ! k)" if "j < length ps" for j
    using inj_on_eq_iff [OF inj, of "normalize_duplicate_content (ps ! j)" "normalize_duplicate_content (ps ! k)"]
      that assms(1) nonempty nonempty [rule_format, symmetric] by (auto simp: hash)
  have key: "shares_key pf_ContentSHA256 ?e k \<longleftrightarrow> shares_key normalize_duplicate_content ps k"
    unfolding shares_key_def using eq assms(1) nonempty by (auto simp: hash)
  have "length (filter (\<lambda>i. iss_CrawlPageID i = pf_ID (?e ! k)) (fst (derive_duplicate_content_issues ?e)))
      = of_bool (shares_key pf_ContentSHA256 ?e k \<and> \<not> False)"
    unfolding derive_duplicate_content_issues_def exact_groups_def Let_def fst_conv
    by (rule grouped_issue_count)
       (use assms in \<open>auto simp: exact_issue_def seo_issue_def Let_def enrich_page_fact_def comp_def\<close>)
  moreover have "pf_ID (?e ! k) = pf_ID (ps ! k)" using assms(1) by (simp add: enrich_page_fact_def Let_def)
  ultimately show ?thesis unfolding key by simp
qed

theorem exact_duplicate_issue_exact_witness:
  "length (filter (\<lambda>i. iss_CrawlPageID i = ''1'') (fst (derive_duplicate_content_issues (map (enrich_page_fact (Cons CHR ''h''))
     [sample_fact ''1'' ''https://x.org/a'' 200 ''Home'', sample_fact ''2'' ''https://x.org/b'' 200 '' home'']))))
   = of_bool (shares_key normalize_duplicate_content
      [sample_fact ''1'' ''https://x.org/a'' 200 ''Home'', sample_fact ''2'' ''https://x.org/b'' 200 '' home''] 0)"
proof -
  let ?ps = "[sample_fact ''1'' ''https://x.org/a'' 200 ''Home'', sample_fact ''2'' ''https://x.org/b'' 200 '' home'']"
  have "0 < length ?ps" "distinct (map pf_ID ?ps)" "pf_ID (?ps ! 0) = ''1''" by (simp_all add: sample_fact_def)
  moreover have "inj_on (Cons CHR ''h'') (normalize_duplicate_content ` set ?ps)" by (rule inj_onI) simp
  moreover have "\<forall>x. CHR ''h'' # x \<noteq> []" by simp
  ultimately show ?thesis using exact_duplicate_issue_exact [of 0 ?ps "Cons CHR ''h''"] by simp
qed

section \<open>Canonical targets\<close>

lemma page_facts_by_url_in:
  "page_facts_by_url ps u = Some t \<Longrightarrow> t \<in> set ps \<and> trim_space (pf_URL t) = u"
proof -
  have "fold (\<lambda>p m. m(trim_space (pf_URL p) := Some p)) ps m u = Some t
      \<Longrightarrow> m u = Some t \<or> t \<in> set ps \<and> trim_space (pf_URL t) = u" for m
    by (induction ps arbitrary: m) (fastforce split: if_splits)+
  from this [of "\<lambda>_. None"] show "page_facts_by_url ps u = Some t \<Longrightarrow> t \<in> set ps \<and> trim_space (pf_URL t) = u"
    by (simp add: page_facts_by_url_def)
qed

lemmas type_walk = rule_walk [where P = "\<lambda>i. iss_IssueType i \<noteq> t" for t]

lemma other_rules_no_canonical_target:
  fixes t defines "t \<equiv> ''canonical_points_to_non_indexable_page''"
  shows "list_all (\<lambda>i. iss_IssueType i \<noteq> t) (title_rules p @ meta_rules p)"
    "list_all (\<lambda>i. iss_IssueType i \<noteq> t) (heading_rules p @ content_rules p)"
    "list_all (\<lambda>i. iss_IssueType i \<noteq> t) (technical_rules p @ media_rules p)"
    "list_all (\<lambda>i. iss_IssueType i \<noteq> t) (linking_rules ls p)"
  unfolding t_def title_rules_def meta_rules_def heading_rules_def content_rules_def technical_rules_def
    media_rules_def linking_rules_def Let_def
  by (intro type_walk; simp add: seo_issue_def)+

text \<open>
  A page whose canonical URL leads only to pages answering 400 or above raises no
  \<open>canonical_points_to_non_indexable_page\<close>: the rule looks its target up among the healthy
  pages alone, so its status test never holds and only a noindex target is reported.
\<close>

theorem canonical_to_broken_page_silent:
  assumes "\<forall>q \<in> set ps. trim_space (pf_URL q) = trim_space (pf_CanonicalURL p) \<longrightarrow> pf_StatusCode q \<ge> 400"
  shows "list_all (\<lambda>i. iss_IssueType i \<noteq> ''canonical_points_to_non_indexable_page'')
    (page_rules (scoreable_page_facts ps) ls p)"
proof -
  have "page_facts_by_url (scoreable_page_facts ps) (trim_space (pf_CanonicalURL p)) = None"
  proof (rule ccontr)
    assume "page_facts_by_url (scoreable_page_facts ps) (trim_space (pf_CanonicalURL p)) \<noteq> None"
    then obtain t where "t \<in> set (scoreable_page_facts ps)" "trim_space (pf_URL t) = trim_space (pf_CanonicalURL p)"
      using page_facts_by_url_in by blast
    with assms show False by (auto simp: scoreable_page_facts_def is_healthy_def)
  qed
  then have "list_all (\<lambda>i. iss_IssueType i \<noteq> ''canonical_points_to_non_indexable_page'')
      (canonical_rules (page_facts_by_url (scoreable_page_facts ps)) p)"
    by (auto simp: canonical_rules_def seo_issue_def)
  with other_rules_no_canonical_target show ?thesis by (simp add: page_rules_def)
qed

theorem canonical_to_broken_page_silent_witness:
  "list_all (\<lambda>i. iss_IssueType i \<noteq> ''canonical_points_to_non_indexable_page'')
     (page_rules (scoreable_page_facts [sample_fact ''1'' ''https://x.org/gone'' 404 []]) []
       ((sample_fact ''2'' ''https://x.org/'' 200 [])\<lparr>pf_CanonicalURL := ''https://x.org/gone''\<rparr>))"
proof -
  have "\<forall>q \<in> set [sample_fact ''1'' ''https://x.org/gone'' 404 []]. pf_StatusCode q \<ge> 400" by (simp add: sample_fact_def)
  then show ?thesis by (intro canonical_to_broken_page_silent) blast
qed

section \<open>Link targets\<close>

text \<open>The statuses recorded for a key, in row order.\<close>

definition codes_of :: "status_row list \<Rightarrow> string \<Rightarrow> int list" where
  "codes_of rows k = List.map_filter (\<lambda>r. if sr_UrlKey r = Some k then sr_StatusCode r else None) rows"

definition least_code :: "int list \<Rightarrow> int option" where
  "least_code cs = (if cs = [] then None else Some (Min (set cs)))"

lemma least_code_snoc: "least_code (cs @ [c]) = Some (case least_code cs of None \<Rightarrow> c | Some m \<Rightarrow> min c m)"
proof (cases cs)
  case (Cons d ds)
  then have "Min (insert c (set cs)) = min c (Min (set cs))" by (intro Min_insert) auto
  with Cons show ?thesis by (simp add: least_code_def insert_commute)
qed (simp add: least_code_def)

lemma codes_of_snoc:
  "codes_of (rows @ [r]) k = codes_of rows k @ (if sr_UrlKey r = Some k then case sr_StatusCode r of None \<Rightarrow> [] | Some c \<Rightarrow> [c] else [])"
  by (auto simp: codes_of_def map_filter_def split: option.splits)

text \<open>
  The status of a link destination is the smallest status any row stores for its key, and
  unknown when no row has both; so the order of the rows never matters.
\<close>

theorem link_destination_statuses_minimum:
  "link_destination_statuses rows k = least_code (codes_of rows k)"
proof (induction rows rule: rev_induct)
  case (snoc r rows)
  let ?m = "link_destination_statuses rows"
  have "link_destination_statuses (rows @ [r]) k = add_destination_status r ?m k"
    by (simp add: link_destination_statuses_def)
  also have "\<dots> = (case (sr_UrlKey r, sr_StatusCode r) of
      (Some key, Some c) \<Rightarrow> if key = k then Some (case ?m k of None \<Rightarrow> c | Some m \<Rightarrow> min c m) else ?m k
    | _ \<Rightarrow> ?m k)"
    by (auto simp: add_destination_status_def min_def split: option.splits)
  finally show ?case
    using snoc.IH by (auto simp: codes_of_snoc least_code_snoc split: option.splits)
qed (simp add: link_destination_statuses_def codes_of_def least_code_def map_filter_def)

section \<open>Author signals\<close>

lemma list_ex_if: "list_ex P (if c then xs else ys) = (if c then list_ex P xs else list_ex P ys)"
  by simp

lemma has_author_signal_iff:
  "has_author_signal p \<longleftrightarrow> \<not> (trim_space (pf_Author p) = [] \<and> list_all (\<lambda>a. trim_space a = []) (og_authors p))"
  by (simp add: has_author_signal_def list_ex_iff list_all_iff)

lemma aeo_issue_type: "iss_IssueType (aeo_issue p b t s m d) = t"
  by (simp add: aeo_issue_def)

text \<open>
  An article-like page is reported without an author signal exactly when its author field and
  the two Open Graph author tags are blank; an author in its structured data changes nothing,
  although the issue says that metadata and structured data were looked at.
\<close>

theorem missing_author_ignores_structured_data:
  "list_ex (\<lambda>i. iss_IssueType i = ''missing_author_signal'') (author_rules p)
     \<longleftrightarrow> is_article_like_page p \<and> trim_space (pf_Author p) = [] \<and> list_all (\<lambda>a. trim_space a = []) (og_authors p)"
  unfolding author_rules_def Let_def has_author_signal_iff list_ex_append list_ex_if
  by (simp add: aeo_issue_type)

end
