(* ===== verification/GapHops.thy ===== *)
theory GapHops
  imports AeoDerive
begin

text \<open>
  \<open>internal/competitorgaps/hops.go\<close>: the key under which a page takes part in the link graph,
  and the distance of every crawled page from the homepage by breadth-first search.
\<close>

section \<open>Pages and links\<close>

record graph_page =
  gp_URL :: string
  gp_StatusCode :: int
  gp_ContentType :: string
  gp_Soft404 :: bool
  gp_FetchError :: string
  gp_Title :: string
  gp_MetaDescription :: string
  gp_H1 :: string
  gp_Canonical :: string
  gp_OGTags :: string
  gp_JSONLD :: string
  gp_WordCount :: int

record graph_link =
  gl_SourceURL :: string
  gl_TargetURL :: string

definition trim_suffix :: "string \<Rightarrow> string \<Rightarrow> string" where
  "trim_suffix s p = (if has_suffix s p then take (length s - length p) s else s)"

definition normalize_graph_url :: "string \<Rightarrow> string" where
  "normalize_graph_url raw =
     (case url_parse raw of
        Inl _ \<Rightarrow> trim_suffix (fst (cut raw (CHR ''#''))) ''/''
      | Inr parsed \<Rightarrow>
          url_string (parsed\<lparr>Fragment := [], Scheme := to_lower (Scheme parsed),
            Host := to_lower (Host parsed), Path := trim_suffix (Path parsed) ''/''\<rparr>))"

definition graph_path_segments :: "string \<Rightarrow> nat" where
  "graph_path_segments pageURL =
     (let withoutProtocol = trim_prefix (trim_prefix pageURL ''https://'') ''http://'';
          (_, rest, found) = cut withoutProtocol (CHR ''/'')
      in if \<not> found then 0
         else (let trimmedPath = trim_slashes rest in
               if trimmedPath = [] then 0 else length (split_on (CHR ''/'') trimmedPath)))"

definition graph_page_looks_like_homepage :: "string \<Rightarrow> bool" where
  "graph_page_looks_like_homepage pageURL = (graph_path_segments (trim_space (to_lower pageURL)) = 0)"

definition page_key :: "graph_page \<Rightarrow> string" where
  "page_key p = normalize_graph_url (gp_URL p)"

definition homepage_root_key :: "graph_page list \<Rightarrow> string \<Rightarrow> string option" where
  "homepage_root_key pages seedURL =
     (case List.find (\<lambda>p. graph_page_looks_like_homepage (gp_URL p)) pages of
        Some p \<Rightarrow> Some (page_key p)
      | None \<Rightarrow>
          if trim_space seedURL = [] then None
          else (let want = normalize_graph_url seedURL in
                if list_ex (\<lambda>p. page_key p = want) pages then Some want else None))"

section \<open>Breadth-first search\<close>

text \<open>The adjacency map as its edges in the order they were appended.\<close>

definition graph_edges :: "graph_page list \<Rightarrow> graph_link list \<Rightarrow> (string \<times> string) list" where
  "graph_edges pages links =
     (let nodes = map page_key pages in
      filter (\<lambda>(s, t). s \<in> set nodes \<and> t \<in> set nodes \<and> s \<noteq> t)
        (map (\<lambda>l. (normalize_graph_url (gl_SourceURL l), normalize_graph_url (gl_TargetURL l))) links))"

definition adjacent :: "(string \<times> string) list \<Rightarrow> string \<Rightarrow> string list" where
  "adjacent edges current = map snd (filter (\<lambda>e. fst e = current) edges)"

definition discover :: "nat \<Rightarrow> string \<Rightarrow> (string \<Rightarrow> nat option) \<times> string list \<Rightarrow> (string \<Rightarrow> nat option) \<times> string list" where
  "discover d v = (\<lambda>(hops, queue). if hops v \<noteq> None then (hops, queue) else (hops(v \<mapsto> d + 1), queue @ [v]))"

definition hop_or_zero :: "(string \<Rightarrow> nat option) \<Rightarrow> string \<Rightarrow> nat" where
  "hop_or_zero hops v = (case hops v of None \<Rightarrow> 0 | Some d \<Rightarrow> d)"

lemma discover_pair:
  "discover d v (hops, queue) = (if hops v \<noteq> None then (hops, queue) else (hops(v \<mapsto> d + 1), queue @ [v]))"
  by (simp add: discover_def)

lemma fold_discover:
  "fold (discover d) vs (h, q) = (h', q') \<Longrightarrow>
     \<exists>new. q' = q @ new \<and> distinct new \<and> set new = set vs - dom h \<and> h' = (\<lambda>v. if v \<in> set new then Some (d + 1) else h v)"
proof (induction vs arbitrary: h q)
  case (Cons v vs)
  show ?case
  proof (cases "h v = None")
    case False
    with Cons.prems have "fold (discover d) vs (h, q) = (h', q')" by (simp add: discover_pair del: not_None_eq)
    from Cons.IH [OF this] False show ?thesis by auto
  next
    case True
    with Cons.prems have "fold (discover d) vs (h(v \<mapsto> d + 1), q @ [v]) = (h', q')" by (simp add: discover_pair)
    from Cons.IH [OF this] obtain new where "q' = (q @ [v]) @ new" "distinct new" "set new = set vs - dom (h(v \<mapsto> d + 1))"
      "h' = (\<lambda>u. if u \<in> set new then Some (d + 1) else (h(v \<mapsto> d + 1)) u)" by blast
    with True show ?thesis by (intro exI [of _ "v # new"]) (auto simp: fun_eq_iff)
  qed
qed simp

function bfs :: "(string \<times> string) list \<Rightarrow> (string \<Rightarrow> nat option) \<Rightarrow> string list \<Rightarrow> string \<Rightarrow> nat option" where
  "bfs edges hops [] = hops"
| "bfs edges hops (current # queue) =
     (let (hops', queue') = fold (discover (hop_or_zero hops current)) (adjacent edges current) (hops, queue)
      in bfs edges hops' queue')"
  by pat_completeness auto

text \<open>A node enters the queue only when it leaves the set of nodes without a distance.\<close>

termination
proof (relation "measure (\<lambda>(edges, hops, queue). card (snd ` set edges - dom hops) + length queue)")
  fix edges :: "(string \<times> string) list" and hops :: "string \<Rightarrow> nat option" and current :: string
    and queue x hops' queue'
  assume x: "x = fold (discover (hop_or_zero hops current)) (adjacent edges current) (hops, queue)" "(hops', queue') = x"
  then obtain new where n: "queue' = queue @ new" "distinct new" "set new = set (adjacent edges current) - dom hops"
    "hops' = (\<lambda>v. if v \<in> set new then Some (hop_or_zero hops current + 1) else hops v)"
    using fold_discover [of "hop_or_zero hops current" "adjacent edges current" hops queue hops' queue'] by auto
  let ?T = "snd ` set edges"
  have sub: "set new \<subseteq> ?T - dom hops" using n(3) by (auto simp: adjacent_def)
  have "?T - dom hops' = (?T - dom hops) - set new" using n(4) by (auto split: if_splits)
  then have "card (?T - dom hops') = card (?T - dom hops) - length new"
    using sub n(2) by (simp add: card_Diff_subset distinct_card)
  moreover have "length new \<le> card (?T - dom hops)"
    using card_mono [OF _ sub] n(2) by (simp add: distinct_card)
  ultimately show "((edges, hops', queue'), edges, hops, current # queue)
      \<in> measure (\<lambda>(edges, hops, queue). card (snd ` set edges - dom hops) + length queue)"
    using n(1) by simp
qed simp

definition hops_from_home :: "graph_page list \<Rightarrow> graph_link list \<Rightarrow> string \<Rightarrow> string \<Rightarrow> nat option" where
  "hops_from_home pages links seedURL =
     (case homepage_root_key pages seedURL of
        None \<Rightarrow> (\<lambda>_. None)
      | Some home \<Rightarrow>
          if home \<notin> set (map page_key pages) then (\<lambda>_. None)
          else bfs (graph_edges pages links) [home \<mapsto> 0] [home])"

section \<open>Distances\<close>

text \<open>The reference: \<open>walk edges u n v\<close> when a path of \<open>n\<close> links leads from \<open>u\<close> to \<open>v\<close>.\<close>

inductive walk :: "(string \<times> string) list \<Rightarrow> string \<Rightarrow> nat \<Rightarrow> string \<Rightarrow> bool" for edges u where
  walk_start: "walk edges u 0 u"
| walk_link: "walk edges u n v \<Longrightarrow> (v, w) \<in> set edges \<Longrightarrow> walk edges u (Suc n) w"

definition shortest :: "(string \<times> string) list \<Rightarrow> string \<Rightarrow> string \<Rightarrow> nat \<Rightarrow> bool" where
  "shortest edges u v n = (walk edges u n v \<and> (\<forall>m. walk edges u m v \<longrightarrow> n \<le> m))"

lemma adjacent_iff: "w \<in> set (adjacent edges v) \<longleftrightarrow> (v, w) \<in> set edges"
  by (force simp: adjacent_def)

text \<open>
  The invariant of the search: distances are lengths of walks, the queue is sorted by distance and
  no distance exceeds its head by more than one, and a node that left the queue has all its links
  explored.
\<close>

definition bfs_inv :: "(string \<times> string) list \<Rightarrow> string \<Rightarrow> (string \<Rightarrow> nat option) \<Rightarrow> string list \<Rightarrow> bool" where
  "bfs_inv edges home hops queue =
     (hops home = Some 0
      \<and> (\<forall>v d. hops v = Some d \<longrightarrow> walk edges home d v)
      \<and> set queue \<subseteq> dom hops
      \<and> sorted (map (hop_or_zero hops) queue)
      \<and> (\<forall>v d. hops v = Some d \<longrightarrow> queue \<noteq> [] \<longrightarrow> d \<le> hop_or_zero hops (hd queue) + 1)
      \<and> (\<forall>v d w. hops v = Some d \<longrightarrow> v \<notin> set queue \<longrightarrow> (v, w) \<in> set edges \<longrightarrow> (\<exists>e. hops w = Some e \<and> e \<le> d + 1)))"

lemma bfs_inv_start: "bfs_inv edges home [home \<mapsto> 0] [home]"
  by (auto simp: bfs_inv_def hop_or_zero_def intro: walk_start)

lemma bfs_inv_step:
  assumes I: "bfs_inv edges home hops (current # queue)"
    and f: "fold (discover (hop_or_zero hops current)) (adjacent edges current) (hops, queue) = (hops', queue')"
  shows "bfs_inv edges home hops' queue'"
proof -
  let ?d = "hop_or_zero hops current"
  obtain new where n: "queue' = queue @ new" "set new = set (adjacent edges current) - dom hops"
    "hops' = (\<lambda>v. if v \<in> set new then Some (?d + 1) else hops v)"
    using fold_discover [OF f] by blast
  have cur: "hops current = Some ?d" using I by (force simp: bfs_inv_def hop_or_zero_def split: option.splits)
  have I1: "hops home = Some 0" "hops v = Some d \<Longrightarrow> walk edges home d v" "set queue \<subseteq> dom hops"
    "sorted (map (hop_or_zero hops) (current # queue))" "hops v = Some d \<Longrightarrow> d \<le> ?d + 1"
    "hops v = Some d \<Longrightarrow> v \<notin> set (current # queue) \<Longrightarrow> (v, w) \<in> set edges \<Longrightarrow> \<exists>e. hops w = Some e \<and> e \<le> d + 1" for v d w
    using I by (auto simp: bfs_inv_def)
  have old: "hop_or_zero hops' v = hop_or_zero hops v" if "v \<in> dom hops" for v
    using that n(2,3) by (auto simp: hop_or_zero_def)
  have fresh: "hop_or_zero hops' v = ?d + 1" if "v \<in> set new" for v
    using that n(3) by (simp add: hop_or_zero_def)
  have le: "?d \<le> hop_or_zero hops v \<and> hop_or_zero hops v \<le> ?d + 1" if "v \<in> set queue" for v
    using that I1(3,4) I1(5) [of v] by (force simp: hop_or_zero_def)
  have q: "map (hop_or_zero hops') queue' = map (hop_or_zero hops) queue @ replicate (length new) (?d + 1)"
  proof -
    have "map (hop_or_zero hops') queue = map (hop_or_zero hops) queue" by (intro map_cong refl) (rule old, use I1(3) in blast)
    moreover have "map (hop_or_zero hops') new = replicate (length new) (?d + 1)"
      using fresh by (intro replicate_eqI) auto
    ultimately show ?thesis by (simp add: n(1))
  qed
  have "sorted (map (hop_or_zero hops') queue')"
    unfolding q using I1(4) le by (auto simp: sorted_append)
  moreover have "d \<le> hop_or_zero hops' (hd queue') + 1" if "hops' v = Some d" "queue' \<noteq> []" for v d
  proof -
    have "d \<le> ?d + 1" using that(1) I1(5) by (auto simp: n(3) split: if_splits)
    moreover have "?d \<le> hop_or_zero hops' (hd queue')"
      using that(2) le old fresh I1(3) by (cases queue) (auto simp: n(1) neq_Nil_conv)
    ultimately show ?thesis by simp
  qed
  moreover have "walk edges home d v" if "hops' v = Some d" for v d
    using that I1(2) cur walk_link [OF I1(2) [OF cur]]
    by (auto simp: n(2,3) adjacent_iff split: if_splits)
  moreover have "\<exists>e. hops' w = Some e \<and> e \<le> d + 1"
    if v: "hops' v = Some d" "v \<notin> set queue'" "(v, w) \<in> set edges" for v d w
  proof (cases "v = current")
    case True
    then have "d = ?d" using v(1) cur n(2,3) by (auto split: if_splits)
    moreover have "w \<in> set (adjacent edges current)" using True v(3) by (simp add: adjacent_iff)
    ultimately show ?thesis using I1(5) [of w] by (cases "hops w") (auto simp: n(2,3))
  next
    case False
    with v have "hops v = Some d" "v \<notin> set (current # queue)" by (auto simp: n(1,3) split: if_splits)
    from I1(6) [OF this v(3)] show ?thesis by (auto simp: n(2,3))
  qed
  ultimately show ?thesis
    using I1(1,3) n(2) by (auto simp: bfs_inv_def n(1,3))
qed

lemma bfs_distances:
  "bfs_inv edges home hops queue \<Longrightarrow> bfs edges hops queue v = Some d \<longleftrightarrow> shortest edges home v d"
proof (induction edges hops queue rule: bfs.induct)
  case (1 edges hops)
  then have I: "hops home = Some 0" "\<And>v d. hops v = Some d \<Longrightarrow> walk edges home d v"
    "\<And>v d w. hops v = Some d \<Longrightarrow> (v, w) \<in> set edges \<Longrightarrow> \<exists>e. hops w = Some e \<and> e \<le> d + 1"
    by (auto simp: bfs_inv_def)
  have least: "walk edges home n v \<Longrightarrow> \<exists>d. hops v = Some d \<and> d \<le> n" for n v
  proof (induction rule: walk.induct)
    case (walk_link n v w)
    then show ?case using I(3) by fastforce
  qed (simp add: I(1))
  show ?case
  proof
    assume "bfs edges hops [] v = Some d"
    with I(2) [of v d] least [of _ v] show "shortest edges home v d" by (auto simp: shortest_def)
  next
    assume s: "shortest edges home v d"
    then obtain e where "hops v = Some e" "e \<le> d" using least [of d v] by (auto simp: shortest_def)
    with s I(2) [of v e] show "bfs edges hops [] v = Some d" by (auto simp: shortest_def)
  qed
next
  case (2 edges hops current queue)
  obtain hops' queue' where f: "fold (discover (hop_or_zero hops current)) (adjacent edges current) (hops, queue) = (hops', queue')"
    by (cases "fold (discover (hop_or_zero hops current)) (adjacent edges current) (hops, queue)")
  with "2.IH" [OF f [symmetric] refl bfs_inv_step [OF "2.prems" f]] show ?case by simp
qed

lemma hops_from_home_distance:
  assumes "homepage_root_key pages seedURL = Some home"
  shows "hops_from_home pages links seedURL v = Some d \<longleftrightarrow> shortest (graph_edges pages links) home v d"
proof -
  have "home \<in> set (map page_key pages)"
    using assms
    by (auto simp: homepage_root_key_def find_Some_iff list_ex_iff Let_def split: option.splits if_splits
        intro: rev_image_eqI)
  then have "hops_from_home pages links seedURL = bfs (graph_edges pages links) [home \<mapsto> 0] [home]"
    by (simp add: hops_from_home_def assms)
  then show ?thesis using bfs_distances [OF bfs_inv_start] by simp
qed

lemma hop_is_walk:
  "homepage_root_key pages seedURL = Some home \<Longrightarrow> hops_from_home pages links seedURL v = Some d
     \<Longrightarrow> walk (graph_edges pages links) home d v"
  by (simp add: hops_from_home_distance shortest_def)

text \<open>
  C34: the hops of a page are the length of a shortest path of internal links from the homepage,
  and a page has no hops exactly when no path leads to it.
\<close>

theorem hops_from_home_shortest:
  assumes "homepage_root_key pages seedURL = Some home"
  shows "(hops_from_home pages links seedURL v = Some d \<longleftrightarrow> shortest (graph_edges pages links) home v d)
    \<and> (hops_from_home pages links seedURL v = None \<longleftrightarrow> (\<nexists>n. walk (graph_edges pages links) home n v))"
proof
  show "hops_from_home pages links seedURL v = Some d \<longleftrightarrow> shortest (graph_edges pages links) home v d"
    by (rule hops_from_home_distance [OF assms])
  have "\<exists>d. shortest (graph_edges pages links) home v d" if "walk (graph_edges pages links) home n v" for n
    using that exists_least_iff [of "\<lambda>n. walk (graph_edges pages links) home n v"]
    by (metis not_less shortest_def)
  then show "hops_from_home pages links seedURL v = None \<longleftrightarrow> (\<nexists>n. walk (graph_edges pages links) home n v)"
    using hops_from_home_distance [OF assms] hop_is_walk [OF assms]
    by (metis not_None_eq)
qed

definition sample_graph_page :: "string \<Rightarrow> graph_page" where
  "sample_graph_page u = \<lparr>gp_URL = u, gp_StatusCode = 200, gp_ContentType = ''text/html'', gp_Soft404 = False,
     gp_FetchError = [], gp_Title = [], gp_MetaDescription = [], gp_H1 = [], gp_Canonical = [], gp_OGTags = [],
     gp_JSONLD = [], gp_WordCount = 0\<rparr>"

definition sample_links :: "graph_link list" where
  "sample_links = [\<lparr>gl_SourceURL = ''https://x.org/'', gl_TargetURL = ''https://x.org/a#top''\<rparr>,
     \<lparr>gl_SourceURL = ''https://x.org/a/'', gl_TargetURL = ''https://x.org/b''\<rparr>]"

theorem hops_from_home_shortest_witness:
  "shortest (graph_edges [sample_graph_page ''https://x.org/'', sample_graph_page ''https://x.org/a'',
       sample_graph_page ''https://x.org/b''] sample_links) ''https://x.org'' ''https://x.org/b'' 2"
proof -
  let ?ps = "[sample_graph_page ''https://x.org/'', sample_graph_page ''https://x.org/a'', sample_graph_page ''https://x.org/b'']"
  have "homepage_root_key ?ps [] = Some ''https://x.org''" by code_simp
  moreover have "hops_from_home ?ps sample_links [] ''https://x.org/b'' = Some 2" by code_simp
  ultimately show ?thesis using hops_from_home_shortest [of ?ps "[]"] by blast
qed

end
