(* ===== verification/GapReport.thy ===== *)
theory GapReport
  imports GapHops ScoreConfig PageHealth
begin

text \<open>
  The comparison of a crawl with a competitor's (\<open>internal/competitorgaps\<close>: \<open>snapshot.go\<close>,
  \<open>coverage.go\<close>, \<open>signals.go\<close>, \<open>score.go\<close>, \<open>build.go\<close>). The decoded PageSpeed results of a
  crawl are parameters; a map the code iterates is an association list in some order.
\<close>

section \<open>Snapshots\<close>

record page_issue =
  pi_URL :: string
  pi_Pillar :: string
  pi_Bucket :: string
  pi_IssueType :: string
  pi_Severity :: string

record crawl_snapshot =
  cs_ID :: string
  cs_SeedURL :: string
  cs_HasLlmsTxt :: "bool option"
  cs_PSIResults :: string
  cs_Pages :: "graph_page list"
  cs_Links :: "graph_link list"
  cs_Issues :: "page_issue list"

definition page_signal_of :: "graph_page \<Rightarrow> crawl_page_signal" where
  "page_signal_of p = \<lparr>cps_URL = gp_URL p, cps_StatusCode = gp_StatusCode p, cps_ContentType = gp_ContentType p,
     cps_Soft404 = gp_Soft404 p, cps_FetchError = gp_FetchError p\<rparr>"

definition page_is_scoreable :: "graph_page \<Rightarrow> bool" where
  "page_is_scoreable p = is_scoreable_page (page_signal_of p)"

definition all_scoreable_pages :: "graph_page list \<Rightarrow> graph_page list" where
  "all_scoreable_pages pages = filter page_is_scoreable pages"

definition issue_key :: "page_issue \<Rightarrow> string" where
  "issue_key i = normalize_graph_url (pi_URL i)"

section \<open>Coverage\<close>

definition counts_toward_spread :: "page_issue \<Rightarrow> bool" where
  "counts_toward_spread i =
     (if pi_Bucket i = ''internal_linking'' then False else is_page_addressable_issue (pi_IssueType i))"

definition issue_counts_for_bucket :: "page_issue \<Rightarrow> string \<Rightarrow> bool" where
  "issue_counts_for_bucket i bucketID =
     (if \<not> counts_toward_spread i then False
      else if bucketID = ''aeo'' then pi_Pillar i = ''aeo''
      else pi_Pillar i = ''seo'' \<and> pi_Bucket i = bucketID)"

definition coverage_percent :: "nat \<Rightarrow> nat \<Rightarrow> int" where
  "coverage_percent affected total_pages =
     (if total_pages \<le> 0 then 0
      else (let percent = go_round (fdiv (fmul 100 (fl64 (of_nat affected))) (fl64 (of_nat total_pages))) in
            if percent < 0 then 0 else if percent > 100 then 100 else percent))"

definition bucket_coverage_percent :: "graph_page list \<Rightarrow> page_issue list \<Rightarrow> string \<Rightarrow> int" where
  "bucket_coverage_percent pageSlice issues bucketID =
     (if pageSlice = [] then 0
      else (let affectedKeys = map issue_key (filter (\<lambda>i. issue_counts_for_bucket i bucketID) issues)
            in coverage_percent (length (filter (\<lambda>p. page_key p \<in> set affectedKeys) pageSlice)) (length pageSlice)))"

record issue_row =
  ir_ID :: string
  ir_Label :: string
  ir_You :: int
  ir_Them :: int

definition issue_rows_spec :: "(string \<times> string) list" where
  "issue_rows_spec =
     [(''serp_metadata'', ''SERP metadata''), (''content_structure'', ''Content structure''),
      (''content_quality'', ''Content quality''), (''indexability'', ''Indexability''),
      (''technical_seo'', ''Technical SEO''), (''media_optimization'', ''Media optimization''),
      (''aeo'', ''AEO'')]"

definition issue_coverage_rows ::
    "graph_page list \<Rightarrow> graph_page list \<Rightarrow> page_issue list \<Rightarrow> page_issue list \<Rightarrow> issue_row list" where
  "issue_coverage_rows youSlice themSlice youIssues themIssues =
     map (\<lambda>(i, l). \<lparr>ir_ID = i, ir_Label = l, ir_You = bucket_coverage_percent youSlice youIssues i,
        ir_Them = bucket_coverage_percent themSlice themIssues i\<rparr>) issue_rows_spec"

section \<open>Spread per issue type\<close>

record spread_row =
  sp_ID :: string
  sp_Label :: string
  sp_Pillar :: string
  sp_You :: float64
  sp_Them :: float64

text \<open>One entry per issue type: its pillar, from its first issue, and the keys of its pages.\<close>

fun add_spread_issue :: "page_issue \<Rightarrow> (string \<times> string \<times> string list) list \<Rightarrow> (string \<times> string \<times> string list) list" where
  "add_spread_issue i [] = [(pi_IssueType i, pi_Pillar i, [issue_key i])]"
| "add_spread_issue i ((t, pillar, keys) # entries) =
     (if t = pi_IssueType i
      then (t, pillar, if issue_key i \<in> set keys then keys else keys @ [issue_key i]) # entries
      else (t, pillar, keys) # add_spread_issue i entries)"

definition spread_pages_by_type :: "graph_page list \<Rightarrow> page_issue list \<Rightarrow> (string \<times> string \<times> string list) list" where
  "spread_pages_by_type pageSlice issues =
     (let sliceKeys = map page_key pageSlice in
      fold add_spread_issue (filter (\<lambda>i. counts_toward_spread i \<and> issue_key i \<in> set sliceKeys) issues) [])"

definition pages_of_type :: "(string \<times> string \<times> string list) list \<Rightarrow> string \<Rightarrow> string list" where
  "pages_of_type entries t = (case map_of entries t of None \<Rightarrow> [] | Some (_, keys) \<Rightarrow> keys)"

definition spread_percent :: "nat \<Rightarrow> nat \<Rightarrow> float64" where
  "spread_percent affected total_pages =
     (if total_pages \<le> 0 then 0 else fdiv (fmul 100 (fl64 (of_nat affected))) (fl64 (of_nat total_pages)))"

definition spread_gap :: "spread_row \<Rightarrow> float64" where
  "spread_gap r = \<bar>fsub (sp_You r) (sp_Them r)\<bar>"

definition spread_before :: "spread_row \<Rightarrow> spread_row \<Rightarrow> bool" where
  "spread_before r s = (if spread_gap r \<noteq> spread_gap s then spread_gap r > spread_gap s
     else str_less (sp_Label r) (sp_Label s))"

definition spread_types :: "(string \<times> string \<times> string list) list \<Rightarrow> (string \<times> string \<times> string list) list \<Rightarrow> (string \<times> string) list" where
  "spread_types you them =
     map (\<lambda>(t, p, _). (t, p)) you
     @ filter (\<lambda>(t, _). map_of you t = None) (map (\<lambda>(t, p, _). (t, p)) them)"

definition spread_rows ::
    "graph_page list \<Rightarrow> graph_page list \<Rightarrow> page_issue list \<Rightarrow> page_issue list \<Rightarrow> spread_row list" where
  "spread_rows youSlice themSlice youIssues themIssues =
     (let you = spread_pages_by_type youSlice youIssues;
          them = spread_pages_by_type themSlice themIssues;
          rows = map (\<lambda>(t, p). \<lparr>sp_ID = t, sp_Label = humanize_identifier t, sp_Pillar = p,
              sp_You = spread_percent (length (pages_of_type you t)) (length youSlice),
              sp_Them = spread_percent (length (pages_of_type them t)) (length themSlice)\<rparr>)
            (spread_types you them)
      in sort_by spread_before (filter (\<lambda>r. \<not> (sp_You r = 0 \<and> sp_Them r = 0)) rows))"

section \<open>Page health\<close>

record page_health_side =
  hs_Buckets :: "nat list"
  hs_TotalPages :: nat

definition page_health_buckets :: nat where "page_health_buckets = 21"

definition count_issue :: "page_issue \<Rightarrow> (string \<Rightarrow> nat) \<Rightarrow> (string \<Rightarrow> nat)" where
  "count_issue i counts = counts(issue_key i := counts (issue_key i) + 1)"

definition count_by_page :: "page_issue list \<Rightarrow> string \<Rightarrow> nat" where
  "count_by_page issues = fold count_issue (filter counts_toward_spread issues) (\<lambda>_. 0)"

definition health_bucket_of :: "page_issue list \<Rightarrow> graph_page \<Rightarrow> nat" where
  "health_bucket_of issues p =
     (let count = count_by_page issues (page_key p) in
      if count \<ge> page_health_buckets then page_health_buckets - 1 else count)"

definition bump :: "nat \<Rightarrow> nat list \<Rightarrow> nat list" where
  "bump i xs = xs[i := xs ! i + 1]"

definition page_health_side_of :: "graph_page list \<Rightarrow> page_issue list \<Rightarrow> page_health_side" where
  "page_health_side_of pageSlice issues =
     (if pageSlice = [] then \<lparr>hs_Buckets = replicate page_health_buckets 0, hs_TotalPages = 0\<rparr>
      else \<lparr>hs_Buckets = fold (\<lambda>p. bump (health_bucket_of issues p)) pageSlice (replicate page_health_buckets 0),
            hs_TotalPages = length pageSlice\<rparr>)"

section \<open>Presence, content and homepage\<close>

record presence_row =
  pr_ID :: string
  pr_Label :: string
  pr_You :: bool
  pr_Them :: bool

definition presence_rows_spec :: "(string \<times> string \<times> string) list" where
  "presence_rows_spec =
     [(''about'', ''About'', ''missing_about_page''), (''contact'', ''Contact'', ''missing_contact_page''),
      (''policy'', ''Policy'', ''missing_policy_page''), (''llms_txt'', ''llms.txt'', ''missing_llms_txt''),
      (''organization_schema'', ''Organization schema'', ''missing_org_identity_schema''),
      (''website_schema'', ''Website schema'', ''missing_website_schema''),
      (''homepage_trust'', ''Homepage trust'', ''homepage_missing_org_contact_trust_signals'')]"

definition has_issue_type :: "page_issue list \<Rightarrow> string \<Rightarrow> bool" where
  "has_issue_type issues t = list_ex (\<lambda>i. pi_IssueType i = t) issues"

definition presence_value :: "string \<Rightarrow> string \<Rightarrow> page_issue list \<Rightarrow> bool option \<Rightarrow> bool" where
  "presence_value rowID missingType issues hasLlms =
     (if rowID = ''llms_txt'' then
        (case hasLlms of Some b \<Rightarrow> b | None \<Rightarrow> \<not> has_issue_type issues missingType)
      else \<not> has_issue_type issues missingType)"

definition presence_rows ::
    "page_issue list \<Rightarrow> page_issue list \<Rightarrow> bool option \<Rightarrow> bool option \<Rightarrow> presence_row list" where
  "presence_rows youIssues themIssues youLlms themLlms =
     map (\<lambda>(i, l, m). \<lparr>pr_ID = i, pr_Label = l, pr_You = presence_value i m youIssues youLlms,
        pr_Them = presence_value i m themIssues themLlms\<rparr>) presence_rows_spec"

record content_signals =
  MedianWordCount :: "int option"
  PagesWithH1 :: int
  PagesWithMeta :: int

definition median_int :: "int list \<Rightarrow> int option" where
  "median_int values =
     (if values = [] then None
      else (let sorted_values = sort values; n = length sorted_values in
            if n mod 2 = 1 then Some (sorted_values ! (n div 2))
            else Some (go_round (fdiv (fl64 (of_int (sorted_values ! (n div 2 - 1) + sorted_values ! (n div 2)))) 2))))"

definition content_signals_of :: "graph_page list \<Rightarrow> content_signals" where
  "content_signals_of pageSlice =
     (if pageSlice = [] then \<lparr>MedianWordCount = None, PagesWithH1 = 0, PagesWithMeta = 0\<rparr>
      else \<lparr>MedianWordCount = median_int (map gp_WordCount pageSlice),
            PagesWithH1 = coverage_percent (length (filter (\<lambda>p. trim_space (gp_H1 p) \<noteq> []) pageSlice)) (length pageSlice),
            PagesWithMeta = coverage_percent (length (filter (\<lambda>p. trim_space (gp_MetaDescription p) \<noteq> []) pageSlice))
              (length pageSlice)\<rparr>)"

record homepage_signals =
  hp_URL :: string
  hp_Title :: bool
  hp_Meta :: bool
  hp_H1 :: bool
  hp_Canonical :: bool
  hp_OG :: bool
  hp_JSONLD :: bool
  hp_WordCount :: int

definition graph_has_meaningful_og_tags :: "string \<Rightarrow> bool" where
  "graph_has_meaningful_og_tags og = (trim_space og \<notin> set [[], ''null'', ''{}''])"

definition graph_has_meaningful_json_ld :: "string \<Rightarrow> bool" where
  "graph_has_meaningful_json_ld jsonLD = (trim_space jsonLD \<notin> set [[], ''null'', ''[]''])"

definition homepage_signals_of :: "graph_page list \<Rightarrow> homepage_signals" where
  "homepage_signals_of pages =
     (case List.find (\<lambda>p. graph_page_looks_like_homepage (gp_URL p)) pages of
        None \<Rightarrow> \<lparr>hp_URL = [], hp_Title = False, hp_Meta = False, hp_H1 = False, hp_Canonical = False,
                 hp_OG = False, hp_JSONLD = False, hp_WordCount = 0\<rparr>
      | Some p \<Rightarrow> \<lparr>hp_URL = gp_URL p, hp_Title = (trim_space (gp_Title p) \<noteq> []),
                   hp_Meta = (trim_space (gp_MetaDescription p) \<noteq> []), hp_H1 = (trim_space (gp_H1 p) \<noteq> []),
                   hp_Canonical = (trim_space (gp_Canonical p) \<noteq> []), hp_OG = graph_has_meaningful_og_tags (gp_OGTags p),
                   hp_JSONLD = graph_has_meaningful_json_ld (gp_JSONLD p), hp_WordCount = gp_WordCount p\<rparr>)"

section \<open>Scores of a slice\<close>

definition issue_to_signal :: "page_issue \<Rightarrow> crawl_issue_signal" where
  "issue_to_signal i = \<lparr>sig_URL = pi_URL i, sig_Pillar = pi_Pillar i, sig_Bucket = pi_Bucket i,
     sig_Severity = pi_Severity i, sig_IssueType = pi_IssueType i, sig_Message = [], sig_Details = []\<rparr>"

definition ratio_derived_sitewide_issue_types :: "string list" where
  "ratio_derived_sitewide_issue_types = [''weak_open_graph_coverage'']"

definition slice_issue_signals :: "page_issue list \<Rightarrow> string list \<Rightarrow> crawl_issue_signal list" where
  "slice_issue_signals issues sliceKeys =
     map issue_to_signal (filter (\<lambda>i.
       if pi_IssueType i \<in> set ratio_derived_sitewide_issue_types then False
       else if is_sitewide_issue (pi_IssueType i) \<or> is_google_psi_origin_issue (pi_IssueType i) then True
       else issue_key i \<in> set sliceKeys) issues)"

definition score_slice ::
    "go_env \<Rightarrow> string \<Rightarrow> graph_page list \<Rightarrow> page_issue list \<Rightarrow> psi_input \<Rightarrow> scoring_config \<Rightarrow> score_breakdown_snapshot" where
  "score_slice env crawlID pageSlice issues psi cfg =
     build_score_breakdown_with_config env crawlID (map page_signal_of pageSlice)
       (slice_issue_signals issues (map page_key pageSlice)) cfg psi"

record slice_page =
  sl_URL :: string
  sl_Hop :: nat

definition slice_page_rows :: "graph_page list \<Rightarrow> (string \<Rightarrow> nat option) \<Rightarrow> slice_page list" where
  "slice_page_rows pages hops = map (\<lambda>p. \<lparr>sl_URL = gp_URL p, sl_Hop = hop_or_zero hops (page_key p)\<rparr>) pages"

section \<open>The report\<close>

definition report_version :: string where "report_version = ''v5''"

record 'm gap_report =
  Version :: string
  Radius :: int
  YourPages :: nat
  TheirPages :: nat
  YouBreakdown :: score_breakdown_snapshot
  ThemBreakdown :: score_breakdown_snapshot
  YourSlice :: "slice_page list"
  TheirSlice :: "slice_page list"
  CoverageIssues :: "issue_row list"
  Spread :: "spread_row list"
  HealthYou :: page_health_side
  HealthThem :: page_health_side
  Presence :: "presence_row list"
  PSIYou :: "'m option"
  PSIThem :: "'m option"
  HomepageYou :: homepage_signals
  HomepageThem :: homepage_signals
  ContentYou :: content_signals
  ContentThem :: content_signals

text \<open>
  \<open>decode_psi\<close> is \<open>issues.ParseStoredGooglePSI\<close> and \<open>psi_metrics\<close> is \<open>psiMetricsFromResults\<close>,
  the two decoders of the stored PageSpeed results.
\<close>

definition build_report_with_config ::
    "go_env \<Rightarrow> (string \<Rightarrow> psi_input) \<Rightarrow> (string \<Rightarrow> 'm option) \<Rightarrow> crawl_snapshot \<Rightarrow> crawl_snapshot
       \<Rightarrow> scoring_config \<Rightarrow> 'm gap_report" where
  "build_report_with_config env decode_psi psi_metrics parent competitor cfg =
     (let parentSlice = all_scoreable_pages (cs_Pages parent);
          competitorSlice = all_scoreable_pages (cs_Pages competitor);
          parentHops = hops_from_home (cs_Pages parent) (cs_Links parent) (cs_SeedURL parent);
          competitorHops = hops_from_home (cs_Pages competitor) (cs_Links competitor) (cs_SeedURL competitor)
      in \<lparr>Version = report_version, Radius = 0, YourPages = length parentSlice, TheirPages = length competitorSlice,
          YouBreakdown = score_slice env (cs_ID parent) parentSlice (cs_Issues parent)
            (decode_psi (cs_PSIResults parent)) cfg,
          ThemBreakdown = score_slice env (cs_ID competitor) competitorSlice (cs_Issues competitor)
            (decode_psi (cs_PSIResults competitor)) cfg,
          YourSlice = slice_page_rows parentSlice parentHops,
          TheirSlice = slice_page_rows competitorSlice competitorHops,
          CoverageIssues = issue_coverage_rows parentSlice competitorSlice (cs_Issues parent) (cs_Issues competitor),
          Spread = spread_rows parentSlice competitorSlice (cs_Issues parent) (cs_Issues competitor),
          HealthYou = page_health_side_of parentSlice (cs_Issues parent),
          HealthThem = page_health_side_of competitorSlice (cs_Issues competitor),
          Presence = presence_rows (cs_Issues parent) (cs_Issues competitor)
            (cs_HasLlmsTxt parent) (cs_HasLlmsTxt competitor),
          PSIYou = psi_metrics (cs_PSIResults parent), PSIThem = psi_metrics (cs_PSIResults competitor),
          HomepageYou = homepage_signals_of (cs_Pages parent),
          HomepageThem = homepage_signals_of (cs_Pages competitor),
          ContentYou = content_signals_of parentSlice, ContentThem = content_signals_of competitorSlice\<rparr>)"

definition slice_url_set :: "string \<Rightarrow> 'm gap_report \<Rightarrow> string set" where
  "slice_url_set side r =
     set (map (\<lambda>p. normalize_graph_url (sl_URL p)) (if side = ''you'' then YourSlice r else TheirSlice r))"

section \<open>Building from the database\<close>

record gap_context =
  gc_ID :: uuid
  gc_Source :: string
  gc_Status :: string
  gc_ParentCrawlID :: uuid
  gc_SeedUrl :: string
  gc_HasLlmsTxt :: "bool option"
  gc_GooglePsiResults :: string

datatype query_error = NoRows | QueryFailed string

text \<open>The queries \<open>Build\<close> makes, with their answers.\<close>

record gap_queries =
  get_gap_context :: "uuid \<Rightarrow> query_error + gap_context"
  list_pages :: "uuid \<Rightarrow> string + graph_page list"
  list_links :: "uuid \<Rightarrow> string + graph_link list"
  list_issues :: "uuid \<Rightarrow> string + page_issue list"
  active_scoring_config :: "string + scoring_config"
  uuid_text :: "uuid \<Rightarrow> string"

datatype gap_error = NotCompetitorCrawl | ParentMismatch | ParentNotReady | GapFailed string

definition is_manual_like_source :: "string \<Rightarrow> bool" where
  "is_manual_like_source source = (source \<in> set [''manual'', ''auto'', ''mcp''])"

definition query_error_text :: "query_error \<Rightarrow> string" where
  "query_error_text e = (case e of NoRows \<Rightarrow> ''no rows in result set'' | QueryFailed m \<Rightarrow> m)"

definition load_snapshot :: "gap_queries \<Rightarrow> gap_context \<Rightarrow> crawl_snapshot result" where
  "load_snapshot q crawl =
     (case list_pages q (gc_ID crawl) of
        Inl e \<Rightarrow> Inl (''list crawl pages: '' @ e)
      | Inr pages \<Rightarrow>
          (case list_links q (gc_ID crawl) of
             Inl e \<Rightarrow> Inl (''list internal crawl links: '' @ e)
           | Inr links \<Rightarrow>
               (case list_issues q (gc_ID crawl) of
                  Inl e \<Rightarrow> Inl (''list crawl issues: '' @ e)
                | Inr issues \<Rightarrow> Inr \<lparr>cs_ID = uuid_text q (gc_ID crawl), cs_SeedURL = gc_SeedUrl crawl,
                    cs_HasLlmsTxt = gc_HasLlmsTxt crawl, cs_PSIResults = gc_GooglePsiResults crawl,
                    cs_Pages = pages, cs_Links = links, cs_Issues = issues\<rparr>)))"

text \<open>The two crawls a report may compare, checked in the order of the code.\<close>

definition check_gap_crawls :: "gap_queries \<Rightarrow> uuid \<Rightarrow> uuid \<Rightarrow> gap_error + gap_context \<times> gap_context" where
  "check_gap_crawls q parentCrawlID competitorCrawlID =
     (case get_gap_context q competitorCrawlID of
        Inl e \<Rightarrow> Inl (GapFailed (''get competitor crawl: '' @ query_error_text e))
      | Inr competitor \<Rightarrow>
          if gc_Source competitor \<noteq> ''competitor'' then Inl NotCompetitorCrawl
          else if \<not> uuid_Valid (gc_ParentCrawlID competitor) then Inl ParentNotReady
          else if gc_ParentCrawlID competitor \<noteq> parentCrawlID then Inl ParentMismatch
          else (case get_gap_context q parentCrawlID of
                  Inl NoRows \<Rightarrow> Inl ParentNotReady
                | Inl e \<Rightarrow> Inl (GapFailed (''get parent crawl: '' @ query_error_text e))
                | Inr parent \<Rightarrow>
                    if gc_Status parent \<noteq> ''completed'' \<or> \<not> is_manual_like_source (gc_Source parent)
                    then Inl ParentNotReady else Inr (parent, competitor)))"

definition gap_build ::
    "go_env \<Rightarrow> (string \<Rightarrow> psi_input) \<Rightarrow> (string \<Rightarrow> 'm option) \<Rightarrow> gap_queries \<Rightarrow> uuid \<Rightarrow> uuid
       \<Rightarrow> gap_error + 'm gap_report" where
  "gap_build env decode_psi psi_metrics q parentCrawlID competitorCrawlID =
     (case check_gap_crawls q parentCrawlID competitorCrawlID of
        Inl e \<Rightarrow> Inl e
      | Inr (parent, competitor) \<Rightarrow>
          (case load_snapshot q parent of
             Inl e \<Rightarrow> Inl (GapFailed (''load parent crawl snapshot: '' @ e))
           | Inr parentSnapshot \<Rightarrow>
               (case load_snapshot q competitor of
                  Inl e \<Rightarrow> Inl (GapFailed (''load competitor crawl snapshot: '' @ e))
                | Inr competitorSnapshot \<Rightarrow>
                    (case active_scoring_config q of
                       Inl e \<Rightarrow> Inl (GapFailed (''load scoring config: '' @ e))
                     | Inr cfg \<Rightarrow> Inr (build_report_with_config env decode_psi psi_metrics parentSnapshot competitorSnapshot cfg)))))"

end
