(* ===== verification/GapProperties.thy ===== *)
theory GapProperties
  imports GapReport
begin

text \<open>
  What a competitor gap report states: its page health histogram, the spread of each issue type,
  the range of its percentages, the distance it gives pages that cannot be reached, and which
  crawls it may compare.
\<close>

section \<open>Page health\<close>

lemma length_bump [simp]: "length (bump i xs) = length xs"
  by (simp add: bump_def)

lemma fold_bump:
  "\<forall>x \<in> set xs. f x < length b \<Longrightarrow> length (fold (\<lambda>x. bump (f x)) xs b) = length b
     \<and> (\<forall>k < length b. fold (\<lambda>x. bump (f x)) xs b ! k = b ! k + length (filter (\<lambda>x. f x = k) xs))"
proof (induction xs arbitrary: b)
  case (Cons x xs)
  then show ?case using Cons.IH [of "bump (f x) b"] by (auto simp: bump_def nth_list_update)
qed simp

lemma count_by_page_eq:
  "count_by_page issues k = length (filter (\<lambda>i. counts_toward_spread i \<and> issue_key i = k) issues)"
proof -
  have "fold count_issue xs c k = c k + length (filter (\<lambda>i. issue_key i = k) xs)" for xs c
    by (induction xs arbitrary: c) (auto simp: count_issue_def)
  from this [of "filter counts_toward_spread issues" "\<lambda>_. 0"] show ?thesis
    by (simp add: count_by_page_def conj_commute)
qed

text \<open>
  Bucket \<open>k\<close> of a side's page health counts its pages with exactly \<open>k\<close> issues, the last
  bucket those with 20 or more; so the buckets add up to the number of pages.
\<close>

theorem page_health_side_exact:
  "hs_Buckets (page_health_side_of ps issues)
     = map (\<lambda>k. length (filter (\<lambda>p. min (length (filter (\<lambda>i. counts_toward_spread i \<and> issue_key i = page_key p) issues)) 20 = k) ps)) [0..<21]
   \<and> sum_list (hs_Buckets (page_health_side_of ps issues)) = hs_TotalPages (page_health_side_of ps issues)"
proof -
  let ?f = "health_bucket_of issues" and ?z = "replicate page_health_buckets (0::nat)"
  have f: "?f p = min (length (filter (\<lambda>i. counts_toward_spread i \<and> issue_key i = page_key p) issues)) 20" for p
    by (simp add: health_bucket_of_def count_by_page_eq page_health_buckets_def Let_def min_def)
  have len: "length ?z = 21" by (simp add: page_health_buckets_def)
  have b: "hs_Buckets (page_health_side_of ps issues) = fold (\<lambda>p. bump (?f p)) ps ?z"
    by (simp add: page_health_side_of_def)
  have "\<forall>p \<in> set ps. ?f p < length ?z" unfolding f len by (simp add: min_less_iff_disj)
  from fold_bump [OF this] have r: "length (fold (\<lambda>p. bump (?f p)) ps ?z) = 21"
    "\<And>k. k < 21 \<Longrightarrow> fold (\<lambda>p. bump (?f p)) ps ?z ! k = length (filter (\<lambda>p. ?f p = k) ps)"
    unfolding len by (simp_all add: page_health_buckets_def)
  then have m: "hs_Buckets (page_health_side_of ps issues) = map (\<lambda>k. length (filter (\<lambda>p. ?f p = k) ps)) [0..<21]"
    unfolding b by (intro nth_equalityI) auto
  have "sum_list (map (\<lambda>k. length (filter (\<lambda>p. ?f p = k) ps)) [0..<21]) = length ps"
  proof (induction ps)
    case (Cons p ps)
    have "(\<Sum>k \<leftarrow> [0..<21]. of_bool (?f p = k)) = (1::nat)"
      using f [of p] by (simp add: sum_list_distinct_conv_sum_set)
    moreover have "map (\<lambda>k. length (filter (\<lambda>q. ?f q = k) (p # ps))) [0..<21]
        = map (\<lambda>k. of_bool (?f p = k) + length (filter (\<lambda>q. ?f q = k) ps)) [0..<21]"
      by (rule map_cong) simp_all
    then have "(\<Sum>k \<leftarrow> [0..<21]. length (filter (\<lambda>q. ?f q = k) (p # ps)))
        = (\<Sum>k \<leftarrow> [0..<21]. of_bool (?f p = k)) + (\<Sum>k \<leftarrow> [0..<21]. length (filter (\<lambda>q. ?f q = k) ps))"
      by (simp only: sum_list_addf)
    ultimately show ?case using Cons by simp
  qed (simp add: sum_list_0)
  then show ?thesis using m by (simp add: f page_health_side_of_def)
qed

section \<open>Spread\<close>

definition affected_keys :: "graph_page list \<Rightarrow> page_issue list \<Rightarrow> string \<Rightarrow> string set" where
  "affected_keys ps issues t =
     issue_key ` {i \<in> set issues. counts_toward_spread i \<and> issue_key i \<in> page_key ` set ps \<and> pi_IssueType i = t}"

definition type_spread :: "graph_page list \<Rightarrow> page_issue list \<Rightarrow> string \<Rightarrow> float64" where
  "type_spread ps issues t = spread_percent (card (affected_keys ps issues t)) (length ps)"

lemma pages_of_type_simps [simp]:
  "pages_of_type [] t = []"
  "pages_of_type ((u, pillar, keys) # entries) t = (if u = t then keys else pages_of_type entries t)"
  by (simp_all add: pages_of_type_def)

lemma pages_of_type_add:
  "pages_of_type (add_spread_issue i es) t =
     (let old = pages_of_type es t in
      if t = pi_IssueType i then (if issue_key i \<in> set old then old else old @ [issue_key i]) else old)"
  by (induction i es rule: add_spread_issue.induct) (auto simp: Let_def)

lemma types_add:
  "map fst (add_spread_issue i es) = (if pi_IssueType i \<in> set (map fst es) then map fst es else map fst es @ [pi_IssueType i])"
  by (induction i es rule: add_spread_issue.induct) auto

lemma fold_spread:
  "set (pages_of_type (fold add_spread_issue xs []) t) = issue_key ` {i \<in> set xs. pi_IssueType i = t}
   \<and> distinct (pages_of_type (fold add_spread_issue xs []) t)
   \<and> distinct (map fst (fold add_spread_issue xs [])) \<and> set (map fst (fold add_spread_issue xs [])) = pi_IssueType ` set xs"
proof (induction xs rule: rev_induct)
  case (snoc x xs)
  let ?es = "fold add_spread_issue xs []"
  have "set (map fst (add_spread_issue x ?es)) = insert (pi_IssueType x) (set (map fst ?es))"
    "distinct (map fst (add_spread_issue x ?es))"
    unfolding types_add using snoc by auto
  then show ?case using snoc by (auto simp: pages_of_type_add Let_def)
qed simp

lemma spread_pages_spec:
  "length (pages_of_type (spread_pages_by_type ps issues) t) = card (affected_keys ps issues t)"
  "distinct (map fst (spread_pages_by_type ps issues))"
  "t \<in> set (map fst (spread_pages_by_type ps issues)) \<longleftrightarrow> affected_keys ps issues t \<noteq> {}"
proof -
  let ?xs = "filter (\<lambda>i. counts_toward_spread i \<and> issue_key i \<in> set (map page_key ps)) issues"
  have e: "spread_pages_by_type ps issues = fold add_spread_issue ?xs []"
    by (simp add: spread_pages_by_type_def Let_def)
  have k: "issue_key ` {i \<in> set ?xs. pi_IssueType i = t} = affected_keys ps issues t"
    by (auto simp: affected_keys_def)
  from fold_spread [of ?xs t] show "length (pages_of_type (spread_pages_by_type ps issues) t) = card (affected_keys ps issues t)"
    unfolding e k by (metis distinct_card)
  from fold_spread [of ?xs t] show "distinct (map fst (spread_pages_by_type ps issues))" unfolding e by blast
  show "t \<in> set (map fst (spread_pages_by_type ps issues)) \<longleftrightarrow> affected_keys ps issues t \<noteq> {}"
    using fold_spread [of ?xs t] unfolding e by (auto simp: affected_keys_def)
qed

lemma type_spread_none: "affected_keys ps issues t = {} \<Longrightarrow> type_spread ps issues t = 0"
  by (simp add: type_spread_def spread_percent_def fmul_def fdiv_def fl64_def)

lemma spread_types_spec:
  assumes "distinct (map fst you)" "distinct (map fst them)"
  shows "distinct (map fst (spread_types you them))" "set (map fst (spread_types you them)) = set (map fst you) \<union> set (map fst them)"
proof -
  have f: "map fst (map (\<lambda>(t, p, _). (t, p)) es) = map fst es" for es :: "(string \<times> string \<times> string list) list"
    by (induction es) auto
  have g: "map fst (filter (\<lambda>(t, _). map_of you t = None) (map (\<lambda>(t, p, _). (t, p)) them))
      = filter (\<lambda>t. map_of you t = None) (map fst them)"
    by (induction them) auto
  show "distinct (map fst (spread_types you them))" "set (map fst (spread_types you them)) = set (map fst you) \<union> set (map fst them)"
    unfolding spread_types_def map_append f g using assms by (auto simp: map_of_eq_None_iff)
qed

lemma spread_before_descends: "descends spread_before spread_gap"
  by (auto simp: descends_def spread_before_def split: if_splits)

lemma shown_rows:
  fixes f g :: "string \<Rightarrow> float64"
  shows "t \<in> set (map sp_ID (filter (\<lambda>r. \<not> (sp_You r = 0 \<and> sp_Them r = 0))
      (map (\<lambda>(t, p). \<lparr>sp_ID = t, sp_Label = l t, sp_Pillar = p, sp_You = f t, sp_Them = g t\<rparr>) xs)))
    \<longleftrightarrow> t \<in> set (map fst xs) \<and> (f t \<noteq> 0 \<or> g t \<noteq> 0)"
proof (induction xs)
  case (Cons x xs)
  obtain u p where "x = (u, p)" by (cases x)
  then show ?case using Cons.IH by (cases "f u = 0 \<and> g u = 0") auto
qed simp

lemma spread_rows_eq:
  "spread_rows youPages themPages youIssues themIssues =
     sort_by spread_before (filter (\<lambda>r. \<not> (sp_You r = 0 \<and> sp_Them r = 0))
       (map (\<lambda>(t, p). \<lparr>sp_ID = t, sp_Label = humanize_identifier t, sp_Pillar = p,
          sp_You = type_spread youPages youIssues t, sp_Them = type_spread themPages themIssues t\<rparr>)
        (spread_types (spread_pages_by_type youPages youIssues) (spread_pages_by_type themPages themIssues))))"
  unfolding spread_rows_def Let_def spread_pages_spec(1) type_spread_def [symmetric] by simp

lemma spread_row_values:
  "list_all (\<lambda>r. sp_You r = type_spread youPages youIssues (sp_ID r) \<and> sp_Them r = type_spread themPages themIssues (sp_ID r))
     (spread_rows youPages themPages youIssues themIssues)"
  unfolding spread_rows_eq by (auto simp: list_all_iff)

text \<open>
  The spread of a gap report has one row for each issue type that affects pages of either
  side, with the share of that side's pages it affects, the widest gaps first.
\<close>

theorem spread_rows_exact:
  "let rows = spread_rows youPages themPages youIssues themIssues in distinct (map sp_ID rows) \<and> sorted_wrt (\<ge>) (map spread_gap rows)
    \<and> (\<forall>t. t \<in> set (map sp_ID rows) \<longleftrightarrow> \<not> (type_spread youPages youIssues t = 0 \<and> type_spread themPages themIssues t = 0))
    \<and> list_all (\<lambda>r. sp_You r = type_spread youPages youIssues (sp_ID r)
        \<and> sp_Them r = type_spread themPages themIssues (sp_ID r)) rows"
proof -
  define rows where "rows = spread_rows youPages themPages youIssues themIssues"
  let ?you = "spread_pages_by_type youPages youIssues" and ?them = "spread_pages_by_type themPages themIssues"
  let ?row = "\<lambda>(t, p). \<lparr>sp_ID = t, sp_Label = humanize_identifier t, sp_Pillar = p,
      sp_You = type_spread youPages youIssues t, sp_Them = type_spread themPages themIssues t\<rparr>"
  let ?shown = "filter (\<lambda>r. \<not> (sp_You r = 0 \<and> sp_Them r = 0)) (map ?row (spread_types ?you ?them))"
  have rows: "rows = sort_by spread_before ?shown"
    unfolding rows_def by (rule spread_rows_eq)
  note types = spread_types_spec [OF spread_pages_spec(2) [of youPages youIssues] spread_pages_spec(2) [of themPages themIssues]]
  have ids: "map sp_ID (map ?row xs) = map fst xs" for xs by (induction xs) auto
  have "distinct (map sp_ID (map ?row (spread_types ?you ?them)))" unfolding ids by (rule types(1))
  then have shown: "distinct (map sp_ID ?shown)" by (rule distinct_map_filter)
  have "mset (map sp_ID rows) = mset (map sp_ID ?shown)" by (simp only: rows mset_map mset_sort_by)
  from mset_eq_imp_distinct_iff [OF this] shown have "distinct (map sp_ID rows)" by (rule iffD2)
  moreover have "sorted_wrt (\<ge>) (map spread_gap rows)"
    unfolding rows by (rule sort_by_descending [OF spread_before_descends])
  moreover have "t \<in> set (map sp_ID rows) \<longleftrightarrow> \<not> (type_spread youPages youIssues t = 0 \<and> type_spread themPages themIssues t = 0)" for t
  proof -
    have "t \<in> set (map fst (spread_types ?you ?them))"
      if "type_spread youPages youIssues t \<noteq> 0 \<or> type_spread themPages themIssues t \<noteq> 0"
      unfolding types(2) using that type_spread_none spread_pages_spec(3) by blast
    moreover have "t \<in> set (map sp_ID rows) \<longleftrightarrow> t \<in> set (map fst (spread_types ?you ?them))
        \<and> (type_spread youPages youIssues t \<noteq> 0 \<or> type_spread themPages themIssues t \<noteq> 0)"
      using shown_rows [of t humanize_identifier "type_spread youPages youIssues" "type_spread themPages themIssues"
          "spread_types ?you ?them"] unfolding rows by (simp only: set_map set_sort_by)
    ultimately show ?thesis by blast
  qed
  ultimately show ?thesis
    using spread_row_values [of youPages youIssues themPages themIssues] unfolding Let_def rows_def by blast
qed

section \<open>Ranges\<close>

lemma coverage_percent_range: "0 \<le> coverage_percent a n \<and> coverage_percent a n \<le> 100"
  by (simp add: coverage_percent_def Let_def)

lemma spread_percent_range:
  assumes "a \<le> n" "n \<le> 2 ^ 40"
  shows "0 \<le> spread_percent a n \<and> spread_percent a n \<le> 100"
proof (cases "n = 0")
  case False
  have exact: "fl64 (of_nat k) = of_nat k" if "k \<le> 2 ^ 50" for k
  proof -
    have "int k \<le> int (2 ^ 50)" using that by (simp only: of_nat_le_iff)
    then have "\<bar>int k\<bar> \<le> 2 ^ 53" by simp
    from fl64_of_int [OF this] show ?thesis by simp
  qed
  have "fmul 100 (of_nat a) = of_nat (100 * a)"
    unfolding fmul_def using exact [of "100 * a"] assms by simp
  then have p: "spread_percent a n = fl64 (of_nat (100 * a) / of_nat n)"
    using False exact [of a] exact [of n] assms by (simp add: spread_percent_def fdiv_def)
  have "of_nat (100 * a) / of_nat n \<le> (100 :: rat)"
    using False assms(1) by (simp add: divide_le_eq)
  then have "spread_percent a n \<le> fl64 100" unfolding p by (rule fl64_mono)
  moreover have "fl64 0 \<le> spread_percent a n" unfolding p by (rule fl64_mono) simp
  ultimately show ?thesis using fl64_of_int [of 100] fl64_of_int [of 0] by simp
qed (simp add: spread_percent_def)

lemma affected_keys_card: "card (affected_keys ps issues t) \<le> length ps"
proof -
  have "affected_keys ps issues t \<subseteq> page_key ` set ps" by (auto simp: affected_keys_def)
  then have "card (affected_keys ps issues t) \<le> card (page_key ` set ps)" by (intro card_mono) auto
  also have "\<dots> \<le> length ps" using card_image_le [OF finite_set, of page_key ps] card_length [of ps] by linarith
  finally show ?thesis .
qed

text \<open>
  Every percentage of a gap report lies between 0 and 100, for crawls of up to \<open>2 ^ 40\<close> pages.
\<close>

theorem gap_percentages_in_range:
  assumes "length (cs_Pages parent) \<le> 2 ^ 40" "length (cs_Pages competitor) \<le> 2 ^ 40"
  shows "let r = build_report_with_config env d m parent competitor cfg in
    list_all (\<lambda>i. ir_You i \<in> {0..100} \<and> ir_Them i \<in> {0..100}) (CoverageIssues r)
    \<and> list_all (\<lambda>s. sp_You s \<in> {0..100} \<and> sp_Them s \<in> {0..100}) (Spread r)
    \<and> PagesWithH1 (ContentYou r) \<in> {0..100} \<and> PagesWithMeta (ContentYou r) \<in> {0..100}
    \<and> PagesWithH1 (ContentThem r) \<in> {0..100} \<and> PagesWithMeta (ContentThem r) \<in> {0..100}"
proof -
  let ?p = "all_scoreable_pages (cs_Pages parent)" and ?c = "all_scoreable_pages (cs_Pages competitor)"
  have len: "length ?p \<le> 2 ^ 40" "length ?c \<le> 2 ^ 40"
    using assms length_filter_le order_trans unfolding all_scoreable_pages_def by blast+
  have type: "type_spread ps issues t \<in> {0..100}" if "length ps \<le> 2 ^ 40" for ps issues t
    using spread_percent_range [OF affected_keys_card that] by (simp add: type_spread_def)
  have "list_all (\<lambda>i. ir_You i \<in> {0..100} \<and> ir_Them i \<in> {0..100}) (issue_coverage_rows ?p ?c (cs_Issues parent) (cs_Issues competitor))"
    using coverage_percent_range by (auto simp: issue_coverage_rows_def list_all_iff bucket_coverage_percent_def Let_def)
  moreover have "list_all (\<lambda>s. sp_You s \<in> {0..100} \<and> sp_Them s \<in> {0..100}) (spread_rows ?p ?c (cs_Issues parent) (cs_Issues competitor))"
  proof -
    have "list_all (\<lambda>r. sp_You r = type_spread ?p (cs_Issues parent) (sp_ID r)
        \<and> sp_Them r = type_spread ?c (cs_Issues competitor) (sp_ID r)) (spread_rows ?p ?c (cs_Issues parent) (cs_Issues competitor))"
      by (rule spread_row_values)
    then show ?thesis by (rule list.pred_mono_strong) (use type [OF len(1)] type [OF len(2)] in simp)
  qed
  moreover have "PagesWithH1 (content_signals_of ps) \<in> {0..100} \<and> PagesWithMeta (content_signals_of ps) \<in> {0..100}" for ps
    using coverage_percent_range by (simp add: content_signals_of_def)
  ultimately show ?thesis by (simp add: build_report_with_config_def Let_def)
qed

section \<open>Pages without a path\<close>

text \<open>
  A scoreable page that no path of links reaches from the homepage is listed with hop 0, the
  hop of the homepage itself, although a hop is described as the distance from the homepage.
\<close>

theorem unreachable_page_at_hop_zero:
  assumes "homepage_root_key (cs_Pages s) (cs_SeedURL s) = Some home" "p \<in> set (all_scoreable_pages (cs_Pages s))"
    "\<forall>n. \<not> walk (graph_edges (cs_Pages s) (cs_Links s)) home n (page_key p)"
  shows "\<lparr>sl_URL = gp_URL p, sl_Hop = 0\<rparr>
    \<in> set (YourSlice (build_report_with_config env d m s other cfg))"
proof -
  let ?h = "hops_from_home (cs_Pages s) (cs_Links s) (cs_SeedURL s)"
  have "?h (page_key p) \<noteq> Some k" for k
    using hop_is_walk [OF assms(1)] assms(3) by blast
  then have "hop_or_zero ?h (page_key p) = 0" by (simp add: hop_or_zero_def split: option.split)
  with assms(2) show ?thesis
    by (auto simp: build_report_with_config_def slice_page_rows_def Let_def intro!: image_eqI [where x = p])
qed

section \<open>Which crawls are compared\<close>

text \<open>
  A gap report is built only of a competitor crawl with the given crawl as its parent, and
  only when that parent is a completed manual, automatic or MCP crawl; every other case is one of
  the three named errors or a failed query.
\<close>

theorem gap_build_guards:
  assumes "get_gap_context q competitorID = Inr competitor" "get_gap_context q parentID = Inr parent"
  shows "check_gap_crawls q parentID competitorID
    = (if gc_Source competitor \<noteq> ''competitor'' then Inl NotCompetitorCrawl
       else if gc_ParentCrawlID competitor = parentID \<and> uuid_Valid parentID then
         if gc_Status parent = ''completed'' \<and> gc_Source parent \<in> {''manual'', ''auto'', ''mcp''} then Inr (parent, competitor)
         else Inl ParentNotReady
       else if uuid_Valid (gc_ParentCrawlID competitor) then Inl ParentMismatch else Inl ParentNotReady)
    \<and> (case gap_build env d m q parentID competitorID of Inl e \<Rightarrow> True
       | Inr r \<Rightarrow> check_gap_crawls q parentID competitorID = Inr (parent, competitor))"
proof
  show "check_gap_crawls q parentID competitorID
    = (if gc_Source competitor \<noteq> ''competitor'' then Inl NotCompetitorCrawl
       else if gc_ParentCrawlID competitor = parentID \<and> uuid_Valid parentID then
         if gc_Status parent = ''completed'' \<and> gc_Source parent \<in> {''manual'', ''auto'', ''mcp''} then Inr (parent, competitor)
         else Inl ParentNotReady
       else if uuid_Valid (gc_ParentCrawlID competitor) then Inl ParentMismatch else Inl ParentNotReady)"
    using assms by (auto simp: check_gap_crawls_def is_manual_like_source_def)
  show "case gap_build env d m q parentID competitorID of Inl e \<Rightarrow> True
       | Inr r \<Rightarrow> check_gap_crawls q parentID competitorID = Inr (parent, competitor)"
    using assms by (auto simp: gap_build_def check_gap_crawls_def split: sum.splits if_splits)
qed

section \<open>Samples\<close>

definition sample_snapshot :: "string \<Rightarrow> crawl_snapshot" where
  "sample_snapshot i = \<lparr>cs_ID = i, cs_SeedURL = [], cs_HasLlmsTxt = None, cs_PSIResults = [],
     cs_Pages = [sample_graph_page ''https://x.org/'', sample_graph_page ''https://x.org/orphan''], cs_Links = [],
     cs_Issues = []\<rparr>"

definition sample_context :: "uuid \<Rightarrow> string \<Rightarrow> uuid \<Rightarrow> gap_context" where
  "sample_context i src parent = \<lparr>gc_ID = i, gc_Source = src, gc_Status = ''completed'', gc_ParentCrawlID = parent,
     gc_SeedUrl = [], gc_HasLlmsTxt = None, gc_GooglePsiResults = []\<rparr>"

definition sample_uuid :: "string \<Rightarrow> uuid" where
  "sample_uuid b = \<lparr>uuid_Bytes = b, uuid_Valid = True\<rparr>"

definition sample_queries :: gap_queries where
  "sample_queries = \<lparr>get_gap_context = (\<lambda>i. if i = sample_uuid ''c''
       then Inr (sample_context i ''competitor'' (sample_uuid ''p'')) else Inr (sample_context i ''manual'' (sample_uuid []))),
     list_pages = (\<lambda>_. Inr []), list_links = (\<lambda>_. Inr []), list_issues = (\<lambda>_. Inr []),
     active_scoring_config = Inr default_scoring_config, uuid_text = uuid_Bytes\<rparr>"

theorem gap_percentages_in_range_witness:
  "\<forall>env d (m :: string \<Rightarrow> nat option) cfg. list_all (\<lambda>s. sp_You s \<in> {0..100} \<and> sp_Them s \<in> {0..100})
     (Spread (build_report_with_config env d m (sample_snapshot ''p'') (sample_snapshot ''c'') cfg))"
proof -
  have "length (cs_Pages (sample_snapshot i)) \<le> 2 ^ 40" for i by (simp add: sample_snapshot_def)
  from gap_percentages_in_range [OF this this, of _ _ _ "''p''" "''c''"] show ?thesis unfolding Let_def by blast
qed

theorem unreachable_page_at_hop_zero_witness:
  "\<forall>env d (m :: string \<Rightarrow> nat option) other cfg. \<lparr>sl_URL = ''https://x.org/orphan'', sl_Hop = 0\<rparr>
     \<in> set (YourSlice (build_report_with_config env d m (sample_snapshot ''p'') other cfg))"
proof -
  have "homepage_root_key (cs_Pages (sample_snapshot ''p'')) (cs_SeedURL (sample_snapshot ''p'')) = Some ''https://x.org''"
    by code_simp
  moreover have "page_is_scoreable (sample_graph_page ''https://x.org/orphan'')" by code_simp
  then have "sample_graph_page ''https://x.org/orphan'' \<in> set (all_scoreable_pages (cs_Pages (sample_snapshot ''p'')))"
    by (simp add: all_scoreable_pages_def sample_snapshot_def)
  moreover have "\<not> walk [] ''https://x.org'' n (page_key (sample_graph_page ''https://x.org/orphan''))" for n
  proof
    have "page_key (sample_graph_page ''https://x.org/orphan'') \<noteq> ''https://x.org''" by code_simp
    moreover assume "walk [] ''https://x.org'' n (page_key (sample_graph_page ''https://x.org/orphan''))"
    ultimately show False by (auto elim: walk.cases)
  qed
  then have "\<forall>n. \<not> walk (graph_edges (cs_Pages (sample_snapshot ''p'')) (cs_Links (sample_snapshot ''p''))) ''https://x.org'' n
      (page_key (sample_graph_page ''https://x.org/orphan''))"
    by (simp add: graph_edges_def sample_snapshot_def)
  ultimately have "\<lparr>sl_URL = gp_URL (sample_graph_page ''https://x.org/orphan''), sl_Hop = 0\<rparr>
     \<in> set (YourSlice (build_report_with_config env d m (sample_snapshot ''p'') other cfg))"
    for env d other cfg and m :: "string \<Rightarrow> nat option"
    by (rule unreachable_page_at_hop_zero)
  then show ?thesis by (simp add: sample_graph_page_def)
qed

theorem gap_build_guards_witness:
  "check_gap_crawls sample_queries (sample_uuid ''p'') (sample_uuid ''c'')
     = Inr (sample_context (sample_uuid ''p'') ''manual'' (sample_uuid []), sample_context (sample_uuid ''c'') ''competitor'' (sample_uuid ''p''))"
proof -
  have "get_gap_context sample_queries (sample_uuid ''c'') = Inr (sample_context (sample_uuid ''c'') ''competitor'' (sample_uuid ''p''))"
    "get_gap_context sample_queries (sample_uuid ''p'') = Inr (sample_context (sample_uuid ''p'') ''manual'' (sample_uuid []))"
    by (simp_all add: sample_queries_def sample_uuid_def)
  note guards = conjunct1 [OF gap_build_guards [OF this]]
  show ?thesis by (rule trans [OF guards]) (simp add: sample_context_def sample_uuid_def)
qed

end
