(* ===== verification/WebsiteScope.thy ===== *)
theory WebsiteScope
  imports GoUrl "HOL-Library.Sublist"
begin

text \<open>
  \<open>internal/websitescope/scope.go\<close>: the canonical form of a branch website's scope URL, and
  which stored pages fall inside a scope. \<open>strings.EqualFold\<close> is equality of the lower-cased
  bytes.
\<close>

section \<open>Canonical scope URLs\<close>

definition port_of :: "string \<Rightarrow> string" where
  "port_of host =
     (case last_index_byte host (CHR '':'') of
        Some i \<Rightarrow> if valid_optional_port (drop i host) then drop (Suc i) host else []
      | None \<Rightarrow> [])"

definition is_default_port :: "string \<Rightarrow> string \<Rightarrow> bool" where
  "is_default_port scheme port = ((scheme = ''http'' \<and> port = ''80'') \<or> (scheme = ''https'' \<and> port = ''443''))"

definition normalized_port :: "url \<Rightarrow> string" where
  "normalized_port u =
     (if port_of (Host u) \<noteq> [] \<and> \<not> is_default_port (to_lower (Scheme u)) (port_of (Host u))
      then port_of (Host u) else [])"

definition has_ambiguous_scope_path :: "string \<Rightarrow> bool" where
  "has_ambiguous_scope_path escapedPath =
     (if list_ex (\<lambda>form. str_contains (to_lower escapedPath) form) [''%2f'', ''%5c'', ''%2e'', ''%25''] then True
      else if str_contains escapedPath [CHR 0x5C] then True
      else list_ex (\<lambda>segment. segment = ''.'' \<or> segment = ''..'') (split_on (CHR ''/'') escapedPath))"

definition trim_slash :: "string \<Rightarrow> string" where
  "trim_slash s = (if has_suffix s ''/'' then butlast s else s)"

definition normalize_scope_match_path :: "string \<Rightarrow> string" where
  "normalize_scope_match_path escapedPath =
     (if escapedPath = [] then ''/'' else if length escapedPath > 1 then trim_slash escapedPath else escapedPath)"

definition canonicalize_website_scope_url :: "string \<Rightarrow> string result" where
  "canonicalize_website_scope_url raw =
     (let trimmed = trim_space raw in
      if trimmed = [] then Inl ''websitescope: scope url is required''
      else (case url_parse trimmed of
              Inl _ \<Rightarrow> Inl ''websitescope: scope url must be absolute''
            | Inr parsed \<Rightarrow>
                (let scheme = to_lower (Scheme parsed); host = to_lower (hostname parsed) in
                 if \<not> is_abs parsed then Inl ''websitescope: scope url must be absolute''
                 else if scheme \<noteq> ''http'' \<and> scheme \<noteq> ''https'' then Inl ''websitescope: scope url must be http or https''
                 else if host = [] then Inl ''websitescope: scope url must have a host''
                 else if str_contains host ''%'' then Inl ''websitescope: scope url host must not be encoded''
                 else if has_ambiguous_scope_path (escaped_path parsed)
                   then Inl ''websitescope: scope url path must not contain encoded slashes, encoded dots, nested percent encodings, backslashes, or dot segments''
                 else (let path = (if escaped_path parsed = [] then ''/'' else escaped_path parsed);
                           path' = (if length path > 1 then trim_slash path else path);
                           port = port_of (Host parsed);
                           hostport = (if port \<noteq> [] \<and> \<not> is_default_port scheme port then host @ '':'' @ port else host)
                       in Inr (scheme @ ''://'' @ hostport @ path')))))"

section \<open>Matching\<close>

definition match_website_scope_page :: "string \<Rightarrow> string \<Rightarrow> string \<Rightarrow> bool" where
  "match_website_scope_page scopeMatch scopeURL pageURL =
     (if scopeMatch \<noteq> ''exact'' \<and> scopeMatch \<noteq> ''subtree'' then False
      else (case url_parse scopeURL of
              Inl _ \<Rightarrow> False
            | Inr scope \<Rightarrow>
                if hostname scope = [] then False
                else (case url_parse (trim_space pageURL) of
                        Inl _ \<Rightarrow> False
                      | Inr page \<Rightarrow>
                          (let scopePath = normalize_scope_match_path (escaped_path scope);
                               pagePath = normalize_scope_match_path (escaped_path page)
                           in if hostname page = [] then False
                              else if to_lower (Scheme scope) \<noteq> to_lower (Scheme page)
                                      \<or> to_lower (hostname scope) \<noteq> to_lower (hostname page) then False
                              else if normalized_port scope \<noteq> normalized_port page then False
                              else if has_ambiguous_scope_path scopePath \<or> has_ambiguous_scope_path pagePath then False
                              else if scopeMatch = ''exact'' then scopePath = pagePath
                              else if pagePath = scopePath then True
                              else if scopePath = ''/'' then has_prefix pagePath ''/''
                              else has_prefix pagePath (scopePath @ ''/'')))))"

definition valid_scope_match :: "string \<Rightarrow> bool" where
  "valid_scope_match m = (m = ''none'' \<or> m = ''exact'' \<or> m = ''subtree'')"

definition scope_matches_parent_origin :: "string \<Rightarrow> string \<Rightarrow> bool" where
  "scope_matches_parent_origin scopeURL parentBaseURL =
     (case url_parse scopeURL of
        Inl _ \<Rightarrow> False
      | Inr scope \<Rightarrow>
          if hostname scope = [] then False
          else (case url_parse (trim_space parentBaseURL) of
                  Inl _ \<Rightarrow> False
                | Inr parent \<Rightarrow>
                    if hostname parent = [] then False
                    else if to_lower (Scheme scope) \<noteq> to_lower (Scheme parent)
                            \<or> to_lower (hostname scope) \<noteq> to_lower (hostname parent) then False
                    else normalized_port scope = normalized_port parent))"

section \<open>Path segments\<close>

lemma split_on_append_sep: "split_on sep (s @ sep # t) = split_on sep s @ split_on sep t"
proof (induction s)
  case (Cons c s)
  then show ?case by (cases "split_on sep s") auto
qed simp

lemma join_append: "ss \<noteq> [] \<Longrightarrow> ts \<noteq> [] \<Longrightarrow> join sep (ss @ ts) = join sep ss @ sep @ join sep ts"
proof (induction sep ss rule: join.induct)
  case (2 sep s)
  then show ?case by (cases ts) auto
qed auto

lemma split_on_prefix: "prefix (split_on sep s) (split_on sep t) \<longleftrightarrow> t = s \<or> (\<exists>r. t = s @ sep # r)"
proof
  assume "prefix (split_on sep s) (split_on sep t)"
  then obtain rest where r: "split_on sep t = split_on sep s @ rest" by (auto simp: prefix_def)
  have "t = join [sep] (split_on sep s @ rest)" unfolding r [symmetric] by (simp add: split_on_join)
  then show "t = s \<or> (\<exists>r. t = s @ sep # r)"
    by (cases "rest = []") (auto simp: join_append split_on_join)
qed (auto simp: split_on_append_sep)

definition path_segments :: "string \<Rightarrow> string list" where
  "path_segments p = (if p = ''/'' then [] else split_on (CHR ''/'') (tl p))"

lemma subtree_iff_segments:
  assumes "has_prefix p ''/''" "has_prefix q ''/''"
  shows "q = p \<or> (if p = ''/'' then has_prefix q ''/'' else has_prefix q (p @ ''/''))
    \<longleftrightarrow> prefix (path_segments p) (path_segments q)"
proof -
  obtain s t where s: "p = CHR ''/'' # s" and t: "q = CHR ''/'' # t" using assms by (auto simp: has_prefix_iff)
  consider "s = []" | "s \<noteq> []" "t = []" | "s \<noteq> []" "t \<noteq> []" by blast
  then show ?thesis
  proof cases
    case 1
    then show ?thesis using assms by (simp add: s path_segments_def)
  next
    case 2
    then show ?thesis by (auto simp: s t path_segments_def has_prefix_iff)
  next
    case 3
    then show ?thesis by (auto simp: s t path_segments_def has_prefix_iff split_on_prefix)
  qed
qed

section \<open>Paths of parsed URLs\<close>

lemma find_index_Some: "find_index P xs = Some i \<Longrightarrow> i < length xs \<and> P (xs ! i) \<and> (\<forall>x \<in> set (take i xs). \<not> P x)"
  by (induction xs arbitrary: i) (auto split: if_splits)

lemma index_byte_drop: "index_byte s c = Some i \<Longrightarrow> drop i s = c # drop (Suc i) s"
  unfolding index_byte_def by (drule find_index_Some) (auto simp: Cons_nth_drop_Suc)

lemma escape_slash: "escape EncodePath (CHR ''/'' # s) = CHR ''/'' # escape EncodePath s"
  by (simp add: escape_def escape_char_def should_escape_def is_letter_def is_digit_def)

lemma unescape_slash: "unescape EncodePath (CHR ''/'' # s) = Inr t \<Longrightarrow> \<exists>t'. t = CHR ''/'' # t'"
  by (auto simp: split: sum.splits)

lemma set_path_Inr:
  "set_path u p = Inr v \<Longrightarrow> unescape EncodePath p = Inr (Path v) \<and> RawPath v = (if p = escape EncodePath (Path v) then [] else p)
     \<and> Scheme v = Scheme u \<and> Host v = Host u"
  by (auto simp: set_path_def split: sum.splits)

definition authority_path :: "url \<Rightarrow> bool" where
  "authority_path u = (\<exists>p. (p = [] \<or> has_prefix p ''/'') \<and> unescape EncodePath p = Inr (Path u)
     \<and> RawPath u = (if p = escape EncodePath (Path u) then [] else p))"

lemma authority_path_escaped: "authority_path u \<Longrightarrow> escaped_path u = [] \<or> has_prefix (escaped_path u) ''/''"
proof -
  assume "authority_path u"
  then obtain p where p: "p = [] \<or> has_prefix p ''/''" "unescape EncodePath p = Inr (Path u)"
    "RawPath u = (if p = escape EncodePath (Path u) then [] else p)" by (auto simp: authority_path_def)
  show ?thesis
  proof (cases "p = []")
    case True
    with p have "Path u = []" "RawPath u = []" by (auto simp: escape_def split: if_splits)
    then show ?thesis by (simp add: escaped_path_def escape_def)
  next
    case False
    with p(1) obtain s where s: "p = CHR ''/'' # s" by (auto simp: has_prefix_iff)
    with p(2) unescape_slash obtain t where t: "Path u = CHR ''/'' # t" by blast
    then show ?thesis using p(3) s by (auto simp: escaped_path_def escape_slash)
  qed
qed

lemma parse_rest_host:
  "parse_rest u rest = Inr v \<Longrightarrow> Host u = [] \<Longrightarrow> Host v \<noteq> [] \<Longrightarrow> authority_path v"
proof -
  assume v: "parse_rest u rest = Inr v" "Host u = []" "Host v \<noteq> []"
  have host: "Host w = []" if "set_path u' p = Inr w" "Host u' = []" for u' p w
    using that set_path_Inr by fastforce
  let ?a = "drop 2 rest"
  obtain authority p where a: "(case index_byte ?a (CHR ''/'') of None \<Rightarrow> (?a, []) | Some i \<Rightarrow> (take i ?a, drop i ?a)) = (authority, p)"
    by fastforce
  have p: "p = [] \<or> has_prefix p ''/''"
  proof (cases "index_byte ?a (CHR ''/'')")
    case (Some i)
    with a have "p = drop i ?a" by simp
    then show ?thesis using index_byte_drop [OF Some] by (simp add: has_prefix_iff del: drop_drop)
  qed (use a in simp)
  have r: "parse_rest u rest =
     (if \<not> has_prefix rest ''/'' \<and> Scheme u \<noteq> [] then Inr (u\<lparr>Opaque := rest\<rparr>)
      else if \<not> has_prefix rest ''/'' \<and> CHR '':'' \<in> set (fst (cut rest (CHR ''/'')))
        then Inl ''first path segment in URL cannot contain colon''
      else if (Scheme u \<noteq> [] \<or> \<not> has_prefix rest ''///'') \<and> has_prefix rest ''//'' then
        bind_result (parse_authority authority) (\<lambda>(ui, h). set_path (u\<lparr>User := ui, Host := h\<rparr>) p)
      else if Scheme u \<noteq> [] \<and> has_prefix rest ''/'' then set_path (u\<lparr>OmitHost := True\<rparr>) rest
      else set_path u rest)"
    unfolding parse_rest_def Let_def a prod.case by (rule refl)
  show ?thesis
  proof (cases "\<exists>ui h. set_path (u\<lparr>User := ui, Host := h\<rparr>) p = Inr v")
    case True
    then obtain ui h where "set_path (u\<lparr>User := ui, Host := h\<rparr>) p = Inr v" by blast
    from set_path_Inr [OF this] p show ?thesis unfolding authority_path_def by blast
  next
    case False
    have "set_path u rest \<noteq> Inr v" "set_path (u\<lparr>OmitHost := True\<rparr>) rest \<noteq> Inr v" "u\<lparr>Opaque := rest\<rparr> \<noteq> v"
      using host [of u rest v] host [of "u\<lparr>OmitHost := True\<rparr>" rest v] v(2,3) by auto
    moreover have "bind_result (parse_authority authority) (\<lambda>(ui, h). set_path (u\<lparr>User := ui, Host := h\<rparr>) p) \<noteq> Inr v"
      using False by auto
    ultimately show ?thesis using v(1) unfolding r by (simp split: if_splits del: bind_result_Inr)
  qed
qed

lemma url_parse_host_path:
  assumes "url_parse s = Inr u" "hostname u \<noteq> []"
  shows "escaped_path u = [] \<or> has_prefix (escaped_path u) ''/''"
proof -
  have h: "Host u \<noteq> []" using assms(2) by (auto simp: hostname_def hostname_of_def last_index_byte_def split: option.splits)
  obtain raw v where v: "parse_no_fragment raw = Inr v" "\<exists>f. u = v\<lparr>Fragment := f\<rparr>"
    using assms(1) by (auto simp: url_parse_def Let_def split: prod.splits if_splits) (metis url.surjective url.update_convs(10))+
  then have "Host v \<noteq> []" using h by auto
  have "raw \<noteq> ''*''"
  proof
    assume "raw = ''*''"
    with v(1) have "v = empty_url\<lparr>Path := ''*''\<rparr>" by (simp add: parse_no_fragment_def split: if_splits)
    with \<open>Host v \<noteq> []\<close> show False by (simp add: empty_url_def)
  qed
  then have "bind_result (get_scheme raw) (\<lambda>(scheme, rest0).
      let (force, rest, query) = split_query rest0 in
      parse_rest (empty_url\<lparr>Scheme := to_lower scheme, ForceQuery := force, RawQuery := query\<rparr>) rest) = Inr v"
    using v(1) unfolding parse_no_fragment_def by (simp del: bind_result_Inr split: if_splits)
  then obtain x where x: "(case x of (scheme, rest0) \<Rightarrow>
      let (force, rest, query) = split_query rest0 in
      parse_rest (empty_url\<lparr>Scheme := to_lower scheme, ForceQuery := force, RawQuery := query\<rparr>) rest) = Inr v"
    unfolding bind_result_Inr by blast
  obtain force rest query where "split_query (snd x) = (force, rest, query)" by (cases "split_query (snd x)")
  with x have "parse_rest (empty_url\<lparr>Scheme := to_lower (fst x), ForceQuery := force, RawQuery := query\<rparr>) rest = Inr v"
    by (cases x) simp
  then have "authority_path v" by (rule parse_rest_host) (simp_all add: empty_url_def \<open>Host v \<noteq> []\<close>)
  moreover obtain f where "u = v\<lparr>Fragment := f\<rparr>" using v(2) by blast
  ultimately have "authority_path u" unfolding authority_path_def by simp
  then show ?thesis by (rule authority_path_escaped)
qed

lemma match_path_slash:
  "p = [] \<or> has_prefix p ''/'' \<Longrightarrow> has_prefix (normalize_scope_match_path p) ''/''"
  by (auto simp: normalize_scope_match_path_def trim_slash_def has_prefix_iff)

section \<open>What a scope holds\<close>

definition same_origin :: "url \<Rightarrow> url \<Rightarrow> bool" where
  "same_origin u v =
     (hostname u \<noteq> [] \<and> hostname v \<noteq> [] \<and> to_lower (Scheme u) = to_lower (Scheme v)
      \<and> to_lower (hostname u) = to_lower (hostname v) \<and> normalized_port u = normalized_port v)"

definition scope_path :: "url \<Rightarrow> string" where
  "scope_path u = normalize_scope_match_path (escaped_path u)"

lemma match_scope_unfold:
  assumes "url_parse scopeURL = Inr scope" "url_parse (trim_space pageURL) = Inr page"
  shows "match_website_scope_page m scopeURL pageURL \<longleftrightarrow>
    m \<in> {''exact'', ''subtree''} \<and> same_origin scope page
    \<and> \<not> has_ambiguous_scope_path (scope_path scope) \<and> \<not> has_ambiguous_scope_path (scope_path page)
    \<and> (scope_path page = scope_path scope
       \<or> m = ''subtree'' \<and> (if scope_path scope = ''/'' then has_prefix (scope_path page) ''/''
                           else has_prefix (scope_path page) (scope_path scope @ ''/'')))"
  unfolding match_website_scope_page_def assms sum.case Let_def same_origin_def scope_path_def by auto

lemma scope_path_slash: "url_parse s = Inr u \<Longrightarrow> hostname u \<noteq> [] \<Longrightarrow> has_prefix (scope_path u) ''/''"
  unfolding scope_path_def by (intro match_path_slash url_parse_host_path)

lemma match_subtree_iff:
  assumes "url_parse scopeURL = Inr scope" "url_parse (trim_space pageURL) = Inr page"
  shows "match_website_scope_page ''subtree'' scopeURL pageURL \<longleftrightarrow>
    same_origin scope page
    \<and> \<not> has_ambiguous_scope_path (scope_path scope) \<and> \<not> has_ambiguous_scope_path (scope_path page)
    \<and> prefix (path_segments (scope_path scope)) (path_segments (scope_path page))"
proof (cases "same_origin scope page")
  case True
  then have "has_prefix (scope_path scope) ''/''" "has_prefix (scope_path page) ''/''"
    using assms scope_path_slash by (auto simp: same_origin_def)
  from subtree_iff_segments [OF this] show ?thesis
    unfolding match_scope_unfold [OF assms] by simp
qed (simp add: match_scope_unfold [OF assms])

lemma match_scope_parses:
  "match_website_scope_page m scopeURL pageURL \<Longrightarrow>
    \<exists>scope page. url_parse scopeURL = Inr scope \<and> url_parse (trim_space pageURL) = Inr page"
  by (auto simp: match_website_scope_page_def split: if_splits sum.splits)

lemma match_subtree_segments:
  "match_website_scope_page ''subtree'' scopeURL pageURL \<longleftrightarrow>
    (\<exists>scope page. url_parse scopeURL = Inr scope \<and> url_parse (trim_space pageURL) = Inr page
      \<and> same_origin scope page
      \<and> \<not> has_ambiguous_scope_path (scope_path scope) \<and> \<not> has_ambiguous_scope_path (scope_path page)
      \<and> prefix (path_segments (scope_path scope)) (path_segments (scope_path page)))"
  using match_scope_parses match_subtree_iff by metis

lemma exact_scope_in_subtree:
  "match_website_scope_page ''exact'' s p \<Longrightarrow> match_website_scope_page ''subtree'' s p"
  using match_scope_parses [of "''exact''" s p] by (auto simp: match_scope_unfold)

lemma subtree_scope_trans:
  assumes "match_website_scope_page ''subtree'' s t" "match_website_scope_page ''subtree'' t p" "trim_space t = t"
  shows "match_website_scope_page ''subtree'' s p"
  using assms unfolding match_subtree_segments
  by (auto simp: same_origin_def)

lemma subtree_scope_same_origin:
  "match_website_scope_page m s p \<Longrightarrow> scope_matches_parent_origin s p"
  using match_scope_parses [of m s p]
  by (auto simp: match_scope_unfold scope_matches_parent_origin_def same_origin_def)

lemma shop_is_not_shopping:
  "match_website_scope_page ''subtree'' ''https://a.example/shop'' ''https://a.example/shop/x?q=1''
   \<and> \<not> match_website_scope_page ''subtree'' ''https://a.example/shop'' ''https://a.example/shopping''"
  by code_simp

text \<open>
  Only one trailing slash is trimmed, so a scope URL that ends in two is not a fixed point of
  the canonical form, and the page the user named is not in its own exact scope.
\<close>

lemma double_slash_scope_not_canonical:
  "canonicalize_website_scope_url ''http://a.example/b//'' = Inr ''http://a.example/b/''
   \<and> \<not> match_website_scope_page ''exact'' ''http://a.example/b/'' ''http://a.example/b//''"
  by code_simp

text \<open>
  C35: Whether a page is inside a subtree scope, decided on prefixes of the escaped paths, is
  exactly the segment-wise relation: both URLs parse and have the same scheme, host and
  (non-default) port, neither path is ambiguous, and the list of path segments of the scope is a
  prefix of the one of the page. So \<open>/shop\<close> holds \<open>/shop/x\<close> and never \<open>/shopping\<close>.
\<close>

theorem subtree_scope_by_segments:
  "match_website_scope_page ''subtree'' scopeURL pageURL \<longleftrightarrow>
    (\<exists>scope page. url_parse scopeURL = Inr scope \<and> url_parse (trim_space pageURL) = Inr page
      \<and> same_origin scope page
      \<and> \<not> has_ambiguous_scope_path (scope_path scope) \<and> \<not> has_ambiguous_scope_path (scope_path page)
      \<and> prefix (path_segments (scope_path scope)) (path_segments (scope_path page)))"
  by (rule match_subtree_segments)

end
