(* ===== verification/WorkerDb.thy ===== *)
theory WorkerDb
  imports Complex_Main Prelude
begin

text \<open>
  The tables the background workers share (\<open>internal/db/sqlc\<close>): the job queue
  \<open>ai_worker_jobs\<close>, the AI audits, the crawls, the maps runs and credit budgets, and the three
  durable setup workflows, all for one project. A UUID is a number, a table a list in the order
  of \<open>created_at\<close> or a map from the key its unique index allows once; a nullable column is an
  \<open>option\<close>. Timestamps are not kept, but \<open>completed_at\<close> as being set or not. A statement that
  returns \<open>pgx.ErrNoRows\<close> is \<open>None\<close>.
\<close>

section \<open>Messages cut at a rune boundary\<close>

definition continues_rune :: "char \<Rightarrow> bool" where
  "continues_rune c = (byte c div 64 = 2)"

fun cut_back :: "string \<Rightarrow> nat \<Rightarrow> nat" where
  "cut_back message 0 = 0"
| "cut_back message (Suc n) =
     (if continues_rune (message ! Suc n) then cut_back message n else Suc n)"

definition maxSetupErrorMessageLength :: nat where
  "maxSetupErrorMessageLength = 500"

definition cap_setup_error_message :: "string \<Rightarrow> string" where
  "cap_setup_error_message message =
     (if length message \<le> maxSetupErrorMessageLength then message
      else take (cut_back message maxSetupErrorMessageLength) message)"

text \<open>\<open>utf8.ValidString\<close>: how many bytes follow a first byte, and the narrower range of the
  second byte after \<open>E0\<close>, \<open>ED\<close>, \<open>F0\<close> and \<open>F4\<close>.\<close>

definition rune_follow :: "char \<Rightarrow> nat option" where
  "rune_follow a =
     (if byte a < 128 then Some 0
      else if 194 \<le> byte a \<and> byte a \<le> 223 then Some 1
      else if 224 \<le> byte a \<and> byte a \<le> 239 then Some 2
      else if 240 \<le> byte a \<and> byte a \<le> 244 then Some 3 else None)"

definition second_byte_ok :: "char \<Rightarrow> char \<Rightarrow> bool" where
  "second_byte_ok a b =
     ((byte a = 224 \<longrightarrow> 160 \<le> byte b) \<and> (byte a = 237 \<longrightarrow> byte b < 160)
      \<and> (byte a = 240 \<longrightarrow> 144 \<le> byte b) \<and> (byte a = 244 \<longrightarrow> byte b < 144))"

fun valid_utf8 :: "string \<Rightarrow> bool" where
  "valid_utf8 [] = True"
| "valid_utf8 (a # s) =
     (case rune_follow a of
        None \<Rightarrow> False
      | Some n \<Rightarrow> n \<le> length s \<and> list_all continues_rune (take n s) \<and> (n = 0 \<or> second_byte_ok a (hd s))
          \<and> valid_utf8 (drop n s))"

text \<open>\<open>pgnull.Text\<close>: a blank text is stored as NULL.\<close>

definition pgnull_text :: "string \<Rightarrow> string option" where
  "pgnull_text value = (if trim_space value = [] then None else Some value)"

section \<open>Rows\<close>

datatype job_type =
    BusinessProfileBootstrapJob | KeywordAnalysisJob | PromptGenerationJob | VisibilityRunJob
  | MapsVisibilityJob | LocalVisibilityJob | LocationProfileGenerationJob | MapQueryGenerationJob
  | LocationKeywordAnalysisJob | CompetitorKeywordGenerationJob | CompetitorKeywordAnalysisJob

datatype job_status = JobPending | JobRunning | JobCompleted | JobFailed

record job =
  JobID :: nat
  JobType :: job_type
  JobAudit :: "nat option"
  JobLocalRun :: "nat option"
  JobLocation :: "nat option"
  JobCompetitor :: "nat option"
  JobStatus :: job_status
  JobError :: "string option"

datatype audit_status = AuditQueued | AuditRunning | AuditCompleted | AuditCompletedWithFailures | AuditFailed

record audit =
  AuditID :: nat
  AuditCrawl :: "nat option"
  AuditLocation :: "nat option"
  AuditSetup :: "nat option"
  AuditStatus :: audit_status
  AuditError :: "string option"

datatype crawl_status = CrawlQueued | CrawlRunning | CrawlCompleted | CrawlFailed | CrawlCancelled

record crawl_row =
  CrawlRowID :: nat
  CrawlParent :: "nat option"
  CrawlCompetitor :: "nat option"
  CrawlStatus :: crawl_status
  CrawlManualLike :: bool
  CrawlPageCount :: nat

datatype run_status = RunQueued | RunRunning | RunCompleted | RunPartial | RunFailed

record local_run =
  RunID :: nat
  RunLocation :: nat
  RunStatus :: run_status
  RunRadiusM :: int
  RunQueries :: "string list"
  RunExpectedCredits :: int

record credits =
  RemainingCredits :: int
  ReservedCredits :: int
  SpentCredits :: int

datatype project_status =
    ProjectReady | ProjectCrawling | ProjectProfileGeneration | ProjectKeywordAnalysis
  | ProjectPromptGeneration | ProjectVisibility | ProjectCompleted | ProjectFailed

datatype project_step =
  StepCrawling | StepProfileGeneration | StepProjectKeywordAnalysis | StepPromptGeneration | StepVisibility

record project_setup =
  PsID :: nat
  PsRequestedBy :: "nat option"
  PsCrawlID :: "nat option"
  PsStatus :: project_status
  PsError :: "string option"
  PsFailedStep :: "project_step option"
  PsVisibilitySkipReason :: "string option"
  PsCompletedAt :: bool

datatype step_status = StepPending | StepRunning | StepCompleted | StepFailed | StepSkipped

datatype setup_status = StatusRunning | StatusCompleted | StatusFailed

datatype competitor_step = StepCrawl | StepKeywordGeneration | StepCompetitorKeywordAnalysis

record competitor_setup =
  CsRequestedBy :: "nat option"
  CsParentCrawlID :: "nat option"
  CsCrawlID :: "nat option"
  CsStatus :: setup_status
  CsCrawlStatus :: step_status
  CsKeywordGenerationStatus :: step_status
  CsKeywordAnalysisStatus :: step_status
  CsError :: "string option"
  CsFailedStep :: "competitor_step option"
  CsStepReasons :: "competitor_step \<rightharpoonup> string"
  CsCompletedAt :: bool

datatype location_step =
  StepPrepare | StepProfile | StepKeywordAnalysis | StepQuestions | StepMapQueries | StepAIVisibility | StepMapsVisibility

record location_setup =
  LsRequestedBy :: "nat option"
  LsDifferences :: string
  LsStatus :: setup_status
  LsError :: "string option"
  LsSteps :: "location_step \<Rightarrow> step_status"
  LsReasons :: "location_step \<rightharpoonup> string"
  LsAIAuditID :: "nat option"
  LsMapsRunID :: "nat option"
  LsEstimatedMapsCredits :: "int option"
  LsCompletedAt :: bool

text \<open>What the setup reads of a location: its saved questions, its map queries with their
  \<open>enabled\<close> flag in the order of \<open>ordinal\<close>, and its Google Maps listing.\<close>

record location_row =
  LocQuestions :: "string list"
  LocQueries :: "(string \<times> bool) list"
  LocPlaceID :: "string option"
  LocRadiusM :: int
  LocLatitude :: rat
  LocLongitude :: rat

record db =
  ai_worker_jobs :: "job list"
  ai_audits :: "audit list"
  crawl_rows :: "crawl_row list"
  local_visibility_runs :: "local_run list"
  project_setup_row :: "project_setup option"
  competitor_setup_rows :: "nat \<Rightarrow> competitor_setup option"
  location_setup_rows :: "nat \<Rightarrow> location_setup option"
  project_locations :: "nat \<Rightarrow> location_row option"
  member_audit_limit :: "nat \<Rightarrow> int option"
  used_audits :: int
  platform_credits :: credits
  organization_credits :: credits
  next_id :: nat

section \<open>The job queue\<close>

definition job_active :: "job \<Rightarrow> bool" where
  "job_active j = (JobStatus j = JobPending \<or> JobStatus j = JobRunning)"

definition blank_job :: job where
  "blank_job = \<lparr>JobID = 0, JobType = PromptGenerationJob, JobAudit = None, JobLocalRun = None,
     JobLocation = None, JobCompetitor = None, JobStatus = JobPending, JobError = None\<rparr>"

definition insert_job :: "job \<Rightarrow> db \<Rightarrow> db" where
  "insert_job j d = d\<lparr>ai_worker_jobs := ai_worker_jobs d @ [j\<lparr>JobID := next_id d\<rparr>], next_id := Suc (next_id d)\<rparr>"

definition enqueue_ai_worker_job :: "job_type \<Rightarrow> nat option \<Rightarrow> db \<Rightarrow> db" where
  "enqueue_ai_worker_job t audit = insert_job (blank_job\<lparr>JobType := t, JobAudit := audit\<rparr>)"

definition enqueue_competitor_ai_worker_job :: "job_type \<Rightarrow> nat \<Rightarrow> db \<Rightarrow> db" where
  "enqueue_competitor_ai_worker_job t competitor =
     insert_job (blank_job\<lparr>JobType := t, JobCompetitor := Some competitor\<rparr>)"

definition set_job :: "nat \<Rightarrow> (job \<Rightarrow> job) \<Rightarrow> db \<Rightarrow> db" where
  "set_job i f d = d\<lparr>ai_worker_jobs := map (\<lambda>j. if JobID j = i then f j else j) (ai_worker_jobs d)\<rparr>"

definition mark_ai_worker_job_completed :: "nat \<Rightarrow> db \<Rightarrow> db" where
  "mark_ai_worker_job_completed i = set_job i (\<lambda>j. j\<lparr>JobStatus := JobCompleted\<rparr>)"

definition mark_ai_worker_job_failed :: "nat \<Rightarrow> string option \<Rightarrow> db \<Rightarrow> db" where
  "mark_ai_worker_job_failed i message = set_job i (\<lambda>j. j\<lparr>JobStatus := JobFailed, JobError := message\<rparr>)"

text \<open>The oldest pending job becomes running and is returned as it then is.\<close>

definition claim_next_pending_ai_worker_job :: "db \<Rightarrow> (job \<times> db) option" where
  "claim_next_pending_ai_worker_job d =
     (case find (\<lambda>j. JobStatus j = JobPending) (ai_worker_jobs d) of
        None \<Rightarrow> None
      | Some j \<Rightarrow> Some (j\<lparr>JobStatus := JobRunning\<rparr>, set_job (JobID j) (\<lambda>j. j\<lparr>JobStatus := JobRunning\<rparr>) d))"

section \<open>Project setup statements\<close>

record project_update =
  UpdStatus :: project_status
  UpdRequestedBy :: "nat option"
  UpdError :: "string option"
  UpdFailedStep :: "project_step option"
  UpdSkipReason :: "string option"
  UpdCrawlID :: "nat option"
  UpdExpected :: project_status

definition coalesce :: "'a option \<Rightarrow> 'a option \<Rightarrow> 'a option" where
  "coalesce a b = (case a of None \<Rightarrow> b | Some x \<Rightarrow> Some x)"

definition update_project_setup_status :: "project_update \<Rightarrow> db \<Rightarrow> (project_setup \<times> db) option" where
  "update_project_setup_status arg d =
     (case project_setup_row d of
        None \<Rightarrow> None
      | Some s \<Rightarrow>
          if PsStatus s \<noteq> UpdExpected arg then None
          else (let failed = (UpdStatus arg = ProjectFailed);
                    s' = s\<lparr>PsStatus := UpdStatus arg,
                           PsRequestedBy := coalesce (UpdRequestedBy arg) (PsRequestedBy s),
                           PsError := (if failed then UpdError arg else None),
                           PsFailedStep := (if failed then UpdFailedStep arg else None),
                           PsVisibilitySkipReason := UpdSkipReason arg,
                           PsCrawlID := coalesce (UpdCrawlID arg) (PsCrawlID s),
                           PsCompletedAt := (UpdStatus arg \<in> {ProjectCompleted, ProjectFailed})\<rparr>
                in Some (s', d\<lparr>project_setup_row := Some s'\<rparr>)))"

definition start_project_setup :: "nat \<Rightarrow> nat \<Rightarrow> db \<Rightarrow> (project_setup \<times> db) option" where
  "start_project_setup user crawl d =
     (case project_setup_row d of
        None \<Rightarrow> None
      | Some s \<Rightarrow>
          if PsStatus s \<noteq> ProjectReady then None
          else (let s' = s\<lparr>PsRequestedBy := Some user, PsStatus := ProjectCrawling, PsCrawlID := Some crawl,
                           PsError := None, PsFailedStep := None, PsVisibilitySkipReason := None,
                           PsCompletedAt := False\<rparr>
                in Some (s', d\<lparr>project_setup_row := Some s'\<rparr>)))"

definition advance_project_setup_from_crawling ::
    "nat \<Rightarrow> project_status \<Rightarrow> string option \<Rightarrow> project_step option \<Rightarrow> db \<Rightarrow> (project_setup \<times> db) option" where
  "advance_project_setup_from_crawling crawl status error step d =
     (case project_setup_row d of
        None \<Rightarrow> None
      | Some s \<Rightarrow>
          if PsCrawlID s \<noteq> Some crawl \<or> PsStatus s \<noteq> ProjectCrawling then None
          else (let s' = s\<lparr>PsStatus := status, PsError := error, PsFailedStep := step,
                           PsCompletedAt := (status \<in> {ProjectCompleted, ProjectFailed})\<rparr>
                in Some (s', d\<lparr>project_setup_row := Some s'\<rparr>)))"

section \<open>Audits\<close>

definition audit_active :: "audit \<Rightarrow> bool" where
  "audit_active a = (AuditStatus a = AuditQueued \<or> AuditStatus a = AuditRunning)"

text \<open>The insert violates one of the two unique indexes when an active audit of the same crawl
  (without a location) or of the same location exists.\<close>

definition audit_conflicts :: "nat option \<Rightarrow> nat option \<Rightarrow> db \<Rightarrow> bool" where
  "audit_conflicts crawl location d =
     list_ex (\<lambda>a. audit_active a
        \<and> (if location = None then AuditLocation a = None \<and> crawl \<noteq> None \<and> AuditCrawl a = crawl
           else AuditLocation a = location)) (ai_audits d)"

definition create_ai_audit :: "nat option \<Rightarrow> nat option \<Rightarrow> nat option \<Rightarrow> db \<Rightarrow> (nat \<times> db) result" where
  "create_ai_audit crawl location setup d =
     (if audit_conflicts crawl location d then Inl ''duplicate key value violates unique constraint''
      else Inr (next_id d,
        d\<lparr>ai_audits := ai_audits d @ [\<lparr>AuditID = next_id d, AuditCrawl = crawl, AuditLocation = location,
              AuditSetup = setup, AuditStatus = AuditQueued, AuditError = None\<rparr>],
          next_id := Suc (next_id d)\<rparr>))"

definition fail_audits :: "(audit \<Rightarrow> bool) \<Rightarrow> string \<Rightarrow> db \<Rightarrow> db" where
  "fail_audits P message d =
     d\<lparr>ai_audits := map (\<lambda>a. if P a then a\<lparr>AuditStatus := AuditFailed, AuditError := Some message\<rparr> else a)
        (ai_audits d)\<rparr>"

definition fail_active_ai_audits_for_crawl :: "nat option \<Rightarrow> db \<Rightarrow> db" where
  "fail_active_ai_audits_for_crawl crawl =
     fail_audits (\<lambda>a. crawl \<noteq> None \<and> AuditCrawl a = crawl \<and> AuditLocation a = None \<and> audit_active a)
       ''superseded by project setup retry''"

definition find_audit :: "nat \<Rightarrow> db \<Rightarrow> audit option" where
  "find_audit i d = find (\<lambda>a. AuditID a = i) (ai_audits d)"

text \<open>\<open>None\<close>: the limit is not positive, or the month's audits are used up.\<close>

definition reserve_ai_workspace_monthly_audit :: "int \<Rightarrow> db \<Rightarrow> db option" where
  "reserve_ai_workspace_monthly_audit limit d =
     (if limit > 0 \<and> used_audits d < limit then Some (d\<lparr>used_audits := used_audits d + 1\<rparr>) else None)"

definition features_audit_limit :: "nat option \<Rightarrow> db \<Rightarrow> int option" where
  "features_audit_limit user d = (case user of None \<Rightarrow> None | Some u \<Rightarrow> member_audit_limit d u)"

section \<open>Orphans of a crashed worker\<close>

definition reclaimed_step :: "job_type \<Rightarrow> (project_status \<times> project_step) option" where
  "reclaimed_step t =
     (case t of
        BusinessProfileBootstrapJob \<Rightarrow> Some (ProjectProfileGeneration, StepProfileGeneration)
      | KeywordAnalysisJob \<Rightarrow> Some (ProjectKeywordAnalysis, StepProjectKeywordAnalysis)
      | PromptGenerationJob \<Rightarrow> Some (ProjectPromptGeneration, StepPromptGeneration)
      | VisibilityRunJob \<Rightarrow> Some (ProjectVisibility, StepVisibility)
      | _ \<Rightarrow> None)"

definition location_audit :: "nat option \<Rightarrow> db \<Rightarrow> bool" where
  "location_audit audit d =
     (case audit of None \<Rightarrow> False | Some i \<Rightarrow> list_ex (\<lambda>a. AuditID a = i \<and> AuditLocation a \<noteq> None) (ai_audits d))"

definition reclaims_project :: "db \<Rightarrow> project_setup \<Rightarrow> job \<Rightarrow> bool" where
  "reclaims_project d s j =
     (JobLocation j = None \<and> JobCompetitor j = None
      \<and> (case reclaimed_step (JobType j) of None \<Rightarrow> False | Some (status, _) \<Rightarrow> PsStatus s = status)
      \<and> \<not> (JobType j = VisibilityRunJob \<and> location_audit (JobAudit j) d))"

definition reclaim_project_setup :: "db \<Rightarrow> job list \<Rightarrow> project_setup \<Rightarrow> project_setup" where
  "reclaim_project_setup d stale s =
     (case find (reclaims_project d s) stale of
        None \<Rightarrow> s
      | Some j \<Rightarrow> s\<lparr>PsStatus := ProjectFailed, PsError := Some ''reclaimed: worker restarted during setup; retry'',
            PsFailedStep := map_option snd (reclaimed_step (JobType j)), PsCompletedAt := True\<rparr>)"

definition reclaims_competitor :: "nat \<Rightarrow> competitor_setup \<Rightarrow> job \<Rightarrow> bool" where
  "reclaims_competitor c s j =
     (JobCompetitor j = Some c \<and> CsStatus s = StatusRunning
      \<and> (JobType j = CompetitorKeywordGenerationJob \<and> CsKeywordGenerationStatus s = StepRunning
         \<or> JobType j = CompetitorKeywordAnalysisJob \<and> CsKeywordAnalysisStatus s = StepRunning))"

definition reclaim_competitor_setup :: "job list \<Rightarrow> nat \<Rightarrow> competitor_setup \<Rightarrow> competitor_setup" where
  "reclaim_competitor_setup stale c s =
     (case find (reclaims_competitor c s) stale of
        None \<Rightarrow> s
      | Some j \<Rightarrow>
          if JobType j = CompetitorKeywordGenerationJob
          then s\<lparr>CsStatus := StatusFailed, CsError := Some ''reclaimed: worker restarted during competitor setup; retry'',
                 CsFailedStep := Some StepKeywordGeneration, CsKeywordGenerationStatus := StepFailed, CsCompletedAt := True\<rparr>
          else s\<lparr>CsStatus := StatusFailed, CsError := Some ''reclaimed: worker restarted during competitor setup; retry'',
                 CsFailedStep := Some StepCompetitorKeywordAnalysis, CsKeywordAnalysisStatus := StepFailed, CsCompletedAt := True\<rparr>)"

definition reclaim_stale_running_ai_worker_jobs :: "(nat \<Rightarrow> bool) \<Rightarrow> db \<Rightarrow> db" where
  \<comment> \<open>\<open>old i\<close>: job \<open>i\<close> was started before the cutoff\<close>
  "reclaim_stale_running_ai_worker_jobs old d =
     (let is_stale = (\<lambda>j. JobStatus j = JobRunning \<and> old (JobID j));
          stale = filter is_stale (ai_worker_jobs d);
          d1 = fail_audits (\<lambda>a. audit_active a \<and> AuditLocation a \<noteq> None
                  \<and> list_ex (\<lambda>j. JobType j = VisibilityRunJob \<and> JobAudit j = Some (AuditID a)) stale)
                 ''reclaimed: worker restarted during location audit'' d
      in d1\<lparr>ai_worker_jobs := map (\<lambda>j. if is_stale j then j\<lparr>JobStatus := JobFailed,
                JobError := Some ''reclaimed: worker restarted''\<rparr> else j) (ai_worker_jobs d),
            project_setup_row := map_option (reclaim_project_setup d stale) (project_setup_row d),
            competitor_setup_rows := (\<lambda>c. map_option (reclaim_competitor_setup stale c) (competitor_setup_rows d c))\<rparr>)"

definition reclaim_stale_running_ai_audits :: "(nat \<Rightarrow> bool) \<Rightarrow> db \<Rightarrow> db" where
  "reclaim_stale_running_ai_audits old =
     fail_audits (\<lambda>a. AuditStatus a = AuditRunning \<and> old (AuditID a)) ''reclaimed: stale running audit''"

definition reclaim_stale_running_crawls :: "(nat \<Rightarrow> bool) \<Rightarrow> db \<Rightarrow> db" where
  "reclaim_stale_running_crawls old d =
     (let is_stale = (\<lambda>c. CrawlStatus c = CrawlRunning \<and> old (CrawlRowID c));
          stale = map CrawlRowID (filter is_stale (crawl_rows d))
      in d\<lparr>crawl_rows := map (\<lambda>c. if is_stale c then c\<lparr>CrawlStatus := CrawlFailed\<rparr> else c) (crawl_rows d),
           project_setup_row := map_option (\<lambda>s.
             if PsStatus s = ProjectCrawling \<and> (case PsCrawlID s of None \<Rightarrow> False | Some c \<Rightarrow> c \<in> set stale)
             then s\<lparr>PsStatus := ProjectFailed, PsError := Some ''crawl reclaimed after worker restart'',
                    PsFailedStep := Some StepCrawling, PsCompletedAt := True\<rparr> else s) (project_setup_row d)\<rparr>)"

section \<open>Maps credits\<close>

definition reserve_credits :: "int \<Rightarrow> credits \<Rightarrow> credits option" where
  "reserve_credits n c =
     (if RemainingCredits c - ReservedCredits c \<ge> n then Some (c\<lparr>ReservedCredits := ReservedCredits c + n\<rparr>) else None)"

definition settle_credits :: "int \<Rightarrow> int \<Rightarrow> credits \<Rightarrow> credits" where
  "settle_credits released spent c =
     \<lparr>RemainingCredits = RemainingCredits c - spent, ReservedCredits = ReservedCredits c - released,
      SpentCredits = SpentCredits c + spent\<rparr>"

end
