(* ===== verification/Utf8Cut.thy ===== *)
theory Utf8Cut
  imports WorkerDb "HOL-Library.Sublist"
begin

text \<open>
  The failure text kept on a setup row: at most 500 bytes, cut where a rune starts
  (\<open>capSetupErrorMessage\<close>, \<open>cutError\<close>).
\<close>

lemma cut_back_le: "cut_back m n \<le> n"
  by (induction n) auto

lemma rune_follow_first: "rune_follow a = Some n \<Longrightarrow> \<not> continues_rune a \<and> n \<le> 3"
  by (auto simp: rune_follow_def continues_rune_def split: if_splits)

lemma valid_utf8_rune:
  assumes "valid_utf8 (a # s)"
  shows "\<exists>r t. s = r @ t \<and> \<not> continues_rune a \<and> list_all continues_rune r \<and> length r \<le> 3 \<and> valid_utf8 t
    \<and> valid_utf8 (a # r)"
proof -
  obtain n where n: "rune_follow a = Some n" "n \<le> length s" "list_all continues_rune (take n s)"
    "n = 0 \<or> second_byte_ok a (hd s)" "valid_utf8 (drop n s)"
    using assms by (auto split: option.splits)
  moreover have "n = 0 \<or> hd (take n s) = hd s" using n(2) by (cases s; cases n) auto
  ultimately have "s = take n s @ drop n s \<and> length (take n s) = n \<and> valid_utf8 (a # take n s)" by auto
  with n(3,5) rune_follow_first [OF n(1)] show ?thesis by metis
qed

lemma valid_utf8_append: "valid_utf8 s \<Longrightarrow> valid_utf8 t \<Longrightarrow> valid_utf8 (s @ t)"
proof (induction s rule: valid_utf8.induct)
  case (2 a s)
  then obtain n where n: "rune_follow a = Some n" "n \<le> length s" "list_all continues_rune (take n s)"
    "n = 0 \<or> second_byte_ok a (hd s)" "valid_utf8 (drop n s)"
    by (auto split: option.splits)
  with 2 have "valid_utf8 (drop n s @ t)" by simp
  moreover have "n = 0 \<or> hd (s @ t) = hd s" using n(2) by (cases s) auto
  ultimately show ?case using n by auto
qed simp

lemma cut_back_rune:
  assumes "\<not> continues_rune a" "list_all continues_rune r" "n \<le> length r"
  shows "cut_back (a # r @ t) n = 0"
  using assms(3)
proof (induction n)
  case (Suc n)
  then have "continues_rune ((r @ t) ! n)" using assms(2) by (auto simp: nth_append list_all_length)
  with Suc show ?case by simp
qed simp

lemma cut_back_skip:
  "(t = [] \<or> \<not> continues_rune (hd t)) \<Longrightarrow> n < length t \<Longrightarrow> 0 < length s \<Longrightarrow>
    cut_back (s @ t) (length s + n) = length s + cut_back t n"
proof (induction n)
  case 0
  then have "\<not> continues_rune ((s @ t) ! length s)" by (cases t) auto
  moreover obtain m where m: "length s = Suc m" using 0 by (cases "length s") auto
  ultimately have "cut_back (s @ t) (Suc m) = Suc m" unfolding m by (simp only: cut_back.simps if_False)
  then show ?case unfolding m by simp
next
  case (Suc n)
  then have "(s @ t) ! Suc (length s + n) = t ! Suc n" by (simp add: nth_append)
  with Suc show ?case by simp
qed

lemma cut_back_valid:
  "valid_utf8 s \<Longrightarrow> n < length s \<Longrightarrow> valid_utf8 (take (cut_back s n) s) \<and> n \<le> cut_back s n + 3"
proof (induction s arbitrary: n rule: length_induct)
  case (1 s)
  then obtain a s' where s: "s = a # s'" by (cases s) auto
  from valid_utf8_rune [of a s'] 1 s obtain r t where r: "s' = r @ t" "\<not> continues_rune a" "list_all continues_rune r" "length r \<le> 3"
    "valid_utf8 t" "valid_utf8 (a # r)" by blast
  have hd: "t = [] \<or> \<not> continues_rune (hd t)" 
  proof (cases t)
    case (Cons b t')
    with r(5) have "valid_utf8 (b # t')" by (simp only:)
    from valid_utf8_rune [OF this] Cons show ?thesis by auto
  qed simp
  show ?case
  proof (cases "n \<le> length r")
    case True
    with cut_back_rune [OF r(2,3), of n t] show ?thesis using r by (simp add: s)
  next
    case False
    then obtain k where k: "n = length (a # r) + k" by (metis Suc_leI le_Suc_ex length_Cons not_le)
    with 1 s r have kt: "k < length t" by simp
    have "cut_back s n = length (a # r) + cut_back t k"
      using cut_back_skip [OF hd kt, of "a # r"] k s r by simp
    moreover have "valid_utf8 (take (cut_back t k) t) \<and> k \<le> cut_back t k + 3"
      using 1 s r kt by simp
    ultimately show ?thesis using valid_utf8_append [OF r(6)] k s r by simp
  qed
qed

text \<open>
  C36: A failure message is stored with at most 500 bytes, as a prefix of the message, unchanged
  when it fits; a valid UTF-8 message stays valid UTF-8 and loses at most three bytes more than
  it must.
\<close>

theorem cap_setup_error_message_utf8:
  "length (cap_setup_error_message m) \<le> 500 \<and> prefix (cap_setup_error_message m) m
    \<and> (length m \<le> 500 \<longrightarrow> cap_setup_error_message m = m)
    \<and> (valid_utf8 m \<longrightarrow> valid_utf8 (cap_setup_error_message m)
        \<and> min 497 (length m) \<le> length (cap_setup_error_message m))"
proof (cases "length m \<le> 500")
  case True
  then show ?thesis by (simp add: cap_setup_error_message_def maxSetupErrorMessageLength_def)
next
  case False
  then have c: "cap_setup_error_message m = take (cut_back m 500) m"
    by (simp add: cap_setup_error_message_def maxSetupErrorMessageLength_def)
  have le: "cut_back m 500 \<le> 500" by (rule cut_back_le)
  have "length (take (cut_back m 500) m) = cut_back m 500" using le False by simp
  moreover have "valid_utf8 (take (cut_back m 500) m) \<and> 500 \<le> cut_back m 500 + 3" if "valid_utf8 m"
    using cut_back_valid [OF that, of 500] False by simp
  ultimately show ?thesis using le False unfolding c by (auto simp: take_is_prefix)
qed

theorem cap_setup_error_message_utf8_witness:
  "let m = replicate 499 (CHR ''x'') @ [CHR 0xC3, CHR 0xA9, CHR ''y''] in
     valid_utf8 m \<and> valid_utf8 (cap_setup_error_message m) \<and> 497 \<le> length (cap_setup_error_message m)"
proof -
  let ?m = "replicate 499 (CHR ''x'') @ [CHR 0xC3, CHR 0xA9, CHR ''y'']"
  have x: "valid_utf8 (replicate n (CHR ''x'') @ t) = valid_utf8 t" for n t by (induction n) (simp_all add: rune_follow_def)
  have v: "valid_utf8 ?m" unfolding x by (simp add: continues_rune_def rune_follow_def second_byte_ok_def)
  with cap_setup_error_message_utf8 [of ?m] show ?thesis by simp
qed

end
