(* ===== verification/ProjectSetup.thy ===== *)
theory ProjectSetup
  imports WorkerDb
begin

text \<open>
  The project setup workflow: \<open>internal/projectsetup/project_setup.go\<close> (start, resume, the
  crawl's terminal events) and the finalization of its worker jobs in
  \<open>internal/aiaudit/setup_finalization.go\<close>. Every function runs in one transaction: \<open>Inl\<close> is an
  error, on which the caller rolls back.
\<close>

section \<open>Crawl events\<close>

definition on_crawl_completed :: "nat \<Rightarrow> db \<Rightarrow> db" where
  "on_crawl_completed crawl d =
     (case advance_project_setup_from_crawling crawl ProjectProfileGeneration None None d of
        None \<Rightarrow> d
      | Some (_, d1) \<Rightarrow> enqueue_ai_worker_job BusinessProfileBootstrapJob None d1)"

definition on_crawl_failed :: "nat \<Rightarrow> string \<Rightarrow> db \<Rightarrow> db" where
  "on_crawl_failed crawl message d =
     (case advance_project_setup_from_crawling crawl ProjectFailed
             (pgnull_text (cap_setup_error_message message)) (Some StepCrawling) d of
        None \<Rightarrow> d
      | Some (_, d1) \<Rightarrow> d1)"

section \<open>Start and resume\<close>

definition resume_setup ::
    "nat \<Rightarrow> project_status \<Rightarrow> job_type option \<Rightarrow> nat option \<Rightarrow> db \<Rightarrow> (project_setup \<times> db) result" where
  "resume_setup user status jobType crawl d =
     (case update_project_setup_status \<lparr>UpdStatus = status, UpdRequestedBy = Some user, UpdError = None,
             UpdFailedStep = None, UpdSkipReason = None, UpdCrawlID = crawl, UpdExpected = ProjectFailed\<rparr> d of
        None \<Rightarrow> Inl ''project setup resume conflict''
      | Some (s, d1) \<Rightarrow>
          (case jobType of None \<Rightarrow> Inr (s, d1) | Some t \<Rightarrow> Inr (s, enqueue_ai_worker_job t None d1)))"

definition resume_failed_setup ::
    "nat \<Rightarrow> (db \<Rightarrow> (nat \<times> db) result) \<Rightarrow> project_setup \<Rightarrow> db \<Rightarrow> (project_setup \<times> db) result" where
  "resume_failed_setup user startCrawl s d =
     (case PsFailedStep s of
        Some StepCrawling \<Rightarrow>
          bind_result (startCrawl d) (\<lambda>(crawl, d1). resume_setup user ProjectCrawling None (Some crawl) d1)
      | Some StepProfileGeneration \<Rightarrow>
          resume_setup user ProjectProfileGeneration (Some BusinessProfileBootstrapJob) None d
      | Some StepProjectKeywordAnalysis \<Rightarrow>
          resume_setup user ProjectKeywordAnalysis (Some KeywordAnalysisJob) None d
      | Some StepPromptGeneration \<Rightarrow>
          resume_setup user ProjectPromptGeneration (Some PromptGenerationJob) None d
      | Some StepVisibility \<Rightarrow>
          resume_setup user ProjectPromptGeneration (Some PromptGenerationJob) None d
      | None \<Rightarrow> Inl ''project setup failed step is missing or invalid'')"

text \<open>The result is the row, whether this call started it, and the new tables.\<close>

definition start_or_resume ::
    "nat \<Rightarrow> (db \<Rightarrow> (nat \<times> db) result) \<Rightarrow> db \<Rightarrow> (project_setup \<times> bool \<times> db) result" where
  "start_or_resume user startCrawl d =
     (case project_setup_row d of
        None \<Rightarrow> Inl ''project setup not found''
      | Some s \<Rightarrow>
          (case PsStatus s of
             ProjectReady \<Rightarrow>
               bind_result (startCrawl d) (\<lambda>(crawl, d1).
                 case start_project_setup user crawl d1 of
                   None \<Rightarrow> Inl ''project setup resume conflict''
                 | Some (started, d2) \<Rightarrow> Inr (started, True, d2))
           | ProjectFailed \<Rightarrow>
               bind_result (resume_failed_setup user startCrawl s d) (\<lambda>(updated, d1). Inr (updated, False, d1))
           | _ \<Rightarrow> Inr (s, False, d)))"

section \<open>Finalization of the setup jobs\<close>

definition transition :: "project_status \<Rightarrow> project_status \<Rightarrow> project_update" where
  "transition status expected = \<lparr>UpdStatus = status, UpdRequestedBy = None, UpdError = None, UpdFailedStep = None,
     UpdSkipReason = None, UpdCrawlID = None, UpdExpected = expected\<rparr>"

definition finalize_bootstrap_success :: "nat \<Rightarrow> db \<Rightarrow> db" where
  "finalize_bootstrap_success job d =
     (case project_setup_row d of
        None \<Rightarrow> mark_ai_worker_job_completed job d
      | Some s \<Rightarrow>
          (let d1 = (if PsStatus s = ProjectProfileGeneration then
                       (case update_project_setup_status (transition ProjectKeywordAnalysis ProjectProfileGeneration) d of
                          None \<Rightarrow> d
                        | Some (_, d2) \<Rightarrow> enqueue_ai_worker_job KeywordAnalysisJob None d2)
                     else d)
           in mark_ai_worker_job_completed job d1))"

definition finalize_keyword_analysis_success :: "nat \<Rightarrow> db \<Rightarrow> db" where
  "finalize_keyword_analysis_success job d =
     (case project_setup_row d of
        None \<Rightarrow> mark_ai_worker_job_completed job d
      | Some s \<Rightarrow>
          if PsStatus s \<noteq> ProjectKeywordAnalysis then mark_ai_worker_job_completed job d
          else (let d1 = (case update_project_setup_status (transition ProjectPromptGeneration ProjectKeywordAnalysis) d of
                            None \<Rightarrow> d
                          | Some (_, d2) \<Rightarrow> enqueue_ai_worker_job PromptGenerationJob None d2)
                in mark_ai_worker_job_completed job d1))"

definition complete_setup_with_visibility_skip :: "nat \<Rightarrow> string \<Rightarrow> db \<Rightarrow> db" where
  "complete_setup_with_visibility_skip job reason d =
     (case update_project_setup_status
             ((transition ProjectCompleted ProjectPromptGeneration)\<lparr>UpdSkipReason := Some reason\<rparr>) d of
        None \<Rightarrow> mark_ai_worker_job_completed job d
      | Some (_, d1) \<Rightarrow> mark_ai_worker_job_completed job d1)"

definition visibilityDisabledSkipReason :: string where
  "visibilityDisabledSkipReason = ''visibility audits are disabled for this workspace''"

definition visibilityQuotaSkipReason :: string where
  "visibilityQuotaSkipReason = ''visibility audit monthly limit reached''"

definition finalize_prompt_generation_success :: "nat \<Rightarrow> db \<Rightarrow> db result" where
  "finalize_prompt_generation_success job d =
     (case project_setup_row d of
        None \<Rightarrow> Inr (mark_ai_worker_job_completed job d)
      | Some s \<Rightarrow>
          if PsStatus s \<noteq> ProjectPromptGeneration then Inr (mark_ai_worker_job_completed job d)
          else (case features_audit_limit (PsRequestedBy s) d of
              None \<Rightarrow> Inl ''load organization features for visibility''
            | Some limit \<Rightarrow>
                if limit \<le> 0
                then Inr (complete_setup_with_visibility_skip job visibilityDisabledSkipReason d)
                else (case reserve_ai_workspace_monthly_audit limit d of
                    None \<Rightarrow> Inr (complete_setup_with_visibility_skip job visibilityQuotaSkipReason d)
                  | Some d1 \<Rightarrow>
                      (let d2 = fail_active_ai_audits_for_crawl (PsCrawlID s) d1 in
                       bind_result (create_ai_audit (PsCrawlID s) None (Some (PsID s)) d2) (\<lambda>(audit, d3).
                         let d4 = enqueue_ai_worker_job VisibilityRunJob (Some audit) d3 in
                         case update_project_setup_status (transition ProjectVisibility ProjectPromptGeneration) d4 of
                           None \<Rightarrow> Inr (mark_ai_worker_job_completed job d4)
                         | Some (_, d5) \<Rightarrow> Inr (mark_ai_worker_job_completed job d5))))))"

definition finalize_visibility_success :: "nat \<Rightarrow> audit_status \<Rightarrow> db \<Rightarrow> db" where
  "finalize_visibility_success job auditStatus d =
     (case project_setup_row d of
        None \<Rightarrow> mark_ai_worker_job_completed job d
      | Some s \<Rightarrow>
          if PsStatus s \<noteq> ProjectVisibility then mark_ai_worker_job_completed job d
          else (let u = (if auditStatus = AuditFailed
                         then (transition ProjectFailed ProjectVisibility)\<lparr>UpdError := Some ''visibility audit failed'',
                                UpdFailedStep := Some StepVisibility\<rparr>
                         else transition ProjectCompleted ProjectVisibility)
                in mark_ai_worker_job_completed job
                     (case update_project_setup_status u d of None \<Rightarrow> d | Some (_, d1) \<Rightarrow> d1)))"

definition fail_setup_at_step :: "project_status \<Rightarrow> project_step \<Rightarrow> string \<Rightarrow> db \<Rightarrow> db" where
  "fail_setup_at_step expected step message d =
     (case update_project_setup_status ((transition ProjectFailed expected)\<lparr>UpdError := pgnull_text (cap_setup_error_message message),
             UpdFailedStep := Some step\<rparr>) d of
        None \<Rightarrow> d
      | Some (_, d1) \<Rightarrow> d1)"

definition mark_job_failed :: "nat \<Rightarrow> string \<Rightarrow> db \<Rightarrow> db" where
  "mark_job_failed job message = mark_ai_worker_job_failed job (pgnull_text (cap_setup_error_message message))"

definition finalize_bootstrap_failure :: "nat \<Rightarrow> string \<Rightarrow> db \<Rightarrow> db" where
  "finalize_bootstrap_failure job message d =
     fail_setup_at_step ProjectProfileGeneration StepProfileGeneration message (mark_job_failed job message d)"

definition finalize_keyword_analysis_failure :: "nat \<Rightarrow> string \<Rightarrow> db \<Rightarrow> db" where
  "finalize_keyword_analysis_failure job message d =
     fail_setup_at_step ProjectKeywordAnalysis StepProjectKeywordAnalysis message (mark_job_failed job message d)"

definition finalize_prompt_generation_failure :: "nat \<Rightarrow> string \<Rightarrow> db \<Rightarrow> db" where
  "finalize_prompt_generation_failure job message d =
     fail_setup_at_step ProjectPromptGeneration StepPromptGeneration message (mark_job_failed job message d)"

definition finalize_visibility_failure :: "nat \<Rightarrow> string \<Rightarrow> db \<Rightarrow> db" where
  "finalize_visibility_failure job message d =
     fail_setup_at_step ProjectVisibility StepVisibility message (mark_job_failed job message d)"

end
