(* ===== verification/CompetitorSetup.thy ===== *)
theory CompetitorSetup
  imports WorkerDb
begin

text \<open>
  The competitor initialization workflow: \<open>internal/competitorsetup/competitorsetup.go\<close>, the
  statements of \<open>competitor_setup\<close> it runs, and the child crawl it starts
  (\<open>internal/competitorcrawls/enqueue_one.go\<close>). The step reasons are a map, the crawl's
  configuration snapshot is not kept.
\<close>

section \<open>Statements\<close>

definition create_competitor_setup :: "nat \<Rightarrow> nat \<Rightarrow> nat option \<Rightarrow> db \<Rightarrow> (competitor_setup \<times> db) option" where
  "create_competitor_setup c user parent d =
     (case competitor_setup_rows d c of
        Some _ \<Rightarrow> None
      | None \<Rightarrow>
          (let s = \<lparr>CsRequestedBy = Some user, CsParentCrawlID = parent, CsCrawlID = None, CsStatus = StatusRunning,
                   CsCrawlStatus = StepPending, CsKeywordGenerationStatus = StepPending,
                   CsKeywordAnalysisStatus = StepPending, CsError = None, CsFailedStep = None,
                   CsStepReasons = Map.empty, CsCompletedAt = False\<rparr>
           in Some (s, d\<lparr>competitor_setup_rows := (competitor_setup_rows d)(c := Some s)\<rparr>)))"

record competitor_update =
  CuRequestedBy :: "nat option"
  CuParentCrawlID :: "nat option"
  CuCrawlID :: "nat option"
  CuStatus :: setup_status
  CuCrawlStatus :: step_status
  CuKeywordGenerationStatus :: step_status
  CuKeywordAnalysisStatus :: step_status
  CuError :: "string option"
  CuFailedStep :: "competitor_step option"
  CuStepReasons :: "competitor_step \<rightharpoonup> string"

definition update_competitor_setup :: "nat \<Rightarrow> competitor_update \<Rightarrow> db \<Rightarrow> (competitor_setup \<times> db) result" where
  "update_competitor_setup c arg d =
     (case competitor_setup_rows d c of
        None \<Rightarrow> Inl ''no rows in result set''
      | Some s \<Rightarrow>
          (let s' = \<lparr>CsRequestedBy = coalesce (CuRequestedBy arg) (CsRequestedBy s),
                    CsParentCrawlID = coalesce (CuParentCrawlID arg) (CsParentCrawlID s),
                    CsCrawlID = coalesce (CuCrawlID arg) (CsCrawlID s),
                    CsStatus = CuStatus arg, CsCrawlStatus = CuCrawlStatus arg,
                    CsKeywordGenerationStatus = CuKeywordGenerationStatus arg,
                    CsKeywordAnalysisStatus = CuKeywordAnalysisStatus arg,
                    CsError = CuError arg, CsFailedStep = CuFailedStep arg, CsStepReasons = CuStepReasons arg,
                    CsCompletedAt = (CuStatus arg \<in> {StatusCompleted, StatusFailed})\<rparr>
           in Inr (s', d\<lparr>competitor_setup_rows := (competitor_setup_rows d)(c := Some s')\<rparr>)))"

text \<open>The latest child of a parent crawl for a competitor.\<close>

definition child_crawl :: "nat option \<Rightarrow> nat \<Rightarrow> db \<Rightarrow> crawl_row option" where
  "child_crawl parent c d =
     find (\<lambda>r. parent \<noteq> None \<and> CrawlParent r = parent \<and> CrawlCompetitor r = Some c) (rev (crawl_rows d))"

section \<open>The child crawl\<close>

definition enqueue_one_competitor_crawl :: "nat option \<Rightarrow> nat \<Rightarrow> db \<Rightarrow> nat option \<times> db" where
  "enqueue_one_competitor_crawl parent c d =
     (case find (\<lambda>r. Some (CrawlRowID r) = parent) (crawl_rows d) of
        None \<Rightarrow> (None, d)
      | Some p \<Rightarrow>
          if CrawlStatus p \<noteq> CrawlCompleted then (None, d)
          else if \<not> CrawlManualLike p then (None, d)
          else if CrawlPageCount p = 0 then (None, d)
          else (let create = (\<lambda>d. (Some (next_id d),
                      d\<lparr>crawl_rows := crawl_rows d @ [\<lparr>CrawlRowID = next_id d, CrawlParent = parent,
                           CrawlCompetitor = Some c, CrawlStatus = CrawlQueued, CrawlManualLike = False,
                           CrawlPageCount = 0\<rparr>], next_id := Suc (next_id d)\<rparr>))
                in (case child_crawl parent c d of
                      None \<Rightarrow> create d
                    | Some r \<Rightarrow>
                        if CrawlStatus r \<in> {CrawlFailed, CrawlCancelled}
                        then create (d\<lparr>crawl_rows := filter (\<lambda>r. \<not> (CrawlParent r = parent \<and> CrawlCompetitor r = Some c
                               \<and> CrawlStatus r \<in> {CrawlFailed, CrawlCancelled})) (crawl_rows d)\<rparr>)
                        else (Some (CrawlRowID r), d))))"

definition enqueue_initialization_crawl :: "nat \<Rightarrow> nat option \<Rightarrow> db \<Rightarrow> (nat \<times> db) result" where
  "enqueue_initialization_crawl c parent d =
     (case enqueue_one_competitor_crawl parent c d of
        (None, _) \<Rightarrow> Inl ''a completed project crawl is required''
      | (Some crawl, d1) \<Rightarrow> Inr (crawl, d1))"

section \<open>Transitions\<close>

record setup_change =
  ChRequestedBy :: "nat option"
  ChStatus :: setup_status
  ChCrawlStatus :: step_status
  ChGenerationStatus :: step_status
  ChAnalysisStatus :: step_status
  ChParent :: "nat option"
  ChEnqueue :: "job_type option"
  ChCrawlID :: "nat option"

text \<open>Every caller of \<open>updateSetup\<close> passes an empty failed step and message, and never the status
  \<open>failed\<close>.\<close>

definition update_setup :: "nat \<Rightarrow> competitor_setup \<Rightarrow> setup_change \<Rightarrow> db \<Rightarrow> (competitor_setup \<times> db) result" where
  "update_setup c s ch d =
     bind_result (update_competitor_setup c \<lparr>CuRequestedBy = ChRequestedBy ch, CuParentCrawlID = ChParent ch,
         CuCrawlID = ChCrawlID ch, CuStatus = ChStatus ch, CuCrawlStatus = ChCrawlStatus ch,
         CuKeywordGenerationStatus = ChGenerationStatus ch, CuKeywordAnalysisStatus = ChAnalysisStatus ch,
         CuError = None, CuFailedStep = None, CuStepReasons = CsStepReasons s\<rparr> d) (\<lambda>(s', d1).
       case ChEnqueue ch of None \<Rightarrow> Inr (s', d1) | Some t \<Rightarrow> Inr (s', enqueue_competitor_ai_worker_job t c d1))"

definition change :: "nat option \<Rightarrow> setup_status \<Rightarrow> step_status \<Rightarrow> step_status \<Rightarrow> step_status \<Rightarrow> setup_change" where
  "change user status crawl generation analysis =
     \<lparr>ChRequestedBy = user, ChStatus = status, ChCrawlStatus = crawl, ChGenerationStatus = generation,
      ChAnalysisStatus = analysis, ChParent = None, ChEnqueue = None, ChCrawlID = None\<rparr>"

definition competitor_fail_setup_at_step ::
    "nat \<Rightarrow> competitor_setup \<Rightarrow> competitor_step \<Rightarrow> string \<Rightarrow> db \<Rightarrow> (competitor_setup \<times> db) result" where
  "competitor_fail_setup_at_step c s step message d =
     (let m = cap_setup_error_message message in
      update_competitor_setup c \<lparr>CuRequestedBy = None, CuParentCrawlID = None, CuCrawlID = None, CuStatus = StatusFailed,
         CuCrawlStatus = (if step = StepCrawl then StepFailed else CsCrawlStatus s),
         CuKeywordGenerationStatus = (if step = StepKeywordGeneration then StepFailed else CsKeywordGenerationStatus s),
         CuKeywordAnalysisStatus = (if step = StepCompetitorKeywordAnalysis then StepFailed else CsKeywordAnalysisStatus s),
         CuError = (if m = [] then None else Some m), CuFailedStep = Some step,
         CuStepReasons = [step \<mapsto> m]\<rparr> d)"

text \<open>The parent crawl to start under, and the parent to store when the row's own is gone.\<close>

definition effective_parent :: "competitor_setup \<Rightarrow> nat option \<Rightarrow> nat option \<times> nat option" where
  "effective_parent s parent =
     (if CsParentCrawlID s \<noteq> None then (CsParentCrawlID s, None) else (parent, parent))"

type_synonym create_crawl = "nat option \<Rightarrow> db \<Rightarrow> (nat \<times> db) result"

definition start_crawl_step ::
    "nat \<Rightarrow> competitor_setup \<Rightarrow> nat option \<Rightarrow> nat option \<Rightarrow> create_crawl \<Rightarrow> db \<Rightarrow> (competitor_setup \<times> db) result" where
  "start_crawl_step c s user parent createCrawl d =
     (let (p, repin) = effective_parent s parent in
      bind_result (createCrawl p d) (\<lambda>(crawl, d1).
        update_setup c s ((change user StatusRunning StepRunning StepPending StepPending)
          \<lparr>ChParent := repin, ChCrawlID := Some crawl\<rparr>) d1))"

definition reconcile_running ::
    "nat \<Rightarrow> competitor_setup \<Rightarrow> nat option \<Rightarrow> nat option \<Rightarrow> create_crawl option \<Rightarrow> db \<Rightarrow> (competitor_setup \<times> db) result" where
  "reconcile_running c s user parent createCrawl d =
     (if CsCrawlStatus s \<noteq> StepRunning then
        (if CsCrawlStatus s = StepPending
         then (case createCrawl of
                 Some create \<Rightarrow> start_crawl_step c s user parent create d
               | None \<Rightarrow> Inr (s, d))
         else Inr (s, d))
      else (case child_crawl (CsParentCrawlID s) c d of
              None \<Rightarrow> (case createCrawl of
                         None \<Rightarrow> Inr (s, d)
                       | Some create \<Rightarrow> start_crawl_step c s user parent create d)
            | Some child \<Rightarrow>
                (case CrawlStatus child of
                   CrawlCompleted \<Rightarrow>
                     update_setup c s ((change user StatusRunning StepCompleted StepRunning StepPending)
                       \<lparr>ChEnqueue := Some CompetitorKeywordGenerationJob\<rparr>) d
                 | CrawlFailed \<Rightarrow> competitor_fail_setup_at_step c s StepCrawl ''competitor crawl failed'' d
                 | CrawlCancelled \<Rightarrow> competitor_fail_setup_at_step c s StepCrawl ''competitor crawl cancelled'' d
                 | _ \<Rightarrow> Inr (s, d))))"

definition competitor_resume_failed_setup ::
    "nat \<Rightarrow> competitor_setup \<Rightarrow> nat option \<Rightarrow> nat option \<Rightarrow> create_crawl option \<Rightarrow> db \<Rightarrow> (competitor_setup \<times> db) result" where
  "competitor_resume_failed_setup c s user parent createCrawl d =
     (case CsFailedStep s of
        Some StepCrawl \<Rightarrow>
          (case createCrawl of
             None \<Rightarrow> Inl ''competitor setup failed step is missing or invalid''
           | Some create \<Rightarrow> start_crawl_step c s user parent create d)
      | Some StepKeywordGeneration \<Rightarrow>
          update_setup c s ((change user StatusRunning StepCompleted StepRunning StepPending)
            \<lparr>ChEnqueue := Some CompetitorKeywordGenerationJob\<rparr>) d
      | Some StepCompetitorKeywordAnalysis \<Rightarrow>
          update_setup c s ((change user StatusRunning StepCompleted StepCompleted StepRunning)
            \<lparr>ChEnqueue := Some CompetitorKeywordAnalysisJob\<rparr>) d
      | None \<Rightarrow> Inl ''competitor setup failed step is missing or invalid'')"

definition competitor_start_or_resume ::
    "nat \<Rightarrow> nat \<Rightarrow> nat option \<Rightarrow> create_crawl \<Rightarrow> db \<Rightarrow> (competitor_setup \<times> bool \<times> db) result" where
  "competitor_start_or_resume c user parent createCrawl d =
     (case competitor_setup_rows d c of
        None \<Rightarrow>
          (case (case create_competitor_setup c user parent d of
                   None \<Rightarrow> map_option (\<lambda>s. (s, d)) (competitor_setup_rows d c)
                 | Some created \<Rightarrow> Some created) of
             None \<Rightarrow> Inl ''lock competitor setup''
           | Some (s, d1) \<Rightarrow>
               bind_result (reconcile_running c s (Some user) (CsParentCrawlID s) (Some createCrawl) d1)
                 (\<lambda>(s', d2). Inr (s', True, d2)))
      | Some s \<Rightarrow>
          (case CsStatus s of
             StatusCompleted \<Rightarrow> Inr (s, False, d)
           | StatusFailed \<Rightarrow>
               bind_result (competitor_resume_failed_setup c s (Some user) parent (Some createCrawl) d)
                 (\<lambda>(s', d1). Inr (s', False, d1))
           | StatusRunning \<Rightarrow>
               bind_result (reconcile_running c s (Some user) parent (Some createCrawl) d)
                 (\<lambda>(s', d1). Inr (s', False, d1))))"

definition competitor_reconcile :: "nat \<Rightarrow> db \<Rightarrow> (competitor_setup \<times> db) result" where
  "competitor_reconcile c d =
     (case competitor_setup_rows d c of
        None \<Rightarrow> Inl ''competitor setup not found''
      | Some s \<Rightarrow>
          if CsStatus s \<noteq> StatusRunning then Inr (s, d)
          else reconcile_running c s None (CsParentCrawlID s) None d)"

section \<open>Finalization of the competitor jobs\<close>

definition finalize_generation_success :: "nat \<Rightarrow> nat \<Rightarrow> db \<Rightarrow> db result" where
  "finalize_generation_success job c d =
     (case competitor_setup_rows d c of
        None \<Rightarrow> Inl ''lock competitor setup''
      | Some s \<Rightarrow>
          if CsStatus s \<noteq> StatusRunning \<or> CsKeywordGenerationStatus s \<noteq> StepRunning
          then Inr (mark_ai_worker_job_completed job d)
          else bind_result (update_setup c s ((change None StatusRunning StepCompleted StepCompleted StepRunning)
                   \<lparr>ChEnqueue := Some CompetitorKeywordAnalysisJob\<rparr>) d)
                 (\<lambda>(_, d1). Inr (mark_ai_worker_job_completed job d1)))"

definition finalize_analysis_success :: "nat \<Rightarrow> nat \<Rightarrow> db \<Rightarrow> db result" where
  "finalize_analysis_success job c d =
     (case competitor_setup_rows d c of
        None \<Rightarrow> Inl ''lock competitor setup''
      | Some s \<Rightarrow>
          if CsStatus s \<noteq> StatusRunning \<or> CsKeywordAnalysisStatus s \<noteq> StepRunning
          then Inr (mark_ai_worker_job_completed job d)
          else bind_result (update_setup c s (change None StatusCompleted StepCompleted StepCompleted StepCompleted) d)
                 (\<lambda>(_, d1). Inr (mark_ai_worker_job_completed job d1)))"

definition finalize_step_failure :: "nat \<Rightarrow> competitor_step \<Rightarrow> string \<Rightarrow> db \<Rightarrow> db result" where
  "finalize_step_failure c step message d =
     (case competitor_setup_rows d c of
        None \<Rightarrow> Inl ''lock competitor setup''
      | Some s \<Rightarrow>
          if CsStatus s \<noteq> StatusRunning then Inr d
          else (case (case step of
                        StepKeywordGeneration \<Rightarrow> Some (CsKeywordGenerationStatus s)
                      | StepCompetitorKeywordAnalysis \<Rightarrow> Some (CsKeywordAnalysisStatus s)
                      | StepCrawl \<Rightarrow> None) of
                  None \<Rightarrow> Inl ''competitor setup failed step is missing or invalid''
                | Some expected \<Rightarrow>
                    if expected \<noteq> StepRunning then Inr d
                    else bind_result (competitor_fail_setup_at_step c s step message d) (\<lambda>(_, d1). Inr d1)))"

section \<open>The screen\<close>

record step_view =
  ViewStep :: competitor_step
  ViewStepStatus :: step_status
  ViewReason :: string

record setup_view =
  ViewStatus :: "setup_status option"  \<comment> \<open>\<open>None\<close>: ready\<close>
  ViewSteps :: "step_view list"
  ViewError :: string

definition orderedCompetitorSteps :: "competitor_step list" where
  "orderedCompetitorSteps = [StepCrawl, StepKeywordGeneration, StepCompetitorKeywordAnalysis]"

definition missing_view :: setup_view where
  "missing_view = \<lparr>ViewStatus = None,
     ViewSteps = map (\<lambda>i. \<lparr>ViewStep = i, ViewStepStatus = StepPending, ViewReason = []\<rparr>) orderedCompetitorSteps,
     ViewError = []\<rparr>"

definition step_of :: "competitor_setup \<Rightarrow> competitor_step \<Rightarrow> step_status" where
  "step_of s i =
     (case i of StepCrawl \<Rightarrow> CsCrawlStatus s | StepKeywordGeneration \<Rightarrow> CsKeywordGenerationStatus s
      | StepCompetitorKeywordAnalysis \<Rightarrow> CsKeywordAnalysisStatus s)"

definition text_of :: "string option \<Rightarrow> string" where
  "text_of v = (case v of None \<Rightarrow> [] | Some t \<Rightarrow> t)"

definition row_view :: "competitor_setup \<Rightarrow> setup_view" where
  "row_view s =
     \<lparr>ViewStatus = Some (CsStatus s),
      ViewSteps = map (\<lambda>i. \<lparr>ViewStep = i, ViewStepStatus = step_of s i,
          ViewReason = (if step_of s i = StepFailed
                        then (if text_of (CsStepReasons s i) = [] then text_of (CsError s) else text_of (CsStepReasons s i))
                        else [])\<rparr>) orderedCompetitorSteps,
      ViewError = text_of (CsError s)\<rparr>"

end
