(* ===== verification/LocationSetup.thy ===== *)
theory LocationSetup
  imports WorkerDb
begin

text \<open>
  The location setup workflow, package \<open>internal/locationsetup\<close>: one row per location with seven
  steps, the jobs that carry them out and the launches of the AI audit and of the maps run. A
  \<open>Setup\<close> value read from the row is passed by value, but its map of steps is shared: a
  function that writes \<open>setup.Steps\<close> returns the changed value, while \<open>setup.Reasons\<close> stays what
  was read. The grid and viewports of a maps run are a parameter, since they are computed with
  trigonometric functions: \<open>grid latitude longitude radius\<close>.
\<close>

section \<open>Steps\<close>

definition orderedSteps :: "location_step list" where
  "orderedSteps = [StepPrepare, StepProfile, StepKeywordAnalysis, StepQuestions, StepMapQueries, StepAIVisibility,
     StepMapsVisibility]"

definition overall_status :: "(location_step \<Rightarrow> step_status) \<Rightarrow> setup_status" where
  "overall_status steps =
     (if list_ex (\<lambda>i. steps i = StepFailed) orderedSteps then StatusFailed
      else if list_ex (\<lambda>i. steps i \<noteq> StepCompleted \<and> steps i \<noteq> StepSkipped) orderedSteps then StatusRunning
      else StatusCompleted)"

definition normalize_differences :: "string \<Rightarrow> string result" where
  "normalize_differences raw =
     (let trimmed = trim_space raw in
      if length trimmed > 2000 then Inl ''differences must be at most 2000 characters''
      else if \<not> valid_utf8 trimmed then Inl ''differences must be valid UTF-8''
      else Inr trimmed)"

definition apply_differences :: "string \<Rightarrow> string \<Rightarrow> string" where
  "apply_differences stored incoming = (if stored \<noteq> [] \<or> incoming = [] then stored else incoming)"

record launches =
  LaunchProfile :: bool
  LaunchQuestions :: bool
  LaunchMapQueries :: bool
  LaunchAIAudit :: bool
  LaunchMapsRun :: bool

definition unfinished :: "step_status \<Rightarrow> bool" where
  "unfinished s = (s \<noteq> StepCompleted \<and> s \<noteq> StepSkipped)"

definition launchable :: "(location_step \<Rightarrow> step_status) \<Rightarrow> launches" where
  "launchable steps =
     (if steps StepProfile \<noteq> StepCompleted
      then \<lparr>LaunchProfile = True, LaunchQuestions = False, LaunchMapQueries = False, LaunchAIAudit = False,
            LaunchMapsRun = False\<rparr>
      else \<lparr>LaunchProfile = False,
            LaunchQuestions = unfinished (steps StepQuestions),
            LaunchMapQueries = unfinished (steps StepMapQueries),
            LaunchAIAudit = (steps StepQuestions = StepCompleted \<and> unfinished (steps StepAIVisibility)),
            LaunchMapsRun = (steps StepMapQueries = StepCompleted \<and> unfinished (steps StepMapsVisibility))\<rparr>)"

section \<open>Credits\<close>

definition gridPointCount :: int where "gridPointCount = 9"
definition mapsCreditsPerCall :: int where "mapsCreditsPerCall = 3"
definition maxRunCredits :: int where "maxRunCredits = 2 ^ 31 - 1"
definition maxMapQueries :: int where "maxMapQueries = maxRunCredits div (gridPointCount * mapsCreditsPerCall)"

definition expected_run_credits :: "int \<Rightarrow> int \<Rightarrow> int result" where
  "expected_run_credits queryCount pointCount =
     (if queryCount < 1 then Inl ''expected run credits: want at least 1''
      else if pointCount \<noteq> gridPointCount then Inl ''expected run credits: grid point count''
      else if queryCount > maxMapQueries then Inl ''expected run credits: exceeds the INTEGER credit bound''
      else Inr (queryCount * pointCount * mapsCreditsPerCall))"

definition maxDisclosedMapsCredits :: int where
  "maxDisclosedMapsCredits = 10 * gridPointCount * mapsCreditsPerCall"

definition disclose_maps_credits :: "int \<Rightarrow> int" where
  "disclose_maps_credits savedEnabled =
     (if savedEnabled > 0 then
        (case expected_run_credits savedEnabled gridPointCount of
           Inr credits \<Rightarrow> credits | Inl _ \<Rightarrow> maxDisclosedMapsCredits)
      else maxDisclosedMapsCredits)"

fun validate_editable_map_queries_from :: "string set \<Rightarrow> string list \<Rightarrow> string list result" where
  "validate_editable_map_queries_from seen [] = Inr []"
| "validate_editable_map_queries_from seen (query # queries) =
     (let q = trim_space query in
      if q = [] then Inl ''local visibility editable query must not be blank''
      else if length q > 500 then Inl ''local visibility editable query exceeds 500 bytes''
      else if to_lower q \<in> seen then Inl ''local visibility editable query duplicates an earlier query''
      else bind_result (validate_editable_map_queries_from (insert (to_lower q) seen) queries) (\<lambda>r. Inr (q # r)))"

definition validate_editable_map_queries :: "string list \<Rightarrow> string list result" where
  "validate_editable_map_queries queries = validate_editable_map_queries_from {} queries"

definition validate_map_queries :: "string list \<Rightarrow> string list result" where
  "validate_map_queries queries =
     (if queries = [] then Inl ''local visibility requires at least one map query''
      else validate_editable_map_queries queries)"

section \<open>The row\<close>

definition cut_error :: "string \<Rightarrow> string" where
  "cut_error message = (if length message > 500 then take (cut_back message 500) message else message)"

definition update_row :: "nat \<Rightarrow> (location_setup \<Rightarrow> location_setup) \<Rightarrow> db \<Rightarrow> db" where
  "update_row l f d = d\<lparr>location_setup_rows := (\<lambda>k. if k = l then map_option f (location_setup_rows d k)
     else location_setup_rows d k)\<rparr>"

definition set_step :: "location_step \<Rightarrow> step_status \<Rightarrow> location_setup \<Rightarrow> location_setup" where
  "set_step i v s = s\<lparr>LsSteps := (LsSteps s)(i := v)\<rparr>"

definition refresh_overall :: "nat \<Rightarrow> db \<Rightarrow> db result" where
  "refresh_overall l d =
     (case location_setup_rows d l of
        None \<Rightarrow> Inl ''no rows in result set''
      | Some current \<Rightarrow>
          (let overall = overall_status (LsSteps current) in
           Inr (update_row l (\<lambda>s. s\<lparr>LsStatus := overall, LsCompletedAt := (overall \<noteq> StatusRunning)\<rparr>) d)))"

definition complete_step :: "nat \<Rightarrow> location_setup \<Rightarrow> location_step \<Rightarrow> db \<Rightarrow> (location_setup \<times> db) result" where
  "complete_step l setup i d =
     bind_result (refresh_overall l (update_row l (set_step i StepCompleted) d)) (\<lambda>d1.
       Inr (set_step i StepCompleted setup, d1))"

definition skip_step :: "nat \<Rightarrow> location_setup \<Rightarrow> location_step \<Rightarrow> string \<Rightarrow> db \<Rightarrow> (location_setup \<times> db) result" where
  "skip_step l setup i reason d =
     (let reasons = (LsReasons setup)(i \<mapsto> reason) in
      bind_result (refresh_overall l (update_row l (\<lambda>s. (set_step i StepSkipped s)\<lparr>LsReasons := reasons\<rparr>) d)) (\<lambda>d1.
        Inr (set_step i StepSkipped setup, d1)))"

definition fail_step :: "nat \<Rightarrow> location_setup \<Rightarrow> location_step \<Rightarrow> string \<Rightarrow> db \<Rightarrow> db" where
  "fail_step l setup i message d =
     (let reasons = (LsReasons setup)(i \<mapsto> cut_error message) in
      update_row l (\<lambda>s. (set_step i StepFailed s)\<lparr>LsStatus := StatusFailed, LsError := Some (cut_error message),
        LsReasons := reasons, LsCompletedAt := True\<rparr>) d)"

definition defer_step :: "nat \<Rightarrow> location_setup \<Rightarrow> location_step \<Rightarrow> string \<Rightarrow> db \<Rightarrow> db" where
  "defer_step l setup i reason d =
     update_row l (\<lambda>s. s\<lparr>LsReasons := (LsReasons setup)(i \<mapsto> reason)\<rparr>) d"

section \<open>Start and resume\<close>

definition enabled_queries :: "nat \<Rightarrow> db \<Rightarrow> string list" where
  "enabled_queries l d =
     (case project_locations d l of None \<Rightarrow> [] | Some r \<Rightarrow> map fst (filter snd (LocQueries r)))"

definition count_enabled_map_queries :: "nat \<Rightarrow> db \<Rightarrow> int" where
  "count_enabled_map_queries l d = int (length (enabled_queries l d))"

definition insert_setup :: "nat \<Rightarrow> nat \<Rightarrow> string \<Rightarrow> db \<Rightarrow> (location_setup \<times> db) result" where
  "insert_setup l user differences d =
     (let disclosed = disclose_maps_credits (count_enabled_map_queries l d);
          row = \<lparr>LsRequestedBy = Some user, LsDifferences = differences, LsStatus = StatusRunning, LsError = None,
                 LsSteps = (\<lambda>i. if i = StepPrepare then StepCompleted else StepPending), LsReasons = Map.empty,
                 LsAIAuditID = None, LsMapsRunID = None, LsEstimatedMapsCredits = Some disclosed, LsCompletedAt = False\<rparr>;
          d1 = (case location_setup_rows d l of
                  Some _ \<Rightarrow> d
                | None \<Rightarrow> d\<lparr>location_setup_rows := (location_setup_rows d)(l := Some row)\<rparr>)
      in case location_setup_rows d1 l of None \<Rightarrow> Inl ''no rows in result set'' | Some s \<Rightarrow> Inr (s, d1))"

definition next_steps :: "(location_step \<Rightarrow> step_status) \<Rightarrow> location_step \<Rightarrow> step_status" where
  "next_steps steps i =
     (if steps i = StepCompleted \<or> steps i = StepSkipped \<or> steps i = StepRunning then steps i else StepPending)"

definition reset_unfinished_steps :: "nat \<Rightarrow> location_setup \<Rightarrow> nat \<Rightarrow> db \<Rightarrow> (location_setup \<times> db) result" where
  "reset_unfinished_steps l setup user d =
     (let nxt = next_steps (LsSteps setup);
          kept = (\<lambda>i. if nxt i = StepPending then None else LsReasons setup i);
          d1 = update_row l (\<lambda>s. s\<lparr>LsStatus := StatusRunning, LsError := None, LsRequestedBy := Some user,
                 LsSteps := nxt, LsReasons := kept, LsCompletedAt := False\<rparr>) d;
          d2 = (if LsMapsRunID setup = None
                then update_row l (\<lambda>s. s\<lparr>LsEstimatedMapsCredits :=
                       Some (disclose_maps_credits (count_enabled_map_queries l d1))\<rparr>) d1
                else d1)
      in case location_setup_rows d2 l of None \<Rightarrow> Inl ''no rows in result set'' | Some s \<Rightarrow> Inr (s, d2))"

text \<open>The caller is a member of the organization, or the first query finds no row.\<close>

definition location_start_or_resume ::
    "nat \<Rightarrow> nat \<Rightarrow> string \<Rightarrow> db \<Rightarrow> (location_setup \<times> bool \<times> db) result" where
  "location_start_or_resume l user differences d =
     (if project_locations d l = None \<or> member_audit_limit d user = None then Inl ''no rows in result set''
      else (case location_setup_rows d l of
              None \<Rightarrow> bind_result (insert_setup l user differences d) (\<lambda>(s, d1). Inr (s, True, d1))
            | Some setup \<Rightarrow>
                if LsStatus setup \<noteq> StatusFailed then Inr (setup, False, d)
                else bind_result (reset_unfinished_steps l setup user d) (\<lambda>(s, d1). Inr (s, False, d1))))"

section \<open>Launching the AI audit\<close>

definition conflicts_active :: "nat \<Rightarrow> job_type \<Rightarrow> db \<Rightarrow> bool" where
  \<comment> \<open>the unique indexes on active location jobs\<close>
  "conflicts_active l t d =
     (t \<in> {LocationProfileGenerationJob, MapQueryGenerationJob, LocationKeywordAnalysisJob, PromptGenerationJob}
      \<and> list_ex (\<lambda>j. JobType j = t \<and> JobLocation j = Some l \<and> job_active j) (ai_worker_jobs d))"

definition enqueue_location_job :: "nat \<Rightarrow> job_type \<Rightarrow> db \<Rightarrow> db" where
  "enqueue_location_job l t d =
     (if conflicts_active l t d then d else insert_job (blank_job\<lparr>JobType := t, JobLocation := Some l\<rparr>) d)"

definition ensure_audit_job :: "nat \<Rightarrow> nat \<Rightarrow> db \<Rightarrow> db" where
  "ensure_audit_job l audit d =
     (if list_ex (\<lambda>j. JobAudit j = Some audit \<and> job_active j) (ai_worker_jobs d) then d
      else insert_job (blank_job\<lparr>JobType := VisibilityRunJob, JobLocation := Some l, JobAudit := Some audit\<rparr>) d)"

definition skipAIVisibilityDisabled :: string where
  "skipAIVisibilityDisabled = ''visibility audits are disabled for this workspace''"
definition skipAIVisibilityQuota :: string where
  "skipAIVisibilityQuota = ''visibility audit monthly limit reached''"
definition skipAIVisibilityAccess :: string where
  "skipAIVisibilityAccess = ''requester workspace access changed''"
definition skipKeywordAnalysisNoKeywords :: string where
  "skipKeywordAnalysisNoKeywords = ''no location keywords saved yet''"
definition skipMapsNoQueries :: string where
  "skipMapsNoQueries = ''no enabled map queries''"
definition skipMapsUnbound :: string where
  "skipMapsUnbound = ''bind a Google Maps listing before starting a ranking run''"
definition skipMapsBudget :: string where
  "skipMapsBudget = ''maps spending allowance is unavailable''"

definition active_location_audit :: "nat \<Rightarrow> db \<Rightarrow> bool" where
  "active_location_audit l d = list_ex (\<lambda>a. AuditLocation a = Some l \<and> audit_active a) (ai_audits d)"

definition question_count :: "nat \<Rightarrow> db \<Rightarrow> nat" where
  "question_count l d = (case project_locations d l of None \<Rightarrow> 0 | Some r \<Rightarrow> length (LocQuestions r))"

fun map_result :: "('a \<Rightarrow> 'b) \<Rightarrow> 'a result \<Rightarrow> 'b result" where
  "map_result f (Inl e) = Inl e"
| "map_result f (Inr x) = Inr (f x)"

definition keep_setup :: "location_setup \<Rightarrow> db \<Rightarrow> (location_setup \<times> db) result" where
  "keep_setup setup d = Inr (setup, d)"

definition reserve_and_start_audit :: "nat \<Rightarrow> location_setup \<Rightarrow> db \<Rightarrow> (location_setup \<times> db) result" where
  "reserve_and_start_audit l setup d =
     (case features_audit_limit (LsRequestedBy setup) d of
        None \<Rightarrow> skip_step l setup StepAIVisibility skipAIVisibilityAccess d
      | Some limit \<Rightarrow>
          if limit \<le> 0 then skip_step l setup StepAIVisibility skipAIVisibilityDisabled d
          else (case reserve_ai_workspace_monthly_audit limit d of
                  None \<Rightarrow> skip_step l setup StepAIVisibility skipAIVisibilityQuota d
                | Some d1 \<Rightarrow>
                    bind_result (create_ai_audit None (Some l) None d1) (\<lambda>(audit, d2).
                      let d3 = update_row l (\<lambda>s. s\<lparr>LsAIAuditID := Some audit\<rparr>) d2;
                          d4 = ensure_audit_job l audit d3
                      in keep_setup setup (update_row l (set_step StepAIVisibility StepRunning) d4))))"

definition launch_new_audit :: "nat \<Rightarrow> location_setup \<Rightarrow> db \<Rightarrow> (location_setup \<times> db) result" where
  "launch_new_audit l setup d =
     (if active_location_audit l d
      then keep_setup setup (defer_step l setup StepAIVisibility ''a visibility audit is already in progress for this location'' d)
      else if question_count l d = 0
      then keep_setup setup (fail_step l setup StepQuestions ''saved location questions are empty'' d)
      else reserve_and_start_audit l setup d)"

definition launch_ai_visibility_tx :: "nat \<Rightarrow> location_setup \<Rightarrow> db \<Rightarrow> (location_setup \<times> db) result" where
  "launch_ai_visibility_tx l setup d =
     (if LsSteps setup StepAIVisibility \<noteq> StepPending \<or> LsSteps setup StepQuestions \<noteq> StepCompleted
      then keep_setup setup d
      else (case LsAIAuditID setup of
              None \<Rightarrow> launch_new_audit l setup d
            | Some audit \<Rightarrow>
                (case find_audit audit d of
                   None \<Rightarrow> launch_new_audit l setup d
                 | Some a \<Rightarrow>
                     if AuditStatus a \<in> {AuditCompleted, AuditCompletedWithFailures}
                     then complete_step l setup StepAIVisibility d
                     else if audit_active a
                     then keep_setup setup (update_row l (set_step StepAIVisibility StepRunning) (ensure_audit_job l audit d))
                     else launch_new_audit l setup d)))"

section \<open>Launching the maps run\<close>

type_synonym grid = "rat \<Rightarrow> rat \<Rightarrow> int \<Rightarrow> string list result"

definition ensure_local_run_job :: "nat \<Rightarrow> nat \<Rightarrow> db \<Rightarrow> db" where
  "ensure_local_run_job l run d =
     (if list_ex (\<lambda>j. JobLocalRun j = Some run \<and> job_active j) (ai_worker_jobs d) then d
      else insert_job (blank_job\<lparr>JobType := LocalVisibilityJob, JobLocation := Some l, JobLocalRun := Some run\<rparr>) d)"

definition find_run :: "nat \<Rightarrow> db \<Rightarrow> local_run option" where
  "find_run i d = find (\<lambda>r. RunID r = i) (local_visibility_runs d)"

definition run_active :: "local_run \<Rightarrow> bool" where
  "run_active r = (RunStatus r = RunQueued \<or> RunStatus r = RunRunning)"

definition active_location_run :: "nat \<Rightarrow> db \<Rightarrow> bool" where
  "active_location_run l d = list_ex (\<lambda>r. RunLocation r = l \<and> run_active r) (local_visibility_runs d)"

definition create_local_visibility_run :: "nat \<Rightarrow> int \<Rightarrow> string list \<Rightarrow> int \<Rightarrow> db \<Rightarrow> (nat \<times> db) result" where
  "create_local_visibility_run l radius queries expected d =
     (if active_location_run l d then Inl ''duplicate key value violates unique constraint''
      else Inr (next_id d,
        d\<lparr>local_visibility_runs := local_visibility_runs d @ [\<lparr>RunID = next_id d, RunLocation = l, RunStatus = RunQueued,
             RunRadiusM = radius, RunQueries = queries, RunExpectedCredits = expected\<rparr>],
          next_id := Suc (next_id d)\<rparr>))"

definition start_maps_run ::
    "nat \<Rightarrow> location_setup \<Rightarrow> int \<Rightarrow> string list \<Rightarrow> int \<Rightarrow> db \<Rightarrow> (location_setup \<times> db) result" where
  "start_maps_run l setup radius queries expected d =
     bind_result (create_local_visibility_run l radius queries expected d) (\<lambda>(run, d1).
       let d2 = insert_job (blank_job\<lparr>JobType := LocalVisibilityJob, JobLocation := Some l, JobLocalRun := Some run\<rparr>) d1
       in keep_setup setup (update_row l (\<lambda>s. (set_step StepMapsVisibility StepRunning s)
            \<lparr>LsMapsRunID := Some run, LsEstimatedMapsCredits := Some expected\<rparr>) d2))"

definition reserve_and_start_run ::
    "nat \<Rightarrow> location_setup \<Rightarrow> int \<Rightarrow> string list \<Rightarrow> int \<Rightarrow> db \<Rightarrow> (location_setup \<times> db) result" where
  "reserve_and_start_run l setup radius queries expected d =
     (case reserve_credits expected (platform_credits d) of
        None \<Rightarrow> skip_step l setup StepMapsVisibility skipMapsBudget d
      | Some p \<Rightarrow>
          (let d1 = d\<lparr>platform_credits := p\<rparr> in
           case reserve_credits expected (organization_credits d1) of
             None \<Rightarrow> skip_step l setup StepMapsVisibility skipMapsBudget
                       (d1\<lparr>platform_credits := settle_credits expected 0 (platform_credits d1)\<rparr>)
           | Some c \<Rightarrow> start_maps_run l setup radius queries expected (d1\<lparr>organization_credits := c\<rparr>)))"

definition defaultMapsRadiusM :: int where "defaultMapsRadiusM = 5000"

definition launch_new_run :: "grid \<Rightarrow> nat \<Rightarrow> location_setup \<Rightarrow> db \<Rightarrow> (location_setup \<times> db) result" where
  "launch_new_run grid l setup d =
     (if active_location_run l d
      then keep_setup setup (defer_step l setup StepMapsVisibility ''a maps run is already in progress for this location'' d)
      else (case project_locations d l of
              None \<Rightarrow> Inl ''no rows in result set''
            | Some loc \<Rightarrow>
                if (case LocPlaceID loc of None \<Rightarrow> True | Some p \<Rightarrow> p = [])
                then skip_step l setup StepMapsVisibility skipMapsUnbound d
                else (let radius = (if LocRadiusM loc < 1000 \<or> LocRadiusM loc > 25000 then defaultMapsRadiusM
                                    else LocRadiusM loc) in
                  case validate_map_queries (enabled_queries l d) of
                    Inl _ \<Rightarrow> skip_step l setup StepMapsVisibility skipMapsNoQueries d
                  | Inr queries \<Rightarrow>
                      bind_result (expected_run_credits (int (length queries)) gridPointCount) (\<lambda>expected.
                        let disclosed = (case LsEstimatedMapsCredits setup of
                                           None \<Rightarrow> maxDisclosedMapsCredits | Some e \<Rightarrow> e)
                        in if expected > disclosed
                           then skip_step l setup StepMapsVisibility
                             (''maps cost '' @ itoa expected @ '' exceeds disclosed estimate '' @ itoa disclosed) d
                           else bind_result (grid (LocLatitude loc) (LocLongitude loc) radius) (\<lambda>_.
                             reserve_and_start_run l setup radius queries expected d)))))"

definition launch_maps_visibility_tx :: "grid \<Rightarrow> nat \<Rightarrow> location_setup \<Rightarrow> db \<Rightarrow> (location_setup \<times> db) result" where
  "launch_maps_visibility_tx grid l setup d =
     (if LsSteps setup StepMapsVisibility \<noteq> StepPending \<or> LsSteps setup StepMapQueries \<noteq> StepCompleted
      then keep_setup setup d
      else (case LsMapsRunID setup of
              None \<Rightarrow> launch_new_run grid l setup d
            | Some run \<Rightarrow>
                (case find_run run d of
                   None \<Rightarrow> launch_new_run grid l setup d
                 | Some r \<Rightarrow>
                     if RunStatus r \<in> {RunCompleted, RunPartial}
                     then bind_result (refresh_overall l (update_row l (\<lambda>s. (set_step StepMapsVisibility StepCompleted s)
                            \<lparr>LsEstimatedMapsCredits := Some (RunExpectedCredits r)\<rparr>) d)) (\<lambda>d1.
                            Inr (set_step StepMapsVisibility StepCompleted setup, d1))
                     else if run_active r
                     then keep_setup setup (update_row l (\<lambda>s. (set_step StepMapsVisibility StepRunning s)
                            \<lparr>LsEstimatedMapsCredits := Some (RunExpectedCredits r)\<rparr>) (ensure_local_run_job l run d))
                     else launch_new_run grid l setup d)))"

section \<open>Finalization of the location jobs\<close>

text \<open>The common frame: the job is settled, and the setup changes only while the step runs.\<close>

definition settle_step ::
    "nat \<Rightarrow> location_step \<Rightarrow> (location_setup \<Rightarrow> db \<Rightarrow> db result) \<Rightarrow> db \<Rightarrow> db result" where
  "settle_step l i advance d =
     (case location_setup_rows d l of
        None \<Rightarrow> Inr d
      | Some setup \<Rightarrow> if LsSteps setup i \<noteq> StepRunning then Inr d else advance setup d)"

definition start_step :: "nat \<Rightarrow> location_step \<Rightarrow> job_type \<Rightarrow> db \<Rightarrow> db" where
  "start_step l i t d = update_row l (set_step i StepRunning) (enqueue_location_job l t d)"

definition start_pending :: "nat \<Rightarrow> location_setup \<Rightarrow> location_step \<Rightarrow> job_type \<Rightarrow> db \<Rightarrow> db" where
  "start_pending l setup i t d = (if LsSteps setup i = StepPending then start_step l i t d else d)"

definition finalize_profile_success :: "nat \<Rightarrow> nat \<Rightarrow> db \<Rightarrow> db result" where
  "finalize_profile_success l job d =
     settle_step l StepProfile (\<lambda>setup d.
       bind_result (complete_step l setup StepProfile d) (\<lambda>(setup, d).
         Inr (start_pending l setup StepMapQueries MapQueryGenerationJob
               (start_pending l setup StepQuestions PromptGenerationJob
                 (start_pending l setup StepKeywordAnalysis LocationKeywordAnalysisJob d)))))
       (mark_ai_worker_job_completed job d)"

definition location_finalize_keyword_analysis_success :: "nat \<Rightarrow> nat \<Rightarrow> db \<Rightarrow> db result" where
  "location_finalize_keyword_analysis_success l job d =
     settle_step l StepKeywordAnalysis (\<lambda>setup d. map_result snd (complete_step l setup StepKeywordAnalysis d))
       (mark_ai_worker_job_completed job d)"

definition finalize_keyword_analysis_empty :: "nat \<Rightarrow> nat \<Rightarrow> db \<Rightarrow> db result" where
  "finalize_keyword_analysis_empty l job d =
     settle_step l StepKeywordAnalysis
       (\<lambda>setup d. map_result snd (skip_step l setup StepKeywordAnalysis skipKeywordAnalysisNoKeywords d))
       (mark_ai_worker_job_completed job d)"

definition finalize_questions_success :: "nat \<Rightarrow> nat \<Rightarrow> db \<Rightarrow> db result" where
  "finalize_questions_success l job d =
     settle_step l StepQuestions (\<lambda>setup d.
       bind_result (complete_step l setup StepQuestions d) (\<lambda>(setup, d).
         map_result snd (launch_ai_visibility_tx l setup d)))
       (mark_ai_worker_job_completed job d)"

definition finalize_map_queries_success :: "grid \<Rightarrow> nat \<Rightarrow> nat \<Rightarrow> db \<Rightarrow> db result" where
  "finalize_map_queries_success grid l job d =
     settle_step l StepMapQueries (\<lambda>setup d.
       bind_result (complete_step l setup StepMapQueries d) (\<lambda>(setup, d).
         map_result snd (launch_maps_visibility_tx grid l setup d)))
       (mark_ai_worker_job_completed job d)"

definition fail_owned_job :: "nat \<Rightarrow> nat \<Rightarrow> location_step \<Rightarrow> string \<Rightarrow> db \<Rightarrow> db result" where
  "fail_owned_job l job i message d =
     settle_step l i (\<lambda>setup d. Inr (fail_step l setup i message d))
       (mark_ai_worker_job_failed job (Some (cut_error message)) d)"

definition finalize_visibility_run :: "nat \<Rightarrow> nat \<Rightarrow> audit_status \<Rightarrow> string option \<Rightarrow> db \<Rightarrow> db result" where
  "finalize_visibility_run job audit auditStatus jobErr d =
     (let d1 = (case jobErr of
                  Some message \<Rightarrow>
                    fail_audits (\<lambda>a. AuditID a = audit \<and> audit_active a) (cut_error message)
                      (mark_ai_worker_job_failed job (Some (cut_error message)) d)
                | None \<Rightarrow> mark_ai_worker_job_completed job d)
      in (case find_audit audit d1 of
            None \<Rightarrow> Inr d1
          | Some a \<Rightarrow>
              (case AuditLocation a of
                 None \<Rightarrow> Inr d1
               | Some l \<Rightarrow>
                   settle_step l StepAIVisibility (\<lambda>setup d.
                     if LsAIAuditID setup \<noteq> Some audit then Inr d
                     else (case jobErr of
                             Some message \<Rightarrow> Inr (fail_step l setup StepAIVisibility message d)
                           | None \<Rightarrow>
                               if auditStatus = AuditFailed
                               then Inr (fail_step l setup StepAIVisibility ''visibility audit failed'' d)
                               else map_result snd (complete_step l setup StepAIVisibility d))) d1)))"

definition finalize_local_run :: "nat \<Rightarrow> nat \<Rightarrow> string option \<Rightarrow> db \<Rightarrow> db result" where
  "finalize_local_run job run jobErr d =
     (let d1 = (case jobErr of
                  Some message \<Rightarrow> mark_ai_worker_job_failed job (Some (cut_error message)) d
                | None \<Rightarrow> mark_ai_worker_job_completed job d)
      in (case find_run run d1 of
            None \<Rightarrow> Inr d1
          | Some r \<Rightarrow>
              if project_locations d1 (RunLocation r) = None then Inr d1
              else settle_step (RunLocation r) StepMapsVisibility (\<lambda>setup d.
                     if LsMapsRunID setup \<noteq> Some run then Inr d
                     else (case jobErr of
                             Some message \<Rightarrow> Inr (fail_step (RunLocation r) setup StepMapsVisibility message d)
                           | None \<Rightarrow> map_result snd (complete_step (RunLocation r) setup StepMapsVisibility d))) d1))"

definition regenerate_maps_queries :: "nat \<Rightarrow> db \<Rightarrow> db" where
  "regenerate_maps_queries l d = enqueue_location_job l MapQueryGenerationJob d"

datatype maps_queries_status = QueriesIdle | QueriesJob job_status string

definition latest_location_job :: "nat \<Rightarrow> job_type \<Rightarrow> db \<Rightarrow> job option" where
  "latest_location_job l t d = find (\<lambda>j. JobLocation j = Some l \<and> JobType j = t) (rev (ai_worker_jobs d))"

definition get_maps_queries_status :: "nat \<Rightarrow> db \<Rightarrow> maps_queries_status" where
  "get_maps_queries_status l d =
     (case latest_location_job l MapQueryGenerationJob d of
        None \<Rightarrow> QueriesIdle
      | Some j \<Rightarrow> QueriesJob (JobStatus j) (case JobError j of None \<Rightarrow> [] | Some e \<Rightarrow> e))"

section \<open>Launching what is left\<close>

text \<open>One pending step of the launch: the job and the row are written, then the shared map.\<close>

definition launch_pending ::
    "nat \<Rightarrow> bool \<Rightarrow> location_step \<Rightarrow> job_type \<Rightarrow> location_setup \<times> db \<Rightarrow> location_setup \<times> db" where
  "launch_pending l wanted i t sd =
     (if wanted \<and> LsSteps (fst sd) i = StepPending
      then (set_step i StepRunning (fst sd), start_step l i t (snd sd)) else sd)"

definition launch_unfinished_tx :: "grid \<Rightarrow> nat \<Rightarrow> location_setup \<Rightarrow> db \<Rightarrow> db result" where
  "launch_unfinished_tx grid l setup d =
     (if LsStatus setup \<noteq> StatusRunning then Inr d
      else bind_result (if LsSteps setup StepPrepare = StepPending then complete_step l setup StepPrepare d
                        else Inr (setup, d)) (\<lambda>(setup1, d1).
        let todo = launchable (LsSteps setup1);
            sd2 = launch_pending l (LaunchProfile todo) StepProfile LocationProfileGenerationJob (setup1, d1);
            sd3 = launch_pending l (LsSteps (fst sd2) StepProfile = StepCompleted) StepKeywordAnalysis
                    LocationKeywordAnalysisJob sd2;
            sd4 = launch_pending l (LaunchQuestions todo) StepQuestions PromptGenerationJob sd3;
            (setup5, d5) = launch_pending l (LaunchMapQueries todo) StepMapQueries MapQueryGenerationJob sd4
        in bind_result (if LaunchAIAudit todo then launch_ai_visibility_tx l setup5 d5 else Inr (setup5, d5)) (\<lambda>(setup6, d6).
             if LaunchMapsRun todo then map_result snd (launch_maps_visibility_tx grid l setup6 d6) else Inr d6)))"

definition launch_unfinished :: "grid \<Rightarrow> nat \<Rightarrow> db \<Rightarrow> db result" where
  "launch_unfinished grid l d =
     (case location_setup_rows d l of None \<Rightarrow> Inr d | Some setup \<Rightarrow> launch_unfinished_tx grid l setup d)"

text \<open>The sweep runs this for each location its query returns.\<close>

definition needs_reconcile :: "location_setup \<Rightarrow> bool" where
  "needs_reconcile s = (LsStatus s = StatusRunning \<and> list_ex (\<lambda>i. LsSteps s i = StepPending) orderedSteps)"

fun reconcile_running_setups :: "grid \<Rightarrow> nat list \<Rightarrow> db \<Rightarrow> string option \<times> db" where
  \<comment> \<open>the locations the query returned; each launch is its own transaction, an error stops the sweep\<close>
  "reconcile_running_setups grid [] d = (None, d)"
| "reconcile_running_setups grid (l # ls) d =
     (case launch_unfinished grid l d of
        Inl e \<Rightarrow> (Some e, d)
      | Inr d1 \<Rightarrow> reconcile_running_setups grid ls d1)"

section \<open>Reclaiming steps of failed jobs\<close>

definition reclaim_reason :: "job \<Rightarrow> string" where
  "reclaim_reason j = (case JobError j of
     Some m \<Rightarrow> if m \<noteq> [] then m else ''reclaimed: worker restarted'' | None \<Rightarrow> ''reclaimed: worker restarted'')"

definition reclaim_step :: "nat \<Rightarrow> bool \<Rightarrow> location_step \<Rightarrow> job option \<Rightarrow> location_setup \<times> db \<Rightarrow> location_setup \<times> db" where
  "reclaim_step l owned i latest sd =
     (if owned \<and> LsSteps (fst sd) i = StepRunning
      then (case latest of
              None \<Rightarrow> sd
            | Some j \<Rightarrow>
                if JobStatus j \<noteq> JobFailed then sd
                else (set_step i StepFailed (fst sd), fail_step l (fst sd) i (reclaim_reason j) (snd sd)))
      else sd)"

definition latest_audit_job :: "nat option \<Rightarrow> db \<Rightarrow> job option" where
  "latest_audit_job audit d = find (\<lambda>j. audit \<noteq> None \<and> JobAudit j = audit) (rev (ai_worker_jobs d))"

definition latest_run_job :: "nat option \<Rightarrow> db \<Rightarrow> job option" where
  "latest_run_job run d = find (\<lambda>j. run \<noteq> None \<and> JobLocalRun j = run) (rev (ai_worker_jobs d))"

definition reclaim_setup :: "nat \<Rightarrow> db \<Rightarrow> db" where
  "reclaim_setup l d =
     (case location_setup_rows d l of
        None \<Rightarrow> d
      | Some setup \<Rightarrow>
          (let sd1 = reclaim_step l True StepProfile (latest_location_job l LocationProfileGenerationJob d) (setup, d);
               sd2 = reclaim_step l True StepKeywordAnalysis (latest_location_job l LocationKeywordAnalysisJob d) sd1;
               sd3 = reclaim_step l True StepQuestions (latest_location_job l PromptGenerationJob d) sd2;
               sd4 = reclaim_step l True StepMapQueries (latest_location_job l MapQueryGenerationJob d) sd3;
               sd5 = reclaim_step l (LsAIAuditID setup \<noteq> None) StepAIVisibility (latest_audit_job (LsAIAuditID setup) d) sd4;
               sd6 = reclaim_step l (LsMapsRunID setup \<noteq> None) StepMapsVisibility (latest_run_job (LsMapsRunID setup) d) sd5
           in snd sd6))"

definition reclaim_sweep :: "nat list \<Rightarrow> db \<Rightarrow> db" where
  "reclaim_sweep ls d = foldl (\<lambda>d l. reclaim_setup l d) d ls"

end
