(* ===== verification/WorkerSystem.thy ===== *)
theory WorkerSystem
  imports ProjectSetup CompetitorSetup LocationSetup
begin

text \<open>
  The AI worker (\<open>internal/aiaudit/worker.go\<close>): how a finished job is settled, and the system of
  workers, crawls and requests as a step relation over the tables and the set of jobs some worker
  is carrying out. A worker that was slow keeps its claim when its job is reclaimed, so it may
  settle the job later; a failed finalization, a crash or a shutdown drops the claim.
\<close>

section \<open>Settling a job\<close>

definition find_job :: "nat \<Rightarrow> db \<Rightarrow> job option" where
  "find_job i d = find (\<lambda>j. JobID j = i) (ai_worker_jobs d)"

definition is_location_visibility_job :: "job \<Rightarrow> db \<Rightarrow> bool result" where
  "is_location_visibility_job j d =
     (case JobAudit j of
        None \<Rightarrow> Inr False
      | Some audit \<Rightarrow>
          (case find_audit audit d of
             None \<Rightarrow> Inl ''load visibility audit scope''
           | Some a \<Rightarrow> Inr (AuditLocation a \<noteq> None)))"

definition finalize_job_success :: "grid \<Rightarrow> job \<Rightarrow> audit_status \<Rightarrow> db \<Rightarrow> db result" where
  "finalize_job_success grid j visibilityStatus d =
     (let i = JobID j; done = Inr (mark_ai_worker_job_completed i d) in
      case JobType j of
        BusinessProfileBootstrapJob \<Rightarrow> Inr (finalize_bootstrap_success i d)
      | KeywordAnalysisJob \<Rightarrow> Inr (finalize_keyword_analysis_success i d)
      | CompetitorKeywordGenerationJob \<Rightarrow>
          (case JobCompetitor j of
             None \<Rightarrow> Inr (mark_ai_worker_job_failed i (Some ''competitor job has no competitor'') d)
           | Some c \<Rightarrow> finalize_generation_success i c d)
      | CompetitorKeywordAnalysisJob \<Rightarrow>
          (case JobCompetitor j of
             None \<Rightarrow> Inr (mark_ai_worker_job_failed i (Some ''competitor job has no competitor'') d)
           | Some c \<Rightarrow> finalize_analysis_success i c d)
      | PromptGenerationJob \<Rightarrow>
          (case JobLocation j of
             Some l \<Rightarrow> finalize_questions_success l i d
           | None \<Rightarrow> finalize_prompt_generation_success i d)
      | VisibilityRunJob \<Rightarrow>
          bind_result (is_location_visibility_job j d) (\<lambda>isLocation.
            if isLocation
            then (case JobAudit j of
                    Some audit \<Rightarrow> finalize_visibility_run i audit visibilityStatus None d
                  | None \<Rightarrow> done)
            else Inr (finalize_visibility_success i visibilityStatus d))
      | LocalVisibilityJob \<Rightarrow>
          (case JobLocalRun j of Some run \<Rightarrow> finalize_local_run i run None d | None \<Rightarrow> done)
      | LocationProfileGenerationJob \<Rightarrow>
          (case JobLocation j of Some l \<Rightarrow> finalize_profile_success l i d | None \<Rightarrow> done)
      | MapQueryGenerationJob \<Rightarrow>
          (case JobLocation j of Some l \<Rightarrow> finalize_map_queries_success grid l i d | None \<Rightarrow> done)
      | LocationKeywordAnalysisJob \<Rightarrow>
          (case JobLocation j of Some l \<Rightarrow> location_finalize_keyword_analysis_success l i d | None \<Rightarrow> done)
      | MapsVisibilityJob \<Rightarrow> done)"

definition competitor_failure :: "job \<Rightarrow> competitor_step \<Rightarrow> string \<Rightarrow> db \<Rightarrow> db result" where
  "competitor_failure j step message d =
     (let d1 = mark_ai_worker_job_failed (JobID j) (Some (cap_setup_error_message message)) d in
      case JobCompetitor j of
        None \<Rightarrow> Inl ''lock competitor setup''
      | Some c \<Rightarrow> finalize_step_failure c step message d1)"

text \<open>\<open>failLocationVisibilityJob\<close> is reached only without an audit, where it fails the job alone.\<close>

definition finalize_job_failure :: "job \<Rightarrow> string \<Rightarrow> bool \<Rightarrow> db \<Rightarrow> db result" where
  \<comment> \<open>\<open>keywordsEmpty\<close>: the error is \<open>ErrLocationKeywordsEmpty\<close>\<close>
  "finalize_job_failure j message keywordsEmpty d =
     (let i = JobID j; failed = Inr (mark_ai_worker_job_failed i (Some (cap_setup_error_message message)) d) in
      case JobType j of
        KeywordAnalysisJob \<Rightarrow> Inr (finalize_keyword_analysis_failure i message d)
      | CompetitorKeywordGenerationJob \<Rightarrow> competitor_failure j StepKeywordGeneration message d
      | CompetitorKeywordAnalysisJob \<Rightarrow> competitor_failure j StepCompetitorKeywordAnalysis message d
      | BusinessProfileBootstrapJob \<Rightarrow> Inr (finalize_bootstrap_failure i message d)
      | PromptGenerationJob \<Rightarrow>
          (case JobLocation j of
             Some l \<Rightarrow> fail_owned_job l i StepQuestions message d
           | None \<Rightarrow> Inr (finalize_prompt_generation_failure i message d))
      | VisibilityRunJob \<Rightarrow>
          bind_result (is_location_visibility_job j d) (\<lambda>isLocation.
            if isLocation
            then (case JobAudit j of
                    Some audit \<Rightarrow> finalize_visibility_run i audit AuditFailed (Some message) d
                  | None \<Rightarrow> failed)
            else Inr (finalize_visibility_failure i message d))
      | LocalVisibilityJob \<Rightarrow>
          (case JobLocalRun j of Some run \<Rightarrow> finalize_local_run i run (Some message) d | None \<Rightarrow> failed)
      | LocationProfileGenerationJob \<Rightarrow>
          (case JobLocation j of Some l \<Rightarrow> fail_owned_job l i StepProfile message d | None \<Rightarrow> failed)
      | MapQueryGenerationJob \<Rightarrow>
          (case JobLocation j of Some l \<Rightarrow> fail_owned_job l i StepMapQueries message d | None \<Rightarrow> failed)
      | LocationKeywordAnalysisJob \<Rightarrow>
          (case JobLocation j of
             Some l \<Rightarrow> if keywordsEmpty then finalize_keyword_analysis_empty l i d
                       else fail_owned_job l i StepKeywordAnalysis message d
           | None \<Rightarrow> failed)
      | MapsVisibilityJob \<Rightarrow> failed)"

section \<open>Crawls\<close>

definition crawl_active :: "crawl_row \<Rightarrow> bool" where
  "crawl_active c = (CrawlStatus c = CrawlQueued \<or> CrawlStatus c = CrawlRunning)"

definition insert_queued_crawl :: "db \<Rightarrow> (nat \<times> db) result" where
  "insert_queued_crawl d = Inr (next_id d,
     d\<lparr>crawl_rows := crawl_rows d @ [\<lparr>CrawlRowID = next_id d, CrawlParent = None, CrawlCompetitor = None,
          CrawlStatus = CrawlQueued, CrawlManualLike = True, CrawlPageCount = 0\<rparr>], next_id := Suc (next_id d)\<rparr>)"

definition set_crawl :: "(crawl_row \<Rightarrow> bool) \<Rightarrow> (crawl_row \<Rightarrow> crawl_row) \<Rightarrow> db \<Rightarrow> bool \<times> db" where
  \<comment> \<open>an UPDATE and whether it changed a row\<close>
  "set_crawl P f d = (list_ex P (crawl_rows d),
     d\<lparr>crawl_rows := map (\<lambda>c. if P c then f c else c) (crawl_rows d)\<rparr>)"

definition mark_crawl_running :: "nat \<Rightarrow> db \<Rightarrow> db" where
  "mark_crawl_running i d = snd (set_crawl (\<lambda>c. CrawlRowID c = i) (\<lambda>c. c\<lparr>CrawlStatus := CrawlRunning\<rparr>) d)"

definition mark_crawl_completed :: "nat \<Rightarrow> nat \<Rightarrow> db \<Rightarrow> db" where
  "mark_crawl_completed i pages d =
     (let (changed, d1) = set_crawl (\<lambda>c. CrawlRowID c = i \<and> CrawlStatus c = CrawlRunning)
            (\<lambda>c. c\<lparr>CrawlStatus := CrawlCompleted, CrawlPageCount := pages\<rparr>) d
      in if changed then on_crawl_completed i d1 else d1)"

definition mark_crawl_failed :: "nat \<Rightarrow> string \<Rightarrow> db \<Rightarrow> db" where
  "mark_crawl_failed i message d =
     (let (changed, d1) = set_crawl (\<lambda>c. CrawlRowID c = i \<and> CrawlStatus c = CrawlRunning)
            (\<lambda>c. c\<lparr>CrawlStatus := CrawlFailed\<rparr>) d
      in if changed then on_crawl_failed i message d1 else d1)"

definition cancel_crawl :: "nat \<Rightarrow> db \<Rightarrow> db result" where
  "cancel_crawl i d =
     (let (changed, d1) = set_crawl (\<lambda>c. CrawlRowID c = i \<and> crawl_active c) (\<lambda>c. c\<lparr>CrawlStatus := CrawlCancelled\<rparr>) d
      in if changed then Inr (on_crawl_failed i ''crawl cancelled'' d1) else Inl ''crawl is not queued or running'')"

section \<open>Requests\<close>

definition create_project_setup :: "nat \<Rightarrow> db \<Rightarrow> db" where
  "create_project_setup user d =
     (case project_setup_row d of
        Some _ \<Rightarrow> d
      | None \<Rightarrow> d\<lparr>project_setup_row := Some \<lparr>PsID = next_id d, PsRequestedBy = Some user, PsCrawlID = None,
             PsStatus = ProjectReady, PsError = None, PsFailedStep = None, PsVisibilitySkipReason = None,
             PsCompletedAt = False\<rparr>, next_id := Suc (next_id d)\<rparr>)"

text \<open>A member starts an audit by hand, of a crawl or of a location (\<open>handleCreateAIAudit\<close>).\<close>

definition create_manual_audit :: "nat option \<Rightarrow> nat option \<Rightarrow> nat \<Rightarrow> db \<Rightarrow> db result" where
  "create_manual_audit crawl location user d =
     (case features_audit_limit (Some user) d of
        None \<Rightarrow> Inl ''internal server error''
      | Some limit \<Rightarrow>
          (case reserve_ai_workspace_monthly_audit limit d of
             None \<Rightarrow> Inl ''visibility audit monthly limit reached''
           | Some d1 \<Rightarrow>
               bind_result (create_ai_audit crawl location None d1) (\<lambda>(audit, d2).
                 Inr (enqueue_ai_worker_job VisibilityRunJob (Some audit) d2))))"

definition start_competitor :: "nat \<Rightarrow> nat \<Rightarrow> nat option \<Rightarrow> db \<Rightarrow> (competitor_setup \<times> bool \<times> db) result" where
  "start_competitor c user parent = competitor_start_or_resume c user parent (enqueue_initialization_crawl c)"

section \<open>The system\<close>

type_synonym system = "db \<times> nat set"

text \<open>What the tables are not the only writer of: people edit locations and memberships, the
  administrator sets the budgets, a month ends, and the workers record how audits and runs go.\<close>

definition environment :: "db \<Rightarrow> db \<Rightarrow> bool" where
  "environment d e =
     (ai_worker_jobs e = ai_worker_jobs d \<and> crawl_rows e = crawl_rows d
      \<and> project_setup_row e = project_setup_row d \<and> competitor_setup_rows e = competitor_setup_rows d
      \<and> location_setup_rows e = location_setup_rows d \<and> next_id e = next_id d
      \<and> map (\<lambda>a. (AuditID a, AuditCrawl a, AuditLocation a)) (ai_audits e)
          = map (\<lambda>a. (AuditID a, AuditCrawl a, AuditLocation a)) (ai_audits d)
      \<and> map (\<lambda>r. (RunID r, RunLocation r)) (local_visibility_runs e)
          = map (\<lambda>r. (RunID r, RunLocation r)) (local_visibility_runs d)
      \<and> (\<forall>l. project_locations e l = None \<longleftrightarrow> project_locations d l = None))"

inductive system_step :: "grid \<Rightarrow> system \<Rightarrow> system \<Rightarrow> bool" for grid where
  Claim: "claim_next_pending_ai_worker_job d = Some (j, e) \<Longrightarrow> system_step grid (d, C) (e, insert (JobID j) C)"
| Success: "i \<in> C \<Longrightarrow> find_job i d = Some j \<Longrightarrow> finalize_job_success grid j vis d = Inr e \<Longrightarrow>
    system_step grid (d, C) (e, C - {i})"
| Failure: "i \<in> C \<Longrightarrow> find_job i d = Some j \<Longrightarrow> finalize_job_failure j message keywordsEmpty d = Inr e \<Longrightarrow>
    system_step grid (d, C) (e, C - {i})"
| Drop: "system_step grid (d, C) (d, C - {i})"
| ReclaimJobs: "system_step grid (d, C) (reclaim_stale_running_ai_worker_jobs old d, C)"
| ReclaimAudits: "system_step grid (d, C) (reclaim_stale_running_ai_audits old d, C)"
| ReclaimLocation: "system_step grid (d, C) (reclaim_setup l d, C)"
| LaunchLocation: "launch_unfinished grid l d = Inr e \<Longrightarrow> system_step grid (d, C) (e, C)"
| StartLocation: "location_start_or_resume l user differences d = Inr (s, started, e) \<Longrightarrow> system_step grid (d, C) (e, C)"
| LocationJob: "t \<in> {PromptGenerationJob, MapQueryGenerationJob} \<Longrightarrow> system_step grid (d, C) (enqueue_location_job l t d, C)"
| CreateProject: "system_step grid (d, C) (create_project_setup user d, C)"
| StartProject: "start_or_resume user insert_queued_crawl d = Inr (ps, started, e) \<Longrightarrow> system_step grid (d, C) (e, C)"
| ProjectJob: "t \<in> {PromptGenerationJob, KeywordAnalysisJob, MapsVisibilityJob} \<Longrightarrow>
    system_step grid (d, C) (enqueue_ai_worker_job t None d, C)"
| ManualAudit: "create_manual_audit crawl location user d = Inr e \<Longrightarrow> system_step grid (d, C) (e, C)"
| ManualCrawl: "insert_queued_crawl d = Inr (i, e) \<Longrightarrow> system_step grid (d, C) (e, C)"
| CrawlStarts: "system_step grid (d, C) (mark_crawl_running i d, C)"
| CrawlCompletes: "system_step grid (d, C) (mark_crawl_completed i pages d, C)"
| CrawlFails: "system_step grid (d, C) (mark_crawl_failed i message d, C)"
| CrawlCancels: "cancel_crawl i d = Inr e \<Longrightarrow> system_step grid (d, C) (e, C)"
| ReclaimCrawls: "system_step grid (d, C) (reclaim_stale_running_crawls old d, C)"
| StartCompetitor: "start_competitor c user parent d = Inr (cs, started, e) \<Longrightarrow> system_step grid (d, C) (e, C)"
| ReconcileCompetitor: "competitor_reconcile c d = Inr (cs, e) \<Longrightarrow> system_step grid (d, C) (e, C)"
| CompetitorCrawl: "enqueue_initialization_crawl c parent d = Inr (i, e) \<Longrightarrow> system_step grid (d, C) (e, C)"
| Environment: "environment d e \<Longrightarrow> system_step grid (d, C) (e, C)"

definition empty_db :: "db \<Rightarrow> bool" where
  "empty_db d = (ai_worker_jobs d = [] \<and> ai_audits d = [] \<and> crawl_rows d = [] \<and> local_visibility_runs d = []
     \<and> project_setup_row d = None \<and> competitor_setup_rows d = (\<lambda>_. None) \<and> location_setup_rows d = (\<lambda>_. None))"

inductive system_reachable :: "grid \<Rightarrow> system \<Rightarrow> bool" for grid where
  Start: "empty_db d \<Longrightarrow> system_reachable grid (d, {})"
| Step: "system_reachable grid s \<Longrightarrow> system_step grid s t \<Longrightarrow> system_reachable grid t"

end
