(* ===== verification/WorkerFacts.thy ===== *)
theory WorkerFacts
  imports WorkerSystem
begin

text \<open>
  What the statements of the workers do to the shared tables: the identifiers stay distinct, and
  the jobs a statement may touch. Every handler is a sequence of the primitive updates below, so
  an invariant that the primitives keep is kept by the handlers.
\<close>

named_theorems table_simps \<open>the effect of the primitive updates on each table\<close>

section \<open>The tables after a primitive update\<close>

lemma insert_job_tables [simp]:
  "ai_worker_jobs (insert_job j d) = ai_worker_jobs d @ [j\<lparr>JobID := next_id d\<rparr>]"
  "next_id (insert_job j d) = Suc (next_id d)"
  "ai_audits (insert_job j d) = ai_audits d"
  "crawl_rows (insert_job j d) = crawl_rows d"
  "local_visibility_runs (insert_job j d) = local_visibility_runs d"
  "project_setup_row (insert_job j d) = project_setup_row d"
  "competitor_setup_rows (insert_job j d) = competitor_setup_rows d"
  "location_setup_rows (insert_job j d) = location_setup_rows d"
  "project_locations (insert_job j d) = project_locations d"
  by (simp_all add: insert_job_def)

lemma set_job_tables [simp]:
  "ai_worker_jobs (set_job i f d) = map (\<lambda>j. if JobID j = i then f j else j) (ai_worker_jobs d)"
  "next_id (set_job i f d) = next_id d"
  "ai_audits (set_job i f d) = ai_audits d"
  "crawl_rows (set_job i f d) = crawl_rows d"
  "local_visibility_runs (set_job i f d) = local_visibility_runs d"
  "project_setup_row (set_job i f d) = project_setup_row d"
  "competitor_setup_rows (set_job i f d) = competitor_setup_rows d"
  "location_setup_rows (set_job i f d) = location_setup_rows d"
  "project_locations (set_job i f d) = project_locations d"
  by (simp_all add: set_job_def)

lemma update_row_tables [simp]:
  "ai_worker_jobs (update_row l f d) = ai_worker_jobs d"
  "next_id (update_row l f d) = next_id d"
  "ai_audits (update_row l f d) = ai_audits d"
  "crawl_rows (update_row l f d) = crawl_rows d"
  "local_visibility_runs (update_row l f d) = local_visibility_runs d"
  "project_setup_row (update_row l f d) = project_setup_row d"
  "competitor_setup_rows (update_row l f d) = competitor_setup_rows d"
  "project_locations (update_row l f d) = project_locations d"
  "location_setup_rows (update_row l f d) k
     = (if k = l then map_option f (location_setup_rows d k) else location_setup_rows d k)"
  by (simp_all add: update_row_def)

lemma fail_audits_tables [simp]:
  "ai_worker_jobs (fail_audits P m d) = ai_worker_jobs d"
  "next_id (fail_audits P m d) = next_id d"
  "map AuditID (ai_audits (fail_audits P m d)) = map AuditID (ai_audits d)"
  "crawl_rows (fail_audits P m d) = crawl_rows d"
  "local_visibility_runs (fail_audits P m d) = local_visibility_runs d"
  "project_setup_row (fail_audits P m d) = project_setup_row d"
  "competitor_setup_rows (fail_audits P m d) = competitor_setup_rows d"
  "location_setup_rows (fail_audits P m d) = location_setup_rows d"
  "project_locations (fail_audits P m d) = project_locations d"
  by (simp_all add: fail_audits_def)

section \<open>Jobs keep their identity\<close>

definition job_key :: "job \<Rightarrow> nat \<times> job_type \<times> nat option \<times> nat option \<times> nat option \<times> nat option" where
  "job_key j = (JobID j, JobType j, JobAudit j, JobLocalRun j, JobLocation j, JobCompetitor j)"

definition audit_scope :: "nat \<Rightarrow> db \<Rightarrow> (nat option) option" where
  "audit_scope a d = map_option AuditLocation (find_audit a d)"

definition run_scope :: "nat \<Rightarrow> db \<Rightarrow> nat option" where
  "run_scope r d = map_option RunLocation (find_run r d)"

text \<open>From \<open>d\<close> to \<open>e\<close> the rows keep their keys, new rows have fresh ones, a settled job stays
  settled, and the jobs outside \<open>S\<close> are not touched.\<close>

definition new_rows_fresh :: "(job \<Rightarrow> bool) \<Rightarrow> db \<Rightarrow> db \<Rightarrow> job list \<Rightarrow> bool" where
  "new_rows_fresh S d e new =
     (distinct (map JobID new)
      \<and> (\<forall>j \<in> set new. next_id d \<le> JobID j \<and> JobID j < next_id e \<and> (S j \<or> JobStatus j = JobPending)))"

definition settles_only :: "(job \<Rightarrow> bool) \<Rightarrow> (job \<Rightarrow> job) \<Rightarrow> bool" where
  "settles_only S f = (\<forall>j. job_key (f j) = job_key j \<and> (job_active (f j) \<longrightarrow> job_active j) \<and> (S j \<or> f j = j))"

definition keeps_scopes :: "db \<Rightarrow> db \<Rightarrow> bool" where
  "keeps_scopes d e =
     ((\<forall>a s. audit_scope a d = Some s \<longrightarrow> audit_scope a e = Some s)
      \<and> (\<forall>r s. run_scope r d = Some s \<longrightarrow> run_scope r e = Some s))"

definition evolves :: "(job \<Rightarrow> bool) \<Rightarrow> db \<Rightarrow> db \<Rightarrow> bool" where
  "evolves S d e =
     (next_id d \<le> next_id e
      \<and> (\<exists>f new. ai_worker_jobs e = map f (ai_worker_jobs d) @ new \<and> settles_only S f \<and> new_rows_fresh S d e new)
      \<and> keeps_scopes d e)"

lemma evolvesI:
  assumes "ai_worker_jobs e = map f (ai_worker_jobs d) @ new" "settles_only S f" "new_rows_fresh S d e new"
    "next_id d \<le> next_id e" "keeps_scopes d e"
  shows "evolves S d e"
  unfolding evolves_def using assms by (intro conjI exI [where x = f] exI [where x = new])

lemma evolvesE:
  assumes "evolves S d e"
  obtains f new where "ai_worker_jobs e = map f (ai_worker_jobs d) @ new" "settles_only S f" "new_rows_fresh S d e new"
    "next_id d \<le> next_id e" "keeps_scopes d e"
  using assms unfolding evolves_def by (elim conjE exE) (rule that)

lemma new_rows_fresh_Nil [simp]: "new_rows_fresh S d e []"
  by (simp add: new_rows_fresh_def)

lemma settles_onlyD:
  assumes "settles_only S f"
  shows "job_key (f j) = job_key j" "job_active (f j) \<Longrightarrow> job_active j" "\<not> S j \<Longrightarrow> f j = j" "JobID (f j) = JobID j"
  using assms by (auto simp: settles_only_def job_key_def)

lemma settles_only_id [simp]: "settles_only S id" "settles_only S (\<lambda>j. j)"
  by (simp_all add: settles_only_def)

lemma keeps_scopes_refl [simp]: "keeps_scopes d d"
  by (simp add: keeps_scopes_def)

lemma keeps_scopes_trans: "keeps_scopes d e \<Longrightarrow> keeps_scopes e g \<Longrightarrow> keeps_scopes d g"
  by (simp add: keeps_scopes_def)

lemma keeps_scopes_same:
  "ai_audits e = ai_audits d \<Longrightarrow> local_visibility_runs e = local_visibility_runs d \<Longrightarrow> keeps_scopes d e"
  by (simp add: keeps_scopes_def audit_scope_def run_scope_def find_audit_def find_run_def)

lemma evolves_refl: "evolves S d d"
  by (rule evolvesI [where f = id and new = "[]"]) simp_all

lemma settles_only_trans:
  assumes "settles_only S f" "settles_only S h" and S: "\<And>j k. job_key j = job_key k \<Longrightarrow> S j = S k"
  shows "settles_only S (h \<circ> f)"
  unfolding settles_only_def
proof (intro allI conjI impI)
  fix j
  note f = settles_onlyD [OF assms(1), of j] and h = settles_onlyD [OF assms(2), of "f j"]
  show "job_key ((h \<circ> f) j) = job_key j" using f(1) h(1) by simp
  show "job_active j" if "job_active ((h \<circ> f) j)" using that f(2) h(2) by simp
  show "S j \<or> (h \<circ> f) j = j" using f(3) h(3) S [OF f(1)] by (cases "S j") simp_all
qed

lemma evolves_trans:
  assumes "evolves S d e" "evolves S e g" and S: "\<And>j k. job_key j = job_key k \<Longrightarrow> S j = S k"
  shows "evolves S d g"
proof -
  obtain f new where f: "ai_worker_jobs e = map f (ai_worker_jobs d) @ new" "settles_only S f"
    "new_rows_fresh S d e new" "next_id d \<le> next_id e" "keeps_scopes d e" using assms(1) by (rule evolvesE)
  obtain h more where h: "ai_worker_jobs g = map h (ai_worker_jobs e) @ more" "settles_only S h"
    "new_rows_fresh S e g more" "next_id e \<le> next_id g" "keeps_scopes e g" using assms(2) by (rule evolvesE)
  note hD = settles_onlyD [OF h(2)]
  have "S (h j) \<or> JobStatus (h j) = JobPending" if "S j \<or> JobStatus j = JobPending" for j
    using that hD(3) [of j] S [OF hD(1) [of j]] by (cases "S j") simp_all
  moreover have "distinct (map JobID (map h new @ more))"
    using f(3) h(3) by (fastforce simp: new_rows_fresh_def hD(4) o_def)
  ultimately have "new_rows_fresh S d g (map h new @ more)"
    using f(3,4) h(3,4) by (fastforce simp: new_rows_fresh_def hD(4))
  moreover have "ai_worker_jobs g = map (h \<circ> f) (ai_worker_jobs d) @ (map h new @ more)" by (simp add: h(1) f(1))
  ultimately show ?thesis
    using settles_only_trans [OF f(2) h(2) S] le_trans [OF f(4) h(4)] keeps_scopes_trans [OF f(5) h(5)]
    by (intro evolvesI)
qed

lemma evolves_weaken:
  assumes "evolves S d e" "\<And>j. S j \<Longrightarrow> T j"
  shows "evolves T d e"
  using assms(1)
proof (rule evolvesE)
  fix f new
  assume f: "ai_worker_jobs e = map f (ai_worker_jobs d) @ new" "settles_only S f"
    "new_rows_fresh S d e new" "next_id d \<le> next_id e" "keeps_scopes d e"
  have "settles_only T f" "new_rows_fresh T d e new"
    using f(2,3) assms(2) by (auto simp: settles_only_def new_rows_fresh_def)
  then show ?thesis using f by (intro evolvesI)
qed

section \<open>The latest job of a class\<close>

datatype job_class = ByLocation nat job_type | ByAudit nat | ByRun nat

definition indexed_job_types :: "job_type set" where
  "indexed_job_types = {LocationProfileGenerationJob, MapQueryGenerationJob, LocationKeywordAnalysisJob, PromptGenerationJob}"

fun in_class :: "job_class \<Rightarrow> job \<Rightarrow> bool" where
  "in_class (ByLocation l t) j = (t \<in> indexed_job_types \<and> JobLocation j = Some l \<and> JobType j = t)"
| "in_class (ByAudit a) j = (JobAudit j = Some a)"
| "in_class (ByRun r) j = (JobLocalRun j = Some r)"

definition latest_job :: "job_class \<Rightarrow> db \<Rightarrow> job option" where
  "latest_job c d = find (in_class c) (rev (ai_worker_jobs d))"

lemma in_class_key: "job_key j = job_key k \<Longrightarrow> in_class c j = in_class c k"
  by (cases c) (auto simp: job_key_def)

lemma in_class_id [simp]: "in_class c (j\<lparr>JobID := i\<rparr>) = in_class c j"
  by (cases c) auto

lemma job_active_id [simp]: "job_active (j\<lparr>JobID := i\<rparr>) = job_active j"
  by (simp add: job_active_def)

lemma latest_job_insert [simp]:
  "latest_job c (insert_job j d) = (if in_class c j then Some (j\<lparr>JobID := next_id d\<rparr>) else latest_job c d)"
  by (simp add: latest_job_def)

lemma latest_job_map:
  assumes "ai_worker_jobs e = map f (ai_worker_jobs d)" "\<And>j. job_key (f j) = job_key j"
  shows "latest_job c e = map_option f (latest_job c d)"
proof -
  have "find (in_class c) (map f xs) = map_option f (find (in_class c) xs)" for xs
    using in_class_key [OF assms(2)] by (induction xs) auto
  then show ?thesis by (simp add: latest_job_def assms(1) rev_map)
qed

lemma latest_job_cong: "ai_worker_jobs e = ai_worker_jobs d \<Longrightarrow> latest_job c e = latest_job c d"
  by (simp add: latest_job_def)

lemma latest_job_in: "latest_job c d = Some j \<Longrightarrow> j \<in> set (ai_worker_jobs d) \<and> in_class c j"
proof -
  assume "latest_job c d = Some j"
  then obtain i where "i < length (rev (ai_worker_jobs d))" "in_class c (rev (ai_worker_jobs d) ! i)" "j = rev (ai_worker_jobs d) ! i"
    by (auto simp: latest_job_def find_Some_iff)
  then show ?thesis using nth_mem [of i "rev (ai_worker_jobs d)"] by simp
qed

lemma latest_job_exists: "j \<in> set (ai_worker_jobs d) \<Longrightarrow> in_class c j \<Longrightarrow> latest_job c d \<noteq> None"
  by (auto simp: latest_job_def find_None_iff)

text \<open>At most one job of a class is pending or running, and it is the latest.\<close>

definition sole_active :: "job_class \<Rightarrow> db \<Rightarrow> bool" where
  "sole_active c d = (\<forall>j \<in> set (ai_worker_jobs d). in_class c j \<and> job_active j \<longrightarrow> latest_job c d = Some j)"

definition class_active :: "job_class \<Rightarrow> db \<Rightarrow> bool" where
  "class_active c d = (\<exists>j \<in> set (ai_worker_jobs d). in_class c j \<and> job_active j)"

definition job_refs_ok :: "db \<Rightarrow> job \<Rightarrow> bool" where
  "job_refs_ok d j =
     ((\<forall>a. JobAudit j = Some a \<longrightarrow> JobType j = VisibilityRunJob \<and> audit_scope a d \<noteq> None)
      \<and> (\<forall>r. JobLocalRun j = Some r \<longrightarrow> JobType j = LocalVisibilityJob \<and> run_scope r d \<noteq> None))"

definition tables_ok :: "db \<Rightarrow> bool" where
  "tables_ok d =
     (distinct (map JobID (ai_worker_jobs d)) \<and> (\<forall>j \<in> set (ai_worker_jobs d). JobID j < next_id d \<and> job_refs_ok d j)
      \<and> (\<forall>a \<in> set (ai_audits d). AuditID a < next_id d) \<and> (\<forall>r \<in> set (local_visibility_runs d). RunID r < next_id d)
      \<and> (\<forall>c \<in> set (crawl_rows d). CrawlRowID c < next_id d) \<and> distinct (map CrawlRowID (crawl_rows d))
      \<and> distinct (map AuditID (ai_audits d)) \<and> (\<forall>c. sole_active c d))"

lemma tables_ok_insert_job:
  assumes "tables_ok d" "job_refs_ok d j" "\<And>c. in_class c j \<Longrightarrow> \<not> class_active c d"
  shows "tables_ok (insert_job j d)"
proof -
  have "sole_active c (insert_job j d)" for c
    using assms(1,3) by (auto simp: tables_ok_def sole_active_def class_active_def)
  moreover have "job_refs_ok (insert_job j d) k = job_refs_ok d k" "job_refs_ok d (j\<lparr>JobID := i\<rparr>) = job_refs_ok d j" for k i
    by (simp_all add: job_refs_ok_def audit_scope_def run_scope_def find_audit_def find_run_def)
  ultimately show ?thesis using assms(1,2) by (auto simp: tables_ok_def less_Suc_eq)
qed

lemma tables_ok_map_jobs:
  assumes "tables_ok d" and jobs: "ai_worker_jobs e = map f (ai_worker_jobs d)"
    and f: "\<And>j. job_key (f j) = job_key j" "\<And>j. job_active (f j) \<Longrightarrow> job_active j"
    and same: "next_id e = next_id d" "map AuditID (ai_audits e) = map AuditID (ai_audits d)"
      "\<And>a. audit_scope a e = audit_scope a d" "\<And>r. run_scope r e = run_scope r d"
      "map RunID (local_visibility_runs e) = map RunID (local_visibility_runs d)"
      "map CrawlRowID (crawl_rows e) = map CrawlRowID (crawl_rows d)"
  shows "tables_ok e"
proof -
  have key: "JobID (f j) = JobID j" "JobType (f j) = JobType j" "JobAudit (f j) = JobAudit j" "JobLocalRun (f j) = JobLocalRun j" for j
    using f(1) [of j] by (simp_all add: job_key_def)
  have "map JobID (ai_worker_jobs e) = map JobID (ai_worker_jobs d)" by (simp add: jobs key)
  moreover have "sole_active c e" for c
    using assms(1) f in_class_key [OF f(1)]
    by (auto simp: tables_ok_def sole_active_def jobs latest_job_map [OF jobs f(1)])
  moreover have bound: "(\<forall>x \<in> set ys. g x < n) = (\<forall>x \<in> set xs. g x < n)" if "map g ys = map g xs" for g n and xs ys :: "'x list"
    using arg_cong [OF that, of "\<lambda>zs. \<forall>z \<in> set zs. z < n"] by simp
  moreover have "\<forall>j \<in> set (ai_worker_jobs e). JobID j < next_id e \<and> job_refs_ok e j"
    using assms(1) by (auto simp: tables_ok_def jobs key job_refs_ok_def same(1,3,4))
  ultimately show ?thesis using assms(1) same
    unfolding tables_ok_def by (simp add: bound [OF same(2)] bound [OF same(5)] bound [OF same(6)])
qed

end
