(* ===== verification/LocationFrames.thy ===== *)
theory LocationFrames
  imports WorkerFacts
begin

text \<open>
  What the location workflow leaves alone: an operation on location \<open>l\<close> changes no other setup
  row, no crawl, and of the existing jobs only the one it settles; the tables stay well formed.
\<close>

definition loc_op :: "(job \<Rightarrow> bool) \<Rightarrow> nat \<Rightarrow> db \<Rightarrow> db \<Rightarrow> bool" where
  "loc_op S l d e =
     (evolves S d e \<and> tables_ok e \<and> project_setup_row e = project_setup_row d
      \<and> competitor_setup_rows e = competitor_setup_rows d \<and> crawl_rows e = crawl_rows d
      \<and> (\<forall>k. k \<noteq> l \<longrightarrow> location_setup_rows e k = location_setup_rows d k)
      \<and> (location_setup_rows d l = None \<longrightarrow> project_locations d l = None \<longrightarrow> location_setup_rows e l = None)
      \<and> project_locations e = project_locations d)"

named_theorems loc_op_intros

lemma loc_op_refl [loc_op_intros]: "tables_ok d \<Longrightarrow> loc_op S l d d"
  by (simp add: loc_op_def evolves_refl)

lemma loc_op_tables: "loc_op S l d e \<Longrightarrow> tables_ok e"
  by (simp add: loc_op_def)

lemma audit_scopeD: "audit_scope a d = Some s \<Longrightarrow> \<exists>x. find_audit a d = Some x \<and> AuditLocation x = s"
  by (cases "find_audit a d") (simp_all add: audit_scope_def)

lemma run_scopeD: "run_scope r d = Some s \<Longrightarrow> \<exists>x. find_run r d = Some x \<and> RunLocation x = s"
  by (cases "find_run r d") (simp_all add: run_scope_def)

lemma loc_op_audit_scope:
  assumes "loc_op S l d e" "audit_scope a d = Some s"
  shows "\<exists>x. find_audit a e = Some x \<and> AuditLocation x = s"
  using assms by (intro audit_scopeD) (simp add: loc_op_def evolves_def keeps_scopes_def)

lemma loc_op_run_scope:
  assumes "loc_op S l d e" "run_scope r d = Some s"
  shows "\<exists>x. find_run r e = Some x \<and> RunLocation x = s"
  using assms by (intro run_scopeD) (simp add: loc_op_def evolves_def keeps_scopes_def)

lemma evolves_same_jobs:
  assumes "evolves S d e" "ai_worker_jobs g = ai_worker_jobs e" "next_id e \<le> next_id g" "keeps_scopes e g"
  shows "evolves S d g"
  using assms(1)
proof (rule evolvesE)
  fix f new
  assume f: "ai_worker_jobs e = map f (ai_worker_jobs d) @ new" "settles_only S f"
    "new_rows_fresh S d e new" "next_id d \<le> next_id e" "keeps_scopes d e"
  have "new_rows_fresh S d g new" using f(3) assms(3) by (auto simp: new_rows_fresh_def)
  then show ?thesis
    using f assms(2) le_trans [OF f(4) assms(3)] keeps_scopes_trans [OF f(5) assms(4)] by (intro evolvesI) simp_all
qed

lemma evolves_insert_job:
  assumes "evolves S d e" "JobStatus j = JobPending"
  shows "evolves S d (insert_job j e)"
  using assms(1)
proof (rule evolvesE)
  fix f new
  assume f: "ai_worker_jobs e = map f (ai_worker_jobs d) @ new" "settles_only S f"
    "new_rows_fresh S d e new" "next_id d \<le> next_id e" "keeps_scopes d e"
  have "new_rows_fresh S d (insert_job j e) (new @ [j\<lparr>JobID := next_id e\<rparr>])"
    using f(3,4) assms(2) by (fastforce simp: new_rows_fresh_def)
  moreover have "keeps_scopes d (insert_job j e)"
    by (rule keeps_scopes_trans [OF f(5) keeps_scopes_same]) simp_all
  ultimately show ?thesis using f(1,2,4) by (intro evolvesI) simp_all
qed

lemma tables_ok_cong:
  assumes "tables_ok d" "ai_worker_jobs e = ai_worker_jobs d" "next_id e = next_id d" "ai_audits e = ai_audits d"
    "local_visibility_runs e = local_visibility_runs d" "crawl_rows e = crawl_rows d"
  shows "tables_ok e"
  using assms by (auto simp: tables_ok_def job_refs_ok_def audit_scope_def run_scope_def find_audit_def find_run_def
      sole_active_def latest_job_cong [OF assms(2)])

text \<open>A change of the rows of location \<open>l\<close>, the credits or the audit count only.\<close>

lemma loc_op_rows [loc_op_intros]:
  assumes "loc_op S l d e" "ai_worker_jobs g = ai_worker_jobs e" "next_id g = next_id e" "ai_audits g = ai_audits e"
    "local_visibility_runs g = local_visibility_runs e" "crawl_rows g = crawl_rows e"
    "project_setup_row g = project_setup_row e" "competitor_setup_rows g = competitor_setup_rows e"
    "project_locations g = project_locations e" "\<And>k. k \<noteq> l \<Longrightarrow> location_setup_rows g k = location_setup_rows e k"
    "location_setup_rows e l = None \<Longrightarrow> project_locations e l = None \<Longrightarrow> location_setup_rows g l = None"
  shows "loc_op S l d g"
proof -
  have "evolves S d g"
    by (rule evolves_same_jobs [of S d e])
      (use assms in \<open>auto simp: loc_op_def intro: keeps_scopes_same\<close>)
  moreover have "tables_ok g" by (rule tables_ok_cong [OF loc_op_tables [OF assms(1)] assms(2-6)])
  ultimately show ?thesis using assms by (auto simp: loc_op_def)
qed

lemma loc_op_update_row [loc_op_intros]: "loc_op S l d e \<Longrightarrow> loc_op S l d (update_row l f e)"
  by (erule loc_op_rows) simp_all

lemma loc_op_used_audits [loc_op_intros]: "loc_op S l d e \<Longrightarrow> loc_op S l d (e\<lparr>used_audits := n\<rparr>)"
  by (erule loc_op_rows) simp_all

lemma loc_op_platform [loc_op_intros]: "loc_op S l d e \<Longrightarrow> loc_op S l d (e\<lparr>platform_credits := c\<rparr>)"
  by (erule loc_op_rows) simp_all

lemma loc_op_organization [loc_op_intros]: "loc_op S l d e \<Longrightarrow> loc_op S l d (e\<lparr>organization_credits := c\<rparr>)"
  by (erule loc_op_rows) simp_all

lemma loc_op_new_row [loc_op_intros]:
  "loc_op S l d e \<Longrightarrow> project_locations e l \<noteq> None \<Longrightarrow> loc_op S l d (e\<lparr>location_setup_rows := (location_setup_rows e)(l := r)\<rparr>)"
  by (erule loc_op_rows) simp_all

lemma loc_op_insert_job:
  assumes "loc_op S l d e" "job_refs_ok e j" "\<And>c. in_class c j \<Longrightarrow> \<not> class_active c e" "JobStatus j = JobPending"
  shows "loc_op S l d (insert_job j e)"
  using assms evolves_insert_job tables_ok_insert_job by (simp add: loc_op_def)

lemma blank_job_pending [simp]: "JobStatus blank_job = JobPending"
  by (simp add: blank_job_def)

lemma blank_job_refs: "job_refs_ok d (blank_job\<lparr>JobType := t, JobLocation := m\<rparr>)"
  by (simp add: job_refs_ok_def blank_job_def)

lemma loc_op_enqueue [loc_op_intros]: "loc_op S l d e \<Longrightarrow> loc_op S l d (enqueue_location_job l t e)"
proof (cases "conflicts_active l t e")
  case False
  assume "loc_op S l d e"
  moreover have "\<not> class_active c e" if "in_class c (blank_job\<lparr>JobType := t, JobLocation := Some l\<rparr>)" for c
    using that False
    by (cases c) (auto simp: class_active_def conflicts_active_def indexed_job_types_def list_ex_iff blank_job_def)
  ultimately show ?thesis using False blank_job_refs by (simp add: enqueue_location_job_def loc_op_insert_job)
qed (simp add: enqueue_location_job_def)

lemma loc_op_ensure_audit_job [loc_op_intros]:
  "loc_op S l d e \<Longrightarrow> audit_scope a e \<noteq> None \<Longrightarrow> loc_op S l d (ensure_audit_job l a e)"
  unfolding ensure_audit_job_def
proof (split if_split, intro conjI impI)
  assume e: "loc_op S l d e" and a: "audit_scope a e \<noteq> None"
    and none: "\<not> list_ex (\<lambda>j. JobAudit j = Some a \<and> job_active j) (ai_worker_jobs e)"
  show "loc_op S l d (insert_job (blank_job\<lparr>JobType := VisibilityRunJob, JobLocation := Some l, JobAudit := Some a\<rparr>) e)"
  proof (rule loc_op_insert_job [OF e])
    fix c
    assume "in_class c (blank_job\<lparr>JobType := VisibilityRunJob, JobLocation := Some l, JobAudit := Some a\<rparr>)"
    then show "\<not> class_active c e" using none
      by (cases c) (auto simp: class_active_def list_ex_iff blank_job_def indexed_job_types_def)
  qed (use a in \<open>simp_all add: job_refs_ok_def blank_job_def\<close>)
qed

lemma loc_op_ensure_local_run_job [loc_op_intros]:
  "loc_op S l d e \<Longrightarrow> run_scope r e \<noteq> None \<Longrightarrow> loc_op S l d (ensure_local_run_job l r e)"
  unfolding ensure_local_run_job_def
proof (split if_split, intro conjI impI)
  assume e: "loc_op S l d e" and r: "run_scope r e \<noteq> None"
    and none: "\<not> list_ex (\<lambda>j. JobLocalRun j = Some r \<and> job_active j) (ai_worker_jobs e)"
  show "loc_op S l d (insert_job (blank_job\<lparr>JobType := LocalVisibilityJob, JobLocation := Some l, JobLocalRun := Some r\<rparr>) e)"
  proof (rule loc_op_insert_job [OF e])
    fix c
    assume "in_class c (blank_job\<lparr>JobType := LocalVisibilityJob, JobLocation := Some l, JobLocalRun := Some r\<rparr>)"
    then show "\<not> class_active c e" using none
      by (cases c) (auto simp: class_active_def list_ex_iff blank_job_def indexed_job_types_def)
  qed (use r in \<open>simp_all add: job_refs_ok_def blank_job_def\<close>)
qed

end
