(* ===== verification/LocationOps.thy ===== *)
theory LocationOps
  imports LocationFrames
begin

text \<open>Every operation of the location workflow is a \<open>loc_op\<close> on its location.\<close>

section \<open>Audits and runs\<close>

lemma find_append: "find P (xs @ ys) = (case find P xs of None \<Rightarrow> find P ys | Some x \<Rightarrow> Some x)"
  by (induction xs) auto

lemma keys_below:
  assumes "map g ys = map g xs @ [n]" "\<forall>x \<in> set xs. g x < n" "y \<in> set ys"
  shows "g y < Suc (n :: nat)"
proof -
  have "g y \<in> set (map g xs @ [n])" unfolding assms(1) [symmetric] using assms(3) by simp
  then show ?thesis using assms(2) by (auto simp: less_Suc_eq)
qed

lemma create_ai_audit_scope:
  "create_ai_audit c l s d = Inr (a, e) \<Longrightarrow>
    a = next_id d \<and> ai_worker_jobs e = ai_worker_jobs d \<and> next_id e = Suc (next_id d)
    \<and> local_visibility_runs e = local_visibility_runs d \<and> crawl_rows e = crawl_rows d
    \<and> project_setup_row e = project_setup_row d \<and> competitor_setup_rows e = competitor_setup_rows d
    \<and> location_setup_rows e = location_setup_rows d \<and> project_locations e = project_locations d
    \<and> (\<forall>b t. audit_scope b d = Some t \<longrightarrow> audit_scope b e = Some t)
    \<and> map AuditID (ai_audits e) = map AuditID (ai_audits d) @ [next_id d]"
  by (auto simp: create_ai_audit_def audit_scope_def find_audit_def find_append split: if_splits)

lemma create_ai_audit_new_scope:
  assumes "create_ai_audit c l s d = Inr (a, e)" "tables_ok d"
  shows "audit_scope a e = Some l"
proof -
  have "find (\<lambda>x. AuditID x = next_id d) (ai_audits d) = None"
    using assms(2) by (auto simp: tables_ok_def find_None_iff)
  then have "find (\<lambda>x. AuditID x = next_id d) (ai_audits d @ xs) = find (\<lambda>x. AuditID x = next_id d) xs" for xs
    by (simp add: find_append)
  then show ?thesis using assms(1)
    by (auto simp: create_ai_audit_def audit_scope_def find_audit_def split: if_splits)
qed

lemma tables_ok_grow:
  assumes "tables_ok d" "ai_worker_jobs e = ai_worker_jobs d" "next_id d \<le> next_id e"
    "\<forall>a \<in> set (ai_audits e). AuditID a < next_id e" "\<forall>r \<in> set (local_visibility_runs e). RunID r < next_id e"
    "\<forall>c \<in> set (crawl_rows e). CrawlRowID c < next_id e" "distinct (map CrawlRowID (crawl_rows e))"
    "distinct (map AuditID (ai_audits e))"
    "\<And>a s. audit_scope a d = Some s \<Longrightarrow> audit_scope a e = Some s"
    "\<And>r s. run_scope r d = Some s \<Longrightarrow> run_scope r e = Some s"
  shows "tables_ok e"
proof -
  have "job_refs_ok e j" if "job_refs_ok d j" for j
    using that assms(9,10) unfolding job_refs_ok_def by fastforce
  then show ?thesis using assms
    by (auto simp: tables_ok_def sole_active_def latest_job_cong [OF assms(2)] intro: less_le_trans)
qed

lemma tables_ok_create_audit:
  assumes "create_ai_audit c l s d = Inr (a, e)" "tables_ok d"
  shows "tables_ok e"
proof -
  note e = create_ai_audit_scope [OF assms(1)]
  have "AuditID x < next_id e" if "x \<in> set (ai_audits e)" for x
    using keys_below [of AuditID "ai_audits e" "ai_audits d" "next_id d" x] that assms(2) e by (simp add: tables_ok_def)
  moreover have "distinct (map AuditID (ai_audits e))" using assms(2) e by (auto simp: tables_ok_def)
  ultimately show ?thesis
    by (intro tables_ok_grow [OF assms(2)]) (use assms(2) e in \<open>auto simp: tables_ok_def run_scope_def find_run_def less_SucI\<close>)
qed

lemma loc_op_create_audit [loc_op_intros]:
  assumes "loc_op S l d e" "create_ai_audit c l' s e = Inr (a, g)"
  shows "loc_op S l d g"
proof -
  note g = create_ai_audit_scope [OF assms(2)]
  have "evolves S d g"
    by (rule evolves_same_jobs [of S d e]) (use assms(1) g in \<open>auto simp: loc_op_def keeps_scopes_def run_scope_def find_run_def\<close>)
  then show ?thesis using assms(1) g tables_ok_create_audit [OF assms(2)] by (simp add: loc_op_def)
qed

lemma create_run_scope:
  "create_local_visibility_run l radius qs n d = Inr (r, e) \<Longrightarrow>
    r = next_id d \<and> ai_worker_jobs e = ai_worker_jobs d \<and> next_id e = Suc (next_id d)
    \<and> ai_audits e = ai_audits d \<and> crawl_rows e = crawl_rows d
    \<and> project_setup_row e = project_setup_row d \<and> competitor_setup_rows e = competitor_setup_rows d
    \<and> location_setup_rows e = location_setup_rows d \<and> project_locations e = project_locations d
    \<and> (\<forall>b t. run_scope b d = Some t \<longrightarrow> run_scope b e = Some t)
    \<and> map RunID (local_visibility_runs e) = map RunID (local_visibility_runs d) @ [next_id d]"
  by (auto simp: create_local_visibility_run_def run_scope_def find_run_def find_append split: if_splits)

lemma create_run_new_scope:
  assumes "create_local_visibility_run l radius qs n d = Inr (r, e)" "tables_ok d"
  shows "run_scope r e = Some l"
proof -
  have "find (\<lambda>x. RunID x = next_id d) (local_visibility_runs d) = None"
    using assms(2) by (auto simp: tables_ok_def find_None_iff)
  then have "find (\<lambda>x. RunID x = next_id d) (local_visibility_runs d @ xs) = find (\<lambda>x. RunID x = next_id d) xs" for xs
    by (simp add: find_append)
  then show ?thesis using assms(1)
    by (auto simp: create_local_visibility_run_def run_scope_def find_run_def split: if_splits)
qed

lemma tables_ok_create_run:
  assumes "create_local_visibility_run l radius qs n d = Inr (r, e)" "tables_ok d"
  shows "tables_ok e"
proof -
  note e = create_run_scope [OF assms(1)]
  have "RunID x < next_id e" if "x \<in> set (local_visibility_runs e)" for x
    using keys_below [of RunID "local_visibility_runs e" "local_visibility_runs d" "next_id d" x] that assms(2) e by (simp add: tables_ok_def)
  then show ?thesis
    by (intro tables_ok_grow [OF assms(2)]) (use assms(2) e in \<open>auto simp: tables_ok_def audit_scope_def find_audit_def less_SucI\<close>)
qed

lemma loc_op_create_run [loc_op_intros]:
  assumes "loc_op S l d e" "create_local_visibility_run l' radius qs n e = Inr (r, g)"
  shows "loc_op S l d g"
proof -
  note g = create_run_scope [OF assms(2)]
  have "evolves S d g"
    by (rule evolves_same_jobs [of S d e]) (use assms(1) g in \<open>auto simp: loc_op_def keeps_scopes_def audit_scope_def find_audit_def\<close>)
  then show ?thesis using assms(1) g tables_ok_create_run [OF assms(2)] by (simp add: loc_op_def)
qed

lemma audit_scope_fail_audits [simp]: "audit_scope a (fail_audits P m d) = audit_scope a d"
proof -
  have "map_option AuditLocation (find (\<lambda>x. AuditID x = a) (map (\<lambda>x. if P x then x\<lparr>AuditStatus := AuditFailed, AuditError := Some m\<rparr> else x) xs))
      = map_option AuditLocation (find (\<lambda>x. AuditID x = a) xs)" for xs
    by (induction xs) auto
  then show ?thesis by (simp add: audit_scope_def find_audit_def fail_audits_def)
qed

lemma loc_op_fail_audits [loc_op_intros]: "loc_op S l d e \<Longrightarrow> loc_op S l d (fail_audits P m e)"
proof -
  assume e: "loc_op S l d e"
  have r: "run_scope r (fail_audits P m e) = run_scope r e" for r by (simp add: run_scope_def find_run_def)
  have "evolves S d (fail_audits P m e)"
    by (rule evolves_same_jobs [of S d e]) (use e r in \<open>auto simp: loc_op_def keeps_scopes_def\<close>)
  moreover have "tables_ok (fail_audits P m e)"
    by (rule tables_ok_map_jobs [OF loc_op_tables [OF e], of _ id]) (use r in simp_all)
  ultimately show ?thesis using e by (simp add: loc_op_def)
qed

section \<open>Settling a job\<close>

lemma loc_op_set_job:
  assumes "tables_ok d" "\<And>j. job_key (f j) = job_key j" "\<And>j. \<not> job_active (f j)"
  shows "loc_op (\<lambda>j. JobID j = i) l d (set_job i f d)"
proof -
  have same: "audit_scope a (set_job i f d) = audit_scope a d" "run_scope r (set_job i f d) = run_scope r d" for a r
    by (simp_all add: audit_scope_def run_scope_def find_audit_def find_run_def)
  have "evolves (\<lambda>j. JobID j = i) d (set_job i f d)"
    by (rule evolvesI [where f = "\<lambda>j. if JobID j = i then f j else j" and new = "[]"])
      (use assms same in \<open>simp_all add: settles_only_def keeps_scopes_def\<close>)
  moreover have "tables_ok (set_job i f d)"
    by (rule tables_ok_map_jobs [OF assms(1), of _ "\<lambda>j. if JobID j = i then f j else j"])
      (use assms same in \<open>auto split: if_splits\<close>)
  ultimately show ?thesis by (simp add: loc_op_def)
qed

lemma loc_op_mark_completed [loc_op_intros]:
  "tables_ok d \<Longrightarrow> loc_op (\<lambda>j. JobID j = i) l d (mark_ai_worker_job_completed i d)"
  unfolding mark_ai_worker_job_completed_def
  by (rule loc_op_set_job) (simp_all add: job_key_def job_active_def)

lemma loc_op_mark_failed [loc_op_intros]:
  "tables_ok d \<Longrightarrow> loc_op (\<lambda>j. JobID j = i) l d (mark_ai_worker_job_failed i m d)"
  unfolding mark_ai_worker_job_failed_def
  by (rule loc_op_set_job) (simp_all add: job_key_def job_active_def)

section \<open>Steps\<close>

lemma loc_op_refresh [loc_op_intros]: "loc_op S l d e \<Longrightarrow> refresh_overall l e = Inr g \<Longrightarrow> loc_op S l d g"
  by (auto simp: refresh_overall_def Let_def split: option.splits intro: loc_op_intros)

lemma loc_op_complete [loc_op_intros]:
  "loc_op S l d e \<Longrightarrow> complete_step l setup i e = Inr (s, g) \<Longrightarrow> loc_op S l d g"
  by (auto simp: complete_step_def intro: loc_op_refresh loc_op_update_row)

lemma loc_op_skip [loc_op_intros]:
  "loc_op S l d e \<Longrightarrow> skip_step l setup i reason e = Inr (s, g) \<Longrightarrow> loc_op S l d g"
  by (auto simp: skip_step_def Let_def intro: loc_op_refresh loc_op_update_row)

lemma loc_op_fail [loc_op_intros]: "loc_op S l d e \<Longrightarrow> loc_op S l d (fail_step l setup i m e)"
  by (simp add: fail_step_def Let_def loc_op_update_row)

lemma loc_op_defer [loc_op_intros]: "loc_op S l d e \<Longrightarrow> loc_op S l d (defer_step l setup i m e)"
  by (simp add: defer_step_def loc_op_update_row)

lemma loc_op_start_step [loc_op_intros]: "loc_op S l d e \<Longrightarrow> loc_op S l d (start_step l i t e)"
  by (simp add: start_step_def loc_op_update_row loc_op_enqueue)

section \<open>Launches\<close>

lemma loc_op_reserve_audit:
  "loc_op S l d e \<Longrightarrow> reserve_ai_workspace_monthly_audit n e = Some g \<Longrightarrow> loc_op S l d g"
  by (auto simp: reserve_ai_workspace_monthly_audit_def split: if_splits intro: loc_op_used_audits)

lemma loc_op_reserve_and_start_audit:
  assumes "loc_op S l d e" "reserve_and_start_audit l setup e = Inr (s, g)"
  shows "loc_op S l d g"
proof -
  have skip: "loc_op S l d g" if "skip_step l setup StepAIVisibility reason e = Inr (s, g)" for reason
    using loc_op_skip [OF assms(1) that] .
  have start: "loc_op S l d g"
    if r: "reserve_ai_workspace_monthly_audit n e = Some e1" and c: "create_ai_audit None (Some l) None e1 = Inr (a, e2)"
      and g: "g = update_row l (set_step StepAIVisibility StepRunning)
                (ensure_audit_job l a (update_row l (\<lambda>s. s\<lparr>LsAIAuditID := Some a\<rparr>) e2))" for n e1 e2 a
  proof -
    have e1: "loc_op S l d e1" by (rule loc_op_reserve_audit [OF assms(1) r])
    have e2: "loc_op S l d (update_row l (\<lambda>s. s\<lparr>LsAIAuditID := Some a\<rparr>) e2)"
      by (intro loc_op_update_row loc_op_create_audit [OF e1 c])
    have "audit_scope a (update_row l (\<lambda>s. s\<lparr>LsAIAuditID := Some a\<rparr>) e2) = Some (Some l)"
      using create_ai_audit_new_scope [OF c loc_op_tables [OF e1]] by (simp add: audit_scope_def find_audit_def)
    then show ?thesis unfolding g by (intro loc_op_update_row loc_op_ensure_audit_job e2) simp
  qed
  show ?thesis using assms(2) skip start
    by (auto simp: reserve_and_start_audit_def keep_setup_def split: option.splits if_splits)
qed

lemma loc_op_launch_new_audit:
  "loc_op S l d e \<Longrightarrow> launch_new_audit l setup e = Inr (s, g) \<Longrightarrow> loc_op S l d g"
  by (auto simp: launch_new_audit_def keep_setup_def split: if_splits intro: loc_op_defer loc_op_fail loc_op_reserve_and_start_audit)

lemma audit_scope_found: "find_audit a d = Some x \<Longrightarrow> audit_scope a d \<noteq> None"
  by (simp add: audit_scope_def)

lemma loc_op_launch_ai [loc_op_intros]:
  "loc_op S l d e \<Longrightarrow> launch_ai_visibility_tx l setup e = Inr (s, g) \<Longrightarrow> loc_op S l d g"
  by (auto simp: launch_ai_visibility_tx_def keep_setup_def split: if_splits option.splits
      intro!: loc_op_update_row loc_op_ensure_audit_job intro: loc_op_launch_new_audit loc_op_complete dest: audit_scope_found)

lemma loc_op_start_maps_run:
  assumes "loc_op S l d e" "start_maps_run l setup radius qs n e = Inr (s, g)"
  shows "loc_op S l d g"
proof -
  obtain r e1 where c: "create_local_visibility_run l radius qs n e = Inr (r, e1)"
    and g: "g = update_row l (\<lambda>s. (set_step StepMapsVisibility StepRunning s)\<lparr>LsMapsRunID := Some r, LsEstimatedMapsCredits := Some n\<rparr>)
             (insert_job (blank_job\<lparr>JobType := LocalVisibilityJob, JobLocation := Some l, JobLocalRun := Some r\<rparr>) e1)"
    using assms(2) by (auto simp: start_maps_run_def keep_setup_def)
  let ?j = "blank_job\<lparr>JobType := LocalVisibilityJob, JobLocation := Some l, JobLocalRun := Some r\<rparr>"
  note e1 = create_run_scope [OF c]
  have "\<not> class_active (ByRun r) e1"
  proof -
    have "run_scope r e = None" using loc_op_tables [OF assms(1)] e1
      by (auto simp: tables_ok_def run_scope_def find_run_def find_None_iff)
    then show ?thesis using loc_op_tables [OF assms(1)] e1
      by (auto simp: class_active_def tables_ok_def job_refs_ok_def)
  qed
  then have "\<not> class_active k e1" if "in_class k ?j" for k
    using that by (cases k) (auto simp: blank_job_def indexed_job_types_def)
  moreover have "job_refs_ok e1 ?j"
    using create_run_new_scope [OF c loc_op_tables [OF assms(1)]] by (simp add: job_refs_ok_def blank_job_def)
  ultimately show ?thesis unfolding g by (intro loc_op_update_row loc_op_insert_job loc_op_create_run [OF assms(1) c]) (simp_all add: blank_job_def)
qed

lemma loc_op_reserve_and_start_run:
  "loc_op S l d e \<Longrightarrow> reserve_and_start_run l setup radius qs n e = Inr (s, g) \<Longrightarrow> loc_op S l d g"
  by (auto simp: reserve_and_start_run_def Let_def split: option.splits
      dest!: loc_op_start_maps_run [rotated] loc_op_skip [rotated] intro!: loc_op_platform loc_op_organization)

lemma loc_op_launch_new_run:
  "loc_op S l d e \<Longrightarrow> launch_new_run grid l setup e = Inr (s, g) \<Longrightarrow> loc_op S l d g"
  by (auto simp: launch_new_run_def keep_setup_def Let_def split: option.splits if_splits sum.splits
      intro: loc_op_defer loc_op_skip loc_op_reserve_and_start_run)

lemma run_scope_found: "find_run r d = Some x \<Longrightarrow> run_scope r d \<noteq> None"
  by (simp add: run_scope_def)

lemma loc_op_launch_maps [loc_op_intros]:
  "loc_op S l d e \<Longrightarrow> launch_maps_visibility_tx grid l setup e = Inr (s, g) \<Longrightarrow> loc_op S l d g"
  by (auto simp: launch_maps_visibility_tx_def keep_setup_def split: if_splits option.splits
      intro!: loc_op_update_row loc_op_ensure_local_run_job intro: loc_op_launch_new_run loc_op_refresh [OF loc_op_update_row] dest: run_scope_found)

section \<open>Finalizations\<close>

lemma map_result_Inr [simp]: "map_result f r = Inr y \<longleftrightarrow> (\<exists>x. r = Inr x \<and> y = f x)"
  by (cases r) auto

lemma loc_op_settle:
  assumes "settle_step l i advance e = Inr g" "loc_op S l d e"
    "\<And>setup. location_setup_rows e l = Some setup \<Longrightarrow> LsSteps setup i = StepRunning \<Longrightarrow> advance setup e = Inr g \<Longrightarrow> loc_op S l d g"
  shows "loc_op S l d g"
  using assms by (auto simp: settle_step_def split: option.splits if_splits)

lemma loc_op_start_pending: "loc_op S l d e \<Longrightarrow> loc_op S l d (start_pending l setup i t e)"
  by (simp add: start_pending_def loc_op_start_step)

lemma loc_op_finalize_profile:
  "tables_ok d \<Longrightarrow> finalize_profile_success l i d = Inr e \<Longrightarrow> loc_op (\<lambda>j. JobID j = i) l d e"
  unfolding finalize_profile_success_def
  by (erule loc_op_settle) (auto intro!: loc_op_start_pending intro: loc_op_mark_completed loc_op_complete [OF loc_op_mark_completed])

lemma loc_op_finalize_keywords:
  "tables_ok d \<Longrightarrow> location_finalize_keyword_analysis_success l i d = Inr e \<Longrightarrow> loc_op (\<lambda>j. JobID j = i) l d e"
  unfolding location_finalize_keyword_analysis_success_def
  by (erule loc_op_settle) (auto intro: loc_op_mark_completed loc_op_complete)

lemma loc_op_finalize_keywords_empty:
  "tables_ok d \<Longrightarrow> finalize_keyword_analysis_empty l i d = Inr e \<Longrightarrow> loc_op (\<lambda>j. JobID j = i) l d e"
  unfolding finalize_keyword_analysis_empty_def
  by (erule loc_op_settle) (auto intro: loc_op_mark_completed loc_op_skip)

lemma loc_op_finalize_questions:
  "tables_ok d \<Longrightarrow> finalize_questions_success l i d = Inr e \<Longrightarrow> loc_op (\<lambda>j. JobID j = i) l d e"
  unfolding finalize_questions_success_def
  by (erule loc_op_settle) (auto intro: loc_op_mark_completed loc_op_launch_ai [OF loc_op_complete [OF loc_op_mark_completed]])

lemma loc_op_finalize_map_queries:
  "tables_ok d \<Longrightarrow> finalize_map_queries_success grid l i d = Inr e \<Longrightarrow> loc_op (\<lambda>j. JobID j = i) l d e"
  unfolding finalize_map_queries_success_def
  by (erule loc_op_settle) (auto intro: loc_op_mark_completed loc_op_launch_maps [OF loc_op_complete [OF loc_op_mark_completed]])

lemma loc_op_fail_owned_job:
  "tables_ok d \<Longrightarrow> fail_owned_job l i step m d = Inr e \<Longrightarrow> loc_op (\<lambda>j. JobID j = i) l d e"
  unfolding fail_owned_job_def
  by (erule loc_op_settle) (auto intro: loc_op_mark_failed loc_op_fail)

text \<open>The location of an audit or of a run is the one recorded in its row.\<close>

lemma loc_op_finalize_visibility_run:
  assumes "tables_ok d" "finalize_visibility_run i a vis err d = Inr e" "audit_scope a d = Some (Some l)"
  shows "loc_op (\<lambda>j. JobID j = i) l d e"
proof -
  let ?d1 = "case err of Some m \<Rightarrow> fail_audits (\<lambda>x. AuditID x = a \<and> audit_active x) (cut_error m)
                (mark_ai_worker_job_failed i (Some (cut_error m)) d) | None \<Rightarrow> mark_ai_worker_job_completed i d"
  have d1: "loc_op (\<lambda>j. JobID j = i) l d ?d1"
    using assms(1) by (auto split: option.splits intro: loc_op_mark_completed loc_op_fail_audits loc_op_mark_failed)
  obtain x where x: "find_audit a ?d1 = Some x" "AuditLocation x = Some l"
    using loc_op_audit_scope [OF d1 assms(3)] by blast
  show ?thesis using assms(2) unfolding finalize_visibility_run_def Let_def x option.case
    by (rule loc_op_settle [OF _ d1]) (use assms(1) in \<open>auto split: if_splits option.splits
        intro: loc_op_fail loc_op_complete loc_op_fail_audits loc_op_mark_failed loc_op_mark_completed\<close>)
qed

lemma loc_op_finalize_local_run:
  assumes "tables_ok d" "finalize_local_run i r err d = Inr e" "run_scope r d = Some l"
  shows "loc_op (\<lambda>j. JobID j = i) l d e"
proof -
  let ?d1 = "case err of Some m \<Rightarrow> mark_ai_worker_job_failed i (Some (cut_error m)) d | None \<Rightarrow> mark_ai_worker_job_completed i d"
  have d1: "loc_op (\<lambda>j. JobID j = i) l d ?d1"
    using assms(1) by (auto split: option.splits intro: loc_op_mark_completed loc_op_mark_failed)
  obtain x where x: "find_run r ?d1 = Some x" "RunLocation x = l"
    using loc_op_run_scope [OF d1 assms(3)] by blast
  show ?thesis
  proof (cases "project_locations ?d1 l = None")
    case True
    then show ?thesis using assms(2) d1 unfolding finalize_local_run_def Let_def x option.case by auto
  next
    case False
    then have "settle_step l StepMapsVisibility (\<lambda>setup d.
                     if LsMapsRunID setup \<noteq> Some r then Inr d
                     else (case err of
                             Some message \<Rightarrow> Inr (fail_step l setup StepMapsVisibility message d)
                           | None \<Rightarrow> map_result snd (complete_step l setup StepMapsVisibility d))) ?d1 = Inr e"
      using assms(2) unfolding finalize_local_run_def Let_def x option.case by (simp only: if_False)
    then show ?thesis
      by (rule loc_op_settle [OF _ d1]) (use assms(1) in \<open>auto split: if_splits option.splits
        intro: loc_op_fail loc_op_complete loc_op_fail_audits loc_op_mark_failed loc_op_mark_completed\<close>)
  qed
qed

section \<open>Launching, resuming and reclaiming\<close>

lemma loc_op_launch_pending: "loc_op S l d (snd sd) \<Longrightarrow> loc_op S l d (snd (launch_pending l w i t sd))"
  by (simp add: launch_pending_def loc_op_start_step)

lemma loc_op_launch_unfinished_tx:
  assumes "loc_op S l d e" "launch_unfinished_tx grid l setup e = Inr g"
  shows "loc_op S l d g"
proof (cases "LsStatus setup = StatusRunning")
  case True
  then obtain s1 e1 where p: "loc_op S l d e1"
    and g: "(let todo = launchable (LsSteps s1);
            sd2 = launch_pending l (LaunchProfile todo) StepProfile LocationProfileGenerationJob (s1, e1);
            sd3 = launch_pending l (LsSteps (fst sd2) StepProfile = StepCompleted) StepKeywordAnalysis
                    LocationKeywordAnalysisJob sd2;
            sd4 = launch_pending l (LaunchQuestions todo) StepQuestions PromptGenerationJob sd3;
            (setup5, d5) = launch_pending l (LaunchMapQueries todo) StepMapQueries MapQueryGenerationJob sd4
        in bind_result (if LaunchAIAudit todo then launch_ai_visibility_tx l setup5 d5 else Inr (setup5, d5)) (\<lambda>(setup6, d6).
             if LaunchMapsRun todo then map_result snd (launch_maps_visibility_tx grid l setup6 d6) else Inr d6)) = Inr g"
    using assms by (auto simp: launch_unfinished_tx_def split: if_splits intro: loc_op_complete)
  let ?todo = "launchable (LsSteps s1)"
  define sd2 where "sd2 = launch_pending l (LaunchProfile ?todo) StepProfile LocationProfileGenerationJob (s1, e1)"
  define sd3 where "sd3 = launch_pending l (LsSteps (fst sd2) StepProfile = StepCompleted) StepKeywordAnalysis LocationKeywordAnalysisJob sd2"
  define sd4 where "sd4 = launch_pending l (LaunchQuestions ?todo) StepQuestions PromptGenerationJob sd3"
  define sd5 where "sd5 = launch_pending l (LaunchMapQueries ?todo) StepMapQueries MapQueryGenerationJob sd4"
  have "loc_op S l d (snd sd5)"
    unfolding sd5_def sd4_def sd3_def sd2_def by (intro loc_op_launch_pending) (simp add: p)
  with g show ?thesis
    by (auto simp: Let_def sd2_def [symmetric] sd3_def [symmetric] sd4_def [symmetric] sd5_def [symmetric]
        split: if_splits prod.splits intro: loc_op_launch_ai loc_op_launch_maps)
qed (use assms in \<open>simp add: launch_unfinished_tx_def\<close>)

lemma loc_op_launch_unfinished:
  "tables_ok d \<Longrightarrow> launch_unfinished grid l d = Inr e \<Longrightarrow> loc_op S l d e"
  by (auto simp: launch_unfinished_def split: option.splits intro: loc_op_refl loc_op_launch_unfinished_tx)

lemma loc_op_location_start:
  "tables_ok d \<Longrightarrow> location_start_or_resume l user diff d = Inr (s, b, e) \<Longrightarrow> loc_op S l d e"
  by (auto simp: location_start_or_resume_def insert_setup_def reset_unfinished_steps_def Let_def
      split: option.splits if_splits intro: loc_op_refl loc_op_new_row loc_op_update_row)

lemma loc_op_reclaim_step: "loc_op S l d (snd sd) \<Longrightarrow> loc_op S l d (snd (reclaim_step l owned i j sd))"
  by (auto simp: reclaim_step_def split: option.splits intro: loc_op_fail)

lemma loc_op_reclaim_setup: "tables_ok d \<Longrightarrow> loc_op S l d (reclaim_setup l d)"
  by (auto simp: reclaim_setup_def Let_def split: option.splits intro!: loc_op_reclaim_step loc_op_refl)

end
