(* ===== verification/LocationInvariant.thy ===== *)
theory LocationInvariant
  imports LocationOps
begin

text \<open>
  What every stored location setup satisfies: its steps follow their order, its status is the one
  its steps give, its audit and its maps run are its own, and a running step has a job that has
  not succeeded (it is pending, running, or failed and waits for the reclaim sweep). A transaction
  breaks the last part for the step whose job it settles: \<open>location_ok X\<close> exempts the steps in \<open>X\<close>.
\<close>

section \<open>The invariant\<close>

definition prerequisite :: "location_step \<Rightarrow> location_step option" where
  "prerequisite i =
     (case i of
        StepPrepare \<Rightarrow> None
      | StepProfile \<Rightarrow> Some StepPrepare
      | StepKeywordAnalysis \<Rightarrow> Some StepProfile
      | StepQuestions \<Rightarrow> Some StepProfile
      | StepMapQueries \<Rightarrow> Some StepProfile
      | StepAIVisibility \<Rightarrow> Some StepQuestions
      | StepMapsVisibility \<Rightarrow> Some StepMapQueries)"

definition skippable :: "location_step \<Rightarrow> bool" where
  "skippable i = (i \<in> {StepKeywordAnalysis, StepAIVisibility, StepMapsVisibility})"

definition enabled :: "(location_step \<Rightarrow> step_status) \<Rightarrow> location_step \<Rightarrow> bool" where
  "enabled steps i = (\<forall>p. prerequisite i = Some p \<longrightarrow> steps p = StepCompleted)"

definition steps_ok :: "(location_step \<Rightarrow> step_status) \<Rightarrow> bool" where
  "steps_ok steps =
     (steps StepPrepare = StepCompleted \<and> (\<forall>i. steps i \<noteq> StepPending \<longrightarrow> enabled steps i)
      \<and> (\<forall>i. steps i = StepSkipped \<longrightarrow> skippable i))"

definition status_ok :: "location_setup \<Rightarrow> bool" where
  "status_ok s = (LsStatus s = overall_status (LsSteps s) \<and> (LsCompletedAt s \<longleftrightarrow> LsStatus s \<noteq> StatusRunning))"

fun step_class :: "nat \<Rightarrow> location_setup \<Rightarrow> location_step \<Rightarrow> job_class option" where
  "step_class l s StepPrepare = None"
| "step_class l s StepProfile = Some (ByLocation l LocationProfileGenerationJob)"
| "step_class l s StepKeywordAnalysis = Some (ByLocation l LocationKeywordAnalysisJob)"
| "step_class l s StepQuestions = Some (ByLocation l PromptGenerationJob)"
| "step_class l s StepMapQueries = Some (ByLocation l MapQueryGenerationJob)"
| "step_class l s StepAIVisibility = map_option ByAudit (LsAIAuditID s)"
| "step_class l s StepMapsVisibility = map_option ByRun (LsMapsRunID s)"

definition unsettled :: "job_class \<Rightarrow> db \<Rightarrow> bool" where
  "unsettled c d = (\<exists>j. latest_job c d = Some j \<and> JobStatus j \<noteq> JobCompleted)"

definition carried :: "nat \<Rightarrow> location_setup \<Rightarrow> location_step \<Rightarrow> db \<Rightarrow> bool" where
  "carried l s i d = (\<exists>c. step_class l s i = Some c \<and> unsettled c d)"

definition refs_ok :: "nat \<Rightarrow> location_setup \<Rightarrow> db \<Rightarrow> bool" where
  "refs_ok l s d =
     ((\<forall>a. LsAIAuditID s = Some a \<longrightarrow> audit_scope a d = Some (Some l))
      \<and> (\<forall>r. LsMapsRunID s = Some r \<longrightarrow> run_scope r d = Some l))"

definition location_ok :: "location_step set \<Rightarrow> nat \<Rightarrow> db \<Rightarrow> bool" where
  "location_ok X l d =
     (\<forall>s. location_setup_rows d l = Some s \<longrightarrow>
        steps_ok (LsSteps s) \<and> status_ok s \<and> refs_ok l s d
        \<and> (\<forall>i. LsSteps s i = StepRunning \<and> i \<notin> X \<longrightarrow> carried l s i d))"

lemma location_okI:
  assumes "location_setup_rows d l = Some s" "steps_ok (LsSteps s)" "status_ok s" "refs_ok l s d"
    "\<And>i. LsSteps s i = StepRunning \<Longrightarrow> i \<notin> X \<Longrightarrow> carried l s i d"
  shows "location_ok X l d"
  using assms by (auto simp: location_ok_def)

lemma location_okD:
  assumes "location_ok X l d" "location_setup_rows d l = Some s"
  shows "steps_ok (LsSteps s)" "status_ok s" "refs_ok l s d"
    "\<And>i. LsSteps s i = StepRunning \<Longrightarrow> i \<notin> X \<Longrightarrow> carried l s i d"
  using assms by (auto simp: location_ok_def)

lemma location_ok_mono: "location_ok X l d \<Longrightarrow> X \<subseteq> Y \<Longrightarrow> location_ok Y l d"
  by (auto simp: location_ok_def)

section \<open>Jobs keep carrying a step\<close>

lemma unsettled_evolves:
  assumes e: "evolves S d e" and c: "unsettled c d"
    and apart: "\<And>j. j \<in> set (ai_worker_jobs d) \<Longrightarrow> S j \<Longrightarrow> \<not> in_class c j"
    and below: "\<And>j. S j \<Longrightarrow> JobID j < next_id d"
  shows "unsettled c e"
  using e
proof (rule evolvesE)
  fix f new
  assume f: "ai_worker_jobs e = map f (ai_worker_jobs d) @ new" "settles_only S f" "new_rows_fresh S d e new"
  obtain j where j: "latest_job c d = Some j" "JobStatus j \<noteq> JobCompleted" using c by (auto simp: unsettled_def)
  have j_in: "j \<in> set (ai_worker_jobs d)" "in_class c j" using latest_job_in [OF j(1)] by simp_all
  then have "f j = j" using settles_onlyD(3) [OF f(2)] apart by blast
  moreover have "find (in_class c) (rev (map f (ai_worker_jobs d))) = map_option f (latest_job c d)"
    using latest_job_map [of "d\<lparr>ai_worker_jobs := map f (ai_worker_jobs d)\<rparr>" f d c] settles_onlyD(1) [OF f(2)]
    by (simp add: latest_job_def)
  ultimately have old: "find (in_class c) (rev (map f (ai_worker_jobs d))) = Some j" by (simp add: j(1))
  show ?thesis
  proof (cases "find (in_class c) (rev new)")
    case None
    then show ?thesis using old j(2) by (simp add: unsettled_def latest_job_def f(1) find_append)
  next
    case (Some k)
    then have "k \<in> set new" by (metis find_Some_iff nth_mem set_rev)
    then have "JobStatus k = JobPending" using f(3) below by (fastforce simp: new_rows_fresh_def)
    then show ?thesis using Some by (simp add: unsettled_def latest_job_def f(1) find_append)
  qed
qed

lemma unsettled_map:
  assumes "ai_worker_jobs e = map f (ai_worker_jobs d)" "\<And>j. job_key (f j) = job_key j"
    "\<And>j. JobStatus j \<noteq> JobCompleted \<Longrightarrow> JobStatus (f j) \<noteq> JobCompleted" "unsettled c d"
  shows "unsettled c e"
  using assms(3,4) by (auto simp: unsettled_def latest_job_map [OF assms(1,2)])

lemma refs_ok_keeps: "keeps_scopes d e \<Longrightarrow> refs_ok l s d \<Longrightarrow> refs_ok l s e"
  by (simp add: keeps_scopes_def refs_ok_def)

text \<open>The setup and step a settled job belongs to.\<close>

definition job_owner :: "db \<Rightarrow> job \<Rightarrow> (nat \<times> location_step) option" where
  "job_owner d j =
     (case JobType j of
        LocationProfileGenerationJob \<Rightarrow> map_option (\<lambda>l. (l, StepProfile)) (JobLocation j)
      | LocationKeywordAnalysisJob \<Rightarrow> map_option (\<lambda>l. (l, StepKeywordAnalysis)) (JobLocation j)
      | PromptGenerationJob \<Rightarrow> map_option (\<lambda>l. (l, StepQuestions)) (JobLocation j)
      | MapQueryGenerationJob \<Rightarrow> map_option (\<lambda>l. (l, StepMapQueries)) (JobLocation j)
      | VisibilityRunJob \<Rightarrow>
          (case JobAudit j of
             None \<Rightarrow> None
           | Some a \<Rightarrow>
               (case audit_scope a d of
                  Some (Some l) \<Rightarrow>
                    if map_option LsAIAuditID (location_setup_rows d l) = Some (Some a) then Some (l, StepAIVisibility) else None
                | _ \<Rightarrow> None))
      | LocalVisibilityJob \<Rightarrow>
          (case JobLocalRun j of
             None \<Rightarrow> None
           | Some r \<Rightarrow>
               (case run_scope r d of
                  Some l \<Rightarrow>
                    if map_option LsMapsRunID (location_setup_rows d l) = Some (Some r) then Some (l, StepMapsVisibility) else None
                | None \<Rightarrow> None))
      | _ \<Rightarrow> None)"

lemma job_owner_class:
  assumes "job_refs_ok d j" "in_class c j" "refs_ok k s d" "step_class k s i = Some c" "location_setup_rows d k = Some s"
  shows "job_owner d j = Some (k, i)"
  using assms by (cases i) (auto simp: job_owner_def job_refs_ok_def refs_ok_def)

lemma location_ok_frame:
  assumes e: "evolves S d e" and row: "location_setup_rows e k = location_setup_rows d k" and d: "location_ok X k d"
    and t: "tables_ok d"
    and owner: "\<And>j i. j \<in> set (ai_worker_jobs d) \<Longrightarrow> S j \<Longrightarrow> job_owner d j = Some (k, i) \<Longrightarrow> i \<in> Y"
    and below: "\<And>j. S j \<Longrightarrow> JobID j < next_id d" and XY: "X \<subseteq> Y"
  shows "location_ok Y k e"
proof (cases "location_setup_rows d k")
  case (Some s)
  note ok = location_okD [OF d Some]
  have "carried k s i e" if "LsSteps s i = StepRunning" "i \<notin> Y" for i
  proof -
    have "i \<notin> X" using that(2) XY by blast
    then obtain c where c: "step_class k s i = Some c" "unsettled c d"
      using ok(4) [OF \<open>LsSteps s i = StepRunning\<close>] unfolding carried_def by blast
    have "\<not> in_class c j" if "j \<in> set (ai_worker_jobs d)" "S j" for j
      using job_owner_class [OF _ _ ok(3) c(1) Some] owner [OF that] \<open>i \<notin> Y\<close> t that(1) by (auto simp: tables_ok_def)
    then show ?thesis using unsettled_evolves [OF e c(2) _ below] c(1) by (auto simp: carried_def)
  qed
  moreover have "refs_ok k s e" using e ok(3) refs_ok_keeps by (auto elim: evolvesE)
  ultimately show ?thesis using ok(1,2) Some row by (intro location_okI) simp_all
qed (use row in \<open>simp add: location_ok_def\<close>)

lemma location_ok_other:
  assumes "loc_op (\<lambda>j. JobID j = n) l d e" "k \<noteq> l" "location_ok {} k d" "tables_ok d"
    "find_job n d = Some j" "\<And>i. job_owner d j \<noteq> Some (k, i)"
  shows "location_ok {} k e"
proof (rule location_ok_frame [where S = "\<lambda>j. JobID j = n" and X = "{}"])
  have j: "j \<in> set (ai_worker_jobs d)" "JobID j = n" using assms(5) by (auto simp: find_job_def find_Some_iff)
  show "JobID x < next_id d" if "JobID x = n" for x using that j assms(4) by (auto simp: tables_ok_def)
  have "x = j" if "x \<in> set (ai_worker_jobs d)" "JobID x = n" for x
    using that j assms(4) by (auto simp: tables_ok_def distinct_map inj_on_def)
  then show "i \<in> {}" if "x \<in> set (ai_worker_jobs d)" "JobID x = n" "job_owner d x = Some (k, i)" for x i
    using that assms(6) by blast
qed (use assms in \<open>simp_all add: loc_op_def\<close>)

section \<open>Changes of the row\<close>

definition same_jobs :: "db \<Rightarrow> db \<Rightarrow> bool" where
  "same_jobs d e =
     (ai_worker_jobs e = ai_worker_jobs d \<and> ai_audits e = ai_audits d \<and> local_visibility_runs e = local_visibility_runs d
      \<and> next_id e = next_id d)"

lemma same_jobsD:
  assumes "same_jobs d e"
  shows "unsettled c e = unsettled c d" "audit_scope a e = audit_scope a d" "run_scope r e = run_scope r d"
    "carried l s i e = carried l s i d" "refs_ok l s e = refs_ok l s d"
  using assms latest_job_cong [of e d]
  by (simp_all add: same_jobs_def unsettled_def carried_def refs_ok_def audit_scope_def run_scope_def find_audit_def find_run_def)

lemma same_jobs_update_row [simp]: "same_jobs d (update_row l f d)"
  by (simp add: same_jobs_def)

text \<open>The row changes and the jobs stay: the steps that run afterwards must have run before.\<close>

lemma location_ok_change:
  assumes d: "location_ok X l d" "location_setup_rows d l = Some s" and e: "same_jobs d e" "location_setup_rows e l = Some s'"
    and ok: "steps_ok (LsSteps s')" "status_ok s'"
    and ids: "LsAIAuditID s' = LsAIAuditID s" "LsMapsRunID s' = LsMapsRunID s"
    and run: "\<And>i. LsSteps s' i = StepRunning \<Longrightarrow> i \<notin> Y \<Longrightarrow> LsSteps s i = StepRunning \<and> i \<notin> X"
  shows "location_ok Y l e"
proof (rule location_okI [OF e(2) ok])
  have cls: "step_class l s' i = step_class l s i" for i using ids by (cases i) simp_all
  show "refs_ok l s' e" using location_okD(3) [OF d] ids same_jobsD [OF e(1)] by (simp add: refs_ok_def)
  show "carried l s' i e" if "LsSteps s' i = StepRunning" "i \<notin> Y" for i
    using location_okD(4) [OF d] run [OF that] same_jobsD [OF e(1)] by (simp add: carried_def cls)
qed

definition refreshed :: "location_setup \<Rightarrow> location_setup" where
  "refreshed s = s\<lparr>LsStatus := overall_status (LsSteps s), LsCompletedAt := (overall_status (LsSteps s) \<noteq> StatusRunning)\<rparr>"

lemma refreshed_fields [simp]:
  "LsSteps (refreshed s) = LsSteps s" "LsAIAuditID (refreshed s) = LsAIAuditID s"
  "LsMapsRunID (refreshed s) = LsMapsRunID s" "status_ok (refreshed s)"
  by (simp_all add: refreshed_def status_ok_def)

lemma set_step_fields [simp]:
  "LsSteps (set_step i v s) = (LsSteps s)(i := v)" "LsAIAuditID (set_step i v s) = LsAIAuditID s"
  "LsMapsRunID (set_step i v s) = LsMapsRunID s" "LsStatus (set_step i v s) = LsStatus s"
  "LsCompletedAt (set_step i v s) = LsCompletedAt s"
  by (simp_all add: set_step_def)

lemma refresh_overall_row:
  assumes "refresh_overall l d = Inr e"
  shows "same_jobs d e" "location_setup_rows e l = map_option refreshed (location_setup_rows d l)"
  using assms by (auto simp: refresh_overall_def refreshed_def Let_def split: option.splits)

lemma complete_step_row:
  assumes "complete_step l setup i d = Inr (setup', e)" "location_setup_rows d l = Some s"
  shows "same_jobs d e" "location_setup_rows e l = Some (refreshed (set_step i StepCompleted s))"
    "setup' = set_step i StepCompleted setup"
  using assms refresh_overall_row [of l "update_row l (set_step i StepCompleted) d" e]
  by (auto simp: complete_step_def same_jobs_def)

lemma skip_step_row:
  assumes "skip_step l setup i reason d = Inr (setup', e)" "location_setup_rows d l = Some s"
  shows "same_jobs d e" "setup' = set_step i StepSkipped setup"
    "\<exists>r. location_setup_rows e l = Some (refreshed ((set_step i StepSkipped s)\<lparr>LsReasons := r\<rparr>))"
  using assms refresh_overall_row [of l "update_row l (\<lambda>s. (set_step i StepSkipped s)\<lparr>LsReasons := (LsReasons setup)(i \<mapsto> reason)\<rparr>) d" e]
  by (auto simp: skip_step_def same_jobs_def Let_def)

section \<open>Changes of a step\<close>

lemma location_step_split: "(\<forall>i. P i) = (P StepPrepare \<and> P StepProfile \<and> P StepKeywordAnalysis \<and> P StepQuestions
    \<and> P StepMapQueries \<and> P StepAIVisibility \<and> P StepMapsVisibility)"
  by (metis location_step.exhaust)

lemma steps_ok_iff:
  "steps_ok st = (st StepPrepare = StepCompleted
     \<and> (st StepProfile = StepCompleted \<or> st StepKeywordAnalysis = StepPending \<and> st StepQuestions = StepPending \<and> st StepMapQueries = StepPending)
     \<and> (st StepQuestions = StepCompleted \<or> st StepAIVisibility = StepPending)
     \<and> (st StepMapQueries = StepCompleted \<or> st StepMapsVisibility = StepPending)
     \<and> st StepProfile \<noteq> StepSkipped \<and> st StepQuestions \<noteq> StepSkipped \<and> st StepMapQueries \<noteq> StepSkipped)"
  unfolding steps_ok_def enabled_def location_step_split [of "\<lambda>i. st i \<noteq> StepPending \<longrightarrow> _ i"]
    location_step_split [of "\<lambda>i. st i = StepSkipped \<longrightarrow> _ i"]
  by (auto simp: prerequisite_def skippable_def)

lemma overall_status_iff:
  "overall_status st = StatusFailed \<longleftrightarrow> (\<exists>i. st i = StepFailed)"
  "overall_status st = StatusCompleted \<longleftrightarrow> (\<forall>i. st i = StepCompleted \<or> st i = StepSkipped)"
proof -
  have all: "set orderedSteps = UNIV" by (auto simp: orderedSteps_def) (metis location_step.exhaust)
  show "overall_status st = StatusFailed \<longleftrightarrow> (\<exists>i. st i = StepFailed)"
    by (auto simp: overall_status_def list_ex_iff all)
  show "overall_status st = StatusCompleted \<longleftrightarrow> (\<forall>i. st i = StepCompleted \<or> st i = StepSkipped)"
    by (simp add: overall_status_def list_ex_iff all) (metis step_status.distinct)
qed

lemma steps_ok_set:
  assumes "steps_ok st" "enabled st i" "i \<noteq> StepPrepare" "v = StepSkipped \<Longrightarrow> skippable i"
    "st i \<noteq> StepCompleted \<or> v = StepCompleted"
  shows "steps_ok (st(i := v))"
  using assms by (cases i) (auto simp: steps_ok_iff enabled_def prerequisite_def skippable_def)

lemma steps_ok_enabled: "steps_ok st \<Longrightarrow> st i \<noteq> StepPending \<Longrightarrow> enabled st i"
  by (simp add: steps_ok_def)

end
