(* ===== verification/LocationSteps.thy ===== *)
theory LocationSteps
  imports LocationInvariant
begin

text \<open>The single changes of a location setup keep its invariant.\<close>

section \<open>Settling a step\<close>

lemma location_ok_complete:
  assumes "location_ok X l d" "location_setup_rows d l = Some s" "complete_step l setup i d = Inr (setup', e)"
    "enabled (LsSteps s) i" "i \<noteq> StepPrepare"
  shows "location_ok (X - {i}) l e"
proof (rule location_ok_change [OF assms(1,2)])
  note e = complete_step_row [OF assms(3,2)]
  show "same_jobs d e" "location_setup_rows e l = Some (refreshed (set_step i StepCompleted s))" by (rule e)+
  show "steps_ok (LsSteps (refreshed (set_step i StepCompleted s)))"
    using steps_ok_set [of "LsSteps s" i StepCompleted] location_okD(1) [OF assms(1,2)] assms(4,5) by simp
qed (auto split: if_splits)

lemma location_ok_skip:
  assumes "location_ok X l d" "location_setup_rows d l = Some s" "skip_step l setup i reason d = Inr (setup', e)"
    "enabled (LsSteps s) i" "skippable i" "LsSteps s i \<noteq> StepCompleted"
  shows "location_ok (X - {i}) l e"
proof -
  obtain r where r: "location_setup_rows e l = Some (refreshed ((set_step i StepSkipped s)\<lparr>LsReasons := r\<rparr>))"
    using skip_step_row [OF assms(3,2)] by blast
  show ?thesis
  proof (rule location_ok_change [OF assms(1,2) skip_step_row(1) [OF assms(3,2)] r])
    show "steps_ok (LsSteps (refreshed ((set_step i StepSkipped s)\<lparr>LsReasons := r\<rparr>)))"
      using steps_ok_set [of "LsSteps s" i StepSkipped] location_okD(1) [OF assms(1,2)] assms(4-6)
      by (auto simp: skippable_def)
  qed (auto split: if_splits)
qed

lemma fail_step_row:
  assumes "location_setup_rows d l = Some s"
  shows "location_setup_rows (fail_step l setup i m d) l
    = Some ((set_step i StepFailed s)\<lparr>LsStatus := StatusFailed, LsError := Some (cut_error m),
        LsReasons := (LsReasons setup)(i \<mapsto> cut_error m), LsCompletedAt := True\<rparr>)"
    "same_jobs d (fail_step l setup i m d)"
  using assms by (simp_all add: fail_step_def Let_def)

lemma location_ok_fail:
  assumes "location_ok X l d" "location_setup_rows d l = Some s" "steps_ok ((LsSteps s)(i := StepFailed))"
  shows "location_ok (X - {i}) l (fail_step l setup i m d)"
proof (rule location_ok_change [OF assms(1,2) fail_step_row(2,1) [OF assms(2)]])
  have "overall_status ((LsSteps s)(i := StepFailed)) = StatusFailed"
    unfolding overall_status_iff by (rule exI [where x = i]) simp
  then show "status_ok ((set_step i StepFailed s)\<lparr>LsStatus := StatusFailed, LsError := Some (cut_error m),
        LsReasons := (LsReasons setup)(i \<mapsto> cut_error m), LsCompletedAt := True\<rparr>)"
    by (simp add: status_ok_def)
qed (use assms(2,3) in \<open>auto split: if_splits\<close>)

lemma location_ok_fail_running:
  assumes "location_ok X l d" "location_setup_rows d l = Some s" "LsSteps s i = StepRunning"
  shows "location_ok (X - {i}) l (fail_step l setup i m d)"
proof (rule location_ok_fail [OF assms(1,2)])
  note ok = location_okD(1) [OF assms(1,2)]
  have "i \<noteq> StepPrepare" using ok assms(3) by (auto simp: steps_ok_def)
  then show "steps_ok ((LsSteps s)(i := StepFailed))"
    using ok assms(3) by (intro steps_ok_set steps_ok_enabled) simp_all
qed

lemma location_ok_defer: "location_ok X l d \<Longrightarrow> location_ok X l (defer_step l setup i m d)"
proof (cases "location_setup_rows d l")
  case (Some s)
  assume d: "location_ok X l d"
  show ?thesis
    by (rule location_ok_change [OF d Some, of _ "s\<lparr>LsReasons := (LsReasons setup)(i \<mapsto> m)\<rparr>"])
      (use location_okD [OF d Some] in \<open>auto simp: defer_step_def Some status_ok_def\<close>)
qed (simp add: location_ok_def defer_step_def)

section \<open>Starting a step\<close>

lemma unsettled_active:
  assumes "tables_ok d" "j \<in> set (ai_worker_jobs d)" "in_class c j" "job_active j"
  shows "unsettled c d"
  using assms by (auto simp: tables_ok_def sole_active_def unsettled_def job_active_def)

lemma unsettled_insert: "in_class c j \<Longrightarrow> JobStatus j \<noteq> JobCompleted \<Longrightarrow> unsettled c (insert_job j d)"
  by (simp add: unsettled_def)

lemma unsettled_enqueue:
  assumes "tables_ok d" "t \<in> indexed_job_types"
  shows "unsettled (ByLocation l t) (enqueue_location_job l t d)"
proof (cases "conflicts_active l t d")
  case True
  then obtain j where "j \<in> set (ai_worker_jobs d)" "JobType j = t" "JobLocation j = Some l" "job_active j"
    by (auto simp: conflicts_active_def list_ex_iff)
  then show ?thesis using unsettled_active [OF assms(1), of j] assms(2) True by (simp add: enqueue_location_job_def)
qed (use assms(2) in \<open>auto simp: enqueue_location_job_def intro!: unsettled_insert\<close>)

lemma unsettled_ensure_audit: "tables_ok d \<Longrightarrow> unsettled (ByAudit a) (ensure_audit_job l a d)"
  by (auto simp: ensure_audit_job_def list_ex_iff intro!: unsettled_insert intro: unsettled_active)

lemma unsettled_ensure_run: "tables_ok d \<Longrightarrow> unsettled (ByRun r) (ensure_local_run_job l r d)"
  by (auto simp: ensure_local_run_job_def list_ex_iff intro!: unsettled_insert intro: unsettled_active)

text \<open>New jobs, an audit or a run appear, and step \<open>i\<close> runs with the job that was found or made.\<close>

lemma location_ok_run:
  assumes d: "location_ok X l d" "location_setup_rows d l = Some s" and e: "evolves (\<lambda>_. False) d e"
    and row: "location_setup_rows e l = Some s'" "LsSteps s' = (LsSteps s)(i := StepRunning)"
      "LsStatus s' = LsStatus s" "LsCompletedAt s' = LsCompletedAt s"
    and i: "LsSteps s i = StepPending" "enabled (LsSteps s) i" and c: "carried l s' i e"
    and ids: "i = StepAIVisibility \<or> LsAIAuditID s' = LsAIAuditID s" "i = StepMapsVisibility \<or> LsMapsRunID s' = LsMapsRunID s"
    and refs: "refs_ok l s' e"
  shows "location_ok X l e"
proof (rule location_okI [OF row(1) _ _ refs])
  note ok = location_okD [OF d]
  have ne: "i \<noteq> StepPrepare" using ok(1) i(1) by (auto simp: steps_ok_def)
  show "steps_ok (LsSteps s')" unfolding row(2) using ok(1) i(1) ne i(2) by (intro steps_ok_set) simp_all
  have "overall_status (LsSteps s') = overall_status (LsSteps s)"
  proof -
    have "(\<exists>k. LsSteps s' k = StepFailed) = (\<exists>k. LsSteps s k = StepFailed)"
      unfolding row(2) using i(1) by (metis fun_upd_apply step_status.distinct)
    moreover have "\<not> (\<forall>k. LsSteps s' k = StepCompleted \<or> LsSteps s' k = StepSkipped)"
      "\<not> (\<forall>k. LsSteps s k = StepCompleted \<or> LsSteps s k = StepSkipped)"
      unfolding row(2) using i(1) by (auto intro!: exI [where x = i])
    ultimately show ?thesis
      using overall_status_iff [of "LsSteps s"] overall_status_iff [of "LsSteps s'"]
      by (cases "overall_status (LsSteps s)"; cases "overall_status (LsSteps s')") simp_all
  qed
  then show "status_ok s'" using ok(2) row(3,4) by (simp add: status_ok_def)
  show "carried l s' k e" if "LsSteps s' k = StepRunning" "k \<notin> X" for k
  proof (cases "k = i")
    case False
    have "step_class l s' k = step_class l s k" using False ids by (cases k) auto
    moreover have "LsSteps s k = StepRunning" using that(1) False by (simp add: row(2))
    ultimately show ?thesis
      using ok(4) [of k] that(2) unsettled_evolves [OF e] by (fastforce simp: carried_def)
  qed (use c in simp)
qed

lemma start_step_row:
  "location_setup_rows d l = Some s \<Longrightarrow> location_setup_rows (start_step l i t d) l = Some (set_step i StepRunning s)"
  by (simp add: start_step_def enqueue_location_job_def)

lemma location_ok_start_step:
  assumes d: "location_ok X l d" "location_setup_rows d l = Some s" "tables_ok d"
    and t: "step_class l s i = Some (ByLocation l t)" "t \<in> indexed_job_types"
    and i: "LsSteps s i = StepPending" "enabled (LsSteps s) i"
  shows "location_ok X l (start_step l i t d)"
proof (rule location_ok_run [OF d(1,2) _ start_step_row [OF d(2)] _ _ _ i])
  have "loc_op (\<lambda>_. False) l d (start_step l i t d)" by (intro loc_op_start_step loc_op_refl d(3))
  then show e: "evolves (\<lambda>_. False) d (start_step l i t d)" by (simp add: loc_op_def)
  have "unsettled (ByLocation l t) (start_step l i t d)"
    using unsettled_enqueue [OF d(3) t(2), of l] same_jobsD(1) [OF same_jobs_update_row] by (simp add: start_step_def)
  moreover have "step_class l (set_step i StepRunning s) i = step_class l s i" by (cases i) simp_all
  ultimately show "carried l (set_step i StepRunning s) i (start_step l i t d)" by (simp add: carried_def t(1))
  show "refs_ok l (set_step i StepRunning s) (start_step l i t d)"
    using location_okD(3) [OF d(1,2)] e refs_ok_keeps [of d "start_step l i t d" l s] by (auto simp: refs_ok_def elim: evolvesE)
qed simp_all

end
