(* ===== verification/LocationLaunches.thy ===== *)
theory LocationLaunches
  imports LocationSteps
begin

text \<open>Launching the AI audit and the maps run keeps the invariant of the location setup.\<close>

section \<open>The AI audit\<close>

definition maps_part :: "location_setup \<Rightarrow> step_status \<times> step_status \<times> nat option" where
  "maps_part s = (LsSteps s StepMapQueries, LsSteps s StepMapsVisibility, LsMapsRunID s)"

definition keeps_maps :: "nat \<Rightarrow> location_setup \<Rightarrow> db \<Rightarrow> location_setup \<Rightarrow> db \<Rightarrow> bool" where
  "keeps_maps l setup d setup' e =
     (\<forall>s. location_setup_rows d l = Some s \<longrightarrow>
        (\<exists>s'. location_setup_rows e l = Some s' \<and> maps_part s' = maps_part s \<and> maps_part setup' = maps_part setup))"

lemma keeps_mapsI:
  "location_setup_rows e l = map_option f (location_setup_rows d l) \<Longrightarrow> (\<And>s. maps_part (f s) = maps_part s) \<Longrightarrow>
    maps_part setup' = maps_part setup \<Longrightarrow> keeps_maps l setup d setup' e"
  by (auto simp: keeps_maps_def)

lemma ensure_audit_job_rows [simp]: "location_setup_rows (ensure_audit_job l a d) = location_setup_rows d"
  by (simp add: ensure_audit_job_def)

lemma ensure_local_run_job_rows [simp]: "location_setup_rows (ensure_local_run_job l r d) = location_setup_rows d"
  by (simp add: ensure_local_run_job_def)

lemma keeps_maps_complete: "complete_step l setup StepAIVisibility d = Inr (setup', e) \<Longrightarrow> keeps_maps l setup d setup' e"
  using complete_step_row [of l "setup" StepAIVisibility d setup' e]
  by (auto simp: keeps_maps_def maps_part_def)

lemma keeps_maps_skip: "skip_step l setup StepAIVisibility reason d = Inr (setup', e) \<Longrightarrow> keeps_maps l setup d setup' e"
  using skip_step_row [of l "setup" StepAIVisibility reason d setup' e]
  by (fastforce simp: keeps_maps_def maps_part_def)

lemma reserve_audit_rows:
  "reserve_ai_workspace_monthly_audit n d = Some e \<Longrightarrow> location_setup_rows e = location_setup_rows d"
  by (auto simp: reserve_ai_workspace_monthly_audit_def split: if_splits)

lemma reserve_and_start_audit_cases:
  assumes "reserve_and_start_audit l setup d = Inr (setup', e)"
  obtains (skip) reason where "skip_step l setup StepAIVisibility reason d = Inr (setup', e)"
  | (start) n d1 a d2 where "reserve_ai_workspace_monthly_audit n d = Some d1" "create_ai_audit None (Some l) None d1 = Inr (a, d2)"
      "setup' = setup" "e = update_row l (set_step StepAIVisibility StepRunning)
                (ensure_audit_job l a (update_row l (\<lambda>s. s\<lparr>LsAIAuditID := Some a\<rparr>) d2))"
  using assms by (auto simp: reserve_and_start_audit_def keep_setup_def split: option.splits if_splits)

lemma keeps_maps_reserve_and_start_audit:
  "reserve_and_start_audit l setup d = Inr (setup', e) \<Longrightarrow> keeps_maps l setup d setup' e"
proof (erule reserve_and_start_audit_cases)
  fix n d1 a d2
  assume "reserve_ai_workspace_monthly_audit n d = Some d1" "create_ai_audit None (Some l) None d1 = Inr (a, d2)" "setup' = setup"
    "e = update_row l (set_step StepAIVisibility StepRunning) (ensure_audit_job l a (update_row l (\<lambda>s. s\<lparr>LsAIAuditID := Some a\<rparr>) d2))"
  then show ?thesis using create_ai_audit_scope [of None "Some l" None d1 a d2] reserve_audit_rows
    by (intro keeps_mapsI [where f = "\<lambda>s. set_step StepAIVisibility StepRunning (s\<lparr>LsAIAuditID := Some a\<rparr>)"])
      (auto simp: maps_part_def option.map_comp o_def)
qed (rule keeps_maps_skip)

lemma keeps_maps_refl: "keeps_maps l setup d setup d"
  by (simp add: keeps_maps_def)

lemma keeps_maps_update:
  "location_setup_rows g = location_setup_rows d \<Longrightarrow> (\<And>s. maps_part (f s) = maps_part s) \<Longrightarrow>
    keeps_maps l setup d setup (update_row l f g)"
  by (rule keeps_mapsI [where f = f]) simp_all

lemma keeps_maps_launch_new_audit:
  "launch_new_audit l setup d = Inr (setup', e) \<Longrightarrow> keeps_maps l setup d setup' e"
  unfolding launch_new_audit_def keep_setup_def defer_step_def fail_step_def Let_def
  by (auto split: if_splits intro: keeps_maps_update keeps_maps_reserve_and_start_audit simp: maps_part_def)

lemma keeps_maps_launch_ai:
  "launch_ai_visibility_tx l setup d = Inr (setup', e) \<Longrightarrow> keeps_maps l setup d setup' e"
  unfolding launch_ai_visibility_tx_def keep_setup_def
  by (auto split: if_splits option.splits intro: keeps_maps_complete keeps_maps_launch_new_audit keeps_maps_refl
      keeps_maps_update simp: maps_part_def)

definition ai_synced :: "location_setup \<Rightarrow> location_setup \<Rightarrow> bool" where
  "ai_synced setup s =
     (LsSteps setup StepAIVisibility = LsSteps s StepAIVisibility \<and> LsSteps setup StepQuestions = LsSteps s StepQuestions
      \<and> LsAIAuditID setup = LsAIAuditID s)"

lemma location_ok_reserve_and_start_audit:
  assumes d: "location_ok {} l d" "location_setup_rows d l = Some s" "tables_ok d"
    and i: "LsSteps s StepAIVisibility = StepPending" "LsSteps s StepQuestions = StepCompleted"
    and e: "reserve_and_start_audit l setup d = Inr (setup', e)"
  shows "location_ok {} l e"
  using e
proof (cases rule: reserve_and_start_audit_cases)
  case (skip reason)
  have "location_ok ({} - {StepAIVisibility}) l e"
    by (rule location_ok_skip [OF d(1,2) skip]) (use i in \<open>auto simp: enabled_def prerequisite_def skippable_def\<close>)
  then show ?thesis by simp
next
  case (start n d1 a d2)
  let ?d3 = "update_row l (\<lambda>s. s\<lparr>LsAIAuditID := Some a\<rparr>) d2"
  let ?s = "set_step StepAIVisibility StepRunning (s\<lparr>LsAIAuditID := Some a\<rparr>)"
  have d1: "loc_op (\<lambda>_. False) l d d1" by (rule loc_op_reserve_audit [OF loc_op_refl [OF d(3)] start(1)])
  have d3: "loc_op (\<lambda>_. False) l d ?d3" by (intro loc_op_update_row loc_op_create_audit [OF d1 start(2)])
  have e: "loc_op (\<lambda>_. False) l d e" by (rule loc_op_reserve_and_start_audit [OF loc_op_refl [OF d(3)] e])
  have scope: "audit_scope a e = Some (Some l)"
    using create_ai_audit_new_scope [OF start(2) loc_op_tables [OF d1]]
    by (simp add: start(4) audit_scope_def find_audit_def ensure_audit_job_def)
  have rows: "location_setup_rows d2 = location_setup_rows d"
    using create_ai_audit_scope [OF start(2)] reserve_audit_rows [OF start(1)] by simp
  have ev: "evolves (\<lambda>_. False) d e" using e by (simp add: loc_op_def)
  show ?thesis
  proof (rule location_ok_run [OF d(1,2) ev, of ?s StepAIVisibility])
    show "location_setup_rows e l = Some ?s" by (simp add: start(4) rows d(2))
    have "unsettled (ByAudit a) e"
      using unsettled_ensure_audit [OF loc_op_tables [OF d3]] same_jobsD(1) [OF same_jobs_update_row] by (simp add: start(4))
    then show "carried l ?s StepAIVisibility e" by (simp add: carried_def)
    have "keeps_scopes d e" using ev by (auto elim: evolvesE)
    then show "refs_ok l ?s e" using location_okD(3) [OF d(1,2)] scope by (auto simp: refs_ok_def keeps_scopes_def)
  qed (use i in \<open>auto simp: enabled_def prerequisite_def\<close>)
qed

lemma location_ok_launch_new_audit:
  assumes d: "location_ok {} l d" "location_setup_rows d l = Some s" "tables_ok d"
    and i: "LsSteps s StepAIVisibility = StepPending" "LsSteps s StepQuestions = StepCompleted"
    and e: "launch_new_audit l setup d = Inr (setup', e)"
  shows "location_ok {} l e"
proof -
  have "steps_ok ((LsSteps s)(StepQuestions := StepFailed))"
    using location_okD(1) [OF d(1,2)] i by (auto simp: steps_ok_iff)
  from location_ok_fail [OF d(1,2) this] have "location_ok {} l (fail_step l setup StepQuestions m d)" for m by simp
  then show ?thesis using e location_ok_reserve_and_start_audit [OF d i] location_ok_defer [OF d(1)]
    by (auto simp: launch_new_audit_def keep_setup_def split: if_splits)
qed

lemma location_ok_launch_ai:
  assumes d: "location_ok {} l d" "location_setup_rows d l = Some s" "tables_ok d" and sync: "ai_synced setup s"
    and e: "launch_ai_visibility_tx l setup d = Inr (setup', e)"
  shows "location_ok {} l e"
proof (cases "LsSteps setup StepAIVisibility \<noteq> StepPending \<or> LsSteps setup StepQuestions \<noteq> StepCompleted")
  case False
  then have i: "LsSteps s StepAIVisibility = StepPending" "LsSteps s StepQuestions = StepCompleted"
    using sync by (auto simp: ai_synced_def)
  have en: "enabled (LsSteps s) StepAIVisibility" using i by (simp add: enabled_def prerequisite_def)
  note fresh = location_ok_launch_new_audit [OF d i]
  have complete: "location_ok {} l e" if "complete_step l setup StepAIVisibility d = Inr (setup', e)"
    using location_ok_complete [OF d(1,2) that en] by simp
  have attach: "location_ok {} l (update_row l (set_step StepAIVisibility StepRunning) (ensure_audit_job l a d))"
    if a: "LsAIAuditID setup = Some a" for a
  proof (rule location_ok_run [OF d(1,2), of _ "set_step StepAIVisibility StepRunning s" StepAIVisibility])
    let ?e = "update_row l (set_step StepAIVisibility StepRunning) (ensure_audit_job l a d)"
    have id: "LsAIAuditID s = Some a" using sync a by (simp add: ai_synced_def)
    then have "audit_scope a d \<noteq> None" using location_okD(3) [OF d(1,2)] by (simp add: refs_ok_def)
    then have "loc_op (\<lambda>_. False) l d ?e" by (intro loc_op_update_row loc_op_ensure_audit_job loc_op_refl d(3))
    then show ev: "evolves (\<lambda>_. False) d ?e" by (simp add: loc_op_def)
    show "location_setup_rows ?e l = Some (set_step StepAIVisibility StepRunning s)" by (simp add: d(2))
    show "carried l (set_step StepAIVisibility StepRunning s) StepAIVisibility ?e"
      using unsettled_ensure_audit [OF d(3)] same_jobsD(1) [OF same_jobs_update_row] id by (simp add: carried_def)
    have "keeps_scopes d ?e" using ev by (auto elim: evolvesE)
    then show "refs_ok l (set_step StepAIVisibility StepRunning s) ?e"
      using location_okD(3) [OF d(1,2)] by (simp add: refs_ok_def keeps_scopes_def)
  qed (use i en in simp_all)
  show ?thesis using e False fresh complete attach
    by (auto simp: launch_ai_visibility_tx_def keep_setup_def split: if_splits option.splits)
qed (use e d(1) in \<open>simp add: launch_ai_visibility_tx_def keep_setup_def\<close>)

section \<open>The maps run\<close>

lemma credits_rows [simp]:
  "location_ok X l (d\<lparr>platform_credits := c\<rparr>) = location_ok X l d"
  "location_ok X l (d\<lparr>organization_credits := c\<rparr>) = location_ok X l d"
  by (simp_all add: location_ok_def refs_ok_def carried_def unsettled_def latest_job_def audit_scope_def run_scope_def
      find_audit_def find_run_def)

lemma run_evolution:
  assumes "loc_op (\<lambda>_. False) l d e" "refs_ok l s d" "LsAIAuditID s' = LsAIAuditID s"
    "LsMapsRunID s' = LsMapsRunID s \<or> (\<exists>r. LsMapsRunID s' = Some r \<and> run_scope r e = Some l)"
  shows "evolves (\<lambda>_. False) d e" "refs_ok l s' e"
proof -
  show ev: "evolves (\<lambda>_. False) d e" using assms(1) by (simp add: loc_op_def)
  then have "keeps_scopes d e" by (auto elim: evolvesE)
  then show "refs_ok l s' e" using assms by (auto simp: refs_ok_def keeps_scopes_def)
qed

lemma location_ok_start_maps_run:
  assumes d: "location_ok {} l d" "location_setup_rows d l = Some s" "tables_ok d"
    and i: "LsSteps s StepMapsVisibility = StepPending" "LsSteps s StepMapQueries = StepCompleted"
    and e: "start_maps_run l setup radius qs n d = Inr (setup', e)"
  shows "location_ok {} l e"
proof -
  obtain r d1 where c: "create_local_visibility_run l radius qs n d = Inr (r, d1)"
    and g: "e = update_row l (\<lambda>s. (set_step StepMapsVisibility StepRunning s)\<lparr>LsMapsRunID := Some r, LsEstimatedMapsCredits := Some n\<rparr>)
             (insert_job (blank_job\<lparr>JobType := LocalVisibilityJob, JobLocation := Some l, JobLocalRun := Some r\<rparr>) d1)"
    using e by (auto simp: start_maps_run_def keep_setup_def)
  let ?s = "(set_step StepMapsVisibility StepRunning s)\<lparr>LsMapsRunID := Some r, LsEstimatedMapsCredits := Some n\<rparr>"
  have scope: "run_scope r e = Some l"
    using create_run_new_scope [OF c d(3)] by (simp add: g run_scope_def find_run_def)
  have op: "loc_op (\<lambda>_. False) l d e" by (rule loc_op_start_maps_run [OF loc_op_refl [OF d(3)] e])
  have ev: "evolves (\<lambda>_. False) d e" "refs_ok l ?s e"
    using run_evolution [OF op location_okD(3) [OF d(1,2)], of ?s] scope by simp_all
  show ?thesis
  proof (rule location_ok_run [OF d(1,2) ev(1), of ?s StepMapsVisibility])
    show "location_setup_rows e l = Some ?s" using create_run_scope [OF c] by (simp add: g d(2))
    have "unsettled (ByRun r) e"
      unfolding g same_jobsD(1) [OF same_jobs_update_row] by (intro unsettled_insert) (simp_all add: blank_job_def)
    then show "carried l ?s StepMapsVisibility e" by (simp add: carried_def)
  qed (use i ev in \<open>auto simp: enabled_def prerequisite_def\<close>)
qed

lemma location_ok_skip_maps:
  assumes "location_ok {} l d" "location_setup_rows d l = Some s"
    and i: "LsSteps s StepMapsVisibility = StepPending" "LsSteps s StepMapQueries = StepCompleted"
    and "skip_step l setup StepMapsVisibility reason d = Inr (setup', e)"
  shows "location_ok {} l e"
proof -
  have "location_ok ({} - {StepMapsVisibility}) l e"
    by (rule location_ok_skip [OF assms(1,2,5)]) (use i in \<open>auto simp: enabled_def prerequisite_def skippable_def\<close>)
  then show ?thesis by simp
qed

lemma location_ok_reserve_and_start_run:
  assumes d: "location_ok {} l d" "location_setup_rows d l = Some s" "tables_ok d"
    and i: "LsSteps s StepMapsVisibility = StepPending" "LsSteps s StepMapQueries = StepCompleted"
    and e: "reserve_and_start_run l setup radius qs n d = Inr (setup', e)"
  shows "location_ok {} l e"
proof -
  have t: "tables_ok (d\<lparr>platform_credits := p, organization_credits := c\<rparr>)" for p c
    by (rule tables_ok_cong [OF d(3)]) simp_all
  have start: "location_ok {} l e" if "start_maps_run l setup radius qs n (d\<lparr>platform_credits := p, organization_credits := c\<rparr>) = Inr (setup', e)" for p c
    by (rule location_ok_start_maps_run [OF _ _ t i that]) (use d in simp_all)
  have skip: "location_ok {} l e" if "skip_step l setup StepMapsVisibility reason d' = Inr (setup', e)"
    "location_ok {} l d'" "location_setup_rows d' l = Some s" for reason d'
    by (rule location_ok_skip_maps [OF that(2,3) i that(1)])
  show ?thesis using e d
    by (auto simp: reserve_and_start_run_def Let_def split: option.splits intro: start dest!: skip)
qed

lemma location_ok_launch_new_run:
  assumes d: "location_ok {} l d" "location_setup_rows d l = Some s" "tables_ok d"
    and i: "LsSteps s StepMapsVisibility = StepPending" "LsSteps s StepMapQueries = StepCompleted"
    and e: "launch_new_run grid l setup d = Inr (setup', e)"
  shows "location_ok {} l e"
  using e location_ok_skip_maps [OF d(1,2) i] location_ok_reserve_and_start_run [OF d i] location_ok_defer [OF d(1)]
  by (auto simp: launch_new_run_def keep_setup_def Let_def split: option.splits if_splits sum.splits)

definition maps_synced :: "location_setup \<Rightarrow> location_setup \<Rightarrow> bool" where
  "maps_synced setup s = (maps_part setup = maps_part s)"

lemma location_ok_launch_maps:
  assumes d: "location_ok {} l d" "location_setup_rows d l = Some s" "tables_ok d" and sync: "maps_synced setup s"
    and e: "launch_maps_visibility_tx grid l setup d = Inr (setup', e)"
  shows "location_ok {} l e"
proof (cases "LsSteps setup StepMapsVisibility \<noteq> StepPending \<or> LsSteps setup StepMapQueries \<noteq> StepCompleted")
  case False
  then have i: "LsSteps s StepMapsVisibility = StepPending" "LsSteps s StepMapQueries = StepCompleted"
    using sync by (auto simp: maps_synced_def maps_part_def)
  have en: "enabled (LsSteps s) StepMapsVisibility" using i by (simp add: enabled_def prerequisite_def)
  note fresh = location_ok_launch_new_run [OF d i]
  have complete: "location_ok {} l e"
    if "refresh_overall l (update_row l (\<lambda>s. (set_step StepMapsVisibility StepCompleted s)\<lparr>LsEstimatedMapsCredits := Some n\<rparr>) d) = Inr e" for n
  proof (rule location_ok_change [OF d(1,2)])
    note e = refresh_overall_row [OF that]
    let ?s = "refreshed ((set_step StepMapsVisibility StepCompleted s)\<lparr>LsEstimatedMapsCredits := Some n\<rparr>)"
    show "same_jobs d e" using e(1) by (simp add: same_jobs_def)
    show "location_setup_rows e l = Some ?s" using e(2) by (simp add: d(2))
    show "steps_ok (LsSteps ?s)"
      using steps_ok_set [of "LsSteps s" StepMapsVisibility StepCompleted] location_okD(1) [OF d(1,2)] en by simp
  qed (auto split: if_splits)
  have attach: "location_ok {} l (update_row l (\<lambda>s. (set_step StepMapsVisibility StepRunning s)\<lparr>LsEstimatedMapsCredits := Some n\<rparr>)
      (ensure_local_run_job l r d))"
    if r: "LsMapsRunID setup = Some r" for r n
  proof (rule location_ok_run [OF d(1,2)])
    let ?e = "update_row l (\<lambda>s. (set_step StepMapsVisibility StepRunning s)\<lparr>LsEstimatedMapsCredits := Some n\<rparr>) (ensure_local_run_job l r d)"
    let ?s = "(set_step StepMapsVisibility StepRunning s)\<lparr>LsEstimatedMapsCredits := Some n\<rparr>"
    have id: "LsMapsRunID s = Some r" using sync r by (simp add: maps_synced_def maps_part_def)
    then have "run_scope r d \<noteq> None" using location_okD(3) [OF d(1,2)] by (simp add: refs_ok_def)
    then have op: "loc_op (\<lambda>_. False) l d ?e" by (intro loc_op_update_row loc_op_ensure_local_run_job loc_op_refl d(3))
    show "evolves (\<lambda>_. False) d ?e" "refs_ok l ?s ?e"
      using run_evolution [OF op location_okD(3) [OF d(1,2)], of ?s] by simp_all
    show "location_setup_rows ?e l = Some ?s" by (simp add: d(2))
    show "carried l ?s StepMapsVisibility ?e"
      using unsettled_ensure_run [OF d(3)] same_jobsD(1) [OF same_jobs_update_row] id by (simp add: carried_def)
  qed (use i en in simp_all)
  show ?thesis using e False fresh complete attach
    by (auto simp: launch_maps_visibility_tx_def keep_setup_def split: if_splits option.splits)
qed (use e d(1) in \<open>simp add: launch_maps_visibility_tx_def keep_setup_def\<close>)

end
