(* ===== verification/LocationPreserved.thy ===== *)
theory LocationPreserved
  imports LocationLaunches
begin

text \<open>Every operation on a location keeps the invariant of its own setup.\<close>

section \<open>Settling a job\<close>

lemma find_jobD: "find_job n d = Some j \<Longrightarrow> j \<in> set (ai_worker_jobs d) \<and> JobID j = n"
  by (auto simp: find_job_def find_Some_iff)

lemma find_job_unique:
  "tables_ok d \<Longrightarrow> find_job n d = Some j \<Longrightarrow> x \<in> set (ai_worker_jobs d) \<Longrightarrow> JobID x = n \<Longrightarrow> x = j"
  using find_jobD [of n d j] by (auto simp: tables_ok_def distinct_map inj_on_def)

lemma find_job_below: "tables_ok d \<Longrightarrow> find_job n d = Some j \<Longrightarrow> n < next_id d"
  using find_jobD [of n d j] by (auto simp: tables_ok_def)

lemma location_ok_mark_completed:
  assumes "tables_ok d" "find_job n d = Some j" "location_ok {} k d" "\<And>i. job_owner d j = Some (k, i) \<Longrightarrow> i \<in> X"
  shows "location_ok X k (mark_ai_worker_job_completed n d)"
proof (rule location_ok_frame [where S = "\<lambda>j. JobID j = n" and X = "{}" and d = d])
  have op: "loc_op (\<lambda>j. JobID j = n) l d (mark_ai_worker_job_completed n d)" for l
    by (rule loc_op_mark_completed [OF assms(1)])
  then show "evolves (\<lambda>j. JobID j = n) d (mark_ai_worker_job_completed n d)" by (simp add: loc_op_def)
  show "location_setup_rows (mark_ai_worker_job_completed n d) k = location_setup_rows d k"
    by (simp add: mark_ai_worker_job_completed_def)
  show "i \<in> X" if "x \<in> set (ai_worker_jobs d)" "JobID x = n" "job_owner d x = Some (k, i)" for x i
    using find_job_unique [OF assms(1,2) that(1,2)] assms(4) that(3) by simp
  show "JobID x < next_id d" if "JobID x = n" for x using find_job_below [OF assms(1,2)] that by simp
qed (use assms in simp_all)

lemma location_ok_map_jobs:
  assumes "ai_worker_jobs e = map f (ai_worker_jobs d)" "\<And>j. job_key (f j) = job_key j"
    "\<And>j. JobStatus j \<noteq> JobCompleted \<Longrightarrow> JobStatus (f j) \<noteq> JobCompleted"
    "keeps_scopes d e" "location_setup_rows e k = location_setup_rows d k" "location_ok X k d"
  shows "location_ok X k e"
proof (cases "location_setup_rows d k")
  case (Some s)
  note ok = location_okD [OF assms(6) Some]
  show ?thesis
  proof (rule location_okI [OF _ ok(1,2) refs_ok_keeps [OF assms(4) ok(3)]])
    show "location_setup_rows e k = Some s" using assms(5) Some by simp
    show "carried k s i e" if "LsSteps s i = StepRunning" "i \<notin> X" for i
      using ok(4) [OF that] unsettled_map [OF assms(1-3)] unfolding carried_def by blast
  qed
qed (use assms(5) in \<open>simp add: location_ok_def\<close>)

lemma location_ok_mark_failed:
  assumes "location_ok X k d"
  shows "location_ok X k (mark_ai_worker_job_failed n m d)"
  by (rule location_ok_map_jobs [OF _ _ _ _ _ assms, where f = "\<lambda>j. if JobID j = n then j\<lparr>JobStatus := JobFailed, JobError := m\<rparr> else j"])
    (simp_all add: mark_ai_worker_job_failed_def job_key_def keeps_scopes_same)

lemma location_ok_fail_audits: "location_ok X k d \<Longrightarrow> location_ok X k (fail_audits P m d)"
  by (rule location_ok_map_jobs [where f = id and d = d]) (simp_all add: keeps_scopes_def run_scope_def find_run_def)

lemma location_ok_settle:
  assumes d: "location_ok {i} l d" and e: "settle_step l i advance d = Inr e"
    and adv: "\<And>s. location_setup_rows d l = Some s \<Longrightarrow> LsSteps s i = StepRunning \<Longrightarrow> advance s d = Inr e \<Longrightarrow> location_ok {} l e"
  shows "location_ok {} l e"
proof (cases "location_setup_rows d l")
  case (Some s)
  show ?thesis
  proof (cases "LsSteps s i = StepRunning")
    case False
    then have "e = d" using e Some by (simp add: settle_step_def)
    moreover have "carried l s k d" if "LsSteps s k = StepRunning" for k
      using location_okD(4) [OF d Some that] that False by auto
    ultimately show ?thesis using location_okD(1-3) [OF d Some] Some by (intro location_okI) simp_all
  qed (use e adv Some in \<open>simp add: settle_step_def\<close>)
qed (use e in \<open>auto simp: settle_step_def location_ok_def\<close>)

lemma location_ok_settle_failed:
  assumes d: "location_ok X l d" and e: "settle_step l i advance d = Inr e" and X: "X \<subseteq> {i}"
    and adv: "\<And>s. location_setup_rows d l = Some s \<Longrightarrow> LsSteps s i = StepRunning \<Longrightarrow> advance s d = Inr e \<Longrightarrow> location_ok {} l e"
  shows "location_ok {} l e"
  using location_ok_settle [OF location_ok_mono [OF d X] e] adv by blast

section \<open>The steps that follow\<close>

text \<open>A setup value that is still the row: its steps and its ids.\<close>

definition in_sync :: "nat \<Rightarrow> location_setup \<Rightarrow> db \<Rightarrow> bool" where
  "in_sync l setup d =
     (tables_ok d \<and> location_ok {} l d
      \<and> (\<exists>s. location_setup_rows d l = Some s \<and> LsSteps s = LsSteps setup \<and> LsAIAuditID s = LsAIAuditID setup
            \<and> LsMapsRunID s = LsMapsRunID setup))"

lemma in_syncE:
  assumes "in_sync l setup d"
  obtains s where "tables_ok d" "location_ok {} l d" "location_setup_rows d l = Some s" "LsSteps s = LsSteps setup"
    "LsAIAuditID s = LsAIAuditID setup" "LsMapsRunID s = LsMapsRunID setup"
  using assms unfolding in_sync_def by (elim conjE exE) (rule that)

lemma tables_ok_start_step: "tables_ok d \<Longrightarrow> tables_ok (start_step l i t d)"
  using loc_op_tables [OF loc_op_start_step [OF loc_op_refl]] .

lemma in_sync_start_step:
  assumes "in_sync l setup d" "step_class l setup i = Some (ByLocation l t)" "t \<in> indexed_job_types"
    "LsSteps setup i = StepPending" "enabled (LsSteps setup) i"
  shows "in_sync l (set_step i StepRunning setup) (start_step l i t d)"
  using assms(1)
proof (rule in_syncE)
  fix s
  assume s: "tables_ok d" "location_ok {} l d" "location_setup_rows d l = Some s" "LsSteps s = LsSteps setup"
    "LsAIAuditID s = LsAIAuditID setup" "LsMapsRunID s = LsMapsRunID setup"
  have "step_class l s i = step_class l setup i" using s by (cases i) simp_all
  then have "location_ok {} l (start_step l i t d)"
    using assms s by (intro location_ok_start_step [OF s(2,3,1)]) simp_all
  then show ?thesis using s by (simp add: in_sync_def tables_ok_start_step start_step_row)
qed

text \<open>Between the three starts after the profile, the value is no longer the row, but the steps
  still to start are.\<close>

lemma location_ok_start_pending:
  assumes "tables_ok d" "location_ok {} l d" "location_setup_rows d l = Some s" "LsSteps setup i = LsSteps s i"
    "step_class l s i = Some (ByLocation l t)" "t \<in> indexed_job_types" "enabled (LsSteps s) i"
  shows "tables_ok (start_pending l setup i t d)" "location_ok {} l (start_pending l setup i t d)"
    "\<exists>s'. location_setup_rows (start_pending l setup i t d) l = Some s'
       \<and> (\<forall>k. k \<noteq> i \<longrightarrow> LsSteps s' k = LsSteps s k)"
  using assms location_ok_start_step [OF assms(2,3,1,5,6)]
  by (simp_all add: start_pending_def tables_ok_start_step start_step_row)

lemma indexed_job_types_in [simp]:
  "LocationProfileGenerationJob \<in> indexed_job_types" "MapQueryGenerationJob \<in> indexed_job_types"
  "LocationKeywordAnalysisJob \<in> indexed_job_types" "PromptGenerationJob \<in> indexed_job_types"
  by (simp_all add: indexed_job_types_def)

lemma location_ok_start_after_profile:
  assumes "tables_ok d" "location_ok {} l d" "location_setup_rows d l = Some s" "LsSteps setup = LsSteps s"
    "LsSteps s StepProfile = StepCompleted"
  shows "location_ok {} l (start_pending l setup StepMapQueries MapQueryGenerationJob
           (start_pending l setup StepQuestions PromptGenerationJob
             (start_pending l setup StepKeywordAnalysis LocationKeywordAnalysisJob d)))"
proof -
  let ?d1 = "start_pending l setup StepKeywordAnalysis LocationKeywordAnalysisJob d"
  have en: "enabled st StepKeywordAnalysis" "enabled st StepQuestions" "enabled st StepMapQueries"
    if "st StepProfile = StepCompleted" for st
    using that by (simp_all add: enabled_def prerequisite_def)
  obtain s1 where d1: "tables_ok ?d1" "location_ok {} l ?d1" "location_setup_rows ?d1 l = Some s1"
    "\<forall>k. k \<noteq> StepKeywordAnalysis \<longrightarrow> LsSteps s1 k = LsSteps s k"
    using location_ok_start_pending [OF assms(1-3), of "setup" StepKeywordAnalysis LocationKeywordAnalysisJob] assms(4,5) en
    by fastforce
  let ?d2 = "start_pending l setup StepQuestions PromptGenerationJob ?d1"
  obtain s2 where d2: "tables_ok ?d2" "location_ok {} l ?d2" "location_setup_rows ?d2 l = Some s2"
    "\<forall>k. k \<noteq> StepQuestions \<longrightarrow> LsSteps s2 k = LsSteps s1 k"
    using location_ok_start_pending [OF d1(1-3), of "setup" StepQuestions PromptGenerationJob] assms(4,5) d1(4) en
    by fastforce
  show ?thesis
    using location_ok_start_pending(2) [OF d2(1-3), of "setup" StepMapQueries MapQueryGenerationJob] assms(4,5) d1(4) d2(4) en
    by simp
qed

section \<open>Finalizations\<close>

lemma enabled_running: "location_ok X l d \<Longrightarrow> location_setup_rows d l = Some s \<Longrightarrow> LsSteps s i = StepRunning \<Longrightarrow> enabled (LsSteps s) i"
  using location_okD(1) [of X l d s] steps_ok_enabled by fastforce

lemma running_not_prepare: "location_ok X l d \<Longrightarrow> location_setup_rows d l = Some s \<Longrightarrow> LsSteps s i = StepRunning \<Longrightarrow> i \<noteq> StepPrepare"
  using location_okD(1) [of X l d s] by (auto simp: steps_ok_def)

lemma location_ok_complete_running:
  assumes "location_ok {i} l d" "location_setup_rows d l = Some s" "LsSteps s i = StepRunning"
    "complete_step l setup i d = Inr (setup', e)"
  shows "location_ok {} l e"
  using location_ok_complete [OF assms(1,2,4) enabled_running running_not_prepare, OF assms(1-3) assms(1-3)] by simp

lemma location_ok_skip_running:
  assumes "location_ok {i} l d" "location_setup_rows d l = Some s" "LsSteps s i = StepRunning"
    "skip_step l setup i reason d = Inr (setup', e)" "skippable i"
  shows "location_ok {} l e"
  using location_ok_skip [OF assms(1,2,4) enabled_running, OF assms(1-3) assms(5)] assms(3) by simp

lemma location_ok_fail_own:
  assumes "location_ok {i} l d" "location_setup_rows d l = Some s" "LsSteps s i = StepRunning"
  shows "location_ok {} l (fail_step l setup i m d)"
  using location_ok_fail_running [OF assms] by simp

lemma location_ok_finalize_profile:
  assumes d: "tables_ok d" "location_ok {StepProfile} l (mark_ai_worker_job_completed n d)"
    and e: "finalize_profile_success l n d = Inr e"
  shows "location_ok {} l e"
  using location_ok_settle [OF d(2) e [unfolded finalize_profile_success_def]]
proof this
  fix s
  let ?d1 = "mark_ai_worker_job_completed n d"
  assume s: "location_setup_rows ?d1 l = Some s" "LsSteps s StepProfile = StepRunning"
    and adv: "bind_result (complete_step l s StepProfile ?d1) (\<lambda>(setup, d).
         Inr (start_pending l setup StepMapQueries MapQueryGenerationJob
               (start_pending l setup StepQuestions PromptGenerationJob
                 (start_pending l setup StepKeywordAnalysis LocationKeywordAnalysisJob d)))) = Inr e"
  then obtain s2 d2 where c: "complete_step l s StepProfile ?d1 = Inr (s2, d2)"
    and e: "e = start_pending l s2 StepMapQueries MapQueryGenerationJob
               (start_pending l s2 StepQuestions PromptGenerationJob
                 (start_pending l s2 StepKeywordAnalysis LocationKeywordAnalysisJob d2))"
    by auto
  note row = complete_step_row [OF c s(1)]
  have "tables_ok d2" by (rule loc_op_tables [OF loc_op_complete [OF loc_op_mark_completed [OF d(1)] c]])
  then show "location_ok {} l e" unfolding e
    by (rule location_ok_start_after_profile [OF _ location_ok_complete_running [OF d(2) s c] row(2)]) (simp_all add: row(3))
qed

lemma location_ok_finalize_keywords:
  assumes d: "location_ok {StepKeywordAnalysis} l (mark_ai_worker_job_completed n d)"
    and e: "location_finalize_keyword_analysis_success l n d = Inr e"
  shows "location_ok {} l e"
  using location_ok_settle [OF d e [unfolded location_finalize_keyword_analysis_success_def]] location_ok_complete_running [OF d]
  by auto

lemma location_ok_finalize_keywords_empty:
  assumes d: "location_ok {StepKeywordAnalysis} l (mark_ai_worker_job_completed n d)"
    and e: "finalize_keyword_analysis_empty l n d = Inr e"
  shows "location_ok {} l e"
proof -
  have sk: "skippable StepKeywordAnalysis" by (simp add: skippable_def)
  show ?thesis
    by (rule location_ok_settle [OF d e [unfolded finalize_keyword_analysis_empty_def]])
      (auto intro: location_ok_skip_running [OF d _ _ _ sk])
qed

lemma location_ok_finalize_questions:
  assumes d: "tables_ok d" "location_ok {StepQuestions} l (mark_ai_worker_job_completed n d)"
    and e: "finalize_questions_success l n d = Inr e"
  shows "location_ok {} l e"
  using location_ok_settle [OF d(2) e [unfolded finalize_questions_success_def]]
proof this
  fix s
  let ?d1 = "mark_ai_worker_job_completed n d"
  assume s: "location_setup_rows ?d1 l = Some s" "LsSteps s StepQuestions = StepRunning"
    and adv: "bind_result (complete_step l s StepQuestions ?d1) (\<lambda>(setup, d).
         map_result snd (launch_ai_visibility_tx l setup d)) = Inr e"
  then obtain s2 d2 s3 where c: "complete_step l s StepQuestions ?d1 = Inr (s2, d2)"
    and a: "launch_ai_visibility_tx l s2 d2 = Inr (s3, e)" by auto
  note row = complete_step_row [OF c s(1)]
  have t: "tables_ok d2" by (rule loc_op_tables [OF loc_op_complete [OF loc_op_mark_completed [OF d(1)] c]])
  show "location_ok {} l e"
    by (rule location_ok_launch_ai [OF location_ok_complete_running [OF d(2) s c] row(2) t _ a]) (simp add: row(3) ai_synced_def)
qed

lemma location_ok_finalize_map_queries:
  assumes d: "tables_ok d" "location_ok {StepMapQueries} l (mark_ai_worker_job_completed n d)"
    and e: "finalize_map_queries_success grid l n d = Inr e"
  shows "location_ok {} l e"
  using location_ok_settle [OF d(2) e [unfolded finalize_map_queries_success_def]]
proof this
  fix s
  let ?d1 = "mark_ai_worker_job_completed n d"
  assume s: "location_setup_rows ?d1 l = Some s" "LsSteps s StepMapQueries = StepRunning"
    and adv: "bind_result (complete_step l s StepMapQueries ?d1) (\<lambda>(setup, d).
         map_result snd (launch_maps_visibility_tx grid l setup d)) = Inr e"
  then obtain s2 d2 s3 where c: "complete_step l s StepMapQueries ?d1 = Inr (s2, d2)"
    and a: "launch_maps_visibility_tx grid l s2 d2 = Inr (s3, e)" by auto
  note row = complete_step_row [OF c s(1)]
  have t: "tables_ok d2" by (rule loc_op_tables [OF loc_op_complete [OF loc_op_mark_completed [OF d(1)] c]])
  show "location_ok {} l e"
    by (rule location_ok_launch_maps [OF location_ok_complete_running [OF d(2) s c] row(2) t _ a])
      (simp add: row(3) maps_synced_def maps_part_def)
qed

lemma location_ok_fail_owned_job:
  assumes d: "location_ok {} l d" and e: "fail_owned_job l n i m d = Inr e"
  shows "location_ok {} l e"
proof -
  have d1: "location_ok {i} l (mark_ai_worker_job_failed n (Some (cut_error m)) d)"
    by (rule location_ok_mono [OF location_ok_mark_failed [OF d]]) simp
  show ?thesis
    by (rule location_ok_settle [OF d1 e [unfolded fail_owned_job_def]]) (use location_ok_fail_own [OF d1] in auto)
qed

text \<open>A run of another audit than the setup's own leaves the setup alone.\<close>

lemma location_ok_settle_owned:
  assumes d: "location_ok {i} l d" and e: "settle_step l i (\<lambda>s d. if \<not> own s then Inr d else advance s d) d = Inr e"
    and other: "\<And>s. location_setup_rows d l = Some s \<Longrightarrow> \<not> own s \<Longrightarrow> location_ok {} l d"
    and adv: "\<And>s. location_setup_rows d l = Some s \<Longrightarrow> LsSteps s i = StepRunning \<Longrightarrow> advance s d = Inr e \<Longrightarrow> location_ok {} l e"
  shows "location_ok {} l e"
  by (rule location_ok_settle [OF d e]) (use other adv in \<open>auto split: if_splits\<close>)

lemma location_ok_finalize_visibility_run:
  assumes d: "location_ok {} l d" "location_ok {StepAIVisibility} l (mark_ai_worker_job_completed n d)"
    and a: "audit_scope a d = Some (Some l)" and e: "finalize_visibility_run n a vis err d = Inr e" and t: "tables_ok d"
    and other: "\<And>s. location_setup_rows d l = Some s \<Longrightarrow> LsAIAuditID s \<noteq> Some a \<Longrightarrow> location_ok {} l (mark_ai_worker_job_completed n d)"
  shows "location_ok {} l e"
proof -
  let ?d1 = "case err of Some m \<Rightarrow> fail_audits (\<lambda>x. AuditID x = a \<and> audit_active x) (cut_error m)
                (mark_ai_worker_job_failed n (Some (cut_error m)) d) | None \<Rightarrow> mark_ai_worker_job_completed n d"
  have op: "loc_op (\<lambda>j. JobID j = n) l d ?d1"
    using t by (auto split: option.splits intro: loc_op_mark_completed loc_op_fail_audits loc_op_mark_failed)
  obtain x where x: "find_audit a ?d1 = Some x" "AuditLocation x = Some l"
    using loc_op_audit_scope [OF op a] by blast
  have rows: "location_setup_rows ?d1 l = location_setup_rows d l"
    by (simp add: mark_ai_worker_job_completed_def mark_ai_worker_job_failed_def split: option.splits)
  have failed: "location_ok {} l (fail_audits P m (mark_ai_worker_job_failed n m' d))" for P m m'
    by (intro location_ok_fail_audits location_ok_mark_failed d(1))
  then have d1: "location_ok {StepAIVisibility} l ?d1"
    using d(2) location_ok_mono [OF failed, of "{StepAIVisibility}"] by (simp split: option.splits)
  have e1: "settle_step l StepAIVisibility (\<lambda>s d. if \<not> (LsAIAuditID s = Some a) then Inr d
      else case err of
             Some message \<Rightarrow> Inr (fail_step l s StepAIVisibility message d)
           | None \<Rightarrow> if vis = AuditFailed then Inr (fail_step l s StepAIVisibility ''visibility audit failed'' d)
                     else map_result snd (complete_step l s StepAIVisibility d)) ?d1 = Inr e"
    using e unfolding finalize_visibility_run_def Let_def x option.case .
  show ?thesis
  proof (rule location_ok_settle_owned [OF d1 e1])
    show "location_ok {} l ?d1" if "location_setup_rows ?d1 l = Some s" "LsAIAuditID s \<noteq> Some a" for s
      using other [of s] that failed rows by (auto split: option.splits)
    show "location_ok {} l e" if s: "location_setup_rows ?d1 l = Some s" "LsSteps s StepAIVisibility = StepRunning"
      and adv: "(case err of
             Some message \<Rightarrow> Inr (fail_step l s StepAIVisibility message ?d1)
           | None \<Rightarrow> if vis = AuditFailed then Inr (fail_step l s StepAIVisibility ''visibility audit failed'' ?d1)
                     else map_result snd (complete_step l s StepAIVisibility ?d1)) = Inr e" for s
      using adv location_ok_fail_own [OF d1 s] location_ok_complete_running [OF d1 s]
      by (auto split: option.splits if_splits)
  qed
qed

lemma location_ok_finalize_local_run:
  assumes d: "location_ok {} l d" "location_ok {StepMapsVisibility} l (mark_ai_worker_job_completed n d)"
    and r: "run_scope r d = Some l" and e: "finalize_local_run n r err d = Inr e" and t: "tables_ok d"
    and other: "\<And>s. location_setup_rows d l = Some s \<Longrightarrow> LsMapsRunID s \<noteq> Some r \<Longrightarrow> location_ok {} l (mark_ai_worker_job_completed n d)"
    and gone: "project_locations d l = None \<Longrightarrow> location_setup_rows d l = None"
  shows "location_ok {} l e"
proof -
  let ?d1 = "case err of Some m \<Rightarrow> mark_ai_worker_job_failed n (Some (cut_error m)) d | None \<Rightarrow> mark_ai_worker_job_completed n d"
  have op: "loc_op (\<lambda>j. JobID j = n) l d ?d1"
    using t by (auto split: option.splits intro: loc_op_mark_completed loc_op_mark_failed)
  obtain x where x: "find_run r ?d1 = Some x" "RunLocation x = l" using loc_op_run_scope [OF op r] by blast
  have rows: "location_setup_rows ?d1 l = location_setup_rows d l" "project_locations ?d1 = project_locations d"
    by (simp_all add: mark_ai_worker_job_completed_def mark_ai_worker_job_failed_def split: option.splits)
  have failed: "location_ok {} l (mark_ai_worker_job_failed n m d)" for m by (rule location_ok_mark_failed [OF d(1)])
  then have d1: "location_ok {StepMapsVisibility} l ?d1"
    using d(2) location_ok_mono [OF failed, of "{StepMapsVisibility}"] by (simp split: option.splits)
  show ?thesis
  proof (cases "project_locations ?d1 l = None")
    case True
    then have "location_setup_rows d l = None" using gone rows by simp
    moreover have "e = ?d1" using e True unfolding finalize_local_run_def Let_def x option.case by simp
    ultimately show ?thesis using rows(1) by (simp add: location_ok_def)
  next
    case False
    have e1: "settle_step l StepMapsVisibility (\<lambda>s d. if \<not> (LsMapsRunID s = Some r) then Inr d
        else case err of
               Some message \<Rightarrow> Inr (fail_step l s StepMapsVisibility message d)
             | None \<Rightarrow> map_result snd (complete_step l s StepMapsVisibility d)) ?d1 = Inr e"
      using e False unfolding finalize_local_run_def Let_def x option.case by (simp only: if_False)
    show ?thesis
    proof (rule location_ok_settle_owned [OF d1 e1])
      show "location_ok {} l ?d1" if "location_setup_rows ?d1 l = Some s" "LsMapsRunID s \<noteq> Some r" for s
        using other [of s] that failed rows by (auto split: option.splits)
      show "location_ok {} l e" if s: "location_setup_rows ?d1 l = Some s" "LsSteps s StepMapsVisibility = StepRunning"
        and adv: "(case err of
               Some message \<Rightarrow> Inr (fail_step l s StepMapsVisibility message ?d1)
             | None \<Rightarrow> map_result snd (complete_step l s StepMapsVisibility ?d1)) = Inr e" for s
        using adv location_ok_fail_own [OF d1 s] location_ok_complete_running [OF d1 s] by (auto split: option.splits)
    qed
  qed
qed

section \<open>Launching, resuming, reclaiming\<close>

lemma in_sync_launch_pending:
  assumes "in_sync l setup d" "step_class l setup i = Some (ByLocation l t)" "t \<in> indexed_job_types"
    "wanted \<Longrightarrow> enabled (LsSteps setup) i" "launch_pending l wanted i t (setup, d) = (setup', e)"
  shows "in_sync l setup' e"
  using assms in_sync_start_step [OF assms(1-3)] by (auto simp: launch_pending_def split: if_splits)

lemma launch_pending_steps:
  "launch_pending l wanted i t (setup, d) = (setup', e) \<Longrightarrow> k \<noteq> i \<Longrightarrow> LsSteps setup' k = LsSteps setup k"
  by (auto simp: launch_pending_def split: if_splits)

lemma launch_pending_completed:
  "launch_pending l wanted i t (setup, d) = (setup', e) \<Longrightarrow> LsSteps setup i = StepCompleted \<Longrightarrow> LsSteps setup' i = StepCompleted"
  by (auto simp: launch_pending_def split: if_splits)

lemma in_sync_launch_visibility:
  assumes s: "in_sync l setup d"
    and a: "(if ai then launch_ai_visibility_tx l setup d else Inr (setup, d)) = Inr (setup', d')"
    and m: "(if maps then map_result snd (launch_maps_visibility_tx grid l setup' d') else Inr d') = Inr e"
  shows "location_ok {} l e"
  using s
proof (rule in_syncE)
  fix s
  assume s: "tables_ok d" "location_ok {} l d" "location_setup_rows d l = Some s" "LsSteps s = LsSteps setup"
    "LsAIAuditID s = LsAIAuditID setup" "LsMapsRunID s = LsMapsRunID setup"
  have parts: "maps_part setup = maps_part s" "ai_synced setup s" using s by (simp_all add: maps_part_def ai_synced_def)
  have d': "location_ok {} l d'" "tables_ok d'" "keeps_maps l setup d setup' d'"
    using a location_ok_launch_ai [OF s(2,3,1) parts(2)] loc_op_tables [OF loc_op_launch_ai [OF loc_op_refl [OF s(1)]]]
      keeps_maps_launch_ai keeps_maps_refl s(1,2) by (auto split: if_splits)
  then obtain s' where s': "location_setup_rows d' l = Some s'" "maps_part s' = maps_part s" "maps_part setup' = maps_part setup"
    using s(3) by (auto simp: keeps_maps_def)
  then have "maps_synced setup' s'" using parts by (simp add: maps_synced_def)
  then show ?thesis using m location_ok_launch_maps [OF d'(1) s'(1) d'(2)] d'(1) by (auto split: if_splits)
qed

lemma location_ok_launch_unfinished_tx:
  assumes s: "in_sync l setup d" and e: "launch_unfinished_tx grid l setup d = Inr e"
  shows "location_ok {} l e"
proof (cases "LsStatus setup = StatusRunning")
  case True
  have prep: "LsSteps setup StepPrepare = StepCompleted"
    using s by (auto elim!: in_syncE dest: location_okD(1) simp: steps_ok_def)
  define todo where "todo = launchable (LsSteps setup)"
  obtain s2 d2 where p2: "launch_pending l (LaunchProfile todo) StepProfile LocationProfileGenerationJob (setup, d) = (s2, d2)"
    by (cases "launch_pending l (LaunchProfile todo) StepProfile LocationProfileGenerationJob (setup, d)")
  obtain s3 d3 where p3: "launch_pending l (LsSteps s2 StepProfile = StepCompleted) StepKeywordAnalysis LocationKeywordAnalysisJob (s2, d2) = (s3, d3)"
    by (cases "launch_pending l (LsSteps s2 StepProfile = StepCompleted) StepKeywordAnalysis LocationKeywordAnalysisJob (s2, d2)")
  obtain s4 d4 where p4: "launch_pending l (LaunchQuestions todo) StepQuestions PromptGenerationJob (s3, d3) = (s4, d4)"
    by (cases "launch_pending l (LaunchQuestions todo) StepQuestions PromptGenerationJob (s3, d3)")
  obtain s5 d5 where p5: "launch_pending l (LaunchMapQueries todo) StepMapQueries MapQueryGenerationJob (s4, d4) = (s5, d5)"
    by (cases "launch_pending l (LaunchMapQueries todo) StepMapQueries MapQueryGenerationJob (s4, d4)")
  have wants: "LaunchQuestions todo \<or> LaunchMapQueries todo \<Longrightarrow> LsSteps setup StepProfile = StepCompleted"
    by (auto simp: todo_def launchable_def split: if_splits)
  have en: "enabled st StepKeywordAnalysis" "enabled st StepQuestions" "enabled st StepMapQueries"
    if "st StepProfile = StepCompleted" for st
    using that by (simp_all add: enabled_def prerequisite_def)
  have y2: "in_sync l s2 d2"
    by (rule in_sync_launch_pending [OF s _ _ _ p2]) (simp_all add: enabled_def prerequisite_def prep)
  have c2: "LsSteps setup StepProfile = StepCompleted \<Longrightarrow> LsSteps s2 StepProfile = StepCompleted"
    by (rule launch_pending_completed [OF p2])
  have y3: "in_sync l s3 d3" by (rule in_sync_launch_pending [OF y2 _ _ _ p3]) (simp_all add: en)
  have c3: "LsSteps setup StepProfile = StepCompleted \<Longrightarrow> LsSteps s3 StepProfile = StepCompleted"
    using launch_pending_steps [OF p3, of StepProfile] c2 by simp
  have y4: "in_sync l s4 d4" by (rule in_sync_launch_pending [OF y3 _ _ _ p4]) (use wants c3 in \<open>simp_all add: en\<close>)
  have c4: "LsSteps setup StepProfile = StepCompleted \<Longrightarrow> LsSteps s4 StepProfile = StepCompleted"
    using launch_pending_steps [OF p4, of StepProfile] c3 by simp
  have y5: "in_sync l s5 d5" by (rule in_sync_launch_pending [OF y4 _ _ _ p5]) (use wants c4 in \<open>simp_all add: en\<close>)
  obtain s6 d6 where
    "(if LaunchAIAudit todo then launch_ai_visibility_tx l s5 d5 else Inr (s5, d5)) = Inr (s6, d6)"
    "(if LaunchMapsRun todo then map_result snd (launch_maps_visibility_tx grid l s6 d6) else Inr d6) = Inr e"
    using e True prep by (auto simp: launch_unfinished_tx_def Let_def todo_def [symmetric] p2 p3 p4 p5)
  then show ?thesis by (rule in_sync_launch_visibility [OF y5])
next
  case False
  then show ?thesis using s e by (auto simp: launch_unfinished_tx_def elim: in_syncE)
qed

lemma location_ok_launch_unfinished:
  assumes "tables_ok d" "location_ok {} l d" "launch_unfinished grid l d = Inr e"
  shows "location_ok {} l e"
proof (cases "location_setup_rows d l")
  case (Some s)
  then have "in_sync l s d" using assms(1,2) by (simp add: in_sync_def)
  moreover have "launch_unfinished_tx grid l s d = Inr e" using assms(3) Some by (simp add: launch_unfinished_def)
  ultimately show ?thesis by (rule location_ok_launch_unfinished_tx)
qed (use assms in \<open>simp add: launch_unfinished_def\<close>)

lemma location_ok_insert_setup:
  assumes "location_setup_rows d l = None" "insert_setup l user differences d = Inr (s, e)"
  shows "location_ok {} l e"
proof (rule location_okI)
  let ?steps = "\<lambda>i. if i = StepPrepare then StepCompleted else StepPending"
  have row: "location_setup_rows e l = Some s \<and> LsSteps s = ?steps \<and> LsStatus s = StatusRunning \<and> \<not> LsCompletedAt s
      \<and> LsAIAuditID s = None \<and> LsMapsRunID s = None"
    using assms by (auto simp: insert_setup_def Let_def)
  have "overall_status ?steps = StatusRunning" by (simp add: overall_status_def orderedSteps_def)
  then show "location_setup_rows e l = Some s" "status_ok s" "refs_ok l s e"
    using row by (simp_all add: status_ok_def refs_ok_def)
  show "steps_ok (LsSteps s)" using row by (simp add: steps_ok_iff)
  show "carried l s i e" if "LsSteps s i = StepRunning" "i \<notin> {}" for i
    using that row by (simp split: if_splits)
qed

lemma steps_ok_next:
  assumes "steps_ok st"
  shows "steps_ok (next_steps st)"
  using assms by (auto simp: steps_ok_def enabled_def next_steps_def)

lemma overall_next:
  assumes "overall_status st = StatusFailed"
  shows "overall_status (next_steps st) = StatusRunning"
proof -
  obtain i where "st i = StepFailed" using assms overall_status_iff(1) by blast
  then have "next_steps st i = StepPending" by (simp add: next_steps_def)
  then have "overall_status (next_steps st) \<noteq> StatusCompleted" unfolding overall_status_iff by (auto intro!: exI [where x = i])
  moreover have "overall_status (next_steps st) \<noteq> StatusFailed" unfolding overall_status_iff by (auto simp: next_steps_def)
  ultimately show ?thesis by (cases "overall_status (next_steps st)") simp_all
qed

lemma location_ok_reset:
  assumes d: "location_ok {} l d" "location_setup_rows d l = Some setup" "LsStatus setup = StatusFailed"
    and e: "reset_unfinished_steps l setup user d = Inr (s, e)"
  shows "location_ok {} l e"
proof (rule location_ok_change [OF d(1,2)])
  note ok = location_okD(1,2) [OF d(1,2)]
  have row: "same_jobs d e \<and> location_setup_rows e l = Some s \<and> LsSteps s = next_steps (LsSteps setup)
      \<and> LsStatus s = StatusRunning \<and> \<not> LsCompletedAt s \<and> LsAIAuditID s = LsAIAuditID setup \<and> LsMapsRunID s = LsMapsRunID setup"
    using e d(2) by (auto simp: reset_unfinished_steps_def Let_def same_jobs_def split: if_splits)
  show "same_jobs d e" "location_setup_rows e l = Some s" "LsAIAuditID s = LsAIAuditID setup" "LsMapsRunID s = LsMapsRunID setup"
    using row by simp_all
  show "steps_ok (LsSteps s)" using steps_ok_next [OF ok(1)] row by simp
  show "status_ok s" using overall_next [of "LsSteps setup"] ok(2) d(3) row by (simp add: status_ok_def)
  show "LsSteps setup i = StepRunning \<and> i \<notin> {}" if "LsSteps s i = StepRunning" for i
    using that row by (auto simp: next_steps_def split: if_splits)
qed

lemma location_ok_start:
  assumes "location_ok {} l d" "location_start_or_resume l user differences d = Inr (s, b, e)"
  shows "location_ok {} l e"
  using assms location_ok_insert_setup location_ok_reset [OF assms(1)]
  by (auto simp: location_start_or_resume_def split: option.splits if_splits)

text \<open>The sweep: the in-memory steps follow the row.\<close>

definition reclaiming :: "nat \<Rightarrow> location_setup \<times> db \<Rightarrow> bool" where
  "reclaiming l sd =
     (location_ok {} l (snd sd) \<and> (\<exists>s. location_setup_rows (snd sd) l = Some s \<and> LsSteps s = LsSteps (fst sd)))"

lemma reclaiming_step: "reclaiming l sd \<Longrightarrow> reclaiming l (reclaim_step l owned i latest sd)"
proof -
  assume sd: "reclaiming l sd"
  then obtain s where s: "location_ok {} l (snd sd)" "location_setup_rows (snd sd) l = Some s" "LsSteps s = LsSteps (fst sd)"
    by (auto simp: reclaiming_def)
  have "location_ok {} l (fail_step l (fst sd) i m (snd sd))" if "LsSteps (fst sd) i = StepRunning" for m
    using location_ok_fail_running [OF s(1,2)] that s(3) by simp
  then show ?thesis using sd s fail_step_row(1) [OF s(2)]
    by (auto simp: reclaim_step_def reclaiming_def split: option.splits)
qed

lemma location_ok_reclaim: "location_ok {} l d \<Longrightarrow> location_ok {} l (reclaim_setup l d)"
proof (cases "location_setup_rows d l")
  case (Some s)
  assume d: "location_ok {} l d"
  have "reclaiming l (s, d)" using d Some by (simp add: reclaiming_def)
  then have "reclaiming l (reclaim_step l o6 StepMapsVisibility j6 (reclaim_step l o5 StepAIVisibility j5
      (reclaim_step l True StepMapQueries j4 (reclaim_step l True StepQuestions j3
      (reclaim_step l True StepKeywordAnalysis j2 (reclaim_step l True StepProfile j1 (s, d)))))))" for o5 o6 j1 j2 j3 j4 j5 j6
    by (intro reclaiming_step)
  then show ?thesis by (simp add: reclaim_setup_def Some reclaiming_def Let_def)
qed (simp add: reclaim_setup_def)

end
