(* ===== verification/SharedFrames.thy ===== *)
theory SharedFrames
  imports LocationPreserved
begin

text \<open>
  What the project and competitor workflows, the crawls and the job queue leave alone: a
  \<open>base_op\<close> keeps the tables well formed and every location setup row.
\<close>

definition base_op :: "(job \<Rightarrow> bool) \<Rightarrow> db \<Rightarrow> db \<Rightarrow> bool" where
  "base_op S d e =
     (evolves S d e \<and> tables_ok e \<and> location_setup_rows e = location_setup_rows d
      \<and> project_locations e = project_locations d)"

lemma base_op_refl: "tables_ok d \<Longrightarrow> base_op S d d"
  by (simp add: base_op_def evolves_refl)

lemma base_op_tables: "base_op S d e \<Longrightarrow> tables_ok e"
  by (simp add: base_op_def)

lemma base_op_grow:
  assumes "base_op S d e" "ai_worker_jobs g = ai_worker_jobs e" "next_id e \<le> next_id g" "ai_audits g = ai_audits e"
    "local_visibility_runs g = local_visibility_runs e" "distinct (map CrawlRowID (crawl_rows g))"
    "\<forall>c \<in> set (crawl_rows g). CrawlRowID c < next_id g"
    "location_setup_rows g = location_setup_rows e" "project_locations g = project_locations e"
  shows "base_op S d g"
proof -
  have k: "keeps_scopes e g" by (rule keeps_scopes_same) (use assms in simp_all)
  have "tables_ok g"
    by (rule tables_ok_grow [OF base_op_tables [OF assms(1)]])
      (use assms k base_op_tables [OF assms(1)] in \<open>auto simp: tables_ok_def keeps_scopes_def intro: less_le_trans\<close>)
  moreover have "evolves S d g"
    by (rule evolves_same_jobs [of S d e]) (use assms k in \<open>simp_all add: base_op_def\<close>)
  ultimately show ?thesis using assms by (simp add: base_op_def)
qed

lemma base_op_rows:
  assumes "base_op S d e" "ai_worker_jobs g = ai_worker_jobs e" "next_id g = next_id e" "ai_audits g = ai_audits e"
    "local_visibility_runs g = local_visibility_runs e" "map CrawlRowID (crawl_rows g) = map CrawlRowID (crawl_rows e)"
    "location_setup_rows g = location_setup_rows e" "project_locations g = project_locations e"
  shows "base_op S d g"
proof (rule base_op_grow [OF assms(1)])
  have ok: "tables_ok e" by (rule base_op_tables [OF assms(1)])
  show "distinct (map CrawlRowID (crawl_rows g))" using ok assms(6) by (simp add: tables_ok_def)
  have "(\<forall>c \<in> set (crawl_rows g). CrawlRowID c < next_id g) = (\<forall>c \<in> set (crawl_rows e). CrawlRowID c < next_id e)"
    using arg_cong [OF assms(6), of "\<lambda>zs. \<forall>z \<in> set zs. z < next_id e"] assms(3) by simp
  then show "\<forall>c \<in> set (crawl_rows g). CrawlRowID c < next_id g" using ok by (simp add: tables_ok_def)
qed (use assms in simp_all)

lemma base_op_insert_job:
  assumes "base_op S d e" "job_refs_ok e j" "\<And>c. in_class c j \<Longrightarrow> \<not> class_active c e" "JobStatus j = JobPending"
  shows "base_op S d (insert_job j e)"
  using assms evolves_insert_job tables_ok_insert_job by (simp add: base_op_def)

lemma base_op_enqueue_plain: "base_op S d e \<Longrightarrow> base_op S d (enqueue_ai_worker_job t None e)"
  unfolding enqueue_ai_worker_job_def
proof (rule base_op_insert_job)
  show "\<not> class_active c e" if "in_class c (blank_job\<lparr>JobType := t, JobAudit := None\<rparr>)" for c
    using that by (cases c) (simp_all add: blank_job_def)
qed (simp_all add: job_refs_ok_def blank_job_def)

lemma base_op_enqueue_competitor: "base_op S d e \<Longrightarrow> base_op S d (enqueue_competitor_ai_worker_job t c e)"
  unfolding enqueue_competitor_ai_worker_job_def
proof (rule base_op_insert_job)
  show "\<not> class_active k e" if "in_class k (blank_job\<lparr>JobType := t, JobCompetitor := Some c\<rparr>)" for k
    using that by (cases k) (simp_all add: blank_job_def)
qed (simp_all add: job_refs_ok_def blank_job_def)

lemma base_op_create_audit:
  assumes "base_op S d e" "create_ai_audit c l s e = Inr (a, g)"
  shows "base_op S d g"
proof -
  note g = create_ai_audit_scope [OF assms(2)]
  have "evolves S d g"
    by (rule evolves_same_jobs [of S d e]) (use assms(1) g in \<open>auto simp: base_op_def keeps_scopes_def run_scope_def find_run_def\<close>)
  then show ?thesis using assms(1) g tables_ok_create_audit [OF assms(2)] by (simp add: base_op_def)
qed

lemma base_op_enqueue_audit:
  assumes "base_op S d e" "create_ai_audit c l s e = Inr (a, g)"
  shows "base_op S d (enqueue_ai_worker_job VisibilityRunJob (Some a) g)"
  unfolding enqueue_ai_worker_job_def
proof (rule base_op_insert_job [OF base_op_create_audit [OF assms]])
  note g = create_ai_audit_scope [OF assms(2)] and t = base_op_tables [OF assms(1)]
  have "audit_scope a e = None" using t g by (auto simp: tables_ok_def audit_scope_def find_audit_def find_None_iff)
  then have "\<not> class_active (ByAudit a) g" using t g by (auto simp: class_active_def tables_ok_def job_refs_ok_def)
  then show "\<not> class_active k g" if "in_class k (blank_job\<lparr>JobType := VisibilityRunJob, JobAudit := Some a\<rparr>)" for k
    using that by (cases k) (auto simp: blank_job_def)
  show "job_refs_ok g (blank_job\<lparr>JobType := VisibilityRunJob, JobAudit := Some a\<rparr>)"
    using create_ai_audit_new_scope [OF assms(2) t] by (simp add: job_refs_ok_def blank_job_def)
qed (simp add: blank_job_def)

lemma base_op_fail_audits: "base_op S d e \<Longrightarrow> base_op S d (fail_audits P m e)"
proof -
  assume e: "base_op S d e"
  have r: "run_scope r (fail_audits P m e) = run_scope r e" for r by (simp add: run_scope_def find_run_def)
  have "evolves S d (fail_audits P m e)"
    by (rule evolves_same_jobs [of S d e]) (use e r in \<open>auto simp: base_op_def keeps_scopes_def\<close>)
  moreover have "tables_ok (fail_audits P m e)"
    by (rule tables_ok_map_jobs [OF base_op_tables [OF e], of _ id]) (use r in simp_all)
  ultimately show ?thesis using e by (simp add: base_op_def)
qed

lemma base_op_map_jobs:
  assumes "tables_ok d" "ai_worker_jobs e = map f (ai_worker_jobs d)" "settles_only S f" "next_id e = next_id d"
    "map AuditID (ai_audits e) = map AuditID (ai_audits d)" "\<And>a. audit_scope a e = audit_scope a d"
    "local_visibility_runs e = local_visibility_runs d" "crawl_rows e = crawl_rows d"
    "location_setup_rows e = location_setup_rows d" "project_locations e = project_locations d"
  shows "base_op S d e"
proof -
  have r: "run_scope r e = run_scope r d" for r using assms(7) by (simp add: run_scope_def find_run_def)
  have "evolves S d e"
    by (rule evolvesI [where f = f and new = "[]"]) (use assms r in \<open>simp_all add: keeps_scopes_def\<close>)
  moreover have "tables_ok e"
    by (rule tables_ok_map_jobs [OF assms(1,2) settles_onlyD(1) [OF assms(3)] settles_onlyD(2) [OF assms(3)] assms(4-6) r])
      (simp_all add: assms)
  ultimately show ?thesis using assms by (simp add: base_op_def)
qed

lemma base_op_set_job:
  assumes "tables_ok d" "\<And>j. job_key (f j) = job_key j" "\<And>j. job_active (f j) \<Longrightarrow> job_active j"
  shows "base_op (\<lambda>j. JobID j = i) d (set_job i f d)"
  by (rule base_op_map_jobs [OF assms(1), where f = "\<lambda>j. if JobID j = i then f j else j"])
    (use assms(2,3) in \<open>auto simp: settles_only_def audit_scope_def find_audit_def split: if_splits\<close>)

text \<open>Settling the job after other changes: the two commute for the frames.\<close>

lemma base_op_after:
  assumes "base_op S d e" "base_op S e g" "\<And>j k. job_key j = job_key k \<Longrightarrow> S j = S k"
  shows "base_op S d g"
  using assms(1,2) evolves_trans [of S d e g, OF _ _ assms(3)] by (simp add: base_op_def)

lemma base_op_finish:
  assumes "base_op (\<lambda>j. JobID j = i) d e" "\<And>j. job_key (f j) = job_key j" "\<And>j. job_active (f j) \<Longrightarrow> job_active j"
  shows "base_op (\<lambda>j. JobID j = i) d (set_job i f e)"
  by (rule base_op_after [OF assms(1) base_op_set_job [OF base_op_tables [OF assms(1)] assms(2,3)]])
    (simp_all add: job_key_def)

lemma base_op_completed:
  "base_op (\<lambda>j. JobID j = i) d e \<Longrightarrow> base_op (\<lambda>j. JobID j = i) d (mark_ai_worker_job_completed i e)"
  unfolding mark_ai_worker_job_completed_def by (rule base_op_finish) (simp_all add: job_key_def job_active_def)

lemma base_op_failed:
  "base_op (\<lambda>j. JobID j = i) d e \<Longrightarrow> base_op (\<lambda>j. JobID j = i) d (mark_ai_worker_job_failed i m e)"
  unfolding mark_ai_worker_job_failed_def by (rule base_op_finish) (simp_all add: job_key_def job_active_def)

lemma location_ok_base:
  assumes "base_op S d e" "tables_ok d" "location_ok {} k d"
    "\<And>j i. j \<in> set (ai_worker_jobs d) \<Longrightarrow> S j \<Longrightarrow> job_owner d j \<noteq> Some (k, i)" "\<And>j. S j \<Longrightarrow> JobID j < next_id d"
  shows "location_ok {} k e"
  by (rule location_ok_frame [of S d e k "{}" "{}"]) (use assms in \<open>auto simp: base_op_def\<close>)

end
