(* ===== verification/ProjectInvariant.thy ===== *)
theory ProjectInvariant
  imports SharedFrames
begin

text \<open>
  The project setup: a status that waits for a worker job or for the crawl has one that is pending
  or running, whatever else the workers do. \<open>project_ok X\<close> asks for a job outside \<open>X\<close>, which a
  transaction that settles the jobs of \<open>X\<close> establishes before it does.
\<close>

section \<open>The invariant\<close>

definition awaited_type :: "project_status \<Rightarrow> job_type option" where
  "awaited_type st =
     (case st of
        ProjectProfileGeneration \<Rightarrow> Some BusinessProfileBootstrapJob
      | ProjectKeywordAnalysis \<Rightarrow> Some KeywordAnalysisJob
      | ProjectPromptGeneration \<Rightarrow> Some PromptGenerationJob
      | ProjectVisibility \<Rightarrow> Some VisibilityRunJob
      | _ \<Rightarrow> None)"

definition project_job :: "db \<Rightarrow> job_type \<Rightarrow> job \<Rightarrow> bool" where
  "project_job d t j =
     (JobType j = t \<and> JobLocation j = None \<and> JobCompetitor j = None
      \<and> (\<forall>a l. JobAudit j = Some a \<longrightarrow> audit_scope a d \<noteq> Some (Some l)))"

definition project_pending :: "nat set \<Rightarrow> db \<Rightarrow> job_type \<Rightarrow> bool" where
  "project_pending X d t = (\<exists>j \<in> set (ai_worker_jobs d). project_job d t j \<and> job_active j \<and> JobID j \<notin> X)"

definition crawl_pending :: "db \<Rightarrow> nat \<Rightarrow> bool" where
  "crawl_pending d c = (\<exists>r \<in> set (crawl_rows d). CrawlRowID r = c \<and> crawl_active r)"

definition project_shape :: "project_setup \<Rightarrow> bool" where
  "project_shape s =
     ((PsFailedStep s \<noteq> None \<longleftrightarrow> PsStatus s = ProjectFailed)
      \<and> (PsCompletedAt s \<longleftrightarrow> PsStatus s \<in> {ProjectCompleted, ProjectFailed}))"

definition project_row_ok :: "nat set \<Rightarrow> db \<Rightarrow> project_setup \<Rightarrow> bool" where
  "project_row_ok X d s =
     (project_shape s
      \<and> (\<forall>t. awaited_type (PsStatus s) = Some t \<longrightarrow> project_pending X d t)
      \<and> (PsStatus s = ProjectCrawling \<longrightarrow> (\<exists>c. PsCrawlID s = Some c \<and> crawl_pending d c)))"

definition project_ok :: "nat set \<Rightarrow> db \<Rightarrow> bool" where
  "project_ok X d = (\<forall>s. project_setup_row d = Some s \<longrightarrow> project_row_ok X d s)"

lemma project_okI:
  assumes "\<And>s. project_setup_row d = Some s \<Longrightarrow> project_row_ok X d s"
  shows "project_ok X d"
  using assms by (simp add: project_ok_def)

section \<open>Frames\<close>

lemma project_job_key: "job_key j = job_key k \<Longrightarrow> project_job d t j = project_job d t k"
  by (simp add: project_job_def job_key_def)

lemma project_job_scope:
  assumes "tables_ok d" "keeps_scopes d e" "j \<in> set (ai_worker_jobs d)" "project_job d t j"
  shows "project_job e t j"
proof -
  have "audit_scope a e \<noteq> Some (Some l)" if "JobAudit j = Some a" for a l
  proof -
    have "audit_scope a d \<noteq> None" using assms(1,3) that by (auto simp: tables_ok_def job_refs_ok_def)
    then obtain s where s: "audit_scope a d = Some s" by blast
    have "audit_scope a e = Some s" using assms(2) s unfolding keeps_scopes_def by blast
    moreover have "s \<noteq> Some l" using assms(4) that s by (simp add: project_job_def)
    ultimately show ?thesis by simp
  qed
  then show ?thesis using assms(4) by (simp add: project_job_def)
qed

lemma project_pending_evolves:
  assumes e: "evolves S d e" and t: "tables_ok d" and p: "project_pending X d t"
    and S: "\<And>j. j \<in> set (ai_worker_jobs d) \<Longrightarrow> S j \<Longrightarrow> project_job d t j \<Longrightarrow> JobID j \<in> X"
  shows "project_pending X e t"
  using e
proof (rule evolvesE)
  fix f new
  assume f: "ai_worker_jobs e = map f (ai_worker_jobs d) @ new" "settles_only S f" "keeps_scopes d e"
  obtain j where j: "j \<in> set (ai_worker_jobs d)" "project_job d t j" "job_active j" "JobID j \<notin> X"
    using p by (auto simp: project_pending_def)
  have "\<not> S j" using S [OF j(1) _ j(2)] j(4) by blast
  then have "f j = j" by (rule settles_onlyD(3) [OF f(2)])
  then have "j \<in> set (ai_worker_jobs e)" using j(1) by (metis Un_iff f(1) image_eqI set_append set_map)
  then show ?thesis using j project_job_scope [OF t f(3) j(1,2)] by (auto simp: project_pending_def)
qed

text \<open>Another job of an excluded type can be settled, and what was excluded stays excluded.\<close>

lemma project_ok_frame:
  assumes e: "evolves S d e" and t: "tables_ok d" and d: "project_ok X d"
    and row: "project_setup_row e = project_setup_row d"
    and crawls: "\<And>c. crawl_pending d c \<Longrightarrow> crawl_pending e c"
    and S: "\<And>j t. j \<in> set (ai_worker_jobs d) \<Longrightarrow> S j \<Longrightarrow> project_job d t j \<Longrightarrow> JobID j \<in> X"
  shows "project_ok X e"
proof (rule project_okI)
  fix s
  assume "project_setup_row e = Some s"
  then have ok: "project_row_ok X d s" using d row by (simp add: project_ok_def)
  have "project_pending X e u" if "project_pending X d u" for u
    by (rule project_pending_evolves [OF e t that]) (rule S)
  then show "project_row_ok X e s" using ok crawls unfolding project_row_ok_def by blast
qed

lemma project_ok_less: "project_ok X d \<Longrightarrow> project_ok {} d"
  by (auto simp: project_ok_def project_row_ok_def project_pending_def)

lemma project_ok_mark:
  assumes op: "base_op (\<lambda>j. JobID j = n) d e" and t: "tables_ok d" and d: "project_ok {n} d"
    and row: "project_setup_row e = project_setup_row d" "crawl_rows e = crawl_rows d"
  shows "project_ok {} e"
proof -
  have "project_ok {n} e"
    by (rule project_ok_frame [where S = "\<lambda>j. JobID j = n" and d = d])
      (use assms in \<open>auto simp: base_op_def crawl_pending_def\<close>)
  then show ?thesis by (rule project_ok_less)
qed

lemma project_ok_completed:
  assumes "tables_ok d" "project_ok {n} d"
  shows "project_ok {} (mark_ai_worker_job_completed n d)"
  by (rule project_ok_mark [OF base_op_completed [OF base_op_refl [OF assms(1)]] assms])
    (simp_all add: mark_ai_worker_job_completed_def)

lemma project_ok_failed:
  assumes "tables_ok d" "project_ok {n} d"
  shows "project_ok {} (mark_ai_worker_job_failed n m d)"
  by (rule project_ok_mark [OF base_op_failed [OF base_op_refl [OF assms(1)]] assms])
    (simp_all add: mark_ai_worker_job_failed_def)

text \<open>A setup that does not wait for the job's type does not wait for the job.\<close>

lemma project_ok_other_type:
  assumes "tables_ok d" "find_job n d = Some j" "project_ok {} d"
    "\<And>s t. project_setup_row d = Some s \<Longrightarrow> awaited_type (PsStatus s) = Some t \<Longrightarrow> \<not> project_job d t j"
  shows "project_ok {n} d"
proof (rule project_okI)
  fix s
  assume s: "project_setup_row d = Some s"
  then have ok: "project_row_ok {} d s" using assms(3) by (simp add: project_ok_def)
  have "project_pending {n} d t" if t: "awaited_type (PsStatus s) = Some t" for t
  proof -
    obtain k where k: "k \<in> set (ai_worker_jobs d)" "project_job d t k" "job_active k"
      using ok t by (auto simp: project_row_ok_def project_pending_def)
    have "JobID k \<noteq> n" using find_job_unique [OF assms(1,2) k(1)] assms(4) [OF s t] k(2) by blast
    then show ?thesis using k by (auto simp: project_pending_def)
  qed
  then show "project_row_ok {n} d s" using ok by (simp add: project_row_ok_def)
qed

section \<open>Statements\<close>

lemma project_pending_enqueue:
  assumes "\<And>x. x \<in> X \<Longrightarrow> x < next_id d"
  shows "project_pending X (enqueue_ai_worker_job t None d) t"
  using assms by (fastforce simp: project_pending_def enqueue_ai_worker_job_def project_job_def blank_job_def job_active_def)

lemma update_project_status_row:
  assumes "update_project_setup_status arg d = Some (s, e)"
  shows "\<exists>old. project_setup_row d = Some old \<and> PsStatus old = UpdExpected arg \<and> project_setup_row e = Some s
      \<and> PsStatus s = UpdStatus arg \<and> PsFailedStep s = (if UpdStatus arg = ProjectFailed then UpdFailedStep arg else None)
      \<and> PsCompletedAt s = (UpdStatus arg \<in> {ProjectCompleted, ProjectFailed})
      \<and> PsCrawlID s = coalesce (UpdCrawlID arg) (PsCrawlID old) \<and> e = d\<lparr>project_setup_row := Some s\<rparr>"
  using assms by (auto simp: update_project_setup_status_def Let_def split: option.splits if_splits)

lemma base_op_update_project:
  "base_op S d e \<Longrightarrow> update_project_setup_status arg e = Some (s, g) \<Longrightarrow> base_op S d g"
proof -
  assume e: "base_op S d e" and "update_project_setup_status arg e = Some (s, g)"
  then have "g = e\<lparr>project_setup_row := Some s\<rparr>" using update_project_status_row by blast
  then show ?thesis by (intro base_op_rows [OF e]) simp_all
qed

lemma project_shape_update:
  "update_project_setup_status arg d = Some (s, e) \<Longrightarrow> (UpdStatus arg = ProjectFailed \<Longrightarrow> UpdFailedStep arg \<noteq> None) \<Longrightarrow> project_shape s"
  using update_project_status_row [of arg d s e] by (auto simp: project_shape_def)

end
