(* ===== verification/ProjectPreserved.thy ===== *)
theory ProjectPreserved
  imports ProjectInvariant
begin

text \<open>The operations of the project setup and of its crawl keep the project invariant.\<close>

section \<open>Advancing\<close>

lemma awaited_type_inj: "awaited_type a = Some t \<Longrightarrow> awaited_type b = Some t \<Longrightarrow> a = b"
  by (cases a; cases b) (simp_all add: awaited_type_def)

lemma update_project_tables:
  assumes "update_project_setup_status arg d = Some (s, e)"
  shows "ai_worker_jobs e = ai_worker_jobs d" "next_id e = next_id d" "project_setup_row e = Some s"
    "crawl_rows e = crawl_rows d" "competitor_setup_rows e = competitor_setup_rows d" "used_audits e = used_audits d"
  using update_project_status_row [OF assms] by auto

lemma project_ok_advance:
  assumes u: "update_project_setup_status arg d = Some (s, e)" and t: "awaited_type (UpdStatus arg) = Some t"
    and X: "\<And>x. x \<in> X \<Longrightarrow> x < next_id d"
  shows "project_ok X (enqueue_ai_worker_job t None e)"
proof (rule project_okI)
  fix s'
  assume "project_setup_row (enqueue_ai_worker_job t None e) = Some s'"
  then have s': "s' = s" using update_project_tables(3) [OF u] by (simp add: enqueue_ai_worker_job_def)
  have st: "PsStatus s = UpdStatus arg" using update_project_status_row [OF u] by blast
  have "UpdStatus arg \<noteq> ProjectFailed" using t by (auto simp: awaited_type_def)
  then have "project_shape s" using project_shape_update [OF u] by blast
  moreover have "project_pending X (enqueue_ai_worker_job t None e) t"
    by (rule project_pending_enqueue) (use X update_project_tables(2) [OF u] in simp)
  moreover have "UpdStatus arg \<noteq> ProjectCrawling" using t by (auto simp: awaited_type_def)
  ultimately show "project_row_ok X (enqueue_ai_worker_job t None e) s'"
    using st t by (simp add: project_row_ok_def s')
qed

lemma project_ok_terminal:
  assumes u: "update_project_setup_status arg d = Some (s, e)" and t: "UpdStatus arg \<in> {ProjectCompleted, ProjectFailed}"
    and f: "UpdStatus arg = ProjectFailed \<Longrightarrow> UpdFailedStep arg \<noteq> None"
  shows "project_ok X e"
proof (rule project_okI)
  fix s'
  assume "project_setup_row e = Some s'"
  then have s': "s' = s" using update_project_tables(3) [OF u] by simp
  have "PsStatus s = UpdStatus arg" using update_project_status_row [OF u] by blast
  then show "project_row_ok X e s'"
    using project_shape_update [OF u f] t by (auto simp: project_row_ok_def s' awaited_type_def)
qed

section \<open>Settling the jobs\<close>

definition settles_project :: "nat \<Rightarrow> db \<Rightarrow> db \<Rightarrow> bool" where
  "settles_project n d e =
     (base_op (\<lambda>j. JobID j = n) d e \<and> project_ok {} e \<and> competitor_setup_rows e = competitor_setup_rows d
      \<and> crawl_rows e = crawl_rows d)"

lemma settles_project_completed:
  assumes "base_op (\<lambda>j. JobID j = n) d e" "project_ok {n} e" "competitor_setup_rows e = competitor_setup_rows d"
    "crawl_rows e = crawl_rows d"
  shows "settles_project n d (mark_ai_worker_job_completed n e)"
  using base_op_completed [OF assms(1)] project_ok_completed [OF base_op_tables [OF assms(1)] assms(2)] assms(3,4)
  by (simp add: settles_project_def mark_ai_worker_job_completed_def)

lemma settles_project_failed:
  assumes "base_op (\<lambda>j. JobID j = n) d e" "project_ok {n} e" "competitor_setup_rows e = competitor_setup_rows d"
    "crawl_rows e = crawl_rows d"
  shows "settles_project n d (mark_ai_worker_job_failed n m e)"
  using base_op_failed [OF assms(1)] project_ok_failed [OF base_op_tables [OF assms(1)] assms(2)] assms(3,4)
  by (simp add: settles_project_def mark_ai_worker_job_failed_def)

text \<open>The job \<open>n\<close> that is settled, in tables that satisfy the invariant.\<close>

definition settling :: "db \<Rightarrow> nat \<Rightarrow> job \<Rightarrow> bool" where
  "settling d n j = (tables_ok d \<and> find_job n d = Some j \<and> project_ok {} d)"

definition unawaited :: "db \<Rightarrow> job \<Rightarrow> bool" where
  "unawaited d j =
     (\<forall>s t. project_setup_row d = Some s \<longrightarrow> awaited_type (PsStatus s) = Some t \<longrightarrow> \<not> project_job d t j)"

lemma settling_below: "settling d n j \<Longrightarrow> x \<in> {n} \<Longrightarrow> x < next_id d"
  using find_job_below by (simp add: settling_def)

lemma settling_refl: "settling d n j \<Longrightarrow> base_op (\<lambda>j. JobID j = n) d d"
  by (simp add: settling_def base_op_refl)

lemma settling_unawaited: "settling d n j \<Longrightarrow> unawaited d j \<Longrightarrow> project_ok {n} d"
  using project_ok_other_type by (simp add: settling_def unawaited_def)

lemma unawaited_completed: "settling d n j \<Longrightarrow> unawaited d j \<Longrightarrow> settles_project n d (mark_ai_worker_job_completed n d)"
  by (intro settles_project_completed settling_refl settling_unawaited) auto

lemma unawaited_failed: "settling d n j \<Longrightarrow> unawaited d j \<Longrightarrow> settles_project n d (mark_ai_worker_job_failed n m d)"
  by (intro settles_project_failed settling_refl settling_unawaited) auto

lemma unawaited_none: "project_setup_row d = None \<Longrightarrow> unawaited d j"
  by (simp add: unawaited_def)

lemma unawaited_status:
  assumes "awaited_type st = Some (JobType j)" "project_setup_row d = Some s" "PsStatus s \<noteq> st"
  shows "unawaited d j"
  using awaited_type_inj [OF _ assms(1)] assms(2,3) by (auto simp: unawaited_def project_job_def)

lemma settles_advance:
  assumes c: "settling d n j" and u: "update_project_setup_status arg d = Some (s, e)"
    and t: "awaited_type (UpdStatus arg) = Some t"
  shows "settles_project n d (mark_ai_worker_job_completed n (enqueue_ai_worker_job t None e))"
proof (rule settles_project_completed)
  show "base_op (\<lambda>j. JobID j = n) d (enqueue_ai_worker_job t None e)"
    by (intro base_op_enqueue_plain base_op_update_project [OF settling_refl [OF c] u])
  show "project_ok {n} (enqueue_ai_worker_job t None e)" by (rule project_ok_advance [OF u t settling_below [OF c]])
qed (simp_all add: enqueue_ai_worker_job_def update_project_tables [OF u])

lemma settles_terminal:
  assumes c: "settling d n j" and u: "update_project_setup_status arg d = Some (s, e)"
    and t: "UpdStatus arg \<in> {ProjectCompleted, ProjectFailed}" "UpdStatus arg = ProjectFailed \<Longrightarrow> UpdFailedStep arg \<noteq> None"
  shows "settles_project n d (mark_ai_worker_job_completed n e)" "settles_project n d (mark_ai_worker_job_failed n m e)"
  by (intro settles_project_completed settles_project_failed base_op_update_project [OF settling_refl [OF c] u]
      project_ok_terminal [OF u t]; simp add: update_project_tables [OF u])+

text \<open>An update that names the row's status is carried out.\<close>

lemma update_matches:
  assumes "project_setup_row d = Some s" "PsStatus s = UpdExpected arg"
  obtains s' e where "update_project_setup_status arg d = Some (s', e)"
  using assms by (auto simp: update_project_setup_status_def Let_def)

lemma transition_fields [simp]:
  "UpdStatus (transition a b) = a" "UpdExpected (transition a b) = b" "UpdFailedStep (transition a b) = None"
  by (simp_all add: transition_def)

lemma settles_bootstrap_success:
  assumes c: "settling d n j" and type: "JobType j = BusinessProfileBootstrapJob"
  shows "settles_project n d (finalize_bootstrap_success n d)"
proof (cases "\<exists>s. project_setup_row d = Some s \<and> PsStatus s = ProjectProfileGeneration")
  case True
  then obtain s where s: "project_setup_row d = Some s" "PsStatus s = ProjectProfileGeneration" by blast
  obtain s' e where u: "update_project_setup_status (transition ProjectKeywordAnalysis ProjectProfileGeneration) d = Some (s', e)"
    by (rule update_matches [OF s(1)]) (auto simp: s(2))
  show ?thesis using settles_advance [OF c u, of KeywordAnalysisJob]
    by (simp add: finalize_bootstrap_success_def s u awaited_type_def)
next
  case False
  then have "unawaited d j"
    using unawaited_status [of ProjectProfileGeneration j d] unawaited_none
    by (cases "project_setup_row d") (auto simp: type awaited_type_def)
  then show ?thesis using unawaited_completed [OF c] False
    by (auto simp: finalize_bootstrap_success_def split: option.splits)
qed

lemma settles_keyword_analysis_success:
  assumes c: "settling d n j" and type: "JobType j = KeywordAnalysisJob"
  shows "settles_project n d (finalize_keyword_analysis_success n d)"
proof (cases "\<exists>s. project_setup_row d = Some s \<and> PsStatus s = ProjectKeywordAnalysis")
  case True
  then obtain s where s: "project_setup_row d = Some s" "PsStatus s = ProjectKeywordAnalysis" by blast
  obtain s' e where u: "update_project_setup_status (transition ProjectPromptGeneration ProjectKeywordAnalysis) d = Some (s', e)"
    by (rule update_matches [OF s(1)]) (auto simp: s(2))
  show ?thesis using settles_advance [OF c u, of PromptGenerationJob]
    by (simp add: finalize_keyword_analysis_success_def s u awaited_type_def)
next
  case False
  then have "unawaited d j"
    using unawaited_status [of ProjectKeywordAnalysis j d] unawaited_none
    by (cases "project_setup_row d") (auto simp: type awaited_type_def)
  then show ?thesis using unawaited_completed [OF c] False
    by (auto simp: finalize_keyword_analysis_success_def split: option.splits)
qed

lemma settles_visibility_success:
  assumes c: "settling d n j" and type: "JobType j = VisibilityRunJob"
  shows "settles_project n d (finalize_visibility_success n vis d)"
proof (cases "\<exists>s. project_setup_row d = Some s \<and> PsStatus s = ProjectVisibility")
  case True
  then obtain s where s: "project_setup_row d = Some s" "PsStatus s = ProjectVisibility" by blast
  define arg where "arg = (if vis = AuditFailed
     then (transition ProjectFailed ProjectVisibility)\<lparr>UpdError := Some ''visibility audit failed'', UpdFailedStep := Some StepVisibility\<rparr>
     else transition ProjectCompleted ProjectVisibility)"
  obtain s' e where u: "update_project_setup_status arg d = Some (s', e)"
    by (rule update_matches [OF s(1)]) (auto simp: s(2) arg_def transition_def)
  have "settles_project n d (mark_ai_worker_job_completed n e)"
    by (rule settles_terminal(1) [OF c u]) (auto simp: arg_def transition_def split: if_splits)
  then show ?thesis using u by (simp add: finalize_visibility_success_def s Let_def flip: arg_def)
next
  case False
  then have "unawaited d j"
    using unawaited_status [of ProjectVisibility j d] unawaited_none
    by (cases "project_setup_row d") (auto simp: type awaited_type_def)
  then show ?thesis using unawaited_completed [OF c] False
    by (auto simp: finalize_visibility_success_def split: option.splits)
qed

section \<open>Prompts and the visibility audit\<close>

lemma settles_skip:
  assumes c: "settling d n j" and s: "project_setup_row d = Some s" "PsStatus s = ProjectPromptGeneration"
  shows "settles_project n d (complete_setup_with_visibility_skip n reason d)"
proof -
  define arg where "arg = (transition ProjectCompleted ProjectPromptGeneration)\<lparr>UpdSkipReason := Some reason\<rparr>"
  obtain s' e where u: "update_project_setup_status arg d = Some (s', e)"
    by (rule update_matches [OF s(1)]) (auto simp: s(2) arg_def transition_def)
  have "settles_project n d (mark_ai_worker_job_completed n e)"
    by (rule settles_terminal(1) [OF c u]) (auto simp: arg_def transition_def)
  then show ?thesis using u by (simp add: complete_setup_with_visibility_skip_def flip: arg_def)
qed

lemma reserve_audit_tables:
  assumes "reserve_ai_workspace_monthly_audit limit d = Some e"
  shows "e = d\<lparr>used_audits := used_audits d + 1\<rparr>" "used_audits d < limit"
  using assms by (auto simp: reserve_ai_workspace_monthly_audit_def split: if_splits)

lemma fail_active_audits_tables [simp]:
  "ai_worker_jobs (fail_active_ai_audits_for_crawl c d) = ai_worker_jobs d"
  "next_id (fail_active_ai_audits_for_crawl c d) = next_id d"
  "project_setup_row (fail_active_ai_audits_for_crawl c d) = project_setup_row d"
  "competitor_setup_rows (fail_active_ai_audits_for_crawl c d) = competitor_setup_rows d"
  "crawl_rows (fail_active_ai_audits_for_crawl c d) = crawl_rows d"
  by (simp_all add: fail_active_ai_audits_for_crawl_def)

lemma settles_start_audit:
  assumes c: "settling d n j" and s: "project_setup_row d = Some s" "PsStatus s = ProjectPromptGeneration"
    and r: "reserve_ai_workspace_monthly_audit limit d = Some d1"
    and a: "create_ai_audit crawl None sid (fail_active_ai_audits_for_crawl crawl' d1) = Inr (a, d3)"
    and u: "update_project_setup_status (transition ProjectVisibility ProjectPromptGeneration)
              (enqueue_ai_worker_job VisibilityRunJob (Some a) d3) = Some (s', e)"
  shows "settles_project n d (mark_ai_worker_job_completed n e)"
proof (rule settles_project_completed)
  let ?d2 = "fail_active_ai_audits_for_crawl crawl' d1" and ?d4 = "enqueue_ai_worker_job VisibilityRunJob (Some a) d3"
  note d1 = reserve_audit_tables(1) [OF r] and d3 = create_ai_audit_scope [OF a] and e = update_project_tables [OF u]
  have op1: "base_op (\<lambda>j. JobID j = n) d d1" by (rule base_op_rows [OF settling_refl [OF c]]) (simp_all add: d1)
  then have op2: "base_op (\<lambda>j. JobID j = n) d ?d2" unfolding fail_active_ai_audits_for_crawl_def by (rule base_op_fail_audits)
  show "base_op (\<lambda>j. JobID j = n) d e" by (rule base_op_update_project [OF base_op_enqueue_audit [OF op2 a] u])
  show "competitor_setup_rows e = competitor_setup_rows d" "crawl_rows e = crawl_rows d"
    using d3 by (simp_all add: e enqueue_ai_worker_job_def d1)
  have scope: "audit_scope a e = Some None"
  proof -
    have "e = ?d4\<lparr>project_setup_row := Some s'\<rparr>" using update_project_status_row [OF u] by blast
    then show ?thesis using create_ai_audit_new_scope [OF a base_op_tables [OF op2]]
      by (simp add: audit_scope_def find_audit_def enqueue_ai_worker_job_def)
  qed
  have "next_id d3 = Suc (next_id d)" using d3 by (simp add: d1)
  then have "project_pending {n} e VisibilityRunJob"
    using scope settling_below [OF c, of n] unfolding project_pending_def e(1)
    by (intro bexI [where x = "blank_job\<lparr>JobType := VisibilityRunJob, JobAudit := Some a, JobID := next_id d3\<rparr>"])
      (auto simp: enqueue_ai_worker_job_def project_job_def blank_job_def job_active_def)
  moreover have "PsStatus s' = ProjectVisibility" using update_project_status_row [OF u] by auto
  ultimately show "project_ok {n} e"
    using project_shape_update [OF u] by (simp add: project_ok_def e(3) project_row_ok_def awaited_type_def)
qed

lemma settles_prompt_generation_success:
  assumes c: "settling d n j" and type: "JobType j = PromptGenerationJob" and e: "finalize_prompt_generation_success n d = Inr e"
  shows "settles_project n d e"
proof (cases "\<exists>s. project_setup_row d = Some s \<and> PsStatus s = ProjectPromptGeneration")
  case True
  then obtain s where s: "project_setup_row d = Some s" "PsStatus s = ProjectPromptGeneration" by blast
  obtain limit where limit: "features_audit_limit (PsRequestedBy s) d = Some limit"
    using e by (auto simp: finalize_prompt_generation_success_def s split: option.splits)
  show ?thesis
  proof (cases "limit \<le> 0 \<or> reserve_ai_workspace_monthly_audit limit d = None")
    case True
    then show ?thesis using e settles_skip [OF c s]
      by (auto simp: finalize_prompt_generation_success_def s limit split: if_splits)
  next
    case False
    then obtain d1 where r: "reserve_ai_workspace_monthly_audit limit d = Some d1" by auto
    let ?d2 = "fail_active_ai_audits_for_crawl (PsCrawlID s) d1"
    obtain a d3 where a: "create_ai_audit (PsCrawlID s) None (Some (PsID s)) ?d2 = Inr (a, d3)"
      using e False by (auto simp: finalize_prompt_generation_success_def s limit r Let_def)
    have "project_setup_row (enqueue_ai_worker_job VisibilityRunJob (Some a) d3) = Some s"
      using create_ai_audit_scope [OF a] by (simp add: enqueue_ai_worker_job_def reserve_audit_tables(1) [OF r] s(1))
    then obtain s' g where u: "update_project_setup_status (transition ProjectVisibility ProjectPromptGeneration)
        (enqueue_ai_worker_job VisibilityRunJob (Some a) d3) = Some (s', g)"
      by (rule update_matches [where arg = "transition ProjectVisibility ProjectPromptGeneration"]) (auto simp: s(2))
    have "e = mark_ai_worker_job_completed n g"
      using e False by (simp add: finalize_prompt_generation_success_def s limit r Let_def a u)
    then show ?thesis using settles_start_audit [OF c s r a u] by simp
  qed
next
  case False
  then have "unawaited d j"
    using unawaited_status [of ProjectPromptGeneration j d] unawaited_none
    by (cases "project_setup_row d") (auto simp: type awaited_type_def)
  then show ?thesis using unawaited_completed [OF c] False e
    by (auto simp: finalize_prompt_generation_success_def split: option.splits)
qed

section \<open>Failures\<close>

lemma update_mark_failed:
  "update_project_setup_status arg (mark_ai_worker_job_failed n m d)
     = map_option (\<lambda>(s, e). (s, mark_ai_worker_job_failed n m e)) (update_project_setup_status arg d)"
  by (auto simp: update_project_setup_status_def Let_def mark_ai_worker_job_failed_def set_job_def split: option.splits)

lemma settles_failure:
  assumes c: "settling d n j" and type: "awaited_type st = Some (JobType j)"
  shows "settles_project n d (fail_setup_at_step st step message (mark_job_failed n message d))"
proof (cases "\<exists>s. project_setup_row d = Some s \<and> PsStatus s = st")
  case True
  then obtain s where s: "project_setup_row d = Some s" "PsStatus s = st" by blast
  define arg where "arg = (transition ProjectFailed st)\<lparr>UpdError := pgnull_text (cap_setup_error_message message), UpdFailedStep := Some step\<rparr>"
  obtain s' e where u: "update_project_setup_status arg d = Some (s', e)"
    by (rule update_matches [OF s(1)]) (auto simp: s(2) arg_def transition_def)
  have "settles_project n d (mark_ai_worker_job_failed n m e)" for m
    by (rule settles_terminal(2) [OF c u]) (auto simp: arg_def transition_def)
  then show ?thesis using u by (simp add: fail_setup_at_step_def mark_job_failed_def update_mark_failed flip: arg_def)
next
  case False
  then have "unawaited d j"
    using unawaited_status [OF type, of d] unawaited_none by (cases "project_setup_row d") auto
  moreover have "update_project_setup_status arg d = None" if "UpdExpected arg = st" for arg
    using False that by (auto simp: update_project_setup_status_def Let_def split: option.splits)
  then have "fail_setup_at_step st step message (mark_job_failed n message d) = mark_job_failed n message d"
    by (simp add: fail_setup_at_step_def mark_job_failed_def update_mark_failed)
  ultimately show ?thesis using unawaited_failed [OF c] by (simp add: mark_job_failed_def)
qed

lemmas settles_failures =
  settles_failure [where st = ProjectProfileGeneration and step = StepProfileGeneration, folded finalize_bootstrap_failure_def]
  settles_failure [where st = ProjectKeywordAnalysis and step = StepProjectKeywordAnalysis, folded finalize_keyword_analysis_failure_def]
  settles_failure [where st = ProjectPromptGeneration and step = StepPromptGeneration, folded finalize_prompt_generation_failure_def]
  settles_failure [where st = ProjectVisibility and step = StepVisibility, folded finalize_visibility_failure_def]

end
