(* ===== verification/ProjectCrawls.thy ===== *)
theory ProjectCrawls
  imports ProjectPreserved
begin

text \<open>Starting and resuming the project setup, and the terminal events of its crawl.\<close>

section \<open>Start and resume\<close>

definition project_op :: "db \<Rightarrow> db \<Rightarrow> bool" where
  "project_op d e =
     (base_op (\<lambda>_. False) d e \<and> project_ok {} e \<and> competitor_setup_rows e = competitor_setup_rows d)"

lemma project_opI:
  "base_op (\<lambda>_. False) d e \<Longrightarrow> project_ok {} e \<Longrightarrow> competitor_setup_rows e = competitor_setup_rows d \<Longrightarrow> project_op d e"
  by (simp add: project_op_def)

lemma project_op_refl: "tables_ok d \<Longrightarrow> project_ok {} d \<Longrightarrow> project_op d d"
  by (simp add: project_op_def base_op_refl)

lemma base_op_insert_crawl:
  assumes "base_op S d e"
  shows "base_op S d (e\<lparr>crawl_rows := crawl_rows e @ [c\<lparr>CrawlRowID := next_id e\<rparr>], next_id := Suc (next_id e)\<rparr>)"
proof (rule base_op_grow [OF assms])
  have "tables_ok e" by (rule base_op_tables [OF assms])
  then show "distinct (map CrawlRowID (crawl_rows (e\<lparr>crawl_rows := crawl_rows e @ [c\<lparr>CrawlRowID := next_id e\<rparr>], next_id := Suc (next_id e)\<rparr>)))"
    "\<forall>x \<in> set (crawl_rows (e\<lparr>crawl_rows := crawl_rows e @ [c\<lparr>CrawlRowID := next_id e\<rparr>], next_id := Suc (next_id e)\<rparr>)).
      CrawlRowID x < next_id (e\<lparr>crawl_rows := crawl_rows e @ [c\<lparr>CrawlRowID := next_id e\<rparr>], next_id := Suc (next_id e)\<rparr>)"
    by (auto simp: tables_ok_def less_SucI)
qed simp_all

lemma insert_queued_crawl_effect:
  assumes "insert_queued_crawl d = Inr (i, e)"
  shows "base_op S d d \<Longrightarrow> base_op S d e" "crawl_pending e i" "\<And>c. crawl_pending d c \<Longrightarrow> crawl_pending e c"
    "project_setup_row e = project_setup_row d" "competitor_setup_rows e = competitor_setup_rows d"
    "ai_worker_jobs e = ai_worker_jobs d" "i = next_id d"
  using assms base_op_insert_crawl [of S d d "\<lparr>CrawlRowID = 0, CrawlParent = None, CrawlCompetitor = None,
          CrawlStatus = CrawlQueued, CrawlManualLike = True, CrawlPageCount = 0\<rparr>"]
  by (auto simp: insert_queued_crawl_def crawl_pending_def crawl_active_def)

lemma project_ok_frame_empty:
  assumes "evolves (\<lambda>_. False) d e" "tables_ok d" "project_ok {} d" "project_setup_row e = project_setup_row d"
    "\<And>c. crawl_pending d c \<Longrightarrow> crawl_pending e c"
  shows "project_ok {} e"
  by (rule project_ok_frame [OF assms]) auto

lemma project_op_insert_crawl:
  assumes "tables_ok d" "project_ok {} d" "insert_queued_crawl d = Inr (i, e)"
  shows "project_op d e"
proof (rule project_opI)
  note e = insert_queued_crawl_effect [OF assms(3)]
  show op: "base_op (\<lambda>_. False) d e" by (rule e(1) [OF base_op_refl [OF assms(1)]])
  show "project_ok {} e"
    by (rule project_ok_frame_empty [OF _ assms(1,2) e(4)]) (use op e(3) in \<open>auto simp: base_op_def\<close>)
qed (rule insert_queued_crawl_effect(5) [OF assms(3)])

text \<open>A row that waits for a queued crawl.\<close>

lemma project_ok_crawling:
  assumes "project_setup_row d = Some s" "PsStatus s = ProjectCrawling" "PsCrawlID s = Some c" "crawl_pending d c" "project_shape s"
  shows "project_ok X d"
  using assms by (auto simp: project_ok_def project_row_ok_def awaited_type_def)

lemma project_op_resume:
  assumes t: "tables_ok d" and e: "resume_setup user st (Some jt) None d = Inr (s, e)" and st: "awaited_type st = Some jt"
  shows "project_op d e"
proof -
  define arg where "arg = \<lparr>UpdStatus = st, UpdRequestedBy = Some user, UpdError = None, UpdFailedStep = None,
    UpdSkipReason = None, UpdCrawlID = None, UpdExpected = ProjectFailed\<rparr>"
  obtain s' g where u: "update_project_setup_status arg d = Some (s', g)" and e: "e = enqueue_ai_worker_job jt None g"
    using e by (auto simp: resume_setup_def arg_def split: option.splits)
  show ?thesis
  proof (rule project_opI)
    show "base_op (\<lambda>_. False) d e" unfolding e
      by (intro base_op_enqueue_plain base_op_update_project [OF base_op_refl [OF t] u])
    show "project_ok {} e" unfolding e by (rule project_ok_advance [OF u]) (simp_all add: arg_def st)
  qed (simp add: e enqueue_ai_worker_job_def update_project_tables [OF u])
qed

lemma project_op_resume_crawl:
  assumes t: "tables_ok d" and c: "insert_queued_crawl d = Inr (i, d1)"
    and e: "resume_setup user ProjectCrawling None (Some i) d1 = Inr (s, e)"
  shows "project_op d e"
proof -
  define arg where "arg = \<lparr>UpdStatus = ProjectCrawling, UpdRequestedBy = Some user, UpdError = None, UpdFailedStep = None,
    UpdSkipReason = None, UpdCrawlID = Some i, UpdExpected = ProjectFailed\<rparr>"
  have u: "update_project_setup_status arg d1 = Some (s, e)"
    using e by (auto simp: resume_setup_def arg_def split: option.splits)
  note d1 = insert_queued_crawl_effect [OF c] and row = update_project_status_row [OF u]
  show ?thesis
  proof (rule project_opI)
    show "base_op (\<lambda>_. False) d e" by (rule base_op_update_project [OF d1(1) [OF base_op_refl [OF t]] u])
    have "PsStatus s = ProjectCrawling" "PsCrawlID s = Some i" using row by (auto simp: arg_def coalesce_def)
    moreover have "project_shape s" by (rule project_shape_update [OF u]) (simp add: arg_def)
    moreover have "crawl_pending e i" using d1(2) by (simp add: crawl_pending_def update_project_tables [OF u])
    ultimately show "project_ok {} e" by (intro project_ok_crawling [OF update_project_tables(3) [OF u]])
  qed (simp add: update_project_tables [OF u] d1)
qed

lemma project_op_start:
  assumes t: "tables_ok d" "project_ok {} d" and e: "start_or_resume user insert_queued_crawl d = Inr (ps, b, e)"
  shows "project_op d e"
proof -
  obtain s where s: "project_setup_row d = Some s" using e by (auto simp: start_or_resume_def split: option.splits)
  show ?thesis
  proof (cases "PsStatus s = ProjectReady")
    case True
    obtain i d1 where c: "insert_queued_crawl d = Inr (i, d1)" and u: "start_project_setup user i d1 = Some (ps, e)"
      using e by (auto simp: start_or_resume_def s True split: option.splits)
    note d1 = insert_queued_crawl_effect [OF c]
    have row: "e = d1\<lparr>project_setup_row := Some ps\<rparr>" "PsStatus ps = ProjectCrawling" "PsCrawlID ps = Some i" "project_shape ps"
      using u by (auto simp: start_project_setup_def Let_def project_shape_def split: option.splits if_splits)
    show ?thesis
    proof (rule project_opI)
      show "base_op (\<lambda>_. False) d e" by (rule base_op_rows [OF d1(1) [OF base_op_refl [OF t(1)]]]) (simp_all add: row)
      show "project_ok {} e"
        by (rule project_ok_crawling [of _ ps i]) (use row d1(2) in \<open>simp_all add: crawl_pending_def\<close>)
    qed (simp add: row d1)
  next
    case False
    show ?thesis
    proof (cases "PsStatus s = ProjectFailed")
      case True
      then obtain ps' where r: "resume_failed_setup user insert_queued_crawl s d = Inr (ps', e)"
        using e by (auto simp: start_or_resume_def s)
      then show ?thesis
        using project_op_resume [OF t(1)] project_op_resume_crawl [OF t(1)]
        by (auto simp: resume_failed_setup_def awaited_type_def split: option.splits project_step.splits)
    next
      case other: False
      then have "e = d" using e False by (auto simp: start_or_resume_def s split: project_status.splits)
      then show ?thesis using project_op_refl t by simp
    qed
  qed
qed

lemma project_op_create: "tables_ok d \<Longrightarrow> project_ok {} d \<Longrightarrow> project_op d (create_project_setup user d)"
proof (cases "project_setup_row d")
  case None
  assume t: "tables_ok d" "project_ok {} d"
  show ?thesis
  proof (rule project_opI)
    show "base_op (\<lambda>_. False) d (create_project_setup user d)"
      by (rule base_op_grow [OF base_op_refl [OF t(1)]])
        (use t(1) in \<open>auto simp: create_project_setup_def None tables_ok_def less_SucI\<close>)
  qed (simp_all add: create_project_setup_def None project_ok_def project_row_ok_def project_shape_def awaited_type_def)
qed (simp add: create_project_setup_def project_op_refl)

lemma project_op_enqueue: "tables_ok d \<Longrightarrow> project_ok {} d \<Longrightarrow> project_op d (enqueue_ai_worker_job t None d)"
proof (rule project_opI)
  assume t: "tables_ok d" "project_ok {} d"
  show op: "base_op (\<lambda>_. False) d (enqueue_ai_worker_job t None d)" by (rule base_op_enqueue_plain [OF base_op_refl [OF t(1)]])
  show "project_ok {} (enqueue_ai_worker_job t None d)"
    by (rule project_ok_frame_empty [OF _ t]) (use op in \<open>auto simp: base_op_def enqueue_ai_worker_job_def crawl_pending_def\<close>)
qed (simp add: enqueue_ai_worker_job_def)

lemma project_op_manual_audit:
  assumes t: "tables_ok d" "project_ok {} d" and e: "create_manual_audit crawl location user d = Inr e"
  shows "project_op d e"
proof -
  obtain limit d1 a d2 where r: "reserve_ai_workspace_monthly_audit limit d = Some d1"
    and a: "create_ai_audit crawl location None d1 = Inr (a, d2)" and e: "e = enqueue_ai_worker_job VisibilityRunJob (Some a) d2"
    using e by (auto simp: create_manual_audit_def split: option.splits)
  note d1 = reserve_audit_tables(1) [OF r] and d2 = create_ai_audit_scope [OF a]
  have "base_op (\<lambda>_. False) d d1" by (rule base_op_rows [OF base_op_refl [OF t(1)]]) (simp_all add: d1)
  then have op: "base_op (\<lambda>_. False) d e" unfolding e by (rule base_op_enqueue_audit [OF _ a])
  show ?thesis
  proof (rule project_opI [OF op])
    show "project_ok {} e"
      by (rule project_ok_frame_empty [OF _ t]) (use op d2 in \<open>auto simp: base_op_def e enqueue_ai_worker_job_def crawl_pending_def d1\<close>)
  qed (use d2 in \<open>simp add: e enqueue_ai_worker_job_def d1\<close>)
qed

section \<open>The crawl's events\<close>

lemma set_crawl_unchanged:
  assumes "set_crawl P f d = (b, e)" "\<not> b"
  shows "e = d"
proof -
  have "map (\<lambda>c. if P c then f c else c) (crawl_rows d) = crawl_rows d"
    by (rule map_idI) (use assms in \<open>auto simp: set_crawl_def list_ex_iff\<close>)
  then show ?thesis using assms(1) by (simp add: set_crawl_def)
qed

lemma base_op_set_crawl:
  assumes "base_op S d e" "set_crawl P f e = (b, g)" "\<And>c. CrawlRowID (f c) = CrawlRowID c"
  shows "base_op S d g"
  by (rule base_op_rows [OF assms(1)]) (use assms(2,3) in \<open>auto simp: set_crawl_def\<close>)

lemma set_crawl_rows:
  assumes "set_crawl P f d = (b, e)"
  shows "project_setup_row e = project_setup_row d" "competitor_setup_rows e = competitor_setup_rows d"
    "ai_worker_jobs e = ai_worker_jobs d" "next_id e = next_id d"
    "project_pending X e t = project_pending X d t"
  using assms by (auto simp: set_crawl_def project_pending_def project_job_def audit_scope_def find_audit_def)

lemma set_crawl_pending:
  assumes "set_crawl (\<lambda>c. CrawlRowID c = i \<and> Q c) f d = (b, e)" "crawl_pending d c" "c \<noteq> i"
  shows "crawl_pending e c"
proof -
  obtain r where r: "r \<in> set (crawl_rows d)" "CrawlRowID r = c" "crawl_active r" using assms(2) by (auto simp: crawl_pending_def)
  then have "r \<in> set (crawl_rows e)"
    using assms(1,3) by (auto simp: set_crawl_def intro!: image_eqI [where x = r])
  then show ?thesis using r by (auto simp: crawl_pending_def)
qed

lemma project_shape_advance:
  "project_shape (s\<lparr>PsStatus := ProjectProfileGeneration, PsError := None, PsFailedStep := None, PsCompletedAt := False\<rparr>)"
  "project_shape (s\<lparr>PsStatus := ProjectFailed, PsError := m, PsFailedStep := Some k, PsCompletedAt := True\<rparr>)"
  by (simp_all add: project_shape_def)

lemma advance_effect:
  assumes "advance_project_setup_from_crawling i st m k d = Some (s, e)"
  shows "e = d\<lparr>project_setup_row := Some s\<rparr>" "PsStatus s = st" "PsFailedStep s = k"
    "PsCompletedAt s = (st \<in> {ProjectCompleted, ProjectFailed})"
  using assms by (auto simp: advance_project_setup_from_crawling_def Let_def split: option.splits if_splits)

lemma advance_none:
  "advance_project_setup_from_crawling i st m k d = None \<longleftrightarrow>
     (\<forall>s. project_setup_row d = Some s \<longrightarrow> PsCrawlID s \<noteq> Some i \<or> PsStatus s \<noteq> ProjectCrawling)"
  by (auto simp: advance_project_setup_from_crawling_def Let_def split: option.splits)

text \<open>The crawl \<open>i\<close> ends: unless the setup waits for it, the invariant is kept as it is.\<close>

lemma project_ok_crawl_ends:
  assumes t: "tables_ok d" "project_ok {} d" and c: "set_crawl (\<lambda>c. CrawlRowID c = i \<and> Q c) f d = (b, e)"
    and "\<And>s. project_setup_row d = Some s \<Longrightarrow> PsCrawlID s \<noteq> Some i \<or> PsStatus s \<noteq> ProjectCrawling"
  shows "project_ok {} e"
proof (rule project_okI)
  fix s
  assume "project_setup_row e = Some s"
  then have s: "project_setup_row d = Some s" using set_crawl_rows(1) [OF c] by simp
  then have ok: "project_row_ok {} d s" using t(2) by (simp add: project_ok_def)
  show "project_row_ok {} e s"
    using ok assms(4) [OF s] set_crawl_pending [OF c] set_crawl_rows(5) [OF c] by (auto simp: project_row_ok_def)
qed

lemma project_op_completed_event:
  assumes t: "tables_ok d" "project_ok {} d" and c: "set_crawl (\<lambda>c. CrawlRowID c = i \<and> Q c) f d = (b, d1)"
    and f: "\<And>c. CrawlRowID (f c) = CrawlRowID c"
  shows "project_op d (on_crawl_completed i d1)"
proof -
  have op: "base_op (\<lambda>_. False) d d1" by (rule base_op_set_crawl [OF base_op_refl [OF t(1)] c f])
  show ?thesis
  proof (cases "advance_project_setup_from_crawling i ProjectProfileGeneration None None d1")
    case None
    then have "project_ok {} d1"
      by (intro project_ok_crawl_ends [OF t c]) (simp add: advance_none set_crawl_rows [OF c])
    then show ?thesis using op None set_crawl_rows(2) [OF c] by (simp add: on_crawl_completed_def project_op_def)
  next
    case (Some se)
    then obtain s e where a: "advance_project_setup_from_crawling i ProjectProfileGeneration None None d1 = Some (s, e)"
      by (cases se) simp
    note e = advance_effect [OF a]
    show ?thesis unfolding on_crawl_completed_def a option.case prod.case
    proof (rule project_opI)
      show "base_op (\<lambda>_. False) d (enqueue_ai_worker_job BusinessProfileBootstrapJob None e)"
        by (intro base_op_enqueue_plain base_op_rows [OF op]) (simp_all add: e)
      have "project_pending {} (enqueue_ai_worker_job BusinessProfileBootstrapJob None e) BusinessProfileBootstrapJob"
        by (rule project_pending_enqueue) simp
      then show "project_ok {} (enqueue_ai_worker_job BusinessProfileBootstrapJob None e)"
        using e by (simp add: project_ok_def enqueue_ai_worker_job_def project_row_ok_def project_shape_def awaited_type_def)
    qed (simp add: enqueue_ai_worker_job_def e set_crawl_rows [OF c])
  qed
qed

lemma project_op_failed_event:
  assumes t: "tables_ok d" "project_ok {} d" and c: "set_crawl (\<lambda>c. CrawlRowID c = i \<and> Q c) f d = (b, d1)"
    and f: "\<And>c. CrawlRowID (f c) = CrawlRowID c"
  shows "project_op d (on_crawl_failed i m d1)"
proof -
  let ?m = "pgnull_text (cap_setup_error_message m)"
  have op: "base_op (\<lambda>_. False) d d1" by (rule base_op_set_crawl [OF base_op_refl [OF t(1)] c f])
  show ?thesis
  proof (cases "advance_project_setup_from_crawling i ProjectFailed ?m (Some StepCrawling) d1")
    case None
    then have "project_ok {} d1"
      by (intro project_ok_crawl_ends [OF t c]) (simp add: advance_none set_crawl_rows [OF c])
    then show ?thesis using op None set_crawl_rows(2) [OF c] by (simp add: on_crawl_failed_def project_op_def)
  next
    case (Some se)
    then obtain s e where a: "advance_project_setup_from_crawling i ProjectFailed ?m (Some StepCrawling) d1 = Some (s, e)"
      by (cases se) simp
    note e = advance_effect [OF a]
    show ?thesis unfolding on_crawl_failed_def a option.case prod.case
    proof (rule project_opI)
      show "base_op (\<lambda>_. False) d e" by (rule base_op_rows [OF op]) (simp_all add: e)
      show "project_ok {} e" using e by (simp add: project_ok_def project_row_ok_def project_shape_def awaited_type_def)
    qed (simp add: e set_crawl_rows [OF c])
  qed
qed

lemma project_op_crawl_completed:
  assumes t: "tables_ok d" "project_ok {} d"
  shows "project_op d (mark_crawl_completed i pages d)"
proof -
  obtain b d1 where c: "set_crawl (\<lambda>c. CrawlRowID c = i \<and> CrawlStatus c = CrawlRunning)
     (\<lambda>c. c\<lparr>CrawlStatus := CrawlCompleted, CrawlPageCount := pages\<rparr>) d = (b, d1)" by fastforce
  show ?thesis
    using project_op_completed_event [OF t c] set_crawl_unchanged [OF c] c project_op_refl [OF t]
    by (auto simp: mark_crawl_completed_def Let_def)
qed

lemma project_op_crawl_failed:
  assumes t: "tables_ok d" "project_ok {} d"
  shows "project_op d (mark_crawl_failed i m d)"
proof -
  obtain b d1 where c: "set_crawl (\<lambda>c. CrawlRowID c = i \<and> CrawlStatus c = CrawlRunning)
     (\<lambda>c. c\<lparr>CrawlStatus := CrawlFailed\<rparr>) d = (b, d1)" by fastforce
  show ?thesis
    using project_op_failed_event [OF t c] set_crawl_unchanged [OF c] c project_op_refl [OF t]
    by (auto simp: mark_crawl_failed_def Let_def)
qed

lemma project_op_cancel_crawl:
  assumes t: "tables_ok d" "project_ok {} d" and e: "cancel_crawl i d = Inr e"
  shows "project_op d e"
proof -
  obtain b d1 where c: "set_crawl (\<lambda>c. CrawlRowID c = i \<and> crawl_active c) (\<lambda>c. c\<lparr>CrawlStatus := CrawlCancelled\<rparr>) d = (b, d1)"
    by fastforce
  then have "e = on_crawl_failed i ''crawl cancelled'' d1"
    using e by (auto simp: cancel_crawl_def Let_def split: if_splits)
  then show ?thesis using project_op_failed_event [OF t c] by simp
qed

lemma project_op_crawl_running:
  assumes t: "tables_ok d" "project_ok {} d"
  shows "project_op d (mark_crawl_running i d)"
proof (rule project_opI)
  obtain b where c: "set_crawl (\<lambda>c. CrawlRowID c = i) (\<lambda>c. c\<lparr>CrawlStatus := CrawlRunning\<rparr>) d = (b, mark_crawl_running i d)"
    unfolding mark_crawl_running_def by (cases "set_crawl (\<lambda>c. CrawlRowID c = i) (\<lambda>c. c\<lparr>CrawlStatus := CrawlRunning\<rparr>) d") simp
  show op: "base_op (\<lambda>_. False) d (mark_crawl_running i d)" by (rule base_op_set_crawl [OF base_op_refl [OF t(1)] c]) simp
  have "crawl_pending (mark_crawl_running i d) c" if p: "crawl_pending d c" for c
  proof -
    obtain r where r: "r \<in> set (crawl_rows d)" "CrawlRowID r = c" "crawl_active r" using p by (auto simp: crawl_pending_def)
    have "(if CrawlRowID r = i then r\<lparr>CrawlStatus := CrawlRunning\<rparr> else r) \<in> set (crawl_rows (mark_crawl_running i d))"
      using r(1) by (simp add: mark_crawl_running_def set_crawl_def)
    then show ?thesis unfolding crawl_pending_def
      by (rule rev_bexI) (use r(2,3) in \<open>simp add: crawl_active_def\<close>)
  qed
  then show "project_ok {} (mark_crawl_running i d)"
    by (intro project_ok_frame_empty [OF _ t set_crawl_rows(1) [OF c]]) (use op in \<open>simp_all add: base_op_def\<close>)
  show "competitor_setup_rows (mark_crawl_running i d) = competitor_setup_rows d" by (rule set_crawl_rows(2) [OF c])
qed

lemma project_op_reclaim_crawls:
  assumes t: "tables_ok d" "project_ok {} d"
  shows "project_op d (reclaim_stale_running_crawls old d)"
proof (rule project_opI)
  let ?e = "reclaim_stale_running_crawls old d"
  have ids: "map CrawlRowID (crawl_rows ?e) = map CrawlRowID (crawl_rows d)"
    by (simp add: reclaim_stale_running_crawls_def Let_def)
  show op: "base_op (\<lambda>_. False) d ?e"
    by (rule base_op_rows [OF base_op_refl [OF t(1)] _ _ _ _ ids]) (simp_all add: reclaim_stale_running_crawls_def Let_def)
  show "project_ok {} ?e"
  proof (rule project_okI)
    fix s'
    assume "project_setup_row ?e = Some s'"
    then obtain s where s: "project_setup_row d = Some s"
      and s': "s' = (if PsStatus s = ProjectCrawling \<and> (case PsCrawlID s of None \<Rightarrow> False
           | Some c \<Rightarrow> c \<in> set (map CrawlRowID (filter (\<lambda>c. CrawlStatus c = CrawlRunning \<and> old (CrawlRowID c)) (crawl_rows d))))
         then s\<lparr>PsStatus := ProjectFailed, PsError := Some ''crawl reclaimed after worker restart'',
                PsFailedStep := Some StepCrawling, PsCompletedAt := True\<rparr> else s)"
      by (auto simp: reclaim_stale_running_crawls_def Let_def)
    have ok: "project_row_ok {} d s" using t(2) s by (simp add: project_ok_def)
    have pending: "project_pending {} ?e u = project_pending {} d u" for u
      by (simp add: project_pending_def project_job_def audit_scope_def find_audit_def reclaim_stale_running_crawls_def Let_def)
    show "project_row_ok {} ?e s'"
    proof (cases "s' = s")
      case True
      have "crawl_pending ?e c" if st: "PsStatus s = ProjectCrawling" and id: "PsCrawlID s = Some c" and p: "crawl_pending d c" for c
      proof -
        obtain r where r: "r \<in> set (crawl_rows d)" "CrawlRowID r = c" "crawl_active r" using p by (auto simp: crawl_pending_def)
        have "\<not> (CrawlStatus r = CrawlRunning \<and> old (CrawlRowID r))"
        proof
          assume "CrawlStatus r = CrawlRunning \<and> old (CrawlRowID r)"
          then have "PsStatus s' = ProjectFailed" using s' st id r(1,2) by auto
          then show False using True st by simp
        qed
        then have "r \<in> set (crawl_rows ?e)"
          using r(1) by (auto simp: reclaim_stale_running_crawls_def Let_def intro!: image_eqI [where x = r])
        then show ?thesis using r by (auto simp: crawl_pending_def)
      qed
      then show ?thesis using ok True by (auto simp: project_row_ok_def pending)
    next
      case False
      then have "s' = s\<lparr>PsStatus := ProjectFailed, PsError := Some ''crawl reclaimed after worker restart'',
                PsFailedStep := Some StepCrawling, PsCompletedAt := True\<rparr>" using s' by metis
      then show ?thesis by (simp add: project_row_ok_def project_shape_def awaited_type_def)
    qed
  qed
qed (simp add: reclaim_stale_running_crawls_def Let_def)

end
