(* ===== verification/CompetitorInvariant.thy ===== *)
theory CompetitorInvariant
  imports ProjectCrawls
begin

text \<open>
  The competitor setup: the seven phases its row can be in, and a keyword step that runs has a job
  of its competitor that is pending or running.
\<close>

section \<open>The invariant\<close>

definition competitor_phase ::
    "competitor_setup \<Rightarrow> setup_status \<times> step_status \<times> step_status \<times> step_status \<times> competitor_step option" where
  "competitor_phase s =
     (CsStatus s, CsCrawlStatus s, CsKeywordGenerationStatus s, CsKeywordAnalysisStatus s, CsFailedStep s)"

definition competitor_phases ::
    "(setup_status \<times> step_status \<times> step_status \<times> step_status \<times> competitor_step option) set" where
  "competitor_phases =
     {(StatusRunning, StepRunning, StepPending, StepPending, None),
      (StatusRunning, StepCompleted, StepRunning, StepPending, None),
      (StatusRunning, StepCompleted, StepCompleted, StepRunning, None),
      (StatusCompleted, StepCompleted, StepCompleted, StepCompleted, None),
      (StatusFailed, StepFailed, StepPending, StepPending, Some StepCrawl),
      (StatusFailed, StepCompleted, StepFailed, StepPending, Some StepKeywordGeneration),
      (StatusFailed, StepCompleted, StepCompleted, StepFailed, Some StepCompetitorKeywordAnalysis)}"

definition competitor_awaits :: "competitor_setup \<Rightarrow> job_type option" where
  "competitor_awaits s =
     (if CsStatus s \<noteq> StatusRunning then None
      else if CsKeywordGenerationStatus s = StepRunning then Some CompetitorKeywordGenerationJob
      else if CsKeywordAnalysisStatus s = StepRunning then Some CompetitorKeywordAnalysisJob
      else None)"

definition competitor_pending :: "nat set \<Rightarrow> db \<Rightarrow> nat \<Rightarrow> job_type \<Rightarrow> bool" where
  "competitor_pending X d c t =
     (\<exists>j \<in> set (ai_worker_jobs d). JobType j = t \<and> JobCompetitor j = Some c \<and> job_active j \<and> JobID j \<notin> X)"

definition competitor_row_ok :: "nat set \<Rightarrow> db \<Rightarrow> nat \<Rightarrow> competitor_setup \<Rightarrow> bool" where
  "competitor_row_ok X d c s =
     (competitor_phase s \<in> competitor_phases \<and> (CsCompletedAt s \<longleftrightarrow> CsStatus s \<noteq> StatusRunning)
      \<and> (\<forall>t. competitor_awaits s = Some t \<longrightarrow> competitor_pending X d c t))"

definition competitor_ok :: "nat set \<Rightarrow> nat \<Rightarrow> db \<Rightarrow> bool" where
  "competitor_ok X c d = (\<forall>s. competitor_setup_rows d c = Some s \<longrightarrow> competitor_row_ok X d c s)"

lemma competitor_okI:
  assumes "competitor_setup_rows d c = Some s" "competitor_row_ok X d c s"
  shows "competitor_ok X c d"
  using assms by (simp add: competitor_ok_def)

section \<open>Frames\<close>

lemma competitor_pending_evolves:
  assumes e: "evolves S d e" and p: "competitor_pending X d c t"
    and S: "\<And>j. j \<in> set (ai_worker_jobs d) \<Longrightarrow> S j \<Longrightarrow> JobType j = t \<Longrightarrow> JobCompetitor j = Some c \<Longrightarrow> JobID j \<in> X"
  shows "competitor_pending X e c t"
  using e
proof (rule evolvesE)
  fix f new
  assume f: "ai_worker_jobs e = map f (ai_worker_jobs d) @ new" "settles_only S f"
  obtain j where j: "j \<in> set (ai_worker_jobs d)" "JobType j = t" "JobCompetitor j = Some c" "job_active j" "JobID j \<notin> X"
    using p by (auto simp: competitor_pending_def)
  have "\<not> S j" using S [OF j(1) _ j(2,3)] j(5) by blast
  then have "f j = j" by (rule settles_onlyD(3) [OF f(2)])
  then have "j \<in> set (ai_worker_jobs e)" using j(1) by (metis Un_iff f(1) image_eqI set_append set_map)
  then show ?thesis using j by (auto simp: competitor_pending_def)
qed

lemma competitor_ok_frame:
  assumes e: "evolves S d e" and d: "competitor_ok X c d" and row: "competitor_setup_rows e c = competitor_setup_rows d c"
    and S: "\<And>j s. j \<in> set (ai_worker_jobs d) \<Longrightarrow> S j \<Longrightarrow> competitor_setup_rows d c = Some s \<Longrightarrow>
              competitor_awaits s = Some (JobType j) \<Longrightarrow> JobCompetitor j = Some c \<Longrightarrow> JobID j \<in> X"
  shows "competitor_ok X c e"
proof (cases "competitor_setup_rows d c")
  case (Some s)
  then have ok: "competitor_row_ok X d c s" using d by (simp add: competitor_ok_def)
  have "competitor_pending X e c t" if "competitor_awaits s = Some t" for t
  proof (rule competitor_pending_evolves [OF e])
    show "competitor_pending X d c t" using ok that by (simp add: competitor_row_ok_def)
    show "JobID j \<in> X" if "j \<in> set (ai_worker_jobs d)" "S j" "JobType j = t" "JobCompetitor j = Some c" for j
      using S [OF that(1,2) Some] that(3,4) \<open>competitor_awaits s = Some t\<close> by simp
  qed
  then have "competitor_row_ok X e c s" using ok unfolding competitor_row_ok_def by blast
  then show ?thesis using row Some by (intro competitor_okI) simp_all
qed (use row in \<open>simp add: competitor_ok_def\<close>)

lemma competitor_ok_less: "competitor_ok X c d \<Longrightarrow> competitor_ok {} c d"
  by (auto simp: competitor_ok_def competitor_row_ok_def competitor_pending_def)

lemma competitor_ok_other_type:
  assumes "tables_ok d" "find_job n d = Some j" "competitor_ok {} c d"
    "\<And>s. competitor_setup_rows d c = Some s \<Longrightarrow> competitor_awaits s = Some (JobType j) \<Longrightarrow> JobCompetitor j \<noteq> Some c"
  shows "competitor_ok {n} c d"
proof (cases "competitor_setup_rows d c")
  case (Some s)
  then have ok: "competitor_row_ok {} d c s" using assms(3) by (simp add: competitor_ok_def)
  have "competitor_pending {n} d c t" if t: "competitor_awaits s = Some t" for t
  proof -
    obtain k where k: "k \<in> set (ai_worker_jobs d)" "JobType k = t" "JobCompetitor k = Some c" "job_active k"
      using ok t by (auto simp: competitor_row_ok_def competitor_pending_def)
    have "JobID k \<noteq> n" using find_job_unique [OF assms(1,2) k(1)] assms(4) [OF Some] k(2,3) t by auto
    then show ?thesis using k by (auto simp: competitor_pending_def)
  qed
  then have "competitor_row_ok {n} d c s" using ok unfolding competitor_row_ok_def by blast
  then show ?thesis using Some by (intro competitor_okI)
qed (simp add: competitor_ok_def)

lemma competitor_ok_base:
  assumes "base_op (\<lambda>j. JobID j = n) d e" "competitor_ok {n} c d" "competitor_setup_rows e c = competitor_setup_rows d c"
  shows "competitor_ok {} c e"
proof -
  have "competitor_ok {n} c e"
    by (rule competitor_ok_frame [where S = "\<lambda>j. JobID j = n"]) (use assms in \<open>auto simp: base_op_def\<close>)
  then show ?thesis by (rule competitor_ok_less)
qed

section \<open>Statements\<close>

text \<open>The setup of one competitor changes, and nothing else does but the crawls and the jobs.\<close>

definition competitor_op :: "(job \<Rightarrow> bool) \<Rightarrow> nat \<Rightarrow> db \<Rightarrow> db \<Rightarrow> bool" where
  "competitor_op S c d e =
     (base_op S d e \<and> project_setup_row e = project_setup_row d
      \<and> (\<forall>k. k \<noteq> c \<longrightarrow> competitor_setup_rows e k = competitor_setup_rows d k)
      \<and> (\<forall>i. crawl_pending d i \<longrightarrow> crawl_pending e i))"

lemma competitor_op_refl: "tables_ok d \<Longrightarrow> competitor_op S c d d"
  by (simp add: competitor_op_def base_op_refl)

lemma update_competitor_row:
  assumes "update_competitor_setup c arg d = Inr (s, e)"
  shows "e = d\<lparr>competitor_setup_rows := (competitor_setup_rows d)(c := Some s)\<rparr>"
    "competitor_phase s = (CuStatus arg, CuCrawlStatus arg, CuKeywordGenerationStatus arg, CuKeywordAnalysisStatus arg, CuFailedStep arg)"
    "CsCompletedAt s = (CuStatus arg \<in> {StatusCompleted, StatusFailed})"
  using assms by (auto simp: update_competitor_setup_def competitor_phase_def Let_def split: option.splits)

lemma competitor_op_row:
  assumes "competitor_op S c d e"
  shows "competitor_op S c d (e\<lparr>competitor_setup_rows := (competitor_setup_rows e)(c := r)\<rparr>)"
proof -
  have "base_op S d (e\<lparr>competitor_setup_rows := (competitor_setup_rows e)(c := r)\<rparr>)"
    by (rule base_op_rows [of S d e]) (use assms in \<open>simp_all add: competitor_op_def\<close>)
  then show ?thesis using assms by (simp add: competitor_op_def crawl_pending_def)
qed

lemma competitor_op_enqueue:
  assumes "competitor_op S c d e"
  shows "competitor_op S c d (enqueue_competitor_ai_worker_job t c e)"
  using assms base_op_enqueue_competitor [of S d e t c]
  by (simp add: competitor_op_def enqueue_competitor_ai_worker_job_def crawl_pending_def)

lemma competitor_pending_enqueue:
  assumes "\<And>x. x \<in> X \<Longrightarrow> x < next_id d"
  shows "competitor_pending X (enqueue_competitor_ai_worker_job t c d) c t"
  using assms by (fastforce simp: competitor_pending_def enqueue_competitor_ai_worker_job_def blank_job_def job_active_def)

text \<open>What \<open>updateSetup\<close> leaves: the phase it was given, with a new job when it enqueues one.\<close>

lemma update_setup_effect:
  assumes "update_setup c s ch d = Inr (s', e)"
  shows "competitor_op S c g d \<Longrightarrow> competitor_op S c g e"
    "competitor_phase s' = (ChStatus ch, ChCrawlStatus ch, ChGenerationStatus ch, ChAnalysisStatus ch, None)"
    "competitor_setup_rows e c = Some s'" "CsCompletedAt s' = (ChStatus ch \<in> {StatusCompleted, StatusFailed})"
    "ChEnqueue ch = Some t \<Longrightarrow> (\<And>x. x \<in> X \<Longrightarrow> x < next_id d) \<Longrightarrow> competitor_pending X e c t"
proof -
  obtain d1 where u: "update_competitor_setup c \<lparr>CuRequestedBy = ChRequestedBy ch, CuParentCrawlID = ChParent ch,
         CuCrawlID = ChCrawlID ch, CuStatus = ChStatus ch, CuCrawlStatus = ChCrawlStatus ch,
         CuKeywordGenerationStatus = ChGenerationStatus ch, CuKeywordAnalysisStatus = ChAnalysisStatus ch,
         CuError = None, CuFailedStep = None, CuStepReasons = CsStepReasons s\<rparr> d = Inr (s', d1)"
    and e: "e = (case ChEnqueue ch of None \<Rightarrow> d1 | Some t \<Rightarrow> enqueue_competitor_ai_worker_job t c d1)"
    using assms by (auto simp: update_setup_def split: option.splits)
  note row = update_competitor_row [OF u]
  show "competitor_op S c g e" if "competitor_op S c g d"
    using competitor_op_row [OF that, of "Some s'"] competitor_op_enqueue by (simp add: e row(1) split: option.splits)
  show "competitor_phase s' = (ChStatus ch, ChCrawlStatus ch, ChGenerationStatus ch, ChAnalysisStatus ch, None)"
    "CsCompletedAt s' = (ChStatus ch \<in> {StatusCompleted, StatusFailed})" using row(2,3) by simp_all
  show "competitor_setup_rows e c = Some s'"
    by (simp add: e row(1) enqueue_competitor_ai_worker_job_def split: option.splits)
  show "competitor_pending X e c t" if "ChEnqueue ch = Some t" "\<And>x. x \<in> X \<Longrightarrow> x < next_id d"
    using competitor_pending_enqueue [of X d1 t c] that by (simp add: e row(1))
qed

lemma fail_step_effect:
  assumes "competitor_fail_setup_at_step c s step m d = Inr (s', e)"
  shows "competitor_op S c g d \<Longrightarrow> competitor_op S c g e" "competitor_setup_rows e c = Some s'" "CsCompletedAt s'"
    "competitor_phase s' = (StatusFailed, (if step = StepCrawl then StepFailed else CsCrawlStatus s),
       (if step = StepKeywordGeneration then StepFailed else CsKeywordGenerationStatus s),
       (if step = StepCompetitorKeywordAnalysis then StepFailed else CsKeywordAnalysisStatus s), Some step)"
  using update_competitor_row [OF assms [unfolded competitor_fail_setup_at_step_def Let_def]] competitor_op_row [of S c g d "Some s'"]
  by simp_all

end
