(* ===== verification/CompetitorPreserved.thy ===== *)
theory CompetitorPreserved
  imports CompetitorInvariant
begin

text \<open>The operations of the competitor setup keep its invariant.\<close>

section \<open>The child crawl\<close>

lemma competitor_op_crawls:
  assumes "competitor_op S c d e" "ai_worker_jobs g = ai_worker_jobs e" "next_id e \<le> next_id g" "ai_audits g = ai_audits e"
    "local_visibility_runs g = local_visibility_runs e" "distinct (map CrawlRowID (crawl_rows g))"
    "\<forall>r \<in> set (crawl_rows g). CrawlRowID r < next_id g" "location_setup_rows g = location_setup_rows e"
    "project_locations g = project_locations e" "project_setup_row g = project_setup_row e"
    "competitor_setup_rows g = competitor_setup_rows e" "\<And>i. crawl_pending e i \<Longrightarrow> crawl_pending g i"
  shows "competitor_op S c d g"
proof -
  have "base_op S d g" by (rule base_op_grow [OF _ assms(2-9)]) (use assms(1) in \<open>simp add: competitor_op_def\<close>)
  then show ?thesis using assms by (simp add: competitor_op_def)
qed

text \<open>A new queued child, after rows that are not active were deleted.\<close>

lemma competitor_op_create_crawl:
  assumes "tables_ok d" and P: "\<And>r. r \<in> set (crawl_rows d) \<Longrightarrow> crawl_active r \<Longrightarrow> P r"
  shows "competitor_op S c d (d\<lparr>crawl_rows := filter P (crawl_rows d) @ [r\<lparr>CrawlRowID := next_id d\<rparr>], next_id := Suc (next_id d)\<rparr>)"
proof (rule competitor_op_crawls [OF competitor_op_refl [OF assms(1)]])
  let ?g = "d\<lparr>crawl_rows := filter P (crawl_rows d) @ [r\<lparr>CrawlRowID := next_id d\<rparr>], next_id := Suc (next_id d)\<rparr>"
  show "distinct (map CrawlRowID (crawl_rows ?g))" "\<forall>r \<in> set (crawl_rows ?g). CrawlRowID r < next_id ?g"
    using assms(1) by (auto simp: tables_ok_def distinct_map less_SucI inj_on_def)
  show "crawl_pending ?g i" if "crawl_pending d i" for i using that P by (auto simp: crawl_pending_def)
qed simp_all

lemma enqueue_initialization_crawl_op:
  assumes t: "tables_ok d" and e: "enqueue_initialization_crawl c parent d = Inr (i, e)"
  shows "competitor_op S k d e" "competitor_setup_rows e = competitor_setup_rows d"
proof -
  have one: "enqueue_one_competitor_crawl parent c d = (Some i, e)"
    using e by (auto simp: enqueue_initialization_crawl_def split: prod.splits option.splits)
  let ?r = "\<lparr>CrawlRowID = 0, CrawlParent = parent, CrawlCompetitor = Some c, CrawlStatus = CrawlQueued,
      CrawlManualLike = False, CrawlPageCount = 0\<rparr>"
  have all: "filter (\<lambda>_. True) xs = xs" for xs :: "crawl_row list" by simp
  consider "e = d" | "e = d\<lparr>crawl_rows := filter (\<lambda>_. True) (crawl_rows d) @ [?r\<lparr>CrawlRowID := next_id d\<rparr>], next_id := Suc (next_id d)\<rparr>"
    | "e = d\<lparr>crawl_rows := filter (\<lambda>r. \<not> (CrawlParent r = parent \<and> CrawlCompetitor r = Some c
           \<and> CrawlStatus r \<in> {CrawlFailed, CrawlCancelled})) (crawl_rows d) @ [?r\<lparr>CrawlRowID := next_id d\<rparr>],
        next_id := Suc (next_id d)\<rparr>"
    using one by (auto simp: enqueue_one_competitor_crawl_def Let_def split: option.splits if_splits)
  then show "competitor_op S k d e"
  proof cases
    case 1
    then show ?thesis using competitor_op_refl [OF t] by simp
  next
    case 2
    show ?thesis unfolding 2 by (rule competitor_op_create_crawl [OF t]) simp
  next
    case 3
    show ?thesis unfolding 3 by (rule competitor_op_create_crawl [OF t]) (auto simp: crawl_active_def)
  qed
  show "competitor_setup_rows e = competitor_setup_rows d"
    using one by (auto simp: enqueue_one_competitor_crawl_def Let_def split: option.splits if_splits)
qed

section \<open>Phases\<close>

lemma awaits_phase:
  assumes "competitor_phase s = (st, cr, gen, an, f)"
  shows "competitor_awaits s = (if st \<noteq> StatusRunning then None else if gen = StepRunning then Some CompetitorKeywordGenerationJob
      else if an = StepRunning then Some CompetitorKeywordAnalysisJob else None)" "CsStatus s = st" "CsCrawlStatus s = cr"
    "CsKeywordGenerationStatus s = gen" "CsKeywordAnalysisStatus s = an" "CsFailedStep s = f"
  using assms by (simp_all add: competitor_phase_def competitor_awaits_def)

lemma change_fields [simp]:
  "ChStatus (change u st cr g a) = st" "ChCrawlStatus (change u st cr g a) = cr" "ChGenerationStatus (change u st cr g a) = g"
  "ChAnalysisStatus (change u st cr g a) = a" "ChEnqueue (change u st cr g a) = None"
  by (simp_all add: change_def)

text \<open>The row after a change, when its phase waits for nothing or for the job just enqueued.\<close>

lemma competitor_ok_update:
  assumes u: "update_setup c s ch d = Inr (s', e)"
    and phase: "(ChStatus ch, ChCrawlStatus ch, ChGenerationStatus ch, ChAnalysisStatus ch, None) \<in> competitor_phases"
    and job: "ChStatus ch = StatusRunning \<Longrightarrow> ChGenerationStatus ch = StepRunning \<Longrightarrow> ChEnqueue ch = Some CompetitorKeywordGenerationJob"
      "ChStatus ch = StatusRunning \<Longrightarrow> ChGenerationStatus ch \<noteq> StepRunning \<Longrightarrow> ChAnalysisStatus ch = StepRunning \<Longrightarrow>
        ChEnqueue ch = Some CompetitorKeywordAnalysisJob"
    and X: "\<And>x. x \<in> X \<Longrightarrow> x < next_id d"
  shows "competitor_ok X c e"
proof (rule competitor_okI [OF update_setup_effect(3) [OF u]])
  note p = update_setup_effect(2) [OF u]
  have "CsCompletedAt s' = (CsStatus s' \<noteq> StatusRunning)"
    using update_setup_effect(4) [OF u] awaits_phase(2) [OF p] by (cases "ChStatus ch") auto
  moreover have "competitor_pending X e c t" if "competitor_awaits s' = Some t" for t
    using that job update_setup_effect(5) [OF u _ X] awaits_phase(1) [OF p] by (auto split: if_splits)
  ultimately show "competitor_row_ok X e c s'" using phase p by (simp add: competitor_row_ok_def)
qed

lemma competitor_ok_fail:
  assumes u: "competitor_fail_setup_at_step c s step m d = Inr (s', e)"
    and phase: "(StatusFailed, (if step = StepCrawl then StepFailed else CsCrawlStatus s),
       (if step = StepKeywordGeneration then StepFailed else CsKeywordGenerationStatus s),
       (if step = StepCompetitorKeywordAnalysis then StepFailed else CsKeywordAnalysisStatus s), Some step) \<in> competitor_phases"
  shows "competitor_ok X c e"
proof (rule competitor_okI [OF fail_step_effect(2) [OF u]])
  note p = fail_step_effect(4) [OF u]
  show "competitor_row_ok X e c s'"
    using phase p fail_step_effect(3) [OF u] awaits_phase(1,2) [OF p] by (simp add: competitor_row_ok_def)
qed

section \<open>Start, resume and reconcile\<close>

definition competitor_moves :: "nat \<Rightarrow> db \<Rightarrow> db \<Rightarrow> bool" where
  "competitor_moves c d e = (competitor_op (\<lambda>_. False) c d e \<and> competitor_ok {} c e)"

lemma competitor_moves_update:
  assumes t: "competitor_op (\<lambda>_. False) c d d1" and u: "update_setup c s ch d1 = Inr (s', e)"
    and phase: "(ChStatus ch, ChCrawlStatus ch, ChGenerationStatus ch, ChAnalysisStatus ch, None) \<in> competitor_phases"
    and job: "ChStatus ch = StatusRunning \<Longrightarrow> ChGenerationStatus ch = StepRunning \<Longrightarrow> ChEnqueue ch = Some CompetitorKeywordGenerationJob"
      "ChStatus ch = StatusRunning \<Longrightarrow> ChGenerationStatus ch \<noteq> StepRunning \<Longrightarrow> ChAnalysisStatus ch = StepRunning \<Longrightarrow>
        ChEnqueue ch = Some CompetitorKeywordAnalysisJob"
  shows "competitor_moves c d e"
  unfolding competitor_moves_def
proof
  show "competitor_op (\<lambda>_. False) c d e" by (rule update_setup_effect(1) [OF u t])
  show "competitor_ok {} c e" by (rule competitor_ok_update [OF u phase job]) simp_all
qed

lemma competitor_moves_fail:
  assumes t: "competitor_op (\<lambda>_. False) c d d1" and u: "competitor_fail_setup_at_step c s step m d1 = Inr (s', e)"
    and phase: "(StatusFailed, (if step = StepCrawl then StepFailed else CsCrawlStatus s),
       (if step = StepKeywordGeneration then StepFailed else CsKeywordGenerationStatus s),
       (if step = StepCompetitorKeywordAnalysis then StepFailed else CsKeywordAnalysisStatus s), Some step) \<in> competitor_phases"
  shows "competitor_moves c d e"
  unfolding competitor_moves_def
proof
  show "competitor_op (\<lambda>_. False) c d e" by (rule fail_step_effect(1) [OF u t])
  show "competitor_ok {} c e" by (rule competitor_ok_fail [OF u phase])
qed

lemma competitor_moves_start_crawl:
  assumes t: "competitor_op (\<lambda>_. False) c d d1"
    and e: "start_crawl_step c s user parent (enqueue_initialization_crawl c) d1 = Inr (s', e)"
  shows "competitor_moves c d e"
proof -
  obtain p q i d2 where c: "enqueue_initialization_crawl c p d1 = Inr (i, d2)"
    and u: "update_setup c s ((change user StatusRunning StepRunning StepPending StepPending) \<lparr>ChParent := q, ChCrawlID := Some i\<rparr>) d2 = Inr (s', e)"
    using e by (auto simp: start_crawl_step_def split: prod.splits)
  have t1: "tables_ok d1" using t by (simp add: competitor_op_def base_op_def)
  have "competitor_op (\<lambda>_. False) c d1 d2" by (rule enqueue_initialization_crawl_op(1) [OF t1 c])
  then have "competitor_op (\<lambda>_. False) c d d2"
    using t base_op_after [of "\<lambda>_. False" d d1 d2] by (auto simp: competitor_op_def)
  then show ?thesis by (rule competitor_moves_update [OF _ u]) (simp_all add: change_def competitor_phases_def)
qed

lemma competitor_moves_refl: "competitor_op (\<lambda>_. False) c d d1 \<Longrightarrow> competitor_ok {} c d1 \<Longrightarrow> competitor_moves c d d1"
  by (simp add: competitor_moves_def)

text \<open>The running row, or the row just created, from which the crawl is started.\<close>

lemma competitor_moves_reconcile:
  assumes t: "competitor_op (\<lambda>_. False) c d d1" and row: "competitor_setup_rows d1 c = Some s"
    and ok: "competitor_ok {} c d1 \<and> CsStatus s = StatusRunning \<or> create = Some (enqueue_initialization_crawl c) \<and> CsCrawlStatus s = StepPending"
    and create: "create = None \<or> create = Some (enqueue_initialization_crawl c)"
    and e: "reconcile_running c s user parent create d1 = Inr (s', e)"
  shows "competitor_moves c d e"
proof (cases "CsCrawlStatus s = StepRunning")
  case False
  then show ?thesis
    using e ok create competitor_moves_start_crawl [OF t] competitor_moves_refl [OF t]
    by (auto simp: reconcile_running_def split: if_splits option.splits)
next
  case True
  then have d1: "competitor_ok {} c d1" "CsStatus s = StatusRunning" using ok by auto
  then have "competitor_phase s \<in> competitor_phases" using row by (simp add: competitor_ok_def competitor_row_ok_def)
  then have pend: "CsKeywordGenerationStatus s = StepPending" "CsKeywordAnalysisStatus s = StepPending"
    using True by (auto simp: competitor_phases_def competitor_phase_def)
  have fail: "competitor_moves c d e" if "competitor_fail_setup_at_step c s StepCrawl m d1 = Inr (s', e)" for m
    by (rule competitor_moves_fail [OF t that]) (simp add: pend competitor_phases_def)
  have advance: "competitor_moves c d e"
    if "update_setup c s ((change user StatusRunning StepCompleted StepRunning StepPending) \<lparr>ChEnqueue := Some CompetitorKeywordGenerationJob\<rparr>) d1 = Inr (s', e)"
    by (rule competitor_moves_update [OF t that]) (simp_all add: change_def competitor_phases_def)
  show ?thesis
    using e True create competitor_moves_start_crawl [OF t] competitor_moves_refl [OF t d1(1)] fail advance
    by (auto simp: reconcile_running_def split: option.splits crawl_status.splits)
qed

lemma competitor_moves_resume:
  assumes t: "competitor_op (\<lambda>_. False) c d d"
    and e: "competitor_resume_failed_setup c s user parent (Some (enqueue_initialization_crawl c)) d = Inr (s', e)"
  shows "competitor_moves c d e"
proof -
  have gen: "competitor_moves c d e"
    if "update_setup c s ((change user StatusRunning StepCompleted StepRunning StepPending) \<lparr>ChEnqueue := Some CompetitorKeywordGenerationJob\<rparr>) d = Inr (s', e)"
    by (rule competitor_moves_update [OF t that]) (simp_all add: change_def competitor_phases_def)
  have ana: "competitor_moves c d e"
    if "update_setup c s ((change user StatusRunning StepCompleted StepCompleted StepRunning) \<lparr>ChEnqueue := Some CompetitorKeywordAnalysisJob\<rparr>) d = Inr (s', e)"
    by (rule competitor_moves_update [OF t that]) (simp_all add: change_def competitor_phases_def)
  show ?thesis using e gen ana competitor_moves_start_crawl [OF t]
    by (auto simp: competitor_resume_failed_setup_def split: option.splits competitor_step.splits)
qed

lemma competitor_moves_start:
  assumes t: "tables_ok d" "competitor_ok {} c d" and e: "start_competitor c user parent d = Inr (s', b, e)"
  shows "competitor_moves c d e"
proof (cases "competitor_setup_rows d c")
  case None
  then obtain s d1 where created: "create_competitor_setup c user parent d = Some (s, d1)"
    by (auto simp: create_competitor_setup_def Let_def)
  then have row: "CsCrawlStatus s = StepPending" "d1 = d\<lparr>competitor_setup_rows := (competitor_setup_rows d)(c := Some s)\<rparr>"
    using None by (auto simp: create_competitor_setup_def Let_def)
  have op: "competitor_op (\<lambda>_. False) c d d1" unfolding row(2) by (rule competitor_op_row [OF competitor_op_refl [OF t(1)]])
  obtain s2 where r: "reconcile_running c s (Some user) (CsParentCrawlID s) (Some (enqueue_initialization_crawl c)) d1 = Inr (s2, e)"
    using e by (auto simp: start_competitor_def competitor_start_or_resume_def None created)
  show ?thesis by (rule competitor_moves_reconcile [OF op _ _ _ r]) (simp_all add: row)
next
  case (Some s)
  note op = competitor_op_refl [OF t(1), of "\<lambda>_. False" c]
  show ?thesis
  proof (cases "CsStatus s")
    case StatusRunning
    then obtain s2 where r: "reconcile_running c s (Some user) parent (Some (enqueue_initialization_crawl c)) d = Inr (s2, e)"
      using e Some by (auto simp: start_competitor_def competitor_start_or_resume_def)
    show ?thesis by (rule competitor_moves_reconcile [OF op Some _ _ r]) (use t(2) StatusRunning in simp_all)
  next
    case StatusCompleted
    then show ?thesis using e Some competitor_moves_refl [OF op t(2)] by (simp add: start_competitor_def competitor_start_or_resume_def)
  next
    case StatusFailed
    then show ?thesis using e Some competitor_moves_resume [OF op]
      by (auto simp: start_competitor_def competitor_start_or_resume_def)
  qed
qed

lemma competitor_moves_sweep:
  assumes t: "tables_ok d" "competitor_ok {} c d" and e: "competitor_reconcile c d = Inr (s', e)"
  shows "competitor_moves c d e"
proof -
  note op = competitor_op_refl [OF t(1), of "\<lambda>_. False" c]
  obtain s where s: "competitor_setup_rows d c = Some s" using e by (auto simp: competitor_reconcile_def split: option.splits)
  show ?thesis
  proof (cases "CsStatus s = StatusRunning")
    case True
    then have r: "reconcile_running c s None (CsParentCrawlID s) None d = Inr (s', e)"
      using e s by (simp add: competitor_reconcile_def)
    show ?thesis by (rule competitor_moves_reconcile [OF op s _ _ r]) (use t(2) True in simp_all)
  next
    case False
    then show ?thesis using e s competitor_moves_refl [OF op t(2)] by (simp add: competitor_reconcile_def)
  qed
qed

section \<open>Settling the jobs\<close>

definition settles_competitor :: "nat \<Rightarrow> nat \<Rightarrow> db \<Rightarrow> db \<Rightarrow> bool" where
  "settles_competitor n c d e = (competitor_op (\<lambda>j. JobID j = n) c d e \<and> competitor_ok {} c e)"

lemma competitor_op_settle:
  assumes "competitor_op (\<lambda>j. JobID j = n) c d e"
  shows "competitor_op (\<lambda>j. JobID j = n) c d (mark_ai_worker_job_completed n e)"
    "competitor_op (\<lambda>j. JobID j = n) c d (mark_ai_worker_job_failed n m e)"
  using assms base_op_completed [of n d e] base_op_failed [of n d e m]
  by (simp_all add: competitor_op_def mark_ai_worker_job_completed_def mark_ai_worker_job_failed_def crawl_pending_def)

lemma settles_competitor_completed:
  assumes "competitor_op (\<lambda>j. JobID j = n) c d e" "competitor_ok {n} c e"
  shows "settles_competitor n c d (mark_ai_worker_job_completed n e)"
proof -
  have "tables_ok e" using assms(1) by (simp add: competitor_op_def base_op_def)
  then have "base_op (\<lambda>j. JobID j = n) e (mark_ai_worker_job_completed n e)" by (intro base_op_completed base_op_refl)
  then have "competitor_ok {} c (mark_ai_worker_job_completed n e)"
    by (rule competitor_ok_base [OF _ assms(2)]) (simp add: mark_ai_worker_job_completed_def)
  then show ?thesis using competitor_op_settle(1) [OF assms(1)] by (simp add: settles_competitor_def)
qed

lemma settles_competitor_failed:
  assumes "competitor_op (\<lambda>j. JobID j = n) c d e" "competitor_ok {n} c e"
  shows "settles_competitor n c d (mark_ai_worker_job_failed n m e)"
proof -
  have "tables_ok e" using assms(1) by (simp add: competitor_op_def base_op_def)
  then have "base_op (\<lambda>j. JobID j = n) e (mark_ai_worker_job_failed n m e)" by (intro base_op_failed base_op_refl)
  then have "competitor_ok {} c (mark_ai_worker_job_failed n m e)"
    by (rule competitor_ok_base [OF _ assms(2)]) (simp add: mark_ai_worker_job_failed_def)
  then show ?thesis using competitor_op_settle(2) [OF assms(1)] by (simp add: settles_competitor_def)
qed

definition settling_competitor :: "db \<Rightarrow> nat \<Rightarrow> job \<Rightarrow> nat \<Rightarrow> bool" where
  "settling_competitor d n j c = (tables_ok d \<and> find_job n d = Some j \<and> competitor_ok {} c d)"

lemma settling_competitor_refl: "settling_competitor d n j c \<Longrightarrow> competitor_op S c d d"
  by (simp add: settling_competitor_def competitor_op_refl)

lemma settling_competitor_below: "settling_competitor d n j c \<Longrightarrow> x \<in> {n} \<Longrightarrow> x < next_id d"
  using find_job_below by (simp add: settling_competitor_def)

lemma settles_competitor_unawaited:
  assumes "settling_competitor d n j c" "competitor_setup_rows d c = Some s" "competitor_awaits s \<noteq> Some (JobType j)"
  shows "settles_competitor n c d (mark_ai_worker_job_completed n d)" "settles_competitor n c d (mark_ai_worker_job_failed n m d)"
proof -
  have "competitor_ok {n} c d"
    by (rule competitor_ok_other_type [of d n j]) (use assms in \<open>auto simp: settling_competitor_def\<close>)
  then show "settles_competitor n c d (mark_ai_worker_job_completed n d)" "settles_competitor n c d (mark_ai_worker_job_failed n m d)"
    by (intro settles_competitor_completed settles_competitor_failed settling_competitor_refl [OF assms(1)]; assumption)+
qed

lemma settles_competitor_update:
  assumes c: "settling_competitor d n j c" and u: "update_setup c s ch d = Inr (s', e)"
    and phase: "(ChStatus ch, ChCrawlStatus ch, ChGenerationStatus ch, ChAnalysisStatus ch, None) \<in> competitor_phases"
    and job: "ChStatus ch = StatusRunning \<Longrightarrow> ChGenerationStatus ch = StepRunning \<Longrightarrow> ChEnqueue ch = Some CompetitorKeywordGenerationJob"
      "ChStatus ch = StatusRunning \<Longrightarrow> ChGenerationStatus ch \<noteq> StepRunning \<Longrightarrow> ChAnalysisStatus ch = StepRunning \<Longrightarrow>
        ChEnqueue ch = Some CompetitorKeywordAnalysisJob"
  shows "settles_competitor n c d (mark_ai_worker_job_completed n e)"
  by (rule settles_competitor_completed [OF update_setup_effect(1) [OF u settling_competitor_refl [OF c]]
      competitor_ok_update [OF u phase job settling_competitor_below [OF c]]])

lemma settles_generation_success:
  assumes c: "settling_competitor d n j c" and type: "JobType j = CompetitorKeywordGenerationJob"
    and e: "finalize_generation_success n c d = Inr e"
  shows "settles_competitor n c d e"
proof -
  obtain s where s: "competitor_setup_rows d c = Some s" using e by (auto simp: finalize_generation_success_def split: option.splits)
  show ?thesis
  proof (cases "CsStatus s \<noteq> StatusRunning \<or> CsKeywordGenerationStatus s \<noteq> StepRunning")
    case True
    then have "competitor_awaits s \<noteq> Some (JobType j)" by (auto simp: competitor_awaits_def type)
    then show ?thesis using settles_competitor_unawaited(1) [OF c s] e s True by (auto simp: finalize_generation_success_def)
  next
    case False
    then obtain s' d1 where u: "update_setup c s ((change None StatusRunning StepCompleted StepCompleted StepRunning)
        \<lparr>ChEnqueue := Some CompetitorKeywordAnalysisJob\<rparr>) d = Inr (s', d1)" and e: "e = mark_ai_worker_job_completed n d1"
      using e s by (auto simp: finalize_generation_success_def)
    show ?thesis unfolding e by (rule settles_competitor_update [OF c u]) (simp_all add: change_def competitor_phases_def)
  qed
qed

lemma settles_analysis_success:
  assumes c: "settling_competitor d n j c" and type: "JobType j = CompetitorKeywordAnalysisJob"
    and e: "finalize_analysis_success n c d = Inr e"
  shows "settles_competitor n c d e"
proof -
  obtain s where s: "competitor_setup_rows d c = Some s" using e by (auto simp: finalize_analysis_success_def split: option.splits)
  show ?thesis
  proof (cases "CsStatus s \<noteq> StatusRunning \<or> CsKeywordAnalysisStatus s \<noteq> StepRunning")
    case True
    then have "competitor_awaits s \<noteq> Some (JobType j)" by (auto simp: competitor_awaits_def type)
    then show ?thesis using settles_competitor_unawaited(1) [OF c s] e s True by (auto simp: finalize_analysis_success_def)
  next
    case False
    then obtain s' d1 where u: "update_setup c s (change None StatusCompleted StepCompleted StepCompleted StepCompleted) d = Inr (s', d1)"
      and e: "e = mark_ai_worker_job_completed n d1"
      using e s by (auto simp: finalize_analysis_success_def)
    show ?thesis unfolding e by (rule settles_competitor_update [OF c u]) (simp_all add: competitor_phases_def)
  qed
qed

lemma competitor_row_phase:
  assumes "competitor_ok X c d" "competitor_setup_rows d c = Some s"
  shows "competitor_phase s \<in> competitor_phases"
  using assms by (simp add: competitor_ok_def competitor_row_ok_def)

lemma settles_competitor_failure:
  assumes c: "settling_competitor d n j c" and j: "JobID j = n" "JobCompetitor j = Some c"
    and type: "(JobType j, step) \<in> {(CompetitorKeywordGenerationJob, StepKeywordGeneration), (CompetitorKeywordAnalysisJob, StepCompetitorKeywordAnalysis)}"
    and e: "competitor_failure j step m d = Inr e"
  shows "settles_competitor n c d e"
proof -
  let ?d1 = "mark_ai_worker_job_failed n (Some (cap_setup_error_message m)) d"
  have f: "finalize_step_failure c step m ?d1 = Inr e" using e j by (simp add: competitor_failure_def Let_def)
  have rows: "competitor_setup_rows ?d1 = competitor_setup_rows d" by (simp add: mark_ai_worker_job_failed_def)
  obtain s where s: "competitor_setup_rows d c = Some s" using f by (auto simp: finalize_step_failure_def rows split: option.splits)
  have op: "competitor_op (\<lambda>j. JobID j = n) c d ?d1" by (rule competitor_op_settle(2) [OF settling_competitor_refl [OF c]])
  have phase: "competitor_phase s \<in> competitor_phases" by (rule competitor_row_phase [OF _ s, of "{}"]) (use c in \<open>simp add: settling_competitor_def\<close>)
  then have one: "CsKeywordGenerationStatus s = StepRunning \<Longrightarrow> CsKeywordAnalysisStatus s \<noteq> StepRunning"
    by (auto simp: competitor_phases_def competitor_phase_def)
  show ?thesis
  proof (cases "competitor_awaits s = Some (JobType j)")
    case False
    then have "e = ?d1"
      using f s type one by (auto simp: finalize_step_failure_def rows competitor_awaits_def split: if_splits option.splits)
    then show ?thesis using settles_competitor_unawaited(2) [OF c s False] by simp
  next
    case True
    then have run: "CsStatus s = StatusRunning" by (auto simp: competitor_awaits_def split: if_splits)
    obtain s' where u: "competitor_fail_setup_at_step c s step m ?d1 = Inr (s', e)"
      using f s type True run by (auto simp: finalize_step_failure_def rows competitor_awaits_def split: if_splits)
    have "(StatusFailed, (if step = StepCrawl then StepFailed else CsCrawlStatus s),
       (if step = StepKeywordGeneration then StepFailed else CsKeywordGenerationStatus s),
       (if step = StepCompetitorKeywordAnalysis then StepFailed else CsKeywordAnalysisStatus s), Some step) \<in> competitor_phases"
      using phase type True run by (auto simp: competitor_phases_def competitor_phase_def competitor_awaits_def split: if_splits)
    then have "competitor_ok {} c e" by (rule competitor_ok_fail [OF u])
    then show ?thesis using fail_step_effect(1) [OF u op] by (simp add: settles_competitor_def)
  qed
qed

end
