(* ===== verification/SystemInvariant.thy ===== *)
theory SystemInvariant
  imports CompetitorPreserved
begin

text \<open>
  The invariant of the whole system of workers: well formed tables and the invariants of the
  project setup, of every competitor setup and of every location setup. A setup exists only
  for a location that does.
\<close>

definition system_ok :: "db \<Rightarrow> bool" where
  "system_ok d =
     (tables_ok d \<and> (\<forall>l. location_ok {} l d)
      \<and> (\<forall>l. project_locations d l = None \<longrightarrow> location_setup_rows d l = None)
      \<and> project_ok {} d \<and> (\<forall>c. competitor_ok {} c d))"

lemma system_okD:
  assumes "system_ok d"
  shows "tables_ok d" "location_ok {} l d" "project_locations d l = None \<Longrightarrow> location_setup_rows d l = None"
    "project_ok {} d" "competitor_ok {} c d"
  using assms by (simp_all add: system_ok_def)

section \<open>One workflow at a time\<close>

text \<open>The job \<open>n\<close> that an operation settles is \<open>j\<close>; its type tells which invariants it can touch.\<close>

definition competitor_type :: "job_type \<Rightarrow> bool" where
  "competitor_type t = (t \<in> {CompetitorKeywordGenerationJob, CompetitorKeywordAnalysisJob})"

lemma awaits_competitor_type: "competitor_awaits s = Some t \<Longrightarrow> competitor_type t"
  by (auto simp: competitor_awaits_def competitor_type_def split: if_splits)

lemma competitor_ok_other_job:
  assumes "system_ok d" "evolves (\<lambda>j. JobID j = n) d e" "find_job n d = Some j"
    "competitor_setup_rows e c = competitor_setup_rows d c" "competitor_type (JobType j) \<Longrightarrow> JobCompetitor j \<noteq> Some c"
  shows "competitor_ok {} c e"
proof (rule competitor_ok_frame [OF assms(2) system_okD(5) [OF assms(1)] assms(4)])
  fix x s
  assume x: "x \<in> set (ai_worker_jobs d)" "JobID x = n" "competitor_awaits s = Some (JobType x)" "JobCompetitor x = Some c"
  have "x = j" by (rule find_job_unique [OF system_okD(1) [OF assms(1)] assms(3) x(1,2)])
  then show "JobID x \<in> {}" using x(3,4) assms(5) awaits_competitor_type by blast
qed

lemma project_ok_other_job:
  assumes "system_ok d" "evolves (\<lambda>j. JobID j = n) d e" "find_job n d = Some j" "unawaited d j"
    "project_setup_row e = project_setup_row d" "\<And>c. crawl_pending d c \<Longrightarrow> crawl_pending e c"
  shows "project_ok {} e"
proof -
  have "project_ok {n} d"
    using project_ok_other_type [OF system_okD(1) [OF assms(1)] assms(3) system_okD(4) [OF assms(1)]] assms(4)
    by (simp add: unawaited_def)
  then have "project_ok {n} e"
    by (rule project_ok_frame [OF assms(2) system_okD(1) [OF assms(1)] _ assms(5,6)]) auto
  then show ?thesis by (rule project_ok_less)
qed

lemma location_ok_other_job:
  assumes "system_ok d" "evolves (\<lambda>j. JobID j = n) d e" "find_job n d = Some j"
    "location_setup_rows e k = location_setup_rows d k" "\<And>i. job_owner d j \<noteq> Some (k, i)"
  shows "location_ok {} k e"
proof (rule location_ok_frame [OF assms(2,4) system_okD(2) [OF assms(1)] system_okD(1) [OF assms(1)]])
  show "i \<in> {}" if "x \<in> set (ai_worker_jobs d)" "JobID x = n" "job_owner d x = Some (k, i)" for x i
    using find_job_unique [OF system_okD(1) [OF assms(1)] assms(3) that(1,2)] that(3) assms(5) by simp
  show "JobID x < next_id d" if "JobID x = n" for x
    using find_job_below [OF system_okD(1) [OF assms(1)] assms(3)] that by simp
qed simp

lemma system_ok_location_job:
  assumes d: "system_ok d" and op: "loc_op (\<lambda>j. JobID j = n) l d e" and j: "find_job n d = Some j"
    and own: "location_ok {} l e" and owner: "\<And>k i. job_owner d j = Some (k, i) \<Longrightarrow> k = l"
    and other: "unawaited d j" "\<not> competitor_type (JobType j)"
  shows "system_ok e"
proof -
  have e: "evolves (\<lambda>j. JobID j = n) d e" "tables_ok e" "project_setup_row e = project_setup_row d"
    "competitor_setup_rows e = competitor_setup_rows d" "crawl_rows e = crawl_rows d" "project_locations e = project_locations d"
    "\<And>k. k \<noteq> l \<Longrightarrow> location_setup_rows e k = location_setup_rows d k"
    "location_setup_rows d l = None \<Longrightarrow> project_locations d l = None \<Longrightarrow> location_setup_rows e l = None"
    using op by (simp_all add: loc_op_def)
  have "location_ok {} k e" for k
    using own location_ok_other_job [OF d e(1) j e(7)] owner by (cases "k = l") auto
  moreover have "location_setup_rows e k = None" if "project_locations e k = None" for k
    using that e(6-8) system_okD(3) [OF d, of k] by (cases "k = l") simp_all
  moreover have "project_ok {} e"
    by (rule project_ok_other_job [OF d e(1) j other(1) e(3)]) (simp add: crawl_pending_def e(5))
  moreover have "competitor_ok {} c e" for c
    by (rule competitor_ok_other_job [OF d e(1) j]) (use e(4) other(2) in simp_all)
  ultimately show ?thesis using e(2) by (simp add: system_ok_def)
qed

lemma system_ok_location:
  assumes d: "system_ok d" and op: "loc_op (\<lambda>_. False) l d e" and own: "location_ok {} l e"
  shows "system_ok e"
proof -
  have e: "evolves (\<lambda>_. False) d e" "tables_ok e" "project_setup_row e = project_setup_row d"
    "competitor_setup_rows e = competitor_setup_rows d" "crawl_rows e = crawl_rows d" "project_locations e = project_locations d"
    "\<And>k. k \<noteq> l \<Longrightarrow> location_setup_rows e k = location_setup_rows d k"
    "location_setup_rows d l = None \<Longrightarrow> project_locations d l = None \<Longrightarrow> location_setup_rows e l = None"
    using op by (simp_all add: loc_op_def)
  have "location_ok {} k e" if "k \<noteq> l" for k
    by (rule location_ok_frame [OF e(1) e(7) [OF that] system_okD(2) [OF d] system_okD(1) [OF d]]) auto
  then have "location_ok {} k e" for k using own by (cases "k = l") simp_all
  moreover have "location_setup_rows e k = None" if "project_locations e k = None" for k
    using that e(6-8) system_okD(3) [OF d, of k] by (cases "k = l") simp_all
  moreover have "project_ok {} e"
    by (rule project_ok_frame_empty [OF e(1) system_okD(1) [OF d] system_okD(4) [OF d] e(3)]) (simp add: crawl_pending_def e(5))
  moreover have "competitor_ok {} c e" for c
    by (rule competitor_ok_frame [OF e(1) system_okD(5) [OF d]]) (use e(4) in simp_all)
  ultimately show ?thesis using e(2) by (simp add: system_ok_def)
qed

lemma system_ok_project_job:
  assumes d: "system_ok d" and op: "settles_project n d e" and j: "find_job n d = Some j"
    and owner: "\<And>k i. job_owner d j \<noteq> Some (k, i)" and other: "\<And>c. competitor_type (JobType j) \<Longrightarrow> JobCompetitor j \<noteq> Some c"
  shows "system_ok e"
proof -
  have e: "evolves (\<lambda>j. JobID j = n) d e" "tables_ok e" "project_ok {} e" "competitor_setup_rows e = competitor_setup_rows d"
    "location_setup_rows e = location_setup_rows d" "project_locations e = project_locations d"
    using op by (simp_all add: settles_project_def base_op_def)
  have "location_ok {} k e" for k by (rule location_ok_other_job [OF d e(1) j]) (use e(5) owner in simp_all)
  moreover have "competitor_ok {} c e" for c by (rule competitor_ok_other_job [OF d e(1) j]) (use e(4) other in simp_all)
  ultimately show ?thesis using e system_okD(3) [OF d] by (simp add: system_ok_def)
qed

lemma system_ok_project:
  assumes d: "system_ok d" and op: "project_op d e"
  shows "system_ok e"
proof -
  have e: "evolves (\<lambda>_. False) d e" "tables_ok e" "project_ok {} e" "competitor_setup_rows e = competitor_setup_rows d"
    "location_setup_rows e = location_setup_rows d" "project_locations e = project_locations d"
    using op by (simp_all add: project_op_def base_op_def)
  have "location_ok {} k e" for k
    by (rule location_ok_frame [OF e(1) _ system_okD(2) [OF d] system_okD(1) [OF d]]) (simp_all add: e(5))
  moreover have "competitor_ok {} c e" for c
    by (rule competitor_ok_frame [OF e(1) system_okD(5) [OF d]]) (use e(4) in simp_all)
  ultimately show ?thesis using e system_okD(3) [OF d] by (simp add: system_ok_def)
qed

lemma system_ok_competitor_job:
  assumes d: "system_ok d" and op: "settles_competitor n c d e" and j: "find_job n d = Some j"
    and owner: "\<And>k i. job_owner d j \<noteq> Some (k, i)" and other: "unawaited d j" "JobCompetitor j = Some c"
  shows "system_ok e"
proof -
  have e: "evolves (\<lambda>j. JobID j = n) d e" "tables_ok e" "project_setup_row e = project_setup_row d"
    "\<And>k. k \<noteq> c \<Longrightarrow> competitor_setup_rows e k = competitor_setup_rows d k" "\<And>i. crawl_pending d i \<Longrightarrow> crawl_pending e i"
    "location_setup_rows e = location_setup_rows d" "project_locations e = project_locations d" "competitor_ok {} c e"
    using op by (simp_all add: settles_competitor_def competitor_op_def base_op_def)
  have "location_ok {} k e" for k by (rule location_ok_other_job [OF d e(1) j]) (use e(6) owner in simp_all)
  moreover have "competitor_ok {} k e" for k
    using e(8) competitor_ok_other_job [OF d e(1) j e(4)] other(2) by (cases "k = c") simp_all
  moreover have "project_ok {} e" by (rule project_ok_other_job [OF d e(1) j other(1) e(3,5)])
  ultimately show ?thesis using e system_okD(3) [OF d] by (simp add: system_ok_def)
qed

lemma system_ok_competitor:
  assumes d: "system_ok d" and op: "competitor_moves c d e"
  shows "system_ok e"
proof -
  have e: "evolves (\<lambda>_. False) d e" "tables_ok e" "project_setup_row e = project_setup_row d"
    "\<And>k. k \<noteq> c \<Longrightarrow> competitor_setup_rows e k = competitor_setup_rows d k" "\<And>i. crawl_pending d i \<Longrightarrow> crawl_pending e i"
    "location_setup_rows e = location_setup_rows d" "project_locations e = project_locations d" "competitor_ok {} c e"
    using op by (simp_all add: competitor_moves_def competitor_op_def base_op_def)
  have "location_ok {} k e" for k
    by (rule location_ok_frame [OF e(1) _ system_okD(2) [OF d] system_okD(1) [OF d]]) (simp_all add: e(6))
  moreover have "competitor_ok {} k e" if "k \<noteq> c" for k
    by (rule competitor_ok_frame [OF e(1) system_okD(5) [OF d] e(4) [OF that]]) simp
  then have "competitor_ok {} k e" for k using e(8) by (cases "k = c") simp_all
  moreover have "project_ok {} e" by (rule project_ok_frame_empty [OF e(1) system_okD(1) [OF d] system_okD(4) [OF d] e(3,5)])
  ultimately show ?thesis using e system_okD(3) [OF d] by (simp add: system_ok_def)
qed

section \<open>Settling a job that succeeded\<close>

lemma find_job_refs: "system_ok d \<Longrightarrow> find_job n d = Some j \<Longrightarrow> job_refs_ok d j"
  using find_jobD [of n d j] system_okD(1) [of d] by (auto simp: tables_ok_def)

lemma system_settling: "system_ok d \<Longrightarrow> find_job n d = Some j \<Longrightarrow> settling d n j"
  by (simp add: settling_def system_ok_def)

lemma system_settling_competitor: "system_ok d \<Longrightarrow> find_job n d = Some j \<Longrightarrow> settling_competitor d n j c"
  by (simp add: settling_competitor_def system_ok_def)

text \<open>Jobs of a type no setup of the project waits for, or that belong to a location.\<close>

lemma unawaited_type: "JobType j \<notin> {BusinessProfileBootstrapJob, KeywordAnalysisJob, PromptGenerationJob, VisibilityRunJob} \<Longrightarrow> unawaited d j"
  by (auto simp: unawaited_def awaited_type_def project_job_def split: project_status.splits)

lemma unawaited_location: "JobLocation j = Some l \<Longrightarrow> unawaited d j"
  by (simp add: unawaited_def project_job_def)

lemma unawaited_audit: "JobAudit j = Some a \<Longrightarrow> audit_scope a d = Some (Some l) \<Longrightarrow> unawaited d j"
  by (auto simp: unawaited_def project_job_def)

text \<open>A location job: the owner of the job is the location, and its step is the one exempted.\<close>

lemma location_marked:
  assumes d: "system_ok d" "find_job n d = Some j" and owner: "\<And>i'. job_owner d j = Some (l, i') \<Longrightarrow> i' \<in> X"
  shows "location_ok X l (mark_ai_worker_job_completed n d)"
  by (rule location_ok_mark_completed [OF system_okD(1) [OF d(1)] d(2) system_okD(2) [OF d(1)] owner])

lemma audit_scope_of_job:
  assumes "is_location_visibility_job j d = Inr b" "JobAudit j = Some a"
  shows "b \<Longrightarrow> \<exists>l. audit_scope a d = Some (Some l)" "\<not> b \<Longrightarrow> audit_scope a d = Some None"
  using assms by (auto simp: is_location_visibility_job_def audit_scope_def split: option.splits)

lemma system_ok_location_visibility:
  assumes d: "system_ok d" and j: "find_job n d = Some j" "JobType j = VisibilityRunJob" "JobAudit j = Some a"
    and s: "audit_scope a d = Some (Some l)" and e: "finalize_visibility_run n a vis err d = Inr e"
  shows "system_ok e"
proof (rule system_ok_location_job [OF d loc_op_finalize_visibility_run j(1)])
  note t = system_okD(1) [OF d]
  show "tables_ok d" "finalize_visibility_run n a vis err d = Inr e" "audit_scope a d = Some (Some l)" by (fact t e s)+
  have owner: "job_owner d j = (if map_option LsAIAuditID (location_setup_rows d l) = Some (Some a) then Some (l, StepAIVisibility) else None)"
    by (simp add: job_owner_def j s)
  show "location_ok {} l e"
  proof (rule location_ok_finalize_visibility_run [OF system_okD(2) [OF d] _ s e t])
    show "location_ok {StepAIVisibility} l (mark_ai_worker_job_completed n d)"
      by (rule location_marked [OF d j(1)]) (simp add: owner split: if_splits)
    show "location_ok {} l (mark_ai_worker_job_completed n d)"
      if "location_setup_rows d l = Some r" "LsAIAuditID r \<noteq> Some a" for r
      by (rule location_marked [OF d j(1)]) (use that in \<open>simp add: owner\<close>)
  qed
  show "k = l" if "job_owner d j = Some (k, i)" for k i using that by (simp add: owner split: if_splits)
qed (use j s in \<open>simp_all add: unawaited_audit competitor_type_def\<close>)

lemma system_ok_local_run:
  assumes d: "system_ok d" and j: "find_job n d = Some j" "JobType j = LocalVisibilityJob" "JobLocalRun j = Some r"
    and e: "finalize_local_run n r err d = Inr e"
  shows "system_ok e"
proof -
  note t = system_okD(1) [OF d]
  have "run_scope r d \<noteq> None" using find_job_refs [OF d j(1)] j(3) by (simp add: job_refs_ok_def)
  then obtain l where s: "run_scope r d = Some l" by blast
  have owner: "job_owner d j = (if map_option LsMapsRunID (location_setup_rows d l) = Some (Some r) then Some (l, StepMapsVisibility) else None)"
    by (simp add: job_owner_def j s)
  show ?thesis
  proof (rule system_ok_location_job [OF d loc_op_finalize_local_run [OF t e s] j(1)])
    show "location_ok {} l e"
    proof (rule location_ok_finalize_local_run [OF system_okD(2) [OF d] _ s e t _ system_okD(3) [OF d]])
      show "location_ok {StepMapsVisibility} l (mark_ai_worker_job_completed n d)"
        by (rule location_marked [OF d j(1)]) (simp add: owner split: if_splits)
      show "location_ok {} l (mark_ai_worker_job_completed n d)"
        if "location_setup_rows d l = Some x" "LsMapsRunID x \<noteq> Some r" for x
        by (rule location_marked [OF d j(1)]) (use that in \<open>simp add: owner\<close>)
    qed
    show "k = l" if "job_owner d j = Some (k, i)" for k i using that by (simp add: owner split: if_splits)
  qed (use j in \<open>simp_all add: unawaited_type competitor_type_def\<close>)
qed

text \<open>The four step jobs of a location: one rule for their frame.\<close>

lemma system_ok_step_job:
  assumes d: "system_ok d" and j: "find_job n d = Some j" "JobLocation j = Some l"
    and i: "job_owner d j = Some (l, i)" and op: "loc_op (\<lambda>j. JobID j = n) l d e"
    and own: "location_ok {i} l (mark_ai_worker_job_completed n d) \<Longrightarrow> location_ok {} l e"
    and type: "\<not> competitor_type (JobType j)"
  shows "system_ok e"
proof (rule system_ok_location_job [OF d op j(1)])
  show "location_ok {} l e" by (rule own [OF location_marked [OF d j(1)]]) (simp add: i)
qed (use i j type in \<open>simp_all add: unawaited_location\<close>)

lemma system_ok_plain_completed:
  assumes d: "system_ok d" and j: "find_job n d = Some j" and u: "unawaited d j"
    and owner: "\<And>k i. job_owner d j \<noteq> Some (k, i)" and type: "\<not> competitor_type (JobType j)"
  shows "system_ok (mark_ai_worker_job_completed n d)" "system_ok (mark_ai_worker_job_failed n m d)"
  by (rule system_ok_project_job [OF d unawaited_completed [OF system_settling [OF d j] u] j owner];
      use type in simp)
    (rule system_ok_project_job [OF d unawaited_failed [OF system_settling [OF d j] u] j owner]; use type in simp)

lemmas settled_simps = finalize_job_success_def finalize_job_failure_def Let_def

lemma system_ok_success_step:
  assumes d: "system_ok d" and j: "find_job n d = Some j" and loc: "JobLocation j = Some l"
    and type: "JobType j \<in> {PromptGenerationJob, LocationProfileGenerationJob, MapQueryGenerationJob, LocationKeywordAnalysisJob}"
    and e: "finalize_job_success grid j vis d = Inr e"
  shows "system_ok e"
proof -
  note t = system_okD(1) [OF d] and frame = system_ok_step_job [OF d j loc]
  have id: "JobID j = n" using find_jobD [OF j] by simp
  consider (p) "JobType j = PromptGenerationJob" "finalize_questions_success l n d = Inr e"
    | (l) "JobType j = LocationProfileGenerationJob" "finalize_profile_success l n d = Inr e"
    | (m) "JobType j = MapQueryGenerationJob" "finalize_map_queries_success grid l n d = Inr e"
    | (k) "JobType j = LocationKeywordAnalysisJob" "location_finalize_keyword_analysis_success l n d = Inr e"
    using e type by (auto simp: settled_simps id loc)
  then show ?thesis
  proof cases
    case p
    show ?thesis by (rule frame [OF _ loc_op_finalize_questions [OF t p(2)] location_ok_finalize_questions [OF t _ p(2)]])
      (simp_all add: job_owner_def p(1) loc competitor_type_def)
  next
    case l
    show ?thesis by (rule frame [OF _ loc_op_finalize_profile [OF t l(2)] location_ok_finalize_profile [OF t _ l(2)]])
      (simp_all add: job_owner_def l(1) loc competitor_type_def)
  next
    case m
    show ?thesis by (rule frame [OF _ loc_op_finalize_map_queries [OF t m(2)] location_ok_finalize_map_queries [OF t _ m(2)]])
      (simp_all add: job_owner_def m(1) loc competitor_type_def)
  next
    case k
    show ?thesis by (rule frame [OF _ loc_op_finalize_keywords [OF t k(2)] location_ok_finalize_keywords [OF _ k(2)]])
      (simp_all add: job_owner_def k(1) loc competitor_type_def)
  qed
qed

text \<open>A job that lacks the reference its type needs is settled alone.\<close>

definition stray :: "job \<Rightarrow> bool" where
  "stray j =
     (JobType j = MapsVisibilityJob \<or> JobType j = LocalVisibilityJob \<and> JobLocalRun j = None
      \<or> JobType j \<in> {LocationProfileGenerationJob, MapQueryGenerationJob, LocationKeywordAnalysisJob} \<and> JobLocation j = None)"

lemma stray_unowned: "stray j \<Longrightarrow> job_owner d j \<noteq> Some (k, i)" "stray j \<Longrightarrow> unawaited d j" "stray j \<Longrightarrow> \<not> competitor_type (JobType j)"
  by (auto simp: stray_def job_owner_def competitor_type_def intro!: unawaited_type)

lemma system_ok_stray:
  assumes "system_ok d" "find_job n d = Some j" "stray j"
  shows "system_ok (mark_ai_worker_job_completed n d)" "system_ok (mark_ai_worker_job_failed n m d)"
  using system_ok_plain_completed [OF assms(1,2) stray_unowned(2) [OF assms(3)]] stray_unowned [OF assms(3)] by blast+

lemma system_ok_project_settled:
  assumes "system_ok d" "find_job n d = Some j" "settles_project n d e"
    "\<And>k i. job_owner d j \<noteq> Some (k, i)" "\<not> competitor_type (JobType j)"
  shows "system_ok e"
  by (rule system_ok_project_job [OF assms(1,3,2,4)]) (use assms(5) in simp)

lemma location_visibility_cases:
  assumes "is_location_visibility_job j d = Inr b" "JobType j = VisibilityRunJob"
  obtains (location) a l where "b" "JobAudit j = Some a" "audit_scope a d = Some (Some l)"
  | (project) "\<not> b" "\<And>k i. job_owner d j \<noteq> Some (k, i)"
proof (cases b)
  case True
  then obtain a where a: "JobAudit j = Some a" using assms(1) by (auto simp: is_location_visibility_job_def split: option.splits)
  then show ?thesis using audit_scope_of_job(1) [OF assms(1) a True] location True by blast
next
  case False
  have "audit_scope a d = Some None" if "JobAudit j = Some a" for a using audit_scope_of_job(2) [OF assms(1) that False] .
  then show ?thesis using project False by (simp add: job_owner_def assms(2) split: option.splits)
qed

lemma system_ok_success_visibility:
  assumes d: "system_ok d" and j: "find_job n d = Some j" and type: "JobType j = VisibilityRunJob"
    and e: "finalize_job_success grid j vis d = Inr e"
  shows "system_ok e"
proof -
  have id: "JobID j = n" using find_jobD [OF j] by simp
  obtain b where b: "is_location_visibility_job j d = Inr b"
    using e type by (cases "is_location_visibility_job j d") (simp_all add: settled_simps)
  then show ?thesis using type
  proof (cases rule: location_visibility_cases)
    case (location a l)
    then have "finalize_visibility_run n a vis None d = Inr e" using e type b by (simp add: settled_simps id)
    then show ?thesis by (rule system_ok_location_visibility [OF d j type location(2,3)])
  next
    case project
    then have "e = finalize_visibility_success n vis d" using e b type by (simp add: settled_simps id)
    then have "settles_project n d e" using settles_visibility_success [OF system_settling [OF d j] type] by simp
    then show ?thesis by (rule system_ok_project_settled [OF d j _ project(2)]) (simp add: competitor_type_def type)
  qed
qed

lemma system_ok_success_competitor:
  assumes d: "system_ok d" and j: "find_job n d = Some j" and type: "competitor_type (JobType j)"
    and e: "finalize_job_success grid j vis d = Inr e"
  shows "system_ok e"
proof -
  note c = system_settling_competitor [OF d j]
  have id: "JobID j = n" using find_jobD [OF j] by simp
  have owner: "job_owner d j \<noteq> Some (k, i)" "unawaited d j" for k i
    using type by (auto simp: job_owner_def competitor_type_def intro: unawaited_type)
  show ?thesis
  proof (cases "JobCompetitor j")
    case None
    then have "e = mark_ai_worker_job_failed n (Some ''competitor job has no competitor'') d"
      using e type by (auto simp: settled_simps id competitor_type_def)
    then have "settles_project n d e" using unawaited_failed [OF system_settling [OF d j] owner(2)] by simp
    then show ?thesis by (rule system_ok_project_job [OF d _ j owner(1)]) (simp add: None)
  next
    case (Some k)
    then have "settles_competitor n k d e"
      using e type settles_generation_success [OF c] settles_analysis_success [OF c]
      by (auto simp: settled_simps id competitor_type_def)
    then show ?thesis by (rule system_ok_competitor_job [OF d _ j owner(1,2) Some])
  qed
qed

lemma system_ok_success:
  assumes d: "system_ok d" and j: "find_job n d = Some j" and e: "finalize_job_success grid j vis d = Inr e"
  shows "system_ok e"
proof -
  note c = system_settling [OF d j]
  have id: "JobID j = n" using find_jobD [OF j] by simp
  consider (stray) "stray j" "e = mark_ai_worker_job_completed n d"
    | (step) l where "JobLocation j = Some l" "JobType j \<in> {PromptGenerationJob, LocationProfileGenerationJob, MapQueryGenerationJob, LocationKeywordAnalysisJob}"
    | (run) r where "JobType j = LocalVisibilityJob" "JobLocalRun j = Some r" "finalize_local_run n r None d = Inr e"
    | (audit) "JobType j = VisibilityRunJob"
    | (competitor) "competitor_type (JobType j)"
    | (project) "JobType j \<in> {BusinessProfileBootstrapJob, KeywordAnalysisJob}" "settles_project n d e"
    | (prompt) "JobType j = PromptGenerationJob" "JobLocation j = None" "settles_project n d e"
    using e settles_bootstrap_success [OF c] settles_keyword_analysis_success [OF c] settles_prompt_generation_success [OF c]
    by (cases "JobType j"; cases "JobLocation j"; cases "JobLocalRun j") (auto simp: settled_simps id stray_def competitor_type_def)
  then show ?thesis
  proof cases
    case stray
    then show ?thesis using system_ok_stray(1) [OF d j] by simp
  next
    case step
    then show ?thesis using system_ok_success_step [OF d j _ _ e] by blast
  next
    case run
    then show ?thesis using system_ok_local_run [OF d j] by blast
  next
    case audit
    then show ?thesis using system_ok_success_visibility [OF d j _ e] by blast
  next
    case competitor
    then show ?thesis using system_ok_success_competitor [OF d j _ e] by blast
  next
    case project
    then show ?thesis using system_ok_project_settled [OF d j] by (auto simp: job_owner_def competitor_type_def)
  next
    case prompt
    then show ?thesis using system_ok_project_settled [OF d j] by (auto simp: job_owner_def competitor_type_def)
  qed
qed

section \<open>Settling a job that failed\<close>

lemma system_ok_failure_step:
  assumes d: "system_ok d" and j: "find_job n d = Some j" and l: "JobLocation j = Some l"
    and type: "JobType j \<in> {PromptGenerationJob, LocationProfileGenerationJob, MapQueryGenerationJob, LocationKeywordAnalysisJob}"
    and e: "finalize_job_failure j m noKeywords d = Inr e"
  shows "system_ok e"
proof -
  note t = system_okD(1) [OF d] and frame = system_ok_step_job [OF d j l]
  have id: "JobID j = n" using find_jobD [OF j] by simp
  consider (fail) i where "job_owner d j = Some (l, i)" "fail_owned_job l n i m d = Inr e"
    | (nokeywords) "JobType j = LocationKeywordAnalysisJob" "finalize_keyword_analysis_empty l n d = Inr e"
    using e type by (cases noKeywords) (auto simp: settled_simps id l job_owner_def)
  then show ?thesis
  proof cases
    case (fail i)
    have "location_ok {} l e" by (rule location_ok_fail_owned_job [OF system_okD(2) [OF d] fail(2)])
    then show ?thesis
      by (intro frame [OF fail(1) loc_op_fail_owned_job [OF t fail(2)]]) (use type in \<open>auto simp: competitor_type_def\<close>)
  next
    case nokeywords
    show ?thesis
      by (rule frame [OF _ loc_op_finalize_keywords_empty [OF t nokeywords(2)] location_ok_finalize_keywords_empty [OF _ nokeywords(2)]])
        (simp_all add: job_owner_def nokeywords(1) l competitor_type_def)
  qed
qed

lemma system_ok_failure_visibility:
  assumes d: "system_ok d" and j: "find_job n d = Some j" and type: "JobType j = VisibilityRunJob"
    and e: "finalize_job_failure j m noKeywords d = Inr e"
  shows "system_ok e"
proof -
  have id: "JobID j = n" using find_jobD [OF j] by simp
  obtain b where b: "is_location_visibility_job j d = Inr b"
    using e type by (cases "is_location_visibility_job j d") (simp_all add: settled_simps)
  then show ?thesis using type
  proof (cases rule: location_visibility_cases)
    case (location a l)
    then have "finalize_visibility_run n a AuditFailed (Some m) d = Inr e" using e type b by (simp add: settled_simps id)
    then show ?thesis by (rule system_ok_location_visibility [OF d j type location(2,3)])
  next
    case project
    then have "e = finalize_visibility_failure n m d" using e b type by (simp add: settled_simps id)
    then have "settles_project n d e" using settles_failures(4) [OF system_settling [OF d j]] by (simp add: type awaited_type_def)
    then show ?thesis by (rule system_ok_project_settled [OF d j _ project(2)]) (simp add: competitor_type_def type)
  qed
qed

lemma system_ok_failure_competitor:
  assumes d: "system_ok d" and j: "find_job n d = Some j" and type: "competitor_type (JobType j)"
    and e: "finalize_job_failure j m noKeywords d = Inr e"
  shows "system_ok e"
proof -
  have id: "JobID j = n" using find_jobD [OF j] by simp
  obtain k where k: "JobCompetitor j = Some k"
    using e type by (auto simp: settled_simps competitor_type_def competitor_failure_def split: option.splits)
  have "settles_competitor n k d e"
    using e type settles_competitor_failure [OF system_settling_competitor [OF d j] id k]
    by (auto simp: settled_simps competitor_type_def)
  then show ?thesis
    by (rule system_ok_competitor_job [OF d _ j])
      (use type k in \<open>auto simp: job_owner_def competitor_type_def intro: unawaited_type\<close>)
qed

lemma system_ok_failure:
  assumes d: "system_ok d" and j: "find_job n d = Some j" and e: "finalize_job_failure j m noKeywords d = Inr e"
  shows "system_ok e"
proof -
  note c = system_settling [OF d j]
  have id: "JobID j = n" using find_jobD [OF j] by simp
  consider (stray) "stray j" "e = mark_ai_worker_job_failed n (Some (cap_setup_error_message m)) d"
    | (step) l where "JobLocation j = Some l" "JobType j \<in> {PromptGenerationJob, LocationProfileGenerationJob, MapQueryGenerationJob, LocationKeywordAnalysisJob}"
    | (run) r where "JobType j = LocalVisibilityJob" "JobLocalRun j = Some r" "finalize_local_run n r (Some m) d = Inr e"
    | (audit) "JobType j = VisibilityRunJob"
    | (competitor) "competitor_type (JobType j)"
    | (project) "JobType j \<in> {BusinessProfileBootstrapJob, KeywordAnalysisJob}" "settles_project n d e"
    | (prompt) "JobType j = PromptGenerationJob" "JobLocation j = None" "settles_project n d e"
    using e settles_failures [OF c]
    by (cases "JobType j"; cases "JobLocation j"; cases "JobLocalRun j")
      (auto simp: settled_simps id stray_def competitor_type_def awaited_type_def)
  then show ?thesis
  proof cases
    case stray
    then show ?thesis using system_ok_stray(2) [OF d j] by simp
  next
    case step
    then show ?thesis using system_ok_failure_step [OF d j _ _ e] by blast
  next
    case run
    then show ?thesis using system_ok_local_run [OF d j] by blast
  next
    case audit
    then show ?thesis using system_ok_failure_visibility [OF d j _ e] by blast
  next
    case competitor
    then show ?thesis using system_ok_failure_competitor [OF d j _ e] by blast
  next
    case project
    then show ?thesis using system_ok_project_settled [OF d j] by (auto simp: job_owner_def competitor_type_def)
  next
    case prompt
    then show ?thesis using system_ok_project_settled [OF d j] by (auto simp: job_owner_def competitor_type_def)
  qed
qed

end
