(* ===== verification/SystemReachable.thy ===== *)
theory SystemReachable
  imports SystemInvariant
begin

text \<open>The queue, the sweeps and the environment keep the invariant, and so every reachable state has it.\<close>

section \<open>Claiming a job\<close>

lemma claim_effect:
  assumes "claim_next_pending_ai_worker_job d = Some (j, e)"
  obtains k where "k \<in> set (ai_worker_jobs d)" "JobStatus k = JobPending" "j = k\<lparr>JobStatus := JobRunning\<rparr>"
    "e = set_job (JobID k) (\<lambda>j. j\<lparr>JobStatus := JobRunning\<rparr>) d"
proof -
  obtain k where k: "find (\<lambda>j. JobStatus j = JobPending) (ai_worker_jobs d) = Some k"
    and j: "j = k\<lparr>JobStatus := JobRunning\<rparr>" "e = set_job (JobID k) (\<lambda>j. j\<lparr>JobStatus := JobRunning\<rparr>) d"
    using assms by (auto simp: claim_next_pending_ai_worker_job_def split: option.splits)
  have "k \<in> set (ai_worker_jobs d)" "JobStatus k = JobPending" using k by (auto simp: find_Some_iff)
  then show ?thesis using that j by blast
qed

lemma system_ok_claim:
  assumes d: "system_ok d" and c: "claim_next_pending_ai_worker_job d = Some (j, e)"
  shows "system_ok e"
  using c
proof (rule claim_effect)
  fix k
  assume k: "k \<in> set (ai_worker_jobs d)" "JobStatus k = JobPending" "e = set_job (JobID k) (\<lambda>j. j\<lparr>JobStatus := JobRunning\<rparr>) d"
  define f where "f j = (if JobStatus j = JobPending \<and> JobID j = JobID k then j\<lparr>JobStatus := JobRunning\<rparr> else j)" for j :: job
  have "x = k" if "x \<in> set (ai_worker_jobs d)" "JobID x = JobID k" for x
    using that k(1) system_okD(1) [OF d] by (auto simp: tables_ok_def distinct_map inj_on_def)
  then have jobs: "ai_worker_jobs e = map f (ai_worker_jobs d)" using k(2,3) by (auto simp: f_def)
  have f: "job_key (f j) = job_key j" "job_active (f j) = job_active j" "JobStatus (f j) = JobCompleted \<longleftrightarrow> JobStatus j = JobCompleted"
    "JobType (f j) = JobType j" "JobCompetitor (f j) = JobCompetitor j" "JobID (f j) = JobID j" for j
    by (auto simp: f_def job_key_def job_active_def)
  have e: "project_setup_row e = project_setup_row d" "competitor_setup_rows e = competitor_setup_rows d" "crawl_rows e = crawl_rows d"
    "location_setup_rows e = location_setup_rows d" "project_locations e = project_locations d" "ai_audits e = ai_audits d"
    "local_visibility_runs e = local_visibility_runs d" "next_id e = next_id d" by (simp_all add: k(3))
  have scope: "audit_scope a e = audit_scope a d" for a by (simp add: audit_scope_def find_audit_def e(6))
  have "base_op (\<lambda>_. True) d e"
    by (rule base_op_map_jobs [OF system_okD(1) [OF d] jobs]) (use f in \<open>simp_all add: settles_only_def e scope\<close>)
  then have "tables_ok e" by (rule base_op_tables)
  moreover have "location_ok {} l e" for l
    by (rule location_ok_map_jobs [OF jobs f(1) _ keeps_scopes_same _ system_okD(2) [OF d]]) (use f(3) e in simp_all)
  moreover have "project_ok {} e"
  proof -
    have "project_job e t (f j) = project_job d t j" for t j using project_job_key [OF f(1)] scope by (simp add: project_job_def)
    then have "project_pending {} e t" if "project_pending {} d t" for t
      using that f(2) by (auto simp: project_pending_def jobs)
    then show ?thesis using system_okD(4) [OF d] by (auto simp: project_ok_def project_row_ok_def e(1,3) crawl_pending_def)
  qed
  moreover have "competitor_ok {} c e" for c
  proof -
    have "competitor_pending {} e c t" if "competitor_pending {} d c t" for t
      using that f by (auto simp: competitor_pending_def jobs)
    then show ?thesis using system_okD(5) [OF d, of c] by (auto simp: competitor_ok_def competitor_row_ok_def e(2))
  qed
  ultimately show ?thesis using system_okD(3) [OF d] by (simp add: system_ok_def e)
qed

section \<open>Reclaiming jobs\<close>

lemma location_audit_scope:
  assumes "tables_ok d"
  shows "location_audit (Some a) d \<longleftrightarrow> (\<exists>l. audit_scope a d = Some (Some l))"
proof -
  have u: "x = y" if "x \<in> set (ai_audits d)" "y \<in> set (ai_audits d)" "AuditID x = AuditID y" for x y
    using that assms by (auto simp: tables_ok_def distinct_map inj_on_def)
  show ?thesis
  proof
    assume "location_audit (Some a) d"
    then obtain x where x: "x \<in> set (ai_audits d)" "AuditID x = a" "AuditLocation x \<noteq> None"
      by (auto simp: location_audit_def list_ex_iff)
    then obtain y where y: "find_audit a d = Some y" by (cases "find_audit a d") (auto simp: find_audit_def find_None_iff)
    then have "y \<in> set (ai_audits d)" "AuditID y = a" by (auto simp: find_audit_def find_Some_iff)
    then have "y = x" using u x by blast
    then show "\<exists>l. audit_scope a d = Some (Some l)" using x(3) y by (auto simp: audit_scope_def)
  next
    assume "\<exists>l. audit_scope a d = Some (Some l)"
    then show "location_audit (Some a) d"
      by (auto simp: audit_scope_def location_audit_def list_ex_iff find_audit_def find_Some_iff)
  qed
qed

definition stale_job :: "(nat \<Rightarrow> bool) \<Rightarrow> job \<Rightarrow> bool" where
  "stale_job old = (\<lambda>j. JobStatus j = JobRunning \<and> old (JobID j))"

definition reclaimed :: "(nat \<Rightarrow> bool) \<Rightarrow> job \<Rightarrow> job" where
  "reclaimed old = (\<lambda>j. if stale_job old j then j\<lparr>JobStatus := JobFailed, JobError := Some ''reclaimed: worker restarted''\<rparr> else j)"

lemma reclaim_jobs_tables:
  fixes d old
  defines "e \<equiv> reclaim_stale_running_ai_worker_jobs old d" and "stale \<equiv> filter (stale_job old) (ai_worker_jobs d)"
  shows "ai_worker_jobs e = map (reclaimed old) (ai_worker_jobs d)" "crawl_rows e = crawl_rows d" "next_id e = next_id d"
    "location_setup_rows e = location_setup_rows d" "project_locations e = project_locations d"
    "local_visibility_runs e = local_visibility_runs d" "map AuditID (ai_audits e) = map AuditID (ai_audits d)"
    "audit_scope a e = audit_scope a d"
    "project_setup_row e = map_option (reclaim_project_setup d stale) (project_setup_row d)"
    "competitor_setup_rows e c = map_option (reclaim_competitor_setup stale c) (competitor_setup_rows d c)"
proof -
  define g where "g = fail_audits (\<lambda>a. audit_active a \<and> AuditLocation a \<noteq> None
      \<and> list_ex (\<lambda>j. JobType j = VisibilityRunJob \<and> JobAudit j = Some (AuditID a)) stale)
     ''reclaimed: worker restarted during location audit'' d"
  have e: "e = g\<lparr>ai_worker_jobs := map (reclaimed old) (ai_worker_jobs d),
      project_setup_row := map_option (reclaim_project_setup d stale) (project_setup_row d),
      competitor_setup_rows := (\<lambda>c. map_option (reclaim_competitor_setup stale c) (competitor_setup_rows d c))\<rparr>"
    unfolding e_def g_def stale_def reclaim_stale_running_ai_worker_jobs_def Let_def reclaimed_def stale_job_def by (rule refl)
  have "audit_scope a e = audit_scope a g" by (simp add: e audit_scope_def find_audit_def)
  then show "audit_scope a e = audit_scope a d" by (simp add: g_def)
qed (simp_all add: e_def stale_def reclaim_stale_running_ai_worker_jobs_def Let_def reclaimed_def stale_job_def)

lemma reclaimed_facts:
  "job_key (reclaimed old j) = job_key j" "job_active (reclaimed old j) \<Longrightarrow> job_active j" "stale_job old j \<or> reclaimed old j = j"
  "JobStatus j \<noteq> JobCompleted \<Longrightarrow> JobStatus (reclaimed old j) \<noteq> JobCompleted"
  by (auto simp: reclaimed_def job_key_def job_active_def split: if_splits)

lemma reclaims_project_job:
  assumes "tables_ok d" "project_job d t j" "awaited_type (PsStatus s) = Some t"
  shows "reclaims_project d s j"
proof -
  have "\<not> location_audit (JobAudit j) d"
    using assms(2) location_audit_scope [OF assms(1)] by (cases "JobAudit j") (auto simp: project_job_def location_audit_def)
  then show ?thesis using assms(2,3)
    by (cases "PsStatus s") (auto simp: reclaims_project_def project_job_def awaited_type_def reclaimed_step_def)
qed

lemma reclaim_project_failed:
  assumes "find (reclaims_project d s) stale = Some j"
  shows "project_row_ok X e (reclaim_project_setup d stale s)"
proof -
  have "reclaims_project d s j" using assms by (auto simp: find_Some_iff)
  then have "reclaimed_step (JobType j) \<noteq> None" by (auto simp: reclaims_project_def split: option.splits)
  then show ?thesis using assms
    by (auto simp: reclaim_project_setup_def project_row_ok_def project_shape_def awaited_type_def)
qed

lemma system_ok_reclaim_jobs:
  assumes d: "system_ok d"
  shows "system_ok (reclaim_stale_running_ai_worker_jobs old d)"
proof -
  let ?e = "reclaim_stale_running_ai_worker_jobs old d" and ?stale = "filter (stale_job old) (ai_worker_jobs d)"
  note t = system_okD(1) [OF d] and e = reclaim_jobs_tables [where d = d and old = old] and f = reclaimed_facts
  have "base_op (stale_job old) d ?e"
    by (rule base_op_map_jobs [OF t e(1)]) (use e f in \<open>simp_all add: settles_only_def\<close>)
  then have ev: "evolves (stale_job old) d ?e" and t': "tables_ok ?e" by (simp_all add: base_op_def)
  have k: "keeps_scopes d ?e" using ev by (auto elim: evolvesE)
  have "location_ok {} l ?e" for l
    by (rule location_ok_map_jobs [OF e(1) f(1) f(4) k _ system_okD(2) [OF d]]) (simp_all add: e(4))
  moreover have "project_ok {} ?e"
  proof (rule project_okI)
    fix s'
    assume "project_setup_row ?e = Some s'"
    then obtain s where s: "project_setup_row d = Some s" "s' = reclaim_project_setup d ?stale s" by (auto simp: e(9))
    show "project_row_ok {} ?e s'"
    proof (cases "find (reclaims_project d s) ?stale")
      case None
      have ok: "project_row_ok {} d s" using system_okD(4) [OF d] s(1) by (simp add: project_ok_def)
      have "project_pending {} ?e u" if "awaited_type (PsStatus s) = Some u" for u
      proof (rule project_pending_evolves [OF ev t])
        show "project_pending {} d u" using ok that by (simp add: project_row_ok_def)
        show "JobID j \<in> {}" if "j \<in> set (ai_worker_jobs d)" "stale_job old j" "project_job d u j" for j
          using None that(1,2) reclaims_project_job [OF t that(3) \<open>awaited_type (PsStatus s) = Some u\<close>] by (auto simp: find_None_iff)
      qed
      then have "project_row_ok {} ?e s" using ok by (auto simp: project_row_ok_def crawl_pending_def e(2))
      then show ?thesis using None s(2) by (simp add: reclaim_project_setup_def)
    qed (use s(2) reclaim_project_failed in simp)
  qed
  moreover have "competitor_ok {} c ?e" for c
  proof (cases "competitor_setup_rows d c")
    case (Some s)
    have ok: "competitor_row_ok {} d c s" using system_okD(5) [OF d] Some by (simp add: competitor_ok_def)
    have "competitor_row_ok {} ?e c (reclaim_competitor_setup ?stale c s)"
    proof (cases "find (reclaims_competitor c s) ?stale")
      case None
      have "competitor_pending {} ?e c u" if u: "competitor_awaits s = Some u" for u
      proof (rule competitor_pending_evolves [OF ev])
        show "competitor_pending {} d c u" using ok u by (simp add: competitor_row_ok_def)
        show "JobID j \<in> {}" if "j \<in> set (ai_worker_jobs d)" "stale_job old j" "JobType j = u" "JobCompetitor j = Some c" for j
        proof -
          have "reclaims_competitor c s j"
            using u that(3,4) by (auto simp: competitor_awaits_def reclaims_competitor_def split: if_splits)
          then show ?thesis using None that(1,2) by (auto simp: find_None_iff)
        qed
      qed
      then show ?thesis using ok None by (auto simp: competitor_row_ok_def reclaim_competitor_setup_def)
    next
      case (Some j)
      then have j: "reclaims_competitor c s j" by (auto simp: find_Some_iff)
      have "competitor_phase s \<in> competitor_phases" using ok by (simp add: competitor_row_ok_def)
      then have "competitor_phase (reclaim_competitor_setup ?stale c s) \<in> competitor_phases"
        using j Some by (auto simp: reclaims_competitor_def reclaim_competitor_setup_def competitor_phase_def competitor_phases_def)
      then show ?thesis using Some
        by (auto simp: reclaim_competitor_setup_def competitor_row_ok_def competitor_awaits_def)
    qed
    then show ?thesis using Some by (intro competitor_okI) (simp_all add: e(10))
  qed (simp add: competitor_ok_def e(10))
  ultimately show ?thesis using system_okD(3) [OF d] t' by (simp add: system_ok_def e)
qed

section \<open>The other steps\<close>

lemma system_ok_reclaim_audits: "system_ok d \<Longrightarrow> system_ok (reclaim_stale_running_ai_audits old d)"
proof (rule system_ok_project)
  assume d: "system_ok d"
  show "project_op d (reclaim_stale_running_ai_audits old d)" unfolding reclaim_stale_running_ai_audits_def
  proof (rule project_opI)
    show op: "base_op (\<lambda>_. False) d (fail_audits P m d)" for P m
      by (rule base_op_fail_audits [OF base_op_refl [OF system_okD(1) [OF d]]])
    show "project_ok {} (fail_audits P m d)" for P m
      by (rule project_ok_frame_empty [OF _ system_okD(1) [OF d] system_okD(4) [OF d]])
        (use op in \<open>simp_all add: base_op_def crawl_pending_def\<close>)
  qed simp
qed

lemma find_map: "find P (map g xs) = map_option g (find (\<lambda>x. P (g x)) xs)"
  by (induction xs) auto

lemma environment_scopes:
  assumes "environment d e"
  shows "audit_scope a e = audit_scope a d" "run_scope r e = run_scope r d"
    "map AuditID (ai_audits e) = map AuditID (ai_audits d)" "map RunID (local_visibility_runs e) = map RunID (local_visibility_runs d)"
proof -
  let ?g = "\<lambda>a. (AuditID a, AuditCrawl a, AuditLocation a)" and ?h = "\<lambda>r. (RunID r, RunLocation r)"
  have g: "map ?g (ai_audits e) = map ?g (ai_audits d)" and h: "map ?h (local_visibility_runs e) = map ?h (local_visibility_runs d)"
    using assms by (simp_all add: environment_def)
  have "audit_scope a x = map_option (snd \<circ> snd) (find (\<lambda>p. fst p = a) (map ?g (ai_audits x)))" for x :: db
    unfolding find_map by (simp add: audit_scope_def find_audit_def option.map_comp o_def)
  then show "audit_scope a e = audit_scope a d" using g by simp
  have "run_scope r x = map_option snd (find (\<lambda>p. fst p = r) (map ?h (local_visibility_runs x)))" for x :: db
    unfolding find_map by (simp add: run_scope_def find_run_def option.map_comp o_def)
  then show "run_scope r e = run_scope r d" using h by simp
  show "map AuditID (ai_audits e) = map AuditID (ai_audits d)" using arg_cong [OF g, of "map fst"] by (simp add: o_def)
  show "map RunID (local_visibility_runs e) = map RunID (local_visibility_runs d)" using arg_cong [OF h, of "map fst"] by (simp add: o_def)
qed

lemma system_ok_environment:
  assumes d: "system_ok d" and env: "environment d e"
  shows "system_ok e"
proof -
  have e: "ai_worker_jobs e = map id (ai_worker_jobs d)" "crawl_rows e = crawl_rows d" "project_setup_row e = project_setup_row d"
    "competitor_setup_rows e = competitor_setup_rows d" "location_setup_rows e = location_setup_rows d" "next_id e = next_id d"
    "\<And>l. project_locations e l = None \<longleftrightarrow> project_locations d l = None"
    using env by (simp_all add: environment_def)
  note s = environment_scopes [OF env]
  have t: "tables_ok e"
    by (rule tables_ok_map_jobs [OF system_okD(1) [OF d] e(1)]) (use e s in simp_all)
  have ev: "evolves (\<lambda>_. False) d e"
    by (rule evolvesI [where f = id and new = "[]"]) (use e s in \<open>simp_all add: keeps_scopes_def\<close>)
  have "location_ok {} l e" for l
    by (rule location_ok_frame [OF ev _ system_okD(2) [OF d] system_okD(1) [OF d]]) (simp_all add: e(5))
  moreover have "project_ok {} e"
    by (rule project_ok_frame_empty [OF ev system_okD(1) [OF d] system_okD(4) [OF d] e(3)]) (simp add: crawl_pending_def e(2))
  moreover have "competitor_ok {} c e" for c
    by (rule competitor_ok_frame [OF ev system_okD(5) [OF d]]) (simp_all add: e(4))
  ultimately show ?thesis using t system_okD(3) [OF d] e(5,7) by (simp add: system_ok_def)
qed

lemma system_ok_empty: "empty_db d \<Longrightarrow> system_ok d"
  by (simp add: empty_db_def system_ok_def tables_ok_def location_ok_def project_ok_def competitor_ok_def sole_active_def)

lemma system_ok_location_job_request: "system_ok d \<Longrightarrow> system_ok (enqueue_location_job l t d)"
proof (rule system_ok_location)
  assume d: "system_ok d"
  show op: "loc_op (\<lambda>_. False) l d (enqueue_location_job l t d)" by (rule loc_op_enqueue [OF loc_op_refl [OF system_okD(1) [OF d]]])
  show "location_ok {} l (enqueue_location_job l t d)"
  proof (rule location_ok_frame [OF _ _ system_okD(2) [OF d] system_okD(1) [OF d]])
    show "evolves (\<lambda>_. False) d (enqueue_location_job l t d)" using op by (simp add: loc_op_def)
  qed (simp_all add: enqueue_location_job_def)
qed

lemma system_ok_step:
  assumes "system_step grid s t" "system_ok (fst s)"
  shows "system_ok (fst t)"
  using assms
proof (induction rule: system_step.induct)
  case (Claim d j e C)
  then show ?case using system_ok_claim by simp
next
  case (Success i C d j vis e)
  then show ?case using system_ok_success by simp
next
  case (Failure i C d j message keywordsEmpty e)
  then show ?case using system_ok_failure by simp
next
  case (LaunchLocation l d e C)
  then show ?case
    using system_ok_location [OF _ loc_op_launch_unfinished location_ok_launch_unfinished] system_okD(1,2) [of d] by fastforce
next
  case (StartLocation l user differences d s started e C)
  then show ?case
    using system_ok_location [OF _ loc_op_location_start location_ok_start] system_okD(1,2) [of d] by fastforce
next
  case (ReclaimLocation d C l)
  then show ?case
    using system_ok_location [OF _ loc_op_reclaim_setup location_ok_reclaim] system_okD(1,2) [of d] by fastforce
next
  case (StartProject user d ps started e C)
  then show ?case using system_ok_project [OF _ project_op_start] system_okD [of d] by fastforce
next
  case (ManualAudit crawl location user d e C)
  then show ?case using system_ok_project [OF _ project_op_manual_audit] system_okD [of d] by fastforce
next
  case (ManualCrawl d i e C)
  then show ?case using system_ok_project [OF _ project_op_insert_crawl] system_okD [of d] by fastforce
next
  case (CrawlCancels i d e C)
  then show ?case using system_ok_project [OF _ project_op_cancel_crawl] system_okD [of d] by fastforce
next
  case (StartCompetitor c user parent d cs started e C)
  then show ?case using system_ok_competitor [OF _ competitor_moves_start] system_okD [of d] by fastforce
next
  case (ReconcileCompetitor c d cs e C)
  then show ?case using system_ok_competitor [OF _ competitor_moves_sweep] system_okD [of d] by fastforce
next
  case (CompetitorCrawl c parent d i e C)
  have "competitor_op (\<lambda>_. False) c d e" "competitor_setup_rows e = competitor_setup_rows d"
    using enqueue_initialization_crawl_op CompetitorCrawl system_okD(1) [of d] by auto
  moreover have "competitor_ok {} c e"
    by (rule competitor_ok_frame [of "\<lambda>_. False" d]) (use calculation CompetitorCrawl system_okD(5) [of d] in \<open>auto simp: competitor_op_def base_op_def\<close>)
  ultimately show ?case using system_ok_competitor [of d c e] CompetitorCrawl by (simp add: competitor_moves_def)
next
  case (Environment d e C)
  then show ?case using system_ok_environment by simp
qed (simp_all add: system_ok_reclaim_jobs system_ok_reclaim_audits system_ok_location_job_request
    system_ok_project [OF _ project_op_create] system_ok_project [OF _ project_op_enqueue]
    system_ok_project [OF _ project_op_crawl_running] system_ok_project [OF _ project_op_crawl_completed]
    system_ok_project [OF _ project_op_crawl_failed] system_ok_project [OF _ project_op_reclaim_crawls] system_okD)

lemma reachable_system_ok: "system_reachable grid s \<Longrightarrow> system_ok (fst s)"
  by (induction rule: system_reachable.induct) (simp_all add: system_ok_empty system_ok_step)

end
