(* ===== verification/WorkerIsolation.thy ===== *)
theory WorkerIsolation
  imports SystemReachable
begin

text \<open>Settling a job changes at most the setup it belongs to, and a completed setup never changes again.\<close>

section \<open>Isolation\<close>

datatype setup_key = ProjectKey | CompetitorKey nat | LocationKey nat

definition changed :: "db \<Rightarrow> db \<Rightarrow> setup_key \<Rightarrow> bool" where
  "changed d e k =
     (case k of
        ProjectKey \<Rightarrow> project_setup_row e \<noteq> project_setup_row d
      | CompetitorKey c \<Rightarrow> competitor_setup_rows e c \<noteq> competitor_setup_rows d c
      | LocationKey l \<Rightarrow> location_setup_rows e l \<noteq> location_setup_rows d l)"

text \<open>The only setup whose row settling a job looks at, from the job's type and references.\<close>

definition settled_setup :: "db \<Rightarrow> job \<Rightarrow> setup_key option" where
  "settled_setup d j =
     (case JobType j of
        BusinessProfileBootstrapJob \<Rightarrow> Some ProjectKey
      | KeywordAnalysisJob \<Rightarrow> Some ProjectKey
      | PromptGenerationJob \<Rightarrow> (case JobLocation j of None \<Rightarrow> Some ProjectKey | Some l \<Rightarrow> Some (LocationKey l))
      | VisibilityRunJob \<Rightarrow>
          (case JobAudit j of
             None \<Rightarrow> Some ProjectKey
           | Some a \<Rightarrow> (case audit_scope a d of Some (Some l) \<Rightarrow> Some (LocationKey l) | _ \<Rightarrow> Some ProjectKey))
      | MapsVisibilityJob \<Rightarrow> None
      | LocalVisibilityJob \<Rightarrow>
          (case JobLocalRun j of None \<Rightarrow> None | Some r \<Rightarrow> map_option LocationKey (run_scope r d))
      | LocationProfileGenerationJob \<Rightarrow> map_option LocationKey (JobLocation j)
      | MapQueryGenerationJob \<Rightarrow> map_option LocationKey (JobLocation j)
      | LocationKeywordAnalysisJob \<Rightarrow> map_option LocationKey (JobLocation j)
      | CompetitorKeywordGenerationJob \<Rightarrow> map_option CompetitorKey (JobCompetitor j)
      | CompetitorKeywordAnalysisJob \<Rightarrow> map_option CompetitorKey (JobCompetitor j))"

lemma changed_loc_op: "loc_op S l d e \<Longrightarrow> changed d e k \<Longrightarrow> k = LocationKey l"
  by (cases k) (auto simp: changed_def loc_op_def)

lemma changed_project: "settles_project n d e \<Longrightarrow> changed d e k \<Longrightarrow> k = ProjectKey"
  by (cases k) (auto simp: changed_def settles_project_def base_op_def)

lemma changed_competitor: "settles_competitor n c d e \<Longrightarrow> changed d e k \<Longrightarrow> k = CompetitorKey c"
  by (cases k) (auto simp: changed_def settles_competitor_def competitor_op_def base_op_def)

lemma changed_mark [simp]:
  "\<not> changed d (mark_ai_worker_job_completed n d) k" "\<not> changed d (mark_ai_worker_job_failed n m d) k"
  by (cases k; simp add: changed_def mark_ai_worker_job_completed_def mark_ai_worker_job_failed_def)+

text \<open>A worker settles a job as succeeded or as failed.\<close>

definition settles :: "grid \<Rightarrow> job \<Rightarrow> db \<Rightarrow> db \<Rightarrow> bool" where
  "settles grid j d e =
     ((\<exists>vis. finalize_job_success grid j vis d = Inr e) \<or> (\<exists>m k. finalize_job_failure j m k d = Inr e))"

definition alone :: "nat \<Rightarrow> db \<Rightarrow> db \<Rightarrow> bool" where
  "alone n d e = (e = mark_ai_worker_job_completed n d \<or> (\<exists>m. e = mark_ai_worker_job_failed n m d))"

lemma aloneI [simp]: "alone n d (mark_ai_worker_job_completed n d)" "alone n d (mark_ai_worker_job_failed n m d)"
  by (auto simp: alone_def)

lemma settles_step_frame:
  assumes t: "tables_ok d" and loc: "JobLocation j = Some l" and e: "settles grid j d e"
    and type: "JobType j \<in> {PromptGenerationJob, LocationProfileGenerationJob, MapQueryGenerationJob, LocationKeywordAnalysisJob}"
  shows "loc_op (\<lambda>x. JobID x = JobID j) l d e"
  using e type loc_op_finalize_questions [OF t] loc_op_finalize_profile [OF t] loc_op_finalize_map_queries [OF t]
    loc_op_finalize_keywords [OF t] loc_op_finalize_keywords_empty [OF t] loc_op_fail_owned_job [OF t]
  by (auto simp: settles_def settled_simps loc split: if_splits)

lemma settles_run_frame:
  assumes t: "tables_ok d" and r: "JobLocalRun j = Some r" "run_scope r d = Some l" and e: "settles grid j d e"
    and type: "JobType j = LocalVisibilityJob"
  shows "loc_op (\<lambda>x. JobID x = JobID j) l d e"
  using e type loc_op_finalize_local_run [OF t _ r(2)] by (auto simp: settles_def settled_simps r)

lemma settles_audit_frame:
  assumes t: "tables_ok d" and a: "JobAudit j = Some a" "audit_scope a d = Some (Some l)" and e: "settles grid j d e"
    and type: "JobType j = VisibilityRunJob"
  shows "loc_op (\<lambda>x. JobID x = JobID j) l d e"
proof -
  have "is_location_visibility_job j d = Inr True"
    using a by (auto simp: is_location_visibility_job_def audit_scope_def split: option.splits)
  then show ?thesis using e type loc_op_finalize_visibility_run [OF t _ a(2)] by (auto simp: settles_def settled_simps a(1))
qed

lemma settles_project_frame:
  assumes c: "settling d n j" and e: "settles grid j d e"
    and type: "JobType j \<in> {BusinessProfileBootstrapJob, KeywordAnalysisJob} \<or> JobType j = PromptGenerationJob \<and> JobLocation j = None"
  shows "settles_project n d e"
proof -
  have id: "JobID j = n" using c by (auto simp: settling_def dest: find_jobD)
  show ?thesis
    using e type settles_failures [OF c] settles_bootstrap_success [OF c] settles_keyword_analysis_success [OF c]
      settles_prompt_generation_success [OF c]
    by (auto simp: settles_def settled_simps id awaited_type_def)
qed

lemma settles_project_audit_frame:
  assumes c: "settling d n j" and a: "\<And>a l. JobAudit j = Some a \<Longrightarrow> audit_scope a d \<noteq> Some (Some l)" and e: "settles grid j d e"
    and type: "JobType j = VisibilityRunJob"
  shows "settles_project n d e"
proof -
  have id: "JobID j = n" using c by (auto simp: settling_def dest: find_jobD)
  obtain b where b: "is_location_visibility_job j d = Inr b"
    using e type by (cases "is_location_visibility_job j d") (auto simp: settles_def settled_simps)
  have "\<not> b" using a b by (auto simp: is_location_visibility_job_def audit_scope_def split: option.splits)
  then show ?thesis using e type settles_failures(4) [OF c] settles_visibility_success [OF c type] b
    by (auto simp: settles_def settled_simps id awaited_type_def)
qed

lemma settles_competitor_frame:
  assumes c: "settling_competitor d n j q" and q: "JobCompetitor j = Some q" and e: "settles grid j d e" and type: "competitor_type (JobType j)"
  shows "settles_competitor n q d e"
proof -
  have id: "JobID j = n" using c by (auto simp: settling_competitor_def dest: find_jobD)
  show ?thesis
    using e type settles_generation_success [OF c] settles_analysis_success [OF c] settles_competitor_failure [OF c id q]
    by (auto simp: settles_def settled_simps id q competitor_type_def)
qed

lemma settles_alone:
  assumes id: "JobID j = n" and e: "settles grid j d e" and type: "stray j \<or> competitor_type (JobType j) \<and> JobCompetitor j = None"
  shows "alone n d e"
  using e type by (auto simp: settles_def settled_simps stray_def competitor_type_def competitor_failure_def id)

text \<open>Which frame holds for a job.\<close>

lemma job_cases:
  assumes "tables_ok d" "j \<in> set (ai_worker_jobs d)"
  obtains (step) l where "JobLocation j = Some l" "settled_setup d j = Some (LocationKey l)"
      "JobType j \<in> {PromptGenerationJob, LocationProfileGenerationJob, MapQueryGenerationJob, LocationKeywordAnalysisJob}"
  | (run) r l where "JobLocalRun j = Some r" "run_scope r d = Some l" "JobType j = LocalVisibilityJob" "settled_setup d j = Some (LocationKey l)"
  | (audit) a l where "JobAudit j = Some a" "audit_scope a d = Some (Some l)" "JobType j = VisibilityRunJob"
      "settled_setup d j = Some (LocationKey l)"
  | (project) "JobType j \<in> {BusinessProfileBootstrapJob, KeywordAnalysisJob} \<or> JobType j = PromptGenerationJob \<and> JobLocation j = None"
      "settled_setup d j = Some ProjectKey"
  | (crawl_audit) "JobType j = VisibilityRunJob" "\<And>a l. JobAudit j = Some a \<Longrightarrow> audit_scope a d \<noteq> Some (Some l)"
      "settled_setup d j = Some ProjectKey"
  | (competitor) q where "JobCompetitor j = Some q" "competitor_type (JobType j)" "settled_setup d j = Some (CompetitorKey q)"
  | (other) "stray j \<or> competitor_type (JobType j) \<and> JobCompetitor j = None"
proof (cases "JobType j = VisibilityRunJob")
  case True
  show ?thesis
  proof (cases "\<exists>a l. JobAudit j = Some a \<and> audit_scope a d = Some (Some l)")
    case scoped: True
    then obtain a l where a: "JobAudit j = Some a" "audit_scope a d = Some (Some l)" by blast
    show ?thesis by (rule audit [OF a True]) (simp add: settled_setup_def True a)
  next
    case False
    show ?thesis by (rule crawl_audit [OF True]) (use False in \<open>auto simp: settled_setup_def True split: option.splits\<close>)
  qed
next
  case False
  have "run_scope r d \<noteq> None" if "JobLocalRun j = Some r" for r
    using assms that by (auto simp: tables_ok_def job_refs_ok_def)
  then show ?thesis
    using step run project competitor other False
    by (cases "JobType j"; cases "JobLocation j"; cases "JobLocalRun j"; cases "JobCompetitor j")
      (auto simp: settled_setup_def stray_def competitor_type_def)
qed

lemma isolated:
  assumes d: "system_ok d" and j: "find_job n d = Some j" and e: "settles grid j d e" and k: "changed d e k"
  shows "settled_setup d j = Some k"
proof -
  note t = system_okD(1) [OF d] and c = system_settling [OF d j]
  have id: "JobID j = n" "j \<in> set (ai_worker_jobs d)" using find_jobD [OF j] by simp_all
  from t id(2) show ?thesis
  proof (cases rule: job_cases)
    case (step l)
    then show ?thesis using changed_loc_op [OF settles_step_frame [OF t step(1) e step(3)] k] by simp
  next
    case (run r l)
    then show ?thesis using changed_loc_op [OF settles_run_frame [OF t run(1,2) e run(3)] k] by simp
  next
    case (audit a l)
    then show ?thesis using changed_loc_op [OF settles_audit_frame [OF t audit(1,2) e audit(3)] k] by simp
  next
    case project
    then show ?thesis using changed_project [OF settles_project_frame [OF c e project(1)] k] by simp
  next
    case crawl_audit
    then show ?thesis using changed_project [OF settles_project_audit_frame [OF c crawl_audit(2) e crawl_audit(1)] k] by simp
  next
    case (competitor q)
    then show ?thesis
      using changed_competitor [OF settles_competitor_frame [OF system_settling_competitor [OF d j] competitor(1) e competitor(2)] k] by simp
  next
    case other
    then show ?thesis using settles_alone [OF id(1) e other] k by (auto simp: alone_def)
  qed
qed

section \<open>Completed setups\<close>

definition completed :: "db \<Rightarrow> setup_key \<Rightarrow> bool" where
  "completed d k =
     (case k of
        ProjectKey \<Rightarrow> map_option PsStatus (project_setup_row d) = Some ProjectCompleted
      | CompetitorKey c \<Rightarrow> map_option CsStatus (competitor_setup_rows d c) = Some StatusCompleted
      | LocationKey l \<Rightarrow> map_option LsStatus (location_setup_rows d l) = Some StatusCompleted)"

text \<open>A completed location has no running step.\<close>

definition idle :: "nat \<Rightarrow> db \<Rightarrow> bool" where
  "idle l d = (\<forall>s. location_setup_rows d l = Some s \<longrightarrow> (\<forall>i. LsSteps s i \<noteq> StepRunning))"

lemma completed_idle:
  assumes "location_ok {} l d" "completed d (LocationKey l)"
  shows "idle l d"
  unfolding idle_def
proof (intro allI impI)
  fix s i
  assume s: "location_setup_rows d l = Some s"
  then have "overall_status (LsSteps s) = StatusCompleted"
    using location_okD(2) [OF assms(1) s] assms(2) by (simp add: completed_def status_ok_def)
  then have "LsSteps s i = StepCompleted \<or> LsSteps s i = StepSkipped" unfolding overall_status_iff by blast
  then show "LsSteps s i \<noteq> StepRunning" by auto
qed

lemma idle_settle: "idle l d \<Longrightarrow> settle_step l i advance d = Inr e \<Longrightarrow> e = d"
  by (auto simp: idle_def settle_step_def split: option.splits)

lemma idle_cong: "location_setup_rows e = location_setup_rows d \<Longrightarrow> idle l e = idle l d"
  by (simp add: idle_def)

lemma mark_rows [simp]:
  "location_setup_rows (mark_ai_worker_job_completed n d) = location_setup_rows d"
  "location_setup_rows (mark_ai_worker_job_failed n m d) = location_setup_rows d"
  "project_setup_row (mark_ai_worker_job_completed n d) = project_setup_row d"
  "project_setup_row (mark_ai_worker_job_failed n m d) = project_setup_row d"
  "competitor_setup_rows (mark_ai_worker_job_completed n d) = competitor_setup_rows d"
  "competitor_setup_rows (mark_ai_worker_job_failed n m d) = competitor_setup_rows d"
  by (simp_all add: mark_ai_worker_job_completed_def mark_ai_worker_job_failed_def)

lemma idle_marked [simp]:
  "idle l (mark_ai_worker_job_completed n d) = idle l d" "idle l (mark_ai_worker_job_failed n m d) = idle l d"
  "idle l (fail_audits P q d) = idle l d"
  by (simp_all add: idle_def)

lemma idle_settles_step:
  assumes "idle l d" "JobLocation j = Some l" "settles grid j d e"
    "JobType j \<in> {PromptGenerationJob, LocationProfileGenerationJob, MapQueryGenerationJob, LocationKeywordAnalysisJob}"
  shows "location_setup_rows e = location_setup_rows d"
  using assms
  by (auto simp: settles_def settled_simps finalize_questions_success_def finalize_profile_success_def finalize_map_queries_success_def
      location_finalize_keyword_analysis_success_def finalize_keyword_analysis_empty_def fail_owned_job_def
      dest!: idle_settle [rotated] split: if_splits)

lemma idle_settles_run:
  assumes "idle l d" "JobLocalRun j = Some r" "run_scope r d = Some l" "settles grid j d e" "JobType j = LocalVisibilityJob"
  shows "location_setup_rows e = location_setup_rows d"
proof -
  have "location_setup_rows e = location_setup_rows d" if "finalize_local_run n r err d = Inr e" for n err
  proof -
    let ?d1 = "case err of Some m \<Rightarrow> mark_ai_worker_job_failed n (Some (cut_error m)) d | None \<Rightarrow> mark_ai_worker_job_completed n d"
    have "find_run r ?d1 = find_run r d"
      by (simp add: find_run_def mark_ai_worker_job_completed_def mark_ai_worker_job_failed_def split: option.splits)
    moreover obtain x where "find_run r d = Some x" "RunLocation x = l" using run_scopeD [OF assms(3)] by blast
    ultimately have x: "find_run r ?d1 = Some x" "RunLocation x = l" by simp_all
    have "idle l ?d1" using assms(1) by (simp split: option.splits)
    then have "e = ?d1" using that idle_settle unfolding finalize_local_run_def Let_def x option.case by (auto split: if_splits)
    then show ?thesis by (simp split: option.splits)
  qed
  then show ?thesis using assms(2,4,5) by (auto simp: settles_def settled_simps)
qed

lemma idle_settles_audit:
  assumes "idle l d" "JobAudit j = Some a" "audit_scope a d = Some (Some l)" "settles grid j d e" "JobType j = VisibilityRunJob"
  shows "location_setup_rows e = location_setup_rows d"
proof -
  have "location_setup_rows e = location_setup_rows d" if e: "finalize_visibility_run n a vis err d = Inr e" for n vis err
  proof -
    let ?d1 = "case err of Some m \<Rightarrow> fail_audits (\<lambda>x. AuditID x = a \<and> audit_active x) (cut_error m)
                (mark_ai_worker_job_failed n (Some (cut_error m)) d) | None \<Rightarrow> mark_ai_worker_job_completed n d"
    have "audit_scope a (mark_ai_worker_job_completed n d) = audit_scope a d" "audit_scope a (mark_ai_worker_job_failed n m d) = audit_scope a d" for m
      by (simp_all add: audit_scope_def find_audit_def mark_ai_worker_job_completed_def mark_ai_worker_job_failed_def)
    then have "audit_scope a ?d1 = Some (Some l)" using assms(3) by (simp split: option.splits)
    then obtain x where x: "find_audit a ?d1 = Some x" "AuditLocation x = Some l" using audit_scopeD by blast
    have "idle l ?d1" using assms(1) by (simp split: option.splits)
    then have "e = ?d1" using e unfolding finalize_visibility_run_def Let_def x option.case by (rule idle_settle)
    then show ?thesis by (simp split: option.splits)
  qed
  moreover have "is_location_visibility_job j d = Inr True"
    using assms(2,3) by (auto simp: is_location_visibility_job_def audit_scope_def split: option.splits)
  ultimately show ?thesis using assms(2,4,5) by (auto simp: settles_def settled_simps)
qed

lemma update_project_other:
  "(\<And>s. project_setup_row d = Some s \<Longrightarrow> PsStatus s \<noteq> UpdExpected arg) \<Longrightarrow> update_project_setup_status arg d = None"
  by (cases "project_setup_row d") (simp_all add: update_project_setup_status_def)

text \<open>The project's row moves only while its status waits for a job of the type that is settled.\<close>

definition project_awaits :: "db \<Rightarrow> job \<Rightarrow> bool" where
  "project_awaits d j = (\<exists>s. project_setup_row d = Some s \<and> awaited_type (PsStatus s) = Some (JobType j))"

lemma unawaited_update:
  "\<not> project_awaits d j \<Longrightarrow> awaited_type (UpdExpected arg) = Some (JobType j) \<Longrightarrow>
     update_project_setup_status arg (mark_ai_worker_job_failed n m d) = None"
  by (rule update_project_other) (auto simp: project_awaits_def)

lemma unawaited_settles_project:
  assumes n: "\<not> project_awaits d j" and e: "settles grid j d e"
    and type: "JobType j \<in> {BusinessProfileBootstrapJob, KeywordAnalysisJob} \<or> JobType j = PromptGenerationJob \<and> JobLocation j = None"
  shows "project_setup_row e = project_setup_row d"
proof -
  note unawaited_update [OF n, simp]
  show ?thesis using e type n
    by (auto simp: settles_def settled_simps finalize_bootstrap_success_def finalize_keyword_analysis_success_def
        finalize_prompt_generation_success_def finalize_bootstrap_failure_def finalize_keyword_analysis_failure_def
        finalize_prompt_generation_failure_def fail_setup_at_step_def mark_job_failed_def transition_def awaited_type_def
        project_awaits_def split: option.splits if_splits)
qed

lemma unawaited_settles_audit:
  assumes n: "\<not> project_awaits d j" and e: "settles grid j d e"
    and type: "JobType j = VisibilityRunJob" and a: "\<And>a l. JobAudit j = Some a \<Longrightarrow> audit_scope a d \<noteq> Some (Some l)"
  shows "project_setup_row e = project_setup_row d"
proof -
  obtain b where b: "is_location_visibility_job j d = Inr b"
    using e type by (cases "is_location_visibility_job j d") (auto simp: settles_def settled_simps)
  have "\<not> b" using a b by (auto simp: is_location_visibility_job_def audit_scope_def split: option.splits)
  then show ?thesis using e type n b
    by (auto simp: settles_def settled_simps finalize_visibility_success_def finalize_visibility_failure_def fail_setup_at_step_def
        mark_job_failed_def transition_def unawaited_update [OF n] awaited_type_def project_awaits_def split: option.splits if_splits)
qed

lemma completed_unawaited: "completed d ProjectKey \<Longrightarrow> \<not> project_awaits d j"
  by (auto simp: completed_def project_awaits_def awaited_type_def)

lemma completed_settles_competitor:
  assumes "map_option CsStatus (competitor_setup_rows d q) = Some StatusCompleted" "JobCompetitor j = Some q" "settles grid j d e"
    "competitor_type (JobType j)"
  shows "competitor_setup_rows e = competitor_setup_rows d"
  using assms
  by (auto simp: settles_def settled_simps competitor_type_def finalize_generation_success_def finalize_analysis_success_def
      competitor_failure_def finalize_step_failure_def split: option.splits)

lemma completed_settles:
  assumes d: "system_ok d" and j: "find_job n d = Some j" and e: "settles grid j d e" and k: "completed d k"
  shows "\<not> changed d e k"
proof
  assume ch: "changed d e k"
  have own: "settled_setup d j = Some k" by (rule isolated [OF d j e ch])
  note idle = completed_idle [OF system_okD(2) [OF d]]
  have jd: "JobID j = n" "j \<in> set (ai_worker_jobs d)" using find_jobD [OF j] by simp_all
  from system_okD(1) [OF d] jd(2) show False
  proof (cases rule: job_cases)
    case (step l)
    then show False using idle_settles_step [OF idle step(1) e step(3)] own k ch by (auto simp: changed_def)
  next
    case (run r l)
    then show False using idle_settles_run [OF idle run(1,2) e run(3)] own k ch by (auto simp: changed_def)
  next
    case (audit a l)
    then show False using idle_settles_audit [OF idle audit(1,2) e audit(3)] own k ch by (auto simp: changed_def)
  next
    case project
    then show False using unawaited_settles_project [OF completed_unawaited e project(1)] own k ch by (auto simp: changed_def)
  next
    case crawl_audit
    then show False using unawaited_settles_audit [OF completed_unawaited e crawl_audit(1,2)] own k ch by (auto simp: changed_def)
  next
    case (competitor q)
    then show False using completed_settles_competitor [OF _ competitor(1) e competitor(2)] own k ch by (auto simp: changed_def completed_def)
  next
    case other
    then show False using settles_alone [OF jd(1) e other] ch by (auto simp: alone_def)
  qed
qed

section \<open>What a row that moves says of the job\<close>

text \<open>The location that a job names: in its own row, in the row of its audit or in that of its maps run.\<close>

definition names_location :: "db \<Rightarrow> job \<Rightarrow> nat \<Rightarrow> bool" where
  "names_location d j l =
     (JobLocation j = Some l \<or> (\<exists>a. JobAudit j = Some a \<and> audit_scope a d = Some (Some l))
      \<or> (\<exists>r. JobLocalRun j = Some r \<and> run_scope r d = Some l))"

lemma settled_setup_location: "settled_setup d j = Some (LocationKey l) \<Longrightarrow> names_location d j l"
  by (auto simp: settled_setup_def names_location_def split: job_type.splits option.splits)

lemma settled_setup_competitor: "settled_setup d j = Some (CompetitorKey c) \<Longrightarrow> JobCompetitor j = Some c"
  by (auto simp: settled_setup_def split: job_type.splits option.splits)

lemma settled_setup_project:
  assumes "settled_setup d j = Some ProjectKey"
  shows "JobType j = PromptGenerationJob \<Longrightarrow> JobLocation j = None"
    and "JobType j = VisibilityRunJob \<Longrightarrow> JobAudit j = Some a \<Longrightarrow> audit_scope a d \<noteq> Some (Some l)"
  using assms by (auto simp: settled_setup_def split: option.splits)

lemma project_row_awaits:
  assumes d: "system_ok d" and j: "find_job n d = Some j" and e: "settles grid j d e" and k: "changed d e ProjectKey"
  shows "project_awaits d j"
proof (rule ccontr)
  assume n: "\<not> project_awaits d j"
  have own: "settled_setup d j = Some ProjectKey" by (rule isolated [OF d j e k])
  have jd: "JobID j = n" "j \<in> set (ai_worker_jobs d)" using find_jobD [OF j] by simp_all
  from system_okD(1) [OF d] jd(2) show False
  proof (cases rule: job_cases)
    case project
    then show False using unawaited_settles_project [OF n e project(1)] k by (simp add: changed_def)
  next
    case crawl_audit
    then show False using unawaited_settles_audit [OF n e crawl_audit(1,2)] k by (simp add: changed_def)
  next
    case other
    then show False using settles_alone [OF jd(1) e other] k by (auto simp: alone_def)
  qed (use own in simp_all)
qed

end
