(* ===== verification/WorkerFinality.thy ===== *)
theory WorkerFinality
  imports WorkerIsolation
begin

text \<open>No step of the system changes a completed setup.\<close>

section \<open>Steps that keep every row\<close>

definition keeps_rows :: "db \<Rightarrow> db \<Rightarrow> bool" where
  "keeps_rows d e =
     (project_setup_row e = project_setup_row d \<and> competitor_setup_rows e = competitor_setup_rows d
      \<and> location_setup_rows e = location_setup_rows d)"

lemma keeps_rows_unchanged: "keeps_rows d e \<Longrightarrow> \<not> changed d e k"
  by (cases k) (simp_all add: keeps_rows_def changed_def)

lemma keeps_rows_claim: "claim_next_pending_ai_worker_job d = Some (j, e) \<Longrightarrow> keeps_rows d e"
  by (erule claim_effect) (simp add: keeps_rows_def)

lemma keeps_rows_simple:
  "keeps_rows d d" "keeps_rows d (reclaim_stale_running_ai_audits old d)" "keeps_rows d (enqueue_location_job l t d)"
  "keeps_rows d (enqueue_ai_worker_job t a d)" "keeps_rows d (mark_crawl_running i d)"
  by (simp_all add: keeps_rows_def reclaim_stale_running_ai_audits_def enqueue_location_job_def enqueue_ai_worker_job_def
      mark_crawl_running_def set_crawl_def)

lemma keeps_rows_manual: "create_manual_audit crawl location user d = Inr e \<Longrightarrow> keeps_rows d e"
  by (auto simp: create_manual_audit_def keeps_rows_def enqueue_ai_worker_job_def reserve_ai_workspace_monthly_audit_def
      create_ai_audit_def split: option.splits if_splits)

lemma keeps_rows_crawl: "insert_queued_crawl d = Inr (i, e) \<Longrightarrow> keeps_rows d e"
  by (auto simp: insert_queued_crawl_def keeps_rows_def)

lemma keeps_rows_child_crawl:
  assumes "tables_ok d" "enqueue_initialization_crawl c parent d = Inr (i, e)"
  shows "keeps_rows d e"
  using enqueue_initialization_crawl_op(1) [OF assms, of "\<lambda>_. False" c] enqueue_initialization_crawl_op(2) [OF assms] by (simp add: keeps_rows_def competitor_op_def base_op_def)

lemma keeps_rows_environment: "environment d e \<Longrightarrow> keeps_rows d e"
  by (simp add: environment_def keeps_rows_def)

section \<open>Steps of one setup\<close>

lemma changed_project_op: "project_op d e \<Longrightarrow> changed d e k \<Longrightarrow> k = ProjectKey"
  by (cases k) (auto simp: changed_def project_op_def base_op_def)

lemma changed_competitor_moves: "competitor_moves c d e \<Longrightarrow> changed d e k \<Longrightarrow> k = CompetitorKey c"
  by (cases k) (auto simp: changed_def competitor_moves_def competitor_op_def base_op_def)

lemma final_location:
  assumes "loc_op S l d e" "completed d k" "completed d (LocationKey l) \<Longrightarrow> e = d"
  shows "\<not> changed d e k"
proof
  assume ch: "changed d e k"
  then have "k = LocationKey l" by (rule changed_loc_op [OF assms(1)])
  then show False using ch assms(2,3) by (simp add: changed_def)
qed

lemma final_project:
  assumes "project_op d e" "completed d k" "completed d ProjectKey \<Longrightarrow> project_setup_row e = project_setup_row d"
  shows "\<not> changed d e k"
proof
  assume ch: "changed d e k"
  then have "k = ProjectKey" by (rule changed_project_op [OF assms(1)])
  then show False using ch assms(2,3) by (simp add: changed_def)
qed

lemma final_competitor:
  assumes "competitor_moves c d e" "completed d k" "completed d (CompetitorKey c) \<Longrightarrow> e = d"
  shows "\<not> changed d e k"
proof
  assume ch: "changed d e k"
  then have "k = CompetitorKey c" by (rule changed_competitor_moves [OF assms(1)])
  then show False using ch assms(2,3) by (simp add: changed_def)
qed

lemma idle_reclaim: "idle l d \<Longrightarrow> reclaim_setup l d = d"
proof (cases "location_setup_rows d l")
  case (Some s)
  assume "idle l d"
  then have "LsSteps s i \<noteq> StepRunning" for i using Some by (simp add: idle_def)
  then have "reclaim_step l w i j (s, d) = (s, d)" for w i j by (simp add: reclaim_step_def)
  then show ?thesis by (simp add: reclaim_setup_def Some)
qed (simp add: reclaim_setup_def)

lemma completed_launch: "completed d (LocationKey l) \<Longrightarrow> launch_unfinished grid l d = Inr e \<Longrightarrow> e = d"
  by (auto simp: completed_def launch_unfinished_def launch_unfinished_tx_def)

lemma completed_start_location:
  "completed d (LocationKey l) \<Longrightarrow> location_start_or_resume l user diff d = Inr (s, b, e) \<Longrightarrow> e = d"
  by (auto simp: completed_def location_start_or_resume_def split: if_splits)

lemma completed_start_project:
  "completed d ProjectKey \<Longrightarrow> start_or_resume user insert_queued_crawl d = Inr (s, b, e) \<Longrightarrow> e = d"
  by (auto simp: completed_def start_or_resume_def)

lemma completed_advance: "completed d ProjectKey \<Longrightarrow> advance_project_setup_from_crawling i st m k d = None"
  by (auto simp: completed_def advance_none)

lemma completed_crawl_events:
  assumes "completed d ProjectKey"
  shows "project_setup_row (mark_crawl_completed i pages d) = project_setup_row d"
    "project_setup_row (mark_crawl_failed i m d) = project_setup_row d"
    "cancel_crawl i d = Inr e \<Longrightarrow> project_setup_row e = project_setup_row d"
    "project_setup_row (reclaim_stale_running_crawls old d) = project_setup_row d"
proof -
  have none: "advance_project_setup_from_crawling i st m k (snd (set_crawl P f d)) = None" for i st m k P f
    using assms by (auto simp: completed_def advance_none set_crawl_def)
  have row: "project_setup_row (snd (set_crawl P f d)) = project_setup_row d" for P f by (simp add: set_crawl_def)
  show "project_setup_row (mark_crawl_completed i pages d) = project_setup_row d"
    "project_setup_row (mark_crawl_failed i m d) = project_setup_row d"
    by (simp_all add: mark_crawl_completed_def mark_crawl_failed_def on_crawl_completed_def on_crawl_failed_def Let_def
        case_prod_beta none row)
  show "project_setup_row e = project_setup_row d" if "cancel_crawl i d = Inr e"
    using that by (auto simp: cancel_crawl_def on_crawl_failed_def Let_def case_prod_beta none row split: if_splits)
  show "project_setup_row (reclaim_stale_running_crawls old d) = project_setup_row d"
    using assms by (auto simp: completed_def reclaim_stale_running_crawls_def Let_def)
qed

lemma completed_start_competitor:
  "completed d (CompetitorKey c) \<Longrightarrow> start_competitor c user parent d = Inr (s, b, e) \<Longrightarrow> e = d"
  by (auto simp: completed_def start_competitor_def competitor_start_or_resume_def)

lemma completed_reconcile: "completed d (CompetitorKey c) \<Longrightarrow> competitor_reconcile c d = Inr (s, e) \<Longrightarrow> e = d"
  by (auto simp: completed_def competitor_reconcile_def)

lemma completed_reclaim_jobs:
  assumes "completed d k"
  shows "\<not> changed d (reclaim_stale_running_ai_worker_jobs old d) k"
proof (cases k)
  case ProjectKey
  then obtain s where s: "project_setup_row d = Some s" "PsStatus s = ProjectCompleted" using assms by (auto simp: completed_def)
  have "\<not> reclaims_project d s j" for j
    using s(2) by (auto simp: reclaims_project_def reclaimed_step_def split: job_type.splits)
  then have "reclaim_project_setup d stale s = s" for stale
    by (auto simp: reclaim_project_setup_def find_Some_iff split: option.splits)
  then show ?thesis by (simp add: changed_def ProjectKey reclaim_jobs_tables(9) s(1))
next
  case (CompetitorKey c)
  then obtain s where s: "competitor_setup_rows d c = Some s" "CsStatus s = StatusCompleted" using assms by (auto simp: completed_def)
  have "\<not> reclaims_competitor c s j" for j using s(2) by (simp add: reclaims_competitor_def)
  then have "reclaim_competitor_setup stale c s = s" for stale
    by (auto simp: reclaim_competitor_setup_def find_Some_iff split: option.splits)
  then show ?thesis by (simp add: changed_def CompetitorKey reclaim_jobs_tables(10) s(1))
qed (simp add: changed_def reclaim_jobs_tables(4))

section \<open>Every step\<close>

lemma completed_step:
  assumes "system_step grid s t" "system_ok (fst s)" "completed (fst s) k"
  shows "\<not> changed (fst s) (fst t) k"
  using assms
proof (induction rule: system_step.induct)
  case (Claim d j e C)
  then show ?case using keeps_rows_unchanged [OF keeps_rows_claim] by simp
next
  case (Success i C d j vis e)
  then have "settles grid j d e" by (auto simp: settles_def)
  then show ?case using completed_settles [of d i j grid e k] Success by simp
next
  case (Failure i C d j message keywordsEmpty e)
  then have "settles grid j d e" by (auto simp: settles_def)
  then show ?case using completed_settles [of d i j grid e k] Failure by simp
next
  case (ReclaimLocation d C l)
  then have "system_ok d" "completed d k" by simp_all
  then show ?case
    using final_location [OF loc_op_reclaim_setup] idle_reclaim completed_idle system_okD(1,2) [of d] by simp
next
  case (LaunchLocation l d e C)
  then have d: "system_ok d" "completed d k" by simp_all
  show ?case using final_location [OF loc_op_launch_unfinished [OF system_okD(1) [OF d(1)] LaunchLocation(1)] d(2)]
      completed_launch [OF _ LaunchLocation(1)] by simp
next
  case (StartLocation l user differences d s started e C)
  then have d: "system_ok d" "completed d k" by simp_all
  show ?case using final_location [OF loc_op_location_start [OF system_okD(1) [OF d(1)] StartLocation(1)] d(2)]
      completed_start_location [OF _ StartLocation(1)] by simp
next
  case (CreateProject d C user)
  then have d: "system_ok d" "completed d k" by simp_all
  have "completed d ProjectKey \<Longrightarrow> create_project_setup user d = d"
    by (auto simp: create_project_setup_def completed_def)
  then show ?case using final_project [OF project_op_create [OF system_okD(1) [OF d(1)] system_okD(4) [OF d(1)]] d(2)] by simp
next
  case (StartProject user d ps started e C)
  then have d: "system_ok d" "completed d k" by simp_all
  show ?case using final_project [OF project_op_start [OF system_okD(1) [OF d(1)] system_okD(4) [OF d(1)] StartProject(1)] d(2)]
      completed_start_project [OF _ StartProject(1)] by simp
next
  case (ManualAudit crawl location user d e C)
  then show ?case using keeps_rows_unchanged [OF keeps_rows_manual] by simp
next
  case (ManualCrawl d i e C)
  then show ?case using keeps_rows_unchanged [OF keeps_rows_crawl] by simp
next
  case (CrawlCompletes d C i pages)
  then have d: "system_ok d" "completed d k" by simp_all
  show ?case using final_project [OF project_op_crawl_completed [OF system_okD(1) [OF d(1)] system_okD(4) [OF d(1)]] d(2)]
      completed_crawl_events(1) by simp
next
  case (CrawlFails d C i message)
  then have d: "system_ok d" "completed d k" by simp_all
  show ?case using final_project [OF project_op_crawl_failed [OF system_okD(1) [OF d(1)] system_okD(4) [OF d(1)]] d(2)]
      completed_crawl_events(2) by simp
next
  case (CrawlCancels i d e C)
  then have d: "system_ok d" "completed d k" by simp_all
  show ?case using final_project [OF project_op_cancel_crawl [OF system_okD(1) [OF d(1)] system_okD(4) [OF d(1)] CrawlCancels(1)] d(2)]
      completed_crawl_events(3) [OF _ CrawlCancels(1)] by simp
next
  case (ReclaimCrawls d C old)
  then have d: "system_ok d" "completed d k" by simp_all
  show ?case using final_project [OF project_op_reclaim_crawls [OF system_okD(1) [OF d(1)] system_okD(4) [OF d(1)]] d(2)]
      completed_crawl_events(4) by simp
next
  case (StartCompetitor c user parent d cs started e C)
  then have d: "system_ok d" "completed d k" by simp_all
  show ?case using final_competitor [OF competitor_moves_start [OF system_okD(1) [OF d(1)] system_okD(5) [OF d(1)] StartCompetitor(1)] d(2)]
      completed_start_competitor [OF _ StartCompetitor(1)] by simp
next
  case (ReconcileCompetitor c d cs e C)
  then have d: "system_ok d" "completed d k" by simp_all
  show ?case using final_competitor [OF competitor_moves_sweep [OF system_okD(1) [OF d(1)] system_okD(5) [OF d(1)] ReconcileCompetitor(1)] d(2)]
      completed_reconcile [OF _ ReconcileCompetitor(1)] by simp
next
  case (CompetitorCrawl c parent d i e C)
  then show ?case using keeps_rows_unchanged [OF keeps_rows_child_crawl] system_okD(1) by simp
next
  case (Environment d e C)
  then show ?case using keeps_rows_unchanged [OF keeps_rows_environment] by simp
qed (simp_all add: keeps_rows_unchanged [OF keeps_rows_simple(1)] keeps_rows_unchanged [OF keeps_rows_simple(2)]
    keeps_rows_unchanged [OF keeps_rows_simple(3)] keeps_rows_unchanged [OF keeps_rows_simple(4)]
    keeps_rows_unchanged [OF keeps_rows_simple(5)] completed_reclaim_jobs)

end
