(* ===== verification/WorkerLedger.thy ===== *)
theory WorkerLedger
  imports WorkerSystem
begin

text \<open>
  What the workers account for: every AI audit they create is paid with one audit of the month's
  quota, and every maps run has its expected credits reserved, on the platform and on the
  organization budget alike. The settlement of a finished run is not part of these operations.
\<close>

definition reserved_for_runs :: "db \<Rightarrow> int" where
  "reserved_for_runs d = sum_list (map RunExpectedCredits (local_visibility_runs d))"

definition same_ledger :: "db \<Rightarrow> db \<Rightarrow> bool" where
  "same_ledger d e =
     (used_audits e - int (length (ai_audits e)) = used_audits d - int (length (ai_audits d))
      \<and> ReservedCredits (platform_credits e) - reserved_for_runs e = ReservedCredits (platform_credits d) - reserved_for_runs d
      \<and> ReservedCredits (organization_credits e) - reserved_for_runs e
          = ReservedCredits (organization_credits d) - reserved_for_runs d)"

lemma same_ledger_refl [simp]: "same_ledger d d"
  by (simp add: same_ledger_def)

lemma same_ledger_trans [trans]: "same_ledger d e \<Longrightarrow> same_ledger e g \<Longrightarrow> same_ledger d g"
  by (simp add: same_ledger_def)

text \<open>A change of other tables.\<close>

lemma same_ledger_other:
  assumes "same_ledger d e" "used_audits g = used_audits e" "length (ai_audits g) = length (ai_audits e)"
    "platform_credits g = platform_credits e" "organization_credits g = organization_credits e"
    "local_visibility_runs g = local_visibility_runs e"
  shows "same_ledger d g"
  using assms by (simp add: same_ledger_def reserved_for_runs_def)

section \<open>Primitive updates\<close>

lemma same_ledger_simps [simp]:
  "same_ledger d (insert_job j e) = same_ledger d e"
  "same_ledger d (set_job i f e) = same_ledger d e"
  "same_ledger d (update_row l h e) = same_ledger d e"
  "same_ledger d (fail_audits P m e) = same_ledger d e"
  "same_ledger d (mark_ai_worker_job_completed i e) = same_ledger d e"
  "same_ledger d (mark_ai_worker_job_failed i n e) = same_ledger d e"
  "same_ledger d (enqueue_ai_worker_job t a e) = same_ledger d e"
  "same_ledger d (enqueue_competitor_ai_worker_job t c e) = same_ledger d e"
  "same_ledger d (fail_active_ai_audits_for_crawl w e) = same_ledger d e"
  "same_ledger d (e\<lparr>project_setup_row := p\<rparr>) = same_ledger d e"
  "same_ledger d (e\<lparr>competitor_setup_rows := r\<rparr>) = same_ledger d e"
  "same_ledger d (e\<lparr>location_setup_rows := s\<rparr>) = same_ledger d e"
  "same_ledger d (e\<lparr>crawl_rows := x\<rparr>) = same_ledger d e"
  "same_ledger d (e\<lparr>crawl_rows := x, next_id := k\<rparr>) = same_ledger d e"
  "same_ledger d (e\<lparr>project_setup_row := p, next_id := k\<rparr>) = same_ledger d e"
  by (simp_all add: same_ledger_def reserved_for_runs_def insert_job_def set_job_def update_row_def fail_audits_def
      mark_ai_worker_job_completed_def mark_ai_worker_job_failed_def enqueue_ai_worker_job_def
      enqueue_competitor_ai_worker_job_def fail_active_ai_audits_for_crawl_def)

text \<open>An audit is reserved, then created.\<close>

lemma same_ledger_audit:
  assumes "reserve_ai_workspace_monthly_audit limit d = Some e" "same_ledger e g" "create_ai_audit c l s g = Inr (a, h)"
  shows "same_ledger d h"
  using assms by (auto simp: reserve_ai_workspace_monthly_audit_def create_ai_audit_def same_ledger_def reserved_for_runs_def split: if_splits)

section \<open>The location workflow\<close>

lemma same_ledger_refresh: "refresh_overall l d = Inr e \<Longrightarrow> same_ledger g d \<Longrightarrow> same_ledger g e"
  by (auto simp: refresh_overall_def Let_def split: option.splits)

lemma same_ledger_complete: "complete_step l setup i d = Inr (s, e) \<Longrightarrow> same_ledger g d \<Longrightarrow> same_ledger g e"
  by (auto simp: complete_step_def dest!: same_ledger_refresh)

lemma same_ledger_skip: "skip_step l setup i r d = Inr (s, e) \<Longrightarrow> same_ledger g d \<Longrightarrow> same_ledger g e"
  by (auto simp: skip_step_def Let_def dest!: same_ledger_refresh)

lemma same_ledger_steps [simp]:
  "same_ledger g (fail_step l setup i m d) = same_ledger g d"
  "same_ledger g (defer_step l setup i m d) = same_ledger g d"
  "same_ledger g (start_step l i t d) = same_ledger g d"
  "same_ledger g (enqueue_location_job l t d) = same_ledger g d"
  "same_ledger g (start_pending l setup i t d) = same_ledger g d"
  "same_ledger g (ensure_audit_job l a d) = same_ledger g d"
  "same_ledger g (ensure_local_run_job l r d) = same_ledger g d"
  by (simp_all add: fail_step_def Let_def defer_step_def start_step_def enqueue_location_job_def start_pending_def
      ensure_audit_job_def ensure_local_run_job_def)

lemma same_ledger_reserve_and_start_audit: "reserve_and_start_audit l setup d = Inr (s, e) \<Longrightarrow> same_ledger d e"
  by (auto simp: reserve_and_start_audit_def keep_setup_def split: option.splits if_splits
      dest!: same_ledger_skip intro: same_ledger_audit [OF _ same_ledger_refl])

lemma same_ledger_launch_ai: "launch_ai_visibility_tx l setup d = Inr (s, e) \<Longrightarrow> same_ledger d e"
  by (auto simp: launch_ai_visibility_tx_def launch_new_audit_def keep_setup_def split: option.splits if_splits
      dest!: same_ledger_complete intro: same_ledger_reserve_and_start_audit)

lemma same_ledger_reserve_and_start_run:
  assumes "reserve_and_start_run l setup radius qs n d = Inr (s, e)"
  shows "same_ledger d e"
proof (cases "reserve_credits n (platform_credits d)")
  case None
  then show ?thesis using assms by (auto simp: reserve_and_start_run_def dest!: same_ledger_skip)
next
  case (Some p)
  then have p: "p = (platform_credits d)\<lparr>ReservedCredits := ReservedCredits (platform_credits d) + n\<rparr>"
    by (auto simp: reserve_credits_def split: if_splits)
  show ?thesis
  proof (cases "reserve_credits n (organization_credits d)")
    case None
    have "same_ledger d (d\<lparr>platform_credits := settle_credits n 0 p\<rparr>)"
      by (simp add: same_ledger_def reserved_for_runs_def settle_credits_def p)
    then show ?thesis using assms Some None by (auto simp: reserve_and_start_run_def Let_def dest!: same_ledger_skip)
  next
    case org: (Some c)
    then have "c = (organization_credits d)\<lparr>ReservedCredits := ReservedCredits (organization_credits d) + n\<rparr>"
      by (auto simp: reserve_credits_def split: if_splits)
    then show ?thesis using assms Some org p
      by (auto simp: reserve_and_start_run_def Let_def start_maps_run_def create_local_visibility_run_def keep_setup_def
          same_ledger_def reserved_for_runs_def insert_job_def update_row_def split: if_splits)
  qed
qed

lemma same_ledger_launch_maps: "launch_maps_visibility_tx grid l setup d = Inr (s, e) \<Longrightarrow> same_ledger d e"
  by (auto simp: launch_maps_visibility_tx_def launch_new_run_def keep_setup_def Let_def split: option.splits if_splits sum.splits
      dest!: same_ledger_refresh same_ledger_skip intro: same_ledger_reserve_and_start_run)

lemma same_ledger_settle:
  assumes "settle_step l i advance d = Inr e" "same_ledger g d"
    "\<And>s. advance s d = Inr e \<Longrightarrow> same_ledger g e"
  shows "same_ledger g e"
  using assms by (auto simp: settle_step_def split: option.splits if_splits)

lemma map_result_Inr_iff: "map_result f r = Inr y \<longleftrightarrow> (\<exists>x. r = Inr x \<and> y = f x)"
  by (cases r) auto

lemma same_ledger_location_success:
  "finalize_profile_success l n d = Inr e \<Longrightarrow> same_ledger d e"
  "location_finalize_keyword_analysis_success l n d = Inr e \<Longrightarrow> same_ledger d e"
  "finalize_keyword_analysis_empty l n d = Inr e \<Longrightarrow> same_ledger d e"
  "fail_owned_job l n i m d = Inr e \<Longrightarrow> same_ledger d e"
  unfolding finalize_profile_success_def location_finalize_keyword_analysis_success_def finalize_keyword_analysis_empty_def
    fail_owned_job_def
  by (erule same_ledger_settle, simp, auto simp: map_result_Inr_iff dest!: same_ledger_complete same_ledger_skip)+

lemma same_ledger_location_launches:
  "finalize_questions_success l n d = Inr e \<Longrightarrow> same_ledger d e"
  "finalize_map_queries_success grid l n d = Inr e \<Longrightarrow> same_ledger d e"
  unfolding finalize_questions_success_def finalize_map_queries_success_def
  by (erule same_ledger_settle, simp, auto simp: map_result_Inr_iff
      dest!: same_ledger_complete [where g = d] same_ledger_launch_ai same_ledger_launch_maps intro: same_ledger_trans)+

lemma same_ledger_runs:
  "finalize_visibility_run n a vis err d = Inr e \<Longrightarrow> same_ledger d e"
  "finalize_local_run n r err d = Inr e \<Longrightarrow> same_ledger d e"
  by (auto simp: finalize_visibility_run_def finalize_local_run_def Let_def settle_step_def map_result_Inr_iff
      dest!: same_ledger_complete [where g = d] split: option.splits if_splits)

lemma same_ledger_launch_pending: "same_ledger g (snd (launch_pending l w i t sd)) = same_ledger g (snd sd)"
  by (simp add: launch_pending_def)

lemma same_ledger_launch_visibility:
  assumes "bind_result (if ai then launch_ai_visibility_tx l (fst x) (snd x) else Inr x) (\<lambda>y.
             if maps then map_result snd (launch_maps_visibility_tx grid l (fst y) (snd y)) else Inr (snd y)) = Inr e"
    "same_ledger g (snd x)"
  shows "same_ledger g e"
proof -
  obtain s d where ai: "(if ai then launch_ai_visibility_tx l (fst x) (snd x) else Inr x) = Inr (s, d)"
    and maps: "(if maps then map_result snd (launch_maps_visibility_tx grid l s d) else Inr d) = Inr e"
    using assms(1) unfolding bind_result_Inr by (metis fst_conv snd_conv surj_pair)
  have "same_ledger g d" using ai assms(2) same_ledger_launch_ai by (auto split: if_splits intro: same_ledger_trans)
  then show ?thesis using maps same_ledger_launch_maps by (auto simp: map_result_Inr_iff split: if_splits intro: same_ledger_trans)
qed

lemma same_ledger_launch_unfinished:
  assumes "launch_unfinished grid l d = Inr e"
  shows "same_ledger d e"
proof (cases "location_setup_rows d l")
  case (Some s)
  show ?thesis
  proof (cases "LsStatus s = StatusRunning")
    case True
    then obtain s1 d1 where p: "(if LsSteps s StepPrepare = StepPending then complete_step l s StepPrepare d else Inr (s, d)) = Inr (s1, d1)"
      and g: "(let todo = launchable (LsSteps s1);
            sd2 = launch_pending l (LaunchProfile todo) StepProfile LocationProfileGenerationJob (s1, d1);
            sd3 = launch_pending l (LsSteps (fst sd2) StepProfile = StepCompleted) StepKeywordAnalysis
                    LocationKeywordAnalysisJob sd2;
            sd4 = launch_pending l (LaunchQuestions todo) StepQuestions PromptGenerationJob sd3;
            (setup5, d5) = launch_pending l (LaunchMapQueries todo) StepMapQueries MapQueryGenerationJob sd4
        in bind_result (if LaunchAIAudit todo then launch_ai_visibility_tx l setup5 d5 else Inr (setup5, d5)) (\<lambda>(setup6, d6).
             if LaunchMapsRun todo then map_result snd (launch_maps_visibility_tx grid l setup6 d6) else Inr d6)) = Inr e"
      using assms unfolding launch_unfinished_def launch_unfinished_tx_def Some option.case bind_result_Inr
      by (simp del: if_split_asm) blast
    have p: "same_ledger d d1" using p same_ledger_complete [OF _ same_ledger_refl] by (auto split: if_splits)
    show ?thesis using g unfolding Let_def case_prod_beta prod.collapse
      by (rule same_ledger_launch_visibility) (simp add: same_ledger_launch_pending p)
  qed (use assms Some in \<open>simp add: launch_unfinished_def launch_unfinished_tx_def\<close>)
qed (use assms in \<open>simp add: launch_unfinished_def\<close>)

lemma same_ledger_start_location: "location_start_or_resume l user diff d = Inr (s, b, e) \<Longrightarrow> same_ledger d e"
  by (auto simp: location_start_or_resume_def insert_setup_def reset_unfinished_steps_def Let_def split: option.splits if_splits)

lemma same_ledger_reclaim_step: "same_ledger g (snd (reclaim_step l w i j sd)) = same_ledger g (snd sd)"
  by (simp add: reclaim_step_def split: option.splits)

lemma same_ledger_reclaim: "same_ledger d (reclaim_setup l d)"
  by (simp add: reclaim_setup_def Let_def same_ledger_reclaim_step split: option.splits)

section \<open>The project and competitor workflows\<close>

lemma same_ledger_update_project: "update_project_setup_status arg d = Some (s, e) \<Longrightarrow> same_ledger g d \<Longrightarrow> same_ledger g e"
  by (auto simp: update_project_setup_status_def Let_def split: option.splits if_splits)

lemma same_ledger_advance: "advance_project_setup_from_crawling i st m k d = Some (s, e) \<Longrightarrow> same_ledger g d \<Longrightarrow> same_ledger g e"
  by (auto simp: advance_project_setup_from_crawling_def Let_def split: option.splits if_splits)

lemma same_ledger_project_success [simp]:
  "same_ledger d (finalize_bootstrap_success n d)" "same_ledger d (finalize_keyword_analysis_success n d)"
  "same_ledger d (finalize_visibility_success n vis d)"
  by (auto simp: finalize_bootstrap_success_def finalize_keyword_analysis_success_def finalize_visibility_success_def Let_def
      dest!: same_ledger_update_project [where g = d] split: option.splits)

lemma same_ledger_project_failure [simp]: "same_ledger d (fail_setup_at_step st step m (mark_job_failed n m d))"
  by (auto simp: fail_setup_at_step_def mark_job_failed_def dest!: same_ledger_update_project [where g = d] split: option.splits)

lemma same_ledger_visibility_skip: "same_ledger d (complete_setup_with_visibility_skip n r d)"
  by (auto simp: complete_setup_with_visibility_skip_def dest!: same_ledger_update_project [where g = d] split: option.splits)

lemma same_ledger_project_audit:
  assumes "reserve_ai_workspace_monthly_audit limit d = Some d1"
    "create_ai_audit c l sid (fail_active_ai_audits_for_crawl w d1) = Inr (a, d3)"
    "d4 = enqueue_ai_worker_job t (Some a) d3"
  shows "same_ledger d (mark_ai_worker_job_completed n d4)"
    "update_project_setup_status arg d4 = Some (s, d5) \<Longrightarrow> same_ledger d (mark_ai_worker_job_completed n d5)"
proof -
  have "same_ledger d d4" using same_ledger_audit [OF assms(1) _ assms(2)] by (simp add: assms(3))
  then show "same_ledger d (mark_ai_worker_job_completed n d4)"
    "update_project_setup_status arg d4 = Some (s, d5) \<Longrightarrow> same_ledger d (mark_ai_worker_job_completed n d5)"
    by (simp_all add: same_ledger_update_project)
qed

lemma same_ledger_prompts:
  assumes "finalize_prompt_generation_success n d = Inr e"
  shows "same_ledger d e"
proof -
  consider "e = mark_ai_worker_job_completed n d" | r where "e = complete_setup_with_visibility_skip n r d"
    | limit d1 c sid a d3 where "reserve_ai_workspace_monthly_audit limit d = Some d1"
        "create_ai_audit c None (Some sid) (fail_active_ai_audits_for_crawl c d1) = Inr (a, d3)"
        "(let d4 = enqueue_ai_worker_job VisibilityRunJob (Some a) d3 in
            case update_project_setup_status (transition ProjectVisibility ProjectPromptGeneration) d4 of
              None \<Rightarrow> mark_ai_worker_job_completed n d4 | Some (_, d5) \<Rightarrow> mark_ai_worker_job_completed n d5) = e"
    using assms unfolding finalize_prompt_generation_success_def Let_def
    by (auto split: option.splits if_splits)
  then show ?thesis
  proof cases
    case 3
    then show ?thesis
      by (cases "update_project_setup_status (transition ProjectVisibility ProjectPromptGeneration)
            (enqueue_ai_worker_job VisibilityRunJob (Some a) d3)")
        (auto intro: same_ledger_project_audit [OF 3(1,2) refl])
  qed (simp_all add: same_ledger_visibility_skip)
qed

lemma same_ledger_update_competitor: "update_competitor_setup c arg d = Inr (s, e) \<Longrightarrow> same_ledger g d \<Longrightarrow> same_ledger g e"
  by (auto simp: update_competitor_setup_def Let_def split: option.splits)

lemma same_ledger_update_setup: "update_setup c s ch d = Inr (s', e) \<Longrightarrow> same_ledger g d \<Longrightarrow> same_ledger g e"
  by (auto simp: update_setup_def dest!: same_ledger_update_competitor [where g = g] split: option.splits)

lemma same_ledger_competitor_fail: "competitor_fail_setup_at_step c s st m d = Inr (s', e) \<Longrightarrow> same_ledger g d \<Longrightarrow> same_ledger g e"
  by (auto simp: competitor_fail_setup_at_step_def Let_def dest!: same_ledger_update_competitor [where g = g])

lemma same_ledger_child_crawl: "enqueue_initialization_crawl c parent d = Inr (i, e) \<Longrightarrow> same_ledger g d \<Longrightarrow> same_ledger g e"
  by (auto simp: enqueue_initialization_crawl_def enqueue_one_competitor_crawl_def Let_def split: option.splits if_splits prod.splits)

lemma same_ledger_start_crawl:
  "start_crawl_step c s user parent (enqueue_initialization_crawl c) d = Inr (s', e) \<Longrightarrow> same_ledger g d \<Longrightarrow> same_ledger g e"
  by (auto simp: start_crawl_step_def split: prod.splits intro: same_ledger_update_setup same_ledger_child_crawl)

lemma same_ledger_reconcile:
  assumes "reconcile_running c s user parent create d = Inr (s', e)" "create = None \<or> create = Some (enqueue_initialization_crawl c)"
    "same_ledger g d"
  shows "same_ledger g e"
  using assms by (auto simp: reconcile_running_def split: if_splits option.splits crawl_status.splits
      intro: same_ledger_update_setup same_ledger_start_crawl same_ledger_competitor_fail)

lemma same_ledger_start_competitor: "start_competitor c user parent d = Inr (s, b, e) \<Longrightarrow> same_ledger d e"
proof -
  have created: "same_ledger d e" if "create_competitor_setup c user parent d = Some (s, e)" for s e
    using that by (auto simp: create_competitor_setup_def Let_def split: option.splits)
  have resumed: "same_ledger d e"
    if "competitor_resume_failed_setup c s (Some user) parent (Some (enqueue_initialization_crawl c)) d = Inr (s', e)" for s s' e
    using that by (auto simp: competitor_resume_failed_setup_def split: option.splits competitor_step.splits
        intro: same_ledger_update_setup same_ledger_start_crawl)
  show "start_competitor c user parent d = Inr (s, b, e) \<Longrightarrow> same_ledger d e"
    by (auto simp: start_competitor_def competitor_start_or_resume_def split: option.splits setup_status.splits
        dest!: created resumed intro: same_ledger_reconcile)
qed

lemma same_ledger_competitor_jobs:
  "finalize_generation_success n c d = Inr e \<Longrightarrow> same_ledger d e" "finalize_analysis_success n c d = Inr e \<Longrightarrow> same_ledger d e"
  "competitor_failure j step m d = Inr e \<Longrightarrow> same_ledger d e"
  by (auto simp: finalize_generation_success_def finalize_analysis_success_def competitor_failure_def finalize_step_failure_def Let_def
      split: option.splits if_splits dest!: same_ledger_update_setup [where g = d] same_ledger_competitor_fail [where g = d])

section \<open>Crawls and requests\<close>

lemma same_ledger_cong: "same_ledger d e \<Longrightarrow> same_ledger g e = same_ledger g d"
  by (auto simp: same_ledger_def)

lemma same_ledger_crawls [simp]:
  "same_ledger g (on_crawl_completed i d) = same_ledger g d" "same_ledger g (on_crawl_failed i m d) = same_ledger g d"
  "set_crawl P f d = (b, e) \<Longrightarrow> same_ledger g e = same_ledger g d"
  by (auto simp: on_crawl_completed_def on_crawl_failed_def set_crawl_def split: option.splits
      dest: same_ledger_advance [OF _ same_ledger_refl] intro!: same_ledger_cong)

lemma same_ledger_crawl_marks [simp]:
  "same_ledger d (mark_crawl_running i d)" "same_ledger d (mark_crawl_completed i n d)" "same_ledger d (mark_crawl_failed i m d)"
  by (auto simp: mark_crawl_running_def mark_crawl_completed_def mark_crawl_failed_def set_crawl_def Let_def)

lemma same_ledger_reclaims [simp]:
  "same_ledger d (reclaim_stale_running_ai_worker_jobs old d)" "same_ledger d (reclaim_stale_running_ai_audits old d)"
  "same_ledger d (reclaim_stale_running_crawls old d)"
  by (simp_all add: reclaim_stale_running_ai_worker_jobs_def reclaim_stale_running_ai_audits_def reclaim_stale_running_crawls_def
      Let_def same_ledger_def reserved_for_runs_def fail_audits_def)

lemma same_ledger_project_requests:
  "same_ledger d (create_project_setup user d)"
  "insert_queued_crawl d = Inr (i, e) \<Longrightarrow> same_ledger g e = same_ledger g d"
  "claim_next_pending_ai_worker_job d = Some (j, e) \<Longrightarrow> same_ledger d e"
  "cancel_crawl i d = Inr e \<Longrightarrow> same_ledger d e"
  by (auto simp: create_project_setup_def insert_queued_crawl_def claim_next_pending_ai_worker_job_def cancel_crawl_def
      set_crawl_def Let_def split: option.splits if_splits)

lemma same_ledger_resume: "resume_setup user st t c d = Inr (s, e) \<Longrightarrow> same_ledger g d \<Longrightarrow> same_ledger g e"
  by (auto simp: resume_setup_def split: option.splits dest!: same_ledger_update_project)

lemma same_ledger_start_project:
  assumes "start_or_resume user insert_queued_crawl d = Inr (ps, started, e)"
  shows "same_ledger d e"
  using assms
  by (auto simp: start_or_resume_def resume_failed_setup_def start_project_setup_def Let_def
      split: option.splits project_status.splits project_step.splits if_splits
      intro: same_ledger_resume simp: same_ledger_project_requests(2))

lemma same_ledger_manual_audit: "create_manual_audit crawl location user d = Inr e \<Longrightarrow> same_ledger d e"
  by (auto simp: create_manual_audit_def split: option.splits intro: same_ledger_audit [OF _ same_ledger_refl])

lemma same_ledger_reconcile_competitor: "competitor_reconcile c d = Inr (s, e) \<Longrightarrow> same_ledger d e"
  by (auto simp: competitor_reconcile_def split: option.splits if_splits intro: same_ledger_reconcile [OF _ _ same_ledger_refl])

section \<open>Settling a job, and the system\<close>

lemma same_ledger_success: "finalize_job_success grid j vis d = Inr e \<Longrightarrow> same_ledger d e"
  by (auto simp: finalize_job_success_def Let_def split: job_type.splits option.splits if_splits
      intro: same_ledger_location_success same_ledger_location_launches same_ledger_runs same_ledger_prompts same_ledger_competitor_jobs)

lemma same_ledger_failure: "finalize_job_failure j m keywordsEmpty d = Inr e \<Longrightarrow> same_ledger d e"
  by (auto simp: finalize_job_failure_def Let_def finalize_keyword_analysis_failure_def finalize_bootstrap_failure_def
      finalize_prompt_generation_failure_def finalize_visibility_failure_def split: job_type.splits option.splits if_splits
      intro: same_ledger_location_success same_ledger_runs same_ledger_competitor_jobs)

lemma same_ledger_step:
  assumes "system_step grid s t" "\<not> environment (fst s) (fst t)"
  shows "same_ledger (fst s) (fst t)"
  using assms
  by cases (auto simp: same_ledger_project_requests same_ledger_reclaim
      intro: same_ledger_success same_ledger_failure same_ledger_launch_unfinished same_ledger_start_location
        same_ledger_start_project same_ledger_manual_audit same_ledger_start_competitor same_ledger_reconcile_competitor
        same_ledger_child_crawl)

end
