(* ===== verification/WorkerSample.thy ===== *)
theory WorkerSample
  imports WorkerSystem
begin

text \<open>
  Concrete runs of the worker system. \<open>perform\<close> carries out one named action of a worker, a crawl
  or a member; what a list of actions leads to is a reachable state.
\<close>

datatype action =
    ClaimJob | SettleJob nat | FailJob nat string
  | NewProject nat | BeginProject nat | RunCrawl nat | CompleteCrawl nat nat
  | BeginLocation nat nat | Launch nat | BeginCompetitor nat nat "nat option"

definition sample_grid :: grid where
  "sample_grid = (\<lambda>_ _ _. Inr [])"

definition result_option :: "'a result \<Rightarrow> 'a option" where
  "result_option r = (case r of Inl _ \<Rightarrow> None | Inr x \<Rightarrow> Some x)"

definition settle_claimed :: "(job \<Rightarrow> db \<Rightarrow> db result) \<Rightarrow> nat \<Rightarrow> system \<Rightarrow> system option" where
  "settle_claimed f i s =
     (if i \<notin> snd s then None
      else Option.bind (find_job i (fst s)) (\<lambda>j. map_option (\<lambda>e. (e, snd s - {i})) (result_option (f j (fst s)))))"

fun perform :: "action \<Rightarrow> system \<Rightarrow> system option" where
  "perform ClaimJob (d, C) = map_option (\<lambda>(j, e). (e, insert (JobID j) C)) (claim_next_pending_ai_worker_job d)"
| "perform (SettleJob i) (d, C) = settle_claimed (\<lambda>j. finalize_job_success sample_grid j AuditCompleted) i (d, C)"
| "perform (FailJob i m) (d, C) = settle_claimed (\<lambda>j. finalize_job_failure j m False) i (d, C)"
| "perform (NewProject u) (d, C) = Some (create_project_setup u d, C)"
| "perform (BeginProject u) (d, C) =
     map_option (\<lambda>(_, _, e). (e, C)) (result_option (start_or_resume u insert_queued_crawl d))"
| "perform (RunCrawl i) (d, C) = Some (mark_crawl_running i d, C)"
| "perform (CompleteCrawl i n) (d, C) = Some (mark_crawl_completed i n d, C)"
| "perform (BeginLocation l u) (d, C) =
     map_option (\<lambda>(_, _, e). (e, C)) (result_option (location_start_or_resume l u [] d))"
| "perform (Launch l) (d, C) = map_option (\<lambda>e. (e, C)) (result_option (launch_unfinished sample_grid l d))"
| "perform (BeginCompetitor c u p) (d, C) =
     map_option (\<lambda>(_, _, e). (e, C)) (result_option (start_competitor c u p d))"

lemma result_option_Some [simp]: "result_option r = Some x \<longleftrightarrow> r = Inr x"
  by (simp add: result_option_def split: sum.splits)

lemma perform_step: "perform a s = Some t \<Longrightarrow> system_step sample_grid s t"
  by (cases "(a, s)" rule: perform.cases)
    (auto simp: settle_claimed_def bind_eq_Some_conv split: if_splits intro: system_step.intros)

definition sample_start :: db where
  "sample_start = \<lparr>ai_worker_jobs = [], ai_audits = [], crawl_rows = [], local_visibility_runs = [],
     project_setup_row = None, competitor_setup_rows = (\<lambda>_. None), location_setup_rows = (\<lambda>_. None),
     project_locations = (\<lambda>l. if l = 1 \<or> l = 2 then Some \<lparr>LocQuestions = [''who repairs boilers?''],
       LocQueries = [(''plumber'', True)], LocPlaceID = Some ''place'', LocRadiusM = 5000, LocLatitude = 52, LocLongitude = 4\<rparr>
       else None),
     member_audit_limit = (\<lambda>u. if u = 7 then Some 0 else if u = 8 then Some 3 else None), used_audits = 0,
     platform_credits = \<lparr>RemainingCredits = 100, ReservedCredits = 0, SpentCredits = 0\<rparr>,
     organization_credits = \<lparr>RemainingCredits = 40, ReservedCredits = 0, SpentCredits = 0\<rparr>, next_id = 1\<rparr>"

primrec run_actions :: "action list \<Rightarrow> system \<Rightarrow> system option" where
  "run_actions [] s = Some s"
| "run_actions (a # as) s = Option.bind (perform a s) (run_actions as)"

definition sample :: "action list \<Rightarrow> system option" where
  "sample as = run_actions as (sample_start, {})"

lemma reachable_run:
  "system_reachable sample_grid s \<Longrightarrow> run_actions as s = Some t \<Longrightarrow> system_reachable sample_grid t"
proof (induction as arbitrary: s)
  case (Cons a as)
  then obtain u where u: "perform a s = Some u" "run_actions as u = Some t" by (auto simp: bind_eq_Some_conv)
  have "system_reachable sample_grid u" using Cons.prems(1) perform_step [OF u(1)] by (rule system_reachable.Step)
  then show ?case using Cons.IH u(2) by blast
qed simp

lemma reachable_sample: "sample as = Some t \<Longrightarrow> system_reachable sample_grid t"
  unfolding sample_def by (rule reachable_run [OF system_reachable.Start]) (simp_all add: empty_db_def sample_start_def)

end
