(* ===== verification/WorkerProperties.thy ===== *)
theory WorkerProperties
  imports WorkerFinality WorkerLedger WorkerSample
begin

text \<open>The properties of the worker system, over every state it can reach.\<close>

section \<open>After the reclaim sweep\<close>

lemma reclaim_step_steps:
  "LsSteps (fst (reclaim_step l owned i j sd)) k
     = (if k = i \<and> owned \<and> LsSteps (fst sd) i = StepRunning \<and> (\<exists>x. j = Some x \<and> JobStatus x = JobFailed) then StepFailed
        else LsSteps (fst sd) k)"
  by (auto simp: reclaim_step_def split: option.splits)

lemma latest_location_job_class:
  "t \<in> indexed_job_types \<Longrightarrow> latest_location_job l t d = latest_job (ByLocation l t) d"
proof -
  assume "t \<in> indexed_job_types"
  then have "in_class (ByLocation l t) = (\<lambda>j. JobLocation j = Some l \<and> JobType j = t)" by (intro ext) simp
  then show ?thesis by (simp add: latest_location_job_def latest_job_def)
qed

lemma latest_audit_job_class: "latest_audit_job (Some a) d = latest_job (ByAudit a) d"
proof -
  have "in_class (ByAudit a) = (\<lambda>j. JobAudit j = Some a)" by (intro ext) simp
  then show ?thesis by (simp add: latest_audit_job_def latest_job_def)
qed

lemma latest_run_job_class: "latest_run_job (Some r) d = latest_job (ByRun r) d"
proof -
  have "in_class (ByRun r) = (\<lambda>j. JobLocalRun j = Some r)" by (intro ext) simp
  then show ?thesis by (simp add: latest_run_job_def latest_job_def)
qed

lemma fail_step_jobs [simp]: "ai_worker_jobs (fail_step l setup i m d) = ai_worker_jobs d"
  by (simp add: fail_step_def Let_def)

lemma reclaim_step_jobs [simp]: "ai_worker_jobs (snd (reclaim_step l owned i j sd)) = ai_worker_jobs (snd sd)"
  by (auto simp: reclaim_step_def split: option.splits)

lemma reclaim_step_row:
  assumes "location_setup_rows (snd sd) l = Some s" "LsSteps s = LsSteps (fst sd)"
  shows "\<exists>s'. location_setup_rows (snd (reclaim_step l owned i j sd)) l = Some s'
    \<and> LsSteps s' = LsSteps (fst (reclaim_step l owned i j sd)) \<and> LsAIAuditID s' = LsAIAuditID s \<and> LsMapsRunID s' = LsMapsRunID s"
  using assms fail_step_row(1) [OF assms(1)] by (auto simp: reclaim_step_def split: option.splits)

text \<open>The row after the sweep: the steps whose latest job failed are failed, the others are as they were.\<close>

lemma reclaim_setup_row:
  assumes "location_setup_rows d l = Some s"
  shows "\<exists>s'. location_setup_rows (reclaim_setup l d) l = Some s' \<and> LsAIAuditID s' = LsAIAuditID s \<and> LsMapsRunID s' = LsMapsRunID s
    \<and> (\<forall>i c. LsSteps s' i = StepRunning \<longrightarrow> step_class l s i = Some c \<longrightarrow>
         LsSteps s i = StepRunning \<and> (\<forall>j. latest_job c d = Some j \<longrightarrow> JobStatus j \<noteq> JobFailed))"
proof -
  define sd1 where "sd1 = reclaim_step l True StepProfile (latest_location_job l LocationProfileGenerationJob d) (s, d)"
  define sd2 where "sd2 = reclaim_step l True StepKeywordAnalysis (latest_location_job l LocationKeywordAnalysisJob d) sd1"
  define sd3 where "sd3 = reclaim_step l True StepQuestions (latest_location_job l PromptGenerationJob d) sd2"
  define sd4 where "sd4 = reclaim_step l True StepMapQueries (latest_location_job l MapQueryGenerationJob d) sd3"
  define sd5 where "sd5 = reclaim_step l (LsAIAuditID s \<noteq> None) StepAIVisibility (latest_audit_job (LsAIAuditID s) d) sd4"
  define sd6 where "sd6 = reclaim_step l (LsMapsRunID s \<noteq> None) StepMapsVisibility (latest_run_job (LsMapsRunID s) d) sd5"
  note defs = sd1_def sd2_def sd3_def sd4_def sd5_def sd6_def
  have e: "reclaim_setup l d = snd sd6" using assms by (simp add: reclaim_setup_def defs Let_def)
  have "location_setup_rows (snd (s, d)) l = Some s" "LsSteps s = LsSteps (fst (s, d))" using assms by simp_all
  then obtain s1 where s1: "location_setup_rows (snd sd1) l = Some s1" "LsSteps s1 = LsSteps (fst sd1)"
    "LsAIAuditID s1 = LsAIAuditID s" "LsMapsRunID s1 = LsMapsRunID s" unfolding sd1_def using reclaim_step_row by blast
  obtain s2 where s2: "location_setup_rows (snd sd2) l = Some s2" "LsSteps s2 = LsSteps (fst sd2)"
    "LsAIAuditID s2 = LsAIAuditID s1" "LsMapsRunID s2 = LsMapsRunID s1" unfolding sd2_def using reclaim_step_row [OF s1(1,2)] by blast
  obtain s3 where s3: "location_setup_rows (snd sd3) l = Some s3" "LsSteps s3 = LsSteps (fst sd3)"
    "LsAIAuditID s3 = LsAIAuditID s2" "LsMapsRunID s3 = LsMapsRunID s2" unfolding sd3_def using reclaim_step_row [OF s2(1,2)] by blast
  obtain s4 where s4: "location_setup_rows (snd sd4) l = Some s4" "LsSteps s4 = LsSteps (fst sd4)"
    "LsAIAuditID s4 = LsAIAuditID s3" "LsMapsRunID s4 = LsMapsRunID s3" unfolding sd4_def using reclaim_step_row [OF s3(1,2)] by blast
  obtain s5 where s5: "location_setup_rows (snd sd5) l = Some s5" "LsSteps s5 = LsSteps (fst sd5)"
    "LsAIAuditID s5 = LsAIAuditID s4" "LsMapsRunID s5 = LsMapsRunID s4" unfolding sd5_def using reclaim_step_row [OF s4(1,2)] by blast
  obtain s6 where s6: "location_setup_rows (snd sd6) l = Some s6" "LsSteps s6 = LsSteps (fst sd6)"
    "LsAIAuditID s6 = LsAIAuditID s5" "LsMapsRunID s6 = LsMapsRunID s5" unfolding sd6_def using reclaim_step_row [OF s5(1,2)] by blast
  have "LsSteps s i = StepRunning \<and> JobStatus j \<noteq> JobFailed"
    if "LsSteps s6 i = StepRunning" "step_class l s i = Some c" "latest_job c d = Some j" for i c j
    using that unfolding s6(2) defs
    by (cases i) (auto simp: reclaim_step_steps latest_location_job_class latest_audit_job_class latest_run_job_class split: if_splits)
  moreover have "LsSteps s i = StepRunning" if "LsSteps s6 i = StepRunning" for i
    using that unfolding s6(2) defs by (cases i) (auto simp: reclaim_step_steps split: if_splits)
  ultimately show ?thesis using e s1 s2 s3 s4 s5 s6 by (intro exI [where x = s6]) auto
qed

lemma reclaim_setup_jobs [simp]: "ai_worker_jobs (reclaim_setup l d) = ai_worker_jobs d"
  by (simp add: reclaim_setup_def Let_def split: option.splits)

section \<open>Errors of start and resume\<close>

lemma update_setup_error: "update_setup c s ch d = Inl e \<Longrightarrow> e = ''no rows in result set''"
  by (auto simp: update_setup_def update_competitor_setup_def Let_def split: option.splits)

lemma start_crawl_step_error:
  "start_crawl_step c s user parent (enqueue_initialization_crawl c) d = Inl e \<Longrightarrow>
    e \<in> {''no rows in result set'', ''a completed project crawl is required''}"
  by (auto simp: start_crawl_step_def enqueue_initialization_crawl_def dest: update_setup_error split: prod.splits option.splits)

lemma reconcile_running_error:
  "reconcile_running c s user parent (Some (enqueue_initialization_crawl c)) d = Inl e \<Longrightarrow>
    e \<in> {''no rows in result set'', ''a completed project crawl is required''}"
  by (auto simp: reconcile_running_def competitor_fail_setup_at_step_def update_competitor_setup_def Let_def
      dest: update_setup_error start_crawl_step_error split: if_splits option.splits crawl_status.splits)

lemma competitor_resume_error:
  assumes "CsFailedStep s \<noteq> None"
  shows "competitor_resume_failed_setup c s user parent (Some (enqueue_initialization_crawl c)) d = Inl e \<Longrightarrow>
    e \<in> {''no rows in result set'', ''a completed project crawl is required''}"
  using assms by (auto simp: competitor_resume_failed_setup_def dest: update_setup_error start_crawl_step_error
      split: option.splits competitor_step.splits)

lemma start_competitor_error:
  assumes "competitor_ok {} c d" "start_competitor c user parent d = Inl e"
  shows "e \<in> {''no rows in result set'', ''a completed project crawl is required''}"
proof (cases "competitor_setup_rows d c")
  case None
  then show ?thesis using assms(2)
    by (auto simp: start_competitor_def competitor_start_or_resume_def create_competitor_setup_def Let_def bind_result_Inl
        dest!: reconcile_running_error)
next
  case (Some s)
  have "CsFailedStep s \<noteq> None" if "CsStatus s = StatusFailed"
    using competitor_row_phase [OF assms(1) Some] that by (auto simp: competitor_phases_def competitor_phase_def)
  then have r: "e \<in> {''no rows in result set'', ''a completed project crawl is required''}"
    if "CsStatus s = StatusFailed" "competitor_resume_failed_setup c s (Some user) parent (Some (enqueue_initialization_crawl c)) d = Inl e"
    using that competitor_resume_error by blast
  show ?thesis using assms(2) Some
    by (auto simp: start_competitor_def competitor_start_or_resume_def bind_result_Inl
        dest!: reconcile_running_error r [rotated] split: setup_status.splits)
qed

lemma resume_setup_error: "resume_setup user st t c d = Inl e \<Longrightarrow> e = ''project setup resume conflict''"
  by (auto simp: resume_setup_def split: option.splits)

lemma start_or_resume_error:
  assumes "project_ok {} d" "start_or_resume user insert_queued_crawl d = Inl e"
  shows "e \<in> {''project setup not found'', ''project setup resume conflict''}"
proof (cases "project_setup_row d")
  case (Some s)
  have "PsFailedStep s \<noteq> None" if "PsStatus s = ProjectFailed"
    using assms(1) Some that by (simp add: project_ok_def project_row_ok_def project_shape_def)
  then show ?thesis using assms(2) Some
    by (auto simp: start_or_resume_def insert_queued_crawl_def resume_failed_setup_def bind_result_Inl dest!: resume_setup_error
        split: option.splits project_status.splits project_step.splits)
qed (use assms(2) in \<open>simp add: start_or_resume_def\<close>)

section \<open>Samples\<close>

text \<open>A project whose crawl is done, with a claimed job; a competitor and a location have started.\<close>

definition sample_actions :: "action list" where
  "sample_actions = [NewProject 7, BeginProject 7, RunCrawl 2, CompleteCrawl 2 5, ClaimJob,
     BeginCompetitor 3 7 (Some 2), RunCrawl 4, CompleteCrawl 4 9, BeginCompetitor 3 7 (Some 2), BeginLocation 1 8, Launch 1]"

definition sample_state :: system where
  "sample_state = the (sample sample_actions)"

lemma sample_state_reachable: "system_reachable sample_grid (fst sample_state, snd sample_state)"
proof -
  have "sample sample_actions \<noteq> None" by code_simp
  then have "sample sample_actions = Some sample_state" by (auto simp: sample_state_def)
  then show ?thesis using reachable_sample by simp
qed

text \<open>A project that is done, its owner having no AI audits; a location about to launch its maps run.\<close>

definition completed_state :: system where
  "completed_state = the (sample [NewProject 7, BeginProject 7, RunCrawl 2, CompleteCrawl 2 5, ClaimJob, SettleJob 3,
     ClaimJob, SettleJob 4, ClaimJob, SettleJob 5])"

definition launching_row :: location_setup where
  "launching_row = \<lparr>LsRequestedBy = Some 8, LsDifferences = [], LsStatus = StatusRunning, LsError = None,
     LsSteps = (\<lambda>i. if i = StepAIVisibility \<or> i = StepMapsVisibility then StepPending else StepCompleted), LsReasons = (\<lambda>_. None),
     LsAIAuditID = None, LsMapsRunID = None, LsEstimatedMapsCredits = Some 27, LsCompletedAt = False\<rparr>"

definition launching_db :: db where
  "launching_db = sample_start\<lparr>location_setup_rows := (\<lambda>l. if l = 1 then Some launching_row else None)\<rparr>"

lemma completed_state_reachable: "system_reachable sample_grid completed_state"
proof -
  have "sample [NewProject 7, BeginProject 7, RunCrawl 2, CompleteCrawl 2 5, ClaimJob, SettleJob 3,
     ClaimJob, SettleJob 4, ClaimJob, SettleJob 5] \<noteq> None" by code_simp
  then show ?thesis using reachable_sample by (auto simp: completed_state_def)
qed

section \<open>Nothing is stuck\<close>

text \<open>
  C9: A project setup is never stuck. In every reachable state, while it waits for a worker there
  is a pending or running job of the type it waits for, while it crawls its crawl is queued or
  running, it has a failed step exactly when it failed, and it is finished exactly when it
  completed or failed.
\<close>

theorem project_setup_not_stuck:
  assumes "system_reachable grid (d, C)" "project_setup_row d = Some s"
  shows "(awaited_type (PsStatus s) = Some t \<longrightarrow>
            (\<exists>j \<in> set (ai_worker_jobs d). JobType j = t \<and> JobLocation j = None \<and> JobCompetitor j = None \<and> job_active j))
    \<and> (PsStatus s = ProjectCrawling \<longrightarrow>
         (\<exists>r \<in> set (crawl_rows d). PsCrawlID s = Some (CrawlRowID r) \<and> crawl_active r))
    \<and> (PsFailedStep s \<noteq> None \<longleftrightarrow> PsStatus s = ProjectFailed)
    \<and> (PsCompletedAt s \<longleftrightarrow> PsStatus s \<in> {ProjectCompleted, ProjectFailed})"
proof -
  have "project_row_ok {} d s"
    using reachable_system_ok [OF assms(1)] assms(2) by (simp add: system_ok_def project_ok_def)
  then show ?thesis
    by (auto simp: project_row_ok_def project_pending_def project_job_def crawl_pending_def project_shape_def)
qed

theorem project_setup_not_stuck_witness:
  "\<exists>s. project_setup_row (fst sample_state) = Some s \<and> PsStatus s = ProjectProfileGeneration
     \<and> (\<exists>j \<in> set (ai_worker_jobs (fst sample_state)). JobType j = BusinessProfileBootstrapJob \<and> job_active j)"
proof -
  have "map_option PsStatus (project_setup_row (fst sample_state)) = Some ProjectProfileGeneration" by code_simp
  then obtain s where s: "project_setup_row (fst sample_state) = Some s" "PsStatus s = ProjectProfileGeneration" by auto
  with project_setup_not_stuck [OF sample_state_reachable s(1), of BusinessProfileBootstrapJob]
  show ?thesis by (auto simp: awaited_type_def)
qed

text \<open>
  C10: A competitor setup is never stuck either. Every reachable row is in one of the seven phases
  of its crawl, keyword generation and keyword analysis, and while it waits for one of its two
  jobs that competitor has a pending or running job of that type.
\<close>

theorem competitor_setup_not_stuck:
  assumes "system_reachable grid (d, C)" "competitor_setup_rows d c = Some s"
  shows "competitor_phase s \<in> competitor_phases
    \<and> (\<forall>t. competitor_awaits s = Some t \<longrightarrow>
         (\<exists>j \<in> set (ai_worker_jobs d). JobType j = t \<and> JobCompetitor j = Some c \<and> job_active j))"
proof -
  have "competitor_row_ok {} d c s"
    using reachable_system_ok [OF assms(1)] assms(2) by (simp add: system_ok_def competitor_ok_def)
  then show ?thesis by (auto simp: competitor_row_ok_def competitor_pending_def)
qed

theorem competitor_setup_not_stuck_witness:
  "\<exists>s. competitor_setup_rows (fst sample_state) 3 = Some s \<and> CsKeywordGenerationStatus s = StepRunning
     \<and> (\<exists>j \<in> set (ai_worker_jobs (fst sample_state)). JobType j = CompetitorKeywordGenerationJob \<and> job_active j)"
proof -
  have "map_option (\<lambda>s. (CsStatus s, CsKeywordGenerationStatus s)) (competitor_setup_rows (fst sample_state) 3)
    = Some (StatusRunning, StepRunning)" by code_simp
  then obtain s where s: "competitor_setup_rows (fst sample_state) 3 = Some s" "CsStatus s = StatusRunning"
    "CsKeywordGenerationStatus s = StepRunning" by auto
  with competitor_setup_not_stuck [OF sample_state_reachable s(1)] show ?thesis by (auto simp: competitor_awaits_def)
qed

text \<open>
  C11: After the reclaim sweep of a location setup, every step of it that is running has its own
  job (or the job of its own audit or maps run) pending or running; so a lost worker never leaves
  a step running for ever.
\<close>

theorem location_step_has_active_job:
  assumes "system_reachable grid (d, C)" "location_setup_rows (reclaim_setup l d) l = Some s" "LsSteps s i = StepRunning"
  shows "\<exists>c. step_class l s i = Some c \<and> (\<exists>j \<in> set (ai_worker_jobs d). in_class c j \<and> job_active j)"
proof -
  have ok: "location_ok {} l d" using reachable_system_ok [OF assms(1)] by (simp add: system_ok_def)
  have "location_setup_rows d l \<noteq> None" using assms(2) by (auto simp: reclaim_setup_def split: option.splits)
  then obtain r where r: "location_setup_rows d l = Some r" by blast
  have cls: "step_class l s i = step_class l r i" using reclaim_setup_row [OF r] assms(2) by (cases i) auto
  have ok': "location_ok {} l (reclaim_setup l d)" by (rule location_ok_reclaim [OF ok])
  obtain c where c: "step_class l s i = Some c" "unsettled c (reclaim_setup l d)"
    using location_okD(4) [OF ok' assms(2,3)] by (auto simp: carried_def)
  then obtain j where j: "latest_job c d = Some j" "JobStatus j \<noteq> JobCompleted"
    using latest_job_cong [of "reclaim_setup l d" d c] by (auto simp: unsettled_def)
  moreover have "JobStatus j \<noteq> JobFailed" using reclaim_setup_row [OF r] assms(2,3) c(1) j(1) cls by auto
  ultimately have "job_active j" by (cases "JobStatus j") (simp_all add: job_active_def)
  then show ?thesis using latest_job_in [OF j(1)] c(1) by blast
qed

theorem location_step_has_active_job_witness:
  "\<exists>s. location_setup_rows (reclaim_setup 1 (fst sample_state)) 1 = Some s \<and> LsSteps s StepProfile = StepRunning
     \<and> (\<exists>j \<in> set (ai_worker_jobs (fst sample_state)). JobLocation j = Some 1 \<and> job_active j)"
proof -
  have "map_option (\<lambda>s. LsSteps s StepProfile) (location_setup_rows (reclaim_setup 1 (fst sample_state)) 1) = Some StepRunning"
    by code_simp
  then obtain s where s: "location_setup_rows (reclaim_setup 1 (fst sample_state)) 1 = Some s"
    "LsSteps s StepProfile = StepRunning" by auto
  with location_step_has_active_job [OF sample_state_reachable s] show ?thesis by auto
qed

text \<open>
  C12: A reachable location setup has only left a step pending after the step it needs completed,
  its overall status is the one its steps give, and it is finished exactly when it no longer runs.
\<close>

theorem location_setup_well_ordered:
  assumes "system_reachable grid (d, C)" "location_setup_rows d l = Some s"
  shows "(\<forall>i p. prerequisite i = Some p \<and> LsSteps s i \<noteq> StepPending \<longrightarrow> LsSteps s p = StepCompleted)
    \<and> LsStatus s = overall_status (LsSteps s) \<and> (LsCompletedAt s \<longleftrightarrow> LsStatus s \<noteq> StatusRunning)"
proof -
  have "location_ok {} l d" using reachable_system_ok [OF assms(1)] by (simp add: system_ok_def)
  from location_okD(1,2) [OF this assms(2)] show ?thesis by (auto simp: steps_ok_def enabled_def status_ok_def)
qed

theorem location_setup_well_ordered_witness:
  "\<exists>s. location_setup_rows (fst sample_state) 1 = Some s \<and> LsSteps s StepProfile = StepRunning
     \<and> LsSteps s StepPrepare = StepCompleted"
proof -
  have "map_option (\<lambda>s. LsSteps s StepProfile) (location_setup_rows (fst sample_state) 1) = Some StepRunning" by code_simp
  then obtain s where s: "location_setup_rows (fst sample_state) 1 = Some s" "LsSteps s StepProfile = StepRunning" by auto
  moreover have "prerequisite StepProfile = Some StepPrepare \<and> LsSteps s StepProfile \<noteq> StepPending"
    using s(2) by (simp add: prerequisite_def)
  moreover note conjunct1 [OF location_setup_well_ordered [OF sample_state_reachable s(1)], THEN spec, THEN spec,
      of StepProfile StepPrepare]
  ultimately show ?thesis using s by blast
qed

text \<open>
  C13: In every reachable state at most one job per class is pending or running: per location and
  indexed job type, per audit, and per maps run. Two workers never share a location's step.
\<close>

theorem one_active_job_per_class:
  assumes "system_reachable grid (d, C)"
  shows "length (filter (\<lambda>j. in_class c j \<and> job_active j) (ai_worker_jobs d)) \<le> 1"
proof -
  have ok: "tables_ok d" using reachable_system_ok [OF assms] by (simp add: system_ok_def)
  then have "sole_active c d" "distinct (ai_worker_jobs d)" by (auto simp: tables_ok_def distinct_map)
  then have "distinct (filter (\<lambda>j. in_class c j \<and> job_active j) (ai_worker_jobs d))"
    "set (filter (\<lambda>j. in_class c j \<and> job_active j) (ai_worker_jobs d)) \<subseteq> set_option (latest_job c d)"
    by (auto simp: sole_active_def)
  from distinct_card [OF this(1)] card_mono [OF _ this(2)] show ?thesis by (cases "latest_job c d") auto
qed

theorem one_active_job_per_class_witness:
  "length (filter (\<lambda>j. in_class (ByLocation 1 LocationProfileGenerationJob) j \<and> job_active j) (ai_worker_jobs (fst sample_state))) \<le> 1"
  by (rule one_active_job_per_class [OF sample_state_reachable])

section \<open>Resuming\<close>

text \<open>
  C18: Starting or resuming a reachable setup never meets a failed setup without a known failed
  step: the two errors the code keeps for that state are never returned.
\<close>

theorem resume_finds_its_step:
  assumes "system_reachable grid (d, C)"
  shows "start_or_resume user insert_queued_crawl d \<noteq> Inl ''project setup failed step is missing or invalid''
    \<and> start_competitor c user parent d \<noteq> Inl ''competitor setup failed step is missing or invalid''"
proof -
  have ok: "project_ok {} d" "competitor_ok {} c d"
    using reachable_system_ok [OF assms] by (simp_all add: system_ok_def)
  show ?thesis using start_or_resume_error [OF ok(1)] start_competitor_error [OF ok(2)] by fastforce
qed

theorem resume_finds_its_step_witness:
  "start_or_resume 7 insert_queued_crawl (fst sample_state) \<noteq> Inl ''project setup failed step is missing or invalid''"
  using resume_finds_its_step [OF sample_state_reachable] by blast

section \<open>Settling\<close>

text \<open>
  C14: Settling a job, as a success or as a failure, moves a setup's row only if the job concerns
  it. The row of a location moves only by a job that names this location in its own row, its audit
  or its maps run, that of a competitor only by a job of this competitor. The project's row moves
  only while its status waits for a job of this type, and never by a location's prompts or audit.
  Whether an audit is the one the setup created is not asked: an audit a member started by hand
  moves a waiting project as well (see \<open>foreign_audit_completes_setup\<close>).
\<close>

theorem settled_job_changes_own_setup:
  assumes "system_reachable grid (d, C)" "find_job n d = Some j" "settles grid j d e" "changed d e k"
  shows "case k of
      LocationKey l \<Rightarrow> names_location d j l
    | CompetitorKey c \<Rightarrow> JobCompetitor j = Some c
    | ProjectKey \<Rightarrow>
        (\<exists>s. project_setup_row d = Some s \<and> awaited_type (PsStatus s) = Some (JobType j))
        \<and> (JobType j = PromptGenerationJob \<longrightarrow> JobLocation j = None)
        \<and> (JobType j = VisibilityRunJob \<longrightarrow> (\<forall>a l. JobAudit j = Some a \<longrightarrow> audit_scope a d \<noteq> Some (Some l)))"
proof -
  note d = reachable_system_ok [OF assms(1), unfolded fst_conv]
  note own = isolated [OF d assms(2-4)]
  show ?thesis
  proof (cases k)
    case ProjectKey
    then show ?thesis using project_row_awaits [OF d assms(2,3)] settled_setup_project [of d j] own assms(4)
      by (auto simp: project_awaits_def)
  qed (use own in \<open>auto intro: settled_setup_location settled_setup_competitor\<close>)
qed

theorem settled_job_changes_own_setup_witness:
  "\<exists>j e s. find_job 3 (fst sample_state) = Some j \<and> settles sample_grid j (fst sample_state) e
     \<and> changed (fst sample_state) e ProjectKey \<and> project_setup_row (fst sample_state) = Some s
     \<and> awaited_type (PsStatus s) = Some (JobType j)"
proof -
  have "case find_job 3 (fst sample_state) of None \<Rightarrow> False
      | Some j \<Rightarrow> (case finalize_job_success sample_grid j AuditCompleted (fst sample_state) of Inl _ \<Rightarrow> False
          | Inr e \<Rightarrow> project_setup_row e \<noteq> project_setup_row (fst sample_state))"
    by code_simp
  then obtain j e where j: "find_job 3 (fst sample_state) = Some j"
    and e: "finalize_job_success sample_grid j AuditCompleted (fst sample_state) = Inr e"
    and k: "project_setup_row e \<noteq> project_setup_row (fst sample_state)"
    by (auto split: option.splits sum.splits)
  have s: "settles sample_grid j (fst sample_state) e" "changed (fst sample_state) e ProjectKey"
    using e k by (auto simp: settles_def changed_def)
  from settled_job_changes_own_setup [OF sample_state_reachable j s] j s show ?thesis by auto
qed

text \<open>
  C15: A completed setup, of the project, a competitor or a location, is never changed again by
  any step of the system.
\<close>

theorem completed_setups_are_final:
  assumes "system_reachable grid s" "system_step grid s t" "completed (fst s) k"
  shows "\<not> changed (fst s) (fst t) k"
  by (rule completed_step [OF assms(2) reachable_system_ok [OF assms(1)] assms(3)])

theorem completed_setups_are_final_witness:
  "\<exists>t. perform (BeginProject 7) completed_state = Some t \<and> completed (fst completed_state) ProjectKey
     \<and> \<not> changed (fst completed_state) (fst t) ProjectKey"
proof -
  have "perform (BeginProject 7) completed_state \<noteq> None" by code_simp
  then obtain t where t: "perform (BeginProject 7) completed_state = Some t" by blast
  have c: "completed (fst completed_state) ProjectKey" by code_simp
  with completed_setups_are_final [OF completed_state_reachable perform_step [OF t] c] t show ?thesis by blast
qed

section \<open>Budgets\<close>

text \<open>
  C16: Work is paid when it is launched: over every step of the workers, the crawls and the members,
  each new AI audit takes one audit of the month's quota, and each new maps run keeps its expected
  credits reserved on the platform and on the organization budget, with nothing else reserved.
\<close>

theorem launched_work_is_paid:
  assumes "system_step grid s t" "\<not> environment (fst s) (fst t)"
  shows "used_audits (fst t) - int (length (ai_audits (fst t))) = used_audits (fst s) - int (length (ai_audits (fst s)))
    \<and> ReservedCredits (platform_credits (fst t)) - ReservedCredits (platform_credits (fst s))
        = reserved_for_runs (fst t) - reserved_for_runs (fst s)
    \<and> ReservedCredits (organization_credits (fst t)) - ReservedCredits (organization_credits (fst s))
        = reserved_for_runs (fst t) - reserved_for_runs (fst s)"
  using same_ledger_step [OF assms] by (simp add: same_ledger_def)

theorem launched_work_is_paid_witness:
  "\<exists>t. perform (Launch 1) (launching_db, {}) = Some t \<and> reserved_for_runs (fst t) = 27
     \<and> ReservedCredits (organization_credits (fst t)) = 27"
proof -
  have "case perform (Launch 1) (launching_db, {}) of None \<Rightarrow> False | Some t \<Rightarrow> reserved_for_runs (fst t) = 27
      \<and> length (ai_worker_jobs (fst t)) \<noteq> length (ai_worker_jobs launching_db)"
    by code_simp
  then obtain t where t: "perform (Launch 1) (launching_db, {}) = Some t" "reserved_for_runs (fst t) = 27"
    and jobs: "length (ai_worker_jobs (fst t)) \<noteq> length (ai_worker_jobs launching_db)"
    by (cases "perform (Launch 1) (launching_db, {})") (simp_all only: option.case, blast)
  have other: "\<not> environment (fst (launching_db, {})) (fst t)"
    using jobs by (metis environment_def fst_conv)
  have "reserved_for_runs launching_db = 0 \<and> ReservedCredits (organization_credits launching_db) = 0"
    by code_simp
  with launched_work_is_paid [OF perform_step [OF t(1)] other] t show ?thesis by auto
qed

text \<open>Only the launch of a new run adds a run.\<close>

lemma runs_refresh: "refresh_overall l d = Inr e \<Longrightarrow> local_visibility_runs e = local_visibility_runs d"
  by (auto simp: refresh_overall_def Let_def split: option.splits)

lemma runs_skip: "skip_step l setup i r d = Inr (s, e) \<Longrightarrow> local_visibility_runs e = local_visibility_runs d"
  by (auto simp: skip_step_def Let_def dest!: runs_refresh)

lemma reserve_and_start_run_exact:
  assumes "reserve_and_start_run l setup radius qs n d = Inr (s, e)" "local_visibility_runs e \<noteq> local_visibility_runs d"
  shows "local_visibility_runs e = local_visibility_runs d @ [\<lparr>RunID = next_id d, RunLocation = l, RunStatus = RunQueued,
             RunRadiusM = radius, RunQueries = qs, RunExpectedCredits = n\<rparr>]
    \<and> ReservedCredits (platform_credits d) + n \<le> RemainingCredits (platform_credits d)
    \<and> ReservedCredits (organization_credits d) + n \<le> RemainingCredits (organization_credits d)"
  using assms
  by (auto simp: reserve_and_start_run_def Let_def start_maps_run_def create_local_visibility_run_def keep_setup_def insert_job_def
      update_row_def reserve_credits_def split: if_splits dest!: runs_skip)

lemma launch_new_run_exact:
  assumes "launch_new_run grid l setup d = Inr (s, e)" "local_visibility_runs e \<noteq> local_visibility_runs d"
  shows "\<exists>r. local_visibility_runs e = local_visibility_runs d @ [r] \<and> RunLocation r = l \<and> RunStatus r = RunQueued
    \<and> RunQueries r \<noteq> [] \<and> RunExpectedCredits r = int (length (RunQueries r)) * gridPointCount * mapsCreditsPerCall
    \<and> RunExpectedCredits r \<le> (case LsEstimatedMapsCredits setup of None \<Rightarrow> maxDisclosedMapsCredits | Some n \<Rightarrow> n)
    \<and> \<not> active_location_run l d
    \<and> ReservedCredits (platform_credits d) + RunExpectedCredits r \<le> RemainingCredits (platform_credits d)
    \<and> ReservedCredits (organization_credits d) + RunExpectedCredits r \<le> RemainingCredits (organization_credits d)"
proof -
  have none: "\<not> active_location_run l d"
    using assms by (auto simp: launch_new_run_def keep_setup_def defer_step_def split: if_splits)
  obtain radius qs n where qs: "expected_run_credits (int (length qs)) gridPointCount = Inr n"
    and n: "n \<le> (case LsEstimatedMapsCredits setup of None \<Rightarrow> maxDisclosedMapsCredits | Some n \<Rightarrow> n)"
    and run: "reserve_and_start_run l setup radius qs n d = Inr (s, e)"
    using assms none unfolding launch_new_run_def Let_def
    by (auto dest!: runs_skip split: option.splits if_splits sum.splits)
  have "qs \<noteq> []" "n = int (length qs) * gridPointCount * mapsCreditsPerCall"
    using qs by (auto simp: expected_run_credits_def split: if_splits)
  with reserve_and_start_run_exact [OF run assms(2)] n none show ?thesis by auto
qed

text \<open>
  C17: When the maps step of a location setup launches a run, it is exactly one run, of that
  location, with at least one query; no run of the location was active, its cost is within what
  was disclosed to the member, and both budgets hold it together with everything reserved before.
\<close>

theorem launched_maps_run_within_budget:
  assumes "launch_maps_visibility_tx grid l setup d = Inr (s, e)"
    "local_visibility_runs e \<noteq> local_visibility_runs d"
  shows "\<exists>r. local_visibility_runs e = local_visibility_runs d @ [r] \<and> RunLocation r = l \<and> RunStatus r = RunQueued
    \<and> RunQueries r \<noteq> [] \<and> RunExpectedCredits r = int (length (RunQueries r)) * gridPointCount * mapsCreditsPerCall
    \<and> RunExpectedCredits r \<le> (case LsEstimatedMapsCredits setup of None \<Rightarrow> maxDisclosedMapsCredits | Some n \<Rightarrow> n)
    \<and> \<not> active_location_run l d
    \<and> ReservedCredits (platform_credits d) + RunExpectedCredits r \<le> RemainingCredits (platform_credits d)
    \<and> ReservedCredits (organization_credits d) + RunExpectedCredits r \<le> RemainingCredits (organization_credits d)"
proof -
  have "launch_new_run grid l setup d = Inr (s, e)"
    using assms by (auto simp: launch_maps_visibility_tx_def keep_setup_def ensure_local_run_job_def insert_job_def runs_refresh
        split: option.splits if_splits)
  then show ?thesis using assms(2) by (rule launch_new_run_exact)
qed

theorem launched_maps_run_within_budget_witness:
  "\<exists>s e r. launch_maps_visibility_tx sample_grid 1 launching_row launching_db = Inr (s, e)
     \<and> local_visibility_runs e = [r] \<and> RunExpectedCredits r \<le> 27"
proof -
  have "case launch_maps_visibility_tx sample_grid 1 launching_row launching_db of Inl _ \<Rightarrow> False
      | Inr (s, e) \<Rightarrow> length (local_visibility_runs e) = 1"
    by code_simp
  then obtain s e where e: "launch_maps_visibility_tx sample_grid 1 launching_row launching_db = Inr (s, e)"
    "length (local_visibility_runs e) = 1"
    by (auto split: sum.splits)
  have "local_visibility_runs launching_db = []" "LsEstimatedMapsCredits launching_row = Some 27" by code_simp+
  moreover from this e(2) have "local_visibility_runs e \<noteq> local_visibility_runs launching_db" by auto
  ultimately show ?thesis using launched_maps_run_within_budget [OF e(1)] e(1) by auto
qed

end
