(* ===== verification/WorkerFindings.thy ===== *)
theory WorkerFindings
  imports WorkerProperties
begin

text \<open>What the model of the workflows shows of single runs, where the code surprises.\<close>

text \<open>One launch that skips both tests: the reason of the first skip is overwritten.\<close>

definition unbound_db :: db where
  "unbound_db = launching_db\<lparr>member_audit_limit := (\<lambda>_. None),
     project_locations := (\<lambda>l. map_option (\<lambda>r. r\<lparr>LocPlaceID := None\<rparr>) (project_locations launching_db l))\<rparr>"

lemma second_skip_erases_first_reason:
  "case launch_unfinished sample_grid 1 unbound_db of Inl _ \<Rightarrow> False
   | Inr e \<Rightarrow> (case location_setup_rows e 1 of None \<Rightarrow> False
       | Some s \<Rightarrow> LsSteps s StepAIVisibility = StepSkipped \<and> LsReasons s StepAIVisibility = None
           \<and> LsSteps s StepMapsVisibility = StepSkipped \<and> LsReasons s StepMapsVisibility = Some skipMapsUnbound)"
  by code_simp

text \<open>A crawl cancelled after a worker claimed it is revived when the worker starts it.\<close>

lemma cancelled_crawl_revived:
  "case sample [NewProject 7, BeginProject 7] of None \<Rightarrow> False
   | Some s \<Rightarrow> (case cancel_crawl 2 (fst s) of Inl _ \<Rightarrow> False
       | Inr e \<Rightarrow> map_option PsStatus (project_setup_row e) = Some ProjectFailed
           \<and> map CrawlStatus (crawl_rows (mark_crawl_running 2 e)) = [CrawlRunning])"
  by code_simp

text \<open>The audit of another crawl completes a project setup whose own audit is still queued.\<close>

lemma foreign_audit_completes_setup:
  "case sample [NewProject 8, BeginProject 8, RunCrawl 2, CompleteCrawl 2 5, ClaimJob, SettleJob 3, ClaimJob, SettleJob 4,
       ClaimJob, SettleJob 5] of None \<Rightarrow> False
   | Some s \<Rightarrow> (case create_manual_audit (Some 99) None 8 (fst s) of Inl _ \<Rightarrow> False
       | Inr d \<Rightarrow> (case find_job 9 d of None \<Rightarrow> False
           | Some j \<Rightarrow> (case finalize_job_success sample_grid j AuditCompleted d of Inl _ \<Rightarrow> False
               | Inr e \<Rightarrow> JobAudit j = Some 8 \<and> map_option PsStatus (project_setup_row d) = Some ProjectVisibility
                   \<and> map_option PsStatus (project_setup_row e) = Some ProjectCompleted
                   \<and> map (\<lambda>a. (AuditID a, AuditStatus a)) (ai_audits e) = [(6, AuditQueued), (8, AuditQueued)])))"
  by code_simp

text \<open>A reclaim after a resumed failure leaves the reason of the earlier failure in the row.\<close>

definition resumed_setup :: competitor_setup where
  "resumed_setup = \<lparr>CsRequestedBy = Some 7, CsParentCrawlID = Some 2, CsCrawlID = Some 4, CsStatus = StatusRunning,
     CsCrawlStatus = StepCompleted, CsKeywordGenerationStatus = StepRunning, CsKeywordAnalysisStatus = StepPending,
     CsError = None, CsFailedStep = None, CsStepReasons = [StepKeywordGeneration \<mapsto> ''first failure''], CsCompletedAt = False\<rparr>"

lemma reclaim_shows_old_reason:
  "let stale = [blank_job\<lparr>JobType := CompetitorKeywordGenerationJob, JobCompetitor := Some 3\<rparr>]
   in map ViewReason (ViewSteps (row_view (reclaim_competitor_setup stale 3 resumed_setup))) = [[], ''first failure'', []]"
  by code_simp

end
