(* ===== verification/MapsBudget.thy ===== *)
theory MapsBudget
  imports LocationSetup
begin

text \<open>
  The two budgets of Google Maps credits, of the platform and of each organization, and the tables
  whose rows hold credits of them: the maps runs with their cells and the listing lookups
  (\<open>internal/db/sqlc/local_visibility.sql.go\<close>, \<open>location_setup.sql.go\<close>). A statement that breaks a
  \<open>CHECK\<close> of its table is an error, which rolls its transaction back.
\<close>

section \<open>The interface of a budget\<close>

text \<open>What the spenders rely on: a reservation is granted only from what is left and not held, and a
  settlement releases and spends what it says.\<close>

locale credit_budget =
  fixes reserve :: "int \<Rightarrow> 'b \<Rightarrow> 'b option"
    and settle :: "int \<Rightarrow> int \<Rightarrow> 'b \<Rightarrow> 'b result"
    and held :: "'b \<Rightarrow> int" and spent :: "'b \<Rightarrow> int" and left :: "'b \<Rightarrow> int"
  assumes reserve_granted: "reserve n b = Some b' \<Longrightarrow>
      held b' = held b + n \<and> spent b' = spent b \<and> left b' = left b \<and> held b' \<le> left b'"
    and reserve_refused: "reserve n b = None \<longleftrightarrow> left b - held b < n"
    and settle_done: "settle r s b = Inr b' \<Longrightarrow>
      held b' = held b - r \<and> spent b' = spent b + s \<and> left b' = left b - s"
    and settle_accepted: "r \<le> held b \<Longrightarrow> 0 \<le> spent b + s \<Longrightarrow> \<exists>b'. settle r s b = Inr b'"
begin

lemma release_all:
  assumes "reserve n b = Some b'" "0 \<le> held b" "0 \<le> spent b"
  obtains b'' where "settle n 0 b' = Inr b''" "held b'' = held b" "spent b'' = spent b" "left b'' = left b"
proof -
  note g = reserve_granted [OF assms(1)]
  then obtain b'' where "settle n 0 b' = Inr b''" using settle_accepted [of n b' 0] assms by auto
  with settle_done [OF this] g that show ?thesis by auto
qed

lemma settle_keeps_total: "settle r s b = Inr b' \<Longrightarrow> left b' + spent b' = left b + spent b"
  using settle_done by fastforce

lemma reserve_keeps_total: "reserve n b = Some b' \<Longrightarrow> left b' + spent b' = left b + spent b"
  using reserve_granted by fastforce

text \<open>A ledger of what the rows hold and have used stays equal to the budget.\<close>

lemma ledger_reserve:
  "held b = h \<Longrightarrow> spent b = u \<Longrightarrow> reserve n b = Some b' \<Longrightarrow> held b' = h + n \<and> spent b' = u"
  using reserve_granted by fastforce

lemma ledger_settle:
  "held b = h \<Longrightarrow> spent b = u \<Longrightarrow> settle r s b = Inr b' \<Longrightarrow> held b' = h - r \<and> spent b' = u + s"
  using settle_done by fastforce

end

definition settle_maps_credits :: "int \<Rightarrow> int \<Rightarrow> credits \<Rightarrow> credits result" where
  "settle_maps_credits released spent c =
     (let c' = settle_credits released spent c in
      if ReservedCredits c' < 0 \<or> SpentCredits c' < 0 then Inl ''new row violates check constraint'' else Inr c')"

interpretation maps_budget: credit_budget reserve_credits settle_maps_credits ReservedCredits SpentCredits RemainingCredits
  by unfold_locales (auto simp: reserve_credits_def settle_maps_credits_def settle_credits_def Let_def split: if_splits)

section \<open>Rows\<close>

datatype call_status = RequestFailed | SuccessEmpty | SuccessNonempty

datatype match_status = MatchFound | MatchAbsent | MatchUnknown

record cell_outcome =
  CoCallStatus :: call_status
  CoMatchStatus :: match_status
  CoRank :: "int option"
  CoCredits :: int
  CoCreditKnown :: bool
  CoError :: "string option"

record run_cell =
  CellQuery :: nat
  CellPoint :: nat
  CellStarted :: bool
  CellOutcome :: "cell_outcome option"

record grid_point =
  PointIndex :: int
  PointLatitude :: rat
  PointLongitude :: rat
  PointDistanceM :: rat
  PointRing :: string
  PointSector :: string

record run_snapshot =
  SnapQueries :: "string list"
  SnapTargetPlaceID :: string
  SnapPoints :: "grid_point list"
  SnapViewports :: "string list"
  SnapProvider :: string
  SnapEndpoint :: string
  SnapZoom :: int
  SnapLanguage :: string
  SnapGridGeometryVersion :: int
  SnapComparisonVersion :: int
  SnapRequestedResultLimit :: int
  SnapViewportToleranceM :: rat

text \<open>A run carries the organization and the project its location belongs to.\<close>

record maps_run =
  MrID :: nat
  MrLocation :: nat
  MrProject :: nat
  MrOrg :: nat
  MrStatus :: run_status
  MrRadiusM :: int
  MrSnapshot :: run_snapshot
  MrExpected :: int
  MrReserved :: int
  MrUsed :: int
  MrError :: "string option"
  MrCells :: "run_cell list"

datatype lookup_status = LookupRunning | LookupCompleted | LookupFailed | LookupUncertain

record listing_lookup =
  LkID :: nat
  LkLocation :: nat
  LkOrg :: nat
  LkQuery :: string
  LkCandidateKey :: string
  LkStatus :: lookup_status
  LkExpected :: int
  LkReserved :: int
  LkUsed :: int
  LkCreditKnown :: bool
  LkError :: "string option"

record spend_location =
  SlProject :: nat
  SlOrg :: nat
  SlPlaceID :: "string option"
  SlQueries :: "(string \<times> bool) list"
  SlLatitude :: rat
  SlLongitude :: rat

record spend_db =
  maps_runs :: "maps_run list"
  listing_lookups :: "listing_lookup list"
  platform_budget :: credits
  organization_budgets :: "nat \<Rightarrow> credits option"
  spend_locations :: "nat \<Rightarrow> spend_location option"
  next_row :: nat

section \<open>Both budgets\<close>

definition mapsBudgetUnavailable :: string where
  "mapsBudgetUnavailable = ''Maps spending allowance is not provisioned or insufficient''"

definition reserve_both :: "int \<Rightarrow> nat \<Rightarrow> spend_db \<Rightarrow> spend_db result" where
  "reserve_both n org s =
     (case reserve_credits n (platform_budget s) of
        None \<Rightarrow> Inl mapsBudgetUnavailable
      | Some p \<Rightarrow>
          (case Option.bind (organization_budgets s org) (reserve_credits n) of
             None \<Rightarrow> Inl mapsBudgetUnavailable
           | Some b \<Rightarrow> Inr (s\<lparr>platform_budget := p, organization_budgets := (organization_budgets s)(org \<mapsto> b)\<rparr>)))"

text \<open>An organization without a row has nothing to update.\<close>

definition settle_both :: "int \<Rightarrow> int \<Rightarrow> nat \<Rightarrow> spend_db \<Rightarrow> spend_db result" where
  "settle_both released spent org s =
     bind_result (settle_maps_credits released spent (platform_budget s)) (\<lambda>p.
       case organization_budgets s org of
         None \<Rightarrow> Inr (s\<lparr>platform_budget := p\<rparr>)
       | Some b \<Rightarrow> bind_result (settle_maps_credits released spent b) (\<lambda>b'.
           Inr (s\<lparr>platform_budget := p, organization_budgets := (organization_budgets s)(org \<mapsto> b')\<rparr>)))"

section \<open>Statements on runs\<close>

definition find_maps_run :: "nat \<Rightarrow> spend_db \<Rightarrow> maps_run option" where
  "find_maps_run i s = find (\<lambda>r. MrID r = i) (maps_runs s)"

definition update_maps_run :: "nat \<Rightarrow> (maps_run \<Rightarrow> maps_run) \<Rightarrow> spend_db \<Rightarrow> spend_db" where
  "update_maps_run i f s = s\<lparr>maps_runs := map (\<lambda>r. if MrID r = i then f r else r) (maps_runs s)\<rparr>"

definition maps_run_active :: "maps_run \<Rightarrow> bool" where
  "maps_run_active r = (MrStatus r = RunQueued \<or> MrStatus r = RunRunning)"

definition create_local_run_cells :: "nat \<Rightarrow> nat \<Rightarrow> run_cell list" where
  "create_local_run_cells queryCount pointCount =
     concat (map (\<lambda>q. map (\<lambda>p. \<lparr>CellQuery = q, CellPoint = p, CellStarted = False, CellOutcome = None\<rparr>) [0..<pointCount])
       [0..<queryCount])"

definition start_local_visibility_run :: "nat \<Rightarrow> spend_db \<Rightarrow> spend_db option" where
  "start_local_visibility_run i s =
     (case find_maps_run i s of
        None \<Rightarrow> None
      | Some r \<Rightarrow> if MrStatus r = RunQueued then Some (update_maps_run i (\<lambda>r. r\<lparr>MrStatus := RunRunning\<rparr>) s) else None)"

definition is_cell :: "nat \<Rightarrow> nat \<Rightarrow> run_cell \<Rightarrow> bool" where
  "is_cell q p c = (CellQuery c = q \<and> CellPoint c = p)"

definition update_cell :: "nat \<Rightarrow> nat \<Rightarrow> (run_cell \<Rightarrow> run_cell) \<Rightarrow> maps_run \<Rightarrow> maps_run" where
  "update_cell q p f r = r\<lparr>MrCells := map (\<lambda>c. if is_cell q p c then f c else c) (MrCells r)\<rparr>"

definition start_local_run_cell :: "nat \<Rightarrow> nat \<Rightarrow> nat \<Rightarrow> spend_db \<Rightarrow> spend_db option" where
  "start_local_run_cell i q p s =
     (case find_maps_run i s of
        None \<Rightarrow> None
      | Some r \<Rightarrow>
          (case find (is_cell q p) (MrCells r) of
             None \<Rightarrow> None
           | Some c \<Rightarrow>
               if CellStarted c \<or> CellOutcome c \<noteq> None then None
               else Some (update_maps_run i (update_cell q p (\<lambda>c. c\<lparr>CellStarted := True\<rparr>)) s)))"

definition outcome_allowed :: "cell_outcome \<Rightarrow> bool" where
  "outcome_allowed oc =
     (0 \<le> CoCredits oc
      \<and> (case CoRank oc of None \<Rightarrow> CoMatchStatus oc \<noteq> MatchFound | Some n \<Rightarrow> CoMatchStatus oc = MatchFound \<and> 0 < n)
      \<and> (CoCallStatus oc \<noteq> RequestFailed \<or> CoMatchStatus oc = MatchUnknown))"

definition insert_local_visibility_result :: "nat \<Rightarrow> nat \<Rightarrow> nat \<Rightarrow> cell_outcome \<Rightarrow> spend_db \<Rightarrow> spend_db result" where
  "insert_local_visibility_result i q p oc s =
     (if \<not> outcome_allowed oc then Inl ''new row violates check constraint''
      else case Option.bind (find_maps_run i s) (\<lambda>r. find (is_cell q p) (MrCells r)) of
             None \<Rightarrow> Inl ''insert or update violates foreign key constraint''
           | Some c \<Rightarrow>
               if CellOutcome c \<noteq> None then Inl ''duplicate key value violates unique constraint''
               else Inr (update_maps_run i (update_cell q p (\<lambda>c. c\<lparr>CellOutcome := Some oc\<rparr>)) s))"

definition settle_local_run_credits :: "nat \<Rightarrow> int \<Rightarrow> int \<Rightarrow> spend_db \<Rightarrow> spend_db result" where
  "settle_local_run_credits i released spent s =
     (case find_maps_run i s of
        None \<Rightarrow> Inr s
      | Some r \<Rightarrow>
          if MrUsed r + spent > maxRunCredits then Inl ''integer out of range''
          else if MrReserved r - released < 0 \<or> MrUsed r + spent < 0 then Inl ''new row violates check constraint''
          else Inr (update_maps_run i (\<lambda>r. r\<lparr>MrReserved := MrReserved r - released, MrUsed := MrUsed r + spent\<rparr>) s))"

definition finish_local_visibility_run :: "nat \<Rightarrow> run_status \<Rightarrow> string option \<Rightarrow> spend_db \<Rightarrow> spend_db" where
  "finish_local_visibility_run i status message = update_maps_run i (\<lambda>r. r\<lparr>MrStatus := status, MrError := message\<rparr>)"

end
