(* ===== verification/MapsRuns.thy ===== *)
theory MapsRuns
  imports MapsBudget
begin

text \<open>
  A maps run (\<open>internal/localvisibility\<close>): the quote and the reservation (\<open>run_storage.go\<close>), the
  frozen snapshot and its validation, the execution cell by cell (\<open>run_execution.go\<close>), the
  settlement of each provider call and of the whole run. Parameters are the point that lies a
  distance away from another (\<open>destination\<close>, spherical trigonometry), the text of a viewport
  (\<open>format_viewport\<close>), the provider, and when the context is cancelled. Coordinates are rationals. An
  execution is one function of the tables; that the statements which start a run or a cell fail for
  other reasons than the state of their rows is left out.
\<close>

section \<open>The grid\<close>

type_synonym destination = "rat \<Rightarrow> rat \<Rightarrow> int \<Rightarrow> nat \<Rightarrow> nat \<Rightarrow> rat \<times> rat \<times> rat"
  \<comment> \<open>latitude, longitude, radius, row, column to latitude, longitude, distance\<close>

definition grid_sectors :: "string list list" where
  "grid_sectors = [[''NW'', ''N'', ''NE''], [''W'', ''centre'', ''E''], [''SW'', ''S'', ''SE'']]"

definition grid_point_at :: "destination \<Rightarrow> rat \<Rightarrow> rat \<Rightarrow> int \<Rightarrow> nat \<Rightarrow> nat \<Rightarrow> grid_point" where
  "grid_point_at destination latitude longitude radius row col =
     (let (lat, lon, distance) = destination latitude longitude radius row col;
          ring = (if row = 1 \<and> col = 1 then ''centre'' else if row \<noteq> 1 \<and> col \<noteq> 1 then ''corner'' else ''edge'')
      in \<lparr>PointIndex = int (row * 3 + col), PointLatitude = lat, PointLongitude = lon, PointDistanceM = distance,
          PointRing = ring, PointSector = grid_sectors ! row ! col\<rparr>)"

definition build_geo_grid :: "destination \<Rightarrow> rat \<Rightarrow> rat \<Rightarrow> int \<Rightarrow> grid_point list result" where
  "build_geo_grid destination latitude longitude radius =
     (if latitude < -90 \<or> latitude > 90 then Inl ''build geo grid: latitude out of range [-90,90]''
      else if longitude < -180 \<or> longitude > 180 then Inl ''build geo grid: longitude out of range [-180,180]''
      else if radius < 1000 \<or> radius > 25000 then Inl ''build geo grid: radius_m out of range [1000,25000]''
      else Inr (concat (map (\<lambda>row. map (grid_point_at destination latitude longitude radius row) [0..<3]) [0..<3])))"

section \<open>Enqueueing\<close>

fun format_viewports :: "(rat \<Rightarrow> rat \<Rightarrow> string result) \<Rightarrow> grid_point list \<Rightarrow> string list result" where
  "format_viewports format_viewport [] = Inr []"
| "format_viewports format_viewport (p # ps) =
     bind_result (format_viewport (PointLatitude p) (PointLongitude p)) (\<lambda>v.
       bind_result (format_viewports format_viewport ps) (\<lambda>vs. Inr (v # vs)))"

definition create_maps_run :: "nat \<Rightarrow> spend_location \<Rightarrow> int \<Rightarrow> run_snapshot \<Rightarrow> int \<Rightarrow> spend_db \<Rightarrow> (nat \<times> spend_db) result" where
  \<comment> \<open>\<open>CreateLocalVisibilityRun\<close> and \<open>CreateLocalRunCells\<close>, under the index of runs in flight\<close>
  "create_maps_run l loc radius snapshot expected s =
     (if list_ex (\<lambda>r. MrLocation r = l \<and> maps_run_active r) (maps_runs s)
      then Inl ''duplicate key value violates unique constraint''
      else Inr (next_row s,
        s\<lparr>maps_runs := maps_runs s @ [\<lparr>MrID = next_row s, MrLocation = l, MrProject = SlProject loc, MrOrg = SlOrg loc,
              MrStatus = RunQueued, MrRadiusM = radius, MrSnapshot = snapshot, MrExpected = expected, MrReserved = expected,
              MrUsed = 0, MrError = None,
              MrCells = create_local_run_cells (length (SnapQueries snapshot)) (length (SnapPoints snapshot))\<rparr>],
          next_row := Suc (next_row s)\<rparr>))"

definition freeze_snapshot :: "string \<Rightarrow> string list \<Rightarrow> string \<Rightarrow> grid_point list \<Rightarrow> string list \<Rightarrow> run_snapshot" where
  "freeze_snapshot endpoint queries place points viewports =
     \<lparr>SnapQueries = queries, SnapTargetPlaceID = place, SnapPoints = points, SnapViewports = viewports,
      SnapProvider = ''serper'', SnapEndpoint = endpoint, SnapZoom = 14, SnapLanguage = ''en'', SnapGridGeometryVersion = 1,
      SnapComparisonVersion = 1, SnapRequestedResultLimit = 20, SnapViewportToleranceM = 10\<rparr>"

definition enqueue_run ::
    "destination \<Rightarrow> (rat \<Rightarrow> rat \<Rightarrow> string result) \<Rightarrow> string \<Rightarrow> nat \<Rightarrow> int \<Rightarrow> int \<Rightarrow> spend_db \<Rightarrow> (nat \<times> spend_db) result" where
  "enqueue_run destination format_viewport endpoint l radius expectedCredits s =
     (case spend_locations s l of
        None \<Rightarrow> Inl ''no rows in result set''
      | Some loc \<Rightarrow>
          (case SlPlaceID loc of
             None \<Rightarrow> Inl ''bind a Google Maps listing before starting a ranking run''
           | Some place \<Rightarrow>
               if trim_space place = [] then Inl ''bind a Google Maps listing before starting a ranking run''
               else (case validate_map_queries (map fst (filter snd (SlQueries loc))) of
                  Inl e \<Rightarrow> Inl (''ranking runs require at least one enabled map query: '' @ e)
                | Inr queries \<Rightarrow>
                    bind_result (build_geo_grid destination (SlLatitude loc) (SlLongitude loc) radius) (\<lambda>points.
                    bind_result (expected_run_credits (int (length queries)) (int (length points))) (\<lambda>expected.
                      if expected > maxRunCredits then Inl ''local visibility run cost does not fit the INTEGER credit columns''
                      else if expected \<noteq> expectedCredits then Inl ''expected credits do not match the current quote''
                      else bind_result (format_viewports format_viewport points) (\<lambda>viewports.
                           bind_result (reserve_both expected (SlOrg loc) s) (\<lambda>s1.
                             create_maps_run l loc radius (freeze_snapshot endpoint queries place points viewports) expected s1)))))))"

section \<open>Validation of the frozen snapshot\<close>

definition localRunRings :: "string set" where
  "localRunRings = {''centre'', ''edge'', ''corner''}"

definition localRunSectors :: "string set" where
  "localRunSectors = {''centre'', ''N'', ''NE'', ''E'', ''SE'', ''S'', ''SW'', ''W'', ''NW''}"

fun validate_snapshot_queries :: "string set \<Rightarrow> string list \<Rightarrow> string option" where
  "validate_snapshot_queries seen [] = None"
| "validate_snapshot_queries seen (query # queries) =
     (if query = [] \<or> length query > 500 then Some ''local visibility snapshot query must contain 1-500 bytes''
      else if query \<noteq> trim_space query then Some ''local visibility snapshot query is not normalized''
      else if to_lower query \<in> seen then Some ''local visibility snapshot queries must be distinct''
      else validate_snapshot_queries (insert (to_lower query) seen) queries)"

fun validate_snapshot_points ::
    "(rat \<Rightarrow> rat \<Rightarrow> string result) \<Rightarrow> int set \<Rightarrow> (grid_point \<times> string) list \<Rightarrow> string option" where
  "validate_snapshot_points format_viewport seen [] = None"
| "validate_snapshot_points format_viewport seen ((p, viewport) # ps) =
     (if PointIndex p < 0 \<or> PointIndex p \<ge> gridPointCount then Some ''local visibility snapshot point index''
      else if PointIndex p \<in> seen then Some ''local visibility snapshot duplicate point index''
      else if PointRing p \<notin> localRunRings then Some ''local visibility snapshot point ring''
      else if PointSector p \<notin> localRunSectors then Some ''local visibility snapshot point sector''
      else (case format_viewport (PointLatitude p) (PointLongitude p) of
              Inl e \<Rightarrow> Some (''local visibility snapshot point: '' @ e)
            | Inr v \<Rightarrow>
                if v \<noteq> viewport then Some ''local visibility snapshot viewport''
                else validate_snapshot_points format_viewport (insert (PointIndex p) seen) ps))"

definition validate_local_run_snapshot :: "(rat \<Rightarrow> rat \<Rightarrow> string result) \<Rightarrow> run_snapshot \<Rightarrow> int \<Rightarrow> string option" where
  "validate_local_run_snapshot format_viewport snapshot expectedCredits =
     (if length (SnapQueries snapshot) < 1 \<or> int (length (SnapQueries snapshot)) > maxMapQueries
      then Some ''local visibility snapshot queries''
      else case validate_snapshot_queries {} (SnapQueries snapshot) of Some e \<Rightarrow> Some e | None \<Rightarrow>
      if int (length (SnapPoints snapshot)) \<noteq> gridPointCount then Some ''local visibility snapshot points''
      else if int (length (SnapViewports snapshot)) \<noteq> gridPointCount then Some ''local visibility snapshot viewports''
      else case validate_snapshot_points format_viewport {} (zip (SnapPoints snapshot) (SnapViewports snapshot)) of
        Some e \<Rightarrow> Some e | None \<Rightarrow>
      if SnapZoom snapshot \<noteq> 14 then Some ''local visibility snapshot zoom''
      else if SnapViewportToleranceM snapshot \<noteq> 10 then Some ''local visibility snapshot viewport tolerance''
      else if SnapProvider snapshot \<noteq> ''serper'' then Some ''local visibility snapshot provider''
      else if SnapEndpoint snapshot = [] then Some ''local visibility snapshot endpoint is empty''
      else if SnapLanguage snapshot \<noteq> ''en'' then Some ''local visibility snapshot language''
      else if SnapGridGeometryVersion snapshot \<noteq> 1 then Some ''local visibility snapshot grid geometry version''
      else if SnapComparisonVersion snapshot \<noteq> 1 then Some ''local visibility snapshot comparison version''
      else if SnapRequestedResultLimit snapshot \<noteq> 20 then Some ''local visibility snapshot requested result limit''
      else (case expected_run_credits (int (length (SnapQueries snapshot))) (int (length (SnapPoints snapshot))) of
              Inl e \<Rightarrow> Some e
            | Inr expected \<Rightarrow> if expected \<noteq> expectedCredits then Some ''local visibility snapshot cost'' else None))"

section \<open>The outcome of a call\<close>

record maps_response =
  RespPlaces :: "(string \<times> int) list"  \<comment> \<open>place id and position\<close>
  RespCredits :: int

definition credits_int32 :: "int \<Rightarrow> int" where
  "credits_int32 n = signed_take_bit 31 n"

definition resolve_local_place_rank :: "(string \<times> int) list \<Rightarrow> string \<Rightarrow> int \<times> bool" where
  "resolve_local_place_rank places target =
     (if target = [] then (0, False)
      else (let best = foldl (\<lambda>best (place, position).
                    if place \<noteq> target \<or> position \<le> 0 then best
                    else if best = 0 \<or> position < best then position else best) 0 places
            in (best, best > 0)))"

definition local_cell_outcome :: "string \<Rightarrow> maps_response \<Rightarrow> string option \<Rightarrow> cell_outcome" where
  "local_cell_outcome target response providerErr =
     (let known = RespCredits response > 0;
          credits = (if known then credits_int32 (RespCredits response) else 0)
      in case providerErr of
           Some e \<Rightarrow> \<lparr>CoCallStatus = RequestFailed, CoMatchStatus = MatchUnknown, CoRank = None, CoCredits = credits,
                      CoCreditKnown = known, CoError = Some e\<rparr>
         | None \<Rightarrow>
             (let (rank, found) = resolve_local_place_rank (RespPlaces response) target
              in \<lparr>CoCallStatus = (if RespPlaces response = [] then SuccessEmpty else SuccessNonempty),
                  CoMatchStatus = (if found then MatchFound else MatchAbsent),
                  CoRank = (if found then Some (credits_int32 rank) else None), CoCredits = credits,
                  CoCreditKnown = known, CoError = None\<rparr>))"

definition record_cell_outcome :: "nat \<Rightarrow> nat \<Rightarrow> nat \<Rightarrow> cell_outcome \<Rightarrow> spend_db \<Rightarrow> spend_db result" where
  "record_cell_outcome i q p oc s =
     (if CoCredits oc < 0 then Inl ''local visibility negative provider credits''
      else case find_maps_run i s of
        None \<Rightarrow> Inl ''no rows in result set''
      | Some run \<Rightarrow>
          (let released = (if CoCreditKnown oc then mapsCreditsPerCall else 0) in
           bind_result (settle_both released (CoCredits oc) (MrOrg run) s) (\<lambda>s1.
             if MrStatus run \<noteq> RunRunning then Inl ''local visibility outcome requires a running run''
             else bind_result (insert_local_visibility_result i q p oc s1) (\<lambda>s2.
               settle_local_run_credits i released (CoCredits oc) s2))))"

section \<open>Finishing\<close>

record run_outcome_summary =
  SumStatus :: run_status
  SumTotal :: nat
  SumSuccessful :: nat
  SumRequestFailed :: nat
  SumUnstarted :: nat
  SumStartedPending :: nat
  SumAmbiguous :: nat
  SumHeld :: int

definition cell_successful :: "run_cell \<Rightarrow> bool" where
  "cell_successful c = (case CellOutcome c of None \<Rightarrow> False | Some oc \<Rightarrow> CoCallStatus oc \<noteq> RequestFailed)"

definition cell_request_failed :: "run_cell \<Rightarrow> bool" where
  "cell_request_failed c = (case CellOutcome c of None \<Rightarrow> False | Some oc \<Rightarrow> CoCallStatus oc = RequestFailed)"

definition cell_credit_known :: "run_cell \<Rightarrow> bool" where
  "cell_credit_known c = (case CellOutcome c of None \<Rightarrow> False | Some oc \<Rightarrow> CoCreditKnown oc)"

definition count_cells :: "(run_cell \<Rightarrow> bool) \<Rightarrow> run_cell list \<Rightarrow> nat" where
  "count_cells P cs = length (filter P cs)"

definition summarize_run_outcome :: "run_cell list \<Rightarrow> int \<Rightarrow> run_outcome_summary" where
  "summarize_run_outcome cells reserved =
     (let successful = count_cells cell_successful cells;
          unstarted = count_cells (\<lambda>c. \<not> CellStarted c) cells
      in \<lparr>SumStatus = (if successful = length cells \<and> reserved = 0 then RunCompleted
                      else if successful = 0 then RunFailed else RunPartial),
          SumTotal = length cells, SumSuccessful = successful,
          SumRequestFailed = count_cells cell_request_failed cells, SumUnstarted = unstarted,
          SumStartedPending = count_cells (\<lambda>c. CellStarted c \<and> CellOutcome c = None) cells,
          SumAmbiguous = count_cells (\<lambda>c. CellStarted c \<and> \<not> cell_credit_known c) cells,
          SumHeld = reserved - int unstarted * mapsCreditsPerCall\<rparr>)"

definition summary_message :: "run_outcome_summary \<Rightarrow> string" where
  "summary_message s =
     itoa (int (SumSuccessful s)) @ '' of '' @ itoa (int (SumTotal s)) @ '' calls succeeded, '' @ itoa (int (SumRequestFailed s))
     @ '' failed, '' @ itoa (int (SumUnstarted s)) @ '' were not attempted, '' @ itoa (int (SumStartedPending s))
     @ '' started but left no outcome''
     @ (if SumHeld s > 0 then ''; '' @ itoa (SumHeld s) @ '' credits remain held pending reconciliation''
        else ''; no credits remain held'')
     @ (if SumAmbiguous s > 0 then ''; calls with unconfirmed charges: '' @ itoa (int (SumAmbiguous s))
          @ ''. Their cost is not yet confirmed'' else [])"

definition finish_maps_run :: "nat \<Rightarrow> spend_db \<Rightarrow> spend_db result" where
  "finish_maps_run i s =
     (case find_maps_run i s of
        None \<Rightarrow> Inl ''no rows in result set''
      | Some run \<Rightarrow>
          bind_result (settle_both 0 0 (MrOrg run) s) (\<lambda>s0.
            if \<not> maps_run_active run then Inr s
            else (let summary = summarize_run_outcome (MrCells run) (MrReserved run);
                      message = (if SumStatus summary \<noteq> RunCompleted then Some (summary_message summary) else None);
                      released = int (SumUnstarted summary) * mapsCreditsPerCall
                  in bind_result (settle_both released 0 (MrOrg run) s0) (\<lambda>s1.
                     bind_result (settle_local_run_credits i released 0 s1) (\<lambda>s2.
                       Inr (finish_local_visibility_run i (SumStatus summary) message s2))))))"

section \<open>Execution\<close>

fun execute_cells ::
    "(string \<Rightarrow> grid_point \<Rightarrow> maps_response \<times> string option) \<Rightarrow> (bool \<Rightarrow> nat \<times> nat \<Rightarrow> bool) \<Rightarrow> nat \<Rightarrow> string
      \<Rightarrow> ((nat \<times> string) \<times> nat \<times> grid_point) list \<Rightarrow> spend_db \<Rightarrow> string option \<times> spend_db" where
  \<comment> \<open>\<open>cancelled False\<close>: the context is cancelled before the call of a cell, \<open>cancelled True\<close>: after it was recorded\<close>
  "execute_cells provider cancelled i target [] s = (None, s)"
| "execute_cells provider cancelled i target (((q, query), (p, point)) # cells) s =
     (if cancelled False (q, p) then (None, s)
      else case start_local_run_cell i q p s of
        None \<Rightarrow> execute_cells provider cancelled i target cells s
      | Some s1 \<Rightarrow>
          (let (response, providerErr) = provider query point;
               oc = local_cell_outcome target response providerErr
           in case record_cell_outcome i q p oc s1 of
                Inl e \<Rightarrow> (Some (''local visibility record cell: '' @ e), s1)
              | Inr s2 \<Rightarrow>
                  if cancelled True (q, p) then (None, s2)
                  else if CoCreditKnown oc \<and> CoCredits oc \<noteq> mapsCreditsPerCall then (None, s2)
                  else execute_cells provider cancelled i target cells s2))"

definition snapshot_cells :: "run_snapshot \<Rightarrow> ((nat \<times> string) \<times> nat \<times> grid_point) list" where
  "snapshot_cells snapshot =
     List.product (zip [0..<length (SnapQueries snapshot)] (SnapQueries snapshot))
       (zip [0..<length (SnapPoints snapshot)] (SnapPoints snapshot))"

definition execute_local_visibility_run ::
    "(rat \<Rightarrow> rat \<Rightarrow> string result) \<Rightarrow> (string \<Rightarrow> grid_point \<Rightarrow> maps_response \<times> string option)
      \<Rightarrow> (bool \<Rightarrow> nat \<times> nat \<Rightarrow> bool) \<Rightarrow> nat \<Rightarrow> nat \<Rightarrow> spend_db \<Rightarrow> string option \<times> spend_db" where
  "execute_local_visibility_run format_viewport provider cancelled i project s =
     (case find_maps_run i s of
        None \<Rightarrow> (Some ''local visibility load run'', s)
      | Some run \<Rightarrow>
          if MrProject run \<noteq> project then (Some ''local visibility run does not belong to project'', s)
          else (case validate_local_run_snapshot format_viewport (MrSnapshot run) (MrExpected run) of
                  Some e \<Rightarrow> (Some e, s)
                | None \<Rightarrow>
                    (case start_local_visibility_run i s of
                       None \<Rightarrow> (Some ''local visibility run is not queued'', s)
                     | Some s1 \<Rightarrow>
                         (let (execErr, s2) = execute_cells provider cancelled i (SnapTargetPlaceID (MrSnapshot run))
                                (snapshot_cells (MrSnapshot run)) s1
                          in case finish_maps_run i s2 of
                               Inl e \<Rightarrow> (case execErr of Some x \<Rightarrow> (Some x, s2)
                                        | None \<Rightarrow> (Some (''local visibility finish run: '' @ e), s2))
                             | Inr s3 \<Rightarrow>
                                 (case execErr of
                                    Some x \<Rightarrow> (Some x, s3)
                                  | None \<Rightarrow>
                                      if map_option MrStatus (find_maps_run i s3) = Some RunCompleted then (None, s3)
                                      else (Some ''local visibility run did not complete'', s3))))))"

end
