(* ===== verification/ListingLookups.thy ===== *)
theory ListingLookups
  imports MapsBudget
begin

text \<open>
  Lookups of a Google listing (\<open>internal/localvisibility/listing_lookup_storage.go\<close>,
  \<open>places_listing_lookup_storage.go\<close>): a paid search of Maps that holds three credits until its
  charge is known, and the free search of Places.
\<close>

definition listingLookupCredits :: int where "listingLookupCredits = 3"

record listing_place =
  LpPlaceID :: string
  LpCoordinates :: "(rat \<times> rat) option"

record listing_response =
  ListPlaces :: "listing_place list"
  ListCredits :: int

record lookup_selection =
  SelQuery :: string
  SelCandidateKey :: string
  SelLatitude :: rat
  SelLongitude :: rat

definition has_map_coordinates :: "listing_place \<Rightarrow> bool" where
  "has_map_coordinates p =
     (case LpCoordinates p of None \<Rightarrow> False
      | Some (lat, lon) \<Rightarrow> -90 \<le> lat \<and> lat \<le> 90 \<and> -180 \<le> lon \<and> lon \<le> 180)"

definition validated_selection :: "lookup_selection \<Rightarrow> (string \<times> string) result" where
  "validated_selection sel =
     (let query = trim_space (SelQuery sel); key = trim_space (SelCandidateKey sel) in
      if query = [] then Inl ''listing lookup: query is required''
      else if key = [] then Inl ''listing lookup: candidate key is required''
      else if \<not> has_map_coordinates \<lparr>LpPlaceID = [], LpCoordinates = Some (SelLatitude sel, SelLongitude sel)\<rparr>
      then Inl ''listing lookup: invalid source coordinates''
      else Inr (query, key))"

section \<open>Statements\<close>

definition find_lookup :: "nat \<Rightarrow> spend_db \<Rightarrow> listing_lookup option" where
  "find_lookup i s = find (\<lambda>k. LkID k = i) (listing_lookups s)"

definition latest_lookup :: "nat \<Rightarrow> spend_db \<Rightarrow> listing_lookup option" where
  "latest_lookup l s = find (\<lambda>k. LkLocation k = l) (rev (listing_lookups s))"

definition lookup_unsettled :: "listing_lookup \<Rightarrow> bool" where
  "lookup_unsettled k = (LkStatus k = LookupRunning \<or> LkReserved k > 0)"

definition create_listing_lookup :: "nat \<Rightarrow> nat \<Rightarrow> string \<Rightarrow> string \<Rightarrow> int \<Rightarrow> bool \<Rightarrow> spend_db \<Rightarrow> (listing_lookup \<times> spend_db) result" where
  \<comment> \<open>under the index of one unsettled lookup per location\<close>
  "create_listing_lookup l org query key expected known s =
     (if list_ex (\<lambda>k. LkLocation k = l \<and> lookup_unsettled k) (listing_lookups s)
      then Inl ''duplicate key value violates unique constraint''
      else (let k = \<lparr>LkID = next_row s, LkLocation = l, LkOrg = org, LkQuery = query, LkCandidateKey = key,
                   LkStatus = LookupRunning, LkExpected = expected, LkReserved = expected, LkUsed = 0,
                   LkCreditKnown = known, LkError = None\<rparr>
            in Inr (k, s\<lparr>listing_lookups := listing_lookups s @ [k], next_row := Suc (next_row s)\<rparr>)))"

definition complete_listing_lookup ::
    "nat \<Rightarrow> lookup_status \<Rightarrow> int \<Rightarrow> int \<Rightarrow> bool \<Rightarrow> string option \<Rightarrow> spend_db \<Rightarrow> (listing_lookup \<times> spend_db) result" where
  "complete_listing_lookup i status reserved used known message s =
     (case find_lookup i s of
        None \<Rightarrow> Inl ''no rows in result set''
      | Some k \<Rightarrow>
          if LkStatus k \<noteq> LookupRunning then Inl ''no rows in result set''
          else if reserved < 0 \<or> reserved > LkExpected k \<or> used < 0 then Inl ''new row violates check constraint''
          else (let k' = k\<lparr>LkStatus := status, LkReserved := reserved, LkUsed := used, LkCreditKnown := known,
                          LkError := message\<rparr>
                in Inr (k', s\<lparr>listing_lookups := map (\<lambda>k. if LkID k = i then k' else k) (listing_lookups s)\<rparr>)))"

section \<open>The paid lookup\<close>

definition reserve_listing_lookup :: "nat \<Rightarrow> lookup_selection \<Rightarrow> spend_db \<Rightarrow> (listing_lookup \<times> bool \<times> spend_db) result" where
  "reserve_listing_lookup l sel s =
     bind_result (validated_selection sel) (\<lambda>(query, key).
       case spend_locations s l of
         None \<Rightarrow> Inl ''no rows in result set''
       | Some loc \<Rightarrow>
           if SlPlaceID loc \<noteq> None then Inl ''listing lookup: location already has a bound listing''
           else (case Option.bind (latest_lookup l s) (\<lambda>k.
                    if LkCandidateKey k = key \<and> LkExpected k = listingLookupCredits \<and> LkStatus k \<noteq> LookupRunning \<and> LkReserved k = 0
                    then Some k else None) of
                   Some k \<Rightarrow> Inr (k, False, s)
                 | None \<Rightarrow>
                     bind_result (reserve_both listingLookupCredits (SlOrg loc) s) (\<lambda>s1.
                       bind_result (create_listing_lookup l (SlOrg loc) query key listingLookupCredits False s1) (\<lambda>(k, s2).
                         Inr (k, True, s2)))))"

definition bindable :: "int \<Rightarrow> listing_place list \<Rightarrow> bool" where
  "bindable expected places =
     list_ex (\<lambda>p. trim_space (LpPlaceID p) \<noteq> [] \<and> (expected = listingLookupCredits \<longrightarrow> has_map_coordinates p)) places"

definition lookup_verdict :: "listing_lookup \<Rightarrow> listing_response \<Rightarrow> string option \<Rightarrow> lookup_status \<times> string option" where
  "lookup_verdict k response providerErr =
     (let known = ListCredits response > 0;
          (status1, message1) =
            (if known then (if providerErr \<noteq> None then LookupFailed else LookupCompleted, providerErr)
             else (LookupUncertain, case providerErr of Some e \<Rightarrow> Some e
                     | None \<Rightarrow> Some ''Provider charge is unconfirmed; the lookup reservation remains held''));
          (status2, message2) =
            (if known \<and> ListCredits response \<noteq> LkExpected k \<and> providerErr = None
             then (LookupFailed, Some ''Provider charged an unexpected listing lookup price; actual spend was recorded'')
             else (status1, message1))
      in if status2 = LookupCompleted \<and> ListPlaces response \<noteq> [] \<and> \<not> bindable (LkExpected k) (ListPlaces response)
         then (LookupFailed, Some ''Listing search returned results without a bindable placeId'')
         else (status2, message2))"

definition record_listing_lookup ::
    "nat \<Rightarrow> listing_response \<Rightarrow> string option \<Rightarrow> spend_db \<Rightarrow> (listing_lookup \<times> spend_db) result" where
  "record_listing_lookup i response providerErr s =
     (case find_lookup i s of
        None \<Rightarrow> Inl ''no rows in result set''
      | Some k \<Rightarrow>
          bind_result (settle_both 0 0 (LkOrg k) s) (\<lambda>s0.
            if LkStatus k \<noteq> LookupRunning then Inr (k, s)
            else (let known = ListCredits response > 0;
                      reserved = (if known then 0 else LkReserved k);
                      used = (if known then ListCredits response else 0);
                      (status, message) = lookup_verdict k response providerErr
                  in bind_result (settle_both (LkReserved k - reserved) used (LkOrg k) s0) (\<lambda>s1.
                       complete_listing_lookup i status reserved used known message s1))))"

section \<open>The free lookup\<close>

definition start_places_listing_lookup ::
    "nat \<Rightarrow> lookup_selection \<Rightarrow> spend_db \<Rightarrow> (listing_lookup \<times> bool \<times> spend_db) result" where
  "start_places_listing_lookup l sel s =
     bind_result (validated_selection sel) (\<lambda>(query, key).
       case spend_locations s l of
         None \<Rightarrow> Inl ''no rows in result set''
       | Some loc \<Rightarrow>
           if SlPlaceID loc \<noteq> None then Inl ''listing lookup: location already has a bound listing''
           else (case Option.bind (latest_lookup l s) (\<lambda>k.
                    if LkCandidateKey k = key \<and> LkExpected k = 0 \<and> LkCreditKnown k \<and> LkReserved k = 0
                       \<and> LkStatus k \<in> {LookupCompleted, LookupFailed} then Some k else None) of
                   Some k \<Rightarrow> Inr (k, False, s)
                 | None \<Rightarrow>
                     bind_result (create_listing_lookup l (SlOrg loc) query key 0 True s) (\<lambda>(k, s1). Inr (k, True, s1))))"

definition record_places_listing_lookup ::
    "nat \<Rightarrow> listing_response \<Rightarrow> string option \<Rightarrow> spend_db \<Rightarrow> (listing_lookup \<times> spend_db) result" where
  "record_places_listing_lookup i response providerErr s =
     (if ListCredits response \<noteq> 0 then Inl ''Places listing lookup: unexpected application credits''
      else case find_lookup i s of
        None \<Rightarrow> Inl ''no rows in result set''
      | Some k \<Rightarrow>
          if LkExpected k \<noteq> 0 \<or> LkReserved k \<noteq> 0 then Inl ''Places listing lookup: cannot change paid lookup evidence''
          else if LkStatus k \<noteq> LookupRunning then Inr (k, s)
          else (let (status, message) =
                  (case providerErr of
                     Some e \<Rightarrow> (LookupFailed, Some e)
                   | None \<Rightarrow>
                       if ListPlaces response \<noteq> []
                          \<and> \<not> list_ex (\<lambda>p. trim_space (LpPlaceID p) \<noteq> [] \<and> has_map_coordinates p) (ListPlaces response)
                       then (LookupFailed, Some ''Places listing lookup returned no bindable placeId and coordinates'')
                       else (LookupCompleted, None))
                in complete_listing_lookup i status 0 0 True message s))"

section \<open>Allowances and deletion\<close>

text \<open>The administrator's allowances (\<open>internal/app/admin_maps_budget.go\<close>): compare and set.\<close>

definition read_maps_budget_update :: "int option \<Rightarrow> int option \<Rightarrow> (int \<times> int) result" where
  "read_maps_budget_update remaining expected =
     (case (remaining, expected) of
        (Some n, Some m) \<Rightarrow>
          if n < 0 \<or> n > 1000000000
          then Inl ''remaining_credits and expected_remaining_credits are required; new allowance must be 0-1000000000''
          else Inr (n, m)
      | _ \<Rightarrow> Inl ''remaining_credits and expected_remaining_credits are required; new allowance must be 0-1000000000'')"

definition update_platform_maps_credit_budget :: "int \<Rightarrow> int \<Rightarrow> spend_db \<Rightarrow> spend_db option" where
  "update_platform_maps_credit_budget remaining expected s =
     (if RemainingCredits (platform_budget s) = expected
      then Some (s\<lparr>platform_budget := (platform_budget s)\<lparr>RemainingCredits := remaining\<rparr>\<rparr>) else None)"

definition update_organization_maps_credit_budget :: "int \<Rightarrow> nat \<Rightarrow> int \<Rightarrow> spend_db \<Rightarrow> spend_db option" where
  "update_organization_maps_credit_budget remaining org expected s =
     (case organization_budgets s org of
        None \<Rightarrow>
          if expected = 0
          then Some (s\<lparr>organization_budgets := (organization_budgets s)
                 (org \<mapsto> \<lparr>RemainingCredits = remaining, ReservedCredits = 0, SpentCredits = 0\<rparr>)\<rparr>)
          else None
      | Some b \<Rightarrow>
          if RemainingCredits b = expected
          then Some (s\<lparr>organization_budgets := (organization_budgets s)(org \<mapsto> b\<lparr>RemainingCredits := remaining\<rparr>)\<rparr>)
          else None)"

definition admin_put_platform_maps_budget :: "int option \<Rightarrow> int option \<Rightarrow> spend_db \<Rightarrow> spend_db result" where
  "admin_put_platform_maps_budget remaining expected s =
     bind_result (read_maps_budget_update remaining expected) (\<lambda>(n, m).
       case update_platform_maps_credit_budget n m s of
         None \<Rightarrow> Inl ''Platform allowance changed; reload before saving'' | Some t \<Rightarrow> Inr t)"

definition admin_put_maps_budget :: "bool \<Rightarrow> nat \<Rightarrow> int option \<Rightarrow> int option \<Rightarrow> spend_db \<Rightarrow> spend_db result" where
  \<comment> \<open>\<open>known\<close>: there is such an organization\<close>
  "admin_put_maps_budget known org remaining expected s =
     bind_result (read_maps_budget_update remaining expected) (\<lambda>(n, m).
       if \<not> known then Inl ''organization not found''
       else (case update_organization_maps_credit_budget n org m s of
               None \<Rightarrow> Inl ''Maps allowance changed; reload before saving'' | Some t \<Rightarrow> Inr t))"

text \<open>A location is not deleted while credits are held for it; the ledger keeps what was spent.\<close>

definition run_unsettled :: "maps_run \<Rightarrow> bool" where
  "run_unsettled r = (MrStatus r = RunQueued \<or> MrStatus r = RunRunning \<or> MrReserved r > 0)"

definition delete_location :: "nat \<Rightarrow> spend_db \<Rightarrow> spend_db result" where
  "delete_location l s =
     (if list_ex (\<lambda>r. MrLocation r = l \<and> run_unsettled r) (maps_runs s)
         \<or> list_ex (\<lambda>k. LkLocation k = l \<and> lookup_unsettled k) (listing_lookups s)
      then Inl ''location has active or unconfirmed Maps spend; settle active or unconfirmed spending before deleting this location''
      else Inr (s\<lparr>maps_runs := filter (\<lambda>r. MrLocation r \<noteq> l) (maps_runs s),
                  listing_lookups := filter (\<lambda>k. LkLocation k \<noteq> l) (listing_lookups s),
                  spend_locations := (spend_locations s)(l := None)\<rparr>))"

end
