(* ===== verification/MapsSpend.thy ===== *)
theory MapsSpend
  imports MapsRuns ListingLookups
begin

text \<open>
  The spending of Maps credits as a system: members enqueue runs and lookups, executors start cells
  and record provider calls, the sweep finishes interrupted runs while their executor may still be
  at work, administrators change what is left. Its invariant: the budgets hold exactly what the
  rows hold, and a run holds exactly what its calls may still cost.
\<close>

section \<open>Holders of credits\<close>

record holder =
  HoldID :: nat
  HoldOrg :: nat
  HoldReserved :: int
  HoldUsed :: int

definition run_holder :: "maps_run \<Rightarrow> holder" where
  "run_holder r = \<lparr>HoldID = MrID r, HoldOrg = MrOrg r, HoldReserved = MrReserved r, HoldUsed = MrUsed r\<rparr>"

definition lookup_holder :: "listing_lookup \<Rightarrow> holder" where
  "lookup_holder k = \<lparr>HoldID = LkID k, HoldOrg = LkOrg k, HoldReserved = LkReserved k, HoldUsed = LkUsed k\<rparr>"

definition holders :: "spend_db \<Rightarrow> holder list" where
  "holders s = map run_holder (maps_runs s) @ map lookup_holder (listing_lookups s)"

definition sum_held :: "(holder \<Rightarrow> int) \<Rightarrow> (nat \<Rightarrow> bool) \<Rightarrow> holder list \<Rightarrow> int" where
  "sum_held f Q hs = sum_list (map (\<lambda>h. if Q (HoldOrg h) then f h else 0) hs)"

text \<open>What was spent includes what rows that are gone have used.\<close>

definition covers :: "credits \<Rightarrow> (nat \<Rightarrow> bool) \<Rightarrow> holder list \<Rightarrow> bool" where
  "covers b Q hs = (ReservedCredits b = sum_held HoldReserved Q hs \<and> sum_held HoldUsed Q hs \<le> SpentCredits b)"

definition balanced :: "spend_db \<Rightarrow> holder list \<Rightarrow> bool" where
  "balanced s hs =
     (covers (platform_budget s) (\<lambda>_. True) hs
      \<and> (\<forall>org b. organization_budgets s org = Some b \<longrightarrow> covers b ((=) org) hs)
      \<and> (\<forall>h \<in> set hs. organization_budgets s (HoldOrg h) = None \<longrightarrow> HoldReserved h = 0 \<and> HoldUsed h = 0)
      \<and> (\<forall>h \<in> set hs. 0 \<le> HoldReserved h \<and> 0 \<le> HoldUsed h))"

lemma sum_held_simps [simp]:
  "sum_held f Q [] = 0" "sum_held f Q (h # hs) = (if Q (HoldOrg h) then f h else 0) + sum_held f Q hs"
  "sum_held f Q (hs @ gs) = sum_held f Q hs + sum_held f Q gs"
  by (simp_all add: sum_held_def)

definition update_holder :: "nat \<Rightarrow> (holder \<Rightarrow> holder) \<Rightarrow> holder list \<Rightarrow> holder list" where
  "update_holder i g hs = map (\<lambda>h. if HoldID h = i then g h else h) hs"

lemma update_holder_absent: "i \<notin> HoldID ` set hs \<Longrightarrow> update_holder i g hs = hs"
  unfolding update_holder_def by (rule map_idI) auto

lemma sum_held_update:
  assumes "distinct (map HoldID hs)" "h \<in> set hs" "HoldOrg (g h) = HoldOrg h"
  shows "sum_held f Q (update_holder (HoldID h) g hs) = sum_held f Q hs + (if Q (HoldOrg h) then f (g h) - f h else 0)"
  using assms
proof (induction hs)
  case (Cons k hs)
  show ?case
  proof (cases "k = h")
    case True
    then have "update_holder (HoldID h) g hs = hs" using Cons.prems(1) by (intro update_holder_absent) auto
    then show ?thesis using True Cons.prems(3) by (simp add: update_holder_def)
  next
    case False
    then have "h \<in> set hs" "HoldID k \<noteq> HoldID h" using Cons.prems by auto
    then show ?thesis using Cons by (simp add: update_holder_def)
  qed
qed simp

section \<open>What the budgets do\<close>

lemma covers_settle:
  assumes "covers b Q hs" "settle_maps_credits x y b = Inr b'" "distinct (map HoldID hs)" "h \<in> set hs"
    "HoldOrg (g h) = HoldOrg h" "Q (HoldOrg h)" "HoldReserved (g h) = HoldReserved h - x" "HoldUsed (g h) = HoldUsed h + y"
  shows "covers b' Q (update_holder (HoldID h) g hs)"
  using assms maps_budget.settle_done [OF assms(2)] by (auto simp: covers_def sum_held_update)

lemma covers_other:
  assumes "covers b Q hs" "distinct (map HoldID hs)" "h \<in> set hs" "HoldOrg (g h) = HoldOrg h" "\<not> Q (HoldOrg h)"
  shows "covers b Q (update_holder (HoldID h) g hs)"
  using assms by (simp add: covers_def sum_held_update)

lemma balanced_settle:
  assumes s: "balanced s hs" and t: "settle_both x y (HoldOrg h) s = Inr t"
    and h: "distinct (map HoldID hs)" "h \<in> set hs" "organization_budgets s (HoldOrg h) \<noteq> None"
    and g: "HoldOrg (g h) = HoldOrg h" "HoldReserved (g h) = HoldReserved h - x" "HoldUsed (g h) = HoldUsed h + y"
    and pos: "0 \<le> HoldReserved h - x" "0 \<le> HoldUsed h + y"
  shows "balanced t (update_holder (HoldID h) g hs)"
proof -
  obtain b where b: "organization_budgets s (HoldOrg h) = Some b" using h(3) by blast
  obtain p b' where p: "settle_maps_credits x y (platform_budget s) = Inr p" and b': "settle_maps_credits x y b = Inr b'"
    and t: "t = s\<lparr>platform_budget := p, organization_budgets := (organization_budgets s)(HoldOrg h \<mapsto> b')\<rparr>"
    using t b by (auto simp: settle_both_def)
  have same: "k = h" if "k \<in> set hs" "HoldID k = HoldID h" for k
    using that h(1,2) by (meson distinct_map inj_onD)
  have "covers p (\<lambda>_. True) (update_holder (HoldID h) g hs)"
    by (rule covers_settle [where Q = "\<lambda>_. True" and h = h and g = g, OF _ p h(1,2) g(1) _ g(2,3)])
      (use s in \<open>simp_all add: balanced_def\<close>)
  moreover have "covers c ((=) org) (update_holder (HoldID h) g hs)" if "organization_budgets t org = Some c" for org c
  proof (cases "org = HoldOrg h")
    case True
    then have "c = b'" using that t by simp
    moreover have "covers b ((=) (HoldOrg h)) hs" using s b by (simp add: balanced_def)
    ultimately show ?thesis using covers_settle [where Q = "(=) (HoldOrg h)" and h = h and g = g, OF _ b' h(1,2) g(1) _ g(2,3)] True by blast
  next
    case False
    then have "covers c ((=) org) hs" using that t s by (simp add: balanced_def)
    then show ?thesis using covers_other [where Q = "(=) org" and h = h and g = g, OF _ h(1,2) g(1)] False by blast
  qed
  ultimately show ?thesis using s t g pos b
    by (auto simp: balanced_def update_holder_def dest: same)
qed

lemma balanced_reserve:
  assumes s: "balanced s hs" and t: "reserve_both n org s = Inr t" and n: "0 \<le> n"
    and h: "HoldOrg h = org" "HoldReserved h = n" "HoldUsed h = 0"
    and gs: "set gs = insert h (set hs)" "\<And>f Q. sum_held f Q gs = sum_held f Q hs + (if Q org then f h else 0)"
  shows "balanced t gs" "organization_budgets t org \<noteq> None"
proof -
  obtain p b b' where p: "reserve_credits n (platform_budget s) = Some p" and b: "organization_budgets s org = Some b"
    and b': "reserve_credits n b = Some b'"
    and t: "t = s\<lparr>platform_budget := p, organization_budgets := (organization_budgets s)(org \<mapsto> b')\<rparr>"
    using t by (auto simp: reserve_both_def bind_eq_Some_conv split: option.splits)
  have grow: "covers c' Q gs" if "covers c Q hs" "reserve_credits n c = Some c'" "Q org" for c c' Q
    using that(1,3) maps_budget.reserve_granted [OF that(2)] h by (auto simp: covers_def gs(2))
  have other: "covers c Q gs" if "covers c Q hs" "\<not> Q org" for c Q using that by (simp add: covers_def gs(2))
  have "covers p (\<lambda>_. True) gs" using grow [OF _ p] s by (simp add: balanced_def)
  moreover have "covers c ((=) og) gs" if "organization_budgets t og = Some c" for og c
    using that s t b grow [OF _ b'] other by (cases "og = org") (auto simp: balanced_def)
  ultimately show "balanced t gs" using s t h n by (auto simp: balanced_def gs(1))
  show "organization_budgets t org \<noteq> None" using t by simp
qed

text \<open>A settlement that the row can pay is never refused.\<close>

lemma sum_held_nonneg: "(\<And>h. h \<in> set hs \<Longrightarrow> 0 \<le> f h) \<Longrightarrow> 0 \<le> sum_held f Q hs"
  by (induction hs) auto

lemma sum_held_member:
  assumes "h \<in> set hs" "\<And>h. h \<in> set hs \<Longrightarrow> 0 \<le> f h" "Q (HoldOrg h)"
  shows "f h \<le> sum_held f Q hs"
  using assms
proof (induction hs)
  case (Cons k hs)
  then show ?case using sum_held_nonneg [of hs f Q] by (auto split: if_splits) (smt (verit) list.set_intros(2))+
qed simp

lemma covers_accepts:
  assumes "covers b Q hs" "h \<in> set hs" "Q (HoldOrg h)" "\<forall>h \<in> set hs. 0 \<le> HoldReserved h \<and> 0 \<le> HoldUsed h"
    "x \<le> HoldReserved h" "0 \<le> y"
  shows "\<exists>b'. settle_maps_credits x y b = Inr b'"
proof (rule maps_budget.settle_accepted)
  show "x \<le> ReservedCredits b" using sum_held_member [of h hs HoldReserved Q] assms by (simp add: covers_def)
  have "0 \<le> sum_held HoldUsed Q hs" using assms(4) by (intro sum_held_nonneg) auto
  then show "0 \<le> SpentCredits b + y" using assms by (simp add: covers_def)
qed

lemma balanced_accepts:
  assumes "balanced s hs" "h \<in> set hs" "x \<le> HoldReserved h" "0 \<le> y"
  obtains t where "settle_both x y (HoldOrg h) s = Inr t"
proof -
  have pos: "\<forall>h \<in> set hs. 0 \<le> HoldReserved h \<and> 0 \<le> HoldUsed h" using assms(1) by (simp add: balanced_def)
  obtain p where p: "settle_maps_credits x y (platform_budget s) = Inr p"
    using covers_accepts [OF _ assms(2) _ pos assms(3,4), of "platform_budget s" "\<lambda>_. True"] assms(1) by (auto simp: balanced_def)
  show ?thesis
  proof (cases "organization_budgets s (HoldOrg h)")
    case None
    then show ?thesis using that p by (simp add: settle_both_def)
  next
    case (Some b)
    then have "covers b ((=) (HoldOrg h)) hs" using assms(1) by (simp add: balanced_def)
    then obtain b' where "settle_maps_credits x y b = Inr b'" using covers_accepts [OF _ assms(2) _ pos assms(3,4)] by blast
    then show ?thesis using that p Some by (simp add: settle_both_def)
  qed
qed

lemma settle_both_frame:
  assumes "settle_both x y org s = Inr t"
  shows "maps_runs t = maps_runs s" "listing_lookups t = listing_lookups s" "next_row t = next_row s"
    "spend_locations t = spend_locations s" "\<And>o'. organization_budgets t o' = None \<longleftrightarrow> organization_budgets s o' = None"
  using assms by (auto simp: settle_both_def split: option.splits if_splits)

lemma reserve_both_frame:
  assumes "reserve_both n org s = Inr t"
  shows "maps_runs t = maps_runs s" "listing_lookups t = listing_lookups s" "next_row t = next_row s"
    "spend_locations t = spend_locations s" "\<And>o'. organization_budgets s o' \<noteq> None \<Longrightarrow> organization_budgets t o' \<noteq> None"
  using assms by (auto simp: reserve_both_def bind_eq_Some_conv split: option.splits)

section \<open>A run\<close>

definition cell_key :: "run_cell \<Rightarrow> nat \<times> nat" where
  "cell_key c = (CellQuery c, CellPoint c)"

definition cell_ok :: "run_cell \<Rightarrow> bool" where
  "cell_ok c = (case CellOutcome c of None \<Rightarrow> True | Some oc \<Rightarrow> CellStarted c \<and> 0 \<le> CoCredits oc)"

definition cell_credits :: "run_cell \<Rightarrow> int" where
  "cell_credits c = (case CellOutcome c of None \<Rightarrow> 0 | Some oc \<Rightarrow> CoCredits oc)"

text \<open>What the cells may still cost: three credits for each whose charge is not known.\<close>

definition open_cells :: "run_cell list \<Rightarrow> int" where
  "open_cells cs = int (count_cells (\<lambda>c. \<not> cell_credit_known c) cs)"

definition open_started_cells :: "run_cell list \<Rightarrow> int" where
  "open_started_cells cs = int (count_cells (\<lambda>c. CellStarted c \<and> \<not> cell_credit_known c) cs)"

definition run_ok :: "maps_run \<Rightarrow> bool" where
  "run_ok r =
     (distinct (map cell_key (MrCells r)) \<and> (\<forall>c \<in> set (MrCells r). cell_ok c)
      \<and> MrUsed r = sum_list (map cell_credits (MrCells r)) \<and> MrUsed r \<le> maxRunCredits
      \<and> 0 \<le> MrReserved r
      \<and> (if maps_run_active r then MrReserved r = mapsCreditsPerCall * open_cells (MrCells r)
         else MrReserved r \<le> mapsCreditsPerCall * open_started_cells (MrCells r))
      \<and> (MrStatus r = RunQueued \<longrightarrow> (\<forall>c \<in> set (MrCells r). \<not> CellStarted c))
      \<and> (MrStatus r = RunCompleted \<longrightarrow> MrReserved r = 0 \<and> (\<forall>c \<in> set (MrCells r). cell_successful c)))"

lemma count_cells_simps [simp]:
  "count_cells P [] = 0" "count_cells P (c # cs) = (if P c then 1 else 0) + count_cells P cs"
  by (simp_all add: count_cells_def)

definition set_cell :: "nat \<Rightarrow> nat \<Rightarrow> (run_cell \<Rightarrow> run_cell) \<Rightarrow> run_cell list \<Rightarrow> run_cell list" where
  "set_cell q p f cs = map (\<lambda>c. if is_cell q p c then f c else c) cs"

lemma is_cell_key: "is_cell q p c \<longleftrightarrow> cell_key c = (q, p)"
  by (simp add: is_cell_def cell_key_def)

lemma find_cellD: "find (is_cell q p) cs = Some c \<Longrightarrow> c \<in> set cs \<and> is_cell q p c"
  by (auto simp: find_Some_iff)

lemma find_cellI: "distinct (map cell_key cs) \<Longrightarrow> c \<in> set cs \<Longrightarrow> is_cell q p c \<Longrightarrow> find (is_cell q p) cs = Some c"
  by (induction cs) (auto simp: is_cell_key rev_image_eqI)

text \<open>A sum over the cells when one changes.\<close>

lemma sum_set_cell:
  fixes g :: "run_cell \<Rightarrow> int"
  assumes "distinct (map cell_key cs)" "find (is_cell q p) cs = Some c"
  shows "sum_list (map g (set_cell q p f cs)) = sum_list (map g cs) - g c + g (f c)"
  using assms
proof (induction cs)
  case (Cons k cs)
  show ?case
  proof (cases "is_cell q p k")
    case True
    then have "\<not> is_cell q p x" if "x \<in> set cs" for x using Cons.prems(1) that by (auto simp: is_cell_key rev_image_eqI)
    then have "set_cell q p f cs = cs" unfolding set_cell_def by (intro map_idI) auto
    then show ?thesis using True Cons.prems(2) by (simp add: set_cell_def)
  next
    case False
    then show ?thesis using Cons by (simp add: set_cell_def)
  qed
qed simp

lemma count_sum: "int (count_cells P cs) = sum_list (map (\<lambda>c. if P c then 1 else 0) cs)"
  by (induction cs) auto

lemma count_set_cell:
  assumes "distinct (map cell_key cs)" "find (is_cell q p) cs = Some c"
  shows "int (count_cells P (set_cell q p f cs)) = int (count_cells P cs) - (if P c then 1 else 0) + (if P (f c) then 1 else 0)"
  using sum_set_cell [OF assms, of "\<lambda>c. if P c then 1 else 0"] by (simp add: count_sum)

lemma set_cell_keys [simp]:
  "(\<And>c. cell_key (f c) = cell_key c) \<Longrightarrow> map cell_key (set_cell q p f cs) = map cell_key cs"
  by (simp add: set_cell_def)

lemma find_set_cell:
  assumes "\<And>c. cell_key (f c) = cell_key c"
  shows "find (is_cell q' p') (set_cell q p f cs)
    = map_option (\<lambda>c. if (q', p') = (q, p) then f c else c) (find (is_cell q' p') cs)"
  using assms by (induction cs) (auto simp: set_cell_def is_cell_key)

lemma update_cell_fields [simp]:
  "MrCells (update_cell q p f r) = set_cell q p f (MrCells r)" "MrID (update_cell q p f r) = MrID r"
  "MrOrg (update_cell q p f r) = MrOrg r" "MrStatus (update_cell q p f r) = MrStatus r"
  "MrReserved (update_cell q p f r) = MrReserved r" "MrUsed (update_cell q p f r) = MrUsed r"
  "maps_run_active (update_cell q p f r) = maps_run_active r"
  by (simp_all add: update_cell_def set_cell_def maps_run_active_def)

lemma started_key [simp]: "cell_key (c\<lparr>CellStarted := b\<rparr>) = cell_key c" "cell_key (c\<lparr>CellOutcome := x\<rparr>) = cell_key c"
  by (simp_all add: cell_key_def)

lemma in_set_cell:
  "x \<in> set (set_cell q p f cs) \<Longrightarrow> (\<exists>c \<in> set cs. is_cell q p c \<and> x = f c) \<or> (x \<in> set cs \<and> \<not> is_cell q p x)"
  by (auto simp: set_cell_def)

text \<open>A cell is started.\<close>

lemma run_ok_start_cell:
  assumes r: "run_ok r" and c: "find (is_cell q p) (MrCells r) = Some c" "\<not> CellStarted c" "CellOutcome c = None"
    and s: "MrStatus r \<noteq> RunQueued"
  shows "run_ok (update_cell q p (\<lambda>c. c\<lparr>CellStarted := True\<rparr>) r)"
proof -
  let ?f = "\<lambda>c. c\<lparr>CellStarted := True\<rparr>"
  have d: "distinct (map cell_key (MrCells r))" using r by (simp add: run_ok_def)
  note n = count_set_cell [OF d c(1), where f = ?f]
  have known: "cell_credit_known (?f c) = cell_credit_known c" "cell_credits (?f c) = cell_credits c"
    "cell_successful (?f c) = cell_successful c" "cell_ok c \<Longrightarrow> cell_ok (?f c)" for c
    by (simp_all add: cell_credit_known_def cell_credits_def cell_successful_def cell_ok_def split: option.splits)
  have "open_cells (set_cell q p ?f (MrCells r)) = open_cells (MrCells r)"
    "open_started_cells (MrCells r) \<le> open_started_cells (set_cell q p ?f (MrCells r))"
    using n [of "\<lambda>c. \<not> cell_credit_known c"] n [of "\<lambda>c. CellStarted c \<and> \<not> cell_credit_known c"] c(2)
    by (simp_all add: open_cells_def open_started_cells_def known)
  moreover have "sum_list (map cell_credits (set_cell q p ?f (MrCells r))) = sum_list (map cell_credits (MrCells r))"
    using sum_set_cell [OF d c(1), of cell_credits ?f] by (simp add: known)
  moreover have "\<forall>x \<in> set (set_cell q p ?f (MrCells r)). cell_ok x"
    using r by (auto simp: run_ok_def known dest!: in_set_cell)
  moreover have "MrStatus r = RunCompleted \<Longrightarrow> \<forall>x \<in> set (set_cell q p ?f (MrCells r)). cell_successful x"
    using r by (auto simp: run_ok_def known dest!: in_set_cell)
  ultimately show ?thesis using r s unfolding run_ok_def by (auto simp: mapsCreditsPerCall_def)
qed

text \<open>A call of a running run is recorded.\<close>

definition recorded_run :: "nat \<Rightarrow> nat \<Rightarrow> cell_outcome \<Rightarrow> maps_run \<Rightarrow> maps_run" where
  "recorded_run q p oc r =
     (update_cell q p (\<lambda>c. c\<lparr>CellOutcome := Some oc\<rparr>) r)
       \<lparr>MrReserved := MrReserved r - (if CoCreditKnown oc then mapsCreditsPerCall else 0), MrUsed := MrUsed r + CoCredits oc\<rparr>"

lemma run_ok_recorded:
  assumes r: "run_ok r" and c: "find (is_cell q p) (MrCells r) = Some c" "CellStarted c" "CellOutcome c = None"
    and s: "MrStatus r = RunRunning" and oc: "0 \<le> CoCredits oc" "MrUsed r + CoCredits oc \<le> maxRunCredits"
  shows "run_ok (recorded_run q p oc r)" "(if CoCreditKnown oc then mapsCreditsPerCall else 0) \<le> MrReserved r"
proof -
  let ?f = "\<lambda>c. c\<lparr>CellOutcome := Some oc\<rparr>"
  have d: "distinct (map cell_key (MrCells r))" and a: "MrReserved r = mapsCreditsPerCall * open_cells (MrCells r)"
    using r s by (simp_all add: run_ok_def maps_run_active_def)
  have n: "open_cells (set_cell q p ?f (MrCells r)) = open_cells (MrCells r) - (if CoCreditKnown oc then 1 else 0)"
    using count_set_cell [OF d c(1), where f = ?f and P = "\<lambda>c. \<not> cell_credit_known c"] c(3)
    by (simp add: open_cells_def cell_credit_known_def)
  have u: "sum_list (map cell_credits (set_cell q p ?f (MrCells r))) = MrUsed r + CoCredits oc"
    using sum_set_cell [OF d c(1), of cell_credits ?f] c(3) r by (simp add: cell_credits_def run_ok_def)
  have ok: "\<forall>x \<in> set (set_cell q p ?f (MrCells r)). cell_ok x"
  proof
    fix x assume "x \<in> set (set_cell q p ?f (MrCells r))"
    then consider k where "k \<in> set (MrCells r)" "is_cell q p k" "x = ?f k" | "x \<in> set (MrCells r)"
      by (blast dest: in_set_cell)
    then show "cell_ok x"
    proof cases
      case 1
      then have "k = c" using find_cellI [OF d] c(1) by fastforce
      then show ?thesis using 1 c(2) oc by (simp add: cell_ok_def)
    qed (use r in \<open>simp add: run_ok_def\<close>)
  qed
  have pos: "0 \<le> open_cells (set_cell q p ?f (MrCells r))" by (simp add: open_cells_def)
  then show "(if CoCreditKnown oc then mapsCreditsPerCall else 0) \<le> MrReserved r"
    using a n by (simp add: mapsCreditsPerCall_def split: if_splits)
  show "run_ok (recorded_run q p oc r)" unfolding run_ok_def recorded_run_def
    using d n u ok a s pos oc(2) by (cases "CoCreditKnown oc") (simp_all add: maps_run_active_def mapsCreditsPerCall_def)
qed

text \<open>A run is finished.\<close>

definition finished_run :: "maps_run \<Rightarrow> maps_run" where
  "finished_run r =
     (let summary = summarize_run_outcome (MrCells r) (MrReserved r) in
      r\<lparr>MrReserved := MrReserved r - int (SumUnstarted summary) * mapsCreditsPerCall, MrStatus := SumStatus summary,
        MrError := (if SumStatus summary \<noteq> RunCompleted then Some (summary_message summary) else None)\<rparr>)"

lemma split_open_cells:
  assumes "\<forall>c \<in> set cs. cell_ok c"
  shows "open_cells cs = open_started_cells cs + int (count_cells (\<lambda>c. \<not> CellStarted c) cs)"
  using assms
proof (induction cs)
  case (Cons c cs)
  then show ?case
    by (auto simp: open_cells_def open_started_cells_def cell_ok_def cell_credit_known_def split: option.splits)
qed (simp add: open_cells_def open_started_cells_def)

lemma count_all: "count_cells P cs = length cs \<longleftrightarrow> (\<forall>c \<in> set cs. P c)"
proof (induction cs)
  case (Cons c cs)
  have "count_cells P cs \<le> length cs" by (simp add: count_cells_def)
  then show ?case using Cons by auto
qed simp

lemma run_ok_finished:
  assumes r: "run_ok r" and a: "maps_run_active r"
  shows "run_ok (finished_run r)" "\<not> maps_run_active (finished_run r)"
    "MrReserved (finished_run r) = mapsCreditsPerCall * open_started_cells (MrCells r)"
    "int (SumUnstarted (summarize_run_outcome (MrCells r) (MrReserved r))) * mapsCreditsPerCall \<le> MrReserved r"
proof -
  have cells: "\<forall>c \<in> set (MrCells r). cell_ok c" and m: "MrReserved r = mapsCreditsPerCall * open_cells (MrCells r)"
    using r a by (simp_all add: run_ok_def)
  note o = split_open_cells [OF cells]
  have pos: "0 \<le> open_started_cells (MrCells r)" by (simp add: open_started_cells_def)
  show e: "MrReserved (finished_run r) = mapsCreditsPerCall * open_started_cells (MrCells r)"
    using o m by (simp add: finished_run_def Let_def summarize_run_outcome_def mapsCreditsPerCall_def)
  then show le: "int (SumUnstarted (summarize_run_outcome (MrCells r) (MrReserved r))) * mapsCreditsPerCall \<le> MrReserved r"
    using pos by (simp add: finished_run_def Let_def mapsCreditsPerCall_def)
  show "\<not> maps_run_active (finished_run r)"
    by (simp add: finished_run_def Let_def summarize_run_outcome_def maps_run_active_def)
  moreover have "MrReserved (finished_run r) = 0 \<and> (\<forall>c \<in> set (MrCells r). cell_successful c)"
    if "MrStatus (finished_run r) = RunCompleted"
    using that e m o pos
    by (auto simp: finished_run_def Let_def summarize_run_outcome_def count_all mapsCreditsPerCall_def split: if_splits)
  moreover have "MrStatus (finished_run r) \<noteq> RunQueued"
    by (simp add: finished_run_def Let_def summarize_run_outcome_def)
  moreover have "MrCells (finished_run r) = MrCells r" "MrUsed (finished_run r) = MrUsed r"
    by (simp_all add: finished_run_def Let_def)
  ultimately show "run_ok (finished_run r)" using r e pos unfolding run_ok_def by (simp add: mapsCreditsPerCall_def)
qed

text \<open>A new run.\<close>

lemma run_ok_new:
  assumes "MrCells r = create_local_run_cells n m" "MrStatus r = RunQueued" "MrReserved r = int n * int m * mapsCreditsPerCall" "MrUsed r = 0"
  shows "run_ok r"
proof -
  have keys: "map cell_key (create_local_run_cells n m) = concat (map (\<lambda>q. map (\<lambda>p. (q, p)) [0..<m]) [0..<n])"
    by (simp add: create_local_run_cells_def map_concat comp_def cell_key_def)
  have "distinct (concat (map (\<lambda>q. map (\<lambda>p. (q, p)) [0..<m]) [0..<n]))"
    by (induction n) (auto simp: distinct_map inj_on_def)
  moreover have new: "\<forall>c \<in> set (create_local_run_cells n m). \<not> CellStarted c \<and> CellOutcome c = None"
    by (auto simp: create_local_run_cells_def)
  moreover have "length (create_local_run_cells n m) = n * m"
    by (simp add: create_local_run_cells_def length_concat comp_def sum_list_triv)
  moreover have "open_cells cs = int (length cs)" "sum_list (map cell_credits cs) = 0"
    if "\<forall>c \<in> set cs. \<not> CellStarted c \<and> CellOutcome c = None" for cs
    using that by (induction cs) (auto simp: open_cells_def cell_credit_known_def cell_credits_def)
  ultimately show ?thesis using assms unfolding run_ok_def
    by (auto simp: keys maps_run_active_def mapsCreditsPerCall_def cell_ok_def maxRunCredits_def)
qed

end
