(* ===== verification/MapsInvariant.thy ===== *)
theory MapsInvariant
  imports MapsSpend
begin

text \<open>The invariant of the tables of Maps spending, and every operation that keeps it.\<close>

section \<open>The invariant\<close>

definition rows_ok :: "spend_db \<Rightarrow> bool" where
  "rows_ok s = (distinct (map HoldID (holders s)) \<and> (\<forall>h \<in> set (holders s). HoldID h < next_row s))"

definition runs_ok :: "spend_db \<Rightarrow> bool" where
  "runs_ok s = (\<forall>r \<in> set (maps_runs s). run_ok r \<and> organization_budgets s (MrOrg r) \<noteq> None)"

definition lookup_ok :: "listing_lookup \<Rightarrow> bool" where
  "lookup_ok k =
     (0 \<le> LkReserved k \<and> LkReserved k \<le> LkExpected k
      \<and> (LkStatus k = LookupRunning \<longrightarrow> LkReserved k = LkExpected k \<and> LkUsed k = 0)
      \<and> (LkExpected k = 0 \<longrightarrow> LkUsed k = 0)
      \<and> (LkReserved k > 0 \<longrightarrow> LkUsed k = 0))"

definition lookups_ok :: "spend_db \<Rightarrow> bool" where
  "lookups_ok s = (\<forall>k \<in> set (listing_lookups s). lookup_ok k \<and> (LkExpected k \<noteq> 0 \<longrightarrow> organization_budgets s (LkOrg k) \<noteq> None))"

definition single_runs :: "spend_db \<Rightarrow> bool" where
  "single_runs s = (\<forall>l. length (filter (\<lambda>r. MrLocation r = l \<and> maps_run_active r) (maps_runs s)) \<le> 1)"

definition db_inv :: "spend_db \<Rightarrow> bool" where
  "db_inv s = (rows_ok s \<and> runs_ok s \<and> lookups_ok s \<and> balanced s (holders s) \<and> single_runs s)"

lemmas db_inv_parts = db_inv_def rows_ok_def runs_ok_def lookups_ok_def single_runs_def

section \<open>Rows\<close>

lemma find_maps_runD: "find_maps_run i s = Some r \<Longrightarrow> r \<in> set (maps_runs s) \<and> MrID r = i"
  by (auto simp: find_maps_run_def find_Some_iff)

lemma find_lookupD: "find_lookup i s = Some k \<Longrightarrow> k \<in> set (listing_lookups s) \<and> LkID k = i"
  by (auto simp: find_lookup_def find_Some_iff)

lemma holder_fields [simp]:
  "HoldID (run_holder r) = MrID r" "HoldOrg (run_holder r) = MrOrg r" "HoldReserved (run_holder r) = MrReserved r"
  "HoldUsed (run_holder r) = MrUsed r" "HoldID (lookup_holder k) = LkID k" "HoldOrg (lookup_holder k) = LkOrg k"
  "HoldReserved (lookup_holder k) = LkReserved k" "HoldUsed (lookup_holder k) = LkUsed k"
  by (simp_all add: run_holder_def lookup_holder_def)

lemma holders_ids: "map HoldID (holders s) = map MrID (maps_runs s) @ map LkID (listing_lookups s)"
  by (simp add: holders_def comp_def)

lemma rows_ok_runs:
  assumes "rows_ok s" "r \<in> set (maps_runs s)" "r' \<in> set (maps_runs s)" "MrID r' = MrID r" shows "r = r'"
  using assms unfolding rows_ok_def holders_ids by (auto simp: distinct_map inj_on_def)

lemma rows_ok_lookups:
  assumes "rows_ok s" "k \<in> set (listing_lookups s)" "k' \<in> set (listing_lookups s)" "LkID k' = LkID k" shows "k = k'"
  using assms unfolding rows_ok_def holders_ids by (auto simp: distinct_map inj_on_def)

lemma rows_ok_apart:
  assumes "rows_ok s" "r \<in> set (maps_runs s)" "k \<in> set (listing_lookups s)" shows "MrID r \<noteq> LkID k"
  using assms unfolding rows_ok_def holders_ids by (force simp: image_iff)

lemma find_only:
  assumes "x \<in> set xs" "P x" "\<And>y. y \<in> set xs \<Longrightarrow> P y \<Longrightarrow> x = y"
  shows "find P xs = Some x"
proof (cases "find P xs")
  case None
  then have "\<not> P x" using assms(1) by (simp add: find_None_iff)
  then show ?thesis using assms(2) by blast
next
  case (Some y)
  then have "P y" "y \<in> set xs" by (auto simp: find_Some_iff)
  then show ?thesis using Some assms(3) by metis
qed

lemma find_maps_runI: "rows_ok s \<Longrightarrow> r \<in> set (maps_runs s) \<Longrightarrow> find_maps_run (MrID r) s = Some r"
  unfolding find_maps_run_def by (rule find_only) (simp_all only: rows_ok_runs)

lemma find_lookupI: "rows_ok s \<Longrightarrow> k \<in> set (listing_lookups s) \<Longrightarrow> find_lookup (LkID k) s = Some k"
  unfolding find_lookup_def by (rule find_only) (simp_all only: rows_ok_lookups)

lemma rows_ok_ids: "rows_ok s \<longleftrightarrow> distinct (map HoldID (holders s)) \<and> (\<forall>i \<in> set (map HoldID (holders s)). i < next_row s)"
  by (auto simp: rows_ok_def)

lemma update_maps_run_fields [simp]:
  "listing_lookups (update_maps_run i f s) = listing_lookups s" "platform_budget (update_maps_run i f s) = platform_budget s"
  "organization_budgets (update_maps_run i f s) = organization_budgets s" "next_row (update_maps_run i f s) = next_row s"
  "spend_locations (update_maps_run i f s) = spend_locations s"
  "maps_runs (update_maps_run i f s) = map (\<lambda>r. if MrID r = i then f r else r) (maps_runs s)"
  by (simp_all add: update_maps_run_def)

lemma update_maps_run_twice:
  "(\<And>r. MrID (f r) = MrID r) \<Longrightarrow> update_maps_run i g (update_maps_run i f s) = update_maps_run i (\<lambda>r. g (f r)) s"
  by (simp add: update_maps_run_def comp_def)

lemma find_update_maps_run:
  "(\<And>r. MrID r = i \<Longrightarrow> MrID (f r) = i) \<Longrightarrow>
    find_maps_run j (update_maps_run i f s) = map_option (\<lambda>r. if j = i then f r else r) (find_maps_run j s)"
proof -
  assume f: "\<And>r. MrID r = i \<Longrightarrow> MrID (f r) = i"
  have "find (\<lambda>r. MrID r = j) (map (\<lambda>r. if MrID r = i then f r else r) rs)
    = map_option (\<lambda>r. if j = i then f r else r) (find (\<lambda>r. MrID r = j) rs)" for rs
    by (induction rs) (auto simp: f)
  then show ?thesis by (simp add: find_maps_run_def)
qed

lemma balanced_budgets:
  "platform_budget t = platform_budget s \<Longrightarrow> organization_budgets t = organization_budgets s \<Longrightarrow> balanced t hs = balanced s hs"
  by (simp add: balanced_def)

section \<open>One row changes\<close>

lemma holders_update_run:
  assumes "rows_ok s" "r \<in> set (maps_runs s)"
  shows "holders (update_maps_run (MrID r) f s) = update_holder (MrID r) (\<lambda>_. run_holder (f r)) (holders s)"
proof -
  have "MrID x = MrID r \<Longrightarrow> x \<in> set (maps_runs s) \<Longrightarrow> x = r" "k \<in> set (listing_lookups s) \<Longrightarrow> LkID k \<noteq> MrID r" for x k
    using rows_ok_runs [OF assms] rows_ok_apart [OF assms] by metis+
  then show ?thesis by (auto simp: holders_def update_holder_def)
qed

lemma holders_update_lookup:
  assumes "rows_ok s" "k \<in> set (listing_lookups s)" "LkID k' = LkID k"
  shows "holders (s\<lparr>listing_lookups := map (\<lambda>x. if LkID x = LkID k then k' else x) (listing_lookups s)\<rparr>)
    = update_holder (LkID k) (\<lambda>_. lookup_holder k') (holders s)"
proof -
  have "MrID r \<noteq> LkID k" if "r \<in> set (maps_runs s)" for r using rows_ok_apart [OF assms(1) that assms(2)] .
  then show ?thesis using assms(3) by (auto simp: holders_def update_holder_def)
qed

lemma active_count_le:
  assumes "\<And>r. r \<in> set rs \<Longrightarrow> MrLocation (f r) = MrLocation r \<and> (maps_run_active (f r) \<longrightarrow> maps_run_active r)"
  shows "length (filter (\<lambda>r. MrLocation r = l \<and> maps_run_active r) (map f rs))
    \<le> length (filter (\<lambda>r. MrLocation r = l \<and> maps_run_active r) rs)"
  using assms by (induction rs) auto

lemma db_inv_change_run:
  assumes inv: "db_inv s" and r: "find_maps_run i s = Some r"
    and frame: "maps_runs t = maps_runs s" "listing_lookups t = listing_lookups s" "next_row t = next_row s"
      "\<And>org. organization_budgets t org = None \<longleftrightarrow> organization_budgets s org = None"
    and f: "run_ok (f r)" "MrID (f r) = i" "MrOrg (f r) = MrOrg r" "MrLocation (f r) = MrLocation r"
      "maps_run_active (f r) \<longrightarrow> maps_run_active r"
    and b: "balanced t (update_holder i (\<lambda>_. run_holder (f r)) (holders s))"
  shows "db_inv (update_maps_run i f t)"
proof -
  have rows: "rows_ok s" and rs: "runs_ok s" and ls: "lookups_ok s" and single: "single_runs s" using inv by (simp_all add: db_inv_def)
  note m = find_maps_runD [OF r]
  have hs: "holders (update_maps_run i f t) = update_holder i (\<lambda>_. run_holder (f r)) (holders s)"
    using holders_update_run [OF rows, of r f] m frame by (simp add: holders_def update_maps_run_def)
  have same: "x = r" if "x \<in> set (maps_runs s)" "MrID x = i" for x using rows_ok_runs [OF rows _ that(1)] m that by blast
  have ids: "map HoldID (holders (update_maps_run i f t)) = map HoldID (holders s)"
    unfolding holders_ids using f(2) by (auto simp: frame dest: same)
  then have "rows_ok (update_maps_run i f t)"
    using rows unfolding rows_ok_ids ids by (simp add: frame)
  moreover have "runs_ok (update_maps_run i f t)"
    using rs f(1,3) m by (auto simp: runs_ok_def frame dest: same)
  moreover have "lookups_ok (update_maps_run i f t)" using ls by (auto simp: lookups_ok_def frame)
  moreover have "balanced (update_maps_run i f t) (holders (update_maps_run i f t))"
    using b unfolding hs by (simp add: balanced_def)
  moreover have "single_runs (update_maps_run i f t)" unfolding single_runs_def
  proof
    fix l
    have "length (filter (\<lambda>r. MrLocation r = l \<and> maps_run_active r) (maps_runs (update_maps_run i f t)))
      \<le> length (filter (\<lambda>r. MrLocation r = l \<and> maps_run_active r) (maps_runs s))"
      unfolding update_maps_run_fields frame by (rule active_count_le) (use f same in auto)
    also have "\<dots> \<le> 1" using single by (simp add: single_runs_def)
    finally show "length (filter (\<lambda>r. MrLocation r = l \<and> maps_run_active r) (maps_runs (update_maps_run i f t))) \<le> 1" .
  qed
  ultimately show ?thesis by (simp add: db_inv_def)
qed

lemma db_inv_same_holder:
  assumes inv: "db_inv s" and r: "find_maps_run i s = Some r"
    and f: "run_ok (f r)" "run_holder (f r) = run_holder r" "MrLocation (f r) = MrLocation r"
      "maps_run_active (f r) \<longrightarrow> maps_run_active r"
  shows "db_inv (update_maps_run i f s)"
proof -
  have eq: "MrID (f r) = MrID r" "MrOrg (f r) = MrOrg r" using f(2) by (metis holder_fields(1), metis holder_fields(2))
  note m = find_maps_runD [OF r]
  have rows: "rows_ok s" using inv by (simp add: db_inv_def)
  have "run_holder r = h" if "h \<in> set (holders s)" "HoldID h = i" for h
    using that rows_ok_runs [OF rows] rows_ok_apart [OF rows] m unfolding holders_def by fastforce
  then have "update_holder i (\<lambda>_. run_holder (f r)) (holders s) = holders s"
    using f(2) unfolding update_holder_def by (intro map_idI) auto
  then show ?thesis using db_inv_change_run [OF inv r, where t = s and f = f] f eq m inv by (simp add: db_inv_def)
qed

lemma db_inv_settled_run:
  assumes inv: "db_inv s" and r: "find_maps_run i s = Some r" and t: "settle_both x y (MrOrg r) s = Inr t"
    and f: "run_ok (f r)" "MrID (f r) = i" "MrOrg (f r) = MrOrg r" "MrLocation (f r) = MrLocation r"
      "maps_run_active (f r) \<longrightarrow> maps_run_active r" "MrReserved (f r) = MrReserved r - x" "MrUsed (f r) = MrUsed r + y"
      "0 \<le> MrUsed (f r)"
  shows "db_inv (update_maps_run i f t)"
proof (rule db_inv_change_run [OF inv r])
  note m = find_maps_runD [OF r]
  have b: "balanced s (holders s)" and d: "distinct (map HoldID (holders s))" and o: "organization_budgets s (MrOrg r) \<noteq> None"
    using inv m by (auto simp: db_inv_def rows_ok_def runs_ok_def)
  have h: "run_holder r \<in> set (holders s)" using m by (simp add: holders_def)
  have pos: "0 \<le> MrReserved (f r)" using f(1) by (simp add: run_ok_def)
  have "balanced t (update_holder (HoldID (run_holder r)) (\<lambda>_. run_holder (f r)) (holders s))"
    by (rule balanced_settle [OF b _ d h]) (use t o f pos in simp_all)
  then show "balanced t (update_holder i (\<lambda>_. run_holder (f r)) (holders s))" using m by simp
qed (use f settle_both_frame [OF t] in auto)

end
