(* ===== verification/MapsOperations.thy ===== *)
theory MapsOperations
  imports MapsInvariant
begin

text \<open>Every operation on runs keeps the invariant, and what it does to the run.\<close>

lemma in_runs_ok: "db_inv s \<Longrightarrow> find_maps_run i s = Some r \<Longrightarrow> run_ok r"
  by (auto simp: db_inv_parts dest!: find_maps_runD)

lemma run_ok_distinct: "run_ok r \<Longrightarrow> distinct (map cell_key (MrCells r))"
  by (simp add: run_ok_def)

lemma run_not_negative:
  assumes "db_inv s" "find_maps_run i s = Some r" shows "0 \<le> MrUsed r" "0 \<le> MrReserved r"
proof -
  have "run_holder r \<in> set (holders s)" using find_maps_runD [OF assms(2)] by (simp add: holders_def)
  then have "0 \<le> HoldReserved (run_holder r) \<and> 0 \<le> HoldUsed (run_holder r)"
    using assms(1) unfolding db_inv_def balanced_def by blast
  then show "0 \<le> MrUsed r" "0 \<le> MrReserved r" by simp_all
qed

section \<open>Starting\<close>

lemma db_inv_start_run:
  assumes inv: "db_inv s" and t: "start_local_visibility_run i s = Some t"
  shows "db_inv t"
proof -
  obtain r where r: "find_maps_run i s = Some r" "MrStatus r = RunQueued"
    and t: "t = update_maps_run i (\<lambda>r. r\<lparr>MrStatus := RunRunning\<rparr>) s"
    using t by (auto simp: start_local_visibility_run_def split: option.splits if_splits)
  have "run_ok (r\<lparr>MrStatus := RunRunning\<rparr>)"
    using in_runs_ok [OF inv r(1)] r(2) by (simp add: run_ok_def maps_run_active_def)
  then show ?thesis unfolding t
    by (rule db_inv_same_holder [OF inv r(1)]) (use r(2) in \<open>simp_all add: run_holder_def maps_run_active_def\<close>)
qed

lemma start_local_run_cell_run:
  assumes "start_local_run_cell i q p s = Some t"
  obtains r c where "find_maps_run i s = Some r" "find (is_cell q p) (MrCells r) = Some c" "\<not> CellStarted c" "CellOutcome c = None"
    "t = update_maps_run i (update_cell q p (\<lambda>c. c\<lparr>CellStarted := True\<rparr>)) s"
  using assms that by (auto simp: start_local_run_cell_def split: option.splits if_splits)

lemma db_inv_start_cell:
  assumes inv: "db_inv s" and t: "start_local_run_cell i q p s = Some t"
    and q: "\<And>r. find_maps_run i s = Some r \<Longrightarrow> MrStatus r \<noteq> RunQueued"
  shows "db_inv t"
proof -
  obtain r c where r: "find_maps_run i s = Some r" and c: "find (is_cell q p) (MrCells r) = Some c" "\<not> CellStarted c" "CellOutcome c = None"
    and t: "t = update_maps_run i (update_cell q p (\<lambda>c. c\<lparr>CellStarted := True\<rparr>)) s"
    using start_local_run_cell_run [OF t] by metis
  show ?thesis unfolding t
    by (rule db_inv_same_holder [OF inv r])
      (use run_ok_start_cell [OF in_runs_ok [OF inv r] c q [OF r]] in \<open>simp_all add: run_holder_def update_cell_def maps_run_active_def\<close>)
qed

section \<open>Recording a call\<close>

lemma recorded_fields [simp]:
  "MrID (recorded_run q p oc r) = MrID r" "MrOrg (recorded_run q p oc r) = MrOrg r"
  "MrLocation (recorded_run q p oc r) = MrLocation r" "MrStatus (recorded_run q p oc r) = MrStatus r"
  "MrReserved (recorded_run q p oc r) = MrReserved r - (if CoCreditKnown oc then mapsCreditsPerCall else 0)"
  "MrUsed (recorded_run q p oc r) = MrUsed r + CoCredits oc"
  "MrCells (recorded_run q p oc r) = set_cell q p (\<lambda>c. c\<lparr>CellOutcome := Some oc\<rparr>) (MrCells r)"
  "MrSnapshot (recorded_run q p oc r) = MrSnapshot r" "MrProject (recorded_run q p oc r) = MrProject r"
  by (simp_all add: recorded_run_def update_cell_def set_cell_def)

lemma update_runs_cong: "(\<And>r. MrID r = i \<Longrightarrow> f r = g r) \<Longrightarrow> update_maps_run i f s = update_maps_run i g s"
  by (simp add: update_maps_run_def cong: if_cong)

lemma settle_after_insert:
  assumes "\<And>r. MrID (f r) = MrID r"
  shows "settle_local_run_credits i x y (update_maps_run i f s) =
    (case find_maps_run i s of
       None \<Rightarrow> Inr (update_maps_run i f s)
     | Some r \<Rightarrow>
         if MrUsed (f r) + y > maxRunCredits then Inl ''integer out of range''
         else if MrReserved (f r) - x < 0 \<or> MrUsed (f r) + y < 0 then Inl ''new row violates check constraint''
         else Inr (update_maps_run i (\<lambda>r. (f r)\<lparr>MrReserved := MrReserved (f r) - x, MrUsed := MrUsed (f r) + y\<rparr>) s))"
  using assms by (auto simp: settle_local_run_credits_def find_update_maps_run update_maps_run_twice split: option.splits)

lemma record_cell_outcome_run:
  assumes t: "record_cell_outcome i q p oc s = Inr t"
  obtains r c u where "find_maps_run i s = Some r" "find (is_cell q p) (MrCells r) = Some c" "CellOutcome c = None"
    "MrStatus r = RunRunning" "0 \<le> CoCredits oc" "MrUsed r + CoCredits oc \<le> maxRunCredits"
    "settle_both (if CoCreditKnown oc then mapsCreditsPerCall else 0) (CoCredits oc) (MrOrg r) s = Inr u"
    "t = update_maps_run i (recorded_run q p oc) u"
proof -
  let ?x = "if CoCreditKnown oc then mapsCreditsPerCall else 0"
  obtain r u v where r: "find_maps_run i s = Some r" "MrStatus r = RunRunning" "0 \<le> CoCredits oc"
    and u: "settle_both ?x (CoCredits oc) (MrOrg r) s = Inr u" and v: "insert_local_visibility_result i q p oc u = Inr v"
    and t: "settle_local_run_credits i ?x (CoCredits oc) v = Inr t"
    using t by (auto simp: record_cell_outcome_def Let_def split: option.splits if_splits)
  have ru: "find_maps_run i u = Some r" using r(1) settle_both_frame(1) [OF u] by (simp add: find_maps_run_def)
  obtain c where c: "find (is_cell q p) (MrCells r) = Some c" "CellOutcome c = None"
    and v: "v = update_maps_run i (update_cell q p (\<lambda>c. c\<lparr>CellOutcome := Some oc\<rparr>)) u"
    using v ru by (auto simp: insert_local_visibility_result_def split: option.splits if_splits)
  have "MrUsed r + CoCredits oc \<le> maxRunCredits \<and> t = update_maps_run i (recorded_run q p oc) u"
    using t ru unfolding v
    by (simp add: settle_after_insert recorded_run_def [abs_def] split: if_splits)
  with that r u c show ?thesis by blast
qed

lemma db_inv_record_cell:
  assumes inv: "db_inv s" and t: "record_cell_outcome i q p oc s = Inr t"
    and st: "\<And>r c. find_maps_run i s = Some r \<Longrightarrow> find (is_cell q p) (MrCells r) = Some c \<Longrightarrow> CellStarted c"
  shows "db_inv t"
proof -
  obtain r c u where r: "find_maps_run i s = Some r" and c: "find (is_cell q p) (MrCells r) = Some c" "CellOutcome c = None"
    and st': "MrStatus r = RunRunning" and oc: "0 \<le> CoCredits oc" "MrUsed r + CoCredits oc \<le> maxRunCredits"
    and u: "settle_both (if CoCreditKnown oc then mapsCreditsPerCall else 0) (CoCredits oc) (MrOrg r) s = Inr u"
    and t: "t = update_maps_run i (recorded_run q p oc) u"
    using record_cell_outcome_run [OF t] by metis
  note ok = run_ok_recorded [OF in_runs_ok [OF inv r] c(1) st [OF r c(1)] c(2) st' oc]
  have "0 \<le> MrUsed (recorded_run q p oc r)" using run_not_negative [OF inv r] oc(1) by simp
  then show ?thesis unfolding t
    by (intro db_inv_settled_run [OF inv r u]) (use find_maps_runD [OF r] st' ok(1) in \<open>simp_all add: maps_run_active_def\<close>)
qed

section \<open>Finishing\<close>

lemma finished_fields [simp]:
  "MrID (finished_run r) = MrID r" "MrOrg (finished_run r) = MrOrg r" "MrLocation (finished_run r) = MrLocation r"
  "MrUsed (finished_run r) = MrUsed r" "MrCells (finished_run r) = MrCells r" "MrProject (finished_run r) = MrProject r"
  "MrReserved (finished_run r) = MrReserved r - int (SumUnstarted (summarize_run_outcome (MrCells r) (MrReserved r))) * mapsCreditsPerCall"
  by (simp_all add: finished_run_def Let_def)

text \<open>The settlement of nothing is the lock that every spender takes first.\<close>

lemma settle_maps_nothing: "settle_maps_credits 0 0 c = Inr d \<Longrightarrow> d = c"
  by (cases c) (auto simp: settle_maps_credits_def settle_credits_def Let_def split: if_splits)

lemma settle_nothing: "settle_both 0 0 org s = Inr t \<Longrightarrow> t = s"
  by (auto simp: settle_both_def fun_upd_idem dest!: settle_maps_nothing split: option.splits)

lemma settle_possible:
  assumes inv: "db_inv s" and r: "find_maps_run i s = Some r" and x: "x \<le> MrReserved r" "0 \<le> y"
  obtains t where "settle_both x y (MrOrg r) s = Inr t"
proof -
  have "run_holder r \<in> set (holders s)" using find_maps_runD [OF r] by (simp add: holders_def)
  then show ?thesis using balanced_accepts [of s "holders s" "run_holder r" x y] inv x that by (auto simp: db_inv_def)
qed

text \<open>An active run can always be finished, and is then settled.\<close>

lemma finish_active_run:
  assumes inv: "db_inv s" and r: "find_maps_run i s = Some r" and a: "maps_run_active r"
  obtains u where "settle_both (int (SumUnstarted (summarize_run_outcome (MrCells r) (MrReserved r))) * mapsCreditsPerCall) 0 (MrOrg r) s = Inr u"
    "finish_maps_run i s = Inr (update_maps_run i finished_run u)"
proof -
  let ?sum = "summarize_run_outcome (MrCells r) (MrReserved r)"
  let ?x = "int (SumUnstarted ?sum) * mapsCreditsPerCall"
  note ok = run_ok_finished [OF in_runs_ok [OF inv r] a]
  have used: "MrUsed r \<le> maxRunCredits" using in_runs_ok [OF inv r] by (simp add: run_ok_def)
  obtain u0 where u0: "settle_both 0 0 (MrOrg r) s = Inr u0" using settle_possible [OF inv r] run_not_negative [OF inv r] by blast
  then have u0': "u0 = s" by (rule settle_nothing)
  obtain u where u: "settle_both ?x 0 (MrOrg r) s = Inr u" using settle_possible [OF inv r ok(4)] by blast
  have ru: "find_maps_run i u = Some r" using r settle_both_frame(1) [OF u] by (simp add: find_maps_run_def)
  have only: "x = r" if "x \<in> set (maps_runs u)" "MrID x = i" for x
    using that settle_both_frame(1) [OF u] find_maps_runD [OF r] inv rows_ok_runs [of s x r] by (simp add: db_inv_def)
  have "settle_local_run_credits i ?x 0 u = Inr (update_maps_run i (\<lambda>r. r\<lparr>MrReserved := MrReserved r - ?x, MrUsed := MrUsed r + 0\<rparr>) u)"
    using ru used ok(4) run_not_negative [OF inv r] by (simp add: settle_local_run_credits_def)
  moreover have "finish_local_visibility_run i (SumStatus ?sum) (if SumStatus ?sum \<noteq> RunCompleted then Some (summary_message ?sum) else None)
      (update_maps_run i (\<lambda>r. r\<lparr>MrReserved := MrReserved r - ?x, MrUsed := MrUsed r + 0\<rparr>) u)
    = update_maps_run i finished_run u"
    using only by (auto simp: finish_local_visibility_run_def update_maps_run_twice update_maps_run_def finished_run_def Let_def)
  ultimately have "finish_maps_run i s = Inr (update_maps_run i finished_run u)"
    by (simp add: finish_maps_run_def r a u0 u0' u Let_def del: bind_result_Inr)
  with u that show ?thesis by blast
qed

lemma finish_maps_run_cases:
  assumes inv: "db_inv s" and r: "find_maps_run i s = Some r"
  obtains "\<not> maps_run_active r" "finish_maps_run i s = Inr s"
  | u where "maps_run_active r" "settle_both (int (SumUnstarted (summarize_run_outcome (MrCells r) (MrReserved r))) * mapsCreditsPerCall) 0 (MrOrg r) s = Inr u"
      "finish_maps_run i s = Inr (update_maps_run i finished_run u)"
proof (cases "maps_run_active r")
  case True
  then show ?thesis using finish_active_run [OF inv r] that(2) by metis
next
  case False
  obtain u0 where "settle_both 0 0 (MrOrg r) s = Inr u0" using settle_possible [OF inv r] run_not_negative [OF inv r] by blast
  then show ?thesis using that(1) False r by (simp add: finish_maps_run_def)
qed

lemma db_inv_finish:
  assumes inv: "db_inv s" and t: "finish_maps_run i s = Inr t"
  shows "db_inv t"
proof -
  obtain r where r: "find_maps_run i s = Some r" using t by (auto simp: finish_maps_run_def split: option.splits)
  show ?thesis
  proof (rule finish_maps_run_cases [OF inv r])
    fix u assume a: "maps_run_active r"
      and u: "settle_both (int (SumUnstarted (summarize_run_outcome (MrCells r) (MrReserved r))) * mapsCreditsPerCall) 0 (MrOrg r) s = Inr u"
      and f: "finish_maps_run i s = Inr (update_maps_run i finished_run u)"
    note ok = run_ok_finished [OF in_runs_ok [OF inv r] a]
    have "db_inv (update_maps_run i finished_run u)"
      by (rule db_inv_settled_run [OF inv r u]) (use ok run_not_negative [OF inv r] find_maps_runD [OF r] in simp_all)
    then show ?thesis using f t by simp
  qed (use t inv in simp)
qed

end
