(* ===== verification/MapsLookupInvariant.thy ===== *)
theory MapsLookupInvariant
  imports MapsOperations
begin

text \<open>New rows, lookups, allowances and deletion keep the invariant.\<close>

section \<open>New rows\<close>

lemma reserve_decides:
  assumes inv: "db_inv s" and t: "reserve_both n org s = Inr t" and n: "0 \<le> n"
    and h: "HoldOrg h = org" "HoldReserved h = n" "HoldUsed h = 0"
    and hs: "xs @ ys = holders s"
  shows "balanced t (xs @ h # ys)" "organization_budgets t org \<noteq> None"
proof -
  have "sum_held f Q (xs @ h # ys) = sum_held f Q (holders s) + (if Q org then f h else 0)" for f Q
    by (simp add: hs [symmetric] h(1))
  moreover have "set (xs @ h # ys) = insert h (set (holders s))" using hs [symmetric] by auto
  moreover have "balanced s (holders s)" using inv by (simp add: db_inv_def)
  ultimately show "balanced t (xs @ h # ys)" "organization_budgets t org \<noteq> None"
    using balanced_reserve [OF _ t n h] by blast+
qed

lemma rows_ok_alt:
  "rows_ok s \<longleftrightarrow> distinct (map MrID (maps_runs s) @ map LkID (listing_lookups s))
     \<and> (\<forall>r \<in> set (maps_runs s). MrID r < next_row s) \<and> (\<forall>k \<in> set (listing_lookups s). LkID k < next_row s)"
  unfolding rows_ok_ids holders_ids by (auto simp: ball_Un)

lemma db_inv_new_run:
  assumes inv: "db_inv s" and u: "reserve_both (MrReserved r) (MrOrg r) s = Inr u"
    and r: "MrID r = next_row s" "run_ok r" "MrUsed r = 0"
    and single: "\<not> list_ex (\<lambda>x. MrLocation x = MrLocation r \<and> maps_run_active x) (maps_runs s)"
  shows "db_inv (u\<lparr>maps_runs := maps_runs u @ [r], next_row := Suc (next_row u)\<rparr>)" (is "db_inv ?t")
proof -
  note fr = reserve_both_frame [OF u]
  have parts: "rows_ok s" "runs_ok s" "lookups_ok s" "single_runs s" using inv by (simp_all add: db_inv_def)
  have hs: "holders ?t = map run_holder (maps_runs s) @ run_holder r # map lookup_holder (listing_lookups s)"
    by (simp add: holders_def fr)
  have pos: "0 \<le> MrReserved r" using r(2) by (simp add: run_ok_def)
  note b = reserve_decides [OF inv u pos, of "run_holder r" "map run_holder (maps_runs s)" "map lookup_holder (listing_lookups s)"]
  have "balanced ?t (holders ?t)" using b(1) r(3) unfolding hs by (simp add: balanced_def holders_def)
  moreover have "rows_ok ?t"
    using parts(1) r(1) by (force simp: rows_ok_alt fr)
  moreover have "runs_ok ?t" using parts(2) r(2) b(2) r(3) fr(5) by (auto simp: runs_ok_def fr(1) holders_def)
  moreover have "lookups_ok ?t" using parts(3) fr(5) by (auto simp: lookups_ok_def fr(2))
  moreover have "single_runs ?t" using parts(4) single by (auto simp: single_runs_def fr(1) list_ex_iff filter_empty_conv)
  ultimately show ?thesis by (simp add: db_inv_def)
qed

lemma db_inv_enqueue:
  assumes inv: "db_inv s" and t: "enqueue_run destination format_viewport endpoint l radius expected s = Inr (i, t)"
  shows "db_inv t" "i = next_row s" "next_row t = Suc i"
proof -
  obtain loc place queries points viewports n u where points: "build_geo_grid destination (SlLatitude loc) (SlLongitude loc) radius = Inr points"
    and n: "expected_run_credits (int (length queries)) (int (length points)) = Inr n"
    and u: "reserve_both n (SlOrg loc) s = Inr u"
    and t: "create_maps_run l loc radius (freeze_snapshot endpoint queries place points viewports) n u = Inr (i, t)"
    using t unfolding enqueue_run_def by (simp split: option.splits sum.splits if_splits) blast
  note fr = reserve_both_frame [OF u]
  let ?snap = "freeze_snapshot endpoint queries place points viewports"
  let ?r = "\<lparr>MrID = next_row s, MrLocation = l, MrProject = SlProject loc, MrOrg = SlOrg loc,
              MrStatus = RunQueued, MrRadiusM = radius, MrSnapshot = ?snap, MrExpected = n, MrReserved = n,
              MrUsed = 0, MrError = None,
              MrCells = create_local_run_cells (length (SnapQueries ?snap)) (length (SnapPoints ?snap))\<rparr>"
  have eq: "i = next_row s" "t = u\<lparr>maps_runs := maps_runs u @ [?r], next_row := Suc (next_row u)\<rparr>"
    and single: "\<not> list_ex (\<lambda>x. MrLocation x = l \<and> maps_run_active x) (maps_runs s)"
    using t fr by (auto simp: create_maps_run_def split: if_splits)
  have "n = int (length queries) * int (length points) * mapsCreditsPerCall"
    using n by (auto simp: expected_run_credits_def split: if_splits)
  then have ok: "run_ok ?r" by (intro run_ok_new) (auto simp: freeze_snapshot_def)
  show "db_inv t" unfolding eq by (rule db_inv_new_run [OF inv]) (use u ok single in simp_all)
  show "i = next_row s" "next_row t = Suc i" using eq fr by simp_all
qed

section \<open>Lookups\<close>

lemma balanced_zero:
  "balanced s (xs @ ys) \<Longrightarrow> HoldReserved h = 0 \<Longrightarrow> HoldUsed h = 0 \<Longrightarrow> balanced s (xs @ h # ys)"
  by (auto simp: balanced_def covers_def)

lemma db_inv_new_lookup:
  assumes inv: "db_inv s" and u: "maps_runs u = maps_runs s" "listing_lookups u = listing_lookups s" "next_row u = next_row s"
      "\<And>og. organization_budgets s og \<noteq> None \<Longrightarrow> organization_budgets u og \<noteq> None"
    and k: "LkID k = next_row s" "lookup_ok k" "LkExpected k \<noteq> 0 \<longrightarrow> organization_budgets u (LkOrg k) \<noteq> None"
    and b: "balanced u (holders s @ [lookup_holder k])"
  shows "db_inv (u\<lparr>listing_lookups := listing_lookups u @ [k], next_row := Suc (next_row u)\<rparr>)" (is "db_inv ?t")
proof -
  have parts: "rows_ok s" "runs_ok s" "lookups_ok s" "single_runs s" using inv by (simp_all add: db_inv_def)
  have hs: "holders ?t = holders s @ [lookup_holder k]" by (simp add: holders_def u)
  have "balanced ?t (holders ?t)" using b unfolding hs by (simp add: balanced_def)
  moreover have "rows_ok ?t" using parts(1) k(1) by (force simp: rows_ok_alt u)
  moreover have "runs_ok ?t" using parts(2) u(4) by (auto simp: runs_ok_def u(1))
  moreover have "lookups_ok ?t" using parts(3) u(4) k by (auto simp: lookups_ok_def u(2))
  moreover have "single_runs ?t" using parts(4) by (simp add: single_runs_def u(1))
  ultimately show ?thesis by (simp add: db_inv_def)
qed

lemma db_inv_change_lookup:
  assumes inv: "db_inv s" and k: "k \<in> set (listing_lookups s)"
    and t: "maps_runs t = maps_runs s" "listing_lookups t = listing_lookups s" "next_row t = next_row s"
      "\<And>og. organization_budgets t og = None \<longleftrightarrow> organization_budgets s og = None"
    and k': "LkID k' = LkID k" "LkOrg k' = LkOrg k" "LkExpected k' = LkExpected k" "lookup_ok k'"
    and b: "balanced t (update_holder (LkID k) (\<lambda>_. lookup_holder k') (holders s))"
  shows "db_inv (t\<lparr>listing_lookups := map (\<lambda>x. if LkID x = LkID k then k' else x) (listing_lookups t)\<rparr>)" (is "db_inv ?t")
proof -
  have parts: "rows_ok s" "runs_ok s" "lookups_ok s" "single_runs s" using inv by (simp_all add: db_inv_def)
  have hs: "holders ?t = update_holder (LkID k) (\<lambda>_. lookup_holder k') (holders s)"
    using holders_update_lookup [OF parts(1) k k'(1)] by (simp add: holders_def t)
  have "map LkID (map (\<lambda>x. if LkID x = LkID k then k' else x) (listing_lookups s)) = map LkID (listing_lookups s)"
    using k'(1) by auto
  then have ids: "map HoldID (holders ?t) = map HoldID (holders s)" by (simp add: holders_ids t)
  have "balanced ?t (holders ?t)" using b unfolding hs by (simp add: balanced_def)
  moreover have "rows_ok ?t" using parts(1) unfolding rows_ok_ids ids by (simp add: t)
  moreover have "runs_ok ?t" using parts(2) by (simp add: runs_ok_def t)
  moreover have "lookups_ok ?t" using parts(3) k' k by (auto simp: lookups_ok_def t)
  moreover have "single_runs ?t" using parts(4) by (simp add: single_runs_def t)
  ultimately show ?thesis by (simp add: db_inv_def)
qed

text \<open>A search is started.\<close>

lemma create_listing_lookup_row:
  assumes "create_listing_lookup l org query key expected known s = Inr (k, t)"
  shows "LkID k = next_row s" "LkOrg k = org" "LkLocation k = l" "LkExpected k = expected" "LkReserved k = expected" "LkUsed k = 0"
    "LkStatus k = LookupRunning" "t = s\<lparr>listing_lookups := listing_lookups s @ [k], next_row := Suc (next_row s)\<rparr>"
  using assms by (auto simp: create_listing_lookup_def Let_def split: if_splits)

lemma reserve_listing_lookup_cases:
  assumes "reserve_listing_lookup l sel s = Inr (k, created, t)"
  obtains "\<not> created" "t = s"
  | org query key u where "created" "reserve_both listingLookupCredits org s = Inr u"
      "create_listing_lookup l org query key listingLookupCredits False u = Inr (k, t)"
proof -
  obtain query key where v: "validated_selection sel = Inr (query, key)"
    using assms by (auto simp: reserve_listing_lookup_def)
  obtain loc where loc: "spend_locations s l = Some loc"
    using assms by (cases "spend_locations s l") (auto simp: reserve_listing_lookup_def v)
  let ?old = "Option.bind (latest_lookup l s) (\<lambda>k. if LkCandidateKey k = key \<and> LkExpected k = listingLookupCredits
    \<and> LkStatus k \<noteq> LookupRunning \<and> LkReserved k = 0 then Some k else None)"
  show ?thesis
  proof (cases ?old)
    case None
    then show ?thesis using assms that(2) by (auto simp: reserve_listing_lookup_def v loc split: if_split_asm)
  next
    case (Some k)
    then show ?thesis using assms that(1) by (auto simp: reserve_listing_lookup_def v loc split: if_split_asm)
  qed
qed

lemma db_inv_reserve_lookup:
  assumes inv: "db_inv s" and t: "reserve_listing_lookup l sel s = Inr (k, created, t)"
  shows "db_inv t" "created \<Longrightarrow> LkID k = next_row s" "next_row s \<le> next_row t" "created \<Longrightarrow> next_row t = Suc (LkID k)"
    "created \<Longrightarrow> k \<in> set (listing_lookups t) \<and> LkExpected k = listingLookupCredits"
proof -
  have "db_inv t \<and> next_row s \<le> next_row t \<and> (created \<longrightarrow> LkID k = next_row s \<and> next_row t = Suc (LkID k)
    \<and> k \<in> set (listing_lookups t) \<and> LkExpected k = listingLookupCredits)"
  proof (rule reserve_listing_lookup_cases [OF t])
    fix org query key u assume u: "reserve_both listingLookupCredits org s = Inr u"
      and c: "create_listing_lookup l org query key listingLookupCredits False u = Inr (k, t)" "created"
    note row = create_listing_lookup_row [OF c(1)] and fr = reserve_both_frame [OF u]
    have pos: "0 \<le> listingLookupCredits" by (simp add: listingLookupCredits_def)
    have k: "lookup_ok k" using row by (simp add: lookup_ok_def listingLookupCredits_def)
    note b = reserve_decides [OF inv u pos, of "lookup_holder k" "holders s" "[]"]
    have "db_inv t" unfolding row(8)
      by (rule db_inv_new_lookup [OF inv fr(1-3)]) (use k b fr(3,5) row in simp_all)
    then show ?thesis using row fr c(2) by simp
  qed (use inv in simp)
  then show "db_inv t" "created \<Longrightarrow> LkID k = next_row s" "next_row s \<le> next_row t" "created \<Longrightarrow> next_row t = Suc (LkID k)"
    "created \<Longrightarrow> k \<in> set (listing_lookups t) \<and> LkExpected k = listingLookupCredits" by blast+
qed

lemma start_places_cases:
  assumes "start_places_listing_lookup l sel s = Inr (k, created, t)"
  obtains "t = s"
  | org query key where "create_listing_lookup l org query key 0 True s = Inr (k, t)"
proof -
  obtain query key where v: "validated_selection sel = Inr (query, key)"
    using assms by (auto simp: start_places_listing_lookup_def)
  obtain loc where loc: "spend_locations s l = Some loc"
    using assms by (cases "spend_locations s l") (auto simp: start_places_listing_lookup_def v)
  let ?old = "Option.bind (latest_lookup l s) (\<lambda>k. if LkCandidateKey k = key \<and> LkExpected k = 0 \<and> LkCreditKnown k
    \<and> LkReserved k = 0 \<and> LkStatus k \<in> {LookupCompleted, LookupFailed} then Some k else None)"
  show ?thesis
  proof (cases ?old)
    case None
    then show ?thesis using assms that(2) by (auto simp: start_places_listing_lookup_def v loc split: if_split_asm)
  next
    case (Some k)
    then show ?thesis using assms that(1) by (auto simp: start_places_listing_lookup_def v loc split: if_split_asm)
  qed
qed

lemma db_inv_start_places:
  assumes inv: "db_inv s" and t: "start_places_listing_lookup l sel s = Inr (k, created, t)"
  shows "db_inv t \<and> next_row s \<le> next_row t"
proof (rule start_places_cases [OF t])
  fix org query key assume c: "create_listing_lookup l org query key 0 True s = Inr (k, t)"
  note row = create_listing_lookup_row [OF c]
  have "balanced s (holders s @ [lookup_holder k])" using inv row balanced_zero [of s "holders s" "[]"] by (simp add: db_inv_def)
  then have "db_inv t" unfolding row(8)
    by (intro db_inv_new_lookup [OF inv]) (use row in \<open>simp_all add: lookup_ok_def\<close>)
  then show ?thesis using row by simp
qed (use inv in simp)

text \<open>A search is recorded.\<close>

lemma complete_listing_lookup_row:
  assumes "complete_listing_lookup i status reserved used known message s = Inr (k', t)" "find_lookup i s = Some k"
  shows "k' = k\<lparr>LkStatus := status, LkReserved := reserved, LkUsed := used, LkCreditKnown := known, LkError := message\<rparr>"
    "t = s\<lparr>listing_lookups := map (\<lambda>k. if LkID k = i then k' else k) (listing_lookups s)\<rparr>"
    "LkStatus k = LookupRunning" "0 \<le> reserved" "reserved \<le> LkExpected k" "0 \<le> used"
  using assms by (auto simp: complete_listing_lookup_def Let_def split: if_split_asm)

lemma record_listing_lookup_cases:
  assumes "record_listing_lookup i response err s = Inr (k', t)"
  obtains "t = s" "find_lookup i s = Some k'" "LkStatus k' \<noteq> LookupRunning"
  | k u where "find_lookup i s = Some k" "LkStatus k = LookupRunning"
      "settle_both (if ListCredits response > 0 then LkReserved k else 0) (if ListCredits response > 0 then ListCredits response else 0) (LkOrg k) s = Inr u"
      "complete_listing_lookup i (fst (lookup_verdict k response err)) (if ListCredits response > 0 then 0 else LkReserved k)
         (if ListCredits response > 0 then ListCredits response else 0) (ListCredits response > 0) (snd (lookup_verdict k response err)) u = Inr (k', t)"
proof -
  obtain k where k: "find_lookup i s = Some k" using assms by (cases "find_lookup i s") (auto simp: record_listing_lookup_def)
  obtain s0 where s0: "settle_both 0 0 (LkOrg k) s = Inr s0" using assms by (auto simp: record_listing_lookup_def k)
  then have eq: "s0 = s" by (rule settle_nothing)
  show ?thesis
  proof (cases "LkStatus k = LookupRunning")
    case True
    then show ?thesis using assms that(2) [OF k True] s0 unfolding eq
      by (auto simp: record_listing_lookup_def k Let_def split: prod.split_asm if_split_asm)
  next
    case False
    then show ?thesis using assms that(1) k by (auto simp: record_listing_lookup_def)
  qed
qed

lemma verdict_settled: "fst (lookup_verdict k response err) \<noteq> LookupRunning"
  by (auto simp: lookup_verdict_def Let_def split: prod.splits if_splits)

lemma db_inv_record_lookup:
  assumes inv: "db_inv s" and t: "record_listing_lookup i response err s = Inr (k', t)"
    and paid: "\<And>k. find_lookup i s = Some k \<Longrightarrow> LkExpected k \<noteq> 0"
  shows "db_inv t \<and> next_row t = next_row s"
proof (rule record_listing_lookup_cases [OF t])
  fix k u
  let ?known = "ListCredits response > 0"
  assume k: "find_lookup i s = Some k" "LkStatus k = LookupRunning"
    and u: "settle_both (if ?known then LkReserved k else 0) (if ?known then ListCredits response else 0) (LkOrg k) s = Inr u"
    and c: "complete_listing_lookup i (fst (lookup_verdict k response err)) (if ?known then 0 else LkReserved k)
         (if ?known then ListCredits response else 0) ?known (snd (lookup_verdict k response err)) u = Inr (k', t)"
  note fr = settle_both_frame [OF u] and m = find_lookupD [OF k(1)]
  have ku: "find_lookup i u = Some k" using k(1) by (simp add: find_lookup_def fr)
  have k': "k' = k\<lparr>LkStatus := fst (lookup_verdict k response err), LkReserved := (if ?known then 0 else LkReserved k),
      LkUsed := (if ?known then ListCredits response else 0), LkCreditKnown := ?known, LkError := snd (lookup_verdict k response err)\<rparr>"
    and t: "t = u\<lparr>listing_lookups := map (\<lambda>x. if LkID x = LkID k then k' else x) (listing_lookups u)\<rparr>"
    using complete_listing_lookup_row(1,2) [OF c ku] m by simp_all
  have "lookups_ok s" using inv by (simp add: db_inv_def)
  then have ok: "lookup_ok k" and org: "organization_budgets s (LkOrg k) \<noteq> None"
    using m paid [OF k(1)] unfolding lookups_ok_def by blast+
  have ok': "lookup_ok k'" using ok verdict_settled paid [OF k(1)] k(2) unfolding k' by (simp add: lookup_ok_def)
  have b: "balanced s (holders s)" and d: "distinct (map HoldID (holders s))" using inv by (simp_all add: db_inv_def rows_ok_def)
  have h: "lookup_holder k \<in> set (holders s)" using m by (simp add: holders_def)
  have "balanced u (update_holder (HoldID (lookup_holder k)) (\<lambda>_. lookup_holder k') (holders s))"
    by (rule balanced_settle [OF b u [folded holder_fields(6)] d h]) (use org ok k(2) in \<open>simp_all add: k' lookup_ok_def\<close>)
  then have "db_inv t" unfolding t
    by (intro db_inv_change_lookup [OF inv]) (use m ok' in \<open>simp_all add: k' fr\<close>)
  then show ?thesis using t fr by simp
qed (use inv in simp)

lemma record_places_cases:
  assumes "record_places_listing_lookup i response err s = Inr (k', t)"
  obtains "t = s"
  | k status message where "find_lookup i s = Some k" "LkExpected k = 0" "LkReserved k = 0" "status \<noteq> LookupRunning"
      "complete_listing_lookup i status 0 0 True message s = Inr (k', t)"
proof -
  obtain k where k: "find_lookup i s = Some k" using assms
    by (cases "find_lookup i s") (auto simp: record_places_listing_lookup_def split: if_split_asm)
  show ?thesis using assms k that
    by (auto simp: record_places_listing_lookup_def split: if_split_asm option.split_asm prod.split_asm)
qed

lemma db_inv_record_places:
  assumes inv: "db_inv s" and t: "record_places_listing_lookup i response err s = Inr (k', t)"
  shows "db_inv t \<and> next_row t = next_row s"
proof (rule record_places_cases [OF t])
  fix k status message
  assume k: "find_lookup i s = Some k" "LkExpected k = 0" "LkReserved k = 0" "status \<noteq> LookupRunning"
    and c: "complete_listing_lookup i status 0 0 True message s = Inr (k', t)"
  note m = find_lookupD [OF k(1)]
  have k': "k' = k\<lparr>LkStatus := status, LkReserved := 0, LkUsed := 0, LkCreditKnown := True, LkError := message\<rparr>"
    and t: "t = s\<lparr>listing_lookups := map (\<lambda>x. if LkID x = LkID k then k' else x) (listing_lookups s)\<rparr>"
    using complete_listing_lookup_row(1,2) [OF c k(1)] m by simp_all
  have rows: "rows_ok s" and ok: "lookup_ok k" using inv m by (auto simp: db_inv_def lookups_ok_def)
  have same: "lookup_holder k' = lookup_holder k" using ok k(2,3) by (simp add: lookup_holder_def k' lookup_ok_def)
  have "h = lookup_holder k" if "h \<in> set (holders s)" "HoldID h = LkID k" for h
    using that rows_ok_lookups [OF rows] rows_ok_apart [OF rows] m unfolding holders_def by fastforce
  then have "update_holder (LkID k) (\<lambda>_. lookup_holder k') (holders s) = holders s"
    unfolding update_holder_def same by (intro map_idI) auto
  then have "db_inv t" unfolding t
    by (intro db_inv_change_lookup [OF inv]) (use m ok k inv in \<open>simp_all add: k' lookup_ok_def db_inv_def\<close>)
  then show ?thesis using t by simp
qed (use inv in simp)

section \<open>Allowances and deletion\<close>

lemma db_inv_budgets:
  assumes inv: "db_inv s" and t: "maps_runs t = maps_runs s" "listing_lookups t = listing_lookups s" "next_row t = next_row s"
    and o: "\<And>og. organization_budgets s og \<noteq> None \<Longrightarrow> organization_budgets t og \<noteq> None"
    and b: "balanced t (holders s)"
  shows "db_inv t"
  using assms unfolding db_inv_parts by (simp add: holders_def)

lemma db_inv_admin_platform:
  assumes inv: "db_inv s" and t: "admin_put_platform_maps_budget remaining expected s = Inr t"
  shows "db_inv t \<and> next_row t = next_row s"
proof -
  obtain n where t: "t = s\<lparr>platform_budget := (platform_budget s)\<lparr>RemainingCredits := n\<rparr>\<rparr>"
    using t by (auto simp: admin_put_platform_maps_budget_def update_platform_maps_credit_budget_def
        split: option.split_asm if_split_asm)
  have "balanced s (holders s)" using inv by (simp add: db_inv_def)
  then have "balanced t (holders s)" unfolding t by (simp add: balanced_def covers_def)
  then show ?thesis using db_inv_budgets [OF inv, of t] t by simp
qed

lemma no_holder_no_sum: "(\<And>h. h \<in> set hs \<Longrightarrow> Q (HoldOrg h) \<Longrightarrow> f h = 0) \<Longrightarrow> sum_held f Q hs = 0"
  by (induction hs) auto

lemma db_inv_admin_organization:
  assumes inv: "db_inv s" and t: "admin_put_maps_budget known org remaining expected s = Inr t"
  shows "db_inv t \<and> next_row t = next_row s"
proof -
  have b: "balanced s (holders s)" using inv by (simp add: db_inv_def)
  obtain c where t: "t = s\<lparr>organization_budgets := (organization_budgets s)(org \<mapsto> c)\<rparr>"
    and c: "(organization_budgets s org = None \<and> ReservedCredits c = 0 \<and> SpentCredits c = 0)
      \<or> (\<exists>b. organization_budgets s org = Some b \<and> ReservedCredits c = ReservedCredits b \<and> SpentCredits c = SpentCredits b)"
    using t unfolding admin_put_maps_budget_def update_organization_maps_credit_budget_def
    by (cases "organization_budgets s org") (auto split: option.split_asm if_split_asm)
  have "covers c ((=) org) (holders s)" using c
  proof
    assume "organization_budgets s org = None \<and> ReservedCredits c = 0 \<and> SpentCredits c = 0"
    moreover from this have "HoldReserved h = 0 \<and> HoldUsed h = 0" if "h \<in> set (holders s)" "org = HoldOrg h" for h
      using b that by (simp add: balanced_def)
    then have "sum_held HoldReserved ((=) org) (holders s) = 0" "sum_held HoldUsed ((=) org) (holders s) = 0"
      by (simp_all add: no_holder_no_sum)
    ultimately show ?thesis by (simp add: covers_def)
  next
    assume "\<exists>b. organization_budgets s org = Some b \<and> ReservedCredits c = ReservedCredits b \<and> SpentCredits c = SpentCredits b"
    then show ?thesis using b unfolding balanced_def covers_def by auto
  qed
  then have "balanced t (holders s)" using b unfolding t by (simp add: balanced_def)
  then show ?thesis using db_inv_budgets [OF inv, of t] t by simp
qed

lemma sum_held_filter:
  "(\<And>h. h \<in> set hs \<Longrightarrow> \<not> P h \<Longrightarrow> f h = 0) \<Longrightarrow> sum_held f Q (filter P hs) = sum_held f Q hs"
  by (induction hs) auto

lemma sum_held_filter_le:
  "(\<And>h. h \<in> set hs \<Longrightarrow> 0 \<le> f h) \<Longrightarrow> sum_held f Q (filter P hs) \<le> sum_held f Q hs"
  by (induction hs) (auto intro: order_trans)

lemma holders_filter:
  fixes s :: spend_db
  assumes "rows_ok s" and t: "maps_runs t = filter A (maps_runs s)" "listing_lookups t = filter B (listing_lookups s)"
  obtains P where "holders t = filter P (holders s)"
    "\<And>r. r \<in> set (maps_runs s) \<Longrightarrow> P (run_holder r) = A r" "\<And>k. k \<in> set (listing_lookups s) \<Longrightarrow> P (lookup_holder k) = B k"
proof -
  let ?P = "\<lambda>h. (\<exists>r \<in> set (maps_runs s). HoldID h = MrID r \<and> A r) \<or> (\<exists>k \<in> set (listing_lookups s). HoldID h = LkID k \<and> B k)"
  have r: "?P (run_holder r) = A r" if "r \<in> set (maps_runs s)" for r
  proof -
    have "x = r" if "x \<in> set (maps_runs s)" "MrID x = MrID r" for x using rows_ok_runs [OF assms(1) \<open>r \<in> set (maps_runs s)\<close> that] by simp
    moreover have "MrID r \<noteq> LkID x" if "x \<in> set (listing_lookups s)" for x using rows_ok_apart [OF assms(1) \<open>r \<in> set (maps_runs s)\<close> that] .
    ultimately show ?thesis using that by (metis holder_fields(1))
  qed
  have k: "?P (lookup_holder k) = B k" if "k \<in> set (listing_lookups s)" for k
  proof -
    have "x = k" if "x \<in> set (listing_lookups s)" "LkID x = LkID k" for x using rows_ok_lookups [OF assms(1) \<open>k \<in> set (listing_lookups s)\<close> that] by simp
    moreover have "MrID x \<noteq> LkID k" if "x \<in> set (maps_runs s)" for x using rows_ok_apart [OF assms(1) that \<open>k \<in> set (listing_lookups s)\<close>] .
    ultimately show ?thesis using that by (metis holder_fields(5))
  qed
  have "holders t = filter ?P (holders s)"
    unfolding holders_def t filter_append filter_map comp_def by (intro arg_cong2 [where f = append] arg_cong2 [where f = map] filter_cong) (use r k in auto)
  with r k that show ?thesis by blast
qed

lemma db_inv_delete_location:
  assumes inv: "db_inv s" and t: "delete_location l s = Inr t"
  shows "db_inv t \<and> next_row t = next_row s"
proof -
  have settled: "MrReserved r \<le> 0" if "r \<in> set (maps_runs s)" "MrLocation r = l" for r
    using t that by (auto simp: delete_location_def run_unsettled_def list_ex_iff split: if_split_asm)
  have settled': "LkReserved k \<le> 0" if "k \<in> set (listing_lookups s)" "LkLocation k = l" for k
    using t that by (auto simp: delete_location_def lookup_unsettled_def list_ex_iff split: if_split_asm)
  have t: "maps_runs t = filter (\<lambda>r. MrLocation r \<noteq> l) (maps_runs s)"
      "listing_lookups t = filter (\<lambda>k. LkLocation k \<noteq> l) (listing_lookups s)" "next_row t = next_row s"
      "platform_budget t = platform_budget s" "organization_budgets t = organization_budgets s"
    using t by (auto simp: delete_location_def split: if_split_asm)
  have parts: "rows_ok s" "runs_ok s" "lookups_ok s" "balanced s (holders s)" "single_runs s" using inv by (simp_all add: db_inv_def)
  obtain P where P: "holders t = filter P (holders s)" "\<And>r. r \<in> set (maps_runs s) \<Longrightarrow> P (run_holder r) = (MrLocation r \<noteq> l)"
    "\<And>k. k \<in> set (listing_lookups s) \<Longrightarrow> P (lookup_holder k) = (LkLocation k \<noteq> l)"
    using holders_filter [OF parts(1) t(1,2)] by blast
  have pos: "0 \<le> HoldReserved h \<and> 0 \<le> HoldUsed h" if "h \<in> set (holders s)" for h using parts(4) that by (simp add: balanced_def)
  have gone: "HoldReserved h = 0" if "h \<in> set (holders s)" "\<not> P h" for h
    using that pos [OF that(1)] settled settled' P(2,3) unfolding holders_def by force
  have "covers b Q (holders t)" if "covers b Q (holders s)" for b Q
    using that sum_held_filter [of "holders s" P HoldReserved Q] gone sum_held_filter_le [of "holders s" HoldUsed Q P] pos
    unfolding covers_def P(1) by fastforce
  then have "balanced t (holders t)" using parts(4) unfolding balanced_def t P(1) by auto
  moreover have "rows_ok t" using parts(1) by (auto simp: rows_ok_alt t distinct_map_filter)
  moreover have "runs_ok t" "lookups_ok t" using parts(2,3) by (auto simp: runs_ok_def lookups_ok_def t)
  moreover have "single_runs t" unfolding single_runs_def
  proof
    fix l'
    have "length (filter (\<lambda>r. MrLocation r = l' \<and> maps_run_active r) (maps_runs t))
      \<le> length (filter (\<lambda>r. MrLocation r = l' \<and> maps_run_active r) (maps_runs s))"
      unfolding t by (metis (no_types, lifting) filter_filter filter_cong length_filter_le conj_commute)
    then show "length (filter (\<lambda>r. MrLocation r = l' \<and> maps_run_active r) (maps_runs t)) \<le> 1"
      using parts(5) unfolding single_runs_def using order_trans by blast
  qed
  ultimately show ?thesis using t(3) by (simp add: db_inv_def)
qed

end
