(* ===== verification/MapsSteps.thy ===== *)
theory MapsSteps
  imports MapsLookupInvariant
begin

text \<open>
  The system: what members, executors, the sweep and administrators do with the tables, with the
  provider calls that are under way. An executor is the process that started a run; a call is under
  way from the moment its cell is started until its outcome is recorded or its process dies.
\<close>

section \<open>Actions\<close>

record spend_system =
  SsDb :: spend_db
  SsExecutors :: "nat set"
  SsCalls :: "(nat \<times> nat \<times> nat) set"
  SsLookups :: "nat set"

datatype spend_action =
    Enqueue destination "rat \<Rightarrow> rat \<Rightarrow> string result" string nat int int
  | StartRun nat
  | StartCell nat nat nat
  | RecordCell nat nat nat maps_response "string option"
  | LoseCall nat nat nat
  | FinishRun nat
  | LeaveRun nat
  | ReserveLookup nat lookup_selection
  | RecordLookup nat listing_response "string option"
  | StartPlaces nat lookup_selection
  | RecordPlaces nat listing_response "string option"
  | PutPlatform "int option" "int option"
  | PutOrganization bool nat "int option" "int option"
  | EditLocation nat spend_location
  | DeleteLocation nat

fun succeeded :: "'a result \<Rightarrow> 'a option" where
  "succeeded (Inl e) = None"
| "succeeded (Inr x) = Some x"

definition run_target :: "nat \<Rightarrow> spend_db \<Rightarrow> string" where
  "run_target i s = (case find_maps_run i s of None \<Rightarrow> [] | Some r \<Rightarrow> SnapTargetPlaceID (MrSnapshot r))"

fun spend_perform :: "spend_action \<Rightarrow> spend_system \<Rightarrow> spend_system option" where
  "spend_perform (Enqueue destination format_viewport endpoint l radius expected) y =
     map_option (\<lambda>(i, t). y\<lparr>SsDb := t\<rparr>) (succeeded (enqueue_run destination format_viewport endpoint l radius expected (SsDb y)))"
| "spend_perform (StartRun i) y =
     map_option (\<lambda>t. y\<lparr>SsDb := t, SsExecutors := insert i (SsExecutors y)\<rparr>) (start_local_visibility_run i (SsDb y))"
| "spend_perform (StartCell i q p) y =
     (if i \<notin> SsExecutors y then None
      else map_option (\<lambda>t. y\<lparr>SsDb := t, SsCalls := insert (i, q, p) (SsCalls y)\<rparr>) (start_local_run_cell i q p (SsDb y)))"
| "spend_perform (RecordCell i q p response err) y =
     (if (i, q, p) \<notin> SsCalls y then None
      else map_option (\<lambda>t. y\<lparr>SsDb := t, SsCalls := SsCalls y - {(i, q, p)}\<rparr>)
        (succeeded (record_cell_outcome i q p (local_cell_outcome (run_target i (SsDb y)) response err) (SsDb y))))"
| "spend_perform (LoseCall i q p) y = Some (y\<lparr>SsCalls := SsCalls y - {(i, q, p)}\<rparr>)"
| "spend_perform (FinishRun i) y = map_option (\<lambda>t. y\<lparr>SsDb := t\<rparr>) (succeeded (finish_maps_run i (SsDb y)))"
| "spend_perform (LeaveRun i) y = Some (y\<lparr>SsExecutors := SsExecutors y - {i}\<rparr>)"
| "spend_perform (ReserveLookup l sel) y =
     map_option (\<lambda>(k, created, t). y\<lparr>SsDb := t, SsLookups := (if created then insert (LkID k) (SsLookups y) else SsLookups y)\<rparr>)
       (succeeded (reserve_listing_lookup l sel (SsDb y)))"
| "spend_perform (RecordLookup i response err) y =
     (if i \<notin> SsLookups y then None
      else map_option (\<lambda>(k, t). y\<lparr>SsDb := t\<rparr>) (succeeded (record_listing_lookup i response err (SsDb y))))"
| "spend_perform (StartPlaces l sel) y =
     map_option (\<lambda>(k, created, t). y\<lparr>SsDb := t\<rparr>) (succeeded (start_places_listing_lookup l sel (SsDb y)))"
| "spend_perform (RecordPlaces i response err) y =
     map_option (\<lambda>(k, t). y\<lparr>SsDb := t\<rparr>) (succeeded (record_places_listing_lookup i response err (SsDb y)))"
| "spend_perform (PutPlatform remaining expected) y =
     map_option (\<lambda>t. y\<lparr>SsDb := t\<rparr>) (succeeded (admin_put_platform_maps_budget remaining expected (SsDb y)))"
| "spend_perform (PutOrganization known org remaining expected) y =
     map_option (\<lambda>t. y\<lparr>SsDb := t\<rparr>) (succeeded (admin_put_maps_budget known org remaining expected (SsDb y)))"
| "spend_perform (EditLocation l loc) y =
     (case spend_locations (SsDb y) l of
        Some old \<Rightarrow>
          if SlOrg old = SlOrg loc \<and> SlProject old = SlProject loc
          then Some (y\<lparr>SsDb := (SsDb y)\<lparr>spend_locations := (spend_locations (SsDb y))(l \<mapsto> loc)\<rparr>\<rparr>) else None
      | None \<Rightarrow> Some (y\<lparr>SsDb := (SsDb y)\<lparr>spend_locations := (spend_locations (SsDb y))(l \<mapsto> loc)\<rparr>\<rparr>))"
| "spend_perform (DeleteLocation l) y = map_option (\<lambda>t. y\<lparr>SsDb := t\<rparr>) (succeeded (delete_location l (SsDb y)))"

lemma succeeded_Some [simp]: "succeeded r = Some x \<longleftrightarrow> r = Inr x"
  by (cases r) auto

definition spend_initial :: "spend_system" where
  "spend_initial =
     \<lparr>SsDb = \<lparr>maps_runs = [], listing_lookups = [], platform_budget = \<lparr>RemainingCredits = 5000, ReservedCredits = 0, SpentCredits = 0\<rparr>,
        organization_budgets = (\<lambda>_. None), spend_locations = (\<lambda>_. None), next_row = 0\<rparr>,
      SsExecutors = {}, SsCalls = {}, SsLookups = {}\<rparr>"

inductive spend_reachable :: "spend_system \<Rightarrow> bool" where
  spend_start: "spend_reachable spend_initial"
| spend_step: "spend_reachable y \<Longrightarrow> spend_perform a y = Some z \<Longrightarrow> spend_reachable z"

text \<open>A sequence of actions.\<close>

primrec spend_run :: "spend_action list \<Rightarrow> spend_system \<Rightarrow> spend_system option" where
  "spend_run [] y = Some y"
| "spend_run (a # as) y = Option.bind (spend_perform a y) (spend_run as)"

lemma spend_run_reachable: "spend_reachable y \<Longrightarrow> spend_run as y = Some z \<Longrightarrow> spend_reachable z"
proof (induction as arbitrary: y)
  case (Cons a as)
  then obtain u where "spend_perform a y = Some u" "spend_run as u = Some z" by (auto simp: bind_eq_Some_conv)
  then show ?case using Cons.IH spend_step [OF Cons.prems(1)] by blast
qed simp

lemma spend_run_append: "spend_run (as @ bs) y = Option.bind (spend_run as y) (spend_run bs)"
proof (induction as arbitrary: y)
  case (Cons a as)
  then show ?case by (cases "spend_perform a y") simp_all
qed simp

section \<open>How a run goes on\<close>

definition run_follows :: "(nat \<times> nat \<times> nat) set \<Rightarrow> nat \<Rightarrow> maps_run \<Rightarrow> maps_run \<Rightarrow> bool" where
  "run_follows X j r r' =
     (MrSnapshot r' = MrSnapshot r \<and> MrOrg r' = MrOrg r \<and> MrExpected r' = MrExpected r
      \<and> (MrStatus r' = RunQueued \<longrightarrow> MrStatus r = RunQueued)
      \<and> (\<not> maps_run_active r \<longrightarrow> MrStatus r' = MrStatus r \<and> MrReserved r' = MrReserved r \<and> MrUsed r' = MrUsed r \<and> MrError r' = MrError r)
      \<and> (\<forall>q p c. find (is_cell q p) (MrCells r) = Some c \<longrightarrow>
           (\<exists>c'. find (is_cell q p) (MrCells r') = Some c' \<and> (CellOutcome c \<noteq> None \<longrightarrow> CellOutcome c' = CellOutcome c)
              \<and> ((j, q, p) \<notin> X \<longrightarrow> CellStarted c \<longrightarrow> c' = c))))"

definition runs_follow :: "(nat \<times> nat \<times> nat) set \<Rightarrow> spend_db \<Rightarrow> spend_db \<Rightarrow> bool" where
  "runs_follow X s t =
     (\<forall>j r'. find_maps_run j t = Some r' \<longrightarrow> j < next_row s \<longrightarrow> (\<exists>r. find_maps_run j s = Some r \<and> run_follows X j r r'))"

lemma run_follows_refl [simp]: "run_follows X j r r"
  by (auto simp: run_follows_def)

lemma follow_same: "maps_runs t = maps_runs s \<Longrightarrow> runs_follow X s t"
  by (auto simp: runs_follow_def find_maps_run_def)

lemma follow_update:
  assumes "find_maps_run i s = Some r" "maps_runs u = maps_runs s" "\<And>x. MrID (f x) = MrID x" "run_follows X i r (f r)"
  shows "runs_follow X s (update_maps_run i f u)"
proof -
  have "find_maps_run j u = find_maps_run j s" for j using assms(2) by (simp add: find_maps_run_def)
  then show ?thesis using assms(1,3,4) by (auto simp: runs_follow_def find_update_maps_run split: if_splits)
qed

lemma follow_start_run:
  assumes "start_local_visibility_run i s = Some t" shows "runs_follow X s t \<and> next_row t = next_row s"
proof -
  obtain r where r: "find_maps_run i s = Some r" "MrStatus r = RunQueued"
    and t: "t = update_maps_run i (\<lambda>r. r\<lparr>MrStatus := RunRunning\<rparr>) s"
    using assms by (auto simp: start_local_visibility_run_def split: option.splits if_splits)
  have "run_follows X i r (r\<lparr>MrStatus := RunRunning\<rparr>)" using r(2) by (auto simp: run_follows_def maps_run_active_def)
  then show ?thesis unfolding t using follow_update [OF r(1) refl] by simp
qed

lemma follow_start_cell:
  assumes "start_local_run_cell i q p s = Some t" shows "runs_follow X s t \<and> next_row t = next_row s"
proof -
  obtain r c where r: "find_maps_run i s = Some r" and c: "find (is_cell q p) (MrCells r) = Some c" "\<not> CellStarted c"
    and t: "t = update_maps_run i (update_cell q p (\<lambda>c. c\<lparr>CellStarted := True\<rparr>)) s"
    using start_local_run_cell_run [OF assms] by metis
  have "run_follows X i r (update_cell q p (\<lambda>c. c\<lparr>CellStarted := True\<rparr>) r)"
    using c unfolding run_follows_def by (auto simp: find_set_cell) (simp_all add: update_cell_def)
  then show ?thesis unfolding t using follow_update [OF r refl] by simp
qed

lemma follow_record:
  assumes "record_cell_outcome i q p oc s = Inr t" shows "runs_follow {(i, q, p)} s t \<and> next_row t = next_row s"
proof -
  obtain r c u where r: "find_maps_run i s = Some r" and c: "find (is_cell q p) (MrCells r) = Some c" "CellOutcome c = None"
    and st: "MrStatus r = RunRunning"
    and u: "settle_both (if CoCreditKnown oc then mapsCreditsPerCall else 0) (CoCredits oc) (MrOrg r) s = Inr u"
    and t: "t = update_maps_run i (recorded_run q p oc) u"
    using record_cell_outcome_run [OF assms] by metis
  have "run_follows {(i, q, p)} i r (recorded_run q p oc r)"
    using c st unfolding run_follows_def by (auto simp: find_set_cell maps_run_active_def) (simp_all add: recorded_run_def update_cell_def)
  then show ?thesis unfolding t using follow_update [OF r settle_both_frame(1) [OF u]] settle_both_frame(3) [OF u] by simp
qed

lemma follow_finish:
  assumes inv: "db_inv s" and t: "finish_maps_run i s = Inr t" shows "runs_follow X s t \<and> next_row t = next_row s"
proof -
  obtain r where r: "find_maps_run i s = Some r" using t by (auto simp: finish_maps_run_def split: option.splits)
  show ?thesis
  proof (rule finish_maps_run_cases [OF inv r])
    fix u assume a: "maps_run_active r"
      and u: "settle_both (int (SumUnstarted (summarize_run_outcome (MrCells r) (MrReserved r))) * mapsCreditsPerCall) 0 (MrOrg r) s = Inr u"
      and f: "finish_maps_run i s = Inr (update_maps_run i finished_run u)"
    have "MrStatus (finished_run r) \<noteq> RunQueued" "MrSnapshot (finished_run r) = MrSnapshot r" "MrExpected (finished_run r) = MrExpected r"
      by (simp_all add: finished_run_def Let_def summarize_run_outcome_def)
    then have "run_follows X i r (finished_run r)" using a by (simp add: run_follows_def)
    then have "runs_follow X s (update_maps_run i finished_run u)"
      using follow_update [OF r settle_both_frame(1) [OF u]] by simp
    then show ?thesis using f t settle_both_frame(3) [OF u] by simp
  qed (use t follow_same in auto)
qed

lemma find_snoc: "\<not> P x \<Longrightarrow> find P (xs @ [x]) = find P xs"
  by (induction xs) auto

lemma follow_enqueue:
  assumes inv: "db_inv s" and t: "enqueue_run destination format_viewport endpoint l radius expected s = Inr (i, t)"
  shows "runs_follow X s t"
proof -
  obtain r u where t: "maps_runs t = maps_runs s @ [r]" and r: "MrID r = next_row s"
  proof -
    from t obtain loc snap n u where u: "reserve_both n (SlOrg loc) s = Inr u" and c: "create_maps_run l loc radius snap n u = Inr (i, t)"
      unfolding enqueue_run_def by (simp split: option.splits sum.splits if_splits) blast
    show ?thesis using c reserve_both_frame [OF u] that by (auto simp: create_maps_run_def split: if_splits)
  qed
  have "find_maps_run j t = find_maps_run j s" if "j < next_row s" for j
    using that r by (simp add: find_maps_run_def t find_snoc)
  then show ?thesis by (auto simp: runs_follow_def)
qed

lemma follow_delete:
  assumes inv: "db_inv s" and t: "delete_location l s = Inr t" shows "runs_follow X s t"
proof -
  have t: "maps_runs t = filter (\<lambda>r. MrLocation r \<noteq> l) (maps_runs s)" using t by (auto simp: delete_location_def split: if_split_asm)
  have "find_maps_run j s = Some r" if "find_maps_run j t = Some r" for j r
    using find_maps_runD [OF that] find_maps_runI [of s r] inv by (auto simp: t db_inv_def)
  then show ?thesis by (auto simp: runs_follow_def)
qed

section \<open>The invariant of the system\<close>

definition executors_ok :: "spend_db \<Rightarrow> nat set \<Rightarrow> bool" where
  "executors_ok s E = (\<forall>i \<in> E. i < next_row s \<and> (\<forall>r. find_maps_run i s = Some r \<longrightarrow> MrStatus r \<noteq> RunQueued))"

definition calls_ok :: "spend_db \<Rightarrow> (nat \<times> nat \<times> nat) set \<Rightarrow> bool" where
  "calls_ok s C =
     (\<forall>(i, q, p) \<in> C. i < next_row s
        \<and> (\<forall>r. find_maps_run i s = Some r \<longrightarrow>
             (\<exists>c. find (is_cell q p) (MrCells r) = Some c \<and> CellStarted c \<and> CellOutcome c = None)))"

definition paid_ok :: "spend_db \<Rightarrow> nat set \<Rightarrow> bool" where
  "paid_ok s L = (\<forall>i \<in> L. i < next_row s \<and> (\<forall>k. find_lookup i s = Some k \<longrightarrow> LkExpected k \<noteq> 0))"

definition spend_inv :: "spend_system \<Rightarrow> bool" where
  "spend_inv y = (db_inv (SsDb y) \<and> executors_ok (SsDb y) (SsExecutors y) \<and> calls_ok (SsDb y) (SsCalls y) \<and> paid_ok (SsDb y) (SsLookups y))"

lemma executors_ok_follow:
  assumes "executors_ok s E" "runs_follow X s t" "next_row s \<le> next_row t" shows "executors_ok t E"
  using assms by (fastforce simp: executors_ok_def runs_follow_def run_follows_def)

lemma calls_ok_follow:
  assumes C: "calls_ok s C" and f: "runs_follow X s t" and n: "next_row s \<le> next_row t" and D: "D \<subseteq> C" "D \<inter> X = {}"
  shows "calls_ok t D"
  unfolding calls_ok_def
proof (clarify, intro conjI allI impI)
  fix i q p assume d: "(i, q, p) \<in> D"
  then have i: "i < next_row s" using C D(1) unfolding calls_ok_def by blast
  then show "i < next_row t" using n by simp
  fix r' assume "find_maps_run i t = Some r'"
  then obtain r where r: "find_maps_run i s = Some r" "run_follows X i r r'" using f i unfolding runs_follow_def by blast
  then obtain c where c: "find (is_cell q p) (MrCells r) = Some c" "CellStarted c" "CellOutcome c = None"
    using C D(1) d unfolding calls_ok_def by blast
  have "(i, q, p) \<notin> X" using d D(2) by blast
  then show "\<exists>c. find (is_cell q p) (MrCells r') = Some c \<and> CellStarted c \<and> CellOutcome c = None"
    using r(2) c unfolding run_follows_def by metis
qed

definition lookups_follow :: "spend_db \<Rightarrow> spend_db \<Rightarrow> bool" where
  "lookups_follow s t =
     (\<forall>j k'. find_lookup j t = Some k' \<longrightarrow> j < next_row s \<longrightarrow>
        (\<exists>k. find_lookup j s = Some k \<and> LkExpected k' = LkExpected k \<and> (LkStatus k \<noteq> LookupRunning \<longrightarrow> k' = k)))"

lemma lookups_same: "listing_lookups t = listing_lookups s \<Longrightarrow> lookups_follow s t"
  by (auto simp: lookups_follow_def find_lookup_def)

lemma paid_ok_follow: "paid_ok s L \<Longrightarrow> lookups_follow s t \<Longrightarrow> next_row s \<le> next_row t \<Longrightarrow> paid_ok t L"
  by (fastforce simp: paid_ok_def lookups_follow_def)

lemma lookups_new:
  assumes "listing_lookups t = listing_lookups s @ [k]" "LkID k = next_row s" shows "lookups_follow s t"
proof -
  have "find_lookup j t = find_lookup j s" if "j < next_row s" for j
    using that assms by (simp add: find_lookup_def find_snoc)
  then show ?thesis by (auto simp: lookups_follow_def)
qed

lemma find_changed_lookup:
  "LkID k' = i \<Longrightarrow> find (\<lambda>k. LkID k = j) (map (\<lambda>k. if LkID k = i then k' else k) ks)
    = map_option (\<lambda>k. if j = i then k' else k) (find (\<lambda>k. LkID k = j) ks)"
  by (induction ks) auto

lemma lookups_complete:
  assumes c: "complete_listing_lookup i status reserved used known message u = Inr (k', t)" and k: "find_lookup i s = Some k"
    and u: "listing_lookups u = listing_lookups s"
  shows "lookups_follow s t \<and> maps_runs t = maps_runs u \<and> next_row t = next_row u"
proof -
  have ku: "find_lookup i u = Some k" using k by (simp add: find_lookup_def u)
  note row = complete_listing_lookup_row [OF c ku]
  have "LkID k' = i" using row(1) find_lookupD [OF k] by simp
  then show ?thesis using row k by (auto simp: lookups_follow_def find_lookup_def u find_changed_lookup)
qed

lemma lookups_record:
  assumes "record_listing_lookup i response err s = Inr (k', t)"
  shows "lookups_follow s t \<and> maps_runs t = maps_runs s \<and> next_row t = next_row s"
  using assms
proof (rule record_listing_lookup_cases)
  fix k u
  let ?known = "ListCredits response > 0"
  assume k: "find_lookup i s = Some k"
    and u: "settle_both (if ?known then LkReserved k else 0) (if ?known then ListCredits response else 0) (LkOrg k) s = Inr u"
    and c: "complete_listing_lookup i (fst (lookup_verdict k response err)) (if ?known then 0 else LkReserved k)
         (if ?known then ListCredits response else 0) ?known (snd (lookup_verdict k response err)) u = Inr (k', t)"
  show ?thesis using lookups_complete [OF c k settle_both_frame(2) [OF u]] settle_both_frame(1,3) [OF u] by simp
qed (simp add: lookups_same)

lemma lookups_places:
  assumes "record_places_listing_lookup i response err s = Inr (k', t)"
  shows "lookups_follow s t \<and> maps_runs t = maps_runs s \<and> next_row t = next_row s"
  using assms
proof (rule record_places_cases)
  fix k status message assume k: "find_lookup i s = Some k"
    and c: "complete_listing_lookup i status 0 0 True message s = Inr (k', t)"
  show ?thesis using lookups_complete [OF c k refl] by simp
qed (simp add: lookups_same)

lemma lookups_reserve:
  assumes "reserve_listing_lookup l sel s = Inr (k, created, t)"
  shows "lookups_follow s t \<and> maps_runs t = maps_runs s"
  using assms
proof (rule reserve_listing_lookup_cases)
  fix org query key u assume u: "reserve_both listingLookupCredits org s = Inr u"
    and c: "create_listing_lookup l org query key listingLookupCredits False u = Inr (k, t)"
  show ?thesis using create_listing_lookup_row [OF c] reserve_both_frame [OF u] lookups_new [of t s k] by simp
qed (simp add: lookups_same)

lemma lookups_start_places:
  assumes "start_places_listing_lookup l sel s = Inr (k, created, t)"
  shows "lookups_follow s t \<and> maps_runs t = maps_runs s"
  using assms
proof (rule start_places_cases)
  fix org query key assume c: "create_listing_lookup l org query key 0 True s = Inr (k, t)"
  show ?thesis using create_listing_lookup_row [OF c] lookups_new [of t s k] by simp
qed (simp add: lookups_same)

lemma lookups_delete:
  assumes inv: "db_inv s" and t: "delete_location l s = Inr t" shows "lookups_follow s t"
proof -
  have t: "listing_lookups t = filter (\<lambda>k. LkLocation k \<noteq> l) (listing_lookups s)"
    using t by (auto simp: delete_location_def split: if_split_asm)
  have "find_lookup j s = Some k" if "find_lookup j t = Some k" for j k
    using find_lookupD [OF that] find_lookupI [of s k] inv by (auto simp: t db_inv_def)
  then show ?thesis by (auto simp: lookups_follow_def)
qed

end
