(* ===== verification/MapsReachable.thy ===== *)
theory MapsReachable
  imports MapsSteps
begin

text \<open>Every action keeps the invariant of the system, so every reachable state has it.\<close>

definition db_step :: "(nat \<times> nat \<times> nat) set \<Rightarrow> spend_db \<Rightarrow> spend_db \<Rightarrow> bool" where
  "db_step X s t = (db_inv t \<and> runs_follow X s t \<and> lookups_follow s t \<and> next_row s \<le> next_row t)"

lemma spend_inv_step:
  assumes y: "spend_inv y" and t: "db_step X (SsDb y) (SsDb z)"
    and s: "SsExecutors z \<subseteq> SsExecutors y" "SsCalls z \<subseteq> SsCalls y" "SsCalls z \<inter> X = {}" "SsLookups z \<subseteq> SsLookups y"
  shows "spend_inv z"
proof -
  have e: "executors_ok (SsDb y) (SsExecutors y)" "calls_ok (SsDb y) (SsCalls y)" "paid_ok (SsDb y) (SsLookups y)"
    using y by (simp_all add: spend_inv_def)
  have t: "db_inv (SsDb z)" "runs_follow X (SsDb y) (SsDb z)" "lookups_follow (SsDb y) (SsDb z)" "next_row (SsDb y) \<le> next_row (SsDb z)"
    using t by (simp_all add: db_step_def)
  have "executors_ok (SsDb z) (SsExecutors z)" using executors_ok_follow [OF e(1) t(2,4)] s(1) by (auto simp: executors_ok_def)
  moreover have "calls_ok (SsDb z) (SsCalls z)" by (rule calls_ok_follow [OF e(2) t(2,4) s(2,3)])
  moreover have "paid_ok (SsDb z) (SsLookups z)" using paid_ok_follow [OF e(3) t(3,4)] s(4) by (auto simp: paid_ok_def)
  ultimately show ?thesis using t(1) by (simp add: spend_inv_def)
qed

text \<open>What an action does to the tables.\<close>

fun recorded_calls :: "spend_action \<Rightarrow> (nat \<times> nat \<times> nat) set" where
  "recorded_calls (RecordCell i q p response err) = {(i, q, p)}"
| "recorded_calls a = {}"

lemma enqueue_lookups: "enqueue_run destination format_viewport endpoint l radius expected s = Inr (i, t) \<Longrightarrow> listing_lookups t = listing_lookups s"
proof -
  assume t: "enqueue_run destination format_viewport endpoint l radius expected s = Inr (i, t)"
  then obtain loc snap n u where u: "reserve_both n (SlOrg loc) s = Inr u" and c: "create_maps_run l loc radius snap n u = Inr (i, t)"
    unfolding enqueue_run_def by (simp split: option.splits sum.splits if_splits) blast
  show ?thesis using c reserve_both_frame [OF u] by (auto simp: create_maps_run_def split: if_splits)
qed

lemma settle_run_lookups:
  "settle_local_run_credits i x y s = Inr t \<Longrightarrow> listing_lookups t = listing_lookups s"
  by (auto simp: settle_local_run_credits_def split: option.splits if_splits)

lemma run_steps:
  assumes inv: "db_inv s"
  shows "enqueue_run destination format_viewport endpoint l radius expected s = Inr (i, t) \<Longrightarrow> db_step {} s t"
    and "start_local_visibility_run i s = Some t \<Longrightarrow> db_step {} s t"
    and "finish_maps_run i s = Inr t \<Longrightarrow> db_step {} s t"
proof -
  show "db_step {} s t" if "enqueue_run destination format_viewport endpoint l radius expected s = Inr (i, t)"
    using db_inv_enqueue [OF inv that] follow_enqueue [OF inv that] lookups_same [OF enqueue_lookups [OF that]] by (simp add: db_step_def)
  show "db_step {} s t" if t: "start_local_visibility_run i s = Some t"
  proof -
    have "listing_lookups t = listing_lookups s" using t by (auto simp: start_local_visibility_run_def split: option.splits if_splits)
    then show ?thesis using db_inv_start_run [OF inv t] follow_start_run [OF t] lookups_same by (simp add: db_step_def)
  qed
  show "db_step {} s t" if t: "finish_maps_run i s = Inr t"
  proof -
    obtain r where r: "find_maps_run i s = Some r" using t by (auto simp: finish_maps_run_def split: option.splits)
    have "listing_lookups t = listing_lookups s"
      by (rule finish_maps_run_cases [OF inv r]) (use t settle_both_frame(2) in auto)
    then show ?thesis using db_inv_finish [OF inv t] follow_finish [OF inv t] lookups_same by (simp add: db_step_def)
  qed
qed

lemma cell_steps:
  assumes y: "spend_inv y"
  shows "i \<in> SsExecutors y \<Longrightarrow> start_local_run_cell i q p (SsDb y) = Some t \<Longrightarrow> db_step {} (SsDb y) t"
    and "(i, q, p) \<in> SsCalls y \<Longrightarrow> record_cell_outcome i q p oc (SsDb y) = Inr t \<Longrightarrow> db_step {(i, q, p)} (SsDb y) t"
proof -
  have inv: "db_inv (SsDb y)" using y by (simp add: spend_inv_def)
  show "db_step {} (SsDb y) t" if t: "i \<in> SsExecutors y" "start_local_run_cell i q p (SsDb y) = Some t"
  proof -
    have "MrStatus r \<noteq> RunQueued" if "find_maps_run i (SsDb y) = Some r" for r
      using y t(1) that by (auto simp: spend_inv_def executors_ok_def)
    note i = db_inv_start_cell [OF inv t(2) this]
    have "listing_lookups t = listing_lookups (SsDb y)" using start_local_run_cell_run [OF t(2)] by (metis update_maps_run_fields(1))
    then show ?thesis using i follow_start_cell [OF t(2)] lookups_same by (simp add: db_step_def)
  qed
  show "db_step {(i, q, p)} (SsDb y) t" if t: "(i, q, p) \<in> SsCalls y" "record_cell_outcome i q p oc (SsDb y) = Inr t"
  proof -
    have "CellStarted c" if "find_maps_run i (SsDb y) = Some r" "find (is_cell q p) (MrCells r) = Some c" for r c
      using y t(1) that by (fastforce simp: spend_inv_def calls_ok_def)
    note i = db_inv_record_cell [OF inv t(2) this]
    have "listing_lookups t = listing_lookups (SsDb y)"
      using record_cell_outcome_run [OF t(2)] settle_both_frame(2) by (metis update_maps_run_fields(1))
    then show ?thesis using i follow_record [OF t(2)] lookups_same by (simp add: db_step_def)
  qed
qed

lemma budget_steps:
  assumes inv: "db_inv s"
  shows "admin_put_platform_maps_budget remaining expected s = Inr t \<Longrightarrow> db_step {} s t"
    and "admin_put_maps_budget known org remaining expected s = Inr t \<Longrightarrow> db_step {} s t"
    and "delete_location l s = Inr t \<Longrightarrow> db_step {} s t"
    and "db_step {} s (s\<lparr>spend_locations := g\<rparr>)"
proof -
  show "db_step {} s t" if t: "admin_put_platform_maps_budget remaining expected s = Inr t"
  proof -
    have "maps_runs t = maps_runs s" "listing_lookups t = listing_lookups s"
      using t by (auto simp: admin_put_platform_maps_budget_def update_platform_maps_credit_budget_def split: option.split_asm if_split_asm)
    then show ?thesis using db_inv_admin_platform [OF inv t] follow_same lookups_same by (simp add: db_step_def)
  qed
  show "db_step {} s t" if t: "admin_put_maps_budget known org remaining expected s = Inr t"
  proof -
    have "maps_runs t = maps_runs s" "listing_lookups t = listing_lookups s"
      using t unfolding admin_put_maps_budget_def update_organization_maps_credit_budget_def
      by (cases "organization_budgets s org"; auto split: option.split_asm if_split_asm)+
    then show ?thesis using db_inv_admin_organization [OF inv t] follow_same lookups_same by (simp add: db_step_def)
  qed
  show "db_step {} s t" if t: "delete_location l s = Inr t"
    using db_inv_delete_location [OF inv t] follow_delete [OF inv t] lookups_delete [OF inv t] by (simp add: db_step_def)
  have "db_inv (s\<lparr>spend_locations := g\<rparr>)" by (rule db_inv_budgets [OF inv]) (use inv in \<open>simp_all add: db_inv_def balanced_def\<close>)
  then show "db_step {} s (s\<lparr>spend_locations := g\<rparr>)" by (simp add: db_step_def follow_same lookups_same)
qed

lemma lookup_steps:
  assumes y: "spend_inv y"
  shows "reserve_listing_lookup l sel (SsDb y) = Inr (k, created, t) \<Longrightarrow> db_step {} (SsDb y) t"
    and "start_places_listing_lookup l sel (SsDb y) = Inr (k, created, t) \<Longrightarrow> db_step {} (SsDb y) t"
    and "i \<in> SsLookups y \<Longrightarrow> record_listing_lookup i response err (SsDb y) = Inr (k, t) \<Longrightarrow> db_step {} (SsDb y) t"
    and "record_places_listing_lookup i response err (SsDb y) = Inr (k, t) \<Longrightarrow> db_step {} (SsDb y) t"
proof -
  have inv: "db_inv (SsDb y)" using y by (simp add: spend_inv_def)
  show "db_step {} (SsDb y) t" if t: "reserve_listing_lookup l sel (SsDb y) = Inr (k, created, t)"
    using db_inv_reserve_lookup(1,3) [OF inv t] lookups_reserve [OF t] by (simp add: db_step_def follow_same)
  show "db_step {} (SsDb y) t" if t: "start_places_listing_lookup l sel (SsDb y) = Inr (k, created, t)"
    using db_inv_start_places [OF inv t] lookups_start_places [OF t] by (simp add: db_step_def follow_same)
  show "db_step {} (SsDb y) t" if t: "i \<in> SsLookups y" "record_listing_lookup i response err (SsDb y) = Inr (k, t)"
  proof -
    have "LkExpected k \<noteq> 0" if "find_lookup i (SsDb y) = Some k" for k
      using y t(1) that by (auto simp: spend_inv_def paid_ok_def)
    then show ?thesis using db_inv_record_lookup [OF inv t(2)] lookups_record [OF t(2)] by (simp add: db_step_def follow_same)
  qed
  show "db_step {} (SsDb y) t" if t: "record_places_listing_lookup i response err (SsDb y) = Inr (k, t)"
    using db_inv_record_places [OF inv t] lookups_places [OF t] by (simp add: db_step_def follow_same)
qed

lemma perform_db_step:
  assumes y: "spend_inv y" and z: "spend_perform a y = Some z"
  shows "db_step (recorded_calls a) (SsDb y) (SsDb z)"
proof -
  have inv: "db_inv (SsDb y)" using y by (simp add: spend_inv_def)
  have "db_step {} (SsDb y) (SsDb y)" using inv by (simp add: db_step_def follow_same lookups_same)
  then show ?thesis using z run_steps [OF inv] cell_steps [OF y] budget_steps [OF inv] lookup_steps [OF y]
    by (cases a) (auto split: if_splits option.splits)
qed

lemma perform_spend_inv:
  assumes y: "spend_inv y" and z: "spend_perform a y = Some z"
  shows "spend_inv z"
proof -
  note step = perform_db_step [OF y z]
  have other: ?thesis if "SsExecutors z \<subseteq> SsExecutors y" "SsCalls z \<subseteq> SsCalls y" "SsCalls z \<inter> recorded_calls a = {}" "SsLookups z \<subseteq> SsLookups y"
    by (rule spend_inv_step [OF y step that])
  note inv = y [unfolded spend_inv_def]
  have keep: "spend_inv (z\<lparr>SsExecutors := SsExecutors y, SsCalls := SsCalls y, SsLookups := SsLookups y\<rparr>)" if "recorded_calls a = {}"
    by (rule spend_inv_step [OF y, where X = "{}"]) (use step that in simp_all)
  show ?thesis
  proof (cases a)
    case (StartRun i)
    then obtain t where t: "start_local_visibility_run i (SsDb y) = Some t" "z = y\<lparr>SsDb := t, SsExecutors := insert i (SsExecutors y)\<rparr>"
      using z by auto
    obtain r where r: "find_maps_run i (SsDb y) = Some r" and u: "t = update_maps_run i (\<lambda>r. r\<lparr>MrStatus := RunRunning\<rparr>) (SsDb y)"
      using t(1) by (auto simp: start_local_visibility_run_def split: option.splits if_splits)
    have "i < next_row t" using find_maps_runD [OF r] inv by (auto simp: db_inv_def rows_ok_alt u)
    then have "executors_ok t {i}" using r by (simp add: executors_ok_def u find_update_maps_run)
    then show ?thesis using keep StartRun t(2) by (auto simp: spend_inv_def executors_ok_def)
  next
    case (StartCell i q p)
    then obtain t where t: "start_local_run_cell i q p (SsDb y) = Some t" "z = y\<lparr>SsDb := t, SsCalls := insert (i, q, p) (SsCalls y)\<rparr>"
      using z by (auto split: if_splits)
    obtain r c where r: "find_maps_run i (SsDb y) = Some r" and c: "find (is_cell q p) (MrCells r) = Some c" "CellOutcome c = None"
      and u: "t = update_maps_run i (update_cell q p (\<lambda>c. c\<lparr>CellStarted := True\<rparr>)) (SsDb y)"
      using start_local_run_cell_run [OF t(1)] by metis
    have "i < next_row t" using find_maps_runD [OF r] inv by (auto simp: db_inv_def rows_ok_alt u)
    then have "calls_ok t {(i, q, p)}" using r c by (simp add: calls_ok_def u find_update_maps_run find_set_cell)
    then show ?thesis using keep StartCell t(2) by (auto simp: spend_inv_def calls_ok_def)
  next
    case (ReserveLookup l sel)
    then obtain k created t where t: "reserve_listing_lookup l sel (SsDb y) = Inr (k, created, t)"
      "z = y\<lparr>SsDb := t, SsLookups := (if created then insert (LkID k) (SsLookups y) else SsLookups y)\<rparr>"
      using z by auto
    have d: "db_inv (SsDb y)" using inv by simp
    note row = db_inv_reserve_lookup [OF d t(1)]
    have "paid_ok t {LkID k}" if created
    proof -
      have "find_lookup (LkID k) t = Some k" using row(1,5) that find_lookupI by (simp add: db_inv_def)
      then show ?thesis using row(4,5) that by (auto simp: paid_ok_def listingLookupCredits_def)
    qed
    then show ?thesis using keep ReserveLookup t(2) by (auto simp: spend_inv_def paid_ok_def)
  qed (use z other in \<open>auto split: if_splits option.splits\<close>)
qed

lemma spend_initial_inv: "spend_inv spend_initial"
  by (simp add: spend_inv_def spend_initial_def db_inv_parts holders_def balanced_def covers_def executors_ok_def calls_ok_def paid_ok_def)

lemma reachable_spend_inv: "spend_reachable y \<Longrightarrow> spend_inv y"
  by (induction rule: spend_reachable.induct) (auto intro: spend_initial_inv perform_spend_inv)

end
