(* ===== verification/MapsExecution.thy ===== *)
theory MapsExecution
  imports MapsReachable
begin

text \<open>What enqueueing freezes always validates, and an execution is a run of the system's actions.\<close>

section \<open>The frozen snapshot\<close>

lemma validated_queries:
  "validate_editable_map_queries_from seen qs = Inr rs \<Longrightarrow> validate_snapshot_queries seen rs = None \<and> length rs = length qs"
proof (induction qs arbitrary: seen rs)
  case (Cons q qs)
  then show ?case by (auto simp: Let_def split: if_split_asm)
qed simp

lemma validated_points:
  assumes "format_viewports fv ps = Inr vs" "distinct (map PointIndex ps)" "seen \<inter> PointIndex ` set ps = {}"
    "\<forall>p \<in> set ps. 0 \<le> PointIndex p \<and> PointIndex p < gridPointCount \<and> PointRing p \<in> localRunRings \<and> PointSector p \<in> localRunSectors"
  shows "validate_snapshot_points fv seen (zip ps vs) = None \<and> length vs = length ps"
  using assms
proof (induction ps arbitrary: seen vs)
  case (Cons p ps)
  then obtain w ws where v: "vs = w # ws" "fv (PointLatitude p) (PointLongitude p) = Inr w" "format_viewports fv ps = Inr ws" by auto
  have "validate_snapshot_points fv (insert (PointIndex p) seen) (zip ps ws) = None \<and> length ws = length ps"
    by (rule Cons.IH [OF v(3)]) (use Cons.prems in auto)
  then show ?case using Cons.prems v by auto
qed simp

lemma upto_three: "[0..<3] = [0, 1, 2 :: nat]"
  by (simp add: upt_rec)

lemma grid_points:
  assumes "build_geo_grid destination latitude longitude radius = Inr points"
  shows "length points = 9" "distinct (map PointIndex points)"
    "\<forall>p \<in> set points. 0 \<le> PointIndex p \<and> PointIndex p < gridPointCount \<and> PointRing p \<in> localRunRings \<and> PointSector p \<in> localRunSectors"
proof -
  have points: "points = concat (map (\<lambda>row. map (grid_point_at destination latitude longitude radius row) [0..<3]) [0..<3])"
    using assms by (auto simp: build_geo_grid_def split: if_split_asm)
  have index: "PointIndex (grid_point_at destination latitude longitude radius row col) = int (row * 3 + col)" for row col
    by (simp add: grid_point_at_def Let_def split: prod.split)
  show "length points = 9" by (simp add: points upto_three)
  show "distinct (map PointIndex points)" by (simp add: points upto_three index)
  show "\<forall>p \<in> set points. 0 \<le> PointIndex p \<and> PointIndex p < gridPointCount \<and> PointRing p \<in> localRunRings \<and> PointSector p \<in> localRunSectors"
    unfolding points upto_three
    by (simp add: index gridPointCount_def) (simp add: grid_point_at_def grid_sectors_def localRunRings_def localRunSectors_def split: prod.split)
qed

lemma enqueue_run_row:
  assumes "enqueue_run destination fv endpoint l radius expected s = Inr (i, t)"
  obtains loc place queries points viewports n r u where
    "spend_locations s l = Some loc" "SlPlaceID loc = Some place" "trim_space place \<noteq> []"
    "validate_map_queries (map fst (filter snd (SlQueries loc))) = Inr queries"
    "build_geo_grid destination (SlLatitude loc) (SlLongitude loc) radius = Inr points"
    "expected_run_credits (int (length queries)) (int (length points)) = Inr n" "n = expected" "n \<le> maxRunCredits"
    "format_viewports fv points = Inr viewports" "reserve_both n (SlOrg loc) s = Inr u"
    "maps_runs t = maps_runs s @ [r]" "MrID r = next_row s" "i = next_row s" "MrSnapshot r = freeze_snapshot endpoint queries place points viewports"
    "MrExpected r = n" "MrStatus r = RunQueued" "MrProject r = SlProject loc" "MrOrg r = SlOrg loc" "MrLocation r = l"
    "MrReserved r = n" "MrUsed r = 0" "MrCells r = create_local_run_cells (length queries) (length points)"
proof -
  from assms obtain loc place queries points viewports n u where
    a: "spend_locations s l = Some loc" "SlPlaceID loc = Some place" "trim_space place \<noteq> []"
    "validate_map_queries (map fst (filter snd (SlQueries loc))) = Inr queries"
    "build_geo_grid destination (SlLatitude loc) (SlLongitude loc) radius = Inr points"
    "expected_run_credits (int (length queries)) (int (length points)) = Inr n" "n = expected" "n \<le> maxRunCredits"
    "format_viewports fv points = Inr viewports" and u: "reserve_both n (SlOrg loc) s = Inr u"
    and c: "create_maps_run l loc radius (freeze_snapshot endpoint queries place points viewports) n u = Inr (i, t)"
    unfolding enqueue_run_def by (auto split: option.split_asm sum.split_asm if_split_asm)
  note fr = reserve_both_frame [OF u]
  let ?r = "last (maps_runs t)"
  show ?thesis
    by (rule that [OF a u, of ?r]) (use c fr in \<open>auto simp: create_maps_run_def freeze_snapshot_def split: if_split_asm\<close>)
qed

lemma frozen_snapshot_validates:
  assumes t: "enqueue_run destination fv endpoint l radius expected s = Inr (i, t)" and e: "endpoint \<noteq> []"
    and inv: "db_inv s"
  shows "\<exists>r. find_maps_run i t = Some r \<and> MrStatus r = RunQueued \<and> MrReserved r = expected \<and> MrUsed r = 0
    \<and> validate_local_run_snapshot fv (MrSnapshot r) (MrExpected r) = None"
proof (rule enqueue_run_row [OF t])
  fix loc place queries points viewports n r
  assume q: "validate_map_queries (map fst (filter snd (SlQueries loc))) = Inr queries"
    and p: "build_geo_grid destination (SlLatitude loc) (SlLongitude loc) radius = Inr points"
    and n: "expected_run_credits (int (length queries)) (int (length points)) = Inr n" "n = expected"
    and v: "format_viewports fv points = Inr viewports"
    and r: "maps_runs t = maps_runs s @ [r]" "MrID r = next_row s" "i = next_row s"
      "MrSnapshot r = freeze_snapshot endpoint queries place points viewports" "MrExpected r = n" "MrStatus r = RunQueued"
      "MrReserved r = n" "MrUsed r = 0"
  note g = grid_points [OF p]
  have "validate_snapshot_queries {} queries = None"
    using q validated_queries by (auto simp: validate_map_queries_def validate_editable_map_queries_def split: if_split_asm)
  moreover have "validate_snapshot_points fv {} (zip points viewports) = None \<and> length viewports = length points"
    by (rule validated_points [OF v g(2) _ g(3)]) simp
  moreover have "1 \<le> length queries" "int (length queries) \<le> maxMapQueries"
    using n by (auto simp: expected_run_credits_def Suc_le_eq split: if_split_asm)
  ultimately have "validate_local_run_snapshot fv (MrSnapshot r) (MrExpected r) = None"
    using g(1) n e by (cases queries) (simp_all add: validate_local_run_snapshot_def r(4,5) freeze_snapshot_def gridPointCount_def)
  moreover have "find_maps_run i t = Some r"
  proof -
    have "db_inv t" by (rule db_inv_enqueue [OF inv t])
    then show ?thesis using find_maps_runI [of t r] r(1-3) by (simp add: db_inv_def)
  qed
  ultimately show ?thesis using r n by blast
qed

section \<open>Execution\<close>

text \<open>The position of an executor: it runs \<open>i\<close>, whose frozen target is known to it.\<close>

definition executing :: "nat \<Rightarrow> string \<Rightarrow> spend_system \<Rightarrow> bool" where
  "executing i target y =
     (spend_reachable y \<and> i \<in> SsExecutors y
      \<and> (\<exists>r. find_maps_run i (SsDb y) = Some r \<and> SnapTargetPlaceID (MrSnapshot r) = target))"

lemma executing_step:
  assumes y: "executing i target y" and z: "spend_perform a y = Some z" and e: "SsExecutors z = SsExecutors y"
    and present: "find_maps_run i (SsDb z) \<noteq> None"
  shows "executing i target z"
proof -
  have inv: "spend_inv y" using y reachable_spend_inv by (simp add: executing_def)
  obtain r' where r': "find_maps_run i (SsDb z) = Some r'" using present by blast
  have "i < next_row (SsDb y)" using y inv by (auto simp: executing_def spend_inv_def executors_ok_def)
  then obtain r where r: "find_maps_run i (SsDb y) = Some r" "run_follows (recorded_calls a) i r r'"
    using perform_db_step [OF inv z] r' by (auto simp: db_step_def runs_follow_def)
  then show ?thesis using y r' e spend_step [OF _ z] by (auto simp: executing_def run_follows_def)
qed

text \<open>
  The actions of an executor on the cells it was given: it takes them in order, passes over some,
  starts the others and records each with the provider's answer. It may stop after any of them, or
  before the last one it started is recorded.
\<close>

inductive cell_actions ::
    "nat \<Rightarrow> (string \<Rightarrow> grid_point \<Rightarrow> maps_response \<times> string option) \<Rightarrow> ((nat \<times> string) \<times> nat \<times> grid_point) list
      \<Rightarrow> spend_action list \<Rightarrow> bool" for i provider where
  cells_end: "cell_actions i provider cells []"
| cells_pass: "cell_actions i provider cells as \<Longrightarrow> cell_actions i provider (cell # cells) as"
| cells_call: "cell_actions i provider cells as \<Longrightarrow> provider query point = (response, err) \<Longrightarrow>
    cell_actions i provider (((q, query), (p, point)) # cells) (StartCell i q p # RecordCell i q p response err # as)"
| cells_lost: "cell_actions i provider (((q, query), (p, point)) # cells) [StartCell i q p]"

lemma execute_cells_steps:
  assumes "executing i target y"
  shows "\<exists>as z. cell_actions i provider cells as \<and> spend_run as y = Some z \<and> executing i target z
    \<and> SsDb z = snd (execute_cells provider cancelled i target cells (SsDb y))"
  using assms
proof (induction cells arbitrary: y)
  case (Cons cell cells)
  obtain q query p point where cell: "cell = ((q, query), (p, point))" by (metis prod.exhaust)
  show ?case
  proof (cases "cancelled False (q, p)")
    case True
    then show ?thesis using Cons.prems cell by (intro exI [of _ "[]"] exI [of _ y]) (auto intro: cells_end)
  next
    case live: False
    show ?thesis
    proof (cases "start_local_run_cell i q p (SsDb y)")
      case None
      then show ?thesis using Cons.IH [OF Cons.prems] live cell by (auto intro: cells_pass)
    next
      case (Some s1)
      define u where "u = y\<lparr>SsDb := s1, SsCalls := insert (i, q, p) (SsCalls y)\<rparr>"
      have pu: "spend_perform (StartCell i q p) y = Some u" using Cons.prems Some by (simp add: executing_def u_def)
      obtain r c where r: "find_maps_run i (SsDb y) = Some r"
        and s1: "s1 = update_maps_run i (update_cell q p (\<lambda>c. c\<lparr>CellStarted := True\<rparr>)) (SsDb y)"
        using start_local_run_cell_run [OF Some] by metis
      have eu: "executing i target u" by (rule executing_step [OF Cons.prems pu]) (simp_all add: u_def s1 find_update_maps_run r)
      then have target: "run_target i s1 = target" by (auto simp: executing_def u_def run_target_def)
      obtain response err where pr: "provider query point = (response, err)" by fastforce
      let ?oc = "local_cell_outcome target response err"
      show ?thesis
      proof (cases "record_cell_outcome i q p ?oc s1")
        case (Inl e)
        then have "SsDb u = snd (execute_cells provider cancelled i target (cell # cells) (SsDb y))"
          using live Some cell pr by (simp add: u_def Let_def)
        then show ?thesis using eu pu cell by (intro exI [of _ "[StartCell i q p]"] exI [of _ u]) (auto intro: cells_lost)
      next
        case (Inr s2)
        define v where "v = u\<lparr>SsDb := s2, SsCalls := SsCalls u - {(i, q, p)}\<rparr>"
        have pv: "spend_perform (RecordCell i q p response err) u = Some v" using Inr target by (simp add: u_def v_def)
        have "find_maps_run i s2 \<noteq> None"
        proof (rule record_cell_outcome_run [OF Inr])
          fix r' w assume "find_maps_run i s1 = Some r'" "s2 = update_maps_run i (recorded_run q p ?oc) w"
            "settle_both (if CoCreditKnown ?oc then mapsCreditsPerCall else 0) (CoCredits ?oc) (MrOrg r') s1 = Inr w"
          then show ?thesis using settle_both_frame(1) by (simp add: find_update_maps_run) (simp add: find_maps_run_def)
        qed
        then have ev: "executing i target v" by (intro executing_step [OF eu pv]) (simp_all add: v_def)
        have vb: "SsDb v = s2" by (simp add: v_def)
        show ?thesis
        proof (cases "cancelled True (q, p) \<or> CoCreditKnown ?oc \<and> CoCredits ?oc \<noteq> mapsCreditsPerCall")
          case True
          then have "SsDb v = snd (execute_cells provider cancelled i target (cell # cells) (SsDb y))"
            using live Some cell pr Inr vb by (auto simp: Let_def)
          moreover have "cell_actions i provider (cell # cells) [StartCell i q p, RecordCell i q p response err]"
            unfolding cell by (intro cells_call cells_end pr)
          ultimately show ?thesis using ev pu pv
            by (intro exI [of _ "[StartCell i q p, RecordCell i q p response err]"] exI [of _ v]) simp
        next
          case False
          then have "execute_cells provider cancelled i target (cell # cells) (SsDb y)
              = execute_cells provider cancelled i target cells (SsDb v)"
            using live Some cell pr Inr vb by (auto simp: Let_def)
          moreover obtain as z where az: "cell_actions i provider cells as" "spend_run as v = Some z" "executing i target z"
            "SsDb z = snd (execute_cells provider cancelled i target cells (SsDb v))"
            using Cons.IH [OF ev] by blast
          moreover have "cell_actions i provider (cell # cells) (StartCell i q p # RecordCell i q p response err # as)"
            unfolding cell by (rule cells_call [OF az(1) pr])
          ultimately show ?thesis using pu pv
            by (intro exI [of _ "StartCell i q p # RecordCell i q p response err # as"] exI [of _ z]) simp
        qed
      qed
    qed
  qed
qed (auto intro: exI [of _ "[]"] cells_end)

lemma finish_maps_run_settled:
  assumes inv: "db_inv s" and r: "find_maps_run i s = Some r"
  obtains t where "finish_maps_run i s = Inr t" "find_maps_run i t = Some (if maps_run_active r then finished_run r else r)"
proof (rule finish_maps_run_cases [OF inv r])
  fix w assume a: "maps_run_active r"
    and w: "settle_both (int (SumUnstarted (summarize_run_outcome (MrCells r) (MrReserved r))) * mapsCreditsPerCall) 0 (MrOrg r) s = Inr w"
    and f: "finish_maps_run i s = Inr (update_maps_run i finished_run w)"
  have "find_maps_run i w = Some r" using r settle_both_frame(1) [OF w] by (simp add: find_maps_run_def)
  then show ?thesis using that f a by (simp add: find_update_maps_run)
qed (use that r in simp)

text \<open>An execution that starts is a run of these actions and ends with its run settled.\<close>

lemma execute_run_outcome:
  assumes y: "spend_reachable y" and x: "execute_local_visibility_run fv provider cancelled i project (SsDb y) = (err, t)"
  shows "(t = SsDb y \<and> err \<noteq> None) \<or>
    (\<exists>r0 as z r. find_maps_run i (SsDb y) = Some r0 \<and> cell_actions i provider (snapshot_cells (MrSnapshot r0)) as
      \<and> spend_run (StartRun i # as @ [FinishRun i]) y = Some z \<and> SsDb z = t \<and> find_maps_run i t = Some r
      \<and> \<not> maps_run_active r \<and> (err = None \<longrightarrow> MrStatus r = RunCompleted))"
proof (cases "start_local_visibility_run i (SsDb y)")
  case None
  then have "t = SsDb y \<and> err \<noteq> None" using x unfolding execute_local_visibility_run_def
    by (auto split: option.split_asm if_split_asm dest: sym)
  then show ?thesis ..
next
  case (Some s1)
  obtain r where r: "find_maps_run i (SsDb y) = Some r"
    and s1: "s1 = update_maps_run i (\<lambda>r. r\<lparr>MrStatus := RunRunning\<rparr>) (SsDb y)"
    using Some by (auto simp: start_local_visibility_run_def split: option.split_asm if_split_asm)
  show ?thesis
  proof (cases "MrProject r \<noteq> project \<or> validate_local_run_snapshot fv (MrSnapshot r) (MrExpected r) \<noteq> None")
    case True
    then have "t = SsDb y \<and> err \<noteq> None"
      using x r unfolding execute_local_visibility_run_def by (auto split: option.split_asm if_split_asm dest: sym)
    then show ?thesis ..
  next
    case False
    let ?target = "SnapTargetPlaceID (MrSnapshot r)"
    define u where "u = y\<lparr>SsDb := s1, SsExecutors := insert i (SsExecutors y)\<rparr>"
    have pu: "spend_perform (StartRun i) y = Some u" using Some by (simp add: u_def)
    then have "spend_reachable u" by (rule spend_step [OF y])
    then have "executing i ?target u" by (simp add: executing_def) (simp add: u_def s1 find_update_maps_run r)
    then obtain as v where as: "cell_actions i provider (snapshot_cells (MrSnapshot r)) as" "spend_run as u = Some v"
      and v: "executing i ?target v"
      "SsDb v = snd (execute_cells provider cancelled i ?target (snapshot_cells (MrSnapshot r)) s1)"
      using execute_cells_steps [of i ?target u] unfolding u_def by fastforce
    obtain execErr where cells: "execute_cells provider cancelled i ?target (snapshot_cells (MrSnapshot r)) s1 = (execErr, SsDb v)"
      using v(2) by (metis prod.collapse)
    have inv: "db_inv (SsDb v)" using v(1) reachable_spend_inv by (simp add: executing_def spend_inv_def)
    obtain rv where rv: "find_maps_run i (SsDb v) = Some rv" using v(1) by (auto simp: executing_def)
    obtain s3 r3 where f: "finish_maps_run i (SsDb v) = Inr s3" "find_maps_run i s3 = Some r3" "\<not> maps_run_active r3"
      using finish_maps_run_settled [OF inv rv] run_ok_finished(2) [OF in_runs_ok [OF inv rv]] by metis
    have "spend_run (StartRun i # as @ [FinishRun i]) y = Some (v\<lparr>SsDb := s3\<rparr>)"
      using as(2) f(1) Some by (simp add: spend_run_append u_def)
    moreover have "t = s3 \<and> (err = None \<longrightarrow> MrStatus r3 = RunCompleted)"
      using x r False Some cells f unfolding execute_local_visibility_run_def
      by (auto split: option.split_asm if_split_asm)
    ultimately show ?thesis using r as(1) f(2,3)
      by (intro disjI2 exI [of _ r] exI [of _ as] exI [of _ "v\<lparr>SsDb := s3\<rparr>"] exI [of _ r3]) auto
  qed
qed

end
