(* ===== verification/MapsCompletion.thy ===== *)
theory MapsCompletion
  imports MapsExecution
begin

text \<open>A recorded call is never refused, and a run whose calls all succeed completes at its quoted price.\<close>

section \<open>Recording is accepted\<close>

lemma record_accepted:
  assumes inv: "db_inv s" and r: "find_maps_run i s = Some r" "MrStatus r = RunRunning"
    and c: "find (is_cell q p) (MrCells r) = Some c" "CellStarted c" "CellOutcome c = None"
    and oc: "outcome_allowed oc" "MrUsed r + CoCredits oc \<le> maxRunCredits"
  obtains u where "record_cell_outcome i q p oc s = Inr (update_maps_run i (recorded_run q p oc) u)" "maps_runs u = maps_runs s"
proof -
  let ?x = "if CoCreditKnown oc then mapsCreditsPerCall else 0"
  have pos: "0 \<le> CoCredits oc" using oc(1) by (simp add: outcome_allowed_def)
  have x: "?x \<le> MrReserved r" by (rule run_ok_recorded(2) [OF in_runs_ok [OF inv r(1)] c r(2) pos oc(2)])
  obtain u where u: "settle_both ?x (CoCredits oc) (MrOrg r) s = Inr u" by (rule settle_possible [OF inv r(1) x pos])
  have ru: "find_maps_run i u = Some r" using r(1) settle_both_frame(1) [OF u] by (simp add: find_maps_run_def)
  let ?v = "update_maps_run i (update_cell q p (\<lambda>c. c\<lparr>CellOutcome := Some oc\<rparr>)) u"
  have v: "insert_local_visibility_result i q p oc u = Inr ?v"
    using ru c(1,3) oc(1) by (simp add: insert_local_visibility_result_def)
  have "settle_local_run_credits i ?x (CoCredits oc) ?v = Inr (update_maps_run i (recorded_run q p oc) u)"
    using ru x oc(2) pos run_not_negative [OF inv r(1)] by (simp add: settle_after_insert recorded_run_def [abs_def])
  then have "record_cell_outcome i q p oc s = Inr (update_maps_run i (recorded_run q p oc) u)"
    unfolding record_cell_outcome_def using pos by (simp add: r u v Let_def)
  then show ?thesis using that settle_both_frame(1) [OF u] by blast
qed

lemma credits_int32_id: "- (2 ^ 31) \<le> n \<Longrightarrow> n \<le> maxRunCredits \<Longrightarrow> credits_int32 n = n"
  unfolding credits_int32_def maxRunCredits_def by (rule signed_take_bit_int_eq_self) simp_all

definition rank_step :: "string \<Rightarrow> int \<Rightarrow> string \<times> int \<Rightarrow> int" where
  "rank_step target best = (\<lambda>(place, position).
     if place \<noteq> target \<or> position \<le> 0 then best else if best = 0 \<or> position < best then position else best)"

lemma rank_from:
  "0 \<le> best \<Longrightarrow> best \<le> m \<Longrightarrow> \<forall>x \<in> set places. snd x \<le> m \<Longrightarrow>
    0 \<le> foldl (rank_step target) best places \<and> foldl (rank_step target) best places \<le> m"
proof (induction places arbitrary: best)
  case (Cons x places)
  obtain place position where x: "x = (place, position)" by fastforce
  have "0 \<le> rank_step target best x" "rank_step target best x \<le> m"
    using Cons.prems by (auto simp: x rank_step_def)
  then show ?case using Cons.IH [of "rank_step target best x"] Cons.prems(3) by simp
qed simp

lemma resolved_rank:
  assumes "\<forall>x \<in> set places. snd x \<le> maxRunCredits"
  shows "0 \<le> fst (resolve_local_place_rank places target)" "fst (resolve_local_place_rank places target) \<le> maxRunCredits"
    "snd (resolve_local_place_rank places target) \<longleftrightarrow> fst (resolve_local_place_rank places target) > 0"
proof -
  have eq: "resolve_local_place_rank places target =
    (if target = [] then (0, False) else (foldl (rank_step target) 0 places, foldl (rank_step target) 0 places > 0))"
    by (simp add: resolve_local_place_rank_def rank_step_def [abs_def] Let_def)
  show "0 \<le> fst (resolve_local_place_rank places target)" "fst (resolve_local_place_rank places target) \<le> maxRunCredits"
    "snd (resolve_local_place_rank places target) \<longleftrightarrow> fst (resolve_local_place_rank places target) > 0"
    using rank_from [of 0 maxRunCredits places target] assms by (auto simp: eq maxRunCredits_def)
qed

definition response_in_range :: "maps_response \<Rightarrow> bool" where
  "response_in_range response =
     (RespCredits response \<le> maxRunCredits \<and> list_all (\<lambda>(place, position). position \<le> maxRunCredits) (RespPlaces response))"

lemma local_outcome_allowed:
  assumes "response_in_range response"
  shows "outcome_allowed (local_cell_outcome target response err)"
    "CoCredits (local_cell_outcome target response err) = (if RespCredits response > 0 then RespCredits response else 0)"
    "CoCreditKnown (local_cell_outcome target response err) = (RespCredits response > 0)"
proof -
  obtain rank found where rk: "resolve_local_place_rank (RespPlaces response) target = (rank, found)" by fastforce
  have "\<forall>x \<in> set (RespPlaces response). snd x \<le> maxRunCredits"
    using assms by (auto simp: response_in_range_def list_all_iff)
  note r = resolved_rank [of "RespPlaces response" target, OF this, unfolded rk fst_conv snd_conv]
  have c: "RespCredits response > 0 \<Longrightarrow> credits_int32 (RespCredits response) = RespCredits response"
    using assms by (intro credits_int32_id) (simp_all add: response_in_range_def)
  have k: "credits_int32 rank = rank" using r(1,2) by (intro credits_int32_id) simp_all
  have o: "CoCredits (local_cell_outcome target response err) = (if RespCredits response > 0 then RespCredits response else 0)"
    "CoRank (local_cell_outcome target response err) = (if err = None \<and> found then Some rank else None)"
    "CoMatchStatus (local_cell_outcome target response err) = (if err \<noteq> None then MatchUnknown else if found then MatchFound else MatchAbsent)"
    "CoCallStatus (local_cell_outcome target response err) = RequestFailed \<longleftrightarrow> err \<noteq> None"
    "CoCreditKnown (local_cell_outcome target response err) = (RespCredits response > 0)"
    unfolding local_cell_outcome_def Let_def rk prod.case using c k by (simp_all split: option.split)
  show "outcome_allowed (local_cell_outcome target response err)"
    unfolding outcome_allowed_def o using r(3) by (simp split: option.split)
  show "CoCredits (local_cell_outcome target response err) = (if RespCredits response > 0 then RespCredits response else 0)"
    "CoCreditKnown (local_cell_outcome target response err) = (RespCredits response > 0)"
    by (fact o(1), fact o(5))
qed

section \<open>A run that goes well\<close>

definition cell_index :: "(nat \<times> string) \<times> nat \<times> grid_point \<Rightarrow> nat \<times> nat" where
  "cell_index x = (fst (fst x), fst (snd x))"

definition untouched :: "run_cell \<Rightarrow> bool" where
  "untouched c = (\<not> CellStarted c \<and> CellOutcome c = None)"

definition done_well :: "run_cell \<Rightarrow> bool" where
  "done_well c = (cell_successful c \<and> cell_credit_known c \<and> cell_credits c = mapsCreditsPerCall)"

definition run_ahead :: "(nat \<times> nat) list \<Rightarrow> maps_run \<Rightarrow> bool" where
  "run_ahead keys r =
     (MrStatus r = RunRunning \<and> distinct keys \<and> set keys \<subseteq> cell_key ` set (MrCells r)
      \<and> (\<forall>c \<in> set (MrCells r). if cell_key c \<in> set keys then untouched c else done_well c)
      \<and> MrUsed r + mapsCreditsPerCall * int (length keys) \<le> maxRunCredits)"

definition good_response :: "maps_response \<times> string option \<Rightarrow> bool" where
  "good_response x = (snd x = None \<and> RespCredits (fst x) = mapsCreditsPerCall \<and> response_in_range (fst x))"

lemma good_outcome:
  assumes "good_response (response, err)"
  shows "outcome_allowed (local_cell_outcome target response err)" "CoCredits (local_cell_outcome target response err) = mapsCreditsPerCall"
    "CoCreditKnown (local_cell_outcome target response err)" "CoCallStatus (local_cell_outcome target response err) \<noteq> RequestFailed"
proof -
  have "err = None" "RespCredits response = 3" "response_in_range response"
    using assms by (simp_all add: good_response_def mapsCreditsPerCall_def)
  then show "outcome_allowed (local_cell_outcome target response err)" "CoCredits (local_cell_outcome target response err) = mapsCreditsPerCall"
    "CoCreditKnown (local_cell_outcome target response err)" "CoCallStatus (local_cell_outcome target response err) \<noteq> RequestFailed"
    using local_outcome_allowed [of response target err] by (simp_all add: mapsCreditsPerCall_def)
      (simp add: local_cell_outcome_def Let_def split: prod.split)
qed

lemma cell_index_pair [simp]: "cell_index ((q, x), (p, y)) = (q, p)"
  by (simp add: cell_index_def)

text \<open>One cell is started and recorded.\<close>

lemma run_ahead_step:
  assumes inv: "db_inv s" and r: "find_maps_run i s = Some r" "run_ahead ((q, p) # keys) r"
    and g: "good_response (response, err)"
    and oc_def: "oc = local_cell_outcome target response err"
  obtains s1 s2 r2 where "start_local_run_cell i q p s = Some s1" "record_cell_outcome i q p oc s1 = Inr s2"
    "db_inv s2" "find_maps_run i s2 = Some r2" "run_ahead keys r2" "MrProject r2 = MrProject r" "MrSnapshot r2 = MrSnapshot r"
    "length (MrCells r2) = length (MrCells r)"
proof -
  let ?start = "\<lambda>c. c\<lparr>CellStarted := True\<rparr>" and ?out = "\<lambda>c. c\<lparr>CellOutcome := Some oc\<rparr>"
  have d: "distinct (map cell_key (MrCells r))" by (rule run_ok_distinct [OF in_runs_ok [OF inv r(1)]])
  obtain c where c: "c \<in> set (MrCells r)" "cell_key c = (q, p)" using r(2) by (auto simp: run_ahead_def)
  then have u: "\<not> CellStarted c" "CellOutcome c = None" using r(2) by (auto simp: run_ahead_def untouched_def)
  have fc: "find (is_cell q p) (MrCells r) = Some c" using find_cellI [OF d c(1)] c(2) by (simp add: is_cell_key)
  define s1 where "s1 = update_maps_run i (update_cell q p ?start) s"
  have s1: "start_local_run_cell i q p s = Some s1" using r(1) fc u by (simp add: start_local_run_cell_def s1_def)
  have st: "MrStatus r = RunRunning" using r(2) by (simp add: run_ahead_def)
  have inv1: "db_inv s1" by (rule db_inv_start_cell [OF inv s1]) (use r(1) st in simp)
  let ?r1 = "update_cell q p ?start r"
  have r1: "find_maps_run i s1 = Some ?r1" by (simp add: s1_def find_update_maps_run r(1))
  have c1: "find (is_cell q p) (MrCells ?r1) = Some (?start c)" by (simp add: find_set_cell fc)
  note oc = good_outcome [OF g, of target, folded oc_def]
  have range: "MrUsed ?r1 + CoCredits oc \<le> maxRunCredits"
    using r(2) oc(2) by (simp add: run_ahead_def mapsCreditsPerCall_def)
  obtain w where w: "record_cell_outcome i q p oc s1 = Inr (update_maps_run i (recorded_run q p oc) w)" "maps_runs w = maps_runs s1"
    by (rule record_accepted [OF inv1 r1 _ c1 _ _ oc(1) range]) (use st u in simp_all)
  let ?r2 = "recorded_run q p oc ?r1"
  have r2: "find_maps_run i (update_maps_run i (recorded_run q p oc) w) = Some ?r2"
    using r1 w(2) by (simp add: find_update_maps_run) (simp add: find_maps_run_def)
  have inv2: "db_inv (update_maps_run i (recorded_run q p oc) w)" by (rule db_inv_record_cell [OF inv1 w(1)]) (use r1 c1 in simp)
  have cells: "(if cell_key x \<in> set keys then untouched x else done_well x) \<and> (cell_key x = (q, p) \<or> x \<in> set (MrCells r))"
    if x: "x \<in> set (MrCells ?r2)" for x
  proof -
    obtain k where k: "k \<in> set (MrCells r)" "x = (if is_cell q p k then ?out (?start k) else k)"
      using x by (auto simp: set_cell_def is_cell_key split: if_split_asm)
    show ?thesis
    proof (cases "is_cell q p k")
      case True
      then have "cell_key x = (q, p)" "done_well x" using k oc
        by (simp_all add: is_cell_key done_well_def cell_successful_def cell_credit_known_def cell_credits_def)
      then show ?thesis using r(2) by (auto simp: run_ahead_def)
    next
      case False
      then show ?thesis using k r(2) by (auto simp: run_ahead_def is_cell_key)
    qed
  qed
  have "cell_key ` set (MrCells ?r2) = cell_key ` set (MrCells r)"
    by (simp flip: set_map)
  then have "run_ahead keys ?r2" using r(2) cells oc(2) by (auto simp: run_ahead_def mapsCreditsPerCall_def)
  then show ?thesis using that [OF s1 w(1) inv2 r2] by (simp add: update_cell_def set_cell_def)
qed

lemma execute_cells_well:
  assumes "db_inv s" "find_maps_run i s = Some r" "run_ahead (map cell_index cells) r"
    "\<forall>query point. good_response (provider query point)"
  shows "\<exists>t r'. execute_cells provider (\<lambda>_ _. False) i target cells s = (None, t) \<and> db_inv t
    \<and> find_maps_run i t = Some r' \<and> run_ahead [] r' \<and> MrProject r' = MrProject r \<and> MrSnapshot r' = MrSnapshot r
    \<and> length (MrCells r') = length (MrCells r)"
  using assms
proof (induction cells arbitrary: s r)
  case (Cons cell cells)
  obtain q query p point where cell: "cell = ((q, query), (p, point))" by (metis prod.exhaust)
  obtain response err where pr: "provider query point = (response, err)" by fastforce
  then have g: "good_response (response, err)" using Cons.prems(4) by metis
  obtain s1 s2 r2 where step: "start_local_run_cell i q p s = Some s1"
    "record_cell_outcome i q p (local_cell_outcome target response err) s1 = Inr s2"
    "db_inv s2" "find_maps_run i s2 = Some r2" "run_ahead (map cell_index cells) r2" "MrProject r2 = MrProject r" "MrSnapshot r2 = MrSnapshot r"
    "length (MrCells r2) = length (MrCells r)"
    by (rule run_ahead_step [OF Cons.prems(1,2) _ g refl, of q p "map cell_index cells" target]) (use Cons.prems(3) cell in simp_all)
  show ?case using Cons.IH [OF step(3-5) Cons.prems(4)] step(1,2,6-8) good_outcome [OF g, of target]
    by (simp add: cell pr Let_def)
qed auto

lemma snapshot_keys:
  "map cell_index (snapshot_cells snap) = map cell_key (create_local_run_cells (length (SnapQueries snap)) (length (SnapPoints snap)))"
proof -
  have p: "map cell_index (List.product xs ys) = concat (map (\<lambda>q. map (\<lambda>p. (q, p)) (map fst ys)) (map fst xs))"
    for xs :: "(nat \<times> string) list" and ys :: "(nat \<times> grid_point) list"
    by (simp add: product_concat_map map_concat comp_def cell_index_def)
  have f: "map fst (zip [0..<length zs] zs) = [0..<length zs]" for zs :: "'a list" by simp
  have "map cell_key (create_local_run_cells n m) = concat (map (\<lambda>q. map (\<lambda>p. (q, p)) [0..<m]) [0..<n])" for n m
    by (simp add: create_local_run_cells_def map_concat comp_def cell_key_def)
  then show ?thesis unfolding snapshot_cells_def p f by simp
qed

lemma created_untouched: "c \<in> set (create_local_run_cells n m) \<Longrightarrow> untouched c"
  by (auto simp: create_local_run_cells_def untouched_def)

lemma all_done_well:
  assumes "run_ok r" "run_ahead [] r"
  shows "MrStatus (finished_run r) = RunCompleted" "MrReserved (finished_run r) = 0" "MrUsed r = mapsCreditsPerCall * int (length (MrCells r))"
proof -
  have d: "\<forall>c \<in> set (MrCells r). done_well c" and a: "maps_run_active r" using assms(2) by (simp_all add: run_ahead_def maps_run_active_def)
  have "open_cells (MrCells r) = 0" using d by (simp add: open_cells_def count_cells_def done_well_def)
  then have z: "MrReserved r = 0" using assms(1) a by (simp add: run_ok_def)
  have "count_cells cell_successful (MrCells r) = length (MrCells r)" using d by (simp add: count_all done_well_def)
  then show "MrStatus (finished_run r) = RunCompleted"
    by (simp add: finished_run_def summarize_run_outcome_def Let_def z)
  have "\<forall>c \<in> set (MrCells r). CellStarted c" using assms(1) d
    by (fastforce simp: run_ok_def cell_ok_def done_well_def cell_successful_def split: option.splits)
  then have "count_cells (\<lambda>c. \<not> CellStarted c) (MrCells r) = 0" by (simp add: count_cells_def)
  then show "MrReserved (finished_run r) = 0" by (simp add: z summarize_run_outcome_def Let_def)
  have "\<forall>c \<in> set cs. done_well c \<Longrightarrow> sum_list (map cell_credits cs) = mapsCreditsPerCall * int (length cs)" for cs
    by (induction cs) (simp_all add: done_well_def algebra_simps)
  then show "MrUsed r = mapsCreditsPerCall * int (length (MrCells r))" using assms(1) d by (simp add: run_ok_def)
qed

lemma good_run_completes:
  assumes inv: "db_inv s" and e: "enqueue_run destination fv endpoint l radius expected s = Inr (i, t)" "endpoint \<noteq> []"
    and g: "\<forall>query point. good_response (provider query point)" and project: "map_option SlProject (spend_locations s l) = Some project"
  shows "\<exists>u r. execute_local_visibility_run fv provider (\<lambda>_ _. False) i project t = (None, u) \<and> find_maps_run i u = Some r
    \<and> MrStatus r = RunCompleted \<and> MrReserved r = 0 \<and> MrUsed r = expected"
proof (rule enqueue_run_row [OF e(1)])
  fix loc place queries points viewports n r0
  assume loc: "spend_locations s l = Some loc" and n: "expected_run_credits (int (length queries)) (int (length points)) = Inr n" "n = expected" "n \<le> maxRunCredits"
    and r0: "maps_runs t = maps_runs s @ [r0]" "MrID r0 = next_row s" "i = next_row s"
      "MrSnapshot r0 = freeze_snapshot endpoint queries place points viewports" "MrProject r0 = SlProject loc"
      "MrUsed r0 = 0" "MrCells r0 = create_local_run_cells (length queries) (length points)"
  have inv_t: "db_inv t" by (rule db_inv_enqueue [OF inv e(1)])
  obtain r where v: "find_maps_run i t = Some r" "MrStatus r = RunQueued" "validate_local_run_snapshot fv (MrSnapshot r) (MrExpected r) = None"
    using frozen_snapshot_validates [OF e inv] by blast
  have "find_maps_run i t = Some r0" using find_maps_runI [of t r0] inv_t r0(1-3) by (simp add: db_inv_def)
  then have same: "r = r0" using v(1) by simp
  define s1 where "s1 = update_maps_run i (\<lambda>r. r\<lparr>MrStatus := RunRunning\<rparr>) t"
  have start: "start_local_visibility_run i t = Some s1" using v(1,2) by (simp add: start_local_visibility_run_def s1_def)
  have r1: "find_maps_run i s1 = Some (r0\<lparr>MrStatus := RunRunning\<rparr>)" by (simp add: s1_def find_update_maps_run v(1) same)
  have cost: "n = mapsCreditsPerCall * int (length (MrCells r0))"
    using n(1) by (auto simp: expected_run_credits_def r0(7) create_local_run_cells_def length_concat comp_def sum_list_triv split: if_split_asm)
  have keys: "map cell_index (snapshot_cells (MrSnapshot r0)) = map cell_key (MrCells r0)"
    by (simp add: snapshot_keys r0(4,7) freeze_snapshot_def)
  have "distinct (map cell_key (MrCells r0))" by (rule run_ok_distinct [OF in_runs_ok [OF inv_t v(1), unfolded same]])
  then have ahead: "run_ahead (map cell_index (snapshot_cells (MrSnapshot r0))) (r0\<lparr>MrStatus := RunRunning\<rparr>)"
    using n(3) cost created_untouched r0(6,7) unfolding keys run_ahead_def by auto
  obtain s2 r2 where cells: "execute_cells provider (\<lambda>_ _. False) i (SnapTargetPlaceID (MrSnapshot r0)) (snapshot_cells (MrSnapshot r0)) s1 = (None, s2)"
    "db_inv s2" "find_maps_run i s2 = Some r2" "run_ahead [] r2" "length (MrCells r2) = length (MrCells (r0\<lparr>MrStatus := RunRunning\<rparr>))"
    using execute_cells_well [OF db_inv_start_run [OF inv_t start] r1 ahead g, of "SnapTargetPlaceID (MrSnapshot r0)"] by blast
  have a: "maps_run_active r2" using cells(4) by (simp add: run_ahead_def maps_run_active_def)
  obtain u where u: "finish_maps_run i s2 = Inr u" "find_maps_run i u = Some (finished_run r2)"
    using finish_maps_run_settled [OF cells(2,3)] a by metis
  note well = all_done_well [OF in_runs_ok [OF cells(2,3)] cells(4)]
  have "execute_local_visibility_run fv provider (\<lambda>_ _. False) i project t = (None, u)"
    using v start cells(1) u well(1) project loc r0(5) by (simp add: execute_local_visibility_run_def same)
  then show ?thesis using u(2) well cells(5) cost n(2) by auto
qed

end
