(* ===== verification/MapsProperties.thy ===== *)
theory MapsProperties
  imports MapsCompletion
begin

text \<open>The properties of Maps spending, with a concrete run of the system at which they apply.\<close>

section \<open>A sample\<close>

definition sample_destination :: destination where
  "sample_destination lat lon radius row col = (lat + of_nat row, lon + of_nat col, of_int radius * of_nat (row + col))"

definition sample_viewport :: "rat \<Rightarrow> rat \<Rightarrow> string result" where
  "sample_viewport lat lon = Inr ''@0,0,14z''"

definition sample_location :: spend_location where
  "sample_location = \<lparr>SlProject = 4, SlOrg = 7, SlPlaceID = Some ''place'', SlQueries = [('' plumber '', True), (''old'', False)],
     SlLatitude = 52, SlLongitude = 4\<rparr>"

definition found_response :: maps_response where
  "found_response = \<lparr>RespPlaces = [(''other'', 1), (''place'', 2)], RespCredits = 3\<rparr>"

definition silent_response :: maps_response where
  "silent_response = \<lparr>RespPlaces = [], RespCredits = 0\<rparr>"

definition funded :: "spend_action list" where
  "funded = [EditLocation 1 sample_location, PutOrganization True 7 (Some 100) (Some 0)]"

definition enqueued :: "spend_action list" where
  "enqueued = funded @ [Enqueue sample_destination sample_viewport ''https://maps'' 1 5000 27]"

text \<open>One call was charged, one left no charge, one is under way.\<close>

definition started :: "spend_action list" where
  "started = enqueued @ [StartRun 0, StartCell 0 0 0, RecordCell 0 0 0 found_response None, StartCell 0 0 1,
     RecordCell 0 0 1 silent_response None, StartCell 0 0 2]"

definition spend_sample :: "spend_action list \<Rightarrow> spend_system" where
  "spend_sample as = the (spend_run as spend_initial)"

lemma sample_runs: "spend_run funded spend_initial \<noteq> None" "spend_run enqueued spend_initial \<noteq> None"
    "spend_run started spend_initial \<noteq> None" "spend_run (started @ [FinishRun 0]) spend_initial \<noteq> None"
  by code_simp+

lemma sample_reachable: "spend_run as spend_initial \<noteq> None \<Longrightarrow> spend_reachable (spend_sample as)"
  unfolding spend_sample_def by (rule spend_run_reachable [OF spend_start]) auto

lemma sample_run_row:
  "map_option (\<lambda>r. (MrStatus r, MrReserved r, MrUsed r, MrProject r)) (find_maps_run 0 (SsDb (spend_sample started)))
     = Some (RunRunning, 24, 3, 4)"
  "map_option (\<lambda>r. (MrStatus r, MrReserved r, MrUsed r)) (find_maps_run 0 (SsDb (spend_sample (started @ [FinishRun 0]))))
     = Some (RunPartial, 6, 3)"
  by code_simp+

lemma sum_held_map: "sum_held f Q (map g xs) = (\<Sum>x\<leftarrow>xs. if Q (HoldOrg (g x)) then f (g x) else 0)"
  by (simp add: sum_held_def comp_def)

lemma reachable_balance:
  assumes "spend_reachable y"
  shows "balanced (SsDb y) (holders (SsDb y))" "db_inv (SsDb y)"
  using reachable_spend_inv [OF assms] by (simp_all add: spend_inv_def db_inv_def)

lemma follows_settled:
  assumes "run_follows X i r r'" "\<not> maps_run_active r"
  shows "MrStatus r' = MrStatus r" "MrReserved r' = MrReserved r" "MrUsed r' = MrUsed r" "MrError r' = MrError r"
  using assms unfolding run_follows_def by blast+

lemma follows_outcome:
  assumes "run_follows X i r r'" "find (is_cell q p) (MrCells r) = Some c" "CellOutcome c = Some oc"
  shows "map_option CellOutcome (find (is_cell q p) (MrCells r')) = Some (Some oc)"
proof -
  obtain c' where "find (is_cell q p) (MrCells r') = Some c'" "CellOutcome c \<noteq> None \<longrightarrow> CellOutcome c' = CellOutcome c"
    using assms(1,2) unfolding run_follows_def by blast
  then show ?thesis using assms(3) by simp
qed

section \<open>Properties\<close>

text \<open>
  C19: In every reachable state the credits that the platform's budget holds are exactly what the
  maps runs and the listing lookups hold, those that an organization's budget holds are exactly
  what its own runs and lookups hold, and what was spent is never less than what the rows have
  used (deleted rows have spent too).
\<close>

theorem maps_budgets_match_rows:
  assumes "spend_reachable y"
  shows "ReservedCredits (platform_budget (SsDb y))
      = (\<Sum>r\<leftarrow>maps_runs (SsDb y). MrReserved r) + (\<Sum>k\<leftarrow>listing_lookups (SsDb y). LkReserved k)
    \<and> (\<Sum>r\<leftarrow>maps_runs (SsDb y). MrUsed r) + (\<Sum>k\<leftarrow>listing_lookups (SsDb y). LkUsed k) \<le> SpentCredits (platform_budget (SsDb y))
    \<and> (\<forall>org b. organization_budgets (SsDb y) org = Some b \<longrightarrow>
        ReservedCredits b = (\<Sum>r\<leftarrow>maps_runs (SsDb y). if MrOrg r = org then MrReserved r else 0)
          + (\<Sum>k\<leftarrow>listing_lookups (SsDb y). if LkOrg k = org then LkReserved k else 0)
        \<and> (\<Sum>r\<leftarrow>maps_runs (SsDb y). if MrOrg r = org then MrUsed r else 0)
          + (\<Sum>k\<leftarrow>listing_lookups (SsDb y). if LkOrg k = org then LkUsed k else 0) \<le> SpentCredits b)"
  using reachable_balance(1) [OF assms]
  by (simp add: balanced_def covers_def holders_def sum_held_map eq_commute [of org for org :: nat] cong: if_cong)

theorem maps_budgets_match_rows_witness:
  "ReservedCredits (platform_budget (SsDb (spend_sample started)))
    = (\<Sum>r\<leftarrow>maps_runs (SsDb (spend_sample started)). MrReserved r) + (\<Sum>k\<leftarrow>listing_lookups (SsDb (spend_sample started)). LkReserved k)"
  using maps_budgets_match_rows [OF sample_reachable [OF sample_runs(3)]] by blast

text \<open>
  C20: A run that is queued or running holds three credits for each of its cells whose charge is not
  known, a settled one at most three for each started cell whose charge is not known, and a run
  has used exactly what the recorded calls of its cells were charged. At most one run of a location
  is queued or running.
\<close>

theorem run_holds_its_open_calls:
  assumes "spend_reachable y" "r \<in> set (maps_runs (SsDb y))"
  shows "(if MrStatus r = RunQueued \<or> MrStatus r = RunRunning
      then MrReserved r = 3 * int (length (filter (\<lambda>c. \<not> cell_credit_known c) (MrCells r)))
      else 0 \<le> MrReserved r
        \<and> MrReserved r \<le> 3 * int (length (filter (\<lambda>c. CellStarted c \<and> \<not> cell_credit_known c) (MrCells r))))
    \<and> MrUsed r = (\<Sum>c\<leftarrow>MrCells r. case CellOutcome c of None \<Rightarrow> 0 | Some oc \<Rightarrow> CoCredits oc)
    \<and> length (filter (\<lambda>x. MrLocation x = MrLocation r \<and> (MrStatus x = RunQueued \<or> MrStatus x = RunRunning)) (maps_runs (SsDb y))) \<le> 1"
proof -
  have "run_ok r" "single_runs (SsDb y)" using reachable_balance(2) [OF assms(1)] assms(2) by (simp_all add: db_inv_def runs_ok_def)
  then show ?thesis
    by (auto simp: run_ok_def single_runs_def maps_run_active_def open_cells_def open_started_cells_def count_cells_def
        mapsCreditsPerCall_def cell_credits_def [abs_def] split: if_splits)
qed

theorem run_holds_its_open_calls_witness:
  "\<exists>r. find_maps_run 0 (SsDb (spend_sample started)) = Some r
    \<and> MrReserved r = 3 * int (length (filter (\<lambda>c. \<not> cell_credit_known c) (MrCells r)))"
proof -
  obtain r where r: "find_maps_run 0 (SsDb (spend_sample started)) = Some r" "MrStatus r = RunRunning"
    using sample_run_row(1) by auto
  then have "r \<in> set (maps_runs (SsDb (spend_sample started)))" by (auto dest: find_maps_runD)
  from run_holds_its_open_calls [OF sample_reachable [OF sample_runs(3)] this] r show ?thesis by simp
qed

text \<open>
  C21: Finishing never fails: whatever its executor left behind, a run that exists is settled by the
  sweep, which releases three credits for each cell that was never started and keeps three for each
  started cell whose charge is not known. A run that was settled before is left as it is.
\<close>

theorem finish_always_settles:
  assumes "spend_reachable y" "find_maps_run i (SsDb y) = Some r"
  shows "\<exists>t r'. finish_maps_run i (SsDb y) = Inr t \<and> find_maps_run i t = Some r'
    \<and> MrStatus r' \<in> {RunCompleted, RunPartial, RunFailed} \<and> MrCells r' = MrCells r
    \<and> (if MrStatus r = RunQueued \<or> MrStatus r = RunRunning
       then MrReserved r' = 3 * int (length (filter (\<lambda>c. CellStarted c \<and> \<not> cell_credit_known c) (MrCells r)))
       else r' = r)"
proof -
  note inv = reachable_balance(2) [OF assms(1)]
  obtain t where t: "finish_maps_run i (SsDb y) = Inr t" "find_maps_run i t = Some (if maps_run_active r then finished_run r else r)"
    by (rule finish_maps_run_settled [OF inv assms(2)])
  have final: "MrStatus x \<in> {RunCompleted, RunPartial, RunFailed}" if "\<not> maps_run_active x" for x
    using that by (cases "MrStatus x") (simp_all add: maps_run_active_def)
  show ?thesis
  proof (cases "maps_run_active r")
    case True
    note ok = run_ok_finished [OF in_runs_ok [OF inv assms(2)] True]
    have "MrReserved (finished_run r) = 3 * int (length (filter (\<lambda>c. CellStarted c \<and> \<not> cell_credit_known c) (MrCells r)))"
      using ok(3) by (simp only: open_started_cells_def count_cells_def mapsCreditsPerCall_def)
    then show ?thesis using t True final [OF ok(2)]
      by (intro exI [of _ t] exI [of _ "finished_run r"]) (auto simp only: finished_fields maps_run_active_def if_True)
  next
    case False
    then show ?thesis using t final [OF False] by (auto simp: maps_run_active_def)
  qed
qed

theorem finish_always_settles_witness:
  "\<exists>t r'. finish_maps_run 0 (SsDb (spend_sample started)) = Inr t \<and> find_maps_run 0 t = Some r'
    \<and> MrStatus r' \<in> {RunCompleted, RunPartial, RunFailed}"
proof -
  obtain r where "find_maps_run 0 (SsDb (spend_sample started)) = Some r" using sample_run_row(1) by auto
  from finish_always_settles [OF sample_reachable [OF sample_runs(3)] this] show ?thesis by blast
qed

text \<open>
  C22: What is settled stays settled. Whatever happens next to a run that is no longer queued or
  running (short of the deletion of its location), its status, its credits and its message stay, no
  recorded outcome of a cell is ever changed, and a lookup that is no longer running does not
  change at all.
\<close>

theorem settled_maps_rows_are_final:
  assumes "spend_reachable y" "spend_perform a y = Some z"
  shows "(\<forall>i r r'. find_maps_run i (SsDb y) = Some r \<longrightarrow> find_maps_run i (SsDb z) = Some r' \<longrightarrow>
      (MrStatus r \<notin> {RunQueued, RunRunning} \<longrightarrow>
         MrStatus r' = MrStatus r \<and> MrReserved r' = MrReserved r \<and> MrUsed r' = MrUsed r \<and> MrError r' = MrError r)
      \<and> (\<forall>q p c oc. find (is_cell q p) (MrCells r) = Some c \<longrightarrow> CellOutcome c = Some oc \<longrightarrow>
           map_option CellOutcome (find (is_cell q p) (MrCells r')) = Some (Some oc)))
    \<and> (\<forall>i k k'. find_lookup i (SsDb y) = Some k \<longrightarrow> find_lookup i (SsDb z) = Some k' \<longrightarrow> LkStatus k \<noteq> LookupRunning \<longrightarrow> k' = k)"
proof (intro conjI allI impI)
  have inv: "spend_inv y" by (rule reachable_spend_inv [OF assms(1)])
  have rows: "rows_ok (SsDb y)" using inv by (simp add: spend_inv_def db_inv_def)
  have step: "runs_follow (recorded_calls a) (SsDb y) (SsDb z)" "lookups_follow (SsDb y) (SsDb z)"
    using perform_db_step [OF inv assms(2)] by (simp_all add: db_step_def)
  have follows: "run_follows (recorded_calls a) i r r'"
    if x: "find_maps_run i (SsDb y) = Some r" "find_maps_run i (SsDb z) = Some r'" for i r r'
  proof -
    have "i < next_row (SsDb y)" using rows find_maps_runD [OF x(1)] by (auto simp: rows_ok_alt)
    then obtain w where "find_maps_run i (SsDb y) = Some w" "run_follows (recorded_calls a) i w r'"
      using step(1) x(2) unfolding runs_follow_def by blast
    then show ?thesis using x(1) by simp
  qed
  fix i r r' assume r: "find_maps_run i (SsDb y) = Some r" "find_maps_run i (SsDb z) = Some r'"
  note f = follows [OF r]
  show "MrStatus r' = MrStatus r" "MrReserved r' = MrReserved r" "MrUsed r' = MrUsed r" "MrError r' = MrError r"
    if "MrStatus r \<notin> {RunQueued, RunRunning}"
    using follows_settled [OF f] that by (simp_all add: maps_run_active_def)
  show "map_option CellOutcome (find (is_cell q p) (MrCells r')) = Some (Some oc)"
    if "find (is_cell q p) (MrCells r) = Some c" "CellOutcome c = Some oc" for q p c oc
    by (rule follows_outcome [OF f that])
next
  fix i k k' assume k: "find_lookup i (SsDb y) = Some k" "find_lookup i (SsDb z) = Some k'" "LkStatus k \<noteq> LookupRunning"
  have inv: "spend_inv y" by (rule reachable_spend_inv [OF assms(1)])
  then have "i < next_row (SsDb y)" using find_lookupD [OF k(1)] by (auto simp: spend_inv_def db_inv_def rows_ok_alt)
  moreover have "lookups_follow (SsDb y) (SsDb z)" using perform_db_step [OF inv assms(2)] by (simp add: db_step_def)
  ultimately obtain x where "find_lookup i (SsDb y) = Some x" "LkStatus x \<noteq> LookupRunning \<longrightarrow> k' = x"
    using k(2) unfolding lookups_follow_def by blast
  then show "k' = k" using k(1,3) by simp
qed

theorem settled_maps_rows_are_final_witness:
  "\<exists>z r'. spend_perform (StartCell 0 0 3) (spend_sample (started @ [FinishRun 0])) = Some z
    \<and> find_maps_run 0 (SsDb z) = Some r' \<and> MrStatus r' = RunPartial \<and> MrReserved r' = 6"
proof -
  let ?y = "spend_sample (started @ [FinishRun 0])"
  obtain r where r: "find_maps_run 0 (SsDb ?y) = Some r" "MrStatus r = RunPartial" "MrReserved r = 6"
    using sample_run_row(2) by auto
  have z: "case spend_perform (StartCell 0 0 3) ?y of None \<Rightarrow> False | Some z \<Rightarrow> find_maps_run 0 (SsDb z) \<noteq> None" by code_simp
  obtain z where z: "spend_perform (StartCell 0 0 3) ?y = Some z" "find_maps_run 0 (SsDb z) \<noteq> None"
    using z by (cases "spend_perform (StartCell 0 0 3) ?y") auto
  then obtain r' where r': "find_maps_run 0 (SsDb z) = Some r'" by blast
  from conjunct1 [OF settled_maps_rows_are_final [OF sample_reachable [OF sample_runs(4)] z(1)]] r r'
  have "MrStatus r' = MrStatus r \<and> MrReserved r' = MrReserved r" by auto
  then show ?thesis using z(1) r r' by auto
qed

text \<open>
  C23: The outcome of a call that is under way is never refused while its run is running: it is
  stored, three credits of the run's reservation are released when the provider named its charge
  and none otherwise, and the charge is added to what the run has used. (The provider's figures
  fit their columns.)
\<close>

theorem running_call_is_recorded:
  assumes "spend_reachable y" "(i, q, p) \<in> SsCalls y" "find_maps_run i (SsDb y) = Some r" "MrStatus r = RunRunning"
    "response_in_range response" "MrUsed r + max 0 (RespCredits response) \<le> maxRunCredits"
  shows "\<exists>z r' c. spend_perform (RecordCell i q p response err) y = Some z \<and> find_maps_run i (SsDb z) = Some r'
    \<and> MrReserved r' = MrReserved r - (if RespCredits response > 0 then 3 else 0)
    \<and> MrUsed r' = MrUsed r + max 0 (RespCredits response)
    \<and> find (is_cell q p) (MrCells r') = Some c
    \<and> CellOutcome c = Some (local_cell_outcome (SnapTargetPlaceID (MrSnapshot r)) response err)"
proof -
  have inv: "spend_inv y" by (rule reachable_spend_inv [OF assms(1)])
  then have db: "db_inv (SsDb y)" by (simp add: spend_inv_def)
  obtain c where c: "find (is_cell q p) (MrCells r) = Some c" "CellStarted c" "CellOutcome c = None"
    using inv assms(2,3) by (fastforce simp: spend_inv_def calls_ok_def)
  let ?oc = "local_cell_outcome (SnapTargetPlaceID (MrSnapshot r)) response err"
  note oc = local_outcome_allowed [OF assms(5), of "SnapTargetPlaceID (MrSnapshot r)" err]
  have range: "MrUsed r + CoCredits ?oc \<le> maxRunCredits" using assms(6) oc(2) by (simp add: max_def split: if_splits)
  obtain u where u: "record_cell_outcome i q p ?oc (SsDb y) = Inr (update_maps_run i (recorded_run q p ?oc) u)" "maps_runs u = maps_runs (SsDb y)"
    by (rule record_accepted [OF db assms(3,4) c oc(1) range])
  have f: "find_maps_run i (update_maps_run i (recorded_run q p ?oc) u) = Some (recorded_run q p ?oc r)"
    using assms(3) u(2) by (simp add: find_update_maps_run) (simp add: find_maps_run_def)
  have t: "run_target i (SsDb y) = SnapTargetPlaceID (MrSnapshot r)" using assms(3) by (simp add: run_target_def)
  show ?thesis
    using assms(2) u(1) f oc(2,3) c(1)
    by (intro exI [of _ "y\<lparr>SsDb := update_maps_run i (recorded_run q p ?oc) u, SsCalls := SsCalls y - {(i, q, p)}\<rparr>"]
          exI [of _ "recorded_run q p ?oc r"] exI [of _ "c\<lparr>CellOutcome := Some ?oc\<rparr>"])
      (simp add: t find_set_cell max_def mapsCreditsPerCall_def)
qed

theorem running_call_is_recorded_witness:
  "\<exists>z r'. spend_perform (RecordCell 0 0 2 found_response None) (spend_sample started) = Some z
    \<and> find_maps_run 0 (SsDb z) = Some r' \<and> MrReserved r' = 21 \<and> MrUsed r' = 6"
proof -
  obtain r where r: "find_maps_run 0 (SsDb (spend_sample started)) = Some r" "MrStatus r = RunRunning" "MrReserved r = 24" "MrUsed r = 3"
    using sample_run_row(1) by auto
  have c: "(0, 0, 2) \<in> SsCalls (spend_sample started)" by code_simp
  have resp: "RespCredits found_response = 3" "response_in_range found_response"
    by (simp_all add: found_response_def response_in_range_def maxRunCredits_def)
  from running_call_is_recorded [OF sample_reachable [OF sample_runs(3)] c r(1,2) resp(2), of None] r resp c
  show ?thesis by (auto simp: maxRunCredits_def)
qed

text \<open>
  C24: What enqueueing freezes is what execution accepts: a run that was enqueued is queued, holds
  exactly the quoted credits, and its snapshot passes the validation that precedes any provider
  call.
\<close>

theorem enqueued_run_validates:
  assumes "spend_reachable y" "enqueue_run destination fv endpoint l radius expected (SsDb y) = Inr (i, t)" "endpoint \<noteq> []"
  shows "\<exists>r. find_maps_run i t = Some r \<and> MrStatus r = RunQueued \<and> MrReserved r = expected \<and> MrUsed r = 0
    \<and> validate_local_run_snapshot fv (MrSnapshot r) (MrExpected r) = None"
  by (rule frozen_snapshot_validates [OF assms(2,3) reachable_balance(2) [OF assms(1)]])

lemma sample_enqueue:
  obtains t where "enqueue_run sample_destination sample_viewport ''https://maps'' 1 5000 27 (SsDb (spend_sample funded)) = Inr (0, t)"
proof -
  have "case enqueue_run sample_destination sample_viewport ''https://maps'' 1 5000 27 (SsDb (spend_sample funded)) of
      Inl _ \<Rightarrow> False | Inr (i, t) \<Rightarrow> i = 0"
    by code_simp
  then show ?thesis using that by (auto split: sum.splits)
qed

theorem enqueued_run_validates_witness:
  "\<exists>t r. enqueue_run sample_destination sample_viewport ''https://maps'' 1 5000 27 (SsDb (spend_sample funded)) = Inr (0, t)
    \<and> find_maps_run 0 t = Some r \<and> validate_local_run_snapshot sample_viewport (MrSnapshot r) (MrExpected r) = None"
proof (rule sample_enqueue)
  fix t assume t: "enqueue_run sample_destination sample_viewport ''https://maps'' 1 5000 27 (SsDb (spend_sample funded)) = Inr (0, t)"
  show ?thesis using enqueued_run_validates [OF sample_reachable [OF sample_runs(1)] t] t by auto
qed

text \<open>
  C25: An execution refines the system's actions and ends with its run settled. Either it refuses
  before anything changes, and says so, or the state it leaves is the one reached from where it
  began by exactly these actions: start the run; of the cells of its frozen snapshot, in their
  order, start some and record each with what the provider answered (only the last may stay
  unrecorded); finish the run. The run is then no longer queued or running, whatever the provider
  answered and whenever the context was cancelled; no error is reported only if it completed.
\<close>

theorem execution_settles_its_run:
  assumes "spend_reachable y" "execute_local_visibility_run fv provider cancelled i project (SsDb y) = (err, t)"
  shows "(t = SsDb y \<and> err \<noteq> None) \<or>
    (\<exists>r0 as z r. find_maps_run i (SsDb y) = Some r0 \<and> cell_actions i provider (snapshot_cells (MrSnapshot r0)) as
      \<and> spend_run (StartRun i # as @ [FinishRun i]) y = Some z \<and> SsDb z = t \<and> spend_reachable z
      \<and> find_maps_run i t = Some r \<and> MrStatus r \<notin> {RunQueued, RunRunning} \<and> (err = None \<longrightarrow> MrStatus r = RunCompleted))"
proof -
  from execute_run_outcome [OF assms] consider "t = SsDb y \<and> err \<noteq> None"
    | r0 as z r where "find_maps_run i (SsDb y) = Some r0" "cell_actions i provider (snapshot_cells (MrSnapshot r0)) as"
      "spend_run (StartRun i # as @ [FinishRun i]) y = Some z" "SsDb z = t"
      "find_maps_run i t = Some r" "\<not> maps_run_active r" "err = None \<longrightarrow> MrStatus r = RunCompleted"
    by blast
  then show ?thesis
  proof cases
    case 2
    with spend_run_reachable [OF assms(1) 2(3)] show ?thesis by (auto simp: maps_run_active_def)
  qed simp
qed

text \<open>A provider that charges every other call, and a context that is cancelled after the fourth point.\<close>

definition moody_provider :: "string \<Rightarrow> grid_point \<Rightarrow> maps_response \<times> string option" where
  "moody_provider query point = (if even (PointIndex point) then (found_response, None) else (silent_response, Some ''timeout''))"

definition cancelled_late :: "bool \<Rightarrow> nat \<times> nat \<Rightarrow> bool" where
  "cancelled_late recorded cell = (recorded \<and> snd cell = 3)"

theorem execution_settles_its_run_witness:
  "\<exists>as z r. spend_run (StartRun 0 # as @ [FinishRun 0]) (spend_sample enqueued) = Some z
    \<and> execute_local_visibility_run sample_viewport moody_provider cancelled_late 0 4 (SsDb (spend_sample enqueued))
      = (Some ''local visibility run did not complete'', SsDb z)
    \<and> find_maps_run 0 (SsDb z) = Some r \<and> MrStatus r \<notin> {RunQueued, RunRunning} \<and> MrUsed r = 6"
proof -
  let ?x = "execute_local_visibility_run sample_viewport moody_provider cancelled_late 0 4 (SsDb (spend_sample enqueued))"
  have x: "fst ?x = Some ''local visibility run did not complete''" "map_option MrUsed (find_maps_run 0 (snd ?x)) = Some 6"
    "map_option MrUsed (find_maps_run 0 (SsDb (spend_sample enqueued))) = Some 0"
    by code_simp+
  have c: "snd ?x \<noteq> SsDb (spend_sample enqueued)" using x(2,3) by auto
  have e: "?x = (fst ?x, snd ?x)" by simp
  from execution_settles_its_run [OF sample_reachable [OF sample_runs(2)] e] c obtain as z r
    where "spend_run (StartRun 0 # as @ [FinishRun 0]) (spend_sample enqueued) = Some z" "SsDb z = snd ?x"
      "find_maps_run 0 (snd ?x) = Some r" "MrStatus r \<notin> {RunQueued, RunRunning}"
    by blast
  with x(1,2) show ?thesis by (intro exI [of _ as] exI [of _ z] exI [of _ r]) (simp add: prod_eq_iff)
qed

text \<open>
  C26: A run whose calls all succeed at the usual price completes: enqueued in any reachable state
  and executed without cancellation, it ends completed without an error, holds nothing and has used
  exactly the credits it was quoted.
\<close>

theorem good_run_completes_at_quote:
  assumes "spend_reachable y" "enqueue_run destination fv endpoint l radius expected (SsDb y) = Inr (i, t)" "endpoint \<noteq> []"
    "\<forall>query point. snd (provider query point) = None \<and> RespCredits (fst (provider query point)) = 3
       \<and> response_in_range (fst (provider query point))"
    "map_option SlProject (spend_locations (SsDb y) l) = Some project"
  shows "\<exists>u r. execute_local_visibility_run fv provider (\<lambda>_ _. False) i project t = (None, u) \<and> find_maps_run i u = Some r
    \<and> MrStatus r = RunCompleted \<and> MrReserved r = 0 \<and> MrUsed r = expected"
  by (rule good_run_completes [OF reachable_balance(2) [OF assms(1)] assms(2,3) _ assms(5)])
    (use assms(4) in \<open>simp add: good_response_def mapsCreditsPerCall_def\<close>)

theorem good_run_completes_at_quote_witness:
  "\<exists>t u r. enqueue_run sample_destination sample_viewport ''https://maps'' 1 5000 27 (SsDb (spend_sample funded)) = Inr (0, t)
    \<and> execute_local_visibility_run sample_viewport (\<lambda>_ _. (found_response, None)) (\<lambda>_ _. False) 0 4 t = (None, u)
    \<and> find_maps_run 0 u = Some r \<and> MrStatus r = RunCompleted \<and> MrUsed r = 27"
proof (rule sample_enqueue)
  fix t assume t: "enqueue_run sample_destination sample_viewport ''https://maps'' 1 5000 27 (SsDb (spend_sample funded)) = Inr (0, t)"
  have "map_option SlProject (spend_locations (SsDb (spend_sample funded)) 1) = Some 4" by code_simp
  moreover have "RespCredits found_response = 3 \<and> response_in_range found_response"
    by (simp add: found_response_def response_in_range_def maxRunCredits_def)
  ultimately show ?thesis
    using good_run_completes_at_quote [OF sample_reachable [OF sample_runs(1)] t, of "\<lambda>_ _. (found_response, None)" 4] t by auto
qed

text \<open>
  C27: The figures of the summary add up. In the summary that finishing a run puts in its message,
  the successful, failed, unstarted and unanswered calls together are all the run's calls, the
  credits it says stay held are those the run holds afterwards, and the calls with unconfirmed
  charges are those it holds them for, three credits each.
\<close>

theorem summary_adds_up:
  assumes "spend_reachable y" "find_maps_run i (SsDb y) = Some r" "MrStatus r \<in> {RunQueued, RunRunning}"
  shows "let s = summarize_run_outcome (MrCells r) (MrReserved r) in
    SumSuccessful s + SumRequestFailed s + SumUnstarted s + SumStartedPending s = SumTotal s
    \<and> SumHeld s = 3 * int (SumAmbiguous s)
    \<and> (\<forall>t. finish_maps_run i (SsDb y) = Inr t \<longrightarrow> map_option MrReserved (find_maps_run i t) = Some (SumHeld s)
         \<and> map_option MrStatus (find_maps_run i t) = Some (SumStatus s))"
proof -
  note inv = reachable_balance(2) [OF assms(1)]
  have a: "maps_run_active r" using assms(3) by (auto simp: maps_run_active_def)
  note ok = in_runs_ok [OF inv assms(2)]
  let ?s = "summarize_run_outcome (MrCells r) (MrReserved r)"
  have cells: "\<forall>c \<in> set (MrCells r). cell_ok c" using ok by (simp add: run_ok_def)
  have "\<forall>c \<in> set cs. cell_ok c \<Longrightarrow> count_cells cell_successful cs + count_cells cell_request_failed cs
      + count_cells (\<lambda>c. \<not> CellStarted c) cs + count_cells (\<lambda>c. CellStarted c \<and> CellOutcome c = None) cs = length cs" for cs
    by (induction cs) (auto simp: cell_ok_def cell_successful_def cell_request_failed_def split: option.splits)
  then have sum: "SumSuccessful ?s + SumRequestFailed ?s + SumUnstarted ?s + SumStartedPending ?s = SumTotal ?s"
    using cells by (simp add: summarize_run_outcome_def Let_def)
  have fin: "MrReserved (finished_run r) = SumHeld ?s" "MrStatus (finished_run r) = SumStatus ?s"
    by (simp_all add: finished_run_def Let_def) (simp add: summarize_run_outcome_def Let_def)
  have held: "SumHeld ?s = 3 * int (SumAmbiguous ?s)"
    using run_ok_finished(3) [OF ok a] fin(1) by (simp add: summarize_run_outcome_def Let_def open_started_cells_def mapsCreditsPerCall_def)
  obtain t where t: "finish_maps_run i (SsDb y) = Inr t" "find_maps_run i t = Some (if maps_run_active r then finished_run r else r)"
    by (rule finish_maps_run_settled [OF inv assms(2)])
  show ?thesis unfolding Let_def using sum held t a fin by (simp del: finished_fields)
qed

theorem summary_adds_up_witness:
  "\<exists>r. find_maps_run 0 (SsDb (spend_sample started)) = Some r
    \<and> SumHeld (summarize_run_outcome (MrCells r) (MrReserved r)) = 6"
proof -
  obtain r where r: "find_maps_run 0 (SsDb (spend_sample started)) = Some r" "MrStatus r = RunRunning"
    using sample_run_row(1) by auto
  have "map_option (\<lambda>r. SumAmbiguous (summarize_run_outcome (MrCells r) (MrReserved r))) (find_maps_run 0 (SsDb (spend_sample started))) = Some 2"
    by code_simp
  with summary_adds_up [OF sample_reachable [OF sample_runs(3)] r(1)] r show ?thesis by (simp add: Let_def)
qed

section \<open>A call that starts after the sweep\<close>

text \<open>
  The statement that starts a cell does not look at the status of its run. An executor that is still
  at work when the sweep finishes its run therefore starts another cell and calls the provider;
  the outcome of that call, its charge included, can then not be recorded any more.
\<close>

lemma case_some: "(case x of None \<Rightarrow> False | Some z \<Rightarrow> P z) \<Longrightarrow> \<exists>z. x = Some z \<and> P z"
  by (cases x) auto

lemma call_after_sweep_is_lost:
  "\<exists>y z. spend_reachable y \<and> map_option MrStatus (find_maps_run 0 (SsDb y)) = Some RunPartial
    \<and> spend_perform (StartCell 0 0 3) y = Some z \<and> (0, 0, 3) \<in> SsCalls z
    \<and> spend_perform (RecordCell 0 0 3 found_response None) z = None"
proof -
  let ?y = "spend_sample (started @ [FinishRun 0])"
  have "case spend_perform (StartCell 0 0 3) ?y of None \<Rightarrow> False
      | Some z \<Rightarrow> (0, 0, 3) \<in> SsCalls z \<and> spend_perform (RecordCell 0 0 3 found_response None) z = None"
    by code_simp
  then obtain z where "spend_perform (StartCell 0 0 3) ?y = Some z" "(0, 0, 3) \<in> SsCalls z"
    "spend_perform (RecordCell 0 0 3 found_response None) z = None"
    by (blast dest: case_some)
  moreover have "map_option MrStatus (find_maps_run 0 (SsDb ?y)) = Some RunPartial" by code_simp
  ultimately show ?thesis using sample_reachable [OF sample_runs(4)] by blast
qed

section \<open>A free lookup whose request was interrupted\<close>

text \<open>
  A lookup stays running when the process that searched dies before it records the result, and
  nothing sweeps lookups: from then on its location takes no other lookup and cannot be deleted.
\<close>

lemma running_lookup_blocks_location:
  assumes "k \<in> set (listing_lookups s)" "LkLocation k = l" "LkStatus k = LookupRunning"
  shows "\<exists>e. delete_location l s = Inl e"
    "start_places_listing_lookup l sel s = Inr (k', created, t) \<Longrightarrow> \<not> created \<and> t = s"
proof -
  have u: "list_ex (\<lambda>k. LkLocation k = l \<and> lookup_unsettled k) (listing_lookups s)"
    using assms by (auto simp: list_ex_iff lookup_unsettled_def)
  then show "\<exists>e. delete_location l s = Inl e" by (simp add: delete_location_def)
  assume t: "start_places_listing_lookup l sel s = Inr (k', created, t)"
  have none: "create_listing_lookup l org query key 0 True s \<noteq> Inr x" for org query key x
    using u by (simp add: create_listing_lookup_def)
  obtain query key where v: "validated_selection sel = Inr (query, key)" using t by (auto simp: start_places_listing_lookup_def)
  obtain loc where "spend_locations s l = Some loc"
    using t by (cases "spend_locations s l") (auto simp: start_places_listing_lookup_def v)
  then show "\<not> created \<and> t = s" using t none
    by (auto simp: start_places_listing_lookup_def v split: option.split_asm if_split_asm)
qed

definition unbound_location :: spend_location where
  "unbound_location = sample_location\<lparr>SlPlaceID := None\<rparr>"

definition sample_selection :: lookup_selection where
  "sample_selection = \<lparr>SelQuery = ''plumber'', SelCandidateKey = ''key'', SelLatitude = 52, SelLongitude = 4\<rparr>"

lemma interrupted_lookup_is_never_swept:
  "\<exists>y. spend_reachable y \<and> spend_perform (StartPlaces 1 sample_selection) y = None
    \<and> spend_perform (ReserveLookup 1 sample_selection) y = None \<and> spend_perform (DeleteLocation 1) y = None"
proof -
  let ?as = "[PutOrganization True 7 (Some 100) (Some 0), EditLocation 1 unbound_location, StartPlaces 1 sample_selection]"
  have "spend_run ?as spend_initial \<noteq> None" by code_simp
  then have "spend_reachable (spend_sample ?as)" by (rule sample_reachable)
  moreover have "spend_perform (StartPlaces 1 sample_selection) (spend_sample ?as) = None"
    "spend_perform (ReserveLookup 1 sample_selection) (spend_sample ?as) = None"
    "spend_perform (DeleteLocation 1) (spend_sample ?as) = None"
    by code_simp+
  ultimately show ?thesis by blast
qed

end
