(* ===== verification/Spec2Isabelle.thy ===== *)
theory Spec2Isabelle
  imports CrawlConfig CrawlProperties PoolRefinement DuplicateProperties GapProperties WebsiteScope Utf8Cut WorkerFindings MapsProperties
begin

text \<open>
  A verification library for Revserp, a service that crawls a web site, derives SEO, AEO and
  PageSpeed issues from what it found and scores the site, compares it with competitors, and runs
  background workflows that set up a project, its locations and its competitors. Modelled are the
  crawler (\<open>internal/crawler\<close>), the issues (\<open>internal/issues\<close>), the competitor gap report
  (\<open>internal/competitorgaps\<close>), the scope of connected pages (\<open>internal/websitescope\<close>), and the
  three durable setup workflows with the job queue and the worker that drive them
  (\<open>internal/projectsetup\<close>, \<open>competitorsetup\<close>, \<open>locationsetup\<close>, \<open>aiaudit\<close>), and the spending of Google
  Maps credits by ranking runs and listing lookups (\<open>internal/localvisibility\<close>).

  How the parts interact. The crawl runner (\<open>crawler/runner.go\<close>) owns the run state: it seeds a
  queue from the root URL and the sitemaps, sends jobs to a pool of worker goroutines
  (\<open>pool.go\<close>), receives their results, persists them in batches through the store
  (\<open>store.go\<close>), and expands the links of each page into new jobs under the scope, exclusion,
  depth and page limits of its configuration (\<open>config.go\<close>, \<open>exclude.go\<close>, \<open>normalize.go\<close>,
  \<open>robots.go\<close>). A worker fetches (\<open>fetcher.go\<close>) with retries, per-host cooldowns and
  conditional requests, may fall back to a rendered page (\<open>render_detector.go\<close>) and returns one
  result per job (\<open>worker.go\<close>). After the crawl, \<open>issues/facts.go\<close> turns the stored rows into
  page and link facts, \<open>issues/derive.go\<close> splits them into broken and healthy pages and runs the
  rules of the three pillars (\<open>seo\<close>, \<open>aeo\<close>, \<open>page_speed\<close>); \<open>issues/score.go\<close> and
  \<open>shared/scoring_helpers.go\<close> compute bucket, pillar and overall scores from the issues,
  \<open>potential.go\<close> what fixing buckets would gain, \<open>page_health.go\<close> a score per page.

  The setup workflows share one database. A setup row names the step it is in; advancing it and
  enqueueing the job of the next step are one transaction; a worker claims a job, does the work and
  settles the job and the setup in one transaction (\<open>aiaudit/worker.go\<close>, \<open>setup_finalization.go\<close>);
  sweeps reclaim what a crashed worker left behind, reconcile competitor setups with their crawls
  and launch what is pending; members start and resume setups.

  A ranking run quotes and reserves its credits in two budgets, of the platform and of the
  organization, freezes what it will search in a snapshot, and is executed cell by cell (a query at
  a grid point, one paid provider call each); each call settles its charge in the run and in both
  budgets, finishing releases what was never started and keeps what may still be charged
  (\<open>run_storage.go\<close>, \<open>run_execution.go\<close>). The worker's sweep finishes runs whose job failed, possibly
  while their executor still works.

  Theories and the code they model.
    \<^item> \<open>Prelude\<close>: results (an error string or a value), Go string functions, wrap-around of 64-bit
      durations. \<open>GoUrl\<close>: the part of \<open>net/url\<close> that the source uses. \<open>Json\<close>: the decoder of
      \<open>encoding/json\<close> as a lexer and a parser without fuel, into \<open>any\<close> and \<open>map[string]string\<close>.
      \<open>Float64\<close>: binary64 as the exact rationals it can represent, each operation rounding the
      exact result to nearest even.
    \<^item> \<open>Normalize\<close>, \<open>Exclude\<close>, \<open>CrawlConfig\<close>, \<open>CrawlTypes\<close>: \<open>normalize.go\<close>, \<open>exclude.go\<close>,
      \<open>config.go\<close>, \<open>types.go\<close>.
    \<^item> \<open>Fetcher\<close>, \<open>Robots\<close>, \<open>Sitemap\<close>, \<open>PageProcessing\<close>, \<open>Baseline\<close>, \<open>Store\<close>, \<open>Pool\<close>: the files of
      the same names, \<open>PageProcessing\<close> being \<open>worker.go\<close>, \<open>soft404.go\<close> and \<open>render_detector.go\<close>,
      \<open>Baseline\<close> the loading half of \<open>incremental.go\<close>. \<open>PoolRefinement\<close> relates the pool to its
      abstract specification, a bag of jobs.
    \<^item> \<open>Frontier\<close>, \<open>Runner\<close>, \<open>RunnerFacts\<close>, \<open>Crawl\<close>, \<open>CrawlProperties\<close>: \<open>runner.go\<close>. \<open>Frontier\<close> has
      the run state and the scheduling of URLs, \<open>Runner\<close> one operation per branch of the loop,
      \<open>Crawl\<close> the step relation of the loop together with the pool, whose steps interleave freely.
    \<^item> \<open>IssueShared\<close>, \<open>Scoring\<close>, \<open>ScoreConfig\<close>: \<open>issues/shared\<close>, \<open>score.go\<close>, \<open>scoring_config.go\<close> and
      the tables of the three pillars. \<open>Potential\<close>, \<open>PageHealth\<close>: \<open>potential.go\<close>,
      \<open>page_health.go\<close>. \<open>DefaultConfig\<close>, \<open>ScoreFacts\<close>,
      \<open>ScoreProperties\<close>: what is proved of them.
    \<^item> \<open>SeoText\<close>, \<open>SeoDerive\<close>: \<open>issues/seo\<close>. \<open>Aeo\<close>, \<open>AeoDerive\<close>: \<open>issues/aeo\<close>. \<open>IssueDerive\<close>: \<open>facts.go\<close>,
      \<open>page_speed/derive.go\<close>, \<open>derive.go\<close>. \<open>IssueProperties\<close>, \<open>DuplicateProperties\<close>: what is proved
      of the derivation.
    \<^item> \<open>GapHops\<close>, \<open>GapReport\<close>: \<open>competitorgaps\<close>: the distances from the home page, and the slices
      and rows of the report. \<open>GapProperties\<close>: what is proved of them.
    \<^item> \<open>WebsiteScope\<close>: \<open>websitescope/scope.go\<close>.
    \<^item> \<open>WorkerDb\<close>: the tables and SQL statements (\<open>internal/db/sqlc\<close>) the workflows run.
      \<open>ProjectSetup\<close>, \<open>CompetitorSetup\<close>, \<open>LocationSetup\<close>: the three workflows. \<open>WorkerSystem\<close>: how
      the worker settles a job, and \<open>system_step\<close>, the interleaving of all workers, crawls, sweeps
      and requests. \<open>WorkerSample\<close>: concrete runs. \<open>Utf8Cut\<close>: the cut of error messages.
    \<^item> The invariant of that system, \<open>system_ok\<close>: \<open>WorkerFacts\<close> has the tables and how they evolve;
      \<open>LocationInvariant\<close>, \<open>ProjectInvariant\<close>, \<open>CompetitorInvariant\<close> one conjunct per workflow;
      \<open>LocationFrames\<close>, \<open>LocationOps\<close>, \<open>SharedFrames\<close> which tables and rows an operation may change;
      \<open>LocationSteps\<close>, \<open>LocationLaunches\<close>, \<open>LocationPreserved\<close>, \<open>ProjectPreserved\<close>,
      \<open>ProjectCrawls\<close>, \<open>CompetitorPreserved\<close> that every operation preserves them; \<open>SystemInvariant\<close>
      and \<open>SystemReachable\<close> put them together. \<open>WorkerIsolation\<close>, \<open>WorkerFinality\<close>, \<open>WorkerLedger\<close>
      and \<open>WorkerProperties\<close> draw the consequences.
    \<^item> \<open>MapsBudget\<close>: the tables of Maps spending, their statements, and the interface
      \<open>credit_budget\<close> of a budget with its interpretation. \<open>MapsRuns\<close>: \<open>run_storage.go\<close>,
      \<open>run_execution.go\<close>, \<open>grid_geometry.go\<close>. \<open>ListingLookups\<close>: the two lookup files, the allowances of
      \<open>app/admin_maps_budget.go\<close> and the deletion of a location. \<open>MapsSpend\<close>: the
      accounts of the budgets and of one run. \<open>MapsInvariant\<close>, \<open>MapsOperations\<close>,
      \<open>MapsLookupInvariant\<close>: the invariant of the tables and that every operation keeps it.
      \<open>MapsSteps\<close>, \<open>MapsReachable\<close>: the system of members, executors, sweep and administrators.
      \<open>MapsExecution\<close>, \<open>MapsCompletion\<close>, \<open>MapsProperties\<close>: an execution is a run of that system, and
      what is proved of it.

  How state and effects appear. The run state is a record that every operation returns updated;
  the calls to the store are a log in it, each with the answer the store gave, so that "marked
  failed once" or "stored once" is a statement about the log. The pool is a record of the job
  buffer and one worker state per goroutine; a step of a goroutine is a \<open>pool_step\<close>. The clock,
  HTTP answers, the HTML and XML parsers, gzip, SHA-256 and the answers of the database are
  arguments. Errors are the left side of a sum. For the workflows the state is the database, one
  record with a list or map per table; a transaction is one function from database to database
  whose error leaves the database as it was; the set of jobs some worker is carrying out is kept
  beside it, so that a job may be reclaimed while its worker still runs and settles it later.

  What the lemmas show. Crawl: scope, limits, termination, progress (a live crawl can always go on
  and complete by steps of its own), one final status on every exit, no page stored twice,
  everything fetched is stored before completion, every job is accounted for.
  Matching: excluded wildcards and robots patterns against their languages. Fetching: number of
  requests and shape of the result; backoff bounds. Scores: ranges, independence of the order of
  rows, monotonicity (more issues never raise page health, a simulated fix never loses points).
  Issues: every issue names a page of the crawl and is known to the tables of weights, penalties
  and fixes; a broken page has exactly one issue; the duplicate rules fire exactly on shared
  values.

  Workflows: no setup is ever stuck (each step that runs is carried by a job that is pending or
  running, or is failed by the next sweep), at most one job per class is active, settling a job
  moves only the setup it concerns (the project's only while it waits for a job of this type; an
  audit need not be the one the setup created, see \<open>WorkerFindings\<close>), a completed setup is final, a resume always finds its step, and
  budgets: each audit and each maps run is reserved when it is launched.

  Maps spending: budgets hold exactly what the rows hold, an active run holds three credits for
  each call whose charge is not known, finishing never fails and releases exactly what was never
  started, a call of a running run can always be recorded, settled rows are final, an enqueued
  snapshot always validates, every execution is a run of the system's actions on its own cells and
  leaves its run settled, and a run whose calls succeed
  completes at its quote.

  Bounds and fuel. The workflows have no loops but folds over their inputs. The retry loop is bounded by its attempts and the sitemap loop by its document
  cap, as in the code; the crawl loop has no fuel, its termination is a weight that every step
  lowers. JSON parsing is structural. Nesting deeper than 10000 is an error, as in the decoder.

  Not modelled. SQL statements beyond those of the workflows, and what the crawl store does behind
  an answer; timers and real time; cancellation of the context inside a derivation (it returns the
  context's error and no issues); infinities and NaN, which finite scores never reach; 32-bit
  overflow of counters read from the database, which are integers here; invalid UTF-8 in JSON, and
  non-ASCII case mapping and white space (strings are bytes). Of the workflows: the work of a job
  itself (prompts and calls to model and search providers), the deletion of
  projects, crawls and competitors (except failed child crawls), and time stamps. Of Maps spending:
  the spherical trigonometry of a grid point and the text of a viewport (parameters), the encoding
  of the snapshot as JSON, memberships, what an administrator reconciles by hand, and the errors of
  the database and the context when a run or a cell is started (an execution meets refused calls, a
  failing provider, and cancellation between cells). The end of the crawl loop (closing the job
  channel, draining the results, the last flushes and the completed mark) is one step.
  The HTML parser, the renderer and the SSRF guard, which are layers over third-party
  or operating system code; the HTTP application, which decodes requests and encodes rows; the
  chat tools and their worker, the mail and the clients of other services, whose behaviour is that
  of the services; the rest of the generated database layer, which has no logic of its own.
\<close>

end
